(* ===== verification/Prelude.thy ===== *)
theory Prelude
  imports Main "HOL-Library.Multiset"
begin

text \<open>
  Generic material shared by every component: the Python exceptions the modelled code raises,
  an exception-state monad in which methods with side effects are written (the state survives
  an exception, as database writes and attribute assignments survive a Python \<open>raise\<close>),
  loop combinators, and the \<open>keeps\<close> calculus that proves a state predicate preserved by a
  method on its normal and on its exceptional exits.
\<close>

section \<open>Exceptions\<close>

text \<open>The exceptions the modelled Python code raises or lets escape.\<close>

datatype exn =
    AssertionError
  | AttributeError
  | KeyError
  | IndexError
  | TypeError
  | ValueError
  | RuntimeError
  | NotImplementedError
  | IntegrityError        \<comment> \<open>a row that violates a NOT NULL column\<close>
  | DoesNotExist          \<comment> \<open>Django: \<open>objects.get\<close> without a matching row\<close>
  | DBError               \<comment> \<open>scheduler_models.DBError\<close>
  | SchedulerError        \<comment> \<open>host_scheduler.SchedulerError\<close>
  | DroneManagerError     \<comment> \<open>drone_manager.DroneManagerError\<close>
  | PidfileException      \<comment> \<open>PidfileRunMonitor._PidfileException\<close>
  | PlainException        \<comment> \<open>\<open>raise Exception(...)\<close>\<close>
  | ValidationError       \<comment> \<open>frontend.afe.model_logic.ValidationError\<close>
  | InconsistencyException \<comment> \<open>rpc_utils.InconsistencyException\<close>
  | AclAccessViolation    \<comment> \<open>frontend.afe.model_logic.AclAccessViolation\<close>
  | InstallServerUnavailable \<comment> \<open>monitor_db_cleanup.InstallServerUnavailable\<close>
  | DroneCallError        \<comment> \<open>whatever a call executed on a drone raises\<close>
  | IOError               \<comment> \<open>a file that cannot be opened\<close>
  | OSError               \<comment> \<open>a file or directory the operating system refuses\<close>
  | UnboundLocalError     \<comment> \<open>a local variable read before it was assigned\<close>
  | UnpicklingError       \<comment> \<open>whatever \<open>pickle.load\<close> raises on a file it did not write\<close>
  | BarrierError          \<comment> \<open>error.BarrierError\<close>
  | BarrierAbortError     \<comment> \<open>base_barrier.BarrierAbortError\<close>
  | SocketTimeout         \<comment> \<open>socket.timeout\<close>
  | SocketError           \<comment> \<open>any other socket.error\<close>
  | TestException string  \<comment> \<open>\<open>error.TestBaseException\<close> with its \<open>exit_status\<close>\<close>
  | JobError              \<comment> \<open>\<open>error.JobError\<close> and \<open>UnhandledJobError\<close>\<close>
  | StepError             \<comment> \<open>\<open>client.job.StepError\<close>\<close>
  | JobContinue           \<comment> \<open>\<open>error.JobContinue\<close>, a SystemExit\<close>
  | JobComplete           \<comment> \<open>\<open>error.JobComplete\<close>, a SystemExit\<close>
  | AutoservError         \<comment> \<open>\<open>error.AutoservError\<close>\<close>
  | SubcommandError       \<comment> \<open>\<open>error.AutoservSubcommandError\<close>\<close>
  | EOFError              \<comment> \<open>\<open>pickle.load\<close> of an empty file\<close>
  | NameError
  | ControlVariableException \<comment> \<open>\<open>control_data.ControlVariableException\<close>\<close>

text \<open>Sequencing of pure computations that may raise.\<close>

definition sbind :: "exn + 'a \<Rightarrow> ('a \<Rightarrow> exn + 'b) \<Rightarrow> exn + 'b" where
  "sbind r f = (case r of Inl e \<Rightarrow> Inl e | Inr x \<Rightarrow> f x)"

lemma sbind_simps [simp]: "sbind (Inl e) f = Inl e" "sbind (Inr x) f = f x"
  by (simp_all add: sbind_def)

lemma sbind_Inr: "sbind r f = Inr y \<longleftrightarrow> (\<exists>x. r = Inr x \<and> f x = Inr y)"
  by (cases r) simp_all

section \<open>The exception-state monad\<close>

type_synonym ('s, 'a) exm = "'s \<Rightarrow> (exn + 'a) \<times> 's"

definition ret :: "'a \<Rightarrow> ('s, 'a) exm" where
  "ret x = (\<lambda>s. (Inr x, s))"

definition throw :: "exn \<Rightarrow> ('s, 'a) exm" where
  "throw e = (\<lambda>s. (Inl e, s))"

definition bnd :: "('s, 'a) exm \<Rightarrow> ('a \<Rightarrow> ('s, 'b) exm) \<Rightarrow> ('s, 'b) exm" where
  "bnd m f = (\<lambda>s. case m s of (Inl e, t) \<Rightarrow> (Inl e, t) | (Inr x, t) \<Rightarrow> f x t)"

definition andthen :: "('s, 'a) exm \<Rightarrow> ('s, 'b) exm \<Rightarrow> ('s, 'b) exm" where
  "andthen m n = bnd m (\<lambda>_. n)"

definition gets :: "('s \<Rightarrow> 'a) \<Rightarrow> ('s, 'a) exm" where
  "gets f = (\<lambda>s. (Inr (f s), s))"

definition modify :: "('s \<Rightarrow> 's) \<Rightarrow> ('s, unit) exm" where
  "modify f = (\<lambda>s. (Inr (), f s))"

definition assert_that :: "bool \<Rightarrow> ('s, unit) exm" where
  "assert_that b = (if b then ret () else throw AssertionError)"

definition when_do :: "bool \<Rightarrow> ('s, unit) exm \<Rightarrow> ('s, unit) exm" where
  "when_do b m = (if b then m else ret ())"

text \<open>Unwrap an optional value or raise \<open>e\<close>.\<close>

definition some_or :: "exn \<Rightarrow> 'a option \<Rightarrow> ('s, 'a) exm" where
  "some_or e x = (case x of None \<Rightarrow> throw e | Some y \<Rightarrow> ret y)"

text \<open>A pure result of type \<open>exn + 'a\<close> as a computation.\<close>

definition lift_sum :: "exn + 'a \<Rightarrow> ('s, 'a) exm" where
  "lift_sum r = (\<lambda>s. (r, s))"

definition catch :: "('s, 'a) exm \<Rightarrow> (exn \<Rightarrow> ('s, 'a) exm) \<Rightarrow> ('s, 'a) exm" where
  "catch m h = (\<lambda>s. case m s of (Inl e, t) \<Rightarrow> h e t | (Inr x, t) \<Rightarrow> (Inr x, t))"

text \<open>\<open>try: m finally: h\<close>; an exception of \<open>h\<close> replaces the outcome of \<open>m\<close>.\<close>

definition finally_do :: "('s, 'a) exm \<Rightarrow> ('s, unit) exm \<Rightarrow> ('s, 'a) exm" where
  "finally_do m h = (\<lambda>s. case m s of (r, t) \<Rightarrow> (case h t of (Inl e, u) \<Rightarrow> (Inl e, u) | (Inr _, u) \<Rightarrow> (r, u)))"

text \<open>\<open>for x in xs: f(x)\<close>\<close>

primrec for_each :: "'a list \<Rightarrow> ('a \<Rightarrow> ('s, unit) exm) \<Rightarrow> ('s, unit) exm" where
  "for_each [] f = ret ()"
| "for_each (x # xs) f = andthen (f x) (for_each xs f)"

text \<open>\<open>[f(x) for x in xs]\<close>\<close>

primrec map_each :: "'a list \<Rightarrow> ('a \<Rightarrow> ('s, 'b) exm) \<Rightarrow> ('s, 'b list) exm" where
  "map_each [] f = ret []"
| "map_each (x # xs) f = bnd (f x) (\<lambda>y. bnd (map_each xs f) (\<lambda>ys. ret (y # ys)))"

text \<open>A loop that carries a local accumulator.\<close>

primrec fold_each :: "'a list \<Rightarrow> 'b \<Rightarrow> ('a \<Rightarrow> 'b \<Rightarrow> ('s, 'b) exm) \<Rightarrow> ('s, 'b) exm" where
  "fold_each [] acc f = ret acc"
| "fold_each (x # xs) acc f = bnd (f x acc) (\<lambda>acc'. fold_each xs acc' f)"

text \<open>Run a computation on one component of a larger state.\<close>

definition zoom :: "('s \<Rightarrow> 't) \<Rightarrow> ('t \<Rightarrow> 's \<Rightarrow> 's) \<Rightarrow> ('t, 'a) exm \<Rightarrow> ('s, 'a) exm" where
  "zoom get put m = (\<lambda>s. case m (get s) of (r, t) \<Rightarrow> (r, put t s))"

section \<open>Equations of the monad\<close>

named_theorems exm_defs \<open>definitions of the monad, for running a method on a concrete state\<close>

lemmas exm_basic [exm_defs] = ret_def throw_def bnd_def andthen_def gets_def modify_def
  assert_that_def when_do_def some_or_def lift_sum_def catch_def finally_do_def zoom_def

lemma bnd_ret [simp]: "bnd (ret x) f = f x"
  by (simp add: bnd_def ret_def)

lemma bnd_throw [simp]: "bnd (throw e) f = throw e"
  by (simp add: bnd_def throw_def)

lemma bnd_assoc: "bnd (bnd m f) g = bnd m (\<lambda>x. bnd (f x) g)"
  by (auto simp: bnd_def fun_eq_iff split: prod.splits sum.splits)

lemma bnd_Inr: "bnd m f s = (Inr y, t) \<longleftrightarrow> (\<exists>x s'. m s = (Inr x, s') \<and> f x s' = (Inr y, t))"
  by (auto simp: bnd_def split: prod.splits sum.splits)

lemma andthen_Inr:
  "andthen m n s = (Inr y, t) \<longleftrightarrow> (\<exists>x s'. m s = (Inr x, s') \<and> n s' = (Inr y, t))"
  by (simp add: andthen_def bnd_Inr)

lemma gets_Inr [simp]: "gets f s = (Inr y, t) \<longleftrightarrow> y = f s \<and> t = s"
  by (auto simp: gets_def)

lemma ret_Inr [simp]: "ret x s = (Inr y, t) \<longleftrightarrow> y = x \<and> t = s"
  by (auto simp: ret_def)

lemma throw_Inr [simp]: "throw e s \<noteq> (Inr y, t)"
  by (simp add: throw_def)

lemma modify_Inr [simp]: "modify f s = (Inr y, t) \<longleftrightarrow> t = f s"
  by (auto simp: modify_def)

lemma assert_that_Inr [simp]: "assert_that b s = (Inr y, t) \<longleftrightarrow> b \<and> t = s"
  by (auto simp: assert_that_def ret_def throw_def)

lemma some_or_Inr [simp]: "some_or e x s = (Inr y, t) \<longleftrightarrow> x = Some y \<and> t = s"
  by (auto simp: some_or_def split: option.splits)

lemma lift_sum_Inr [simp]: "lift_sum r s = (Inr y, t) \<longleftrightarrow> r = Inr y \<and> t = s"
  by (auto simp: lift_sum_def)

lemmas exm_Inr = bnd_Inr andthen_Inr

text \<open>Running step by step: used to evaluate a method when each step's result is known.\<close>

lemma bnd_run: "m s = (Inr x, s') \<Longrightarrow> bnd m f s = f x s'"
  by (simp add: bnd_def)

lemma bnd_run_err: "m s = (Inl e, s') \<Longrightarrow> bnd m f s = (Inl e, s')"
  by (simp add: bnd_def)

lemma andthen_run: "m s = (Inr x, s') \<Longrightarrow> andthen m n s = n s'"
  by (simp add: andthen_def bnd_run)

lemma andthen_run_err: "m s = (Inl e, s') \<Longrightarrow> andthen m n s = (Inl e, s')"
  by (simp add: andthen_def bnd_run_err)

lemma gets_bnd [simp]: "bnd (gets f) g s = g (f s) s"
  by (simp add: bnd_def gets_def)

lemma modify_andthen [simp]: "andthen (modify f) m s = m (f s)"
  by (simp add: andthen_def bnd_def modify_def)

lemma ret_andthen [simp]: "andthen (ret x) m = m"
  by (simp add: andthen_def)

lemma throw_andthen [simp]: "andthen (throw e) m = throw e"
  by (simp add: andthen_def)

lemma when_do_simps [simp]: "when_do True m = m" "when_do False m = ret ()"
  by (simp_all add: when_do_def)

lemma assert_that_simps [simp]:
  "assert_that True = ret ()" "assert_that False = throw AssertionError"
  by (simp_all add: assert_that_def)

lemma some_or_simps [simp]: "some_or e None = throw e" "some_or e (Some x) = ret x"
  by (simp_all add: some_or_def)

lemma for_each_append: "for_each (xs @ ys) f = andthen (for_each xs f) (for_each ys f)"
  by (induction xs) (simp_all add: andthen_def bnd_assoc)

section \<open>Predicates kept by a method\<close>

text \<open>
  \<open>keeps P m\<close>: whatever way the method \<open>m\<close> ends, by returning or by raising, \<open>P\<close> holds after
  it if it held before. The rules follow the shape of the method, so a method built from
  operations that keep \<open>P\<close> keeps \<open>P\<close>.
\<close>

definition keeps :: "('s \<Rightarrow> bool) \<Rightarrow> ('s, 'a) exm \<Rightarrow> bool" where
  "keeps P m \<longleftrightarrow> (\<forall>s. P s \<longrightarrow> P (snd (m s)))"

named_theorems keeps_intro \<open>rules that decompose a \<open>keeps\<close> goal\<close>

lemma keepsD: "keeps P m \<Longrightarrow> P s \<Longrightarrow> P (snd (m s))"
  by (simp add: keeps_def)

lemma keepsI: "(\<And>s. P s \<Longrightarrow> P (snd (m s))) \<Longrightarrow> keeps P m"
  by (simp add: keeps_def)

lemma keeps_ret [keeps_intro, simp]: "keeps P (ret x)"
  by (simp add: keeps_def ret_def)

lemma keeps_throw [keeps_intro, simp]: "keeps P (throw e)"
  by (simp add: keeps_def throw_def)

lemma keeps_gets [keeps_intro, simp]: "keeps P (gets f)"
  by (simp add: keeps_def gets_def)

lemma keeps_assert [keeps_intro, simp]: "keeps P (assert_that b)"
  by (simp add: assert_that_def)

lemma keeps_some_or [keeps_intro, simp]: "keeps P (some_or e x)"
  by (cases x) simp_all

lemma keeps_lift_sum [keeps_intro, simp]: "keeps P (lift_sum r)"
  by (simp add: keeps_def lift_sum_def)

lemma keeps_modify [keeps_intro]: "(\<And>s. P s \<Longrightarrow> P (f s)) \<Longrightarrow> keeps P (modify f)"
  by (simp add: keeps_def modify_def)

lemma keeps_bnd [keeps_intro]: "keeps P m \<Longrightarrow> (\<And>x. keeps P (f x)) \<Longrightarrow> keeps P (bnd m f)"
  by (auto simp: keeps_def bnd_def split: prod.split sum.split)

lemma keeps_andthen [keeps_intro]: "keeps P m \<Longrightarrow> keeps P n \<Longrightarrow> keeps P (andthen m n)"
  by (simp add: andthen_def keeps_bnd)

lemma keeps_when_do [keeps_intro]: "(b \<Longrightarrow> keeps P m) \<Longrightarrow> keeps P (when_do b m)"
  by (simp add: when_do_def)

lemma keeps_if [keeps_intro]:
  "(b \<Longrightarrow> keeps P m) \<Longrightarrow> (\<not> b \<Longrightarrow> keeps P n) \<Longrightarrow> keeps P (if b then m else n)"
  by simp

lemma keeps_option [keeps_intro]:
  "(x = None \<Longrightarrow> keeps P m) \<Longrightarrow> (\<And>y. x = Some y \<Longrightarrow> keeps P (f y))
   \<Longrightarrow> keeps P (case x of None \<Rightarrow> m | Some y \<Rightarrow> f y)"
  by (cases x) simp_all

lemma keeps_prod [keeps_intro]:
  "(\<And>a b. x = (a, b) \<Longrightarrow> keeps P (f a b)) \<Longrightarrow> keeps P (case x of (a, b) \<Rightarrow> f a b)"
  by (cases x) simp

lemma keeps_list [keeps_intro]:
  "(xs = [] \<Longrightarrow> keeps P m) \<Longrightarrow> (\<And>y ys. xs = y # ys \<Longrightarrow> keeps P (f y ys))
   \<Longrightarrow> keeps P (case xs of [] \<Rightarrow> m | y # ys \<Rightarrow> f y ys)"
  by (cases xs) simp_all

lemma keeps_let [keeps_intro]: "keeps P (f x) \<Longrightarrow> keeps P (let y = x in f y)"
  by simp

lemma keeps_catch [keeps_intro]:
  "keeps P m \<Longrightarrow> (\<And>e. keeps P (h e)) \<Longrightarrow> keeps P (catch m h)"
  by (auto simp: keeps_def catch_def split: prod.split sum.split)

lemma keeps_finally [keeps_intro]: "keeps P m \<Longrightarrow> keeps P h \<Longrightarrow> keeps P (finally_do m h)"
  by (auto simp: keeps_def finally_do_def split: prod.split sum.split)

lemma keeps_for_each [keeps_intro]: "(\<And>x. keeps P (f x)) \<Longrightarrow> keeps P (for_each xs f)"
  by (induction xs) (auto intro: keeps_andthen)

lemma keeps_map_each [keeps_intro]: "(\<And>x. keeps P (f x)) \<Longrightarrow> keeps P (map_each xs f)"
  by (induction xs) (auto intro!: keeps_bnd)

lemma keeps_fold_each [keeps_intro]:
  "(\<And>x a. keeps P (f x a)) \<Longrightarrow> keeps P (fold_each xs acc f)"
  by (induction xs arbitrary: acc) (auto intro!: keeps_bnd)

lemma keeps_zoom [keeps_intro]:
  "(\<And>s t. P s \<Longrightarrow> P (put t s)) \<Longrightarrow> keeps P (zoom get put m)"
  by (auto simp: keeps_def zoom_def split: prod.split)

section \<open>Lists and association lists\<close>

text \<open>
  A Python dictionary whose iteration order matters is an association list with distinct keys,
  in insertion order; \<open>alist_put\<close> is \<open>d[k] = v\<close> and \<open>alist_del\<close> is \<open>del d[k]\<close>.
\<close>

fun alist_put :: "'k \<Rightarrow> 'v \<Rightarrow> ('k \<times> 'v) list \<Rightarrow> ('k \<times> 'v) list" where
  "alist_put k v [] = [(k, v)]"
| "alist_put k v ((k', v') # kvs) =
     (if k = k' then (k, v) # kvs else (k', v') # alist_put k v kvs)"

fun alist_del :: "'k \<Rightarrow> ('k \<times> 'v) list \<Rightarrow> ('k \<times> 'v) list" where
  "alist_del k [] = []"
| "alist_del k ((k', v') # kvs) = (if k = k' then alist_del k kvs else (k', v') # alist_del k kvs)"

lemma map_of_alist_put [simp]: "map_of (alist_put k v kvs) = (map_of kvs)(k \<mapsto> v)"
  by (induction kvs) (auto simp: fun_eq_iff)

lemma map_of_alist_del [simp]: "map_of (alist_del k kvs) = (map_of kvs)(k := None)"
  by (induction kvs) (auto simp: fun_eq_iff)

lemma keys_alist_put: "fst ` set (alist_put k v kvs) = insert k (fst ` set kvs)"
  using map_of_alist_put [of k v kvs] by (metis dom_fun_upd dom_map_of_conv_image_fst option.discI)

lemma keys_alist_del: "fst ` set (alist_del k kvs) = fst ` set kvs - {k}"
  using map_of_alist_del [of k kvs] by (metis dom_fun_upd dom_map_of_conv_image_fst)

lemma distinct_alist_put: "distinct (map fst kvs) \<Longrightarrow> distinct (map fst (alist_put k v kvs))"
proof (induction kvs)
  case (Cons kv kvs)
  have "fst ` set (alist_put k v kvs) = insert k (fst ` set kvs)" by (rule keys_alist_put)
  with Cons show ?case by (cases kv) auto
qed simp

lemma distinct_alist_del: "distinct (map fst kvs) \<Longrightarrow> distinct (map fst (alist_del k kvs))"
proof (induction kvs)
  case (Cons kv kvs)
  have "fst ` set (alist_del k kvs) = fst ` set kvs - {k}" by (rule keys_alist_del)
  with Cons show ?case by (cases kv) auto
qed simp

text \<open>\<open>s.add(x)\<close> and \<open>s.discard(x)\<close> on a set kept as a duplicate-free list.\<close>

definition set_add :: "'a \<Rightarrow> 'a list \<Rightarrow> 'a list" where
  "set_add x xs = (if x \<in> set xs then xs else xs @ [x])"

definition set_discard :: "'a \<Rightarrow> 'a list \<Rightarrow> 'a list" where
  "set_discard x xs = filter (\<lambda>y. y \<noteq> x) xs"

lemma set_set_add [simp]: "set (set_add x xs) = insert x (set xs)"
  by (auto simp: set_add_def)

lemma distinct_set_add [simp]: "distinct (set_add x xs) = distinct xs"
  by (auto simp: set_add_def)

lemma set_set_discard [simp]: "set (set_discard x xs) = set xs - {x}"
  by (auto simp: set_discard_def)

lemma distinct_set_discard [simp]: "distinct xs \<Longrightarrow> distinct (set_discard x xs)"
  by (simp add: set_discard_def)

text \<open>\<open>ORDER BY\<close> and \<open>sorted(key=...)\<close>: a stable sort by \<open>le\<close>.\<close>

fun insert_by :: "('a \<Rightarrow> 'a \<Rightarrow> bool) \<Rightarrow> 'a \<Rightarrow> 'a list \<Rightarrow> 'a list" where
  "insert_by le x [] = [x]"
| "insert_by le x (y # ys) = (if le x y then x # y # ys else y # insert_by le x ys)"

definition sort_by :: "('a \<Rightarrow> 'a \<Rightarrow> bool) \<Rightarrow> 'a list \<Rightarrow> 'a list" where
  "sort_by le xs = foldr (insert_by le) xs []"

lemma mset_insert_by [simp]: "mset (insert_by le x ys) = add_mset x (mset ys)"
  by (induction ys) auto

lemma mset_sort_by [simp]: "mset (sort_by le xs) = mset xs"
  by (induction xs) (simp_all add: sort_by_def)

lemma set_sort_by [simp]: "set (sort_by le xs) = set xs"
  by (metis mset_sort_by set_mset_mset)

lemma sorted_wrt_insert_by:
  assumes "\<And>x y. le x y \<or> le y x" and "\<And>x y z. le x y \<Longrightarrow> le y z \<Longrightarrow> le x z"
  shows "sorted_wrt le ys \<Longrightarrow> sorted_wrt le (insert_by le x ys)"
proof (induction ys)
  case (Cons y ys)
  have "set (insert_by le x ys) = insert x (set ys)"
    by (metis mset_insert_by set_mset_add_mset_insert set_mset_mset)
  with Cons assms show ?case by auto
qed simp

lemma sorted_wrt_sort_by:
  assumes "\<And>x y. le x y \<or> le y x" and "\<And>x y z. le x y \<Longrightarrow> le y z \<Longrightarrow> le x z"
  shows "sorted_wrt le (sort_by le xs)"
  unfolding sort_by_def by (induction xs) (simp_all add: sorted_wrt_insert_by assms)

section \<open>Strings\<close>

text \<open>\<open>str.lower()\<close> on the ASCII letters.\<close>

definition char_lower :: "char \<Rightarrow> char" where
  "char_lower c = (if 65 \<le> (of_char c :: nat) \<and> (of_char c :: nat) \<le> 90
     then char_of ((of_char c :: nat) + 32) else c)"

definition str_lower :: "string \<Rightarrow> string" where
  "str_lower s = map char_lower s"

text \<open>Lexicographic comparison of strings by code points, \<open>cmp(a, b)\<close>.\<close>

fun str_cmp :: "string \<Rightarrow> string \<Rightarrow> int" where
  "str_cmp [] [] = 0"
| "str_cmp [] (_ # _) = -1"
| "str_cmp (_ # _) [] = 1"
| "str_cmp (a # as) (b # bs) =
     (if (of_char a :: nat) < of_char b then -1
      else if (of_char b :: nat) < of_char a then 1 else str_cmp as bs)"

lemma str_cmp_eq_0 [simp]: "str_cmp a b = 0 \<longleftrightarrow> a = b"
proof (induction a b rule: str_cmp.induct)
  case (4 a as b bs)
  have "(of_char a :: nat) = of_char b \<longleftrightarrow> a = b" by (rule of_char_eq_iff)
  with 4 show ?case by (auto simp: not_less dest: antisym)
qed simp_all

lemma str_cmp_flip: "str_cmp b a = - str_cmp a b"
  by (induction a b rule: str_cmp.induct) auto

lemma str_cmp_refl [simp]: "str_cmp s s = 0"
  by simp

lemma str_cmp_Cons_le:
  "str_cmp (x # as) (y # bs) \<le> 0 \<longleftrightarrow>
     (of_char x :: nat) < of_char y \<or> (of_char x :: nat) = of_char y \<and> str_cmp as bs \<le> 0"
  by (simp del: of_char_eq_iff)

lemma str_cmp_trans: "str_cmp a b \<le> 0 \<Longrightarrow> str_cmp b c \<le> 0 \<Longrightarrow> str_cmp a c \<le> 0"
proof (induction a b arbitrary: c rule: str_cmp.induct)
  case (4 x as y bs)
  show ?case
  proof (cases c)
    case Nil
    then show ?thesis using 4 by simp
  next
    case (Cons z cs)
    have xy: "(of_char x :: nat) < of_char y \<or> (of_char x :: nat) = of_char y \<and> str_cmp as bs \<le> 0"
      using 4(2) by (simp only: str_cmp_Cons_le)
    have yz: "(of_char y :: nat) < of_char z \<or> (of_char y :: nat) = of_char z \<and> str_cmp bs cs \<le> 0"
      using 4(3) unfolding Cons by (simp only: str_cmp_Cons_le)
    have "str_cmp as cs \<le> 0" if "(of_char x :: nat) = of_char y" "str_cmp as bs \<le> 0" "str_cmp bs cs \<le> 0"
      using 4(1) [OF _ _ that(2,3)] that(1) by simp
    then have "(of_char x :: nat) < of_char z \<or> (of_char x :: nat) = of_char z \<and> str_cmp as cs \<le> 0"
      using xy yz by (metis less_trans)
    then show ?thesis unfolding Cons by (simp only: str_cmp_Cons_le)
  qed
qed (case_tac c; simp)+

lemma str_cmp_total: "str_cmp a b \<le> 0 \<or> str_cmp b a \<le> 0"
  using str_cmp_flip [of a b] by linarith

text \<open>\<open>list.sort()\<close> of strings has one result for a multiset of strings.\<close>

lemma sorted_wrt_unique:
  assumes "\<And>x y. le x y \<Longrightarrow> le y x \<Longrightarrow> x = y"
  shows "sorted_wrt le xs \<Longrightarrow> sorted_wrt le ys \<Longrightarrow> mset xs = mset ys \<Longrightarrow> xs = ys"
proof (induction xs arbitrary: ys)
  case (Cons x xs)
  then obtain y zs where ys: "ys = y # zs" by (cases ys) auto
  have "x \<in> set ys" "y \<in> set (x # xs)" using Cons.prems(3) ys by (metis list.set_intros(1) set_mset_mset)+
  then have "x = y" using Cons.prems(1,2) assms ys by auto
  with Cons ys show ?case by simp
qed simp

lemma sort_strings_sorted: "sorted_wrt (\<lambda>a b. str_cmp a b \<le> 0) (sort_by (\<lambda>a b. str_cmp a b \<le> 0) xs)"
  using str_cmp_total str_cmp_trans by (rule sorted_wrt_sort_by)

lemma sort_strings_unique:
  assumes "mset xs = mset ys"
  shows "sort_by (\<lambda>a b. str_cmp a b \<le> 0) xs = sort_by (\<lambda>a b. str_cmp a b \<le> 0) ys"
proof (rule sorted_wrt_unique [OF _ sort_strings_sorted sort_strings_sorted])
  show "str_cmp x y \<le> 0 \<Longrightarrow> str_cmp y x \<le> 0 \<Longrightarrow> x = y" for x y
    using str_cmp_flip [of x y] by (simp flip: str_cmp_eq_0)
qed (simp add: assms)

text \<open>Decimal representation of a natural number, \<open>str(n)\<close> or \<open>'%d' % n\<close>.\<close>

definition digit_char :: "nat \<Rightarrow> char" where
  "digit_char d = char_of (48 + d)"

fun str_of_nat :: "nat \<Rightarrow> string" where
  "str_of_nat n = (if n < 10 then [digit_char n]
     else str_of_nat (n div 10) @ [digit_char (n mod 10)])"

declare str_of_nat.simps [simp del]

definition str_of_int :: "int \<Rightarrow> string" where
  "str_of_int i = (if i < 0 then ''-'' @ str_of_nat (nat (- i)) else str_of_nat (nat i))"

definition is_digit :: "char \<Rightarrow> bool" where
  "is_digit c \<longleftrightarrow> 48 \<le> (of_char c :: nat) \<and> (of_char c :: nat) \<le> 57"

definition digit_val :: "char \<Rightarrow> nat" where
  "digit_val c = of_char c - 48"

definition nat_of_digits :: "string \<Rightarrow> nat" where
  "nat_of_digits s = foldl (\<lambda>n c. 10 * n + digit_val c) 0 s"

lemma digit_val_digit_char: "d < 10 \<Longrightarrow> digit_val (digit_char d) = d"
  by (simp add: digit_val_def digit_char_def)

lemma is_digit_digit_char: "d < 10 \<Longrightarrow> is_digit (digit_char d)"
  by (simp add: is_digit_def digit_char_def)

lemma nat_of_digits_str_of_nat [simp]: "nat_of_digits (str_of_nat n) = n"
proof (induction n rule: str_of_nat.induct)
  case (1 n)
  show ?case
  proof (cases "n < 10")
    case True
    then show ?thesis
      by (subst str_of_nat.simps) (simp add: nat_of_digits_def digit_val_digit_char)
  next
    case False
    with 1 have "nat_of_digits (str_of_nat (n div 10)) = n div 10" by simp
    with False show ?thesis
      by (subst str_of_nat.simps) (simp add: nat_of_digits_def digit_val_digit_char)
  qed
qed

lemma str_of_nat_digits: "\<forall>c \<in> set (str_of_nat n). is_digit c"
proof (induction n rule: str_of_nat.induct)
  case (1 n)
  then show ?case
    by (subst str_of_nat.simps) (auto simp: is_digit_digit_char)
qed

lemma str_of_nat_nonempty [simp]: "str_of_nat n \<noteq> []"
  by (subst str_of_nat.simps) simp

text \<open>\<open>s.splitlines()\<close> on a byte string: lines end at \<open>\\n\<close>, \<open>\\r\<close> or \<open>\\r\\n\<close>.\<close>

fun split_lines_acc :: "string \<Rightarrow> string \<Rightarrow> string list" where
  "split_lines_acc acc [] = (if acc = [] then [] else [rev acc])"
| "split_lines_acc acc (c # cs) =
     (if c = CHR 0x0A then rev acc # split_lines_acc [] cs
      else if c = CHR 0x0D then
        (case cs of [] \<Rightarrow> [rev acc]
         | d # ds \<Rightarrow> if d = CHR 0x0A then rev acc # split_lines_acc [] ds
                    else rev acc # split_lines_acc [] (d # ds))
      else split_lines_acc (c # acc) cs)"

definition split_lines :: "string \<Rightarrow> string list" where
  "split_lines s = split_lines_acc [] s"

definition is_space :: "char \<Rightarrow> bool" where
  "is_space c \<longleftrightarrow> c \<in> {CHR 0x20, CHR 0x09, CHR 0x0A, CHR 0x0B, CHR 0x0C, CHR 0x0D}"

text \<open>\<open>s.strip()\<close> and \<open>s.split()\<close> on white space.\<close>

definition py_strip :: "string \<Rightarrow> string" where
  "py_strip s = rev (dropWhile is_space (rev (dropWhile is_space s)))"

fun py_split_acc :: "string \<Rightarrow> string \<Rightarrow> string list" where
  "py_split_acc acc [] = (if acc = [] then [] else [rev acc])"
| "py_split_acc acc (c # cs) =
     (if is_space c then (if acc = [] then py_split_acc [] cs else rev acc # py_split_acc [] cs)
      else py_split_acc (c # acc) cs)"

definition py_split :: "string \<Rightarrow> string list" where
  "py_split s = py_split_acc [] s"

text \<open>\<open>s.split(c)\<close> for one separator character: always at least one field.\<close>

fun split_on :: "char \<Rightarrow> string \<Rightarrow> string list" where
  "split_on d [] = [[]]"
| "split_on d (c # cs) =
     (if c = d then [] # split_on d cs
      else (case split_on d cs of [] \<Rightarrow> [[c]] | f # fs \<Rightarrow> (c # f) # fs))"

text \<open>\<open>int(s)\<close> on a string: surrounding white space and one sign are accepted.\<close>

definition py_int :: "string \<Rightarrow> exn + int" where
  "py_int s =
     (let t = py_strip s;
          neg = (t \<noteq> [] \<and> hd t = CHR ''-'');
          signed = (t \<noteq> [] \<and> (hd t = CHR ''-'' \<or> hd t = CHR ''+''));
          ds = (if signed then tl t else t)
      in if ds = [] \<or> \<not> list_all is_digit ds then Inl ValueError
         else Inr (if neg then - int (nat_of_digits ds) else int (nat_of_digits ds)))"

text \<open>\<open>sep.join(parts)\<close>\<close>

fun str_join :: "string \<Rightarrow> string list \<Rightarrow> string" where
  "str_join sep [] = []"
| "str_join sep [s] = s"
| "str_join sep (s # t # ts) = s @ sep @ str_join sep (t # ts)"

text \<open>\<open>os.path.join(a, b)\<close> on POSIX.\<close>

definition path_join :: "string \<Rightarrow> string \<Rightarrow> string" where
  "path_join a b =
     (if b \<noteq> [] \<and> hd b = CHR ''/'' then b
      else if a = [] \<or> last a = CHR ''/'' then a @ b
      else a @ ''/'' @ b)"

end
