(* ===== verification/Heapq.thy ===== *)
theory Heapq
  imports Prelude
begin

text \<open>
  The binary heap of Python's \<open>heapq\<close> module, which the drone manager uses as its queue of
  drones: \<open>heappush\<close>, \<open>heappop\<close> and \<open>heapify\<close> over a list, for a strict comparison \<open>lt\<close>. The
  algorithm is the library's (sift a new item towards the root; refill the root by moving the
  smaller child up to a leaf and sifting back). The locale \<open>heap_order\<close> states what a client
  gets: the queue holds the same items up to the one pushed or popped.
\<close>

section \<open>The algorithm\<close>

text \<open>
  The library moves items into a hole and stores the new item at the end; here the hole holds the
  new item all the time, so each move is a swap.
\<close>

definition list_swap :: "nat \<Rightarrow> nat \<Rightarrow> 'a list \<Rightarrow> 'a list" where
  "list_swap i j xs = xs[i := xs ! j, j := xs ! i]"

function siftdown :: "('a \<Rightarrow> 'a \<Rightarrow> bool) \<Rightarrow> 'a list \<Rightarrow> nat \<Rightarrow> nat \<Rightarrow> 'a list" where
  "siftdown lt h startpos pos =
     (if startpos < pos \<and> lt (h ! pos) (h ! ((pos - 1) div 2))
      then siftdown lt (list_swap pos ((pos - 1) div 2) h) startpos ((pos - 1) div 2)
      else h)"
  by pat_completeness auto
termination
  by (relation "measure (\<lambda>(lt, h, startpos, pos). pos)") auto

declare siftdown.simps [simp del]

definition smaller_child :: "('a \<Rightarrow> 'a \<Rightarrow> bool) \<Rightarrow> 'a list \<Rightarrow> nat \<Rightarrow> nat" where
  "smaller_child lt h pos =
     (let c = 2 * pos + 1; r = c + 1
      in if r < length h \<and> \<not> lt (h ! c) (h ! r) then r else c)"

lemma list_swap_length [simp]: "length (list_swap i j xs) = length xs"
  by (simp add: list_swap_def)

lemma smaller_child_gt: "pos < smaller_child lt h pos"
  by (simp add: smaller_child_def Let_def)

lemma smaller_child_less: "2 * pos + 1 < length h \<Longrightarrow> smaller_child lt h pos < length h"
  by (simp add: smaller_child_def Let_def)

function siftup_down :: "('a \<Rightarrow> 'a \<Rightarrow> bool) \<Rightarrow> 'a list \<Rightarrow> nat \<Rightarrow> 'a list \<times> nat" where
  "siftup_down lt h pos =
     (if 2 * pos + 1 < length h
      then siftup_down lt (list_swap pos (smaller_child lt h pos) h) (smaller_child lt h pos)
      else (h, pos))"
  by pat_completeness auto
termination
proof (relation "measure (\<lambda>(lt, h, pos). length h - pos)")
  fix lt :: "'a \<Rightarrow> 'a \<Rightarrow> bool" and h :: "'a list" and pos
  assume "2 * pos + 1 < length h"
  moreover have "pos < smaller_child lt h pos" by (rule smaller_child_gt)
  ultimately show "((lt, list_swap pos (smaller_child lt h pos) h, smaller_child lt h pos), lt, h, pos)
      \<in> measure (\<lambda>(lt, h, pos). length h - pos)"
    by auto
qed simp

declare siftup_down.simps [simp del]

definition siftup :: "('a \<Rightarrow> 'a \<Rightarrow> bool) \<Rightarrow> 'a list \<Rightarrow> nat \<Rightarrow> 'a list" where
  "siftup lt h pos = (case siftup_down lt h pos of (h', p) \<Rightarrow> siftdown lt h' pos p)"

definition heappush :: "('a \<Rightarrow> 'a \<Rightarrow> bool) \<Rightarrow> 'a list \<Rightarrow> 'a \<Rightarrow> 'a list" where
  "heappush lt h x = siftdown lt (h @ [x]) 0 (length h)"

text \<open>\<open>None\<close> is the IndexError of an empty heap.\<close>

definition heappop :: "('a \<Rightarrow> 'a \<Rightarrow> bool) \<Rightarrow> 'a list \<Rightarrow> ('a \<times> 'a list) option" where
  "heappop lt h =
     (if h = [] then None
      else let lastelt = last h; rest = butlast h
           in if rest = [] then Some (lastelt, [])
              else Some (hd rest, siftup lt (rest[0 := lastelt]) 0))"

fun heapify_loop :: "('a \<Rightarrow> 'a \<Rightarrow> bool) \<Rightarrow> nat \<Rightarrow> 'a list \<Rightarrow> 'a list" where
  "heapify_loop lt 0 h = h"
| "heapify_loop lt (Suc i) h = heapify_loop lt i (siftup lt h i)"

definition heapify :: "('a \<Rightarrow> 'a \<Rightarrow> bool) \<Rightarrow> 'a list \<Rightarrow> 'a list" where
  "heapify lt h = heapify_loop lt (length h div 2) h"

section \<open>Items are kept\<close>

lemma mset_list_swap: "i < length xs \<Longrightarrow> j < length xs \<Longrightarrow> mset (list_swap i j xs) = mset xs"
  by (simp add: list_swap_def mset_swap)

lemma mset_siftdown: "pos < length h \<Longrightarrow> mset (siftdown lt h startpos pos) = mset h"
proof (induction lt h startpos pos rule: siftdown.induct)
  case (1 lt h startpos pos)
  show ?case
  proof (cases "startpos < pos \<and> lt (h ! pos) (h ! ((pos - 1) div 2))")
    case True
    with 1 show ?thesis
      by (subst siftdown.simps) (simp add: mset_list_swap)
  next
    case False
    then show ?thesis by (subst siftdown.simps) auto
  qed
qed

lemma siftup_down_props:
  "pos < length h \<Longrightarrow> mset (fst (siftup_down lt h pos)) = mset h \<and>
     length (fst (siftup_down lt h pos)) = length h \<and> snd (siftup_down lt h pos) < length h"
proof (induction lt h pos rule: siftup_down.induct)
  case (1 lt h pos)
  show ?case
  proof (cases "2 * pos + 1 < length h")
    case True
    with 1 smaller_child_less [OF True, of lt] show ?thesis
      by (subst (1 2 3) siftup_down.simps) (simp add: mset_list_swap)
  next
    case False
    with 1 show ?thesis by (subst (1 2 3) siftup_down.simps) simp
  qed
qed

lemma mset_siftup: "pos < length h \<Longrightarrow> mset (siftup lt h pos) = mset h"
  using siftup_down_props [of pos h lt]
  by (auto simp: siftup_def mset_siftdown split: prod.split)

lemma mset_heappush [simp]: "mset (heappush lt h x) = mset h + {#x#}"
  by (simp add: heappush_def mset_siftdown)

lemma mset_heappop: "heappop lt h = Some (x, h') \<Longrightarrow> mset h = mset h' + {#x#}"
proof -
  assume pop: "heappop lt h = Some (x, h')"
  then have ne: "h \<noteq> []" by (auto simp: heappop_def)
  then have h: "mset h = mset (butlast h) + {#last h#}"
    by (metis append_butlast_last_id mset.simps(1) mset.simps(2) mset_append)
  show ?thesis
  proof (cases "butlast h")
    case Nil
    with pop ne h show ?thesis by (auto simp: heappop_def Let_def)
  next
    case (Cons y ys)
    with pop ne have "x = y" and "h' = siftup lt (last h # ys) 0"
      by (auto simp: heappop_def Let_def)
    with h Cons show ?thesis by (simp add: mset_siftup)
  qed
qed

lemma heappop_None [simp]: "heappop lt h = None \<longleftrightarrow> h = []"
  by (simp add: heappop_def Let_def)

lemma heappop_Nil [simp]: "heappop lt [] = None"
  by simp

lemma length_siftup [simp]: "pos < length h \<Longrightarrow> length (siftup lt h pos) = length h"
  by (metis mset_siftup size_mset)

lemma mset_heapify_loop: "n \<le> length h \<Longrightarrow> mset (heapify_loop lt n h) = mset h"
  by (induction lt n h rule: heapify_loop.induct) (simp_all add: mset_siftup)

lemma mset_heapify [simp]: "mset (heapify lt h) = mset h"
  by (simp add: heapify_def mset_heapify_loop)

lemma length_heappop: "heappop lt h = Some (x, h') \<Longrightarrow> length h = Suc (length h')"
  using mset_heappop [of lt h x h'] by (metis size_mset size_add_mset add_mset_add_single)

lemma set_heappop: "heappop lt h = Some (x, h') \<Longrightarrow> set h = insert x (set h')"
  using mset_heappop [of lt h x h'] by (metis set_mset_add_mset_insert set_mset_mset add_mset_add_single)

section \<open>The queue interface\<close>

text \<open>What the drone manager relies on: a queue is a bag of items.\<close>

locale item_queue =
  fixes push :: "'q \<Rightarrow> 'a \<Rightarrow> 'q"
    and pop :: "'q \<Rightarrow> ('a \<times> 'q) option"
    and reorder :: "'q \<Rightarrow> 'q"
    and items :: "'q \<Rightarrow> 'a multiset"
  assumes items_push: "items (push q x) = items q + {#x#}"
    and items_pop: "pop q = Some (x, q') \<Longrightarrow> items q = items q' + {#x#}"
    and pop_empty: "pop q = None \<longleftrightarrow> items q = {#}"
    and items_reorder: "items (reorder q) = items q"
begin

lemma push_all: "items (foldl push q xs) = items q + mset xs"
  by (induction xs arbitrary: q) (simp_all add: items_push)

lemma pop_item: "pop q = Some (x, q') \<Longrightarrow> x \<in># items q"
  by (simp add: items_pop)

lemma pop_smaller: "pop q = Some (x, q') \<Longrightarrow> size (items q') < size (items q)"
  by (simp add: items_pop)

end

interpretation heapq: item_queue "heappush lt" "heappop lt" "heapify lt" mset for lt
  by unfold_locales (simp_all add: mset_heappop)

end
