(* ===== verification/Drones.thy ===== *)
theory Drones
  imports Heapq Complex_Main
begin

text \<open>
  The drone objects of scheduler/drones.py and the small classes at the top of
  scheduler/drone_manager.py: processes, pidfile contents, and the calls a drone queues for
  execution on its machine.
\<close>

section \<open>Processes and pidfiles\<close>

record process =
  pr_hostname :: string
  pr_pid :: int
  pr_ppid :: "int option"

text \<open>\<open>Process._id\<close>: equality and hashing ignore the parent.\<close>

definition process_id :: "process \<Rightarrow> string \<times> int" where
  "process_id p = (pr_hostname p, pr_pid p)"

definition same_process :: "process \<Rightarrow> process \<Rightarrow> bool" where
  "same_process p q \<longleftrightarrow> process_id p = process_id q"

text \<open>\<open>PidfileId\<close> objects compare by their path, so the path stands for the object.\<close>

type_synonym pidfile_id = string

record pidfile_info =
  pi_age :: nat
  pi_num_processes :: "int option"

definition new_pidfile_info :: pidfile_info where
  "new_pidfile_info = \<lparr>pi_age = 0, pi_num_processes = None\<rparr>"

record pidfile_contents =
  pc_process :: "process option"
  pc_exit_status :: "int option"
  pc_num_tests_failed :: "int option"

definition empty_contents :: pidfile_contents where
  "empty_contents = \<lparr>pc_process = None, pc_exit_status = None, pc_num_tests_failed = None\<rparr>"

datatype pidfile = PidfileContents pidfile_contents | InvalidPidfile string

fun pidfile_is_invalid :: "pidfile \<Rightarrow> bool" where
  "pidfile_is_invalid (PidfileContents c) = False"
| "pidfile_is_invalid (InvalidPidfile e) = True"

text \<open>\<open>self.process and not self.exit_status\<close>: an exit status of 0 is falsy.\<close>

fun pidfile_is_running :: "pidfile \<Rightarrow> bool" where
  "pidfile_is_running (PidfileContents c) \<longleftrightarrow>
     pc_process c \<noteq> None \<and> (pc_exit_status c = None \<or> pc_exit_status c = Some 0)"
| "pidfile_is_running (InvalidPidfile e) = False"

text \<open>Reading an attribute that \<open>InvalidPidfile\<close> does not have is an AttributeError.\<close>

fun pidfile_attrs :: "pidfile \<Rightarrow> exn + pidfile_contents" where
  "pidfile_attrs (PidfileContents c) = Inr c"
| "pidfile_attrs (InvalidPidfile e) = Inl AttributeError"

section \<open>Calls to a drone\<close>

text \<open>An item of an argv list: a string, or the marker object replaced by the working directory.\<close>

datatype cmd_item = Arg string | WORKING_DIRECTORY

datatype drone_call =
    Call_initialize string
  | Call_refresh "string list"
  | Call_kill_process process
  | Call_execute_command "cmd_item list" string string string
      \<comment> \<open>command, working directory, log file, pidfile name\<close>
  | Call_write_to_file string string
  | Call_copy_file_or_directory string string
  | Call_send_file_to string string string bool
  | Call_get_file_from string string string

text \<open>A process as \<open>ps\<close> reports it, and the result of \<open>refresh\<close> on a drone.\<close>

record proc_info =
  ps_pid :: string
  ps_ppid :: string
  ps_pgid :: string
  ps_comm :: string

record refresh_result =
  rr_autoserv_processes :: "proc_info list"
  rr_parse_processes :: "proc_info list"
  rr_pidfiles :: "(string \<times> string) list"
  rr_pidfiles_second_read :: "(string \<times> string) list"

datatype call_result = Refreshed refresh_result | NoResult

text \<open>What executing calls on a drone answers: warnings and results.\<close>

record return_message =
  rm_warnings :: "string list"
  rm_results :: "call_result list"

section \<open>Drones\<close>

record drone =
  dr_calls :: "drone_call list"
  dr_hostname :: string
  dr_enabled :: bool
  dr_max_processes :: int
  dr_active_processes :: int
  dr_allowed_users :: "string list option"
  dr_is_local :: bool
  dr_install_dir :: string

definition new_drone :: "string \<Rightarrow> bool \<Rightarrow> string \<Rightarrow> drone" where
  "new_drone hostname is_local install_dir =
     \<lparr>dr_calls = [], dr_hostname = hostname, dr_enabled = True, dr_max_processes = 0,
      dr_active_processes = 0, dr_allowed_users = None, dr_is_local = is_local,
      dr_install_dir = install_dir\<rparr>"

text \<open>
  \<open>used_capacity()\<close>: the load as a fraction, then minus the capacity. Python computes the
  fraction as a float; on process counts the order of the floats is the order of the rationals.
\<close>

definition used_capacity :: "drone \<Rightarrow> rat \<times> int" where
  "used_capacity d =
     (if dr_max_processes d = 0 then (1, 0)
      else (of_int (dr_active_processes d) / of_int (dr_max_processes d), - dr_max_processes d))"

definition capacity_less :: "drone \<Rightarrow> drone \<Rightarrow> bool" where
  "capacity_less d e =
     (fst (used_capacity d) < fst (used_capacity e) \<or>
      fst (used_capacity d) = fst (used_capacity e) \<and> snd (used_capacity d) < snd (used_capacity e))"

text \<open>\<open>user\<close> may be None, which no set of login names contains.\<close>

definition usable_by :: "drone \<Rightarrow> string option \<Rightarrow> bool" where
  "usable_by d user = (case dr_allowed_users d of
       None \<Rightarrow> True
     | Some us \<Rightarrow> (case user of None \<Rightarrow> False | Some u \<Rightarrow> u \<in> set us))"

definition queue_call :: "drone_call \<Rightarrow> drone \<Rightarrow> drone" where
  "queue_call c d = d\<lparr>dr_calls := dr_calls d @ [c]\<rparr>"

definition clear_call_queue :: "drone \<Rightarrow> drone" where
  "clear_call_queue d = d\<lparr>dr_calls := []\<rparr>"

text \<open>
  \<open>send_file_to\<close> of the local and of the remote drone: the call is queued on the source or, when
  a remote drone sends to the local one, on the destination. Both drones are returned.
\<close>

definition send_file_to :: "drone \<Rightarrow> drone \<Rightarrow> string \<Rightarrow> string \<Rightarrow> bool \<Rightarrow> drone \<times> drone" where
  "send_file_to src dst source_path destination_path can_fail =
     (if dr_hostname dst = dr_hostname src
      then (queue_call (Call_copy_file_or_directory source_path destination_path) src, dst)
      else if \<not> dr_is_local src \<and> dr_is_local dst
      then (src, queue_call (Call_get_file_from (dr_hostname src) source_path destination_path) dst)
      else (queue_call (Call_send_file_to (dr_hostname dst) source_path destination_path can_fail) src, dst))"

text \<open>
  The factory \<open>get_drone\<close>: \<open>is_up\<close> is whether a remote machine answers; an unreachable drone
  is None. \<open>install_dir\<close> is \<open>AUTOTEST_INSTALL_DIR\<close>.
\<close>

definition get_drone :: "(string \<Rightarrow> bool) \<Rightarrow> string \<Rightarrow> string \<Rightarrow> drone option" where
  "get_drone is_up install_dir hostname =
     (if hostname = ''localhost'' then Some (new_drone hostname True install_dir)
      else if is_up hostname then Some (new_drone hostname False install_dir)
      else None)"

definition set_autotest_install_dir :: "string \<Rightarrow> drone \<Rightarrow> drone" where
  "set_autotest_install_dir path d = (if dr_is_local d then d else d\<lparr>dr_install_dir := path\<rparr>)"

section \<open>Lemmas\<close>

lemma capacity_less_irrefl [simp]: "\<not> capacity_less d d"
  by (simp add: capacity_less_def)

lemma capacity_less_trans: "capacity_less a b \<Longrightarrow> capacity_less b c \<Longrightarrow> capacity_less a c"
  by (auto simp: capacity_less_def)

lemma capacity_less_negtrans: "capacity_less a c \<Longrightarrow> capacity_less a b \<or> capacity_less b c"
  by (auto simp: capacity_less_def)

text \<open>
  The order drones are tried in: an idle drone never comes after a loaded one, and of two idle
  drones the larger comes first (the 0/10 before 0/2 of the docstring).
\<close>

lemma capacity_idle_first:
  "0 < dr_max_processes d \<Longrightarrow> 0 < dr_max_processes e \<Longrightarrow> dr_active_processes d = 0 \<Longrightarrow>
   0 < dr_active_processes e \<Longrightarrow> capacity_less d e"
  by (simp add: capacity_less_def used_capacity_def)

lemma capacity_idle_larger:
  "0 < dr_max_processes e \<Longrightarrow> dr_max_processes e < dr_max_processes d \<Longrightarrow>
   dr_active_processes d = 0 \<Longrightarrow> dr_active_processes e = 0 \<Longrightarrow> capacity_less d e"
  by (simp add: capacity_less_def used_capacity_def)

lemma queue_call_fields [simp]:
  "dr_hostname (queue_call c d) = dr_hostname d"
  "dr_active_processes (queue_call c d) = dr_active_processes d"
  "dr_max_processes (queue_call c d) = dr_max_processes d"
  "dr_allowed_users (queue_call c d) = dr_allowed_users d"
  "dr_enabled (queue_call c d) = dr_enabled d"
  "dr_calls (queue_call c d) = dr_calls d @ [c]"
  by (simp_all add: queue_call_def)

end
