(* ===== verification/Drone_Manager.thy ===== *)
theory Drone_Manager
  imports Drones
begin

text \<open>
  The drone manager, scheduler/drone_manager.py: which machine runs a process, which pidfiles are
  watched, and the calls queued for the drones. Each method of the class is a computation over the
  state \<open>dmgr\<close>. What a machine answers to the calls executed on it is not code of this repository
  but of the machines, so it is the field \<open>dm_execute\<close>: the answer to the n-th execution. Dictionaries
  are association lists in insertion order; a drone in the heap is referred to by its hostname.
\<close>

section \<open>State\<close>

text \<open>The settings the class reads; per-drone settings are functions of the hostname.\<close>

record dm_settings =
  cfg_install_dir :: string
  cfg_test_output_dir :: string
  cfg_max_pidfile_refreshes :: nat
  cfg_max_processes_per_drone :: int
  cfg_disabled :: "string \<Rightarrow> string"
  cfg_max_processes :: "string \<Rightarrow> int option"
  cfg_users :: "string \<Rightarrow> string option"
  cfg_results_install_dir :: "string option"
  cfg_is_up :: "string \<Rightarrow> bool"

record dmgr =
  dm_results_dir :: string
  dm_process_set :: "process list"
  dm_pidfiles :: "(pidfile_id \<times> pidfile) list"
  dm_pidfiles_second_read :: "(pidfile_id \<times> pidfile) list"
  dm_registered :: "(pidfile_id \<times> pidfile_info) list"
  dm_temporary_path_counter :: nat
  dm_drones :: "(string \<times> drone) list"
  dm_results_drone :: "drone option"
  dm_attached_files :: "(string \<times> (string \<times> string) list) list"
  dm_drone_queue :: "string list"
  dm_settings :: dm_settings
  dm_admin_mail :: "string list"         \<comment> \<open>subjects of mails enqueued for the administrator\<close>
  dm_execute :: "nat \<Rightarrow> string \<Rightarrow> drone_call list \<Rightarrow> exn + return_message"
  dm_executions :: nat

type_synonym 'a dm = "(dmgr, 'a) exm"

definition AUTOSERV_PID_FILE :: string where "AUTOSERV_PID_FILE = ''.autoserv_execute''"

definition CRASHINFO_PID_FILE :: string where "CRASHINFO_PID_FILE = ''.collect_crashinfo_execute''"

definition PARSER_PID_FILE :: string where "PARSER_PID_FILE = ''.parser_execute''"

definition ARCHIVER_PID_FILE :: string where "ARCHIVER_PID_FILE = ''.archiver_execute''"

definition ALL_PIDFILE_NAMES :: "string list" where
  "ALL_PIDFILE_NAMES = [AUTOSERV_PID_FILE, CRASHINFO_PID_FILE, PARSER_PID_FILE, ARCHIVER_PID_FILE]"

definition new_dmgr :: "dm_settings \<Rightarrow> (nat \<Rightarrow> string \<Rightarrow> drone_call list \<Rightarrow> exn + return_message) \<Rightarrow> dmgr" where
  "new_dmgr cfg exec =
     \<lparr>dm_results_dir = [], dm_process_set = [], dm_pidfiles = [], dm_pidfiles_second_read = [],
      dm_registered = [], dm_temporary_path_counter = 0, dm_drones = [], dm_results_drone = None,
      dm_attached_files = [], dm_drone_queue = [], dm_settings = cfg, dm_admin_mail = [],
      dm_execute = exec, dm_executions = 0\<rparr>"

section \<open>Drones by hostname\<close>

definition get_drone_obj :: "dmgr \<Rightarrow> string \<Rightarrow> drone" where
  "get_drone_obj s h = (case map_of (dm_drones s) h of Some d \<Rightarrow> d | None \<Rightarrow> new_drone h False [])"

definition put_drone :: "string \<Rightarrow> (drone \<Rightarrow> drone) \<Rightarrow> dmgr \<Rightarrow> dmgr" where
  "put_drone h f s = s\<lparr>dm_drones := map (\<lambda>(k, d). (k, if k = h then f d else d)) (dm_drones s)\<rparr>"

definition drone_less :: "dmgr \<Rightarrow> string \<Rightarrow> string \<Rightarrow> bool" where
  "drone_less s g h = capacity_less (get_drone_obj s g) (get_drone_obj s h)"

definition get_drones :: "dmgr \<Rightarrow> drone list" where
  "get_drones s = map snd (dm_drones s)"

definition get_drone_for_process :: "process \<Rightarrow> drone dm" where
  "get_drone_for_process p =
     bnd (gets (\<lambda>s. map_of (dm_drones s) (pr_hostname p))) (some_or KeyError)"

definition enqueue_drone :: "string \<Rightarrow> dmgr \<Rightarrow> dmgr" where
  "enqueue_drone h s = s\<lparr>dm_drone_queue := heappush (drone_less s) (dm_drone_queue s) h\<rparr>"

definition reorder_drone_queue :: "dmgr \<Rightarrow> dmgr" where
  "reorder_drone_queue s = s\<lparr>dm_drone_queue := heapify (drone_less s) (dm_drone_queue s)\<rparr>"

section \<open>Executing calls\<close>

definition dm_enqueue_admin :: "string \<Rightarrow> unit dm" where
  "dm_enqueue_admin subject = modify (\<lambda>s. s\<lparr>dm_admin_mail := dm_admin_mail s @ [subject]\<rparr>)"

text \<open>\<open>_AbstractDrone._execute_calls\<close>\<close>

definition execute_calls :: "string \<Rightarrow> drone_call list \<Rightarrow> call_result list dm" where
  "execute_calls h calls =
     bnd (gets (\<lambda>s. dm_execute s (dm_executions s) h calls)) (\<lambda>r.
     andthen (modify (\<lambda>s. s\<lparr>dm_executions := Suc (dm_executions s)\<rparr>)) (
     bnd (lift_sum r) (\<lambda>msg.
     andthen (for_each (rm_warnings msg) (\<lambda>_. dm_enqueue_admin (''Warning from drone '' @ h)))
       (ret (rm_results msg)))))"

text \<open>\<open>_AbstractDrone.call\<close>\<close>

definition drone_call_now :: "string \<Rightarrow> drone_call \<Rightarrow> call_result list dm" where
  "drone_call_now h c = execute_calls h [c]"

text \<open>\<open>_AbstractDrone.execute_queued_calls\<close>, on a drone of the table and on the results drone.\<close>

definition execute_queued_calls :: "string \<Rightarrow> unit dm" where
  "execute_queued_calls h =
     bnd (gets (\<lambda>s. dr_calls (get_drone_obj s h))) (\<lambda>calls.
       when_do (calls \<noteq> [])
         (andthen (execute_calls h calls) (modify (put_drone h clear_call_queue))))"

definition results_drone :: "drone dm" where
  "results_drone = bnd (gets dm_results_drone) (some_or AttributeError)"

definition update_results_drone :: "(drone \<Rightarrow> drone) \<Rightarrow> unit dm" where
  "update_results_drone f = modify (\<lambda>s. s\<lparr>dm_results_drone := map_option f (dm_results_drone s)\<rparr>)"

definition execute_results_drone_calls :: "unit dm" where
  "execute_results_drone_calls =
     bnd results_drone (\<lambda>d.
       when_do (dr_calls d \<noteq> [])
         (andthen (execute_calls (dr_hostname d) (dr_calls d)) (update_results_drone clear_call_queue)))"

definition execute_actions :: "unit dm" where
  "execute_actions =
     bnd (gets (\<lambda>s. map fst (dm_drones s))) (\<lambda>hs.
     andthen (for_each hs execute_queued_calls)
       (catch execute_results_drone_calls
          (\<lambda>e. if e = DroneCallError
               then andthen (dm_enqueue_admin ''Results repository error'')
                            (update_results_drone clear_call_queue)
               else throw e)))"

definition call_all_drones :: "drone_call \<Rightarrow> (string \<times> call_result list) list dm" where
  "call_all_drones c =
     bnd (gets (\<lambda>s. map fst (dm_drones s))) (\<lambda>hs.
       map_each hs (\<lambda>h. bnd (drone_call_now h c) (\<lambda>r. ret (h, r))))"

section \<open>Paths\<close>

definition absolute_path :: "dmgr \<Rightarrow> bool \<Rightarrow> string \<Rightarrow> string" where
  "absolute_path s on_results_repository path =
     (let base_dir =
        (if on_results_repository then dm_results_dir s
         else let output_dir = cfg_test_output_dir (dm_settings s);
                  b = (if output_dir \<noteq> [] then output_dir else cfg_install_dir (dm_settings s))
              in path_join b ''results'')
      in path_join base_dir path)"

definition get_temporary_path :: "string \<Rightarrow> string dm" where
  "get_temporary_path base_name =
     andthen (modify (\<lambda>s. s\<lparr>dm_temporary_path_counter := Suc (dm_temporary_path_counter s)\<rparr>))
       (gets (\<lambda>s. path_join
          (let output_dir = cfg_test_output_dir (dm_settings s)
           in if output_dir \<noteq> [] then path_join output_dir ''drone_tmp'' else ''drone_tmp'')
          (base_name @ ''.'' @ str_of_nat (dm_temporary_path_counter s))))"

text \<open>\<open>if not path: path = self.get_temporary_path(base_name)\<close>\<close>

definition path_or_temporary :: "string \<Rightarrow> string option \<Rightarrow> string dm" where
  "path_or_temporary base_name path = (case path of
       Some p \<Rightarrow> if p = [] then get_temporary_path base_name else ret p
     | None \<Rightarrow> get_temporary_path base_name)"

section \<open>Initialisation and configuration\<close>

definition add_drone :: "string \<Rightarrow> unit dm" where
  "add_drone hostname =
     bnd (gets (\<lambda>s. get_drone (cfg_is_up (dm_settings s)) (cfg_install_dir (dm_settings s)) hostname)) (\<lambda>r.
     case r of
       None \<Rightarrow> ret ()
     | Some d \<Rightarrow>
         andthen (modify (\<lambda>s. s\<lparr>dm_drones := alist_put (dr_hostname d) d (dm_drones s)\<rparr>))
           (bnd (gets (\<lambda>s. absolute_path s False [])) (\<lambda>p.
             andthen (drone_call_now (dr_hostname d) (Call_initialize p)) (ret ()))))"

text \<open>One drone's options as \<open>refresh_drone_configs\<close> sets them.\<close>

definition configure_drone :: "dm_settings \<Rightarrow> string \<Rightarrow> drone \<Rightarrow> drone" where
  "configure_drone cfg h d =
     d\<lparr>dr_enabled := (cfg_disabled cfg h = []),
       dr_max_processes := (case cfg_max_processes cfg h of
           Some m \<Rightarrow> m | None \<Rightarrow> cfg_max_processes_per_drone cfg),
       dr_allowed_users := map_option py_split (cfg_users cfg h)\<rparr>"

definition refresh_drone_configs :: "unit dm" where
  "refresh_drone_configs =
     modify (\<lambda>s. reorder_drone_queue
       (s\<lparr>dm_drones := map (\<lambda>(h, d). (h, configure_drone (dm_settings s) h d)) (dm_drones s)\<rparr>))"

definition dm_initialize :: "string \<Rightarrow> string list \<Rightarrow> string \<Rightarrow> unit dm" where
  "dm_initialize base_results_dir drone_hostnames results_hostname =
     andthen (modify (\<lambda>s. s\<lparr>dm_results_dir := base_results_dir\<rparr>)) (
     andthen (for_each drone_hostnames add_drone) (
     bnd (gets dm_drones) (\<lambda>ds.
     if ds = [] then throw DroneManagerError else
     andthen refresh_drone_configs (
     andthen (modify (\<lambda>s. s\<lparr>dm_results_drone :=
        get_drone (cfg_is_up (dm_settings s)) (cfg_install_dir (dm_settings s)) results_hostname\<rparr>)) (
     bnd (gets (\<lambda>s. cfg_results_install_dir (dm_settings s))) (\<lambda>dir. case dir of
         None \<Rightarrow> ret ()
       | Some p \<Rightarrow> when_do (p \<noteq> [])
           (bnd results_drone (\<lambda>_. update_results_drone (set_autotest_install_dir p)))))))))"

definition reinitialize_drones :: "unit dm" where
  "reinitialize_drones =
     bnd (gets dm_results_dir) (\<lambda>d. andthen (call_all_drones (Call_initialize d)) (ret ()))"

section \<open>Registered pidfiles\<close>

definition reset_pidfile_age :: "pidfile_id \<Rightarrow> dmgr \<Rightarrow> dmgr" where
  "reset_pidfile_age p s = (case map_of (dm_registered s) p of
       None \<Rightarrow> s
     | Some i \<Rightarrow> s\<lparr>dm_registered := alist_put p (i\<lparr>pi_age := 0\<rparr>) (dm_registered s)\<rparr>)"

definition register_pidfile :: "pidfile_id \<Rightarrow> dmgr \<Rightarrow> dmgr" where
  "register_pidfile p s = reset_pidfile_age p
     (if map_of (dm_registered s) p = None
      then s\<lparr>dm_registered := alist_put p new_pidfile_info (dm_registered s)\<rparr> else s)"

definition unregister_pidfile :: "pidfile_id \<Rightarrow> dmgr \<Rightarrow> dmgr" where
  "unregister_pidfile p s = s\<lparr>dm_registered := alist_del p (dm_registered s)\<rparr>"

definition declare_process_count :: "pidfile_id \<Rightarrow> int option \<Rightarrow> unit dm" where
  "declare_process_count p n =
     bnd (gets (\<lambda>s. map_of (dm_registered s) p)) (\<lambda>r. bnd (some_or KeyError r) (\<lambda>i.
       modify (\<lambda>s. s\<lparr>dm_registered := alist_put p (i\<lparr>pi_num_processes := n\<rparr>) (dm_registered s)\<rparr>)))"

definition get_pidfile_id_from :: "dmgr \<Rightarrow> string \<Rightarrow> string \<Rightarrow> pidfile_id" where
  "get_pidfile_id_from s execution_tag pidfile_name =
     path_join (absolute_path s False execution_tag) pidfile_name"

definition get_pidfile_contents :: "pidfile_id \<Rightarrow> bool \<Rightarrow> pidfile dm" where
  "get_pidfile_contents p use_second_read =
     andthen (modify (reset_pidfile_age p))
       (gets (\<lambda>s. case map_of (if use_second_read then dm_pidfiles_second_read s else dm_pidfiles s) p of
          Some c \<Rightarrow> c | None \<Rightarrow> PidfileContents empty_contents))"

definition get_drone_for_pidfile_id :: "pidfile_id \<Rightarrow> drone dm" where
  "get_drone_for_pidfile_id p =
     bnd (get_pidfile_contents p False) (\<lambda>f.
     bnd (lift_sum (pidfile_attrs f)) (\<lambda>c.
     bnd (some_or AssertionError (pc_process c)) get_drone_for_process))"

definition is_process_running :: "dmgr \<Rightarrow> process \<Rightarrow> bool" where
  "is_process_running s p = list_ex (same_process p) (dm_process_set s)"

definition get_orphaned_autoserv_processes :: "dmgr \<Rightarrow> process list" where
  "get_orphaned_autoserv_processes s = filter (\<lambda>p. pr_ppid p = Some 1) (dm_process_set s)"

section \<open>The refresh at the start of a cycle\<close>

definition dm_reset :: "unit dm" where
  "dm_reset = modify (\<lambda>s. s\<lparr>dm_process_set := [], dm_pidfiles := [], dm_pidfiles_second_read := [],
     dm_drone_queue := []\<rparr>)"

text \<open>The body of the loop over the snapshot \<open>items()\<close>, then the loop.\<close>

definition drop_or_age :: "pidfile_id \<times> pidfile_info \<Rightarrow> unit dm" where
  "drop_or_age item = (case item of (p, info) \<Rightarrow>
     bnd (gets (\<lambda>s. cfg_max_pidfile_refreshes (dm_settings s))) (\<lambda>limit.
       if pi_age info > limit then modify (unregister_pidfile p)
       else modify (\<lambda>s. s\<lparr>dm_registered :=
              alist_put p (info\<lparr>pi_age := Suc (pi_age info)\<rparr>) (dm_registered s)\<rparr>)))"

definition drop_old_pidfiles :: "unit dm" where
  "drop_old_pidfiles = bnd (gets dm_registered) (\<lambda>items. for_each items drop_or_age)"

definition parse_pidfile :: "string \<Rightarrow> string \<Rightarrow> pidfile" where
  "parse_pidfile drone_hostname raw =
     (if raw = [] then PidfileContents empty_contents
      else let lines = split_lines raw in
        if length lines > 3 then InvalidPidfile ''Corrupt pid file''
        else case py_int (lines ! 0) of
            Inl e \<Rightarrow> InvalidPidfile ''Corrupt pid file''
          | Inr pid \<Rightarrow>
              let c = empty_contents\<lparr>pc_process :=
                        Some \<lparr>pr_hostname = drone_hostname, pr_pid = pid, pr_ppid = None\<rparr>\<rparr>
              in if length lines = 3 then
                   (case py_int (lines ! 1) of
                      Inl e \<Rightarrow> InvalidPidfile ''Corrupt pid file''
                    | Inr st \<Rightarrow> (case py_int (lines ! 2) of
                        Inl e \<Rightarrow> InvalidPidfile ''Corrupt pid file''
                      | Inr n \<Rightarrow> PidfileContents (c\<lparr>pc_exit_status := Some st, pc_num_tests_failed := Some n\<rparr>)))
                 else PidfileContents c)"

definition process_pidfiles ::
  "string \<Rightarrow> (string \<times> string) list \<Rightarrow> (pidfile_id \<times> pidfile) list \<Rightarrow> (pidfile_id \<times> pidfile) list" where
  "process_pidfiles h pidfiles store =
     foldl (\<lambda>d (path, raw). alist_put path (parse_pidfile h raw) d) store pidfiles"

text \<open>\<open>self._process_set.add(process)\<close> keeps the element already there.\<close>

definition add_process :: "string \<Rightarrow> proc_info \<Rightarrow> unit dm" where
  "add_process h info =
     bnd (lift_sum (py_int (ps_pid info))) (\<lambda>pid.
     bnd (lift_sum (py_int (ps_ppid info))) (\<lambda>ppid.
     let p = \<lparr>pr_hostname = h, pr_pid = pid, pr_ppid = Some ppid\<rparr>
     in modify (\<lambda>s. if is_process_running s p then s
                    else s\<lparr>dm_process_set := dm_process_set s @ [p]\<rparr>)))"

definition add_autoserv_process :: "string \<Rightarrow> proc_info \<Rightarrow> unit dm" where
  "add_autoserv_process h info =
     andthen (assert_that (ps_comm info = ''autotest-remote''))
       (when_do (ps_pgid info = ps_pid info) (add_process h info))"

text \<open>The body of the loop over the pidfiles of all drones, then the loop.\<close>

definition count_pidfile :: "string \<Rightarrow> pidfile_id \<times> pidfile \<Rightarrow> unit dm" where
  "count_pidfile h item = (case item of (p, f) \<Rightarrow>
     bnd (lift_sum (pidfile_attrs f)) (\<lambda>c.
     when_do (pc_exit_status c = None \<and>
              (case pc_process c of None \<Rightarrow> False | Some q \<Rightarrow> pr_hostname q = h))
       (bnd (gets (\<lambda>s. map_of (dm_registered s) p)) (\<lambda>r.
        bnd (some_or KeyError r) (\<lambda>info.
        case pi_num_processes info of
          None \<Rightarrow> ret ()
        | Some n \<Rightarrow> modify (put_drone h (\<lambda>d. d\<lparr>dr_active_processes := dr_active_processes d + n\<rparr>)))))))"

definition compute_active_processes :: "string \<Rightarrow> unit dm" where
  "compute_active_processes h =
     andthen (modify (put_drone h (\<lambda>d. d\<lparr>dr_active_processes := 0\<rparr>))) (
     bnd (gets dm_pidfiles) (\<lambda>files. for_each files (count_pidfile h)))"

text \<open>The part of \<open>refresh\<close> done for one drone with its results.\<close>

definition refresh_drone :: "string \<Rightarrow> call_result list \<Rightarrow> unit dm" where
  "refresh_drone h results_list = (case results_list of
       [] \<Rightarrow> throw IndexError
     | NoResult # _ \<Rightarrow> throw TypeError
     | Refreshed r # _ \<Rightarrow>
         andthen (for_each (rr_autoserv_processes r) (add_autoserv_process h)) (
         andthen (for_each (rr_parse_processes r) (add_process h)) (
         andthen (modify (\<lambda>s. s\<lparr>dm_pidfiles := process_pidfiles h (rr_pidfiles r) (dm_pidfiles s)\<rparr>)) (
         andthen (modify (\<lambda>s. s\<lparr>dm_pidfiles_second_read :=
                    process_pidfiles h (rr_pidfiles_second_read r) (dm_pidfiles_second_read s)\<rparr>)) (
         andthen (compute_active_processes h) (
         bnd (gets (\<lambda>s. dr_enabled (get_drone_obj s h))) (\<lambda>en.
         when_do en (modify (enqueue_drone h)))))))))"

definition dm_refresh :: "unit dm" where
  "dm_refresh =
     andthen dm_reset (
     andthen drop_old_pidfiles (
     bnd (gets (\<lambda>s. map fst (dm_registered s))) (\<lambda>paths.
     bnd (call_all_drones (Call_refresh paths)) (\<lambda>all_results.
     for_each all_results (\<lambda>(h, results_list). refresh_drone h results_list)))))"

section \<open>Choosing a drone and executing a command\<close>

definition kill_process :: "process \<Rightarrow> unit dm" where
  "kill_process p =
     bnd (get_drone_for_process p) (\<lambda>d.
       modify (put_drone (pr_hostname p) (queue_call (Call_kill_process p))))"

definition total_running_processes :: "dmgr \<Rightarrow> int" where
  "total_running_processes s = sum_list (map dr_active_processes (get_drones s))"

definition drone_allowed :: "dmgr \<Rightarrow> string option \<Rightarrow> string list option \<Rightarrow> string \<Rightarrow> bool" where
  "drone_allowed s username allowed h \<longleftrightarrow>
     usable_by (get_drone_obj s h) username \<and>
     (case allowed of None \<Rightarrow> True | Some hs \<Rightarrow> dr_hostname (get_drone_obj s h) \<in> set hs)"

definition max_runnable_processes :: "dmgr \<Rightarrow> string option \<Rightarrow> string list option \<Rightarrow> int" where
  "max_runnable_processes s username allowed =
     (let usable = filter (drone_allowed s username allowed) (dm_drone_queue s)
      in if usable = [] then 0
         else foldl max 0 (map (\<lambda>h. dr_max_processes (get_drone_obj s h) -
                                    dr_active_processes (get_drone_obj s h)) usable))"

definition least_loaded_drone :: "dmgr \<Rightarrow> string \<Rightarrow> string list \<Rightarrow> string" where
  "least_loaded_drone s h hs = foldl (\<lambda>best g. if drone_less s g best then g else best) h hs"

text \<open>
  The loop of \<open>_choose_drone_for_execution\<close>: pop drones until one is usable, allowed and has
  room. Answers the drone found, the rest of the heap, and the checked and the usable drones.
\<close>

definition has_room :: "dmgr \<Rightarrow> int \<Rightarrow> string \<Rightarrow> bool" where
  "has_room s n h \<longleftrightarrow>
     dr_active_processes (get_drone_obj s h) + n \<le> dr_max_processes (get_drone_obj s h)"

function check_drones ::
  "dmgr \<Rightarrow> int \<Rightarrow> string option \<Rightarrow> string list option \<Rightarrow> string list \<Rightarrow> string list \<Rightarrow> string list
   \<Rightarrow> string option \<times> string list \<times> string list \<times> string list" where
  "check_drones s n username allowed queue checked usable =
     (case heappop (drone_less s) queue of
        None \<Rightarrow> (None, queue, checked, usable)
      | Some (h, queue') \<Rightarrow>
          let checked' = checked @ [h] in
          if \<not> drone_allowed s username allowed h
          then check_drones s n username allowed queue' checked' usable
          else if has_room s n h then (Some h, queue', checked', usable @ [h])
          else check_drones s n username allowed queue' checked' (usable @ [h]))"
  by pat_completeness auto
termination
  by (relation "measure (\<lambda>(s, n, username, allowed, queue, checked, usable). length queue)")
    (auto dest: length_heappop)

declare check_drones.simps [simp del]

definition choose_drone_for_execution ::
  "int \<Rightarrow> string option \<Rightarrow> string list option \<Rightarrow> string option dm" where
  "choose_drone_for_execution n username allowed = (\<lambda>s.
     case check_drones s n username allowed (dm_drone_queue s) [] [] of
       (found, queue, checked, usable) \<Rightarrow>
         let chosen = (case found of
               Some h \<Rightarrow> Some h
             | None \<Rightarrow> (case usable of [] \<Rightarrow> None | h # hs \<Rightarrow> Some (least_loaded_drone s h hs)))
         in (Inr chosen, foldl (\<lambda>t h. enqueue_drone h t) (s\<lparr>dm_drone_queue := queue\<rparr>) checked))"

definition substitute_working_directory :: "string \<Rightarrow> cmd_item list \<Rightarrow> cmd_item list" where
  "substitute_working_directory wd cmd =
     map (\<lambda>c. case c of WORKING_DIRECTORY \<Rightarrow> Arg wd | Arg a \<Rightarrow> Arg a) cmd"

definition write_attached_files :: "string \<Rightarrow> string \<Rightarrow> unit dm" where
  "write_attached_files results_dir h =
     bnd (gets (\<lambda>s. case map_of (dm_attached_files s) results_dir of Some fs \<Rightarrow> fs | None \<Rightarrow> [])) (\<lambda>files.
     andthen (modify (\<lambda>s. s\<lparr>dm_attached_files := alist_del results_dir (dm_attached_files s)\<rparr>))
       (for_each files (\<lambda>(path, contents).
          modify (\<lambda>s. put_drone h (queue_call (Call_write_to_file (absolute_path s False path) contents)) s))))"

definition choose_for_command ::
  "pidfile_id option \<Rightarrow> int \<Rightarrow> string option \<Rightarrow> string list option \<Rightarrow> string option dm" where
  "choose_for_command paired n username allowed = (case paired of
       Some p \<Rightarrow> bnd (get_drone_for_pidfile_id p) (\<lambda>d. ret (Some (dr_hostname d)))
     | None \<Rightarrow> choose_drone_for_execution n username allowed)"

definition execute_command ::
  "cmd_item list \<Rightarrow> string \<Rightarrow> string \<Rightarrow> int \<Rightarrow> string option \<Rightarrow> pidfile_id option \<Rightarrow> string option
   \<Rightarrow> string list option \<Rightarrow> pidfile_id dm" where
  "execute_command command working_directory pidfile_name n log_file paired username allowed =
     bnd (gets (\<lambda>s. absolute_path s False working_directory)) (\<lambda>abs_wd.
     bnd (path_or_temporary ''execute'' log_file) (\<lambda>log.
     bnd (gets (\<lambda>s. absolute_path s False log)) (\<lambda>log'.
     bnd (choose_for_command paired n username allowed) (\<lambda>chosen.
     bnd (some_or DroneManagerError chosen) (\<lambda>h.
     andthen (write_attached_files working_directory h) (
     andthen (modify (put_drone h (queue_call (Call_execute_command
                (substitute_working_directory abs_wd command) abs_wd log' pidfile_name)))) (
     andthen (modify (put_drone h (\<lambda>d. d\<lparr>dr_active_processes := dr_active_processes d + n\<rparr>))) (
     andthen (modify reorder_drone_queue) (
     let pidfile = path_join abs_wd pidfile_name in
     andthen (modify (register_pidfile pidfile)) (
     andthen (declare_process_count pidfile (Some n)) (ret pidfile)))))))))))"

section \<open>Files\<close>

definition attach_file_to_execution :: "string \<Rightarrow> string \<Rightarrow> string option \<Rightarrow> string dm" where
  "attach_file_to_execution results_dir contents file_path =
     bnd (path_or_temporary ''attach'' file_path) (\<lambda>path.
     bnd (gets (\<lambda>s. case map_of (dm_attached_files s) results_dir of Some fs \<Rightarrow> fs | None \<Rightarrow> [])) (\<lambda>files.
     andthen (modify (\<lambda>s. s\<lparr>dm_attached_files := alist_put results_dir files (dm_attached_files s)\<rparr>)) (
     andthen (assert_that (map_of files path = None)) (
     andthen (modify (\<lambda>s. s\<lparr>dm_attached_files :=
                alist_put results_dir (alist_put path contents files) (dm_attached_files s)\<rparr>))
       (ret path)))))"

definition write_lines_to_file :: "string \<Rightarrow> string list \<Rightarrow> process option \<Rightarrow> unit dm" where
  "write_lines_to_file file_path lines paired_with_process =
     (let contents = str_join [CHR 0x0A] lines @ [CHR 0x0A] in
      case paired_with_process of
        Some p \<Rightarrow> bnd (get_drone_for_process p) (\<lambda>d.
          modify (\<lambda>s. put_drone (pr_hostname p)
            (queue_call (Call_write_to_file (absolute_path s False file_path) contents)) s))
      | None \<Rightarrow> bnd results_drone (\<lambda>d.
          bnd (gets (\<lambda>s. absolute_path s True file_path)) (\<lambda>full_path.
            update_results_drone (queue_call (Call_write_to_file full_path contents)))))"

definition copy_results_helper :: "process \<Rightarrow> string \<Rightarrow> string \<Rightarrow> bool \<Rightarrow> unit dm" where
  "copy_results_helper p source_path destination_path to_results_repository =
     bnd (gets (\<lambda>s. absolute_path s False source_path)) (\<lambda>src.
     bnd (gets (\<lambda>s. absolute_path s to_results_repository destination_path)) (\<lambda>dst.
     bnd (get_drone_for_process p) (\<lambda>d.
     if to_results_repository
     then bnd results_drone (\<lambda>rd.
       case send_file_to d rd src dst True of (d', rd') \<Rightarrow>
         modify (\<lambda>s. put_drone (pr_hostname p) (\<lambda>_. d') (s\<lparr>dm_results_drone := Some rd'\<rparr>)))
     else modify (put_drone (pr_hostname p) (queue_call (Call_copy_file_or_directory src dst))))))"

definition copy_to_results_repository :: "process \<Rightarrow> string \<Rightarrow> string option \<Rightarrow> unit dm" where
  "copy_to_results_repository p source_path destination_path =
     copy_results_helper p source_path
       (case destination_path of Some d \<Rightarrow> d | None \<Rightarrow> source_path) True"

definition copy_results_on_drone :: "process \<Rightarrow> string \<Rightarrow> string \<Rightarrow> unit dm" where
  "copy_results_on_drone p source_path destination_path =
     copy_results_helper p source_path destination_path False"

section \<open>Lemmas: choosing a drone\<close>

text \<open>Putting checked drones back changes the queue only.\<close>

lemma get_drone_obj_queue [simp]: "get_drone_obj (s\<lparr>dm_drone_queue := q\<rparr>) = get_drone_obj s"
  by (simp add: get_drone_obj_def fun_eq_iff)

lemma drone_less_queue [simp]: "drone_less (s\<lparr>dm_drone_queue := q\<rparr>) = drone_less s"
  by (simp add: drone_less_def fun_eq_iff)

lemma enqueue_drones:
  "\<exists>q'. foldl (\<lambda>t h. enqueue_drone h t) (s\<lparr>dm_drone_queue := q\<rparr>) hs = s\<lparr>dm_drone_queue := q'\<rparr> \<and>
        mset q' = mset q + mset hs"
proof (induction hs arbitrary: q)
  case Nil
  then show ?case by auto
next
  case (Cons h hs)
  have "enqueue_drone h (s\<lparr>dm_drone_queue := q\<rparr>) = s\<lparr>dm_drone_queue := heappush (drone_less s) q h\<rparr>"
    by (simp add: enqueue_drone_def)
  with Cons [of "heappush (drone_less s) q h"] show ?case by simp
qed

text \<open>What the loop over the heap answers.\<close>

lemma check_drones_empty:
  "heappop (drone_less s) queue = None \<Longrightarrow>
   check_drones s n u a queue checked usable = (None, queue, checked, usable)"
  by (subst check_drones.simps) simp

lemma check_drones_step:
  "heappop (drone_less s) queue = Some (h, q) \<Longrightarrow>
   check_drones s n u a queue checked usable =
     (if \<not> drone_allowed s u a h then check_drones s n u a q (checked @ [h]) usable
      else if has_room s n h then (Some h, q, checked @ [h], usable @ [h])
      else check_drones s n u a q (checked @ [h]) (usable @ [h]))"
  by (subst check_drones.simps) (simp add: Let_def)

text \<open>An induction rule with one case per way through the loop body.\<close>

lemma check_drones_cases [case_names empty forbidden room full]:
  assumes "\<And>queue checked usable. heappop (drone_less s) queue = None \<Longrightarrow>
      P queue checked usable (None, queue, checked, usable)"
    and "\<And>queue checked usable h q r. heappop (drone_less s) queue = Some (h, q) \<Longrightarrow>
      \<not> drone_allowed s u a h \<Longrightarrow> P q (checked @ [h]) usable r \<Longrightarrow> P queue checked usable r"
    and "\<And>queue checked usable h q. heappop (drone_less s) queue = Some (h, q) \<Longrightarrow>
      drone_allowed s u a h \<Longrightarrow> has_room s n h \<Longrightarrow>
      P queue checked usable (Some h, q, checked @ [h], usable @ [h])"
    and "\<And>queue checked usable h q r. heappop (drone_less s) queue = Some (h, q) \<Longrightarrow>
      drone_allowed s u a h \<Longrightarrow> \<not> has_room s n h \<Longrightarrow> P q (checked @ [h]) (usable @ [h]) r \<Longrightarrow>
      P queue checked usable r"
  shows "P queue checked usable (check_drones s n u a queue checked usable)"
proof (induction "length queue" arbitrary: queue checked usable rule: less_induct)
  case less
  show ?case
  proof (cases "heappop (drone_less s) queue")
    case None
    then show ?thesis using assms(1) by (simp only: check_drones_empty)
  next
    case (Some hq)
    obtain h q where hq: "heappop (drone_less s) queue = Some (h, q)" using Some by (cases hq) simp
    then have "length q < length queue" by (simp add: length_heappop)
    then have IH: "P q c us (check_drones s n u a q c us)" for c us by (rule less)
    show ?thesis
      using assms(2) [OF hq _ IH] assms(3) [OF hq] assms(4) [OF hq _ _ IH]
      by (simp only: check_drones_step [OF hq] split: if_split) blast
  qed
qed

lemma check_drones_bag:
  "(case check_drones s n u a queue checked usable of (found, queue', checked', usable') \<Rightarrow>
   mset queue' + mset checked' = mset queue + mset checked)"
  by (rule check_drones_cases) (auto dest: mset_heappop)

lemma check_drones_found:
  "(case check_drones s n u a queue checked usable of (found, queue', checked', usable') \<Rightarrow>
   \<forall>h. found = Some h \<longrightarrow> h \<in> set queue \<and> drone_allowed s u a h \<and> has_room s n h)"
  by (rule check_drones_cases) (auto dest: set_heappop)

lemma check_drones_not_found:
  "(case check_drones s n u a queue checked usable of (found, queue', checked', usable') \<Rightarrow>
   found = None \<longrightarrow>
     (\<forall>h \<in> set queue. drone_allowed s u a h \<longrightarrow> \<not> has_room s n h) \<and>
     set usable' = set usable \<union> {h \<in> set queue. drone_allowed s u a h})"
  by (rule check_drones_cases) (auto dest!: set_heappop)

lemma least_loaded_in: "least_loaded_drone s h hs \<in> set (h # hs)"
  unfolding least_loaded_drone_def by (induction hs arbitrary: h) auto

lemma least_loaded_least: "g \<in> set (h # hs) \<Longrightarrow> \<not> drone_less s g (least_loaded_drone s h hs)"
proof -
  have trans: "drone_less s b c" if "drone_less s a c" "\<not> drone_less s a b" for a b c
    using that capacity_less_negtrans by (auto simp: drone_less_def)
  have "(\<forall>g \<in> set (h # hs). \<not> drone_less s g (least_loaded_drone s h hs)) \<and>
        \<not> drone_less s h (least_loaded_drone s h hs)"
    unfolding least_loaded_drone_def
  proof (induction hs arbitrary: h)
    case Nil
    then show ?case by (simp add: drone_less_def)
  next
    case (Cons k hs)
    then show ?case
    proof (cases "drone_less s k h")
      case True
      with Cons [of k] show ?thesis
        by (auto simp: drone_less_def dest: capacity_less_trans)
    next
      case False
      with Cons [of h] show ?thesis using trans by auto
    qed
  qed
  then show "g \<in> set (h # hs) \<Longrightarrow> \<not> drone_less s g (least_loaded_drone s h hs)" by blast
qed

lemma choose_drone_cases:
  obtains chosen q where "choose_drone_for_execution n u a s = (Inr chosen, s\<lparr>dm_drone_queue := q\<rparr>)"
    and "mset q = mset (dm_drone_queue s)"
    and "\<And>h. chosen = Some h \<Longrightarrow> h \<in> set (dm_drone_queue s) \<and> drone_allowed s u a h"
    and "chosen = None \<longleftrightarrow> (\<forall>h \<in> set (dm_drone_queue s). \<not> drone_allowed s u a h)"
    and "(\<exists>h \<in> set (dm_drone_queue s). drone_allowed s u a h \<and> has_room s n h) \<longrightarrow>
         (\<exists>h. chosen = Some h \<and> has_room s n h)"
proof -
  obtain found queue checked usable where
    chk: "check_drones s n u a (dm_drone_queue s) [] [] = (found, queue, checked, usable)"
    by (metis prod_cases4)
  obtain q where q: "foldl (\<lambda>t h. enqueue_drone h t) (s\<lparr>dm_drone_queue := queue\<rparr>) checked =
      s\<lparr>dm_drone_queue := q\<rparr>" "mset q = mset queue + mset checked"
    using enqueue_drones by blast
  have bag: "mset q = mset (dm_drone_queue s)" using check_drones_bag [where s = s and n = n and u = u and a = a and queue = "dm_drone_queue s" and checked = "[]" and usable = "[]"] chk q(2) by simp
  let ?c = "case found of Some h \<Rightarrow> Some h
     | None \<Rightarrow> (case usable of [] \<Rightarrow> None | h # hs \<Rightarrow> Some (least_loaded_drone s h hs))"
  have run: "choose_drone_for_execution n u a s = (Inr ?c, s\<lparr>dm_drone_queue := q\<rparr>)"
    by (simp add: choose_drone_for_execution_def chk Let_def q(1))
  show ?thesis
  proof (cases found)
    case (Some h)
    with chk have "h \<in> set (dm_drone_queue s) \<and> drone_allowed s u a h \<and> has_room s n h"
      using check_drones_found [where s = s and n = n and u = u and a = a and queue = "dm_drone_queue s" and checked = "[]" and usable = "[]"] by simp
    with run bag Some show ?thesis by (intro that [of "Some h" q]) auto
  next
    case None
    then have nf: "\<forall>h \<in> set (dm_drone_queue s). drone_allowed s u a h \<longrightarrow> \<not> has_room s n h"
      and us: "set usable = {h \<in> set (dm_drone_queue s). drone_allowed s u a h}"
      using chk check_drones_not_found [where s = s and n = n and u = u and a = a and queue = "dm_drone_queue s" and checked = "[]" and usable = "[]"] by simp_all
    show ?thesis
    proof (cases usable)
      case Nil
      with run bag None nf us show ?thesis by (intro that [of None q]) auto
    next
      case (Cons h hs)
      then have "least_loaded_drone s h hs \<in> set usable" using least_loaded_in by simp
      with run bag None nf us Cons show ?thesis
        by (intro that [of "Some (least_loaded_drone s h hs)" q]) auto
    qed
  qed
qed

lemma foldl_max_ge: "(m :: int) \<le> foldl max m xs"
  by (induction xs arbitrary: m) (auto, metis max.bounded_iff)

lemma foldl_max_attained: "foldl max m xs = m \<or> foldl max (m :: int) xs \<in> set xs"
proof (induction xs arbitrary: m)
  case (Cons x xs)
  from Cons [of "max m x"] show ?case by (auto simp: max_def split: if_splits)
qed simp

lemma max_runnable_attained:
  "0 < n \<Longrightarrow> n \<le> max_runnable_processes s u a \<Longrightarrow>
   \<exists>h \<in> set (dm_drone_queue s). drone_allowed s u a h \<and> has_room s n h"
proof -
  let ?us = "filter (drone_allowed s u a) (dm_drone_queue s)"
  let ?free = "\<lambda>h. dr_max_processes (get_drone_obj s h) - dr_active_processes (get_drone_obj s h)"
  assume n: "0 < n" "n \<le> max_runnable_processes s u a"
  then have "n \<le> foldl max 0 (map ?free ?us)"
    by (auto simp: max_runnable_processes_def Let_def split: if_splits)
  then have "foldl max 0 (map ?free ?us) \<in> set (map ?free ?us)"
    using foldl_max_attained [of 0 "map ?free ?us"] n(1) by auto
  then obtain h where "h \<in> set ?us" "n \<le> ?free h"
    using \<open>n \<le> foldl max 0 (map ?free ?us)\<close> by auto
  then show ?thesis by (auto simp: has_room_def)
qed

section \<open>Properties: choosing a drone\<close>

text \<open>
  C3 (scheduler/drone_manager.py, \<open>_choose_drone_for_execution\<close> against \<open>max_runnable_processes\<close>).
  When the dispatcher's throttle says that \<open>n\<close> processes are runnable for a user and a set of
  allowed drones, the drone chosen for them is a queued drone the user may use, is in the allowed
  set, and has room for all \<open>n\<close>; choosing changes nothing but the internal order of the drone queue.
\<close>

theorem chosen_drone_has_room:
  assumes "0 < n" and "n \<le> max_runnable_processes s username allowed"
  shows "\<exists>h q. choose_drone_for_execution n username allowed s = (Inr (Some h), s\<lparr>dm_drone_queue := q\<rparr>) \<and>
    mset q = mset (dm_drone_queue s) \<and> h \<in> set (dm_drone_queue s) \<and>
    drone_allowed s username allowed h \<and> has_room s n h"
proof -
  obtain chosen q where c: "choose_drone_for_execution n username allowed s = (Inr chosen, s\<lparr>dm_drone_queue := q\<rparr>)"
      "mset q = mset (dm_drone_queue s)"
      "\<And>h. chosen = Some h \<Longrightarrow> h \<in> set (dm_drone_queue s) \<and> drone_allowed s username allowed h"
      "(\<exists>h \<in> set (dm_drone_queue s). drone_allowed s username allowed h \<and> has_room s n h) \<longrightarrow>
         (\<exists>h. chosen = Some h \<and> has_room s n h)"
    using choose_drone_cases [of n username allowed s] by metis
  with max_runnable_attained [OF assms] show ?thesis by blast
qed

definition sample_settings :: dm_settings where
  "sample_settings = \<lparr>cfg_install_dir = ''/usr/local/autotest'', cfg_test_output_dir = [],
     cfg_max_pidfile_refreshes = 2000, cfg_max_processes_per_drone = 10, cfg_disabled = (\<lambda>_. []),
     cfg_max_processes = (\<lambda>_. None), cfg_users = (\<lambda>_. None), cfg_results_install_dir = None,
     cfg_is_up = (\<lambda>_. True)\<rparr>"

definition sample_drone :: "string \<Rightarrow> int \<Rightarrow> int \<Rightarrow> drone" where
  "sample_drone h active cap = (new_drone h False ''/usr/local/autotest'')
     \<lparr>dr_active_processes := active, dr_max_processes := cap\<rparr>"

definition sample_dmgr :: dmgr where
  "sample_dmgr = (new_dmgr sample_settings (\<lambda>_ _ _. Inl DroneCallError))
     \<lparr>dm_drones := [(''d1'', sample_drone ''d1'' 9 10), (''d2'', sample_drone ''d2'' 2 4)],
      dm_drone_queue := [''d2'', ''d1''], dm_results_drone := Some (new_drone ''localhost'' True [])\<rparr>"

lemmas sample_dmgr_defs = sample_dmgr_def sample_drone_def sample_settings_def new_dmgr_def new_drone_def

theorem chosen_drone_has_room_witness:
  "\<exists>h q. choose_drone_for_execution 2 (Some ''bob'') None sample_dmgr =
       (Inr (Some h), sample_dmgr\<lparr>dm_drone_queue := q\<rparr>) \<and>
    mset q = mset (dm_drone_queue sample_dmgr) \<and> h \<in> set (dm_drone_queue sample_dmgr) \<and>
    drone_allowed sample_dmgr (Some ''bob'') None h \<and> has_room sample_dmgr 2 h"
  by (rule chosen_drone_has_room)
    (simp_all add: max_runnable_processes_def drone_allowed_def usable_by_def get_drone_obj_def
      sample_dmgr_defs)

text \<open>
  (scheduler/drone_manager.py, \<open>_choose_drone_for_execution\<close>). Whatever the load, the answer is
  None exactly when no queued drone may be used by the user and is in the allowed set: a command for
  an overloaded but usable pool still gets a drone, and \<open>execute_command\<close> raises only when there is
  none.
\<close>

theorem choose_drone_None_iff:
  "fst (choose_drone_for_execution n username allowed s) = Inr None \<longleftrightarrow>
     filter (drone_allowed s username allowed) (dm_drone_queue s) = []"
proof -
  obtain chosen q where "choose_drone_for_execution n username allowed s = (Inr chosen, s\<lparr>dm_drone_queue := q\<rparr>)"
      "chosen = None \<longleftrightarrow> (\<forall>h \<in> set (dm_drone_queue s). \<not> drone_allowed s username allowed h)"
    using choose_drone_cases [of n username allowed s] by metis
  then show ?thesis by (simp add: filter_empty_conv)
qed

section \<open>Properties: executing a command keeps the drones within their capacity\<close>

text \<open>The drones table as the manager keeps it: each drone under its own hostname, the queue over it.\<close>

definition drones_ok :: "dmgr \<Rightarrow> bool" where
  "drones_ok s \<longleftrightarrow> distinct (map fst (dm_drones s)) \<and> (\<forall>(h, d) \<in> set (dm_drones s). dr_hostname d = h) \<and>
     set (dm_drone_queue s) \<subseteq> fst ` set (dm_drones s)"

definition within_capacity :: "dmgr \<Rightarrow> bool" where
  "within_capacity s \<longleftrightarrow> (\<forall>(h, d) \<in> set (dm_drones s). dr_active_processes d \<le> dr_max_processes d)"

definition loads :: "dmgr \<Rightarrow> (string \<times> int \<times> int) list" where
  "loads s = map (\<lambda>(h, d). (h, dr_active_processes d, dr_max_processes d)) (dm_drones s)"

lemma within_capacity_loads: "within_capacity s \<longleftrightarrow> (\<forall>(h, a, m) \<in> set (loads s). a \<le> m)"
  by (auto simp: within_capacity_def loads_def split: prod.splits)

lemma loads_put_drone_calls: "loads (put_drone h (queue_call c) s) = loads s"
  by (auto simp: loads_def put_drone_def)

lemma loads_fields [simp]:
  "loads (s\<lparr>dm_drone_queue := q\<rparr>) = loads s"
  "loads (s\<lparr>dm_attached_files := f\<rparr>) = loads s"
  "loads (s\<lparr>dm_registered := g\<rparr>) = loads s"
  "loads (s\<lparr>dm_temporary_path_counter := k\<rparr>) = loads s"
  by (simp_all add: loads_def)

lemma loads_register [simp]: "loads (register_pidfile p s) = loads s"
  by (auto simp: register_pidfile_def reset_pidfile_age_def split: option.splits)

lemma loads_reorder [simp]: "loads (reorder_drone_queue s) = loads s"
  by (simp add: reorder_drone_queue_def)

lemma write_attached_files_run:
  "\<exists>s'. write_attached_files wd h s = (Inr (), s') \<and> loads s' = loads s"
proof -
  have each: "\<exists>s'. for_each fs (\<lambda>(path, contents). modify (\<lambda>s. put_drone h
      (queue_call (Call_write_to_file (absolute_path s False path) contents)) s)) s = (Inr (), s') \<and>
      loads s' = loads s" for fs s
  proof (induction fs arbitrary: s)
    case Nil
    then show ?case by (simp add: ret_def)
  next
    case (Cons f fs)
    then show ?case by (cases f) (simp, metis loads_put_drone_calls)
  qed
  show ?thesis
    using each by (fastforce simp: write_attached_files_def)
qed

lemma get_temporary_path_run:
  "\<exists>p. get_temporary_path b s = (Inr p, s\<lparr>dm_temporary_path_counter := Suc (dm_temporary_path_counter s)\<rparr>)"
  by (simp add: get_temporary_path_def gets_def)

lemma path_or_temporary_run:
  "\<exists>l k. path_or_temporary b p s = (Inr l, s\<lparr>dm_temporary_path_counter := k\<rparr>)"
  using get_temporary_path_run [of b s]
  by (auto simp: path_or_temporary_def ret_def split: option.split
      intro: exI [of _ "dm_temporary_path_counter s"])

lemma map_of_in_loads:
  "map_of (dm_drones s) h = Some d \<Longrightarrow> (h, dr_active_processes d, dr_max_processes d) \<in> set (loads s)"
  by (force simp: loads_def dest: map_of_SomeD)

lemma within_capacity_add:
  assumes "distinct (map fst (dm_drones s))" and "within_capacity s"
    and "h \<in> fst ` set (dm_drones s)" and "has_room s n h" and "loads t = loads s"
  shows "within_capacity (put_drone h (\<lambda>d. d\<lparr>dr_active_processes := dr_active_processes d + n\<rparr>) t)"
proof -
  obtain d where d: "map_of (dm_drones s) h = Some d"
    using assms(1,3) by (metis map_of_eq_None_iff not_None_eq)
  with assms(4) have room: "dr_active_processes d + n \<le> dr_max_processes d"
    by (simp add: has_room_def get_drone_obj_def)
  have dist: "distinct (map fst (loads s))"
    using assms(1) by (simp add: loads_def comp_def split_def)
  have "(if k = h then dr_active_processes e + n else dr_active_processes e) \<le> dr_max_processes e"
    if ke: "(k, e) \<in> set (dm_drones t)" for k e
  proof -
    have in_l: "(k, dr_active_processes e, dr_max_processes e) \<in> set (loads s)"
      using ke assms(5) [symmetric] by (force simp: loads_def)
    then have le: "dr_active_processes e \<le> dr_max_processes e"
      using assms(2) by (auto simp: within_capacity_loads)
    have "k = h \<Longrightarrow> dr_active_processes e = dr_active_processes d \<and> dr_max_processes e = dr_max_processes d"
      using in_l map_of_in_loads [OF d] dist by (metis eq_key_imp_eq_value prod.inject)
    with le room show ?thesis by auto
  qed
  then show ?thesis by (fastforce simp: within_capacity_def put_drone_def split: if_splits)
qed

lemma max_runnable_processes_cong:
  assumes "get_drone_obj s = get_drone_obj t" and "dm_drone_queue s = dm_drone_queue t"
  shows "max_runnable_processes s u a = max_runnable_processes t u a"
  unfolding max_runnable_processes_def drone_allowed_def assms by (rule refl)



section \<open>Properties: pidfiles\<close>

lemma alist_del_absent: "k \<notin> fst ` set kvs \<Longrightarrow> alist_del k kvs = kvs"
  by (induction kvs) auto

lemma alist_del_append: "alist_del k (xs @ ys) = alist_del k xs @ alist_del k ys"
  by (induction xs) auto

lemma alist_put_middle: "k \<notin> fst ` set xs \<Longrightarrow> alist_put k v (xs @ (k, w) # ys) = xs @ (k, v) # ys"
  by (induction xs) auto

lemma drop_or_age_run:
  "drop_or_age (p, i) s = (Inr (),
     if pi_age i > cfg_max_pidfile_refreshes (dm_settings s) then unregister_pidfile p s
     else s\<lparr>dm_registered := alist_put p (i\<lparr>pi_age := Suc (pi_age i)\<rparr>) (dm_registered s)\<rparr>)"
  by (simp add: drop_or_age_def modify_def)

lemma drop_loop:
  "distinct (map fst (todo @ fin)) \<Longrightarrow> dm_registered s = fin @ todo \<Longrightarrow>
   for_each todo drop_or_age s =
     (Inr (), s\<lparr>dm_registered := fin @ map (\<lambda>(p, i). (p, i\<lparr>pi_age := Suc (pi_age i)\<rparr>))
        (filter (\<lambda>(p, i). pi_age i \<le> cfg_max_pidfile_refreshes (dm_settings s)) todo)\<rparr>)"
proof (induction todo arbitrary: s fin)
  case Nil
  then show ?case by (simp add: ret_def)
next
  case (Cons x todo)
  obtain p i where x: "x = (p, i)" by (cases x)
  show ?case
  proof (cases "pi_age i > cfg_max_pidfile_refreshes (dm_settings s)")
    case True
    let ?s = "unregister_pidfile p s"
    have run: "drop_or_age (p, i) s = (Inr (), ?s)" using True by (simp add: drop_or_age_run)
    have "dm_registered ?s = fin @ todo"
      using Cons.prems x by (auto simp: unregister_pidfile_def alist_del_append alist_del_absent)
    with Cons.IH [of fin ?s] Cons.prems True x show ?thesis
      by (simp add: andthen_def bnd_def run) (simp add: unregister_pidfile_def)
  next
    case False
    let ?s = "s\<lparr>dm_registered := alist_put p (i\<lparr>pi_age := Suc (pi_age i)\<rparr>) (dm_registered s)\<rparr>"
    have run: "drop_or_age (p, i) s = (Inr (), ?s)" using False by (simp add: drop_or_age_run)
    have "dm_registered ?s = (fin @ [(p, i\<lparr>pi_age := Suc (pi_age i)\<rparr>)]) @ todo"
      using Cons.prems x by (auto simp: alist_put_middle)
    with Cons.IH [of "fin @ [(p, i\<lparr>pi_age := Suc (pi_age i)\<rparr>)]" ?s] Cons.prems False x
    show ?thesis by (simp add: andthen_def bnd_def run)
  qed
qed

text \<open>
  (scheduler/drone_manager.py, \<open>_drop_old_pidfiles\<close>). One refresh forgets exactly the pidfiles
  whose age is past \<open>max_pidfile_refreshes\<close> and ages every other one by one.
\<close>

theorem drop_old_pidfiles_exact:
  assumes "distinct (map fst (dm_registered s))"
  shows "drop_old_pidfiles s = (Inr (), s\<lparr>dm_registered :=
     map (\<lambda>(p, i). (p, i\<lparr>pi_age := Suc (pi_age i)\<rparr>))
       (filter (\<lambda>(p, i). pi_age i \<le> cfg_max_pidfile_refreshes (dm_settings s)) (dm_registered s))\<rparr>)"
  using drop_loop [of "dm_registered s" "[]" s] assms by (simp add: drop_old_pidfiles_def)

theorem drop_old_pidfiles_exact_witness:
  "drop_old_pidfiles (sample_dmgr\<lparr>dm_registered := [(''a'', \<lparr>pi_age = 2001, pi_num_processes = None\<rparr>),
       (''b'', \<lparr>pi_age = 2000, pi_num_processes = Some 2\<rparr>)]\<rparr>) =
     (Inr (), sample_dmgr\<lparr>dm_registered := [(''b'', \<lparr>pi_age = 2001, pi_num_processes = Some 2\<rparr>)]\<rparr>)"
proof -
  have "distinct (map fst (dm_registered (sample_dmgr\<lparr>dm_registered := [(''a'', \<lparr>pi_age = 2001, pi_num_processes = None\<rparr>),
       (''b'', \<lparr>pi_age = 2000, pi_num_processes = Some 2\<rparr>)]\<rparr>)))" by simp
  from drop_old_pidfiles_exact [OF this] show ?thesis by (simp add: sample_dmgr_defs)
qed

end
