(* ===== verification/Enums.thy ===== *)
theory Enums
  imports Prelude
begin

text \<open>
  The enumerations of the system: the generic \<open>Enum\<close> class of client/shared/enum.py, the queue
  entry statuses of client/shared/host_queue_entry_states.py, the host statuses and special task
  kinds of frontend/afe/models.py, the host protection levels and the reboot policies.
\<close>

section \<open>The Enum class\<close>

text \<open>A value of an enumeration: an integer, or the name itself with \<open>string_values=True\<close>.\<close>

datatype enum_value = EInt int | EStr string

record enum_obj =
  en_string_values :: bool
  en_names :: "string list"
  en_values :: "enum_value list"
  en_attrs :: "(string \<times> enum_value) list"   \<comment> \<open>the attributes set by \<open>setattr\<close>\<close>

definition char_upper :: "char \<Rightarrow> char" where
  "char_upper c = (if 97 \<le> (of_char c :: nat) \<and> (of_char c :: nat) \<le> 122
     then char_of ((of_char c :: nat) - 32) else c)"

definition get_attr_name :: "string \<Rightarrow> string" where
  "get_attr_name s = map (\<lambda>c. if c = CHR '' '' then CHR ''_'' else c) (map char_upper s)"

fun enum_init_loop :: "bool \<Rightarrow> int \<Rightarrow> int \<Rightarrow> string list \<Rightarrow> enum_obj \<Rightarrow> enum_obj" where
  "enum_init_loop sv start i [] e = e"
| "enum_init_loop sv start i (name # names) e =
     (let value = (if sv then EStr name else EInt (i + start))
      in enum_init_loop sv start (i + 1) names
           (e\<lparr>en_values := en_values e @ [value],
              en_attrs := alist_put (get_attr_name name) value (en_attrs e)\<rparr>))"

definition enum_init :: "string list \<Rightarrow> bool \<Rightarrow> int \<Rightarrow> enum_obj" where
  "enum_init names string_values start_value =
     enum_init_loop string_values start_value 0 names
       \<lparr>en_string_values = string_values, en_names = names, en_values = [], en_attrs = []\<rparr>"

definition choices :: "enum_obj \<Rightarrow> (enum_value \<times> string) list" where
  "choices e = zip (en_values e) (en_names e)"

definition get_value :: "enum_obj \<Rightarrow> enum_value \<Rightarrow> exn + enum_value" where
  "get_value e name = (case name of
       EInt i \<Rightarrow> if \<not> en_string_values e then Inr (EInt i) else Inl AttributeError
     | EStr s \<Rightarrow> (case map_of (en_attrs e) (get_attr_name s) of
         None \<Rightarrow> Inl AttributeError | Some v \<Rightarrow> Inr v))"

fun list_index :: "'a \<Rightarrow> 'a list \<Rightarrow> nat" where
  "list_index x [] = 0"
| "list_index x (y # ys) = (if x = y then 0 else Suc (list_index x ys))"

definition get_string :: "enum_obj \<Rightarrow> enum_value \<Rightarrow> exn + string" where
  "get_string e v = (if v \<notin> set (en_values e) then Inl ValueError
     else Inr (en_names e ! list_index v (en_values e)))"

lemma nth_list_index: "x \<in> set xs \<Longrightarrow> list_index x xs < length xs \<and> xs ! list_index x xs = x"
  by (induction xs) auto

lemma enum_init_loop_names [simp]: "en_names (enum_init_loop sv st i ns e) = en_names e"
  by (induction sv st i ns e rule: enum_init_loop.induct) (simp_all add: Let_def)

lemma enum_init_loop_sv [simp]: "en_string_values (enum_init_loop sv st i ns e) = en_string_values e"
  by (induction sv st i ns e rule: enum_init_loop.induct) (simp_all add: Let_def)

text \<open>The value given to each name, and what the loop leaves in the two collections.\<close>

primrec enum_vals :: "bool \<Rightarrow> int \<Rightarrow> int \<Rightarrow> string list \<Rightarrow> enum_value list" where
  "enum_vals sv st i [] = []"
| "enum_vals sv st i (n # ns) = (if sv then EStr n else EInt (i + st)) # enum_vals sv st (i + 1) ns"

lemma length_enum_vals [simp]: "length (enum_vals sv st i ns) = length ns"
  by (induction ns arbitrary: i) simp_all

lemma set_enum_vals: "set (enum_vals sv st i ns) \<subseteq> (if sv then EStr ` set ns else EInt ` {i + st..})"
proof (induction ns arbitrary: i)
  case (Cons n ns)
  from Cons [of "i + 1"] show ?case by (auto split: if_splits)
qed simp

lemma enum_init_loop_values:
  "en_values (enum_init_loop sv st i ns e) = en_values e @ enum_vals sv st i ns"
  by (induction ns arbitrary: i e) (simp_all add: Let_def)

lemma enum_init_loop_attrs:
  "distinct (map get_attr_name ns) \<Longrightarrow>
   map_of (en_attrs (enum_init_loop sv st i ns e)) =
     map_of (en_attrs e) ++ map_of (zip (map get_attr_name ns) (enum_vals sv st i ns))"
proof (induction ns arbitrary: i e)
  case Nil
  then show ?case by simp
next
  case (Cons n ns)
  let ?v = "if sv then EStr n else EInt (i + st)"
  have len: "length (map get_attr_name ns) = length (enum_vals sv st (i + 1) ns)" by simp
  have "get_attr_name n \<notin> set (map get_attr_name ns)" using Cons.prems by auto
  then have "map_of (zip (map get_attr_name ns) (enum_vals sv st (i + 1) ns)) (get_attr_name n) = None"
    using map_of_zip_is_None [OF len] by simp
  then have "get_attr_name n \<notin> dom (map_of (zip (map get_attr_name ns) (enum_vals sv st (i + 1) ns)))"
    by auto
  then have "(map_of (en_attrs e))(get_attr_name n \<mapsto> v) ++ map_of (zip (map get_attr_name ns) (enum_vals sv st (i + 1) ns)) =
      (map_of (en_attrs e) ++ map_of (zip (map get_attr_name ns) (enum_vals sv st (i + 1) ns)))(get_attr_name n \<mapsto> v)" for v
    by (rule map_add_upd_left)
  with Cons show ?case by (cases sv) (simp_all add: Let_def del: fun_upd_apply)
qed

section \<open>Queue entry statuses\<close>

datatype hqe_status =
    Queued | Starting | Verifying | Pending | Waiting | Running | Gathering | Parsing
  | Archiving | Aborted | Completed | Failed | Stopped | Template

definition ACTIVE_STATUSES :: "hqe_status list" where
  "ACTIVE_STATUSES = [Starting, Verifying, Pending, Running, Gathering]"

definition COMPLETE_STATUSES :: "hqe_status list" where
  "COMPLETE_STATUSES = [Aborted, Completed, Failed, Stopped, Template]"

abbreviation is_active_status :: "hqe_status \<Rightarrow> bool" where
  "is_active_status s \<equiv> s \<in> set ACTIVE_STATUSES"

abbreviation is_complete_status :: "hqe_status \<Rightarrow> bool" where
  "is_complete_status s \<equiv> s \<in> set COMPLETE_STATUSES"

lemmas status_sets = ACTIVE_STATUSES_def COMPLETE_STATUSES_def

lemma active_not_complete: "\<not> (is_active_status s \<and> is_complete_status s)"
  by (cases s) (simp_all add: status_sets)

fun hqe_status_string :: "hqe_status \<Rightarrow> string" where
  "hqe_status_string Queued = ''Queued''"
| "hqe_status_string Starting = ''Starting''"
| "hqe_status_string Verifying = ''Verifying''"
| "hqe_status_string Pending = ''Pending''"
| "hqe_status_string Waiting = ''Waiting''"
| "hqe_status_string Running = ''Running''"
| "hqe_status_string Gathering = ''Gathering''"
| "hqe_status_string Parsing = ''Parsing''"
| "hqe_status_string Archiving = ''Archiving''"
| "hqe_status_string Aborted = ''Aborted''"
| "hqe_status_string Completed = ''Completed''"
| "hqe_status_string Failed = ''Failed''"
| "hqe_status_string Stopped = ''Stopped''"
| "hqe_status_string Template = ''Template''"

section \<open>Host statuses, special tasks, protection levels, reboot policies\<close>

datatype host_status =
  HVerifying | HRunning | HReady | HRepairing | HRepairFailed | HCleaning | HPending

datatype special_task_kind = TaskVerify | TaskCleanup | TaskRepair

fun task_kind_lower :: "special_task_kind \<Rightarrow> string" where
  "task_kind_lower TaskVerify = ''verify''"
| "task_kind_lower TaskCleanup = ''cleanup''"
| "task_kind_lower TaskRepair = ''repair''"

datatype protection =
  No_protection | Repair_software_only | Repair_filesystem_only | Do_not_repair | Do_not_verify

datatype reboot_before = RB_Never | RB_If_dirty | RB_Always

datatype reboot_after = RA_Never | RA_If_all_tests_passed | RA_Always

text \<open>
  \<open>Protection.get_attr_name(Protection.get_string(p))\<close>, the argument \<open>RepairTask\<close> passes to
  autoserv; the strings are those of client/shared/host_protections.py.
\<close>

definition Protection :: enum_obj where
  "Protection = enum_init [''No protection'', ''Repair software only'', ''Repair filesystem only'',
     ''Do not repair'', ''Do not verify''] False 0"

fun protection_index :: "protection \<Rightarrow> int" where
  "protection_index No_protection = 0"
| "protection_index Repair_software_only = 1"
| "protection_index Repair_filesystem_only = 2"
| "protection_index Do_not_repair = 3"
| "protection_index Do_not_verify = 4"

definition protection_attr_name :: "protection \<Rightarrow> exn + string" where
  "protection_attr_name p = (case get_string Protection (EInt (protection_index p)) of
     Inl e \<Rightarrow> Inl e | Inr s \<Rightarrow> Inr (get_attr_name s))"

section \<open>Properties\<close>

lemma enum_init_fields:
  "en_names (enum_init ns sv st) = ns"
  "en_values (enum_init ns sv st) = enum_vals sv st 0 ns"
  "en_string_values (enum_init ns sv st) = sv"
  by (simp_all add: enum_init_def enum_init_loop_values)

lemma enum_init_attrs:
  "distinct (map get_attr_name ns) \<Longrightarrow>
   map_of (en_attrs (enum_init ns sv st)) = map_of (zip (map get_attr_name ns) (enum_vals sv st 0 ns))"
  by (simp add: enum_init_def enum_init_loop_attrs)

lemma distinct_enum_vals: "distinct ns \<Longrightarrow> distinct (enum_vals sv st i ns)"
proof (induction ns arbitrary: i)
  case Nil
  then show ?case by simp
next
  case (Cons n ns)
  have "(if sv then EStr n else EInt (i + st)) \<notin> set (enum_vals sv st (i + 1) ns)"
    using Cons.prems set_enum_vals [of sv st "i + 1" ns] by (auto split: if_splits)
  with Cons show ?case by simp
qed

lemma list_index_nth: "distinct xs \<Longrightarrow> i < length xs \<Longrightarrow> list_index (xs ! i) xs = i"
  by (induction xs arbitrary: i) (auto simp: nth_Cons split: nat.splits)

text \<open>
  (round trip of client/shared/enum.py). In an enumeration whose names stay distinct as attribute
  names, \<open>get_value\<close> finds a value for every name and \<open>get_string\<close> maps that value back to the name.
\<close>

theorem enum_roundtrip:
  assumes "distinct (map get_attr_name names)" and "n \<in> set names"
  shows "\<exists>v. get_value (enum_init names sv st) (EStr n) = Inr v \<and>
             get_string (enum_init names sv st) v = Inr n"
proof -
  obtain i where i: "i < length names" "names ! i = n" using assms(2) by (auto simp: in_set_conv_nth)
  let ?vs = "enum_vals sv st 0 names"
  have dn: "distinct names" using assms(1) by (simp add: distinct_map)
  have "map_of (zip (map get_attr_name names) ?vs) (map get_attr_name names ! i) = Some (?vs ! i)"
    using assms(1) i by (intro map_of_zip_nth) simp_all
  then have "get_value (enum_init names sv st) (EStr n) = Inr (?vs ! i)"
    using i by (simp add: get_value_def enum_init_attrs [OF assms(1)])
  moreover have "list_index (?vs ! i) ?vs = i"
    using i by (intro list_index_nth distinct_enum_vals dn) simp
  then have "get_string (enum_init names sv st) (?vs ! i) = Inr n"
    using i by (simp add: get_string_def enum_init_fields)
  ultimately show ?thesis by blast
qed

theorem enum_roundtrip_witness:
  "\<exists>v. get_value (enum_init [''String one'', ''String two''] False 0) (EStr ''String two'') = Inr v \<and>
       get_string (enum_init [''String one'', ''String two''] False 0) v = Inr ''String two''"
  by (rule enum_roundtrip) code_simp+

end
