(* ===== verification/World.thy ===== *)
theory World
  imports Drone_Manager Enums
begin

text \<open>
  The state the scheduler works on: the rows of the database tables it reads and writes, the
  objects scheduler/scheduler_models.py keeps in memory for some of these rows, the drone manager,
  the mails sent, the agents of the dispatcher and the clock. Every method of the scheduler is a
  computation over this one record.

  The two layers are kept apart because the code keeps them apart: an instance of
  \<open>scheduler_models.DBObject\<close> holds a copy of its row, refreshed only when the instance is
  constructed again, and compares new values with that copy, while the Django models and plain SQL
  read and write the rows themselves. Rows are listed in the order of their ids, the order in which
  an unordered SELECT returns them. Times are in seconds. Log messages are not modelled.
\<close>

section \<open>Rows of the database\<close>

record host_row =
  h_id :: nat
  h_hostname :: string
  h_locked :: bool
  h_status :: "host_status option"
  h_invalid :: bool
  h_protection :: protection
  h_locked_by :: "nat option"
  h_lock_time :: "int option"
  h_dirty :: bool

record hqe_row =
  q_id :: nat
  q_job_id :: nat
  q_host_id :: "nat option"
  q_profile :: string
  q_status :: hqe_status
  q_meta_host :: "nat option"
  q_active :: bool
  q_complete :: bool
  q_deleted :: bool
  q_execution_subdir :: string
  q_atomic_group_id :: "nat option"
  q_aborted :: bool
  q_started_on :: "int option"

record job_row =
  j_id :: nat
  j_owner :: string
  j_name :: string
  j_priority :: int
  j_control_file :: string
  j_control_type :: int
  j_created_on :: int
  j_synch_count :: int
  j_timeout :: int
  j_run_verify :: bool
  j_email_list :: string
  j_reboot_before :: reboot_before
  j_reboot_after :: reboot_after
  j_parse_failed_repair :: bool
  j_max_runtime_hrs :: int
  j_drone_set_id :: "nat option"
  j_reserve_hosts :: bool

record label_row =
  l_id :: nat
  l_name :: string
  l_platform :: bool
  l_invalid :: bool
  l_only_if_needed :: bool
  l_atomic_group_id :: "nat option"

record atomic_group_row =
  ag_id :: nat
  ag_name :: string
  ag_max_number_of_machines :: int
  ag_invalid :: bool

record user_row =
  u_id :: nat
  u_login :: string
  u_access_level :: int
  u_drone_set_id :: "nat option"
  u_reboot_before :: reboot_before
  u_reboot_after :: reboot_after

record special_task =
  st_id :: nat
  st_host_id :: nat
  st_task :: special_task_kind
  st_requested_by :: nat
  st_time_requested :: int
  st_is_active :: bool
  st_is_complete :: bool
  st_time_started :: "int option"
  st_queue_entry_id :: "nat option"
  st_success :: bool

record block_row =
  b_id :: nat
  b_job_id :: nat
  b_host_id :: nat

section \<open>Objects in memory\<close>

text \<open>
  A \<open>HostQueueEntry\<close> object: the instance every constructor call for a row id returns (the class
  keeps one per id), or the n-th object made by \<open>clone\<close>, which is not registered under an id.
  \<open>Host\<close> and \<open>Job\<close> objects are always registered, so their ids name them.
\<close>

datatype entry_ref = Entry nat | Clone nat

record hqe_obj =
  e_row :: hqe_row
  e_host :: "nat option"                       \<comment> \<open>the attribute \<open>host\<close>\<close>
  e_queue_log_path :: string
  e_abort_info :: "(string option \<times> int option) option"  \<comment> \<open>the cache of \<open>_load_abort_info\<close>\<close>

section \<open>Monitors, tasks and agents\<close>

text \<open>
  \<open>rm_shared\<close> says where the \<open>PidfileContents\<close> object in \<open>_state\<close> comes from: it may be the
  object stored in the drone manager's first or second reading, which assignments to its attributes
  then change as well.
\<close>

datatype state_source = Own_object | First_reading | Second_reading

record run_monitor =
  rm_lost_process :: bool
  rm_start_time :: "int option"
  rm_pidfile_id :: "pidfile_id option"
  rm_state :: pidfile_contents
  rm_shared :: state_source

datatype task_class =
    CleanupTask | VerifyTask | RepairTask
  | QueueTask | HostlessQueueTask
  | GatherLogsTask | FinalReparseTask | ArchiveResultsTask
  | DelayedCallTask

record agent_task =
  at_class :: task_class
  at_done :: bool
  at_started :: bool
  at_success :: "bool option"
  at_aborted :: bool
  at_monitor :: "run_monitor option"
  at_queue_entry_ids :: "nat list"
  at_host_ids :: "nat list"
  at_log_file_name :: "string option"
  at_host :: nat                               \<comment> \<open>special tasks: \<open>self.host\<close>\<close>
  at_queue_entry :: "entry_ref option"         \<comment> \<open>special tasks: \<open>self.queue_entry\<close>\<close>
  at_task :: "special_task option"             \<comment> \<open>special tasks: the Django object \<open>self.task\<close>\<close>
  at_extra_args :: "string list"
  at_job :: nat                                \<comment> \<open>queue tasks, gathering, delayed calls\<close>
  at_queue_entries :: "entry_ref list"
  at_autoserv_monitor :: "run_monitor option"  \<comment> \<open>post-job tasks\<close>
  at_end_time :: int                           \<comment> \<open>delayed calls\<close>

record agent =
  ag_queue_entry_ids :: "nat list"
  ag_host_ids :: "nat list"
  ag_started :: bool
  ag_finished :: bool

section \<open>Configuration and mail\<close>

text \<open>
  The settings the scheduler and the job models read. \<open>cfg_str_time\<close> is how the standard library prints a time, and
  \<open>cfg_disable_installation\<close> what the install server answers for a hostname, when one is configured.
\<close>

record sched_config =
  cfg_notify_email_statuses :: "string list"
  cfg_notify_admin_email_statuses :: "string list"
  cfg_grid_admin_email :: string
  cfg_str_time :: "int \<Rightarrow> string"
  cfg_secs_to_wait_for_atomic_group_hosts :: int
  cfg_max_processes_started_per_cycle :: int
  cfg_max_parse_processes :: int
  cfg_max_transfer_processes :: int
  cfg_clean_interval :: int
  cfg_reverify_period_minutes :: int
  cfg_reverify_max_hosts_at_once :: int
  cfg_pidfile_timeout_mins :: int
  cfg_die_on_orphans :: bool
  cfg_drone_sets_enabled :: bool
  cfg_default_drone_set_name :: string
  cfg_autoserv_path :: string
  cfg_parser_path :: string
  cfg_scheduler_install_dir :: string
  cfg_testing_mode :: bool
  cfg_disable_installation :: "(string \<Rightarrow> exn option) option"
  cfg_parameterized_jobs :: bool
  cfg_job_timeout_default :: int
  cfg_job_max_runtime_hrs_default :: int
  cfg_parse_failed_repair_default :: bool

text \<open>
  A mail, by the arguments its text is computed from: the mail about one entry's status, the mail
  about a finished job, and a mail queued for the administrator.
\<close>

datatype mail =
    Status_mail string nat hqe_status string    \<comment> \<open>address, job, status, hostname\<close>
  | Job_mail string nat "(string \<times> nat) list"   \<comment> \<open>address, job, count of each status\<close>
  | Admin_mail string                           \<comment> \<open>subject\<close>

section \<open>The host scheduler's view of a cycle\<close>

text \<open>
  The structures \<open>BaseHostScheduler.refresh\<close> builds. Sets of ids are duplicate-free lists: the
  order Python iterates a set in is not fixed, and neither is the order of the rows they come from.
\<close>

record host_scheduler =
  hs_everyone_acl :: "nat list"
  hs_hosts_available :: "nat list"
  hs_job_acls :: "(nat \<times> nat list) list"
  hs_ineligible_hosts :: "(nat \<times> nat list) list"
  hs_job_dependencies :: "(nat \<times> nat list) list"
  hs_host_acls :: "(nat \<times> nat list) list"
  hs_label_hosts :: "(nat \<times> nat list) list"
  hs_host_labels :: "(nat \<times> nat list) list"
  hs_labels :: "(nat \<times> label_row) list"

section \<open>The world\<close>

record world =
  db_hosts :: "host_row list"
  db_hqes :: "hqe_row list"
  db_jobs :: "job_row list"
  db_labels :: "label_row list"
  db_atomic_groups :: "atomic_group_row list"
  db_users :: "user_row list"
  db_special_tasks :: "special_task list"
  db_blocks :: "block_row list"
  db_hosts_labels :: "(nat \<times> nat) list"           \<comment> \<open>host, label\<close>
  db_jobs_dependency_labels :: "(nat \<times> nat) list" \<comment> \<open>job, label\<close>
  db_acl_groups :: "(nat \<times> string) list"
  db_acl_users :: "(nat \<times> nat) list"              \<comment> \<open>group, user\<close>
  db_acl_hosts :: "(nat \<times> nat) list"              \<comment> \<open>group, host\<close>
  db_aborted :: "(nat \<times> nat \<times> int) list"          \<comment> \<open>entry, user, time\<close>
  db_job_keyvals :: "(nat \<times> string \<times> string) list"
  db_drone_sets :: "(nat \<times> string) list"
  db_drone_set_drones :: "(nat \<times> string) list"
  db_auto_id :: nat                              \<comment> \<open>next AUTO_INCREMENT value, one for all tables\<close>
  mem_hosts :: "nat \<Rightarrow> host_row option"
  mem_jobs :: "nat \<Rightarrow> job_row option"
  mem_hqes :: "entry_ref \<Rightarrow> hqe_obj option"
  mem_clones :: nat
  mem_delay_ready_task :: "nat \<Rightarrow> nat option"      \<comment> \<open>\<open>Job._delay_ready_task\<close>: the task's number\<close>
  w_dm :: dmgr
  w_mail :: "mail list"
  w_now :: int
  w_thread_user :: "nat option"                  \<comment> \<open>the user a request runs for; None in the scheduler\<close>
  w_cfg :: sched_config
  w_hs :: host_scheduler
  w_tasks :: "nat \<Rightarrow> agent_task option"
  w_next_task :: nat
  w_agents :: "nat list"                         \<comment> \<open>\<open>Dispatcher._agents\<close>: an agent by its task's number\<close>
  w_agent_objs :: "nat \<Rightarrow> agent option"
  w_host_agents :: "(nat \<times> nat list) list"
  w_queue_entry_agents :: "(nat \<times> nat list) list"
  w_num_parsing :: int                           \<comment> \<open>\<open>FinalReparseTask._num_running_processes\<close>\<close>
  w_num_archiving :: int                         \<comment> \<open>\<open>ArchiveResultsTask._num_running_processes\<close>\<close>
  w_last_user_cleanup :: int
  w_last_upkeep :: int
  w_last_reverify :: int

type_synonym 'a sched = "(world, 'a) exm"

section \<open>Rows by id\<close>

definition find_row :: "('r \<Rightarrow> nat) \<Rightarrow> nat \<Rightarrow> 'r list \<Rightarrow> 'r option" where
  "find_row key i rows = List.find (\<lambda>r. key r = i) rows"

definition upd_row :: "('r \<Rightarrow> nat) \<Rightarrow> nat \<Rightarrow> ('r \<Rightarrow> 'r) \<Rightarrow> 'r list \<Rightarrow> 'r list" where
  "upd_row key i f rows = map (\<lambda>r. if key r = i then f r else r) rows"

lemma find_row_Nil [simp]: "find_row key i [] = None"
  by (simp add: find_row_def)

lemma find_row_Cons [simp]:
  "find_row key i (r # rs) = (if key r = i then Some r else find_row key i rs)"
  by (simp add: find_row_def)

lemma find_row_SomeD: "find_row key i rows = Some r \<Longrightarrow> r \<in> set rows \<and> key r = i"
  by (induction rows) (auto split: if_splits)

lemma find_row_None: "find_row key i rows = None \<longleftrightarrow> i \<notin> key ` set rows"
  by (induction rows) auto

lemma find_row_unique:
  "distinct (map key rows) \<Longrightarrow> r \<in> set rows \<Longrightarrow> find_row key (key r) rows = Some r"
  by (induction rows) auto

lemma find_row_upd:
  "(\<And>r. key (f r) = key r) \<Longrightarrow>
   find_row key j (upd_row key i f rows) = (if j = i then map_option f (find_row key j rows) else find_row key j rows)"
  by (induction rows) (auto simp: upd_row_def)

lemma upd_row_keys: "(\<And>r. key (f r) = key r) \<Longrightarrow> map key (upd_row key i f rows) = map key rows"
  by (induction rows) (auto simp: upd_row_def)

lemma length_upd_row [simp]: "length (upd_row key i f rows) = length rows"
  by (simp add: upd_row_def)

lemma set_upd_row:
  "set (upd_row key i f rows) = {r \<in> set rows. key r \<noteq> i} \<union> f ` {r \<in> set rows. key r = i}"
  by (auto simp: upd_row_def)

lemma upd_row_upd_row:
  "(\<And>r. key (f r) = key r) \<Longrightarrow> upd_row key i g (upd_row key i f rows) = upd_row key i (\<lambda>r. g (f r)) rows"
  by (simp add: upd_row_def comp_def)

text \<open>
  \<open>save()\<close> of a Django object: the row with its id is replaced, or inserted in the order of ids.
\<close>

fun put_row :: "('r \<Rightarrow> nat) \<Rightarrow> 'r \<Rightarrow> 'r list \<Rightarrow> 'r list" where
  "put_row key r [] = [r]"
| "put_row key r (x # xs) = (if key x = key r then r # xs
     else if key r < key x then r # x # xs else x # put_row key r xs)"

text \<open>A set of values per key, as \<open>result.setdefault(k, set()).add(v)\<close> builds it.\<close>

definition dict_add :: "('k \<times> 'v list) list \<Rightarrow> 'k \<times> 'v \<Rightarrow> ('k \<times> 'v list) list" where
  "dict_add d kv = (case kv of (k, v) \<Rightarrow>
     alist_put k (set_add v (case map_of d k of None \<Rightarrow> [] | Some vs \<Rightarrow> vs)) d)"

definition dict_get :: "('k \<times> 'v list) list \<Rightarrow> 'k \<Rightarrow> 'v list" where
  "dict_get d k = (case map_of d k of None \<Rightarrow> [] | Some vs \<Rightarrow> vs)"

lemma dict_get_Nil [simp]: "dict_get [] k = []"
  by (simp add: dict_get_def)

lemma set_dict_get_add: "set (dict_get (dict_add d (k, v)) j) = set (dict_get d j) \<union> (if j = k then {v} else {})"
  by (auto simp: dict_get_def dict_add_def split: option.splits)

lemma dict_get_foldl:
  "set (dict_get (foldl dict_add d kvs) j) = set (dict_get d j) \<union> {v. (j, v) \<in> set kvs}"
proof (induction kvs arbitrary: d)
  case (Cons kv kvs)
  then show ?case by (cases kv) (auto simp: set_dict_get_add split: if_splits)
qed simp

section \<open>Access to the world\<close>

definition dm :: "'a dm \<Rightarrow> 'a sched" where
  "dm m = zoom w_dm (\<lambda>d w. w\<lparr>w_dm := d\<rparr>) m"

definition now :: "int sched" where
  "now = gets w_now"

definition enqueue_admin :: "string \<Rightarrow> unit sched" where
  "enqueue_admin subject = modify (\<lambda>w. w\<lparr>w_mail := w_mail w @ [Admin_mail subject]\<rparr>)"

definition send_mail :: "mail \<Rightarrow> unit sched" where
  "send_mail m = modify (\<lambda>w. w\<lparr>w_mail := w_mail w @ [m]\<rparr>)"

definition fresh_id :: "nat sched" where
  "fresh_id = bnd (gets db_auto_id) (\<lambda>i. andthen (modify (\<lambda>w. w\<lparr>db_auto_id := Suc i\<rparr>)) (ret i))"

definition get_entry :: "entry_ref \<Rightarrow> hqe_obj sched" where
  "get_entry r = bnd (gets (\<lambda>w. mem_hqes w r)) (some_or AttributeError)"

definition get_job :: "nat \<Rightarrow> job_row sched" where
  "get_job i = bnd (gets (\<lambda>w. mem_jobs w i)) (some_or AttributeError)"

definition get_host :: "nat \<Rightarrow> host_row sched" where
  "get_host i = bnd (gets (\<lambda>w. mem_hosts w i)) (some_or AttributeError)"

text \<open>\<open>self.host\<close> used where it may be None: reading an attribute of None raises.\<close>

definition entry_host :: "hqe_obj \<Rightarrow> host_row sched" where
  "entry_host e = bnd (some_or AttributeError (e_host e)) get_host"

section \<open>Small worlds\<close>

text \<open>Rows and a world without rows, from which the concrete inputs of the witnesses are built.\<close>

definition sample_config :: sched_config where
  "sample_config = \<lparr>cfg_notify_email_statuses = [], cfg_notify_admin_email_statuses = [],
     cfg_grid_admin_email = [], cfg_str_time = (\<lambda>_. ''now''), cfg_secs_to_wait_for_atomic_group_hosts = 600,
     cfg_max_processes_started_per_cycle = 50, cfg_max_parse_processes = 5, cfg_max_transfer_processes = 50,
     cfg_clean_interval = 60, cfg_reverify_period_minutes = 0, cfg_reverify_max_hosts_at_once = 30,
     cfg_pidfile_timeout_mins = 300, cfg_die_on_orphans = False, cfg_drone_sets_enabled = False,
     cfg_default_drone_set_name = [], cfg_autoserv_path = ''autotest-remote'',
     cfg_parser_path = ''autotest-tko-parse'', cfg_scheduler_install_dir = ''/usr/local/autotest'',
     cfg_testing_mode = False, cfg_disable_installation = None,
     cfg_parameterized_jobs = False, cfg_job_timeout_default = 240, cfg_job_max_runtime_hrs_default = 72,
     cfg_parse_failed_repair_default = False\<rparr>"

definition empty_host_scheduler :: host_scheduler where
  "empty_host_scheduler = \<lparr>hs_everyone_acl = [], hs_hosts_available = [], hs_job_acls = [],
     hs_ineligible_hosts = [], hs_job_dependencies = [], hs_host_acls = [], hs_label_hosts = [],
     hs_host_labels = [], hs_labels = []\<rparr>"

definition empty_world :: world where
  "empty_world = \<lparr>db_hosts = [], db_hqes = [], db_jobs = [], db_labels = [], db_atomic_groups = [],
     db_users = [\<lparr>u_id = 1, u_login = ''autotest_system'', u_access_level = 100, u_drone_set_id = None,
       u_reboot_before = RB_If_dirty, u_reboot_after = RA_Always\<rparr>],
     db_special_tasks = [], db_blocks = [], db_hosts_labels = [], db_jobs_dependency_labels = [],
     db_acl_groups = [(1, ''Everyone'')], db_acl_users = [(1, 1)], db_acl_hosts = [], db_aborted = [],
     db_job_keyvals = [], db_drone_sets = [], db_drone_set_drones = [], db_auto_id = 1000,
     mem_hosts = Map.empty, mem_jobs = Map.empty, mem_hqes = Map.empty, mem_clones = 0,
     mem_delay_ready_task = Map.empty, w_dm = sample_dmgr, w_mail = [], w_now = 1000000,
     w_thread_user = None, w_cfg = sample_config, w_hs = empty_host_scheduler, w_tasks = Map.empty,
     w_next_task = 0, w_agents = [], w_agent_objs = Map.empty, w_host_agents = [],
     w_queue_entry_agents = [], w_num_parsing = 0, w_num_archiving = 0, w_last_user_cleanup = 1000000,
     w_last_upkeep = 1000000, w_last_reverify = 1000000\<rparr>"

definition sample_host :: "nat \<Rightarrow> string \<Rightarrow> host_row" where
  "sample_host i name = \<lparr>h_id = i, h_hostname = name, h_locked = False, h_status = Some HReady,
     h_invalid = False, h_protection = No_protection, h_locked_by = None, h_lock_time = None, h_dirty = False\<rparr>"

definition sample_job :: "nat \<Rightarrow> int \<Rightarrow> job_row" where
  "sample_job i synch_count = \<lparr>j_id = i, j_owner = ''bob'', j_name = ''test'', j_priority = 1,
     j_control_file = [], j_control_type = 2, j_created_on = 999000, j_synch_count = synch_count,
     j_timeout = 24, j_run_verify = True, j_email_list = [], j_reboot_before = RB_Never,
     j_reboot_after = RA_Never, j_parse_failed_repair = False, j_max_runtime_hrs = 72,
     j_drone_set_id = None, j_reserve_hosts = False\<rparr>"

definition sample_entry :: "nat \<Rightarrow> nat \<Rightarrow> nat option \<Rightarrow> hqe_status \<Rightarrow> hqe_row" where
  "sample_entry i job host status = \<lparr>q_id = i, q_job_id = job, q_host_id = host, q_profile = [],
     q_status = status, q_meta_host = None, q_active = is_active_status status,
     q_complete = is_complete_status status, q_deleted = False, q_execution_subdir = [],
     q_atomic_group_id = None, q_aborted = False, q_started_on = None\<rparr>"

definition entry_object :: "hqe_row \<Rightarrow> hqe_obj" where
  "entry_object q = \<lparr>e_row = q, e_host = q_host_id q, e_queue_log_path = [], e_abort_info = None\<rparr>"

lemmas sample_defs = sample_config_def empty_host_scheduler_def empty_world_def sample_host_def
  sample_job_def sample_entry_def entry_object_def

lemma set_map_filter: "set (List.map_filter f xs) = {y. \<exists>x \<in> set xs. f x = Some y}"
  by (induction xs) (auto simp: map_filter_simps split: option.splits)

end
