(* ===== verification/Hostnames.thy ===== *)
theory Hostnames
  imports World
begin

text \<open>
  The order of hosts by hostname, \<open>Host.cmp_for_sort\<close> of scheduler/scheduler_models.py, and
  \<open>list.sort(cmp=...)\<close> of CPython 2 with a comparison that may raise: the initial run, then binary
  insertion (lists of 64 elements and more are merged from runs sorted this way).
\<close>

section \<open>Comparing hostnames\<close>

definition is_name_char :: "char \<Rightarrow> bool" where
  "is_name_char c \<longleftrightarrow> c = CHR ''-'' \<or> (97 \<le> (of_char c :: nat) \<and> (of_char c :: nat) \<le> 122)"

text \<open>
  \<open>_ALPHANUM_HOST_RE\<close> on a lower case name: letters and hyphens, then digits; \<open>$\<close> also matches
  before a final newline.
\<close>

definition alphanum_host_match :: "string \<Rightarrow> (string \<times> string) option" where
  "alphanum_host_match s =
     (let name = takeWhile is_name_char s; rest = dropWhile is_name_char s;
          digits = takeWhile is_digit rest; tail = dropWhile is_digit rest
      in if name \<noteq> [] \<and> digits \<noteq> [] \<and> (tail = [] \<or> tail = [CHR 0x0A]) then Some (name, digits)
         else None)"

definition lstrip_zeros :: "string \<Rightarrow> string" where
  "lstrip_zeros s = dropWhile (\<lambda>c. c = CHR ''0'') s"

definition int_cmp :: "int \<Rightarrow> int \<Rightarrow> int" where
  "int_cmp a b = (if a < b then -1 else if a = b then 0 else 1)"

text \<open>\<open>cmp\<close> on pairs of a name and a number.\<close>

definition pair_cmp :: "string \<times> int \<Rightarrow> string \<times> int \<Rightarrow> int" where
  "pair_cmp p q = (if str_cmp (fst p) (fst q) = 0 then int_cmp (snd p) (snd q)
     else str_cmp (fst p) (fst q))"

definition cmp_for_sort :: "string \<Rightarrow> string \<Rightarrow> exn + int" where
  "cmp_for_sort a b =
     (let lower_a = str_lower a; lower_b = str_lower b in
      case (alphanum_host_match lower_a, alphanum_host_match lower_b) of
        (Some (name_a, digits_a), Some (name_b, digits_b)) \<Rightarrow>
          sbind (py_int (lstrip_zeros digits_a)) (\<lambda>number_a.
          sbind (py_int (lstrip_zeros digits_b)) (\<lambda>number_b.
            let result = pair_cmp (name_a, number_a) (name_b, number_b) in
            if result = 0 \<and> lower_a \<noteq> lower_b then Inr (str_cmp lower_a lower_b) else Inr result))
      | _ \<Rightarrow> Inr (str_cmp lower_a lower_b))"

section \<open>list.sort\<close>

text \<open>\<open>lt x y\<close> is whether \<open>cmp(x, y) < 0\<close>.\<close>

fun extend_run :: "('a \<Rightarrow> 'a \<Rightarrow> exn + bool) \<Rightarrow> bool \<Rightarrow> 'a \<Rightarrow> 'a list \<Rightarrow> exn + ('a list \<times> 'a list)" where
  "extend_run lt descending prev [] = Inr ([], [])"
| "extend_run lt descending prev (y # ys) =
     sbind (lt y prev) (\<lambda>b. if b = descending
       then sbind (extend_run lt descending y ys) (\<lambda>(run, rest). Inr (y # run, rest))
       else Inr ([], y # ys))"

fun count_run :: "('a \<Rightarrow> 'a \<Rightarrow> exn + bool) \<Rightarrow> 'a list \<Rightarrow> exn + ('a list \<times> 'a list)" where
  "count_run lt (x # y # ys) =
     sbind (lt y x) (\<lambda>descending.
     sbind (extend_run lt descending y ys) (\<lambda>(run, rest).
       Inr (if descending then rev (x # y # run) else x # y # run, rest)))"
| "count_run lt xs = Inr (xs, [])"

function insert_position :: "('a \<Rightarrow> 'a \<Rightarrow> exn + bool) \<Rightarrow> 'a \<Rightarrow> 'a list \<Rightarrow> nat \<Rightarrow> nat \<Rightarrow> exn + nat" where
  "insert_position lt pivot xs l r =
     (if l < r
      then let p = l + (r - l) div 2 in
           sbind (lt pivot (xs ! p)) (\<lambda>b.
             if b then insert_position lt pivot xs l p else insert_position lt pivot xs (Suc p) r)
      else Inr l)"
  by pat_completeness auto
termination
  by (relation "measure (\<lambda>(lt, pivot, xs, l, r). r - l)") auto

declare insert_position.simps [simp del]

fun binarysort :: "('a \<Rightarrow> 'a \<Rightarrow> exn + bool) \<Rightarrow> 'a list \<Rightarrow> 'a list \<Rightarrow> exn + 'a list" where
  "binarysort lt done_part [] = Inr done_part"
| "binarysort lt done_part (x # xs) =
     sbind (insert_position lt x done_part 0 (length done_part)) (\<lambda>i.
       binarysort lt (take i done_part @ [x] @ drop i done_part) xs)"

definition py_sort :: "('a \<Rightarrow> 'a \<Rightarrow> exn + int) \<Rightarrow> 'a list \<Rightarrow> exn + 'a list" where
  "py_sort cmp xs =
     (let lt = (\<lambda>x y. sbind (cmp x y) (\<lambda>c. Inr (c < 0))) in
      sbind (count_run lt xs) (\<lambda>(run, rest). binarysort lt run rest))"

section \<open>Sorting permutes\<close>

lemma extend_run_split:
  "extend_run lt d x ys = Inr (run, rest) \<Longrightarrow> run @ rest = ys"
  by (induction lt d x ys arbitrary: run rest rule: extend_run.induct)
    (auto simp: sbind_Inr split: if_splits)

lemma count_run_mset: "count_run lt xs = Inr (run, rest) \<Longrightarrow> mset run + mset rest = mset xs"
proof (induction lt xs rule: count_run.induct)
  case (1 lt x y ys)
  then obtain d r where "extend_run lt d y ys = Inr (r, rest)"
    "run = (if d then rev (x # y # r) else x # y # r)"
    by (auto simp: sbind_Inr split: prod.splits)
  with extend_run_split [of lt d y ys r rest] show ?case by auto
qed simp_all

lemma binarysort_mset: "binarysort lt xs ys = Inr zs \<Longrightarrow> mset zs = mset xs + mset ys"
proof (induction ys arbitrary: xs)
  case (Cons y ys)
  then obtain i where "binarysort lt (take i xs @ [y] @ drop i xs) ys = Inr zs"
    by (auto simp: sbind_Inr)
  from Cons.IH [OF this] have "mset zs = mset (take i xs) + {#y#} + mset (drop i xs) + mset ys"
    by simp
  moreover have "mset (take i xs) + mset (drop i xs) = mset xs"
    by (metis append_take_drop_id mset_append)
  ultimately show ?case by simp
qed simp

lemma py_sort_mset: "py_sort cmp xs = Inr ys \<Longrightarrow> mset ys = mset xs"
  by (auto simp: py_sort_def Let_def sbind_Inr dest!: count_run_mset binarysort_mset split: prod.splits)

lemma py_sort_set: "py_sort cmp xs = Inr ys \<Longrightarrow> set ys = set xs"
  using py_sort_mset mset_eq_setD by blast

lemma py_sort_length: "py_sort cmp xs = Inr ys \<Longrightarrow> length ys = length xs"
  using py_sort_mset mset_eq_length by blast

section \<open>Sorting sorts\<close>

text \<open>
  \<open>sorts_by cmp le A\<close>: on the elements of \<open>A\<close> the comparison answers, and its sign is that of the
  total preorder \<open>le\<close>.
\<close>

definition sorts_by :: "('a \<Rightarrow> 'a \<Rightarrow> exn + int) \<Rightarrow> ('a \<Rightarrow> 'a \<Rightarrow> bool) \<Rightarrow> 'a set \<Rightarrow> bool" where
  "sorts_by cmp le A \<longleftrightarrow>
     (\<forall>x \<in> A. \<forall>y \<in> A. \<exists>c. cmp x y = Inr c \<and> (c < 0 \<longleftrightarrow> \<not> le y x)) \<and>
     (\<forall>x \<in> A. \<forall>y \<in> A. le x y \<or> le y x) \<and>
     (\<forall>x \<in> A. \<forall>y \<in> A. \<forall>z \<in> A. le x y \<longrightarrow> le y z \<longrightarrow> le x z)"

definition lt_of :: "('a \<Rightarrow> 'a \<Rightarrow> exn + int) \<Rightarrow> 'a \<Rightarrow> 'a \<Rightarrow> exn + bool" where
  "lt_of cmp x y = sbind (cmp x y) (\<lambda>c. Inr (c < 0))"

lemma lt_of_run: "sorts_by cmp le A \<Longrightarrow> x \<in> A \<Longrightarrow> y \<in> A \<Longrightarrow> lt_of cmp x y = Inr (\<not> le y x)"
proof -
  assume a: "sorts_by cmp le A" "x \<in> A" "y \<in> A"
  from bspec [OF bspec [OF conjunct1 [OF a(1) [unfolded sorts_by_def]] a(2)] a(3)] show ?thesis by (auto simp: lt_of_def)
qed

lemma sorts_by_trans: "sorts_by cmp le A \<Longrightarrow> x \<in> A \<Longrightarrow> y \<in> A \<Longrightarrow> z \<in> A \<Longrightarrow> le x y \<Longrightarrow> le y z \<Longrightarrow> le x z"
  unfolding sorts_by_def by blast

lemma sorts_by_total: "sorts_by cmp le A \<Longrightarrow> x \<in> A \<Longrightarrow> y \<in> A \<Longrightarrow> \<not> le x y \<Longrightarrow> le y x"
  unfolding sorts_by_def by blast

lemma sorts_by_refl: "sorts_by cmp le A \<Longrightarrow> x \<in> A \<Longrightarrow> le x x"
  unfolding sorts_by_def by blast

text \<open>The order in which a run goes: up, or down when it is to be reversed.\<close>

definition run_le :: "('a \<Rightarrow> 'a \<Rightarrow> bool) \<Rightarrow> bool \<Rightarrow> 'a \<Rightarrow> 'a \<Rightarrow> bool" where
  "run_le le descending x y = (if descending then le y x else le x y)"

lemma run_le_trans:
  "sorts_by cmp le A \<Longrightarrow> x \<in> A \<Longrightarrow> y \<in> A \<Longrightarrow> z \<in> A \<Longrightarrow> run_le le d x y \<Longrightarrow> run_le le d y z \<Longrightarrow> run_le le d x z"
  using sorts_by_trans [of cmp le A x y z] sorts_by_trans [of cmp le A z y x] by (cases d) (simp_all add: run_le_def)

lemma run_le_extend:
  assumes "sorts_by cmp le A" "x \<in> A" "y \<in> A" "set run \<subseteq> A" "run_le le d x y" "sorted_wrt (run_le le d) (y # run)"
  shows "sorted_wrt (run_le le d) (x # y # run)"
proof -
  have "run_le le d x z" if "z \<in> set run" for z
    using run_le_trans [OF assms(1-3), of z] that assms(4-6) by auto
  then show ?thesis using assms(5,6) by simp
qed

lemma extend_run_sorts:
  assumes s: "sorts_by cmp le A" and "x \<in> A" and "set ys \<subseteq> A"
  shows "\<exists>run rest. extend_run (lt_of cmp) d x ys = Inr (run, rest) \<and> sorted_wrt (run_le le d) (x # run)"
  using assms(2,3)
proof (induction ys arbitrary: x)
  case Nil
  then show ?case by simp
next
  case (Cons y ys)
  have y: "y \<in> A" "set ys \<subseteq> A" using Cons.prems by auto
  have lt: "lt_of cmp y x = Inr (\<not> le x y)" by (rule lt_of_run [OF s y(1) Cons.prems(1)])
  show ?case
  proof (cases "(\<not> le x y) = d")
    case False
    then show ?thesis using lt by auto
  next
    case True
    obtain run rest where r: "extend_run (lt_of cmp) d y ys = Inr (run, rest)" "sorted_wrt (run_le le d) (y # run)"
      using Cons.IH [OF y] by blast
    have run_A: "set run \<subseteq> A" using extend_run_split [OF r(1)] y(2) by auto
    have "run_le le d x y"
      using True sorts_by_total [OF s Cons.prems(1) y(1)] by (auto simp: run_le_def)
    then have "sorted_wrt (run_le le d) (x # y # run)"
      by (rule run_le_extend [OF s Cons.prems(1) y(1) run_A _ r(2)])
    then show ?thesis using lt True r(1) by simp
  qed
qed

lemma count_run_sorts:
  assumes s: "sorts_by cmp le A" and "set xs \<subseteq> A"
  shows "\<exists>run rest. count_run (lt_of cmp) xs = Inr (run, rest) \<and> sorted_wrt le run"
  using assms(2)
proof (induction "lt_of cmp" xs rule: count_run.induct)
  case (1 x y ys)
  have A: "x \<in> A" "y \<in> A" "set ys \<subseteq> A" using 1 by auto
  let ?d = "\<not> le x y"
  obtain run rest where r: "extend_run (lt_of cmp) ?d y ys = Inr (run, rest)" "sorted_wrt (run_le le ?d) (y # run)"
    using extend_run_sorts [OF s A(2,3)] by blast
  have run_A: "set run \<subseteq> A" using extend_run_split [OF r(1)] A(3) by auto
  have "run_le le ?d x y" using sorts_by_total [OF s A(1,2)] by (auto simp: run_le_def)
  then have sw: "sorted_wrt (run_le le ?d) (x # y # run)" by (rule run_le_extend [OF s A(1,2) run_A _ r(2)])
  have up: "run_le le False = le" and down: "run_le le True = (\<lambda>a b. le b a)" by (auto simp: run_le_def fun_eq_iff)
  have "sorted_wrt le (if ?d then rev (x # y # run) else x # y # run)"
  proof (cases ?d)
    case True
    then have "sorted_wrt (\<lambda>a b. le b a) (x # y # run)" using sw down by simp
    then show ?thesis using True by (simp only: sorted_wrt_rev if_True simp_thms)
  next
    case False
    then show ?thesis using sw up by simp
  qed
  then show ?case
    using r(1) lt_of_run [OF s A(2,1)] by simp
qed simp_all

text \<open>The binary search splits a sorted list around the new element.\<close>

lemma insert_position_sorts:
  assumes s: "sorts_by cmp le A" and "p \<in> A" and "set xs \<subseteq> A" and "sorted_wrt le xs"
  shows "l \<le> r \<Longrightarrow> r \<le> length xs \<Longrightarrow> \<forall>i < l. le (xs ! i) p \<Longrightarrow> \<forall>i. r \<le> i \<longrightarrow> i < length xs \<longrightarrow> \<not> le (xs ! i) p \<Longrightarrow>
    \<exists>k. insert_position (lt_of cmp) p xs l r = Inr k \<and> k \<le> length xs \<and>
        (\<forall>i < k. le (xs ! i) p) \<and> (\<forall>i. k \<le> i \<longrightarrow> i < length xs \<longrightarrow> \<not> le (xs ! i) p)"
proof (induction "r - l" arbitrary: l r rule: less_induct)
  case less
  show ?case
  proof (cases "l < r")
    case False
    with less.prems have "l = r" by simp
    then have "insert_position (lt_of cmp) p xs l r = Inr l" by (simp add: insert_position.simps)
    with less.prems \<open>l = r\<close> show ?thesis by (intro exI [of _ l]) simp
  next
    case True
    let ?m = "l + (r - l) div 2"
    have m: "l \<le> ?m" "?m < r" "?m < length xs" using True less.prems(2) by auto
    have mA: "xs ! ?m \<in> A" using m(3) assms(3) nth_mem by blast
    have run: "insert_position (lt_of cmp) p xs l r =
        (if \<not> le (xs ! ?m) p then insert_position (lt_of cmp) p xs l ?m
         else insert_position (lt_of cmp) p xs (Suc ?m) r)"
      using True lt_of_run [OF s assms(2) mA] by (subst insert_position.simps) (simp add: Let_def)
    have mono: "i \<le> j \<Longrightarrow> j < length xs \<Longrightarrow> le (xs ! i) (xs ! j)" for i j
      using assms(3,4) sorted_wrt_nth_less [of le xs i j] sorts_by_refl [OF s, of "xs ! i"]
      by (metis le_neq_implies_less nth_mem subsetD)
    show ?thesis
    proof (cases "le (xs ! ?m) p")
      case False
      have "\<forall>i. ?m \<le> i \<longrightarrow> i < length xs \<longrightarrow> \<not> le (xs ! i) p"
      proof (intro allI impI notI)
        fix i assume i: "?m \<le> i" "i < length xs" "le (xs ! i) p"
        then have "le (xs ! ?m) p"
          using mono [OF i(1,2)] sorts_by_trans [OF s mA _ assms(2)] assms(3) nth_mem by blast
        with False show False by simp
      qed
      then have "\<exists>k. insert_position (lt_of cmp) p xs l ?m = Inr k \<and> k \<le> length xs \<and>
          (\<forall>i < k. le (xs ! i) p) \<and> (\<forall>i. k \<le> i \<longrightarrow> i < length xs \<longrightarrow> \<not> le (xs ! i) p)"
        using m less.prems by (intro less.hyps) auto
      then show ?thesis using run False by simp
    next
      case mle: True
      have "\<forall>i < Suc ?m. le (xs ! i) p"
      proof (intro allI impI)
        fix i assume "i < Suc ?m"
        then have "le (xs ! i) (xs ! ?m)" "xs ! i \<in> A" using mono m(3) assms(3) nth_mem by auto
        then show "le (xs ! i) p" using mle sorts_by_trans [OF s _ mA assms(2)] by blast
      qed
      then have "\<exists>k. insert_position (lt_of cmp) p xs (Suc ?m) r = Inr k \<and> k \<le> length xs \<and>
          (\<forall>i < k. le (xs ! i) p) \<and> (\<forall>i. k \<le> i \<longrightarrow> i < length xs \<longrightarrow> \<not> le (xs ! i) p)"
        using m less.prems by (intro less.hyps) auto
      then show ?thesis using run mle by simp
    qed
  qed
qed

lemma insert_sorted:
  assumes s: "sorts_by cmp le A" and "p \<in> A" "set xs \<subseteq> A" "sorted_wrt le xs" "k \<le> length xs"
    and "\<forall>i < k. le (xs ! i) p" "\<forall>i. k \<le> i \<longrightarrow> i < length xs \<longrightarrow> \<not> le (xs ! i) p"
  shows "sorted_wrt le (take k xs @ [p] @ drop k xs)"
proof -
  have t: "\<forall>x \<in> set (take k xs). le x p"
    using assms(5,6) by (auto simp: in_set_conv_nth)
  have d: "\<forall>x \<in> set (drop k xs). le p x"
  proof
    fix x assume "x \<in> set (drop k xs)"
    then obtain i where "i < length xs - k" "x = xs ! (k + i)" by (auto simp: in_set_conv_nth)
    then have "\<not> le x p" "x \<in> A" using assms(3,7) by auto
    then show "le p x" using sorts_by_total [OF s _ assms(2)] by blast
  qed
  have "sorted_wrt le (take k xs @ drop k xs)" using assms(4) by simp
  then show ?thesis using t d unfolding sorted_wrt_append by simp
qed

lemma binarysort_sorts:
  assumes s: "sorts_by cmp le A"
  shows "set xs \<subseteq> A \<Longrightarrow> set ys \<subseteq> A \<Longrightarrow> sorted_wrt le xs \<Longrightarrow>
    \<exists>zs. binarysort (lt_of cmp) xs ys = Inr zs \<and> sorted_wrt le zs"
proof (induction ys arbitrary: xs)
  case (Cons y ys)
  have y: "y \<in> A" "set ys \<subseteq> A" using Cons.prems by auto
  obtain k where k: "insert_position (lt_of cmp) y xs 0 (length xs) = Inr k" "k \<le> length xs"
    "\<forall>i < k. le (xs ! i) y" "\<forall>i. k \<le> i \<longrightarrow> i < length xs \<longrightarrow> \<not> le (xs ! i) y"
    using insert_position_sorts [OF s y(1) Cons.prems(1,3), of 0 "length xs"] by auto
  have "sorted_wrt le (take k xs @ [y] @ drop k xs)"
    by (rule insert_sorted [OF s y(1) Cons.prems(1,3) k(2-4)])
  moreover have "set (take k xs @ [y] @ drop k xs) \<subseteq> A"
    using y(1) Cons.prems(1) by (auto dest: in_set_takeD in_set_dropD)
  ultimately show ?case using Cons.IH [OF _ y(2)] k(1) by simp
qed simp

lemma py_sort_sorts:
  assumes "sorts_by cmp le (set xs)"
  shows "\<exists>ys. py_sort cmp xs = Inr ys \<and> mset ys = mset xs \<and> sorted_wrt le ys"
proof -
  obtain run rest where r: "count_run (lt_of cmp) xs = Inr (run, rest)" "sorted_wrt le run"
    using count_run_sorts [OF assms] by blast
  have "mset run + mset rest = mset xs" by (rule count_run_mset [OF r(1)])
  then have "set run \<subseteq> set xs" "set rest \<subseteq> set xs" by (metis set_mset_mset set_mset_union Un_upper1, metis set_mset_mset set_mset_union Un_upper2)
  then obtain ys where ys: "binarysort (lt_of cmp) run rest = Inr ys" "sorted_wrt le ys"
    using binarysort_sorts [OF assms _ _ r(2)] by blast
  have "lt_of cmp = (\<lambda>x y. sbind (cmp x y) (\<lambda>c. Inr (c < 0)))" by (simp add: lt_of_def fun_eq_iff)
  then have "py_sort cmp xs = Inr ys" using r(1) ys(1) by (simp add: py_sort_def)
  with ys(2) py_sort_mset show ?thesis by blast
qed

section \<open>The order of hostnames\<close>

lemma digit_not_space: "is_digit c \<Longrightarrow> \<not> is_space c \<and> c \<noteq> CHR ''-'' \<and> c \<noteq> CHR ''+''"
  by (auto simp: is_digit_def is_space_def)

lemma py_int_digits: "ds \<noteq> [] \<Longrightarrow> list_all is_digit ds \<Longrightarrow> py_int ds = Inr (int (nat_of_digits ds))"
proof -
  assume a: "ds \<noteq> []" "list_all is_digit ds"
  obtain d es where ds: "ds = d # es" using a(1) by (cases ds) auto
  have d: "is_digit d" "\<not> is_space d" "d \<noteq> CHR ''-''" "d \<noteq> CHR ''+''"
    using a(2) digit_not_space by (auto simp: ds)
  obtain fs f where fs: "ds = fs @ [f]" using a(1) by (metis rev_exhaust)
  have f: "\<not> is_space f" using a(2) digit_not_space by (auto simp: fs)
  have "dropWhile is_space ds = ds" using d by (simp add: ds)
  moreover have "dropWhile is_space (rev ds) = rev ds" using f by (simp add: fs)
  ultimately have strip: "py_strip ds = ds" by (simp add: py_strip_def)
  show ?thesis using d a strip by (simp add: py_int_def Let_def) (simp add: ds)
qed

lemma nat_of_digits_lstrip: "nat_of_digits (lstrip_zeros ds) = nat_of_digits ds"
  unfolding nat_of_digits_def lstrip_zeros_def
  by (induction ds) (auto simp: digit_val_def)

definition numbered :: "string \<Rightarrow> bool" where
  "numbered h \<longleftrightarrow> (case alphanum_host_match (str_lower h) of
     None \<Rightarrow> False | Some (name, digits) \<Rightarrow> lstrip_zeros digits \<noteq> [])"

definition host_name_number :: "string \<Rightarrow> string \<times> int" where
  "host_name_number h = (case alphanum_host_match (str_lower h) of
     None \<Rightarrow> (h, 0) | Some (name, digits) \<Rightarrow> (name, int (nat_of_digits digits)))"

text \<open>By name, then by number, then by the whole lower case name.\<close>

definition host_le :: "string \<Rightarrow> string \<Rightarrow> bool" where
  "host_le a b \<longleftrightarrow>
     (let c = pair_cmp (host_name_number a) (host_name_number b)
      in c < 0 \<or> c = 0 \<and> str_cmp (str_lower a) (str_lower b) \<le> 0)"

lemma alphanum_digits:
  "alphanum_host_match s = Some (n, ds) \<Longrightarrow> list_all is_digit (lstrip_zeros ds)"
  by (auto simp: alphanum_host_match_def Let_def list_all_iff lstrip_zeros_def split: if_splits
      dest!: set_dropWhileD set_takeWhileD)

lemma number_parses:
  assumes "alphanum_host_match s = Some (n, ds)"
  shows "py_int (lstrip_zeros ds) =
    (if lstrip_zeros ds = [] then Inl ValueError else Inr (int (nat_of_digits ds)))"
proof (cases "lstrip_zeros ds = []")
  case True
  then show ?thesis by (simp add: py_int_def py_strip_def Let_def)
next
  case False
  then show ?thesis
    using py_int_digits [OF False alphanum_digits [OF assms]] by (simp add: nat_of_digits_lstrip)
qed

lemma cmp_numbered:
  assumes "numbered a" and "numbered b"
  shows "cmp_for_sort a b = Inr (let c = pair_cmp (host_name_number a) (host_name_number b)
    in if c = 0 \<and> str_lower a \<noteq> str_lower b then str_cmp (str_lower a) (str_lower b) else c)"
proof -
  obtain na da where a: "alphanum_host_match (str_lower a) = Some (na, da)" "lstrip_zeros da \<noteq> []"
    using assms(1) by (auto simp: numbered_def split: option.splits)
  obtain nb db where b: "alphanum_host_match (str_lower b) = Some (nb, db)" "lstrip_zeros db \<noteq> []"
    using assms(2) by (auto simp: numbered_def split: option.splits)
  show ?thesis
    by (simp add: cmp_for_sort_def a b number_parses [OF a(1)] number_parses [OF b(1)] host_name_number_def Let_def)
qed

lemma pair_cmp_flip: "pair_cmp q p = - pair_cmp p q"
proof -
  have "str_cmp (fst q) (fst p) = - str_cmp (fst p) (fst q)" by (rule str_cmp_flip)
  then show ?thesis by (auto simp: pair_cmp_def int_cmp_def)
qed

lemma pair_cmp_trans: "pair_cmp p q \<le> 0 \<Longrightarrow> pair_cmp q r \<le> 0 \<Longrightarrow> pair_cmp p r \<le> 0"
proof -
  assume a: "pair_cmp p q \<le> 0" "pair_cmp q r \<le> 0"
  have le: "str_cmp (fst p) (fst q) \<le> 0" "str_cmp (fst q) (fst r) \<le> 0"
    using a by (auto simp: pair_cmp_def split: if_splits)
  then have pr: "str_cmp (fst p) (fst r) \<le> 0" by (rule str_cmp_trans)
  show ?thesis
  proof (cases "fst p = fst r")
    case True
    then have "str_cmp (fst q) (fst p) \<le> 0" using le by simp
    then have "fst p = fst q" using le(1) str_cmp_flip [of "fst q" "fst p"] by (metis antisym neg_le_0_iff_le str_cmp_eq_0)
    then show ?thesis using a True by (auto simp: pair_cmp_def int_cmp_def split: if_splits)
  next
    case False
    then show ?thesis using pr by (simp add: pair_cmp_def)
  qed
qed

lemma pair_cmp_0_trans: "pair_cmp p q = 0 \<Longrightarrow> pair_cmp p r = pair_cmp q r"
  by (cases p; cases q) (auto simp: pair_cmp_def int_cmp_def split: if_splits)

lemma host_le_total: "host_le a b \<or> host_le b a"
  using pair_cmp_flip [of "host_name_number b" "host_name_number a"] str_cmp_flip [of "str_lower a" "str_lower b"]
  by (auto simp: host_le_def Let_def)

lemma host_le_trans: "host_le a b \<Longrightarrow> host_le b c \<Longrightarrow> host_le a c"
proof -
  assume h: "host_le a b" "host_le b c"
  let ?p = "host_name_number a" and ?q = "host_name_number b" and ?r = "host_name_number c"
  have le: "pair_cmp ?p ?q \<le> 0" "pair_cmp ?q ?r \<le> 0" using h by (auto simp: host_le_def Let_def)
  then have pr: "pair_cmp ?p ?r \<le> 0" by (rule pair_cmp_trans)
  show ?thesis
  proof (cases "pair_cmp ?p ?r = 0")
    case False
    then show ?thesis using pr by (simp add: host_le_def)
  next
    case True
    have "pair_cmp ?q ?p \<le> 0"
      using pair_cmp_trans [OF le(2), of ?p] True pair_cmp_flip [of ?r ?p] by simp
    then have pq: "pair_cmp ?p ?q = 0" using le(1) pair_cmp_flip [of ?q ?p] by simp
    then have qr: "pair_cmp ?q ?r = 0" using True pair_cmp_0_trans by metis
    show ?thesis using h pq qr True str_cmp_trans by (auto simp: host_le_def Let_def)
  qed
qed

lemma cmp_sorts_numbered: "\<forall>h \<in> A. numbered h \<Longrightarrow> sorts_by cmp_for_sort host_le A"
  unfolding sorts_by_def
proof (intro conjI ballI impI)
  fix x y assume A: "\<forall>h \<in> A. numbered h" "x \<in> A" "y \<in> A"
  then have "numbered x" "numbered y" by auto
  note c = cmp_numbered [OF this]
  have f: "str_cmp (str_lower y) (str_lower x) = - str_cmp (str_lower x) (str_lower y)" by (rule str_cmp_flip)
  have g: "pair_cmp (host_name_number y) (host_name_number x) = - pair_cmp (host_name_number x) (host_name_number y)"
    by (rule pair_cmp_flip)
  show "\<exists>c. cmp_for_sort x y = Inr c \<and> (c < 0) = (\<not> host_le y x)"
    unfolding c by (auto simp: host_le_def Let_def f g not_less)
qed (use host_le_total host_le_trans in blast)+

lemma cmp_for_sort_cases:
  "cmp_for_sort a b =
    (case (alphanum_host_match (str_lower a), alphanum_host_match (str_lower b)) of
       (Some (na, da), Some (nb, db)) \<Rightarrow>
         if lstrip_zeros da = [] \<or> lstrip_zeros db = [] then Inl ValueError
         else Inr (let c = pair_cmp (na, int (nat_of_digits da)) (nb, int (nat_of_digits db))
           in if c = 0 \<and> str_lower a \<noteq> str_lower b then str_cmp (str_lower a) (str_lower b) else c)
     | _ \<Rightarrow> Inr (str_cmp (str_lower a) (str_lower b)))"
  by (auto simp: cmp_for_sort_def Let_def number_parses split: option.splits prod.splits)

section \<open>Properties\<close>

text \<open>
  (scheduler/scheduler_models.py, \<open>Host.cmp_for_sort\<close>). Sorting hosts whose names are letters and
  hyphens followed by a number that is not all zeros never fails, keeps the hosts, and orders them by
  name, then by the value of the number, then by the whole name in lower case, leading zeros or not.
\<close>

theorem hosts_sorted_by_name_and_number:
  assumes "\<forall>h \<in> set hosts. numbered h"
  shows "\<exists>ys. py_sort cmp_for_sort hosts = Inr ys \<and> mset ys = mset hosts \<and> sorted_wrt host_le ys"
  by (rule py_sort_sorts [OF cmp_sorts_numbered [OF assms]])

theorem hosts_sorted_by_name_and_number_witness:
  "\<exists>ys. py_sort cmp_for_sort [''host10'', ''Host2'', ''host010'', ''alice1''] = Inr ys \<and>
     mset ys = mset [''host10'', ''Host2'', ''host010'', ''alice1''] \<and> sorted_wrt host_le ys"
  by (rule hosts_sorted_by_name_and_number) code_simp

text \<open>
  (scheduler/scheduler_models.py, \<open>Host.cmp_for_sort\<close>). The comparison fails exactly when both
  names match the pattern and one of the numbers consists of zeros only, as in \<open>host0\<close>: stripping the
  zeros leaves nothing to convert, and the failure is a ValueError.
\<close>

theorem cmp_for_sort_fails_iff:
  "cmp_for_sort a b = Inl e \<longleftrightarrow> e = ValueError \<and>
    (\<exists>na da nb db. alphanum_host_match (str_lower a) = Some (na, da) \<and>
       alphanum_host_match (str_lower b) = Some (nb, db) \<and> (lstrip_zeros da = [] \<or> lstrip_zeros db = []))"
  by (auto simp: cmp_for_sort_cases split: option.splits prod.splits)

text \<open>
  (scheduler/scheduler_models.py, \<open>Host.cmp_for_sort\<close>). With names that do not match the pattern the
  comparison is not an order: a2 comes before a10, a10 before a1x, and a1x before a2 again.
\<close>

theorem cmp_for_sort_cyclic:
  "cmp_for_sort ''a2'' ''a10'' = Inr (-1) \<and> cmp_for_sort ''a10'' ''a1x'' = Inr (-1) \<and>
   cmp_for_sort ''a1x'' ''a2'' = Inr (-1)"
  by code_simp

end
