(* ===== verification/Afe_Models.thy ===== *)
theory Afe_Models
  imports World
begin

text \<open>
  The Django models of frontend/afe/models.py the scheduler works through: users, access control
  groups, hosts, jobs, queue entries, special tasks and drone sets, and host reservations
  (frontend/afe/reservations.py). A Django object is its row; a method that changes the object
  returns or stores the changed row. Related objects (\<open>entry.job\<close>, \<open>task.host\<close>) are looked up in the
  tables, and a missing row raises DoesNotExist.
\<close>

section \<open>Rows by id\<close>

definition django_host :: "nat \<Rightarrow> host_row sched" where
  "django_host i = bnd (gets (\<lambda>w. find_row h_id i (db_hosts w))) (some_or DoesNotExist)"

definition django_job :: "nat \<Rightarrow> job_row sched" where
  "django_job i = bnd (gets (\<lambda>w. find_row j_id i (db_jobs w))) (some_or DoesNotExist)"

definition django_hqe :: "nat \<Rightarrow> hqe_row sched" where
  "django_hqe i = bnd (gets (\<lambda>w. find_row q_id i (db_hqes w))) (some_or DoesNotExist)"

definition django_user :: "nat \<Rightarrow> user_row sched" where
  "django_user i = bnd (gets (\<lambda>w. find_row u_id i (db_users w))) (some_or DoesNotExist)"

definition user_by_login :: "string \<Rightarrow> user_row sched" where
  "user_by_login login = bnd (gets (\<lambda>w. List.find (\<lambda>u. u_login u = login) (db_users w))) (some_or DoesNotExist)"

definition acl_by_name :: "string \<Rightarrow> nat sched" where
  "acl_by_name name =
     bnd (gets (\<lambda>w. map_option fst (List.find (\<lambda>g. snd g = name) (db_acl_groups w)))) (some_or DoesNotExist)"

text \<open>\<open>add\<close> and \<open>remove\<close> of a many-to-many relation.\<close>

definition acl_add_user :: "nat \<Rightarrow> nat \<Rightarrow> unit sched" where
  "acl_add_user g u = modify (\<lambda>w. w\<lparr>db_acl_users := set_add (g, u) (db_acl_users w)\<rparr>)"

definition acl_add_host :: "nat \<Rightarrow> nat \<Rightarrow> unit sched" where
  "acl_add_host g h = modify (\<lambda>w. w\<lparr>db_acl_hosts := set_add (g, h) (db_acl_hosts w)\<rparr>)"

definition acl_remove_host :: "nat \<Rightarrow> nat \<Rightarrow> unit sched" where
  "acl_remove_host g h = modify (\<lambda>w. w\<lparr>db_acl_hosts := set_discard (g, h) (db_acl_hosts w)\<rparr>)"

section \<open>Users\<close>

definition ACCESS_ROOT :: int where "ACCESS_ROOT = 100"

definition AUTOTEST_SYSTEM :: string where "AUTOTEST_SYSTEM = ''autotest_system''"

definition is_superuser :: "user_row \<Rightarrow> bool" where
  "is_superuser u \<longleftrightarrow> u_access_level u \<ge> ACCESS_ROOT"

text \<open>\<open>User.save\<close>; \<open>first_time\<close> is whether the object had no id.\<close>

definition user_save :: "bool \<Rightarrow> user_row \<Rightarrow> unit sched" where
  "user_save first_time u =
     bnd (gets w_thread_user) (\<lambda>t.
     bnd (case t of None \<Rightarrow> ret False
          | Some i \<Rightarrow> bnd (django_user i) (\<lambda>r. ret (\<not> is_superuser r \<and> u_login r \<noteq> u_login u))) (\<lambda>forbidden.
     if forbidden then throw AclAccessViolation else
     andthen (modify (\<lambda>w. w\<lparr>db_users := put_row u_id u (db_users w)\<rparr>))
       (when_do first_time (bnd (acl_by_name ''Everyone'') (\<lambda>g. acl_add_user g (u_id u))))))"

definition current_user :: "user_row sched" where
  "current_user = bnd (gets w_thread_user) (\<lambda>t. case t of
       Some i \<Rightarrow> django_user i
     | None \<Rightarrow>
         bnd (gets (\<lambda>w. List.find (\<lambda>u. u_login u = AUTOTEST_SYSTEM) (db_users w))) (\<lambda>r.
         bnd (case r of
             Some u \<Rightarrow> ret u
           | None \<Rightarrow> bnd fresh_id (\<lambda>i.
               let u = \<lparr>u_id = i, u_login = AUTOTEST_SYSTEM, u_access_level = 0, u_drone_set_id = None,
                 u_reboot_before = RB_If_dirty, u_reboot_after = RA_Always\<rparr>
               in andthen (user_save True u) (ret u))) (\<lambda>u.
         let u' = u\<lparr>u_access_level := ACCESS_ROOT\<rparr>
         in andthen (user_save False u') (ret u'))))"

section \<open>Access control groups\<close>

definition accessible_host_ids :: "world \<Rightarrow> nat \<Rightarrow> nat list" where
  "accessible_host_ids w u =
     map snd (filter (\<lambda>(g, h). (g, u) \<in> set (db_acl_users w)) (db_acl_hosts w))"

definition check_for_acl_violation_hosts :: "host_row list \<Rightarrow> string option \<Rightarrow> unit sched" where
  "check_for_acl_violation_hosts hosts username =
     bnd (case username of Some n \<Rightarrow> (if n = [] then current_user else user_by_login n)
          | None \<Rightarrow> current_user) (\<lambda>user.
     if is_superuser user then ret () else
     bnd (gets (\<lambda>w. accessible_host_ids w (u_id user))) (\<lambda>ids.
     if \<exists>h \<in> set hosts. \<not> h_invalid h \<and> h_id h \<notin> set ids then throw AclAccessViolation else ret ()))"

text \<open>\<open>on_host_membership_change\<close>, in its two halves.\<close>

definition host_acls :: "world \<Rightarrow> nat \<Rightarrow> nat list" where
  "host_acls w h = remdups (map fst (filter (\<lambda>p. snd p = h) (db_acl_hosts w)))"

definition orphaned_hosts :: "world \<Rightarrow> nat list" where
  "orphaned_hosts w = map h_id (filter (\<lambda>h. \<not> h_invalid h \<and> host_acls w (h_id h) = []) (db_hosts w))"

definition acled_hosts :: "nat \<Rightarrow> world \<Rightarrow> nat list" where
  "acled_hosts everyone w = map h_id (filter (\<lambda>h. \<not> h_invalid h \<and>
     everyone \<in> set (host_acls w (h_id h)) \<and> length (host_acls w (h_id h)) > 1) (db_hosts w))"

definition on_host_membership_change :: "unit sched" where
  "on_host_membership_change =
     bnd (acl_by_name ''Everyone'') (\<lambda>everyone.
     bnd (gets orphaned_hosts) (\<lambda>orphans.
     andthen (for_each orphans (acl_add_host everyone)) (
     bnd (gets (acled_hosts everyone)) (\<lambda>acled.
     for_each acled (acl_remove_host everyone)))))"

definition check_for_acl_violation_acl_group :: "nat \<Rightarrow> unit sched" where
  "check_for_acl_violation_acl_group g =
     bnd current_user (\<lambda>user.
     if is_superuser user then ret () else
     bnd (gets (\<lambda>w. map_of (db_acl_groups w) g)) (\<lambda>name.
     if name = Some ''Everyone'' then throw AclAccessViolation else
     bnd (gets db_acl_users) (\<lambda>us.
     if (g, u_id user) \<notin> set us then throw AclAccessViolation else ret ())))"

definition add_current_user_if_empty :: "nat \<Rightarrow> unit sched" where
  "add_current_user_if_empty g =
     bnd (gets (\<lambda>w. filter (\<lambda>p. fst p = g) (db_acl_users w))) (\<lambda>us.
     when_do (us = []) (bnd current_user (\<lambda>u. acl_add_user g (u_id u))))"

definition perform_after_save :: "nat \<Rightarrow> bool \<Rightarrow> unit sched" where
  "perform_after_save g change =
     andthen (when_do (\<not> change) (bnd current_user (\<lambda>u. acl_add_user g (u_id u)))) (
     andthen (add_current_user_if_empty g) on_host_membership_change)"

text \<open>\<open>save\<close> of a new group, answering its id, and of an existing one.\<close>

definition acl_create :: "string \<Rightarrow> nat sched" where
  "acl_create name = bnd fresh_id (\<lambda>g.
     andthen (modify (\<lambda>w. w\<lparr>db_acl_groups := db_acl_groups w @ [(g, name)]\<rparr>)) (
     andthen (perform_after_save g False) (ret g)))"

definition acl_save :: "nat \<Rightarrow> unit sched" where
  "acl_save g = andthen (check_for_acl_violation_acl_group g) (perform_after_save g True)"

text \<open>\<open>check_abort_permissions\<close> on a list of entries.\<close>

definition check_abort_permissions :: "hqe_row list \<Rightarrow> unit sched" where
  "check_abort_permissions entries =
     bnd current_user (\<lambda>user.
     if is_superuser user then ret () else
     bnd (gets (\<lambda>w. filter (\<lambda>q. case find_row j_id (q_job_id q) (db_jobs w) of
           None \<Rightarrow> False | Some j \<Rightarrow> j_owner j \<noteq> u_login user) entries)) (\<lambda>not_owned.
     bnd (gets (\<lambda>w. accessible_host_ids w (u_id user))) (\<lambda>accessible.
     bnd (gets (\<lambda>w. map snd (filter (\<lambda>(g, h). (g, ''Everyone'') \<in> set (db_acl_groups w)) (db_acl_hosts w)))) (\<lambda>public.
     if \<exists>q \<in> set not_owned. (case q_host_id q of None \<Rightarrow> True
            | Some h \<Rightarrow> h \<notin> set accessible \<or> h \<in> set public)
     then throw AclAccessViolation else ret ()))))"

section \<open>Hosts\<close>

definition host_save :: "host_row \<Rightarrow> unit sched" where
  "host_save h =
     (let h1 = h\<lparr>h_hostname := py_strip (h_hostname h)\<rparr> in
     andthen (check_for_acl_violation_hosts [h1] None) (
     bnd (if h_locked h1 \<and> h_locked_by h1 = None then
            bnd current_user (\<lambda>u. bnd now (\<lambda>t.
              ret (h1\<lparr>h_locked_by := Some (u_id u), h_lock_time := Some t, h_dirty := True\<rparr>)))
          else if \<not> h_locked h1 \<and> h_locked_by h1 \<noteq> None then
            ret (h1\<lparr>h_locked_by := None, h_lock_time := None\<rparr>)
          else ret h1) (\<lambda>h2.
     modify (\<lambda>w. w\<lparr>db_hosts := put_row h_id h2 (db_hosts w)\<rparr>))))"

definition active_queue_entry :: "nat \<Rightarrow> hqe_row option sched" where
  "active_queue_entry h =
     bnd (gets (\<lambda>w. filter (\<lambda>q. q_host_id q = Some h \<and> q_active q) (db_hqes w))) (\<lambda>active.
     case active of
       [] \<Rightarrow> ret None
     | a # as \<Rightarrow> andthen (assert_that (as = [])) (ret (Some a)))"

definition is_dead :: "host_row \<Rightarrow> bool" where
  "is_dead h \<longleftrightarrow> h_status h = Some HRepairFailed"

section \<open>Queue entries\<close>

definition set_active_and_complete :: "hqe_row \<Rightarrow> hqe_row" where
  "set_active_and_complete q =
     (if is_active_status (q_status q) then q\<lparr>q_active := True, q_complete := False\<rparr>
      else if is_complete_status (q_status q) then q\<lparr>q_active := False, q_complete := True\<rparr>
      else q\<lparr>q_active := False, q_complete := False\<rparr>)"

text \<open>\<open>HostQueueEntry.save\<close>; it also updates the object, so the row saved is returned.\<close>

definition hqe_save :: "hqe_row \<Rightarrow> hqe_row sched" where
  "hqe_save q = (let q' = set_active_and_complete q in
     andthen (modify (\<lambda>w. w\<lparr>db_hqes := put_row q_id q' (db_hqes w)\<rparr>)) (ret q'))"

text \<open>\<open>HostQueueEntry.create\<close> builds the object; saving it the first time gives it an id.\<close>

definition hqe_create ::
  "nat \<Rightarrow> nat option \<Rightarrow> string \<Rightarrow> nat option \<Rightarrow> nat option \<Rightarrow> bool \<Rightarrow> hqe_row" where
  "hqe_create job host profile meta_host atomic_group is_template =
     \<lparr>q_id = 0, q_job_id = job, q_host_id = host, q_profile = profile,
      q_status = (if is_template then Template else Queued), q_meta_host = meta_host,
      q_active = False, q_complete = False, q_deleted = False, q_execution_subdir = [],
      q_atomic_group_id = atomic_group, q_aborted = False, q_started_on = None\<rparr>"

definition hqe_save_new :: "hqe_row \<Rightarrow> hqe_row sched" where
  "hqe_save_new q = bnd fresh_id (\<lambda>i. hqe_save (q\<lparr>q_id := i\<rparr>))"

definition hqe_execution_path :: "hqe_row \<Rightarrow> string sched" where
  "hqe_execution_path q = bnd (django_job (q_job_id q)) (\<lambda>j.
     ret (path_join (str_of_nat (j_id j) @ ''-'' @ j_owner j) (q_execution_subdir q)))"

definition host_or_metahost_name :: "hqe_row \<Rightarrow> string sched" where
  "host_or_metahost_name q = (case q_host_id q of
       Some h \<Rightarrow> bnd (django_host h) (\<lambda>r. ret (h_hostname r))
     | None \<Rightarrow> (case q_meta_host q of
         Some l \<Rightarrow> bnd (gets (\<lambda>w. find_row l_id l (db_labels w))) (\<lambda>r.
           bnd (some_or DoesNotExist r) (\<lambda>lr. ret (l_name lr)))
       | None \<Rightarrow> (case q_atomic_group_id q of
           None \<Rightarrow> throw AssertionError
         | Some a \<Rightarrow> bnd (gets (\<lambda>w. find_row ag_id a (db_atomic_groups w))) (\<lambda>r.
             bnd (some_or DoesNotExist r) (\<lambda>ar. ret (ag_name ar))))))"

definition is_meta_host_entry :: "hqe_row \<Rightarrow> bool" where
  "is_meta_host_entry q \<longleftrightarrow> q_host_id q = None \<and> q_meta_host q \<noteq> None"

definition log_abort :: "hqe_row \<Rightarrow> user_row \<Rightarrow> unit sched" where
  "log_abort q user = bnd now (\<lambda>t.
     modify (\<lambda>w. w\<lparr>db_aborted := alist_put (q_id q) (u_id user, t) (db_aborted w)\<rparr>))"

definition hqe_abort :: "hqe_row \<Rightarrow> unit sched" where
  "hqe_abort q = when_do (\<not> q_complete q \<and> \<not> q_aborted q)
     (bnd current_user (\<lambda>u.
      andthen (log_abort q u) (
      bnd (hqe_save (q\<lparr>q_aborted := True\<rparr>)) (\<lambda>_. ret ()))))"

definition compute_full_status :: "hqe_status \<Rightarrow> bool \<Rightarrow> bool \<Rightarrow> string" where
  "compute_full_status status aborted completed =
     (if aborted \<and> \<not> completed then ''Aborted ('' @ hqe_status_string status @ '')''
      else hqe_status_string status)"

definition full_status :: "hqe_row \<Rightarrow> string" where
  "full_status q = compute_full_status (q_status q) (q_aborted q) (q_complete q)"

section \<open>Jobs\<close>

definition model_job_tag :: "job_row \<Rightarrow> string" where
  "model_job_tag j = str_of_nat (j_id j) @ ''-'' @ j_owner j"

definition model_is_server_job :: "job_row \<Rightarrow> bool" where
  "model_is_server_job j \<longleftrightarrow> j_control_type j = 1"

text \<open>
  \<open>Job.user\<close>: the handler names \<open>self.DoesNotExist\<close>, the exception of the Job class, which is not
  the one \<open>User.objects.get\<close> raises, so nothing is caught.
\<close>

definition job_user :: "job_row \<Rightarrow> user_row option sched" where
  "job_user j = bnd (user_by_login (j_owner j)) (\<lambda>u. ret (Some u))"

definition model_job_abort :: "nat \<Rightarrow> unit sched" where
  "model_job_abort job =
     bnd (gets (\<lambda>w. filter (\<lambda>q. q_job_id q = job) (db_hqes w))) (\<lambda>entries.
     for_each entries hqe_abort)"

definition model_keyval_dict :: "nat \<Rightarrow> world \<Rightarrow> (string \<times> string) list" where
  "model_keyval_dict job w =
     foldl (\<lambda>d (k, v). alist_put k v d) []
       (map snd (filter (\<lambda>(j, kv). j = job) (map (\<lambda>(j, k, v). (j, (k, v))) (db_job_keyvals w))))"

text \<open>\<open>JobManager.get_status_counts\<close> for one job.\<close>

definition count_status :: "(string \<times> nat) list \<Rightarrow> hqe_row \<Rightarrow> (string \<times> nat) list" where
  "count_status d q =
     alist_put (full_status q) (Suc (case map_of d (full_status q) of None \<Rightarrow> 0 | Some n \<Rightarrow> n)) d"

definition get_status_counts :: "nat \<Rightarrow> world \<Rightarrow> (string \<times> nat) list" where
  "get_status_counts job w = foldl count_status [] (filter (\<lambda>q. q_job_id q = job) (db_hqes w))"

text \<open>Queueing a job on a host, a label, an atomic group, or nothing.\<close>

definition host_enqueue_job :: "nat \<Rightarrow> nat \<Rightarrow> string \<Rightarrow> nat option \<Rightarrow> bool \<Rightarrow> unit sched" where
  "host_enqueue_job h job profile atomic_group is_template =
     (let entry = hqe_create job (Some h) profile None atomic_group is_template in
     bnd (django_host h) (\<lambda>host.
     bnd (active_queue_entry h) (\<lambda>active.
     andthen (when_do (active = None \<and> is_dead host) (host_save (host\<lparr>h_status := Some HReady\<rparr>))) (
     bnd (hqe_save_new entry) (\<lambda>_.
     bnd fresh_id (\<lambda>b.
     modify (\<lambda>w. w\<lparr>db_blocks := db_blocks w @ [\<lparr>b_id = b, b_job_id = job, b_host_id = h\<rparr>]\<rparr>)))))))"

definition label_enqueue_job :: "nat \<Rightarrow> nat \<Rightarrow> string \<Rightarrow> nat option \<Rightarrow> bool \<Rightarrow> unit sched" where
  "label_enqueue_job l job profile atomic_group is_template =
     bnd (hqe_save_new (hqe_create job None profile (Some l) atomic_group is_template)) (\<lambda>_. ret ())"

definition atomic_group_enqueue_job :: "nat \<Rightarrow> nat \<Rightarrow> bool \<Rightarrow> unit sched" where
  "atomic_group_enqueue_job a job is_template =
     bnd (hqe_save_new (hqe_create job None [] None (Some a) is_template)) (\<lambda>_. ret ())"

datatype queue_target = On_host nat | On_label nat

definition target_enqueue_job :: "nat \<Rightarrow> nat option \<Rightarrow> bool \<Rightarrow> queue_target \<times> string \<Rightarrow> unit sched" where
  "target_enqueue_job job atomic_group is_template t = (case t of
       (On_host h, profile) \<Rightarrow> host_enqueue_job h job profile atomic_group is_template
     | (On_label l, profile) \<Rightarrow> label_enqueue_job l job profile atomic_group is_template)"

definition model_job_queue ::
  "nat \<Rightarrow> queue_target list \<Rightarrow> string list \<Rightarrow> nat option \<Rightarrow> bool \<Rightarrow> unit sched" where
  "model_job_queue job hosts profiles atomic_group is_template =
     (if hosts = [] then (case atomic_group of
          Some a \<Rightarrow> atomic_group_enqueue_job a job is_template
        | None \<Rightarrow> bnd (hqe_save_new (hqe_create job None ''N/A'' None None is_template)) (\<lambda>_. ret ()))
      else for_each (zip hosts (if profiles = [] then replicate (length hosts) [] else profiles))
             (target_enqueue_job job atomic_group is_template))"

section \<open>Special tasks\<close>

text \<open>
  \<open>SpecialTask.save\<close>: a task with a queue entry is requested by the owner of its job. The object
  saved is returned.
\<close>

definition queue_entry_owner :: "nat \<Rightarrow> user_row sched" where
  "queue_entry_owner q = bnd (django_hqe q) (\<lambda>e. bnd (django_job (q_job_id e)) (\<lambda>j. user_by_login (j_owner j)))"

definition special_task_save :: "special_task \<Rightarrow> special_task sched" where
  "special_task_save t =
     bnd (case st_queue_entry_id t of
         Some q \<Rightarrow> bnd (queue_entry_owner q) (\<lambda>u. ret (t\<lparr>st_requested_by := u_id u\<rparr>))
       | None \<Rightarrow> ret t) (\<lambda>t'.
     andthen (modify (\<lambda>w. w\<lparr>db_special_tasks := put_row st_id t' (db_special_tasks w)\<rparr>)) (ret t'))"

text \<open>
  \<open>SpecialTask.objects.create\<close>: without a queue entry and without \<open>requested_by\<close> the column
  \<open>requested_by_id\<close> would be NULL, which the table forbids.
\<close>

definition special_task_create ::
  "nat \<Rightarrow> special_task_kind \<Rightarrow> nat option \<Rightarrow> nat option \<Rightarrow> special_task sched" where
  "special_task_create host task queue_entry requested_by =
     bnd (case (queue_entry, requested_by) of
         (Some q, _) \<Rightarrow> bnd (queue_entry_owner q) (\<lambda>u. ret (u_id u))
       | (None, Some u) \<Rightarrow> ret u
       | (None, None) \<Rightarrow> throw IntegrityError) (\<lambda>requester.
     bnd now (\<lambda>t. bnd fresh_id (\<lambda>i.
       special_task_save \<lparr>st_id = i, st_host_id = host, st_task = task, st_requested_by = requester,
         st_time_requested = t, st_is_active = False, st_is_complete = False, st_time_started = None,
         st_queue_entry_id = queue_entry, st_success = False\<rparr>)))"

definition special_task_execution_path :: "special_task \<Rightarrow> string sched" where
  "special_task_execution_path t = bnd (django_host (st_host_id t)) (\<lambda>h.
     ret (''hosts/'' @ h_hostname h @ ''/'' @ str_of_nat (st_id t) @ ''-'' @ task_kind_lower (st_task t)))"

definition special_task_status :: "special_task \<Rightarrow> hqe_status" where
  "special_task_status t =
     (if st_is_complete t then (if st_success t then Completed else Failed)
      else if st_is_active t then Running else Queued)"

definition schedule_special_task :: "nat \<Rightarrow> special_task_kind \<Rightarrow> special_task sched" where
  "schedule_special_task host task =
     bnd (gets (\<lambda>w. filter (\<lambda>t. st_host_id t = host \<and> st_task t = task \<and> \<not> st_is_active t \<and> \<not> st_is_complete t)
       (db_special_tasks w))) (\<lambda>existing.
     case existing of
       t # _ \<Rightarrow> ret t
     | [] \<Rightarrow> bnd current_user (\<lambda>u. special_task_create host task None (Some (u_id u))))"

definition special_task_activate :: "special_task \<Rightarrow> special_task sched" where
  "special_task_activate t = bnd now (\<lambda>n.
     special_task_save (t\<lparr>st_is_active := True, st_time_started := Some n\<rparr>))"

definition special_task_finish :: "special_task \<Rightarrow> bool \<Rightarrow> special_task sched" where
  "special_task_finish t success =
     special_task_save (t\<lparr>st_is_active := False, st_is_complete := True, st_success := success\<rparr>)"

section \<open>Drone sets\<close>

definition drone_set_by_name :: "string \<Rightarrow> nat sched" where
  "drone_set_by_name name =
     bnd (gets (\<lambda>w. map_option fst (List.find (\<lambda>g. snd g = name) (db_drone_sets w)))) (some_or DoesNotExist)"

definition drone_set_get_default :: "nat sched" where
  "drone_set_get_default = bnd (gets (\<lambda>w. cfg_default_drone_set_name (w_cfg w))) drone_set_by_name"

definition get_drone_hostnames :: "nat \<Rightarrow> world \<Rightarrow> string list" where
  "get_drone_hostnames ds w = map snd (filter (\<lambda>p. fst p = ds) (db_drone_set_drones w))"

definition drone_set_name :: "nat \<Rightarrow> string sched" where
  "drone_set_name ds = bnd (gets (\<lambda>w. map_of (db_drone_sets w) ds)) (some_or DoesNotExist)"

definition drone_set_resolve_name :: "string option \<Rightarrow> string option sched" where
  "drone_set_resolve_name name =
     bnd (gets (\<lambda>w. cfg_drone_sets_enabled (w_cfg w))) (\<lambda>en.
     if \<not> en then ret None else
     bnd current_user (\<lambda>user.
     bnd (case u_drone_set_id user of None \<Rightarrow> ret None
          | Some ds \<Rightarrow> bnd (drone_set_name ds) (\<lambda>n. ret (Some n))) (\<lambda>user_name.
     case (if name = Some [] then None else name) of
       Some n \<Rightarrow> ret (Some n)
     | None \<Rightarrow> (case (if user_name = Some [] then None else user_name) of
         Some n \<Rightarrow> ret (Some n)
       | None \<Rightarrow> bnd drone_set_get_default (\<lambda>ds. bnd (drone_set_name ds) (\<lambda>n. ret (Some n)))))))"

section \<open>Lemmas\<close>

lemma set_active_and_complete_fields [simp]:
  "q_id (set_active_and_complete q) = q_id q"
  "q_job_id (set_active_and_complete q) = q_job_id q"
  "q_host_id (set_active_and_complete q) = q_host_id q"
  "q_status (set_active_and_complete q) = q_status q"
  "q_aborted (set_active_and_complete q) = q_aborted q"
  "q_meta_host (set_active_and_complete q) = q_meta_host q"
  by (simp_all add: set_active_and_complete_def)

lemma set_active_and_complete_flags [simp]:
  "q_active (set_active_and_complete q) = is_active_status (q_status q)"
  "q_complete (set_active_and_complete q) = is_complete_status (q_status q)"
  using active_not_complete [of "q_status q"] by (auto simp: set_active_and_complete_def)

lemma set_put_row:
  "set (put_row key r rows) \<subseteq> insert r (set rows)" and "r \<in> set (put_row key r rows)"
  by (induction rows) auto

lemma put_row_present:
  "sorted_wrt (<) (map key rows) \<Longrightarrow> key r \<in> key ` set rows \<Longrightarrow> put_row key r rows = upd_row key (key r) (\<lambda>_. r) rows"
proof (induction rows)
  case (Cons x xs)
  show ?case
  proof (cases "key x = key r")
    case True
    with Cons have "key r \<notin> key ` set xs" by auto
    then have "\<forall>x \<in> set xs. key x \<noteq> key r" by (metis imageI)
    then have "upd_row key (key r) (\<lambda>_. r) xs = xs" by (simp add: upd_row_def map_idI)
    with True show ?thesis by (simp add: upd_row_def)
  next
    case False
    with Cons.prems have "key r \<in> key ` set xs" by auto
    then have "key x < key r" using Cons.prems(1) by auto
    with False Cons show ?thesis by (auto simp: upd_row_def)
  qed
qed simp

end
