(* ===== verification/Reservations.thy ===== *)
theory Reservations
  imports Afe_Models
begin

text \<open>
  Host reservations, frontend/afe/reservations.py: a host is reserved for a user by putting it into
  the access control group named after the user.
\<close>

definition host_smart_get :: "string \<Rightarrow> world \<Rightarrow> host_row option" where
  "host_smart_get name w = List.find (\<lambda>h. \<not> h_invalid h \<and> h_hostname h = name) (db_hosts w)"

text \<open>\<open>smart_get_bulk\<close> on hostnames.\<close>

definition host_smart_get_bulk :: "string list \<Rightarrow> host_row list sched" where
  "host_smart_get_bulk names =
     bnd (gets (\<lambda>w. map (\<lambda>n. host_smart_get n w) names)) (\<lambda>rs.
     if None \<in> set rs then throw DoesNotExist else ret (map the rs))"

definition get_user :: "string option \<Rightarrow> user_row sched" where
  "get_user username = (case username of
       Some n \<Rightarrow> if n = [] then current_user else user_by_login n
     | None \<Rightarrow> current_user)"

text \<open>\<open>AclGroup.objects.get_or_create(name=...)\<close>\<close>

definition acl_get_or_create :: "string \<Rightarrow> (nat \<times> bool) sched" where
  "acl_get_or_create name =
     bnd (gets (\<lambda>w. List.find (\<lambda>g. snd g = name) (db_acl_groups w))) (\<lambda>r. case r of
       Some g \<Rightarrow> ret (fst g, False)
     | None \<Rightarrow> bnd (acl_create name) (\<lambda>g. ret (g, True)))"

definition acl_set_users :: "nat \<Rightarrow> nat \<Rightarrow> unit sched" where
  "acl_set_users g u = modify (\<lambda>w. w\<lparr>db_acl_users := filter (\<lambda>p. fst p \<noteq> g) (db_acl_users w) @ [(g, u)]\<rparr>)"

definition reserve_host :: "nat \<Rightarrow> host_row list \<Rightarrow> host_row \<Rightarrow> unit sched" where
  "reserve_host g hosts h =
     andthen (acl_add_host g (h_id h)) (
     andthen (for_each hosts (\<lambda>k. acl_add_host g (h_id k)))
       on_host_membership_change)"

definition reservations_create :: "string list \<Rightarrow> string option \<Rightarrow> unit sched" where
  "reservations_create hosts_to_reserve username =
     bnd (host_smart_get_bulk hosts_to_reserve) (\<lambda>hosts.
     if hosts = [] then throw PlainException else
     bnd (get_user username) (\<lambda>user.
     andthen (check_for_acl_violation_hosts hosts (Some (u_login user))) (
     bnd (acl_get_or_create (u_login user)) (\<lambda>(g, created).
     andthen (when_do created (andthen (acl_set_users g (u_id user)) (acl_save g)))
       (for_each hosts (reserve_host g hosts))))))"

definition reservations_release :: "string list \<Rightarrow> string option \<Rightarrow> unit sched" where
  "reservations_release hosts_to_release username =
     bnd (host_smart_get_bulk hosts_to_release) (\<lambda>hosts.
     if hosts = [] then throw PlainException else
     bnd (get_user username) (\<lambda>user.
     bnd (gets (\<lambda>w. filter (\<lambda>g. snd g = u_login user) (db_acl_groups w))) (\<lambda>acls.
     case acls of [] \<Rightarrow> ret ()
     | g # _ \<Rightarrow> andthen (for_each hosts (\<lambda>h. acl_remove_host (fst g) (h_id h))) on_host_membership_change)))"

definition force_release_from :: "host_row list \<Rightarrow> nat \<times> string \<Rightarrow> unit sched" where
  "force_release_from hosts g =
     andthen (for_each hosts (\<lambda>h. acl_remove_host (fst g) (h_id h))) on_host_membership_change"

definition reservations_force_release :: "string list \<Rightarrow> string option \<Rightarrow> unit sched" where
  "reservations_force_release hosts_to_release username =
     bnd (host_smart_get_bulk hosts_to_release) (\<lambda>hosts.
     if hosts = [] then throw PlainException else
     bnd (get_user username) (\<lambda>user.
     if \<not> is_superuser user then throw PlainException else
     bnd (gets db_acl_groups) (\<lambda>acls. for_each acls (force_release_from hosts))))"

section \<open>The Everyone group\<close>

lemma host_acls_set [simp]: "set (host_acls w h) = {g. (g, h) \<in> set (db_acl_hosts w)}"
  by (force simp: host_acls_def)

lemma host_acls_Nil [simp]: "host_acls w h = [] \<longleftrightarrow> (\<forall>g. (g, h) \<notin> set (db_acl_hosts w))"
proof -
  have "host_acls w h = [] \<longleftrightarrow> set (host_acls w h) = {}" unfolding set_empty ..
  then show ?thesis unfolding host_acls_set by blast
qed

lemma host_acls_many:
  assumes "g \<in> set (host_acls w h)"
  shows "1 < length (host_acls w h) \<longleftrightarrow> (\<exists>k. k \<noteq> g \<and> k \<in> set (host_acls w h))"
proof -
  have d: "distinct (host_acls w h)" by (simp add: host_acls_def)
  obtain x xs where xs: "host_acls w h = x # xs" using assms by (cases "host_acls w h") (simp, blast)
  show ?thesis
  proof (cases xs)
    case Nil
    with assms xs show ?thesis by auto
  next
    case (Cons y ys)
    with d xs have "x \<noteq> y" by simp
    then have "\<exists>k. k \<noteq> g \<and> k \<in> {x, y}" by (cases "x = g") auto
    moreover have "{x, y} \<subseteq> set (host_acls w h)" unfolding xs Cons by simp
    moreover have "1 < length (host_acls w h)" unfolding xs Cons by simp
    ultimately show ?thesis by blast
  qed
qed

lemma add_all_hosts:
  "\<exists>rel. for_each hs (acl_add_host g) w = (Inr (), w\<lparr>db_acl_hosts := rel\<rparr>) \<and>
     set rel = set (db_acl_hosts w) \<union> {g} \<times> set hs"
proof (induction hs arbitrary: w)
  case Nil
  show ?case by (intro exI [of _ "db_acl_hosts w"]) (simp add: ret_def)
next
  case (Cons h hs)
  from Cons [of "w\<lparr>db_acl_hosts := set_add (g, h) (db_acl_hosts w)\<rparr>"] show ?case
    by (auto simp: acl_add_host_def)
qed

lemma remove_all_hosts:
  "\<exists>rel. for_each hs (acl_remove_host g) w = (Inr (), w\<lparr>db_acl_hosts := rel\<rparr>) \<and>
     set rel = set (db_acl_hosts w) - {g} \<times> set hs"
proof (induction hs arbitrary: w)
  case Nil
  show ?case by (intro exI [of _ "db_acl_hosts w"]) (simp add: ret_def)
next
  case (Cons h hs)
  from Cons [of "w\<lparr>db_acl_hosts := set_discard (g, h) (db_acl_hosts w)\<rparr>"] show ?case
    by (auto simp: acl_remove_host_def)
qed

definition everyone_is :: "nat \<Rightarrow> world \<Rightarrow> bool" where
  "everyone_is g w \<longleftrightarrow> map_option fst (List.find (\<lambda>a. snd a = ''Everyone'') (db_acl_groups w)) = Some g"

lemma everyone_is_hosts [simp]: "everyone_is g (w\<lparr>db_acl_hosts := rel\<rparr>) = everyone_is g w"
  by (simp add: everyone_is_def)

text \<open>What a valid host's groups become: Everyone when there are no others, and only then.\<close>

definition with_everyone :: "nat \<Rightarrow> nat set \<Rightarrow> nat set" where
  "with_everyone everyone acls = (if acls \<subseteq> {everyone} then {everyone} else acls - {everyone})"

definition valid_hosts :: "world \<Rightarrow> nat set" where
  "valid_hosts w = h_id ` set (filter (\<lambda>h. \<not> h_invalid h) (db_hosts w))"

lemma membership_change_run:
  assumes "everyone_is ev w"
  shows "\<exists>rel. on_host_membership_change w = (Inr (), w\<lparr>db_acl_hosts := rel\<rparr>) \<and>
    (\<forall>h. {g. (g, h) \<in> set rel} = (if h \<in> valid_hosts w
       then with_everyone ev {g. (g, h) \<in> set (db_acl_hosts w)} else {g. (g, h) \<in> set (db_acl_hosts w)}))"
proof -
  have acl: "acl_by_name ''Everyone'' w = (Inr ev, w)"
    using assms by (simp add: acl_by_name_def everyone_is_def ret_def)
  obtain r1 where r1: "for_each (orphaned_hosts w) (acl_add_host ev) w = (Inr (), w\<lparr>db_acl_hosts := r1\<rparr>)"
      "set r1 = set (db_acl_hosts w) \<union> {ev} \<times> set (orphaned_hosts w)"
    using add_all_hosts by blast
  let ?v = "w\<lparr>db_acl_hosts := r1\<rparr>"
  obtain r2 where r2: "for_each (acled_hosts ev ?v) (acl_remove_host ev) ?v = (Inr (), ?v\<lparr>db_acl_hosts := r2\<rparr>)"
      "set r2 = set r1 - {ev} \<times> set (acled_hosts ev ?v)"
    using remove_all_hosts [of "acled_hosts ev ?v" ev ?v] by auto
  have run: "on_host_membership_change w = (Inr (), w\<lparr>db_acl_hosts := r2\<rparr>)"
    using acl r1(1) r2(1) by (simp add: on_host_membership_change_def bnd_def andthen_def gets_def)
  have orphans: "set (orphaned_hosts w) = {h \<in> valid_hosts w. {g. (g, h) \<in> set (db_acl_hosts w)} = {}}"
    by (auto simp: orphaned_hosts_def valid_hosts_def)
  have acled: "set (acled_hosts ev ?v) = {h \<in> valid_hosts w. (ev, h) \<in> set r1 \<and> (\<exists>k. k \<noteq> ev \<and> (k, h) \<in> set r1)}"
    using host_acls_many [of ev ?v] by (auto simp: acled_hosts_def valid_hosts_def)
  have "{g. (g, h) \<in> set r2} = (if h \<in> valid_hosts w
       then with_everyone ev {g. (g, h) \<in> set (db_acl_hosts w)} else {g. (g, h) \<in> set (db_acl_hosts w)})" for h
    unfolding r2(2) acled r1(2) orphans by (auto simp: with_everyone_def)
  with run show ?thesis by blast
qed

text \<open>
  C40 (frontend/afe/models.py, \<open>AclGroup.on_host_membership_change\<close>). It changes only which hosts the groups
  have: a valid host in no group enters Everyone, a valid host in Everyone and in another group leaves
  Everyone, and no other membership changes; a valid host is then in Everyone exactly when it is in no
  other group.
\<close>

theorem membership_change_keeps_everyone:
  assumes "everyone_is ev w"
  shows "\<exists>w'. on_host_membership_change w = (Inr (), w') \<and> w\<lparr>db_acl_hosts := db_acl_hosts w'\<rparr> = w' \<and>
    (\<forall>h \<in> valid_hosts w. set (host_acls w' h) = with_everyone ev (set (host_acls w h)) \<and>
       set (host_acls w' h) \<noteq> {} \<and> (ev \<in> set (host_acls w' h) \<longleftrightarrow> set (host_acls w' h) = {ev})) \<and>
    (\<forall>h. h \<notin> valid_hosts w \<longrightarrow> set (host_acls w' h) = set (host_acls w h))"
proof -
  obtain rel where rel: "on_host_membership_change w = (Inr (), w\<lparr>db_acl_hosts := rel\<rparr>)"
    "\<And>h. {g. (g, h) \<in> set rel} = (if h \<in> valid_hosts w
       then with_everyone ev {g. (g, h) \<in> set (db_acl_hosts w)} else {g. (g, h) \<in> set (db_acl_hosts w)})"
    using membership_change_run [OF assms] by blast
  have ne: "with_everyone ev A \<noteq> {}" "ev \<in> with_everyone ev A \<longleftrightarrow> with_everyone ev A = {ev}" for A
    by (auto simp: with_everyone_def)
  show ?thesis by (rule exI [of _ "w\<lparr>db_acl_hosts := rel\<rparr>"]) (simp add: rel ne del: mem_Collect_eq)
qed

section \<open>Reserving hosts\<close>

definition find_hosts :: "string list \<Rightarrow> world \<Rightarrow> host_row list" where
  "find_hosts names w = map (\<lambda>n. the (host_smart_get n w)) names"

lemma smart_get_bulk_run:
  assumes "\<forall>n \<in> set names. host_smart_get n w \<noteq> None"
  shows "host_smart_get_bulk names w = (Inr (find_hosts names w), w)"
proof -
  have "None \<notin> set (map (\<lambda>n. host_smart_get n w) names)" using assms by force
  then show ?thesis by (simp add: host_smart_get_bulk_def find_hosts_def ret_def comp_def)
qed

lemma host_smart_get_valid: "host_smart_get n w = Some h \<Longrightarrow> h \<in> set (db_hosts w) \<and> \<not> h_invalid h"
  by (auto simp: host_smart_get_def find_Some_iff)

lemma find_hosts_valid:
  assumes "\<forall>n \<in> set names. host_smart_get n w \<noteq> None" and "h \<in> set (find_hosts names w)"
  shows "h_id h \<in> valid_hosts w"
  using assms host_smart_get_valid by (fastforce simp: find_hosts_def valid_hosts_def)

lemma reserve_host_run:
  assumes "everyone_is ev w" and "g \<noteq> ev" and "h \<in> set hosts" and "\<forall>k \<in> set hosts. h_id k \<in> valid_hosts w"
  shows "\<exists>rel. reserve_host g hosts h w = (Inr (), w\<lparr>db_acl_hosts := rel\<rparr>) \<and>
    (\<forall>k \<in> set hosts. (g, h_id k) \<in> set rel \<and> (ev, h_id k) \<notin> set rel)"
proof -
  let ?r0 = "set_add (g, h_id h) (db_acl_hosts w)"
  obtain r1 where r1: "for_each (map h_id hosts) (acl_add_host g) (w\<lparr>db_acl_hosts := ?r0\<rparr>) =
      (Inr (), w\<lparr>db_acl_hosts := r1\<rparr>)" "set r1 = set ?r0 \<union> {g} \<times> h_id ` set hosts"
    using add_all_hosts [of "map h_id hosts" g "w\<lparr>db_acl_hosts := ?r0\<rparr>"] by auto
  have each: "for_each (map h_id hosts) (acl_add_host g) = for_each hosts (\<lambda>k. acl_add_host g (h_id k))"
    by (induction hosts) simp_all
  obtain r2 where r2: "on_host_membership_change (w\<lparr>db_acl_hosts := r1\<rparr>) = (Inr (), w\<lparr>db_acl_hosts := r2\<rparr>)"
    "\<And>k. k \<in> valid_hosts w \<Longrightarrow> {a. (a, k) \<in> set r2} = with_everyone ev {a. (a, k) \<in> set r1}"
    using membership_change_run [of ev "w\<lparr>db_acl_hosts := r1\<rparr>"] assms(1) by (auto simp: valid_hosts_def)
  have "(g, h_id k) \<in> set r2 \<and> (ev, h_id k) \<notin> set r2" if "k \<in> set hosts" for k
  proof -
    have "(g, h_id k) \<in> set r1" using r1(2) that by auto
    then have "{a. (a, h_id k) \<in> set r2} = {a. (a, h_id k) \<in> set r1} - {ev}"
      using r2(2) assms(2,4) that by (auto simp: with_everyone_def)
    with \<open>(g, h_id k) \<in> set r1\<close> assms(2) show ?thesis by blast
  qed
  moreover have "reserve_host g hosts h w = (Inr (), w\<lparr>db_acl_hosts := r2\<rparr>)"
    using r1(1) r2(1) unfolding each by (simp add: reserve_host_def acl_add_host_def andthen_def bnd_def modify_def)
  ultimately show ?thesis by blast
qed

lemma reserve_all_run:
  assumes "everyone_is ev w" and "g \<noteq> ev" and "set hs \<subseteq> set hosts" and "hs \<noteq> []"
    and "\<forall>k \<in> set hosts. h_id k \<in> valid_hosts w"
  shows "\<exists>rel. for_each hs (reserve_host g hosts) w = (Inr (), w\<lparr>db_acl_hosts := rel\<rparr>) \<and>
    (\<forall>k \<in> set hosts. (g, h_id k) \<in> set rel \<and> (ev, h_id k) \<notin> set rel)"
  using assms
proof (induction hs arbitrary: w)
  case (Cons h hs)
  obtain rel where rel: "reserve_host g hosts h w = (Inr (), w\<lparr>db_acl_hosts := rel\<rparr>)"
      "\<forall>k \<in> set hosts. (g, h_id k) \<in> set rel \<and> (ev, h_id k) \<notin> set rel"
    using reserve_host_run [OF Cons.prems(1,2) _ Cons.prems(5), of h] Cons.prems(3) by auto
  show ?case
  proof (cases "hs = []")
    case True
    with rel show ?thesis by (auto simp: andthen_def bnd_def ret_def)
  next
    case False
    have "everyone_is ev (w\<lparr>db_acl_hosts := rel\<rparr>)" "set hs \<subseteq> set hosts"
        "\<forall>k \<in> set hosts. h_id k \<in> valid_hosts (w\<lparr>db_acl_hosts := rel\<rparr>)"
      using Cons.prems by (simp_all add: valid_hosts_def)
    from Cons.IH [OF this(1) Cons.prems(2) this(2) False this(3)] rel(1) show ?thesis
      by (auto simp: andthen_def bnd_def)
  qed
qed simp

text \<open>
  frontend/afe/reservations.py, \<open>create\<close>. When the named hosts exist and the user may use them and
  already has a group of their own, every named host is in the user's group afterwards and none is in
  Everyone, and nothing but the groups' hosts changes.
\<close>

theorem reservation_gives_hosts_to_user:
  assumes "everyone_is ev w" and "names \<noteq> []" and "\<forall>n \<in> set names. host_smart_get n w \<noteq> None"
    and "login \<noteq> []" and "List.find (\<lambda>u. u_login u = login) (db_users w) = Some u"
    and "is_superuser u \<or> (\<forall>h \<in> set (find_hosts names w). h_id h \<in> set (accessible_host_ids w (u_id u)))"
    and "List.find (\<lambda>a. snd a = login) (db_acl_groups w) = Some (g, login)" and "g \<noteq> ev"
  shows "\<exists>w'. reservations_create names (Some login) w = (Inr (), w') \<and>
    w\<lparr>db_acl_hosts := db_acl_hosts w'\<rparr> = w' \<and>
    (\<forall>h \<in> set (find_hosts names w). g \<in> set (host_acls w' (h_id h)) \<and> ev \<notin> set (host_acls w' (h_id h)))"
proof -
  let ?hosts = "find_hosts names w"
  have login: "u_login u = login" using assms(5) by (auto simp: find_Some_iff)
  have user: "user_by_login login w = (Inr u, w)" using assms(5) by (simp add: user_by_login_def ret_def)
  have acl: "check_for_acl_violation_hosts ?hosts (Some login) w = (Inr (), w)"
    using assms(4,6) user by (auto simp: check_for_acl_violation_hosts_def bnd_def ret_def gets_def)
  have grp: "acl_get_or_create login w = (Inr (g, False), w)"
    using assms(7) by (simp add: acl_get_or_create_def ret_def)
  have "?hosts \<noteq> []" using assms(2) by (simp add: find_hosts_def)
  then obtain rel where rel: "for_each ?hosts (reserve_host g ?hosts) w = (Inr (), w\<lparr>db_acl_hosts := rel\<rparr>)"
      "\<forall>k \<in> set ?hosts. (g, h_id k) \<in> set rel \<and> (ev, h_id k) \<notin> set rel"
    using reserve_all_run [OF assms(1,8) order_refl] find_hosts_valid [OF assms(3)] by blast
  have "reservations_create names (Some login) w = (Inr (), w\<lparr>db_acl_hosts := rel\<rparr>)"
    using smart_get_bulk_run [OF assms(3)] \<open>?hosts \<noteq> []\<close> assms(4) user login acl grp rel(1)
    by (simp add: reservations_create_def get_user_def bnd_def andthen_def ret_def)
  with rel(2) show ?thesis by auto
qed

definition sample_lab_acls :: world where
  "sample_lab_acls = empty_world\<lparr>db_hosts := [sample_host 3 ''m3'', sample_host 4 ''m4'', sample_host 5 ''m5''],
     db_users := [\<lparr>u_id = 1, u_login = ''autotest_system'', u_access_level = 100, u_drone_set_id = None,
       u_reboot_before = RB_If_dirty, u_reboot_after = RA_Always\<rparr>,
       \<lparr>u_id = 2, u_login = ''ada'', u_access_level = 0, u_drone_set_id = None,
       u_reboot_before = RB_If_dirty, u_reboot_after = RA_Always\<rparr>],
     db_acl_groups := [(1, ''Everyone''), (2, ''ada'')], db_acl_users := [(1, 1), (1, 2), (2, 2)],
     db_acl_hosts := [(1, 3), (1, 4), (2, 4)]\<rparr>"

theorem membership_change_keeps_everyone_witness:
  "\<exists>w'. on_host_membership_change sample_lab_acls = (Inr (), w') \<and> set (host_acls w' 3) = {1} \<and>
    set (host_acls w' 4) = {2} \<and> set (host_acls w' 5) = {1}"
proof -
  have ev: "everyone_is 1 sample_lab_acls"
    by (simp add: everyone_is_def sample_lab_acls_def empty_world_def)
  have valid: "valid_hosts sample_lab_acls = {3, 4, 5}"
    by (auto simp: valid_hosts_def sample_lab_acls_def sample_defs)
  have "{g. (g, 3) \<in> set (db_acl_hosts sample_lab_acls)} = {1}" "{g. (g, 4) \<in> set (db_acl_hosts sample_lab_acls)} = {1, 2}"
      "{g. (g, 5) \<in> set (db_acl_hosts sample_lab_acls)} = {}"
    by (auto simp: sample_lab_acls_def)
  with membership_change_keeps_everyone [OF ev] show ?thesis
    by (auto simp: valid with_everyone_def)
qed

theorem reservation_gives_hosts_to_user_witness:
  "\<exists>w'. reservations_create [''m3'', ''m4''] (Some ''ada'') sample_lab_acls = (Inr (), w') \<and>
    2 \<in> set (host_acls w' 3) \<and> 1 \<notin> set (host_acls w' 3)"
  using reservation_gives_hosts_to_user [of 1 sample_lab_acls "[''m3'', ''m4'']" "''ada''"
    "\<lparr>u_id = 2, u_login = ''ada'', u_access_level = 0, u_drone_set_id = None,
       u_reboot_before = RB_If_dirty, u_reboot_after = RA_Always\<rparr>" 2]
  by (auto simp: everyone_is_def host_smart_get_def find_hosts_def accessible_host_ids_def sample_lab_acls_def sample_defs)

end
