(* ===== verification/Sched_Models.thy ===== *)
theory Sched_Models
  imports Hostnames Reservations
begin

text \<open>
  scheduler/scheduler_models.py, first part: the object layer \<open>DBObject\<close>, the classes \<open>Host\<close> and
  \<open>HostQueueEntry\<close> with the status changes of an entry, and the queries \<open>Job\<close> makes. Methods take
  the reference of the object they are called on. \<open>update_field\<close> compares with the copy in memory and
  writes the row only when they differ.
\<close>

section \<open>DBObject: construction, fetch, update\<close>

definition load_host :: "nat \<Rightarrow> unit sched" where
  "load_host i =
     bnd (gets (\<lambda>w. find_row h_id i (db_hosts w))) (\<lambda>r.
     bnd (some_or DBError r) (\<lambda>row.
     modify (\<lambda>w. w\<lparr>mem_hosts := (mem_hosts w)(i \<mapsto> row)\<rparr>)))"

definition load_job :: "nat \<Rightarrow> unit sched" where
  "load_job i =
     bnd (gets (\<lambda>w. find_row j_id i (db_jobs w))) (\<lambda>r.
     bnd (some_or DBError r) (\<lambda>row.
     modify (\<lambda>w. w\<lparr>mem_jobs := (mem_jobs w)(i \<mapsto> row)\<rparr>)))"

definition job_tag :: "job_row \<Rightarrow> string" where
  "job_tag j = str_of_nat (j_id j) @ ''-'' @ j_owner j"

definition set_entry :: "entry_ref \<Rightarrow> hqe_obj \<Rightarrow> world \<Rightarrow> world" where
  "set_entry r e w = w\<lparr>mem_hqes := (mem_hqes w)(r \<mapsto> e)\<rparr>"

definition put_entry :: "entry_ref \<Rightarrow> hqe_obj \<Rightarrow> unit sched" where
  "put_entry r e = modify (set_entry r e)"

text \<open>\<open>HostQueueEntry.__init__\<close> on the object \<open>r\<close> with the given row.\<close>

definition init_entry :: "entry_ref \<Rightarrow> hqe_row \<Rightarrow> unit sched" where
  "init_entry r row =
     bnd (gets (\<lambda>w. case mem_hqes w r of
         None \<Rightarrow> \<lparr>e_row = row, e_host = None, e_queue_log_path = [], e_abort_info = None\<rparr>
       | Some e \<Rightarrow> e\<lparr>e_row := row\<rparr>)) (\<lambda>e.
     andthen (put_entry r e) (
     andthen (load_job (q_job_id row)) (
     andthen (case q_host_id row of None \<Rightarrow> ret () | Some h \<Rightarrow> load_host h) (
     bnd (gets (\<lambda>w. case q_atomic_group_id row of None \<Rightarrow> True
            | Some a \<Rightarrow> find_row ag_id a (db_atomic_groups w) \<noteq> None)) (\<lambda>found.
     if \<not> found then throw DBError else
     bnd (get_job (q_job_id row)) (\<lambda>j.
       put_entry r (e\<lparr>e_host := q_host_id row,
         e_queue_log_path := path_join (job_tag j) (''queue.log.'' @ str_of_nat (q_id row))\<rparr>)))))))"

definition construct_entry :: "hqe_row \<Rightarrow> entry_ref sched" where
  "construct_entry row = andthen (init_entry (Entry (q_id row)) row) (ret (Entry (q_id row)))"

definition load_entry :: "nat \<Rightarrow> entry_ref sched" where
  "load_entry i =
     bnd (gets (\<lambda>w. find_row q_id i (db_hqes w))) (\<lambda>r.
     bnd (some_or DBError r) construct_entry)"

text \<open>\<open>HostQueueEntry.fetch\<close>: the rows are read once, then the objects are constructed.\<close>

definition fetch_entries :: "(world \<Rightarrow> hqe_row list) \<Rightarrow> entry_ref list sched" where
  "fetch_entries query = bnd (gets query) (\<lambda>rows. map_each rows construct_entry)"

definition where_hqe :: "(hqe_row \<Rightarrow> bool) \<Rightarrow> world \<Rightarrow> hqe_row list" where
  "where_hqe p w = filter p (db_hqes w)"

definition fetch_hosts :: "(world \<Rightarrow> host_row list) \<Rightarrow> nat list sched" where
  "fetch_hosts query = bnd (gets query) (\<lambda>rows.
     map_each rows (\<lambda>row. andthen (modify (\<lambda>w. w\<lparr>mem_hosts := (mem_hosts w)(h_id row \<mapsto> row)\<rparr>)) (ret (h_id row))))"

text \<open>\<open>update_from_database\<close> refreshes the fields, not the attributes \<open>host\<close> and \<open>job\<close>.\<close>

definition entry_update_from_database :: "entry_ref \<Rightarrow> unit sched" where
  "entry_update_from_database r =
     bnd (get_entry r) (\<lambda>e.
     bnd (gets (\<lambda>w. find_row q_id (q_id (e_row e)) (db_hqes w))) (\<lambda>row.
     bnd (some_or DBError row) (\<lambda>row. put_entry r (e\<lparr>e_row := row\<rparr>))))"

text \<open>
  \<open>update_field\<close>; the field is given by its selector and its record update.
\<close>

definition write_entry ::
  "entry_ref \<Rightarrow> hqe_obj \<Rightarrow> (hqe_row \<Rightarrow> hqe_row) \<Rightarrow> world \<Rightarrow> world" where
  "write_entry r e f w = set_entry r (e\<lparr>e_row := f (e_row e)\<rparr>)
     (w\<lparr>db_hqes := upd_row q_id (q_id (e_row e)) f (db_hqes w)\<rparr>)"

definition entry_update_field ::
  "entry_ref \<Rightarrow> (hqe_row \<Rightarrow> 'v) \<Rightarrow> (('v \<Rightarrow> 'v) \<Rightarrow> hqe_row \<Rightarrow> hqe_row) \<Rightarrow> 'v \<Rightarrow> unit sched" where
  "entry_update_field r get upd v =
     bnd (get_entry r) (\<lambda>e.
     if get (e_row e) = v then ret () else modify (write_entry r e (upd (\<lambda>_. v))))"

definition host_update_field ::
  "nat \<Rightarrow> (host_row \<Rightarrow> 'v) \<Rightarrow> (('v \<Rightarrow> 'v) \<Rightarrow> host_row \<Rightarrow> host_row) \<Rightarrow> 'v \<Rightarrow> unit sched" where
  "host_update_field i get upd v =
     bnd (get_host i) (\<lambda>h.
     if get h = v then ret () else
       modify (\<lambda>w. w\<lparr>db_hosts := upd_row h_id i (upd (\<lambda>_. v)) (db_hosts w),
                     mem_hosts := (mem_hosts w)(i \<mapsto> upd (\<lambda>_. v) h)\<rparr>))"

text \<open>
  \<open>HostQueueEntry.clone\<close> and \<open>save\<close> of the clone; the id is 0, which no row has, until it is saved.
\<close>

definition clone_entry :: "entry_ref \<Rightarrow> entry_ref sched" where
  "clone_entry template =
     bnd (get_entry template) (\<lambda>t.
     bnd (gets mem_clones) (\<lambda>n.
     andthen (modify (\<lambda>w. w\<lparr>mem_clones := Suc n\<rparr>)) (
     andthen (init_entry (Clone n) (e_row t)) (
     bnd (get_entry (Clone n)) (\<lambda>e.
     andthen (put_entry (Clone n) (e\<lparr>e_row := (e_row e)\<lparr>q_id := 0\<rparr>\<rparr>))
       (ret (Clone n)))))))"

definition save_entry :: "entry_ref \<Rightarrow> unit sched" where
  "save_entry r = (case r of
       Entry _ \<Rightarrow> ret ()
     | Clone _ \<Rightarrow>
         bnd (get_entry r) (\<lambda>e.
         bnd fresh_id (\<lambda>i.
         let row = (e_row e)\<lparr>q_id := i\<rparr> in
         andthen (modify (\<lambda>w. w\<lparr>db_hqes := db_hqes w @ [row]\<rparr>))
           (put_entry r (e\<lparr>e_row := row\<rparr>)))))"

section \<open>Host\<close>

definition host_set_status :: "nat \<Rightarrow> host_status \<Rightarrow> unit sched" where
  "host_set_status i status = host_update_field i h_status h_status_update (Some status)"

definition host_labels_by_name :: "nat \<Rightarrow> world \<Rightarrow> label_row list" where
  "host_labels_by_name i w =
     sort_by (\<lambda>a b. str_cmp (str_lower (l_name a)) (str_lower (l_name b)) \<le> 0)
       (filter (\<lambda>l. (i, l_id l) \<in> set (db_hosts_labels w)) (db_labels w))"

definition platform_and_labels :: "nat \<Rightarrow> world \<Rightarrow> string option \<times> string list" where
  "platform_and_labels i w =
     foldl (\<lambda>(platform, all_labels) l.
         (if l_platform l then Some (l_name l) else platform, all_labels @ [l_name l]))
       (None, []) (host_labels_by_name i w)"

section \<open>Queries of Job\<close>

definition owner_model :: "nat \<Rightarrow> user_row sched" where
  "owner_model i = bnd (get_job i) (\<lambda>j. user_by_login (j_owner j))"

definition is_server_job :: "job_row \<Rightarrow> bool" where
  "is_server_job j \<longleftrightarrow> j_control_type j \<noteq> 2"

definition job_entries :: "nat \<Rightarrow> world \<Rightarrow> hqe_row list" where
  "job_entries i w = filter (\<lambda>q. q_job_id q = i) (db_hqes w)"

definition get_host_queue_entries :: "nat \<Rightarrow> entry_ref list sched" where
  "get_host_queue_entries i =
     bnd (gets (job_entries i)) (\<lambda>rows.
     bnd (map_each rows construct_entry) (\<lambda>entries.
     andthen (assert_that (entries \<noteq> [])) (ret entries)))"

definition atomic_and_has_started :: "nat \<Rightarrow> world \<Rightarrow> bool" where
  "atomic_and_has_started i w =
     list_ex (\<lambda>q. q_atomic_group_id q \<noteq> None \<and> q_status q \<in> {Starting, Running, Completed}) (job_entries i w)"

definition hosts_assigned_count :: "nat \<Rightarrow> world \<Rightarrow> nat" where
  "hosts_assigned_count i w = length (filter (\<lambda>q. q_host_id q \<noteq> None) (job_entries i w))"

definition pending_count :: "nat \<Rightarrow> world \<Rightarrow> nat" where
  "pending_count i w = length (filter (\<lambda>q. q_status q = Pending) (job_entries i w))"

definition max_hosts_needed_to_run :: "nat \<Rightarrow> atomic_group_row \<Rightarrow> world \<Rightarrow> int" where
  "max_hosts_needed_to_run i ag w = min (int (hosts_assigned_count i w)) (ag_max_number_of_machines ag)"

definition min_hosts_needed_to_run :: "job_row \<Rightarrow> int" where
  "min_hosts_needed_to_run j = j_synch_count j"

definition num_machines :: "nat \<Rightarrow> (hqe_row \<Rightarrow> bool) \<Rightarrow> world \<Rightarrow> nat" where
  "num_machines i clause w = length (filter clause (job_entries i w))"

definition num_queued :: "nat \<Rightarrow> world \<Rightarrow> nat" where
  "num_queued i = num_machines i (\<lambda>q. \<not> q_complete q)"

definition num_active :: "nat \<Rightarrow> world \<Rightarrow> nat" where
  "num_active i = num_machines i q_active"

definition num_complete :: "nat \<Rightarrow> world \<Rightarrow> nat" where
  "num_complete i = num_machines i q_complete"

definition is_finished :: "nat \<Rightarrow> world \<Rightarrow> bool" where
  "is_finished i w \<longleftrightarrow> num_complete i w = num_machines i (\<lambda>_. True) w"

definition not_yet_run_entries :: "nat \<Rightarrow> bool \<Rightarrow> world \<Rightarrow> hqe_row list" where
  "not_yet_run_entries i include_verifying w =
     filter (\<lambda>q. q_status q \<in> set ([Queued, Pending] @ (if include_verifying then [Verifying] else [])))
       (job_entries i w)"

text \<open>The body of the loop of \<open>_stop_all_entries\<close>, on the Django objects of the query.\<close>

definition release_host_of :: "hqe_row \<Rightarrow> unit sched" where
  "release_host_of child =
     bnd (some_or AttributeError (q_host_id child)) (\<lambda>h.
     bnd (django_host h) (\<lambda>host. host_save (host\<lparr>h_status := Some HReady\<rparr>)))"

definition stop_entry :: "hqe_row \<Rightarrow> unit sched" where
  "stop_entry child =
     andthen (assert_that (\<not> q_complete child)) (
     andthen (when_do (q_status child = Pending) (release_host_of child)) (
     bnd (hqe_save (child\<lparr>q_status := Stopped\<rparr>)) (\<lambda>_. ret ())))"

definition stop_all_entries :: "nat \<Rightarrow> unit sched" where
  "stop_all_entries i = bnd (gets (not_yet_run_entries i False)) (\<lambda>entries. for_each entries stop_entry)"

definition stop_if_necessary :: "nat \<Rightarrow> unit sched" where
  "stop_if_necessary i =
     bnd (gets (not_yet_run_entries i True)) (\<lambda>not_yet_run.
     bnd (get_job i) (\<lambda>j.
     when_do (int (length not_yet_run) < j_synch_count j) (stop_all_entries i)))"

definition job_keyval_dict :: "nat \<Rightarrow> (string \<times> string) list sched" where
  "job_keyval_dict i = bnd (django_job i) (\<lambda>_. gets (model_keyval_dict i))"

definition request_abort :: "nat \<Rightarrow> unit sched" where
  "request_abort i = bnd (django_job i) (\<lambda>_. model_job_abort i)"

section \<open>HostQueueEntry\<close>

definition entry_atomic_group :: "hqe_obj \<Rightarrow> world \<Rightarrow> atomic_group_row option" where
  "entry_atomic_group e w = (case q_atomic_group_id (e_row e) of
     None \<Rightarrow> None | Some a \<Rightarrow> find_row ag_id a (db_atomic_groups w))"

definition job_dependency_labels :: "nat \<Rightarrow> world \<Rightarrow> label_row list" where
  "job_dependency_labels i w = List.map_filter (\<lambda>(j, l). if j = i then find_row l_id l (db_labels w) else None)
     (db_jobs_dependency_labels w)"

definition get_labels :: "hqe_obj \<Rightarrow> label_row list sched" where
  "get_labels e =
     bnd (case q_meta_host (e_row e) of
         None \<Rightarrow> ret []
       | Some m \<Rightarrow> bnd (gets (\<lambda>w. find_row l_id m (db_labels w))) (\<lambda>r.
           bnd (some_or DBError r) (\<lambda>l. ret [l]))) (\<lambda>meta.
     bnd (gets (job_dependency_labels (q_job_id (e_row e)))) (\<lambda>deps. ret (meta @ deps)))"

definition queue_log_record :: "entry_ref \<Rightarrow> string \<Rightarrow> unit sched" where
  "queue_log_record r log_line =
     bnd (get_entry r) (\<lambda>e.
     bnd (gets (\<lambda>w. cfg_str_time (w_cfg w) (w_now w))) (\<lambda>t.
     dm (write_lines_to_file (e_queue_log_path e) [t @ '' '' @ log_line] None)))"

definition block_host :: "nat \<Rightarrow> nat \<Rightarrow> unit sched" where
  "block_host job host = bnd fresh_id (\<lambda>i.
     modify (\<lambda>w. w\<lparr>db_blocks := db_blocks w @ [\<lparr>b_id = i, b_job_id = job, b_host_id = host\<rparr>]\<rparr>))"

definition unblock_host :: "nat \<Rightarrow> nat \<Rightarrow> unit sched" where
  "unblock_host job host =
     modify (\<lambda>w. w\<lparr>db_blocks := filter (\<lambda>b. \<not> (b_job_id b = job \<and> b_host_id b = host)) (db_blocks w)\<rparr>)"

definition set_entry_host :: "entry_ref \<Rightarrow> nat option \<Rightarrow> unit sched" where
  "set_entry_host r h = bnd (get_entry r) (\<lambda>e. put_entry r (e\<lparr>e_host := h\<rparr>))"

definition entry_set_host :: "entry_ref \<Rightarrow> nat option \<Rightarrow> unit sched" where
  "entry_set_host r host = (case host of
       Some h \<Rightarrow>
         bnd (get_host h) (\<lambda>hr.
         andthen (queue_log_record r (''Assigning host '' @ h_hostname hr)) (
         andthen (entry_update_field r q_host_id q_host_id_update (Some h)) (
         bnd (get_entry r) (\<lambda>e.
         andthen (block_host (q_job_id (e_row e)) h) (set_entry_host r (Some h))))))
     | None \<Rightarrow>
         andthen (queue_log_record r ''Releasing host'') (
         bnd (get_entry r) (\<lambda>e.
         bnd (some_or AttributeError (e_host e)) (\<lambda>h.
         andthen (unblock_host (q_job_id (e_row e)) h) (
         andthen (entry_update_field r q_host_id q_host_id_update None) (set_entry_host r None))))))"

definition entry_set_execution_subdir :: "entry_ref \<Rightarrow> string option \<Rightarrow> unit sched" where
  "entry_set_execution_subdir r subdir =
     bnd (case subdir of
         Some s \<Rightarrow> ret s
       | None \<Rightarrow> bnd (get_entry r) (\<lambda>e.
           bnd (some_or AssertionError (e_host e)) (\<lambda>h. bnd (get_host h) (\<lambda>hr. ret (h_hostname hr))))) (\<lambda>s.
     entry_update_field r q_execution_subdir q_execution_subdir_update s)"

definition get_hostname :: "entry_ref \<Rightarrow> string sched" where
  "get_hostname r = bnd (get_entry r) (\<lambda>e. case e_host e of
       None \<Rightarrow> ret ''no host''
     | Some h \<Rightarrow> bnd (get_host h) (\<lambda>hr. ret (h_hostname hr)))"

definition execution_tag :: "entry_ref \<Rightarrow> string sched" where
  "execution_tag r =
     bnd (get_entry r) (\<lambda>e.
     andthen (assert_that (q_execution_subdir (e_row e) \<noteq> [])) (
     bnd (get_job (q_job_id (e_row e))) (\<lambda>j.
     ret (job_tag j @ ''/'' @ q_execution_subdir (e_row e)))))"

definition execution_path :: "entry_ref \<Rightarrow> string sched" where
  "execution_path r = execution_tag r"

text \<open>Whether a status is in a list of lower case status names, or the list says \<open>all\<close>.\<close>

definition notifies :: "string list \<Rightarrow> hqe_status \<Rightarrow> bool" where
  "notifies statuses s \<longleftrightarrow> str_lower (hqe_status_string s) \<in> set statuses \<or> ''all'' \<in> set statuses"

text \<open>
  The mails. Computing a mail's text constructs \<open>Job(id=...)\<close> once more, which refreshes the job.
\<close>

definition email_on_status :: "entry_ref \<Rightarrow> hqe_status \<Rightarrow> unit sched" where
  "email_on_status r status =
     bnd (get_hostname r) (\<lambda>hostname.
     bnd (get_entry r) (\<lambda>e.
     andthen (load_job (q_job_id (e_row e))) (
     bnd (get_job (q_job_id (e_row e))) (\<lambda>j.
     send_mail (Status_mail (j_email_list j) (j_id j) status hostname)))))"

definition email_admin_on_status :: "entry_ref \<Rightarrow> hqe_status \<Rightarrow> unit sched" where
  "email_admin_on_status r status =
     bnd (get_hostname r) (\<lambda>hostname.
     bnd (get_entry r) (\<lambda>e.
     andthen (load_job (q_job_id (e_row e))) (
     bnd (get_job (q_job_id (e_row e))) (\<lambda>j.
     bnd (gets (\<lambda>w. cfg_grid_admin_email (w_cfg w))) (\<lambda>admin.
     send_mail (Status_mail admin (j_id j) status hostname))))))"

definition email_on_job_complete :: "entry_ref \<Rightarrow> bool \<Rightarrow> unit sched" where
  "email_on_job_complete r email_admin =
     bnd (get_entry r) (\<lambda>e.
     let job = q_job_id (e_row e) in
     bnd (gets (is_finished job)) (\<lambda>fin.
     if \<not> fin then ret () else
     bnd (fetch_entries (job_entries job)) (\<lambda>hosts_queue.
     andthen (for_each hosts_queue (\<lambda>q. bnd (get_hostname q) (\<lambda>_. ret ()))) (
     bnd (gets (get_status_counts job)) (\<lambda>counts.
     andthen (load_job job) (
     bnd (get_job job) (\<lambda>j.
     bnd (gets (\<lambda>w. cfg_grid_admin_email (w_cfg w))) (\<lambda>admin.
     send_mail (Job_mail (if email_admin then admin else j_email_list j) job counts)))))))))"

definition unregister_entry_pidfile :: "string \<Rightarrow> string \<Rightarrow> unit sched" where
  "unregister_entry_pidfile path name =
     dm (bnd (gets (\<lambda>s. get_pidfile_id_from s path name)) (\<lambda>p. modify (unregister_pidfile p)))"

text \<open>
  \<open>_on_complete\<close>. The test \<open>status is not Status.ABORTED\<close> compares objects; the statuses passed
  are those of the enumeration, for which it is the comparison of the values.
\<close>

definition on_complete :: "entry_ref \<Rightarrow> hqe_status \<Rightarrow> unit sched" where
  "on_complete r status =
     bnd (get_entry r) (\<lambda>e.
     andthen (when_do (status \<noteq> Aborted) (stop_if_necessary (q_job_id (e_row e)))) (
     bnd (get_entry r) (\<lambda>e.
     if q_execution_subdir (e_row e) = [] then ret () else
     for_each ALL_PIDFILE_NAMES (\<lambda>name.
       bnd (execution_path r) (\<lambda>path. unregister_entry_pidfile path name)))))"

text \<open>The three fields a status change writes.\<close>

definition entry_write_status :: "entry_ref \<Rightarrow> hqe_status \<Rightarrow> unit sched" where
  "entry_write_status r status =
     andthen (entry_update_field r q_status q_status_update status) (
     andthen (assert_that (\<not> (is_active_status status \<and> is_complete_status status))) (
     andthen (entry_update_field r q_active q_active_update (is_active_status status))
       (entry_update_field r q_complete q_complete_update (is_complete_status status))))"

definition entry_set_status :: "entry_ref \<Rightarrow> hqe_status \<Rightarrow> unit sched" where
  "entry_set_status r status =
     andthen (entry_write_status r status) (
     bnd (gets (\<lambda>w. notifies (cfg_notify_email_statuses (w_cfg w)) status)) (\<lambda>should_email.
     bnd (gets (\<lambda>w. notifies (cfg_notify_admin_email_statuses (w_cfg w)) status)) (\<lambda>should_email_admin.
     andthen (when_do (is_complete_status status)
        (andthen (on_complete r status) (email_on_job_complete r should_email_admin))) (
     andthen (when_do should_email (email_on_status r status))
       (when_do should_email_admin (email_admin_on_status r status))))))"

definition load_abort_info :: "entry_ref \<Rightarrow> (string option \<times> int option) sched" where
  "load_abort_info r =
     bnd (get_entry r) (\<lambda>e. case e_abort_info e of
       Some i \<Rightarrow> ret i
     | None \<Rightarrow>
         bnd (gets (\<lambda>w. case map_of (db_aborted w) (q_id (e_row e)) of
             None \<Rightarrow> (None, None)
           | Some (u, t) \<Rightarrow> (case find_row u_id u (db_users w) of
               None \<Rightarrow> (None, None) | Some ur \<Rightarrow> (Some (u_login ur), Some t)))) (\<lambda>i.
         andthen (put_entry r (e\<lparr>e_abort_info := Some i\<rparr>)) (ret i)))"

fun first_group_label :: "nat \<Rightarrow> label_row list \<Rightarrow> string \<Rightarrow> exn + string" where
  "first_group_label a [] dflt = Inr dflt"
| "first_group_label a (l # ls) dflt = (case l_atomic_group_id l of
       None \<Rightarrow> first_group_label a ls dflt
     | Some b \<Rightarrow> if b = a then Inr (l_name l) else Inl AssertionError)"

definition get_group_name :: "entry_ref \<Rightarrow> string sched" where
  "get_group_name r =
     bnd (get_entry r) (\<lambda>e.
     bnd (gets (entry_atomic_group e)) (\<lambda>g. case g of
       None \<Rightarrow> ret []
     | Some ag \<Rightarrow> bnd (get_labels e) (\<lambda>labels. lift_sum (first_group_label (ag_id ag) labels (ag_name ag)))))"

definition set_started_on_now :: "entry_ref \<Rightarrow> unit sched" where
  "set_started_on_now r = bnd now (\<lambda>t. entry_update_field r q_started_on q_started_on_update (Some t))"

definition is_hostless :: "hqe_row \<Rightarrow> bool" where
  "is_hostless q \<longleftrightarrow> q_host_id q = None \<and> q_meta_host q = None \<and> q_atomic_group_id q = None"

definition requeue :: "entry_ref \<Rightarrow> unit sched" where
  "requeue r =
     bnd (get_entry r) (\<lambda>e.
     andthen (assert_that (e_host e \<noteq> None)) (
     andthen (entry_set_status r Queued) (
     andthen (entry_update_field r q_started_on q_started_on_update None) (
     andthen (entry_set_execution_subdir r (Some [])) (
     bnd (get_entry r) (\<lambda>e.
     when_do (q_meta_host (e_row e) \<noteq> None) (entry_set_host r None)))))))"

text \<open>\<open>HostQueueEntry.__str__\<close>\<close>

definition entry_str :: "entry_ref \<Rightarrow> string sched" where
  "entry_str r =
     bnd (get_hostname r) (\<lambda>hostname.
     bnd (get_entry r) (\<lambda>e.
     let q = e_row e;
         flags = (if q_active q then [''active''] else []) @ (if q_complete q then [''complete''] else []) @
                 (if q_deleted q then [''deleted''] else []) @ (if q_aborted q then [''aborted''] else []);
         flags_str = (if flags = [] then [] else '' ['' @ str_join '','' flags @ '']'')
     in ret (hostname @ ''/'' @ str_of_nat (q_job_id q) @ '' ('' @ str_of_nat (q_id q) @ '') '' @
             hqe_status_string (q_status q) @ flags_str)))"

text \<open>
  \<open>Job.set_status\<close>: the table has no column \<open>status\<close>, so \<open>status\<close> is not among the valid fields and
  \<open>update_field\<close> fails on its assertion.
\<close>

definition job_fields :: "string list" where
  "job_fields = [''id'', ''owner'', ''name'', ''priority'', ''control_file'', ''control_type'', ''created_on'',
     ''synch_count'', ''timeout'', ''run_verify'', ''email_list'', ''reboot_before'', ''reboot_after'',
     ''parse_failed_repair'', ''max_runtime_hrs'', ''drone_set_id'', ''parameterized_job_id'', ''reserve_hosts'']"

definition job_set_status :: "nat \<Rightarrow> hqe_status \<Rightarrow> bool \<Rightarrow> unit sched" where
  "job_set_status i status update_queues =
     bnd (get_job i) (\<lambda>_.
     andthen (assert_that (''status'' \<in> set (removeAll ''id'' job_fields)))
       (when_do update_queues (bnd (get_host_queue_entries i) (\<lambda>es. for_each es (\<lambda>r. entry_set_status r status)))))"

end
