(* ===== verification/Job_Flow.thy ===== *)
theory Job_Flow
  imports Sched_Models
begin

text \<open>
  scheduler/scheduler_models.py, second part: how a job's entries move from Verifying through Pending
  and Waiting to Starting. The methods of \<open>Job\<close> that decide whether the job is ready, choose the group
  of entries that runs, and delay an atomic group; \<open>HostQueueEntry.on_pending\<close>, \<open>abort\<close> and
  \<open>schedule_pre_job_tasks\<close>; and \<open>DelayedCallTask\<close>. A Job method takes the job's id.
\<close>

section \<open>Delayed calls\<close>

definition new_agent_task :: "task_class \<Rightarrow> agent_task" where
  "new_agent_task c =
     \<lparr>at_class = c, at_done = False, at_started = False, at_success = None, at_aborted = False,
      at_monitor = None, at_queue_entry_ids = [], at_host_ids = [], at_log_file_name = None,
      at_host = 0, at_queue_entry = None, at_task = None, at_extra_args = [], at_job = 0,
      at_queue_entries = [], at_autoserv_monitor = None, at_end_time = 0\<rparr>"

definition get_task :: "nat \<Rightarrow> agent_task sched" where
  "get_task t = bnd (gets (\<lambda>w. w_tasks w t)) (some_or AttributeError)"

definition put_task :: "nat \<Rightarrow> agent_task \<Rightarrow> unit sched" where
  "put_task t a = modify (\<lambda>w. w\<lparr>w_tasks := (w_tasks w)(t \<mapsto> a)\<rparr>)"

definition upd_task :: "nat \<Rightarrow> (agent_task \<Rightarrow> agent_task) \<Rightarrow> unit sched" where
  "upd_task t f = bnd (get_task t) (\<lambda>a. put_task t (f a))"

text \<open>Allocate a task object and answer its number.\<close>

definition alloc_task :: "agent_task \<Rightarrow> nat sched" where
  "alloc_task a = bnd (gets w_next_task) (\<lambda>t.
     andthen (modify (\<lambda>w. w\<lparr>w_next_task := Suc t\<rparr>)) (andthen (put_task t a) (ret t)))"

text \<open>\<open>DelayedCallTask(delay_seconds, callback)\<close> for the callback of a job's entry.\<close>

definition new_delayed_call_task :: "int \<Rightarrow> nat \<Rightarrow> entry_ref \<Rightarrow> nat sched" where
  "new_delayed_call_task delay_seconds job r =
     andthen (assert_that (delay_seconds > 0)) (
     bnd now (\<lambda>t.
     alloc_task ((new_agent_task DelayedCallTask)
       \<lparr>at_end_time := t + delay_seconds, at_job := job, at_queue_entries := [r], at_success := Some False\<rparr>)))"

definition delayed_is_done :: "agent_task \<Rightarrow> bool" where
  "delayed_is_done a \<longleftrightarrow> at_success a = Some True \<or> at_aborted a"

definition delayed_abort :: "nat \<Rightarrow> unit sched" where
  "delayed_abort t = upd_task t (\<lambda>a. a\<lparr>at_aborted := True\<rparr>)"

section \<open>Group names\<close>

fun strip_prefix :: "string \<Rightarrow> string \<Rightarrow> string option" where
  "strip_prefix [] s = Some s"
| "strip_prefix (p # ps) [] = None"
| "strip_prefix (p # ps) (c # cs) = (if p = c then strip_prefix ps cs else None)"

definition sanitize_group_name :: "string \<Rightarrow> string" where
  "sanitize_group_name group_name =
     (if group_name = [] then []
      else let g = map (\<lambda>c. if c = CHR ''/'' then CHR ''_'' else c) group_name;
               g' = (if hd g = CHR ''.'' then ''_'' @ tl g else g)
           in g' @ ''.'')"

text \<open>The number \<open>group_count_re\<close> finds at the start of a directory name.\<close>

definition group_number :: "string \<Rightarrow> string \<Rightarrow> nat option" where
  "group_number prefix subdir = (case strip_prefix (prefix @ ''group'') subdir of
       None \<Rightarrow> None
     | Some rest \<Rightarrow> (let ds = takeWhile is_digit rest in if ds = [] then None else Some (nat_of_digits ds)))"

definition next_group_name :: "nat \<Rightarrow> string \<Rightarrow> world \<Rightarrow> string" where
  "next_group_name i group_name w =
     (let prefix = sanitize_group_name group_name;
          ids = List.map_filter (\<lambda>q. group_number prefix (q_execution_subdir q)) (job_entries i w);
          next_id = (if ids = [] then 0 else Suc (foldl max 0 ids))
      in prefix @ ''group'' @ str_of_nat next_id)"

definition get_group_entries :: "nat \<Rightarrow> entry_ref \<Rightarrow> entry_ref list sched" where
  "get_group_entries i r =
     bnd (get_entry r) (\<lambda>e.
     fetch_entries (where_hqe (\<lambda>q. q_job_id q = i \<and> q_execution_subdir q = q_execution_subdir (e_row e))))"

definition write_to_machines_file :: "nat \<Rightarrow> entry_ref \<Rightarrow> unit sched" where
  "write_to_machines_file i r =
     bnd (get_entry r) (\<lambda>e.
     bnd (entry_host e) (\<lambda>h.
     bnd (get_job i) (\<lambda>j.
     dm (write_lines_to_file (path_join (job_tag j) ''.machines'') [h_hostname h] None))))"

section \<open>Starting a group of entries\<close>

definition abort_delay_ready_task :: "nat \<Rightarrow> unit sched" where
  "abort_delay_ready_task i =
     bnd (gets (\<lambda>w. mem_delay_ready_task w i)) (\<lambda>t. case t of None \<Rightarrow> ret () | Some t \<Rightarrow> delayed_abort t)"

definition finish_run :: "nat \<Rightarrow> entry_ref list \<Rightarrow> unit sched" where
  "finish_run i entries =
     andthen (for_each entries (\<lambda>r. entry_set_status r Starting)) (abort_delay_ready_task i)"

definition assign_new_group :: "nat \<Rightarrow> entry_ref list \<Rightarrow> string \<Rightarrow> unit sched" where
  "assign_new_group i entries group_name =
     bnd (case entries of
         [r] \<Rightarrow> bnd (get_entry r) (\<lambda>e. bnd (entry_host e) (\<lambda>h. ret (h_hostname h)))
       | _ \<Rightarrow> bnd (gets (next_group_name i group_name)) (\<lambda>name.
           andthen (for_each entries (\<lambda>r. bnd (get_entry r) (\<lambda>e. bnd (entry_host e) (\<lambda>_. ret ()))))
             (ret name))) (\<lambda>subdir.
     for_each entries (\<lambda>r. entry_set_execution_subdir r (Some subdir)))"

definition cmp_entries_by_hostname :: "entry_ref \<times> string option \<Rightarrow> entry_ref \<times> string option \<Rightarrow> exn + int" where
  "cmp_entries_by_hostname a b = (case (snd a, snd b) of
       (Some x, Some y) \<Rightarrow> cmp_for_sort x y
     | _ \<Rightarrow> Inl AttributeError)"

definition entry_with_hostname :: "entry_ref \<Rightarrow> (entry_ref \<times> string option) sched" where
  "entry_with_hostname r =
     bnd (get_entry r) (\<lambda>e. case e_host e of
       None \<Rightarrow> ret (r, None)
     | Some h \<Rightarrow> bnd (get_host h) (\<lambda>hr. ret (r, Some (h_hostname hr))))"

text \<open>The Pending entries of the job other than the given row, sorted by hostname.\<close>

definition sorted_pending_entries :: "nat \<Rightarrow> nat \<Rightarrow> entry_ref list sched" where
  "sorted_pending_entries i other =
     bnd (fetch_entries (where_hqe (\<lambda>q. q_job_id q = i \<and> q_status q = Pending \<and> q_id q \<noteq> other))) (\<lambda>pending.
     bnd (map_each pending entry_with_hostname) (\<lambda>named.
     bnd (lift_sum (py_sort cmp_entries_by_hostname named)) (\<lambda>sorted.
     ret (map fst sorted))))"

definition num_entries_wanted :: "job_row \<Rightarrow> atomic_group_row option \<Rightarrow> int" where
  "num_entries_wanted j ag = (case ag of
       Some a \<Rightarrow> ag_max_number_of_machines a | None \<Rightarrow> j_synch_count j) - 1"

definition choose_group_to_run :: "nat \<Rightarrow> entry_ref \<Rightarrow> entry_ref list sched" where
  "choose_group_to_run i r =
     bnd (get_entry r) (\<lambda>e.
     bnd (gets (entry_atomic_group e)) (\<lambda>ag.
     bnd (get_job i) (\<lambda>j.
     let wanted = num_entries_wanted j ag in
     bnd (if wanted > 0
          then bnd (sorted_pending_entries i (q_id (e_row e))) (\<lambda>ps. ret (r # take (nat wanted) ps))
          else ret [r]) (\<lambda>chosen.
     bnd (get_job i) (\<lambda>j.
     if int (length chosen) < j_synch_count j
     then andthen (enqueue_admin ''Job not started, too few chosen entries'') (ret [])
     else bnd (get_group_name r) (\<lambda>name.
       andthen (assign_new_group i chosen name) (ret chosen)))))))"

definition job_run :: "nat \<Rightarrow> entry_ref \<Rightarrow> unit sched" where
  "job_run i r =
     bnd (get_entry r) (\<lambda>e.
     bnd (gets (\<lambda>w. entry_atomic_group e w \<noteq> None \<and> atomic_and_has_started i w)) (\<lambda>already.
     if already then ret () else
     bnd (choose_group_to_run i r) (\<lambda>entries.
     when_do (entries \<noteq> []) (finish_run i entries))))"

definition job_is_ready :: "nat \<Rightarrow> bool sched" where
  "job_is_ready i =
     bnd (get_job i) (\<lambda>j.
     gets (\<lambda>w. int (pending_count i w) \<ge> j_synch_count j \<and> \<not> atomic_and_has_started i w))"

definition run_with_ready_delay :: "nat \<Rightarrow> entry_ref \<Rightarrow> unit sched" where
  "run_with_ready_delay i r =
     bnd (get_entry r) (\<lambda>e.
     andthen (assert_that (q_job_id (e_row e) = i)) (
     bnd (gets (entry_atomic_group e)) (\<lambda>ag.
     bnd (some_or AssertionError ag) (\<lambda>ag.
     bnd (gets (\<lambda>w. cfg_secs_to_wait_for_atomic_group_hosts (w_cfg w))) (\<lambda>delay.
     bnd (gets (\<lambda>w. int (pending_count i w) \<ge> max_hosts_needed_to_run i ag w)) (\<lambda>over_max_threshold.
     bnd (gets (\<lambda>w. case mem_delay_ready_task w i of None \<Rightarrow> False
            | Some t \<Rightarrow> (case w_tasks w t of None \<Rightarrow> False | Some a \<Rightarrow> w_now w \<ge> at_end_time a))) (\<lambda>delay_expired.
     if delay = 0 \<or> over_max_threshold \<or> delay_expired then job_run i r
     else entry_set_status r Waiting)))))))"

definition run_if_ready :: "nat \<Rightarrow> entry_ref \<Rightarrow> unit sched" where
  "run_if_ready i r =
     bnd (job_is_ready i) (\<lambda>ready.
     if \<not> ready then stop_if_necessary i
     else bnd (get_entry r) (\<lambda>e.
       bnd (gets (entry_atomic_group e)) (\<lambda>ag.
       if ag \<noteq> None then run_with_ready_delay i r else job_run i r)))"

text \<open>\<open>run_job_after_delay\<close> and \<open>DelayedCallTask.poll\<close>; the value the callback returns is dropped.\<close>

definition run_job_after_delay :: "nat \<Rightarrow> entry_ref \<Rightarrow> unit sched" where
  "run_job_after_delay i r =
     bnd (get_job i) (\<lambda>j.
     bnd (gets (pending_count i)) (\<lambda>n.
     if int n < min_hosts_needed_to_run j then request_abort i else job_run i r))"

definition delayed_poll :: "nat \<Rightarrow> unit sched" where
  "delayed_poll t =
     bnd (get_task t) (\<lambda>a.
     bnd now (\<lambda>n.
     if \<not> delayed_is_done a \<and> n \<ge> at_end_time a then
       (case at_queue_entries a of
          [] \<Rightarrow> throw TypeError
        | r # _ \<Rightarrow> andthen (run_job_after_delay (at_job a) r) (upd_task t (\<lambda>a. a\<lparr>at_success := Some True\<rparr>)))
     else ret ()))"

definition schedule_delayed_callback_task :: "nat \<Rightarrow> entry_ref \<Rightarrow> nat option sched" where
  "schedule_delayed_callback_task i r =
     andthen (entry_set_status r Pending) (
     bnd (gets (\<lambda>w. mem_delay_ready_task w i)) (\<lambda>existing.
     if existing \<noteq> None then ret None else
     bnd (gets (\<lambda>w. cfg_secs_to_wait_for_atomic_group_hosts (w_cfg w))) (\<lambda>delay.
     bnd (new_delayed_call_task delay i r) (\<lambda>t.
     andthen (modify (\<lambda>w. w\<lparr>mem_delay_ready_task := (mem_delay_ready_task w)(i \<mapsto> t)\<rparr>)) (ret (Some t))))))"

section \<open>An entry that passed its pre-job tasks\<close>

definition on_pending :: "entry_ref \<Rightarrow> unit sched" where
  "on_pending r =
     andthen (entry_set_status r Pending) (
     bnd (get_entry r) (\<lambda>e.
     bnd (some_or AttributeError (e_host e)) (\<lambda>h.
     andthen (host_set_status h HPending) (
     andthen (run_if_ready (q_job_id (e_row e)) r) (
     bnd (get_entry r) (\<lambda>e.
     bnd (get_job (q_job_id (e_row e))) (\<lambda>j.
     when_do (j_synch_count j = 1 \<and> q_status (e_row e) = Pending)
       (enqueue_admin (''Job '' @ j_name j @ '' (id '' @ str_of_nat (j_id j) @ '')'')))))))))"

definition should_run_cleanup :: "job_row \<Rightarrow> host_row \<Rightarrow> bool" where
  "should_run_cleanup j h = (case j_reboot_before j of
       RB_Always \<Rightarrow> True | RB_If_dirty \<Rightarrow> h_dirty h | RB_Never \<Rightarrow> False)"

definition should_run_verify :: "job_row \<Rightarrow> host_row \<Rightarrow> bool" where
  "should_run_verify j h \<longleftrightarrow> h_protection h \<noteq> Do_not_verify \<and> j_run_verify j"

definition pre_job_task :: "job_row \<Rightarrow> host_row \<Rightarrow> special_task_kind option" where
  "pre_job_task j h = (if should_run_cleanup j h then Some TaskCleanup
     else if should_run_verify j h then Some TaskVerify else None)"

definition job_schedule_pre_job_tasks :: "nat \<Rightarrow> entry_ref \<Rightarrow> unit sched" where
  "job_schedule_pre_job_tasks i r =
     bnd (get_job i) (\<lambda>j.
     bnd (get_entry r) (\<lambda>e.
     bnd (entry_host e) (\<lambda>h.
     case pre_job_task j h of
       None \<Rightarrow> on_pending r
     | Some task \<Rightarrow>
         bnd (django_hqe (q_id (e_row e))) (\<lambda>q.
         bnd (some_or DoesNotExist (q_host_id q)) (\<lambda>hid.
         bnd (django_host hid) (\<lambda>dh.
         bnd (special_task_create (h_id dh) task (Some (q_id q)) None) (\<lambda>_. ret ()))))) ))"

definition do_schedule_pre_job_tasks :: "entry_ref \<Rightarrow> unit sched" where
  "do_schedule_pre_job_tasks r =
     andthen (entry_set_status r Verifying) (
     bnd (get_entry r) (\<lambda>e. job_schedule_pre_job_tasks (q_job_id (e_row e)) r))"

definition schedule_pre_job_tasks :: "entry_ref \<Rightarrow> unit sched" where
  "schedule_pre_job_tasks r =
     bnd (get_entry r) (\<lambda>e.
     bnd (get_job (q_job_id (e_row e))) (\<lambda>j.
     bnd (entry_host e) (\<lambda>h.
     andthen (when_do (j_reserve_hosts j) (reservations_create [h_hostname h] (Some (j_owner j))))
       (do_schedule_pre_job_tasks r))))"

section \<open>Aborting an entry\<close>

text \<open>\<open>dispatcher.get_agents_for_entry\<close>\<close>

definition get_agents_for_entry :: "hqe_row \<Rightarrow> world \<Rightarrow> nat list" where
  "get_agents_for_entry q w = dict_get (w_queue_entry_agents w) (q_id q)"

definition entry_abort :: "entry_ref \<Rightarrow> unit sched" where
  "entry_abort r =
     bnd (get_entry r) (\<lambda>e.
     let q = e_row e in
     andthen (assert_that (q_aborted q \<and> \<not> q_complete q)) (
     if q_status q \<in> {Gathering, Parsing, Archiving} then ret () else
     andthen (
       if q_status q \<in> {Starting, Pending, Running, Waiting} then
         bnd (gets (get_agents_for_entry q)) (\<lambda>agents.
         andthen (assert_that (agents = [])) (
         bnd (some_or AttributeError (e_host e)) (\<lambda>h. host_set_status h HReady)))
       else if q_status q = Verifying then
         bnd (entry_host e) (\<lambda>h.
         bnd (django_host (h_id h)) (\<lambda>dh.
         bnd (owner_model (q_job_id q)) (\<lambda>u.
         bnd (special_task_create (h_id dh) TaskCleanup None (Some (u_id u))) (\<lambda>_. ret ()))))
       else ret ()) (
     andthen (entry_set_status r Aborted) (
     bnd (get_entry r) (\<lambda>e. abort_delay_ready_task (q_job_id (e_row e)))))))"

section \<open>Fresh group names\<close>

lemma strip_prefix_append [simp]: "strip_prefix p (p @ s) = Some s"
  by (induction p) simp_all

lemma takeWhile_digits: "takeWhile is_digit (str_of_nat n) = str_of_nat n"
  using str_of_nat_digits by (simp add: takeWhile_eq_all_conv)

lemma group_number_of_name: "group_number prefix (prefix @ ''group'' @ str_of_nat n) = Some n"
proof -
  have "strip_prefix (prefix @ ''group'') (prefix @ ''group'' @ str_of_nat n) = Some (str_of_nat n)"
    using strip_prefix_append [of "prefix @ ''group''" "str_of_nat n"] by simp
  then show ?thesis by (simp add: group_number_def takeWhile_digits)
qed

lemma foldl_max_member: "x \<in> set xs \<Longrightarrow> (x :: nat) \<le> foldl max a xs"
proof (induction xs arbitrary: a)
  case (Cons y ys)
  have "a \<le> foldl max a ys" for a
  proof (induction ys arbitrary: a)
    case (Cons z zs)
    have "a \<le> max a z" by simp
    also have "\<dots> \<le> foldl max (max a z) zs" by (rule Cons)
    finally show ?case by simp
  qed simp
  then have "max a y \<le> foldl max (max a y) ys" .
  with Cons show ?case by auto
qed simp

text \<open>
  (scheduler/scheduler_models.py, \<open>Job._next_group_name\<close>). The directory chosen for the next group of
  hosts is not the results directory of any entry of the job.
\<close>

theorem next_group_name_fresh:
  "next_group_name i group_name w \<notin> q_execution_subdir ` set (job_entries i w)"
proof
  let ?prefix = "sanitize_group_name group_name"
  let ?ids = "List.map_filter (\<lambda>q. group_number ?prefix (q_execution_subdir q)) (job_entries i w)"
  let ?next = "if ?ids = [] then 0 else Suc (foldl max 0 ?ids)"
  assume "next_group_name i group_name w \<in> q_execution_subdir ` set (job_entries i w)"
  then obtain q where q: "q \<in> set (job_entries i w)" "q_execution_subdir q = ?prefix @ ''group'' @ str_of_nat ?next"
    by (auto simp: next_group_name_def Let_def)
  then have "group_number ?prefix (q_execution_subdir q) = Some ?next"
    by (simp only: group_number_of_name)
  then have "?next \<in> set ?ids" using q(1) unfolding set_map_filter by blast
  then have "?next \<le> foldl max 0 ?ids" and "?ids \<noteq> []" by (rule foldl_max_member, fastforce)
  then show False by simp
qed

section \<open>An atomic group is started once\<close>

text \<open>
  (scheduler/scheduler_models.py, \<open>Job.run\<close>). For an atomic group entry of a job that has an atomic
  group entry already starting, running or completed, \<open>run\<close> changes nothing.
\<close>

theorem atomic_job_not_started_twice:
  assumes "mem_hqes w r = Some e" and "entry_atomic_group e w = Some ag" and "atomic_and_has_started i w"
  shows "job_run i r w = (Inr (), w)"
  using assms by (simp add: job_run_def get_entry_def exm_basic)

section \<open>Status changes\<close>

text \<open>The memory copy of an entry agrees with its row.\<close>

definition coherent :: "world \<Rightarrow> entry_ref \<Rightarrow> hqe_obj \<Rightarrow> bool" where
  "coherent w r e \<longleftrightarrow> mem_hqes w r = Some e \<and> distinct (map q_id (db_hqes w)) \<and>
     find_row q_id (q_id (e_row e)) (db_hqes w) = Some (e_row e)"

lemma upd_row_id:
  assumes "find_row key i rows = Some r" and "distinct (map key rows)" and "f r = r"
  shows "upd_row key i f rows = rows"
proof -
  have "x = r" if "x \<in> set rows" "key x = i" for x
    using find_row_unique [of key rows x] that assms(1,2) by simp
  with assms(3) show ?thesis unfolding upd_row_def by (intro map_idI) auto
qed

lemma write_entry_id: "coherent w r e \<Longrightarrow> f (e_row e) = e_row e \<Longrightarrow> write_entry r e f w = w"
proof -
  assume c: "coherent w r e" and f: "f (e_row e) = e_row e"
  have "upd_row q_id (q_id (e_row e)) f (db_hqes w) = db_hqes w"
    by (rule upd_row_id) (use c f in \<open>auto simp: coherent_def\<close>)
  moreover have "(mem_hqes w)(r \<mapsto> e) = mem_hqes w" using c by (auto simp: coherent_def)
  ultimately show ?thesis by (simp add: write_entry_def set_entry_def f)
qed

lemma write_entry_coherent:
  assumes "coherent w r e" and "\<And>q. q_id (f q) = q_id q"
  shows "coherent (write_entry r e f w) r (e\<lparr>e_row := f (e_row e)\<rparr>)"
  using assms by (simp add: coherent_def write_entry_def set_entry_def find_row_upd upd_row_keys)

lemma write_entry_twice:
  assumes "\<And>q. q_id (f q) = q_id q"
  shows "write_entry r (e\<lparr>e_row := f (e_row e)\<rparr>) g (write_entry r e f w) = write_entry r e (\<lambda>q. g (f q)) w"
  using assms by (simp add: write_entry_def set_entry_def upd_row_upd_row)

lemma entry_update_field_coherent:
  assumes "coherent w r e" and "\<And>q. get q = v \<Longrightarrow> upd (\<lambda>_. v) q = q"
  shows "entry_update_field r get upd v w = (Inr (), write_entry r e (upd (\<lambda>_. v)) w)"
proof (cases "get (e_row e) = v")
  case True
  then have "write_entry r e (upd (\<lambda>_. v)) w = w" using assms by (intro write_entry_id) auto
  with True assms(1) show ?thesis by (simp add: entry_update_field_def get_entry_def coherent_def exm_basic)
next
  case False
  with assms(1) show ?thesis by (simp add: entry_update_field_def get_entry_def coherent_def exm_basic)
qed

definition with_status :: "hqe_status \<Rightarrow> hqe_row \<Rightarrow> hqe_row" where
  "with_status s q = q\<lparr>q_status := s, q_active := is_active_status s, q_complete := is_complete_status s\<rparr>"

lemma entry_write_status_coherent:
  assumes "coherent w r e"
  shows "entry_write_status r s w = (Inr (), write_entry r e (with_status s) w)"
proof -
  let ?w1 = "write_entry r e (q_status_update (\<lambda>_. s)) w"
  let ?e1 = "e\<lparr>e_row := (e_row e)\<lparr>q_status := s\<rparr>\<rparr>"
  let ?w2 = "write_entry r ?e1 (q_active_update (\<lambda>_. is_active_status s)) ?w1"
  let ?e2 = "?e1\<lparr>e_row := (e_row ?e1)\<lparr>q_active := is_active_status s\<rparr>\<rparr>"
  have c1: "coherent ?w1 r ?e1" using write_entry_coherent [OF assms, of "q_status_update (\<lambda>_. s)"] by simp
  have c2: "coherent ?w2 r ?e2" using write_entry_coherent [OF c1, of "q_active_update (\<lambda>_. is_active_status s)"] by simp
  have u1: "entry_update_field r q_status q_status_update s w = (Inr (), ?w1)"
    by (rule entry_update_field_coherent [OF assms]) simp
  have u2: "entry_update_field r q_active q_active_update (is_active_status s) ?w1 = (Inr (), ?w2)"
    by (rule entry_update_field_coherent [OF c1]) auto
  have u3: "entry_update_field r q_complete q_complete_update (is_complete_status s) ?w2 =
      (Inr (), write_entry r ?e2 (q_complete_update (\<lambda>_. is_complete_status s)) ?w2)"
    by (rule entry_update_field_coherent [OF c2]) auto
  have t1: "?w2 = write_entry r e (\<lambda>q. q\<lparr>q_status := s, q_active := is_active_status s\<rparr>) w"
    using write_entry_twice [of "q_status_update (\<lambda>_. s)" r e "q_active_update (\<lambda>_. is_active_status s)" w] by simp
  have "write_entry r ?e2 (q_complete_update (\<lambda>_. is_complete_status s)) ?w2 = write_entry r e (with_status s) w"
    using write_entry_twice [of "\<lambda>q. q\<lparr>q_status := s, q_active := is_active_status s\<rparr>" r e
        "q_complete_update (\<lambda>_. is_complete_status s)" w] t1
    by (simp add: with_status_def [abs_def])
  moreover have "\<not> (is_active_status s \<and> is_complete_status s)" by (rule active_not_complete)
  ultimately show ?thesis using u1 u2 u3
    by (simp add: entry_write_status_def andthen_def bnd_def ret_def assert_that_def)
qed

definition silent :: "hqe_status \<Rightarrow> world \<Rightarrow> bool" where
  "silent s w \<longleftrightarrow> \<not> notifies (cfg_notify_email_statuses (w_cfg w)) s \<and> \<not> notifies (cfg_notify_admin_email_statuses (w_cfg w)) s"

lemma silent_write [simp]: "silent s (write_entry r e f w) = silent s w"
  by (simp add: silent_def write_entry_def set_entry_def)

lemma entry_set_status_incomplete:
  assumes "entry_write_status r s w = (Inr (), w')" and "\<not> is_complete_status s" and "silent s w'"
  shows "entry_set_status r s w = (Inr (), w')"
  using assms by (simp add: entry_set_status_def andthen_def bnd_def silent_def gets_def ret_def)

text \<open>
  \<open>HostQueueEntry.set_status\<close> (scheduler/scheduler_models.py). On an entry whose copy in memory
  agrees with its row, a status that is not final changes the status, sets \<open>active\<close> exactly for the
  active statuses, clears \<open>complete\<close>, in memory and in the database, and does nothing else (when no mail
  is configured for the status).
\<close>

theorem set_status_sets_flags:
  assumes "coherent w r e" and "\<not> is_complete_status s" and "silent s w"
  shows "entry_set_status r s w = (Inr (), write_entry r e (with_status s) w)"
  by (rule entry_set_status_incomplete [OF entry_write_status_coherent [OF assms(1)] assms(2)])
    (simp add: assms(3))

definition sample_queued_world :: world where
  "sample_queued_world = empty_world\<lparr>db_jobs := [sample_job 7 1], db_hosts := [sample_host 3 ''host3''],
     db_hqes := [sample_entry 5 7 (Some 3) Queued], mem_jobs := [7 \<mapsto> sample_job 7 1],
     mem_hosts := [3 \<mapsto> sample_host 3 ''host3''],
     mem_hqes := [Entry 5 \<mapsto> entry_object (sample_entry 5 7 (Some 3) Queued)]\<rparr>"

theorem set_status_sets_flags_witness:
  "entry_set_status (Entry 5) Verifying sample_queued_world =
     (Inr (), write_entry (Entry 5) (entry_object (sample_entry 5 7 (Some 3) Queued)) (with_status Verifying) sample_queued_world)"
  by (rule set_status_sets_flags)
    (simp_all add: coherent_def silent_def notifies_def status_sets sample_queued_world_def sample_defs)

text \<open>
  scheduler/scheduler_models.py, \<open>HostQueueEntry.set_status\<close> after \<open>Job._stop_all_entries\<close>. When the
  row of a queued entry was stopped through the Django models while the copy in memory still says Queued,
  setting the status Verifying writes \<open>active\<close> but not \<open>complete\<close>, because the copy already has the
  value: the row is then active and complete at once.
\<close>

theorem stale_entry_active_and_complete:
  assumes "mem_hqes w r = Some e" and "q_status (e_row e) = Queued" and "\<not> q_active (e_row e)"
    and "\<not> q_complete (e_row e)" and "silent Verifying w"
    and "find_row q_id (q_id (e_row e)) (db_hqes w) = Some (with_status Stopped (e_row e))"
  shows "\<exists>w' q. entry_set_status r Verifying w = (Inr (), w') \<and>
    find_row q_id (q_id (e_row e)) (db_hqes w') = Some q \<and> q_status q = Verifying \<and> q_active q \<and> q_complete q"
proof -
  let ?w1 = "write_entry r e (q_status_update (\<lambda>_. Verifying)) w"
  let ?e1 = "e\<lparr>e_row := (e_row e)\<lparr>q_status := Verifying\<rparr>\<rparr>"
  let ?w2 = "write_entry r ?e1 (q_active_update (\<lambda>_. True)) ?w1"
  have m1: "mem_hqes ?w1 r = Some ?e1" by (simp add: write_entry_def set_entry_def)
  have m2: "mem_hqes ?w2 r = Some (?e1\<lparr>e_row := (e_row ?e1)\<lparr>q_active := True\<rparr>\<rparr>)"
    by (simp add: write_entry_def set_entry_def)
  have run: "entry_write_status r Verifying w = (Inr (), ?w2)"
    using assms(1-4) m1 m2
    by (simp add: entry_write_status_def entry_update_field_def get_entry_def exm_basic status_sets)
  have "entry_set_status r Verifying w = (Inr (), ?w2)"
    by (rule entry_set_status_incomplete [OF run]) (simp_all add: assms(5) status_sets)
  moreover have "find_row q_id (q_id (e_row e)) (db_hqes ?w2) =
      Some ((with_status Stopped (e_row e))\<lparr>q_status := Verifying, q_active := True\<rparr>)"
    using assms(6) by (simp add: write_entry_def set_entry_def find_row_upd)
  ultimately show ?thesis by (simp add: with_status_def status_sets)
qed

theorem stale_entry_active_and_complete_witness:
  "\<exists>w' q. entry_set_status (Entry 5) Verifying
        (sample_queued_world\<lparr>db_hqes := [with_status Stopped (sample_entry 5 7 (Some 3) Queued)]\<rparr>) = (Inr (), w') \<and>
    find_row q_id (q_id (e_row (entry_object (sample_entry 5 7 (Some 3) Queued)))) (db_hqes w') = Some q \<and>
    q_status q = Verifying \<and> q_active q \<and> q_complete q"
  by (rule stale_entry_active_and_complete)
    (simp_all add: silent_def notifies_def status_sets with_status_def sample_queued_world_def sample_defs)

section \<open>Stopping the entries that have not run\<close>

text \<open>The flags of every row follow from its status, as \<open>HostQueueEntry.save\<close> keeps them.\<close>

definition flags_ok :: "world \<Rightarrow> bool" where
  "flags_ok w \<longleftrightarrow> (\<forall>q \<in> set (db_hqes w).
     q_active q = is_active_status (q_status q) \<and> q_complete q = is_complete_status (q_status q))"

text \<open>The scheduler runs without a request user, and its system user is there with root access.\<close>

definition scheduler_user :: "world \<Rightarrow> bool" where
  "scheduler_user w \<longleftrightarrow> w_thread_user w = None \<and>
     (\<exists>u. List.find (\<lambda>u. u_login u = AUTOTEST_SYSTEM) (db_users w) = Some u \<and>
          u_access_level u = ACCESS_ROOT \<and> put_row u_id u (db_users w) = db_users w)"

lemma scheduler_user_fields [simp]:
  "scheduler_user (w\<lparr>db_hosts := x\<rparr>) = scheduler_user w"
  "scheduler_user (w\<lparr>db_hqes := y\<rparr>) = scheduler_user w"
  by (simp_all add: scheduler_user_def)

lemma current_user_run:
  assumes "scheduler_user w"
  shows "\<exists>u. current_user w = (Inr u, w) \<and> is_superuser u"
proof -
  obtain u where u: "List.find (\<lambda>u. u_login u = AUTOTEST_SYSTEM) (db_users w) = Some u"
      "u_access_level u = ACCESS_ROOT" "put_row u_id u (db_users w) = db_users w" "w_thread_user w = None"
    using assms by (auto simp: scheduler_user_def)
  have same: "u\<lparr>u_access_level := ACCESS_ROOT\<rparr> = u" using u(2) by (cases u) simp
  have "current_user w = (Inr u, w)"
    using u(1,3,4) by (simp add: current_user_def user_save_def exm_basic Let_def same)
  with u(2) show ?thesis by (simp add: is_superuser_def)
qed

lemma host_save_run:
  assumes "scheduler_user w"
  shows "\<exists>h2. host_save h w = (Inr (), w\<lparr>db_hosts := put_row h_id h2 (db_hosts w)\<rparr>) \<and>
    h_id h2 = h_id h \<and> h_status h2 = h_status h"
proof -
  obtain u where u: "current_user w = (Inr u, w)" "is_superuser u" using current_user_run [OF assms] by blast
  have acl: "check_for_acl_violation_hosts hs None w = (Inr (), w)" for hs
    using u by (simp add: check_for_acl_violation_hosts_def bnd_def ret_def)
  show ?thesis
    by (simp add: host_save_def Let_def andthen_def bnd_def acl u(1) now_def gets_def ret_def modify_def)
      (intro conjI impI; rule exI, rule conjI, rule refl, simp)
qed

lemma hqe_save_run: "hqe_save q w =
   (Inr (set_active_and_complete q), w\<lparr>db_hqes := put_row q_id (set_active_and_complete q) (db_hqes w)\<rparr>)"
  by (simp add: hqe_save_def Let_def andthen_def bnd_def modify_def ret_def)

lemma set_stopped: "set_active_and_complete (q\<lparr>q_status := Stopped\<rparr>) = with_status Stopped q"
  by (simp add: set_active_and_complete_def with_status_def status_sets)

definition host_ready :: "world \<Rightarrow> nat \<Rightarrow> bool" where
  "host_ready w h \<longleftrightarrow> (\<forall>r \<in> set (db_hosts w). h_id r = h \<longrightarrow> h_status r = Some HReady)"

definition sorted_ids :: "world \<Rightarrow> bool" where
  "sorted_ids w \<longleftrightarrow> sorted_wrt (<) (map q_id (db_hqes w)) \<and> sorted_wrt (<) (map h_id (db_hosts w))"

definition has_its_host :: "world \<Rightarrow> hqe_row \<Rightarrow> bool" where
  "has_its_host w q \<longleftrightarrow> (q_status q = Pending \<longrightarrow> (\<exists>h. q_host_id q = Some h \<and> h \<in> h_id ` set (db_hosts w)))"

lemma upd_row_const_keys: "key r2 = i \<Longrightarrow> map key (upd_row key i (\<lambda>_. r2) rows) = map key rows"
  by (induction rows) (auto simp: upd_row_def)

lemma host_ready_upd:
  assumes "h_status h2 = Some HReady"
  shows "host_ready w k \<Longrightarrow> host_ready (w\<lparr>db_hosts := upd_row h_id h (\<lambda>_. h2) (db_hosts w)\<rparr>) k"
    and "h_id h2 = h \<Longrightarrow> host_ready (w\<lparr>db_hosts := upd_row h_id h (\<lambda>_. h2) (db_hosts w)\<rparr>) h"
  using assms unfolding host_ready_def upd_row_def by auto

text \<open>One entry stopped.\<close>

lemma stop_entry_run:
  assumes "scheduler_user w" "sorted_ids w" "\<not> q_complete q" "has_its_host w q" "q \<in> set (db_hqes w)"
  shows "\<exists>hs. stop_entry q w = (Inr (), w\<lparr>db_hosts := hs,
       db_hqes := upd_row q_id (q_id q) (\<lambda>_. with_status Stopped q) (db_hqes w)\<rparr>) \<and>
     map h_id hs = map h_id (db_hosts w) \<and>
     (\<forall>h. host_ready w h \<longrightarrow> host_ready (w\<lparr>db_hosts := hs\<rparr>) h) \<and>
     (q_status q = Pending \<longrightarrow> host_ready (w\<lparr>db_hosts := hs\<rparr>) (the (q_host_id q)))"
proof -
  have put: "put_row q_id (with_status Stopped q) (db_hqes w) =
      upd_row q_id (q_id q) (\<lambda>_. with_status Stopped q) (db_hqes w)"
    using put_row_present [of q_id "db_hqes w" "with_status Stopped q"] assms(2,5)
    by (auto simp: sorted_ids_def with_status_def)
  show ?thesis
  proof (cases "q_status q = Pending")
    case False
    then show ?thesis using assms(3) put
      by (intro exI [of _ "db_hosts w"])
        (simp add: stop_entry_def hqe_save_run set_stopped andthen_def bnd_def ret_def)
  next
    case True
    then obtain h where h: "q_host_id q = Some h" "h \<in> h_id ` set (db_hosts w)"
      using assms(4) by (auto simp: has_its_host_def)
    then obtain r where r: "find_row h_id h (db_hosts w) = Some r"
      by (metis find_row_None not_None_eq)
    then have rid: "h_id r = h" using find_row_SomeD [OF r] by simp
    obtain h2 where h2: "host_save (r\<lparr>h_status := Some HReady\<rparr>) w =
        (Inr (), w\<lparr>db_hosts := put_row h_id h2 (db_hosts w)\<rparr>)" "h_id h2 = h" "h_status h2 = Some HReady"
      using host_save_run [OF assms(1), of "r\<lparr>h_status := Some HReady\<rparr>"] rid by auto
    have ph: "put_row h_id h2 (db_hosts w) = upd_row h_id h (\<lambda>_. h2) (db_hosts w)"
      using put_row_present [of h_id "db_hosts w" h2] assms(2) h(2) h2(2) by (auto simp: sorted_ids_def)
    have keys: "map h_id (upd_row h_id h (\<lambda>_. h2) (db_hosts w)) = map h_id (db_hosts w)"
      using h2(2) by (rule upd_row_const_keys)
    note ready = host_ready_upd(1) [OF h2(3)] host_ready_upd(2) [OF h2(3,2)]
    let ?hs = "upd_row h_id h (\<lambda>_. h2) (db_hosts w)"
    have rel: "release_host_of q w = (Inr (), w\<lparr>db_hosts := ?hs\<rparr>)"
      by (simp add: release_host_of_def django_host_def h r bnd_def gets_def ret_def some_or_def h2(1) ph)
    have "stop_entry q w = (Inr (), w\<lparr>db_hosts := ?hs,
        db_hqes := upd_row q_id (q_id q) (\<lambda>_. with_status Stopped q) (db_hqes w)\<rparr>)"
      using True assms(3) by (simp add: stop_entry_def hqe_save_run set_stopped andthen_def bnd_def ret_def rel put)
    then show ?thesis using h(1) keys ready by auto
  qed
qed

lemma upd_row_const_map:
  assumes "sorted_wrt (<) (map q_id rows)" and "q \<in> set rows"
  shows "upd_row q_id (q_id q) (\<lambda>_. f q) rows = map (\<lambda>x. if x = q then f x else x) rows"
proof -
  have "distinct (map q_id rows)" using assms(1) by (simp add: strict_sorted_iff)
  then have "inj_on q_id (set rows)" by (simp add: distinct_map)
  then have same: "(q_id x = q_id q) = (x = q)" if "x \<in> set rows" for x
    using that assms(2) by (auto dest: inj_onD)
  show ?thesis unfolding upd_row_def by (rule map_cong) (auto simp: same)
qed

lemma stopped_not_among:
  assumes "sorted_ids w" "q \<in> set (db_hqes w)" "x \<in> set (db_hqes w)" "x \<noteq> q"
  shows "with_status Stopped q \<noteq> x"
proof -
  have "inj_on q_id (set (db_hqes w))" using assms(1) by (simp add: sorted_ids_def strict_sorted_iff distinct_map)
  then have "q_id x \<noteq> q_id q" using assms(2-4) by (auto dest: inj_onD)
  then show ?thesis by (auto simp: with_status_def)
qed

lemma stop_loop_run:
  assumes "scheduler_user w" "sorted_ids w" "distinct qs" "set qs \<subseteq> set (db_hqes w)"
    and "\<And>q. q \<in> set qs \<Longrightarrow> \<not> q_complete q \<and> has_its_host w q"
  shows "\<exists>hs. for_each qs stop_entry w = (Inr (), w\<lparr>db_hosts := hs,
       db_hqes := map (\<lambda>x. if x \<in> set qs then with_status Stopped x else x) (db_hqes w)\<rparr>) \<and>
     (\<forall>h. host_ready w h \<longrightarrow> host_ready (w\<lparr>db_hosts := hs\<rparr>) h) \<and>
     (\<forall>q \<in> set qs. q_status q = Pending \<longrightarrow> host_ready (w\<lparr>db_hosts := hs\<rparr>) (the (q_host_id q)))"
  using assms
proof (induction qs arbitrary: w)
  case Nil
  show ?case by (intro exI [of _ "db_hosts w"]) (simp add: ret_def)
next
  case (Cons q qs)
  have q: "q \<in> set (db_hqes w)" "\<not> q_complete q" "has_its_host w q" using Cons.prems by auto
  let ?rows = "map (\<lambda>x. if x = q then with_status Stopped x else x) (db_hqes w)"
  obtain hs where hs: "stop_entry q w = (Inr (), w\<lparr>db_hosts := hs, db_hqes := ?rows\<rparr>)"
      "map h_id hs = map h_id (db_hosts w)"
      "\<forall>h. host_ready w h \<longrightarrow> host_ready (w\<lparr>db_hosts := hs\<rparr>) h"
      "q_status q = Pending \<longrightarrow> host_ready (w\<lparr>db_hosts := hs\<rparr>) (the (q_host_id q))"
    using stop_entry_run [OF Cons.prems(1,2) q(2,3,1)]
      upd_row_const_map [of "db_hqes w" q "with_status Stopped"] Cons.prems(2) q(1)
    by (auto simp: sorted_ids_def)
  let ?v = "w\<lparr>db_hosts := hs, db_hqes := ?rows\<rparr>"
  have keys: "map q_id ?rows = map q_id (db_hqes w)" by (simp add: with_status_def)
  have other: "with_status Stopped q \<notin> set qs"
    using stopped_not_among [OF Cons.prems(2) q(1)] Cons.prems(3,4) by (metis distinct.simps(2) list.set_intros(2) subsetD)
  have sub: "set qs \<subseteq> set ?rows" using Cons.prems(3,4) by auto
  have "sorted_ids ?v" using Cons.prems(2) keys hs(2) by (simp add: sorted_ids_def del: map_map)
  moreover have "\<not> q_complete x \<and> has_its_host ?v x" if "x \<in> set qs" for x
    using Cons.prems(5) that hs(2) by (auto simp: has_its_host_def simp flip: set_map)
  ultimately obtain hs2 where hs2: "for_each qs stop_entry ?v = (Inr (), ?v\<lparr>db_hosts := hs2,
       db_hqes := map (\<lambda>x. if x \<in> set qs then with_status Stopped x else x) ?rows\<rparr>)"
     "\<forall>h. host_ready ?v h \<longrightarrow> host_ready (?v\<lparr>db_hosts := hs2\<rparr>) h"
     "\<forall>q \<in> set qs. q_status q = Pending \<longrightarrow> host_ready (?v\<lparr>db_hosts := hs2\<rparr>) (the (q_host_id q))"
    using Cons.IH [of ?v] Cons.prems(1,3) sub by auto
  have rows: "map (\<lambda>x. if x \<in> set qs then with_status Stopped x else x) ?rows =
      map (\<lambda>x. if x \<in> set (q # qs) then with_status Stopped x else x) (db_hqes w)"
    using other Cons.prems(3) by auto
  have "for_each (q # qs) stop_entry w = (Inr (), w\<lparr>db_hosts := hs2,
       db_hqes := map (\<lambda>x. if x \<in> set (q # qs) then with_status Stopped x else x) (db_hqes w)\<rparr>)"
    unfolding rows [symmetric] by (simp add: andthen_def bnd_def hs(1) hs2(1))
  moreover have "host_ready (w\<lparr>db_hosts := hs2\<rparr>) h" if "host_ready (w\<lparr>db_hosts := hs\<rparr>) h" for h
    using hs2(2) that by (simp add: host_ready_def)
  ultimately show ?case using hs(3,4) hs2(3) by (intro exI [of _ hs2]) (auto simp: host_ready_def)
qed

definition sample_pending_world :: world where
  "sample_pending_world = sample_queued_world\<lparr>
     db_users := [\<lparr>u_id = 1, u_login = AUTOTEST_SYSTEM, u_access_level = ACCESS_ROOT, u_drone_set_id = None,
       u_reboot_before = RB_If_dirty, u_reboot_after = RA_Always\<rparr>],
     db_hosts := [(sample_host 3 ''host3'')\<lparr>h_status := Some HPending\<rparr>],
     db_hqes := [with_status Pending (sample_entry 5 7 (Some 3) Queued), sample_entry 6 7 None Aborted],
     mem_jobs := [7 \<mapsto> sample_job 7 2]\<rparr>"

lemma sample_pending_world_ok:
  "scheduler_user sample_pending_world" "sorted_ids sample_pending_world" "flags_ok sample_pending_world"
  "\<forall>q \<in> set (job_entries 7 sample_pending_world). has_its_host sample_pending_world q"
  by (simp_all add: scheduler_user_def sorted_ids_def flags_ok_def has_its_host_def job_entries_def
        sample_pending_world_def sample_queued_world_def sample_defs with_status_def status_sets)

lemma sorted_ids_distinct: "sorted_ids w \<Longrightarrow> distinct (db_hqes w)"
  by (simp add: sorted_ids_def strict_sorted_iff distinct_map)

text \<open>
  C14 (scheduler/scheduler_models.py, \<open>Job.stop_if_necessary\<close>). When a job has fewer entries that have
  not run than its synchronisation count, exactly its Queued and Pending entries become Stopped, with
  the flags of that status, and the host of every stopped Pending entry is made Ready; otherwise no
  entry changes.
\<close>

theorem stop_if_necessary_stops_queued_and_pending:
  assumes "scheduler_user w" and "sorted_ids w" and "flags_ok w" and "mem_jobs w i = Some j"
    and "\<forall>q \<in> set (job_entries i w). has_its_host w q"
  shows "\<exists>w'. stop_if_necessary i w = (Inr (), w') \<and>
     db_hqes w' = (if int (length (not_yet_run_entries i True w)) < j_synch_count j
       then map (\<lambda>q. if q_job_id q = i \<and> q_status q \<in> {Queued, Pending} then with_status Stopped q else q) (db_hqes w)
       else db_hqes w) \<and>
     (int (length (not_yet_run_entries i True w)) < j_synch_count j \<longrightarrow>
       (\<forall>q \<in> set (job_entries i w). q_status q = Pending \<longrightarrow> host_ready w' (the (q_host_id q))))"
proof (cases "int (length (not_yet_run_entries i True w)) < j_synch_count j")
  case False
  then show ?thesis using assms(4)
    by (simp add: stop_if_necessary_def get_job_def bnd_def gets_def some_or_def ret_def when_do_def)
next
  case True
  let ?qs = "not_yet_run_entries i False w"
  have qs: "set ?qs = {q \<in> set (db_hqes w). q_job_id q = i \<and> q_status q \<in> {Queued, Pending}}" "distinct ?qs"
    using sorted_ids_distinct [OF assms(2)] by (auto simp: not_yet_run_entries_def job_entries_def)
  have "\<not> q_complete q \<and> has_its_host w q" if "q \<in> set ?qs" for q
  proof -
    have "q \<in> set (job_entries i w)" "q \<in> set (db_hqes w)" "q_status q \<in> {Queued, Pending}"
      using that by (auto simp: not_yet_run_entries_def job_entries_def)
    with assms(3,5) show ?thesis by (auto simp: flags_ok_def status_sets)
  qed
  then obtain hs where hs: "for_each ?qs stop_entry w = (Inr (), w\<lparr>db_hosts := hs,
       db_hqes := map (\<lambda>x. if x \<in> set ?qs then with_status Stopped x else x) (db_hqes w)\<rparr>)"
     "\<forall>q \<in> set ?qs. q_status q = Pending \<longrightarrow> host_ready (w\<lparr>db_hosts := hs\<rparr>) (the (q_host_id q))"
    using stop_loop_run [OF assms(1,2) qs(2)] qs(1) by auto
  have "stop_if_necessary i w = (Inr (), w\<lparr>db_hosts := hs,
       db_hqes := map (\<lambda>x. if x \<in> set ?qs then with_status Stopped x else x) (db_hqes w)\<rparr>)"
    using True assms(4) hs(1)
    by (simp add: stop_if_necessary_def stop_all_entries_def get_job_def bnd_def gets_def some_or_def ret_def when_do_def)
  moreover have "map (\<lambda>x. if x \<in> set ?qs then with_status Stopped x else x) (db_hqes w) =
      map (\<lambda>q. if q_job_id q = i \<and> q_status q \<in> {Queued, Pending} then with_status Stopped q else q) (db_hqes w)"
    unfolding qs(1) by auto
  moreover have "host_ready (w\<lparr>db_hosts := hs, db_hqes := rows\<rparr>) h = host_ready (w\<lparr>db_hosts := hs\<rparr>) h" for rows h
    by (simp add: host_ready_def)
  ultimately show ?thesis using True hs(2) by (auto simp: not_yet_run_entries_def)
qed

theorem stop_if_necessary_stops_queued_and_pending_witness:
  "\<exists>w'. stop_if_necessary 7 sample_pending_world = (Inr (), w') \<and>
     db_hqes w' = [with_status Stopped (sample_entry 5 7 (Some 3) Queued), sample_entry 6 7 None Aborted] \<and>
     host_ready w' 3"
  using stop_if_necessary_stops_queued_and_pending [OF sample_pending_world_ok(1-3) _ sample_pending_world_ok(4),
      of "sample_job 7 2"]
  by (auto simp: sample_pending_world_def sample_queued_world_def not_yet_run_entries_def job_entries_def
        sample_defs with_status_def status_sets)

section \<open>The group of entries a job starts\<close>

text \<open>The job's object in memory and its row agree.\<close>

definition job_loaded :: "nat \<Rightarrow> job_row \<Rightarrow> world \<Rightarrow> bool" where
  "job_loaded i j w \<longleftrightarrow> mem_jobs w i = Some j \<and> find_row j_id i (db_jobs w) = Some j"

lemma load_job_keeps: "keeps (job_loaded i j) (load_job k)"
  by (rule keepsI) (auto simp: load_job_def job_loaded_def bnd_def gets_def some_or_def throw_def ret_def modify_def
      split: option.splits)

lemma job_loaded_keeps:
  "keeps (job_loaded i j) (get_entry r)" "keeps (job_loaded i j) (get_host h)" "keeps (job_loaded i j) (get_job k)"
  "keeps (job_loaded i j) (load_host h)" "keeps (job_loaded i j) (put_entry r e)"
  unfolding get_entry_def get_host_def get_job_def load_host_def put_entry_def
  by (intro keeps_intro; simp add: job_loaded_def set_entry_def)+

lemma construct_entry_keeps: "keeps (job_loaded i j) (construct_entry row)"
  unfolding construct_entry_def init_entry_def by (intro keeps_intro job_loaded_keeps load_job_keeps)

lemma sorted_pending_keeps: "keeps (job_loaded i j) (sorted_pending_entries k other)"
  unfolding sorted_pending_entries_def fetch_entries_def entry_with_hostname_def
  by (intro keeps_intro construct_entry_keeps job_loaded_keeps)

lemma construct_entries: "map_each rows construct_entry w = (Inr rs, w') \<Longrightarrow> rs = map (\<lambda>q. Entry (q_id q)) rows"
  by (induction rows arbitrary: w rs) (auto simp: bnd_Inr construct_entry_def andthen_Inr)

lemma named_entries: "map_each rs entry_with_hostname w = (Inr named, w') \<Longrightarrow> map fst named = rs"
  by (induction rs arbitrary: w named) (auto simp: bnd_Inr entry_with_hostname_def split: option.splits)

lemma sorted_pending_run:
  assumes "sorted_pending_entries i other w = (Inr rs, w')"
  shows "mset rs = mset (map (\<lambda>q. Entry (q_id q)) (where_hqe (\<lambda>q. q_job_id q = i \<and> q_status q = Pending \<and> q_id q \<noteq> other) w))"
proof -
  obtain pending w1 named w2 sorted where
    "map_each (where_hqe (\<lambda>q. q_job_id q = i \<and> q_status q = Pending \<and> q_id q \<noteq> other) w) construct_entry w = (Inr pending, w1)"
    "map_each pending entry_with_hostname w1 = (Inr named, w2)"
    "py_sort cmp_entries_by_hostname named = Inr sorted" "rs = map fst sorted"
    using assms by (auto simp: sorted_pending_entries_def fetch_entries_def bnd_Inr)
  note run = this
  have "mset rs = image_mset fst (mset sorted)" unfolding run(4) by simp
  also have "mset sorted = mset named" using run(3) by (rule py_sort_mset)
  also have "image_mset fst (mset named) = mset pending" using named_entries [OF run(2)] by (metis mset_map)
  finally show ?thesis unfolding construct_entries [OF run(1)] .
qed

definition pending_others :: "nat \<Rightarrow> nat \<Rightarrow> world \<Rightarrow> entry_ref set" where
  "pending_others i other w = (\<lambda>q. Entry (q_id q)) ` {q \<in> set (db_hqes w). q_job_id q = i \<and> q_status q = Pending \<and> q_id q \<noteq> other}"

text \<open>The chosen entries, before they get their directory.\<close>

definition chosen_entries :: "nat \<Rightarrow> entry_ref \<Rightarrow> nat \<Rightarrow> int \<Rightarrow> entry_ref list sched" where
  "chosen_entries i r other wanted =
     (if wanted > 0 then bnd (sorted_pending_entries i other) (\<lambda>ps. ret (r # take (nat wanted) ps)) else ret [r])"

lemma chosen_entries_run:
  assumes "chosen_entries i r other wanted w = (Inr chosen, w')" and "job_loaded i j w"
  shows "job_loaded i j w' \<and> (\<exists>ps. chosen = r # ps \<and> set ps \<subseteq> pending_others i other w \<and> int (length ps) \<le> max 0 wanted)"
proof (cases "wanted > 0")
  case False
  with assms show ?thesis by (auto simp: chosen_entries_def)
next
  case True
  then obtain ps where ps: "sorted_pending_entries i other w = (Inr ps, w')" "chosen = r # take (nat wanted) ps"
    using assms(1) by (auto simp: chosen_entries_def bnd_Inr)
  have "set ps = pending_others i other w"
    using mset_eq_setD [OF sorted_pending_run [OF ps(1)]] by (auto simp: where_hqe_def pending_others_def)
  moreover have "job_loaded i j w'" using keepsD [OF sorted_pending_keeps assms(2), of i other] ps(1) by simp
  ultimately show ?thesis using ps(2) set_take_subset [of "nat wanted" ps] True by auto
qed

text \<open>
  C18 (scheduler/scheduler_models.py, \<open>Job._choose_group_to_run\<close>). The group chosen for an entry is either empty or
  that entry followed by Pending entries of the same job other than it, at least as many as the
  synchronisation count; a job without an atomic group starts no more than the count, and an atomic group
  no more than its maximum number of machines.
\<close>

theorem chosen_group_size:
  assumes "choose_group_to_run i r w = (Inr chosen, w')" and "mem_hqes w r = Some e" and "job_loaded i j w"
  shows "chosen = [] \<or> (\<exists>ps. chosen = r # ps \<and> set ps \<subseteq> pending_others i (q_id (e_row e)) w \<and>
     j_synch_count j \<le> int (length chosen) \<and>
     int (length chosen) \<le> max 1 (case entry_atomic_group e w of
        Some a \<Rightarrow> ag_max_number_of_machines a | None \<Rightarrow> j_synch_count j))"
proof -
  let ?wanted = "num_entries_wanted j (entry_atomic_group e w)"
  have e: "get_entry r w = (Inr e, w)" using assms(2) by (simp add: get_entry_def ret_def)
  have j: "get_job i v = (Inr j, v)" if "job_loaded i j v" for v
    using that by (simp add: get_job_def job_loaded_def ret_def)
  let ?rest = "\<lambda>chosen. bnd (get_job i) (\<lambda>j. if int (length chosen) < j_synch_count j
       then andthen (enqueue_admin ''Job not started, too few chosen entries'') (ret [])
       else bnd (get_group_name r) (\<lambda>name. andthen (assign_new_group i chosen name) (ret chosen)))"
  have "choose_group_to_run i r w = bnd (chosen_entries i r (q_id (e_row e)) ?wanted) ?rest w"
    unfolding choose_group_to_run_def chosen_entries_def Let_def using e j [OF assms(3)]
    by (simp add: bnd_run)
  then obtain c w1 where c: "chosen_entries i r (q_id (e_row e)) ?wanted w = (Inr c, w1)" "?rest c w1 = (Inr chosen, w')"
    using iffD1 [OF bnd_Inr, of "chosen_entries i r (q_id (e_row e)) ?wanted" ?rest w chosen w'] assms(1) by auto
  then obtain ps where ps: "job_loaded i j w1" "c = r # ps" "set ps \<subseteq> pending_others i (q_id (e_row e)) w"
      "int (length ps) \<le> max 0 ?wanted"
    using chosen_entries_run [OF c(1) assms(3)] by blast
  have "chosen = [] \<or> chosen = c \<and> j_synch_count j \<le> int (length c)"
    using c(2) j [OF ps(1)] by (auto simp: bnd_run bnd_Inr andthen_Inr split: if_splits)
  moreover have "int (length c) \<le> max 1 (?wanted + 1)" using ps(2,4) by simp
  ultimately show ?thesis using ps(2,3) by (auto simp: num_entries_wanted_def split: option.splits)
qed

definition sample_sync_world :: world where
  "sample_sync_world = empty_world\<lparr>db_jobs := [sample_job 7 2], mem_jobs := [7 \<mapsto> sample_job 7 2],
     db_hosts := [sample_host 3 ''host3'', sample_host 4 ''host4''],
     mem_hosts := [3 \<mapsto> sample_host 3 ''host3'', 4 \<mapsto> sample_host 4 ''host4''],
     db_hqes := [sample_entry 5 7 (Some 3) Pending, sample_entry 6 7 (Some 4) Pending, sample_entry 8 7 (Some 3) Queued],
     mem_hqes := [Entry 5 \<mapsto> entry_object (sample_entry 5 7 (Some 3) Pending)]\<rparr>"

lemma sample_sync_run:
  "fst (choose_group_to_run 7 (Entry 5) sample_sync_world) = Inr [Entry 5, Entry 6]"
  by code_simp

theorem chosen_group_size_witness:
  "\<exists>w'. choose_group_to_run 7 (Entry 5) sample_sync_world = (Inr [Entry 5, Entry 6], w') \<and>
     Entry 6 \<in> pending_others 7 5 sample_sync_world"
proof -
  obtain w' where w': "choose_group_to_run 7 (Entry 5) sample_sync_world = (Inr [Entry 5, Entry 6], w')"
    using sample_sync_run by (metis eq_fst_iff)
  have "mem_hqes sample_sync_world (Entry 5) = Some (entry_object (sample_entry 5 7 (Some 3) Pending))"
      "job_loaded 7 (sample_job 7 2) sample_sync_world"
    by (simp_all add: sample_sync_world_def job_loaded_def sample_job_def)
  from chosen_group_size [OF w' this] w' show ?thesis
    by (auto simp: entry_object_def sample_entry_def)
qed

definition sample_atomic_world :: world where
  "sample_atomic_world = empty_world\<lparr>db_jobs := [sample_job 7 1], mem_jobs := [7 \<mapsto> sample_job 7 1],
     db_atomic_groups := [\<lparr>ag_id = 5, ag_name = ''rack'', ag_max_number_of_machines = 2, ag_invalid = False\<rparr>],
     db_hqes := [(sample_entry 5 7 (Some 3) Pending)\<lparr>q_atomic_group_id := Some 5\<rparr>,
       (sample_entry 6 7 (Some 4) Running)\<lparr>q_atomic_group_id := Some 5\<rparr>],
     mem_hqes := [Entry 5 \<mapsto> entry_object ((sample_entry 5 7 (Some 3) Pending)\<lparr>q_atomic_group_id := Some 5\<rparr>)]\<rparr>"

theorem atomic_job_not_started_twice_witness:
  "job_run 7 (Entry 5) sample_atomic_world = (Inr (), sample_atomic_world)"
  by (rule atomic_job_not_started_twice)
    (auto simp: sample_atomic_world_def entry_atomic_group_def atomic_and_has_started_def job_entries_def sample_defs)

end
