(* ===== verification/Host_Scheduler.thy ===== *)
theory Host_Scheduler
  imports Job_Flow
begin

text \<open>
  Which host runs which entry: scheduler/host_scheduler.py and scheduler/metahost_scheduler.py. At each
  tick \<open>refresh\<close> builds the structures of the record \<open>host_scheduler\<close> from the database; an entry is
  then matched with a host of \<open>hs_hosts_available\<close>, which leaves the available hosts when it is given
  out. The interface \<open>HostSchedulingUtility\<close> between the two modules is the locale
  \<open>scheduling_utility\<close>: the metahost scheduler is verified against its laws, and the host scheduler
  is proved to satisfy them.
\<close>

section \<open>Building the structures\<close>

definition everyone_acl :: "world \<Rightarrow> nat list" where
  "everyone_acl w = map fst (filter (\<lambda>g. str_lower (snd g) = ''everyone'') (db_acl_groups w))"

text \<open>\<open>BaseHostScheduler.__init__\<close>; site-specific metahost schedulers are not part of the repository.\<close>

definition host_scheduler_init :: "unit sched" where
  "host_scheduler_init = modify (\<lambda>w. w\<lparr>w_hs :=
     \<lparr>hs_everyone_acl = everyone_acl w, hs_hosts_available = [], hs_job_acls = [],
      hs_ineligible_hosts = [], hs_job_dependencies = [], hs_host_acls = [], hs_label_hosts = [],
      hs_host_labels = [], hs_labels = []\<rparr>\<rparr>)"

definition ready_host_rows :: "world \<Rightarrow> host_row list" where
  "ready_host_rows w = filter (\<lambda>h. \<not> list_ex (\<lambda>q. q_host_id q = Some (h_id h) \<and> q_active q) (db_hqes w) \<and>
     \<not> h_locked h \<and> (h_status h = None \<or> h_status h = Some HReady)) (db_hosts w)"

definition get_ready_hosts :: "nat list sched" where
  "get_ready_hosts = fetch_hosts ready_host_rows"

definition process_many2many_dict :: "(nat \<times> nat) list \<Rightarrow> bool \<Rightarrow> (nat \<times> nat list) list" where
  "process_many2many_dict rows flip =
     foldl dict_add [] (if flip then map (\<lambda>(l, r). (r, l)) rows else rows)"

definition get_many2many_dict :: "(nat \<times> nat) list \<Rightarrow> nat list \<Rightarrow> (nat \<times> nat list) list" where
  "get_many2many_dict table id_list =
     process_many2many_dict (filter (\<lambda>(l, r). l \<in> set id_list) table) False"

definition job_acl_rows :: "world \<Rightarrow> (nat \<times> nat) list" where
  "job_acl_rows w = concat (map (\<lambda>j. concat (map (\<lambda>u. if u_login u = j_owner j
       then map (\<lambda>(g, _). (j_id j, g)) (filter (\<lambda>(_, i). i = u_id u) (db_acl_users w)) else [])
     (db_users w))) (db_jobs w))"

definition get_job_acl_groups :: "nat list \<Rightarrow> world \<Rightarrow> (nat \<times> nat list) list" where
  "get_job_acl_groups job_ids w = get_many2many_dict (job_acl_rows w) job_ids"

definition get_job_ineligible_hosts :: "nat list \<Rightarrow> world \<Rightarrow> (nat \<times> nat list) list" where
  "get_job_ineligible_hosts job_ids w =
     get_many2many_dict (map (\<lambda>b. (b_job_id b, b_host_id b)) (db_blocks w)) job_ids"

definition get_job_dependencies :: "nat list \<Rightarrow> world \<Rightarrow> (nat \<times> nat list) list" where
  "get_job_dependencies job_ids w = get_many2many_dict (db_jobs_dependency_labels w) job_ids"

definition get_host_acls :: "nat list \<Rightarrow> world \<Rightarrow> (nat \<times> nat list) list" where
  "get_host_acls host_ids w = get_many2many_dict (map (\<lambda>(g, h). (h, g)) (db_acl_hosts w)) host_ids"

definition get_label_hosts ::
  "nat list \<Rightarrow> world \<Rightarrow> (nat \<times> nat list) list \<times> (nat \<times> nat list) list" where
  "get_label_hosts host_ids w =
     (let rows = map (\<lambda>(h, l). (l, h)) (filter (\<lambda>(h, l). h \<in> set host_ids) (db_hosts_labels w))
      in (process_many2many_dict rows False, process_many2many_dict rows True))"

definition hs_refresh :: "entry_ref list \<Rightarrow> unit sched" where
  "hs_refresh pending =
     bnd get_ready_hosts (\<lambda>available.
     bnd (map_each pending (\<lambda>r. bnd (get_entry r) (\<lambda>e. ret (q_job_id (e_row e))))) (\<lambda>jobs.
     modify (\<lambda>w. w\<lparr>w_hs := (w_hs w)\<lparr>
       hs_hosts_available := available,
       hs_job_acls := get_job_acl_groups jobs w,
       hs_ineligible_hosts := get_job_ineligible_hosts jobs w,
       hs_job_dependencies := get_job_dependencies jobs w,
       hs_host_acls := get_host_acls available w,
       hs_label_hosts := fst (get_label_hosts available w),
       hs_host_labels := snd (get_label_hosts available w),
       hs_labels := map (\<lambda>l. (l_id l, l)) (db_labels w)\<rparr>\<rparr>)))"

section \<open>The operations of HostSchedulingUtility\<close>

definition hosts_in_label :: "nat \<Rightarrow> world \<Rightarrow> nat list" where
  "hosts_in_label l w = dict_get (hs_label_hosts (w_hs w)) l"

definition remove_host_from_label :: "nat \<Rightarrow> nat \<Rightarrow> unit sched" where
  "remove_host_from_label h l =
     bnd (gets (\<lambda>w. map_of (hs_label_hosts (w_hs w)) l)) (\<lambda>r.
     bnd (some_or KeyError r) (\<lambda>hosts.
     if h \<notin> set hosts then throw KeyError
     else modify (\<lambda>w. w\<lparr>w_hs := (w_hs w)\<lparr>hs_label_hosts :=
            alist_put l (set_discard h hosts) (hs_label_hosts (w_hs w))\<rparr>\<rparr>)))"

definition remove_available :: "nat \<Rightarrow> world \<Rightarrow> world" where
  "remove_available h w = w\<lparr>w_hs := (w_hs w)\<lparr>hs_hosts_available := set_discard h (hs_hosts_available (w_hs w))\<rparr>\<rparr>"

definition pop_host :: "nat \<Rightarrow> nat sched" where
  "pop_host h =
     bnd (gets (\<lambda>w. h \<in> set (hs_hosts_available (w_hs w)))) (\<lambda>found.
     if found then andthen (modify (remove_available h)) (ret h) else throw KeyError)"

definition ineligible_hosts_for_entry :: "hqe_row \<Rightarrow> world \<Rightarrow> nat list" where
  "ineligible_hosts_for_entry q w = dict_get (hs_ineligible_hosts (w_hs w)) (q_job_id q)"

text \<open>The \<open>invalid\<close> attribute of an available host's object.\<close>

definition host_object_invalid :: "world \<Rightarrow> nat \<Rightarrow> bool" where
  "host_object_invalid w h = (case mem_hosts w h of None \<Rightarrow> False | Some r \<Rightarrow> h_invalid r)"

definition is_host_usable :: "nat \<Rightarrow> world \<Rightarrow> bool" where
  "is_host_usable h w \<longleftrightarrow> h \<in> set (hs_hosts_available (w_hs w)) \<and> \<not> host_object_invalid w h"

definition is_host_invalid :: "nat \<Rightarrow> world \<Rightarrow> bool" where
  "is_host_invalid h w \<longleftrightarrow> h \<in> set (hs_hosts_available (w_hs w)) \<and> host_object_invalid w h"

section \<open>Eligibility of a host for an entry\<close>

definition is_acl_accessible :: "host_scheduler \<Rightarrow> nat \<Rightarrow> hqe_row \<Rightarrow> bool" where
  "is_acl_accessible s h q \<longleftrightarrow>
     set (dict_get (hs_host_acls s) h) \<inter> set (dict_get (hs_job_acls s) (q_job_id q)) \<noteq> {}"

definition check_job_dependencies :: "nat list \<Rightarrow> nat list \<Rightarrow> bool" where
  "check_job_dependencies job_dependencies host_labels \<longleftrightarrow> set job_dependencies \<subseteq> set host_labels"

fun check_only_if_needed_loop ::
  "host_scheduler \<Rightarrow> nat list \<Rightarrow> hqe_row \<Rightarrow> nat list \<Rightarrow> exn + bool" where
  "check_only_if_needed_loop s deps q [] = Inr True"
| "check_only_if_needed_loop s deps q (l # ls) = (case map_of (hs_labels s) l of
       None \<Rightarrow> Inl KeyError
     | Some label \<Rightarrow>
         if \<not> l_only_if_needed label then check_only_if_needed_loop s deps q ls
         else if q_meta_host q = Some l then check_only_if_needed_loop s deps q ls
         else if l \<notin> set deps then Inr False
         else check_only_if_needed_loop s deps q ls)"

definition check_only_if_needed_labels ::
  "host_scheduler \<Rightarrow> nat list \<Rightarrow> nat list \<Rightarrow> hqe_row \<Rightarrow> exn + bool" where
  "check_only_if_needed_labels s job_dependencies host_labels q =
     (if q_meta_host q = None then Inr True
      else check_only_if_needed_loop s job_dependencies q host_labels)"

fun atomic_ids :: "host_scheduler \<Rightarrow> nat list \<Rightarrow> exn + nat list" where
  "atomic_ids s [] = Inr []"
| "atomic_ids s (l # ls) = (case map_of (hs_labels s) l of
       None \<Rightarrow> Inl KeyError
     | Some label \<Rightarrow> sbind (atomic_ids s ls) (\<lambda>ids. case l_atomic_group_id label of
         None \<Rightarrow> Inr ids | Some a \<Rightarrow> Inr (a # ids)))"

text \<open>
  \<open>_get_host_atomic_group_id\<close>: with labels of several groups the code logs an error and answers an
  arbitrary one of them; the model answers the first.
\<close>

definition get_host_atomic_group_id :: "host_scheduler \<Rightarrow> nat list \<Rightarrow> exn + nat option" where
  "get_host_atomic_group_id s host_labels =
     sbind (atomic_ids s host_labels) (\<lambda>ids. case ids of [] \<Rightarrow> Inr None | a # _ \<Rightarrow> Inr (Some a))"

definition check_atomic_group_labels :: "host_scheduler \<Rightarrow> nat list \<Rightarrow> hqe_row \<Rightarrow> exn + bool" where
  "check_atomic_group_labels s host_labels q =
     sbind (get_host_atomic_group_id s host_labels) (\<lambda>a. Inr (a = q_atomic_group_id q))"

definition check_no_acl_for_metahost :: "host_scheduler \<Rightarrow> nat \<Rightarrow> hqe_row \<Rightarrow> bool" where
  "check_no_acl_for_metahost s h q \<longleftrightarrow>
     q_meta_host q = None \<or> set (dict_get (hs_host_acls s) h) = set (hs_everyone_acl s)"

text \<open>Python's \<open>and\<close> on tests that may raise.\<close>

definition sand :: "exn + bool \<Rightarrow> exn + bool \<Rightarrow> exn + bool" where
  "sand a b = sbind a (\<lambda>x. if x then b else Inr False)"

definition is_host_eligible_for_job :: "nat \<Rightarrow> hqe_row \<Rightarrow> world \<Rightarrow> exn + bool" where
  "is_host_eligible_for_job h q w =
     (if is_host_invalid h w then Inr True
      else let s = w_hs w;
               job_dependencies = dict_get (hs_job_dependencies s) (q_job_id q);
               host_labels = dict_get (hs_host_labels s) h
           in sand (Inr (is_acl_accessible s h q)) (
              sand (Inr (check_job_dependencies job_dependencies host_labels)) (
              sand (check_only_if_needed_labels s job_dependencies host_labels q) (
              sand (check_atomic_group_labels s host_labels q)
                (Inr (check_no_acl_for_metahost s h q))))))"

section \<open>Scheduling an entry\<close>

definition schedule_non_metahost :: "hqe_row \<Rightarrow> nat \<Rightarrow> nat option sched" where
  "schedule_non_metahost q h =
     bnd (gets (is_host_eligible_for_job h q)) (\<lambda>r.
     bnd (lift_sum r) (\<lambda>eligible.
     if \<not> eligible then ret None else
     bnd (gets (\<lambda>w. h \<in> set (hs_hosts_available (w_hs w)))) (\<lambda>found.
     if found then andthen (modify (remove_available h)) (ret (Some h)) else ret None)))"

text \<open>
  \<open>LabelMetahostScheduler.schedule_metahost\<close>: the loop over the hosts of the label, on the operations of
  the utility object it is given, answering the host it popped.
\<close>

primrec metahost_loop ::
  "('h \<Rightarrow> 's \<Rightarrow> bool) \<Rightarrow> ('h \<Rightarrow> ('s, bool) exm) \<Rightarrow> ('h \<Rightarrow> ('s, unit) exm) \<Rightarrow> ('h \<Rightarrow> ('s, 'h) exm)
   \<Rightarrow> 'h list \<Rightarrow> 'h list \<Rightarrow> ('s, 'h option) exm" where
  "metahost_loop usable eligible remove pop ineligible [] = ret None"
| "metahost_loop usable eligible remove pop ineligible (h # hs) =
     bnd (gets (usable h)) (\<lambda>u.
     if \<not> u then andthen (remove h) (metahost_loop usable eligible remove pop ineligible hs)
     else if h \<in> set ineligible then metahost_loop usable eligible remove pop ineligible hs
     else bnd (eligible h) (\<lambda>ok.
       if \<not> ok then metahost_loop usable eligible remove pop ineligible hs
       else andthen (remove h) (bnd (pop h) (\<lambda>host. ret (Some host)))))"

definition eligible_op :: "hqe_row \<Rightarrow> nat \<Rightarrow> bool sched" where
  "eligible_op q h = bnd (gets (is_host_eligible_for_job h q)) lift_sum"

definition choose_metahost :: "hqe_row \<Rightarrow> nat \<Rightarrow> nat option sched" where
  "choose_metahost q l =
     bnd (gets (hosts_in_label l)) (\<lambda>hosts.
     bnd (gets (ineligible_hosts_for_entry q)) (\<lambda>ineligible.
     metahost_loop is_host_usable (eligible_op q) (\<lambda>h. remove_host_from_label h l) pop_host ineligible hosts))"

definition schedule_metahost :: "entry_ref \<Rightarrow> nat \<Rightarrow> unit sched" where
  "schedule_metahost r l =
     bnd (get_entry r) (\<lambda>e.
     bnd (choose_metahost (e_row e) l) (\<lambda>chosen. case chosen of
       None \<Rightarrow> ret ()
     | Some h \<Rightarrow> entry_set_host r (Some h)))"

definition schedule_entry :: "entry_ref \<Rightarrow> nat option sched" where
  "schedule_entry r =
     bnd (get_entry r) (\<lambda>e. case q_host_id (e_row e) of
       Some h \<Rightarrow> schedule_non_metahost (e_row e) h
     | None \<Rightarrow> (case q_meta_host (e_row e) of
         Some l \<Rightarrow> andthen (schedule_metahost r l) (ret None)
       | None \<Rightarrow> throw SchedulerError))"

section \<open>Atomic groups\<close>

definition get_atomic_group_labels :: "nat \<Rightarrow> world \<Rightarrow> nat list" where
  "get_atomic_group_labels a w =
     map fst (filter (\<lambda>(i, l). l_atomic_group_id l = Some a \<and> \<not> l_invalid l) (hs_labels (w_hs w)))"

definition get_eligible_host_ids_in_group :: "nat list \<Rightarrow> hqe_row \<Rightarrow> nat list sched" where
  "get_eligible_host_ids_in_group group_hosts q =
     bnd (map_each group_hosts (\<lambda>h. bnd (gets (is_host_usable h)) (\<lambda>u.
        if \<not> u then ret (h, False) else bnd (eligible_op q h) (\<lambda>ok. ret (h, ok))))) (\<lambda>marked.
     ret (map fst (filter snd marked)))"

definition group_hosts_of_label :: "hqe_row \<Rightarrow> nat \<Rightarrow> world \<Rightarrow> nat list" where
  "group_hosts_of_label q l w =
     filter (\<lambda>h. (case q_meta_host q of None \<Rightarrow> True | Some m \<Rightarrow> h \<in> set (hosts_in_label m w)) \<and>
                 h \<notin> set (ineligible_hosts_for_entry q w)) (hosts_in_label l w)"

definition sort_hosts :: "nat list \<Rightarrow> nat list sched" where
  "sort_hosts ids =
     bnd (map_each ids (\<lambda>h. bnd (get_host h) (\<lambda>r. ret (h, h_hostname r)))) (\<lambda>named.
     bnd (lift_sum (py_sort (\<lambda>a b. cmp_for_sort (snd a) (snd b)) named)) (\<lambda>sorted. ret (map fst sorted)))"

definition take_hosts :: "nat list \<Rightarrow> nat list sched" where
  "take_hosts hosts = map_each hosts pop_host"

primrec find_group_loop :: "hqe_row \<Rightarrow> int \<Rightarrow> int \<Rightarrow> nat list \<Rightarrow> nat list sched" where
  "find_group_loop q min_hosts max_hosts [] = ret []"
| "find_group_loop q min_hosts max_hosts (l # ls) =
     bnd (gets (group_hosts_of_label q l)) (\<lambda>group_hosts.
     bnd (get_eligible_host_ids_in_group group_hosts q) (\<lambda>ids.
     if int (length ids) < min_hosts then find_group_loop q min_hosts max_hosts ls
     else bnd (sort_hosts ids) (\<lambda>sorted.
       take_hosts (if int (length sorted) > max_hosts then take (nat max_hosts) sorted else sorted))))"

definition find_eligible_atomic_group :: "entry_ref \<Rightarrow> nat list sched" where
  "find_eligible_atomic_group r =
     bnd (get_entry r) (\<lambda>e.
     andthen (assert_that (q_atomic_group_id (e_row e) \<noteq> None)) (
     bnd (get_job (q_job_id (e_row e))) (\<lambda>j.
     andthen (assert_that (j_synch_count j > 0)) (
     bnd (gets (entry_atomic_group e)) (\<lambda>g.
     bnd (some_or AttributeError g) (\<lambda>ag.
     if j_synch_count j > ag_max_number_of_machines ag
     then andthen (entry_set_status r Aborted) (ret [])
     else bnd (gets (get_atomic_group_labels (ag_id ag))) (\<lambda>labels.
       find_group_loop (e_row e) (j_synch_count j) (ag_max_number_of_machines ag) labels)))))))"

section \<open>The contract of HostSchedulingUtility\<close>

text \<open>
  What \<open>LabelMetahostScheduler\<close> may rely on. \<open>available\<close> are the hosts that can still be given out,
  \<open>members\<close> the hosts of the label. Taking a host out of the label changes neither what is usable nor
  who is eligible; a check changes nothing; \<open>pop\<close> takes exactly its host from the available ones.
\<close>

locale scheduling_utility =
  fixes usable :: "'h \<Rightarrow> 's \<Rightarrow> bool"
    and eligible :: "'h \<Rightarrow> ('s, bool) exm"
    and remove :: "'h \<Rightarrow> ('s, unit) exm"
    and pop :: "'h \<Rightarrow> ('s, 'h) exm"
    and available :: "'s \<Rightarrow> 'h set"
    and members :: "'s \<Rightarrow> 'h set"
  assumes usable_available: "usable h s \<Longrightarrow> h \<in> available s"
    and eligible_pure: "eligible h s = (fst (eligible h s), s)"
    and remove_member: "h \<in> members s \<Longrightarrow> \<exists>t. remove h s = (Inr (), t) \<and> available t = available s \<and>
          members t = members s - {h} \<and> (\<forall>k. usable k t = usable k s) \<and>
          (\<forall>k. fst (eligible k t) = fst (eligible k s))"
    and pop_available: "h \<in> available s \<Longrightarrow> \<exists>t. pop h s = (Inr h, t) \<and> available t = available s - {h} \<and>
          members t = members s"
    and remove_keeps: "available (snd (remove h s)) = available s"
    and pop_result: "pop h s = (Inr k, t) \<Longrightarrow> k = h \<and> h \<in> available s \<and> available t = available s - {h}"
    and pop_shrinks: "available (snd (pop h s)) \<subseteq> available s"
begin

definition acceptable :: "'h list \<Rightarrow> 's \<Rightarrow> 'h \<Rightarrow> bool" where
  "acceptable ineligible s h \<longleftrightarrow> usable h s \<and> h \<notin> set ineligible \<and> fst (eligible h s) = Inr True"

lemma loop_unusable:
  assumes "\<not> usable h s" and "remove h s = (Inr (), t)"
  shows "metahost_loop usable eligible remove pop ineligible (h # hs) s =
    metahost_loop usable eligible remove pop ineligible hs t"
  using assms by (simp add: andthen_def bnd_def gets_def)

lemma loop_skip:
  assumes "usable h s" and "h \<in> set ineligible \<or> fst (eligible h s) = Inr False"
  shows "metahost_loop usable eligible remove pop ineligible (h # hs) s =
    metahost_loop usable eligible remove pop ineligible hs s"
proof (cases "h \<in> set ineligible")
  case False
  with assms have "eligible h s = (Inr False, s)" using eligible_pure [of h s] by simp
  with assms(1) False show ?thesis by (simp add: bnd_def gets_def)
qed (use assms(1) in simp)

lemma loop_take:
  assumes "acceptable ineligible s h" and "remove h s = (Inr (), t)" and "pop h t = (Inr h, u)"
  shows "metahost_loop usable eligible remove pop ineligible (h # hs) s = (Inr (Some h), u)"
proof -
  have "eligible h s = (Inr True, s)" using assms(1) eligible_pure [of h s] by (simp add: acceptable_def)
  with assms show ?thesis by (simp add: acceptable_def andthen_def bnd_def gets_def ret_def)
qed

text \<open>A host given out was available and no longer is; nothing becomes available.\<close>

lemma loop_gives:
  "metahost_loop usable eligible remove pop ineligible hs s = (r, t) \<Longrightarrow>
    available t \<subseteq> available s \<and>
    (\<forall>h. r = Inr (Some h) \<longrightarrow> h \<in> available s \<and> h \<notin> available t)"
proof (induction hs arbitrary: s)
  case Nil
  then show ?case by (auto simp: ret_def)
next
  case (Cons h hs)
  obtain r1 s1 where rem: "remove h s = (r1, s1)" by force
  have s1: "available s1 = available s" using remove_keeps [of h s] rem by simp
  obtain r2 s2 where pop: "pop h s1 = (r2, s2)" by force
  have el: "eligible h s = (fst (eligible h s), s)" by (rule eligible_pure)
  consider (skip) "metahost_loop usable eligible remove pop ineligible (h # hs) s =
        metahost_loop usable eligible remove pop ineligible hs s"
    | (drop) "metahost_loop usable eligible remove pop ineligible (h # hs) s =
        metahost_loop usable eligible remove pop ineligible hs s1"
    | (fail) e where "metahost_loop usable eligible remove pop ineligible (h # hs) s = (Inl e, s)"
    | (fail1) e where "metahost_loop usable eligible remove pop ineligible (h # hs) s = (Inl e, s1)"
    | (fail2) e where "metahost_loop usable eligible remove pop ineligible (h # hs) s = (Inl e, s2)"
    | (take) k where "r2 = Inr k" "metahost_loop usable eligible remove pop ineligible (h # hs) s = (Inr (Some k), s2)"
  proof (cases "fst (eligible h s)")
    case (Inl e)
    with el have "eligible h s = (Inl e, s)" by simp
    then show ?thesis using that rem
      by (cases r1; cases "usable h s"; cases "h \<in> set ineligible") (simp_all add: andthen_def bnd_def gets_def ret_def)
  next
    case (Inr b)
    with el have "eligible h s = (Inr b, s)" by simp
    then show ?thesis using that rem pop
      by (cases r1; cases r2; cases "usable h s"; cases "h \<in> set ineligible"; cases b)
        (simp_all add: andthen_def bnd_def gets_def ret_def)
  qed
  then show ?case
  proof cases
    case fail2
    then show ?thesis using Cons.prems pop_shrinks [of h s1] pop s1 by auto
  next
    case take
    then show ?thesis using Cons.prems pop_result [of h s1 k s2] pop s1 by auto
  qed (use Cons s1 in auto)
qed

text \<open>The loop gives out the first acceptable host, and no other.\<close>

theorem loop_first_fit:
  assumes "distinct hs" and "set hs \<subseteq> members s" and "\<And>h. h \<in> set hs \<Longrightarrow> \<exists>b. fst (eligible h s) = Inr b"
  shows "\<exists>t. metahost_loop usable eligible remove pop ineligible hs s =
      (Inr (List.find (acceptable ineligible s) hs), t) \<and>
    available t = available s - set_option (List.find (acceptable ineligible s) hs) \<and>
    members t \<subseteq> members s - set_option (List.find (acceptable ineligible s) hs)"
  using assms
proof (induction hs arbitrary: s)
  case Nil
  then show ?case by (simp add: ret_def)
next
  case (Cons h hs)
  have mem: "h \<in> members s" "h \<notin> set hs" "distinct hs" "set hs \<subseteq> members s" using Cons.prems(1,2) by auto
  obtain t where t: "remove h s = (Inr (), t)" "available t = available s" "members t = members s - {h}"
      "\<forall>k. usable k t = usable k s" "\<forall>k. fst (eligible k t) = fst (eligible k s)"
    using remove_member [OF mem(1)] by blast
  show ?case
  proof (cases "acceptable ineligible s h")
    case True
    then have "h \<in> available t" using usable_available [of h s] t(2) by (simp add: acceptable_def)
    then obtain u where u: "pop h t = (Inr h, u)" "available u = available t - {h}" "members u = members t"
      using pop_available by blast
    show ?thesis using loop_take [OF True t(1) u(1)] u(2,3) t(2,3) True by auto
  next
    case False
    show ?thesis
    proof (cases "usable h s")
      case False
      have acc: "acceptable ineligible t = acceptable ineligible s"
        using t(4,5) by (simp add: acceptable_def fun_eq_iff)
      have "set hs \<subseteq> members t" using mem(2,4) t(3) by blast
      with Cons.IH [OF mem(3), of t] Cons.prems(3) t(5)
      obtain u where "metahost_loop usable eligible remove pop ineligible hs t =
          (Inr (List.find (acceptable ineligible s) hs), u)"
        "available u = available t - set_option (List.find (acceptable ineligible s) hs)"
        "members u \<subseteq> members t - set_option (List.find (acceptable ineligible s) hs)"
        unfolding acc by auto
      moreover have "List.find (acceptable ineligible s) (h # hs) = List.find (acceptable ineligible s) hs"
        using False by (simp add: acceptable_def)
      ultimately show ?thesis using loop_unusable [OF False t(1)] t(2,3) by auto
    next
      case True
      then have "h \<in> set ineligible \<or> fst (eligible h s) = Inr False"
        using False Cons.prems(3) [of h] by (auto simp: acceptable_def)
      with Cons.IH [OF mem(3,4)] Cons.prems(3) loop_skip [OF True] False show ?thesis by simp
    qed
  qed
qed

end

section \<open>The host scheduler meets the contract\<close>

abbreviation available_hosts :: "world \<Rightarrow> nat set" where
  "available_hosts w \<equiv> set (hs_hosts_available (w_hs w))"

lemma eligible_op_pure: "eligible_op q h w = (is_host_eligible_for_job h q w, w)"
  by (simp add: eligible_op_def lift_sum_def)

lemma only_if_needed_fields [simp]:
  "check_only_if_needed_loop (s\<lparr>hs_label_hosts := x\<rparr>) deps q ls = check_only_if_needed_loop s deps q ls"
  "check_only_if_needed_loop (s\<lparr>hs_hosts_available := y\<rparr>) deps q ls = check_only_if_needed_loop s deps q ls"
  by (induction ls) (simp_all split: option.split)

lemma atomic_ids_fields [simp]:
  "atomic_ids (s\<lparr>hs_label_hosts := x\<rparr>) ls = atomic_ids s ls"
  "atomic_ids (s\<lparr>hs_hosts_available := y\<rparr>) ls = atomic_ids s ls"
  by (induction ls) (simp_all split: option.split)

lemmas eligibility_defs = is_acl_accessible_def check_only_if_needed_labels_def
  check_atomic_group_labels_def get_host_atomic_group_id_def check_no_acl_for_metahost_def

lemma eligible_label_hosts [simp]:
  "is_host_eligible_for_job h q (w\<lparr>w_hs := (w_hs w)\<lparr>hs_label_hosts := x\<rparr>\<rparr>) = is_host_eligible_for_job h q w"
  by (simp add: is_host_eligible_for_job_def is_host_invalid_def host_object_invalid_def Let_def
      eligibility_defs)

lemma label_removal:
  assumes "h \<in> set (hosts_in_label l w)"
  shows "\<exists>hosts. map_of (hs_label_hosts (w_hs w)) l = Some hosts \<and> h \<in> set hosts"
  using assms by (cases "map_of (hs_label_hosts (w_hs w)) l") (simp_all add: hosts_in_label_def dict_get_def)

interpretation label_metahost: scheduling_utility is_host_usable "eligible_op q"
  "\<lambda>h. remove_host_from_label h l" pop_host available_hosts "\<lambda>w. set (hosts_in_label l w)" for q l
proof unfold_locales
  fix h w
  assume "h \<in> set (hosts_in_label l w)"
  then obtain hosts where hosts: "map_of (hs_label_hosts (w_hs w)) l = Some hosts" "h \<in> set hosts"
    using label_removal by blast
  let ?t = "w\<lparr>w_hs := (w_hs w)\<lparr>hs_label_hosts := alist_put l (set_discard h hosts) (hs_label_hosts (w_hs w))\<rparr>\<rparr>"
  have "remove_host_from_label h l w = (Inr (), ?t)"
    using hosts by (simp add: remove_host_from_label_def modify_def)
  moreover have "set (hosts_in_label l ?t) = set (hosts_in_label l w) - {h}"
    using hosts by (simp add: hosts_in_label_def dict_get_def)
  ultimately show "\<exists>t. remove_host_from_label h l w = (Inr (), t) \<and> available_hosts t = available_hosts w \<and>
      set (hosts_in_label l t) = set (hosts_in_label l w) - {h} \<and>
      (\<forall>k. is_host_usable k t = is_host_usable k w) \<and>
      (\<forall>k. fst (eligible_op q k t) = fst (eligible_op q k w))"
    by (simp add: is_host_usable_def host_object_invalid_def eligible_op_pure)
qed (auto simp: is_host_usable_def eligible_op_pure pop_host_def andthen_def bnd_def gets_def modify_def ret_def
  throw_def some_or_def remove_available_def hosts_in_label_def remove_host_from_label_def
  split: option.splits if_splits)

lemma acceptable_simp: "label_metahost.acceptable q ineligible w h \<longleftrightarrow>
    is_host_usable h w \<and> h \<notin> set ineligible \<and> is_host_eligible_for_job h q w = Inr True"
  by (simp add: label_metahost.acceptable_def eligible_op_pure)

text \<open>
  C15 (scheduler/metahost_scheduler.py, \<open>LabelMetahostScheduler.schedule_metahost\<close>). The metahost
  scheduler gives a metahost entry the first host of its label that is usable, not blocked for the job
  and eligible, takes exactly that host from the available ones and out of the label, and gives no host
  when there is none such.
\<close>

theorem choose_metahost_first_fit:
  assumes "distinct (hosts_in_label l w)"
    and "\<forall>h \<in> set (hosts_in_label l w). \<exists>b. is_host_eligible_for_job h q w = Inr b"
  shows "\<exists>w' c. choose_metahost q l w = (Inr c, w') \<and>
     c = List.find (\<lambda>h. is_host_usable h w \<and> h \<notin> set (ineligible_hosts_for_entry q w) \<and>
       is_host_eligible_for_job h q w = Inr True) (hosts_in_label l w) \<and>
     available_hosts w' = available_hosts w - set_option c \<and>
     set (hosts_in_label l w') \<inter> set_option c = {}"
proof -
  have "\<exists>b. fst (eligible_op q h w) = Inr b" if "h \<in> set (hosts_in_label l w)" for h
    using assms(2) that by (simp add: eligible_op_pure)
  then show ?thesis
    using label_metahost.loop_first_fit [OF assms(1) order_refl, of q "ineligible_hosts_for_entry q w"]
    by (auto simp: choose_metahost_def acceptable_simp [abs_def])
qed

section \<open>Eligibility\<close>

text \<open>
  What makes a host right for an entry: an access list shared with the job's owner, every dependency of
  the job among its labels, for a metahost entry no label that must be asked for and was not, the atomic
  group of the entry, and for a metahost entry no access list but Everyone.
\<close>

definition host_suits :: "nat \<Rightarrow> hqe_row \<Rightarrow> world \<Rightarrow> bool" where
  "host_suits h q w \<longleftrightarrow>
     (let s = w_hs w; labels = set (dict_get (hs_host_labels s) h);
          deps = set (dict_get (hs_job_dependencies s) (q_job_id q)) in
      (\<exists>g \<in> set (dict_get (hs_host_acls s) h). g \<in> set (dict_get (hs_job_acls s) (q_job_id q))) \<and>
      deps \<subseteq> labels \<and>
      (q_meta_host q \<noteq> None \<longrightarrow>
        (\<forall>l \<in> labels. l_only_if_needed (the (map_of (hs_labels s) l)) \<longrightarrow> q_meta_host q = Some l \<or> l \<in> deps)) \<and>
      {a. \<exists>l \<in> labels. l_atomic_group_id (the (map_of (hs_labels s) l)) = Some a} = set_option (q_atomic_group_id q) \<and>
      (q_meta_host q \<noteq> None \<longrightarrow> set (dict_get (hs_host_acls s) h) = set (hs_everyone_acl s)))"

definition labels_known :: "nat \<Rightarrow> world \<Rightarrow> bool" where
  "labels_known h w \<longleftrightarrow> (\<forall>l \<in> set (dict_get (hs_host_labels (w_hs w)) h). map_of (hs_labels (w_hs w)) l \<noteq> None)"

definition one_atomic_group :: "nat \<Rightarrow> world \<Rightarrow> bool" where
  "one_atomic_group h w \<longleftrightarrow> (\<exists>a. \<forall>l \<in> set (dict_get (hs_host_labels (w_hs w)) h).
     l_atomic_group_id (the (map_of (hs_labels (w_hs w)) l)) \<in> {None, a})"

lemma only_if_needed_known:
  assumes "\<forall>l \<in> set ls. map_of (hs_labels s) l \<noteq> None"
  shows "check_only_if_needed_loop s deps q ls = Inr (\<forall>l \<in> set ls.
     l_only_if_needed (the (map_of (hs_labels s) l)) \<longrightarrow> q_meta_host q = Some l \<or> l \<in> set deps)"
  using assms by (induction ls) auto

lemma atomic_ids_known:
  assumes "\<forall>l \<in> set ls. map_of (hs_labels s) l \<noteq> None"
  shows "\<exists>ids. atomic_ids s ls = Inr ids \<and>
    set ids = {a. \<exists>l \<in> set ls. l_atomic_group_id (the (map_of (hs_labels s) l)) = Some a}"
  using assms
proof (induction ls)
  case (Cons l ls)
  then obtain ids where "atomic_ids s ls = Inr ids"
    "set ids = {a. \<exists>l \<in> set ls. l_atomic_group_id (the (map_of (hs_labels s) l)) = Some a}" by auto
  then show ?case using Cons.prems by (cases "l_atomic_group_id (the (map_of (hs_labels s) l))") auto
qed simp

lemma host_group_known:
  assumes "labels_known h w" and "one_atomic_group h w"
  shows "check_atomic_group_labels (w_hs w) (dict_get (hs_host_labels (w_hs w)) h) q = Inr
    ({a. \<exists>l \<in> set (dict_get (hs_host_labels (w_hs w)) h).
        l_atomic_group_id (the (map_of (hs_labels (w_hs w)) l)) = Some a} = set_option (q_atomic_group_id q))"
    (is "_ = Inr (?G = _)")
proof -
  obtain ids where ids: "atomic_ids (w_hs w) (dict_get (hs_host_labels (w_hs w)) h) = Inr ids" "set ids = ?G"
    using atomic_ids_known assms(1) unfolding labels_known_def by blast
  obtain a where "?G \<subseteq> set_option a" using assms(2) unfolding one_atomic_group_def by fastforce
  with ids(2) have sub: "set ids \<subseteq> set_option a" by simp
  show ?thesis
  proof (cases ids)
    case Nil
    then show ?thesis using ids by (cases "q_atomic_group_id q") (auto simp: eligibility_defs)
  next
    case (Cons x xs)
    then have "set ids = {x}" using sub by (cases a) auto
    with ids(2) have G: "?G = {x}" by simp
    have "check_atomic_group_labels (w_hs w) (dict_get (hs_host_labels (w_hs w)) h) q = Inr (Some x = q_atomic_group_id q)"
      using ids(1) Cons by (simp add: check_atomic_group_labels_def get_host_atomic_group_id_def)
    then show ?thesis unfolding G by (cases "q_atomic_group_id q") auto
  qed
qed

lemma sand_Inr [simp]: "sand (Inr a) (Inr b) = Inr (a \<and> b)"
  by (simp add: sand_def)

text \<open>
  C16 (scheduler/host_scheduler.py, \<open>_is_host_eligible_for_job\<close>). For a host whose labels are loaded and
  belong to one atomic group at most, the chain of checks answers exactly the conditions above; a one-time
  host is eligible without them.
\<close>

theorem eligible_iff_suits:
  assumes "labels_known h w" and "one_atomic_group h w"
  shows "is_host_eligible_for_job h q w = Inr (is_host_invalid h w \<or> host_suits h q w)"
proof -
  have "check_only_if_needed_labels (w_hs w) (dict_get (hs_job_dependencies (w_hs w)) (q_job_id q))
      (dict_get (hs_host_labels (w_hs w)) h) q = Inr (q_meta_host q \<noteq> None \<longrightarrow>
        (\<forall>l \<in> set (dict_get (hs_host_labels (w_hs w)) h). l_only_if_needed (the (map_of (hs_labels (w_hs w)) l)) \<longrightarrow>
          q_meta_host q = Some l \<or> l \<in> set (dict_get (hs_job_dependencies (w_hs w)) (q_job_id q))))"
    using assms(1) by (simp add: check_only_if_needed_labels_def only_if_needed_known labels_known_def)
  then show ?thesis
    using host_group_known [OF assms, of q]
    by (auto simp: is_host_eligible_for_job_def Let_def host_suits_def is_acl_accessible_def
        check_job_dependencies_def check_no_acl_for_metahost_def)
qed

section \<open>Groups of hosts\<close>

lemma take_hosts_run:
  "take_hosts hs w = (Inr ys, w') \<Longrightarrow>
    ys = hs \<and> distinct hs \<and> set hs \<subseteq> available_hosts w \<and> available_hosts w' = available_hosts w - set hs"
proof (induction hs arbitrary: w ys)
  case Nil
  then show ?case by (simp add: take_hosts_def)
next
  case (Cons h hs)
  then obtain w1 zs where step: "pop_host h w = (Inr h, w1)" "take_hosts hs w1 = (Inr zs, w')" "ys = h # zs"
    by (auto simp: take_hosts_def bnd_Inr pop_host_def andthen_Inr split: if_splits)
  then have "h \<in> available_hosts w \<and> available_hosts w1 = available_hosts w - {h}"
    using label_metahost.pop_result [of h w h w1] by blast
  with Cons.IH [OF step(2)] step(3) show ?case by auto
qed

lemma take_hosts_shrinks: "available_hosts (snd (take_hosts hs w)) \<subseteq> available_hosts w"
proof -
  have "keeps (\<lambda>v. available_hosts v \<subseteq> available_hosts w) (take_hosts hs)"
    unfolding take_hosts_def
    by (rule keeps_map_each, rule keepsI) (use label_metahost.pop_shrinks in blast)
  then show ?thesis by (rule keepsD) simp
qed

lemma get_host_pure: "keeps ((=) w) (get_host i)"
  unfolding get_host_def by (intro keeps_intro)

lemma sort_hosts_pure: "keeps ((=) w) (sort_hosts ids)"
  unfolding sort_hosts_def by (intro keeps_intro get_host_pure)

lemma eligible_op_keeps: "keeps ((=) w) (eligible_op q h)"
  unfolding eligible_op_def by (intro keeps_intro)

lemma eligible_ids_pure: "keeps ((=) w) (get_eligible_host_ids_in_group hs q)"
  unfolding get_eligible_host_ids_in_group_def by (intro keeps_intro eligible_op_keeps)

lemma marked_hosts:
  "map_each hs (\<lambda>h. bnd (gets (is_host_usable h)) (\<lambda>u.
      if \<not> u then ret (h, False) else bnd (eligible_op q h) (\<lambda>ok. ret (h, ok)))) w = (Inr marked, w') \<Longrightarrow>
   marked = map (\<lambda>h. (h, is_host_usable h w \<and> is_host_eligible_for_job h q w = Inr True)) hs"
  by (induction hs arbitrary: w marked)
    (auto simp: bnd_Inr eligible_op_pure split: if_splits)

lemma eligible_ids_run:
  assumes "get_eligible_host_ids_in_group hs q w = (Inr ids, w')"
  shows "w' = w \<and> ids = filter (\<lambda>h. is_host_usable h w \<and> is_host_eligible_for_job h q w = Inr True) hs"
proof -
  have "w' = w" using keepsD [OF eligible_ids_pure [of w hs q], of w] assms by simp
  moreover have "map fst (filter snd (map (\<lambda>h. (h, P h)) hs)) = filter P hs" for P :: "nat \<Rightarrow> bool"
    by (induction hs) auto
  ultimately show ?thesis
    using assms by (auto simp: get_eligible_host_ids_in_group_def bnd_Inr dest!: marked_hosts)
qed

lemma map_each_named:
  "map_each ids (\<lambda>h. bnd (get_host h) (\<lambda>r. ret (h, h_hostname r))) w = (Inr named, w') \<Longrightarrow> map fst named = ids"
  by (induction ids arbitrary: w named) (auto simp: bnd_Inr)

lemma sort_hosts_run:
  assumes "sort_hosts ids w = (Inr ys, w')"
  shows "w' = w \<and> mset ys = mset ids"
proof -
  have "w' = w" using keepsD [OF sort_hosts_pure [of w ids], of w] assms by simp
  moreover obtain named sorted where "map fst named = ids" "py_sort (\<lambda>a b. cmp_for_sort (snd a) (snd b)) named = Inr sorted"
      "ys = map fst sorted"
    using assms by (auto simp: sort_hosts_def bnd_Inr dest!: map_each_named)
  ultimately show ?thesis using py_sort_mset mset_map by metis
qed

text \<open>The hosts of one label that may take part.\<close>

definition group_candidates :: "hqe_row \<Rightarrow> nat \<Rightarrow> world \<Rightarrow> nat list" where
  "group_candidates q l w = filter (\<lambda>h. is_host_usable h w \<and> is_host_eligible_for_job h q w = Inr True)
     (group_hosts_of_label q l w)"

lemma find_group_cases:
  assumes "find_group_loop q m n (l # ls) w = (Inr hs, w')"
  shows "(if int (length (group_candidates q l w)) < m then find_group_loop q m n ls w = (Inr hs, w')
     else \<exists>ys. mset ys = mset (group_candidates q l w) \<and>
       take_hosts (if int (length ys) > n then take (nat n) ys else ys) w = (Inr hs, w'))"
proof -
  let ?ids = "group_candidates q l w"
  obtain ids w1 where "get_eligible_host_ids_in_group (group_hosts_of_label q l w) q w = (Inr ids, w1)"
    using assms unfolding find_group_loop.simps gets_bnd bnd_Inr by blast
  then have ids: "get_eligible_host_ids_in_group (group_hosts_of_label q l w) q w = (Inr ?ids, w)"
    using eligible_ids_run unfolding group_candidates_def by blast
  have step: "find_group_loop q m n (l # ls) w =
      (if int (length ?ids) < m then find_group_loop q m n ls w
       else bnd (sort_hosts ?ids) (\<lambda>sorted. take_hosts (if int (length sorted) > n then take (nat n) sorted else sorted)) w)"
    using ids by (simp add: bnd_run)
  show ?thesis
  proof (cases "int (length ?ids) < m")
    case True
    with assms step show ?thesis by simp
  next
    case False
    then obtain ys w2 where "sort_hosts ?ids w = (Inr ys, w2)"
        "take_hosts (if int (length ys) > n then take (nat n) ys else ys) w2 = (Inr hs, w')"
      using assms unfolding step if_not_P [OF False] bnd_Inr by blast
    then show ?thesis unfolding if_not_P [OF False] using sort_hosts_run by blast
  qed
qed

text \<open>
  C17 (scheduler/host_scheduler.py, \<open>find_eligible_atomic_group\<close>). The search over the labels of an
  atomic group answers either no host, taking none, or a group of between the minimum and the maximum
  number of distinct hosts, all usable, not blocked and eligible, from one of the labels, and takes
  exactly those from the available hosts.
\<close>

theorem atomic_group_in_bounds:
  assumes "find_group_loop q min_hosts max_hosts ls w = (Inr hs, w')" and "0 < min_hosts" and "min_hosts \<le> max_hosts"
  shows "hs = [] \<and> w' = w \<or>
    (\<exists>l \<in> set ls. set hs \<subseteq> set (group_candidates q l w) \<and> distinct hs \<and>
       min_hosts \<le> int (length hs) \<and> int (length hs) \<le> max_hosts \<and>
       available_hosts w' = available_hosts w - set hs)"
  using assms(1)
proof (induction ls)
  case (Cons l ls)
  let ?ids = "group_candidates q l w"
  show ?case
  proof (cases "int (length ?ids) < min_hosts")
    case True
    then show ?thesis using find_group_cases [OF Cons.prems] Cons.IH by auto
  next
    case False
    then obtain ys where ys: "mset ys = mset ?ids"
        "take_hosts (if int (length ys) > max_hosts then take (nat max_hosts) ys else ys) w = (Inr hs, w')"
      using find_group_cases [OF Cons.prems] by auto
    have len: "length ys = length ?ids" "set ys = set ?ids" using ys(1) mset_eq_length mset_eq_setD by blast+
    let ?t = "if int (length ys) > max_hosts then take (nat max_hosts) ys else ys"
    have t: "hs = ?t" "distinct hs" "available_hosts w' = available_hosts w - set hs"
      using take_hosts_run [OF ys(2)] by blast+
    have "set hs \<subseteq> set ?ids" using len(2) set_take_subset [of "nat max_hosts" ys] by (simp add: t(1))
    moreover have "min_hosts \<le> int (length hs)" "int (length hs) \<le> max_hosts"
      using False assms(2,3) len(1) by (simp_all add: t(1))
    ultimately have "\<exists>l \<in> set (l # ls). set hs \<subseteq> set (group_candidates q l w) \<and> distinct hs \<and>
       min_hosts \<le> int (length hs) \<and> int (length hs) \<le> max_hosts \<and>
       available_hosts w' = available_hosts w - set hs"
      by (intro bexI [of _ l] conjI t(2,3)) simp_all
    then show ?thesis by (rule disjI2)
  qed
qed simp

section \<open>No host is given out twice\<close>

text \<open>
  The ways a host is given out within a tick, with the hosts given: to an entry with a host, to a metahost
  entry, to an atomic group; and every step that leaves the host scheduler alone.
\<close>

inductive gives_hosts :: "world \<Rightarrow> nat list \<Rightarrow> world \<Rightarrow> bool" where
  non_metahost: "schedule_non_metahost q h w = (r, w') \<Longrightarrow>
    gives_hosts w (case r of Inr (Some k) \<Rightarrow> [k] | _ \<Rightarrow> []) w'"
| metahost: "choose_metahost q l w = (r, w') \<Longrightarrow>
    gives_hosts w (case r of Inr (Some k) \<Rightarrow> [k] | _ \<Rightarrow> []) w'"
| group: "find_group_loop q m n ls w = (r, w') \<Longrightarrow>
    gives_hosts w (case r of Inr hs \<Rightarrow> hs | _ \<Rightarrow> []) w'"
| other: "w_hs w' = w_hs w \<Longrightarrow> gives_hosts w [] w'"

inductive hosts_given :: "world \<Rightarrow> nat list \<Rightarrow> world \<Rightarrow> bool" where
  none_yet: "hosts_given w [] w"
| and_then: "hosts_given w gs w' \<Longrightarrow> gives_hosts w' hs w'' \<Longrightarrow> hosts_given w (gs @ hs) w''"

lemma schedule_non_metahost_gives:
  assumes "schedule_non_metahost q h w = (r, w')"
  shows "available_hosts w' \<subseteq> available_hosts w \<and>
    (\<forall>k. r = Inr (Some k) \<longrightarrow> k \<in> available_hosts w \<and> k \<notin> available_hosts w')"
proof (cases "is_host_eligible_for_job h q w = Inr True \<and> h \<in> available_hosts w")
  case True
  with assms show ?thesis
    by (auto simp: schedule_non_metahost_def lift_sum_def bnd_def andthen_def modify_def ret_def gets_def
        remove_available_def)
next
  case False
  with assms have "w' = w \<and> (\<forall>k. r \<noteq> Inr (Some k))"
    by (cases "is_host_eligible_for_job h q w")
      (auto simp: schedule_non_metahost_def lift_sum_def bnd_def ret_def gets_def split: if_splits)
  then show ?thesis by simp
qed

lemma find_group_shrinks:
  "available_hosts (snd (find_group_loop q m n ls w)) \<subseteq> available_hosts w"
proof -
  let ?P = "\<lambda>v. available_hosts v \<subseteq> available_hosts w"
  have pure: "keeps ?P k" if "\<And>v. keeps ((=) v) k" for k :: "'a sched"
    using that by (force simp: keeps_def)
  have take: "keeps ?P (take_hosts hs)" for hs
    by (rule keepsI) (use take_hosts_shrinks in blast)
  have "keeps ?P (find_group_loop q m n ls)"
  proof (induction ls)
    case (Cons l ls)
    then show ?case unfolding find_group_loop.simps
      by (intro keeps_intro take pure [OF eligible_ids_pure] pure [OF sort_hosts_pure])
  qed simp
  then show ?thesis by (rule keepsD) simp
qed

lemma find_group_gives:
  "find_group_loop q m n ls w = (Inr hs, w') \<Longrightarrow>
    distinct hs \<and> set hs \<subseteq> available_hosts w \<and> available_hosts w' = available_hosts w - set hs"
proof (induction ls)
  case (Cons l ls)
  from find_group_cases [OF Cons.prems] Cons.IH take_hosts_run show ?case by (metis (no_types))
qed simp

lemma gives_hosts_exclusive:
  assumes "gives_hosts w hs w'"
  shows "distinct hs \<and> set hs \<subseteq> available_hosts w - available_hosts w' \<and> available_hosts w' \<subseteq> available_hosts w"
  using assms
proof cases
  case (non_metahost q h r)
  from schedule_non_metahost_gives [OF this(2)] this(1) show ?thesis by (auto split: sum.splits option.splits)
next
  case (metahost q l r)
  have "available_hosts w' \<subseteq> available_hosts w \<and>
      (\<forall>k. r = Inr (Some k) \<longrightarrow> k \<in> available_hosts w \<and> k \<notin> available_hosts w')"
    using label_metahost.loop_gives metahost(2) by (simp add: choose_metahost_def)
  then show ?thesis using metahost(1) by (auto split: sum.splits option.splits)
next
  case (group q m n ls r)
  have "available_hosts w' \<subseteq> available_hosts w" using find_group_shrinks [of q m n ls w] group(2) by simp
  moreover have "distinct hs \<and> set hs \<subseteq> available_hosts w - available_hosts w'"
    using find_group_gives [of q m n ls w hs w'] group by (cases r) auto
  ultimately show ?thesis by blast
next
  case other
  then show ?thesis by simp
qed

text \<open>
  C4 (scheduler/host_scheduler.py). However non-metahost entries, metahost entries and atomic groups are
  scheduled after each other within a tick, no host is given out twice, every host given out was
  available at the start, and none is still available.
\<close>

theorem no_host_given_twice:
  assumes "hosts_given w gs w'"
  shows "distinct gs \<and> set gs \<subseteq> available_hosts w \<and> set gs \<inter> available_hosts w' = {}"
proof -
  have "distinct gs \<and> set gs \<subseteq> available_hosts w \<and> set gs \<inter> available_hosts w' = {} \<and>
      available_hosts w' \<subseteq> available_hosts w"
    using assms
  proof induction
    case (and_then w gs w' hs w'')
    from gives_hosts_exclusive [OF and_then(2)] and_then(3) show ?case by auto
  qed simp
  then show ?thesis by blast
qed

section \<open>A concrete lab\<close>

text \<open>Hosts 1 to 4 carry label 10; host 1 is not available, host 2 is blocked for job 7, label 10 is in group 5.\<close>

definition sample_lab :: world where
  "sample_lab = empty_world\<lparr>mem_hosts := [2 \<mapsto> sample_host 2 ''m2'', 3 \<mapsto> sample_host 3 ''m3'', 4 \<mapsto> sample_host 4 ''m4''],
     w_hs := empty_host_scheduler\<lparr>hs_everyone_acl := [1], hs_hosts_available := [2, 3, 4],
       hs_job_acls := [(7, [1])], hs_ineligible_hosts := [(7, [2])],
       hs_host_acls := [(2, [1]), (3, [1]), (4, [1])], hs_label_hosts := [(10, [1, 2, 3, 4])],
       hs_host_labels := [(1, [10]), (2, [10]), (3, [10]), (4, [10])],
       hs_labels := [(10, \<lparr>l_id = 10, l_name = ''lab'', l_platform = False, l_invalid = False, l_only_if_needed = False,
          l_atomic_group_id = Some 5\<rparr>)]\<rparr>\<rparr>"

definition sample_meta_entry :: hqe_row where
  "sample_meta_entry = (sample_entry 5 7 None Queued)\<lparr>q_meta_host := Some 10, q_atomic_group_id := Some 5\<rparr>"

lemma sample_lab_labels: "labels_known h sample_lab" "one_atomic_group h sample_lab"
  by (auto simp: labels_known_def one_atomic_group_def dict_get_def sample_lab_def empty_host_scheduler_def)

lemma sample_lab_eligible: "h \<in> {1, 2, 3, 4} \<Longrightarrow> is_host_eligible_for_job h sample_meta_entry sample_lab = Inr (h \<noteq> 1)"
  by (auto simp: is_host_eligible_for_job_def is_host_invalid_def host_object_invalid_def sand_def eligibility_defs
      dict_get_def check_job_dependencies_def sample_lab_def sample_meta_entry_def sample_defs)

lemma sample_lab_hosts: "hosts_in_label 10 sample_lab = [1, 2, 3, 4]"
  "ineligible_hosts_for_entry sample_meta_entry sample_lab = [2]" "available_hosts sample_lab = {2, 3, 4}"
  by (simp_all add: hosts_in_label_def ineligible_hosts_for_entry_def dict_get_def sample_lab_def
      sample_meta_entry_def sample_defs insert_commute)

lemma sample_lab_usable: "is_host_usable h sample_lab \<longleftrightarrow> h \<in> {2, 3, 4}"
  by (auto simp: is_host_usable_def host_object_invalid_def sample_lab_def sample_defs)

lemma sample_lab_valid: "\<not> is_host_invalid h sample_lab"
  by (auto simp: is_host_invalid_def host_object_invalid_def sample_lab_def sample_defs)

theorem choose_metahost_first_fit_witness:
  "\<exists>w'. choose_metahost sample_meta_entry 10 sample_lab = (Inr (Some 3), w') \<and> available_hosts w' = {2, 4}"
  using choose_metahost_first_fit [of 10 sample_lab sample_meta_entry]
  by (auto simp: sample_lab_hosts sample_lab_eligible sample_lab_usable)

theorem eligible_iff_suits_witness:
  "host_suits 3 sample_meta_entry sample_lab"
  using eligible_iff_suits [OF sample_lab_labels, of 3 sample_meta_entry]
  by (simp add: sample_lab_eligible sample_lab_valid)

lemma sample_group_run:
  "fst (find_group_loop sample_meta_entry 2 2 [10] sample_lab) = Inr [3, 4]"
  by code_simp

theorem atomic_group_in_bounds_witness:
  "\<exists>w'. find_group_loop sample_meta_entry 2 2 [10] sample_lab = (Inr [3, 4], w') \<and> available_hosts w' = {2}"
proof -
  obtain w' where w': "find_group_loop sample_meta_entry 2 2 [10] sample_lab = (Inr [3, 4], w')"
    using sample_group_run by (metis eq_fst_iff)
  from atomic_group_in_bounds [OF this] show ?thesis
    using w' by (auto simp: sample_lab_hosts insert_Diff_if)
qed

theorem no_host_given_twice_witness:
  "\<exists>w' w''. choose_metahost sample_meta_entry 10 sample_lab = (Inr (Some 3), w') \<and>
    hosts_given sample_lab ([3] @ []) w'' \<and> 3 \<notin> available_hosts w''"
proof -
  obtain r w' where c: "choose_metahost sample_meta_entry 10 sample_lab = (r, w')" by force
  moreover have "fst (choose_metahost sample_meta_entry 10 sample_lab) = Inr (Some 3)" by code_simp
  ultimately have r: "r = Inr (Some 3)" by simp
  obtain r2 w'' where s: "schedule_non_metahost (sample_entry 6 7 (Some 1) Queued) 1 w' = (r2, w'')" by force
  have "hosts_given sample_lab ([] @ [3]) w'"
    using hosts_given.and_then [OF none_yet gives_hosts.metahost [OF c]] r by simp
  moreover have "hosts_given sample_lab [3] w' \<Longrightarrow> hosts_given sample_lab ([3] @ []) w'"
    using hosts_given.and_then gives_hosts.other by blast
  ultimately have "hosts_given sample_lab ([3] @ []) w'" by simp
  from no_host_given_twice [OF this] this c r show ?thesis by auto
qed

end
