(* ===== verification/Pidfile.thy ===== *)
theory Pidfile
  imports Drone_Manager "HOL-Library.Word"
begin

unbundle bit_operations_syntax

text \<open>
  The two ends of a pidfile: client/shared/pidfile.py, which an autoserv process uses to write its
  pid, then its exit status and the number of failed tests, and the parser of the drone manager,
  which reads what was written so far.
\<close>

section \<open>PidFileManager\<close>

text \<open>\<open>pm_open\<close> is \<open>self.pid_file is not None\<close>; \<open>pm_contents\<close> is what the file holds.\<close>

record pidfile_manager =
  pm_path :: string
  pm_open :: bool
  pm_num_tests_failed :: int
  pm_contents :: string

definition pm_init :: "string \<Rightarrow> string \<Rightarrow> pidfile_manager" where
  "pm_init label results_dir =
     \<lparr>pm_path = path_join results_dir (''.'' @ label @ ''_execute''), pm_open = False,
      pm_num_tests_failed = 0, pm_contents = []\<rparr>"

definition line :: "string \<Rightarrow> string" where
  "line s = s @ [CHR 0x0A]"

text \<open>\<open>pid\<close> is \<open>os.getpid()\<close>; opening for writing truncates the file.\<close>

definition open_file :: "nat \<Rightarrow> pidfile_manager \<Rightarrow> pidfile_manager" where
  "open_file pid m = m\<lparr>pm_open := True, pm_contents := line (str_of_nat pid)\<rparr>"

definition encoded_exit_code :: "int \<Rightarrow> int \<Rightarrow> int" where
  "encoded_exit_code exit_code signal_code = (push_bit 8 (exit_code AND 0xFF)) OR (signal_code AND 0xFF)"

definition close_file :: "int \<Rightarrow> int \<Rightarrow> pidfile_manager \<Rightarrow> pidfile_manager" where
  "close_file exit_code signal_code m =
     (if \<not> pm_open m then m
      else m\<lparr>pm_open := False,
             pm_contents := pm_contents m @ line (str_of_int (encoded_exit_code exit_code signal_code))
               @ line (str_of_int (pm_num_tests_failed m))\<rparr>)"

text \<open>\<open>os.WIFSIGNALED\<close> on a wait status.\<close>

definition WIFSIGNALED :: "int \<Rightarrow> bool" where
  "WIFSIGNALED status \<longleftrightarrow> (let t = status AND 0x7F in t \<noteq> 0 \<and> t \<noteq> 0x7F)"

section \<open>Lemmas\<close>

lemma is_digit_props: "is_digit c \<Longrightarrow> c \<noteq> CHR 0x0A \<and> c \<noteq> CHR 0x0D \<and> \<not> is_space c \<and> c \<noteq> CHR ''-'' \<and> c \<noteq> CHR ''+''"
  by (auto simp: is_digit_def is_space_def)

lemma py_strip_id:
  assumes "s \<noteq> []" and "\<not> is_space (hd s)" and "\<not> is_space (last s)"
  shows "py_strip s = s"
proof -
  have "dropWhile is_space s = s" using assms(1,2) by (cases s) auto
  moreover have "dropWhile is_space (rev s) = rev s" using assms(1,3) by (cases s rule: rev_cases) auto
  ultimately show ?thesis by (simp add: py_strip_def)
qed

lemma digits_ends: "s \<noteq> [] \<Longrightarrow> \<forall>c \<in> set s. is_digit c \<Longrightarrow> is_digit (hd s) \<and> is_digit (last s)"
  by simp

lemma py_int_str_of_nat: "py_int (str_of_nat n) = Inr (int n)"
proof -
  have d: "\<forall>c \<in> set (str_of_nat n). is_digit c" by (rule str_of_nat_digits)
  have e: "is_digit (hd (str_of_nat n))" "is_digit (last (str_of_nat n))"
    using digits_ends [OF str_of_nat_nonempty d] by auto
  then have "py_strip (str_of_nat n) = str_of_nat n"
    using is_digit_props by (intro py_strip_id) auto
  with d e show ?thesis
    by (simp add: py_int_def Let_def is_digit_props list_all_iff)
qed

lemma py_int_str_of_int: "py_int (str_of_int i) = Inr i"
proof (cases "i < 0")
  case False
  then show ?thesis by (simp add: str_of_int_def py_int_str_of_nat)
next
  case True
  let ?n = "nat (- i)"
  have d: "\<forall>c \<in> set (str_of_nat ?n). is_digit c" by (rule str_of_nat_digits)
  have e: "is_digit (last (str_of_nat ?n))" using digits_ends [OF str_of_nat_nonempty d] by auto
  have "py_strip (CHR ''-'' # str_of_nat ?n) = CHR ''-'' # str_of_nat ?n"
    using e is_digit_props by (intro py_strip_id) (auto simp: is_space_def)
  with d True show ?thesis by (simp add: str_of_int_def py_int_def Let_def list_all_iff)
qed

definition one_line :: "string \<Rightarrow> bool" where
  "one_line s \<longleftrightarrow> (\<forall>c \<in> set s. c \<noteq> CHR 0x0A \<and> c \<noteq> CHR 0x0D)"

lemma split_lines_acc_line:
  "one_line s \<Longrightarrow> split_lines_acc acc (s @ CHR 0x0A # rest) = (rev acc @ s) # split_lines_acc [] rest"
  by (induction s arbitrary: acc) (auto simp: one_line_def)

lemma split_lines_line: "one_line s \<Longrightarrow> split_lines (line s @ rest) = s # split_lines rest"
  by (simp add: split_lines_def line_def split_lines_acc_line)

lemma split_lines_Nil [simp]: "split_lines [] = []"
  by (simp add: split_lines_def)

lemma one_line_nat [simp]: "one_line (str_of_nat n)"
  using str_of_nat_digits [of n] is_digit_props by (auto simp: one_line_def)

lemma one_line_int [simp]: "one_line (str_of_int i)"
proof -
  have "one_line (CHR ''-'' # str_of_nat (nat (- i)))"
    using one_line_nat [of "nat (- i)"] by (simp add: one_line_def)
  then show ?thesis by (simp add: str_of_int_def)
qed

lemma line_nonempty [simp]: "line s \<noteq> []"
  by (simp add: line_def)

section \<open>Properties\<close>

text \<open>
  C24 (client/shared/pidfile.py against scheduler/drone_manager.py). What a process writes is what
  the scheduler reads: after \<open>open_file\<close> the scheduler sees a running process with its pid; after
  \<open>close_file\<close> it sees the encoded exit status and the number of failed tests, whatever their signs.
\<close>

theorem pidfile_roundtrip:
  "parse_pidfile host (pm_contents (open_file pid m)) =
     PidfileContents (empty_contents\<lparr>pc_process :=
       Some \<lparr>pr_hostname = host, pr_pid = int pid, pr_ppid = None\<rparr>\<rparr>) \<and>
   parse_pidfile host (pm_contents (close_file ec sc (open_file pid m))) =
     PidfileContents \<lparr>pc_process = Some \<lparr>pr_hostname = host, pr_pid = int pid, pr_ppid = None\<rparr>,
       pc_exit_status = Some (encoded_exit_code ec sc),
       pc_num_tests_failed = Some (pm_num_tests_failed m)\<rparr>"
proof -
  let ?n = "str_of_nat pid" and ?e = "str_of_int (encoded_exit_code ec sc)"
  let ?f = "str_of_int (pm_num_tests_failed m)"
  have one: "split_lines (line ?n) = [?n]"
    using split_lines_line [of ?n "[]"] by simp
  have three: "split_lines (line ?n @ line ?e @ line ?f) = [?n, ?e, ?f]"
    using split_lines_line [of ?f "[]"] by (simp add: split_lines_line)
  show ?thesis
    by (simp add: parse_pidfile_def open_file_def close_file_def one three py_int_str_of_nat
        py_int_str_of_int empty_contents_def)
qed

lemma encoded_bits:
  "bit (encoded_exit_code ec sc) n \<longleftrightarrow> (8 \<le> n \<and> n < 16 \<and> bit ec (n - 8)) \<or> (n < 8 \<and> bit sc n)"
proof -
  have m: "bit (0xFF :: int) k \<longleftrightarrow> k < 8" for k
    using bit_mask_iff [of 8 k, where ?'a = int] by (simp add: mask_eq_exp_minus_1)
  show ?thesis
    unfolding encoded_exit_code_def bit_or_iff bit_push_bit_iff_int bit_and_iff m by auto
qed

text \<open>
  (client/shared/pidfile.py, \<open>close_file\<close>). The status written decodes as a wait status: it is 0
  (the job's success for the scheduler) exactly when the low bytes of both codes are 0, and it counts
  as killed by a signal, the condition under which the scheduler collects crash information, exactly
  when the low seven bits of the signal code are neither 0 nor 127, whatever the exit code.
\<close>

theorem encoded_exit_code_decodes:
  "(encoded_exit_code ec sc = 0 \<longleftrightarrow> ec AND 0xFF = 0 \<and> sc AND 0xFF = 0) \<and>
   WIFSIGNALED (encoded_exit_code ec sc) = WIFSIGNALED sc"
proof
  have m: "bit (0xFF :: int) k \<longleftrightarrow> k < 8" for k
    using bit_mask_iff [of 8 k, where ?'a = int] by (simp add: mask_eq_exp_minus_1)
  have m7: "bit (0x7F :: int) k \<longleftrightarrow> k < 7" for k
    using bit_mask_iff [of 7 k, where ?'a = int] by (simp add: mask_eq_exp_minus_1)
  have low: "x AND 0xFF = 0 \<longleftrightarrow> (\<forall>k < 8. \<not> bit x k)" for x :: int
    by (auto simp: bit_eq_iff bit_simps m)
  have "encoded_exit_code ec sc = 0 \<longleftrightarrow> (\<forall>n. \<not> bit (encoded_exit_code ec sc) n)"
    by (auto simp: bit_eq_iff)
  also have "\<dots> \<longleftrightarrow> (\<forall>k < 8. \<not> bit ec k) \<and> (\<forall>k < 8. \<not> bit sc k)"
  proof
    assume none: "\<forall>n. \<not> bit (encoded_exit_code ec sc) n"
    show "(\<forall>k < 8. \<not> bit ec k) \<and> (\<forall>k < 8. \<not> bit sc k)"
    proof (intro conjI allI impI)
      fix k :: nat assume "k < 8"
      then show "\<not> bit ec k" using none [rule_format, of "k + 8"] by (simp add: encoded_bits)
      show "\<not> bit sc k" using none [rule_format, of k] \<open>k < 8\<close> by (simp add: encoded_bits)
    qed
  next
    assume "(\<forall>k < 8. \<not> bit ec k) \<and> (\<forall>k < 8. \<not> bit sc k)"
    then show "\<forall>n. \<not> bit (encoded_exit_code ec sc) n" by (auto simp: encoded_bits)
  qed
  finally show "encoded_exit_code ec sc = 0 \<longleftrightarrow> ec AND 0xFF = 0 \<and> sc AND 0xFF = 0" by (simp add: low)
  have "encoded_exit_code ec sc AND 0x7F = sc AND 0x7F"
    by (rule bit_eqI) (auto simp: bit_simps m7 encoded_bits)
  then show "WIFSIGNALED (encoded_exit_code ec sc) = WIFSIGNALED sc"
    by (simp add: WIFSIGNALED_def)
qed

lemma corrupt_is_invalid: "length (split_lines raw) > 3 \<Longrightarrow> pidfile_is_invalid (parse_pidfile h raw)"
  by (cases raw) (auto simp: parse_pidfile_def Let_def)

lemma for_each_raises:
  assumes "\<And>x s. x \<in> set xs \<Longrightarrow> P s \<Longrightarrow> (\<exists>s'. f x s = (Inr (), s') \<and> P s') \<or> fst (f x s) = Inl e"
    and "x \<in> set xs" and "\<And>s. P s \<Longrightarrow> fst (f x s) = Inl e" and "P s"
  shows "fst (for_each xs f s) = Inl e"
  using assms
proof (induction xs arbitrary: s)
  case (Cons y ys)
  from Cons.prems(1) [of y s] Cons.prems(4) consider
    s' where "f y s = (Inr (), s')" "P s'" | "fst (f y s) = Inl e" by auto
  then show ?case
  proof cases
    case 1
    then have "x \<in> set ys" using Cons.prems by fastforce
    with 1 Cons show ?thesis by (simp add: andthen_def bnd_def)
  next
    case 2
    then obtain t where "f y s = (Inl e, t)" by (cases "f y s") auto
    then show ?thesis by (simp add: andthen_def bnd_def)
  qed
qed simp

lemma drone_registered_put [simp]: "dm_registered (put_drone h f s) = dm_registered s"
  "dm_pidfiles (put_drone h f s) = dm_pidfiles s"
  by (simp_all add: put_drone_def)

text \<open>
  (scheduler/drone_manager.py, \<open>_parse_pidfile\<close> and \<open>_compute_active_processes\<close>). A pidfile of
  more than three lines is read as an \<open>InvalidPidfile\<close>, and such an object has no \<open>exit_status\<close>: once
  one is stored, computing the active processes of any drone raises AttributeError, so \<open>refresh\<close>
  fails instead of reporting the corrupt file.
\<close>

theorem corrupt_pidfile_crashes_refresh:
  assumes "\<forall>(q, f) \<in> set (dm_pidfiles s). map_of (dm_registered s) q \<noteq> None"
    and "(p, parse_pidfile h0 raw) \<in> set (dm_pidfiles s)" and "length (split_lines raw) > 3"
  shows "fst (compute_active_processes h s) = Inl AttributeError"
proof -
  let ?P = "\<lambda>t :: dmgr. dm_registered t = dm_registered s"
  let ?s = "put_drone h (\<lambda>d. d\<lparr>dr_active_processes := 0\<rparr>) s"
  obtain e where bad: "parse_pidfile h0 raw = InvalidPidfile e"
    using corrupt_is_invalid [OF assms(3), of h0] by (cases "parse_pidfile h0 raw") auto
  have "fst (for_each (dm_pidfiles s) (count_pidfile h) ?s) = Inl AttributeError"
  proof (rule for_each_raises [where P = ?P and x = "(p, InvalidPidfile e)"])
    fix x t assume x: "x \<in> set (dm_pidfiles s)" and t: "?P t"
    obtain q f where qf: "x = (q, f)" by (cases x)
    with x assms(1) t obtain i where "map_of (dm_registered t) q = Some i" by auto
    with qf t show "(\<exists>s'. count_pidfile h x t = (Inr (), s') \<and> ?P s') \<or> fst (count_pidfile h x t) = Inl AttributeError"
      by (cases f; cases "pi_num_processes i")
        (auto simp: count_pidfile_def lift_sum_def bnd_def gets_def modify_def ret_def throw_def when_do_def)
  qed (use assms(2) bad in \<open>simp_all add: count_pidfile_def lift_sum_def bnd_def\<close>)
  then show ?thesis
    by (simp add: compute_active_processes_def andthen_def bnd_def modify_def gets_def)
qed

theorem corrupt_pidfile_crashes_refresh_witness:
  "fst (compute_active_processes ''d1'' (sample_dmgr\<lparr>dm_registered := [(''p'', new_pidfile_info)],
     dm_pidfiles := [(''p'', parse_pidfile ''d1'' (line ''1'' @ line ''2'' @ line ''3'' @ line ''4''))]\<rparr>)) =
   Inl AttributeError"
  by (rule corrupt_pidfile_crashes_refresh [where p = "''p''" and ?h0.0 = "''d1''"
        and raw = "line ''1'' @ line ''2'' @ line ''3'' @ line ''4''"])
    (simp_all add: line_def split_lines_def)

end
