(* ===== verification/Monitors.thy ===== *)
theory Monitors
  imports Host_Scheduler Pidfile
begin

text \<open>
  \<open>PidfileRunMonitor\<close> of scheduler/monitor_db.py: what a task knows of the process it started, read
  from the process's pidfile through the drone manager. A monitor is an attribute of a task; a
  location names the task and the attribute.
\<close>

section \<open>Monitor objects\<close>

datatype mon_loc = Own_monitor nat | Autoserv_monitor nat

definition new_run_monitor :: run_monitor where
  "new_run_monitor = \<lparr>rm_lost_process = False, rm_start_time = None, rm_pidfile_id = None,
     rm_state = empty_contents, rm_shared = Own_object\<rparr>"

definition get_monitor :: "mon_loc \<Rightarrow> run_monitor sched" where
  "get_monitor l = (case l of
       Own_monitor t \<Rightarrow> bnd (get_task t) (\<lambda>a. some_or AttributeError (at_monitor a))
     | Autoserv_monitor t \<Rightarrow> bnd (get_task t) (\<lambda>a. some_or AttributeError (at_autoserv_monitor a)))"

definition put_monitor :: "mon_loc \<Rightarrow> run_monitor \<Rightarrow> unit sched" where
  "put_monitor l m = (case l of
       Own_monitor t \<Rightarrow> upd_task t (\<lambda>a. a\<lparr>at_monitor := Some m\<rparr>)
     | Autoserv_monitor t \<Rightarrow> upd_task t (\<lambda>a. a\<lparr>at_autoserv_monitor := Some m\<rparr>))"

definition set_start_time :: "mon_loc \<Rightarrow> unit sched" where
  "set_start_time l = bnd (get_monitor l) (\<lambda>m. bnd now (\<lambda>t. put_monitor l (m\<lparr>rm_start_time := Some t\<rparr>)))"

section \<open>Starting and attaching\<close>

text \<open>
  A command is an argv list, or a plain string where the code has one; \<open>['nice', ...] + command\<close> is a
  TypeError on the string.
\<close>

datatype command = Argv "cmd_item list" | Plain_string string

definition add_nice :: "int \<Rightarrow> command \<Rightarrow> exn + cmd_item list" where
  "add_nice level c = (case c of
       Argv items \<Rightarrow> Inr ([Arg ''nice'', Arg ''-n'', Arg (str_of_int level)] @ items)
     | Plain_string s \<Rightarrow> Inl TypeError)"

definition monitor_run ::
  "mon_loc \<Rightarrow> command \<Rightarrow> string \<Rightarrow> int \<Rightarrow> int \<Rightarrow> string option \<Rightarrow> string \<Rightarrow> pidfile_id option
   \<Rightarrow> string option \<Rightarrow> string list option \<Rightarrow> unit sched" where
  "monitor_run l command working_directory num_processes nice_level log_file pidfile_name paired username allowed =
     bnd (lift_sum (add_nice nice_level command)) (\<lambda>argv.
     andthen (set_start_time l) (
     bnd (dm (execute_command argv working_directory pidfile_name num_processes log_file paired username allowed)) (\<lambda>p.
     bnd (get_monitor l) (\<lambda>m. put_monitor l (m\<lparr>rm_pidfile_id := Some p\<rparr>)))))"

definition attach_to_existing_process :: "mon_loc \<Rightarrow> string \<Rightarrow> string \<Rightarrow> int option \<Rightarrow> unit sched" where
  "attach_to_existing_process l path pidfile_name num_processes =
     andthen (set_start_time l) (
     bnd (gets (\<lambda>w. get_pidfile_id_from (w_dm w) path pidfile_name)) (\<lambda>p.
     bnd (get_monitor l) (\<lambda>m.
     andthen (put_monitor l (m\<lparr>rm_pidfile_id := Some p\<rparr>))
       (when_do (num_processes \<noteq> None) (dm (declare_process_count p num_processes))))))"

section \<open>Reading the pidfile\<close>

definition shared_object :: "world \<Rightarrow> bool \<Rightarrow> pidfile_id \<Rightarrow> state_source" where
  "shared_object w use_second_read p =
     (if use_second_read
      then (if map_of (dm_pidfiles_second_read (w_dm w)) p = None then Own_object else Second_reading)
      else (if map_of (dm_pidfiles (w_dm w)) p = None then Own_object else First_reading))"

definition read_pidfile :: "mon_loc \<Rightarrow> bool \<Rightarrow> unit sched" where
  "read_pidfile l use_second_read =
     bnd (get_monitor l) (\<lambda>m.
     bnd (some_or AssertionError (rm_pidfile_id m)) (\<lambda>p.
     bnd (dm (get_pidfile_contents p use_second_read)) (\<lambda>f. case f of
       InvalidPidfile e \<Rightarrow>
         andthen (put_monitor l (m\<lparr>rm_state := empty_contents, rm_shared := Own_object\<rparr>)) (throw PidfileException)
     | PidfileContents c \<Rightarrow>
         bnd (gets (\<lambda>w. shared_object w use_second_read p)) (\<lambda>src.
         put_monitor l (m\<lparr>rm_state := c, rm_shared := src\<rparr>)))))"

text \<open>\<open>on_lost_process\<close> assigns to the attributes of the state object, which may be shared.\<close>

definition update_shared :: "state_source \<Rightarrow> pidfile_id option \<Rightarrow> pidfile_contents \<Rightarrow> dmgr \<Rightarrow> dmgr" where
  "update_shared src p c s = (case p of None \<Rightarrow> s | Some i \<Rightarrow> (case src of
       Own_object \<Rightarrow> s
     | First_reading \<Rightarrow> s\<lparr>dm_pidfiles := alist_put i (PidfileContents c) (dm_pidfiles s)\<rparr>
     | Second_reading \<Rightarrow> s\<lparr>dm_pidfiles_second_read := alist_put i (PidfileContents c) (dm_pidfiles_second_read s)\<rparr>))"

definition on_lost_process :: "mon_loc \<Rightarrow> process option \<Rightarrow> unit sched" where
  "on_lost_process l p =
     bnd (get_monitor l) (\<lambda>m.
     let c = \<lparr>pc_process = p, pc_exit_status = Some 1, pc_num_tests_failed = Some 0\<rparr> in
     andthen (put_monitor l (m\<lparr>rm_lost_process := True, rm_state := c\<rparr>))
       (dm (modify (update_shared (rm_shared m) (rm_pidfile_id m) c))))"

definition handle_pidfile_error :: "mon_loc \<Rightarrow> string \<Rightarrow> unit sched" where
  "handle_pidfile_error l error =
     andthen (enqueue_admin error) (
     bnd (get_monitor l) (\<lambda>m. on_lost_process l (pc_process (rm_state m))))"

definition handle_no_process :: "mon_loc \<Rightarrow> unit sched" where
  "handle_no_process l =
     bnd (get_monitor l) (\<lambda>m.
     bnd (some_or TypeError (rm_start_time m)) (\<lambda>start.
     bnd (gets (\<lambda>w. w_now w - start > cfg_pidfile_timeout_mins (w_cfg w) * 60)) (\<lambda>late.
     when_do late (andthen (enqueue_admin ''Process has failed to write pidfile'') (on_lost_process l None)))))"

definition get_pidfile_info_helper :: "mon_loc \<Rightarrow> unit sched" where
  "get_pidfile_info_helper l =
     bnd (get_monitor l) (\<lambda>m0.
     if rm_lost_process m0 then ret () else
     andthen (read_pidfile l False) (
     bnd (get_monitor l) (\<lambda>m. case pc_process (rm_state m) of
       None \<Rightarrow> handle_no_process l
     | Some p \<Rightarrow>
         if pc_exit_status (rm_state m) \<noteq> None then ret () else
         bnd (gets (\<lambda>w. is_process_running (w_dm w) p)) (\<lambda>running.
         if running then ret () else
         andthen (read_pidfile l True) (
         bnd (get_monitor l) (\<lambda>m2.
         when_do (pc_exit_status (rm_state m2) = None)
           (handle_pidfile_error l ''autoserv died without writing exit code''))))) ))"

definition get_pidfile_info :: "mon_loc \<Rightarrow> unit sched" where
  "get_pidfile_info l = catch (get_pidfile_info_helper l)
     (\<lambda>e. if e = PidfileException then handle_pidfile_error l ''Pidfile error'' else throw e)"

section \<open>Queries\<close>

definition has_process :: "mon_loc \<Rightarrow> bool sched" where
  "has_process l = andthen (get_pidfile_info l) (bnd (get_monitor l) (\<lambda>m. ret (pc_process (rm_state m) \<noteq> None)))"

definition get_process :: "mon_loc \<Rightarrow> process sched" where
  "get_process l = andthen (get_pidfile_info l)
     (bnd (get_monitor l) (\<lambda>m. some_or AssertionError (pc_process (rm_state m))))"

definition exit_code :: "mon_loc \<Rightarrow> int option sched" where
  "exit_code l = andthen (get_pidfile_info l) (bnd (get_monitor l) (\<lambda>m. ret (pc_exit_status (rm_state m))))"

definition num_tests_failed :: "mon_loc \<Rightarrow> int sched" where
  "num_tests_failed l = andthen (get_pidfile_info l)
     (bnd (get_monitor l) (\<lambda>m. ret (case pc_num_tests_failed (rm_state m) of None \<Rightarrow> -1 | Some n \<Rightarrow> n)))"

definition monitor_kill :: "mon_loc \<Rightarrow> unit sched" where
  "monitor_kill l = bnd (has_process l) (\<lambda>b. when_do b (bnd (get_process l) (\<lambda>p. dm (kill_process p))))"

definition try_copy_results_on_drone :: "mon_loc \<Rightarrow> string \<Rightarrow> string \<Rightarrow> unit sched" where
  "try_copy_results_on_drone l source_path destination_path =
     bnd (has_process l) (\<lambda>b. when_do b
       (bnd (get_process l) (\<lambda>p. dm (copy_results_on_drone p source_path destination_path))))"

definition try_copy_to_results_repository :: "mon_loc \<Rightarrow> string \<Rightarrow> string option \<Rightarrow> unit sched" where
  "try_copy_to_results_repository l source destination_path =
     bnd (has_process l) (\<lambda>b. when_do b
       (bnd (get_process l) (\<lambda>p. dm (copy_to_results_repository p source destination_path))))"

section \<open>What a monitor knows\<close>

definition monitor_at :: "world \<Rightarrow> mon_loc \<Rightarrow> run_monitor option" where
  "monitor_at w l = (case l of
       Own_monitor t \<Rightarrow> (case w_tasks w t of None \<Rightarrow> None | Some a \<Rightarrow> at_monitor a)
     | Autoserv_monitor t \<Rightarrow> (case w_tasks w t of None \<Rightarrow> None | Some a \<Rightarrow> at_autoserv_monitor a))"

lemma monitor_at_tasks: "w_tasks w' = w_tasks w \<Longrightarrow> monitor_at w' l = monitor_at w l"
  by (cases l) (simp_all add: monitor_at_def)

lemma monitor_at_update [simp]:
  "monitor_at (w\<lparr>w_dm := d\<rparr>) l = monitor_at w l" "monitor_at (w\<lparr>w_mail := x\<rparr>) l = monitor_at w l"
  by (rule monitor_at_tasks, simp)+

lemma get_monitor_Inr [simp]: "get_monitor l w = (Inr m, w') \<longleftrightarrow> monitor_at w l = Some m \<and> w' = w"
  by (cases l) (auto simp: get_monitor_def monitor_at_def get_task_def bnd_Inr split: option.split)

lemma put_monitor_run:
  assumes "monitor_at w l \<noteq> None"
  shows "\<exists>tasks. put_monitor l m w = (Inr (), w\<lparr>w_tasks := tasks\<rparr>) \<and> monitor_at (w\<lparr>w_tasks := tasks\<rparr>) l = Some m"
proof (cases l)
  case (Own_monitor t)
  with assms obtain a where "w_tasks w t = Some a" by (auto simp: monitor_at_def split: option.splits)
  with Own_monitor show ?thesis
    by (intro exI [of _ "(w_tasks w)(t \<mapsto> a\<lparr>at_monitor := Some m\<rparr>)"])
      (simp add: put_monitor_def upd_task_def get_task_def put_task_def modify_def monitor_at_def bnd_def gets_def ret_def)
next
  case (Autoserv_monitor t)
  with assms obtain a where "w_tasks w t = Some a" by (auto simp: monitor_at_def split: option.splits)
  with Autoserv_monitor show ?thesis
    by (intro exI [of _ "(w_tasks w)(t \<mapsto> a\<lparr>at_autoserv_monitor := Some m\<rparr>)"])
      (simp add: put_monitor_def upd_task_def get_task_def put_task_def modify_def monitor_at_def bnd_def gets_def ret_def)
qed

lemma put_monitor_Inr:
  assumes "put_monitor l m w = (Inr u, w')" and "monitor_at w l \<noteq> None"
  shows "monitor_at w' l = Some m \<and> w_dm w' = w_dm w"
  using put_monitor_run [OF assms(2), of m] assms(1) by auto

text \<open>The monitor object stays in its place.\<close>

abbreviation has_monitor :: "mon_loc \<Rightarrow> world \<Rightarrow> bool" where
  "has_monitor l w \<equiv> monitor_at w l \<noteq> None"

lemma has_monitor_keeps:
  "keeps (has_monitor l) (get_monitor l)" "keeps (has_monitor l) (put_monitor l m)"
  "keeps (has_monitor l) (dm x)" "keeps (has_monitor l) (enqueue_admin s)"
proof -
  show "keeps (has_monitor l) (get_monitor l)"
    unfolding get_monitor_def get_task_def by (cases l) (simp_all, (intro keeps_intro)+)
  show "keeps (has_monitor l) (put_monitor l m)"
  proof (rule keepsI)
    fix w assume "has_monitor l w"
    from put_monitor_run [OF this, of m] show "has_monitor l (snd (put_monitor l m w))" by auto
  qed
  show "keeps (has_monitor l) (dm x)" unfolding dm_def by (rule keeps_zoom) simp
  show "keeps (has_monitor l) (enqueue_admin s)" unfolding enqueue_admin_def
    by (rule keeps_modify) simp
qed

lemma keeps_pidfile [keeps_intro]:
  "\<lbrakk>\<And>e. keeps P (f e); \<And>c. keeps P (g c)\<rbrakk>
   \<Longrightarrow> keeps P (case x of InvalidPidfile e \<Rightarrow> f e | PidfileContents c \<Rightarrow> g c)"
  by (cases x) simp_all

lemma helper_keeps_monitor: "keeps (has_monitor l) (get_pidfile_info_helper l)"
  unfolding get_pidfile_info_helper_def read_pidfile_def handle_no_process_def on_lost_process_def
    handle_pidfile_error_def Let_def
  by (intro keeps_intro has_monitor_keeps)

lemma on_lost_process_run:
  assumes "on_lost_process l p w = (Inr u, w')" and "has_monitor l w"
  shows "\<exists>m. monitor_at w' l = Some m \<and> rm_lost_process m \<and> pc_process (rm_state m) = p \<and> pc_exit_status (rm_state m) = Some 1"
  using assms by (auto simp: on_lost_process_def bnd_Inr andthen_Inr Let_def dm_def zoom_def modify_def
      dest!: put_monitor_Inr split: prod.splits)

lemma enqueue_admin_Inr: "enqueue_admin s w = (Inr u, w') \<Longrightarrow> monitor_at w' l = monitor_at w l"
  by (auto simp: enqueue_admin_def modify_def)

lemma handle_pidfile_error_run:
  assumes "handle_pidfile_error l s w = (Inr u, w')" and "has_monitor l w"
  shows "\<exists>m. monitor_at w' l = Some m \<and> rm_lost_process m \<and> pc_exit_status (rm_state m) = Some 1"
proof -
  obtain v x w1 m where "enqueue_admin s w = (Inr v, w1)" "monitor_at w1 l = Some m"
      "on_lost_process l (pc_process (rm_state m)) w1 = (Inr u, w')"
    using assms(1) by (auto simp: handle_pidfile_error_def bnd_Inr andthen_Inr)
  then show ?thesis using on_lost_process_run by (metis option.distinct(1))
qed

lemma get_pidfile_contents_Inr:
  "dm (get_pidfile_contents p b) w = (Inr f, w') \<Longrightarrow> monitor_at w' l = monitor_at w l"
  by (auto simp: dm_def zoom_def split: prod.splits)

lemma read_pidfile_run:
  assumes "read_pidfile l b w = (Inr u, w')" and "monitor_at w l = Some m"
  shows "\<exists>c src. monitor_at w' l = Some (m\<lparr>rm_state := c, rm_shared := src\<rparr>)"
proof -
  obtain p f w1 where p: "rm_pidfile_id m = Some p" "dm (get_pidfile_contents p b) w = (Inr f, w1)"
    and rest: "(case f of
       InvalidPidfile e \<Rightarrow>
         andthen (put_monitor l (m\<lparr>rm_state := empty_contents, rm_shared := Own_object\<rparr>)) (throw PidfileException)
     | PidfileContents c \<Rightarrow>
         bnd (gets (\<lambda>w. shared_object w b p)) (\<lambda>src. put_monitor l (m\<lparr>rm_state := c, rm_shared := src\<rparr>))) w1 = (Inr u, w')"
    using assms unfolding read_pidfile_def bnd_Inr get_monitor_Inr some_or_Inr by auto
  have m: "monitor_at w1 l = Some m" using get_pidfile_contents_Inr [OF p(2)] assms(2) by simp
  show ?thesis
  proof (cases f)
    case (InvalidPidfile e)
    with rest show ?thesis by (simp add: andthen_Inr)
  next
    case (PidfileContents c)
    with rest have "put_monitor l (m\<lparr>rm_state := c, rm_shared := shared_object w1 b p\<rparr>) w1 = (Inr u, w')" by simp
    from put_monitor_Inr [OF this] m show ?thesis by auto
  qed
qed

text \<open>The three things a monitor can know, with the process running in the second.\<close>

definition state_known :: "world \<Rightarrow> run_monitor \<Rightarrow> bool" where
  "state_known w m \<longleftrightarrow> (case (pc_process (rm_state m), pc_exit_status (rm_state m)) of
       (None, None) \<Rightarrow> \<not> rm_lost_process m
     | (Some p, None) \<Rightarrow> \<not> rm_lost_process m \<and> is_process_running (w_dm w) p
     | (_, Some _) \<Rightarrow> True)"

lemma handle_no_process_run:
  assumes "handle_no_process l w = (Inr u, w')" and "monitor_at w l = Some m" and "\<not> rm_lost_process m"
    and "pc_process (rm_state m) = None"
  shows "\<exists>m. monitor_at w' l = Some m \<and> state_known w' m"
proof -
  obtain start where start: "rm_start_time m = Some start"
    using assms by (auto simp: handle_no_process_def bnd_Inr)
  show ?thesis
  proof (cases "w_now w - start > cfg_pidfile_timeout_mins (w_cfg w) * 60")
    case False
    then have "w' = w" using assms start by (auto simp: handle_no_process_def bnd_Inr)
    with assms show ?thesis by (auto simp: state_known_def split: option.splits)
  next
    case True
    then obtain v w1 where "enqueue_admin ''Process has failed to write pidfile'' w = (Inr v, w1)"
        "on_lost_process l None w1 = (Inr u, w')"
      using assms start by (auto simp: handle_no_process_def bnd_Inr andthen_Inr)
    with on_lost_process_run [OF this(2)] enqueue_admin_Inr [OF this(1)] assms(2) show ?thesis
      by (auto simp: state_known_def split: option.splits)
  qed
qed

lemma helper_run:
  assumes "get_pidfile_info_helper l w = (Inr u, w')" and "monitor_at w l = Some m0"
    and "rm_lost_process m0 \<longrightarrow> pc_exit_status (rm_state m0) \<noteq> None"
  shows "\<exists>m. monitor_at w' l = Some m \<and> state_known w' m"
proof (cases "rm_lost_process m0")
  case True
  with assms show ?thesis by (auto simp: get_pidfile_info_helper_def bnd_Inr state_known_def split: option.splits)
next
  case False
  then obtain v w1 where read: "read_pidfile l False w = (Inr v, w1)"
    and rest: "bnd (get_monitor l) (\<lambda>m. case pc_process (rm_state m) of
       None \<Rightarrow> handle_no_process l
     | Some p \<Rightarrow>
         if pc_exit_status (rm_state m) \<noteq> None then ret () else
         bnd (gets (\<lambda>w. is_process_running (w_dm w) p)) (\<lambda>running.
         if running then ret () else
         andthen (read_pidfile l True) (
         bnd (get_monitor l) (\<lambda>m2.
         when_do (pc_exit_status (rm_state m2) = None)
           (handle_pidfile_error l ''autoserv died without writing exit code''))))) w1 = (Inr u, w')"
    using assms(1,2) unfolding get_pidfile_info_helper_def by (auto simp: bnd_Inr andthen_Inr)
  obtain m where m: "monitor_at w1 l = Some m" "\<not> rm_lost_process m"
    using read_pidfile_run [OF read assms(2)] False by auto
  show ?thesis
  proof (cases "pc_process (rm_state m)")
    case None
    then have "handle_no_process l w1 = (Inr u, w')" using rest m(1) by (simp add: bnd_Inr)
    then show ?thesis using handle_no_process_run m None by blast
  next
    case (Some p)
    show ?thesis
    proof (cases "pc_exit_status (rm_state m) = None \<and> \<not> is_process_running (w_dm w1) p")
      case False
      then have "w' = w1" using rest m(1) Some by (auto simp: bnd_Inr split: if_splits)
      with False m Some show ?thesis by (auto simp: state_known_def split: option.split)
    next
      case True
      then obtain x w2 m2 where second: "read_pidfile l True w1 = (Inr x, w2)" "monitor_at w2 l = Some m2"
          "when_do (pc_exit_status (rm_state m2) = None)
             (handle_pidfile_error l ''autoserv died without writing exit code'') w2 = (Inr u, w')"
        using rest m(1) Some by (auto simp: bnd_Inr andthen_Inr)
      show ?thesis
      proof (cases "pc_exit_status (rm_state m2)")
        case None
        then have "handle_pidfile_error l ''autoserv died without writing exit code'' w2 = (Inr u, w')"
          using second(3) by simp
        from handle_pidfile_error_run [OF this] second(2) show ?thesis
          by (auto simp: state_known_def split: option.split)
      next
        case (Some i)
        with second show ?thesis by (auto simp: state_known_def split: option.split)
      qed
    qed
  qed
qed

text \<open>
  (scheduler/monitor_db.py, \<open>PidfileRunMonitor._get_pidfile_info\<close>). After it returns, a monitor without an exit
  status either has no process, or has one that the drones report as running; a process that was lost, or
  whose pidfile was unreadable, has an exit status, so a task never waits for it.
\<close>

theorem monitor_waits_only_for_running:
  assumes "get_pidfile_info l w = (Inr u, w')" and "monitor_at w l = Some m0"
    and "rm_lost_process m0 \<longrightarrow> pc_exit_status (rm_state m0) \<noteq> None"
  shows "\<exists>m. monitor_at w' l = Some m \<and> state_known w' m"
proof (cases "get_pidfile_info_helper l w")
  case (Pair r w1)
  show ?thesis
  proof (cases r)
    case (Inr v)
    with Pair assms(1) have "get_pidfile_info_helper l w = (Inr u, w')" by (simp add: get_pidfile_info_def catch_def)
    then show ?thesis using assms(2,3) by (rule helper_run)
  next
    case (Inl e)
    have "has_monitor l w1" using keepsD [OF helper_keeps_monitor, of w l] assms(2) Pair by simp
    moreover have "handle_pidfile_error l ''Pidfile error'' w1 = (Inr u, w')"
      using Pair Inl assms(1) by (auto simp: get_pidfile_info_def catch_def throw_def split: if_splits)
    ultimately obtain m where "monitor_at w' l = Some m" "rm_lost_process m" "pc_exit_status (rm_state m) = Some 1"
      using handle_pidfile_error_run by blast
    then show ?thesis
      by (auto simp: state_known_def split: option.split)
  qed
qed

text \<open>The process of task 0 has died without writing an exit code.\<close>

definition sample_dead_process :: world where
  "sample_dead_process = empty_world\<lparr>
     w_dm := sample_dmgr\<lparr>dm_pidfiles := [(''p'', PidfileContents \<lparr>pc_process = Some \<lparr>pr_hostname = ''d1'', pr_pid = 77, pr_ppid = None\<rparr>,
       pc_exit_status = None, pc_num_tests_failed = None\<rparr>)]\<rparr>,
     w_tasks := [0 \<mapsto> (new_agent_task QueueTask)\<lparr>at_monitor := Some (new_run_monitor\<lparr>rm_pidfile_id := Some ''p''\<rparr>)\<rparr>]\<rparr>"

lemma sample_dead_run: "fst (get_pidfile_info (Own_monitor 0) sample_dead_process) = Inr ()"
  by code_simp

theorem monitor_waits_only_for_running_witness:
  "\<exists>w' m. get_pidfile_info (Own_monitor 0) sample_dead_process = (Inr (), w') \<and>
     monitor_at w' (Own_monitor 0) = Some m \<and> state_known w' m"
proof -
  obtain w' where w': "get_pidfile_info (Own_monitor 0) sample_dead_process = (Inr (), w')"
    using sample_dead_run by (metis eq_fst_iff)
  have "monitor_at sample_dead_process (Own_monitor 0) = Some (new_run_monitor\<lparr>rm_pidfile_id := Some ''p''\<rparr>)"
    by (simp add: monitor_at_def sample_dead_process_def)
  from monitor_waits_only_for_running [OF w' this] w' show ?thesis by (auto simp: new_run_monitor_def)
qed

end
