(* ===== verification/Agent_Tasks.thy ===== *)
theory Agent_Tasks
  imports Monitors
begin

text \<open>
  The agent tasks of scheduler/monitor_db.py: \<open>AgentTask\<close> and its subclasses for special tasks (verify,
  cleanup, repair), for running a job (with hosts and hostless), and for what follows a job (gathering
  logs, parsing, archiving). A task object is a record in \<open>w_tasks\<close>; a method takes the task's number.
  Where subclasses override a method, the definition dispatches on the class of the task and calls the
  parts in the order of the \<open>super\<close> calls.
\<close>

section \<open>Classes\<close>

definition is_special_class :: "task_class \<Rightarrow> bool" where
  "is_special_class c \<longleftrightarrow> c = CleanupTask \<or> c = VerifyTask \<or> c = RepairTask"

definition is_queue_class :: "task_class \<Rightarrow> bool" where
  "is_queue_class c \<longleftrightarrow> c = QueueTask \<or> c = HostlessQueueTask"

definition is_self_throttled :: "task_class \<Rightarrow> bool" where
  "is_self_throttled c \<longleftrightarrow> c = FinalReparseTask \<or> c = ArchiveResultsTask"

definition is_post_job_class :: "task_class \<Rightarrow> bool" where
  "is_post_job_class c \<longleftrightarrow> c = GatherLogsTask \<or> is_self_throttled c"

definition pidfile_name :: "task_class \<Rightarrow> string" where
  "pidfile_name c = (case c of
       GatherLogsTask \<Rightarrow> CRASHINFO_PID_FILE
     | FinalReparseTask \<Rightarrow> PARSER_PID_FILE
     | ArchiveResultsTask \<Rightarrow> ARCHIVER_PID_FILE
     | _ \<Rightarrow> AUTOSERV_PID_FILE)"

text \<open>\<open>self._pidfile_name()[1:-len('_execute')]\<close>\<close>

definition pidfile_label :: "task_class \<Rightarrow> string" where
  "pidfile_label c = drop 1 (take (length (pidfile_name c) - length ''_execute'') (pidfile_name c))"

definition num_processes :: "agent_task \<Rightarrow> int" where
  "num_processes a = (case at_class a of
       QueueTask \<Rightarrow> int (length (at_queue_entries a))
     | HostlessQueueTask \<Rightarrow> int (length (at_queue_entries a))
     | GatherLogsTask \<Rightarrow> int (length (at_queue_entries a))
     | FinalReparseTask \<Rightarrow> 0
     | DelayedCallTask \<Rightarrow> 0
     | _ \<Rightarrow> 1)"

section \<open>Paths\<close>

primrec all_paths_are :: "string \<Rightarrow> entry_ref list \<Rightarrow> unit sched" where
  "all_paths_are p [] = ret ()"
| "all_paths_are p (r # rs) = bnd (execution_path r) (\<lambda>q. andthen (assert_that (q = p)) (all_paths_are p rs))"

definition get_consistent_execution_path :: "entry_ref list \<Rightarrow> string sched" where
  "get_consistent_execution_path entries = (case entries of
       [] \<Rightarrow> throw IndexError
     | r # rs \<Rightarrow> bnd (execution_path r) (\<lambda>p. andthen (all_paths_are p rs) (ret p)))"

definition the_special_task :: "agent_task \<Rightarrow> special_task sched" where
  "the_special_task a = some_or AttributeError (at_task a)"

definition working_directory :: "nat \<Rightarrow> string sched" where
  "working_directory t =
     bnd (get_task t) (\<lambda>a.
     if is_special_class (at_class a) then bnd (the_special_task a) special_task_execution_path
     else if is_queue_class (at_class a) \<or> is_post_job_class (at_class a)
     then get_consistent_execution_path (at_queue_entries a)
     else throw NotImplementedError)"

definition task_log_file :: "nat \<Rightarrow> string option sched" where
  "task_log_file t =
     bnd (get_task t) (\<lambda>a. case at_log_file_name a of
       None \<Rightarrow> ret None
     | Some n \<Rightarrow> bnd (working_directory t) (\<lambda>wd. ret (Some (path_join wd n))))"

definition keyval_path :: "nat \<Rightarrow> string sched" where
  "keyval_path t = bnd (working_directory t) (\<lambda>wd. ret (path_join wd ''keyval''))"

section \<open>Paired monitors, ownership, drones\<close>

text \<open>None stands for \<open>_NullMonitor\<close>, which has a process and no pidfile.\<close>

definition paired_monitor :: "nat \<Rightarrow> mon_loc option sched" where
  "paired_monitor t = bnd (get_task t) (\<lambda>a.
     ret (if is_post_job_class (at_class a) then Some (Autoserv_monitor t) else None))"

definition paired_has_process :: "nat \<Rightarrow> bool sched" where
  "paired_has_process t = bnd (paired_monitor t) (\<lambda>m. case m of None \<Rightarrow> ret True | Some l \<Rightarrow> has_process l)"

definition paired_pidfile_id :: "nat \<Rightarrow> pidfile_id option sched" where
  "paired_pidfile_id t = bnd (paired_monitor t) (\<lambda>m. case m of
       None \<Rightarrow> ret None
     | Some l \<Rightarrow> bnd (get_monitor l) (\<lambda>m. ret (rm_pidfile_id m)))"

definition first_entry_job :: "agent_task \<Rightarrow> job_row sched" where
  "first_entry_job a = (case at_queue_entries a of
       [] \<Rightarrow> throw IndexError
     | r # _ \<Rightarrow> bnd (get_entry r) (\<lambda>e. get_job (q_job_id (e_row e))))"

definition owner_username :: "nat \<Rightarrow> string option sched" where
  "owner_username t =
     bnd (get_task t) (\<lambda>a.
     if is_special_class (at_class a) then
       bnd (the_special_task a) (\<lambda>st. bnd (django_user (st_requested_by st)) (\<lambda>u. ret (Some (u_login u))))
     else if is_queue_class (at_class a) then bnd (get_job (at_job a)) (\<lambda>j. ret (Some (j_owner j)))
     else if is_post_job_class (at_class a) then bnd (first_entry_job a) (\<lambda>j. ret (Some (j_owner j)))
     else throw NotImplementedError)"

definition user_or_global_default_drone_set :: "user_row option \<Rightarrow> string list sched" where
  "user_or_global_default_drone_set user =
     bnd drone_set_get_default (\<lambda>ds.
     bnd (gets (get_drone_hostnames ds)) (\<lambda>default_hostnames.
     case user of
       None \<Rightarrow> ret default_hostnames
     | Some u \<Rightarrow> (case u_drone_set_id u of
         None \<Rightarrow> ret default_hostnames
       | Some uds \<Rightarrow> gets (get_drone_hostnames uds))))"

definition get_drone_hostnames_allowed :: "nat \<Rightarrow> string list option sched" where
  "get_drone_hostnames_allowed t =
     bnd (gets (\<lambda>w. cfg_drone_sets_enabled (w_cfg w))) (\<lambda>en.
     if \<not> en then ret None else
     bnd (get_task t) (\<lambda>a.
     bnd (gets (where_hqe (\<lambda>q. q_id q \<in> set (at_queue_entry_ids a)))) (\<lambda>hqes.
     if hqes = [] then
       andthen (assert_that (is_special_class (at_class a))) (
       bnd (the_special_task a) (\<lambda>st.
       bnd (django_user (st_requested_by st)) (\<lambda>u.
       bnd (user_or_global_default_drone_set (Some u)) (\<lambda>hs. ret (Some hs)))))
     else
       andthen (assert_that (length (remdups (map q_job_id hqes)) = 1)) (
       bnd (django_job (q_job_id (hd hqes))) (\<lambda>j. case j_drone_set_id j of
         None \<Rightarrow> bnd (job_user j) (\<lambda>u. bnd (user_or_global_default_drone_set u) (\<lambda>hs. ret (Some hs)))
       | Some ds \<Rightarrow> bnd (gets (get_drone_hostnames ds)) (\<lambda>hs. ret (Some hs)))))))"

definition register_necessary_pidfiles :: "nat \<Rightarrow> unit sched" where
  "register_necessary_pidfiles t =
     bnd (working_directory t) (\<lambda>wd.
     bnd (get_task t) (\<lambda>a.
     bnd (gets (\<lambda>w. get_pidfile_id_from (w_dm w) wd (pidfile_name (at_class a)))) (\<lambda>p.
     andthen (dm (modify (register_pidfile p))) (
     bnd (paired_pidfile_id t) (\<lambda>paired. case paired of
       None \<Rightarrow> ret ()
     | Some q \<Rightarrow> dm (modify (register_pidfile q)))))))"

section \<open>Command lines\<close>

text \<open>
  \<open>_autoserv_command_line\<close>; the job, when there is one, is given by its owner and name. The hosts and
  the profiles are zipped, so the shorter list decides how many machines are named.
\<close>

definition machines_with_profiles :: "string list \<Rightarrow> string list \<Rightarrow> string list" where
  "machines_with_profiles machines profiles =
     (if profiles = [] then machines else map (\<lambda>(m, p). m @ ''#'' @ p) (zip machines profiles))"

definition autoserv_command_line ::
  "string \<Rightarrow> string list \<Rightarrow> string list \<Rightarrow> cmd_item list \<Rightarrow> (string \<times> string) option \<Rightarrow> bool \<Rightarrow> cmd_item list" where
  "autoserv_command_line autoserv_path machines profiles extra_args job verbose =
     [Arg autoserv_path, Arg ''-p'', Arg ''-r'', WORKING_DIRECTORY] @
     (if machines = [] then []
      else [Arg ''-m'', Arg (str_join '','' (machines_with_profiles machines profiles))]) @
     (case job of None \<Rightarrow> [] | Some (owner, name) \<Rightarrow> [Arg ''-u'', Arg owner, Arg ''-l'', Arg name]) @
     (if verbose then [Arg ''--verbose''] else []) @ extra_args"

definition write_control_file :: "nat \<Rightarrow> string \<Rightarrow> string sched" where
  "write_control_file job path =
     bnd (get_job job) (\<lambda>j. dm (attach_file_to_execution path (j_control_file j) None))"

definition queue_command_line :: "agent_task \<Rightarrow> command sched" where
  "queue_command_line a = (case at_queue_entries a of
       [] \<Rightarrow> throw IndexError
     | r # _ \<Rightarrow>
       bnd (execution_path r) (\<lambda>path.
       bnd (write_control_file (at_job a) path) (\<lambda>control_path.
       bnd (map_each (at_queue_entries a) get_entry) (\<lambda>es.
       let hosted = filter (\<lambda>e. \<not> is_hostless (e_row e)) es;
           profiles = filter (\<lambda>p. p \<noteq> []) (map (\<lambda>e. q_profile (e_row e)) hosted) in
       bnd (map_each hosted entry_host) (\<lambda>hosts.
       bnd (execution_tag r) (\<lambda>tag.
       bnd (gets (\<lambda>w. absolute_path (w_dm w) False control_path)) (\<lambda>abs_control.
       bnd (get_job (at_job a)) (\<lambda>j.
       bnd (gets (\<lambda>w. cfg_autoserv_path (w_cfg w))) (\<lambda>autoserv_path.
       ret (Argv (autoserv_command_line autoserv_path (map h_hostname hosts) profiles
                    [Arg ''-P'', Arg tag, Arg ''-n'', Arg abs_control] (Some (j_owner j, j_name j)) False
                  @ (if is_server_job j then [] else [Arg ''-c'']))))))))))))"

definition special_command_line :: "agent_task \<Rightarrow> command sched" where
  "special_command_line a =
     bnd (get_host (at_host a)) (\<lambda>h.
     bnd (case at_queue_entry a of
         None \<Rightarrow> ret None
       | Some r \<Rightarrow> bnd (get_entry r) (\<lambda>e. bnd (get_job (q_job_id (e_row e))) (\<lambda>j.
           ret (Some (j_owner j, j_name j))))) (\<lambda>job.
     bnd (gets (\<lambda>w. cfg_autoserv_path (w_cfg w))) (\<lambda>autoserv_path.
     ret (Argv (autoserv_command_line autoserv_path [h_hostname h] [] (map Arg (at_extra_args a)) job True)))))"

definition generate_command :: "agent_task \<Rightarrow> string \<Rightarrow> command sched" where
  "generate_command a results_dir =
     bnd (gets w_cfg) (\<lambda>c. case at_class a of
       GatherLogsTask \<Rightarrow>
         bnd (map_each (at_queue_entries a) (\<lambda>r. bnd (get_entry r) entry_host)) (\<lambda>hosts.
         ret (Argv (map Arg [cfg_autoserv_path c, ''-p'', ''--pidfile-label='' @ pidfile_label (at_class a),
           ''--use-existing-results'', ''--collect-crashinfo'', ''-m'', str_join '','' (map h_hostname hosts),
           ''-r'', results_dir])))
     | FinalReparseTask \<Rightarrow>
         ret (Argv (map Arg [cfg_parser_path c, ''--write-pidfile'', ''-l'', ''2'', ''-r'', ''-o'', results_dir]))
     | ArchiveResultsTask \<Rightarrow>
         ret (Argv (map Arg [cfg_autoserv_path c, ''-p'', ''--pidfile-label='' @ pidfile_label (at_class a),
           ''-r'', results_dir, ''--use-existing-results'', ''--control-filename=control.archive'',
           path_join (path_join (cfg_scheduler_install_dir c) ''scheduler'') ''archive_results.control.srv'']))
     | _ \<Rightarrow> throw NotImplementedError)"

definition post_job_command_line :: "nat \<Rightarrow> agent_task \<Rightarrow> command sched" where
  "post_job_command_line t a =
     bnd (gets (\<lambda>w. cfg_testing_mode (w_cfg w))) (\<lambda>testing.
     if testing then ret (Plain_string ''true'') else
     bnd (working_directory t) (\<lambda>wd.
     bnd (gets (\<lambda>w. absolute_path (w_dm w) False wd)) (\<lambda>dir. generate_command a dir)))"

definition task_command_line :: "nat \<Rightarrow> command sched" where
  "task_command_line t =
     bnd (get_task t) (\<lambda>a.
     if is_special_class (at_class a) then special_command_line a
     else if is_queue_class (at_class a) then queue_command_line a
     else if is_post_job_class (at_class a) then post_job_command_line t a
     else throw NotImplementedError)"

section \<open>Keyval files\<close>

definition format_keyval :: "string \<Rightarrow> string \<Rightarrow> string" where
  "format_keyval key v = key @ ''='' @ v"

definition write_keyval_after_job :: "nat \<Rightarrow> string \<Rightarrow> string \<Rightarrow> unit sched" where
  "write_keyval_after_job t field v =
     bnd (get_task t) (\<lambda>a.
     andthen (assert_that (at_monitor a \<noteq> None)) (
     bnd (has_process (Own_monitor t)) (\<lambda>b.
     if \<not> b then ret () else
     bnd (keyval_path t) (\<lambda>path.
     bnd (get_process (Own_monitor t)) (\<lambda>p.
     dm (write_lines_to_file path [format_keyval field v] (Some p)))))))"

definition job_queued_keyval :: "job_row \<Rightarrow> string \<times> string" where
  "job_queued_keyval j = (''job_queued'', str_of_int (j_created_on j))"

definition write_job_finished :: "nat \<Rightarrow> unit sched" where
  "write_job_finished t = bnd now (\<lambda>n. write_keyval_after_job t ''job_finished'' (str_of_int n))"

definition keyval_file :: "(string \<times> string) list \<Rightarrow> string" where
  "keyval_file kvs = str_join [CHR 0x0A] (map (\<lambda>(k, v). format_keyval k v) kvs) @ [CHR 0x0A]"

definition write_keyvals_before_job_helper :: "nat \<Rightarrow> (string \<times> string) list \<Rightarrow> string \<Rightarrow> unit sched" where
  "write_keyvals_before_job_helper t kvs path =
     bnd (working_directory t) (\<lambda>wd.
     bnd (dm (attach_file_to_execution wd (keyval_file kvs) (Some path))) (\<lambda>_. ret ()))"

definition write_keyvals_before_job :: "nat \<Rightarrow> (string \<times> string) list \<Rightarrow> unit sched" where
  "write_keyvals_before_job t kvs = bnd (keyval_path t) (write_keyvals_before_job_helper t kvs)"

text \<open>\<open>urllib.quote\<close>: letters, digits, \<open>_.-\<close> and \<open>/\<close> stay, other characters become \<open>%XX\<close>.\<close>

definition hex_digit :: "nat \<Rightarrow> char" where
  "hex_digit d = (if d < 10 then char_of (48 + d) else char_of (55 + d))"

definition url_quote :: "string \<Rightarrow> string" where
  "url_quote s = concat (map (\<lambda>c.
     let n = (of_char c :: nat) in
     if is_digit c \<or> 65 \<le> n \<and> n \<le> 90 \<or> 97 \<le> n \<and> n \<le> 122 \<or> c \<in> set ''_.-/'' then [c]
     else [CHR ''%'', hex_digit (n div 16), hex_digit (n mod 16)]) s)"

definition write_host_keyvals :: "nat \<Rightarrow> nat \<Rightarrow> unit sched" where
  "write_host_keyvals t h =
     bnd (get_host h) (\<lambda>host.
     bnd (working_directory t) (\<lambda>wd.
     bnd (gets (platform_and_labels h)) (\<lambda>(platform, all_labels).
     write_keyvals_before_job_helper t
       [(''platform'', case platform of None \<Rightarrow> ''None'' | Some p \<Rightarrow> p),
        (''labels'', str_join '','' (map url_quote all_labels))]
       (path_join (path_join wd ''host_keyvals'') (h_hostname host)))))"

section \<open>Constructors\<close>

definition entry_host_ids :: "entry_ref list \<Rightarrow> nat list sched" where
  "entry_host_ids entries = map_each entries (\<lambda>r. bnd (get_entry r) (\<lambda>e. some_or AttributeError (e_host e)))"

definition entry_ids :: "entry_ref list \<Rightarrow> nat list sched" where
  "entry_ids entries = map_each entries (\<lambda>r. bnd (get_entry r) (\<lambda>e. ret (q_id (e_row e))))"

definition new_special_agent_task :: "task_class \<Rightarrow> string list \<Rightarrow> special_task \<Rightarrow> nat sched" where
  "new_special_agent_task c extra st =
     bnd (django_host (st_host_id st)) (\<lambda>h.
     andthen (load_host (h_id h)) (
     bnd (case st_queue_entry_id st of
         None \<Rightarrow> ret None
       | Some q \<Rightarrow> bnd (django_hqe q) (\<lambda>dq. bnd (load_entry (q_id dq)) (\<lambda>r. ret (Some r)))) (\<lambda>entry.
     alloc_task ((new_agent_task c)\<lparr>at_host := h_id h, at_queue_entry := entry, at_task := Some st,
       at_extra_args := extra\<rparr>))))"

text \<open>\<open>_set_ids(host=self.host, queue_entries=[self.queue_entry])\<close> and \<open>_set_ids(host=self.host)\<close>\<close>

definition set_special_ids :: "bool \<Rightarrow> nat \<Rightarrow> unit sched" where
  "set_special_ids with_entry t =
     bnd (get_task t) (\<lambda>a. case (if with_entry then at_queue_entry a else None) of
       None \<Rightarrow> put_task t (a\<lparr>at_host_ids := [at_host a]\<rparr>)
     | Some r \<Rightarrow> bnd (entry_host_ids [r]) (\<lambda>hs. bnd (entry_ids [r]) (\<lambda>qs.
         put_task t (a\<lparr>at_host_ids := hs, at_queue_entry_ids := qs\<rparr>))))"

definition new_cleanup_task :: "special_task \<Rightarrow> nat sched" where
  "new_cleanup_task st = bnd (new_special_agent_task CleanupTask [''--cleanup''] st) (\<lambda>t.
     andthen (set_special_ids True t) (ret t))"

definition new_verify_task :: "special_task \<Rightarrow> nat sched" where
  "new_verify_task st = bnd (new_special_agent_task VerifyTask [''-v''] st) (\<lambda>t.
     andthen (set_special_ids True t) (ret t))"

definition new_repair_task :: "special_task \<Rightarrow> nat sched" where
  "new_repair_task st =
     bnd (django_host (st_host_id st)) (\<lambda>h.
     bnd (lift_sum (protection_attr_name (h_protection h))) (\<lambda>protection.
     bnd (new_special_agent_task RepairTask [''-R'', ''--host-protection'', protection] st) (\<lambda>t.
     andthen (set_special_ids False t) (ret t))))"

definition first_entry_job_id :: "entry_ref list \<Rightarrow> nat sched" where
  "first_entry_job_id entries = (case entries of
       [] \<Rightarrow> throw IndexError
     | r # _ \<Rightarrow> bnd (get_entry r) (\<lambda>e. ret (q_job_id (e_row e))))"

definition new_queue_task :: "entry_ref list \<Rightarrow> nat sched" where
  "new_queue_task entries =
     bnd (first_entry_job_id entries) (\<lambda>j.
     bnd (entry_host_ids entries) (\<lambda>hs.
     bnd (entry_ids entries) (\<lambda>qs.
     alloc_task ((new_agent_task QueueTask)\<lparr>at_job := j, at_queue_entries := entries,
       at_host_ids := hs, at_queue_entry_ids := qs\<rparr>))))"

definition new_hostless_queue_task :: "entry_ref \<Rightarrow> nat sched" where
  "new_hostless_queue_task r =
     bnd (first_entry_job_id [r]) (\<lambda>j.
     bnd (entry_ids [r]) (\<lambda>qs.
     alloc_task ((new_agent_task HostlessQueueTask)\<lparr>at_job := j, at_queue_entries := [r],
       at_queue_entry_ids := qs\<rparr>)))"

definition new_post_job_task :: "task_class \<Rightarrow> string \<Rightarrow> entry_ref list \<Rightarrow> nat sched" where
  "new_post_job_task c log_file_name entries =
     bnd (alloc_task ((new_agent_task c)\<lparr>at_queue_entries := entries, at_log_file_name := Some log_file_name,
       at_autoserv_monitor := Some new_run_monitor\<rparr>)) (\<lambda>t.
     bnd (working_directory t) (\<lambda>wd.
     andthen (attach_to_existing_process (Autoserv_monitor t) wd AUTOSERV_PID_FILE None) (ret t)))"

definition new_gather_logs_task :: "entry_ref list \<Rightarrow> nat sched" where
  "new_gather_logs_task entries =
     bnd (first_entry_job_id entries) (\<lambda>j.
     bnd (new_post_job_task GatherLogsTask ''.collect_crashinfo.log'' entries) (\<lambda>t.
     bnd (entry_host_ids entries) (\<lambda>hs.
     bnd (entry_ids entries) (\<lambda>qs.
     andthen (upd_task t (\<lambda>a. a\<lparr>at_job := j, at_host_ids := hs, at_queue_entry_ids := qs\<rparr>)) (ret t)))))"

definition new_final_reparse_task :: "entry_ref list \<Rightarrow> nat sched" where
  "new_final_reparse_task entries =
     bnd (new_post_job_task FinalReparseTask ''.parse.log'' entries) (\<lambda>t.
     bnd (entry_ids entries) (\<lambda>qs.
     andthen (upd_task t (\<lambda>a. a\<lparr>at_queue_entry_ids := qs\<rparr>)) (ret t)))"

definition new_archive_results_task :: "entry_ref list \<Rightarrow> nat sched" where
  "new_archive_results_task entries =
     bnd (new_post_job_task ArchiveResultsTask ''.archiving.log'' entries) (\<lambda>t.
     bnd (entry_ids entries) (\<lambda>qs.
     andthen (upd_task t (\<lambda>a. a\<lparr>at_queue_entry_ids := qs\<rparr>)) (ret t)))"

end
