(* ===== verification/Task_Lifecycle.thy ===== *)
theory Task_Lifecycle
  imports Agent_Tasks
begin

text \<open>
  The life of an agent task: \<open>poll\<close> starts it (\<open>prolog\<close>, then \<open>run\<close>) and then watches its process until
  \<open>finished\<close> runs the \<open>epilog\<close>; \<open>abort\<close> ends it early and \<open>recover\<close> takes over the process of an
  earlier scheduler.
\<close>

section \<open>Epilogs: what a task does when its process has ended\<close>

definition parse_results :: "entry_ref list \<Rightarrow> unit sched" where
  "parse_results entries = for_each entries (\<lambda>r. entry_set_status r Parsing)"

definition archive_results :: "entry_ref list \<Rightarrow> unit sched" where
  "archive_results entries = for_each entries (\<lambda>r. entry_set_status r Archiving)"

definition set_all_statuses :: "entry_ref list \<Rightarrow> hqe_status \<Rightarrow> unit sched" where
  "set_all_statuses entries s = for_each entries (\<lambda>r. entry_set_status r s)"

definition task_succeeded :: "agent_task \<Rightarrow> bool" where
  "task_succeeded a \<longleftrightarrow> at_success a = Some True"

text \<open>\<open>AgentTask.cleanup\<close>\<close>

definition base_cleanup :: "nat \<Rightarrow> unit sched" where
  "base_cleanup t =
     bnd (task_log_file t) (\<lambda>log_file.
     bnd (get_task t) (\<lambda>a. case (at_monitor a, log_file) of
       (Some _, Some f) \<Rightarrow> try_copy_to_results_repository (Own_monitor t) f None
     | _ \<Rightarrow> ret ()))"

text \<open>\<open>SpecialAgentTask.cleanup\<close>\<close>

definition copy_special_results :: "nat \<Rightarrow> special_task \<Rightarrow> unit sched" where
  "copy_special_results t st =
     bnd (has_process (Own_monitor t)) (\<lambda>b.
     andthen (assert_that b) (
     bnd (special_task_execution_path st) (\<lambda>p.
     try_copy_to_results_repository (Own_monitor t) (p @ ''/'') None)))"

definition special_cleanup :: "nat \<Rightarrow> unit sched" where
  "special_cleanup t =
     andthen (base_cleanup t) (
     bnd (get_task t) (\<lambda>a.
     bnd (the_special_task a) (\<lambda>st.
     bnd (special_task_finish st (task_succeeded a)) (\<lambda>st'.
     andthen (put_task t (a\<lparr>at_task := Some st'\<rparr>)) (
     if at_monitor a = None then ret () else
     bnd (has_process (Own_monitor t)) (\<lambda>b.
     andthen (when_do b (copy_special_results t st')) (
     bnd (get_monitor (Own_monitor t)) (\<lambda>m. case rm_pidfile_id m of
       None \<Rightarrow> ret ()
     | Some p \<Rightarrow> dm (modify (unregister_pidfile p))))))))))"

definition task_cleanup :: "nat \<Rightarrow> unit sched" where
  "task_cleanup t = bnd (get_task t) (\<lambda>a.
     if is_special_class (at_class a) then special_cleanup t else base_cleanup t)"

text \<open>\<open>SpecialAgentTask._fail_queue_entry\<close>\<close>

definition fail_queue_entry :: "nat \<Rightarrow> unit sched" where
  "fail_queue_entry t =
     bnd (get_task t) (\<lambda>a.
     bnd (some_or AssertionError (at_queue_entry a)) (\<lambda>r.
     bnd (get_entry r) (\<lambda>e.
     if q_meta_host (e_row e) \<noteq> None then ret () else
     andthen (entry_update_from_database r) (
     bnd (get_entry r) (\<lambda>e.
     if q_status (e_row e) \<noteq> Queued then ret () else
     andthen (entry_set_execution_subdir r None) (
     bnd (get_job (q_job_id (e_row e))) (\<lambda>j.
     andthen (write_keyval_after_job t (fst (job_queued_keyval j)) (snd (job_queued_keyval j))) (
     andthen (write_job_finished t) (
     bnd (working_directory t) (\<lambda>wd.
     bnd (execution_path r) (\<lambda>path.
     andthen (try_copy_results_on_drone (Own_monitor t) (wd @ ''/'') (path @ ''/'')) (
     andthen (dm (bnd (gets (\<lambda>s. get_pidfile_id_from s path AUTOSERV_PID_FILE)) (\<lambda>p. modify (register_pidfile p)))) (
     if j_parse_failed_repair j then parse_results [r] else archive_results [r])))))))))))))"

definition repair_epilog :: "nat \<Rightarrow> unit sched" where
  "repair_epilog t =
     andthen (task_cleanup t) (
     bnd (get_task t) (\<lambda>a.
     if task_succeeded a then host_set_status (at_host a) HReady
     else andthen (host_set_status (at_host a) HRepairFailed)
            (when_do (at_queue_entry a \<noteq> None) (fail_queue_entry t))))"

text \<open>\<open>PreJobTask._copy_to_results_repository\<close> and \<open>PreJobTask.epilog\<close>\<close>

definition basename :: "string \<Rightarrow> string" where
  "basename p = rev (takeWhile (\<lambda>c. c \<noteq> CHR ''/'') (rev p))"

definition copy_to_results_repository_pre :: "nat \<Rightarrow> unit sched" where
  "copy_to_results_repository_pre t =
     bnd (get_task t) (\<lambda>a. case at_queue_entry a of
       None \<Rightarrow> ret ()
     | Some r \<Rightarrow>
         bnd (get_entry r) (\<lambda>e.
         if q_meta_host (e_row e) \<noteq> None then ret () else
         andthen (entry_set_execution_subdir r None) (
         bnd (the_special_task a) (\<lambda>st.
         bnd (special_task_execution_path st) (\<lambda>tp.
         bnd (execution_path r) (\<lambda>ep.
         try_copy_to_results_repository (Own_monitor t) (path_join (path_join tp ''debug'') ''autoserv.DEBUG'')
           (Some (path_join ep (basename tp)))))))))"

definition repair_tasks_of_entry :: "nat \<Rightarrow> world \<Rightarrow> special_task list" where
  "repair_tasks_of_entry q w =
     filter (\<lambda>st. st_task st = TaskRepair \<and> st_queue_entry_id st = Some q) (db_special_tasks w)"

definition create_repair :: "agent_task \<Rightarrow> nat option \<Rightarrow> unit sched" where
  "create_repair a queue_entry =
     bnd (django_host (at_host a)) (\<lambda>h.
     bnd (the_special_task a) (\<lambda>st.
     bnd (django_user (st_requested_by st)) (\<lambda>u.
     bnd (special_task_create (h_id h) TaskRepair queue_entry (Some (u_id u))) (\<lambda>_. ret ()))))"

definition pre_job_failed :: "nat \<Rightarrow> unit sched" where
  "pre_job_failed t =
     bnd (get_task t) (\<lambda>a. case at_queue_entry a of
       None \<Rightarrow> create_repair a None
     | Some r \<Rightarrow>
         andthen (requeue r) (
         bnd (get_entry r) (\<lambda>e.
         bnd (gets (repair_tasks_of_entry (q_id (e_row e)))) (\<lambda>repairs.
         if repairs \<noteq> [] then
           andthen (host_set_status (at_host a) HRepairFailed) (fail_queue_entry t)
         else bnd (django_hqe (q_id (e_row e))) (\<lambda>q. create_repair a (Some (q_id q)))))))"

definition pre_job_epilog :: "nat \<Rightarrow> unit sched" where
  "pre_job_epilog t =
     andthen (task_cleanup t) (
     bnd (get_task t) (\<lambda>a.
     if task_succeeded a then ret () else
     andthen (copy_to_results_repository_pre t) (
     bnd (get_host (at_host a)) (\<lambda>h.
     if h_protection h = Do_not_verify then upd_task t (\<lambda>a. a\<lparr>at_success := Some True\<rparr>)
     else pre_job_failed t))))"

definition verify_epilog :: "nat \<Rightarrow> unit sched" where
  "verify_epilog t =
     andthen (pre_job_epilog t) (
     bnd (get_task t) (\<lambda>a.
     when_do (task_succeeded a) (case at_queue_entry a of
         Some r \<Rightarrow> on_pending r
       | None \<Rightarrow> host_set_status (at_host a) HReady)))"

definition cleanup_finish_epilog :: "nat \<Rightarrow> unit sched" where
  "cleanup_finish_epilog t =
     bnd (get_task t) (\<lambda>a. case at_queue_entry a of
       None \<Rightarrow> ret ()
     | Some r \<Rightarrow>
         if \<not> task_succeeded a then ret () else
         bnd (get_entry r) (\<lambda>e.
         bnd (get_job (q_job_id (e_row e))) (\<lambda>j.
         bnd (get_host (at_host a)) (\<lambda>h.
         if j_run_verify j \<and> h_protection h \<noteq> Do_not_verify then
           bnd (django_hqe (q_id (e_row e))) (\<lambda>q.
           bnd (django_host (at_host a)) (\<lambda>dh.
           bnd (special_task_create (h_id dh) TaskVerify (Some (q_id q)) None) (\<lambda>_. ret ())))
         else on_pending r))))"

definition cleanup_epilog :: "nat \<Rightarrow> unit sched" where
  "cleanup_epilog t =
     andthen (pre_job_epilog t) (
     bnd (get_task t) (\<lambda>a.
     andthen (when_do (task_succeeded a)
        (andthen (host_update_field (at_host a) h_dirty h_dirty_update False) (host_set_status (at_host a) HReady)))
       (cleanup_finish_epilog t)))"

subsection \<open>Jobs\<close>

definition LOST_PROCESS_ERROR :: string where
  "LOST_PROCESS_ERROR =
     ''Autoserv failed abnormally during execution for this job, probably due to a'' @ [CHR 0x0A] @
     ''system error on the Autotest server.  Full results may not be available.  Sorry.'' @ [CHR 0x0A]"

definition write_lost_process_error_file :: "nat \<Rightarrow> unit sched" where
  "write_lost_process_error_file t =
     bnd (working_directory t) (\<lambda>wd. dm (write_lines_to_file (path_join wd ''job_failure'') [LOST_PROCESS_ERROR] None))"

text \<open>\<open>AbstractQueueTask._finish_task\<close> and the parts the two subclasses add.\<close>

definition finish_monitored_task :: "nat \<Rightarrow> unit sched" where
  "finish_monitored_task t =
     bnd (get_task t) (\<lambda>a.
     if at_monitor a = None then ret () else
     andthen (write_job_finished t) (
     bnd (get_monitor (Own_monitor t)) (\<lambda>m.
     when_do (rm_lost_process m) (write_lost_process_error_file t))))"

definition gather_entry :: "entry_ref \<Rightarrow> unit sched" where
  "gather_entry r =
     andthen (entry_set_status r Gathering) (
     bnd (get_entry r) (\<lambda>e.
     bnd (some_or AttributeError (e_host e)) (\<lambda>h. host_set_status h HRunning)))"

definition finish_task :: "nat \<Rightarrow> unit sched" where
  "finish_task t =
     andthen (finish_monitored_task t) (
     bnd (get_task t) (\<lambda>a.
     if at_class a = QueueTask then for_each (at_queue_entries a) gather_entry
     else case at_queue_entries a of
         [] \<Rightarrow> throw IndexError
       | r # _ \<Rightarrow> entry_set_status r Parsing))"

definition queue_epilog :: "nat \<Rightarrow> unit sched" where
  "queue_epilog t = andthen (task_cleanup t) (finish_task t)"

subsection \<open>Post-job tasks\<close>

text \<open>The loop of \<open>_job_was_aborted\<close>; the accumulator is \<open>was_aborted\<close>.\<close>

primrec job_was_aborted_loop :: "entry_ref list \<Rightarrow> bool option \<Rightarrow> bool option sched" where
  "job_was_aborted_loop [] was_aborted = ret was_aborted"
| "job_was_aborted_loop (r # rs) was_aborted =
     andthen (entry_update_from_database r) (
     bnd (get_entry r) (\<lambda>e. case was_aborted of
       None \<Rightarrow> job_was_aborted_loop rs (Some (q_aborted (e_row e)))
     | Some b \<Rightarrow>
         if b \<noteq> q_aborted (e_row e)
         then andthen (enqueue_admin ''Inconsistent abort state'') (ret (Some True))
         else job_was_aborted_loop rs (Some b)))"

definition job_was_aborted :: "nat \<Rightarrow> bool sched" where
  "job_was_aborted t = bnd (get_task t) (\<lambda>a.
     bnd (job_was_aborted_loop (at_queue_entries a) None) (\<lambda>r. ret (r = Some True)))"

definition final_status :: "nat \<Rightarrow> hqe_status sched" where
  "final_status t =
     bnd (job_was_aborted t) (\<lambda>aborted.
     if aborted then ret Aborted else
     bnd (exit_code (Autoserv_monitor t)) (\<lambda>c. ret (if c = Some 0 then Completed else Failed)))"

text \<open>The reboot decision of \<open>_reboot_hosts\<close>.\<close>

definition do_reboot :: "hqe_status \<Rightarrow> reboot_after \<Rightarrow> bool \<Rightarrow> int \<Rightarrow> bool" where
  "do_reboot final reboot_after final_success num_failed \<longleftrightarrow>
     final = Aborted \<or> reboot_after = RA_Always \<or>
     (reboot_after = RA_If_all_tests_passed \<and> final_success \<and> num_failed = 0)"

definition gathered_result :: "nat \<Rightarrow> (bool \<times> int) sched" where
  "gathered_result t =
     bnd (has_process (Autoserv_monitor t)) (\<lambda>b.
     if b then bnd (final_status t) (\<lambda>s.
       bnd (num_tests_failed (Autoserv_monitor t)) (\<lambda>n. ret (s = Completed, n)))
     else ret (False, 0))"

definition reboot_host_of :: "nat \<Rightarrow> bool \<Rightarrow> entry_ref \<Rightarrow> unit sched" where
  "reboot_host_of job reboot r =
     bnd (get_entry r) (\<lambda>e.
     bnd (some_or AttributeError (e_host e)) (\<lambda>h.
     if reboot then
       bnd (django_host h) (\<lambda>dh.
       bnd (owner_model job) (\<lambda>u.
       bnd (special_task_create (h_id dh) TaskCleanup None (Some (u_id u))) (\<lambda>_. ret ())))
     else host_set_status h HReady))"

definition reboot_hosts :: "nat \<Rightarrow> unit sched" where
  "reboot_hosts t =
     bnd (gathered_result t) (\<lambda>(final_success, num_failed).
     bnd (get_task t) (\<lambda>a.
     bnd (get_job (at_job a)) (\<lambda>j.
     bnd (final_status t) (\<lambda>final.
     for_each (at_queue_entries a)
       (reboot_host_of (at_job a) (do_reboot final (j_reboot_after j) final_success num_failed))))))"

definition gather_logs_epilog :: "nat \<Rightarrow> unit sched" where
  "gather_logs_epilog t =
     andthen (task_cleanup t) (
     bnd (get_task t) (\<lambda>a.
     andthen (parse_results (at_queue_entries a)) (reboot_hosts t)))"

definition final_reparse_epilog :: "nat \<Rightarrow> unit sched" where
  "final_reparse_epilog t =
     andthen (task_cleanup t) (bnd (get_task t) (\<lambda>a. archive_results (at_queue_entries a)))"

definition exit_code_string :: "int option \<Rightarrow> string" where
  "exit_code_string c = (case c of None \<Rightarrow> ''None'' | Some i \<Rightarrow> str_of_int i)"

definition write_archiving_failed :: "nat \<Rightarrow> unit sched" where
  "write_archiving_failed t =
     bnd (working_directory t) (\<lambda>wd.
     bnd (get_process (Autoserv_monitor t)) (\<lambda>p.
     bnd (exit_code (Own_monitor t)) (\<lambda>c.
     dm (write_lines_to_file (path_join wd ''.archiver_failed'')
       [''Archiving failed with exit code '' @ exit_code_string c] (Some p)))))"

definition archive_results_epilog :: "nat \<Rightarrow> unit sched" where
  "archive_results_epilog t =
     andthen (task_cleanup t) (
     bnd (get_task t) (\<lambda>a.
     bnd (if task_succeeded a then ret False else has_process (Autoserv_monitor t)) (\<lambda>failed.
     andthen (when_do failed (write_archiving_failed t)) (
     bnd (final_status t) (\<lambda>s. set_all_statuses (at_queue_entries a) s)))))"

definition task_epilog :: "nat \<Rightarrow> unit sched" where
  "task_epilog t =
     bnd (get_task t) (\<lambda>a. case at_class a of
       RepairTask \<Rightarrow> repair_epilog t
     | VerifyTask \<Rightarrow> verify_epilog t
     | CleanupTask \<Rightarrow> cleanup_epilog t
     | QueueTask \<Rightarrow> queue_epilog t
     | HostlessQueueTask \<Rightarrow> queue_epilog t
     | GatherLogsTask \<Rightarrow> gather_logs_epilog t
     | FinalReparseTask \<Rightarrow> final_reparse_epilog t
     | ArchiveResultsTask \<Rightarrow> archive_results_epilog t
     | DelayedCallTask \<Rightarrow> ret ())"

section \<open>Finishing\<close>

definition num_running_processes :: "task_class \<Rightarrow> world \<Rightarrow> int" where
  "num_running_processes c w = (if c = FinalReparseTask then w_num_parsing w else w_num_archiving w)"

definition add_running_processes :: "task_class \<Rightarrow> int \<Rightarrow> unit sched" where
  "add_running_processes c n = modify (\<lambda>w.
     if c = FinalReparseTask then w\<lparr>w_num_parsing := w_num_parsing w + n\<rparr>
     else w\<lparr>w_num_archiving := w_num_archiving w + n\<rparr>)"

definition base_finished :: "nat \<Rightarrow> bool \<Rightarrow> unit sched" where
  "base_finished t success =
     bnd (get_task t) (\<lambda>a.
     if at_done a then assert_that (at_started a) else
     andthen (put_task t (a\<lparr>at_started := True, at_done := True, at_success := Some success\<rparr>)) (task_epilog t))"

definition task_finished :: "nat \<Rightarrow> bool \<Rightarrow> unit sched" where
  "task_finished t success =
     andthen (base_finished t success) (
     bnd (get_task t) (\<lambda>a.
     when_do (is_self_throttled (at_class a) \<and> at_monitor a \<noteq> None) (add_running_processes (at_class a) (-1))))"

section \<open>Prologs: what a task does before its process starts\<close>

definition base_prolog :: "nat \<Rightarrow> unit sched" where
  "base_prolog t =
     bnd (get_task t) (\<lambda>a. andthen (assert_that (at_monitor a = None)) (register_necessary_pidfiles t))"

definition special_prolog :: "nat \<Rightarrow> unit sched" where
  "special_prolog t =
     andthen (base_prolog t) (
     bnd (get_task t) (\<lambda>a.
     bnd (the_special_task a) (\<lambda>st.
     bnd (special_task_activate st) (\<lambda>st'.
     andthen (put_task t (a\<lparr>at_task := Some st'\<rparr>)) (write_host_keyvals t (at_host a))))))"

definition set_entry_status_if_any :: "agent_task \<Rightarrow> hqe_status \<Rightarrow> unit sched" where
  "set_entry_status_if_any a s = (case at_queue_entry a of None \<Rightarrow> ret () | Some r \<Rightarrow> entry_set_status r s)"

definition delete_queued_verifies :: "nat \<Rightarrow> nat \<Rightarrow> world \<Rightarrow> world" where
  "delete_queued_verifies h keep w = w\<lparr>db_special_tasks := filter (\<lambda>st.
     \<not> (st_host_id st = h \<and> st_task st = TaskVerify \<and> \<not> st_is_active st \<and> \<not> st_is_complete st \<and>
        st_queue_entry_id st = None \<and> st_id st \<noteq> keep)) (db_special_tasks w)\<rparr>"

definition verify_prolog :: "nat \<Rightarrow> unit sched" where
  "verify_prolog t =
     andthen (special_prolog t) (
     bnd (get_task t) (\<lambda>a.
     andthen (set_entry_status_if_any a Verifying) (
     andthen (host_set_status (at_host a) HVerifying) (
     bnd (the_special_task a) (\<lambda>st. modify (delete_queued_verifies (at_host a) (st_id st)))))))"

definition cleanup_prolog :: "nat \<Rightarrow> unit sched" where
  "cleanup_prolog t =
     andthen (special_prolog t) (
     bnd (get_task t) (\<lambda>a.
     andthen (host_set_status (at_host a) HCleaning) (set_entry_status_if_any a Verifying)))"

definition repair_prolog :: "nat \<Rightarrow> unit sched" where
  "repair_prolog t =
     andthen (special_prolog t) (bnd (get_task t) (\<lambda>a. host_set_status (at_host a) HRepairing))"

definition check_entry_status :: "hqe_status list \<Rightarrow> host_status list option \<Rightarrow> entry_ref \<Rightarrow> unit sched" where
  "check_entry_status allowed_hqe allowed_host r =
     bnd (get_entry r) (\<lambda>e.
     if q_status (e_row e) \<notin> set allowed_hqe then throw SchedulerError else
     case allowed_host of
       None \<Rightarrow> ret ()
     | Some hs \<Rightarrow> bnd (entry_host e) (\<lambda>h.
         if h_status h \<notin> Some ` set hs then throw SchedulerError else ret ()))"

definition check_queue_entry_statuses ::
  "entry_ref list \<Rightarrow> hqe_status list \<Rightarrow> host_status list option \<Rightarrow> unit sched" where
  "check_queue_entry_statuses entries allowed_hqe allowed_host =
     for_each entries (check_entry_status allowed_hqe allowed_host)"

definition start_entry :: "entry_ref \<Rightarrow> unit sched" where
  "start_entry r = andthen (entry_set_status r Running) (set_started_on_now r)"

text \<open>\<open>AbstractQueueTask.prolog\<close>, which does not call the prolog of \<open>AgentTask\<close>.\<close>

definition abstract_queue_prolog :: "nat \<Rightarrow> unit sched" where
  "abstract_queue_prolog t =
     bnd (get_task t) (\<lambda>a.
     bnd (get_job (at_job a)) (\<lambda>j.
     bnd (job_keyval_dict (at_job a)) (\<lambda>kvs.
     bnd (case at_queue_entries a of [] \<Rightarrow> throw IndexError | r # _ \<Rightarrow> get_group_name r) (\<lambda>group_name.
     let kvs1 = alist_put (fst (job_queued_keyval j)) (snd (job_queued_keyval j)) kvs;
         kvs2 = (if group_name = [] then kvs1 else alist_put ''host_group_name'' group_name kvs1) in
     andthen (write_keyvals_before_job t kvs2) (for_each (at_queue_entries a) start_entry)))))"

definition occupy_host :: "nat \<Rightarrow> entry_ref \<Rightarrow> unit sched" where
  "occupy_host t r =
     bnd (get_entry r) (\<lambda>e.
     bnd (some_or AttributeError (e_host e)) (\<lambda>h.
     andthen (write_host_keyvals t h) (
     andthen (host_set_status h HRunning) (host_update_field h h_dirty h_dirty_update True))))"

definition queue_prolog :: "nat \<Rightarrow> unit sched" where
  "queue_prolog t =
     bnd (get_task t) (\<lambda>a.
     andthen (check_queue_entry_statuses (at_queue_entries a) [Starting, Running] (Some [HPending, HRunning])) (
     andthen (abstract_queue_prolog t) (
     andthen (for_each (at_queue_entries a) (occupy_host t)) (
     bnd (get_job (at_job a)) (\<lambda>j.
     case at_queue_entries a of
       [r] \<Rightarrow> when_do (j_synch_count j = 1) (write_to_machines_file (at_job a) r)
     | _ \<Rightarrow> ret ())))))"

definition hostless_prolog :: "nat \<Rightarrow> unit sched" where
  "hostless_prolog t =
     bnd (get_task t) (\<lambda>a. case at_queue_entries a of
       [] \<Rightarrow> throw IndexError
     | r # _ \<Rightarrow> andthen (entry_update_field r q_execution_subdir q_execution_subdir_update ''hostless'')
                  (abstract_queue_prolog t))"

definition post_job_prolog :: "hqe_status \<Rightarrow> host_status list option \<Rightarrow> nat \<Rightarrow> unit sched" where
  "post_job_prolog s hosts t =
     bnd (get_task t) (\<lambda>a.
     andthen (check_queue_entry_statuses (at_queue_entries a) [s] hosts) (base_prolog t))"

definition task_prolog :: "nat \<Rightarrow> unit sched" where
  "task_prolog t =
     bnd (get_task t) (\<lambda>a. case at_class a of
       RepairTask \<Rightarrow> repair_prolog t
     | VerifyTask \<Rightarrow> verify_prolog t
     | CleanupTask \<Rightarrow> cleanup_prolog t
     | QueueTask \<Rightarrow> queue_prolog t
     | HostlessQueueTask \<Rightarrow> hostless_prolog t
     | GatherLogsTask \<Rightarrow> post_job_prolog Gathering (Some [HRunning]) t
     | FinalReparseTask \<Rightarrow> post_job_prolog Parsing None t
     | ArchiveResultsTask \<Rightarrow> post_job_prolog Archiving None t
     | DelayedCallTask \<Rightarrow> ret ())"

section \<open>Running\<close>

definition AUTOSERV_NICE_LEVEL :: int where "AUTOSERV_NICE_LEVEL = 10"

definition check_paired_results_exist :: "nat \<Rightarrow> bool sched" where
  "check_paired_results_exist t =
     bnd (paired_has_process t) (\<lambda>b.
     if b then ret True
     else andthen (enqueue_admin ''No paired results in task'') (andthen (task_finished t False) (ret False)))"

definition create_monitor :: "nat \<Rightarrow> unit sched" where
  "create_monitor t = bnd (get_task t) (\<lambda>a.
     andthen (assert_that (at_monitor a = None)) (put_task t (a\<lparr>at_monitor := Some new_run_monitor\<rparr>)))"

text \<open>\<open>AgentTask.run\<close>\<close>

definition base_run :: "nat \<Rightarrow> unit sched" where
  "base_run t =
     bnd (check_paired_results_exist t) (\<lambda>b.
     if \<not> b then ret () else
     andthen (create_monitor t) (
     bnd (task_command_line t) (\<lambda>command.
     bnd (working_directory t) (\<lambda>wd.
     bnd (get_task t) (\<lambda>a.
     bnd (task_log_file t) (\<lambda>log_file.
     bnd (paired_pidfile_id t) (\<lambda>paired.
     bnd (owner_username t) (\<lambda>username.
     bnd (get_drone_hostnames_allowed t) (\<lambda>allowed.
     monitor_run (Own_monitor t) command wd (num_processes a) AUTOSERV_NICE_LEVEL log_file
       (pidfile_name (at_class a)) paired username allowed)))))))))"

definition gather_logs_run :: "nat \<Rightarrow> unit sched" where
  "gather_logs_run t =
     bnd (exit_code (Autoserv_monitor t)) (\<lambda>c. case c of
       None \<Rightarrow> base_run t
     | Some st \<Rightarrow> if WIFSIGNALED st then base_run t else task_finished t True)"

definition max_processes :: "task_class \<Rightarrow> world \<Rightarrow> int" where
  "max_processes c w =
     (if c = FinalReparseTask then cfg_max_parse_processes (w_cfg w) else cfg_max_transfer_processes (w_cfg w))"

definition can_run_new_process :: "task_class \<Rightarrow> world \<Rightarrow> bool" where
  "can_run_new_process c w \<longleftrightarrow> num_running_processes c w < max_processes c w"

definition try_starting_process :: "nat \<Rightarrow> unit sched" where
  "try_starting_process t =
     bnd (get_task t) (\<lambda>a.
     bnd (gets (can_run_new_process (at_class a))) (\<lambda>can.
     if \<not> can then ret () else
     andthen (base_run t) (
     bnd (get_task t) (\<lambda>a2. when_do (at_monitor a2 \<noteq> None) (add_running_processes (at_class a) 1)))))"

definition task_run :: "nat \<Rightarrow> unit sched" where
  "task_run t = bnd (get_task t) (\<lambda>a.
     if at_class a = GatherLogsTask then gather_logs_run t
     else if is_self_throttled (at_class a) then try_starting_process t
     else base_run t)"

definition task_start :: "nat \<Rightarrow> unit sched" where
  "task_start t =
     bnd (get_task t) (\<lambda>a.
     andthen (when_do (\<not> at_started a) (andthen (task_prolog t) (task_run t)))
       (upd_task t (\<lambda>a. a\<lparr>at_started := True\<rparr>)))"

text \<open>\<open>AgentTask.tick\<close> and the override of the self-throttled tasks.\<close>

definition base_tick :: "nat \<Rightarrow> unit sched" where
  "base_tick t =
     bnd (get_task t) (\<lambda>a.
     andthen (assert_that (at_monitor a \<noteq> None)) (
     bnd (exit_code (Own_monitor t)) (\<lambda>c. case c of
       None \<Rightarrow> ret ()
     | Some st \<Rightarrow> task_finished t (st = 0))))"

definition task_tick :: "nat \<Rightarrow> unit sched" where
  "task_tick t = bnd (get_task t) (\<lambda>a.
     if is_self_throttled (at_class a) \<and> at_monitor a = None then try_starting_process t else base_tick t)"

definition task_poll :: "nat \<Rightarrow> unit sched" where
  "task_poll t =
     bnd (get_task t) (\<lambda>a.
     if at_class a = DelayedCallTask then delayed_poll t else
     andthen (when_do (\<not> at_started a) (task_start t)) (
     bnd (get_task t) (\<lambda>a. when_do (\<not> at_done a) (task_tick t))))"

definition task_is_done :: "agent_task \<Rightarrow> bool" where
  "task_is_done a = (if at_class a = DelayedCallTask then delayed_is_done a else at_done a)"

section \<open>Aborting and recovering\<close>

definition base_abort :: "nat \<Rightarrow> unit sched" where
  "base_abort t =
     bnd (get_task t) (\<lambda>a.
     andthen (when_do (at_monitor a \<noteq> None) (monitor_kill (Own_monitor t))) (
     andthen (upd_task t (\<lambda>a. a\<lparr>at_done := True, at_aborted := True\<rparr>)) (task_cleanup t)))"

definition collect_abort_info ::
  "entry_ref \<Rightarrow> string list \<times> int list \<Rightarrow> (string list \<times> int list) sched" where
  "collect_abort_info r acc =
     bnd (load_abort_info r) (\<lambda>(aborted_by, aborted_on). case aborted_by of
       None \<Rightarrow> ret acc
     | Some u \<Rightarrow> if u = [] then ret acc else
         bnd (some_or AttributeError aborted_on) (\<lambda>n. ret (set_add u (fst acc), set_add n (snd acc))))"

definition write_status_comment :: "nat \<Rightarrow> string \<Rightarrow> unit sched" where
  "write_status_comment t comment =
     bnd (working_directory t) (\<lambda>wd.
     bnd (get_process (Own_monitor t)) (\<lambda>p.
     dm (write_lines_to_file (path_join wd ''status.log'')
       [''INFO'' @ [CHR 0x09] @ ''----'' @ [CHR 0x09] @ ''----'' @ [CHR 0x09] @ comment] (Some p))))"

definition log_abort_info :: "nat \<Rightarrow> unit sched" where
  "log_abort_info t =
     bnd (get_task t) (\<lambda>a.
     bnd (if at_monitor a = None then ret False else has_process (Own_monitor t)) (\<lambda>running.
     if \<not> running then ret () else
     bnd (fold_each (at_queue_entries a) ([], []) collect_abort_info) (\<lambda>(by_users, times).
     andthen (assert_that (length by_users \<le> 1)) (
     bnd now (\<lambda>n.
     let aborted_by = (case by_users of [] \<Rightarrow> AUTOTEST_SYSTEM | u # _ \<Rightarrow> u);
         aborted_on = (case (by_users, times) of (_ # _, x # xs) \<Rightarrow> foldl max x xs | _ \<Rightarrow> n) in
     andthen (write_keyval_after_job t ''aborted_by'' aborted_by) (
     andthen (write_keyval_after_job t ''aborted_on'' (str_of_int aborted_on)) (
     bnd (gets (\<lambda>w. cfg_str_time (w_cfg w) aborted_on)) (\<lambda>time_string.
     write_status_comment t (''Job aborted by '' @ aborted_by @ '' on '' @ time_string)))))))))"

definition task_abort :: "nat \<Rightarrow> unit sched" where
  "task_abort t =
     bnd (get_task t) (\<lambda>a.
     if at_class a = DelayedCallTask then delayed_abort t
     else if is_post_job_class (at_class a) then ret ()
     else if is_queue_class (at_class a) then
       andthen (base_abort t) (andthen (log_abort_info t) (finish_task t))
     else base_abort t)"

definition task_recover :: "nat \<Rightarrow> unit sched" where
  "task_recover t =
     bnd (check_paired_results_exist t) (\<lambda>b.
     if \<not> b then ret () else
     andthen (create_monitor t) (
     bnd (working_directory t) (\<lambda>wd.
     bnd (get_task t) (\<lambda>a.
     andthen (attach_to_existing_process (Own_monitor t) wd (pidfile_name (at_class a)) (Some (num_processes a))) (
     bnd (has_process (Own_monitor t)) (\<lambda>found.
     if \<not> found then upd_task t (\<lambda>a. a\<lparr>at_monitor := None\<rparr>)
     else upd_task t (\<lambda>a. a\<lparr>at_started := True\<rparr>)))))))"

end
