(* ===== verification/Cleanup.thy ===== *)
theory Cleanup
  imports Task_Lifecycle
begin

text \<open>
  The periodic cleanup of the database, scheduler/monitor_db_cleanup.py: aborting jobs that timed out,
  clearing host blocks of finished jobs, cutting relations to invalid objects, reverifying dead hosts,
  and the daily search for inconsistent rows.
\<close>

section \<open>When a cleanup runs\<close>

definition cleanup_is_due :: "int \<Rightarrow> int \<Rightarrow> int \<Rightarrow> bool" where
  "cleanup_is_due last_clean_time clean_interval t \<longleftrightarrow> last_clean_time + clean_interval * 60 < t"

section \<open>Aborting jobs\<close>

text \<open>
  \<open>_disable_host_installation\<close>: with an install server configured, \<open>get_system_handle\<close> of
  server/hosts/install_server.py reads the attribute \<open>hostname\<close> of its argument, which a plain string
  does not have.
\<close>

datatype install_arg = Host_object string | Plain_name string

definition disable_host_installation :: "install_arg \<Rightarrow> unit sched" where
  "disable_host_installation arg =
     bnd (gets (\<lambda>w. cfg_disable_installation (w_cfg w))) (\<lambda>server. case server of
       None \<Rightarrow> ret ()
     | Some answer \<Rightarrow> (case arg of
         Plain_name n \<Rightarrow> throw AttributeError
       | Host_object n \<Rightarrow> (case answer n of None \<Rightarrow> ret () | Some e \<Rightarrow> throw e)))"

definition disable_entry_installation :: "hqe_row \<Rightarrow> unit sched" where
  "disable_entry_installation q = (case q_host_id q of
       None \<Rightarrow> ret ()
     | Some h \<Rightarrow> bnd (django_host h) (\<lambda>host. disable_host_installation (Host_object (h_hostname host))))"

definition timed_out_jobs :: "world \<Rightarrow> job_row list" where
  "timed_out_jobs w = filter (\<lambda>j. list_ex (\<lambda>q. q_job_id q = j_id j \<and> \<not> q_complete q) (db_hqes w) \<and>
     j_created_on j + j_timeout j * 3600 < w_now w) (db_jobs w)"

definition abort_timed_out_job :: "job_row \<Rightarrow> unit sched" where
  "abort_timed_out_job j =
     bnd (gets (job_entries (j_id j))) (\<lambda>entries.
     andthen (for_each entries disable_entry_installation) (model_job_abort (j_id j)))"

definition abort_timed_out_jobs :: "unit sched" where
  "abort_timed_out_jobs = bnd (gets timed_out_jobs) (\<lambda>jobs. for_each jobs abort_timed_out_job)"

definition past_max_runtime :: "world \<Rightarrow> hqe_row list" where
  "past_max_runtime w = filter (\<lambda>q. \<not> q_complete q \<and> \<not> q_aborted q \<and>
     (case (q_started_on q, find_row j_id (q_job_id q) (db_jobs w)) of
        (Some t, Some j) \<Rightarrow> t + j_max_runtime_hrs j * 3600 < w_now w | _ \<Rightarrow> False)) (db_hqes w)"

text \<open>The body of the loop reads \<open>queue_entry.host.hostname\<close> of every entry.\<close>

definition abort_past_max_runtime :: "hqe_row \<Rightarrow> unit sched" where
  "abort_past_max_runtime q =
     bnd (some_or AttributeError (q_host_id q)) (\<lambda>h.
     bnd (django_host h) (\<lambda>host.
     andthen (disable_host_installation (Plain_name (h_hostname host))) (hqe_abort q)))"

definition abort_jobs_past_max_runtime :: "unit sched" where
  "abort_jobs_past_max_runtime = bnd (gets past_max_runtime) (\<lambda>entries. for_each entries abort_past_max_runtime)"

section \<open>Blocks and invalid objects\<close>

definition block_is_inactive :: "hqe_row list \<Rightarrow> block_row \<Rightarrow> bool" where
  "block_is_inactive entries b \<longleftrightarrow> \<not> list_ex (\<lambda>q. q_job_id q = b_job_id b \<and> \<not> q_complete q) entries"

definition clear_inactive_blocks :: "unit sched" where
  "clear_inactive_blocks = modify (\<lambda>w. w\<lparr>db_blocks := filter (\<lambda>b. \<not> block_is_inactive (db_hqes w) b) (db_blocks w)\<rparr>)"

text \<open>
  \<open>_check_all_invalid_related_objects\<close> on the relations modelled: hosts with labels both ways, and
  hosts with access control groups. Each answers the number of error lines.
\<close>

definition invalid_hosts :: "world \<Rightarrow> nat list" where
  "invalid_hosts w = map h_id (filter h_invalid (db_hosts w))"

definition invalid_labels :: "world \<Rightarrow> nat list" where
  "invalid_labels w = map l_id (filter l_invalid (db_labels w))"

definition clear_invalid_host_labels :: "nat sched" where
  "clear_invalid_host_labels =
     bnd (gets (\<lambda>w. filter (\<lambda>h. h \<in> fst ` set (db_hosts_labels w)) (invalid_hosts w))) (\<lambda>bad.
     andthen (modify (\<lambda>w. w\<lparr>db_hosts_labels := filter (\<lambda>(h, l). h \<notin> set bad) (db_hosts_labels w)\<rparr>))
       (ret (length bad)))"

definition clear_invalid_label_hosts :: "nat sched" where
  "clear_invalid_label_hosts =
     bnd (gets (\<lambda>w. filter (\<lambda>l. l \<in> snd ` set (db_hosts_labels w)) (invalid_labels w))) (\<lambda>bad.
     andthen (modify (\<lambda>w. w\<lparr>db_hosts_labels := filter (\<lambda>(h, l). l \<notin> set bad) (db_hosts_labels w)\<rparr>))
       (ret (length bad)))"

definition clear_invalid_host_acls :: "nat sched" where
  "clear_invalid_host_acls =
     bnd (gets (\<lambda>w. filter (\<lambda>h. h \<in> snd ` set (db_acl_hosts w)) (invalid_hosts w))) (\<lambda>bad.
     andthen (modify (\<lambda>w. w\<lparr>db_acl_hosts := filter (\<lambda>(g, h). h \<notin> set bad) (db_acl_hosts w)\<rparr>))
       (ret (length bad)))"

definition check_all_invalid_related_objects :: "unit sched" where
  "check_all_invalid_related_objects =
     bnd clear_invalid_host_labels (\<lambda>a.
     bnd clear_invalid_label_hosts (\<lambda>b.
     bnd clear_invalid_host_acls (\<lambda>c.
     when_do (a + b + c > 0)
       (enqueue_admin (str_of_nat (a + b + c) @ '' relationships to invalid models, cleaned all'')))))"

section \<open>Reverifying dead hosts\<close>

definition should_reverify_hosts_now :: "world \<Rightarrow> bool" where
  "should_reverify_hosts_now w =
     (let period = cfg_reverify_period_minutes (w_cfg w) * 60
      in period \<noteq> 0 \<and> w_last_reverify w + period \<le> w_now w)"

text \<open>
  \<open>random.sample\<close> is the argument \<open>sample\<close>; \<open>sorted\<close> on host objects orders them by their addresses, so
  the order of the answer means nothing.
\<close>

definition choose_subset_of_hosts_to_reverify ::
  "(nat list \<Rightarrow> nat \<Rightarrow> nat list) \<Rightarrow> int \<Rightarrow> nat list \<Rightarrow> nat list" where
  "choose_subset_of_hosts_to_reverify sample max_at_once hosts =
     (if max_at_once > 0 \<and> int (length hosts) > max_at_once then sample hosts (nat max_at_once) else hosts)"

definition dead_hosts :: "world \<Rightarrow> nat list" where
  "dead_hosts w = map h_id (filter (\<lambda>h. h_status h = Some HRepairFailed \<and> \<not> h_locked h \<and> \<not> h_invalid h \<and>
     h_protection h \<noteq> Do_not_verify) (db_hosts w))"

definition reverify_dead_hosts :: "(nat list \<Rightarrow> nat \<Rightarrow> nat list) \<Rightarrow> unit sched" where
  "reverify_dead_hosts sample =
     bnd (gets should_reverify_hosts_now) (\<lambda>due.
     if \<not> due then ret () else
     andthen (modify (\<lambda>w. w\<lparr>w_last_reverify := w_now w\<rparr>)) (
     bnd (gets dead_hosts) (\<lambda>hosts.
     bnd (gets (\<lambda>w. cfg_reverify_max_hosts_at_once (w_cfg w))) (\<lambda>n.
     if hosts = [] then ret () else
     for_each (choose_subset_of_hosts_to_reverify sample n hosts)
       (\<lambda>h. bnd (schedule_special_task h TaskVerify) (\<lambda>_. ret ()))))))"

definition user_cleanup :: "(nat list \<Rightarrow> nat \<Rightarrow> nat list) \<Rightarrow> unit sched" where
  "user_cleanup sample =
     andthen abort_timed_out_jobs (
     andthen abort_jobs_past_max_runtime (
     andthen clear_inactive_blocks (
     andthen check_all_invalid_related_objects (reverify_dead_hosts sample))))"

section \<open>The daily check\<close>

definition check_for_active_and_complete_queue_entries :: "unit sched" where
  "check_for_active_and_complete_queue_entries =
     bnd (gets (where_hqe (\<lambda>q. q_active q \<and> q_complete q))) (\<lambda>bad.
     when_do (bad \<noteq> []) (enqueue_admin (str_of_nat (length bad) @ '' queue entries found with active=complete=1'')))"

definition host_labels_where :: "(label_row \<Rightarrow> bool) \<Rightarrow> nat \<Rightarrow> world \<Rightarrow> label_row list" where
  "host_labels_where p h w = filter (\<lambda>l. p l \<and> (h, l_id l) \<in> set (db_hosts_labels w)) (db_labels w)"

definition multiple_platform_hosts :: "world \<Rightarrow> nat list" where
  "multiple_platform_hosts w = map h_id (filter (\<lambda>h. length (host_labels_where l_platform (h_id h) w) > 1) (db_hosts w))"

definition check_for_multiple_platform_hosts :: "unit sched" where
  "check_for_multiple_platform_hosts =
     bnd (gets multiple_platform_hosts) (\<lambda>rows.
     when_do (rows \<noteq> []) (enqueue_admin (str_of_nat (length rows) @ '' hosts with multiple platforms'')))"

definition host_atomic_groups :: "nat \<Rightarrow> world \<Rightarrow> string list" where
  "host_atomic_groups h w = remdups (List.map_filter (\<lambda>l. case l_atomic_group_id l of
       None \<Rightarrow> None
     | Some a \<Rightarrow> map_option ag_name (find_row ag_id a (db_atomic_groups w)))
     (host_labels_where (\<lambda>l. \<not> l_invalid l) h w))"

definition multiple_atomic_group_hosts :: "world \<Rightarrow> nat list" where
  "multiple_atomic_group_hosts w =
     map h_id (filter (\<lambda>h. \<not> h_invalid h \<and> length (host_atomic_groups (h_id h) w) > 1) (db_hosts w))"

definition check_for_multiple_atomic_group_hosts :: "unit sched" where
  "check_for_multiple_atomic_group_hosts =
     bnd (gets multiple_atomic_group_hosts) (\<lambda>rows.
     when_do (rows \<noteq> []) (enqueue_admin (str_of_nat (length rows) @ '' hosts with multiple atomic groups'')))"

definition upkeep_cleanup :: "unit sched" where
  "upkeep_cleanup =
     andthen check_for_active_and_complete_queue_entries (
     andthen check_for_multiple_platform_hosts check_for_multiple_atomic_group_hosts)"

definition run_cleanup :: "(nat list \<Rightarrow> nat \<Rightarrow> nat list) \<Rightarrow> unit sched" where
  "run_cleanup sample =
     bnd (gets (\<lambda>w. cleanup_is_due (w_last_user_cleanup w) (cfg_clean_interval (w_cfg w)) (w_now w))) (\<lambda>due.
     andthen (when_do due (andthen (user_cleanup sample) (modify (\<lambda>w. w\<lparr>w_last_user_cleanup := w_now w\<rparr>)))) (
     bnd (gets (\<lambda>w. cleanup_is_due (w_last_upkeep w) (24 * 60) (w_now w))) (\<lambda>due.
     when_do due (andthen upkeep_cleanup (modify (\<lambda>w. w\<lparr>w_last_upkeep := w_now w\<rparr>))))))"

end
