(* ===== verification/Dispatcher.thy ===== *)
theory Dispatcher
  imports Cleanup
begin

text \<open>
  \<open>Agent\<close> and \<open>Dispatcher\<close> of scheduler/monitor_db.py: the agents that carry the tasks, the tables of
  agents by host and by queue entry, the throttle, and the steps of one scheduler tick. Garbage collector
  statistics are not modelled; the turn of the recurring runs, which nothing here reads, is in Recurring.
\<close>

section \<open>Agents\<close>

definition get_agent :: "nat \<Rightarrow> agent sched" where
  "get_agent t = bnd (gets (\<lambda>w. w_agent_objs w t)) (some_or AttributeError)"

definition put_agent :: "nat \<Rightarrow> agent \<Rightarrow> unit sched" where
  "put_agent t a = modify (\<lambda>w. w\<lparr>w_agent_objs := (w_agent_objs w)(t \<mapsto> a)\<rparr>)"

definition new_agent :: "agent_task \<Rightarrow> agent" where
  "new_agent a = \<lparr>ag_queue_entry_ids = at_queue_entry_ids a, ag_host_ids = at_host_ids a,
     ag_started = False, ag_finished = False\<rparr>"

definition agent_tick :: "nat \<Rightarrow> unit sched" where
  "agent_tick t =
     bnd (get_agent t) (\<lambda>g.
     andthen (put_agent t (g\<lparr>ag_started := True\<rparr>)) (
     if ag_finished g then ret () else
     andthen (task_poll t) (
     bnd (get_task t) (\<lambda>a.
     when_do (task_is_done a) (bnd (get_agent t) (\<lambda>g. put_agent t (g\<lparr>ag_finished := True\<rparr>)))))))"

definition agent_abort :: "nat \<Rightarrow> unit sched" where
  "agent_abort t =
     andthen (task_abort t) (
     bnd (get_task t) (\<lambda>a.
     when_do (at_aborted a) (bnd (get_agent t) (\<lambda>g. put_agent t (g\<lparr>ag_finished := True\<rparr>)))))"

section \<open>The tables of agents\<close>

definition register_agent_for_ids :: "nat \<Rightarrow> nat list \<Rightarrow> (nat \<times> nat list) list \<Rightarrow> (nat \<times> nat list) list" where
  "register_agent_for_ids t ids d = foldl (\<lambda>d i. dict_add d (i, t)) d ids"

fun unregister_agent_for_ids ::
  "nat \<Rightarrow> nat list \<Rightarrow> (nat \<times> nat list) list \<Rightarrow> exn + (nat \<times> nat list) list" where
  "unregister_agent_for_ids t [] d = Inr d"
| "unregister_agent_for_ids t (i # ids) d = (case map_of d i of
       None \<Rightarrow> Inl AssertionError
     | Some ts \<Rightarrow> if t \<notin> set ts then Inl KeyError
                  else unregister_agent_for_ids t ids (alist_put i (set_discard t ts) d))"

definition add_agent_task :: "nat \<Rightarrow> unit sched" where
  "add_agent_task t =
     bnd (get_task t) (\<lambda>a.
     let g = new_agent a in
     andthen (put_agent t g) (
     modify (\<lambda>w. w\<lparr>w_agents := w_agents w @ [t],
       w_host_agents := register_agent_for_ids t (ag_host_ids g) (w_host_agents w),
       w_queue_entry_agents := register_agent_for_ids t (ag_queue_entry_ids g) (w_queue_entry_agents w)\<rparr>)))"

definition host_has_agent :: "nat \<Rightarrow> world \<Rightarrow> bool" where
  "host_has_agent h w \<longleftrightarrow> dict_get (w_host_agents w) h \<noteq> []"

definition remove_agent :: "nat \<Rightarrow> unit sched" where
  "remove_agent t =
     bnd (gets (\<lambda>w. t \<in> set (w_agents w))) (\<lambda>found.
     if \<not> found then throw ValueError else
     andthen (modify (\<lambda>w. w\<lparr>w_agents := remove1 t (w_agents w)\<rparr>)) (
     bnd (get_agent t) (\<lambda>g.
     bnd (gets (\<lambda>w. unregister_agent_for_ids t (ag_host_ids g) (w_host_agents w))) (\<lambda>hosts.
     bnd (lift_sum hosts) (\<lambda>hosts.
     andthen (modify (\<lambda>w. w\<lparr>w_host_agents := hosts\<rparr>)) (
     bnd (gets (\<lambda>w. unregister_agent_for_ids t (ag_queue_entry_ids g) (w_queue_entry_agents w))) (\<lambda>entries.
     bnd (lift_sum entries) (\<lambda>entries.
     modify (\<lambda>w. w\<lparr>w_queue_entry_agents := entries\<rparr>)))))))))"

definition host_has_scheduled_special_task :: "nat \<Rightarrow> world \<Rightarrow> bool" where
  "host_has_scheduled_special_task h w \<longleftrightarrow>
     list_ex (\<lambda>t. st_host_id t = h \<and> \<not> st_is_active t \<and> \<not> st_is_complete t) (db_special_tasks w)"

section \<open>Tasks for entries and special tasks\<close>

definition assert_host_has_no_agent :: "nat \<Rightarrow> unit sched" where
  "assert_host_has_no_agent h = bnd (gets (host_has_agent h)) (\<lambda>b. if b then throw SchedulerError else ret ())"

definition check_duplicate_host_entry :: "entry_ref \<Rightarrow> unit sched" where
  "check_duplicate_host_entry r =
     bnd (get_entry r) (\<lambda>e. case e_host e of
       None \<Rightarrow> ret ()
     | Some h \<Rightarrow> if q_status (e_row e) \<in> {Parsing, Archiving} then ret () else assert_host_has_no_agent h)"

definition get_agent_task_for_queue_entry :: "entry_ref \<Rightarrow> nat sched" where
  "get_agent_task_for_queue_entry r =
     bnd (get_entry r) (\<lambda>e.
     bnd (get_group_entries (q_job_id (e_row e)) r) (\<lambda>task_entries.
     andthen (for_each task_entries check_duplicate_host_entry) (
     bnd (get_entry r) (\<lambda>e.
     let s = q_status (e_row e) in
     if s = Starting \<or> s = Running then
       (if is_hostless (e_row e) then new_hostless_queue_task r else new_queue_task task_entries)
     else if s = Gathering then new_gather_logs_task task_entries
     else if s = Parsing then new_final_reparse_task task_entries
     else if s = Archiving then new_archive_results_task task_entries
     else throw SchedulerError))))"

text \<open>One entry of the loop of \<open>_get_queue_entry_agent_tasks\<close>: the tasks made and the entries they use.\<close>

definition agent_task_for_entry ::
  "entry_ref \<Rightarrow> nat list \<times> entry_ref list \<Rightarrow> (nat list \<times> entry_ref list) sched" where
  "agent_task_for_entry r acc =
     bnd (get_entry r) (\<lambda>e.
     bnd (gets (get_agents_for_entry (e_row e))) (\<lambda>agents.
     if agents \<noteq> [] \<or> r \<in> set (snd acc) then ret acc else
     bnd (get_agent_task_for_queue_entry r) (\<lambda>t.
     bnd (get_task t) (\<lambda>a. ret (fst acc @ [t], snd acc @ at_queue_entries a)))))"

definition agent_task_statuses :: "hqe_status list" where
  "agent_task_statuses = [Starting, Running, Gathering, Parsing, Archiving]"

definition get_queue_entry_agent_tasks :: "nat list sched" where
  "get_queue_entry_agent_tasks =
     bnd (fetch_entries (where_hqe (\<lambda>q. q_status q \<in> set agent_task_statuses))) (\<lambda>entries.
     bnd (fold_each entries ([], []) agent_task_for_entry) (\<lambda>acc. ret (fst acc)))"

definition get_agent_task_for_special_task :: "special_task \<Rightarrow> nat sched" where
  "get_agent_task_for_special_task st =
     andthen (assert_host_has_no_agent (st_host_id st)) (case st_task st of
         TaskCleanup \<Rightarrow> new_cleanup_task st
       | TaskVerify \<Rightarrow> new_verify_task st
       | TaskRepair \<Rightarrow> new_repair_task st)"

definition get_special_task_agent_tasks :: "bool \<Rightarrow> nat list sched" where
  "get_special_task_agent_tasks is_active =
     bnd (gets (\<lambda>w. filter (\<lambda>t. st_is_active t = is_active \<and> \<not> st_is_complete t) (db_special_tasks w))) (\<lambda>tasks.
     map_each tasks get_agent_task_for_special_task)"

section \<open>Recovery\<close>

definition create_recovery_agent_tasks :: "nat list sched" where
  "create_recovery_agent_tasks =
     bnd get_queue_entry_agent_tasks (\<lambda>a. bnd (get_special_task_agent_tasks True) (\<lambda>b. ret (a @ b)))"

text \<open>One step of \<open>_recover_tasks\<close>; the accumulator is the set of orphans.\<close>

definition recover_agent_task :: "nat \<Rightarrow> process list \<Rightarrow> process list sched" where
  "recover_agent_task t orphans =
     andthen (task_recover t) (
     bnd (get_task t) (\<lambda>a.
     bnd (if at_monitor a = None then ret False else has_process (Own_monitor t)) (\<lambda>b.
     bnd (if b then bnd (get_process (Own_monitor t)) (\<lambda>p. ret (filter (\<lambda>q. \<not> same_process p q) orphans))
          else ret orphans) (\<lambda>orphans'.
     andthen (add_agent_task t) (ret orphans')))))"

definition check_for_remaining_orphan_processes :: "process list \<Rightarrow> unit sched" where
  "check_for_remaining_orphan_processes orphans =
     (if orphans = [] then ret () else
      andthen (enqueue_admin ''Unrecovered orphan autoserv processes remain'') (
      bnd (gets (\<lambda>w. cfg_die_on_orphans (w_cfg w))) (\<lambda>die.
      if die then throw RuntimeError else ret ())))"

definition recover_tasks :: "nat list \<Rightarrow> unit sched" where
  "recover_tasks tasks =
     bnd (gets (\<lambda>w. get_orphaned_autoserv_processes (w_dm w))) (\<lambda>orphans.
     bnd (fold_each tasks orphans recover_agent_task) check_for_remaining_orphan_processes)"

definition recover_pending_entry :: "entry_ref \<Rightarrow> unit sched" where
  "recover_pending_entry r =
     bnd (get_entry r) (\<lambda>e.
     bnd (gets (get_agents_for_entry (e_row e))) (\<lambda>agents.
     when_do (q_status (e_row e) = Pending \<and> agents = []) (on_pending r)))"

definition recover_pending_entries :: "unit sched" where
  "recover_pending_entries =
     bnd (fetch_entries (where_hqe (\<lambda>q. q_status q = Pending))) (\<lambda>entries. for_each entries recover_pending_entry)"

definition check_for_unrecovered_verifying_entries :: "unit sched" where
  "check_for_unrecovered_verifying_entries =
     bnd (fetch_entries (where_hqe (\<lambda>q. q_status q = Verifying))) (\<lambda>entries.
     bnd (map_each entries get_entry) (\<lambda>es.
     bnd (gets db_special_tasks) (\<lambda>tasks.
     if list_all (\<lambda>e. list_ex (\<lambda>t. st_task t \<in> {TaskCleanup, TaskVerify} \<and>
            st_queue_entry_id t = Some (q_id (e_row e)) \<and> \<not> st_is_complete t) tasks) es
     then ret () else throw SchedulerError)))"

text \<open>The body of the loop of \<open>_reverify_hosts_where\<close>: the task is created without \<open>requested_by\<close>.\<close>

definition reverify_host :: "bool \<Rightarrow> nat \<Rightarrow> unit sched" where
  "reverify_host repair_failed h =
     bnd (gets (host_has_agent h)) (\<lambda>a.
     bnd (gets (host_has_scheduled_special_task h)) (\<lambda>s.
     if a \<or> s then ret () else
     bnd (get_host h) (\<lambda>hr.
     andthen (when_do repair_failed (enqueue_admin (''Host '' @ h_hostname hr @ '' is in Repair Failed state''))) (
     bnd (django_host h) (\<lambda>dh.
     bnd (special_task_create (h_id dh) TaskCleanup None None) (\<lambda>_. ret ()))))))"

definition reverify_hosts_where :: "(host_row \<Rightarrow> bool) \<Rightarrow> bool \<Rightarrow> unit sched" where
  "reverify_hosts_where p repair_failed =
     bnd (fetch_hosts (\<lambda>w. filter (\<lambda>h. \<not> h_locked h \<and> \<not> h_invalid h \<and> p h) (db_hosts w))) (\<lambda>hosts.
     for_each hosts (reverify_host repair_failed))"

definition reverify_remaining_hosts :: "unit sched" where
  "reverify_remaining_hosts =
     reverify_hosts_where (\<lambda>h. h_status h \<in> Some ` {HRepairing, HVerifying, HCleaning}) False"

definition recover_hosts :: "unit sched" where
  "recover_hosts = reverify_hosts_where (\<lambda>h. h_status h = Some HRepairFailed) True"

definition recover_processes :: "unit sched" where
  "recover_processes =
     bnd create_recovery_agent_tasks (\<lambda>tasks.
     andthen (for_each tasks register_necessary_pidfiles) (
     andthen (dm dm_refresh) (
     andthen (recover_tasks tasks) (
     andthen recover_pending_entries (
     andthen check_for_unrecovered_verifying_entries (
     andthen reverify_remaining_hosts (
     andthen (dm execute_actions) (dm reinitialize_drones))))))))"

definition dispatcher_initialize :: "bool \<Rightarrow> unit sched" where
  "dispatcher_initialize do_recover_hosts =
     andthen upkeep_cleanup (
     andthen recover_processes (when_do do_recover_hosts recover_hosts))"

section \<open>Scheduling special tasks\<close>

fun task_priority :: "special_task_kind \<Rightarrow> nat" where
  "task_priority TaskRepair = 0"
| "task_priority TaskCleanup = 1"
| "task_priority TaskVerify = 2"

text \<open>The rows a task has in the join with the active entries of its host.\<close>

definition joined_rows :: "world \<Rightarrow> special_task \<Rightarrow> special_task list" where
  "joined_rows w t = (case filter (\<lambda>q. q_active q \<and> q_host_id q = Some (st_host_id t)) (db_hqes w) of
       [] \<Rightarrow> [t]
     | active \<Rightarrow> map (\<lambda>_. t) (filter (\<lambda>q. st_queue_entry_id t = Some (q_id q)) active))"

definition queued_special_tasks :: "world \<Rightarrow> special_task list" where
  "queued_special_tasks w = filter (\<lambda>t. \<not> st_is_active t \<and> \<not> st_is_complete t \<and>
     (case find_row h_id (st_host_id t) (db_hosts w) of None \<Rightarrow> False | Some h \<Rightarrow> \<not> h_locked h)) (db_special_tasks w)"

definition get_prioritized_special_tasks :: "world \<Rightarrow> special_task list" where
  "get_prioritized_special_tasks w =
     sort_by (\<lambda>a b. task_priority (st_task a) \<le> task_priority (st_task b))
       (concat (map (joined_rows w) (queued_special_tasks w)))"

definition schedule_one_special_task :: "special_task \<Rightarrow> unit sched" where
  "schedule_one_special_task st =
     bnd (gets (host_has_agent (st_host_id st))) (\<lambda>busy.
     if busy then ret () else bnd (get_agent_task_for_special_task st) add_agent_task)"

definition schedule_special_tasks :: "unit sched" where
  "schedule_special_tasks = bnd (gets get_prioritized_special_tasks) (\<lambda>ts. for_each ts schedule_one_special_task)"

section \<open>Scheduling jobs\<close>

text \<open>\<open>ORDER BY afe_jobs.priority DESC, meta_host, job_id\<close>; NULL sorts first.\<close>

definition pending_le :: "int \<times> hqe_row \<Rightarrow> int \<times> hqe_row \<Rightarrow> bool" where
  "pending_le a b =
     (let key = (\<lambda>q. (case q_meta_host q of None \<Rightarrow> 0 | Some m \<Rightarrow> Suc m)) in
      fst a > fst b \<or> fst a = fst b \<and>
      (key (snd a) < key (snd b) \<or> key (snd a) = key (snd b) \<and> q_job_id (snd a) \<le> q_job_id (snd b)))"

definition pending_queue_rows :: "world \<Rightarrow> hqe_row list" where
  "pending_queue_rows w = map snd (sort_by pending_le (List.map_filter (\<lambda>q.
     case find_row j_id (q_job_id q) (db_jobs w) of
       None \<Rightarrow> None
     | Some j \<Rightarrow> if \<not> q_complete q \<and> \<not> q_active q \<and> q_status q = Queued then Some (j_priority j, q) else None)
     (db_hqes w)))"

definition refresh_pending_queue_entries :: "entry_ref list sched" where
  "refresh_pending_queue_entries =
     bnd (fetch_entries pending_queue_rows) (\<lambda>entries.
     if entries = [] then ret [] else andthen (hs_refresh entries) (ret entries))"

definition run_queue_entry :: "entry_ref \<Rightarrow> unit sched" where
  "run_queue_entry r = schedule_pre_job_tasks r"

definition expand_atomic_group :: "entry_ref \<Rightarrow> nat \<Rightarrow> unit sched" where
  "expand_atomic_group r h =
     bnd (clone_entry r) (\<lambda>new_hqe.
     andthen (save_entry new_hqe) (
     andthen (entry_set_host new_hqe (Some h)) (run_queue_entry new_hqe)))"

definition schedule_atomic_group :: "entry_ref \<Rightarrow> unit sched" where
  "schedule_atomic_group r =
     bnd (find_eligible_atomic_group r) (\<lambda>group_hosts. case group_hosts of
       [] \<Rightarrow> ret ()
     | h # hs \<Rightarrow>
         andthen (for_each hs (expand_atomic_group r)) (
         andthen (entry_set_host r (Some h)) (run_queue_entry r)))"

definition schedule_hostless_job :: "entry_ref \<Rightarrow> unit sched" where
  "schedule_hostless_job r =
     bnd (new_hostless_queue_task r) (\<lambda>t.
     andthen (add_agent_task t) (entry_set_status r Starting))"

definition schedule_on_host :: "entry_ref \<Rightarrow> unit sched" where
  "schedule_on_host r =
     bnd (schedule_entry r) (\<lambda>assigned. case assigned of
       None \<Rightarrow> ret ()
     | Some h \<Rightarrow>
         bnd (gets (host_has_agent h)) (\<lambda>busy.
         if busy then ret () else
         bnd (get_entry r) (\<lambda>e.
         andthen (assert_that (q_host_id (e_row e) = Some h)) (run_queue_entry r))))"

definition schedule_new_job :: "entry_ref \<Rightarrow> unit sched" where
  "schedule_new_job r =
     bnd (get_entry r) (\<lambda>e.
     let q = e_row e in
     if is_hostless q then schedule_hostless_job r
     else if q_atomic_group_id q \<noteq> None \<and> q_host_id q = None then schedule_atomic_group r
     else schedule_on_host r)"

definition schedule_new_jobs :: "unit sched" where
  "schedule_new_jobs = bnd refresh_pending_queue_entries (\<lambda>entries. for_each entries schedule_new_job)"

definition schedule_running_host_queue_entries :: "unit sched" where
  "schedule_running_host_queue_entries = bnd get_queue_entry_agent_tasks (\<lambda>ts. for_each ts add_agent_task)"

definition schedule_delay_task :: "entry_ref \<Rightarrow> unit sched" where
  "schedule_delay_task r =
     bnd (get_entry r) (\<lambda>e.
     bnd (schedule_delayed_callback_task (q_job_id (e_row e)) r) (\<lambda>t. case t of
       None \<Rightarrow> ret () | Some t \<Rightarrow> add_agent_task t))"

definition schedule_delay_tasks :: "unit sched" where
  "schedule_delay_tasks =
     bnd (fetch_entries (where_hqe (\<lambda>q. q_status q = Waiting))) (\<lambda>entries. for_each entries schedule_delay_task)"

section \<open>Aborting\<close>

definition abort_one_entry :: "entry_ref \<Rightarrow> nat list \<Rightarrow> nat list sched" where
  "abort_one_entry r jobs_to_stop =
     bnd (get_entry r) (\<lambda>e.
     bnd (gets (get_agents_for_entry (e_row e))) (\<lambda>agents.
     andthen (for_each agents agent_abort) (
     andthen (entry_abort r) (
     bnd (get_entry r) (\<lambda>e. ret (set_add (q_job_id (e_row e)) jobs_to_stop))))))"

definition find_aborting :: "unit sched" where
  "find_aborting =
     bnd (fetch_entries (where_hqe (\<lambda>q. q_aborted q \<and> \<not> q_complete q))) (\<lambda>entries.
     bnd (fold_each entries [] abort_one_entry) (\<lambda>jobs_to_stop. for_each jobs_to_stop stop_if_necessary))"

section \<open>Running the agents\<close>

definition can_start_agent :: "nat \<Rightarrow> int \<Rightarrow> bool \<Rightarrow> bool sched" where
  "can_start_agent t num_started_this_cycle have_reached_limit =
     bnd (get_task t) (\<lambda>a.
     let n = num_processes a in
     if n = 0 then ret True
     else if have_reached_limit then ret False
     else bnd (owner_username t) (\<lambda>username.
       bnd (get_drone_hostnames_allowed t) (\<lambda>allowed.
       bnd (gets (\<lambda>w. max_runnable_processes (w_dm w) username allowed)) (\<lambda>max_runnable.
       bnd (gets (\<lambda>w. cfg_max_processes_started_per_cycle (w_cfg w))) (\<lambda>per_cycle.
       ret (if n > max_runnable then False
            else if num_started_this_cycle = 0 then True
            else \<not> num_started_this_cycle + n > per_cycle))))))"

definition tick_agent :: "nat \<Rightarrow> unit sched" where
  "tick_agent t =
     andthen (agent_tick t) (
     bnd (get_agent t) (\<lambda>g. when_do (ag_finished g) (remove_agent t)))"

text \<open>The loop body; the accumulator is the number started and whether a limit was reached.\<close>

definition handle_agent :: "nat \<Rightarrow> int \<times> bool \<Rightarrow> (int \<times> bool) sched" where
  "handle_agent t acc =
     bnd (get_agent t) (\<lambda>g.
     if ag_started g then andthen (tick_agent t) (ret acc)
     else bnd (can_start_agent t (fst acc) (snd acc)) (\<lambda>can.
       if \<not> can then ret (fst acc, True)
       else bnd (get_task t) (\<lambda>a.
         let acc' = (fst acc + num_processes a, snd acc) in
         andthen (tick_agent t) (ret acc'))))"

definition handle_agents :: "unit sched" where
  "handle_agents =
     bnd (gets w_agents) (\<lambda>agents.
     bnd (fold_each agents (0, False) handle_agent) (\<lambda>_. ret ()))"

section \<open>A tick\<close>

definition dispatcher_tick :: "(nat list \<Rightarrow> nat \<Rightarrow> nat list) \<Rightarrow> unit sched" where
  "dispatcher_tick sample =
     andthen (dm dm_refresh) (
     andthen (run_cleanup sample) (
     andthen find_aborting (
     andthen schedule_delay_tasks (
     andthen schedule_running_host_queue_entries (
     andthen schedule_special_tasks (
     andthen schedule_new_jobs (
     andthen handle_agents (dm execute_actions))))))))"

section \<open>The tables of agents agree with the list of agents\<close>

definition agent_of :: "world \<Rightarrow> nat \<Rightarrow> agent option" where
  "agent_of w t = (if t \<in> set (w_agents w) then w_agent_objs w t else None)"

definition table_agrees :: "(agent \<Rightarrow> nat list) \<Rightarrow> (nat \<times> nat list) list \<Rightarrow> world \<Rightarrow> bool" where
  "table_agrees ids d w \<longleftrightarrow>
     (\<forall>i t. t \<in> set (dict_get d i) \<longleftrightarrow> (\<exists>g. agent_of w t = Some g \<and> i \<in> set (ids g)))"

definition tables_agree :: "world \<Rightarrow> bool" where
  "tables_agree w \<longleftrightarrow> distinct (w_agents w) \<and>
     (\<forall>t \<in> set (w_agents w). \<exists>g. w_agent_objs w t = Some g \<and> distinct (ag_host_ids g) \<and> distinct (ag_queue_entry_ids g)) \<and>
     table_agrees ag_host_ids (w_host_agents w) w \<and>
     table_agrees ag_queue_entry_ids (w_queue_entry_agents w) w"

lemma set_register: "set (dict_get (register_agent_for_ids t ids d) i) = set (dict_get d i) \<union> (if i \<in> set ids then {t} else {})"
proof -
  have "register_agent_for_ids t ids d = foldl dict_add d (map (\<lambda>i. (i, t)) ids)"
    by (simp add: register_agent_for_ids_def foldl_map)
  then show ?thesis by (auto simp: dict_get_foldl)
qed

lemma unregister_run:
  assumes "distinct ids" and "\<forall>i \<in> set ids. t \<in> set (dict_get d i)"
  shows "\<exists>d'. unregister_agent_for_ids t ids d = Inr d' \<and>
    (\<forall>i. set (dict_get d' i) = set (dict_get d i) - (if i \<in> set ids then {t} else {}))"
  using assms
proof (induction ids arbitrary: d)
  case (Cons i ids)
  then obtain ts where ts: "map_of d i = Some ts" "t \<in> set ts"
    by (cases "map_of d i") (auto simp: dict_get_def)
  let ?d = "alist_put i (set_discard t ts) d"
  have d: "set (dict_get ?d j) = set (dict_get d j) - (if j = i then {t} else {})" for j
    using ts by (auto simp: dict_get_def)
  then have "\<forall>j \<in> set ids. t \<in> set (dict_get ?d j)" using Cons.prems by auto
  then obtain d' where "unregister_agent_for_ids t ids ?d = Inr d'"
      "\<forall>j. set (dict_get d' j) = set (dict_get ?d j) - (if j \<in> set ids then {t} else {})"
    using Cons.IH [of ?d] Cons.prems(1) by auto
  with ts d show ?case by auto
qed simp

text \<open>
  (scheduler/monitor_db.py, \<open>Dispatcher.add_agent_task\<close>). Adding an agent for a task that has none keeps the
  tables of agents by host and by queue entry in agreement with the list of agents.
\<close>

theorem add_agent_keeps_tables:
  assumes "tables_agree w" and "t \<notin> set (w_agents w)" and "w_tasks w t = Some a"
    and "distinct (at_host_ids a)" and "distinct (at_queue_entry_ids a)"
  shows "\<exists>w'. add_agent_task t w = (Inr (), w') \<and> tables_agree w' \<and> w_agents w' = w_agents w @ [t]"
proof -
  let ?g = "new_agent a"
  let ?w = "w\<lparr>w_agent_objs := (w_agent_objs w)(t \<mapsto> ?g), w_agents := w_agents w @ [t],
       w_host_agents := register_agent_for_ids t (ag_host_ids ?g) (w_host_agents w),
       w_queue_entry_agents := register_agent_for_ids t (ag_queue_entry_ids ?g) (w_queue_entry_agents w)\<rparr>"
  have run: "add_agent_task t w = (Inr (), ?w)"
    using assms(3) by (simp add: add_agent_task_def get_task_def put_agent_def Let_def bnd_def andthen_def gets_def
        modify_def ret_def)
  have agent: "agent_of ?w k = (if k = t then Some ?g else agent_of w k)" for k
    by (simp add: agent_of_def)
  have none: "agent_of w t = None" using assms(2) by (simp add: agent_of_def)
  have table: "table_agrees ids (register_agent_for_ids t (ids ?g) d) ?w" if "table_agrees ids d w" for ids d
    using that none unfolding table_agrees_def agent set_register by auto
  have "table_agrees ag_host_ids (w_host_agents ?w) ?w" "table_agrees ag_queue_entry_ids (w_queue_entry_agents ?w) ?w"
    using table [of ag_host_ids] table [of ag_queue_entry_ids] assms(1) by (simp_all add: tables_agree_def)
  moreover have "distinct (w_agents ?w)" using assms(1,2) by (simp add: tables_agree_def)
  moreover have "\<exists>g. w_agent_objs ?w k = Some g \<and> distinct (ag_host_ids g) \<and> distinct (ag_queue_entry_ids g)"
    if "k \<in> set (w_agents ?w)" for k
    using that assms by (cases "k = t") (simp_all add: tables_agree_def new_agent_def)
  ultimately have "tables_agree ?w" unfolding tables_agree_def by blast
  with run show ?thesis by auto
qed

text \<open>
  (scheduler/monitor_db.py, \<open>Dispatcher.remove_agent\<close>). Removing an agent of the list raises no KeyError: it
  takes the agent out of the list and out of both tables, which stay in agreement.
\<close>

theorem remove_agent_keeps_tables:
  assumes "tables_agree w" and "t \<in> set (w_agents w)"
  shows "\<exists>w'. remove_agent t w = (Inr (), w') \<and> tables_agree w' \<and> w_agents w' = remove1 t (w_agents w) \<and>
    (\<forall>i. t \<notin> set (dict_get (w_host_agents w') i) \<and> t \<notin> set (dict_get (w_queue_entry_agents w') i))"
proof -
  obtain g where g: "w_agent_objs w t = Some g" "distinct (ag_host_ids g)" "distinct (ag_queue_entry_ids g)"
    using assms by (auto simp: tables_agree_def)
  then have at: "agent_of w t = Some g" using assms(2) by (simp add: agent_of_def)
  have "\<forall>i \<in> set (ag_host_ids g). t \<in> set (dict_get (w_host_agents w) i)"
    using assms(1) at by (auto simp: tables_agree_def table_agrees_def)
  then obtain hs where hs: "unregister_agent_for_ids t (ag_host_ids g) (w_host_agents w) = Inr hs"
      "\<forall>i. set (dict_get hs i) = set (dict_get (w_host_agents w) i) - (if i \<in> set (ag_host_ids g) then {t} else {})"
    using unregister_run [OF g(2)] by blast
  have "\<forall>i \<in> set (ag_queue_entry_ids g). t \<in> set (dict_get (w_queue_entry_agents w) i)"
    using assms(1) at by (auto simp: tables_agree_def table_agrees_def)
  then obtain es where es: "unregister_agent_for_ids t (ag_queue_entry_ids g) (w_queue_entry_agents w) = Inr es"
      "\<forall>i. set (dict_get es i) = set (dict_get (w_queue_entry_agents w) i) - (if i \<in> set (ag_queue_entry_ids g) then {t} else {})"
    using unregister_run [OF g(3)] by blast
  let ?w = "w\<lparr>w_agents := remove1 t (w_agents w), w_host_agents := hs, w_queue_entry_agents := es\<rparr>"
  have run: "remove_agent t w = (Inr (), ?w)"
    using assms(2) g(1) hs(1) es(1)
    by (simp add: remove_agent_def get_agent_def bnd_def andthen_def gets_def modify_def ret_def lift_sum_def)
  have dist: "distinct (w_agents w)" using assms(1) by (simp add: tables_agree_def)
  then have agent: "agent_of ?w k = (if k = t then None else agent_of w k)" for k
    by (simp add: agent_of_def)
  have table: "table_agrees ids d' ?w"
    if "table_agrees ids d w" "\<forall>i. set (dict_get d' i) = set (dict_get d i) - (if i \<in> set (ids g) then {t} else {})" for ids d d'
    using that at unfolding table_agrees_def agent by (auto split: if_splits)
  have gone: "t \<notin> set (dict_get d' i)"
    if "table_agrees ids d' ?w" for ids d' i
    using that unfolding table_agrees_def agent by auto
  have t1: "table_agrees ag_host_ids hs ?w" and t2: "table_agrees ag_queue_entry_ids es ?w"
    using table hs(2) es(2) assms(1) by (auto simp: tables_agree_def)
  moreover have "distinct (remove1 t (w_agents w))" using dist by simp
  moreover have "\<forall>k \<in> set (remove1 t (w_agents w)).
      \<exists>g. w_agent_objs w k = Some g \<and> distinct (ag_host_ids g) \<and> distinct (ag_queue_entry_ids g)"
    using assms(1) notin_set_remove1 by (fastforce simp: tables_agree_def)
  ultimately have "tables_agree ?w" by (simp add: tables_agree_def)
  with run gone [OF t1] gone [OF t2] show ?thesis by auto
qed

section \<open>Order of special tasks and of pending entries\<close>

instantiation special_task_kind :: linorder
begin

definition less_eq_special_task_kind :: "special_task_kind \<Rightarrow> special_task_kind \<Rightarrow> bool" where
  "less_eq_special_task_kind a b \<longleftrightarrow> task_priority a \<le> task_priority b"

definition less_special_task_kind :: "special_task_kind \<Rightarrow> special_task_kind \<Rightarrow> bool" where
  "less_special_task_kind a b \<longleftrightarrow> task_priority a < task_priority b"

instance
proof
  fix a b :: special_task_kind
  show "a \<le> b \<Longrightarrow> b \<le> a \<Longrightarrow> a = b"
    by (cases a; cases b) (simp_all add: less_eq_special_task_kind_def)
qed (auto simp: less_eq_special_task_kind_def less_special_task_kind_def)

end

text \<open>
  (scheduler/monitor_db.py, \<open>Dispatcher._get_prioritized_special_tasks\<close>). The special tasks come with repairs
  before cleanups before verifies, each waits to run, on a host that is not locked and that no active
  queue entry holds except the task's own.
\<close>

theorem special_tasks_prioritized:
  "sorted (map st_task (get_prioritized_special_tasks w)) \<and>
   set (get_prioritized_special_tasks w) =
     {t \<in> set (db_special_tasks w). \<not> st_is_active t \<and> \<not> st_is_complete t \<and>
        (\<exists>h. find_row h_id (st_host_id t) (db_hosts w) = Some h \<and> \<not> h_locked h) \<and>
        ({q \<in> set (db_hqes w). q_active q \<and> q_host_id q = Some (st_host_id t)} = {} \<or>
         (\<exists>q \<in> set (db_hqes w). q_active q \<and> q_host_id q = Some (st_host_id t) \<and> st_queue_entry_id t = Some (q_id q)))}"
proof
  have "sorted_wrt (\<lambda>a b. task_priority (st_task a) \<le> task_priority (st_task b)) (get_prioritized_special_tasks w)"
    unfolding get_prioritized_special_tasks_def by (rule sorted_wrt_sort_by) auto
  then show "sorted (map st_task (get_prioritized_special_tasks w))"
    by (simp add: sorted_map less_eq_special_task_kind_def)
  have rows: "set (joined_rows w t) = (if (\<forall>q \<in> set (db_hqes w). q_active q \<longrightarrow> q_host_id q \<noteq> Some (st_host_id t)) \<or>
      (\<exists>q \<in> set (db_hqes w). q_active q \<and> q_host_id q = Some (st_host_id t) \<and> st_queue_entry_id t = Some (q_id q))
      then {t} else {})" for t
  proof (cases "filter (\<lambda>q. q_active q \<and> q_host_id q = Some (st_host_id t)) (db_hqes w)")
    case Nil
    then have "\<forall>q \<in> set (db_hqes w). q_active q \<longrightarrow> q_host_id q \<noteq> Some (st_host_id t)"
      by (simp add: filter_empty_conv)
    with Nil show ?thesis by (simp add: joined_rows_def)
  next
    case (Cons q qs)
    then have set_eq: "set (q # qs) = {q \<in> set (db_hqes w). q_active q \<and> q_host_id q = Some (st_host_id t)}"
      by (metis set_filter)
    have "set (joined_rows w t) = (\<lambda>_. t) ` {k \<in> set (q # qs). st_queue_entry_id t = Some (q_id k)}"
      unfolding joined_rows_def Cons by (simp del: set_simps filter.simps)
    then show ?thesis unfolding set_eq using set_eq by auto
  qed
  show "set (get_prioritized_special_tasks w) =
     {t \<in> set (db_special_tasks w). \<not> st_is_active t \<and> \<not> st_is_complete t \<and>
        (\<exists>h. find_row h_id (st_host_id t) (db_hosts w) = Some h \<and> \<not> h_locked h) \<and>
        ({q \<in> set (db_hqes w). q_active q \<and> q_host_id q = Some (st_host_id t)} = {} \<or>
         (\<exists>q \<in> set (db_hqes w). q_active q \<and> q_host_id q = Some (st_host_id t) \<and> st_queue_entry_id t = Some (q_id q)))}"
    unfolding get_prioritized_special_tasks_def set_sort_by set_concat set_map
    by (auto simp: rows queued_special_tasks_def split: option.splits if_splits)
qed

definition is_pending_entry :: "world \<Rightarrow> hqe_row \<Rightarrow> bool" where
  "is_pending_entry w q \<longleftrightarrow> q_status q = Queued \<and> \<not> q_active q \<and> \<not> q_complete q \<and>
     find_row j_id (q_job_id q) (db_jobs w) \<noteq> None"

definition goes_before :: "world \<Rightarrow> hqe_row \<Rightarrow> hqe_row \<Rightarrow> bool" where
  "goes_before w a b \<longleftrightarrow>
     (let p = (\<lambda>q. j_priority (the (find_row j_id (q_job_id q) (db_jobs w)))) in
      p a > p b \<or> p a = p b \<and>
        (q_meta_host a = None \<or> q_meta_host b \<noteq> None \<and> the (q_meta_host a) \<le> the (q_meta_host b)) \<and>
        (q_meta_host a = q_meta_host b \<longrightarrow> q_job_id a \<le> q_job_id b))"

lemma pending_le_total: "pending_le a b \<or> pending_le b a"
  by (auto simp: pending_le_def Let_def)

lemma pending_le_trans: "pending_le a b \<Longrightarrow> pending_le b c \<Longrightarrow> pending_le a c"
  by (auto simp: pending_le_def Let_def)

lemma pending_le_goes_before:
  assumes "pending_le (p a, a) (p b, b)" and "p = (\<lambda>q. j_priority (the (find_row j_id (q_job_id q) (db_jobs w))))"
  shows "goes_before w a b"
  using assms(1) unfolding goes_before_def Let_def assms(2) [symmetric]
  by (cases "q_meta_host a"; cases "q_meta_host b") (auto simp: pending_le_def)

definition pending_row :: "world \<Rightarrow> hqe_row \<Rightarrow> (int \<times> hqe_row) option" where
  "pending_row w q = (case find_row j_id (q_job_id q) (db_jobs w) of
       None \<Rightarrow> None
     | Some j \<Rightarrow> if \<not> q_complete q \<and> \<not> q_active q \<and> q_status q = Queued then Some (j_priority j, q) else None)"

lemma pending_row_Some: "pending_row w q = (if is_pending_entry w q
    then Some (j_priority (the (find_row j_id (q_job_id q) (db_jobs w))), q) else None)"
  by (auto simp: pending_row_def is_pending_entry_def split: option.split)

lemma pending_rows_eq: "List.map_filter (pending_row w) qs =
    map (\<lambda>q. (j_priority (the (find_row j_id (q_job_id q) (db_jobs w))), q)) (filter (is_pending_entry w) qs)"
  by (induction qs) (simp_all add: map_filter_simps pending_row_Some)

text \<open>
  (scheduler/monitor_db.py, \<open>Dispatcher._refresh_pending_queue_entries\<close>). The pending entries are exactly
  the Queued ones that are neither active nor complete and whose job exists, jobs of higher priority
  first, then entries without a metahost, then by metahost and job.
\<close>

theorem pending_entries_by_priority:
  "mset (pending_queue_rows w) = mset (filter (is_pending_entry w) (db_hqes w)) \<and>
   sorted_wrt (goes_before w) (pending_queue_rows w)"
proof -
  let ?p = "\<lambda>q. j_priority (the (find_row j_id (q_job_id q) (db_jobs w)))"
  let ?rows = "map (\<lambda>q. (?p q, q)) (filter (is_pending_entry w) (db_hqes w))"
  have eq: "pending_queue_rows w = map snd (sort_by pending_le ?rows)"
    unfolding pending_rows_eq [symmetric] by (simp add: pending_queue_rows_def pending_row_def [abs_def])
  have "mset (pending_queue_rows w) = image_mset snd (mset ?rows)"
    unfolding eq by simp
  also have "\<dots> = mset (filter (is_pending_entry w) (db_hqes w))"
    by (simp add: image_mset.compositionality comp_def)
  finally have "mset (pending_queue_rows w) = mset (filter (is_pending_entry w) (db_hqes w))" .
  moreover have "sorted_wrt pending_le (sort_by pending_le ?rows)"
    using pending_le_total pending_le_trans by (rule sorted_wrt_sort_by)
  then have "sorted_wrt (\<lambda>a b. goes_before w (snd a) (snd b)) (sort_by pending_le ?rows)"
  proof (rule sorted_wrt_mono_rel [rotated])
    fix a b assume "a \<in> set (sort_by pending_le ?rows)" "b \<in> set (sort_by pending_le ?rows)" "pending_le a b"
    then have "pending_le (?p (snd a), snd a) (?p (snd b), snd b)" by auto
    then show "goes_before w (snd a) (snd b)" by (rule pending_le_goes_before) simp
  qed
  then have "sorted_wrt (goes_before w) (pending_queue_rows w)"
    unfolding eq by (simp add: sorted_wrt_map)
  ultimately show ?thesis by blast
qed

section \<open>Agents of a concrete scheduler\<close>

text \<open>Task 0 is a hostless job task with an agent; task 1 is a queue task on host 3 without one.\<close>

definition sample_agents :: world where
  "sample_agents = empty_world\<lparr>
     w_tasks := [0 \<mapsto> (new_agent_task HostlessQueueTask)\<lparr>at_queue_entry_ids := [5]\<rparr>,
       1 \<mapsto> (new_agent_task QueueTask)\<lparr>at_host_ids := [3], at_queue_entry_ids := [6]\<rparr>],
     w_agents := [0], w_agent_objs := [0 \<mapsto> \<lparr>ag_queue_entry_ids = [5], ag_host_ids = [], ag_started = False, ag_finished = False\<rparr>],
     w_queue_entry_agents := [(5, [0])]\<rparr>"

lemma sample_agents_agree: "tables_agree sample_agents"
  by (auto simp: tables_agree_def table_agrees_def agent_of_def dict_get_def sample_agents_def empty_world_def
      split: if_splits)

theorem add_agent_keeps_tables_witness:
  "\<exists>w'. add_agent_task 1 sample_agents = (Inr (), w') \<and> tables_agree w' \<and> w_agents w' = [0, 1]"
proof -
  have "w_agents sample_agents = [0]" by (simp add: sample_agents_def)
  then show ?thesis
    using add_agent_keeps_tables [OF sample_agents_agree, of 1 "(new_agent_task QueueTask)\<lparr>at_host_ids := [3], at_queue_entry_ids := [6]\<rparr>"]
    by (auto simp: sample_agents_def)
qed

theorem remove_agent_keeps_tables_witness:
  "\<exists>w'. remove_agent 0 sample_agents = (Inr (), w') \<and> tables_agree w' \<and> w_agents w' = []"
proof -
  have "w_agents sample_agents = [0]" by (simp add: sample_agents_def)
  then show ?thesis using remove_agent_keeps_tables [OF sample_agents_agree, of 0] by auto
qed

section \<open>Calls that fail\<close>

text \<open>
  (scheduler/monitor_db.py, \<open>Dispatcher._reverify_hosts_where\<close>). For a host without an agent and without a
  scheduled special task, the cleanup that should reverify it is created without a requester, which the
  database refuses: the call raises IntegrityError and no task is created.
\<close>

theorem reverify_without_requester_fails:
  assumes "\<not> host_has_agent h w" and "\<not> host_has_scheduled_special_task h w"
    and "mem_hosts w h = Some hr" and "find_row h_id h (db_hosts w) = Some r"
  shows "\<exists>w'. reverify_host repair_failed h w = (Inl IntegrityError, w') \<and> db_special_tasks w' = db_special_tasks w"
  using assms
  by (simp add: reverify_host_def get_host_def django_host_def special_task_create_def enqueue_admin_def
      bnd_def andthen_def gets_def ret_def throw_def modify_def when_do_def)

theorem reverify_without_requester_fails_witness:
  "fst (reverify_host True 3 sample_queued_world) = Inl IntegrityError"
proof -
  have "mem_hosts sample_queued_world 3 = Some (sample_host 3 ''host3'')"
      "find_row h_id 3 (db_hosts sample_queued_world) = Some (sample_host 3 ''host3'')"
      "\<not> host_has_agent 3 sample_queued_world" "\<not> host_has_scheduled_special_task 3 sample_queued_world"
    by (simp_all add: host_has_agent_def host_has_scheduled_special_task_def sample_queued_world_def sample_defs)
  from reverify_without_requester_fails [OF this(3,4,1,2), of True] show ?thesis by auto
qed

text \<open>
  (scheduler/monitor_db.py, \<open>_autoserv_command_line\<close>). With profiles given, one machine is named for each pair of
  a machine and a profile: every machine is named exactly when no profile is given or there are at least
  as many profiles as machines.
\<close>

theorem all_machines_named_iff:
  "length (machines_with_profiles machines profiles) = length machines \<longleftrightarrow>
   profiles = [] \<or> length machines \<le> length profiles"
  by (auto simp: machines_with_profiles_def)

text \<open>
  (scheduler/monitor_db_cleanup.py, \<open>_abort_jobs_past_max_runtime\<close>). As soon as one of the entries past their
  maximum runtime has no host, as a hostless job's entry has none, the cleanup raises AttributeError and
  aborts neither that entry nor any later one.
\<close>

theorem hostless_entry_stops_max_runtime_cleanup:
  assumes "past_max_runtime w = q # qs" and "q_host_id q = None"
  shows "abort_jobs_past_max_runtime w = (Inl AttributeError, w)"
  using assms
  by (simp add: abort_jobs_past_max_runtime_def abort_past_max_runtime_def bnd_def andthen_def gets_def throw_def)

theorem hostless_entry_stops_max_runtime_cleanup_witness:
  "abort_jobs_past_max_runtime (empty_world\<lparr>db_jobs := [(sample_job 7 1)\<lparr>j_max_runtime_hrs := 1\<rparr>],
       db_hqes := [(sample_entry 5 7 None Running)\<lparr>q_started_on := Some 0\<rparr>]\<rparr>) =
     (Inl AttributeError, empty_world\<lparr>db_jobs := [(sample_job 7 1)\<lparr>j_max_runtime_hrs := 1\<rparr>],
       db_hqes := [(sample_entry 5 7 None Running)\<lparr>q_started_on := Some 0\<rparr>]\<rparr>)"
  by (rule hostless_entry_stops_max_runtime_cleanup [where q = "(sample_entry 5 7 None Running)\<lparr>q_started_on := Some 0\<rparr>" and qs = "[]"])
    (simp_all add: past_max_runtime_def sample_defs status_sets)

end
