(* ===== verification/Frame.thy ===== *)
theory Frame
  imports Dispatcher
begin

text \<open>
  What a scheduler tick leaves alone. \<open>dispatch_state\<close> is the part of the state that the dispatcher and the
  self-throttled tasks own. A predicate on it is kept by every method that does not assign to it: the
  locale \<open>frame\<close> proves this once for every method of the model below the counters. The locales
  \<open>lowered\<close> and \<open>dispatching\<close> extend it to the whole tick, for a predicate that the assignments to the counters and to the agent tables keep.
\<close>

section \<open>The dispatcher's part of the state\<close>

definition dispatch_state ::
  "world \<Rightarrow> sched_config \<times> nat list \<times> (nat \<Rightarrow> agent option) \<times> (nat \<times> nat list) list \<times> (nat \<times> nat list) list \<times> int \<times> int" where
  "dispatch_state w = (w_cfg w, w_agents w, w_agent_objs w, w_host_agents w, w_queue_entry_agents w,
     w_num_parsing w, w_num_archiving w)"

lemma dispatch_state_update [simp]:
  "dispatch_state (w\<lparr>db_hosts := x0\<rparr>) = dispatch_state w"
  "dispatch_state (w\<lparr>db_hqes := x1\<rparr>) = dispatch_state w"
  "dispatch_state (w\<lparr>db_jobs := x2\<rparr>) = dispatch_state w"
  "dispatch_state (w\<lparr>db_labels := x3\<rparr>) = dispatch_state w"
  "dispatch_state (w\<lparr>db_atomic_groups := x4\<rparr>) = dispatch_state w"
  "dispatch_state (w\<lparr>db_users := x5\<rparr>) = dispatch_state w"
  "dispatch_state (w\<lparr>db_special_tasks := x6\<rparr>) = dispatch_state w"
  "dispatch_state (w\<lparr>db_blocks := x7\<rparr>) = dispatch_state w"
  "dispatch_state (w\<lparr>db_hosts_labels := x8\<rparr>) = dispatch_state w"
  "dispatch_state (w\<lparr>db_jobs_dependency_labels := x9\<rparr>) = dispatch_state w"
  "dispatch_state (w\<lparr>db_acl_groups := x10\<rparr>) = dispatch_state w"
  "dispatch_state (w\<lparr>db_acl_users := x11\<rparr>) = dispatch_state w"
  "dispatch_state (w\<lparr>db_acl_hosts := x12\<rparr>) = dispatch_state w"
  "dispatch_state (w\<lparr>db_aborted := x13\<rparr>) = dispatch_state w"
  "dispatch_state (w\<lparr>db_job_keyvals := x14\<rparr>) = dispatch_state w"
  "dispatch_state (w\<lparr>db_drone_sets := x15\<rparr>) = dispatch_state w"
  "dispatch_state (w\<lparr>db_drone_set_drones := x16\<rparr>) = dispatch_state w"
  "dispatch_state (w\<lparr>db_auto_id := x17\<rparr>) = dispatch_state w"
  "dispatch_state (w\<lparr>mem_hosts := x18\<rparr>) = dispatch_state w"
  "dispatch_state (w\<lparr>mem_jobs := x19\<rparr>) = dispatch_state w"
  "dispatch_state (w\<lparr>mem_hqes := x20\<rparr>) = dispatch_state w"
  "dispatch_state (w\<lparr>mem_clones := x21\<rparr>) = dispatch_state w"
  "dispatch_state (w\<lparr>mem_delay_ready_task := x22\<rparr>) = dispatch_state w"
  "dispatch_state (w\<lparr>w_dm := x23\<rparr>) = dispatch_state w"
  "dispatch_state (w\<lparr>w_mail := x24\<rparr>) = dispatch_state w"
  "dispatch_state (w\<lparr>w_now := x25\<rparr>) = dispatch_state w"
  "dispatch_state (w\<lparr>w_thread_user := x26\<rparr>) = dispatch_state w"
  "dispatch_state (w\<lparr>w_hs := x27\<rparr>) = dispatch_state w"
  "dispatch_state (w\<lparr>w_tasks := x28\<rparr>) = dispatch_state w"
  "dispatch_state (w\<lparr>w_next_task := x29\<rparr>) = dispatch_state w"
  "dispatch_state (w\<lparr>w_last_user_cleanup := x30\<rparr>) = dispatch_state w"
  "dispatch_state (w\<lparr>w_last_upkeep := x31\<rparr>) = dispatch_state w"
  "dispatch_state (w\<lparr>w_last_reverify := x32\<rparr>) = dispatch_state w"
  by (simp_all add: dispatch_state_def)

lemma dispatch_state_entry [simp]:
  "dispatch_state (set_entry r e w) = dispatch_state w"
  "dispatch_state (write_entry r e f w) = dispatch_state w"
  by (simp_all add: set_entry_def write_entry_def)

lemma dispatch_state_model [simp]:
  "dispatch_state (remove_available h w) = dispatch_state w"
  "dispatch_state (delete_queued_verifies h i w) = dispatch_state w"
  by (simp_all add: remove_available_def delete_queued_verifies_def)

lemma keeps_task_class [keeps_intro]:
  "\<lbrakk>keeps P a0; keeps P a1; keeps P a2; keeps P a3; keeps P a4; keeps P a5; keeps P a6; keeps P a7; keeps P a8\<rbrakk>
   \<Longrightarrow> keeps P (case c of CleanupTask \<Rightarrow> a0 | VerifyTask \<Rightarrow> a1 | RepairTask \<Rightarrow> a2 | QueueTask \<Rightarrow> a3 | HostlessQueueTask \<Rightarrow> a4 | GatherLogsTask \<Rightarrow> a5 | FinalReparseTask \<Rightarrow> a6 | ArchiveResultsTask \<Rightarrow> a7 | DelayedCallTask \<Rightarrow> a8)"
  by (cases c) simp_all

lemma keeps_special_task_kind [keeps_intro]:
  "\<lbrakk>keeps P a0; keeps P a1; keeps P a2\<rbrakk>
   \<Longrightarrow> keeps P (case c of TaskCleanup \<Rightarrow> a0 | TaskVerify \<Rightarrow> a1 | TaskRepair \<Rightarrow> a2)"
  by (cases c) simp_all

lemma keeps_mon_loc [keeps_intro]:
  "\<lbrakk>\<And>t. keeps P (f t); \<And>t. keeps P (g t)\<rbrakk>
   \<Longrightarrow> keeps P (case x of Own_monitor t \<Rightarrow> f t | Autoserv_monitor t \<Rightarrow> g t)"
  by (cases x) simp_all

lemma keeps_queue_target [keeps_intro]:
  "\<lbrakk>\<And>t. keeps P (f t); \<And>t. keeps P (g t)\<rbrakk>
   \<Longrightarrow> keeps P (case x of On_host t \<Rightarrow> f t | On_label t \<Rightarrow> g t)"
  by (cases x) simp_all

lemma keeps_entry_ref [keeps_intro]:
  "\<lbrakk>\<And>t. keeps P (f t); \<And>t. keeps P (g t)\<rbrakk>
   \<Longrightarrow> keeps P (case x of Entry t \<Rightarrow> f t | Clone t \<Rightarrow> g t)"
  by (cases x) simp_all

lemma keeps_install_arg [keeps_intro]:
  "\<lbrakk>\<And>t. keeps P (f t); \<And>t. keeps P (g t)\<rbrakk>
   \<Longrightarrow> keeps P (case x of Host_object t \<Rightarrow> f t | Plain_name t \<Rightarrow> g t)"
  by (cases x) simp_all

named_theorems framed \<open>methods that keep a predicate on the dispatcher's part of the state\<close>

section \<open>Methods that keep every such predicate\<close>

locale frame =
  fixes P :: "world \<Rightarrow> bool"
  assumes same_dispatch_state: "dispatch_state v = dispatch_state w \<Longrightarrow> P w \<Longrightarrow> P v"
begin

lemma modify_framed [framed]: "(\<And>w. dispatch_state (f w) = dispatch_state w) \<Longrightarrow> keeps P (modify f)"
  by (rule keeps_modify) (use same_dispatch_state in blast)

lemma metahost_loop_framed [framed]:
  assumes "\<And>h. keeps P (eligible h)" "\<And>h. keeps P (remove h)" "\<And>h. keeps P (pop h)"
  shows "keeps P (metahost_loop usable eligible remove pop ineligible hs)"
proof (induction hs)
  case (Cons h hs)
  then show ?case unfolding metahost_loop.simps by (intro keeps_intro assms)
qed simp

subsection \<open>Primitives\<close>

lemma dm_framed [framed]: "keeps P (dm m)"
  unfolding dm_def by (rule keeps_zoom, rule same_dispatch_state) simp_all

lemma now_framed [framed]: "keeps P (now)"
  unfolding now_def by (rule framed keeps_intro | simp)+

lemma enqueue_admin_framed [framed]: "keeps P (enqueue_admin subject)"
  unfolding enqueue_admin_def by (rule framed keeps_intro | simp)+

lemma send_mail_framed [framed]: "keeps P (send_mail m)"
  unfolding send_mail_def by (rule framed keeps_intro | simp)+

lemma fresh_id_framed [framed]: "keeps P (fresh_id)"
  unfolding fresh_id_def by (rule framed keeps_intro | simp)+

lemma get_entry_framed [framed]: "keeps P (get_entry r)"
  unfolding get_entry_def by (rule framed keeps_intro | simp)+

lemma get_job_framed [framed]: "keeps P (get_job i)"
  unfolding get_job_def by (rule framed keeps_intro | simp)+

lemma get_host_framed [framed]: "keeps P (get_host i)"
  unfolding get_host_def by (rule framed keeps_intro | simp)+

lemma entry_host_framed [framed]: "keeps P (entry_host e)"
  unfolding entry_host_def by (rule framed keeps_intro | simp)+

subsection \<open>The Django models\<close>

lemma django_host_framed [framed]: "keeps P (django_host i)"
  unfolding django_host_def by (rule framed keeps_intro | simp)+

lemma django_job_framed [framed]: "keeps P (django_job i)"
  unfolding django_job_def by (rule framed keeps_intro | simp)+

lemma django_hqe_framed [framed]: "keeps P (django_hqe i)"
  unfolding django_hqe_def by (rule framed keeps_intro | simp)+

lemma django_user_framed [framed]: "keeps P (django_user i)"
  unfolding django_user_def by (rule framed keeps_intro | simp)+

lemma user_by_login_framed [framed]: "keeps P (user_by_login login)"
  unfolding user_by_login_def by (rule framed keeps_intro | simp)+

lemma acl_by_name_framed [framed]: "keeps P (acl_by_name name)"
  unfolding acl_by_name_def by (rule framed keeps_intro | simp)+

lemma acl_add_user_framed [framed]: "keeps P (acl_add_user g u)"
  unfolding acl_add_user_def by (rule framed keeps_intro | simp)+

lemma acl_add_host_framed [framed]: "keeps P (acl_add_host g h)"
  unfolding acl_add_host_def by (rule framed keeps_intro | simp)+

lemma acl_remove_host_framed [framed]: "keeps P (acl_remove_host g h)"
  unfolding acl_remove_host_def by (rule framed keeps_intro | simp)+

lemma user_save_framed [framed]: "keeps P (user_save first_time u)"
  unfolding user_save_def by (rule framed keeps_intro | simp)+

lemma current_user_framed [framed]: "keeps P (current_user)"
  unfolding current_user_def by (rule framed keeps_intro | simp)+

lemma check_for_acl_violation_hosts_framed [framed]: "keeps P (check_for_acl_violation_hosts hosts username)"
  unfolding check_for_acl_violation_hosts_def by (rule framed keeps_intro | simp)+

lemma on_host_membership_change_framed [framed]: "keeps P (on_host_membership_change)"
  unfolding on_host_membership_change_def by (rule framed keeps_intro | simp)+

lemma check_for_acl_violation_acl_group_framed [framed]: "keeps P (check_for_acl_violation_acl_group g)"
  unfolding check_for_acl_violation_acl_group_def by (rule framed keeps_intro | simp)+

lemma add_current_user_if_empty_framed [framed]: "keeps P (add_current_user_if_empty g)"
  unfolding add_current_user_if_empty_def by (rule framed keeps_intro | simp)+

lemma perform_after_save_framed [framed]: "keeps P (perform_after_save g change)"
  unfolding perform_after_save_def by (rule framed keeps_intro | simp)+

lemma acl_create_framed [framed]: "keeps P (acl_create name)"
  unfolding acl_create_def by (rule framed keeps_intro | simp)+

lemma acl_save_framed [framed]: "keeps P (acl_save g)"
  unfolding acl_save_def by (rule framed keeps_intro | simp)+

lemma check_abort_permissions_framed [framed]: "keeps P (check_abort_permissions entries)"
  unfolding check_abort_permissions_def by (rule framed keeps_intro | simp)+

lemma host_save_framed [framed]: "keeps P (host_save h)"
  unfolding host_save_def by (rule framed keeps_intro | simp)+

lemma active_queue_entry_framed [framed]: "keeps P (active_queue_entry h)"
  unfolding active_queue_entry_def by (rule framed keeps_intro | simp)+

lemma hqe_save_framed [framed]: "keeps P (hqe_save q)"
  unfolding hqe_save_def by (rule framed keeps_intro | simp)+

lemma hqe_save_new_framed [framed]: "keeps P (hqe_save_new q)"
  unfolding hqe_save_new_def by (rule framed keeps_intro | simp)+

lemma hqe_execution_path_framed [framed]: "keeps P (hqe_execution_path q)"
  unfolding hqe_execution_path_def by (rule framed keeps_intro | simp)+

lemma host_or_metahost_name_framed [framed]: "keeps P (host_or_metahost_name q)"
  unfolding host_or_metahost_name_def by (rule framed keeps_intro | simp)+

lemma log_abort_framed [framed]: "keeps P (log_abort q user)"
  unfolding log_abort_def by (rule framed keeps_intro | simp)+

lemma hqe_abort_framed [framed]: "keeps P (hqe_abort q)"
  unfolding hqe_abort_def by (rule framed keeps_intro | simp)+

lemma job_user_framed [framed]: "keeps P (job_user j)"
  unfolding job_user_def by (rule framed keeps_intro | simp)+

lemma model_job_abort_framed [framed]: "keeps P (model_job_abort job)"
  unfolding model_job_abort_def by (rule framed keeps_intro | simp)+

lemma host_enqueue_job_framed [framed]: "keeps P (host_enqueue_job h job profile atomic_group is_template)"
  unfolding host_enqueue_job_def by (rule framed keeps_intro | simp)+

lemma label_enqueue_job_framed [framed]: "keeps P (label_enqueue_job l job profile atomic_group is_template)"
  unfolding label_enqueue_job_def by (rule framed keeps_intro | simp)+

lemma atomic_group_enqueue_job_framed [framed]: "keeps P (atomic_group_enqueue_job a job is_template)"
  unfolding atomic_group_enqueue_job_def by (rule framed keeps_intro | simp)+

lemma target_enqueue_job_framed [framed]: "keeps P (target_enqueue_job job atomic_group is_template t)"
  unfolding target_enqueue_job_def by (rule framed keeps_intro | simp)+

lemma model_job_queue_framed [framed]: "keeps P (model_job_queue job hosts profiles atomic_group is_template)"
  unfolding model_job_queue_def by (rule framed keeps_intro | simp)+

lemma queue_entry_owner_framed [framed]: "keeps P (queue_entry_owner q)"
  unfolding queue_entry_owner_def by (rule framed keeps_intro | simp)+

lemma special_task_save_framed [framed]: "keeps P (special_task_save t)"
  unfolding special_task_save_def by (rule framed keeps_intro | simp)+

lemma special_task_create_framed [framed]: "keeps P (special_task_create host task queue_entry requested_by)"
  unfolding special_task_create_def by (rule framed keeps_intro | simp)+

lemma special_task_execution_path_framed [framed]: "keeps P (special_task_execution_path t)"
  unfolding special_task_execution_path_def by (rule framed keeps_intro | simp)+

lemma schedule_special_task_framed [framed]: "keeps P (schedule_special_task host task)"
  unfolding schedule_special_task_def by (rule framed keeps_intro | simp)+

lemma special_task_activate_framed [framed]: "keeps P (special_task_activate t)"
  unfolding special_task_activate_def by (rule framed keeps_intro | simp)+

lemma special_task_finish_framed [framed]: "keeps P (special_task_finish t success)"
  unfolding special_task_finish_def by (rule framed keeps_intro | simp)+

lemma drone_set_by_name_framed [framed]: "keeps P (drone_set_by_name name)"
  unfolding drone_set_by_name_def by (rule framed keeps_intro | simp)+

lemma drone_set_get_default_framed [framed]: "keeps P (drone_set_get_default)"
  unfolding drone_set_get_default_def by (rule framed keeps_intro | simp)+

lemma drone_set_name_framed [framed]: "keeps P (drone_set_name ds)"
  unfolding drone_set_name_def by (rule framed keeps_intro | simp)+

lemma drone_set_resolve_name_framed [framed]: "keeps P (drone_set_resolve_name name)"
  unfolding drone_set_resolve_name_def by (rule framed keeps_intro | simp)+

subsection \<open>Reservations\<close>

lemma host_smart_get_bulk_framed [framed]: "keeps P (host_smart_get_bulk names)"
  unfolding host_smart_get_bulk_def by (rule framed keeps_intro | simp)+

lemma get_user_framed [framed]: "keeps P (get_user username)"
  unfolding get_user_def by (rule framed keeps_intro | simp)+

lemma acl_get_or_create_framed [framed]: "keeps P (acl_get_or_create name)"
  unfolding acl_get_or_create_def by (rule framed keeps_intro | simp)+

lemma acl_set_users_framed [framed]: "keeps P (acl_set_users g u)"
  unfolding acl_set_users_def by (rule framed keeps_intro | simp)+

lemma reserve_host_framed [framed]: "keeps P (reserve_host g hosts h)"
  unfolding reserve_host_def by (rule framed keeps_intro | simp)+

lemma reservations_create_framed [framed]: "keeps P (reservations_create hosts_to_reserve username)"
  unfolding reservations_create_def by (rule framed keeps_intro | simp)+

lemma reservations_release_framed [framed]: "keeps P (reservations_release hosts_to_release username)"
  unfolding reservations_release_def by (rule framed keeps_intro | simp)+

lemma force_release_from_framed [framed]: "keeps P (force_release_from hosts g)"
  unfolding force_release_from_def by (rule framed keeps_intro | simp)+

lemma reservations_force_release_framed [framed]: "keeps P (reservations_force_release hosts_to_release username)"
  unfolding reservations_force_release_def by (rule framed keeps_intro | simp)+

subsection \<open>Entries, hosts and jobs of the scheduler\<close>

lemma load_host_framed [framed]: "keeps P (load_host i)"
  unfolding load_host_def by (rule framed keeps_intro | simp)+

lemma load_job_framed [framed]: "keeps P (load_job i)"
  unfolding load_job_def by (rule framed keeps_intro | simp)+

lemma put_entry_framed [framed]: "keeps P (put_entry r e)"
  unfolding put_entry_def by (rule framed keeps_intro | simp)+

lemma init_entry_framed [framed]: "keeps P (init_entry r row)"
  unfolding init_entry_def by (rule framed keeps_intro | simp)+

lemma construct_entry_framed [framed]: "keeps P (construct_entry row)"
  unfolding construct_entry_def by (rule framed keeps_intro | simp)+

lemma load_entry_framed [framed]: "keeps P (load_entry i)"
  unfolding load_entry_def by (rule framed keeps_intro | simp)+

lemma fetch_entries_framed [framed]: "keeps P (fetch_entries query)"
  unfolding fetch_entries_def by (rule framed keeps_intro | simp)+

lemma fetch_hosts_framed [framed]: "keeps P (fetch_hosts query)"
  unfolding fetch_hosts_def by (rule framed keeps_intro | simp)+

lemma entry_update_from_database_framed [framed]: "keeps P (entry_update_from_database r)"
  unfolding entry_update_from_database_def by (rule framed keeps_intro | simp)+

lemma entry_update_field_framed [framed]: "keeps P (entry_update_field r get upd v)"
  unfolding entry_update_field_def by (rule framed keeps_intro | simp)+

lemma host_update_field_framed [framed]: "keeps P (host_update_field i get upd v)"
  unfolding host_update_field_def by (rule framed keeps_intro | simp)+

lemma clone_entry_framed [framed]: "keeps P (clone_entry template)"
  unfolding clone_entry_def by (rule framed keeps_intro | simp)+

lemma save_entry_framed [framed]: "keeps P (save_entry r)"
  unfolding save_entry_def by (rule framed keeps_intro | simp)+

lemma host_set_status_framed [framed]: "keeps P (host_set_status i status)"
  unfolding host_set_status_def by (rule framed keeps_intro | simp)+

lemma owner_model_framed [framed]: "keeps P (owner_model i)"
  unfolding owner_model_def by (rule framed keeps_intro | simp)+

lemma get_host_queue_entries_framed [framed]: "keeps P (get_host_queue_entries i)"
  unfolding get_host_queue_entries_def by (rule framed keeps_intro | simp)+

lemma release_host_of_framed [framed]: "keeps P (release_host_of child)"
  unfolding release_host_of_def by (rule framed keeps_intro | simp)+

lemma stop_entry_framed [framed]: "keeps P (stop_entry child)"
  unfolding stop_entry_def by (rule framed keeps_intro | simp)+

lemma stop_all_entries_framed [framed]: "keeps P (stop_all_entries i)"
  unfolding stop_all_entries_def by (rule framed keeps_intro | simp)+

lemma stop_if_necessary_framed [framed]: "keeps P (stop_if_necessary i)"
  unfolding stop_if_necessary_def by (rule framed keeps_intro | simp)+

lemma job_keyval_dict_framed [framed]: "keeps P (job_keyval_dict i)"
  unfolding job_keyval_dict_def by (rule framed keeps_intro | simp)+

lemma request_abort_framed [framed]: "keeps P (request_abort i)"
  unfolding request_abort_def by (rule framed keeps_intro | simp)+

lemma get_labels_framed [framed]: "keeps P (get_labels e)"
  unfolding get_labels_def by (rule framed keeps_intro | simp)+

lemma queue_log_record_framed [framed]: "keeps P (queue_log_record r log_line)"
  unfolding queue_log_record_def by (rule framed keeps_intro | simp)+

lemma block_host_framed [framed]: "keeps P (block_host job host)"
  unfolding block_host_def by (rule framed keeps_intro | simp)+

lemma unblock_host_framed [framed]: "keeps P (unblock_host job host)"
  unfolding unblock_host_def by (rule framed keeps_intro | simp)+

lemma set_entry_host_framed [framed]: "keeps P (set_entry_host r h)"
  unfolding set_entry_host_def by (rule framed keeps_intro | simp)+

lemma entry_set_host_framed [framed]: "keeps P (entry_set_host r host)"
  unfolding entry_set_host_def by (rule framed keeps_intro | simp)+

lemma entry_set_execution_subdir_framed [framed]: "keeps P (entry_set_execution_subdir r subdir)"
  unfolding entry_set_execution_subdir_def by (rule framed keeps_intro | simp)+

lemma get_hostname_framed [framed]: "keeps P (get_hostname r)"
  unfolding get_hostname_def by (rule framed keeps_intro | simp)+

lemma execution_tag_framed [framed]: "keeps P (execution_tag r)"
  unfolding execution_tag_def by (rule framed keeps_intro | simp)+

lemma execution_path_framed [framed]: "keeps P (execution_path r)"
  unfolding execution_path_def by (rule framed keeps_intro | simp)+

lemma email_on_status_framed [framed]: "keeps P (email_on_status r status)"
  unfolding email_on_status_def by (rule framed keeps_intro | simp)+

lemma email_admin_on_status_framed [framed]: "keeps P (email_admin_on_status r status)"
  unfolding email_admin_on_status_def by (rule framed keeps_intro | simp)+

lemma email_on_job_complete_framed [framed]: "keeps P (email_on_job_complete r email_admin)"
  unfolding email_on_job_complete_def by (rule framed keeps_intro | simp)+

lemma unregister_entry_pidfile_framed [framed]: "keeps P (unregister_entry_pidfile path name)"
  unfolding unregister_entry_pidfile_def by (rule framed keeps_intro | simp)+

lemma on_complete_framed [framed]: "keeps P (on_complete r status)"
  unfolding on_complete_def by (rule framed keeps_intro | simp)+

lemma entry_write_status_framed [framed]: "keeps P (entry_write_status r status)"
  unfolding entry_write_status_def by (rule framed keeps_intro | simp)+

lemma entry_set_status_framed [framed]: "keeps P (entry_set_status r status)"
  unfolding entry_set_status_def by (rule framed keeps_intro | simp)+

lemma load_abort_info_framed [framed]: "keeps P (load_abort_info r)"
  unfolding load_abort_info_def by (rule framed keeps_intro | simp)+

lemma get_group_name_framed [framed]: "keeps P (get_group_name r)"
  unfolding get_group_name_def by (rule framed keeps_intro | simp)+

lemma set_started_on_now_framed [framed]: "keeps P (set_started_on_now r)"
  unfolding set_started_on_now_def by (rule framed keeps_intro | simp)+

lemma requeue_framed [framed]: "keeps P (requeue r)"
  unfolding requeue_def by (rule framed keeps_intro | simp)+

lemma entry_str_framed [framed]: "keeps P (entry_str r)"
  unfolding entry_str_def by (rule framed keeps_intro | simp)+

lemma job_set_status_framed [framed]: "keeps P (job_set_status i status update_queues)"
  unfolding job_set_status_def by (rule framed keeps_intro | simp)+

subsection \<open>The flow of a job\<close>

lemma get_task_framed [framed]: "keeps P (get_task t)"
  unfolding get_task_def by (rule framed keeps_intro | simp)+

lemma put_task_framed [framed]: "keeps P (put_task t a)"
  unfolding put_task_def by (rule framed keeps_intro | simp)+

lemma upd_task_framed [framed]: "keeps P (upd_task t f)"
  unfolding upd_task_def by (rule framed keeps_intro | simp)+

lemma alloc_task_framed [framed]: "keeps P (alloc_task a)"
  unfolding alloc_task_def by (rule framed keeps_intro | simp)+

lemma new_delayed_call_task_framed [framed]: "keeps P (new_delayed_call_task delay_seconds job r)"
  unfolding new_delayed_call_task_def by (rule framed keeps_intro | simp)+

lemma delayed_abort_framed [framed]: "keeps P (delayed_abort t)"
  unfolding delayed_abort_def by (rule framed keeps_intro | simp)+

lemma get_group_entries_framed [framed]: "keeps P (get_group_entries i r)"
  unfolding get_group_entries_def by (rule framed keeps_intro | simp)+

lemma write_to_machines_file_framed [framed]: "keeps P (write_to_machines_file i r)"
  unfolding write_to_machines_file_def by (rule framed keeps_intro | simp)+

lemma abort_delay_ready_task_framed [framed]: "keeps P (abort_delay_ready_task i)"
  unfolding abort_delay_ready_task_def by (rule framed keeps_intro | simp)+

lemma finish_run_framed [framed]: "keeps P (finish_run i entries)"
  unfolding finish_run_def by (rule framed keeps_intro | simp)+

lemma assign_new_group_framed [framed]: "keeps P (assign_new_group i entries group_name)"
  unfolding assign_new_group_def by (rule framed keeps_intro | simp)+

lemma entry_with_hostname_framed [framed]: "keeps P (entry_with_hostname r)"
  unfolding entry_with_hostname_def by (rule framed keeps_intro | simp)+

lemma sorted_pending_entries_framed [framed]: "keeps P (sorted_pending_entries i other)"
  unfolding sorted_pending_entries_def by (rule framed keeps_intro | simp)+

lemma choose_group_to_run_framed [framed]: "keeps P (choose_group_to_run i r)"
  unfolding choose_group_to_run_def by (rule framed keeps_intro | simp)+

lemma job_run_framed [framed]: "keeps P (job_run i r)"
  unfolding job_run_def by (rule framed keeps_intro | simp)+

lemma job_is_ready_framed [framed]: "keeps P (job_is_ready i)"
  unfolding job_is_ready_def by (rule framed keeps_intro | simp)+

lemma run_with_ready_delay_framed [framed]: "keeps P (run_with_ready_delay i r)"
  unfolding run_with_ready_delay_def by (rule framed keeps_intro | simp)+

lemma run_if_ready_framed [framed]: "keeps P (run_if_ready i r)"
  unfolding run_if_ready_def by (rule framed keeps_intro | simp)+

lemma run_job_after_delay_framed [framed]: "keeps P (run_job_after_delay i r)"
  unfolding run_job_after_delay_def by (rule framed keeps_intro | simp)+

lemma delayed_poll_framed [framed]: "keeps P (delayed_poll t)"
  unfolding delayed_poll_def by (rule framed keeps_intro | simp)+

lemma schedule_delayed_callback_task_framed [framed]: "keeps P (schedule_delayed_callback_task i r)"
  unfolding schedule_delayed_callback_task_def by (rule framed keeps_intro | simp)+

lemma on_pending_framed [framed]: "keeps P (on_pending r)"
  unfolding on_pending_def by (rule framed keeps_intro | simp)+

lemma job_schedule_pre_job_tasks_framed [framed]: "keeps P (job_schedule_pre_job_tasks i r)"
  unfolding job_schedule_pre_job_tasks_def by (rule framed keeps_intro | simp)+

lemma do_schedule_pre_job_tasks_framed [framed]: "keeps P (do_schedule_pre_job_tasks r)"
  unfolding do_schedule_pre_job_tasks_def by (rule framed keeps_intro | simp)+

lemma schedule_pre_job_tasks_framed [framed]: "keeps P (schedule_pre_job_tasks r)"
  unfolding schedule_pre_job_tasks_def by (rule framed keeps_intro | simp)+

lemma entry_abort_framed [framed]: "keeps P (entry_abort r)"
  unfolding entry_abort_def by (rule framed keeps_intro | simp)+

subsection \<open>Matching hosts and entries\<close>

lemma host_scheduler_init_framed [framed]: "keeps P (host_scheduler_init)"
  unfolding host_scheduler_init_def by (rule framed keeps_intro | simp)+

lemma get_ready_hosts_framed [framed]: "keeps P (get_ready_hosts)"
  unfolding get_ready_hosts_def by (rule framed keeps_intro | simp)+

lemma hs_refresh_framed [framed]: "keeps P (hs_refresh pending)"
  unfolding hs_refresh_def by (rule framed keeps_intro | simp)+

lemma remove_host_from_label_framed [framed]: "keeps P (remove_host_from_label h l)"
  unfolding remove_host_from_label_def by (rule framed keeps_intro | simp)+

lemma pop_host_framed [framed]: "keeps P (pop_host h)"
  unfolding pop_host_def by (rule framed keeps_intro | simp)+

lemma schedule_non_metahost_framed [framed]: "keeps P (schedule_non_metahost q h)"
  unfolding schedule_non_metahost_def by (rule framed keeps_intro | simp)+

lemma eligible_op_framed [framed]: "keeps P (eligible_op q h)"
  unfolding eligible_op_def by (rule framed keeps_intro | simp)+

lemma choose_metahost_framed [framed]: "keeps P (choose_metahost q l)"
  unfolding choose_metahost_def by (rule framed keeps_intro | simp)+

lemma schedule_metahost_framed [framed]: "keeps P (schedule_metahost r l)"
  unfolding schedule_metahost_def by (rule framed keeps_intro | simp)+

lemma schedule_entry_framed [framed]: "keeps P (schedule_entry r)"
  unfolding schedule_entry_def by (rule framed keeps_intro | simp)+

lemma get_eligible_host_ids_in_group_framed [framed]: "keeps P (get_eligible_host_ids_in_group group_hosts q)"
  unfolding get_eligible_host_ids_in_group_def by (rule framed keeps_intro | simp)+

lemma sort_hosts_framed [framed]: "keeps P (sort_hosts ids)"
  unfolding sort_hosts_def by (rule framed keeps_intro | simp)+

lemma take_hosts_framed [framed]: "keeps P (take_hosts hosts)"
  unfolding take_hosts_def by (rule framed keeps_intro | simp)+

lemma find_group_loop_framed [framed]: "keeps P (find_group_loop q m n ls)"
  by (induction ls) (simp, simp only: find_group_loop.simps, (rule framed keeps_intro | assumption)+)

lemma find_eligible_atomic_group_framed [framed]: "keeps P (find_eligible_atomic_group r)"
  unfolding find_eligible_atomic_group_def by (rule framed keeps_intro | simp)+

subsection \<open>Process monitors\<close>

lemma get_monitor_framed [framed]: "keeps P (get_monitor l)"
  unfolding get_monitor_def by (rule framed keeps_intro | simp)+

lemma put_monitor_framed [framed]: "keeps P (put_monitor l m)"
  unfolding put_monitor_def by (rule framed keeps_intro | simp)+

lemma set_start_time_framed [framed]: "keeps P (set_start_time l)"
  unfolding set_start_time_def by (rule framed keeps_intro | simp)+

lemma monitor_run_framed [framed]: "keeps P (monitor_run l command wd n nice_level log_file name paired username allowed)"
  unfolding monitor_run_def by (rule framed keeps_intro | simp)+

lemma attach_to_existing_process_framed [framed]: "keeps P (attach_to_existing_process l path name n)"
  unfolding attach_to_existing_process_def by (rule framed keeps_intro | simp)+

lemma read_pidfile_framed [framed]: "keeps P (read_pidfile l use_second_read)"
  unfolding read_pidfile_def by (rule framed keeps_intro | simp)+

lemma on_lost_process_framed [framed]: "keeps P (on_lost_process l p)"
  unfolding on_lost_process_def by (rule framed keeps_intro | simp)+

lemma handle_pidfile_error_framed [framed]: "keeps P (handle_pidfile_error l error)"
  unfolding handle_pidfile_error_def by (rule framed keeps_intro | simp)+

lemma handle_no_process_framed [framed]: "keeps P (handle_no_process l)"
  unfolding handle_no_process_def by (rule framed keeps_intro | simp)+

lemma get_pidfile_info_helper_framed [framed]: "keeps P (get_pidfile_info_helper l)"
  unfolding get_pidfile_info_helper_def by (rule framed keeps_intro | simp)+

lemma get_pidfile_info_framed [framed]: "keeps P (get_pidfile_info l)"
  unfolding get_pidfile_info_def by (rule framed keeps_intro | simp)+

lemma has_process_framed [framed]: "keeps P (has_process l)"
  unfolding has_process_def by (rule framed keeps_intro | simp)+

lemma get_process_framed [framed]: "keeps P (get_process l)"
  unfolding get_process_def by (rule framed keeps_intro | simp)+

lemma exit_code_framed [framed]: "keeps P (exit_code l)"
  unfolding exit_code_def by (rule framed keeps_intro | simp)+

lemma num_tests_failed_framed [framed]: "keeps P (num_tests_failed l)"
  unfolding num_tests_failed_def by (rule framed keeps_intro | simp)+

lemma monitor_kill_framed [framed]: "keeps P (monitor_kill l)"
  unfolding monitor_kill_def by (rule framed keeps_intro | simp)+

lemma try_copy_results_on_drone_framed [framed]: "keeps P (try_copy_results_on_drone l source_path destination_path)"
  unfolding try_copy_results_on_drone_def by (rule framed keeps_intro | simp)+

lemma try_copy_to_results_repository_framed [framed]: "keeps P (try_copy_to_results_repository l source destination_path)"
  unfolding try_copy_to_results_repository_def by (rule framed keeps_intro | simp)+

subsection \<open>Agent tasks\<close>

lemma all_paths_are_framed [framed]: "keeps P (all_paths_are path rs)"
  proof (induction rs)
  case (Cons r rs)
  then show ?case unfolding all_paths_are.simps by (intro framed keeps_intro)
qed simp

lemma get_consistent_execution_path_framed [framed]: "keeps P (get_consistent_execution_path entries)"
  unfolding get_consistent_execution_path_def by (rule framed keeps_intro | simp)+

lemma the_special_task_framed [framed]: "keeps P (the_special_task a)"
  unfolding the_special_task_def by (rule framed keeps_intro | simp)+

lemma working_directory_framed [framed]: "keeps P (working_directory t)"
  unfolding working_directory_def by (rule framed keeps_intro | simp)+

lemma task_log_file_framed [framed]: "keeps P (task_log_file t)"
  unfolding task_log_file_def by (rule framed keeps_intro | simp)+

lemma keyval_path_framed [framed]: "keeps P (keyval_path t)"
  unfolding keyval_path_def by (rule framed keeps_intro | simp)+

lemma paired_monitor_framed [framed]: "keeps P (paired_monitor t)"
  unfolding paired_monitor_def by (rule framed keeps_intro | simp)+

lemma paired_has_process_framed [framed]: "keeps P (paired_has_process t)"
  unfolding paired_has_process_def by (rule framed keeps_intro | simp)+

lemma paired_pidfile_id_framed [framed]: "keeps P (paired_pidfile_id t)"
  unfolding paired_pidfile_id_def by (rule framed keeps_intro | simp)+

lemma first_entry_job_framed [framed]: "keeps P (first_entry_job a)"
  unfolding first_entry_job_def by (rule framed keeps_intro | simp)+

lemma owner_username_framed [framed]: "keeps P (owner_username t)"
  unfolding owner_username_def by (rule framed keeps_intro | simp)+

lemma user_or_global_default_drone_set_framed [framed]: "keeps P (user_or_global_default_drone_set user)"
  unfolding user_or_global_default_drone_set_def by (rule framed keeps_intro | simp)+

lemma get_drone_hostnames_allowed_framed [framed]: "keeps P (get_drone_hostnames_allowed t)"
  unfolding get_drone_hostnames_allowed_def by (rule framed keeps_intro | simp)+

lemma register_necessary_pidfiles_framed [framed]: "keeps P (register_necessary_pidfiles t)"
  unfolding register_necessary_pidfiles_def by (rule framed keeps_intro | simp)+

lemma write_control_file_framed [framed]: "keeps P (write_control_file job path)"
  unfolding write_control_file_def by (rule framed keeps_intro | simp)+

lemma queue_command_line_framed [framed]: "keeps P (queue_command_line a)"
  unfolding queue_command_line_def by (rule framed keeps_intro | simp)+

lemma special_command_line_framed [framed]: "keeps P (special_command_line a)"
  unfolding special_command_line_def by (rule framed keeps_intro | simp)+

lemma generate_command_framed [framed]: "keeps P (generate_command a results_dir)"
  unfolding generate_command_def by (rule framed keeps_intro | simp)+

lemma post_job_command_line_framed [framed]: "keeps P (post_job_command_line t a)"
  unfolding post_job_command_line_def by (rule framed keeps_intro | simp)+

lemma task_command_line_framed [framed]: "keeps P (task_command_line t)"
  unfolding task_command_line_def by (rule framed keeps_intro | simp)+

lemma write_keyval_after_job_framed [framed]: "keeps P (write_keyval_after_job t field v)"
  unfolding write_keyval_after_job_def by (rule framed keeps_intro | simp)+

lemma write_job_finished_framed [framed]: "keeps P (write_job_finished t)"
  unfolding write_job_finished_def by (rule framed keeps_intro | simp)+

lemma write_keyvals_before_job_helper_framed [framed]: "keeps P (write_keyvals_before_job_helper t kvs path)"
  unfolding write_keyvals_before_job_helper_def by (rule framed keeps_intro | simp)+

lemma write_keyvals_before_job_framed [framed]: "keeps P (write_keyvals_before_job t kvs)"
  unfolding write_keyvals_before_job_def by (rule framed keeps_intro | simp)+

lemma write_host_keyvals_framed [framed]: "keeps P (write_host_keyvals t h)"
  unfolding write_host_keyvals_def by (rule framed keeps_intro | simp)+

lemma entry_host_ids_framed [framed]: "keeps P (entry_host_ids entries)"
  unfolding entry_host_ids_def by (rule framed keeps_intro | simp)+

lemma entry_ids_framed [framed]: "keeps P (entry_ids entries)"
  unfolding entry_ids_def by (rule framed keeps_intro | simp)+

lemma new_special_agent_task_framed [framed]: "keeps P (new_special_agent_task c extra st)"
  unfolding new_special_agent_task_def by (rule framed keeps_intro | simp)+

lemma set_special_ids_framed [framed]: "keeps P (set_special_ids with_entry t)"
  unfolding set_special_ids_def by (rule framed keeps_intro | simp)+

lemma new_cleanup_task_framed [framed]: "keeps P (new_cleanup_task st)"
  unfolding new_cleanup_task_def by (rule framed keeps_intro | simp)+

lemma new_verify_task_framed [framed]: "keeps P (new_verify_task st)"
  unfolding new_verify_task_def by (rule framed keeps_intro | simp)+

lemma new_repair_task_framed [framed]: "keeps P (new_repair_task st)"
  unfolding new_repair_task_def by (rule framed keeps_intro | simp)+

lemma first_entry_job_id_framed [framed]: "keeps P (first_entry_job_id entries)"
  unfolding first_entry_job_id_def by (rule framed keeps_intro | simp)+

lemma new_queue_task_framed [framed]: "keeps P (new_queue_task entries)"
  unfolding new_queue_task_def by (rule framed keeps_intro | simp)+

lemma new_hostless_queue_task_framed [framed]: "keeps P (new_hostless_queue_task r)"
  unfolding new_hostless_queue_task_def by (rule framed keeps_intro | simp)+

lemma new_post_job_task_framed [framed]: "keeps P (new_post_job_task c log_file_name entries)"
  unfolding new_post_job_task_def by (rule framed keeps_intro | simp)+

lemma new_gather_logs_task_framed [framed]: "keeps P (new_gather_logs_task entries)"
  unfolding new_gather_logs_task_def by (rule framed keeps_intro | simp)+

lemma new_final_reparse_task_framed [framed]: "keeps P (new_final_reparse_task entries)"
  unfolding new_final_reparse_task_def by (rule framed keeps_intro | simp)+

lemma new_archive_results_task_framed [framed]: "keeps P (new_archive_results_task entries)"
  unfolding new_archive_results_task_def by (rule framed keeps_intro | simp)+

subsection \<open>The life of a task\<close>

lemma parse_results_framed [framed]: "keeps P (parse_results entries)"
  unfolding parse_results_def by (rule framed keeps_intro | simp)+

lemma archive_results_framed [framed]: "keeps P (archive_results entries)"
  unfolding archive_results_def by (rule framed keeps_intro | simp)+

lemma set_all_statuses_framed [framed]: "keeps P (set_all_statuses entries s)"
  unfolding set_all_statuses_def by (rule framed keeps_intro | simp)+

lemma base_cleanup_framed [framed]: "keeps P (base_cleanup t)"
  unfolding base_cleanup_def by (rule framed keeps_intro | simp)+

lemma copy_special_results_framed [framed]: "keeps P (copy_special_results t st)"
  unfolding copy_special_results_def by (rule framed keeps_intro | simp)+

lemma special_cleanup_framed [framed]: "keeps P (special_cleanup t)"
  unfolding special_cleanup_def by (rule framed keeps_intro | simp)+

lemma task_cleanup_framed [framed]: "keeps P (task_cleanup t)"
  unfolding task_cleanup_def by (rule framed keeps_intro | simp)+

lemma fail_queue_entry_framed [framed]: "keeps P (fail_queue_entry t)"
  unfolding fail_queue_entry_def by (rule framed keeps_intro | simp)+

lemma repair_epilog_framed [framed]: "keeps P (repair_epilog t)"
  unfolding repair_epilog_def by (rule framed keeps_intro | simp)+

lemma copy_to_results_repository_pre_framed [framed]: "keeps P (copy_to_results_repository_pre t)"
  unfolding copy_to_results_repository_pre_def by (rule framed keeps_intro | simp)+

lemma create_repair_framed [framed]: "keeps P (create_repair a queue_entry)"
  unfolding create_repair_def by (rule framed keeps_intro | simp)+

lemma pre_job_failed_framed [framed]: "keeps P (pre_job_failed t)"
  unfolding pre_job_failed_def by (rule framed keeps_intro | simp)+

lemma pre_job_epilog_framed [framed]: "keeps P (pre_job_epilog t)"
  unfolding pre_job_epilog_def by (rule framed keeps_intro | simp)+

lemma verify_epilog_framed [framed]: "keeps P (verify_epilog t)"
  unfolding verify_epilog_def by (rule framed keeps_intro | simp)+

lemma cleanup_finish_epilog_framed [framed]: "keeps P (cleanup_finish_epilog t)"
  unfolding cleanup_finish_epilog_def by (rule framed keeps_intro | simp)+

lemma cleanup_epilog_framed [framed]: "keeps P (cleanup_epilog t)"
  unfolding cleanup_epilog_def by (rule framed keeps_intro | simp)+

lemma write_lost_process_error_file_framed [framed]: "keeps P (write_lost_process_error_file t)"
  unfolding write_lost_process_error_file_def by (rule framed keeps_intro | simp)+

lemma finish_monitored_task_framed [framed]: "keeps P (finish_monitored_task t)"
  unfolding finish_monitored_task_def by (rule framed keeps_intro | simp)+

lemma gather_entry_framed [framed]: "keeps P (gather_entry r)"
  unfolding gather_entry_def by (rule framed keeps_intro | simp)+

lemma finish_task_framed [framed]: "keeps P (finish_task t)"
  unfolding finish_task_def by (rule framed keeps_intro | simp)+

lemma queue_epilog_framed [framed]: "keeps P (queue_epilog t)"
  unfolding queue_epilog_def by (rule framed keeps_intro | simp)+

lemma job_was_aborted_loop_framed [framed]: "keeps P (job_was_aborted_loop rs b)"
  proof (induction rs arbitrary: b)
  case (Cons r rs)
  then show ?case unfolding job_was_aborted_loop.simps by (intro framed keeps_intro)
qed simp

lemma job_was_aborted_framed [framed]: "keeps P (job_was_aborted t)"
  unfolding job_was_aborted_def by (rule framed keeps_intro | simp)+

lemma final_status_framed [framed]: "keeps P (final_status t)"
  unfolding final_status_def by (rule framed keeps_intro | simp)+

lemma gathered_result_framed [framed]: "keeps P (gathered_result t)"
  unfolding gathered_result_def by (rule framed keeps_intro | simp)+

lemma reboot_host_of_framed [framed]: "keeps P (reboot_host_of job reboot r)"
  unfolding reboot_host_of_def by (rule framed keeps_intro | simp)+

lemma reboot_hosts_framed [framed]: "keeps P (reboot_hosts t)"
  unfolding reboot_hosts_def by (rule framed keeps_intro | simp)+

lemma gather_logs_epilog_framed [framed]: "keeps P (gather_logs_epilog t)"
  unfolding gather_logs_epilog_def by (rule framed keeps_intro | simp)+

lemma final_reparse_epilog_framed [framed]: "keeps P (final_reparse_epilog t)"
  unfolding final_reparse_epilog_def by (rule framed keeps_intro | simp)+

lemma write_archiving_failed_framed [framed]: "keeps P (write_archiving_failed t)"
  unfolding write_archiving_failed_def by (rule framed keeps_intro | simp)+

lemma archive_results_epilog_framed [framed]: "keeps P (archive_results_epilog t)"
  unfolding archive_results_epilog_def by (rule framed keeps_intro | simp)+

lemma task_epilog_framed [framed]: "keeps P (task_epilog t)"
  unfolding task_epilog_def by (rule framed keeps_intro | simp)+

lemma base_finished_framed [framed]: "keeps P (base_finished t success)"
  unfolding base_finished_def by (rule framed keeps_intro | simp)+

lemma base_prolog_framed [framed]: "keeps P (base_prolog t)"
  unfolding base_prolog_def by (rule framed keeps_intro | simp)+

lemma special_prolog_framed [framed]: "keeps P (special_prolog t)"
  unfolding special_prolog_def by (rule framed keeps_intro | simp)+

lemma set_entry_status_if_any_framed [framed]: "keeps P (set_entry_status_if_any a s)"
  unfolding set_entry_status_if_any_def by (rule framed keeps_intro | simp)+

lemma verify_prolog_framed [framed]: "keeps P (verify_prolog t)"
  unfolding verify_prolog_def by (rule framed keeps_intro | simp)+

lemma cleanup_prolog_framed [framed]: "keeps P (cleanup_prolog t)"
  unfolding cleanup_prolog_def by (rule framed keeps_intro | simp)+

lemma repair_prolog_framed [framed]: "keeps P (repair_prolog t)"
  unfolding repair_prolog_def by (rule framed keeps_intro | simp)+

lemma check_entry_status_framed [framed]: "keeps P (check_entry_status allowed_hqe allowed_host r)"
  unfolding check_entry_status_def by (rule framed keeps_intro | simp)+

lemma check_queue_entry_statuses_framed [framed]: "keeps P (check_queue_entry_statuses entries allowed_hqe allowed_host)"
  unfolding check_queue_entry_statuses_def by (rule framed keeps_intro | simp)+

lemma start_entry_framed [framed]: "keeps P (start_entry r)"
  unfolding start_entry_def by (rule framed keeps_intro | simp)+

lemma abstract_queue_prolog_framed [framed]: "keeps P (abstract_queue_prolog t)"
  unfolding abstract_queue_prolog_def by (rule framed keeps_intro | simp)+

lemma occupy_host_framed [framed]: "keeps P (occupy_host t r)"
  unfolding occupy_host_def by (rule framed keeps_intro | simp)+

lemma queue_prolog_framed [framed]: "keeps P (queue_prolog t)"
  unfolding queue_prolog_def by (rule framed keeps_intro | simp)+

lemma hostless_prolog_framed [framed]: "keeps P (hostless_prolog t)"
  unfolding hostless_prolog_def by (rule framed keeps_intro | simp)+

lemma post_job_prolog_framed [framed]: "keeps P (post_job_prolog s hosts t)"
  unfolding post_job_prolog_def by (rule framed keeps_intro | simp)+

lemma task_prolog_framed [framed]: "keeps P (task_prolog t)"
  unfolding task_prolog_def by (rule framed keeps_intro | simp)+

lemma create_monitor_framed [framed]: "keeps P (create_monitor t)"
  unfolding create_monitor_def by (rule framed keeps_intro | simp)+

lemma base_abort_framed [framed]: "keeps P (base_abort t)"
  unfolding base_abort_def by (rule framed keeps_intro | simp)+

lemma collect_abort_info_framed [framed]: "keeps P (collect_abort_info r acc)"
  unfolding collect_abort_info_def by (rule framed keeps_intro | simp)+

lemma write_status_comment_framed [framed]: "keeps P (write_status_comment t comment)"
  unfolding write_status_comment_def by (rule framed keeps_intro | simp)+

lemma log_abort_info_framed [framed]: "keeps P (log_abort_info t)"
  unfolding log_abort_info_def by (rule framed keeps_intro | simp)+

lemma task_abort_framed [framed]: "keeps P (task_abort t)"
  unfolding task_abort_def by (rule framed keeps_intro | simp)+

subsection \<open>Periodic cleanup\<close>

lemma disable_host_installation_framed [framed]: "keeps P (disable_host_installation arg)"
  unfolding disable_host_installation_def by (rule framed keeps_intro | simp)+

lemma disable_entry_installation_framed [framed]: "keeps P (disable_entry_installation q)"
  unfolding disable_entry_installation_def by (rule framed keeps_intro | simp)+

lemma abort_timed_out_job_framed [framed]: "keeps P (abort_timed_out_job j)"
  unfolding abort_timed_out_job_def by (rule framed keeps_intro | simp)+

lemma abort_timed_out_jobs_framed [framed]: "keeps P (abort_timed_out_jobs)"
  unfolding abort_timed_out_jobs_def by (rule framed keeps_intro | simp)+

lemma abort_past_max_runtime_framed [framed]: "keeps P (abort_past_max_runtime q)"
  unfolding abort_past_max_runtime_def by (rule framed keeps_intro | simp)+

lemma abort_jobs_past_max_runtime_framed [framed]: "keeps P (abort_jobs_past_max_runtime)"
  unfolding abort_jobs_past_max_runtime_def by (rule framed keeps_intro | simp)+

lemma clear_inactive_blocks_framed [framed]: "keeps P (clear_inactive_blocks)"
  unfolding clear_inactive_blocks_def by (rule framed keeps_intro | simp)+

lemma clear_invalid_host_labels_framed [framed]: "keeps P (clear_invalid_host_labels)"
  unfolding clear_invalid_host_labels_def by (rule framed keeps_intro | simp)+

lemma clear_invalid_label_hosts_framed [framed]: "keeps P (clear_invalid_label_hosts)"
  unfolding clear_invalid_label_hosts_def by (rule framed keeps_intro | simp)+

lemma clear_invalid_host_acls_framed [framed]: "keeps P (clear_invalid_host_acls)"
  unfolding clear_invalid_host_acls_def by (rule framed keeps_intro | simp)+

lemma check_all_invalid_related_objects_framed [framed]: "keeps P (check_all_invalid_related_objects)"
  unfolding check_all_invalid_related_objects_def by (rule framed keeps_intro | simp)+

lemma reverify_dead_hosts_framed [framed]: "keeps P (reverify_dead_hosts sample)"
  unfolding reverify_dead_hosts_def by (rule framed keeps_intro | simp)+

lemma user_cleanup_framed [framed]: "keeps P (user_cleanup sample)"
  unfolding user_cleanup_def by (rule framed keeps_intro | simp)+

lemma check_for_active_and_complete_queue_entries_framed [framed]: "keeps P (check_for_active_and_complete_queue_entries)"
  unfolding check_for_active_and_complete_queue_entries_def by (rule framed keeps_intro | simp)+

lemma check_for_multiple_platform_hosts_framed [framed]: "keeps P (check_for_multiple_platform_hosts)"
  unfolding check_for_multiple_platform_hosts_def by (rule framed keeps_intro | simp)+

lemma check_for_multiple_atomic_group_hosts_framed [framed]: "keeps P (check_for_multiple_atomic_group_hosts)"
  unfolding check_for_multiple_atomic_group_hosts_def by (rule framed keeps_intro | simp)+

lemma upkeep_cleanup_framed [framed]: "keeps P (upkeep_cleanup)"
  unfolding upkeep_cleanup_def by (rule framed keeps_intro | simp)+

lemma run_cleanup_framed [framed]: "keeps P (run_cleanup sample)"
  unfolding run_cleanup_def by (rule framed keeps_intro | simp)+

subsection \<open>The dispatcher\<close>

lemma get_agent_framed [framed]: "keeps P (get_agent t)"
  unfolding get_agent_def by (rule framed keeps_intro | simp)+

lemma assert_host_has_no_agent_framed [framed]: "keeps P (assert_host_has_no_agent h)"
  unfolding assert_host_has_no_agent_def by (rule framed keeps_intro | simp)+

lemma check_duplicate_host_entry_framed [framed]: "keeps P (check_duplicate_host_entry r)"
  unfolding check_duplicate_host_entry_def by (rule framed keeps_intro | simp)+

lemma get_agent_task_for_queue_entry_framed [framed]: "keeps P (get_agent_task_for_queue_entry r)"
  unfolding get_agent_task_for_queue_entry_def by (rule framed keeps_intro | simp)+

lemma agent_task_for_entry_framed [framed]: "keeps P (agent_task_for_entry r acc)"
  unfolding agent_task_for_entry_def by (rule framed keeps_intro | simp)+

lemma get_queue_entry_agent_tasks_framed [framed]: "keeps P (get_queue_entry_agent_tasks)"
  unfolding get_queue_entry_agent_tasks_def by (rule framed keeps_intro | simp)+

lemma get_agent_task_for_special_task_framed [framed]: "keeps P (get_agent_task_for_special_task st)"
  unfolding get_agent_task_for_special_task_def by (rule framed keeps_intro | simp)+

lemma get_special_task_agent_tasks_framed [framed]: "keeps P (get_special_task_agent_tasks is_active)"
  unfolding get_special_task_agent_tasks_def by (rule framed keeps_intro | simp)+

lemma create_recovery_agent_tasks_framed [framed]: "keeps P (create_recovery_agent_tasks)"
  unfolding create_recovery_agent_tasks_def by (rule framed keeps_intro | simp)+

lemma check_for_remaining_orphan_processes_framed [framed]: "keeps P (check_for_remaining_orphan_processes orphans)"
  unfolding check_for_remaining_orphan_processes_def by (rule framed keeps_intro | simp)+

lemma recover_pending_entry_framed [framed]: "keeps P (recover_pending_entry r)"
  unfolding recover_pending_entry_def by (rule framed keeps_intro | simp)+

lemma recover_pending_entries_framed [framed]: "keeps P (recover_pending_entries)"
  unfolding recover_pending_entries_def by (rule framed keeps_intro | simp)+

lemma check_for_unrecovered_verifying_entries_framed [framed]: "keeps P (check_for_unrecovered_verifying_entries)"
  unfolding check_for_unrecovered_verifying_entries_def by (rule framed keeps_intro | simp)+

lemma reverify_host_framed [framed]: "keeps P (reverify_host repair_failed h)"
  unfolding reverify_host_def by (rule framed keeps_intro | simp)+

lemma reverify_hosts_where_framed [framed]: "keeps P (reverify_hosts_where p repair_failed)"
  unfolding reverify_hosts_where_def by (rule framed keeps_intro | simp)+

lemma reverify_remaining_hosts_framed [framed]: "keeps P (reverify_remaining_hosts)"
  unfolding reverify_remaining_hosts_def by (rule framed keeps_intro | simp)+

lemma recover_hosts_framed [framed]: "keeps P (recover_hosts)"
  unfolding recover_hosts_def by (rule framed keeps_intro | simp)+

lemma refresh_pending_queue_entries_framed [framed]: "keeps P (refresh_pending_queue_entries)"
  unfolding refresh_pending_queue_entries_def by (rule framed keeps_intro | simp)+

lemma run_queue_entry_framed [framed]: "keeps P (run_queue_entry r)"
  unfolding run_queue_entry_def by (rule framed keeps_intro | simp)+

lemma expand_atomic_group_framed [framed]: "keeps P (expand_atomic_group r h)"
  unfolding expand_atomic_group_def by (rule framed keeps_intro | simp)+

lemma schedule_atomic_group_framed [framed]: "keeps P (schedule_atomic_group r)"
  unfolding schedule_atomic_group_def by (rule framed keeps_intro | simp)+

lemma schedule_on_host_framed [framed]: "keeps P (schedule_on_host r)"
  unfolding schedule_on_host_def by (rule framed keeps_intro | simp)+

lemma can_start_agent_framed [framed]: "keeps P (can_start_agent t num_started_this_cycle have_reached_limit)"
  unfolding can_start_agent_def by (rule framed keeps_intro | simp)+

end

section \<open>The counters of the self-throttled tasks\<close>

text \<open>Ending a process lowers a counter; starting one, in \<open>_try_starting_process\<close>, raises it.\<close>

locale lowered = frame +
  assumes ended: "keeps P (add_running_processes c (-1))"
begin

lemmas ended_framed [framed] = ended

lemma task_finished_framed [framed]: "keeps P (task_finished t success)"
  unfolding task_finished_def by (rule framed keeps_intro | simp)+

lemma check_paired_results_exist_framed [framed]: "keeps P (check_paired_results_exist t)"
  unfolding check_paired_results_exist_def by (rule framed keeps_intro | simp)+

lemma base_run_framed [framed]: "keeps P (base_run t)"
  unfolding base_run_def by (rule framed keeps_intro | simp)+

lemma gather_logs_run_framed [framed]: "keeps P (gather_logs_run t)"
  unfolding gather_logs_run_def by (rule framed keeps_intro | simp)+

lemma base_tick_framed [framed]: "keeps P (base_tick t)"
  unfolding base_tick_def by (rule framed keeps_intro | simp)+

lemma task_recover_framed [framed]: "keeps P (task_recover t)"
  unfolding task_recover_def by (rule framed keeps_intro | simp)+

end

section \<open>The whole tick\<close>

locale dispatching = lowered +
  assumes started: "keeps P (try_starting_process t)"
    and put: "keeps P (put_agent t g)"
    and added: "keeps P (add_agent_task t)"
    and removed: "keeps P (remove_agent t)"
begin

lemmas dispatching_framed [framed] = started put added removed

lemma task_run_framed [framed]: "keeps P (task_run t)"
  unfolding task_run_def by (rule framed keeps_intro | simp)+

lemma task_start_framed [framed]: "keeps P (task_start t)"
  unfolding task_start_def by (rule framed keeps_intro | simp)+

lemma task_tick_framed [framed]: "keeps P (task_tick t)"
  unfolding task_tick_def by (rule framed keeps_intro | simp)+

lemma task_poll_framed [framed]: "keeps P (task_poll t)"
  unfolding task_poll_def by (rule framed keeps_intro | simp)+

lemma agent_tick_framed [framed]: "keeps P (agent_tick t)"
  unfolding agent_tick_def by (rule framed keeps_intro | simp)+

lemma agent_abort_framed [framed]: "keeps P (agent_abort t)"
  unfolding agent_abort_def by (rule framed keeps_intro | simp)+

lemma recover_agent_task_framed [framed]: "keeps P (recover_agent_task t orphans)"
  unfolding recover_agent_task_def by (rule framed keeps_intro | simp)+

lemma recover_tasks_framed [framed]: "keeps P (recover_tasks tasks)"
  unfolding recover_tasks_def by (rule framed keeps_intro | simp)+

lemma recover_processes_framed [framed]: "keeps P (recover_processes)"
  unfolding recover_processes_def by (rule framed keeps_intro | simp)+

lemma dispatcher_initialize_framed [framed]: "keeps P (dispatcher_initialize do_recover_hosts)"
  unfolding dispatcher_initialize_def by (rule framed keeps_intro | simp)+

lemma schedule_one_special_task_framed [framed]: "keeps P (schedule_one_special_task st)"
  unfolding schedule_one_special_task_def by (rule framed keeps_intro | simp)+

lemma schedule_special_tasks_framed [framed]: "keeps P (schedule_special_tasks)"
  unfolding schedule_special_tasks_def by (rule framed keeps_intro | simp)+

lemma schedule_hostless_job_framed [framed]: "keeps P (schedule_hostless_job r)"
  unfolding schedule_hostless_job_def by (rule framed keeps_intro | simp)+

lemma schedule_new_job_framed [framed]: "keeps P (schedule_new_job r)"
  unfolding schedule_new_job_def by (rule framed keeps_intro | simp)+

lemma schedule_new_jobs_framed [framed]: "keeps P (schedule_new_jobs)"
  unfolding schedule_new_jobs_def by (rule framed keeps_intro | simp)+

lemma schedule_running_host_queue_entries_framed [framed]: "keeps P (schedule_running_host_queue_entries)"
  unfolding schedule_running_host_queue_entries_def by (rule framed keeps_intro | simp)+

lemma schedule_delay_task_framed [framed]: "keeps P (schedule_delay_task r)"
  unfolding schedule_delay_task_def by (rule framed keeps_intro | simp)+

lemma schedule_delay_tasks_framed [framed]: "keeps P (schedule_delay_tasks)"
  unfolding schedule_delay_tasks_def by (rule framed keeps_intro | simp)+

lemma abort_one_entry_framed [framed]: "keeps P (abort_one_entry r jobs_to_stop)"
  unfolding abort_one_entry_def by (rule framed keeps_intro | simp)+

lemma find_aborting_framed [framed]: "keeps P (find_aborting)"
  unfolding find_aborting_def by (rule framed keeps_intro | simp)+

lemma tick_agent_framed [framed]: "keeps P (tick_agent t)"
  unfolding tick_agent_def by (rule framed keeps_intro | simp)+

lemma handle_agent_framed [framed]: "keeps P (handle_agent t acc)"
  unfolding handle_agent_def by (rule framed keeps_intro | simp)+

lemma handle_agents_framed [framed]: "keeps P (handle_agents)"
  unfolding handle_agents_def by (rule framed keeps_intro | simp)+

lemma dispatcher_tick_framed [framed]: "keeps P (dispatcher_tick sample)"
  unfolding dispatcher_tick_def by (rule framed keeps_intro | simp)+

end

end
