(* ===== verification/Throttle.thy ===== *)
theory Throttle
  imports Frame
begin

text \<open>
  The limits the dispatcher works under: the processes the parsing and the archiving tasks may run at a
  time, counted by class, and the processes a tick may start on the drones.
\<close>

section \<open>The limits of the self-throttled tasks\<close>

text \<open>The counters are at most \<open>k\<close> and \<open>l\<close>, under the configuration \<open>c\<close>.\<close>

definition counts_below :: "int \<Rightarrow> int \<Rightarrow> sched_config \<Rightarrow> world \<Rightarrow> bool" where
  "counts_below k l c w \<longleftrightarrow> w_num_parsing w \<le> k \<and> w_num_archiving w \<le> l \<and> w_cfg w = c"

definition throttled :: "world \<Rightarrow> bool" where
  "throttled w \<longleftrightarrow> w_num_parsing w \<le> cfg_max_parse_processes (w_cfg w) \<and>
     w_num_archiving w \<le> cfg_max_transfer_processes (w_cfg w)"

interpretation config: frame "\<lambda>w. w_cfg w = c" for c
  by unfold_locales (simp add: dispatch_state_def)

lemma agent_tables_config:
  "keeps (\<lambda>w. w_cfg w = c) (put_agent t g)"
  "keeps (\<lambda>w. w_cfg w = c) (add_agent_task t)"
  "keeps (\<lambda>w. w_cfg w = c) (remove_agent t)"
  "keeps (\<lambda>w. w_cfg w = c) (add_running_processes cl n)"
proof -
  have mod: "keeps (\<lambda>w. w_cfg w = c) (modify f)" if "\<And>w. w_cfg (f w) = w_cfg w" for f
    using that by (simp add: keeps_modify)
  show put: "keeps (\<lambda>w. w_cfg w = c) (put_agent t g)" for t g
    unfolding put_agent_def by (rule mod) simp
  show "keeps (\<lambda>w. w_cfg w = c) (add_agent_task t)"
    unfolding add_agent_task_def get_task_def by (intro keeps_intro put mod) simp
  show "keeps (\<lambda>w. w_cfg w = c) (remove_agent t)"
    unfolding remove_agent_def get_agent_def by (intro keeps_intro mod) simp_all
  show "keeps (\<lambda>w. w_cfg w = c) (add_running_processes cl n)"
    unfolding add_running_processes_def by (rule mod) simp
qed

interpretation config: lowered "\<lambda>w. w_cfg w = c" for c
  by unfold_locales (rule agent_tables_config)

interpretation config: dispatching "\<lambda>w. w_cfg w = c" for c
proof unfold_locales
  show "keeps (\<lambda>w. w_cfg w = c) (try_starting_process t)" for t
    unfolding try_starting_process_def
    by (intro keeps_intro config.get_task_framed config.base_run_framed agent_tables_config)
qed (rule agent_tables_config)+

interpretation below: lowered "counts_below k l c" for k l c
proof unfold_locales
  show "keeps (counts_below k l c) (add_running_processes cl (-1))" for cl
    unfolding add_running_processes_def by (rule keeps_modify) (auto simp: counts_below_def)
qed (simp add: counts_below_def dispatch_state_def)

lemma dispatch_free_throttled: "dispatch_state v = dispatch_state w \<Longrightarrow> throttled w \<Longrightarrow> throttled v"
  by (simp add: throttled_def dispatch_state_def)

lemma try_starting_throttled: "keeps throttled (try_starting_process t)"
proof (rule keepsI)
  fix w assume th: "throttled w"
  show "throttled (snd (try_starting_process t w))"
  proof (cases "w_tasks w t")
    case None
    then show ?thesis using th by (simp add: try_starting_process_def get_task_def bnd_def gets_def throw_def)
  next
    case (Some a)
    then have a: "get_task t w = (Inr a, w)" by (simp add: get_task_def ret_def)
    show ?thesis
    proof (cases "can_run_new_process (at_class a) w")
      case False
      with a th show ?thesis by (simp add: try_starting_process_def bnd_def gets_def ret_def)
    next
      case can: True
      let ?parse = "at_class a = FinalReparseTask"
      let ?k = "if ?parse then cfg_max_parse_processes (w_cfg w) - 1 else cfg_max_parse_processes (w_cfg w)"
      let ?l = "if ?parse then cfg_max_transfer_processes (w_cfg w) else cfg_max_transfer_processes (w_cfg w) - 1"
      let ?count = "bnd (get_task t) (\<lambda>a2. when_do (at_monitor a2 \<noteq> None) (add_running_processes (at_class a) 1))"
      have "counts_below ?k ?l (w_cfg w) w"
        using can th by (auto simp: counts_below_def throttled_def can_run_new_process_def num_running_processes_def
            max_processes_def split: if_splits)
      moreover obtain r w1 where run: "base_run t w = (r, w1)" by force
      ultimately have w1: "counts_below ?k ?l (w_cfg w) w1"
        using keepsD [OF below.base_run_framed, of ?k ?l "w_cfg w" w t] by simp
      then have t1: "throttled w1" by (auto simp: counts_below_def throttled_def split: if_splits)
      have "throttled (add_one w1)" if "add_one = snd \<circ> add_running_processes (at_class a) 1" for add_one
        using w1 by (auto simp: that add_running_processes_def modify_def counts_below_def throttled_def split: if_splits)
      then have "throttled (snd (?count w1))"
        using t1 by (cases "w_tasks w1 t") (simp_all add: get_task_def bnd_def gets_def throw_def ret_def when_do_def)
      moreover have "try_starting_process t w = andthen (base_run t) ?count w"
        using a can by (simp add: try_starting_process_def bnd_def gets_def)
      ultimately show ?thesis using t1 run by (cases r) (simp_all add: andthen_def bnd_def)
    qed
  qed
qed

interpretation throttle: dispatching throttled
proof unfold_locales
  show "keeps throttled (try_starting_process t)" for t by (rule try_starting_throttled)
  show "keeps throttled (add_running_processes c (-1))" for c
    unfolding add_running_processes_def by (rule keeps_modify) (auto simp: throttled_def)
  show put: "keeps throttled (put_agent t g)" for t g
    unfolding put_agent_def by (rule keeps_modify) (simp add: throttled_def)
  have mod: "keeps throttled (modify f)" if "\<And>w. throttled (f w) = throttled w" for f
    using that by (simp add: keeps_modify)
  show "keeps throttled (add_agent_task t)" for t
    unfolding add_agent_task_def get_task_def by (intro keeps_intro put mod) (simp add: throttled_def)
  show "keeps throttled (remove_agent t)" for t
    unfolding remove_agent_def get_agent_def by (intro keeps_intro mod) (simp_all add: throttled_def)
qed (rule dispatch_free_throttled)

text \<open>
  The states of a scheduler process: it starts with no self-throttled process counted, recovers, and ticks;
  in between anything may happen to the database, the drones and the clock.
\<close>

inductive scheduler_state :: "(nat list \<Rightarrow> nat \<Rightarrow> nat list) \<Rightarrow> world \<Rightarrow> bool" for sample where
  fresh_start: "w_num_parsing w = 0 \<Longrightarrow> w_num_archiving w = 0 \<Longrightarrow> 0 \<le> cfg_max_parse_processes (w_cfg w) \<Longrightarrow>
    0 \<le> cfg_max_transfer_processes (w_cfg w) \<Longrightarrow> scheduler_state sample w"
| recovered: "scheduler_state sample w \<Longrightarrow> dispatcher_initialize b w = (r, w') \<Longrightarrow> scheduler_state sample w'"
| ticked: "scheduler_state sample w \<Longrightarrow> dispatcher_tick sample w = (r, w') \<Longrightarrow> scheduler_state sample w'"
| outside: "scheduler_state sample w \<Longrightarrow> dispatch_state w' = dispatch_state w \<Longrightarrow> scheduler_state sample w'"



text \<open>
  (scheduler/monitor_db.py, \<open>AgentTask.recover\<close> on a \<open>SelfThrottledPostJobTask\<close>). Recovering a task never
  raises the counter of its class, so a process found running at startup is not counted against the
  limit, although \<open>finished\<close> will subtract it.
\<close>

theorem recovery_never_counts:
  "w_num_parsing (snd (task_recover t w)) \<le> w_num_parsing w \<and>
   w_num_archiving (snd (task_recover t w)) \<le> w_num_archiving w"
  using keepsD [OF below.task_recover_framed, of "w_num_parsing w" "w_num_archiving w" "w_cfg w" w t]
  by (simp add: counts_below_def)

section \<open>The limits of a cycle\<close>

lemma keeps_here: "keeps ((=) w) m \<Longrightarrow> m w = (r, w') \<Longrightarrow> w' = w"
  using keepsD [of "(=) w" m w] by simp

lemmas read_only_defs = can_start_agent_def get_task_def owner_username_def first_entry_job_def
  drone_set_get_default_def drone_set_by_name_def
  the_special_task_def get_drone_hostnames_allowed_def user_or_global_default_drone_set_def
  django_user_def django_job_def get_entry_def get_job_def user_by_login_def job_user_def

lemma reads:
  "keeps ((=) w) (owner_username t)"
  "keeps ((=) w) (get_drone_hostnames_allowed t)"
  unfolding read_only_defs by (rule keeps_intro | simp)+

text \<open>What \<open>_can_start_agent\<close> asks of an agent whose task needs processes.\<close>

definition may_start :: "nat \<Rightarrow> int \<Rightarrow> bool \<Rightarrow> agent_task \<Rightarrow> world \<Rightarrow> bool" where
  "may_start t n reached a w \<longleftrightarrow> num_processes a = 0 \<or>
     \<not> reached \<and> (n = 0 \<or> n + num_processes a \<le> cfg_max_processes_started_per_cycle (w_cfg w)) \<and>
     (\<exists>username allowed. owner_username t w = (Inr username, w) \<and> get_drone_hostnames_allowed t w = (Inr allowed, w) \<and>
        num_processes a \<le> max_runnable_processes (w_dm w) username allowed)"

lemma can_start_run:
  assumes "can_start_agent t n reached w = (Inr can, w')" and "w_tasks w t = Some a"
  shows "w' = w \<and> can = may_start t n reached a w"
proof (cases "num_processes a = 0 \<or> reached")
  case True
  with assms show ?thesis
    by (auto simp: can_start_agent_def get_task_def Let_def bnd_Inr may_start_def split: if_splits)
next
  case False
  with assms obtain u w1 al w2 where u: "owner_username t w = (Inr u, w1)"
      and al: "get_drone_hostnames_allowed t w1 = (Inr al, w2)"
      and can: "w' = w2" "can = (if num_processes a > max_runnable_processes (w_dm w2) u al then False
            else if n = 0 then True else \<not> n + num_processes a > cfg_max_processes_started_per_cycle (w_cfg w2))"
    by (auto simp: can_start_agent_def get_task_def Let_def bnd_Inr)
  have "w1 = w" "w2 = w1" using keeps_here [OF reads(1) u] keeps_here [OF reads(2) al] by auto
  with u al can False show ?thesis by (auto simp: may_start_def)
qed

text \<open>
  (scheduler/monitor_db.py, \<open>Dispatcher._handle_agents\<close> and \<open>_can_start_agent\<close>). One step of the loop over the
  agents: an agent that has started is ticked and counts nothing; one that has not is started exactly when
  its task needs no process or no limit was reached before, the drones can run all its processes, and it is
  the first of the cycle or fits in the limit per cycle; otherwise nothing changes and the limit counts as
  reached. Its processes are added to the number started.
\<close>

theorem handle_agent_within_limits:
  assumes "handle_agent t (n, reached) w = (Inr (n', reached'), w')"
    and "w_agent_objs w t = Some g" and "w_tasks w t = Some a"
  shows "if ag_started g then (n', reached') = (n, reached) \<and> tick_agent t w = (Inr (), w')
    else if may_start t n reached a w
    then (n', reached') = (n + num_processes a, reached) \<and> tick_agent t w = (Inr (), w')
    else (n', reached') = (n, True) \<and> w' = w"
proof (cases "ag_started g")
  case True
  with assms show ?thesis by (auto simp: handle_agent_def get_agent_def bnd_Inr andthen_Inr)
next
  case False
  with assms obtain can w1 where can: "can_start_agent t n reached w = (Inr can, w1)"
      and rest: "(if \<not> can then ret (n, True) else bnd (get_task t) (\<lambda>a. let acc' = (n + num_processes a, reached) in
         andthen (tick_agent t) (ret acc'))) w1 = (Inr (n', reached'), w')"
    unfolding handle_agent_def fst_conv snd_conv by (auto simp: get_agent_def bnd_Inr)
  have eq: "w1 = w" "can = may_start t n reached a w" using can_start_run [OF can assms(3)] by auto
  show ?thesis
    using rest False assms(3) unfolding eq
    by (cases "may_start t n reached a w") (auto simp: get_task_def bnd_Inr andthen_Inr Let_def)
qed

text \<open>A delayed call that is due needs no process: it is started even when a limit was reached.\<close>

definition sample_delayed_world :: world where
  "sample_delayed_world = empty_world\<lparr>w_agents := [0],
     w_tasks := [0 \<mapsto> (new_agent_task DelayedCallTask)\<lparr>at_end_time := 2000000\<rparr>],
     w_agent_objs := [0 \<mapsto> new_agent (new_agent_task DelayedCallTask)]\<rparr>"

theorem handle_agent_within_limits_witness:
  "\<exists>w'. handle_agent 0 (7, True) sample_delayed_world = (Inr (7, True), w') \<and> tick_agent 0 sample_delayed_world = (Inr (), w')"
proof -
  have task: "w_tasks sample_delayed_world 0 = Some ((new_agent_task DelayedCallTask)\<lparr>at_end_time := 2000000\<rparr>)"
      "w_agent_objs sample_delayed_world 0 = Some (new_agent (new_agent_task DelayedCallTask))"
    by (simp_all add: sample_delayed_world_def)
  have may: "may_start 0 7 True ((new_agent_task DelayedCallTask)\<lparr>at_end_time := 2000000\<rparr>) sample_delayed_world"
    by (simp add: may_start_def num_processes_def new_agent_task_def)
  have "fst (handle_agent 0 (7, True) sample_delayed_world) = Inr (7, True)"
    by code_simp
  then obtain w' where w': "handle_agent 0 (7, True) sample_delayed_world = (Inr (7, True), w')"
    by (metis eq_fst_iff)
  from handle_agent_within_limits [OF this task(2,1)] may w' show ?thesis
    by (auto simp: new_agent_def)
qed

end
