(* ===== verification/Texts.thy ===== *)
theory Texts
  imports Pidfile
begin

text \<open>
  Operations of Python strings the log and keyval components share, with the laws their proofs use:
  splitting and joining on one character, stripping, the split at the first \<open>=\<close>, and the character
  classes of the regular expressions.
\<close>

abbreviation tab :: char where "tab \<equiv> CHR 0x09"
abbreviation newline :: char where "newline \<equiv> CHR 0x0A"

text \<open>\<open>s.startswith(p)\<close>\<close>

fun starts_with :: "string \<Rightarrow> string \<Rightarrow> bool" where
  "starts_with s [] = True"
| "starts_with [] (p # ps) = False"
| "starts_with (c # cs) (p # ps) = (c = p \<and> starts_with cs ps)"

text \<open>\<open>s.rstrip(c)\<close> for one character, and \<open>s.rstrip()\<close>.\<close>

definition rstrip_char :: "char \<Rightarrow> string \<Rightarrow> string" where
  "rstrip_char c s = rev (dropWhile (\<lambda>d. d = c) (rev s))"

definition rstrip :: "string \<Rightarrow> string" where
  "rstrip s = rev (dropWhile is_space (rev s))"

text \<open>\<open>s.split('=', 1)\<close> where it has two parts, None otherwise.\<close>

definition split_eq :: "string \<Rightarrow> (string \<times> string) option" where
  "split_eq s = (case dropWhile (\<lambda>c. c \<noteq> CHR ''='') s of
       [] \<Rightarrow> None
     | _ # v \<Rightarrow> Some (takeWhile (\<lambda>c. c \<noteq> CHR ''='') s, v))"

text \<open>\<open>\\w\<close> on bytes.\<close>

definition is_word :: "char \<Rightarrow> bool" where
  "is_word c \<longleftrightarrow> is_digit c \<or> c = CHR ''_'' \<or> (let n = (of_char (char_lower c) :: nat) in 97 \<le> n \<and> n \<le> 122)"

text \<open>\<open>sub in s\<close> on strings.\<close>

fun has_substring :: "string \<Rightarrow> string \<Rightarrow> bool" where
  "has_substring p [] = (p = [])"
| "has_substring p (c # cs) = (starts_with (c # cs) p \<or> has_substring p cs)"

text \<open>\<open>os.path.dirname(p)\<close>: up to the last slash, whose run is stripped unless it is all there is.\<close>

definition dirname :: "string \<Rightarrow> string" where
  "dirname p =
     (let head = rev (dropWhile (\<lambda>c. c \<noteq> CHR ''/'') (rev p))
      in if list_all (\<lambda>c. c = CHR ''/'') head then head else rstrip_char (CHR ''/'') head)"

section \<open>Laws\<close>

lemma starts_with_append [simp]: "starts_with (p @ s) p"
  by (induction p) simp_all

lemma starts_with_iff: "starts_with s p \<longleftrightarrow> (\<exists>t. s = p @ t)"
  by (induction s p rule: starts_with.induct) auto

lemma has_substring_iff: "has_substring p s \<longleftrightarrow> (\<exists>a b. s = a @ p @ b)"
proof (induction p s rule: has_substring.induct)
  case (2 p c cs)
  show ?case
  proof
    assume "has_substring p (c # cs)"
    then consider "starts_with (c # cs) p" | "has_substring p cs" by auto
    then show "\<exists>a b. c # cs = a @ p @ b"
    proof cases
      case 1
      then show ?thesis by (metis append_Nil starts_with_iff)
    next
      case 2
      then show ?thesis using "2.IH" by (metis append_Cons)
    qed
  next
    assume "\<exists>a b. c # cs = a @ p @ b"
    then obtain a b where "c # cs = a @ p @ b" by blast
    then show "has_substring p (c # cs)"
    proof (cases a)
      case Nil
      then have "starts_with (c # cs) p" using \<open>c # cs = a @ p @ b\<close> starts_with_iff by auto
      then show ?thesis by simp
    next
      case (Cons d ds)
      then show ?thesis using "2.IH" \<open>c # cs = a @ p @ b\<close> by auto
    qed
  qed
qed auto

lemma split_on_nonempty [simp]: "split_on c s \<noteq> []"
  by (induction s) (auto split: list.splits)

lemma split_on_none: "c \<notin> set s \<Longrightarrow> split_on c s = [s]"
  by (induction s) auto

lemma split_on_cons: "c \<notin> set s \<Longrightarrow> split_on c (s @ c # t) = s # split_on c t"
  by (induction s) auto

lemma split_join:
  "parts \<noteq> [] \<Longrightarrow> \<forall>p \<in> set parts. c \<notin> set p \<Longrightarrow> split_on c (str_join [c] parts) = parts"
  by (induction "[c]" parts rule: str_join.induct) (auto simp: split_on_none split_on_cons)

lemma join_split: "str_join [c] (split_on c s) = s"
proof (induction s)
  case (Cons d s)
  then show ?case
    by (cases "split_on c s"; cases "tl (split_on c s)") auto
qed simp

lemma split_on_fields: "f \<in> set (split_on c s) \<Longrightarrow> c \<notin> set f"
proof (induction s arbitrary: f)
  case (Cons d s)
  then show ?case by (auto split: if_splits list.splits)
qed simp

lemma set_str_join: "set (str_join sep parts) \<subseteq> set sep \<union> (\<Union>p \<in> set parts. set p)"
  by (induction sep parts rule: str_join.induct) auto

lemma split_eq_pair: "CHR ''='' \<notin> set k \<Longrightarrow> split_eq (k @ CHR ''='' # v) = Some (k, v)"
proof -
  assume k: "CHR ''='' \<notin> set k"
  then have "dropWhile (\<lambda>c. c \<noteq> CHR ''='') (k @ CHR ''='' # v) = CHR ''='' # v"
      "takeWhile (\<lambda>c. c \<noteq> CHR ''='') (k @ CHR ''='' # v) = k"
    by (induction k) auto
  then show ?thesis by (simp add: split_eq_def)
qed

lemma split_eq_Some: "split_eq s = Some (k, v) \<longleftrightarrow> s = k @ CHR ''='' # v \<and> CHR ''='' \<notin> set k"
proof
  assume s: "split_eq s = Some (k, v)"
  then obtain c where dw: "dropWhile (\<lambda>c. c \<noteq> CHR ''='') s = c # v" and k: "k = takeWhile (\<lambda>c. c \<noteq> CHR ''='') s"
    by (auto simp: split_eq_def split: list.splits)
  have "c = CHR ''=''" using hd_dropWhile [of "\<lambda>c. c \<noteq> CHR ''=''" s] dw by auto
  then have "s = k @ CHR ''='' # v" using takeWhile_dropWhile_id [of "\<lambda>c. c \<noteq> CHR ''=''" s] dw k by simp
  moreover have "CHR ''='' \<notin> set k" unfolding k using set_takeWhileD by fastforce
  ultimately show "s = k @ CHR ''='' # v \<and> CHR ''='' \<notin> set k" by simp
qed (simp add: split_eq_pair)

lemma rstrip_char_end [simp]: "rstrip_char c (s @ [c]) = rstrip_char c s"
  by (simp add: rstrip_char_def)

lemma rstrip_char_id: "s = [] \<or> last s \<noteq> c \<Longrightarrow> rstrip_char c s = s"
  by (cases s rule: rev_cases) (simp_all add: rstrip_char_def)

lemma rstrip_char_absent: "c \<notin> set s \<Longrightarrow> rstrip_char c s = s"
  using last_in_set [of s] by (intro rstrip_char_id) auto

lemma word_not_tab: "is_word c \<Longrightarrow> c \<noteq> tab \<and> c \<noteq> newline \<and> c \<noteq> CHR ''='' \<and> \<not> is_space c"
  by (auto simp: is_word_def is_digit_def char_lower_def is_space_def)

lemma digit_is_word: "is_digit c \<Longrightarrow> is_word c"
  by (simp add: is_word_def)

end
