(* ===== verification/Status_Log.thy ===== *)
theory Status_Log
  imports Texts Enums
begin

text \<open>
  The status log a job writes: the status codes of client/shared/log.py, the entries of
  client/shared/base_job.py (\<open>status_log_entry\<close>) with their text form, and the \<open>status_logger\<close> that
  appends them, indented by the depth of the open blocks, to the global and the subdirectory log.
  \<open>lt\<close> is \<open>time.strftime\<close> of the local time; a dictionary is an association list with distinct keys,
  iterated in its order.
\<close>

section \<open>Status codes\<close>

definition job_statuses :: "string list" where
  "job_statuses = [''TEST_NA'', ''ABORT'', ''ERROR'', ''FAIL'', ''WARN'', ''GOOD'', ''BUG'', ''ALERT'',
     ''RUNNING'', ''NOSTATUS'']"

text \<open>The \<open>$\<close> of the regular expression also matches before a final newline.\<close>

definition without_final_newline :: "string \<Rightarrow> string" where
  "without_final_newline s = (if s \<noteq> [] \<and> last s = newline then butlast s else s)"

definition is_status_code :: "string \<Rightarrow> bool" where
  "is_status_code s \<longleftrightarrow> s = ''START'' \<or> s = ''INFO'' \<or> s \<in> set job_statuses \<or>
     (\<exists>t \<in> set job_statuses. s = ''END '' @ t)"

definition is_valid_status :: "string \<Rightarrow> bool" where
  "is_valid_status s = is_status_code (without_final_newline s)"

text \<open>\<open>job_statuses.index(s)\<close>\<close>

definition status_index :: "string \<Rightarrow> exn + nat" where
  "status_index s = (if s \<in> set job_statuses then Inr (list_index s job_statuses) else Inl ValueError)"

definition is_failure :: "string \<Rightarrow> exn + bool" where
  "is_failure s =
     (if \<not> is_valid_status s then Inr False
      else if s = ''START'' \<or> s = ''INFO'' then Inr False
      else let t = (if starts_with s ''END '' then drop 4 s else s)
           in sbind (status_index t) (\<lambda>i. sbind (status_index ''FAIL'') (\<lambda>f. Inr (i \<le> f))))"

section \<open>Entries\<close>

record log_entry =
  le_status_code :: string
  le_subdir :: "string option"
  le_operation :: "string option"
  le_message :: string
  le_extra_message_lines :: "string list"
  le_fields :: "(string \<times> string) list"

text \<open>\<open>BAD_CHAR_REGEX\<close>\<close>

definition bad_char :: "char \<Rightarrow> bool" where
  "bad_char c \<longleftrightarrow> c \<in> {tab, newline, CHR 0x0D, CHR 0x0B, CHR 0x0C}"

definition bad_name :: "string option \<Rightarrow> bool" where
  "bad_name n = (case n of None \<Rightarrow> False | Some s \<Rightarrow> list_ex bad_char s)"

definition expand_tabs :: "string \<Rightarrow> string" where
  "expand_tabs s = concat (map (\<lambda>c. if c = tab then ''        '' else [c]) s)"

text \<open>\<open>status_log_entry(...)\<close>; \<open>now\<close> is \<open>int(time.time())\<close>, field values are their \<open>str\<close>.\<close>

definition new_log_entry ::
  "(int \<Rightarrow> string) \<Rightarrow> int \<Rightarrow> string \<Rightarrow> string option \<Rightarrow> string option \<Rightarrow> string \<Rightarrow>
   (string \<times> string) list \<Rightarrow> int option \<Rightarrow> exn + log_entry" where
  "new_log_entry lt now status_code subdir operation message optional_fields timestamp =
     (if \<not> is_valid_status status_code then Inl ValueError
      else if bad_name subdir then Inl ValueError
      else if bad_name operation then Inl ValueError
      else let lines = split_on newline message;
               first = expand_tabs (hd lines)
           in if list_ex bad_char first then Inl ValueError
      else if list_ex (\<lambda>(k, v). list_ex bad_char (k @ v)) optional_fields then Inl ValueError
      else let t = (case timestamp of None \<Rightarrow> now | Some t \<Rightarrow> t)
           in Inr \<lparr>le_status_code = status_code, le_subdir = subdir, le_operation = operation,
                 le_message = first, le_extra_message_lines = tl lines,
                 le_fields = alist_put ''localtime'' (lt t) (alist_put ''timestamp'' (str_of_int t) optional_fields)\<rparr>)"

definition is_start :: "log_entry \<Rightarrow> bool" where
  "is_start e \<longleftrightarrow> le_status_code e = ''START''"

definition is_end :: "log_entry \<Rightarrow> bool" where
  "is_end e = starts_with (le_status_code e) ''END ''"

text \<open>\<open>name or RENDERED_NONE_VALUE\<close>\<close>

definition rendered_name :: "string option \<Rightarrow> string" where
  "rendered_name n = (case n of None \<Rightarrow> ''----'' | Some s \<Rightarrow> if s = [] then ''----'' else s)"

definition rendered_field :: "string \<times> string \<Rightarrow> string" where
  "rendered_field kv = fst kv @ ''='' @ snd kv"

definition first_line :: "log_entry \<Rightarrow> string" where
  "first_line e = str_join [tab]
     ([le_status_code e, rendered_name (le_subdir e), rendered_name (le_operation e)] @
      map rendered_field (le_fields e) @ [le_message e])"

definition render :: "log_entry \<Rightarrow> string" where
  "render e = str_join [newline] (first_line e # map ((@) ''  '') (le_extra_message_lines e))"

definition parsed_name :: "string \<Rightarrow> string option" where
  "parsed_name s = (if s = ''----'' then None else Some s)"

text \<open>\<open>dict(part.split('=', 1) for part in parts)\<close>: a part without \<open>=\<close> is no pair, a ValueError.\<close>

definition dict_of :: "(string \<times> string) list \<Rightarrow> (string \<times> string) list" where
  "dict_of kvs = foldl (\<lambda>d (k, v). alist_put k v d) [] kvs"

definition parsed_fields :: "string list \<Rightarrow> exn + (string \<times> string) list" where
  "parsed_fields parts = (case those (map split_eq parts) of
       None \<Rightarrow> Inl ValueError | Some kvs \<Rightarrow> Inr (dict_of kvs))"

definition parse_entry :: "(int \<Rightarrow> string) \<Rightarrow> int \<Rightarrow> string \<Rightarrow> exn + log_entry option" where
  "parse_entry lt now l =
     (if starts_with l ''  '' then Inr None
      else let parts = split_on tab (dropWhile (\<lambda>c. c = tab) l)
      in if length parts < 4 then Inl ValueError
      else sbind (parsed_fields (butlast (drop 3 parts))) (\<lambda>fields.
        sbind (case map_of fields ''timestamp'' of
            None \<Rightarrow> Inr None | Some v \<Rightarrow> sbind (py_int v) (\<lambda>t. Inr (Some t))) (\<lambda>timestamp.
        sbind (new_log_entry lt now (parts ! 0) (parsed_name (parts ! 1)) (parsed_name (parts ! 2))
                 (last parts) fields timestamp) (\<lambda>e. Inr (Some e)))))"

section \<open>The logger\<close>

text \<open>\<open>TAPReport\<close> as the logger uses it: whether it reports, its result directory, the lines per directory.\<close>

record tap_report =
  tr_do :: bool
  tr_resultdir :: string
  tr_reports :: "(string \<times> string list) list"

text \<open>
  The logger with the depth its indenter keeps (client/job.py and server/server_job.py), the log files it
  appends to and the directories that exist; \<open>sl_hooked\<close> lists the entries passed to the record hook.
\<close>

record status_logger =
  sl_resultdir :: string
  sl_global_filename :: string
  sl_subdir_filename :: string
  sl_indent :: int
  sl_record_hook :: bool
  sl_hooked :: "log_entry list"
  sl_files :: "(string \<times> string) list"
  sl_dirs :: "string list"
  sl_tap :: tap_report

definition tap_ok :: "bool \<Rightarrow> nat \<Rightarrow> string \<Rightarrow> string" where
  "tap_ok success counter message =
     (if success then ''ok '' else ''not ok '') @ str_of_nat counter @ '' - '' @ message"

text \<open>\<open>base_job.JOB_STATUSES.get(code, False)\<close>\<close>

definition JOB_STATUSES :: "string \<Rightarrow> bool" where
  "JOB_STATUSES code \<longleftrightarrow> code \<in> {''BUG'', ''END BUG'', ''GOOD'', ''END GOOD'', ''START''}"

text \<open>\<open>s.split(sep, 1)[1]\<close>, an IndexError where \<open>sep\<close> does not occur.\<close>

fun after_first :: "string \<Rightarrow> string \<Rightarrow> exn + string" where
  "after_first sep [] = (if sep = [] then Inl ValueError else Inl IndexError)"
| "after_first sep (c # cs) =
     (if sep = [] then Inl ValueError
      else if starts_with (c # cs) sep then Inr (drop (length sep) (c # cs))
      else after_first sep cs)"

definition strip_char :: "char \<Rightarrow> string \<Rightarrow> string" where
  "strip_char d s = rstrip_char d (dropWhile (\<lambda>c. c = d) s)"

definition tap_record_file :: "log_entry \<Rightarrow> int \<Rightarrow> string \<Rightarrow> tap_report \<Rightarrow> exn + tap_report" where
  "tap_record_file e indent log_file tr =
     sbind (after_first (tr_resultdir tr) (dirname log_file)) (\<lambda>rest.
       let stripped = strip_char (CHR ''/'') rest;
           key = (if stripped = [] then ''root'' else stripped);
           report = (case map_of (tr_reports tr) key of None \<Rightarrow> [] | Some ls \<Rightarrow> ls);
           operation = (case le_operation e of
               Some o' \<Rightarrow> if o' = [] then (if indent = 1 then ''job'' else ''unknown'') else o'
             | None \<Rightarrow> if indent = 1 then ''job'' else ''unknown'');
           l = tap_ok (JOB_STATUSES (le_status_code e)) (length report + 1) (operation @ [newline])
       in Inr (tr\<lparr>tr_reports := alist_put key (report @ [l]) (tr_reports tr)\<rparr>))"

definition render_entry :: "int \<Rightarrow> log_entry \<Rightarrow> string" where
  "render_entry indent e =
     replicate (nat (if is_end e then indent - 1 else indent)) tab @ rstrip_char newline (render e)"

text \<open>\<open>open(log_file, 'a')\<close> and \<open>print >> fileobj, text\<close>\<close>

definition append_line :: "string \<Rightarrow> string \<Rightarrow> (status_logger, unit) exm" where
  "append_line text log_file =
     bnd (gets sl_dirs) (\<lambda>dirs.
     if dirname log_file \<notin> set dirs then throw IOError
     else modify (\<lambda>l. l\<lparr>sl_files := alist_put log_file
         ((case map_of (sl_files l) log_file of None \<Rightarrow> [] | Some t \<Rightarrow> t) @ line text) (sl_files l)\<rparr>))"

definition log_files :: "bool \<Rightarrow> log_entry \<Rightarrow> status_logger \<Rightarrow> string list" where
  "log_files log_in_subdir e l =
     path_join (sl_resultdir l) (sl_global_filename l) #
     (case le_subdir e of
        Some s \<Rightarrow> if log_in_subdir \<and> s \<noteq> [] then
            [path_join (path_join (sl_resultdir l) s) (sl_subdir_filename l)] else []
      | None \<Rightarrow> [])"

definition tap_record_entry :: "log_entry \<Rightarrow> string \<Rightarrow> (status_logger, unit) exm" where
  "tap_record_entry e log_file =
     bnd (gets (\<lambda>l. tap_record_file e (sl_indent l) log_file (sl_tap l))) (\<lambda>r.
     bnd (lift_sum r) (\<lambda>tr. modify (\<lambda>l. l\<lparr>sl_tap := tr\<rparr>)))"

definition adjust_indent :: "log_entry \<Rightarrow> int \<Rightarrow> int" where
  "adjust_indent e i = (if is_start e then i + 1 else if is_end e then i - 1 else i)"

definition logger_record_entry :: "log_entry \<Rightarrow> bool \<Rightarrow> (status_logger, unit) exm" where
  "logger_record_entry e log_in_subdir =
     andthen (modify (\<lambda>l. if sl_record_hook l then l\<lparr>sl_hooked := sl_hooked l @ [e]\<rparr> else l)) (
     bnd (gets (log_files log_in_subdir e)) (\<lambda>files.
     bnd (gets (\<lambda>l. render_entry (sl_indent l) e)) (\<lambda>text.
     andthen (for_each files (append_line text)) (
     bnd (gets (\<lambda>l. tr_do (sl_tap l))) (\<lambda>tap.
     andthen (when_do (is_end e \<and> tap) (for_each files (tap_record_entry e)))
       (modify (\<lambda>l. l\<lparr>sl_indent := adjust_indent e (sl_indent l)\<rparr>)))))))"

section \<open>What a valid entry looks like\<close>

lemma status_code_chars: "is_status_code s \<Longrightarrow> s \<noteq> [] \<and> hd s \<noteq> CHR '' '' \<and> hd s \<noteq> tab \<and> tab \<notin> set s \<and> newline \<notin> set s"
  by (auto simp: is_status_code_def job_statuses_def)

lemma valid_status_cases:
  "is_valid_status s \<longleftrightarrow> is_status_code s \<or> (\<exists>t. s = t @ [newline] \<and> is_status_code t)"
proof (cases s rule: rev_cases)
  case (snoc t c)
  have "is_status_code (t @ [newline]) \<Longrightarrow> False" using status_code_chars by fastforce
  with snoc show ?thesis by (auto simp: is_valid_status_def without_final_newline_def)
qed (simp add: is_valid_status_def without_final_newline_def)

lemma valid_status_chars: "is_valid_status s \<Longrightarrow> s \<noteq> [] \<and> hd s \<noteq> CHR '' '' \<and> hd s \<noteq> tab \<and> tab \<notin> set s"
  using status_code_chars by (fastforce simp: valid_status_cases hd_append)

lemma expand_tabs_no_tab [simp]: "tab \<notin> set (expand_tabs s)"
  by (auto simp: expand_tabs_def)

lemma expand_tabs_id: "tab \<notin> set s \<Longrightarrow> expand_tabs s = s"
  by (induction s) (auto simp: expand_tabs_def)

lemma bad_char_list: "list_ex bad_char s \<longleftrightarrow> (\<exists>c \<in> set s. bad_char c)"
  by (simp add: list_ex_iff)

text \<open>What the constructor guarantees of the entry it returns.\<close>

lemma new_log_entry_cases:
  assumes "new_log_entry lt now sc sd op msg kvs ts = Inr e"
  obtains t where "is_valid_status sc" "\<not> bad_name sd" "\<not> bad_name op"
    "\<not> list_ex bad_char (expand_tabs (hd (split_on newline msg)))"
    "\<forall>(k, v) \<in> set kvs. \<not> list_ex bad_char k \<and> \<not> list_ex bad_char v"
    "t = (case ts of None \<Rightarrow> now | Some t \<Rightarrow> t)"
    "e = \<lparr>le_status_code = sc, le_subdir = sd, le_operation = op,
          le_message = expand_tabs (hd (split_on newline msg)), le_extra_message_lines = tl (split_on newline msg),
          le_fields = alist_put ''localtime'' (lt t) (alist_put ''timestamp'' (str_of_int t) kvs)\<rparr>"
proof -
  have "\<forall>(k, v) \<in> set kvs. \<not> list_ex bad_char k \<and> \<not> list_ex bad_char v"
    if "\<not> list_ex (\<lambda>(k, v). list_ex bad_char (k @ v)) kvs"
    using that by (auto simp: list_ex_iff)
  with assms show ?thesis
    by (intro that [of "case ts of None \<Rightarrow> now | Some t \<Rightarrow> t"])
      (auto simp: new_log_entry_def Let_def split: if_splits)
qed

lemma dict_of_distinct: "distinct (map fst kvs) \<Longrightarrow> dict_of kvs = kvs"
proof (induction kvs rule: rev_induct)
  case (snoc kv kvs)
  have "alist_put k v d = d @ [(k, v)]" if "k \<notin> fst ` set d" for k and v :: string and d :: "(string \<times> string) list"
    using that by (induction d) auto
  with snoc show ?case by (cases kv) (auto simp: dict_of_def)
qed (simp add: dict_of_def)

lemma alist_put_same: "distinct (map fst d) \<Longrightarrow> map_of d k = Some v \<Longrightarrow> alist_put k v d = d"
  by (induction d) (auto split: if_splits)

lemma set_alist_put: "set (alist_put k v d) \<subseteq> insert (k, v) (set d)"
  by (induction d) (auto split: if_splits)

lemma fields_split:
  assumes "\<forall>(k, v) \<in> set kvs. CHR ''='' \<notin> set k"
  shows "those (map split_eq (map rendered_field kvs)) = Some kvs"
  using assms by (induction kvs) (auto simp: rendered_field_def split_eq_pair)

lemma str_of_int_clean: "\<not> list_ex bad_char (str_of_int t)"
proof -
  have "\<forall>c \<in> set (str_of_int t). is_digit c \<or> c = CHR ''-''"
    using str_of_nat_digits by (auto simp: str_of_int_def)
  moreover have "\<not> bad_char c" if "is_digit c \<or> c = CHR ''-''" for c
    using that by (auto simp: bad_char_def is_digit_def)
  ultimately show ?thesis by (auto simp: list_ex_iff)
qed

text \<open>The fields as the constructor leaves them.\<close>

definition stamped :: "(int \<Rightarrow> string) \<Rightarrow> int \<Rightarrow> (string \<times> string) list \<Rightarrow> (string \<times> string) list" where
  "stamped lt t kvs = alist_put ''localtime'' (lt t) (alist_put ''timestamp'' (str_of_int t) kvs)"

lemma stamped_distinct: "distinct (map fst kvs) \<Longrightarrow> distinct (map fst (stamped lt t kvs))"
  by (simp add: stamped_def distinct_alist_put)

lemma stamped_again:
  assumes d: "distinct (map fst (stamped lt t kvs))"
  shows "stamped lt t (stamped lt t kvs) = stamped lt t kvs"
proof -
  let ?d = "stamped lt t kvs"
  have "map_of ?d ''timestamp'' = Some (str_of_int t)" "map_of ?d ''localtime'' = Some (lt t)"
    by (simp_all add: stamped_def)
  then have "alist_put ''timestamp'' (str_of_int t) ?d = ?d" "alist_put ''localtime'' (lt t) ?d = ?d"
    using d by (simp_all add: alist_put_same)
  then show ?thesis by (simp add: stamped_def)
qed

lemma stamped_set: "set (stamped lt t kvs) \<subseteq> insert (''localtime'', lt t) (insert (''timestamp'', str_of_int t) (set kvs))"
  unfolding stamped_def by (meson insert_mono order_trans set_alist_put)

section \<open>Writing and reading an entry\<close>

definition reads_back :: "log_entry \<Rightarrow> bool" where
  "reads_back e \<longleftrightarrow> le_subdir e \<notin> {Some [], Some ''----''} \<and> le_operation e \<notin> {Some [], Some ''----''} \<and>
     distinct (map fst (le_fields e)) \<and> (\<forall>(k, v) \<in> set (le_fields e). CHR ''='' \<notin> set k) \<and>
     (\<forall>l \<in> set (le_extra_message_lines e). tab \<notin> set l)"

lemma parsed_rendered_name: "n \<notin> {Some [], Some ''----''} \<Longrightarrow> parsed_name (rendered_name n) = n"
  by (auto simp: parsed_name_def rendered_name_def split: option.splits)

lemma rendered_name_no_tab: "\<not> bad_name n \<Longrightarrow> tab \<notin> set (rendered_name n)"
  by (auto simp: rendered_name_def bad_name_def bad_char_def list_ex_iff split: option.splits)

lemma join_append: "xs \<noteq> [] \<Longrightarrow> ys \<noteq> [] \<Longrightarrow> str_join sep (xs @ ys) = str_join sep xs @ sep @ str_join sep ys"
  by (induction sep xs rule: str_join.induct) (auto simp: neq_Nil_conv)

lemma join_last: "str_join sep (xs @ [x]) @ y = str_join sep (xs @ [x @ y])"
  by (cases xs) (simp_all add: join_append del: append_Cons)

lemma join_lines: "str_join [c] (x # xs) = x @ concat (map (\<lambda>y. c # y) xs)"
  by (induction xs arbitrary: x) simp_all

lemma no_bad_char: "\<not> list_ex bad_char s \<Longrightarrow> tab \<notin> set s \<and> newline \<notin> set s"
  by (auto simp: list_ex_iff bad_char_def)

lemma rendered_fields_no_tab:
  "\<forall>(k, v) \<in> set kvs. \<not> list_ex bad_char k \<and> \<not> list_ex bad_char v \<Longrightarrow>
   \<forall>p \<in> set (map rendered_field kvs). tab \<notin> set p"
  using no_bad_char by (fastforce simp: rendered_field_def)

lemma stamped_clean:
  assumes "\<forall>(k, v) \<in> set kvs. \<not> list_ex bad_char k \<and> \<not> list_ex bad_char v" and "\<not> list_ex bad_char (lt t)"
  shows "\<forall>(k, v) \<in> set (stamped lt t kvs). \<not> list_ex bad_char k \<and> \<not> list_ex bad_char v"
proof (rule ballI, clarify)
  fix k v assume "(k, v) \<in> set (stamped lt t kvs)"
  then consider "(k, v) \<in> set kvs" | "k = ''localtime''" "v = lt t" | "k = ''timestamp''" "v = str_of_int t"
    using stamped_set [of lt t kvs] by blast
  then show "\<not> list_ex bad_char k \<and> \<not> list_ex bad_char v"
  proof cases
    case 1
    then show ?thesis using assms(1) by blast
  qed (simp_all add: assms(2) str_of_int_clean bad_char_def)
qed

text \<open>The text of an entry, as one list of tab separated parts.\<close>

definition rendered_parts :: "log_entry \<Rightarrow> string list" where
  "rendered_parts e = le_status_code e # rendered_name (le_subdir e) # rendered_name (le_operation e) #
     map rendered_field (le_fields e)"

lemma render_parts:
  "render e = str_join [tab] (rendered_parts e @ [str_join [newline] (le_message e # map ((@) ''  '') (le_extra_message_lines e))])"
proof -
  let ?rest = "concat (map (\<lambda>y. newline # y) (map ((@) ''  '') (le_extra_message_lines e)))"
  have "first_line e = str_join [tab] (rendered_parts e @ [le_message e])"
    by (simp add: first_line_def rendered_parts_def)
  then have "render e = str_join [tab] (rendered_parts e @ [le_message e]) @ ?rest"
    unfolding render_def join_lines by simp
  then show ?thesis unfolding join_last join_lines .
qed

text \<open>
  C30 (client/shared/base_job.py, \<open>status_log_entry.render\<close> and \<open>parse\<close>). Parsing what an entry renders gives
  the entry back, when its names are neither empty nor \<open>----\<close>, its keys have no \<open>=\<close> and its extra lines no
  tab; but each extra message line comes back with two more spaces.
\<close>

theorem log_entry_roundtrip:
  assumes e: "new_log_entry lt now sc sd op msg kvs ts = Inr e" and reads: "reads_back e"
    and lt: "\<forall>t. \<not> list_ex bad_char (lt t)"
  shows "parse_entry lt now' (render e) =
    Inr (Some (e\<lparr>le_extra_message_lines := map ((@) ''  '') (le_extra_message_lines e)\<rparr>))"
proof -
  from e obtain t where sc: "is_valid_status sc" and names: "\<not> bad_name sd" "\<not> bad_name op"
    and msg: "\<not> list_ex bad_char (expand_tabs (hd (split_on newline msg)))"
    and kvs: "\<forall>(k, v) \<in> set kvs. \<not> list_ex bad_char k \<and> \<not> list_ex bad_char v"
    and e_eq: "e = \<lparr>le_status_code = sc, le_subdir = sd, le_operation = op,
          le_message = expand_tabs (hd (split_on newline msg)), le_extra_message_lines = tl (split_on newline msg),
          le_fields = stamped lt t kvs\<rparr>"
    unfolding stamped_def by (rule new_log_entry_cases)
  let ?m = "expand_tabs (hd (split_on newline msg))" and ?x = "map ((@) ''  '') (tl (split_on newline msg))"
  let ?last = "str_join [newline] (?m # ?x)" and ?d = "stamped lt t kvs"
  have d: "\<forall>(k, v) \<in> set ?d. \<not> list_ex bad_char k \<and> \<not> list_ex bad_char v"
    using kvs lt by (intro stamped_clean) simp_all
  have no_eq: "\<forall>(k, v) \<in> set ?d. CHR ''='' \<notin> set k" and dist: "distinct (map fst ?d)"
    and sdop: "sd \<notin> {Some [], Some ''----''}" "op \<notin> {Some [], Some ''----''}"
    and extra: "\<forall>l \<in> set (tl (split_on newline msg)). tab \<notin> set l"
    using reads by (auto simp: reads_back_def e_eq)
  have parts: "rendered_parts e = sc # rendered_name sd # rendered_name op # map rendered_field ?d"
    by (simp add: rendered_parts_def e_eq)
  have "\<forall>p \<in> set (rendered_parts e). tab \<notin> set p"
    using valid_status_chars [OF sc] names d
      rendered_fields_no_tab [OF d] by (simp add: parts rendered_name_no_tab)
  moreover have "tab \<notin> set ?last" using extra by (auto simp: join_lines)
  ultimately have split: "split_on tab (render e) = rendered_parts e @ [?last]"
    unfolding render_parts by (subst split_join) (auto simp: e_eq)
  have start: "dropWhile (\<lambda>c. c = tab) (render e) = render e" "\<not> starts_with (render e) ''  ''"
    using valid_status_chars [OF sc] unfolding render_parts parts by (cases sc; auto)+
  have lines: "split_on newline ?last = ?m # ?x"
  proof (rule split_join)
    have "newline \<notin> set ?m" using no_bad_char [OF msg] by simp
    moreover have "\<forall>l \<in> set (tl (split_on newline msg)). newline \<notin> set l"
      using split_on_fields by (metis list.set_sel(2) split_on_nonempty)
    ultimately show "\<forall>p \<in> set (?m # ?x). newline \<notin> set p" by auto
  qed simp
  have no_bad_pair: "\<not> list_ex (\<lambda>(k, v). list_ex bad_char (k @ v)) ?d"
    using d unfolding list_ex_iff by fastforce
  have time: "map_of ?d ''timestamp'' = Some (str_of_int t)" by (simp add: stamped_def)
  have "new_log_entry lt now' sc sd op ?last ?d (Some t) = Inr (e\<lparr>le_extra_message_lines := ?x\<rparr>)"
    using sc names msg stamped_again [OF dist] no_bad_pair
    by (simp add: new_log_entry_def lines expand_tabs_id e_eq stamped_def [symmetric])
  moreover have "parsed_fields (map rendered_field ?d) = Inr ?d"
    using fields_split [OF no_eq] dist by (simp add: parsed_fields_def dict_of_distinct)
  moreover have "le_extra_message_lines e = tl (split_on newline msg)" by (simp add: e_eq)
  ultimately show ?thesis
    using start(2) time sdop unfolding parse_entry_def start(1) split parts
    by (simp add: butlast_append py_int_str_of_int parsed_rendered_name)
qed

lemma log_entry_roundtrip_witness:
  "\<exists>e. new_log_entry (\<lambda>_. ''Jan 01 00:00:00'') 5 ''FAIL'' (Some ''sleeptest'') (Some ''sleeptest'') (''a'' @ [newline] @ ''b'')
       [(''kernel'', ''3.2'')] None = Inr e \<and>
     parse_entry (\<lambda>_. ''Jan 01 00:00:00'') 9 (render e) = Inr (Some (e\<lparr>le_extra_message_lines := [''  b'']\<rparr>))"
proof -
  let ?lt = "\<lambda>_. ''Jan 01 00:00:00''"
  obtain e where e: "new_log_entry ?lt 5 ''FAIL'' (Some ''sleeptest'') (Some ''sleeptest'') (''a'' @ [newline] @ ''b'')
       [(''kernel'', ''3.2'')] None = Inr e" "reads_back e" "le_extra_message_lines e = [''b'']"
    by (simp add: new_log_entry_def is_valid_status_def is_status_code_def job_statuses_def bad_name_def bad_char_def
      without_final_newline_def expand_tabs_def reads_back_def)
  then show ?thesis using log_entry_roundtrip [OF e(1,2), of 9] by (simp add: bad_char_def)
qed

end
