(* ===== verification/Status_Lib.thy ===== *)
theory Status_Lib
  imports Status_Log
begin

text \<open>
  Reading status logs, tko/status_lib.py and the \<open>status_line\<close> classes of tko/parsers/version_0.py and
  version_1.py: the order of statuses, the stack of the statuses of the open blocks, the buffer of lines
  and the parsing of one line. The stack and the buffer are lists whose head is the top of the stack and
  the line read next.
\<close>

section \<open>Statuses\<close>

definition is_worse_than :: "string \<Rightarrow> string \<Rightarrow> exn + bool" where
  "is_worse_than l r = sbind (status_index l) (\<lambda>i. sbind (status_index r) (\<lambda>j. Inr (i < j)))"

definition is_worse_than_or_equal_to :: "string \<Rightarrow> string \<Rightarrow> exn + bool" where
  "is_worse_than_or_equal_to l r = (if l = r then Inr True else is_worse_than l r)"

text \<open>
  \<open>re.sub('|'.join(blacklist), '', raw_line)\<close> for literal alternatives: from left to right, the first
  alternative that matches is removed.
\<close>

function clean_raw_line :: "string list \<Rightarrow> string \<Rightarrow> string" where
  "clean_raw_line blacklist [] = []"
| "clean_raw_line blacklist (c # cs) =
     (case find (\<lambda>p. p \<noteq> [] \<and> starts_with (c # cs) p) blacklist of
        None \<Rightarrow> c # clean_raw_line blacklist cs
      | Some p \<Rightarrow> clean_raw_line blacklist (drop (length p - 1) cs))"
  by pat_completeness auto
termination
  by (relation "measure (\<lambda>(b, s). length s)") auto

definition DEFAULT_BLACKLIST :: "string list" where
  "DEFAULT_BLACKLIST = [[CHR 0x0D, CHR 0x00]]"

section \<open>The stack of statuses\<close>

text \<open>\<open>statuses[-1]\<close>\<close>

definition last_status :: string where
  "last_status = last job_statuses"

definition stack_init :: "string list" where
  "stack_init = [last_status]"

definition current_status :: "string list \<Rightarrow> string" where
  "current_status s = hd s"

definition stack_update :: "string \<Rightarrow> string list \<Rightarrow> string list" where
  "stack_update new_status s =
     (if new_status \<notin> set job_statuses then s
      else if list_index new_status job_statuses < list_index (current_status s) job_statuses
        then new_status # tl s else s)"

definition stack_start :: "string list \<Rightarrow> string list" where
  "stack_start s = last_status # s"

definition stack_end :: "string list \<Rightarrow> string \<times> string list" where
  "stack_end s = (hd s, if tl s = [] then [last_status] else tl s)"

definition stack_size :: "string list \<Rightarrow> nat" where
  "stack_size s = length s - 1"

section \<open>The buffer of lines\<close>

definition buffer_get :: "string list \<Rightarrow> exn + string \<times> string list" where
  "buffer_get b = (case b of [] \<Rightarrow> Inl IndexError | l # ls \<Rightarrow> Inr (l, ls))"

definition buffer_put :: "string \<Rightarrow> string list \<Rightarrow> string list" where
  "buffer_put l b = b @ [l]"

definition buffer_put_multiple :: "string list \<Rightarrow> string list \<Rightarrow> string list" where
  "buffer_put_multiple ls b = b @ ls"

definition buffer_put_back :: "string \<Rightarrow> string list \<Rightarrow> string list" where
  "buffer_put_back l b = l # b"

section \<open>Lines\<close>

datatype line_type = LStart | LEnd | LStatus | LInfo

record status_line =
  ln_type :: line_type
  ln_indent :: nat
  ln_status :: "string option"
  ln_subdir :: "string option"
  ln_testname :: "string option"
  ln_reason :: "string option"
  ln_fields :: "(string \<times> string) list"

text \<open>\<open>status_line.__init__\<close> of version 0, then of version 1.\<close>

definition status_line_v0 ::
  "nat \<Rightarrow> string \<Rightarrow> string \<Rightarrow> string \<Rightarrow> string \<Rightarrow> (string \<times> string) list \<Rightarrow> exn + status_line" where
  "status_line_v0 indent status subdir testname reason optional_fields =
     (let (t, st) = (if status = ''START'' then (LStart, None)
                     else if starts_with status ''END '' then (LEnd, Some (drop 4 status))
                     else (LStatus, Some status))
      in if \<not> (case st of None \<Rightarrow> True | Some s \<Rightarrow> s \<in> set job_statuses) then Inl AssertionError
         else Inr \<lparr>ln_type = t, ln_indent = indent, ln_status = st, ln_subdir = parsed_name subdir,
                ln_testname = parsed_name testname, ln_reason = Some reason, ln_fields = optional_fields\<rparr>)"

definition new_status_line ::
  "nat \<Rightarrow> string \<Rightarrow> string \<Rightarrow> string \<Rightarrow> string \<Rightarrow> (string \<times> string) list \<Rightarrow> exn + status_line" where
  "new_status_line indent status subdir testname reason optional_fields =
     (if status = ''INFO'' then
        Inr \<lparr>ln_type = LInfo, ln_indent = indent, ln_status = None, ln_subdir = None, ln_testname = None,
             ln_reason = None, ln_fields = optional_fields\<rparr>
      else status_line_v0 indent status subdir testname reason optional_fields)"

text \<open>The regular expression of \<open>is_status_line\<close>: tabs, then three fields that start with no white space.\<close>

fun tabbed_fields :: "nat \<Rightarrow> string \<Rightarrow> bool" where
  "tabbed_fields 0 s = True"
| "tabbed_fields (Suc n) [] = False"
| "tabbed_fields (Suc n) (c # cs) = (\<not> is_space c \<and>
     (case dropWhile (\<lambda>d. d \<noteq> tab) (c # cs) of [] \<Rightarrow> False | _ # rest \<Rightarrow> tabbed_fields n rest))"

definition is_status_line :: "string \<Rightarrow> bool" where
  "is_status_line l = tabbed_fields 3 (dropWhile (\<lambda>c. c = tab) l)"

text \<open>\<open>re.search(r"^(\\w+)=(.+)", part)\<close> and the loop over the optional fields.\<close>

definition match_field :: "string \<Rightarrow> (string \<times> string) option" where
  "match_field part =
     (let k = takeWhile is_word part; r = dropWhile is_word part
      in if k = [] \<or> r = [] \<or> hd r \<noteq> CHR ''='' then None
         else let v = takeWhile (\<lambda>c. c \<noteq> newline) (tl r) in if v = [] then None else Some (k, v))"

fun optional_fields_loop :: "string list \<Rightarrow> (string \<times> string) list \<Rightarrow> (string \<times> string) list \<times> string list" where
  "optional_fields_loop [] d = (d, [])"
| "optional_fields_loop (p # ps) d = (case match_field p of
       None \<Rightarrow> (d, p # ps)
     | Some (k, v) \<Rightarrow> optional_fields_loop ps (alist_put k v d))"

definition parse_line :: "string \<Rightarrow> exn + status_line option" where
  "parse_line l =
     (if \<not> is_status_line l then Inr None
      else let indent = length (takeWhile (\<lambda>c. c = tab) l);
               parts = split_on tab (rstrip_char newline (dropWhile (\<lambda>c. c = tab) l))
      in case parts of
           status # subdir # testname # ps \<Rightarrow>
             (let (optional_fields, rest) = optional_fields_loop ps []
              in sbind (new_status_line indent status subdir testname (str_join [tab] rest) optional_fields)
                   (\<lambda>s. Inr (Some s)))
         | _ \<Rightarrow> Inl ValueError)"

definition is_successful_reboot :: "string \<Rightarrow> status_line \<Rightarrow> exn + bool" where
  "is_successful_reboot current_status' l =
     (if ln_testname l \<noteq> Some ''reboot'' then Inr False
      else sbind (is_worse_than_or_equal_to current_status' ''FAIL'') (\<lambda>b. Inr (\<not> b)))"

section \<open>The stack keeps the worst status of each open block\<close>

text \<open>
  The specification keeps, for each open block, every status reported in it; the status of a block is the
  worst of them, the one that comes first in \<open>job_statuses\<close>.
\<close>

datatype stack_op = Report string | Open_block | Close_block

definition worst :: "string list \<Rightarrow> string" where
  "worst reported = hd (filter (\<lambda>s. s \<in> set reported \<or> s = last_status) job_statuses)"

fun spec_step :: "stack_op \<Rightarrow> string list list \<Rightarrow> string list list" where
  "spec_step (Report s) (b # bs) = (s # b) # bs"
| "spec_step (Report s) [] = []"
| "spec_step Open_block bs = [] # bs"
| "spec_step Close_block bs = (if tl bs = [] then [[]] else tl bs)"

fun stack_step :: "stack_op \<Rightarrow> string list \<Rightarrow> string list" where
  "stack_step (Report s) st = stack_update s st"
| "stack_step Open_block st = stack_start st"
| "stack_step Close_block st = snd (stack_end st)"

lemma last_status_eq: "last_status = ''NOSTATUS''"
  by (simp add: last_status_def job_statuses_def)

lemma worst_Nil [simp]: "worst [] = last_status"
  by (simp add: worst_def last_status_eq job_statuses_def)

lemma list_index_less_length: "x \<in> set xs \<Longrightarrow> list_index x xs < length xs"
  using nth_list_index by metis

lemma list_index_inj: "x \<in> set xs \<Longrightarrow> list_index x xs = list_index y xs \<Longrightarrow> x = y"
proof -
  assume "x \<in> set xs" and eq: "list_index x xs = list_index y xs"
  moreover from this have "y \<in> set xs"
  proof -
    have "z \<in> set xs" if "list_index z xs < length xs" for z
      using that by (induction xs) (auto split: if_splits)
    with \<open>x \<in> set xs\<close> eq show ?thesis using list_index_less_length by metis
  qed
  ultimately show ?thesis using nth_list_index by metis
qed

text \<open>The head of a filtered list is the least element for the order of the list.\<close>

lemma hd_filter_index:
  assumes "x \<in> set xs" and "P x"
  shows "hd (filter P xs) \<in> set xs \<and> P (hd (filter P xs)) \<and> list_index (hd (filter P xs)) xs \<le> list_index x xs"
  using assms by (induction xs) auto

lemma hd_filter_insert:
  assumes x: "x \<in> set xs" and ne: "filter P xs \<noteq> []" and d: "distinct xs"
  shows "hd (filter (\<lambda>s. s = x \<or> P s) xs) =
    (if list_index x xs < list_index (hd (filter P xs)) xs then x else hd (filter P xs))"
  using x ne d
proof (induction xs)
  case (Cons y ys)
  show ?case
  proof (cases "y = x")
    case True
    with Cons.prems show ?thesis by auto
  next
    case False
    with Cons.prems Cons.IH have "filter P ys \<noteq> [] \<Longrightarrow> hd (filter (\<lambda>s. s = x \<or> P s) ys) =
      (if list_index x ys < list_index (hd (filter P ys)) ys then x else hd (filter P ys))" by auto
    moreover have "hd (filter P ys) \<in> set ys" if "filter P ys \<noteq> []"
      using that by (metis filter_is_subset hd_in_set subsetD)
    ultimately show ?thesis using False Cons.prems by auto
  qed
qed simp

lemma job_statuses_distinct: "distinct job_statuses"
  by (simp add: job_statuses_def)

lemma worst_Cons:
  "worst (s # b) = (if s \<in> set job_statuses \<and> list_index s job_statuses < list_index (worst b) job_statuses
     then s else worst b)"
proof (cases "s \<in> set job_statuses")
  case True
  have "last_status \<in> set job_statuses" by (simp add: last_status_eq job_statuses_def)
  then have "filter (\<lambda>t. t \<in> set b \<or> t = last_status) job_statuses \<noteq> []" by (auto simp: filter_empty_conv)
  from hd_filter_insert [OF True this job_statuses_distinct] True show ?thesis
    by (simp add: worst_def disj_assoc)
next
  case False
  then have "filter (\<lambda>t. t \<in> set (s # b) \<or> t = last_status) job_statuses =
      filter (\<lambda>t. t \<in> set b \<or> t = last_status) job_statuses"
    by (intro filter_cong) auto
  with False show ?thesis by (simp add: worst_def)
qed

lemma stack_step_refines:
  assumes "bs \<noteq> []"
  shows "stack_step op (map worst bs) = map worst (spec_step op bs) \<and> spec_step op bs \<noteq> []"
proof (cases op)
  case (Report s)
  with assms show ?thesis
    by (cases bs) (auto simp: stack_update_def current_status_def worst_Cons)
qed (use assms in \<open>auto simp: stack_start_def stack_end_def map_tl [symmetric]\<close>)

text \<open>
  C33 (tko/status_lib.py, \<open>status_stack\<close>). After any sequence of reports, block starts and block ends the
  stack holds the worst status reported in each open block.
\<close>

theorem status_stack_refines:
  "fold stack_step ops stack_init = map worst (fold spec_step ops [[]])"
proof -
  have "fold stack_step ops (map worst bs) = map worst (fold spec_step ops bs)" if "bs \<noteq> []" for bs
    using that
  proof (induction ops arbitrary: bs)
    case (Cons op ops)
    then show ?case using stack_step_refines [of bs op] by simp
  qed simp
  from this [of "[[]]"] show ?thesis by (simp add: stack_init_def)
qed

section \<open>The parser reads what the logger writes\<close>

definition plain_field :: "string \<times> string \<Rightarrow> bool" where
  "plain_field kv \<longleftrightarrow> fst kv \<noteq> [] \<and> list_all is_word (fst kv) \<and> snd kv \<noteq> [] \<and> \<not> list_ex bad_char (snd kv)"

lemma word_append_eq:
  "list_all is_word k \<Longrightarrow> takeWhile is_word (k @ CHR ''='' # v) = k \<and> dropWhile is_word (k @ CHR ''='' # v) = CHR ''='' # v"
proof (induction k)
  case Nil
  then show ?case using word_not_tab by auto
qed auto

lemma match_plain_field:
  assumes "plain_field kv"
  shows "match_field (rendered_field kv) = Some kv"
proof -
  obtain k v where kv: "kv = (k, v)" by (cases kv)
  with assms have k: "k \<noteq> []" "list_all is_word k" and v: "v \<noteq> []" "newline \<notin> set v"
    using no_bad_char [of v] by (auto simp: plain_field_def)
  have tw: "takeWhile (\<lambda>c. c \<noteq> newline) v = v" using v(2) by (auto simp: takeWhile_eq_all_conv)
  from k v show ?thesis by (simp add: tw match_field_def kv rendered_field_def word_append_eq Let_def)
qed

lemma optional_fields_read:
  assumes "\<forall>kv \<in> set kvs. plain_field kv" and "match_field m = None"
  shows "optional_fields_loop (map rendered_field kvs @ [m]) d = (foldl (\<lambda>d (k, v). alist_put k v d) d kvs, [m])"
  using assms by (induction kvs arbitrary: d) (auto simp: match_plain_field)

lemma tabbed_field:
  assumes "p \<noteq> []" "\<not> is_space (hd p)" "tab \<notin> set p"
  shows "tabbed_fields (Suc n) (p @ tab # rest) = tabbed_fields n rest"
proof -
  have "dropWhile (\<lambda>d. d \<noteq> tab) (p @ tab # rest) = tab # rest" using assms(3) by (induction p) auto
  with assms show ?thesis by (cases p) auto
qed

text \<open>Text without tabs that starts with no white space, as the fields of a status line.\<close>

definition plain_part :: "string \<Rightarrow> bool" where
  "plain_part p \<longleftrightarrow> p \<noteq> [] \<and> \<not> is_space (hd p) \<and> tab \<notin> set p"

lemma parse_line_parts:
  assumes p: "plain_part a" "plain_part b" "plain_part c" and rest: "ps \<noteq> []" "\<forall>q \<in> set ps. tab \<notin> set q"
    and nl: "newline \<notin> set (last ps)"
  shows "parse_line (replicate n tab @ str_join [tab] ([a, b, c] @ ps) @ [newline]) =
    (let (optional_fields, r) = optional_fields_loop ps []
     in sbind (new_status_line n a b c (str_join [tab] r) optional_fields) (\<lambda>s. Inr (Some s)))"
proof -
  let ?t = "str_join [tab] ([a, b, c] @ ps)"
  obtain q qs where ps: "ps = q # qs" using rest(1) by (cases ps) auto
  have t: "?t = a @ tab # b @ tab # c @ tab # str_join [tab] ps" by (simp add: ps)
  have a: "\<exists>x xs. a = x # xs \<and> x \<noteq> tab" using p(1) by (cases a) (auto simp: plain_part_def)
  then have d: "dropWhile (\<lambda>c. c = tab) (replicate n tab @ ?t @ [newline]) = ?t @ [newline]"
      "takeWhile (\<lambda>c. c = tab) (replicate n tab @ ?t @ [newline]) = replicate n tab"
    by (induction n) (auto simp: t)
  have s: "is_status_line (replicate n tab @ ?t @ [newline])"
    using p unfolding is_status_line_def d(1) unfolding t by (simp add: tabbed_field plain_part_def numeral_3_eq_3)
  have "?t = [] \<or> last ?t \<noteq> newline"
  proof -
    have "last (x @ tab # str_join [tab] ps) \<noteq> newline" for x
      using nl rest(1)
    proof (induction ps arbitrary: x rule: rev_induct)
      case (snoc z zs)
      have "str_join [tab] (zs @ [z]) = (if zs = [] then z else str_join [tab] zs @ tab # z)"
        by (simp add: join_append)
      with snoc.prems show ?case by (cases z rule: rev_cases) auto
    qed simp
    from this [of "a @ tab # b @ tab # c"] show ?thesis unfolding t by simp
  qed
  then have r: "rstrip_char newline (?t @ [newline]) = ?t" unfolding rstrip_char_end by (rule rstrip_char_id)
  have "split_on tab ?t = [a, b, c] @ ps"
    using p rest by (intro split_join) (auto simp: plain_part_def)
  with s d r show ?thesis by (simp add: parse_line_def Let_def)
qed

definition plain_name :: "string option \<Rightarrow> bool" where
  "plain_name n \<longleftrightarrow> \<not> bad_name n \<and> \<not> starts_with (rendered_name n) '' ''"

text \<open>The entries the parser reads in full, and the line it makes of one at depth \<open>n\<close>.\<close>

definition tko_readable :: "log_entry \<Rightarrow> bool" where
  "tko_readable e \<longleftrightarrow> is_status_code (le_status_code e) \<and> plain_name (le_subdir e) \<and> plain_name (le_operation e) \<and>
     (\<forall>kv \<in> set (le_fields e). plain_field kv) \<and> distinct (map fst (le_fields e)) \<and>
     match_field (le_message e) = None \<and> \<not> list_ex bad_char (le_message e) \<and>
     (\<forall>l \<in> set (le_extra_message_lines e). newline \<notin> set l)"

definition tko_line :: "nat \<Rightarrow> log_entry \<Rightarrow> status_line" where
  "tko_line n e =
     (if le_status_code e = ''INFO'' then
        \<lparr>ln_type = LInfo, ln_indent = n, ln_status = None, ln_subdir = None, ln_testname = None,
         ln_reason = None, ln_fields = le_fields e\<rparr>
      else
        \<lparr>ln_type = (if is_start e then LStart else if is_end e then LEnd else LStatus), ln_indent = n,
         ln_status = (if is_start e then None
                      else Some (if is_end e then drop 4 (le_status_code e) else le_status_code e)),
         ln_subdir = parsed_name (rendered_name (le_subdir e)),
         ln_testname = parsed_name (rendered_name (le_operation e)),
         ln_reason = Some (le_message e), ln_fields = le_fields e\<rparr>)"

lemma status_code_line:
  assumes "is_status_code (le_status_code e)"
  shows "new_status_line n (le_status_code e) (rendered_name (le_subdir e)) (rendered_name (le_operation e))
    (le_message e) (le_fields e) = Inr (tko_line n e)"
proof -
  have "le_status_code e \<in> {''START'', ''INFO''} \<union> set job_statuses \<union> (@) ''END '' ` set job_statuses"
    using assms by (auto simp: is_status_code_def)
  then show ?thesis
    by (auto simp: new_status_line_def status_line_v0_def tko_line_def is_start_def is_end_def job_statuses_def Let_def)
qed

lemma rendered_name_chars: "plain_name n \<Longrightarrow> plain_part (rendered_name n) \<and> newline \<notin> set (rendered_name n)"
proof -
  assume n: "plain_name n"
  then have clean: "\<not> list_ex bad_char (rendered_name n)" and ne: "rendered_name n \<noteq> []"
    by (auto simp: plain_name_def bad_name_def rendered_name_def bad_char_def split: option.splits)
  have "\<not> is_space c" if "\<not> bad_char c" and "c \<noteq> CHR '' ''" for c
    using that by (auto simp: is_space_def bad_char_def)
  with n clean ne have "\<not> is_space (hd (rendered_name n))"
    by (cases "rendered_name n") (auto simp: plain_name_def)
  with ne no_bad_char [OF clean] show ?thesis by (simp add: plain_part_def)
qed

lemma plain_field_chars: "plain_field kv \<Longrightarrow> tab \<notin> set (rendered_field kv) \<and> newline \<notin> set (rendered_field kv)"
  using word_not_tab no_bad_char [of "snd kv"] by (fastforce simp: plain_field_def rendered_field_def list_all_iff)

lemma status_code_part: "is_status_code s \<Longrightarrow> plain_part s"
  by (auto simp: is_status_code_def job_statuses_def plain_part_def is_space_def)

lemma tko_reads_first_line:
  assumes e: "tko_readable e"
  shows "parse_line (replicate n tab @ first_line e @ [newline]) = Inr (Some (tko_line n e)) \<and> newline \<notin> set (first_line e)"
proof -
  let ?parts = "map rendered_field (le_fields e) @ [le_message e]"
  from e have sc: "is_status_code (le_status_code e)"
    and names: "plain_name (le_subdir e)" "plain_name (le_operation e)"
    and fields: "\<forall>kv \<in> set (le_fields e). plain_field kv" "distinct (map fst (le_fields e))"
    and m: "match_field (le_message e) = None" "\<not> list_ex bad_char (le_message e)"
    by (simp_all add: tko_readable_def)
  have chars: "\<forall>q \<in> set ?parts. tab \<notin> set q \<and> newline \<notin> set q"
    using fields(1) plain_field_chars no_bad_char [OF m(2)] by auto
  have read: "optional_fields_loop ?parts [] = (le_fields e, [le_message e])"
    using optional_fields_read [OF fields(1) m(1), of "[]"] dict_of_distinct [OF fields(2)] by (simp add: dict_of_def)
  have "parse_line (replicate n tab @ first_line e @ [newline]) =
    (let (optional_fields, r) = optional_fields_loop ?parts []
     in sbind (new_status_line n (le_status_code e) (rendered_name (le_subdir e)) (rendered_name (le_operation e))
          (str_join [tab] r) optional_fields) (\<lambda>s. Inr (Some s)))"
    unfolding first_line_def
    using status_code_part [OF sc] rendered_name_chars [OF names(1)] rendered_name_chars [OF names(2)] chars
    by (intro parse_line_parts) auto
  moreover have "newline \<notin> set (first_line e)"
  proof
    assume "newline \<in> set (first_line e)"
    then have "newline \<in> set [tab] \<union> (\<Union>p \<in> set ([le_status_code e, rendered_name (le_subdir e), rendered_name (le_operation e)] @ ?parts). set p)"
      unfolding first_line_def using set_str_join by blast
    then show False
      using status_code_chars [OF sc] rendered_name_chars [OF names(1)] rendered_name_chars [OF names(2)] chars by auto
  qed
  ultimately show ?thesis using status_code_line [OF sc] by (simp add: read)
qed

text \<open>
  C29 (client/shared/base_job.py, \<open>status_logger.render_entry\<close>; tko/parsers/version_0.py,
  \<open>status_line.parse_line\<close>). An entry is readable when its status code is valid, its subdirectory, operation and
  fields are plain, its keys differ, and its message has no forbidden character and does not itself look like a
  field \<open>key=value\<close>. Of the lines the logger writes for a readable entry the parser makes one line at the depth of
  the block, with the type, status, subdirectory, test name, message and fields of the entry; but of an INFO entry
  it keeps the fields only. It ignores the lines of the extra message.
\<close>

theorem tko_reads_status_log:
  assumes e: "tko_readable e"
  shows "map (\<lambda>l. parse_line (l @ [newline])) (split_on newline (render_entry i e)) =
    Inr (Some (tko_line (nat (if is_end e then i - 1 else i)) e)) # map (\<lambda>_. Inr None) (le_extra_message_lines e)"
proof -
  let ?n = "nat (if is_end e then i - 1 else i)" and ?x = "map ((@) ''  '') (le_extra_message_lines e)"
  note first = tko_reads_first_line [OF e, of ?n]
  have x: "\<forall>l \<in> set ?x. newline \<notin> set l" using e by (auto simp: tko_readable_def)
  have "rstrip_char newline (render e) = render e"
  proof (cases "le_extra_message_lines e" rule: rev_cases)
    case Nil
    then have "newline \<notin> set (render e)" using first by (simp add: render_def)
    then show ?thesis by (rule rstrip_char_absent)
  next
    case (snoc ls l)
    then have "render e = str_join [newline] (first_line e # map ((@) ''  '') ls) @ newline # ''  '' @ l"
      by (simp add: render_def join_lines)
    moreover have "newline \<notin> set l" using e snoc by (simp add: tko_readable_def)
    ultimately show ?thesis by (intro rstrip_char_id) (cases l rule: rev_cases; auto)
  qed
  then have "render_entry i e = str_join [newline] ((replicate ?n tab @ first_line e) # ?x)"
    by (simp add: render_entry_def render_def join_lines)
  then have "split_on newline (render_entry i e) = (replicate ?n tab @ first_line e) # ?x"
    using first x by (auto intro!: split_join)
  moreover have "parse_line (''  '' @ l) = Inr None" for l
    by (simp add: parse_line_def is_status_line_def numeral_3_eq_3 is_space_def)
  ultimately show ?thesis using first by simp
qed

lemma tko_reads_status_log_witness:
  "map (\<lambda>l. parse_line (l @ [newline])) (split_on newline (render_entry 1
     \<lparr>le_status_code = ''GOOD'', le_subdir = Some ''sleeptest'', le_operation = None, le_message = ''completed'',
      le_extra_message_lines = [''twice''], le_fields = [(''timestamp'', ''5'')]\<rparr>)) =
   [Inr (Some \<lparr>ln_type = LStatus, ln_indent = 1, ln_status = Some ''GOOD'', ln_subdir = Some ''sleeptest'',
      ln_testname = None, ln_reason = Some ''completed'', ln_fields = [(''timestamp'', ''5'')]\<rparr>), Inr None]"
  by (subst tko_reads_status_log)
    (simp_all add: tko_readable_def is_status_code_def job_statuses_def plain_name_def bad_name_def bad_char_def
      rendered_name_def plain_field_def is_word_def is_digit_def char_lower_def match_field_def tko_line_def
      is_start_def is_end_def parsed_name_def)

end
