(* ===== verification/Keyval.thy ===== *)
theory Keyval
  imports Status_Lib
begin

text \<open>
  Keyval files and the result directory of a job: \<open>read_keyval\<close> and \<open>write_keyval\<close> of
  client/shared/utils.py, the search for the top of a result directory (tko/utils.py), and the reading of
  keyvals in tko/models.py and tko/parsers. A file system is the contents of its files and its directories;
  the current directory is the empty path.
\<close>

section \<open>Files\<close>

record file_system =
  fs_files :: "(string \<times> string) list"
  fs_dirs :: "string list"

definition file_contents :: "file_system \<Rightarrow> string \<Rightarrow> string option" where
  "file_contents fs p = map_of (fs_files fs) p"

definition is_dir :: "file_system \<Rightarrow> string \<Rightarrow> bool" where
  "is_dir fs p \<longleftrightarrow> p \<in> set (fs_dirs fs)"

definition path_exists :: "file_system \<Rightarrow> string \<Rightarrow> bool" where
  "path_exists fs p \<longleftrightarrow> file_contents fs p \<noteq> None \<or> is_dir fs p"

text \<open>The lines a file object yields, each with its newline; the last may lack one.\<close>

fun file_lines :: "string \<Rightarrow> string list" where
  "file_lines [] = []"
| "file_lines (c # cs) =
     (if c = newline then [newline] # file_lines cs
      else (case file_lines cs of
          [] \<Rightarrow> [[c]]
        | l # ls \<Rightarrow> (c # l) # ls))"

definition append_text :: "string \<Rightarrow> string \<Rightarrow> file_system \<Rightarrow> file_system" where
  "append_text p text fs = fs\<lparr>fs_files :=
     alist_put p ((case file_contents fs p of None \<Rightarrow> [] | Some t \<Rightarrow> t) @ text) (fs_files fs)\<rparr>"

section \<open>Keyvals\<close>

text \<open>A value read back: an integer, a float as its text, or a string.\<close>

datatype keyval_value = KInt nat | KFloat string | KStr string

type_synonym keyval = "(string \<times> keyval_value) list"

definition key_char :: "char \<Rightarrow> bool" where
  "key_char c \<longleftrightarrow> is_word c \<or> c = CHR ''-'' \<or> c = CHR ''.''"

definition strip_comment :: "string \<Rightarrow> string" where
  "strip_comment l = rstrip (takeWhile (\<lambda>c. c \<noteq> CHR ''#'') l)"

definition all_digits :: "string \<Rightarrow> bool" where
  "all_digits s \<longleftrightarrow> s \<noteq> [] \<and> list_all is_digit s"

text \<open>\<open>^(\\d+\\.)?\\d+$\<close> on a value without white space at its end\<close>

definition plain_decimal :: "string \<Rightarrow> bool" where
  "plain_decimal s \<longleftrightarrow> all_digits s \<or>
     (case dropWhile is_digit s of
        [] \<Rightarrow> False
      | c # r \<Rightarrow> c = CHR ''.'' \<and> takeWhile is_digit s \<noteq> [] \<and> all_digits r)"

definition typed_value :: "string \<Rightarrow> keyval_value" where
  "typed_value v =
     (if all_digits v then KInt (nat_of_digits v) else if plain_decimal v then KFloat v else KStr v)"

definition keyval_line :: "string \<Rightarrow> exn + (string \<times> keyval_value)" where
  "keyval_line raw =
     (let l = strip_comment raw
      in case split_eq l of
           None \<Rightarrow> Inl ValueError
         | Some (k, v) \<Rightarrow> if k \<noteq> [] \<and> list_all key_char k then Inr (k, typed_value v) else Inl ValueError)"

fun read_keyval_lines :: "string list \<Rightarrow> keyval \<Rightarrow> exn + keyval" where
  "read_keyval_lines [] d = Inr d"
| "read_keyval_lines (l # ls) d =
     sbind (keyval_line l) (\<lambda>(k, v). read_keyval_lines ls (alist_put k v d))"

text \<open>A path without a file is read as an empty keyval.\<close>

definition keyval_path_of :: "file_system \<Rightarrow> string \<Rightarrow> string" where
  "keyval_path_of fs p = (if is_dir fs p then path_join p ''keyval'' else p)"

definition read_keyval :: "file_system \<Rightarrow> string \<Rightarrow> exn + keyval" where
  "read_keyval fs path =
     (let p = keyval_path_of fs path
      in case file_contents fs p of
           None \<Rightarrow> if is_dir fs p then Inl IOError else Inr []
         | Some t \<Rightarrow> read_keyval_lines (file_lines t) [])"

text \<open>The regular expressions for keys without and with a type tag.\<close>

definition valid_key :: "string option \<Rightarrow> string \<Rightarrow> bool" where
  "valid_key type_tag key =
     (let k = without_final_newline key;
          suffix = (case type_tag of None \<Rightarrow> [] | Some tag \<Rightarrow> ''{'' @ tag @ ''}'');
          stem = take (length k - length suffix) k
      in drop (length k - length suffix) k = suffix \<and> stem \<noteq> [] \<and> list_all key_char stem)"

definition write_pair :: "string \<Rightarrow> string option \<Rightarrow> (string \<times> string) list \<Rightarrow> string \<Rightarrow> (file_system, unit) exm" where
  "write_pair p type_tag dictionary key =
     (if \<not> valid_key type_tag key then throw ValueError
      else bnd (some_or KeyError (map_of dictionary key)) (\<lambda>v.
        modify (append_text p (key @ ''='' @ v @ [newline]))))"

definition sorted_keys :: "(string \<times> string) list \<Rightarrow> string list" where
  "sorted_keys dictionary = sort_by (\<lambda>a b. str_cmp a b \<le> 0) (map fst dictionary)"

text \<open>\<open>write_keyval\<close> without a TAP report; opening for append creates the file.\<close>

definition write_keyval :: "string \<Rightarrow> (string \<times> string) list \<Rightarrow> string option \<Rightarrow> (file_system, unit) exm" where
  "write_keyval path dictionary type_tag =
     bnd (gets (\<lambda>fs. keyval_path_of fs path)) (\<lambda>p.
     bnd (gets (\<lambda>fs. (dirname p = [] \<or> is_dir fs (dirname p)) \<and> \<not> is_dir fs p)) (\<lambda>writable.
     if \<not> writable then throw IOError else
     andthen (modify (append_text p [])) (
     if type_tag \<notin> {None, Some ''attr'', Some ''perf''} then throw ValueError else
     for_each (sorted_keys dictionary) (write_pair p type_tag dictionary))))"

section \<open>Result directories\<close>

text \<open>\<open>find_toplevel_job_dir\<close>: None where the loop does not end.\<close>

partial_function (option) find_toplevel_job_dir :: "file_system \<Rightarrow> string \<Rightarrow> string option option" where
  "find_toplevel_job_dir fs job_dir =
     (if path_exists fs (path_join job_dir ''.autoserv_execute'') then Some (Some job_dir)
      else if job_dir = ''/'' then Some None
      else find_toplevel_job_dir fs (dirname job_dir))"

text \<open>\<open>os.path.normpath\<close>\<close>

fun norm_comps :: "bool \<Rightarrow> string list \<Rightarrow> string list \<Rightarrow> string list" where
  "norm_comps absolute acc [] = rev acc"
| "norm_comps absolute acc (c # cs) =
     (if c = [] \<or> c = ''.'' then norm_comps absolute acc cs
      else if c \<noteq> ''..'' \<or> (\<not> absolute \<and> acc = []) \<or> (acc \<noteq> [] \<and> hd acc = ''..'')
        then norm_comps absolute (c # acc) cs
      else norm_comps absolute (tl acc) cs)"

definition normpath :: "string \<Rightarrow> string" where
  "normpath p =
     (if p = [] then ''.''
      else let slashes = (if starts_with p ''//'' \<and> \<not> starts_with p ''///'' then ''//''
                          else if starts_with p ''/'' then ''/'' else []);
               q = slashes @ str_join ''/'' (norm_comps (slashes \<noteq> []) [] (split_on (CHR ''/'') p))
      in if q = [] then ''.'' else q)"

text \<open>\<open>keyval.update(upper_keyval)\<close> after the special case of \<open>hostname\<close>.\<close>

definition merge_upper :: "keyval \<Rightarrow> keyval \<Rightarrow> keyval" where
  "merge_upper upper d =
     (let u = (if map_of upper ''hostname'' \<noteq> None \<and> map_of d ''hostname'' \<noteq> None then alist_del ''hostname'' upper else upper)
      in foldl (\<lambda>d (k, v). alist_put k v d) d u)"

definition upper_keyval :: "file_system \<Rightarrow> string \<Rightarrow> keyval \<Rightarrow> exn + keyval" where
  "upper_keyval fs dir d = (case read_keyval fs dir of
       Inr u \<Rightarrow> Inr (merge_upper u d)
     | Inl e \<Rightarrow> if e = IOError then Inr d else Inl e)"

partial_function (option) read_upper_keyvals :: "file_system \<Rightarrow> string \<Rightarrow> string \<Rightarrow> keyval \<Rightarrow> (exn + keyval) option" where
  "read_upper_keyvals fs top_dir dir d =
     (case upper_keyval fs dir d of
        Inl e \<Rightarrow> Some (Inl e)
      | Inr d' \<Rightarrow>
          if dir = top_dir then Some (Inr d')
          else if dir = ''/'' then Some (Inl AssertionError)
          else read_upper_keyvals fs top_dir (dirname dir) d')"

definition job_read_keyval :: "file_system \<Rightarrow> string \<Rightarrow> (exn + keyval) option" where
  "job_read_keyval fs dir =
     (let d = normpath dir
      in case find_toplevel_job_dir fs d of
           None \<Rightarrow> None
         | Some found \<Rightarrow>
             (let top_dir = (case found of None \<Rightarrow> d | Some t \<Rightarrow> if t = [] then d else t)
              in if \<not> starts_with d top_dir then Some (Inl AssertionError)
                 else read_upper_keyvals fs top_dir d []))"

section \<open>Writing and reading a keyval\<close>

lemma file_lines_line: "newline \<notin> set s \<Longrightarrow> file_lines (s @ newline # t) = (s @ [newline]) # file_lines t"
  by (induction s) auto

lemma file_lines_append:
  "s = [] \<or> last s = newline \<Longrightarrow> file_lines (s @ t) = file_lines s @ file_lines t"
proof (induction s rule: file_lines.induct)
  case (2 c cs)
  show ?case
  proof (cases "c = newline")
    case True
    with 2 show ?thesis by (cases cs) auto
  next
    case False
    with "2.prems" have "cs \<noteq> []" and "last cs = newline" by (auto split: if_splits)
    moreover from this have "file_lines cs \<noteq> []" by (cases cs) (auto split: list.splits)
    ultimately show ?thesis using False "2.IH" by (cases "file_lines cs") auto
  qed
qed simp

lemma read_keyval_lines_append:
  "read_keyval_lines (ls @ ms) d = sbind (read_keyval_lines ls d) (read_keyval_lines ms)"
proof (induction ls arbitrary: d)
  case (Cons l ls)
  then show ?case by (cases "keyval_line l") auto
qed simp

text \<open>The values that come back as written: one line, no comment sign, no white space at the end.\<close>

definition plain_value :: "string \<Rightarrow> bool" where
  "plain_value v \<longleftrightarrow> newline \<notin> set v \<and> CHR ''#'' \<notin> set v \<and> rstrip v = v"

definition plain_key :: "string \<Rightarrow> bool" where
  "plain_key k \<longleftrightarrow> k \<noteq> [] \<and> list_all key_char k"

lemma no_key_char: "\<not> key_char newline" "\<not> key_char (CHR ''='')" "\<not> key_char (CHR ''#'')"
  by (simp_all add: key_char_def is_word_def is_digit_def char_lower_def)

lemma plain_key_chars: "plain_key k \<Longrightarrow> newline \<notin> set k \<and> CHR ''='' \<notin> set k \<and> CHR ''#'' \<notin> set k"
  using no_key_char unfolding plain_key_def list_all_iff by metis

lemma plain_key_valid: "plain_key k \<Longrightarrow> valid_key None k"
proof -
  assume k: "plain_key k"
  then have "last k \<noteq> newline" using plain_key_chars [OF k] last_in_set [of k] unfolding plain_key_def by metis
  then have "without_final_newline k = k" by (simp add: without_final_newline_def)
  with k show ?thesis by (simp add: valid_key_def plain_key_def)
qed

lemma rstrip_snoc_space: "is_space c \<Longrightarrow> rstrip (s @ [c]) = rstrip s"
  by (simp add: rstrip_def)

lemma rstrip_last: "s \<noteq> [] \<Longrightarrow> \<not> is_space (last s) \<Longrightarrow> rstrip s = s"
  by (cases s rule: rev_cases) (simp_all add: rstrip_def)

lemma rstrip_last_conv: "rstrip s = s \<longleftrightarrow> s = [] \<or> \<not> is_space (last s)"
proof (cases s rule: rev_cases)
  case (snoc t c)
  have "length (rstrip t) \<le> length t" using length_dropWhile_le [of is_space "rev t"] by (simp add: rstrip_def)
  then have "rstrip t \<noteq> t @ [c]" by auto
  with snoc show ?thesis by (cases "is_space c") (auto simp: rstrip_snoc_space rstrip_def)
qed (simp add: rstrip_def)

lemma keyval_line_written:
  assumes "plain_key k" and "plain_value v"
  shows "keyval_line (k @ ''='' @ v @ [newline]) = Inr (k, typed_value v)"
proof -
  have "CHR ''#'' \<notin> set (k @ ''='' @ v @ [newline])"
    using assms plain_key_chars by (auto simp: plain_value_def)
  then have "takeWhile (\<lambda>c. c \<noteq> CHR ''#'') (k @ ''='' @ v @ [newline]) = k @ ''='' @ v @ [newline]"
    by (auto simp: takeWhile_eq_all_conv)
  moreover have "rstrip (k @ ''='' @ v) = k @ ''='' @ v"
    using assms(2) by (cases v rule: rev_cases) (auto simp: plain_value_def rstrip_last_conv is_space_def)
  ultimately have "strip_comment (k @ ''='' @ v @ [newline]) = k @ CHR ''='' # v"
    using rstrip_snoc_space [of newline "k @ ''='' @ v"] by (simp add: strip_comment_def is_space_def)
  then show ?thesis
    using assms plain_key_chars [of k] by (simp add: keyval_line_def split_eq_pair plain_key_def)
qed

definition pair_text :: "(string \<times> string) list \<Rightarrow> string \<Rightarrow> string" where
  "pair_text d k = k @ ''='' @ the (map_of d k) @ [newline]"

lemma append_text_twice [simp]: "append_text p s (append_text p t fs) = append_text p (t @ s) fs"
proof -
  have "alist_put p b (alist_put p a kvs) = alist_put p b kvs" for a b and kvs :: "(string \<times> string) list"
    by (induction kvs) auto
  then show ?thesis by (simp add: append_text_def file_contents_def)
qed

lemma write_pairs_run:
  "\<forall>k \<in> set ks. plain_key k \<and> k \<in> fst ` set d \<Longrightarrow>
   for_each ks (write_pair p None d) (append_text p t fs) = (Inr (), append_text p (t @ concat (map (pair_text d) ks)) fs)"
proof (induction ks arbitrary: t)
  case (Cons k ks)
  from Cons.prems obtain v where "map_of d k = Some v"
    by (metis list.set_intros(1) map_of_eq_None_iff not_None_eq)
  then have "write_pair p None d k (append_text p t fs) = (Inr (), append_text p (t @ pair_text d k) fs)"
    using Cons.prems plain_key_valid by (simp add: write_pair_def pair_text_def modify_def)
  with Cons show ?case by (simp add: andthen_def bnd_run)
qed (simp add: ret_def)

lemma read_pairs:
  "\<forall>k \<in> set ks. plain_key k \<and> plain_value (the (map_of d k)) \<Longrightarrow>
   read_keyval_lines (file_lines (concat (map (pair_text d) ks))) kv =
     Inr (foldl (\<lambda>kv k. alist_put k (typed_value (the (map_of d k))) kv) kv ks)"
proof (induction ks arbitrary: kv)
  case (Cons k ks)
  let ?v = "the (map_of d k)"
  have "newline \<notin> set (k @ ''='' @ ?v)" using Cons.prems plain_key_chars [of k] by (simp add: plain_value_def)
  from file_lines_line [OF this, of "concat (map (pair_text d) ks)"]
  have "file_lines (concat (map (pair_text d) (k # ks))) =
      (k @ ''='' @ ?v @ [newline]) # file_lines (concat (map (pair_text d) ks))"
    by (simp add: pair_text_def)
  with Cons keyval_line_written [of k ?v] show ?case by simp
qed simp

lemma map_of_put_all:
  "map_of (foldl (\<lambda>kv k. alist_put k (f k) kv) kv ks) = (\<lambda>k. if k \<in> set ks then Some (f k) else map_of kv k)"
  by (induction ks arbitrary: kv) (auto simp: fun_eq_iff)

lemma set_sorted_keys [simp]: "set (sorted_keys d) = fst ` set d"
  by (simp add: sorted_keys_def)

text \<open>A value with a comment sign is written as it is and read back up to the sign.\<close>

lemma keyval_loses_comments:
  "case write_keyval ''/r/keyval'' [(''label'', ''run #7'')] None \<lparr>fs_files = [], fs_dirs = [''/r'']\<rparr> of
     (r, fs) \<Rightarrow> r = Inr () \<and> read_keyval fs ''/r/keyval'' = Inr [(''label'', KStr ''run'')]"
  by code_simp

text \<open>
  C31 (client/shared/utils.py, \<open>write_keyval\<close> and \<open>read_keyval\<close>). Writing a dictionary of plain keys and values
  to a keyval file that can be read and ends with a whole line, or to a new one, and reading it again gives the
  earlier keyval updated with the dictionary, each value typed as its text says: \<open>17\<close> comes back as a number. A
  plain value has no \<open>#\<close>, no line break and no blanks at its end; others are written and not read back, see
  \<open>keyval_loses_comments\<close>.
\<close>

theorem keyval_roundtrip:
  assumes old: "read_keyval fs p = Inr old" and not_dir: "\<not> is_dir fs p"
    and complete: "file_contents fs p \<in> {None, Some []} \<or> last (the (file_contents fs p)) = newline"
    and dir: "dirname p = [] \<or> is_dir fs (dirname p)"
    and d: "\<forall>(k, v) \<in> set d. plain_key k \<and> plain_value v" and dist: "distinct (map fst d)"
  shows "\<exists>fs' new. write_keyval p d None fs = (Inr (), fs') \<and> read_keyval fs' p = Inr new \<and>
    map_of new = map_of old ++ (map_option typed_value \<circ> map_of d)"
proof -
  let ?t = "case file_contents fs p of None \<Rightarrow> [] | Some t \<Rightarrow> t"
  let ?new = "concat (map (pair_text d) (sorted_keys d))"
  have path: "keyval_path_of fs p = p" using not_dir by (simp add: keyval_path_of_def)
  have keys: "\<forall>k \<in> set (sorted_keys d). plain_key k \<and> k \<in> fst ` set d" using d by auto
  have vals: "\<forall>k \<in> set (sorted_keys d). plain_key k \<and> plain_value (the (map_of d k))"
    using d dist by (auto simp: map_of_eq_Some_iff)
  have w: "write_keyval p d None fs = (Inr (), append_text p ?new fs)"
    using write_pairs_run [OF keys, of p "[]" fs] not_dir dir by (simp add: write_keyval_def path)
  have new: "file_contents (append_text p ?new fs) p = Some (?t @ ?new)" "\<not> is_dir (append_text p ?new fs) p"
    using not_dir by (simp_all add: append_text_def file_contents_def is_dir_def)
  have "read_keyval_lines (file_lines ?t) [] = Inr old"
    using old not_dir by (auto simp: read_keyval_def path Let_def split: option.splits)
  moreover have "file_lines (?t @ ?new) = file_lines ?t @ file_lines ?new"
    using complete by (intro file_lines_append) (auto split: option.splits)
  ultimately have "read_keyval (append_text p ?new fs) p =
      Inr (foldl (\<lambda>kv k. alist_put k (typed_value (the (map_of d k))) kv) old (sorted_keys d))"
    using new read_pairs [OF vals] by (simp add: read_keyval_def keyval_path_of_def read_keyval_lines_append)
  moreover have "map_of (foldl (\<lambda>kv k. alist_put k (typed_value (the (map_of d k))) kv) old (sorted_keys d)) =
      map_of old ++ (map_option typed_value \<circ> map_of d)"
  proof
    fix k
    show "map_of (foldl (\<lambda>kv k. alist_put k (typed_value (the (map_of d k))) kv) old (sorted_keys d)) k =
      (map_of old ++ (map_option typed_value \<circ> map_of d)) k"
    proof (cases "map_of d k")
      case None
      then have "k \<notin> fst ` set d" by (simp add: map_of_eq_None_iff)
      with None show ?thesis by (simp add: map_of_put_all map_add_def)
    next
      case (Some v)
      then have "k \<in> fst ` set d" by (metis map_of_eq_None_iff option.discI)
      with Some show ?thesis by (simp add: map_of_put_all map_add_def)
    qed
  qed
  ultimately show ?thesis using w by blast
qed

lemma keyval_roundtrip_witness:
  "\<exists>fs' new. write_keyval ''keyval'' [(''label'', ''net''), (''drone'', ''d1''), (''job_queued'', ''17'')] None
      \<lparr>fs_files = [(''keyval'', ''user=bob'' @ [newline])], fs_dirs = []\<rparr> = (Inr (), fs') \<and>
    read_keyval fs' ''keyval'' = Inr new \<and> map_of new ''job_queued'' = Some (KInt 17) \<and>
    map_of new ''user'' = Some (KStr ''bob'')"
proof -
  let ?fs = "\<lparr>fs_files = [(''keyval'', ''user=bob'' @ [newline])], fs_dirs = []\<rparr>"
  have "read_keyval ?fs ''keyval'' = Inr [(''user'', KStr ''bob'')]" by code_simp
  from keyval_roundtrip [OF this, of "[(''label'', ''net''), (''drone'', ''d1''), (''job_queued'', ''17'')]"]
  have "\<exists>fs' new. write_keyval ''keyval'' [(''label'', ''net''), (''drone'', ''d1''), (''job_queued'', ''17'')] None ?fs = (Inr (), fs') \<and>
    read_keyval fs' ''keyval'' = Inr new \<and> map_of new = map_of [(''user'', KStr ''bob'')] ++
      (map_option typed_value \<circ> map_of [(''label'', ''net''), (''drone'', ''d1''), (''job_queued'', ''17'')])"
    by (simp add: is_dir_def file_contents_def dirname_def plain_key_def key_char_def is_word_def is_digit_def
      char_lower_def plain_value_def rstrip_def is_space_def)
  moreover have "typed_value ''17'' = KInt 17" by code_simp
  ultimately show ?thesis by (auto simp: map_add_def)
qed

section \<open>The search for the top of a result directory\<close>

abbreviation slash :: char where "slash \<equiv> CHR ''/''"

definition absolute :: "string \<Rightarrow> bool" where
  "absolute d \<longleftrightarrow> starts_with d ''/'' \<and> \<not> starts_with d ''//''"

lemma absolute_iff: "absolute d \<longleftrightarrow> (\<exists>r. d = slash # r \<and> (r = [] \<or> hd r \<noteq> slash))"
  by (cases d; cases "tl d") (auto simp: absolute_def)

definition dir_head :: "string \<Rightarrow> string" where
  "dir_head p = rev (dropWhile (\<lambda>c. c \<noteq> slash) (rev p))"

lemma dirname_head:
  "dirname p = (if list_all (\<lambda>c. c = slash) (dir_head p) then dir_head p else rstrip_char slash (dir_head p))"
  by (simp add: dirname_def dir_head_def)

lemma dir_head_prefix: "\<exists>r. p = dir_head p @ r \<and> slash \<notin> set r"
proof -
  have "rev p = takeWhile (\<lambda>c. c \<noteq> slash) (rev p) @ dropWhile (\<lambda>c. c \<noteq> slash) (rev p)" by simp
  then have "p = dir_head p @ rev (takeWhile (\<lambda>c. c \<noteq> slash) (rev p))"
    by (metis dir_head_def rev_append rev_rev_ident)
  moreover have "slash \<notin> set (takeWhile (\<lambda>c. c \<noteq> slash) (rev p))" using set_takeWhileD by fastforce
  ultimately show ?thesis by (metis set_rev)
qed

lemma rstrip_prefix: "\<exists>n. s = rstrip_char c s @ replicate n c"
proof (induction s rule: rev_induct)
  case (snoc d s)
  show ?case
  proof (cases "d = c")
    case True
    with snoc obtain n where "s = rstrip_char c s @ replicate n c" by blast
    then have "s @ [d] = rstrip_char c (s @ [d]) @ replicate (Suc n) c"
      using True by (simp add: replicate_append_same [symmetric] del: replicate_append_same)
    then show ?thesis by blast
  next
    case False
    then show ?thesis by (intro exI [of _ 0]) (simp add: rstrip_char_def)
  qed
qed (simp add: rstrip_char_def)

lemma dirname_prefix: "\<exists>r. p = dirname p @ r"
proof -
  obtain r where "p = dir_head p @ r" using dir_head_prefix by blast
  moreover obtain n where "dir_head p = rstrip_char slash (dir_head p) @ replicate n slash"
    using rstrip_prefix by blast
  ultimately show ?thesis unfolding dirname_head by (metis append_assoc)
qed

lemma rstrip_char_not_all:
  "\<not> list_all (\<lambda>d. d = c) s \<Longrightarrow> rstrip_char c s \<noteq> [] \<and> (\<exists>d \<in> set (rstrip_char c s). d \<noteq> c)"
  by (induction s rule: rev_induct) (auto simp: rstrip_char_def)

text \<open>The parent of an absolute path is absolute and shorter, unless the path is the root.\<close>

lemma dirname_absolute:
  assumes "absolute d" and "d \<noteq> ''/''"
  shows "absolute (dirname d) \<and> length (dirname d) < length d"
proof -
  obtain r where d: "d = slash # r" and r: "r \<noteq> []" "hd r \<noteq> slash"
    using assms by (auto simp: absolute_iff)
  obtain t where t: "d = dir_head d @ t" "slash \<notin> set t" using dir_head_prefix by blast
  then obtain h where h: "dir_head d = slash # h" using d by (cases "dir_head d") auto
  then have rh: "r = h @ t" using d t(1) by simp
  show ?thesis
  proof (cases "list_all (\<lambda>c. c = slash) (dir_head d)")
    case True
    with h rh r(2) have "h = []" by (cases h) auto
    with True h d r(1) show ?thesis by (simp add: dirname_head absolute_iff)
  next
    case False
    then have nh: "h \<noteq> []" "hd h \<noteq> slash" using h rh r(2) by (auto simp: hd_append split: if_splits)
    obtain n where n: "dir_head d = rstrip_char slash (dir_head d) @ replicate n slash" using rstrip_prefix by blast
    from rstrip_char_not_all [OF False] n h obtain g where g: "rstrip_char slash (dir_head d) = slash # g"
      by (cases "rstrip_char slash (dir_head d)") auto
    have "g = [] \<or> hd g \<noteq> slash" using n g h nh by (cases g) auto
    moreover have "dirname d = slash # g" using False g by (simp add: dirname_head)
    moreover have "last (dir_head d) = slash"
    proof -
      have "dir_head d \<noteq> []" using h by simp
      then have "dropWhile (\<lambda>c. c \<noteq> slash) (rev d) \<noteq> []" by (simp add: dir_head_def)
      then show ?thesis using hd_dropWhile [of "\<lambda>c. c \<noteq> slash" "rev d"] by (simp add: dir_head_def last_rev)
    qed
    moreover have "n \<noteq> 0"
    proof
      assume "n = 0"
      then have "last (rstrip_char slash (dir_head d)) = slash" using n \<open>last (dir_head d) = slash\<close> by simp
      moreover have "rstrip_char slash s = [] \<or> last (rstrip_char slash s) \<noteq> slash" for s
        unfolding rstrip_char_def using hd_dropWhile [of "\<lambda>c. c = slash" "rev s"] by (auto simp: last_rev)
      ultimately show False using g by (metis list.distinct(1))
    qed
    then have "length (slash # g) < length (dir_head d)" using n g by (metis length_append length_replicate less_add_same_cancel1 neq0_conv)
    moreover have "length (dir_head d) \<le> length d" using t(1) by (metis length_append le_add1)
    ultimately show ?thesis by (auto simp: absolute_iff)
  qed
qed

lemma dirname_not_absolute:
  assumes "\<not> absolute d"
  shows "\<not> absolute (dirname d)"
proof
  assume a: "absolute (dirname d)"
  obtain e r where e: "dirname d = e" and r: "d = e @ r" using dirname_prefix by metis
  from a obtain s where s: "e = slash # s" "s = [] \<or> hd s \<noteq> slash" by (auto simp: e absolute_iff)
  from assms have "\<not> absolute (slash # s @ r)" by (simp add: r s(1))
  with s(2) have "s = []" "\<exists>u. r = slash # u" by (cases s; cases r; auto simp: absolute_iff)+
  then obtain u where d: "d = slash # slash # u" using r s(1) by auto
  obtain h t where h: "d = h @ t" "slash \<notin> set t" "h = dir_head d" using dir_head_prefix by metis
  from h(1,2) d obtain g where g: "h = slash # slash # g" by (cases h; cases "tl h"; auto)
  have "dirname d \<noteq> ''/''"
  proof (cases "list_all (\<lambda>c. c = slash) g")
    case True
    then show ?thesis using g h(3) by (auto simp: dirname_head)
  next
    case False
    then have "\<not> list_all (\<lambda>c. c = slash) h" by (simp add: g)
    from rstrip_char_not_all [OF this] this show ?thesis using h(3) by (auto simp: dirname_head)
  qed
  then show False using e s(1) \<open>s = []\<close> by simp
qed

text \<open>
  C34 (tko/utils.py, \<open>find_toplevel_job_dir\<close>). The search ends exactly when the path is absolute, with one
  leading slash, or one of the directories it passes has a \<open>.autoserv_execute\<close>; from a relative path
  without one it runs for ever.
\<close>

theorem find_toplevel_ends_iff:
  "find_toplevel_job_dir fs d \<noteq> None \<longleftrightarrow>
   absolute d \<or> (\<exists>n. path_exists fs (path_join ((dirname ^^ n) d) ''.autoserv_execute''))"
proof
  assume "find_toplevel_job_dir fs d \<noteq> None"
  then obtain r where "find_toplevel_job_dir fs d = Some r" by auto
  then have "absolute d \<or> (\<exists>n. path_exists fs (path_join ((dirname ^^ n) d) ''.autoserv_execute''))"
  proof (rule find_toplevel_job_dir.raw_induct [where P = "\<lambda>fs d r. absolute d \<or>
      (\<exists>n. path_exists fs (path_join ((dirname ^^ n) d) ''.autoserv_execute''))", rotated])
    fix search fs d r
    assume IH: "\<And>fs d r. search fs d = Some r \<Longrightarrow> absolute d \<or>
        (\<exists>n. path_exists fs (path_join ((dirname ^^ n) d) ''.autoserv_execute''))"
      and step: "(if path_exists fs (path_join d ''.autoserv_execute'') then Some (Some d)
        else if d = ''/'' then Some None else search fs (dirname d)) = Some r"
    show "absolute d \<or> (\<exists>n. path_exists fs (path_join ((dirname ^^ n) d) ''.autoserv_execute''))"
    proof (cases "path_exists fs (path_join d ''.autoserv_execute'')")
      case True
      then show ?thesis by (metis funpow_0)
    next
      case False
      with step consider "d = ''/''" | "search fs (dirname d) = Some r" by (auto split: if_splits)
      then show ?thesis
      proof cases
        case 1
        then show ?thesis by (simp add: absolute_def)
      next
        case 2
        from IH [OF this] show ?thesis
        proof
          assume "absolute (dirname d)"
          then show ?thesis using dirname_not_absolute by blast
        next
          assume "\<exists>n. path_exists fs (path_join ((dirname ^^ n) (dirname d)) ''.autoserv_execute'')"
          then obtain n where "path_exists fs (path_join ((dirname ^^ n) (dirname d)) ''.autoserv_execute'')" by blast
          then have "path_exists fs (path_join ((dirname ^^ Suc n) d) ''.autoserv_execute'')"
            by (simp add: funpow_Suc_right del: funpow.simps)
          then show ?thesis by blast
        qed
      qed
    qed
  qed
  then show "absolute d \<or> (\<exists>n. path_exists fs (path_join ((dirname ^^ n) d) ''.autoserv_execute''))" .
next
  assume "absolute d \<or> (\<exists>n. path_exists fs (path_join ((dirname ^^ n) d) ''.autoserv_execute''))"
  then show "find_toplevel_job_dir fs d \<noteq> None"
  proof
    assume "absolute d"
    then show ?thesis
    proof (induction "length d" arbitrary: d rule: less_induct)
      case less
      have "find_toplevel_job_dir fs (dirname d) \<noteq> None" if "d \<noteq> ''/''"
        using dirname_absolute [OF less.prems that] less.hyps by blast
      then show ?case by (subst find_toplevel_job_dir.simps) simp
    qed
  next
    assume "\<exists>n. path_exists fs (path_join ((dirname ^^ n) d) ''.autoserv_execute'')"
    then obtain n where "path_exists fs (path_join ((dirname ^^ n) d) ''.autoserv_execute'')" by blast
    then show ?thesis
    proof (induction n arbitrary: d)
      case 0
      then show ?case by (subst find_toplevel_job_dir.simps) simp
    next
      case (Suc n)
      then show ?case by (subst find_toplevel_job_dir.simps) (simp add: funpow_Suc_right del: funpow.simps)
    qed
  qed
qed

end
