(* ===== verification/Tko_Models.thy ===== *)
theory Tko_Models
  imports Keyval
begin

text \<open>
  The objects the result parser builds, tko/models.py and the classes of tko/parsers/version_0.py and
  version_1.py: jobs, kernels, tests and the iterations of a test, with what they read from the keyval files
  of the result directory. Times are integers; \<open>md5\<close> is the hash function of the standard library.
\<close>

section \<open>Messages and times\<close>

text \<open>\<open>drop_redundant_messages\<close>: a set is a list without duplicates, kept sorted by length, longest first.\<close>

fun filter_messages :: "string list \<Rightarrow> string list \<Rightarrow> string list" where
  "filter_messages [] filtered = filtered"
| "filter_messages (m # ms) filtered =
     filter_messages ms (if list_ex (has_substring m) filtered then filtered else filtered @ [m])"

definition drop_redundant_messages :: "string list \<Rightarrow> string list" where
  "drop_redundant_messages messages =
     filter_messages (sort_by (\<lambda>a b. length b \<le> length a) messages) []"

text \<open>\<open>get_timestamp\<close> on the fields of a status line and on a keyval.\<close>

definition field_timestamp :: "(string \<times> string) list \<Rightarrow> string \<Rightarrow> exn + int option" where
  "field_timestamp mapping f = (case map_of mapping f of
       None \<Rightarrow> Inr None | Some v \<Rightarrow> sbind (py_int v) (\<lambda>t. Inr (Some t)))"

text \<open>\<open>int(value)\<close>; of a decimal the integral part.\<close>

definition value_int :: "keyval_value \<Rightarrow> exn + int" where
  "value_int v = (case v of
       KInt n \<Rightarrow> Inr (int n)
     | KFloat s \<Rightarrow> Inr (int (nat_of_digits (takeWhile is_digit s)))
     | KStr s \<Rightarrow> py_int s)"

definition get_timestamp :: "keyval \<Rightarrow> string \<Rightarrow> exn + int option" where
  "get_timestamp mapping f = (case map_of mapping f of
       None \<Rightarrow> Inr None | Some v \<Rightarrow> sbind (value_int v) (\<lambda>t. Inr (Some t)))"

section \<open>Host keyvals and attributes\<close>

definition load_attributes :: "file_system \<Rightarrow> string \<Rightarrow> exn + keyval" where
  "load_attributes fs p = (if \<not> path_exists fs p then Inr [] else read_keyval fs p)"

text \<open>None where the search for the top directory does not end.\<close>

definition parse_host_keyval :: "file_system \<Rightarrow> string \<Rightarrow> string \<Rightarrow> (exn + keyval) option" where
  "parse_host_keyval fs dir hostname = (case find_toplevel_job_dir fs dir of
       None \<Rightarrow> None
     | Some None \<Rightarrow> Some (Inr [])
     | Some (Some top_dir) \<Rightarrow>
         if top_dir = [] then Some (Inr []) else
         let p = path_join (path_join top_dir ''host_keyvals'') hostname
         in Some (if file_contents fs p \<noteq> None then read_keyval fs p else Inr []))"

section \<open>Iterations\<close>

text \<open>\<open>it_perf\<close> keeps the text of each float.\<close>

record iteration =
  it_index :: nat
  it_attr :: "(string \<times> string) list"
  it_perf :: "(string \<times> string) list"

text \<open>The strings \<open>float()\<close> accepts.\<close>

definition float_exponent :: "string \<Rightarrow> bool" where
  "float_exponent s = (case s of
       [] \<Rightarrow> True
     | c # r \<Rightarrow> (c = CHR ''e'' \<or> c = CHR ''E'') \<and>
         all_digits (if r \<noteq> [] \<and> (hd r = CHR ''+'' \<or> hd r = CHR ''-'') then tl r else r))"

definition float_number :: "string \<Rightarrow> bool" where
  "float_number s =
     (let i = takeWhile is_digit s; r = dropWhile is_digit s
      in if r \<noteq> [] \<and> hd r = CHR ''.'' then
           (i \<noteq> [] \<or> takeWhile is_digit (tl r) \<noteq> []) \<and> float_exponent (dropWhile is_digit (tl r))
         else i \<noteq> [] \<and> float_exponent r)"

definition is_float :: "string \<Rightarrow> bool" where
  "is_float s =
     (let t = py_strip s;
          u = (if t \<noteq> [] \<and> (hd t = CHR ''+'' \<or> hd t = CHR ''-'') then tl t else t)
      in str_lower u \<in> {''inf'', ''infinity'', ''nan''} \<or> float_number u)"

text \<open>
  \<open>^([^=]*)\\{(\\w*)\\}=(.*)$\<close> and \<open>^([^=]*)=(.*)$\<close> on a line without newline: the equals sign is the
  first one, the brace before the type is the last one before it.
\<close>

definition typed_key :: "string \<Rightarrow> (string \<times> string) option" where
  "typed_key k =
     (case rev k of
        [] \<Rightarrow> None
      | c # r \<Rightarrow>
          let ty = takeWhile is_word r; rest = dropWhile is_word r
          in if c = CHR ''}'' \<and> rest \<noteq> [] \<and> hd rest = CHR ''{'' then Some (rev (tl rest), rev ty) else None)"

definition parse_line_into_dicts ::
  "string \<Rightarrow> (string \<times> string) list \<times> (string \<times> string) list \<Rightarrow> (string \<times> string) list \<times> (string \<times> string) list" where
  "parse_line_into_dicts l dicts = (case dicts of (attr, perf) \<Rightarrow>
     (case split_eq l of
        None \<Rightarrow> (attr, perf)
      | Some (k, v) \<Rightarrow>
          (let (key, ty) = (case typed_key k of Some kt \<Rightarrow> kt | None \<Rightarrow> (k, ''perf''))
           in if ty = ''attr'' then (alist_put key v attr, perf)
              else if ty = ''perf'' \<and> is_float v then (attr, alist_put key v perf)
              else (attr, perf))))"

fun load_iterations_loop ::
  "string list \<Rightarrow> nat \<Rightarrow> (string \<times> string) list \<times> (string \<times> string) list \<Rightarrow> iteration list \<Rightarrow> iteration list" where
  "load_iterations_loop [] index (attr, perf) its =
     (if attr \<noteq> [] \<or> perf \<noteq> [] then its @ [\<lparr>it_index = index, it_attr = attr, it_perf = perf\<rparr>] else its)"
| "load_iterations_loop (l # ls) index (attr, perf) its =
     (let t = py_strip l
      in if t \<noteq> [] then load_iterations_loop ls index (parse_line_into_dicts t (attr, perf)) its
         else load_iterations_loop ls (index + 1) ([], []) (its @ [\<lparr>it_index = index, it_attr = attr, it_perf = perf\<rparr>]))"

definition load_from_keyval :: "file_system \<Rightarrow> string \<Rightarrow> exn + iteration list" where
  "load_from_keyval fs p =
     (if \<not> path_exists fs p then Inr []
      else case file_contents fs p of
          None \<Rightarrow> Inl IOError
        | Some t \<Rightarrow> Inr (load_iterations_loop (file_lines t) 1 ([], []) []))"

section \<open>Jobs\<close>

text \<open>The attributes of a job the parser reads.\<close>

record tko_job =
  tj_dir :: string
  tj_user :: "keyval_value option"
  tj_label :: "keyval_value option"
  tj_machine :: string
  tj_machine_group :: string
  tj_machine_owner :: "keyval_value option"
  tj_queued_time :: "int option"
  tj_started_time :: "int option"
  tj_finished_time :: "int option"
  tj_aborted_by :: "keyval_value option"
  tj_aborted_on :: "int option"
  tj_keyval_dict :: keyval

text \<open>\<open>readline()\<close> of a file that can be read.\<close>

definition first_file_line :: "file_system \<Rightarrow> string \<Rightarrow> string option" where
  "first_file_line fs p = map_option (\<lambda>t. case file_lines t of [] \<Rightarrow> [] | l # _ \<Rightarrow> l) (file_contents fs p)"

text \<open>None for \<open>NoHostnameError\<close>.\<close>

definition find_hostname :: "file_system \<Rightarrow> string \<Rightarrow> string option" where
  "find_hostname fs path = (case first_file_line fs (path_join (path_join path ''sysinfo'') ''hostname'') of
       Some l \<Rightarrow> Some (rstrip l)
     | None \<Rightarrow> (case first_file_line fs (path_join (path_join path ''sysinfo'') ''uname_-a'') of
           Some l \<Rightarrow> (case py_split l of _ # w # _ \<Rightarrow> Some w | _ \<Rightarrow> None)
         | None \<Rightarrow> None))"

text \<open>\<open>bool(value)\<close>\<close>

definition truthy :: "keyval_value \<Rightarrow> bool" where
  "truthy v = (case v of
       KInt n \<Rightarrow> n \<noteq> 0
     | KFloat s \<Rightarrow> list_ex (\<lambda>c. is_digit c \<and> c \<noteq> CHR ''0'') s
     | KStr s \<Rightarrow> s \<noteq> [])"

text \<open>\<open>"," in machine\<close> raises a TypeError on a number.\<close>

definition determine_hostname :: "file_system \<Rightarrow> keyval \<Rightarrow> string \<Rightarrow> exn + keyval_value" where
  "determine_hostname fs kv dir =
     (case (case map_of kv ''hostname'' of None \<Rightarrow> KStr [] | Some v \<Rightarrow> v) of
        KStr machine \<Rightarrow>
          (let multi = CHR '','' \<in> set machine;
               single = (if multi then (case find_hostname fs dir of Some m \<Rightarrow> m | None \<Rightarrow> machine) else machine)
           in case map_of kv ''host_group_name'' of
                None \<Rightarrow> Inr (KStr single)
              | Some g \<Rightarrow> if truthy g then Inr (if multi \<or> machine = [] then g else KStr machine)
                          else Inr (KStr single))
      | _ \<Rightarrow> Inl TypeError)"

text \<open>The platforms of the machines; \<open>",".join\<close> raises a TypeError on a number. None where a search does not end.\<close>

fun machine_platforms :: "file_system \<Rightarrow> string \<Rightarrow> string list \<Rightarrow> keyval_value list \<Rightarrow> (exn + keyval_value list) option" where
  "machine_platforms fs dir [] groups = Some (Inr groups)"
| "machine_platforms fs dir (h # hs) groups = (case parse_host_keyval fs dir h of
       None \<Rightarrow> None
     | Some (Inl e) \<Rightarrow> Some (Inl e)
     | Some (Inr kv) \<Rightarrow> (case map_of kv ''platform'' of
           None \<Rightarrow> machine_platforms fs dir hs groups
         | Some p \<Rightarrow> machine_platforms fs dir hs (set_add p groups)))"

fun value_strings :: "keyval_value list \<Rightarrow> exn + string list" where
  "value_strings [] = Inr []"
| "value_strings (KStr s # vs) = sbind (value_strings vs) (\<lambda>ss. Inr (s # ss))"
| "value_strings (_ # vs) = Inl TypeError"

definition determine_machine_group :: "file_system \<Rightarrow> string \<Rightarrow> string \<Rightarrow> (exn + string) option" where
  "determine_machine_group fs hostname dir =
     map_option (\<lambda>r. sbind r (\<lambda>groups. sbind (value_strings groups) (\<lambda>names.
         Inr (str_join '','' (sort_by (\<lambda>a b. str_cmp a b \<le> 0) names)))))
       (machine_platforms fs dir (split_on (CHR '','') hostname) [])"

definition job_times :: "keyval \<Rightarrow> exn + int option \<times> int option \<times> int option" where
  "job_times kv =
     sbind (get_timestamp kv ''job_queued'') (\<lambda>queued.
     sbind (get_timestamp kv ''job_started'') (\<lambda>started.
     sbind (get_timestamp kv ''job_finished'') (\<lambda>finished. Inr (queued, started, finished))))"

definition new_job ::
  "string \<Rightarrow> keyval \<Rightarrow> int option \<times> int option \<times> int option \<Rightarrow> string \<Rightarrow> string \<Rightarrow> exn + tko_job" where
  "new_job dir kv ts machine group_name = (case ts of (queued, started, finished) \<Rightarrow>
     sbind (get_timestamp kv ''aborted_on'') (\<lambda>aborted_on.
       Inr \<lparr>tj_dir = dir, tj_user = map_of kv ''user'', tj_label = map_of kv ''label'', tj_machine = machine,
            tj_machine_group = group_name, tj_machine_owner = map_of kv ''owner'', tj_queued_time = queued,
            tj_started_time = started, tj_finished_time = finished, tj_aborted_by = map_of kv ''aborted_by'',
            tj_aborted_on = aborted_on, tj_keyval_dict = kv\<rparr>))"

text \<open>A number as the machine name has no \<open>split\<close>, an AttributeError.\<close>

definition load_from_dir :: "file_system \<Rightarrow> string \<Rightarrow> (exn + tko_job) option" where
  "load_from_dir fs dir = (case job_read_keyval fs dir of
       None \<Rightarrow> None
     | Some (Inl e) \<Rightarrow> Some (Inl e)
     | Some (Inr kv) \<Rightarrow> (case sbind (job_times kv) (\<lambda>ts. sbind (determine_hostname fs kv dir) (\<lambda>machine. Inr (ts, machine))) of
           Inl e \<Rightarrow> Some (Inl e)
         | Inr (ts, KStr machine) \<Rightarrow> map_option (\<lambda>r. sbind r (new_job dir kv ts machine))
             (determine_machine_group fs machine dir)
         | Inr _ \<Rightarrow> Some (Inl AttributeError)))"

text \<open>\<open>os.WIFEXITED\<close> and \<open>os.WEXITSTATUS\<close> of a wait status.\<close>

definition WIFEXITED :: "int \<Rightarrow> bool" where
  "WIFEXITED status \<longleftrightarrow> status mod 128 = 0"

definition WEXITSTATUS :: "int \<Rightarrow> int" where
  "WEXITSTATUS status = (status div 256) mod 256"

definition execute_status :: "string \<Rightarrow> string" where
  "execute_status text = (case file_lines text of
       _ # l # _ \<Rightarrow> (case py_int l of
           Inl e \<Rightarrow> ''ABORT''
         | Inr code \<Rightarrow> if \<not> WIFEXITED code then ''ABORT''
             else if WEXITSTATUS code \<noteq> 0 then ''FAIL'' else ''GOOD'')
     | _ \<Rightarrow> ''ABORT'')"

text \<open>None where the search for the top directory does not end.\<close>

definition exit_status :: "file_system \<Rightarrow> string \<Rightarrow> string option" where
  "exit_status fs dir = (case find_toplevel_job_dir fs dir of
       None \<Rightarrow> None
     | Some None \<Rightarrow> Some ''ABORT''
     | Some (Some top_dir) \<Rightarrow>
         Some (if top_dir = [] then ''ABORT''
               else case file_contents fs (path_join top_dir ''.autoserv_execute'') of
                 None \<Rightarrow> ''ABORT'' | Some text \<Rightarrow> execute_status text))"

section \<open>Kernels\<close>

record patch =
  pt_spec :: string
  pt_reference :: string
  pt_hash :: string

record kernel =
  kn_base :: string
  kn_patches :: "patch list"
  kn_hash :: string

definition new_patch :: "string list \<Rightarrow> exn + patch" where
  "new_patch words = (case words of
       [s, r, h] \<Rightarrow> Inr \<lparr>pt_spec = s, pt_reference = r, pt_hash = h\<rparr>
     | _ \<Rightarrow> Inl TypeError)"

fun new_patches :: "string list \<Rightarrow> exn + patch list" where
  "new_patches [] = Inr []"
| "new_patches (p # ps) = sbind (new_patch (py_split p)) (\<lambda>x. sbind (new_patches ps) (\<lambda>xs. Inr (x # xs)))"

definition compute_hash :: "(string \<Rightarrow> string) \<Rightarrow> string \<Rightarrow> string list \<Rightarrow> string" where
  "compute_hash md5 base hashes = md5 (str_join '','' (base # hashes))"

definition unknown_kernel :: kernel where
  "unknown_kernel = \<lparr>kn_base = ''UNKNOWN'', kn_patches = [], kn_hash = ''UNKNOWN''\<rparr>"

definition new_kernel :: "(string \<Rightarrow> string) \<Rightarrow> string \<Rightarrow> string list \<Rightarrow> exn + kernel" where
  "new_kernel md5 base patches =
     (if base \<noteq> [] then sbind (new_patches patches) (\<lambda>ps.
        Inr \<lparr>kn_base = base, kn_patches = ps, kn_hash = compute_hash md5 base (map pt_hash ps)\<rparr>)
      else Inr unknown_kernel)"

text \<open>\<open>re.sub("-autotest$", "", s)\<close>; a field has no newline.\<close>

definition without_autotest :: "string \<Rightarrow> string" where
  "without_autotest s =
     (let n = length s - length ''-autotest''
      in if drop n s = ''-autotest'' then take n s else s)"

text \<open>The loop over \<open>patch0\<close>, \<open>patch1\<close>, ... passes at most as many names as there are fields.\<close>

definition patch_names :: "(string \<times> string) list \<Rightarrow> string list" where
  "patch_names fields' = takeWhile (\<lambda>k. map_of fields' k \<noteq> None)
     (map (\<lambda>i. ''patch'' @ str_of_nat i) [0..<Suc (length fields')])"

definition get_kernel :: "(string \<Rightarrow> string) \<Rightarrow> (string \<times> string) list \<Rightarrow> exn + kernel" where
  "get_kernel md5 fields' =
     new_kernel md5 (without_autotest (case map_of fields' ''kernel'' of None \<Rightarrow> [] | Some b \<Rightarrow> b))
       (map (\<lambda>k. the (map_of fields' k)) (patch_names fields'))"

section \<open>Tests\<close>

record tko_test =
  tt_subdir :: "string option"
  tt_testname :: "string option"
  tt_status :: string
  tt_reason :: "string option"
  tt_kernel :: kernel
  tt_machine :: string
  tt_started_time :: "int option"
  tt_finished_time :: "int option"
  tt_iterations :: "iteration list"
  tt_attributes :: keyval

definition partial_test ::
  "tko_job \<Rightarrow> string option \<Rightarrow> string option \<Rightarrow> string option \<Rightarrow> kernel \<Rightarrow> int option \<Rightarrow> tko_test" where
  "partial_test job subdir testname reason k started =
     \<lparr>tt_subdir = subdir, tt_testname = testname, tt_status = ''RUNNING'', tt_reason = reason, tt_kernel = k,
      tt_machine = tj_machine job, tt_started_time = started, tt_finished_time = None, tt_iterations = [],
      tt_attributes = []\<rparr>"

text \<open>\<open>attributes.update(("host-%s" % k, v) ...)\<close>\<close>

definition add_host_attributes :: "keyval \<Rightarrow> keyval \<Rightarrow> keyval" where
  "add_host_attributes host attributes = foldl (\<lambda>d (k, v). alist_put (''host-'' @ k) v d) attributes host"

text \<open>The values of a finished test; \<open>host\<close> is its host keyval.\<close>

definition finished_test ::
  "file_system \<Rightarrow> tko_job \<Rightarrow> exn + keyval \<Rightarrow> string option \<Rightarrow> string option \<Rightarrow> string \<Rightarrow> string option \<Rightarrow> kernel \<Rightarrow>
   int option \<Rightarrow> int option \<Rightarrow> exn + tko_test" where
  "finished_test fs job host subdir testname status reason k started finished =
     sbind (case subdir of
         Some (c # cs) \<Rightarrow>
           (let d = path_join (tj_dir job) (c # cs)
            in sbind (load_from_keyval fs (path_join (path_join d ''results'') ''keyval'')) (\<lambda>its.
               sbind (load_attributes fs (path_join d ''keyval'')) (\<lambda>attrs. Inr (its, attrs))))
       | _ \<Rightarrow> Inr ([], [])) (\<lambda>(its, attrs).
     sbind host (\<lambda>h.
       Inr \<lparr>tt_subdir = subdir, tt_testname = testname, tt_status = status, tt_reason = reason, tt_kernel = k,
            tt_machine = tj_machine job, tt_started_time = started, tt_finished_time = finished,
            tt_iterations = its, tt_attributes = add_host_attributes h attrs\<rparr>))"

section \<open>The exit status of a job\<close>

lemma file_lines_lines: "newline \<notin> set s \<Longrightarrow> file_lines (line s @ t) = line s # file_lines t"
  using file_lines_line [of s t] by (simp add: line_def)

lemma str_of_int_one_line: "newline \<notin> set (str_of_int i)"
  using no_bad_char [OF str_of_int_clean] by simp

lemma str_of_nat_one_line: "newline \<notin> set (str_of_nat n)"
  using str_of_nat_digits [of n] by (auto simp: is_digit_def)

lemma py_int_line: "py_int (line (str_of_int i)) = Inr i"
proof -
  let ?s = "str_of_int i"
  have "\<forall>c \<in> set ?s. is_digit c \<or> c = CHR ''-''"
    using str_of_nat_digits by (auto simp: str_of_int_def)
  moreover have "\<not> is_space c" if "is_digit c \<or> c = CHR ''-''" for c
    using that by (auto simp: is_space_def is_digit_def)
  ultimately have ns: "\<forall>c \<in> set ?s. \<not> is_space c" by blast
  have ne: "?s \<noteq> []" by (simp add: str_of_int_def)
  with ns have "dropWhile is_space (line ?s) = line ?s" by (cases ?s) (auto simp: line_def)
  moreover have "dropWhile is_space (rev ?s) = rev ?s"
    using ns ne by (cases ?s rule: rev_cases) auto
  ultimately have "py_strip (line ?s) = ?s" by (simp add: py_strip_def line_def is_space_def)
  moreover have "py_strip ?s = ?s" using ne ns by (intro py_strip_id) auto
  ultimately show ?thesis using py_int_str_of_int [of i] by (simp add: py_int_def)
qed

lemma encoded_parts:
  "encoded_exit_code ec sc mod 128 = sc mod 128" "encoded_exit_code ec sc div 256 mod 256 = ec mod 256"
proof -
  have "take_bit 7 (encoded_exit_code ec sc) = take_bit 7 sc"
    by (rule bit_eqI) (auto simp: bit_take_bit_iff encoded_bits)
  moreover have "take_bit 8 (drop_bit 8 (encoded_exit_code ec sc)) = take_bit 8 ec"
    by (rule bit_eqI) (auto simp: bit_take_bit_iff bit_drop_bit_eq encoded_bits)
  ultimately show "encoded_exit_code ec sc mod 128 = sc mod 128" "encoded_exit_code ec sc div 256 mod 256 = ec mod 256"
    by (simp_all add: take_bit_eq_mod drop_bit_eq_div)
qed

text \<open>
  (client/shared/pidfile.py, \<open>PidFileManager\<close>; tko/parsers/version_1.py, \<open>job.exit_status\<close>). Of the file
  the job process leaves the parser reports ABORT while it is open or when the process was killed, FAIL
  when its exit code is not 0 modulo 256 and GOOD otherwise.
\<close>

theorem exit_status_of_pidfile:
  "execute_status (pm_contents (open_file pid m)) = ''ABORT'' \<and>
   execute_status (pm_contents (close_file ec sc (open_file pid m))) =
     (if sc mod 128 \<noteq> 0 then ''ABORT'' else if ec mod 256 \<noteq> 0 then ''FAIL'' else ''GOOD'')"
proof -
  let ?p = "str_of_nat pid" and ?c = "str_of_int (encoded_exit_code ec sc)" and ?f = "str_of_int (pm_num_tests_failed m)"
  have "file_lines (line ?p) = [line ?p]" "file_lines (line ?p @ line ?c @ line ?f) = [line ?p, line ?c, line ?f]"
    using file_lines_lines [OF str_of_nat_one_line, of pid "[]"] file_lines_lines [OF str_of_int_one_line, of _ "[]"]
    by (simp_all add: file_lines_lines str_of_nat_one_line str_of_int_one_line)
  then show ?thesis
    by (simp add: execute_status_def open_file_def close_file_def py_int_line WIFEXITED_def WEXITSTATUS_def encoded_parts)
qed

end
