(* ===== verification/Tko_Parser.thy ===== *)
theory Tko_Parser
  imports Tko_Models
begin

text \<open>
  The parser of status logs, \<open>parser.state_iterator\<close> of tko/parsers/version_1.py with the interface of
  tko/parsers/base.py. The generator's local variables are the fields of \<open>parser_state\<close>; the tests it
  creates are objects, so \<open>ps_tests\<close> is their store and \<open>ps_new_tests\<close> and the running ones are numbers
  into it. One call of \<open>next()\<close> is \<open>resume\<close>: it runs the loop to the next \<open>yield\<close>.
\<close>

section \<open>State\<close>

text \<open>Where the generator stands: at its first \<open>yield\<close>, at the one in the loop, at the last one, or over.\<close>

datatype parser_phase = Primed | Waiting | Reported | Over

record parser_state =
  ps_finished :: bool
  ps_buffer :: "string list"
  ps_phase :: parser_phase
  ps_line :: "status_line option"
  ps_tests :: "tko_test list"
  ps_new_tests :: "nat list"
  ps_job_count :: nat
  ps_boot_count :: nat
  ps_min_stack_size :: int
  ps_stack :: "string list"
  ps_kernel :: kernel
  ps_status :: string
  ps_reason :: "string option"
  ps_started :: "int option list"
  ps_subdirs :: "string option list"
  ps_running_test :: "nat option"
  ps_running_client :: "nat option"
  ps_running_job :: nat
  ps_running_reasons :: "string list"

type_synonym 'a parsing = "(parser_state, 'a) exm"

text \<open>
  What the parser takes from outside: the job and its files, the host keyval and the exit status read there
  (see \<open>parser_env_of\<close>), the hash function and the format of the time of an abort.
\<close>

record parser_env =
  pe_job :: tko_job
  pe_fs :: file_system
  pe_host :: "exn + keyval"
  pe_exit_status :: string
  pe_md5 :: "string \<Rightarrow> string"
  pe_abort_time :: "int \<Rightarrow> string"

text \<open>
  The environment of a job: the keyval of its host and its exit status are what the files of its directory
  say. None where the search for the top directory does not end.
\<close>

definition parser_env_of :: "tko_job \<Rightarrow> file_system \<Rightarrow> (string \<Rightarrow> string) \<Rightarrow> (int \<Rightarrow> string) \<Rightarrow> parser_env option" where
  "parser_env_of job fs md5 abort_time =
     (case (parse_host_keyval fs (tj_dir job) (tj_machine job), exit_status fs (tj_dir job)) of
        (Some host, Some status) \<Rightarrow> Some \<lparr>pe_job = job, pe_fs = fs, pe_host = host, pe_exit_status = status,
           pe_md5 = md5, pe_abort_time = abort_time\<rparr>
      | _ \<Rightarrow> None)"

definition initial_state :: parser_state where
  "initial_state = \<lparr>ps_finished = False, ps_buffer = [], ps_phase = Primed, ps_line = None, ps_tests = [],
     ps_new_tests = [], ps_job_count = 0, ps_boot_count = 0, ps_min_stack_size = 0, ps_stack = stack_init,
     ps_kernel = unknown_kernel, ps_status = last_status, ps_reason = None, ps_started = [None],
     ps_subdirs = [None], ps_running_test = None, ps_running_client = None, ps_running_job = 0,
     ps_running_reasons = []\<rparr>"

section \<open>Tests under construction\<close>

definition add_test :: "tko_test \<Rightarrow> nat parsing" where
  "add_test t = bnd (gets (\<lambda>s. length (ps_tests s))) (\<lambda>i.
     andthen (modify (\<lambda>s. s\<lparr>ps_tests := ps_tests s @ [t]\<rparr>)) (ret i))"

definition report :: "nat \<Rightarrow> unit parsing" where
  "report i = modify (\<lambda>s. s\<lparr>ps_new_tests := ps_new_tests s @ [i]\<rparr>)"

definition set_reason :: "nat \<Rightarrow> string option \<Rightarrow> unit parsing" where
  "set_reason i r = modify (\<lambda>s. s\<lparr>ps_tests := (ps_tests s)[i := (ps_tests s ! i)\<lparr>tt_reason := r\<rparr>]\<rparr>)"

text \<open>\<open>parse_partial_test\<close> and the append to \<open>new_tests\<close>.\<close>

definition start_test :: "parser_env \<Rightarrow> string option \<Rightarrow> string option \<Rightarrow> string option \<Rightarrow> int option \<Rightarrow> nat parsing" where
  "start_test env subdir testname reason started =
     bnd (gets ps_kernel) (\<lambda>k.
     bnd (add_test (partial_test (pe_job env) subdir testname reason k started)) (\<lambda>i.
     andthen (report i) (ret i)))"

text \<open>\<open>parse_test\<close>: it initializes the existing instance again, or creates one.\<close>

definition parse_test ::
  "parser_env \<Rightarrow> string option \<Rightarrow> string option \<Rightarrow> string \<Rightarrow> string option \<Rightarrow> int option \<Rightarrow> int option \<Rightarrow> nat option \<Rightarrow> nat parsing" where
  "parse_test env subdir testname status reason started finished existing =
     bnd (gets ps_kernel) (\<lambda>k.
     bnd (lift_sum (finished_test (pe_fs env) (pe_job env) (pe_host env) subdir testname status reason k started finished)) (\<lambda>t.
     case existing of
       None \<Rightarrow> add_test t
     | Some i \<Rightarrow> andthen (modify (\<lambda>s. s\<lparr>ps_tests := (ps_tests s)[i := t]\<rparr>)) (ret i)))"

section \<open>Implicit aborts\<close>

definition make_dummy_abort :: "nat \<Rightarrow> string option \<Rightarrow> string option \<Rightarrow> string option \<Rightarrow> string \<Rightarrow> string" where
  "make_dummy_abort indent subdir testname timestamp reason =
     replicate indent tab @ ''END ABORT'' @ [tab] @ rendered_name subdir @ [tab] @ rendered_name testname @
     (case timestamp of Some (c # cs) \<Rightarrow> [tab] @ ''timestamp='' @ c # cs | _ \<Rightarrow> []) @ [tab] @ reason"

text \<open>\<open>'%s' % reason\<close>\<close>

definition shown :: "string option \<Rightarrow> string" where
  "shown r = (case r of None \<Rightarrow> ''None'' | Some s \<Rightarrow> s)"

definition put_back_line_and_abort ::
  "string \<Rightarrow> nat \<Rightarrow> string option \<Rightarrow> string option \<Rightarrow> string option \<Rightarrow> unit parsing" where
  "put_back_line_and_abort l indent subdir timestamp reason =
     modify (\<lambda>s. s\<lparr>ps_buffer := buffer_put_back (make_dummy_abort indent subdir subdir timestamp (shown reason))
       (buffer_put_back l (ps_buffer s))\<rparr>)"

text \<open>The reason when the log ends inside a block; \<open>aborted_on\<close> of an aborted job may be missing.\<close>

definition abort_reason :: "parser_env \<Rightarrow> exn + string" where
  "abort_reason env = (case tj_aborted_by (pe_job env) of
       Some v \<Rightarrow> if truthy v then
           (case tj_aborted_on (pe_job env) of
              None \<Rightarrow> Inl AttributeError
            | Some t \<Rightarrow> Inr (''Job aborted by '' @
                (case v of KInt n \<Rightarrow> str_of_nat n | KFloat f \<Rightarrow> f | KStr n \<Rightarrow> n) @ pe_abort_time env t))
         else Inr ''Job aborted unexpectedly''
     | None \<Rightarrow> Inr ''Job aborted unexpectedly'')"

text \<open>The aborts of all open blocks, the innermost first, with the directories popped from the stack.\<close>

fun abort_lines :: "nat \<Rightarrow> string option list \<Rightarrow> string option \<Rightarrow> string \<Rightarrow> string list" where
  "abort_lines 0 subdirs timestamp reason = []"
| "abort_lines (Suc i) subdirs timestamp reason =
     (let subdir = (case subdirs of [] \<Rightarrow> None | d # _ \<Rightarrow> d)
      in make_dummy_abort i subdir subdir timestamp reason # abort_lines i (tl subdirs) timestamp reason)"

definition abort_open_blocks :: "parser_env \<Rightarrow> unit parsing" where
  "abort_open_blocks env =
     bnd (lift_sum (abort_reason env)) (\<lambda>reason.
     bnd (gets ps_line) (\<lambda>l.
     bnd (some_or AttributeError l) (\<lambda>l.
     modify (\<lambda>s. s\<lparr>ps_buffer := buffer_put_multiple
       (abort_lines (stack_size (ps_stack s)) (ps_subdirs s) (map_of (ln_fields l) ''timestamp'') reason)
       (ps_buffer s)\<rparr>))))"

section \<open>One line\<close>

definition is_job_line :: "status_line \<Rightarrow> parser_state \<Rightarrow> bool" where
  "is_job_line l s \<longleftrightarrow> ln_testname l = None \<and> ln_subdir l = None \<and> ps_running_test s = None"

definition has_reason :: "string option \<Rightarrow> bool" where
  "has_reason r \<longleftrightarrow> (case r of None \<Rightarrow> False | Some s \<Rightarrow> s \<noteq> [])"

definition start_client :: "parser_env \<Rightarrow> int option \<Rightarrow> unit parsing" where
  "start_client env started =
     andthen (modify (\<lambda>s. s\<lparr>ps_min_stack_size := int (stack_size (ps_stack s))\<rparr>)) (
     bnd (gets (\<lambda>s. ''CLIENT_JOB.'' @ str_of_nat (ps_job_count s))) (\<lambda>name.
     bnd (start_test env None (Some name) (Some []) started) (\<lambda>i.
     modify (\<lambda>s. s\<lparr>ps_running_client := Some i\<rparr>))))"

definition start_running_test :: "parser_env \<Rightarrow> status_line \<Rightarrow> int option \<Rightarrow> unit parsing" where
  "start_running_test env l started =
     andthen (modify (\<lambda>s. s\<lparr>ps_running_reasons := (if has_reason (ln_reason l) then [shown (ln_reason l)] else [])\<rparr>)) (
     bnd (start_test env (ln_subdir l) (ln_testname l) (ln_reason l) started) (\<lambda>i.
     modify (\<lambda>s. s\<lparr>ps_running_test := Some i\<rparr>)))"

definition on_start :: "parser_env \<Rightarrow> status_line \<Rightarrow> unit parsing" where
  "on_start env l =
     andthen (modify (\<lambda>s. s\<lparr>ps_stack := stack_start (ps_stack s)\<rparr>)) (
     bnd (lift_sum (field_timestamp (ln_fields l) ''timestamp'')) (\<lambda>started.
     bnd (gets (is_job_line l)) (\<lambda>job_line.
     bnd (gets (\<lambda>s. int (stack_size (ps_stack s)) = ps_min_stack_size s + 1 \<and> ps_running_test s = None)) (\<lambda>test_line.
     andthen (if job_line then start_client env started
              else when_do test_line (start_running_test env l started))
       (modify (\<lambda>s. s\<lparr>ps_started := started # ps_started s, ps_subdirs := ln_subdir l # ps_subdirs s\<rparr>))))))"

definition on_info :: "parser_env \<Rightarrow> status_line \<Rightarrow> unit parsing" where
  "on_info env l =
     andthen (when_do (map_of (ln_fields l) ''kernel'' \<noteq> None)
       (bnd (lift_sum (get_kernel (pe_md5 env) (ln_fields l))) (\<lambda>k. modify (\<lambda>s. s\<lparr>ps_kernel := k\<rparr>))))
     (case map_of (ln_fields l) ''job_abort_reason'' of
        None \<Rightarrow> ret ()
      | Some r \<Rightarrow> bnd (gets ps_running_job) (\<lambda>i. andthen (set_reason i (Some r)) (report i)))"

definition add_running_reason :: "string \<Rightarrow> nat \<Rightarrow> unit parsing" where
  "add_running_reason r i =
     andthen (modify (\<lambda>s. s\<lparr>ps_running_reasons := drop_redundant_messages (set_add r (ps_running_reasons s))\<rparr>)) (
     bnd (gets (\<lambda>s. str_join '', '' (sort_by (\<lambda>a b. str_cmp a b \<le> 0) (ps_running_reasons s)))) (\<lambda>reason.
     andthen (set_reason i (Some reason)) (
     andthen (modify (\<lambda>s. s\<lparr>ps_reason := Some reason\<rparr>)) (report i))))"

definition update_reason :: "status_line \<Rightarrow> unit parsing" where
  "update_reason l = when_do (has_reason (ln_reason l))
     (bnd (gets ps_running_test) (\<lambda>running. case running of
        Some i \<Rightarrow> add_running_reason (shown (ln_reason l)) i
      | None \<Rightarrow> modify (\<lambda>s. s\<lparr>ps_reason := ln_reason l\<rparr>)))"

text \<open>The status of a STATUS or END line; the constructor has checked it.\<close>

definition line_status :: "status_line \<Rightarrow> string" where
  "line_status l = shown (ln_status l)"

definition update_stack :: "string \<Rightarrow> unit parsing" where
  "update_stack st = modify (\<lambda>s. s\<lparr>ps_stack := stack_update st (ps_stack s)\<rparr>)"

definition on_status :: "status_line \<Rightarrow> unit parsing" where
  "on_status l =
     andthen (modify (\<lambda>s. if ln_subdir l \<noteq> None \<and> ln_subdir l \<noteq> Some [] \<and> int (stack_size (ps_stack s)) > ps_min_stack_size s
       then s\<lparr>ps_subdirs := ln_subdir l # tl (ps_subdirs s)\<rparr> else s)) (
     andthen (update_stack (line_status l)) (
     bnd (gets (\<lambda>s. is_worse_than_or_equal_to (line_status l) (ps_status s))) (\<lambda>r.
     bnd (lift_sum r) (\<lambda>worse.
     when_do worse (andthen (update_reason l)
       (modify (\<lambda>s. s\<lparr>ps_status := current_status (ps_stack s)\<rparr>)))))))"

definition leave_block :: "status_line \<Rightarrow> status_line parsing" where
  "leave_block l =
     bnd (gets (is_job_line l)) (\<lambda>job_line.
     bnd (gets ps_subdirs) (\<lambda>subdirs.
     case subdirs of
       [] \<Rightarrow> throw IndexError
     | d # ds \<Rightarrow>
         if job_line then
           andthen (modify (\<lambda>s. s\<lparr>ps_min_stack_size := int (stack_size (ps_stack s)) - 1, ps_subdirs := ds\<rparr>)) (ret l)
         else
           andthen (modify (\<lambda>s. s\<lparr>ps_subdirs := ds\<rparr>)) (
           case ds of
             [] \<Rightarrow> throw IndexError
           | e # es \<Rightarrow>
               andthen (modify (\<lambda>s. if (e = None \<or> e = Some []) \<and> int (stack_size (ps_stack s)) > ps_min_stack_size s
                 then s\<lparr>ps_subdirs := d # es\<rparr> else s)) (ret (l\<lparr>ln_subdir := d\<rparr>)))))"

definition close_block :: "string \<Rightarrow> unit parsing" where
  "close_block st =
     andthen (update_stack st) (
     andthen (modify (\<lambda>s. s\<lparr>ps_status := fst (stack_end (ps_stack s)), ps_stack := snd (stack_end (ps_stack s))\<rparr>))
     (modify (\<lambda>s. if int (stack_size (ps_stack s)) > ps_min_stack_size s then
         let st' = stack_update (ps_status s) (ps_stack s) in s\<lparr>ps_stack := st', ps_status := current_status st'\<rparr>
       else s)))"

definition on_reboot :: "parser_env \<Rightarrow> status_line \<Rightarrow> unit parsing" where
  "on_reboot env l =
     bnd (gets (\<lambda>s. is_successful_reboot (ps_status s) l)) (\<lambda>r.
     bnd (lift_sum r) (\<lambda>ok.
     when_do ok (bnd (lift_sum (get_kernel (pe_md5 env) (ln_fields l))) (\<lambda>k. modify (\<lambda>s. s\<lparr>ps_kernel := k\<rparr>)))))"

definition boot_name :: "parser_state \<Rightarrow> string" where
  "boot_name s = ''boot.'' @ str_of_nat (ps_boot_count s)"

definition name_reboot :: "status_line \<Rightarrow> parser_state \<Rightarrow> status_line" where
  "name_reboot l s = (if ln_testname l = Some ''reboot'' \<and> ln_subdir l = None then l\<lparr>ln_testname := Some (boot_name s)\<rparr> else l)"

text \<open>The line with its names, the start and the finish time.\<close>

definition on_end :: "parser_env \<Rightarrow> status_line \<Rightarrow> (status_line \<times> int option \<times> int option) parsing" where
  "on_end env l =
     bnd (leave_block l) (\<lambda>l1.
     andthen (close_block (line_status l1)) (
     bnd (gets ps_started) (\<lambda>started_stack. case started_stack of
       [] \<Rightarrow> throw IndexError
     | started # rest \<Rightarrow>
         andthen (modify (\<lambda>s. s\<lparr>ps_started := rest\<rparr>)) (
         bnd (lift_sum (field_timestamp (ln_fields l1) ''timestamp'')) (\<lambda>finished.
         andthen (on_reboot env l1) (
         bnd (gets (name_reboot l1)) (\<lambda>l2. ret (l2, started, finished))))))))"

section \<open>A finished test\<close>

text \<open>Without a name or directory this is the end of a client job; its running test must have been started.\<close>

definition finish_client :: "string parsing" where
  "finish_client =
     bnd (gets (\<lambda>s. ''CLIENT_JOB.'' @ str_of_nat (ps_job_count s))) (\<lambda>name.
     bnd (gets ps_running_client) (\<lambda>client.
     bnd (some_or UnboundLocalError client) (\<lambda>i.
     andthen (modify (\<lambda>s. s\<lparr>ps_running_test := Some i, ps_job_count := ps_job_count s + 1\<rparr>)) (
     bnd (gets (\<lambda>s. is_worse_than_or_equal_to (ps_status s) ''ABORT'')) (\<lambda>r.
     bnd (lift_sum r) (\<lambda>worse.
     andthen (when_do (\<not> worse) (modify (\<lambda>s. s\<lparr>ps_status := ''GOOD''\<rparr>))) (ret name)))))))"

definition finish_test :: "parser_env \<Rightarrow> status_line \<Rightarrow> int option \<Rightarrow> int option \<Rightarrow> unit parsing" where
  "finish_test env l started finished =
     bnd (case (ln_testname l, ln_subdir l) of
         (Some n, _) \<Rightarrow> ret n | (None, Some d) \<Rightarrow> ret d | (None, None) \<Rightarrow> finish_client) (\<lambda>name.
     andthen (modify (\<lambda>s. if has_reason (ps_reason s) then s else s\<lparr>ps_reason := ln_reason l\<rparr>)) (
     bnd (gets ps_status) (\<lambda>status.
     bnd (gets ps_reason) (\<lambda>reason.
     bnd (gets ps_running_test) (\<lambda>running.
     bnd (parse_test env (ln_subdir l) (Some name) status reason started finished running) (\<lambda>i.
     andthen (modify (\<lambda>s. s\<lparr>ps_running_test := None, ps_status := last_status, ps_reason := None,
         ps_boot_count := (if name = boot_name s then ps_boot_count s + 1 else ps_boot_count s)\<rparr>))
       (report i)))))))"

definition maybe_finish :: "parser_env \<Rightarrow> status_line \<Rightarrow> int option \<Rightarrow> int option \<Rightarrow> unit parsing" where
  "maybe_finish env l started finished =
     bnd (gets (\<lambda>s. int (stack_size (ps_stack s)) \<le> ps_min_stack_size s)) (\<lambda>fin.
     when_do fin (finish_test env l started finished))"

section \<open>The loop\<close>

definition expected_indent :: "status_line \<Rightarrow> parser_state \<Rightarrow> int" where
  "expected_indent l s = int (stack_size (ps_stack s)) - (if ln_type l = LEnd then 1 else 0)"

definition handle_line :: "parser_env \<Rightarrow> string \<Rightarrow> status_line \<Rightarrow> unit parsing" where
  "handle_line env raw l =
     bnd (gets (expected_indent l)) (\<lambda>expected.
     bnd (gets ps_stack) (\<lambda>stack.
     bnd (gets ps_subdirs) (\<lambda>subdirs.
     if int (ln_indent l) < expected then
       (case subdirs of
          [] \<Rightarrow> throw IndexError
        | d # _ \<Rightarrow> put_back_line_and_abort raw (stack_size stack - 1) d (map_of (ln_fields l) ''timestamp'') (ln_reason l))
     else if int (ln_indent l) > expected then ret ()
     else case ln_type l of
         LStart \<Rightarrow> on_start env l
       | LInfo \<Rightarrow> on_info env l
       | LStatus \<Rightarrow>
           andthen (on_status l) (
           bnd (lift_sum (field_timestamp (ln_fields l) ''timestamp'')) (\<lambda>finished.
           if ln_testname l = None \<and> ln_subdir l = None then ret () else maybe_finish env l None finished))
       | LEnd \<Rightarrow> bnd (on_end env l) (\<lambda>(l', started, finished). maybe_finish env l' started finished))))"

definition next_line :: "parser_env \<Rightarrow> unit parsing" where
  "next_line env =
     bnd (gets (\<lambda>s. buffer_get (ps_buffer s))) (\<lambda>r.
     bnd (lift_sum r) (\<lambda>(l, rest).
     let raw = clean_raw_line DEFAULT_BLACKLIST l in
     andthen (modify (\<lambda>s. s\<lparr>ps_buffer := rest\<rparr>)) (
     bnd (lift_sum (parse_line raw)) (\<lambda>parsed.
     andthen (modify (\<lambda>s. s\<lparr>ps_line := parsed\<rparr>)) (
     case parsed of None \<Rightarrow> ret () | Some l' \<Rightarrow> handle_line env raw l')))))"

text \<open>One turn of the loop ends with \<open>continue\<close>, the \<open>yield\<close> in the loop or \<open>break\<close>.\<close>

datatype turn = Continue | Yield | Break

definition loop_turn :: "parser_env \<Rightarrow> turn parsing" where
  "loop_turn env =
     bnd (gets (\<lambda>s. ps_buffer s = [] \<and> ps_finished s)) (\<lambda>at_end.
     bnd (gets (\<lambda>s. stack_size (ps_stack s))) (\<lambda>size.
     if at_end \<and> size = 0 then ret Break
     else andthen (when_do at_end (abort_open_blocks env)) (
       bnd (gets ps_buffer) (\<lambda>b. if b = [] then ret Yield else andthen (next_line env) (ret Continue)))))"

text \<open>The loop with a bound on its turns: None when the bound is reached.\<close>

fun run_loop :: "parser_env \<Rightarrow> nat \<Rightarrow> turn option parsing" where
  "run_loop env 0 = ret None"
| "run_loop env (Suc n) = bnd (loop_turn env) (\<lambda>t. if t = Continue then run_loop env n else ret (Some t))"

definition final_job :: "parser_env \<Rightarrow> unit parsing" where
  "final_job env =
     bnd (gets ps_running_job) (\<lambda>i.
     bnd (gets (\<lambda>s. tt_reason (ps_tests s ! i))) (\<lambda>reason.
     bnd (parse_test env (Some ''----'') (Some ''SERVER_JOB'') (pe_exit_status env) reason
       (tj_started_time (pe_job env)) (tj_finished_time (pe_job env)) (Some i)) report))"

text \<open>Enough turns for any buffer and stack, see \<open>run_loop_ends\<close>.\<close>

definition turns :: "parser_state \<Rightarrow> nat" where
  "turns s = 12 * length (ps_buffer s) + 8 * length (ps_stack s) + 20"

definition run_to_yield :: "parser_env \<Rightarrow> nat list parsing" where
  "run_to_yield env =
     bnd (gets turns) (\<lambda>n.
     bnd (run_loop env n) (\<lambda>t. case t of
       Some Break \<Rightarrow> andthen (final_job env) (andthen (modify (\<lambda>s. s\<lparr>ps_phase := Reported\<rparr>)) (gets ps_new_tests))
     | _ \<Rightarrow> andthen (modify (\<lambda>s. s\<lparr>ps_phase := Waiting\<rparr>)) (gets ps_new_tests)))"

definition start_job :: "parser_env \<Rightarrow> unit parsing" where
  "start_job env =
     bnd (start_test env (Some ''----'') (Some ''SERVER_JOB'') (Some []) (tj_started_time (pe_job env))) (\<lambda>i.
     modify (\<lambda>s. s\<lparr>ps_running_job := i\<rparr>))"

text \<open>\<open>next()\<close>: None is StopIteration; an exception ends the generator.\<close>

definition resume :: "parser_env \<Rightarrow> nat list option parsing" where
  "resume env =
     catch (bnd (gets ps_phase) (\<lambda>p. case p of
         Primed \<Rightarrow> andthen (start_job env) (bnd (run_to_yield env) (\<lambda>r. ret (Some r)))
       | Waiting \<Rightarrow> andthen (modify (\<lambda>s. s\<lparr>ps_new_tests := []\<rparr>)) (bnd (run_to_yield env) (\<lambda>r. ret (Some r)))
       | _ \<Rightarrow> andthen (modify (\<lambda>s. s\<lparr>ps_phase := Over\<rparr>)) (ret None)))
     (\<lambda>e. andthen (modify (\<lambda>s. s\<lparr>ps_phase := Over\<rparr>)) (throw e))"

definition results :: "nat list option \<Rightarrow> nat list" where
  "results r = (case r of None \<Rightarrow> [] | Some is \<Rightarrow> is)"

definition process_lines :: "parser_env \<Rightarrow> string list \<Rightarrow> nat list parsing" where
  "process_lines env ls =
     andthen (modify (\<lambda>s. s\<lparr>ps_buffer := buffer_put_multiple ls (ps_buffer s)\<rparr>)) (
     bnd (resume env) (\<lambda>r. ret (results r)))"

definition parser_end :: "parser_env \<Rightarrow> string list \<Rightarrow> nat list parsing" where
  "parser_end env ls =
     andthen (modify (\<lambda>s. s\<lparr>ps_buffer := buffer_put_multiple ls (ps_buffer s), ps_finished := True\<rparr>)) (
     bnd (resume env) (\<lambda>r. ret (results r)))"

end
