(* ===== verification/Parser_Loop.thy ===== *)
theory Parser_Loop
  imports Tko_Parser
begin

text \<open>
  The loop of the result parser ends: every turn takes a line away, or closes a block, or prepares the end
  of one. The lemmas first say which lines parse, then what each step does to the stacks, then count turns.
\<close>

section \<open>Lines that parse\<close>

lemma rstrip_char_keep: "d \<noteq> c \<Longrightarrow> rstrip_char c (x @ d # r) = x @ d # rstrip_char c r"
  by (induction r rule: rev_induct) (auto simp: rstrip_char_def)

lemma parse_line_eq:
  assumes p: "plain_part a" "plain_part b" "plain_part c"
  shows "parse_line (replicate n tab @ a @ tab # b @ tab # c @ tab # r) =
    (let (optional_fields, rest) = optional_fields_loop (split_on tab (rstrip_char newline r)) []
     in sbind (new_status_line n a b c (str_join [tab] rest) optional_fields) (\<lambda>s. Inr (Some s)))"
proof -
  let ?t = "a @ tab # b @ tab # c @ tab # r"
  have a: "\<exists>x xs. a = x # xs \<and> x \<noteq> tab" using p(1) by (cases a) (auto simp: plain_part_def)
  then have d: "dropWhile (\<lambda>c. c = tab) (replicate n tab @ ?t) = ?t"
      "takeWhile (\<lambda>c. c = tab) (replicate n tab @ ?t) = replicate n tab"
    by (induction n) auto
  have s: "is_status_line (replicate n tab @ ?t)"
    using p unfolding is_status_line_def d(1) by (simp add: tabbed_field plain_part_def numeral_3_eq_3)
  have r: "rstrip_char newline ?t = a @ tab # b @ tab # c @ tab # rstrip_char newline r"
    using rstrip_char_keep [of tab newline "a @ tab # b @ tab # c" r] by simp
  have "split_on tab (rstrip_char newline ?t) = a # b # c # split_on tab (rstrip_char newline r)"
    unfolding r using p by (simp add: split_on_cons plain_part_def)
  with s d show ?thesis by (simp add: parse_line_def Let_def)
qed

lemma tabbed_fields_split:
  "tabbed_fields (Suc n) s \<Longrightarrow> \<exists>p rest. s = p @ tab # rest \<and> plain_part p \<and> tabbed_fields n rest"
proof -
  assume t: "tabbed_fields (Suc n) s"
  then obtain c cs d rest where s: "s = c # cs" "\<not> is_space c" and dw: "dropWhile (\<lambda>d. d \<noteq> tab) s = d # rest"
    and rest: "tabbed_fields n rest"
    by (cases s) (auto split: list.splits)
  have "d = tab" using hd_dropWhile [of "\<lambda>d. d \<noteq> tab" s] dw by auto
  let ?p = "takeWhile (\<lambda>d. d \<noteq> tab) s"
  have "s = ?p @ tab # rest" using takeWhile_dropWhile_id [of "\<lambda>d. d \<noteq> tab" s] dw \<open>d = tab\<close> by simp
  moreover have "c \<noteq> tab" using s(2) by (auto simp: is_space_def)
  then have "plain_part ?p" using s set_takeWhileD by (fastforce simp: plain_part_def)
  ultimately show ?thesis using rest by blast
qed

lemma parse_line_plain:
  assumes "parse_line l = Inr (Some x)"
  shows "case ln_subdir x of None \<Rightarrow> True | Some p \<Rightarrow> plain_part p"
proof -
  from assms have "is_status_line l" by (auto simp: parse_line_def split: if_splits)
  then have "tabbed_fields (Suc (Suc (Suc 0))) (dropWhile (\<lambda>c. c = tab) l)"
    by (simp add: is_status_line_def numeral_3_eq_3)
  then obtain a r1 where a: "dropWhile (\<lambda>c. c = tab) l = a @ tab # r1" "plain_part a" "tabbed_fields (Suc (Suc 0)) r1"
    using tabbed_fields_split by blast
  then obtain b r2 where b: "r1 = b @ tab # r2" "plain_part b" "tabbed_fields (Suc 0) r2"
    using tabbed_fields_split by blast
  then obtain c r where c: "r2 = c @ tab # r" "plain_part c" using tabbed_fields_split by blast
  note parts = a(2) b(2) c(2)
  have rest: "dropWhile (\<lambda>c. c = tab) l = a @ tab # b @ tab # c @ tab # r" using a b c by simp
  have "l = takeWhile (\<lambda>c. c = tab) l @ a @ tab # b @ tab # c @ tab # r"
    using takeWhile_dropWhile_id [of "\<lambda>c. c = tab" l] rest by simp
  moreover have "takeWhile (\<lambda>c. c = tab) l = replicate (length (takeWhile (\<lambda>c. c = tab) l)) tab"
    by (rule replicate_length_same [symmetric]) (auto dest: set_takeWhileD)
  ultimately have "parse_line (replicate (length (takeWhile (\<lambda>c. c = tab) l)) tab @ a @ tab # b @ tab # c @ tab # r) = Inr (Some x)"
    using assms by metis
  then show ?thesis unfolding parse_line_eq [OF parts]
    using parts(2)
    by (auto simp: sbind_Inr new_status_line_def status_line_v0_def parsed_name_def Let_def split: prod.splits if_splits option.splits)
qed

text \<open>The removal of the blacklisted sequence works field by field.\<close>

abbreviation cleaned :: "string \<Rightarrow> string" where "cleaned \<equiv> clean_raw_line DEFAULT_BLACKLIST"

lemma cleaned_Cons:
  "cleaned (c # cs) = (if c = CHR 0x0D \<and> cs \<noteq> [] \<and> hd cs = CHR 0x00 then cleaned (tl cs) else c # cleaned cs)"
  by (cases cs) (auto simp: DEFAULT_BLACKLIST_def drop_Suc)

lemma cleaned_tab: "cleaned (s @ tab # t) = cleaned s @ tab # cleaned t"
proof (induction s rule: length_induct)
  case (1 s)
  show ?case
  proof (cases s)
    case Nil
    then show ?thesis by (simp add: cleaned_Cons del: clean_raw_line.simps(2))
  next
    case (Cons c cs)
    show ?thesis
    proof (cases "c = CHR 0x0D \<and> cs \<noteq> [] \<and> hd cs = CHR 0x00")
      case True
      then obtain ds where "cs = CHR 0x00 # ds" by (cases cs) auto
      with True Cons 1 show ?thesis by (simp add: cleaned_Cons del: clean_raw_line.simps(2))
    next
      case False
      moreover from this have "\<not> (c = CHR 0x0D \<and> cs @ tab # t \<noteq> [] \<and> hd (cs @ tab # t) = CHR 0x00)"
        by (cases cs) auto
      ultimately have "cleaned (c # cs @ tab # t) = c # cleaned (cs @ tab # t)" "cleaned (c # cs) = c # cleaned cs"
        by (simp_all only: cleaned_Cons if_False)
      moreover have "cleaned (cs @ tab # t) = cleaned cs @ tab # cleaned t" using 1 Cons by simp
      ultimately show ?thesis using Cons by (simp del: clean_raw_line.simps(2))
    qed
  qed
qed

lemma set_cleaned: "set (cleaned s) \<subseteq> set s"
proof (induction s rule: length_induct)
  case (1 s)
  show ?case
  proof (cases s)
    case (Cons c cs)
    have "set (cleaned cs) \<subseteq> set cs" using 1 Cons by simp
    moreover have "set (cleaned (tl cs)) \<subseteq> set cs"
    proof -
      have "length (tl cs) < length s" using Cons by simp
      then have "set (cleaned (tl cs)) \<subseteq> set (tl cs)" using 1 by blast
      then show ?thesis using list.set_sel(2) by (cases cs) auto
    qed
    ultimately show ?thesis using Cons by (auto simp: cleaned_Cons simp del: clean_raw_line.simps(2))
  qed simp
qed

lemma plain_part_cleaned: "plain_part p \<Longrightarrow> plain_part (cleaned p)"
proof -
  assume p: "plain_part p"
  then obtain c cs where "p = c # cs" "\<not> is_space c" by (cases p) (auto simp: plain_part_def)
  moreover from this have "c \<noteq> CHR 0x0D" by (auto simp: is_space_def)
  ultimately have "cleaned p = c # cleaned cs" by (simp add: cleaned_Cons del: clean_raw_line.simps(2))
  then show ?thesis using \<open>\<not> is_space c\<close> set_cleaned [of p] p by (auto simp: plain_part_def simp del: clean_raw_line.simps(2))
qed

lemma cleaned_no_cr: "CHR 0x0D \<notin> set s \<Longrightarrow> cleaned s = s"
  by (induction s) (auto simp: cleaned_Cons simp del: clean_raw_line.simps(2))

lemma plain_rendered: "(case d of None \<Rightarrow> True | Some p \<Rightarrow> plain_part p) \<Longrightarrow> plain_part (rendered_name d)"
  by (auto simp: rendered_name_def plain_part_def is_space_def split: option.splits)

text \<open>The line made for an implicit abort is an END line at its depth, whatever the reason.\<close>

lemma abort_line_parses:
  assumes "case d of None \<Rightarrow> True | Some p \<Rightarrow> plain_part p"
  shows "\<exists>x. parse_line (cleaned (make_dummy_abort i d d ts r)) = Inr (Some x) \<and> ln_type x = LEnd \<and>
    ln_indent x = i \<and> ln_status x = Some ''ABORT''"
proof -
  obtain rest where rest: "make_dummy_abort i d d ts r =
      replicate i tab @ ''END ABORT'' @ tab # rendered_name d @ tab # rendered_name d @ tab # rest"
    unfolding make_dummy_abort_def by (cases "case ts of Some (c # cs) \<Rightarrow> [tab] @ ''timestamp='' @ c # cs | _ \<Rightarrow> []")
      (auto split: option.splits list.splits)
  have "cleaned (replicate i tab @ s) = replicate i tab @ cleaned s" for s
    by (induction i) (simp_all add: cleaned_Cons del: clean_raw_line.simps(2))
  then have eq: "cleaned (make_dummy_abort i d d ts r) =
      replicate i tab @ ''END ABORT'' @ tab # cleaned (rendered_name d) @ tab # cleaned (rendered_name d) @ tab # cleaned rest"
    unfolding rest using cleaned_tab [of "''END ABORT''"] cleaned_no_cr [of "''END ABORT''"]
    by (simp add: cleaned_tab del: clean_raw_line.simps(2))
  have "plain_part ''END ABORT''" by (simp add: plain_part_def is_space_def)
  moreover have "plain_part (cleaned (rendered_name d))" using plain_part_cleaned [OF plain_rendered [OF assms]] .
  ultimately show ?thesis unfolding eq
    by (subst parse_line_eq) (simp_all add: new_status_line_def status_line_v0_def job_statuses_def split: prod.splits)
qed

section \<open>What the steps do to the stacks\<close>

text \<open>A name on the stack of directories is missing or can stand in a status line.\<close>

definition plain_dir :: "string option \<Rightarrow> bool" where
  "plain_dir d \<longleftrightarrow> (case d of None \<Rightarrow> True | Some p \<Rightarrow> plain_part p)"

definition depth :: "parser_state \<Rightarrow> nat" where
  "depth s = length (ps_stack s)"

text \<open>The parts of the state that decide how the loop goes on, apart from the current line.\<close>

definition parser_shape :: "parser_state \<Rightarrow> bool \<times> string list \<times> nat \<times> nat \<times> nat" where
  "parser_shape s = (ps_finished s, ps_buffer s, depth s, length (ps_subdirs s), length (ps_started s))"

definition shaped :: "bool \<times> string list \<times> nat \<times> nat \<times> nat \<Rightarrow> parser_state \<Rightarrow> bool" where
  "shaped sh s \<longleftrightarrow> parser_shape s = sh \<and> ps_stack s \<noteq> [] \<and> ps_subdirs s \<noteq> [] \<and>
     list_all plain_dir (ps_subdirs s) \<and> ps_running_job s < length (ps_tests s)"

named_theorems shaped_ops \<open>steps that keep the shape\<close>

lemmas shaped_defs = shaped_def parser_shape_def depth_def

lemma stack_update_length: "st \<noteq> [] \<Longrightarrow> length (stack_update x st) = length st \<and> stack_update x st \<noteq> []"
  by (cases st) (auto simp: stack_update_def)

lemma shaped_add_test [shaped_ops]: "keeps (shaped sh) (add_test t)"
  unfolding add_test_def by (intro keeps_intro) (simp add: shaped_defs)

lemma shaped_report [shaped_ops]: "keeps (shaped sh) (report i)"
  unfolding report_def by (intro keeps_intro) (simp add: shaped_defs)

lemma shaped_set_reason [shaped_ops]: "keeps (shaped sh) (set_reason i r)"
  unfolding set_reason_def by (intro keeps_intro) (simp add: shaped_defs)

lemma shaped_start_test [shaped_ops]: "keeps (shaped sh) (start_test env d n r t)"
  unfolding start_test_def by (intro keeps_intro shaped_ops)

lemma shaped_parse_test [shaped_ops]: "keeps (shaped sh) (parse_test env d n st r t u i)"
  unfolding parse_test_def by (intro keeps_intro shaped_ops) (simp add: shaped_defs)

lemma shaped_start_client [shaped_ops]: "keeps (shaped sh) (start_client env t)"
  unfolding start_client_def by (intro keeps_intro shaped_ops; simp add: shaped_defs)

lemma shaped_start_running_test [shaped_ops]: "keeps (shaped sh) (start_running_test env l t)"
  unfolding start_running_test_def by (intro keeps_intro shaped_ops; simp add: shaped_defs)

lemma shaped_on_info [shaped_ops]: "keeps (shaped sh) (on_info env l)"
  unfolding on_info_def by (intro keeps_intro shaped_ops; simp add: shaped_defs)

lemma shaped_update_reason [shaped_ops]: "keeps (shaped sh) (update_reason l)"
  unfolding update_reason_def add_running_reason_def by (intro keeps_intro shaped_ops; simp add: shaped_defs)

lemma shaped_update_stack [shaped_ops]: "keeps (shaped sh) (update_stack st)"
  unfolding update_stack_def by (intro keeps_intro) (simp add: shaped_defs stack_update_length)

lemma shaped_on_status [shaped_ops]: "plain_dir (ln_subdir l) \<Longrightarrow> keeps (shaped sh) (on_status l)"
  unfolding on_status_def
  by (intro keeps_intro shaped_ops; cases sh) (auto simp: shaped_defs neq_Nil_conv)

lemma shaped_on_reboot [shaped_ops]: "keeps (shaped sh) (on_reboot env l)"
  unfolding on_reboot_def by (intro keeps_intro shaped_ops; simp add: shaped_defs)

lemma shaped_finish_client [shaped_ops]: "keeps (shaped sh) finish_client"
  unfolding finish_client_def by (intro keeps_intro shaped_ops; simp add: shaped_defs)

lemma shaped_finish_test [shaped_ops]: "keeps (shaped sh) (finish_test env l t u)"
  unfolding finish_test_def
  by (rule shaped_ops keeps_intro | simp add: shaped_defs split: option.split)+

lemma shaped_maybe_finish [shaped_ops]: "keeps (shaped sh) (maybe_finish env l t u)"
  unfolding maybe_finish_def by (intro keeps_intro shaped_ops)

lemma shaped_run: "keeps (shaped sh) m \<Longrightarrow> m s = (r, s') \<Longrightarrow> shaped sh s \<Longrightarrow> shaped sh s'"
  using keepsD by (metis snd_conv)

lemma shaped_start:
  assumes "on_start env l s = (Inr (), s')" "shaped (f, b, n, m, k) s" "plain_dir (ln_subdir l)"
  shows "shaped (f, b, Suc n, Suc m, Suc k) s'"
proof -
  from assms(1) obtain t job_line test_line s1 where run: "(if job_line then start_client env t
          else when_do test_line (start_running_test env l t)) (s\<lparr>ps_stack := stack_start (ps_stack s)\<rparr>) = (Inr (), s1)"
    and s': "s' = s1\<lparr>ps_started := t # ps_started s1, ps_subdirs := ln_subdir l # ps_subdirs s1\<rparr>"
    unfolding on_start_def exm_Inr by auto
  have "keeps (shaped (f, b, Suc n, m, k)) (if job_line then start_client env t
          else when_do test_line (start_running_test env l t))"
    by (intro keeps_intro shaped_ops)
  moreover have "shaped (f, b, Suc n, m, k) (s\<lparr>ps_stack := stack_start (ps_stack s)\<rparr>)"
    using assms(2) by (auto simp: shaped_defs stack_start_def)
  ultimately have "shaped (f, b, Suc n, m, k) s1" using run shaped_run by blast
  then show ?thesis using assms(3) by (auto simp: s' shaped_defs)
qed

lemma shaped_leave_block:
  assumes "leave_block l s = (Inr l', s')" "shaped (f, b, n, Suc (Suc m), k) s"
  shows "shaped (f, b, n, Suc m, k) s' \<and> ln_type l' = ln_type l"
proof -
  from assms(2) obtain d e es where ds: "ps_subdirs s = d # e # es"
    by (cases "ps_subdirs s"; cases "tl (ps_subdirs s)") (auto simp: shaped_defs)
  show ?thesis
  proof (cases "is_job_line l s")
    case True
    with assms show ?thesis
      by (simp add: leave_block_def ds andthen_Inr) (auto simp: shaped_defs ds)
  next
    case False
    with assms show ?thesis
      by (simp add: leave_block_def ds andthen_Inr) (auto simp: shaped_defs ds)
  qed
qed

lemma shaped_close_block:
  assumes "close_block st s = (Inr (), s')" "shaped (f, b, Suc (Suc n), m, k) s"
  shows "shaped (f, b, Suc n, m, k) s'"
proof -
  obtain x y zs where st: "stack_update st (ps_stack s) = x # y # zs"
    using assms(2) stack_update_length [of "ps_stack s" st]
    by (cases "stack_update st (ps_stack s)"; cases "tl (stack_update st (ps_stack s))") (auto simp: shaped_defs)
  have len: "Suc (Suc (length zs)) = length (ps_stack s)"
    using stack_update_length [of "ps_stack s" st] assms(2) by (simp add: st shaped_defs)
  from assms show ?thesis
    using len stack_update_length [of "y # zs"]
    by (auto simp: close_block_def andthen_Inr update_stack_def st stack_end_def shaped_defs Let_def)
qed

lemma list_case_Inr:
  "(case xs of [] \<Rightarrow> throw e | y # ys \<Rightarrow> m y ys) s = (Inr r, t) \<longleftrightarrow> (\<exists>y ys. xs = y # ys \<and> m y ys s = (Inr r, t))"
  by (cases xs) auto

lemma shaped_end:
  assumes "on_end env l s = (Inr (l', t, u), s')" "shaped (f, b, Suc (Suc n), Suc (Suc m), Suc k) s"
  shows "shaped (f, b, Suc n, Suc m, k) s'"
proof -
  from assms(1) obtain l1 s1 s2 t0 rest u0 s4 where run: "leave_block l s = (Inr l1, s1)"
    "close_block (line_status l1) s1 = (Inr (), s2)" "ps_started s2 = t0 # rest"
    "on_reboot env l1 (s2\<lparr>ps_started := rest\<rparr>) = (Inr (), s4)" "s' = s4"
    unfolding on_end_def exm_Inr by (auto simp: exm_Inr list_case_Inr)
  have "shaped (f, b, Suc (Suc n), Suc m, Suc k) s1" using shaped_leave_block [OF run(1) assms(2)] by simp
  then have "shaped (f, b, Suc n, Suc m, Suc k) s2" by (rule shaped_close_block [OF run(2)])
  then have "shaped (f, b, Suc n, Suc m, k) (s2\<lparr>ps_started := rest\<rparr>)" using run(3) by (auto simp: shaped_defs)
  then show ?thesis using shaped_run [OF shaped_on_reboot run(4)] run(5) by simp
qed

section \<open>Counting turns\<close>

lemma plain_dir_line: "parse_line l = Inr (Some x) \<Longrightarrow> plain_dir (ln_subdir x)"
  using parse_line_plain by (simp add: plain_dir_def)

text \<open>The line read next ends the innermost of \<open>n\<close> open blocks.\<close>

definition closes :: "string list \<Rightarrow> nat \<Rightarrow> bool" where
  "closes b n \<longleftrightarrow> (case b of [] \<Rightarrow> False | raw # _ \<Rightarrow> (case parse_line (cleaned raw) of
       Inr (Some x) \<Rightarrow> ln_type x = LEnd \<and> Suc (ln_indent x) = n | _ \<Rightarrow> False))"

definition potential :: "string list \<Rightarrow> nat \<Rightarrow> nat" where
  "potential b n = 3 * length b + 2 * n + (if closes b n then 0 else 4)"

abbreviation parser_at :: "bool \<Rightarrow> string list \<Rightarrow> nat \<Rightarrow> parser_state \<Rightarrow> bool" where
  "parser_at f b n \<equiv> shaped (f, b, Suc n, Suc n, Suc n)"

lemma closes_abort:
  assumes "plain_dir d" and "0 < n"
  shows "closes (make_dummy_abort (n - 1) d d ts r # b) n"
proof -
  obtain x where "parse_line (cleaned (make_dummy_abort (n - 1) d d ts r)) = Inr (Some x)"
      "ln_type x = LEnd" "ln_indent x = n - 1"
    using abort_line_parses [of d "n - 1" ts r] assms(1) by (auto simp: plain_dir_def)
  with assms(2) show ?thesis by (simp add: closes_def)
qed

lemma handle_line_turn:
  assumes run: "handle_line env raw x s = (Inr (), s')" and at: "parser_at f b n s" and x: "plain_dir (ln_subdir x)"
  shows "(int (ln_indent x) < expected_indent x s \<and> 0 < n \<and>
            (\<exists>d ts r. plain_dir d \<and> parser_at f (make_dummy_abort (n - 1) d d ts r # raw # b) n s')) \<or>
         (ln_type x = LStart \<and> parser_at f b (Suc n) s') \<or>
         (ln_type x = LEnd \<and> Suc (ln_indent x) = n \<and> parser_at f b (n - 1) s') \<or>
         (\<not> (ln_type x = LEnd \<and> Suc (ln_indent x) = n) \<and> \<not> (ln_type x = LStart \<and> ln_indent x = n) \<and> parser_at f b n s')"
proof -
  have size: "stack_size (ps_stack s) = n" using at by (auto simp: shaped_defs stack_size_def)
  then have exp: "expected_indent x s = int n - (if ln_type x = LEnd then 1 else 0)" by (simp add: expected_indent_def)
  consider (low) "int (ln_indent x) < expected_indent x s" | (high) "int (ln_indent x) > expected_indent x s"
    | (eq) "int (ln_indent x) = expected_indent x s" by linarith
  then show ?thesis
  proof cases
    case low
    obtain d ds where ds: "ps_subdirs s = d # ds" using at by (cases "ps_subdirs s") (auto simp: shaped_defs)
    have "s' = s\<lparr>ps_buffer := make_dummy_abort (n - 1) d d (map_of (ln_fields x) ''timestamp'') (shown (ln_reason x)) # raw # b\<rparr>"
      using run low at by (simp add: handle_line_def ds size put_back_line_and_abort_def buffer_put_back_def shaped_defs)
    then have "parser_at f (make_dummy_abort (n - 1) d d (map_of (ln_fields x) ''timestamp'') (shown (ln_reason x)) # raw # b) n s'"
      and "plain_dir d" using at by (auto simp: shaped_defs ds)
    moreover have "0 < n" using low exp by (auto split: if_splits)
    ultimately show ?thesis using low by blast
  next
    case high
    then have "s' = s" using run by (simp add: handle_line_def)
    then show ?thesis using at high exp by auto
  next
    case eq
    show ?thesis
    proof (cases "ln_type x")
      case LStart
      then have "on_start env x s = (Inr (), s')" using run eq by (simp add: handle_line_def)
      from shaped_start [OF this at x] LStart show ?thesis by simp
    next
      case LInfo
      then have "on_info env x s = (Inr (), s')" using run eq by (simp add: handle_line_def)
      from shaped_run [OF shaped_on_info this at] LInfo show ?thesis by simp
    next
      case LStatus
      let ?m = "andthen (on_status x) (bnd (lift_sum (field_timestamp (ln_fields x) ''timestamp'')) (\<lambda>finished.
           if ln_testname x = None \<and> ln_subdir x = None then ret () else maybe_finish env x None finished))"
      have "?m s = (Inr (), s')" using run eq LStatus by (simp add: handle_line_def)
      moreover have "keeps (parser_at f b n) ?m" by (intro keeps_intro shaped_ops x)
      ultimately have "parser_at f b n s'" using shaped_run at by blast
      with LStatus show ?thesis by simp
    next
      case LEnd
      with eq exp have n: "Suc (ln_indent x) = n" by simp
      then obtain k where k: "n = Suc k" by blast
      from run eq LEnd obtain x' t u s1 where e: "on_end env x s = (Inr (x', t, u), s1)"
        and fin: "maybe_finish env x' t u s1 = (Inr (), s')"
        by (simp add: handle_line_def bnd_Inr split: prod.splits) blast
      have "parser_at f b k s1" using shaped_end [OF e, of f b k k "Suc k"] at k by simp
      then have "parser_at f b k s'" using shaped_run [OF shaped_maybe_finish fin] by blast
      with LEnd n k show ?thesis by simp
    qed
  qed
qed

lemma next_line_turn:
  assumes run: "next_line env s = (Inr (), s')" and at: "parser_at f b n s"
  shows "\<exists>b' n'. parser_at f b' n' s' \<and> potential b' n' < potential b n"
proof -
  from run obtain l rest parsed where b: "ps_buffer s = l # rest"
    and parsed: "parse_line (cleaned l) = Inr parsed"
    and step: "(case parsed of None \<Rightarrow> ret () | Some x \<Rightarrow> handle_line env (cleaned l) x)
       (s\<lparr>ps_buffer := rest, ps_line := parsed\<rparr>) = (Inr (), s')"
    by (auto simp: next_line_def exm_Inr buffer_get_def Let_def split: list.split_asm)
  let ?s = "s\<lparr>ps_buffer := rest, ps_line := parsed\<rparr>"
  have b': "b = l # rest" using at b by (simp add: shaped_defs)
  have at': "parser_at f rest n ?s" using at by (simp add: shaped_defs)
  show ?thesis
  proof (cases parsed)
    case None
    then have "\<not> closes b n" using parsed by (simp add: closes_def b')
    moreover have "s' = ?s" using step None by simp
    ultimately show ?thesis using at' by (intro exI [of _ rest] exI [of _ n]) (simp add: potential_def b')
  next
    case (Some x)
    have cl: "closes b n \<longleftrightarrow> ln_type x = LEnd \<and> Suc (ln_indent x) = n" using parsed Some by (simp add: closes_def b')
    have size: "stack_size (ps_stack ?s) = n" using at by (auto simp: shaped_defs stack_size_def)
    from handle_line_turn [of env "cleaned l" x ?s s' f rest n] step Some at' plain_dir_line [of "cleaned l" x] parsed
    consider (low) d ts r where "int (ln_indent x) < expected_indent x ?s" "0 < n" "plain_dir d"
        "parser_at f (make_dummy_abort (n - 1) d d ts r # cleaned l # rest) n s'"
      | (start) "ln_type x = LStart" "parser_at f rest (Suc n) s'"
      | (fin) "ln_type x = LEnd" "Suc (ln_indent x) = n" "parser_at f rest (n - 1) s'"
      | (same) "\<not> (ln_type x = LEnd \<and> Suc (ln_indent x) = n)" "parser_at f rest n s'"
      by auto
    then show ?thesis
    proof cases
      case low
      then have "\<not> closes b n" using cl size by (auto simp: expected_indent_def)
      then have "potential (make_dummy_abort (n - 1) d d ts r # cleaned l # rest) n < potential b n"
        using closes_abort [OF low(3,2)] by (simp add: potential_def b')
      with low(4) show ?thesis by blast
    next
      case start
      then have "potential rest (Suc n) < potential b n" using cl by (simp add: potential_def b')
      with start(2) show ?thesis by blast
    next
      case fin
      then have "potential rest (n - 1) < potential b n" using cl by (cases n) (auto simp: potential_def b')
      with fin(3) show ?thesis by blast
    next
      case same
      have "\<not> closes b n" using cl same(1) by simp
      then have "potential rest n < potential b n" by (auto simp: potential_def b')
      with same(2) show ?thesis by blast
    qed
  qed
qed

text \<open>The aborts queued at the end of the log close one block each.\<close>

fun all_close :: "string list \<Rightarrow> nat \<Rightarrow> bool" where
  "all_close [] n = (n = 0)"
| "all_close (l # b) n = (closes [l] n \<and> all_close b (n - 1))"

lemma next_line_closes:
  assumes run: "next_line env s = (Inr (), s')" and at: "parser_at f (l # b) n s" and cl: "closes [l] n"
  shows "parser_at f b (n - 1) s'"
proof -
  from cl obtain x where x: "parse_line (cleaned l) = Inr (Some x)" "ln_type x = LEnd" "Suc (ln_indent x) = n"
    by (auto simp: closes_def split: sum.splits option.splits)
  let ?s = "s\<lparr>ps_buffer := b, ps_line := Some x\<rparr>"
  from run at x have "handle_line env (cleaned l) x ?s = (Inr (), s')"
    by (auto simp: next_line_def exm_Inr buffer_get_def Let_def shaped_defs)
  moreover have "parser_at f b n ?s" using at by (simp add: shaped_defs)
  moreover have "expected_indent x ?s = int n - 1"
    using at x(2) by (auto simp: expected_indent_def shaped_defs stack_size_def)
  ultimately show ?thesis
    using handle_line_turn [of env "cleaned l" x ?s s' f b n] plain_dir_line [OF x(1)] x(2,3) by auto
qed

lemma loop_turn_line:
  assumes "loop_turn env s = (Inr t, s')" "parser_at f b n s" "b \<noteq> []"
  shows "t = Continue \<and> next_line env s = (Inr (), s')"
  using assms by (auto simp: loop_turn_def exm_Inr shaped_defs)

lemma run_loop_closes:
  assumes "parser_at f b n s" "all_close b n" "length b < k"
  shows "\<exists>r s'. run_loop env k s = (r, s') \<and>
    ((\<exists>e. r = Inl e) \<or> (\<not> f \<and> r = Inr (Some Yield) \<and> (\<exists>m. parser_at f [] m s')) \<or>
     (f \<and> r = Inr (Some Break) \<and> parser_at f [] 0 s'))"
  using assms
proof (induction b arbitrary: n s k)
  case Nil
  then have "stack_size (ps_stack s) = 0" "ps_buffer s = []" "ps_finished s = f"
    by (auto simp: shaped_defs stack_size_def)
  with Nil show ?case
    by (cases k) (auto simp: loop_turn_def bnd_def andthen_def gets_def ret_def)
next
  case (Cons l b)
  obtain k' where k: "k = Suc k'" using Cons.prems(3) by (cases k) auto
  show ?case
  proof (cases "loop_turn env s")
    case (Pair r s1)
    show ?thesis
    proof (cases r)
      case (Inl e)
      with Pair show ?thesis by (simp add: k bnd_run_err)
    next
      case (Inr t)
      with Pair loop_turn_line [of env s t s1] Cons.prems(1) have t: "t = Continue" "next_line env s = (Inr (), s1)" by auto
      have "parser_at f b (n - 1) s1" using next_line_closes [OF t(2) Cons.prems(1)] Cons.prems(2) by simp
      with Cons.IH [of "n - 1" s1 k'] Cons.prems(2,3) show ?thesis using Pair Inr t(1) by (simp add: k bnd_run)
    qed
  qed
qed

lemma abort_lines_close:
  "list_all plain_dir ds \<Longrightarrow> all_close (abort_lines n ds ts r) n \<and> length (abort_lines n ds ts r) = n"
proof (induction n arbitrary: ds)
  case (Suc n)
  let ?d = "case ds of [] \<Rightarrow> None | d # _ \<Rightarrow> d"
  have "plain_dir ?d" using Suc.prems by (cases ds) (auto simp: plain_dir_def)
  then have "closes [make_dummy_abort n ?d ?d ts r] (Suc n)" using closes_abort [of ?d "Suc n" ts r "[]"] by simp
  with Suc.IH [of "tl ds"] Suc.prems show ?case by (cases ds) (simp_all add: Let_def)
qed simp

lemma abort_open_blocks_run:
  assumes "abort_open_blocks env s = (Inr (), s')" "parser_at f [] n s"
  shows "\<exists>b. parser_at f b n s' \<and> all_close b n \<and> length b = n"
proof -
  have "\<exists>(l :: status_line) r. s' = s\<lparr>ps_buffer := buffer_put_multiple
       (abort_lines (stack_size (ps_stack s)) (ps_subdirs s) (map_of (ln_fields l) ''timestamp'') r) (ps_buffer s)\<rparr>"
    using assms(1) unfolding abort_open_blocks_def by (auto simp: exm_Inr)
  then obtain l :: status_line and r where "s' = s\<lparr>ps_buffer := buffer_put_multiple
       (abort_lines (stack_size (ps_stack s)) (ps_subdirs s) (map_of (ln_fields l) ''timestamp'') r) (ps_buffer s)\<rparr>"
    by blast
  moreover have "ps_buffer s = []" "stack_size (ps_stack s) = n" "list_all plain_dir (ps_subdirs s)"
    using assms(2) by (auto simp: shaped_defs stack_size_def)
  ultimately show ?thesis
    using abort_lines_close [of "ps_subdirs s" n "map_of (ln_fields l) ''timestamp''" r] assms(2)
    by (intro exI [of _ "abort_lines n (ps_subdirs s) (map_of (ln_fields l) ''timestamp'') r"])
      (auto simp: buffer_put_multiple_def shaped_defs)
qed

text \<open>The loop stops before its bound: with an exception, at the \<open>yield\<close> or at the end of the log.\<close>

lemma run_loop_ends:
  assumes "parser_at f b n s" "2 * potential b n < k"
  shows "\<exists>r s'. run_loop env k s = (r, s') \<and>
    ((\<exists>e. r = Inl e) \<or> (\<not> f \<and> r = Inr (Some Yield) \<and> (\<exists>m. parser_at f [] m s')) \<or>
     (f \<and> r = Inr (Some Break) \<and> parser_at f [] 0 s'))"
  using assms
proof (induction "potential b n" arbitrary: b n s k rule: less_induct)
  case less
  obtain k' where k: "k = Suc k'" using less.prems(2) by (cases k) auto
  have st: "ps_buffer s = b" "ps_finished s = f" "stack_size (ps_stack s) = n"
    using less.prems(1) by (auto simp: shaped_defs stack_size_def)
  obtain r s1 where turn: "loop_turn env s = (r, s1)" by (cases "loop_turn env s")
  show ?case
  proof (cases r)
    case (Inl e)
    with turn show ?thesis by (simp add: k bnd_run_err)
  next
    case (Inr t)
    consider (line) "b \<noteq> []" | (wait) "b = []" "\<not> f" | (stop) "b = []" "f" "n = 0" | (abort) "b = []" "f" "n \<noteq> 0" by blast
    then show ?thesis
    proof cases
      case line
      with loop_turn_line [of env s t s1] turn Inr less.prems(1) have t: "t = Continue" "next_line env s = (Inr (), s1)" by auto
      from next_line_turn [OF t(2) less.prems(1)] obtain b' n' where
        next': "parser_at f b' n' s1" "potential b' n' < potential b n" by blast
      with less.hyps [OF next'(2,1), of k'] less.prems(2) show ?thesis using turn Inr t(1) by (simp add: k bnd_run)
    next
      case wait
      with turn Inr st have "t = Yield" "s1 = s" by (auto simp: loop_turn_def exm_Inr)
      with wait turn Inr less.prems(1) show ?thesis by (auto simp: k bnd_run ret_def)
    next
      case stop
      with turn Inr st have "t = Break" "s1 = s" by (auto simp: loop_turn_def exm_Inr)
      with stop turn Inr less.prems(1) show ?thesis by (auto simp: k bnd_run ret_def)
    next
      case abort
      from turn Inr st abort obtain s2 where ab: "abort_open_blocks env s = (Inr (), s2)"
        and go: "(if ps_buffer s2 = [] then ret Yield else andthen (next_line env) (ret Continue)) s2 = (Inr t, s1)"
        by (auto simp: loop_turn_def exm_Inr)
      from abort_open_blocks_run [OF ab] less.prems(1) abort obtain b' where
        b': "parser_at f b' n s2" "all_close b' n" "length b' = n" by auto
      then obtain l c where c: "b' = l # c" using abort(3) by (cases b') auto
      have "ps_buffer s2 = l # c" using b'(1) by (simp add: shaped_defs c)
      with go have nl: "next_line env s2 = (Inr (), s1)" "t = Continue" by (auto simp: exm_Inr)
      have "parser_at f c (n - 1) s1" using next_line_closes [OF nl(1), of f l c n] b' by (simp add: c)
      moreover have "length c < k'" using less.prems(2) b'(3) by (simp add: potential_def k c abort)
      ultimately show ?thesis
        using run_loop_closes [of f c "n - 1" s1 k' env] b'(2) turn Inr nl(2) by (simp add: k c bnd_run)
    qed
  qed
qed

end
