(* ===== verification/Parser_Calls.thy ===== *)
theory Parser_Calls
  imports Parser_Loop
begin

text \<open>
  What a user of the parser of status logs sees: every call of \<open>process_lines\<close> and \<open>end\<close> ends,
  the depth of the parser follows the blocks of the log, and the end of the log reports the job.
\<close>

section \<open>The calls of the parser's user\<close>

text \<open>Where the generator stands after a call, when it was at one of its first two \<open>yield\<close>s before.\<close>

lemma turns_enough: "parser_at f b n s \<Longrightarrow> 2 * potential b n < turns s"
  by (auto simp: shaped_defs potential_def turns_def)

lemma finished_test_fields:
  "finished_test fs j h d n st r k t u = Inr x \<Longrightarrow> tt_testname x = n \<and> tt_status x = st \<and> tt_reason x = r"
  by (auto simp: finished_test_def sbind_Inr split: prod.splits)

lemma final_job_run:
  assumes "final_job env s = (r, s')" "parser_at f b n s"
  shows "parser_at f b n s' \<and> ((\<exists>e. r = Inl e) \<or> (r = Inr () \<and>
    ps_new_tests s' = ps_new_tests s @ [ps_running_job s'] \<and>
    tt_testname (ps_tests s' ! ps_running_job s') = Some ''SERVER_JOB'' \<and>
    tt_status (ps_tests s' ! ps_running_job s') = pe_exit_status env))"
proof -
  have "keeps (parser_at f b n) (final_job env)" unfolding final_job_def by (intro keeps_intro shaped_ops)
  then have "parser_at f b n s'" using assms shaped_run by blast
  moreover have "ps_new_tests s' = ps_new_tests s @ [ps_running_job s'] \<and>
    tt_testname (ps_tests s' ! ps_running_job s') = Some ''SERVER_JOB'' \<and>
    tt_status (ps_tests s' ! ps_running_job s') = pe_exit_status env" if "r = Inr ()"
    using assms that finished_test_fields
    by (auto simp: final_job_def parse_test_def report_def exm_Inr shaped_defs)
  ultimately show ?thesis by (cases r) auto
qed

definition yielded :: "parser_env \<Rightarrow> bool \<Rightarrow> nat list \<Rightarrow> parser_state \<Rightarrow> bool" where
  "yielded env f is s \<longleftrightarrow>
     (if f then ps_phase s = Reported \<and> parser_at True [] 0 s \<and> is \<noteq> [] \<and> last is = ps_running_job s \<and>
        tt_testname (ps_tests s ! last is) = Some ''SERVER_JOB'' \<and> tt_status (ps_tests s ! last is) = pe_exit_status env
      else ps_phase s = Waiting \<and> (\<exists>m. parser_at False [] m s))"

lemma run_to_yield_ends:
  assumes "parser_at f b n s" "run_to_yield env s = (r, s')"
  shows "(\<exists>e. r = Inl e) \<or> (\<exists>is. r = Inr is \<and> yielded env f is s')"
proof -
  obtain q s1 where run: "run_loop env (turns s) s = (q, s1)" and
    q: "(\<exists>e. q = Inl e) \<or> (\<not> f \<and> q = Inr (Some Yield) \<and> (\<exists>m. parser_at f [] m s1)) \<or>
     (f \<and> q = Inr (Some Break) \<and> parser_at f [] 0 s1)"
    using run_loop_ends [OF assms(1) turns_enough [OF assms(1)], of env] by blast
  from q consider (err) e where "q = Inl e" | (yield) m where "\<not> f" "q = Inr (Some Yield)" "parser_at f [] m s1"
    | (break) "f" "q = Inr (Some Break)" "parser_at f [] 0 s1" by blast
  then show ?thesis
  proof cases
    case err
    with run assms(2) show ?thesis by (auto simp: run_to_yield_def bnd_run_err)
  next
    case yield
    then have "r = Inr (ps_new_tests s1)" "s' = s1\<lparr>ps_phase := Waiting\<rparr>"
      using run assms(2) by (auto simp: run_to_yield_def bnd_run gets_def)
    moreover have "parser_at False [] m s'" using yield calculation by (simp add: shaped_defs)
    ultimately show ?thesis using yield(1) by (auto simp: yielded_def)
  next
    case break
    obtain r2 s2 where fin: "final_job env s1 = (r2, s2)" by (cases "final_job env s1")
    note job = final_job_run [OF fin break(3)]
    show ?thesis
    proof (cases r2)
      case (Inl e)
      with run assms(2) break fin show ?thesis by (auto simp: run_to_yield_def bnd_run andthen_run_err)
    next
      case (Inr u)
      then have "r = Inr (ps_new_tests s2)" "s' = s2\<lparr>ps_phase := Reported\<rparr>"
        using run assms(2) break fin by (auto simp: run_to_yield_def bnd_run andthen_run gets_def)
      moreover have "parser_at True [] 0 s'" using job break(1) calculation by (simp add: shaped_defs)
      ultimately show ?thesis using job Inr break(1) by (auto simp: yielded_def)
    qed
  qed
qed

text \<open>The first call creates the test of the server job.\<close>

lemma start_job_run:
  "\<exists>s'. start_job env (initial_state\<lparr>ps_buffer := b, ps_finished := f\<rparr>) = (Inr (), s') \<and> parser_at f b 0 s'"
  by (simp add: start_job_def start_test_def add_test_def report_def bnd_def andthen_def gets_def modify_def ret_def
      initial_state_def shaped_defs stack_init_def plain_dir_def)

definition ready :: "parser_state \<Rightarrow> bool" where
  "ready s \<longleftrightarrow> (ps_phase s = Primed \<longrightarrow> s = initial_state) \<and>
     (ps_phase s = Waiting \<longrightarrow> (\<exists>m. parser_at False [] m s))"

text \<open>\<open>next()\<close> after lines were put into the buffer.\<close>

lemma resume_ends:
  assumes "ready s" "ps_phase s = Primed \<or> ps_phase s = Waiting"
    and run: "resume env (s\<lparr>ps_buffer := ls, ps_finished := f\<rparr>) = (r, s')"
  shows "(\<exists>e. r = Inl e \<and> ps_phase s' = Over) \<or> (\<exists>is. r = Inr (Some is) \<and> yielded env f is s')"
proof -
  let ?s = "s\<lparr>ps_buffer := ls, ps_finished := f\<rparr>"
  have "\<exists>s1 n. parser_at f ls n s1 \<and> (case ps_phase ?s of
         Primed \<Rightarrow> andthen (start_job env) (bnd (run_to_yield env) (\<lambda>r. ret (Some r)))
       | Waiting \<Rightarrow> andthen (modify (\<lambda>s. s\<lparr>ps_new_tests := []\<rparr>)) (bnd (run_to_yield env) (\<lambda>r. ret (Some r)))
       | _ \<Rightarrow> andthen (modify (\<lambda>s. s\<lparr>ps_phase := Over\<rparr>)) (ret None)) ?s = bnd (run_to_yield env) (\<lambda>r. ret (Some r)) s1"
  proof (cases "ps_phase s = Primed")
    case True
    then obtain s1 where "start_job env ?s = (Inr (), s1)" "parser_at f ls 0 s1"
      using assms(1) start_job_run [of env f ls] by (auto simp: ready_def)
    then show ?thesis using True by (auto simp: andthen_run)
  next
    case False
    then obtain m where "parser_at False [] m s" and w: "ps_phase s = Waiting" using assms by (auto simp: ready_def)
    then have "parser_at f ls m (?s\<lparr>ps_new_tests := []\<rparr>)" by (simp add: shaped_defs)
    then show ?thesis using w by auto
  qed
  then obtain s1 n where at: "parser_at f ls n s1" and eq: "resume env ?s =
      catch (bnd (run_to_yield env) (\<lambda>r. ret (Some r))) (\<lambda>e. andthen (modify (\<lambda>s. s\<lparr>ps_phase := Over\<rparr>)) (throw e)) s1"
    by (auto simp: resume_def catch_def)
  obtain q s2 where q: "run_to_yield env s1 = (q, s2)" by (cases "run_to_yield env s1")
  from run_to_yield_ends [OF at q] run q show ?thesis
    unfolding eq by (auto simp: catch_def bnd_def ret_def throw_def)
qed

lemma process_lines_ends:
  assumes "ready s" "ps_phase s = Primed \<or> ps_phase s = Waiting" "process_lines env ls s = (r, s')"
  shows "(\<exists>e. r = Inl e \<and> ps_phase s' = Over) \<or> (\<exists>is. r = Inr is \<and> yielded env False is s')"
proof -
  have "\<not> ps_finished s" using assms(1,2) by (auto simp: ready_def initial_state_def shaped_defs)
  then have s: "s\<lparr>ps_buffer := b\<rparr> = s\<lparr>ps_buffer := b, ps_finished := False\<rparr>" for b by simp
  obtain q s1 where q: "resume env (s\<lparr>ps_buffer := buffer_put_multiple ls (ps_buffer s), ps_finished := False\<rparr>) = (q, s1)"
    by (cases "resume env (s\<lparr>ps_buffer := buffer_put_multiple ls (ps_buffer s), ps_finished := False\<rparr>)")
  have "process_lines env ls s = bnd (resume env) (\<lambda>r. ret (results r))
      (s\<lparr>ps_buffer := buffer_put_multiple ls (ps_buffer s), ps_finished := False\<rparr>)"
    unfolding process_lines_def modify_andthen by (subst s) (rule refl)
  with resume_ends [OF assms(1,2) q] assms(3) q show ?thesis by (auto simp: bnd_def ret_def results_def)
qed

lemma parser_end_ends:
  assumes "ready s" "ps_phase s = Primed \<or> ps_phase s = Waiting" "parser_end env ls s = (r, s')"
  shows "(\<exists>e. r = Inl e \<and> ps_phase s' = Over) \<or> (\<exists>is. r = Inr is \<and> yielded env True is s')"
proof -
  obtain q s1 where q: "resume env (s\<lparr>ps_buffer := buffer_put_multiple ls (ps_buffer s), ps_finished := True\<rparr>) = (q, s1)"
    by (cases "resume env (s\<lparr>ps_buffer := buffer_put_multiple ls (ps_buffer s), ps_finished := True\<rparr>)")
  from resume_ends [OF assms(1,2) q] assms(3) q show ?thesis
    by (auto simp: parser_end_def bnd_def ret_def results_def)
qed

lemma resume_over:
  "ps_phase s = Reported \<or> ps_phase s = Over \<Longrightarrow> resume env s = (Inr None, s\<lparr>ps_phase := Over\<rparr>)"
  by (auto simp: resume_def catch_def ret_def)

text \<open>The states a user of the parser can meet: any calls, in any order, with any lines.\<close>

inductive parser_reachable :: "parser_env \<Rightarrow> parser_state \<Rightarrow> bool" for env where
  reach_init: "parser_reachable env initial_state"
| reach_lines: "parser_reachable env s \<Longrightarrow> process_lines env ls s = (r, s') \<Longrightarrow> parser_reachable env s'"
| reach_end: "parser_reachable env s \<Longrightarrow> parser_end env ls s = (r, s') \<Longrightarrow> parser_reachable env s'"

lemma ready_phase: "ps_phase s = Reported \<or> ps_phase s = Over \<Longrightarrow> ready s"
  by (auto simp: ready_def)

lemma parser_reachable_ready: "parser_reachable env s \<Longrightarrow> ready s"
proof (induction rule: parser_reachable.induct)
  case reach_init
  show ?case by (simp add: ready_def) (simp add: initial_state_def)
next
  case (reach_lines s ls r s')
  show ?case
  proof (cases "ps_phase s = Primed \<or> ps_phase s = Waiting")
    case True
    from process_lines_ends [OF reach_lines.IH True reach_lines.hyps(2)] show ?thesis
      by (auto simp: yielded_def ready_def)
  next
    case False
    then have "ps_phase s = Reported \<or> ps_phase s = Over" by (cases "ps_phase s") auto
    then have "ps_phase s' = Over" using reach_lines.hyps(2) by (auto simp: process_lines_def bnd_def resume_over ret_def)
    then show ?thesis by (simp add: ready_phase)
  qed
next
  case (reach_end s ls r s')
  show ?case
  proof (cases "ps_phase s = Primed \<or> ps_phase s = Waiting")
    case True
    from parser_end_ends [OF reach_end.IH True reach_end.hyps(2)] show ?thesis
      by (auto simp: yielded_def ready_def)
  next
    case False
    then have "ps_phase s = Reported \<or> ps_phase s = Over" by (cases "ps_phase s") auto
    then have "ps_phase s' = Over" using reach_end.hyps(2) by (auto simp: parser_end_def bnd_def resume_over ret_def)
    then show ?thesis by (simp add: ready_phase)
  qed
qed

text \<open>
  A nested log: START at the depth it opens from, END one level up, other lines at the depth of their block;
  lines that are no status lines belong to messages and do not count.
\<close>

fun nested :: "string list \<Rightarrow> nat \<Rightarrow> nat option" where
  "nested [] n = Some n"
| "nested (l # ls) n = (case parse_line (cleaned l) of
     Inr None \<Rightarrow> nested ls n
   | Inr (Some x) \<Rightarrow> (case ln_type x of
         LStart \<Rightarrow> if ln_indent x = n then nested ls (Suc n) else None
       | LEnd \<Rightarrow> if Suc (ln_indent x) = n then nested ls (n - 1) else None
       | _ \<Rightarrow> if ln_indent x = n then nested ls n else None)
   | _ \<Rightarrow> None)"

lemma next_line_nested:
  assumes run: "next_line env s = (Inr (), s')" and at: "parser_at f (l # b) n s" and nest: "nested (l # b) n = Some m"
  shows "\<exists>n'. parser_at f b n' s' \<and> nested b n' = Some m"
proof (cases "parse_line (cleaned l) = Inr None")
  case True
  then have "s' = s\<lparr>ps_buffer := b, ps_line := None\<rparr>" "nested b n = Some m"
    using run at nest by (auto simp: next_line_def exm_Inr buffer_get_def Let_def shaped_defs)
  then show ?thesis using at by (intro exI [of _ n]) (simp add: shaped_defs)
next
  case False
  with nest obtain x where x: "parse_line (cleaned l) = Inr (Some x)"
    by (auto split: sum.splits option.splits)
  let ?s = "s\<lparr>ps_buffer := b, ps_line := Some x\<rparr>"
  from run at x have hl: "handle_line env (cleaned l) x ?s = (Inr (), s')"
    by (auto simp: next_line_def exm_Inr buffer_get_def Let_def shaped_defs)
  have at': "parser_at f b n ?s" using at by (simp add: shaped_defs)
  have size: "stack_size (ps_stack ?s) = n" using at by (auto simp: shaped_defs stack_size_def)
  note turn = handle_line_turn [OF hl at' plain_dir_line [OF x]]
  show ?thesis
  proof (cases "ln_type x")
    case LStart
    then show ?thesis using turn nest x size by (auto simp: expected_indent_def split: if_splits)
  next
    case LEnd
    then have i: "Suc (ln_indent x) = n" and rest: "nested b (n - 1) = Some m"
      using nest x by (auto split: if_splits)
    moreover have "expected_indent x ?s = int n - 1" using LEnd size by (simp add: expected_indent_def)
    ultimately have "parser_at f b (n - 1) s'" using turn LEnd by auto
    with rest show ?thesis by blast
  next
    case LStatus
    then show ?thesis using turn nest x size by (auto simp: expected_indent_def split: if_splits)
  next
    case LInfo
    then show ?thesis using turn nest x size by (auto simp: expected_indent_def split: if_splits)
  qed
qed

lemma run_loop_nested:
  assumes "parser_at False b n s" "nested b n = Some m" "run_loop env k s = (Inr (Some t), s')"
  shows "parser_at False [] m s'"
  using assms
proof (induction b arbitrary: n s k)
  case Nil
  then show ?case by (cases k) (auto simp: loop_turn_def exm_Inr shaped_defs)
next
  case (Cons l b)
  from Cons.prems(3) obtain k' t' s1 where k: "k = Suc k'" and turn: "loop_turn env s = (Inr t', s1)"
    and rest: "(if t' = Continue then run_loop env k' else ret (Some t')) s1 = (Inr (Some t), s')"
    by (cases k) (auto simp: exm_Inr)
  from loop_turn_line [OF turn Cons.prems(1)] have t': "t' = Continue" "next_line env s = (Inr (), s1)" by auto
  from next_line_nested [OF t'(2) Cons.prems(1,2)] obtain n' where "parser_at False b n' s1" "nested b n' = Some m" by blast
  then show ?case using Cons.IH rest t'(1) by simp
qed

lemma parser_depth_waiting:
  assumes "parser_at False [] n s" "ps_phase s = Waiting" "nested ls n = Some m" "process_lines env ls s = (Inr is, s')"
  shows "stack_size (ps_stack s') = m"
proof -
  let ?s = "s\<lparr>ps_buffer := ls, ps_new_tests := []\<rparr>"
  have b: "ps_buffer s = []" using assms(1) by (simp add: shaped_defs)
  have at: "parser_at False ls n ?s" using assms(1) by (simp add: shaped_defs)
  obtain r s2 where go: "run_to_yield env ?s = (r, s2)" by (cases "run_to_yield env ?s")
  from assms(4) obtain q where res: "resume env (s\<lparr>ps_buffer := ls\<rparr>) = (Inr q, s')"
    by (auto simp: process_lines_def exm_Inr b buffer_put_multiple_def)
  from res go assms(2) have r: "\<exists>js. r = Inr js" "s' = s2"
    by (auto simp: resume_def catch_def gets_def bnd_def andthen_def modify_def throw_def ret_def split: sum.splits)
  then obtain js where js: "run_to_yield env ?s = (Inr js, s')" using go by blast
  from run_loop_ends [OF at turns_enough [OF at], of env] obtain q' s1 where
    loop: "run_loop env (turns ?s) ?s = (q', s1)" and q': "(\<exists>e. q' = Inl e) \<or> q' = Inr (Some Yield)" by auto
  with js have "q' = Inr (Some Yield)" "s' = s1\<lparr>ps_phase := Waiting\<rparr>"
    by (auto simp: run_to_yield_def bnd_def andthen_def modify_def gets_def)
  moreover from this loop have "parser_at False [] m s1" using run_loop_nested [OF at assms(3)] by simp
  ultimately show ?thesis by (auto simp: shaped_defs stack_size_def)
qed

lemma crash_waiting:
  assumes "parser_at False [] n s" "ps_phase s = Waiting" "ps_line s = None" "0 < n" "abort_reason env = Inr reason"
  shows "fst (parser_end env [] s) = Inl AttributeError"
proof -
  have b: "ps_buffer s = []" "stack_size (ps_stack s) = n" using assms(1) by (auto simp: shaped_defs stack_size_def)
  let ?s = "s\<lparr>ps_finished := True, ps_new_tests := []\<rparr>"
  have "\<exists>k. turns ?s = Suc k" by (simp add: turns_def)
  then obtain k where k: "turns ?s = Suc k" by blast
  have "loop_turn env ?s = (Inl AttributeError, ?s)"
    using b assms(3,4,5) by (simp add: loop_turn_def abort_open_blocks_def lift_sum_def bnd_def andthen_def gets_def throw_def)
  then show ?thesis using assms(2) b(1) k
    by (simp add: parser_end_def resume_def run_to_yield_def bnd_def andthen_def gets_def modify_def ret_def throw_def
        catch_def buffer_put_multiple_def)
qed

section \<open>Properties\<close>

text \<open>An environment and a log for the witnesses: a GOOD test inside a server job.\<close>

definition sample_log_job :: tko_job where
  "sample_log_job = \<lparr>tj_dir = ''results'', tj_user = None, tj_label = None, tj_machine = ''host1'', tj_machine_group = [],
     tj_machine_owner = None, tj_queued_time = None, tj_started_time = Some 1, tj_finished_time = Some 9,
     tj_aborted_by = None, tj_aborted_on = None, tj_keyval_dict = []\<rparr>"

definition sample_env :: parser_env where
  "sample_env = \<lparr>pe_job = sample_log_job, pe_fs = \<lparr>fs_files = [], fs_dirs = []\<rparr>, pe_host = Inr [],
     pe_exit_status = ''GOOD'', pe_md5 = id, pe_abort_time = (\<lambda>t. [])\<rparr>"

definition sample_log :: "string list" where
  "sample_log = [''START'' @ [tab] @ ''dbench'' @ [tab] @ ''dbench'' @ [tab] @ ''timestamp=3'' @ [tab],
     [tab] @ ''GOOD'' @ [tab] @ ''dbench'' @ [tab] @ ''dbench'' @ [tab] @ ''timestamp=4'' @ [tab] @ ''completed'']"

text \<open>
  C27 (tko/parsers/version_1.py, \<open>state_iterator\<close>; tko/parsers/base.py, \<open>process_lines\<close>). Whatever
  lines a waiting parser gets, the call ends: it raises, and the generator is over, or the parser has
  consumed all lines, the aborts it put back included, and waits for more.
\<close>

theorem parser_consumes_lines:
  assumes "parser_reachable env s" "ps_phase s \<in> {Primed, Waiting}"
  shows "\<exists>r s'. process_lines env ls s = (r, s') \<and>
    ((\<exists>e. r = Inl e \<and> ps_phase s' = Over) \<or> (\<exists>is. r = Inr is \<and> ps_phase s' = Waiting \<and> ps_buffer s' = []))"
proof -
  obtain r s' where run: "process_lines env ls s = (r, s')" by (cases "process_lines env ls s")
  have "ps_phase s = Primed \<or> ps_phase s = Waiting" using assms(2) by simp
  from process_lines_ends [OF parser_reachable_ready [OF assms(1)] this run] show ?thesis
    using run by (auto simp: yielded_def shaped_defs)
qed

lemma parser_consumes_lines_witness:
  "\<exists>r s'. process_lines sample_env sample_log initial_state = (r, s') \<and>
    ((\<exists>e. r = Inl e \<and> ps_phase s' = Over) \<or> (\<exists>is. r = Inr is \<and> ps_phase s' = Waiting \<and> ps_buffer s' = []))"
  by (rule parser_consumes_lines [OF reach_init]) (simp add: initial_state_def)

text \<open>
  C28 (tko/parsers/version_1.py, \<open>state_iterator\<close>; tko/parsers/base.py, \<open>end\<close>). At the end of a
  log the parser raises, or it reports as the last test the one of the server job, with the exit status of
  the job; then no line is left over and every block has been closed.
\<close>

theorem parser_end_reports_job:
  assumes "parser_reachable env s" "ps_phase s \<in> {Primed, Waiting}"
  shows "\<exists>r s'. parser_end env ls s = (r, s') \<and>
    ((\<exists>e. r = Inl e \<and> ps_phase s' = Over) \<or>
     (\<exists>is. r = Inr is \<and> ps_phase s' = Reported \<and> ps_buffer s' = [] \<and> stack_size (ps_stack s') = 0 \<and>
       is \<noteq> [] \<and> last is = ps_running_job s' \<and> tt_testname (ps_tests s' ! last is) = Some ''SERVER_JOB'' \<and>
       tt_status (ps_tests s' ! last is) = pe_exit_status env))"
proof -
  obtain r s' where run: "parser_end env ls s = (r, s')" by (cases "parser_end env ls s")
  have "ps_phase s = Primed \<or> ps_phase s = Waiting" using assms(2) by simp
  from parser_end_ends [OF parser_reachable_ready [OF assms(1)] this run] show ?thesis
    using run by (auto simp: yielded_def shaped_defs stack_size_def)
qed

lemma parser_end_reports_job_witness:
  "(\<exists>r s'. parser_end sample_env sample_log initial_state = (r, s') \<and>
    ((\<exists>e. r = Inl e \<and> ps_phase s' = Over) \<or>
     (\<exists>is. r = Inr is \<and> ps_phase s' = Reported \<and> ps_buffer s' = [] \<and> stack_size (ps_stack s') = 0 \<and>
       is \<noteq> [] \<and> last is = ps_running_job s' \<and> tt_testname (ps_tests s' ! last is) = Some ''SERVER_JOB'' \<and>
       tt_status (ps_tests s' ! last is) = pe_exit_status sample_env))) \<and>
   fst (parser_end sample_env sample_log initial_state) = Inr [0, 1, 1, 1, 0]"
proof (rule conjI, rule parser_end_reports_job [OF reach_init])
  show "ps_phase initial_state \<in> {Primed, Waiting}" by (simp add: initial_state_def)
  show "fst (parser_end sample_env sample_log initial_state) = Inr [0, 1, 1, 1, 0]" by code_simp
qed

text \<open>
  C32 (tko/parsers/version_1.py, \<open>state_iterator\<close>). The depth of the parser follows the blocks: after a
  nested log from a waiting parser the number of open blocks is that of the log.
\<close>

theorem parser_follows_blocks:
  assumes "parser_reachable env s" "ps_phase s = Waiting" "nested ls (stack_size (ps_stack s)) = Some m"
    and "process_lines env ls s = (Inr is, s')"
  shows "stack_size (ps_stack s') = m"
proof -
  obtain n where at: "parser_at False [] n s" using parser_reachable_ready [OF assms(1)] assms(2) by (auto simp: ready_def)
  then have "stack_size (ps_stack s) = n" by (auto simp: shaped_defs stack_size_def)
  then show ?thesis using parser_depth_waiting [OF at assms(2) _ assms(4)] assms(3) by simp
qed

abbreviation sample_waiting :: parser_state where
  "sample_waiting \<equiv> snd (process_lines sample_env [] initial_state)"

lemma sample_waiting_reachable: "parser_reachable sample_env sample_waiting"
  by (rule reach_lines [OF reach_init]) (rule surjective_pairing)

lemma Inr_pair: "fst p = Inr x \<Longrightarrow> p = (Inr x, snd p)"
  by (cases p) auto

lemma parser_follows_blocks_witness:
  "stack_size (ps_stack (snd (process_lines sample_env sample_log sample_waiting))) = 1"
  by (rule parser_follows_blocks [OF sample_waiting_reachable _ _ Inr_pair [of _ "[1, 1]"]]) code_simp+

text \<open>
  \<open>state_iterator\<close> (tko/parsers/version_1.py). A log that ends inside a block with a line that is not
  a status line cannot be closed: no line has the time of the implicit abort, and \<open>end\<close> raises AttributeError.
\<close>

theorem parser_end_crash:
  assumes "parser_reachable env s" "ps_phase s = Waiting" "ps_line s = None" "0 < stack_size (ps_stack s)"
    and "abort_reason env = Inr reason"
  shows "fst (parser_end env [] s) = Inl AttributeError"
proof -
  obtain n where at: "parser_at False [] n s" using parser_reachable_ready [OF assms(1)] assms(2) by (auto simp: ready_def)
  then have "0 < n" using assms(4) by (auto simp: shaped_defs stack_size_def)
  then show ?thesis using crash_waiting [OF at assms(2,3) _ assms(5)] by simp
qed

definition cut_log :: "string list" where
  "cut_log = sample_log @ [''Traceback'']"

lemma parser_end_crash_witness:
  "fst (parser_end sample_env [] (snd (process_lines sample_env cut_log initial_state))) = Inl AttributeError"
proof (rule parser_end_crash)
  show "parser_reachable sample_env (snd (process_lines sample_env cut_log initial_state))"
    by (rule reach_lines [OF reach_init]) (rule surjective_pairing)
  show "abort_reason sample_env = Inr ''Job aborted unexpectedly''" by code_simp
qed (code_simp)+

text \<open>
  A test started without a directory cannot be aborted implicitly either: the line made for it has neither
  name nor directory, so it ends a client job, and \<open>running_client\<close> is unbound.
\<close>

lemma abort_without_subdir:
  "fst (parser_end sample_env [''START'' @ [tab] @ ''----'' @ [tab] @ ''reboot'' @ [tab] @ ''timestamp=3'' @ [tab]] initial_state) =
    Inl UnboundLocalError"
  by code_simp

end
