(* ===== verification/Parser_Types.thy ===== *)
theory Parser_Types
  imports Parser_Calls
begin

text \<open>
  Every test the parser of status logs hands out is one it has created, with a status the result database
  knows: the references into the store of tests are valid and the statuses are in range in every state.
\<close>

section \<open>Well-typed states\<close>

text \<open>
  \<open>well_typed j R s\<close>: besides the references of the state itself those in \<open>R\<close>, held by the code that
  runs, are valid, and so is the one of the server job once it is set (\<open>j\<close>).
\<close>

definition in_store :: "parser_state \<Rightarrow> nat \<Rightarrow> bool" where
  "in_store s i \<longleftrightarrow> i < length (ps_tests s)"

definition known_status :: "string \<Rightarrow> bool" where
  "known_status st \<longleftrightarrow> st \<in> set job_statuses"

definition well_typed :: "bool \<Rightarrow> nat set \<Rightarrow> parser_state \<Rightarrow> bool" where
  "well_typed j R s \<longleftrightarrow>
     (\<forall>i \<in> R \<union> set (ps_new_tests s) \<union> set_option (ps_running_test s) \<union> set_option (ps_running_client s). in_store s i) \<and>
     (j \<longrightarrow> in_store s (ps_running_job s)) \<and>
     list_all (\<lambda>t. known_status (tt_status t)) (ps_tests s) \<and>
     ps_stack s \<noteq> [] \<and> list_all known_status (ps_stack s) \<and> known_status (ps_status s)"

named_theorems typed_ops \<open>steps that keep a state well typed\<close>

lemmas typed_defs = well_typed_def in_store_def

lemma known_last [simp]: "known_status last_status"
  by (simp add: known_status_def last_status_eq job_statuses_def)

lemma known_running: "known_status ''RUNNING''" "known_status ''GOOD''"
  by (simp_all add: known_status_def job_statuses_def)

lemma typed_mono: "well_typed j R' s \<Longrightarrow> R \<subseteq> R' \<Longrightarrow> well_typed j R s"
  by (auto simp: well_typed_def)

text \<open>A reference a step returns may be used by the steps after it.\<close>

lemma typed_bnd_ref:
  assumes "keeps (well_typed j R) m"
    and "\<And>s s' i. well_typed j R s \<Longrightarrow> m s = (Inr i, s') \<Longrightarrow> in_store s' i"
    and "\<And>i. keeps (well_typed j (insert i R)) (f i)"
  shows "keeps (well_typed j R) (bnd m f)"
proof (rule keepsI)
  fix s
  assume s: "well_typed j R s"
  obtain r s' where run: "m s = (r, s')" by (cases "m s")
  then have s': "well_typed j R s'" using keepsD [OF assms(1) s] by simp
  show "well_typed j R (snd (bnd m f s))"
  proof (cases r)
    case (Inl e)
    with s' run show ?thesis by (simp add: bnd_def)
  next
    case (Inr i)
    then have "well_typed j (insert i R) s'" using s' assms(2) [OF s] run by (auto simp: well_typed_def)
    from keepsD [OF assms(3) this] have "well_typed j R (snd (f i s'))" by (rule typed_mono) blast
    then show ?thesis by (simp add: bnd_def run Inr)
  qed
qed

text \<open>The same for what a step reads from the state.\<close>

lemma typed_bnd_read:
  assumes "\<And>s. well_typed j R s \<Longrightarrow> Q (g s)"
    and "\<And>x. Q x \<Longrightarrow> keeps (well_typed j R) (f x)"
  shows "keeps (well_typed j R) (bnd (gets g) f)"
  using assms by (auto simp: keeps_def bnd_def gets_def)

lemma typed_bnd_read_ref:
  assumes "\<And>s. well_typed j R s \<Longrightarrow> \<forall>i \<in> refs (g s). in_store s i"
    and "\<And>x. keeps (well_typed j (refs x \<union> R)) (f x)"
  shows "keeps (well_typed j R) (bnd (gets g) f)"
proof (rule keepsI)
  fix s
  assume s: "well_typed j R s"
  then have "well_typed j (refs (g s) \<union> R) s" using assms(1) [OF s] by (auto simp: well_typed_def)
  from keepsD [OF assms(2) this] have "well_typed j R (snd (f (g s) s))" by (rule typed_mono) blast
  then show "well_typed j R (snd (bnd (gets g) f s))" by (simp add: bnd_def gets_def)
qed

section \<open>The steps\<close>

lemma list_all_set: "list_all P xs \<Longrightarrow> P x \<Longrightarrow> list_all P (xs[i := x])"
  using set_update_subset_insert [of xs i x] by (auto simp: list_all_iff)


lemma list_all_set_at: "list_all P xs \<Longrightarrow> (P (xs ! i) \<Longrightarrow> P y) \<Longrightarrow> list_all P (xs[i := y])"
proof (cases "i < length xs")
  case True
  moreover assume "list_all P xs" "P (xs ! i) \<Longrightarrow> P y"
  ultimately show ?thesis by (simp add: list_all_set list_all_length [of P xs])
qed (simp add: not_less list_update_beyond)

lemma typed_report [typed_ops]: "i \<in> R \<Longrightarrow> keeps (well_typed j R) (report i)"
  unfolding report_def by (intro keeps_intro) (auto simp: typed_defs)

lemma typed_add_test:
  "known_status (tt_status t) \<Longrightarrow> keeps (well_typed j R) (add_test t)"
  unfolding add_test_def by (intro keeps_intro) (auto simp: typed_defs intro: less_SucI)

lemma add_test_in_store: "add_test t s = (Inr i, s') \<Longrightarrow> in_store s' i"
  by (auto simp: add_test_def exm_Inr in_store_def)

lemma typed_set_reason [typed_ops]: "keeps (well_typed j R) (set_reason i r)"
  unfolding set_reason_def
  by (intro keeps_intro) (auto simp: typed_defs intro: list_all_set_at)

lemma typed_start_test: "keeps (well_typed j R) (start_test env d n r t)"
  unfolding start_test_def
  by (intro keeps_gets keeps_bnd [where m = "gets _"] typed_bnd_ref typed_add_test keeps_andthen typed_report keeps_ret)
    (auto simp: partial_test_def known_running add_test_in_store)

lemma start_test_in_store: "start_test env d n r t s = (Inr i, s') \<Longrightarrow> in_store s' i"
  by (auto simp: start_test_def add_test_def report_def exm_Inr in_store_def)

lemma finished_test_status:
  "finished_test fs j h d n st r k t u = Inr x \<Longrightarrow> tt_status x = st"
  using finished_test_fields by blast

lemma typed_parse_test:
  assumes "known_status st"
  shows "keeps (well_typed j R) (parse_test env d n st r t u i)"
proof -
  have "keeps (well_typed j R) (case i of None \<Rightarrow> add_test x
      | Some i \<Rightarrow> andthen (modify (\<lambda>s. s\<lparr>ps_tests := (ps_tests s)[i := x]\<rparr>)) (ret i))" if "tt_status x = st" for x
    using assms that
    by (intro keeps_intro typed_add_test) (auto simp: typed_defs intro: list_all_set)
  then show ?thesis
    unfolding parse_test_def
    by (auto simp: keeps_def bnd_def gets_def lift_sum_def dest: finished_test_status split: sum.split)
qed

lemma parse_test_in_store:
  "parse_test env d n st r t u i s = (Inr k, s') \<Longrightarrow> \<forall>x \<in> set_option i. in_store s x \<Longrightarrow> in_store s' k"
  by (auto simp: parse_test_def exm_Inr in_store_def add_test_in_store [unfolded in_store_def] split: option.splits)

lemma typed_update_stack [typed_ops]: "keeps (well_typed j R) (update_stack st)"
  unfolding update_stack_def
proof (intro keeps_intro)
  fix s
  assume "well_typed j R s"
  then show "well_typed j R (s\<lparr>ps_stack := stack_update st (ps_stack s)\<rparr>)"
    by (cases "ps_stack s") (auto simp: typed_defs stack_update_def known_status_def)
qed

lemma typed_start_client [typed_ops]: "keeps (well_typed j R) (start_client env t)"
  unfolding start_client_def
  by (intro keeps_andthen keeps_bnd [where m = "gets _"] keeps_gets typed_bnd_ref typed_start_test keeps_modify)
    (auto simp: typed_defs start_test_in_store [unfolded in_store_def])

lemma typed_start_running_test [typed_ops]: "keeps (well_typed j R) (start_running_test env l t)"
  unfolding start_running_test_def
  by (intro keeps_andthen typed_bnd_ref typed_start_test keeps_modify)
    (auto simp: typed_defs start_test_in_store [unfolded in_store_def])

lemma typed_on_start [typed_ops]: "keeps (well_typed j R) (on_start env l)"
  unfolding on_start_def
  by (intro keeps_intro typed_ops) (auto simp: typed_defs stack_start_def)

lemma typed_on_info [typed_ops]: "keeps (well_typed True R) (on_info env l)"
  unfolding on_info_def
  by (intro keeps_andthen keeps_when_do keeps_bnd [where m = "lift_sum _"] keeps_lift_sum keeps_option keeps_ret
      typed_bnd_read_ref [where refs = "\<lambda>i. {i}"] typed_ops keeps_modify)
    (auto simp: typed_defs)

lemma typed_add_running_reason [typed_ops]: "i \<in> R \<Longrightarrow> keeps (well_typed j R) (add_running_reason r i)"
  unfolding add_running_reason_def by (intro keeps_intro typed_ops; auto simp: typed_defs)

lemma typed_update_reason [typed_ops]: "keeps (well_typed j R) (update_reason l)"
  unfolding update_reason_def
  by (intro keeps_when_do typed_bnd_read_ref [where refs = set_option] keeps_option typed_ops keeps_modify)
    (auto simp: typed_defs)

lemma known_current: "well_typed j R s \<Longrightarrow> known_status (current_status (ps_stack s))"
  by (cases "ps_stack s") (auto simp: well_typed_def current_status_def)

lemma typed_on_status [typed_ops]: "keeps (well_typed j R) (on_status l)"
  unfolding on_status_def
  by (intro keeps_intro typed_ops) (use known_current in \<open>auto simp: typed_defs\<close>)

lemma typed_leave_block [typed_ops]: "keeps (well_typed j R) (leave_block l)"
  unfolding leave_block_def by (intro keeps_intro) (auto simp: typed_defs)

lemma typed_close_block [typed_ops]: "keeps (well_typed j R) (close_block st)"
  unfolding close_block_def
proof (intro keeps_andthen typed_ops keeps_modify)
  fix s
  assume s: "well_typed j R s"
  then show "well_typed j R (s\<lparr>ps_status := fst (stack_end (ps_stack s)), ps_stack := snd (stack_end (ps_stack s))\<rparr>)"
    by (cases "ps_stack s") (auto simp: typed_defs stack_end_def)
  have "well_typed j R (s\<lparr>ps_stack := stack_update (ps_status s) (ps_stack s)\<rparr>)"
    using keepsD [OF typed_update_stack s, of "ps_status s"] by (simp add: update_stack_def modify_def)
  from this known_current [OF this] s
  show "well_typed j R (if int (stack_size (ps_stack s)) > ps_min_stack_size s then
      let st' = stack_update (ps_status s) (ps_stack s) in s\<lparr>ps_stack := st', ps_status := current_status st'\<rparr> else s)"
    by (auto simp: well_typed_def in_store_def Let_def)
qed

lemma typed_on_reboot [typed_ops]: "keeps (well_typed j R) (on_reboot env l)"
  unfolding on_reboot_def by (intro keeps_intro) (auto simp: typed_defs)

lemma typed_on_end [typed_ops]: "keeps (well_typed j R) (on_end env l)"
  unfolding on_end_def by (intro keeps_intro typed_ops) (auto simp: typed_defs)

lemma typed_finish_client [typed_ops]: "keeps (well_typed j R) finish_client"
proof -
  have "keeps (well_typed j R) (bnd (some_or UnboundLocalError client) (\<lambda>i.
     andthen (modify (\<lambda>s. s\<lparr>ps_running_test := Some i, ps_job_count := ps_job_count s + 1\<rparr>)) (
     bnd (gets (\<lambda>s. is_worse_than_or_equal_to (ps_status s) ''ABORT'')) (\<lambda>r.
     bnd (lift_sum r) (\<lambda>worse.
     andthen (when_do (\<not> worse) (modify (\<lambda>s. s\<lparr>ps_status := ''GOOD''\<rparr>))) (ret name))))))"
    if "set_option client \<subseteq> R" for client name R
  proof (cases client)
    case (Some i)
    then show ?thesis using that
      unfolding Some some_or_simps bnd_ret by (intro keeps_intro) (auto simp: typed_defs known_running)
  qed (simp add: bnd_def some_or_def keeps_def throw_def)
  note after = this
  show ?thesis
    unfolding finish_client_def
    by (rule keeps_bnd, rule keeps_gets, rule typed_bnd_read_ref [where refs = set_option], simp add: typed_defs,
        rule after, blast)
qed

lemma typed_finish_test [typed_ops]: "keeps (well_typed j R) (finish_test env l t u)"
proof -
  have "keeps (well_typed j R) (bnd (gets ps_running_test) (\<lambda>running.
     bnd (parse_test env d n st r t u running) (\<lambda>i.
     andthen (modify (\<lambda>s. s\<lparr>ps_running_test := None, ps_status := last_status, ps_reason := None,
         ps_boot_count := (if name = boot_name s then ps_boot_count s + 1 else ps_boot_count s)\<rparr>))
       (report i))))" if "known_status st" for d n st r name
    by (intro typed_bnd_read_ref [where refs = set_option] typed_bnd_ref typed_parse_test that
        keeps_andthen keeps_modify typed_ops)
      (auto simp: typed_defs intro: parse_test_in_store [unfolded in_store_def])
  note after = this
  show ?thesis
    unfolding finish_test_def
    by (rule keeps_bnd, intro keeps_intro typed_ops, intro keeps_andthen keeps_modify, simp add: typed_defs,
        rule typed_bnd_read [where Q = known_status], simp add: typed_defs, rule keeps_bnd, rule keeps_gets,
        rule after)
qed

lemma typed_maybe_finish [typed_ops]: "keeps (well_typed j R) (maybe_finish env l t u)"
  unfolding maybe_finish_def by (intro keeps_intro typed_ops)

section \<open>The loop\<close>

lemma typed_buffer [typed_ops]: "keeps (well_typed j R) (modify (\<lambda>s. s\<lparr>ps_buffer := b s\<rparr>))"
  by (intro keeps_intro) (simp add: typed_defs)

lemma typed_line [typed_ops]: "keeps (well_typed j R) (modify (\<lambda>s. s\<lparr>ps_line := l\<rparr>))"
  by (intro keeps_intro) (simp add: typed_defs)

lemma typed_handle_line [typed_ops]: "keeps (well_typed True R) (handle_line env raw l)"
proof -
  have "keeps (well_typed True R) (case ln_type l of LStart \<Rightarrow> m1 | LInfo \<Rightarrow> m2 | LStatus \<Rightarrow> m3 | LEnd \<Rightarrow> m4)"
    if "keeps (well_typed True R) m1" "keeps (well_typed True R) m2" "keeps (well_typed True R) m3"
      "keeps (well_typed True R) m4" for m1 m2 m3 m4 :: "unit parsing"
    using that by (cases "ln_type l") simp_all
  note by_type = this
  show ?thesis
    unfolding handle_line_def put_back_line_and_abort_def by (intro keeps_intro typed_ops by_type)
qed

lemma typed_loop_turn [typed_ops]: "keeps (well_typed True R) (loop_turn env)"
  unfolding loop_turn_def next_line_def abort_open_blocks_def Let_def by (intro keeps_intro typed_ops)

lemma typed_run_loop [typed_ops]: "keeps (well_typed True R) (run_loop env n)"
  by (induction n) (auto intro!: keeps_intro typed_ops)

lemma typed_final_job:
  assumes "known_status (pe_exit_status env)"
  shows "keeps (well_typed True R) (final_job env)"
  unfolding final_job_def
  by (rule typed_bnd_read_ref [where refs = "\<lambda>i. {i}"], simp add: typed_defs, rule keeps_bnd, rule keeps_gets,
      rule typed_bnd_ref, rule typed_parse_test, rule assms)
    (auto simp: typed_defs intro: parse_test_in_store [unfolded in_store_def] typed_report)

lemma typed_phase [typed_ops]: "keeps (well_typed j R) (modify (\<lambda>s. s\<lparr>ps_phase := p\<rparr>))"
  by (intro keeps_intro) (simp add: typed_defs)

lemma typed_run_to_yield:
  assumes "known_status (pe_exit_status env)"
  shows "keeps (well_typed True R) (run_to_yield env)"
proof -
  have "keeps (well_typed True R) (case t of
       Some Break \<Rightarrow> andthen (final_job env) (andthen (modify (\<lambda>s. s\<lparr>ps_phase := Reported\<rparr>)) (gets ps_new_tests))
     | _ \<Rightarrow> andthen (modify (\<lambda>s. s\<lparr>ps_phase := Waiting\<rparr>)) (gets ps_new_tests))" for t
    by (cases "t = Some Break") (auto intro!: keeps_intro typed_ops typed_final_job assms split: option.split turn.split)
  note at_stop = this
  show ?thesis
    unfolding run_to_yield_def
    by (rule keeps_bnd, rule keeps_gets, rule keeps_bnd, rule typed_run_loop, rule at_stop)
qed

text \<open>What a call hands out is the list of new tests the state holds then.\<close>

lemma run_to_yield_results:
  assumes "run_to_yield env s = (Inr is, s')"
  shows "is = ps_new_tests s' \<and> ps_phase s' \<noteq> Primed"
proof -
  from assms obtain t s1 where "(case t of
       Some Break \<Rightarrow> andthen (final_job env) (andthen (modify (\<lambda>s. s\<lparr>ps_phase := Reported\<rparr>)) (gets ps_new_tests))
     | _ \<Rightarrow> andthen (modify (\<lambda>s. s\<lparr>ps_phase := Waiting\<rparr>)) (gets ps_new_tests)) s1 = (Inr is, s')"
    unfolding run_to_yield_def by (subst (asm) bnd_Inr, elim exE conjE, subst (asm) bnd_Inr) blast
  then show ?thesis by (cases t; cases "the t") (auto simp: exm_Inr)
qed

definition typed_ready :: "parser_state \<Rightarrow> bool" where
  "typed_ready s \<longleftrightarrow> (ps_phase s = Primed \<longrightarrow> s = initial_state) \<and> (ps_phase s \<noteq> Primed \<longrightarrow> well_typed True {} s)"

lemma start_job_typed:
  "\<exists>s'. start_job env (initial_state\<lparr>ps_buffer := b, ps_finished := f\<rparr>) = (Inr (), s') \<and> well_typed True {} s'"
  by (simp add: start_job_def start_test_def add_test_def report_def bnd_def andthen_def gets_def modify_def ret_def
      initial_state_def typed_defs stack_init_def partial_test_def known_running)

lemma resume_typed:
  assumes "known_status (pe_exit_status env)" "typed_ready s"
    and run: "resume env (s\<lparr>ps_buffer := ls, ps_finished := f\<rparr>) = (r, s')"
  shows "ps_phase s' \<noteq> Primed \<and> well_typed True {} s' \<and> (\<forall>is. r = Inr (Some is) \<longrightarrow> is = ps_new_tests s')"
proof -
  let ?s = "s\<lparr>ps_buffer := ls, ps_finished := f\<rparr>"
  consider (over) "ps_phase s = Reported \<or> ps_phase s = Over" | (run) "ps_phase s = Primed \<or> ps_phase s = Waiting"
    by (cases "ps_phase s") auto
  then show ?thesis
  proof cases
    case over
    then have "well_typed True {} s" using assms(2) by (auto simp: typed_ready_def)
    then show ?thesis using run resume_over [of ?s env] over by (auto simp: typed_defs)
  next
    case run
    have "\<exists>s1. well_typed True {} s1 \<and> resume env ?s =
        catch (bnd (run_to_yield env) (\<lambda>r. ret (Some r))) (\<lambda>e. andthen (modify (\<lambda>s. s\<lparr>ps_phase := Over\<rparr>)) (throw e)) s1"
    proof (cases "ps_phase s = Primed")
      case True
      then obtain s1 where "start_job env ?s = (Inr (), s1)" "well_typed True {} s1"
        using assms(2) start_job_typed [where env = env and b = ls and f = f] by (auto simp: typed_ready_def)
      then show ?thesis using True by (auto simp: resume_def catch_def andthen_run)
    next
      case False
      then have "well_typed True {} (?s\<lparr>ps_new_tests := []\<rparr>)" "ps_phase s = Waiting"
        using assms(2) run by (auto simp: typed_ready_def typed_defs)
      then show ?thesis by (auto simp: resume_def catch_def)
    qed
    then obtain s1 where s1: "well_typed True {} s1" and eq: "resume env ?s =
        catch (bnd (run_to_yield env) (\<lambda>r. ret (Some r))) (\<lambda>e. andthen (modify (\<lambda>s. s\<lparr>ps_phase := Over\<rparr>)) (throw e)) s1"
      by blast
    obtain q s2 where q: "run_to_yield env s1 = (q, s2)" by (cases "run_to_yield env s1")
    have s2: "well_typed True {} s2" using keepsD [OF typed_run_to_yield [OF assms(1)] s1] q by simp
    show ?thesis
    proof (cases q)
      case (Inl e)
      then have "s' = s2\<lparr>ps_phase := Over\<rparr>" "r = Inl e"
        using assms(3) q unfolding eq by (auto simp: catch_def bnd_def throw_def)
      with s2 show ?thesis by (simp add: typed_defs)
    next
      case (Inr js)
      then have "ps_phase s2 \<noteq> Primed" using q run_to_yield_results by blast
      moreover have "s' = s2" "r = Inr (Some js)"
        using assms(3) q Inr unfolding eq by (auto simp: catch_def bnd_def ret_def)
      ultimately show ?thesis using s2 run_to_yield_results q Inr by auto
    qed
  qed
qed

lemma call_typed:
  assumes "known_status (pe_exit_status env)" "typed_ready s" "c = process_lines \<or> c = parser_end"
    and run: "c env ls s = (r, s')"
  shows "ps_phase s' \<noteq> Primed \<and> well_typed True {} s' \<and> (\<forall>is. r = Inr is \<longrightarrow> is = ps_new_tests s' \<or> is = [])"
proof -
  obtain b f where "c env ls s = bnd (resume env) (\<lambda>r. ret (results r)) (s\<lparr>ps_buffer := b, ps_finished := f\<rparr>)"
    using assms(3)
  proof
    assume "c = process_lines"
    then have "c env ls s = bnd (resume env) (\<lambda>r. ret (results r))
        (s\<lparr>ps_buffer := buffer_put_multiple ls (ps_buffer s), ps_finished := ps_finished s\<rparr>)"
      by (simp add: process_lines_def)
    then show thesis by (rule that)
  next
    assume "c = parser_end"
    then have "c env ls s = bnd (resume env) (\<lambda>r. ret (results r))
        (s\<lparr>ps_buffer := buffer_put_multiple ls (ps_buffer s), ps_finished := True\<rparr>)"
      by (simp add: parser_end_def)
    then show thesis by (rule that)
  qed
  moreover obtain q s1 where q: "resume env (s\<lparr>ps_buffer := b, ps_finished := f\<rparr>) = (q, s1)"
    by (cases "resume env (s\<lparr>ps_buffer := b, ps_finished := f\<rparr>)")
  ultimately have "s' = s1" "r = (case q of Inl e \<Rightarrow> Inl e | Inr x \<Rightarrow> Inr (results x))"
    using run by (auto simp: bnd_def ret_def split: sum.splits)
  with resume_typed [OF assms(1,2) q] show ?thesis
    by (cases q) (auto simp: results_def split: option.splits)
qed

lemma parser_reachable_typed:
  assumes "parser_reachable env s" "known_status (pe_exit_status env)"
  shows "typed_ready s"
  using assms(1)
proof (induction rule: parser_reachable.induct)
  case reach_init
  show ?case by (simp add: typed_ready_def) (simp add: initial_state_def)
next
  case (reach_lines s ls r s')
  have "ps_phase s' \<noteq> Primed \<and> well_typed True {} s'"
    using call_typed [OF assms(2) reach_lines.IH disjI1 [OF refl] reach_lines.hyps(2)] by blast
  then show ?case by (simp add: typed_ready_def)
next
  case (reach_end s ls r s')
  have "ps_phase s' \<noteq> Primed \<and> well_typed True {} s'"
    using call_typed [OF assms(2) reach_end.IH disjI2 [OF refl] reach_end.hyps(2)] by blast
  then show ?case by (simp add: typed_ready_def)
qed

section \<open>The property\<close>

text \<open>The exit status a parser finds is one of three words, so it is a status of the log.\<close>

lemma exit_status_words: "exit_status fs dir = Some st \<Longrightarrow> st \<in> {''GOOD'', ''FAIL'', ''ABORT''}"
proof -
  have "execute_status t \<in> {''GOOD'', ''FAIL'', ''ABORT''}" for t
    by (auto simp: execute_status_def split: list.split sum.split)
  then show "exit_status fs dir = Some st \<Longrightarrow> st \<in> {''GOOD'', ''FAIL'', ''ABORT''}"
    unfolding exit_status_def by (auto split: option.splits if_splits)
qed

lemma parser_env_of_known: "parser_env_of job fs md5 abort_time = Some env \<Longrightarrow> known_status (pe_exit_status env)"
  using exit_status_words [of fs "tj_dir job" "pe_exit_status env"]
  by (auto simp: parser_env_of_def known_status_def job_statuses_def split: option.splits)

text \<open>
  C26 (tko/parsers/version_1.py, \<open>state_iterator\<close> and \<open>job.exit_status\<close>; tko/parsers/base.py,
  \<open>process_lines\<close> and \<open>end\<close>). Whatever lines the parser of a job gets in whatever calls, each test a call hands
  out is one the parser has created, and its status is one of the ten words of the status log
  (\<open>job_statuses\<close>), with the exit status the files of the job say. The result database has a row for nine of
  them: a test with status BUG is parsed and cannot be inserted.
\<close>

theorem parser_results_typed:
  assumes "parser_env_of job fs md5 abort_time = Some env" "parser_reachable env s"
    and "process_lines env ls s = (Inr is, s') \<or> parser_end env ls s = (Inr is, s')"
  shows "\<forall>i \<in> set is. i < length (ps_tests s') \<and> tt_status (ps_tests s' ! i) \<in> set job_statuses"
proof -
  have env: "known_status (pe_exit_status env)" using assms(1) by (rule parser_env_of_known)
  obtain c where "c = process_lines \<or> c = parser_end" "c env ls s = (Inr is, s')" using assms(3) by blast
  from call_typed [OF env parser_reachable_typed [OF assms(2) env] this]
  have "well_typed True {} s'" "is = ps_new_tests s' \<or> is = []" by auto
  then show ?thesis by (auto simp: well_typed_def in_store_def known_status_def list_all_length)
qed

text \<open>A job whose server process was ended by exit code 1.\<close>

definition sample_failed_job :: tko_job where
  "sample_failed_job = sample_log_job\<lparr>tj_dir := ''/results/1-a''\<rparr>"

definition sample_failed_fs :: file_system where
  "sample_failed_fs = \<lparr>fs_files = [(''/results/1-a/.autoserv_execute'', line ''77'' @ line ''256'' @ line ''0'')],
     fs_dirs = [''/results'', ''/results/1-a'']\<rparr>"

definition sample_failed_env :: parser_env where
  "sample_failed_env = \<lparr>pe_job = sample_failed_job, pe_fs = sample_failed_fs, pe_host = Inr [], pe_exit_status = ''FAIL'',
     pe_md5 = id, pe_abort_time = (\<lambda>t. [])\<rparr>"

lemma sample_failed_env_of: "parser_env_of sample_failed_job sample_failed_fs id (\<lambda>t. []) = Some sample_failed_env"
proof -
  have top: "find_toplevel_job_dir sample_failed_fs ''/results/1-a'' = Some (Some ''/results/1-a'')"
    by (subst find_toplevel_job_dir.simps) code_simp
  have "exit_status sample_failed_fs ''/results/1-a'' = Some ''FAIL''"
    unfolding exit_status_def top option.case by code_simp
  moreover have "parse_host_keyval sample_failed_fs ''/results/1-a'' ''host1'' = Some (Inr [])"
    unfolding parse_host_keyval_def top option.case by code_simp
  ultimately show ?thesis
    by (simp add: parser_env_of_def sample_failed_job_def sample_log_job_def sample_failed_env_def)
qed

lemma parser_results_typed_witness:
  "list_all (\<lambda>i. i < length (ps_tests (snd (parser_end sample_failed_env sample_log initial_state))) \<and>
     tt_status (ps_tests (snd (parser_end sample_failed_env sample_log initial_state)) ! i) \<in> set job_statuses) [0, 1, 1, 1, 0]"
  unfolding list_all_iff
proof (rule parser_results_typed [OF _ reach_init])
  show "parser_env_of sample_failed_job sample_failed_fs id (\<lambda>t. []) = Some sample_failed_env" by (rule sample_failed_env_of)
  have "fst (parser_end sample_failed_env sample_log initial_state) = Inr [0, 1, 1, 1, 0]" by code_simp
  then have "parser_end sample_failed_env sample_log initial_state =
      (Inr [0, 1, 1, 1, 0], snd (parser_end sample_failed_env sample_log initial_state))" by (rule Inr_pair)
  then show "process_lines sample_failed_env sample_log initial_state =
      (Inr [0, 1, 1, 1, 0], snd (parser_end sample_failed_env sample_log initial_state)) \<or>
    parser_end sample_failed_env sample_log initial_state =
      (Inr [0, 1, 1, 1, 0], snd (parser_end sample_failed_env sample_log initial_state))" by (rule disjI2)
qed

end
