(* ===== verification/Parser_V0.thy ===== *)
theory Parser_V0
  imports Tko_Parser
begin

text \<open>
  The parser of old status logs, tko/parsers/version_0.py: its kernels and tests and the generator
  \<open>state_iterator\<close> with the interface of tko/parsers/base.py. A test is complete when it is created, so
  \<open>new_tests\<close> is a list of tests; the local variables of the generator are the fields of \<open>v0_state\<close>. The
  attribute \<open>version\<close> of a test is a field of its own, the text of a float is a parameter.
\<close>

section \<open>Kernels\<close>

text \<open>\<open>line.split(": ", 1)\<close> where it has two parts, None otherwise.\<close>

fun split_colon :: "string \<Rightarrow> (string \<times> string) option" where
  "split_colon [] = None"
| "split_colon (c # cs) =
     (if c = CHR '':'' \<and> cs \<noteq> [] \<and> hd cs = CHR '' '' then Some ([], tl cs)
      else map_option (\<lambda>(h, r). (c # h, r)) (split_colon cs))"

fun build_log_lines :: "string list \<Rightarrow> string \<times> patch list \<times> string list \<Rightarrow> exn + string \<times> patch list \<times> string list" where
  "build_log_lines [] a = Inr a"
| "build_log_lines (l # ls) (base, patches, hashes) = (case split_colon l of
       None \<Rightarrow> Inl ValueError
     | Some (h, r) \<Rightarrow>
         (let rest = py_split r in
         if h = ''BASE'' then
           (case rest of [] \<Rightarrow> Inl IndexError | b # _ \<Rightarrow> build_log_lines ls (b, patches, hashes))
         else if h = ''PATCH'' then
           sbind (new_patch rest) (\<lambda>p. build_log_lines ls (base, patches @ [p], hashes @ [pt_hash p]))
         else build_log_lines ls (base, patches, hashes)))"

definition load_from_build_log :: "file_system \<Rightarrow> string \<Rightarrow> exn + (string \<times> patch list \<times> string list) option" where
  "load_from_build_log fs p =
     (if \<not> path_exists fs p then Inr None
      else case file_contents fs p of
          None \<Rightarrow> Inl IOError
        | Some t \<Rightarrow> sbind (build_log_lines (file_lines t) (''UNKNOWN'', [], [])) (\<lambda>a. Inr (Some a)))"

definition uname_release :: "file_system \<Rightarrow> string \<Rightarrow> exn + string" where
  "uname_release fs p = (case first_file_line fs p of
       None \<Rightarrow> Inl IOError
     | Some l \<Rightarrow> (case py_split l of _ # _ # release # _ \<Rightarrow> Inr (without_autotest release) | _ \<Rightarrow> Inl IndexError))"

fun sysinfo_loop :: "file_system \<Rightarrow> string \<Rightarrow> string list \<Rightarrow> exn + string" where
  "sysinfo_loop fs path [] = Inr ''UNKNOWN''"
| "sysinfo_loop fs path (d # ds) =
     (let p = path_join (path_join (path_join path ''sysinfo'') d) ''uname_-a''
      in if \<not> path_exists fs p then sysinfo_loop fs path ds else uname_release fs p)"

definition load_from_sysinfo :: "file_system \<Rightarrow> string \<Rightarrow> exn + string" where
  "load_from_sysinfo fs path = sysinfo_loop fs path [''reboot1'', []]"

text \<open>
  The directories \<open>build\<close>, \<open>build.2\<close>, ... up to the first that does not exist: one of the first names does
  not, as there are more names than files and directories (\<open>build_dirs_end\<close>).
\<close>

definition build_name :: "nat \<Rightarrow> string" where
  "build_name i = (if i = 1 then ''build'' else ''build.'' @ str_of_nat i)"

definition build_dirs :: "file_system \<Rightarrow> string \<Rightarrow> string list" where
  "build_dirs fs dir = takeWhile (path_exists fs)
     (map (\<lambda>i. path_join dir (build_name i)) [1..<length (fs_files fs) + length (fs_dirs fs) + 2])"

fun first_build :: "file_system \<Rightarrow> string list \<Rightarrow> exn + (string \<times> patch list \<times> string list) option" where
  "first_build fs [] = Inr None"
| "first_build fs (d # ds) =
     sbind (load_from_build_log fs (path_join (path_join d ''debug'') ''build_log'')) (\<lambda>a.
       if a = None then first_build fs ds else Inr a)"

record v0_env =
  ve_job :: tko_job
  ve_fs :: file_system
  ve_host :: "exn + keyval"
  ve_md5 :: "string \<Rightarrow> string"
  ve_float :: "string \<Rightarrow> string"

text \<open>\<open>kernel(job, verify_ident)\<close>, without an identity for the empty string.\<close>

definition kernel_base :: "file_system \<Rightarrow> string \<Rightarrow> string \<Rightarrow> exn + string" where
  "kernel_base fs dir verify_ident = (if verify_ident \<noteq> [] then Inr verify_ident else load_from_sysinfo fs dir)"

definition kernel_of :: "(string \<Rightarrow> string) \<Rightarrow> string \<Rightarrow> patch list \<Rightarrow> string list \<Rightarrow> kernel" where
  "kernel_of md5 base patches hashes =
     \<lparr>kn_base = base, kn_patches = patches,
      kn_hash = (if base = ''UNKNOWN'' then ''UNKNOWN'' else compute_hash md5 base hashes)\<rparr>"

definition kernel_v0 :: "v0_env \<Rightarrow> string \<Rightarrow> exn + kernel" where
  "kernel_v0 env verify_ident =
     (let fs = ve_fs env; dir = tj_dir (ve_job env) in
     sbind (first_build fs (build_dirs fs dir)) (\<lambda>attributes.
     sbind (case attributes of
         None \<Rightarrow> sbind (kernel_base fs dir verify_ident) (\<lambda>base. Inr (base, [], []))
       | Some a \<Rightarrow> Inr a) (\<lambda>(base, patches, hashes).
     Inr (kernel_of (ve_md5 env) base patches hashes))))"

section \<open>Tests\<close>

record test_v0 = tko_test +
  t0_version :: "string option"

text \<open>\<open>iteration.parse_line_into_dicts\<close> keeps every value, as text.\<close>

fun load_iterations_v0 ::
  "string list \<Rightarrow> nat \<Rightarrow> (string \<times> string) list \<Rightarrow> iteration list \<Rightarrow> exn + iteration list" where
  "load_iterations_v0 [] index perf its =
     Inr (if perf \<noteq> [] then its @ [\<lparr>it_index = index, it_attr = [], it_perf = perf\<rparr>] else its)"
| "load_iterations_v0 (l # ls) index perf its =
     (let t = py_strip l
      in if t \<noteq> [] then
           (case split_eq t of
              None \<Rightarrow> Inl ValueError
            | Some (k, v) \<Rightarrow> load_iterations_v0 ls index (alist_put k v perf) its)
         else load_iterations_v0 ls (index + 1) [] (its @ [\<lparr>it_index = index, it_attr = [], it_perf = perf\<rparr>]))"

definition load_from_keyval_v0 :: "file_system \<Rightarrow> string \<Rightarrow> exn + iteration list" where
  "load_from_keyval_v0 fs p =
     (if \<not> path_exists fs p then Inr []
      else case file_contents fs p of
          None \<Rightarrow> Inl IOError
        | Some t \<Rightarrow> load_iterations_v0 (file_lines t) 1 [] [])"

text \<open>\<open>str(value)\<close>\<close>

definition value_text :: "(string \<Rightarrow> string) \<Rightarrow> keyval_value \<Rightarrow> string" where
  "value_text float_text v = (case v of KInt n \<Rightarrow> str_of_nat n | KFloat s \<Rightarrow> float_text s | KStr s \<Rightarrow> s)"

definition test_files_v0 :: "v0_env \<Rightarrow> string option \<Rightarrow> exn + iteration list \<times> keyval" where
  "test_files_v0 env subdir = (case subdir of
       Some (c # cs) \<Rightarrow>
         (let d = path_join (tj_dir (ve_job env)) (c # cs)
          in sbind (load_from_keyval_v0 (ve_fs env) (path_join (path_join d ''results'') ''keyval'')) (\<lambda>its.
             sbind (load_attributes (ve_fs env) (path_join d ''keyval'')) (\<lambda>attrs. Inr (its, attrs))))
     | _ \<Rightarrow> Inr ([], []))"

definition parse_test_v0 ::
  "v0_env \<Rightarrow> string option \<Rightarrow> string \<Rightarrow> string \<Rightarrow> string option \<Rightarrow> kernel \<Rightarrow> int option \<Rightarrow> int option \<Rightarrow> exn + test_v0" where
  "parse_test_v0 env subdir testname status reason k started finished =
     sbind (test_files_v0 env subdir) (\<lambda>(its, attrs).
     sbind (ve_host env) (\<lambda>h.
       (let attributes = add_host_attributes h attrs in
       Inr \<lparr>tt_subdir = subdir, tt_testname = Some testname, tt_status = status, tt_reason = reason, tt_kernel = k,
            tt_machine = tj_machine (ve_job env), tt_started_time = started, tt_finished_time = finished,
            tt_iterations = its, tt_attributes = filter (\<lambda>(a, v). a \<noteq> ''version'') attributes,
            t0_version = map_option (value_text (ve_float env)) (map_of attributes ''version'')\<rparr>)))"

section \<open>One line\<close>

text \<open>The class method \<open>parse_line\<close> with the constructor of this version.\<close>

definition parse_line_v0 :: "string \<Rightarrow> exn + status_line option" where
  "parse_line_v0 l =
     (if \<not> is_status_line l then Inr None
      else case split_on tab (rstrip_char newline (dropWhile (\<lambda>c. c = tab) l)) of
           status # subdir # testname # ps \<Rightarrow>
             (let (optional_fields, rest) = optional_fields_loop ps []
              in sbind (status_line_v0 (length (takeWhile (\<lambda>c. c = tab) l)) status subdir testname
                   (str_join [tab] rest) optional_fields) (\<lambda>s. Inr (Some s)))
         | _ \<Rightarrow> Inl ValueError)"

record v0_state =
  z_tests :: "test_v0 list"
  z_boot_count :: nat
  z_group_subdir :: "string option"
  z_sought_level :: nat
  z_stack :: "string list"
  z_kernel :: kernel
  z_boot_in_progress :: bool
  z_alert_pending :: "string option"
  z_started :: "int option"

definition initial_v0 :: "kernel \<Rightarrow> v0_state" where
  "initial_v0 k = \<lparr>z_tests = [], z_boot_count = 0, z_group_subdir = None, z_sought_level = 0, z_stack = stack_init,
     z_kernel = k, z_boot_in_progress = False, z_alert_pending = None, z_started = None\<rparr>"

definition line_time :: "status_line \<Rightarrow> exn + int option" where
  "line_time l = field_timestamp (ln_fields l) ''timestamp''"

text \<open>\<open>^(boot(\\.\\d+)?$|kernel\\.)\<close>\<close>

definition boot_or_kernel :: "string \<Rightarrow> bool" where
  "boot_or_kernel name \<longleftrightarrow> starts_with name ''kernel.'' \<or>
     (let t = without_final_newline name in t = ''boot'' \<or> starts_with t ''boot.'' \<and> all_digits (drop 5 t))"

definition name_by_subdir :: "string \<Rightarrow> string option \<Rightarrow> string" where
  "name_by_subdir name subdir =
     (case subdir of Some d \<Rightarrow> if \<not> boot_or_kernel name \<and> CHR ''.'' \<in> set d then d else name | None \<Rightarrow> name)"

definition v0_finish :: "v0_env \<Rightarrow> status_line \<Rightarrow> string \<Rightarrow> string option \<Rightarrow> v0_state \<Rightarrow> exn + v0_state" where
  "v0_finish env l name subdir s =
     (let (reason, s1) = (if has_reason (z_alert_pending s) then (z_alert_pending s, s\<lparr>z_alert_pending := None\<rparr>)
                          else (ln_reason l, s)) in
     sbind (line_time l) (\<lambda>finished.
     sbind (parse_test_v0 env subdir name (fst (stack_end (z_stack s1))) reason (z_kernel s1) (z_started s1) finished) (\<lambda>t.
     Inr (s1\<lparr>z_stack := snd (stack_end (z_stack s1)), z_started := None, z_tests := z_tests s1 @ [t]\<rparr>))))"

definition v0_rebooted :: "v0_env \<Rightarrow> status_line \<Rightarrow> v0_state \<Rightarrow> exn + v0_state" where
  "v0_rebooted env l s =
     sbind (kernel_v0 env (py_strip (shown (ln_reason l)))) (\<lambda>k.
     Inr (s\<lparr>z_boot_in_progress := False, z_kernel := k, z_boot_count := z_boot_count s + 1\<rparr>))"

definition v0_named :: "v0_env \<Rightarrow> status_line \<Rightarrow> string \<Rightarrow> string option \<Rightarrow> v0_state \<Rightarrow> exn + v0_state" where
  "v0_named env l testname subdir s =
     (if ln_indent l \<noteq> z_sought_level s \<and> line_status l \<noteq> ''ABORT'' \<and> \<not> starts_with testname ''reboot.'' then
        Inr (if has_reason subdir then s\<lparr>z_group_subdir := subdir\<rparr> else s)
      else let name = name_by_subdir testname subdir in
        if name = ''reboot.start'' then
          sbind (line_time l) (\<lambda>t. Inr (s\<lparr>z_started := t, z_boot_in_progress := True\<rparr>))
        else if name = ''reboot.verify'' then
          sbind (v0_rebooted env l s) (v0_finish env l (''boot.'' @ str_of_nat (z_boot_count s)) subdir)
        else v0_finish env l name subdir s)"

definition v0_testname :: "status_line \<Rightarrow> string option" where
  "v0_testname l = (case ln_testname l of
       Some n \<Rightarrow> Some n
     | None \<Rightarrow> if line_status l = ''ABORT'' \<and> ln_type l \<noteq> LEnd then Some ''CLIENT_JOB'' else None)"

definition v0_report :: "v0_env \<Rightarrow> status_line \<Rightarrow> v0_state \<Rightarrow> exn + v0_state" where
  "v0_report env l s =
     (if line_status l = ''ALERT'' then Inr (s\<lparr>z_alert_pending := ln_reason l\<rparr>)
      else if ln_testname l = Some ''Autotest.install'' \<and> line_status l = ''GOOD'' then Inr s
      else if ln_testname l = Some ''reboot'' \<and> ln_type l = LEnd then Inr s
      else case v0_testname l of
          None \<Rightarrow> Inr s
        | Some name \<Rightarrow> v0_named env l name (if ln_type l = LEnd then z_group_subdir s else ln_subdir l) s)"

definition v0_start_line :: "status_line \<Rightarrow> v0_state \<Rightarrow> exn + v0_state" where
  "v0_start_line l s =
     (let s' = s\<lparr>z_group_subdir := None, z_stack := stack_start (z_stack s)\<rparr>
      in if ln_indent l = z_sought_level s then sbind (line_time l) (\<lambda>t. Inr (s'\<lparr>z_started := t\<rparr>)) else Inr s')"

definition v0_status_line :: "v0_env \<Rightarrow> status_line \<Rightarrow> v0_state \<Rightarrow> exn + v0_state" where
  "v0_status_line env l s =
     (let job_line = \<not> has_reason (ln_subdir l) \<and> \<not> has_reason (ln_testname l) in
     if ln_type l = LStart \<and> job_line then Inr (s\<lparr>z_sought_level := 1\<rparr>)
     else let s' = (if ln_type l = LEnd \<and> job_line then s\<lparr>z_sought_level := 0\<rparr> else s) in
       if ln_type l = LStart then v0_start_line l s'
       else v0_report env l (s'\<lparr>z_stack := stack_update (line_status l) (z_stack s')\<rparr>))"

definition v0_line :: "v0_env \<Rightarrow> string \<Rightarrow> v0_state \<Rightarrow> exn + v0_state" where
  "v0_line env raw s = sbind (parse_line_v0 raw) (\<lambda>p. case p of None \<Rightarrow> Inr s | Some l \<Rightarrow> v0_status_line env l s)"

section \<open>The generator\<close>

text \<open>The lines of the buffer, and those left when one raises.\<close>

fun v0_lines :: "v0_env \<Rightarrow> string list \<Rightarrow> v0_state \<Rightarrow> (exn + v0_state) \<times> string list" where
  "v0_lines env [] s = (Inr s, [])"
| "v0_lines env (l # ls) s = (case v0_line env l s of Inl e \<Rightarrow> (Inl e, ls) | Inr s' \<Rightarrow> v0_lines env ls s')"

text \<open>The job is finished, but the machine never came back from reboot.\<close>

definition v0_final :: "v0_env \<Rightarrow> v0_state \<Rightarrow> exn + v0_state" where
  "v0_final env s =
     (if z_boot_in_progress s then
        sbind (parse_test_v0 env None (''boot.'' @ str_of_nat (z_boot_count s)) ''ABORT''
          (Some ''machine did not return from reboot'') (z_kernel s) None None) (\<lambda>t.
        Inr (s\<lparr>z_tests := z_tests s @ [t]\<rparr>))
      else Inr s)"

record v0_parser =
  vp_finished :: bool
  vp_buffer :: "string list"
  vp_phase :: parser_phase
  vp_state :: v0_state

definition start_v0 :: "v0_env \<Rightarrow> exn + v0_parser" where
  "start_v0 env = sbind (kernel_v0 env []) (\<lambda>k.
     Inr \<lparr>vp_finished = False, vp_buffer = [], vp_phase = Waiting, vp_state = initial_v0 k\<rparr>)"

definition resume_v0 :: "v0_env \<Rightarrow> v0_parser \<Rightarrow> (exn + test_v0 list option) \<times> v0_parser" where
  "resume_v0 env p =
     (if vp_phase p = Waiting then
        (case v0_lines env (vp_buffer p) ((vp_state p)\<lparr>z_tests := []\<rparr>) of
           (Inl e, rest) \<Rightarrow> (Inl e, p\<lparr>vp_buffer := rest, vp_phase := Over\<rparr>)
         | (Inr s, rest) \<Rightarrow>
             if vp_finished p then
               (case v0_final env s of
                  Inl e \<Rightarrow> (Inl e, p\<lparr>vp_buffer := rest, vp_phase := Over\<rparr>)
                | Inr s' \<Rightarrow> (Inr (Some (z_tests s')), p\<lparr>vp_buffer := rest, vp_phase := Reported, vp_state := s'\<rparr>))
             else (Inr (Some (z_tests s)), p\<lparr>vp_buffer := rest, vp_state := s\<rparr>))
      else (Inr None, p\<lparr>vp_phase := Over\<rparr>))"

definition tests_or_none :: "(exn + test_v0 list option) \<times> v0_parser \<Rightarrow> (exn + test_v0 list) \<times> v0_parser" where
  "tests_or_none r = (case fst r of Inl e \<Rightarrow> Inl e | Inr None \<Rightarrow> Inr [] | Inr (Some ts) \<Rightarrow> Inr ts, snd r)"

definition process_lines_v0 :: "v0_env \<Rightarrow> string list \<Rightarrow> v0_parser \<Rightarrow> (exn + test_v0 list) \<times> v0_parser" where
  "process_lines_v0 env ls p = tests_or_none (resume_v0 env (p\<lparr>vp_buffer := buffer_put_multiple ls (vp_buffer p)\<rparr>))"

definition end_v0 :: "v0_env \<Rightarrow> string list \<Rightarrow> v0_parser \<Rightarrow> (exn + test_v0 list) \<times> v0_parser" where
  "end_v0 env ls p = tests_or_none (resume_v0 env
     (p\<lparr>vp_buffer := buffer_put_multiple ls (vp_buffer p), vp_finished := True\<rparr>))"

text \<open>The search for the build log stops at a name that does not exist, never at the bound.\<close>

lemma build_names_inj: "inj_on (\<lambda>i. path_join dir (build_name i)) I"
proof (rule inj_onI)
  fix i j assume eq: "path_join dir (build_name i) = path_join dir (build_name j)"
  have "path_join dir (build_name k) = (if dir = [] \<or> last dir = CHR ''/'' then dir else dir @ ''/'') @ build_name k" for k
    by (simp add: path_join_def build_name_def)
  with eq have "build_name i = build_name j" by simp
  then show "i = j" by (auto simp: build_name_def split: if_splits) (metis nat_of_digits_str_of_nat)
qed

lemma build_dirs_end:
  "\<exists>i \<in> {1..<length (fs_files fs) + length (fs_dirs fs) + 2}. \<not> path_exists fs (path_join dir (build_name i))"
proof (rule ccontr)
  assume all: "\<not> ?thesis"
  have exists: "path_exists fs p \<Longrightarrow> p \<in> set (map fst (fs_files fs) @ fs_dirs fs)" for p
    using map_of_eq_None_iff [of "fs_files fs" p] by (auto simp: path_exists_def file_contents_def is_dir_def)
  have "(\<lambda>i. path_join dir (build_name i)) ` {1..<length (fs_files fs) + length (fs_dirs fs) + 2} \<subseteq>
      set (map fst (fs_files fs) @ fs_dirs fs)"
  proof (rule image_subsetI, rule exists)
    fix i assume "i \<in> {1..<length (fs_files fs) + length (fs_dirs fs) + 2}"
    with all show "path_exists fs (path_join dir (build_name i))" by blast
  qed
  from card_mono [OF _ this] have "length (fs_files fs) + length (fs_dirs fs) + 1 \<le> card (set (map fst (fs_files fs) @ fs_dirs fs))"
    by (simp add: card_image build_names_inj)
  also have "\<dots> \<le> length (map fst (fs_files fs) @ fs_dirs fs)" by (rule card_length)
  finally show False by simp
qed

section \<open>The log in pieces\<close>

text \<open>The tests found before do not matter for a line.\<close>

definition after_tests :: "test_v0 list \<Rightarrow> v0_state \<Rightarrow> v0_state" where
  "after_tests ts s = s\<lparr>z_tests := ts @ z_tests s\<rparr>"

lemma after_tests_read [simp]:
  "z_tests (after_tests ts s) = ts @ z_tests s" "z_boot_count (after_tests ts s) = z_boot_count s"
  "z_group_subdir (after_tests ts s) = z_group_subdir s" "z_sought_level (after_tests ts s) = z_sought_level s"
  "z_stack (after_tests ts s) = z_stack s" "z_kernel (after_tests ts s) = z_kernel s"
  "z_boot_in_progress (after_tests ts s) = z_boot_in_progress s" "z_alert_pending (after_tests ts s) = z_alert_pending s"
  "z_started (after_tests ts s) = z_started s"
  by (simp_all add: after_tests_def)

lemma after_tests_write [simp]:
  "(after_tests ts s)\<lparr>z_group_subdir := g\<rparr> = after_tests ts (s\<lparr>z_group_subdir := g\<rparr>)"
  "(after_tests ts s)\<lparr>z_sought_level := n\<rparr> = after_tests ts (s\<lparr>z_sought_level := n\<rparr>)"
  "(after_tests ts s)\<lparr>z_stack := st\<rparr> = after_tests ts (s\<lparr>z_stack := st\<rparr>)"
  "(after_tests ts s)\<lparr>z_boot_in_progress := b\<rparr> = after_tests ts (s\<lparr>z_boot_in_progress := b\<rparr>)"
  "(after_tests ts s)\<lparr>z_boot_count := n\<rparr> = after_tests ts (s\<lparr>z_boot_count := n\<rparr>)"
  "(after_tests ts s)\<lparr>z_kernel := k\<rparr> = after_tests ts (s\<lparr>z_kernel := k\<rparr>)"
  "(after_tests ts s)\<lparr>z_alert_pending := a\<rparr> = after_tests ts (s\<lparr>z_alert_pending := a\<rparr>)"
  "(after_tests ts s)\<lparr>z_started := t\<rparr> = after_tests ts (s\<lparr>z_started := t\<rparr>)"
  "(after_tests ts s)\<lparr>z_tests := us\<rparr> = s\<lparr>z_tests := us\<rparr>"
  by (simp_all add: after_tests_def)

lemma after_tests_twice [simp]: "after_tests ts (after_tests us s) = after_tests (ts @ us) s"
  by (simp add: after_tests_def)

lemma tests_behind: "s\<lparr>z_tests := ts @ us\<rparr> = after_tests ts (s\<lparr>z_tests := us\<rparr>)"
  by (simp add: after_tests_def)

lemma sbind_map: "sbind r (\<lambda>x. map_sum id g (f x)) = map_sum id g (sbind r f)"
  by (cases r) simp_all

lemma sbind_after: "sbind (map_sum id g r) f = sbind r (\<lambda>x. f (g x))"
  by (cases r) simp_all

named_theorems after_ops \<open>steps that do not look at the tests found before\<close>

lemma after_finish [after_ops]: "v0_finish env l n d (after_tests ts s) = map_sum id (after_tests ts) (v0_finish env l n d s)"
  by (cases "line_time l") (simp_all add: v0_finish_def Let_def tests_behind flip: sbind_map)

lemma after_rebooted [after_ops]: "v0_rebooted env l (after_tests ts s) = map_sum id (after_tests ts) (v0_rebooted env l s)"
  by (simp add: v0_rebooted_def flip: sbind_map)

lemma after_named [after_ops]: "v0_named env l n d (after_tests ts s) = map_sum id (after_tests ts) (v0_named env l n d s)"
  by (simp add: v0_named_def Let_def after_ops sbind_after flip: sbind_map)

lemma after_report [after_ops]: "v0_report env l (after_tests ts s) = map_sum id (after_tests ts) (v0_report env l s)"
  by (simp add: v0_report_def after_ops split: option.split)

lemma after_start_line [after_ops]: "v0_start_line l (after_tests ts s) = map_sum id (after_tests ts) (v0_start_line l s)"
  by (simp add: v0_start_line_def Let_def flip: sbind_map)

lemma after_line [after_ops]: "v0_line env raw (after_tests ts s) = map_sum id (after_tests ts) (v0_line env raw s)"
proof -
  have "v0_status_line env l (after_tests ts s) = map_sum id (after_tests ts) (v0_status_line env l s)" for l
    by (simp add: v0_status_line_def Let_def after_ops)
  then show ?thesis by (cases "parse_line_v0 raw") (simp_all add: v0_line_def split: option.split)
qed

lemma after_final [after_ops]: "v0_final env (after_tests ts s) = map_sum id (after_tests ts) (v0_final env s)"
  by (simp add: v0_final_def tests_behind flip: sbind_map)

text \<open>The tests of the rest of a log, its end included.\<close>

definition remaining_tests :: "v0_env \<Rightarrow> string list \<Rightarrow> v0_state \<Rightarrow> exn + test_v0 list" where
  "remaining_tests env ls s = sbind (fst (v0_lines env ls s)) (\<lambda>s'. sbind (v0_final env s') (\<lambda>s''. Inr (z_tests s'')))"

lemma remaining_after:
  "remaining_tests env ls (after_tests ts s) = map_sum id ((@) ts) (remaining_tests env ls s)"
proof (induction ls arbitrary: s)
  case Nil
  then show ?case by (cases "v0_final env s") (simp_all add: remaining_tests_def after_ops)
next
  case (Cons l ls)
  then show ?case by (cases "v0_line env l s") (simp_all add: remaining_tests_def after_ops)
qed

lemma remaining_append:
  "remaining_tests env (xs @ ys) s = sbind (fst (v0_lines env xs s)) (remaining_tests env ys)"
proof (induction xs arbitrary: s)
  case (Cons l ls)
  then show ?case by (cases "v0_line env l s") (simp_all add: remaining_tests_def)
qed (simp add: remaining_tests_def)

lemma v0_lines_all: "v0_lines env ls s = (Inr s', rest) \<Longrightarrow> rest = []"
  by (induction ls arbitrary: s) (auto split: sum.splits)

definition open_v0 :: "v0_parser \<Rightarrow> bool" where
  "open_v0 p \<longleftrightarrow> vp_phase p = Waiting \<and> \<not> vp_finished p \<and> vp_buffer p = []"

lemma end_v0_tests:
  assumes "open_v0 p"
  shows "fst (end_v0 env ls p) = remaining_tests env ls ((vp_state p)\<lparr>z_tests := []\<rparr>)"
  using assms
  by (auto simp: end_v0_def open_v0_def resume_v0_def tests_or_none_def remaining_tests_def buffer_put_multiple_def split: prod.splits sum.splits)

lemma process_lines_v0_run:
  assumes "open_v0 p"
  shows "process_lines_v0 env ls p = (r, p') \<Longrightarrow> (case fst (v0_lines env ls ((vp_state p)\<lparr>z_tests := []\<rparr>)) of
      Inl e \<Rightarrow> r = Inl e
    | Inr s \<Rightarrow> r = Inr (z_tests s) \<and> open_v0 p' \<and> vp_state p' = s)"
  using assms
  by (auto simp: process_lines_v0_def open_v0_def resume_v0_def tests_or_none_def buffer_put_multiple_def
      split: prod.splits sum.splits dest: v0_lines_all)

text \<open>Feeding the parser the pieces of a log one after the other, then ending it.\<close>

fun feed_v0 :: "v0_env \<Rightarrow> string list list \<Rightarrow> v0_parser \<Rightarrow> exn + test_v0 list" where
  "feed_v0 env [] p = fst (end_v0 env [] p)"
| "feed_v0 env (c # cs) p = (case process_lines_v0 env c p of
       (Inl e, p') \<Rightarrow> Inl e
     | (Inr ts, p') \<Rightarrow> map_sum id ((@) ts) (feed_v0 env cs p'))"

lemma feed_open: "open_v0 p \<Longrightarrow> feed_v0 env pieces p = fst (end_v0 env (concat pieces) p)"
proof (induction pieces arbitrary: p)
  case (Cons c cs)
  obtain r p' where run: "process_lines_v0 env c p = (r, p')" by (cases "process_lines_v0 env c p")
  let ?s = "(vp_state p)\<lparr>z_tests := []\<rparr>"
  have all: "fst (end_v0 env (concat (c # cs)) p) = sbind (fst (v0_lines env c ?s)) (remaining_tests env (concat cs))"
    by (simp add: end_v0_tests [OF Cons.prems] remaining_append)
  show ?case
  proof (cases "fst (v0_lines env c ?s)")
    case (Inl e)
    then show ?thesis using process_lines_v0_run [OF Cons.prems run] run all by simp
  next
    case (Inr s)
    then have r: "r = Inr (z_tests s)" "open_v0 p'" "vp_state p' = s" using process_lines_v0_run [OF Cons.prems run] by simp_all
    have "remaining_tests env (concat cs) s = map_sum id ((@) (z_tests s)) (remaining_tests env (concat cs) (s\<lparr>z_tests := []\<rparr>))"
      by (simp flip: remaining_after add: after_tests_def)
    then show ?thesis using run r all Inr Cons.IH [OF r(2)] by (simp add: end_v0_tests)
  qed
qed simp

text \<open>
  C25 (equivalence; tko/parsers/version_0.py, \<open>state_iterator\<close>; tko/parsers/base.py). The parser of old logs is
  incremental: however the lines of a log are cut into pieces for \<open>process_lines\<close>, all calls together report
  the same tests in the same order, or raise the same exception, as one call of \<open>end\<close> with the whole log.
\<close>

theorem v0_log_in_pieces:
  assumes "start_v0 env = Inr p"
  shows "feed_v0 env pieces p = fst (end_v0 env (concat pieces) p)"
  by (rule feed_open) (use assms in \<open>auto simp: start_v0_def sbind_Inr open_v0_def\<close>)

definition old_job :: tko_job where
  "old_job = \<lparr>tj_dir = ''results'', tj_user = None, tj_label = None, tj_machine = ''host1'', tj_machine_group = [],
     tj_machine_owner = None, tj_queued_time = None, tj_started_time = Some 1, tj_finished_time = Some 9,
     tj_aborted_by = None, tj_aborted_on = None, tj_keyval_dict = []\<rparr>"

definition old_env :: v0_env where
  "old_env = \<lparr>ve_job = old_job, ve_fs = \<lparr>fs_files = [(''results/build/debug/build_log'', ''BASE: 2.6.18'' @ [newline])],
     fs_dirs = [''results/build'']\<rparr>, ve_host = Inr [], ve_md5 = id, ve_float = id\<rparr>"

definition old_line :: "nat \<Rightarrow> string \<Rightarrow> string \<Rightarrow> string \<Rightarrow> string" where
  "old_line n status name reason = replicate n tab @ status @ [tab] @ name @ [tab] @ name @ [tab] @ ''timestamp=3'' @ [tab] @ reason"

definition old_log :: "string list list" where
  "old_log = [[old_line 0 ''START'' ''----'' [], old_line 1 ''START'' ''dbench'' []],
     [old_line 2 ''FAIL'' ''dbench'' ''crashed'', old_line 1 ''END FAIL'' ''dbench'' []],
     [old_line 1 ''GOOD'' ''reboot.start'' [], ''Traceback'']]"

text \<open>The log of a failed test and a reboot that never ends, in three pieces.\<close>

lemma v0_log_in_pieces_witness:
  "feed_v0 old_env old_log (case start_v0 old_env of Inr p \<Rightarrow> p) = fst (end_v0 old_env (concat old_log) (case start_v0 old_env of Inr p \<Rightarrow> p)) \<and>
   map_sum id (map (\<lambda>t. (tt_testname t, tt_status t, kn_base (tt_kernel t)))) (feed_v0 old_env old_log (case start_v0 old_env of Inr p \<Rightarrow> p)) =
     Inr [(Some ''dbench'', ''FAIL'', ''2.6.18''), (Some ''boot.0'', ''ABORT'', ''2.6.18'')]"
proof (rule conjI)
  have "case start_v0 old_env of Inl e \<Rightarrow> False | Inr p \<Rightarrow> True" by code_simp
  then have "start_v0 old_env = Inr (case start_v0 old_env of Inr p \<Rightarrow> p)" by (simp split: sum.splits)
  then show "feed_v0 old_env old_log (case start_v0 old_env of Inr p \<Rightarrow> p) =
      fst (end_v0 old_env (concat old_log) (case start_v0 old_env of Inr p \<Rightarrow> p))" by (rule v0_log_in_pieces)
qed code_simp

end
