(* ===== verification/Job_State.thy ===== *)
theory Job_State
  imports Texts
begin

text \<open>
  The state of a job, \<open>job_state\<close> of client/shared/base_job.py: named values in namespaces, kept in memory and,
  when there is a backing file, in step with it. Values are what can be pickled and copied; a file holds
  nothing, a pickled state, or something \<open>pickle.load\<close> refuses. Then the properties of \<open>base_job\<close> stored in
  it and the names of tests built from them.
\<close>

section \<open>State\<close>

type_synonym 'v state_dict = "(string \<times> (string \<times> 'v) list) list"

datatype 'v state_file = Empty | Pickled "'v state_dict" | Garbage

record 'v job_state =
  js_state :: "'v state_dict"
  js_backing_file :: "string option"
  js_initialized :: bool
  js_lock :: "string option"

text \<open>The files, those that cannot be opened for writing, and the object whose methods run.\<close>

record 'v job_world =
  jw_files :: "(string \<times> 'v state_file) list"
  jw_unwritable :: "string list"
  jw_self :: "'v job_state"

type_synonym ('v, 'a) stateful = "('v job_world, 'a) exm"

definition job_state_init :: "'v job_state" where
  "job_state_init = \<lparr>js_state = [], js_backing_file = None, js_initialized = False, js_lock = None\<rparr>"

definition state_of :: "'v job_world \<Rightarrow> 'v state_dict" where
  "state_of w = js_state (jw_self w)"

definition set_state_of :: "'v state_dict \<Rightarrow> ('v, unit) stateful" where
  "set_state_of d = modify (\<lambda>w. w\<lparr>jw_self := (jw_self w)\<lparr>js_state := d\<rparr>\<rparr>)"

text \<open>The backing file if there is one: None and the empty path are false.\<close>

definition backing :: "'v job_world \<Rightarrow> string option" where
  "backing w = (case js_backing_file (jw_self w) of Some (c # cs) \<Rightarrow> Some (c # cs) | _ \<Rightarrow> None)"

section \<open>Files\<close>

text \<open>\<open>open(path, mode)\<close> for writing; mode \<open>'a'\<close> keeps what the file holds.\<close>

definition open_append :: "string \<Rightarrow> ('v, unit) stateful" where
  "open_append p =
     bnd (gets (\<lambda>w. p \<in> set (jw_unwritable w))) (\<lambda>bad.
     if bad then throw IOError
     else modify (\<lambda>w. if map_of (jw_files w) p = None then w\<lparr>jw_files := alist_put p Empty (jw_files w)\<rparr> else w))"

definition write_to_file :: "string \<Rightarrow> ('v, unit) stateful" where
  "write_to_file p =
     bnd (gets (\<lambda>w. p \<in> set (jw_unwritable w))) (\<lambda>bad.
     if bad then throw IOError
     else modify (\<lambda>w. w\<lparr>jw_files := alist_put p (Pickled (state_of w)) (jw_files w)\<rparr>))"

definition load_file :: "string \<Rightarrow> ('v, 'v state_dict) stateful" where
  "load_file p =
     bnd (gets (\<lambda>w. map_of (jw_files w) p)) (\<lambda>f. case f of
       None \<Rightarrow> throw OSError
     | Some Empty \<Rightarrow> ret []
     | Some (Pickled d) \<Rightarrow> ret d
     | Some Garbage \<Rightarrow> throw UnpicklingError)"

definition lock_backing_file :: "('v, unit) stateful" where
  "lock_backing_file =
     bnd (gets backing) (\<lambda>b. case b of
       None \<Rightarrow> ret ()
     | Some p \<Rightarrow> andthen (open_append p) (modify (\<lambda>w. w\<lparr>jw_self := (jw_self w)\<lparr>js_lock := Some p\<rparr>\<rparr>)))"

definition unlock_backing_file :: "('v, unit) stateful" where
  "unlock_backing_file = modify (\<lambda>w. w\<lparr>jw_self := (jw_self w)\<lparr>js_lock := None\<rparr>\<rparr>)"

text \<open>The decorators of the methods.\<close>

definition with_backing_lock :: "('v, 'a) stateful \<Rightarrow> ('v, 'a) stateful" where
  "with_backing_lock m =
     bnd (gets (\<lambda>w. js_lock (jw_self w) \<noteq> None)) (\<lambda>already.
     andthen (when_do (\<not> already) lock_backing_file)
       (finally_do m (when_do (\<not> already) unlock_backing_file)))"

definition write_to_backing_file :: "('v, unit) stateful" where
  "write_to_backing_file = bnd (gets backing) (\<lambda>b. case b of None \<Rightarrow> ret () | Some p \<Rightarrow> write_to_file p)"

text \<open>Merging one namespace and all of them: what is on disk wins.\<close>

definition merge_namespace :: "(string \<times> 'v) list \<Rightarrow> (string \<times> 'v) list \<Rightarrow> (string \<times> 'v) list" where
  "merge_namespace disk mem = foldl (\<lambda>d (name, v). if map_of d name = Some v then d else alist_put name v d) mem disk"

definition merge_state :: "'v state_dict \<Rightarrow> 'v state_dict \<Rightarrow> 'v state_dict" where
  "merge_state disk mem = foldl (\<lambda>d (ns, nd).
     alist_put ns (merge_namespace nd (case map_of d ns of None \<Rightarrow> [] | Some m \<Rightarrow> m)) d) mem disk"

definition read_from_file :: "string \<Rightarrow> bool \<Rightarrow> ('v, unit) stateful" where
  "read_from_file p merge =
     bnd (load_file p) (\<lambda>disk.
     bnd (gets state_of) (\<lambda>mem.
     andthen (set_state_of (if merge then merge_state disk mem else disk))
       (with_backing_lock write_to_backing_file)))"

definition read_from_backing_file :: "('v, unit) stateful" where
  "read_from_backing_file =
     bnd (gets backing) (\<lambda>b. case b of
       None \<Rightarrow> ret ()
     | Some p \<Rightarrow>
         bnd (gets (\<lambda>w. \<not> js_initialized (jw_self w))) (\<lambda>merge.
         andthen (read_from_file p merge)
           (modify (\<lambda>w. w\<lparr>jw_self := (jw_self w)\<lparr>js_initialized := True\<rparr>\<rparr>))))"

definition with_backing_file :: "('v, 'a) stateful \<Rightarrow> ('v, 'a) stateful" where
  "with_backing_file m = with_backing_lock (andthen read_from_backing_file (finally_do m write_to_backing_file))"

definition synchronize_backing_file :: "('v, unit) stateful" where
  "synchronize_backing_file = with_backing_file (ret ())"

definition set_backing_file :: "string option \<Rightarrow> ('v, unit) stateful" where
  "set_backing_file p =
     andthen synchronize_backing_file (
     andthen (modify (\<lambda>w. w\<lparr>jw_self := (jw_self w)\<lparr>js_backing_file := p, js_initialized := False\<rparr>\<rparr>))
       synchronize_backing_file)"

section \<open>Operations\<close>

definition ns_get :: "string \<Rightarrow> string \<Rightarrow> 'v state_dict \<Rightarrow> 'v option" where
  "ns_get ns n d = (case map_of d ns of None \<Rightarrow> None | Some nd \<Rightarrow> map_of nd n)"

definition ns_set :: "string \<Rightarrow> string \<Rightarrow> 'v \<Rightarrow> 'v state_dict \<Rightarrow> 'v state_dict" where
  "ns_set ns n v d = alist_put ns (alist_put n v (case map_of d ns of None \<Rightarrow> [] | Some nd \<Rightarrow> nd)) d"

definition ns_discard :: "string \<Rightarrow> string \<Rightarrow> 'v state_dict \<Rightarrow> 'v state_dict" where
  "ns_discard ns n d = (case map_of d ns of
       None \<Rightarrow> d
     | Some nd \<Rightarrow> (let nd' = alist_del n nd in if nd' = [] then alist_del ns d else alist_put ns nd' d))"

definition state_has :: "string \<Rightarrow> string \<Rightarrow> ('v, bool) stateful" where
  "state_has ns n = with_backing_file (gets (\<lambda>w. ns_get ns n (state_of w) \<noteq> None))"

definition state_get :: "string \<Rightarrow> string \<Rightarrow> 'v option \<Rightarrow> ('v, 'v) stateful" where
  "state_get ns n dflt = with_backing_file (
     bnd (state_has ns n) (\<lambda>b.
     if b then bnd (gets (\<lambda>w. ns_get ns n (state_of w))) (some_or KeyError)
     else some_or KeyError dflt))"

definition state_set :: "string \<Rightarrow> string \<Rightarrow> 'v \<Rightarrow> ('v, unit) stateful" where
  "state_set ns n v = with_backing_file (bnd (gets state_of) (\<lambda>d. set_state_of (ns_set ns n v d)))"

definition state_discard :: "string \<Rightarrow> string \<Rightarrow> ('v, unit) stateful" where
  "state_discard ns n = with_backing_file (
     bnd (state_has ns n) (\<lambda>b.
     when_do b (bnd (gets state_of) (\<lambda>d. set_state_of (ns_discard ns n d)))))"

definition discard_namespace :: "string \<Rightarrow> ('v, unit) stateful" where
  "discard_namespace ns = with_backing_file (
     bnd (gets state_of) (\<lambda>d. when_do (map_of d ns \<noteq> None) (set_state_of (alist_del ns d))))"

section \<open>Dictionaries as functions\<close>

definition state_lookup :: "'v state_dict \<Rightarrow> string \<Rightarrow> string \<Rightarrow> 'v option" where
  "state_lookup d ns n = ns_get ns n d"

lemmas lookup_defs = state_lookup_def ns_get_def

lemma lookup_nil [simp]: "state_lookup [] = (\<lambda>ns n. None)"
  by (simp add: lookup_defs fun_eq_iff)

lemma lookup_set [simp]:
  "state_lookup (ns_set ns n v d) = (state_lookup d)(ns := (state_lookup d ns)(n \<mapsto> v))"
  by (auto simp: lookup_defs ns_set_def fun_eq_iff split: option.splits)

lemma alist_del_nil: "alist_del k d = [] \<Longrightarrow> map_of d = (map_of d)(k := None) \<or> (\<exists>v. map_of d = [k \<mapsto> v])"
proof -
  assume d: "alist_del k d = []"
  have "map_of (alist_del k d) = (map_of d)(k := None)" by simp
  then have "(map_of d)(k := None) = Map.empty" using d by simp
  then have "\<And>x. x \<noteq> k \<Longrightarrow> map_of d x = None" by (metis fun_upd_other)
  then show ?thesis by (cases "map_of d k") (auto simp: fun_eq_iff)
qed

lemma lookup_discard [simp]:
  "state_lookup (ns_discard ns n d) = (state_lookup d)(ns := (state_lookup d ns)(n := None))"
proof -
  have "(map_of nd)(n := None) = Map.empty" if "alist_del n nd = []" for nd :: "(string \<times> 'a) list"
    using map_of_alist_del [of n nd] that by simp
  then show ?thesis
    by (auto simp: lookup_defs ns_discard_def fun_eq_iff Let_def fun_upd_def split: option.splits) metis+
qed

lemma lookup_del [simp]: "state_lookup (alist_del ns d) = (state_lookup d)(ns := (\<lambda>n. None))"
  by (auto simp: lookup_defs fun_eq_iff split: option.splits)

lemma map_of_merge_namespace:
  "map_of (merge_namespace disk mem) = map_of mem ++ map_of (rev disk)"
proof -
  show ?thesis unfolding merge_namespace_def
  proof (induction disk arbitrary: mem)
    case (Cons p disk)
    obtain n v where p: "p = (n, v)" by (cases p)
    have "map_of (if map_of mem n = Some v then mem else alist_put n v mem) = (map_of mem)(n \<mapsto> v)"
      by (simp add: fun_upd_idem)
    then show ?case using Cons [of "if map_of mem n = Some v then mem else alist_put n v mem"]
      by (simp add: p map_add_def fun_eq_iff split: option.split)
  qed simp
qed

lemma alist_put_twice [simp]: "alist_put k x (alist_put k y d) = alist_put k x d"
  by (induction d rule: alist_put.induct) auto

text \<open>The dictionaries of Python have each key once.\<close>

definition dict_ok :: "'v state_dict \<Rightarrow> bool" where
  "dict_ok d \<longleftrightarrow> distinct (map fst d) \<and> list_all (\<lambda>p. distinct (map fst (snd p))) d"

lemma dict_ok_nil [simp]: "dict_ok []"
  by (simp add: dict_ok_def)

lemma list_all_put: "list_all P d \<Longrightarrow> P (k, v) \<Longrightarrow> list_all P (alist_put k v d)"
  by (induction k v d rule: alist_put.induct) auto

lemma list_all_del: "list_all P d \<Longrightarrow> list_all P (alist_del k d)"
  by (induction k d rule: alist_del.induct) auto

lemma dict_ok_names: "dict_ok d \<Longrightarrow> map_of d ns = Some nd \<Longrightarrow> distinct (map fst nd)"
  using map_of_SomeD by (fastforce simp: dict_ok_def list_all_iff)

lemma dict_ok_put: "dict_ok d \<Longrightarrow> distinct (map fst nd) \<Longrightarrow> dict_ok (alist_put ns nd d)"
  by (simp add: dict_ok_def distinct_alist_put list_all_put)

lemma dict_ok_del: "dict_ok d \<Longrightarrow> dict_ok (alist_del ns d)"
  by (simp add: dict_ok_def distinct_alist_del list_all_del)

lemma dict_ok_set: "dict_ok d \<Longrightarrow> dict_ok (ns_set ns n v d)"
  unfolding ns_set_def
  by (rule dict_ok_put) (auto intro!: distinct_alist_put dict_ok_names split: option.split)

lemma dict_ok_discard: "dict_ok d \<Longrightarrow> dict_ok (ns_discard ns n d)"
  by (auto simp: ns_discard_def Let_def intro!: dict_ok_put dict_ok_del distinct_alist_del dict_ok_names split: option.split)

lemma distinct_merge_namespace: "distinct (map fst mem) \<Longrightarrow> distinct (map fst (merge_namespace disk mem))"
  unfolding merge_namespace_def
  by (induction disk arbitrary: mem) (auto simp: distinct_alist_put)

lemma dict_ok_merge: "dict_ok mem \<Longrightarrow> dict_ok (merge_state disk mem)"
proof (induction disk arbitrary: mem)
  case (Cons p disk)
  obtain ns nd where p: "p = (ns, nd)" by (cases p)
  have "dict_ok (alist_put ns (merge_namespace nd (case map_of mem ns of None \<Rightarrow> [] | Some m \<Rightarrow> m)) mem)"
    by (rule dict_ok_put [OF Cons.prems], rule distinct_merge_namespace)
      (auto intro: dict_ok_names [OF Cons.prems] split: option.split)
  from Cons.IH [OF this] show ?case by (simp add: merge_state_def p)
qed (simp add: merge_state_def)

lemma lookup_put: "state_lookup (alist_put ns nd d) = (state_lookup d)(ns := map_of nd)"
  by (auto simp: lookup_defs fun_eq_iff)

lemma lookup_merge:
  "dict_ok disk \<Longrightarrow> state_lookup (merge_state disk mem) ns n =
     (case state_lookup disk ns n of Some v \<Rightarrow> Some v | None \<Rightarrow> state_lookup mem ns n)"
proof (induction disk arbitrary: mem)
  case (Cons p disk)
  obtain k nd where p: "p = (k, nd)" by (cases p)
  let ?old = "case map_of mem k of None \<Rightarrow> [] | Some m \<Rightarrow> m"
  have ok: "dict_ok disk" "k \<notin> fst ` set disk" "distinct (map fst nd)" using Cons.prems by (auto simp: dict_ok_def p)
  have new: "state_lookup disk k n = None" for n using ok(2) by (simp add: lookup_defs map_of_eq_None_iff [THEN iffD2])
  have "map_of (rev nd) = map_of nd" using ok(3) by (simp add: map_of_inject_set rev_map [symmetric])
  moreover have "map_of ?old = state_lookup mem k" by (auto simp: lookup_defs fun_eq_iff split: option.split)
  ultimately have "state_lookup (alist_put k (merge_namespace nd ?old) mem) =
      (state_lookup mem)(k := state_lookup mem k ++ map_of nd)"
    by (simp add: lookup_put map_of_merge_namespace)
  moreover have "merge_state (p # disk) mem = merge_state disk (alist_put k (merge_namespace nd ?old) mem)"
    by (simp add: merge_state_def p)
  moreover have "state_lookup (p # disk) = (state_lookup disk)(k := map_of nd)"
    by (auto simp: lookup_defs p fun_eq_iff)
  ultimately show ?case using Cons.IH [OF ok(1)] new
    by (auto simp: map_add_def fun_eq_iff split: option.split)
qed (simp add: merge_state_def)

section \<open>Methods in step with the backing file\<close>

text \<open>What the file holds, as a state.\<close>

definition file_dict :: "string \<Rightarrow> (string \<times> 'v state_file) list \<Rightarrow> 'v state_dict" where
  "file_dict p fs = (case map_of fs p of Some (Pickled d) \<Rightarrow> d | _ \<Rightarrow> [])"

definition usable_file :: "string \<Rightarrow> (string \<times> 'v state_file) list \<Rightarrow> string list \<Rightarrow> bool" where
  "usable_file p fs bad \<longleftrightarrow> p \<noteq> [] \<and> p \<notin> set bad \<and> map_of fs p \<noteq> Some Garbage \<and> dict_ok (file_dict p fs)"

text \<open>The world in which the object has read the file, or holds the lock.\<close>

definition stepping ::
  "string \<Rightarrow> (string \<times> 'v state_file) list \<Rightarrow> string list \<Rightarrow> string option \<Rightarrow> 'v state_dict \<Rightarrow> 'v state_dict \<Rightarrow> 'v job_world" where
  "stepping p fs bad lock e d = \<lparr>jw_files = alist_put p (Pickled e) fs, jw_unwritable = bad,
     jw_self = \<lparr>js_state = d, js_backing_file = Some p, js_initialized = True, js_lock = lock\<rparr>\<rparr>"

abbreviation synced where
  "synced p fs bad lock d \<equiv> stepping p fs bad lock d d"

lemma backing_Some: "p \<noteq> [] \<Longrightarrow> js_backing_file (jw_self w) = Some p \<Longrightarrow> backing w = Some p"
  by (cases p) (simp_all add: backing_def)

lemma finally_run: "m s = (r, t) \<Longrightarrow> h t = (Inr (), u) \<Longrightarrow> finally_do m h s = (r, u)"
  by (simp add: finally_do_def)

lemma with_backing_lock_run:
  assumes "js_lock (jw_self w) = None" "lock_backing_file w = (Inr (), w1)" "m w1 = (r, w2)"
  shows "with_backing_lock m w = (r, w2\<lparr>jw_self := (jw_self w2)\<lparr>js_lock := None\<rparr>\<rparr>)"
  using assms by (simp add: with_backing_lock_def andthen_run finally_do_def unlock_backing_file_def modify_def)

lemma with_backing_lock_held: "js_lock (jw_self w) \<noteq> None \<Longrightarrow> with_backing_lock m w = m w"
proof -
  assume "js_lock (jw_self w) \<noteq> None"
  then have "with_backing_lock m w = finally_do m (ret ()) w" by (simp add: with_backing_lock_def)
  also have "\<dots> = m w" by (simp add: finally_do_def ret_def split: prod.split)
  finally show ?thesis .
qed

lemma write_to_backing_run:
  assumes "p \<noteq> []" "p \<notin> set (jw_unwritable w)" "js_backing_file (jw_self w) = Some p"
  shows "write_to_backing_file w = (Inr (), w\<lparr>jw_files := alist_put p (Pickled (state_of w)) (jw_files w)\<rparr>)"
  using assms by (simp add: write_to_backing_file_def backing_Some write_to_file_def modify_def)

lemma load_file_run:
  "map_of (jw_files w) p = Some f \<Longrightarrow> f \<noteq> Garbage \<Longrightarrow> load_file p w = (Inr (file_dict p (jw_files w)), w)"
  by (cases f) (simp_all add: load_file_def file_dict_def ret_def)

lemma read_from_backing_run:
  assumes "usable_file p fs bad" "map_of fs p \<noteq> None"
  shows "read_from_backing_file \<lparr>jw_files = fs, jw_unwritable = bad,
      jw_self = \<lparr>js_state = st, js_backing_file = Some p, js_initialized = i, js_lock = Some p\<rparr>\<rparr> =
    (Inr (), synced p fs bad (Some p) (if i then file_dict p fs else merge_state (file_dict p fs) st))" (is "read_from_backing_file ?w = _")
proof -
  have p: "p \<noteq> []" "p \<notin> set bad" using assms by (auto simp: usable_file_def)
  have "load_file p ?w = (Inr (file_dict p fs), ?w)"
    using assms load_file_run [of ?w p] by (auto simp: usable_file_def)
  then show ?thesis using p
    by (auto simp: read_from_backing_file_def backing_Some read_from_file_def bnd_run set_state_of_def
        with_backing_lock_held write_to_backing_run andthen_run modify_def state_of_def stepping_def)
qed

lemma lock_run:
  assumes "usable_file p fs bad"
  shows "lock_backing_file \<lparr>jw_files = fs, jw_unwritable = bad,
      jw_self = \<lparr>js_state = st, js_backing_file = Some p, js_initialized = i, js_lock = None\<rparr>\<rparr> =
    (Inr (), \<lparr>jw_files = (if map_of fs p = None then alist_put p Empty fs else fs), jw_unwritable = bad,
      jw_self = \<lparr>js_state = st, js_backing_file = Some p, js_initialized = i, js_lock = Some p\<rparr>\<rparr>)"
  using assms by (auto simp: usable_file_def lock_backing_file_def backing_Some open_append_def modify_def andthen_run)

lemma file_dict_put [simp]: "file_dict p (alist_put p (Pickled d) fs) = d" "file_dict p (alist_put p Empty fs) = []"
  by (simp_all add: file_dict_def)

lemma stepping_put [simp]: "stepping p (alist_put p x fs) = stepping p fs"
  by (simp add: stepping_def fun_eq_iff)

text \<open>A method that works on a state in step with the file, called with or without the lock.\<close>

lemma with_backing_file_run:
  assumes usable: "usable_file p fs bad" and lock: "l = None \<or> l = Some p \<and> map_of fs p \<noteq> None"
    and m: "m (synced p fs bad (Some p) (if i then file_dict p fs else merge_state (file_dict p fs) st)) =
      (r, stepping p fs bad (Some p) e d)"
  shows "with_backing_file m \<lparr>jw_files = fs, jw_unwritable = bad,
      jw_self = \<lparr>js_state = st, js_backing_file = Some p, js_initialized = i, js_lock = l\<rparr>\<rparr> = (r, synced p fs bad l d)"
proof -
  let ?body = "andthen read_from_backing_file (finally_do m write_to_backing_file)"
  have p: "p \<noteq> []" "p \<notin> set bad" using usable by (auto simp: usable_file_def)
  have w: "write_to_backing_file (stepping p fs bad (Some p) e d) = (Inr (), synced p fs bad (Some p) d)"
    using write_to_backing_run [of p "stepping p fs bad (Some p) e d"] p by (simp add: stepping_def state_of_def)
  have f: "finally_do m write_to_backing_file (synced p fs bad (Some p) (if i then file_dict p fs else merge_state (file_dict p fs) st)) =
      (r, synced p fs bad (Some p) d)" by (rule finally_run) (rule m, rule w)
  have body: "?body \<lparr>jw_files = gs, jw_unwritable = bad,
      jw_self = \<lparr>js_state = st, js_backing_file = Some p, js_initialized = i, js_lock = Some p\<rparr>\<rparr> =
      (r, synced p fs bad (Some p) d)"
    if "usable_file p gs bad" "map_of gs p \<noteq> None" "file_dict p gs = file_dict p fs" "(stepping p gs :: string list \<Rightarrow> _) = stepping p fs" for gs
    using read_from_backing_run [OF that(1,2), of st i] unfolding that(3,4) by (simp only: andthen_run f)
  show ?thesis
  proof (cases "l = None")
    case True
    let ?gs = "if map_of fs p = None then alist_put p Empty fs else fs"
    have "usable_file p ?gs bad" "map_of ?gs p \<noteq> None" "file_dict p ?gs = file_dict p fs"
      using usable by (auto simp: usable_file_def file_dict_def)
    moreover have "stepping p ?gs = stepping p fs" by simp
    ultimately have "?body \<lparr>jw_files = ?gs, jw_unwritable = bad,
        jw_self = \<lparr>js_state = st, js_backing_file = Some p, js_initialized = i, js_lock = Some p\<rparr>\<rparr> =
        (r, synced p fs bad (Some p) d)" by (rule body)
    from with_backing_lock_run [where m = ?body, OF _ lock_run [OF usable] this] True
    show ?thesis by (simp add: with_backing_file_def stepping_def)
  next
    case False
    with lock have "l = Some p" "map_of fs p \<noteq> None" by auto
    then show ?thesis using body [of fs] usable by (simp add: with_backing_file_def with_backing_lock_held)
  qed
qed

lemma usable_put: "usable_file p fs bad \<Longrightarrow> dict_ok d \<Longrightarrow> usable_file p (alist_put p (Pickled d) fs) bad"
  by (simp add: usable_file_def)

lemma with_backing_file_synced:
  assumes "usable_file p fs bad" "dict_ok d0" "m (synced p fs bad (Some p) d0) = (r, stepping p fs bad (Some p) e d)"
    and "l = None \<or> l = Some p"
  shows "with_backing_file m (synced p fs bad l d0) = (r, synced p fs bad l d)"
  using with_backing_file_run [OF usable_put [OF assms(1,2)], of l m True d0 r e d] assms(3,4)
  by (auto simp: stepping_def)

section \<open>Operations on a state in step\<close>

lemma state_of_stepping [simp]: "state_of (stepping p fs bad l e d) = d"
  by (simp add: state_of_def stepping_def)

lemma set_state_of_stepping: "set_state_of d' (stepping p fs bad l e d) = (Inr (), stepping p fs bad l e d')"
  by (simp add: set_state_of_def modify_def stepping_def)

text \<open>The operations as data, and what they do to a dictionary.\<close>

datatype 'v state_op =
    OpGet string string "'v option"
  | OpSet string string 'v
  | OpHas string string
  | OpDiscard string string
  | OpDiscardNamespace string

datatype 'v outcome = Got 'v | Told bool | Done

fun run_op :: "'v state_op \<Rightarrow> ('v, 'v outcome) stateful" where
  "run_op (OpGet ns n dflt) = bnd (state_get ns n dflt) (\<lambda>v. ret (Got v))"
| "run_op (OpSet ns n v) = andthen (state_set ns n v) (ret Done)"
| "run_op (OpHas ns n) = bnd (state_has ns n) (\<lambda>b. ret (Told b))"
| "run_op (OpDiscard ns n) = andthen (state_discard ns n) (ret Done)"
| "run_op (OpDiscardNamespace ns) = andthen (discard_namespace ns) (ret Done)"

fun dict_op :: "'v state_op \<Rightarrow> 'v state_dict \<Rightarrow> (exn + 'v outcome) \<times> 'v state_dict" where
  "dict_op (OpGet ns n dflt) d = (case ns_get ns n d of
     Some v \<Rightarrow> (Inr (Got v), d)
   | None \<Rightarrow> (case dflt of Some v \<Rightarrow> (Inr (Got v), d) | None \<Rightarrow> (Inl KeyError, d)))"
| "dict_op (OpSet ns n v) d = (Inr Done, ns_set ns n v d)"
| "dict_op (OpHas ns n) d = (Inr (Told (ns_get ns n d \<noteq> None)), d)"
| "dict_op (OpDiscard ns n) d = (Inr Done, if ns_get ns n d = None then d else ns_discard ns n d)"
| "dict_op (OpDiscardNamespace ns) d = (Inr Done, if map_of d ns = None then d else alist_del ns d)"

lemma state_has_held:
  assumes "usable_file p fs bad" "dict_ok d"
  shows "state_has ns n (synced p fs bad (Some p) d) = (Inr (ns_get ns n d \<noteq> None), synced p fs bad (Some p) d)"
  unfolding state_has_def by (rule with_backing_file_synced [OF assms]) (simp_all add: gets_def)

lemma with_backing_file_from:
  assumes "usable_file p fs bad" "d0 = (if i then file_dict p fs else merge_state (file_dict p fs) st)"
    and "m (synced p fs bad (Some p) d0) = (r, stepping p fs bad (Some p) d0 d)"
  shows "with_backing_file m \<lparr>jw_files = fs, jw_unwritable = bad,
      jw_self = \<lparr>js_state = st, js_backing_file = Some p, js_initialized = i, js_lock = None\<rparr>\<rparr> = (r, synced p fs bad None d)"
  using assms(3) unfolding assms(2) by (rule with_backing_file_run [OF assms(1) disjI1 [OF refl]])

lemma run_op_run:
  assumes usable: "usable_file p fs bad" and d: "dict_ok d0"
    and d0: "d0 = (if i then file_dict p fs else merge_state (file_dict p fs) st)"
  shows "run_op opn \<lparr>jw_files = fs, jw_unwritable = bad,
      jw_self = \<lparr>js_state = st, js_backing_file = Some p, js_initialized = i, js_lock = None\<rparr>\<rparr> =
    (fst (dict_op opn d0), synced p fs bad None (snd (dict_op opn d0)))" (is "run_op opn ?w = _")
proof -
  note held = state_has_held [OF usable d]
  show ?thesis
  proof (cases opn)
    case (OpGet ns n dflt)
    have "state_get ns n dflt ?w =
        (case ns_get ns n d0 of Some v \<Rightarrow> Inr v | None \<Rightarrow> (case dflt of Some v \<Rightarrow> Inr v | None \<Rightarrow> Inl KeyError),
         synced p fs bad None d0)"
      unfolding state_get_def
      by (rule with_backing_file_from [OF usable d0])
        (simp_all add: bnd_run held ret_def throw_def split: option.split)
    then show ?thesis by (auto simp: OpGet bnd_def ret_def split: option.split)
  next
    case (OpSet ns n v)
    have "state_set ns n v ?w = (Inr (), synced p fs bad None (ns_set ns n v d0))"
      unfolding state_set_def
      by (rule with_backing_file_from [OF usable d0]) (simp_all add: set_state_of_stepping)
    then show ?thesis by (simp add: OpSet andthen_run ret_def)
  next
    case (OpHas ns n)
    have "state_has ns n ?w = (Inr (ns_get ns n d0 \<noteq> None), synced p fs bad None d0)"
      unfolding state_has_def by (rule with_backing_file_from [OF usable d0]) (simp_all add: gets_def)
    then show ?thesis by (simp add: OpHas bnd_run ret_def)
  next
    case (OpDiscard ns n)
    have "state_discard ns n ?w =
        (Inr (), synced p fs bad None (if ns_get ns n d0 = None then d0 else ns_discard ns n d0))"
      unfolding state_discard_def
      by (rule with_backing_file_from [OF usable d0])
        (simp_all add: bnd_run held set_state_of_stepping ret_def)
    then show ?thesis by (simp add: OpDiscard andthen_run ret_def)
  next
    case (OpDiscardNamespace ns)
    have "discard_namespace ns ?w =
        (Inr (), synced p fs bad None (if map_of d0 ns = None then d0 else alist_del ns d0))"
      unfolding discard_namespace_def
      by (rule with_backing_file_from [OF usable d0]) (simp_all add: set_state_of_stepping ret_def)
    then show ?thesis by (simp add: OpDiscardNamespace andthen_run ret_def)
  qed
qed

lemma dict_op_ok: "dict_ok d \<Longrightarrow> dict_ok (snd (dict_op opn d))"
  by (cases opn) (auto intro: dict_ok_set dict_ok_discard dict_ok_del split: option.split)

section \<open>Objects that share a backing file\<close>

text \<open>
  The jobs of one machine, each a process with its own object. The lock is held from the first to the last
  step of a method, so the methods run one after the other.
\<close>

record 'v shared_states =
  sh_files :: "(string \<times> 'v state_file) list"
  sh_unwritable :: "string list"
  sh_objects :: "'v job_state list"

definition on_object :: "nat \<Rightarrow> ('v, 'a) stateful \<Rightarrow> ('v shared_states, 'a) exm" where
  "on_object i m = zoom
     (\<lambda>s. \<lparr>jw_files = sh_files s, jw_unwritable = sh_unwritable s, jw_self = sh_objects s ! i\<rparr>)
     (\<lambda>w s. s\<lparr>sh_files := jw_files w, sh_objects := (sh_objects s)[i := jw_self w]\<rparr>) m"

fun run_ops :: "(nat \<times> 'v state_op) list \<Rightarrow> 'v shared_states \<Rightarrow> (exn + 'v outcome) list \<times> 'v shared_states" where
  "run_ops [] s = ([], s)"
| "run_ops ((i, opn) # ops) s = (let (r, t) = on_object i (run_op opn) s; (rs, u) = run_ops ops t in (r # rs, u))"

fun dict_ops :: "'v state_op list \<Rightarrow> 'v state_dict \<Rightarrow> (exn + 'v outcome) list \<times> 'v state_dict" where
  "dict_ops [] d = ([], d)"
| "dict_ops (opn # ops) d = (let (r, e) = dict_op opn d; (rs, g) = dict_ops ops e in (r # rs, g))"

text \<open>All objects have the same usable backing file, have read it and hold no lock.\<close>

definition attached :: "string \<Rightarrow> 'v job_state \<Rightarrow> bool" where
  "attached p ob \<longleftrightarrow> js_backing_file ob = Some p \<and> js_initialized ob \<and> js_lock ob = None"

definition all_attached :: "string \<Rightarrow> 'v shared_states \<Rightarrow> bool" where
  "all_attached p s \<longleftrightarrow> usable_file p (sh_files s) (sh_unwritable s) \<and> list_all (attached p) (sh_objects s)"

lemma on_object_step:
  assumes "all_attached p s" "i < length (sh_objects s)"
  shows "\<exists>t. on_object i (run_op opn) s = (fst (dict_op opn (file_dict p (sh_files s))), t) \<and> all_attached p t \<and>
    length (sh_objects t) = length (sh_objects s) \<and> file_dict p (sh_files t) = snd (dict_op opn (file_dict p (sh_files s)))"
proof -
  let ?d = "file_dict p (sh_files s)" and ?ob = "sh_objects s ! i"
  have usable: "usable_file p (sh_files s) (sh_unwritable s)" and ob: "attached p ?ob"
    using assms by (auto simp: all_attached_def list_all_length)
  have d: "dict_ok ?d" using usable by (simp add: usable_file_def)
  have eq: "?ob = \<lparr>js_state = js_state ?ob, js_backing_file = Some p, js_initialized = True, js_lock = None\<rparr>"
    using ob by (auto simp: attached_def)
  have "run_op opn \<lparr>jw_files = sh_files s, jw_unwritable = sh_unwritable s, jw_self = ?ob\<rparr> =
      (fst (dict_op opn ?d), synced p (sh_files s) (sh_unwritable s) None (snd (dict_op opn ?d)))"
    by (subst eq) (rule run_op_run [OF usable d], simp)
  moreover have "usable_file p (alist_put p (Pickled (snd (dict_op opn ?d))) (sh_files s)) (sh_unwritable s)"
    using usable by (rule usable_put) (rule dict_op_ok [OF d])
  moreover have "list_all (attached p) ((sh_objects s)[i := \<lparr>js_state = st, js_backing_file = Some p, js_initialized = True, js_lock = None\<rparr>])"
    for st using assms(1) by (auto simp: all_attached_def attached_def list_all_iff dest!: set_update_subset_insert [THEN subsetD])
  ultimately show ?thesis by (simp add: on_object_def zoom_def all_attached_def stepping_def)
qed

lemma run_ops_linear:
  "all_attached p s \<Longrightarrow> list_all (\<lambda>q. fst q < length (sh_objects s)) ops \<Longrightarrow>
    fst (run_ops ops s) = fst (dict_ops (map snd ops) (file_dict p (sh_files s))) \<and>
    file_dict p (sh_files (snd (run_ops ops s))) = snd (dict_ops (map snd ops) (file_dict p (sh_files s))) \<and>
    all_attached p (snd (run_ops ops s))"
proof (induction ops arbitrary: s)
  case (Cons q ops)
  obtain i opn where q: "q = (i, opn)" by (cases q)
  let ?d = "file_dict p (sh_files s)"
  obtain t where t: "on_object i (run_op opn) s = (fst (dict_op opn ?d), t)" "all_attached p t"
    "length (sh_objects t) = length (sh_objects s)" "file_dict p (sh_files t) = snd (dict_op opn ?d)"
    using on_object_step [OF Cons.prems(1), of i opn] Cons.prems(2) q by auto
  from Cons.IH [OF t(2)] Cons.prems(2) t(3) q show ?case by (auto simp: t(1,4) Let_def split: prod.split)
qed simp

text \<open>What the operations do, on values looked up by namespace and name.\<close>

fun op_on_values :: "'v state_op \<Rightarrow> (string \<Rightarrow> string \<Rightarrow> 'v option) \<Rightarrow> (exn + 'v outcome) \<times> (string \<Rightarrow> string \<Rightarrow> 'v option)" where
  "op_on_values (OpGet ns n dflt) f = (case f ns n of
     Some v \<Rightarrow> (Inr (Got v), f)
   | None \<Rightarrow> (case dflt of Some v \<Rightarrow> (Inr (Got v), f) | None \<Rightarrow> (Inl KeyError, f)))"
| "op_on_values (OpSet ns n v) f = (Inr Done, f(ns := (f ns)(n \<mapsto> v)))"
| "op_on_values (OpHas ns n) f = (Inr (Told (f ns n \<noteq> None)), f)"
| "op_on_values (OpDiscard ns n) f = (Inr Done, f(ns := (f ns)(n := None)))"
| "op_on_values (OpDiscardNamespace ns) f = (Inr Done, f(ns := Map.empty))"

fun ops_on_values :: "'v state_op list \<Rightarrow> (string \<Rightarrow> string \<Rightarrow> 'v option) \<Rightarrow> (exn + 'v outcome) list \<times> (string \<Rightarrow> string \<Rightarrow> 'v option)" where
  "ops_on_values [] f = ([], f)"
| "ops_on_values (opn # ops) f = (let (r, g) = op_on_values opn f; (rs, h) = ops_on_values ops g in (r # rs, h))"

lemma dict_op_values:
  "fst (dict_op opn d) = fst (op_on_values opn (state_lookup d)) \<and>
   state_lookup (snd (dict_op opn d)) = snd (op_on_values opn (state_lookup d))"
proof (cases opn)
  case (OpDiscard ns n)
  have "ns_get ns n d = None \<Longrightarrow> (state_lookup d)(ns := (state_lookup d ns)(n := None)) = state_lookup d"
    by (auto simp: state_lookup_def fun_eq_iff)
  then show ?thesis using OpDiscard by simp
next
  case (OpDiscardNamespace ns)
  have "map_of d ns = None \<Longrightarrow> (state_lookup d)(ns := Map.empty) = state_lookup d"
    by (auto simp: lookup_defs fun_eq_iff)
  then show ?thesis using OpDiscardNamespace by simp
qed (auto simp: state_lookup_def split: option.split)

lemma dict_ops_values:
  "fst (dict_ops ops d) = fst (ops_on_values ops (state_lookup d)) \<and>
   state_lookup (snd (dict_ops ops d)) = snd (ops_on_values ops (state_lookup d))"
proof (induction ops arbitrary: d)
  case (Cons opn ops)
  from Cons.IH [of "snd (dict_op opn d)"] dict_op_values [of opn d] show ?case
    by (simp add: Let_def split: prod.split prod.split_asm) (metis fst_conv snd_conv)
qed simp

text \<open>
  C11 (client/shared/base_job.py, \<open>job_state\<close>). Any number of objects with one backing file behave as a single
  dictionary of named values: whatever operations run on whichever objects, each answers, or raises KeyError,
  as the dictionary does after the operations before it, and the file ends with the contents of the dictionary.
\<close>

theorem shared_state_refines:
  assumes "all_attached p s" "list_all (\<lambda>q. fst q < length (sh_objects s)) ops"
  shows "fst (run_ops ops s) = fst (ops_on_values (map snd ops) (state_lookup (file_dict p (sh_files s)))) \<and>
    state_lookup (file_dict p (sh_files (snd (run_ops ops s)))) =
      snd (ops_on_values (map snd ops) (state_lookup (file_dict p (sh_files s))))"
  using run_ops_linear [OF assms] dict_ops_values by metis

definition sample_shared :: "int shared_states" where
  "sample_shared = (let ob = \<lparr>js_state = [(''old'', [(''n'', 1)])], js_backing_file = Some ''state'', js_initialized = True, js_lock = None\<rparr>
     in \<lparr>sh_files = [(''state'', Pickled [(''public'', [(''n'', 7)])])], sh_unwritable = [], sh_objects = [ob, ob]\<rparr>)"

lemma shared_state_refines_witness:
  "fst (run_ops [(0, OpSet ''public'' ''n'' 8), (1, OpGet ''public'' ''n'' None), (0, OpGet ''old'' ''n'' None)] sample_shared) =
    [Inr Done, Inr (Got 8), Inl KeyError]"
proof -
  have a: "all_attached ''state'' sample_shared"
    by (simp add: all_attached_def attached_def usable_file_def file_dict_def dict_ok_def sample_shared_def Let_def)
  have l: "length (sh_objects sample_shared) = 2" by (simp add: sample_shared_def Let_def)
  have d: "file_dict ''state'' (sh_files sample_shared) = [(''public'', [(''n'', 7)])]"
    by (simp add: file_dict_def sample_shared_def Let_def)
  have "fst (run_ops [(0, OpSet ''public'' ''n'' 8), (1, OpGet ''public'' ''n'' None), (0, OpGet ''old'' ''n'' None)] sample_shared) =
    fst (ops_on_values [OpSet ''public'' ''n'' 8, OpGet ''public'' ''n'' None, OpGet ''old'' ''n'' None]
      (state_lookup [(''public'', [(''n'', 7)])]))"
    using shared_state_refines [OF a, of "[(0, OpSet ''public'' ''n'' 8), (1, OpGet ''public'' ''n'' None), (0, OpGet ''old'' ''n'' None)]"]
    by (simp add: l d)
  then show ?thesis by (simp add: lookup_defs)
qed

section \<open>Taking up a backing file\<close>

lemma no_backing_file:
  assumes "backing w = None" "m w = (r, w')" "backing w' = None" "js_lock (jw_self w) = None" "js_lock (jw_self w') = None"
  shows "with_backing_file m w = (r, w')"
proof -
  have "lock_backing_file w = (Inr (), w)" "read_from_backing_file w = (Inr (), w)" "write_to_backing_file w' = (Inr (), w')"
    using assms(1,3) by (simp_all add: lock_backing_file_def read_from_backing_file_def write_to_backing_file_def ret_def)
  then have "andthen read_from_backing_file (finally_do m write_to_backing_file) w = (r, w')" and
    lock: "lock_backing_file w = (Inr (), w)"
    using finally_run [of m w r w' write_to_backing_file w'] assms(2) by (simp_all add: andthen_run)
  from with_backing_lock_run [where m = "andthen read_from_backing_file (finally_do m write_to_backing_file)", OF assms(4) lock this(1)] show ?thesis
    using assms(5) by (simp add: with_backing_file_def)
qed

lemma set_backing_file_run:
  assumes "usable_file p (jw_files w) (jw_unwritable w)" "backing w = None" "js_lock (jw_self w) = None"
  shows "set_backing_file (Some p) w =
    (Inr (), synced p (jw_files w) (jw_unwritable w) None (merge_state (file_dict p (jw_files w)) (state_of w)))"
proof -
  let ?w = "w\<lparr>jw_self := (jw_self w)\<lparr>js_backing_file := Some p, js_initialized := False\<rparr>\<rparr>"
  have "synchronize_backing_file w = (Inr (), w)" unfolding synchronize_backing_file_def
    by (rule no_backing_file [OF assms(2)]) (simp_all add: ret_def assms)
  moreover have "?w = \<lparr>jw_files = jw_files w, jw_unwritable = jw_unwritable w,
      jw_self = \<lparr>js_state = state_of w, js_backing_file = Some p, js_initialized = False, js_lock = None\<rparr>\<rparr>"
    using assms(3) by (simp add: state_of_def)
  moreover have "synchronize_backing_file \<lparr>jw_files = jw_files w, jw_unwritable = jw_unwritable w,
      jw_self = \<lparr>js_state = state_of w, js_backing_file = Some p, js_initialized = False, js_lock = None\<rparr>\<rparr> =
    (Inr (), synced p (jw_files w) (jw_unwritable w) None (merge_state (file_dict p (jw_files w)) (state_of w)))"
    unfolding synchronize_backing_file_def
    by (rule with_backing_file_from [OF assms(1)]) (simp_all add: ret_def)
  ultimately show ?thesis by (simp add: set_backing_file_def andthen_run)
qed

text \<open>
  (client/shared/base_job.py, \<open>job_state.set_backing_file\<close>). An object that takes up a backing file ends
  attached to it, with memory and file equal: each value is that of the file where the file has one, else the
  one in memory.
\<close>

theorem set_backing_file_merges:
  assumes "usable_file p (jw_files w) (jw_unwritable w)" "backing w = None" "js_lock (jw_self w) = None"
  shows "\<exists>w'. set_backing_file (Some p) w = (Inr (), w') \<and> attached p (jw_self w') \<and>
    file_dict p (jw_files w') = state_of w' \<and>
    state_lookup (state_of w') = (\<lambda>ns n. case state_lookup (file_dict p (jw_files w)) ns n of
      Some v \<Rightarrow> Some v | None \<Rightarrow> state_lookup (state_of w) ns n)"
proof -
  have "dict_ok (file_dict p (jw_files w))" using assms(1) by (simp add: usable_file_def)
  then show ?thesis
    using set_backing_file_run [OF assms] lookup_merge [of "file_dict p (jw_files w)" "state_of w"]
    by (simp add: fun_eq_iff attached_def stepping_def state_of_def)
qed

definition sample_world :: "int job_world" where
  "sample_world = \<lparr>jw_files = [(''state'', Pickled [(''public'', [(''n'', 7)])])], jw_unwritable = [],
     jw_self = job_state_init\<lparr>js_state := [(''public'', [(''n'', 1), (''m'', 2)])]\<rparr>\<rparr>"

lemma set_backing_file_merges_witness:
  "\<exists>w'. set_backing_file (Some ''state'') sample_world = (Inr (), w') \<and>
    state_lookup (state_of w') ''public'' ''n'' = Some 7 \<and> state_lookup (state_of w') ''public'' ''m'' = Some 2"
proof -
  have "usable_file ''state'' (jw_files sample_world) (jw_unwritable sample_world)" "backing sample_world = None"
    "js_lock (jw_self sample_world) = None"
    by (simp_all add: usable_file_def file_dict_def dict_ok_def backing_def sample_world_def job_state_init_def)
  from set_backing_file_merges [OF this] obtain w' where
    w': "set_backing_file (Some ''state'') sample_world = (Inr (), w')" and
    l: "state_lookup (state_of w') = (\<lambda>ns n. case state_lookup (file_dict ''state'' (jw_files sample_world)) ns n of
      Some v \<Rightarrow> Some v | None \<Rightarrow> state_lookup (state_of sample_world) ns n)" by blast
  have "state_lookup (file_dict ''state'' (jw_files sample_world)) ''public'' ''n'' = Some 7"
    "state_lookup (file_dict ''state'' (jw_files sample_world)) ''public'' ''m'' = None"
    "state_lookup (state_of sample_world) ''public'' ''m'' = Some 2"
    by (simp_all add: lookup_defs file_dict_def state_of_def sample_world_def job_state_init_def)
  then show ?thesis using w' l by simp
qed

section \<open>Properties of a job and the names of its tests\<close>

datatype job_value = JNone | JBool bool | JInt int | JStr string

definition value_true :: "job_value \<Rightarrow> bool" where
  "value_true v = (case v of JNone \<Rightarrow> False | JBool b \<Rightarrow> b | JInt i \<Rightarrow> i \<noteq> 0 | JStr s \<Rightarrow> s \<noteq> [])"

definition global_properties :: string where
  "global_properties = ''global_properties''"

definition get_property :: "string \<Rightarrow> job_value \<Rightarrow> (job_value, job_value) stateful" where
  "get_property n dflt = state_get global_properties n (Some dflt)"

definition set_property :: "string \<Rightarrow> job_value \<Rightarrow> (job_value, unit) stateful" where
  "set_property n v = state_set global_properties n v"

definition get_state :: "string \<Rightarrow> job_value option \<Rightarrow> (job_value, job_value) stateful" where
  "get_state n dflt = state_get ''public'' n dflt"

definition set_state :: "string \<Rightarrow> job_value \<Rightarrow> (job_value, unit) stateful" where
  "set_state n v = state_set ''public'' n v"

definition sequence_number :: "(job_value, job_value) stateful" where
  "sequence_number = get_property ''_sequence_number'' JNone"

definition set_sequence_number :: "job_value \<Rightarrow> (job_value, unit) stateful" where
  "set_sequence_number v = set_property ''_sequence_number'' v"

definition get_use_sequence_number :: "(job_value, bool) stateful" where
  "get_use_sequence_number = bnd sequence_number (\<lambda>v. ret (value_true v))"

definition set_use_sequence_number :: "job_value \<Rightarrow> (job_value, unit) stateful" where
  "set_use_sequence_number v = set_sequence_number (if value_true v then JInt 1 else JNone)"

text \<open>\<open>'_%02d_' % n\<close> and \<open>n + 1\<close>; a bool counts as a number.\<close>

definition number_tag :: "int \<Rightarrow> string" where
  "number_tag n = (let s = str_of_int n in ''_'' @ (if length s < 2 then ''0'' @ s else s) @ ''_'')"

definition number_of_value :: "job_value \<Rightarrow> exn + int" where
  "number_of_value v = (case v of JInt n \<Rightarrow> Inr n | JBool b \<Rightarrow> Inr (of_bool b) | _ \<Rightarrow> Inl TypeError)"

text \<open>The arguments of \<open>run_test\<close> this method takes out of the dictionary.\<close>

record test_args =
  ta_master_testpath :: string
  ta_tag :: "string option"
  ta_subdir_tag :: "string option"

definition nonempty :: "string option \<Rightarrow> string list" where
  "nonempty s = (case s of Some (c # cs) \<Rightarrow> [c # cs] | _ \<Rightarrow> [])"

definition sequence_tag :: "(job_value, string list) stateful" where
  "sequence_tag =
     bnd get_use_sequence_number (\<lambda>use.
     if use then
       bnd sequence_number (\<lambda>v. bnd (lift_sum (number_of_value v)) (\<lambda>n.
       andthen (bnd sequence_number (\<lambda>w. bnd (lift_sum (number_of_value w)) (\<lambda>m. set_sequence_number (JInt (m + 1)))))
         (ret [number_tag n])))
     else ret [])"

definition automatic_tag :: "(job_value, string list) stateful" where
  "automatic_tag =
     bnd (get_property ''automatic_test_tag'' JNone) (\<lambda>v.
     if value_true v then
       bnd (get_property ''automatic_test_tag'' JNone) (\<lambda>w. case w of JStr s \<Rightarrow> ret [s] | _ \<Rightarrow> throw TypeError)
     else ret [])"

definition build_tagged_test_name :: "string \<Rightarrow> test_args \<Rightarrow> (job_value, string \<times> string \<times> string) stateful" where
  "build_tagged_test_name testname args =
     bnd sequence_tag (\<lambda>sq.
     bnd automatic_tag (\<lambda>auto_tag.
     let name_parts = nonempty (ta_tag args) @ sq @ auto_tag;
         tag_parts = name_parts @ nonempty (ta_subdir_tag args)
     in ret (str_join ''.'' (testname # name_parts),
             path_join (ta_master_testpath args) (str_join ''.'' (testname # tag_parts)),
             str_join ''.'' tag_parts)))"

text \<open>Reading and writing properties of a job attached to a file.\<close>

lemma state_set_synced:
  assumes "usable_file p fs bad" "dict_ok d"
  shows "state_set ns n v (synced p fs bad None d) = (Inr (), synced p fs bad None (ns_set ns n v d))"
  unfolding state_set_def
  by (rule with_backing_file_synced [where e = d, OF assms]) (simp_all add: set_state_of_stepping)

lemma state_get_synced:
  assumes "usable_file p fs bad" "dict_ok d"
  shows "state_get ns n (Some v) (synced p fs bad None d) =
    (Inr (case state_lookup d ns n of Some x \<Rightarrow> x | None \<Rightarrow> v), synced p fs bad None d)"
  unfolding state_get_def
  by (rule with_backing_file_synced [where e = d, OF assms])
    (simp_all add: bnd_run state_has_held [OF assms] ret_def state_lookup_def split: option.split)

lemma str_join_middle:
  "xs \<noteq> [] \<Longrightarrow> str_join sep (xs @ y # ys) = str_join sep xs @ sep @ y @ concat (map (\<lambda>z. sep @ z) ys)"
proof (induction xs)
  case (Cons x xs)
  have rest: "str_join sep (y # ys) = y @ concat (map (\<lambda>z. sep @ z) ys)"
    by (induction ys arbitrary: y) auto
  show ?case
  proof (cases xs)
    case Nil
    then show ?thesis using rest by simp
  next
    case (Cons z zs)
    then show ?thesis using Cons.IH by simp
  qed
qed simp

lemma number_tag_inj: "number_tag (int k) = number_tag (int m) \<Longrightarrow> k = m"
proof -
  assume eq: "number_tag (int k) = number_tag (int m)"
  have "nat_of_digits (''0'' @ s) = nat_of_digits s" for s by (simp add: nat_of_digits_def digit_val_def)
  then have *: "nat_of_digits (butlast (tl (number_tag (int n)))) = n" for n
    using nat_of_digits_str_of_nat [of n] by (simp add: number_tag_def str_of_int_def Let_def butlast_append)
  show ?thesis using * [of k] unfolding eq * [of m] by (rule sym)
qed

text \<open>The state of a job with sequence numbers, and what the next name is.\<close>

definition job_number :: "job_value state_dict \<Rightarrow> job_value option" where
  "job_number d = state_lookup d global_properties ''_sequence_number''"

definition job_auto_tag :: "job_value state_dict \<Rightarrow> string list option" where
  "job_auto_tag d = (case state_lookup d global_properties ''automatic_test_tag'' of
     None \<Rightarrow> Some [] | Some v \<Rightarrow> if value_true v then (case v of JStr s \<Rightarrow> Some [s] | _ \<Rightarrow> None) else Some [])"

definition tagged_names :: "string \<Rightarrow> test_args \<Rightarrow> string list \<Rightarrow> int \<Rightarrow> string \<times> string \<times> string" where
  "tagged_names testname args ts k =
     (let name_parts = nonempty (ta_tag args) @ number_tag k # ts; tag_parts = name_parts @ nonempty (ta_subdir_tag args)
      in (str_join ''.'' (testname # name_parts),
          path_join (ta_master_testpath args) (str_join ''.'' (testname # tag_parts)), str_join ''.'' tag_parts))"

lemma build_tagged_run:
  assumes usable: "usable_file p fs bad" and d: "dict_ok d"
    and num: "job_number d = Some (JInt k)" "k \<noteq> 0" and auto_tag: "job_auto_tag d = Some ts"
  shows "\<exists>d'. build_tagged_test_name testname args (synced p fs bad None d) =
      (Inr (tagged_names testname args ts k), synced p fs bad None d') \<and> dict_ok d' \<and> job_number d' = Some (JInt (k + 1)) \<and> job_auto_tag d' = Some ts"
proof -
  let ?d = "ns_set global_properties ''_sequence_number'' (JInt (k + 1)) d"
  note get = state_get_synced [OF usable d] and set = state_set_synced [OF usable d]
  have d': "dict_ok ?d" using d by (rule dict_ok_set)
  have "sequence_number (synced p fs bad None d) = (Inr (JInt k), synced p fs bad None d)"
    using num(1) by (simp add: sequence_number_def get_property_def get job_number_def)
  moreover have "set_sequence_number (JInt (k + 1)) (synced p fs bad None d) = (Inr (), synced p fs bad None ?d)"
    by (simp add: set_sequence_number_def set_property_def set)
  ultimately have sq: "sequence_tag (synced p fs bad None d) = (Inr [number_tag k], synced p fs bad None ?d)"
    using num(2) by (simp add: sequence_tag_def get_use_sequence_number_def bnd_run andthen_run value_true_def
        number_of_value_def lift_sum_def ret_def)
  have auto': "job_auto_tag ?d = Some ts" using auto_tag by (simp add: job_auto_tag_def)
  then have "automatic_tag (synced p fs bad None ?d) = (Inr ts, synced p fs bad None ?d)"
    by (auto simp: automatic_tag_def get_property_def bnd_run state_get_synced [OF usable d'] job_auto_tag_def
        value_true_def ret_def split: option.splits if_splits job_value.splits)
  then show ?thesis using sq d' auto'
    by (intro exI [of _ ?d]) (simp add: build_tagged_test_name_def bnd_run ret_def Let_def job_number_def tagged_names_def)
qed

lemma tagged_names_inj:
  assumes "k \<noteq> m"
  shows "fst (tagged_names testname args ts (int k)) \<noteq> fst (tagged_names testname args ts (int m)) \<and>
    fst (snd (tagged_names testname args ts (int k))) \<noteq> fst (snd (tagged_names testname args ts (int m)))"
proof -
  let ?pre = "testname # nonempty (ta_tag args)"
  have name: "str_join ''.'' (testname # (nonempty (ta_tag args) @ number_tag i # us)) =
      str_join ''.'' ?pre @ ''.'' @ number_tag i @ concat (map (\<lambda>z. ''.'' @ z) us)" for i us
    using str_join_middle [of ?pre "''.''" "number_tag i" us] by simp
  have pick: "path_join a (x @ CHR ''.'' # y) = path_join a (x @ CHR ''.'' # z) \<longleftrightarrow> y = z" for a x y z
    by (cases x) (auto simp: path_join_def)
  have "number_tag (int k) \<noteq> number_tag (int m)" using assms number_tag_inj by blast
  then show ?thesis by (simp add: tagged_names_def Let_def name pick)
qed

text \<open>The object has read its file, and both hold the same.\<close>

definition in_step :: "string \<Rightarrow> 'v job_world \<Rightarrow> bool" where
  "in_step p w \<longleftrightarrow> usable_file p (jw_files w) (jw_unwritable w) \<and> attached p (jw_self w) \<and>
     map_of (jw_files w) p = Some (Pickled (state_of w))"

lemma alist_put_idem: "map_of d k = Some v \<Longrightarrow> alist_put k v d = d"
  by (induction k v d rule: alist_put.induct) (auto split: if_splits)

lemma in_step_synced: "in_step p w \<Longrightarrow> w = synced p (jw_files w) (jw_unwritable w) None (state_of w)"
  by (cases w; cases "jw_self w") (simp add: in_step_def attached_def stepping_def alist_put_idem state_of_def)

lemma many_names:
  assumes usable: "usable_file p fs bad"
  shows "dict_ok d \<Longrightarrow> job_number d = Some (JInt (int (Suc k))) \<Longrightarrow> job_auto_tag d = Some ts \<Longrightarrow>
    \<exists>w'. map_each (replicate n ()) (\<lambda>_. build_tagged_test_name testname args) (synced p fs bad None d) =
      (Inr (map (\<lambda>i. tagged_names testname args ts (int (Suc i))) [k..<k + n]), w')"
proof (induction n arbitrary: d k)
  case 0
  show ?case by (simp add: ret_def)
next
  case (Suc n)
  from build_tagged_run [OF usable Suc.prems(1,2) _ Suc.prems(3), of testname args] obtain d' where
    run: "build_tagged_test_name testname args (synced p fs bad None d) =
      (Inr (tagged_names testname args ts (int (Suc k))), synced p fs bad None d')"
    and d': "dict_ok d'" "job_number d' = Some (JInt (int (Suc k) + 1))" "job_auto_tag d' = Some ts" by auto
  have "int (Suc k) + 1 = int (Suc (Suc k))" by simp
  with d' Suc.IH [of d' "Suc k"] obtain w' where
    "map_each (replicate n ()) (\<lambda>_. build_tagged_test_name testname args) (synced p fs bad None d') =
      (Inr (map (\<lambda>i. tagged_names testname args ts (int (Suc i))) [Suc k..<Suc k + n]), w')" by auto
  moreover have "[k..<k + Suc n] = k # [Suc k..<Suc k + n]" by (simp add: upt_rec)
  ultimately show ?case using run by (simp add: bnd_run ret_def del: upt_Suc)
qed

text \<open>
  C12 (client/shared/base_job.py, \<open>base_job._build_tagged_test_name\<close>). With sequence numbers switched on, any
  number of runs of one test with the same arguments, in one job whose state is in step with its file, get
  pairwise different names and pairwise different directories.
\<close>

theorem numbered_tests_apart:
  assumes "in_step p w" "job_number (state_of w) = Some (JInt (int (Suc k)))" "job_auto_tag (state_of w) = Some ts"
  shows "\<exists>rs w'. map_each (replicate n ()) (\<lambda>_. build_tagged_test_name testname args) w = (Inr rs, w') \<and>
    length rs = n \<and> distinct (map fst rs) \<and> distinct (map (fst \<circ> snd) rs)"
proof -
  let ?rs = "map (\<lambda>i. tagged_names testname args ts (int (Suc i))) [k..<k + n]"
  have "usable_file p (jw_files w) (jw_unwritable w)" "dict_ok (state_of w)"
    using assms(1) by (auto simp: in_step_def usable_file_def file_dict_def)
  from many_names [OF this assms(2,3), of n testname args] in_step_synced [OF assms(1)] obtain w' where
    "map_each (replicate n ()) (\<lambda>_. build_tagged_test_name testname args) w = (Inr ?rs, w')" by metis
  moreover have names: "inj (\<lambda>i. fst (tagged_names testname args ts (int (Suc i))))"
    "inj (\<lambda>i. fst (snd (tagged_names testname args ts (int (Suc i)))))"
    using tagged_names_inj by (blast intro: injI)+
  have "distinct (map fst ?rs)" "distinct (map (fst \<circ> snd) ?rs)"
    using names by (auto simp: distinct_map intro!: inj_onI dest: injD)
  ultimately show ?thesis by (intro exI [of _ ?rs]) simp
qed

definition numbered_job :: "job_value job_world" where
  "numbered_job = (let d = [(global_properties, [(''_sequence_number'', JInt 1)])] in
     \<lparr>jw_files = [(''state'', Pickled d)], jw_unwritable = [],
      jw_self = \<lparr>js_state = d, js_backing_file = Some ''state'', js_initialized = True, js_lock = None\<rparr>\<rparr>)"

lemma numbered_tests_apart_witness:
  "\<exists>rs w'. map_each (replicate 3 ()) (\<lambda>_. build_tagged_test_name ''dbench''
      \<lparr>ta_master_testpath = [], ta_tag = None, ta_subdir_tag = None\<rparr>) numbered_job = (Inr rs, w') \<and>
    length rs = 3 \<and> distinct (map fst rs) \<and> distinct (map (fst \<circ> snd) rs)"
proof (rule numbered_tests_apart)
  show "in_step ''state'' numbered_job"
    by (simp add: in_step_def numbered_job_def usable_file_def file_dict_def dict_ok_def attached_def state_of_def Let_def)
  show "job_number (state_of numbered_job) = Some (JInt (int (Suc 0)))" "job_auto_tag (state_of numbered_job) = Some []"
    by (simp_all add: numbered_job_def job_number_def job_auto_tag_def state_of_def lookup_defs Let_def)
qed

section \<open>Execution contexts\<close>

text \<open>The directory of the results and the stack of those to return to.\<close>

record execution_contexts =
  ec_resultdir :: string
  ec_contexts :: "string list"

definition push_execution_context :: "string \<Rightarrow> (execution_contexts, unit) exm" where
  "push_execution_context d = modify (\<lambda>s. s\<lparr>ec_contexts := ec_contexts s @ [ec_resultdir s],
     ec_resultdir := path_join (ec_resultdir s) d\<rparr>)"

definition pop_execution_context :: "(execution_contexts, unit) exm" where
  "pop_execution_context = bnd (gets ec_contexts) (\<lambda>cs.
     if cs = [] then throw IndexError else modify (\<lambda>s. s\<lparr>ec_resultdir := last cs, ec_contexts := butlast cs\<rparr>))"

lemma pop_push_context: "andthen (push_execution_context d) pop_execution_context s = (Inr (), s)"
  by (simp add: push_execution_context_def pop_execution_context_def)

end
