(* ===== verification/Job_Creation.thy ===== *)
theory Job_Creation
  imports Reservations
begin

text \<open>
  The creation of jobs: \<open>create_job\<close> of frontend/afe/rpc_interface.py with the checks of
  frontend/afe/rpc_utils.py and \<open>Job.create\<close> of frontend/afe/models.py, which writes the rows the scheduler
  works on; then the abort of entries and the list of the work of a host. Parameterized jobs are not
  modelled beyond the check that there is one or a control file.
\<close>

section \<open>Arguments\<close>

text \<open>A field with choices takes the name of a choice or its value.\<close>

datatype choice = Choice_name string | Choice_value int

record job_options =
  jo_name :: string
  jo_priority :: "choice option"
  jo_control_file :: "string option"
  jo_control_type :: "choice option"
  jo_is_template :: bool
  jo_timeout :: "int option"
  jo_max_runtime_hrs :: "int option"
  jo_synch_count :: "int option"
  jo_run_verify :: "bool option"
  jo_email_list :: "string option"
  jo_dependencies :: "string list"
  jo_reboot_before :: "reboot_before option"
  jo_reboot_after :: "reboot_after option"
  jo_parse_failed_repair :: "bool option"
  jo_keyvals :: "(string \<times> string) list"
  jo_drone_set :: "string option"
  jo_parameterized_job :: bool
  jo_reserve_hosts :: "bool option"

record create_args =
  ca_options :: job_options
  ca_hosts :: "string list"
  ca_profiles :: "string list"
  ca_meta_hosts :: "string list"
  ca_meta_host_profiles :: "string list"
  ca_one_time_hosts :: "string list"
  ca_atomic_group_name :: "string option"
  ca_hostless :: bool

section \<open>Labels and hosts\<close>

text \<open>A dictionary built from a sequence of pairs: the last value of a key counts.\<close>

definition labels_by_name :: "world \<Rightarrow> (string \<times> label_row) list" where
  "labels_by_name w = foldl (\<lambda>d l. alist_put (l_name l) l d) [] (db_labels w)"

definition label_hostnames :: "nat \<Rightarrow> world \<Rightarrow> string list" where
  "label_hostnames l w = map h_hostname (filter (\<lambda>h. (h_id h, l) \<in> set (db_hosts_labels w)) (db_hosts w))"

definition has_label_named :: "world \<Rightarrow> string \<Rightarrow> nat \<Rightarrow> bool" where
  "has_label_named w name h \<longleftrightarrow> (\<exists>l \<in> set (db_labels w). l_name l = name \<and> (h, l_id l) \<in> set (db_hosts_labels w))"

section \<open>Checks\<close>

definition check_for_duplicate_hosts :: "host_row list \<Rightarrow> unit sched" where
  "check_for_duplicate_hosts hosts =
     (let duplicates = snd (foldl (\<lambda>(seen, dup) h.
        (set_add (h_id h) seen, if h_id h \<in> set seen then set_add (h_hostname h) dup else dup)) ([], []) hosts)
      in if duplicates \<noteq> [] then throw ValidationError else ret ())"

definition check_job_dependencies_rpc :: "host_row list \<Rightarrow> string list \<Rightarrow> unit sched" where
  "check_job_dependencies_rpc hosts dependencies =
     bnd (gets (\<lambda>w. map h_hostname (filter (\<lambda>h. h_id h \<in> set (map h_id hosts) \<and>
       list_all (\<lambda>d. has_label_named w d (h_id h)) dependencies) (db_hosts w)))) (\<lambda>ok_hosts.
     if filter (\<lambda>h. h_hostname h \<notin> set ok_hosts) hosts \<noteq> [] then throw ValidationError else ret ())"

definition minimum_required :: "int option \<Rightarrow> int" where
  "minimum_required synch_count = (case synch_count of Some n \<Rightarrow> if n = 0 then 1 else n | None \<Rightarrow> 1)"

text \<open>The hostnames of the atomic group that carry every label the job depends on.\<close>

definition possible_hosts :: "nat \<Rightarrow> string list \<Rightarrow> (string \<times> label_row) list \<Rightarrow> world \<Rightarrow> exn + string list" where
  "possible_hosts grp dependencies labels w =
     (let names = remdups (concat (map (\<lambda>l. label_hostnames (l_id l) w)
        (filter (\<lambda>l. l_atomic_group_id l = Some grp) (db_labels w))))
      in if list_all (\<lambda>d. map_of labels d \<noteq> None) dependencies
         then Inr (filter (\<lambda>n. list_all (\<lambda>d. n \<in> set (label_hostnames (l_id (the (map_of labels d))) w)) dependencies) names)
         else Inl KeyError)"

definition check_atomic_group_create_job ::
  "int option \<Rightarrow> host_row list \<Rightarrow> label_row list \<Rightarrow> string list \<Rightarrow> nat \<Rightarrow> (string \<times> label_row) list \<Rightarrow> unit sched" where
  "check_atomic_group_create_job synch_count hosts metahosts dependencies grp labels =
     (let required = minimum_required synch_count in
     if hosts \<noteq> [] \<and> metahosts = [] \<and> int (length hosts) < required then throw ValidationError else
     bnd (gets (possible_hosts grp dependencies labels)) (\<lambda>r.
     bnd (lift_sum r) (\<lambda>possible.
     bnd (if hosts = [] \<and> metahosts = [] then ret possible
          else let host_set = remdups (map h_hostname hosts) in
            if filter (\<lambda>n. n \<notin> set possible) host_set \<noteq> [] then throw ValidationError else ret host_set) (\<lambda>host_set.
     bnd (gets (\<lambda>w. foldl (\<lambda>s m. foldl (\<lambda>s n. set_add n s) s (filter (\<lambda>n. n \<in> set (label_hostnames (l_id m) w)) possible))
       host_set metahosts)) (\<lambda>all_hosts.
     if int (length all_hosts) < required then throw ValidationError else ret ())))))"

text \<open>
  \<open>Host.objects.filter(labels__atomic_group=True)\<close>: a foreign key compared with a value is compared with the
  id the value converts to, and \<open>int(True)\<close> is 1.
\<close>

definition id_of_True :: nat where "id_of_True = 1"

definition atomic_hosts :: "host_row list \<Rightarrow> world \<Rightarrow> host_row list" where
  "atomic_hosts hosts w = filter (\<lambda>h. h_id h \<in> set (map h_id hosts) \<and>
     (\<exists>l \<in> set (db_labels w). l_atomic_group_id l = Some id_of_True \<and> (h_id h, l_id l) \<in> set (db_hosts_labels w))) (db_hosts w)"

definition check_hosts_without_group :: "int option \<Rightarrow> host_row list \<Rightarrow> label_row list \<Rightarrow> unit sched" where
  "check_hosts_without_group synch_count hosts metahosts =
     andthen (case synch_count of
         Some n \<Rightarrow> if n > int (length hosts + length metahosts) then throw ValidationError else ret ()
       | None \<Rightarrow> ret ()) (
     bnd (gets (atomic_hosts hosts)) (\<lambda>bad. if bad \<noteq> [] then throw ValidationError else ret ()))"

text \<open>The labels of metahosts and dependencies against the atomic group of the job, compared by name.\<close>

definition atomic_group_name :: "nat \<Rightarrow> string sched" where
  "atomic_group_name a =
     bnd (gets (\<lambda>w. find_row ag_id a (db_atomic_groups w))) (\<lambda>r. bnd (some_or DoesNotExist r) (\<lambda>g. ret (ag_name g)))"

definition check_label_group :: "atomic_group_row option \<Rightarrow> label_row \<Rightarrow> unit sched" where
  "check_label_group grp l = (case l_atomic_group_id l of
       None \<Rightarrow> ret ()
     | Some a \<Rightarrow>
         bnd (atomic_group_name a) (\<lambda>name. case grp of
           None \<Rightarrow> throw ValidationError
         | Some g \<Rightarrow> if name \<noteq> ag_name g then throw ValidationError else ret ()))"

section \<open>Job.create\<close>

definition priority_choices :: "(int \<times> string) list" where
  "priority_choices = [(0, ''Low''), (1, ''Medium''), (2, ''High''), (3, ''Urgent'')]"

definition control_type_choices :: "(int \<times> string) list" where
  "control_type_choices = [(1, ''Server''), (2, ''Client'')]"

text \<open>The value of a choice, or the integer a text denotes; anything else fails the validation of the field.\<close>

definition choice_value :: "(int \<times> string) list \<Rightarrow> choice \<Rightarrow> exn + int" where
  "choice_value table c = (case c of
       Choice_value n \<Rightarrow> Inr n
     | Choice_name s \<Rightarrow> (case List.find (\<lambda>q. snd q = s) table of
         Some q \<Rightarrow> Inr (fst q)
       | None \<Rightarrow> (case py_int s of Inr n \<Rightarrow> Inr n | Inl _ \<Rightarrow> Inl ValidationError)))"

definition or_default :: "'a \<Rightarrow> 'a option \<Rightarrow> 'a" where
  "or_default d x = (case x of None \<Rightarrow> d | Some y \<Rightarrow> y)"

definition check_parameterized_job :: "job_options \<Rightarrow> unit sched" where
  "check_parameterized_job opts =
     (let control_file = or_default [] (jo_control_file opts) \<noteq> [] in
     if control_file = jo_parameterized_job opts then throw PlainException else
     bnd (gets (\<lambda>w. cfg_parameterized_jobs (w_cfg w))) (\<lambda>enabled.
     if control_file \<and> enabled then throw PlainException
     else if jo_parameterized_job opts \<and> \<not> enabled then throw PlainException else ret ()))"

text \<open>
  \<open>add_object\<close>: names become values, missing values their defaults; a required field must not be empty, and
  0 counts as empty.
\<close>

definition job_fields_of :: "string \<Rightarrow> job_options \<Rightarrow> user_row \<Rightarrow> nat option \<Rightarrow> int \<Rightarrow> sched_config \<Rightarrow> exn + job_row" where
  "job_fields_of owner opts user drone_set created cfg =
     sbind (choice_value priority_choices (or_default (Choice_value 1) (jo_priority opts))) (\<lambda>priority.
     sbind (choice_value control_type_choices (or_default (Choice_value 2) (jo_control_type opts))) (\<lambda>control_type.
     let synch_count = or_default 1 (jo_synch_count opts);
         timeout = or_default (cfg_job_timeout_default cfg) (jo_timeout opts);
         max_runtime = or_default (cfg_job_max_runtime_hrs_default cfg) (jo_max_runtime_hrs opts)
     in if owner = [] \<or> jo_name opts = [] \<or> synch_count = 0 \<or> timeout = 0 \<or> max_runtime = 0 then Inl ValidationError
        else Inr \<lparr>j_id = 0, j_owner = owner, j_name = jo_name opts, j_priority = priority,
          j_control_file = or_default [] (jo_control_file opts), j_control_type = control_type, j_created_on = created,
          j_synch_count = synch_count, j_timeout = timeout, j_run_verify = or_default True (jo_run_verify opts),
          j_email_list = or_default [] (jo_email_list opts),
          j_reboot_before = or_default (u_reboot_before user) (jo_reboot_before opts),
          j_reboot_after = or_default (u_reboot_after user) (jo_reboot_after opts),
          j_parse_failed_repair = or_default (cfg_parse_failed_repair_default cfg) (jo_parse_failed_repair opts),
          j_max_runtime_hrs = max_runtime, j_drone_set_id = drone_set,
          j_reserve_hosts = or_default False (jo_reserve_hosts opts)\<rparr>))"

definition job_save_new :: "job_row \<Rightarrow> nat sched" where
  "job_save_new j = bnd fresh_id (\<lambda>i.
     andthen (modify (\<lambda>w. w\<lparr>db_jobs := put_row j_id (j\<lparr>j_id := i\<rparr>) (db_jobs w)\<rparr>)) (ret i))"

definition job_create :: "string \<Rightarrow> job_options \<Rightarrow> label_row list \<Rightarrow> host_row list \<Rightarrow> nat sched" where
  "job_create owner opts dependencies hosts =
     andthen (check_for_acl_violation_hosts hosts None) (
     andthen (check_parameterized_job opts) (
     bnd current_user (\<lambda>user.
     bnd (drone_set_resolve_name (jo_drone_set opts)) (\<lambda>name.
     bnd (case name of None \<Rightarrow> ret None | Some n \<Rightarrow> bnd (drone_set_by_name n) (\<lambda>d. ret (Some d))) (\<lambda>drone_set.
     bnd now (\<lambda>t.
     bnd (gets w_cfg) (\<lambda>cfg.
     bnd (lift_sum (job_fields_of owner opts user drone_set t cfg)) (\<lambda>j.
     bnd (job_save_new j) (\<lambda>i.
     andthen (modify (\<lambda>w. w\<lparr>db_jobs_dependency_labels := db_jobs_dependency_labels w @
         map (\<lambda>l. (i, l_id l)) (remdups dependencies),
       db_job_keyvals := db_job_keyvals w @ map (\<lambda>kv. (i, kv)) (jo_keyvals opts)\<rparr>)) (ret i))))))))))"

section \<open>create\_new\_job\<close>

definition targets :: "host_row list \<Rightarrow> label_row list \<Rightarrow> queue_target list" where
  "targets hosts metahosts = map (\<lambda>h. On_host (h_id h)) hosts @ map (\<lambda>l. On_label (l_id l)) metahosts"

definition dependency_objects :: "(string \<times> label_row) list \<Rightarrow> string list \<Rightarrow> exn + label_row list" where
  "dependency_objects labels names =
     (if list_all (\<lambda>n. map_of labels n \<noteq> None) names then Inr (map (\<lambda>n. the (map_of labels n)) names) else Inl KeyError)"

text \<open>Everything checked before the first row is written.\<close>

definition check_new_job ::
  "job_options \<Rightarrow> host_row list \<Rightarrow> label_row list \<Rightarrow> atomic_group_row option \<Rightarrow> label_row list sched" where
  "check_new_job opts hosts metahosts grp =
     bnd (gets labels_by_name) (\<lambda>labels.
     andthen (case grp of
         Some g \<Rightarrow> check_atomic_group_create_job (jo_synch_count opts) hosts metahosts (jo_dependencies opts) (ag_id g) labels
       | None \<Rightarrow> check_hosts_without_group (jo_synch_count opts) hosts metahosts) (
     andthen (check_for_duplicate_hosts hosts) (
     andthen (check_job_dependencies_rpc hosts (jo_dependencies opts)) (
     bnd (lift_sum (dependency_objects labels (jo_dependencies opts))) (\<lambda>dependencies.
     andthen (for_each (metahosts @ dependencies) (check_label_group grp)) (ret dependencies))))))"

definition create_new_job ::
  "string \<Rightarrow> job_options \<Rightarrow> host_row list \<Rightarrow> string list \<Rightarrow> label_row list \<Rightarrow> string list \<Rightarrow> atomic_group_row option \<Rightarrow> nat sched" where
  "create_new_job owner opts hosts profiles metahosts metahost_profiles grp =
     bnd (check_new_job opts hosts metahosts grp) (\<lambda>dependencies.
     bnd (job_create owner opts dependencies hosts) (\<lambda>i.
     andthen (model_job_queue i (targets hosts metahosts) (profiles @ metahost_profiles)
         (map_option ag_id grp) (jo_is_template opts)) (ret i)))"

section \<open>create\_job\<close>

text \<open>\<open>host.save()\<close> of a host without id: the row of an invalid host of the name is taken over.\<close>

definition clean_host :: "nat \<Rightarrow> unit sched" where
  "clean_host h = modify (\<lambda>w. w\<lparr>db_acl_hosts := filter (\<lambda>p. snd p \<noteq> h) (db_acl_hosts w),
     db_hosts_labels := filter (\<lambda>p. fst p \<noteq> h) (db_hosts_labels w)\<rparr>)"

definition host_save_new :: "host_row \<Rightarrow> host_row sched" where
  "host_save_new h =
     (let name = py_strip (h_hostname h) in
     bnd (gets (\<lambda>w. List.find (\<lambda>r. h_hostname r = name) (db_hosts w))) (\<lambda>old.
     bnd (case old of
         None \<Rightarrow> bnd fresh_id (\<lambda>i. ret (h\<lparr>h_id := i, h_hostname := name\<rparr>))
       | Some r \<Rightarrow> if h_invalid r then ret (h\<lparr>h_id := h_id r, h_hostname := name, h_status := h_status r\<rparr>)
                   else throw IntegrityError) (\<lambda>h'.
     andthen (modify (\<lambda>w. w\<lparr>db_hosts := put_row h_id h' (db_hosts w)\<rparr>)) (
     bnd (acl_by_name ''Everyone'') (\<lambda>g. andthen (acl_add_host g (h_id h')) (ret h'))))))"

definition create_one_time_host :: "string \<Rightarrow> host_row sched" where
  "create_one_time_host hostname =
     bnd (gets (\<lambda>w. List.find (\<lambda>r. h_hostname r = hostname) (db_hosts w))) (\<lambda>old.
     bnd (case old of
         None \<Rightarrow> if hostname = [] then throw ValidationError else
           host_save_new \<lparr>h_id = 0, h_hostname = hostname, h_locked = False, h_status = Some HReady, h_invalid = True,
             h_protection = Do_not_repair, h_locked_by = None, h_lock_time = None, h_dirty = True\<rparr>
       | Some r \<Rightarrow> if \<not> h_invalid r then throw ValidationError else
           (let h = r\<lparr>h_protection := Do_not_repair, h_locked := False\<rparr> in
            andthen (host_save h) (bnd (django_host (h_id r)) ret))) (\<lambda>h.
     andthen (clean_host (h_id h)) (ret h)))"

text \<open>Names of labels and atomic groups compared in lower case; the last one of a name counts.\<close>

definition lower_labels :: "world \<Rightarrow> (string \<times> label_row) list" where
  "lower_labels w = foldl (\<lambda>d l. alist_put (str_lower (l_name l)) l d) [] (db_labels w)"

definition lower_atomic_groups :: "world \<Rightarrow> (string \<times> atomic_group_row) list" where
  "lower_atomic_groups w = foldl (\<lambda>d g. alist_put (str_lower (ag_name g)) g d) [] (db_atomic_groups w)"

text \<open>The atomic group of the first metahost label that has one.\<close>

fun label_atomic_group :: "(string \<times> label_row) list \<Rightarrow> string list \<Rightarrow> nat option" where
  "label_atomic_group labels [] = None"
| "label_atomic_group labels (n # ns) = (case map_of labels n of
     Some l \<Rightarrow> (case l_atomic_group_id l of Some a \<Rightarrow> Some a | None \<Rightarrow> label_atomic_group labels ns)
   | None \<Rightarrow> label_atomic_group labels ns)"

text \<open>The metahosts become labels; one that names an atomic group chooses it instead.\<close>

fun resolve_metahosts ::
  "(string \<times> label_row) list \<Rightarrow> (string \<times> atomic_group_row) list \<Rightarrow> string list \<Rightarrow> string option \<Rightarrow>
   exn + label_row list \<times> string option" where
  "resolve_metahosts labels groups [] grp = Inr ([], grp)"
| "resolve_metahosts labels groups (n # ns) grp = (case map_of labels n of
     Some l \<Rightarrow> sbind (resolve_metahosts labels groups ns grp) (\<lambda>(ls, g). Inr (l # ls, g))
   | None \<Rightarrow> (case map_of groups n of
       Some a \<Rightarrow> if grp \<noteq> None \<and> grp \<noteq> Some [] \<and> grp \<noteq> Some (ag_name a) then Inl ValidationError
                 else resolve_metahosts labels groups ns (Some (ag_name a))
     | None \<Rightarrow> Inl ValidationError))"

definition given :: "string option \<Rightarrow> bool" where
  "given s \<longleftrightarrow> (case s of None \<Rightarrow> False | Some n \<Rightarrow> n \<noteq> [])"

definition check_create_args :: "create_args \<Rightarrow> exn + unit" where
  "check_create_args a =
     (let some_hosts = ca_hosts a \<noteq> [] \<or> ca_meta_hosts a \<noteq> [] \<or> ca_one_time_hosts a \<noteq> [] \<or> given (ca_atomic_group_name a) in
     if \<not> some_hosts \<and> \<not> ca_hostless a then Inl ValidationError
     else if ca_hostless a \<and> some_hosts then Inl ValidationError
     else if ca_hostless a \<and> jo_control_type (ca_options a) \<noteq> Some (Choice_name ''Server'') then Inl ValidationError
     else Inr ())"

definition atomic_group_smart_get :: "string \<Rightarrow> atomic_group_row sched" where
  "atomic_group_smart_get name =
     bnd (gets (\<lambda>w. List.find (\<lambda>g. \<not> ag_invalid g \<and> ag_name g = name) (db_atomic_groups w))) (some_or DoesNotExist)"

definition chosen_atomic_group :: "create_args \<Rightarrow> string option \<Rightarrow> atomic_group_row option sched" where
  "chosen_atomic_group a name =
     (if \<not> given name then ret None
      else if ca_one_time_hosts a \<noteq> [] then throw ValidationError
      else bnd (atomic_group_smart_get (the name)) (\<lambda>g.
        case jo_synch_count (ca_options a) of
          Some n \<Rightarrow> if n \<noteq> 0 \<and> n > ag_max_number_of_machines g then throw ValidationError else ret (Some g)
        | None \<Rightarrow> ret (Some g)))"

definition create_job :: "create_args \<Rightarrow> nat sched" where
  "create_job a =
     bnd current_user (\<lambda>user.
     let meta_hosts = map str_lower (ca_meta_hosts a) in
     bnd (lift_sum (check_create_args a)) (\<lambda>_.
     bnd (gets lower_labels) (\<lambda>labels.
     bnd (gets lower_atomic_groups) (\<lambda>groups.
     bnd (if given (ca_atomic_group_name a) then ret (ca_atomic_group_name a)
          else (case label_atomic_group labels meta_hosts of
            None \<Rightarrow> ret (ca_atomic_group_name a) | Some g \<Rightarrow> bnd (atomic_group_name g) (\<lambda>n. ret (Some n)))) (\<lambda>name.
     bnd (host_smart_get_bulk (ca_hosts a)) (\<lambda>hosts.
     bnd (lift_sum (resolve_metahosts labels groups meta_hosts name)) (\<lambda>(metahosts, name').
     bnd (chosen_atomic_group a name') (\<lambda>grp.
     bnd (map_each (ca_one_time_hosts a) create_one_time_host) (\<lambda>one_time.
     create_new_job (u_login user) (ca_options a) (hosts @ one_time) (ca_profiles a) metahosts
       (ca_meta_host_profiles a) grp)))))))))"

section \<open>Aborting entries\<close>

definition execution_key :: "hqe_row \<Rightarrow> nat \<times> string" where
  "execution_key q = (q_job_id q, q_execution_subdir q)"

definition count_executions :: "hqe_row list \<Rightarrow> ((nat \<times> string) \<times> nat) list" where
  "count_executions entries = foldl (\<lambda>d q.
     alist_put (execution_key q) (Suc (case map_of d (execution_key q) of None \<Rightarrow> 0 | Some n \<Rightarrow> n)) d) [] entries"

definition check_abort_synchronous_entry :: "((nat \<times> string) \<times> nat) list \<Rightarrow> hqe_row \<Rightarrow> unit sched" where
  "check_abort_synchronous_entry counts q =
     (if q_execution_subdir q = [] then ret () else
      bnd (some_or KeyError (map_of counts (execution_key q))) (\<lambda>n.
      bnd (django_job (q_job_id q)) (\<lambda>j.
      if int n < j_synch_count j then throw ValidationError else ret ())))"

definition check_abort_synchronous_jobs :: "hqe_row list \<Rightarrow> unit sched" where
  "check_abort_synchronous_jobs entries = for_each entries (check_abort_synchronous_entry (count_executions entries))"

text \<open>The filter of the call is a predicate on rows; \<open>entry.abort()\<close> works on the object read by the query.\<close>

definition abort_host_queue_entries :: "(hqe_row \<Rightarrow> bool) \<Rightarrow> unit sched" where
  "abort_host_queue_entries selected =
     bnd (gets (\<lambda>w. filter (\<lambda>q. selected q \<and> \<not> q_complete q) (db_hqes w))) (\<lambda>entries.
     andthen (check_abort_permissions entries) (
     andthen (check_abort_synchronous_jobs entries) (for_each entries hqe_abort)))"

section \<open>Checks change nothing\<close>

text \<open>A computation that keeps every state, and one that never raises some exception.\<close>

named_theorems reads_intro \<open>computations that keep the state \<open>w\<close>\<close>

definition reads :: "world \<Rightarrow> 'a sched \<Rightarrow> bool" where
  "reads w m \<longleftrightarrow> snd (m w) = w"

lemma reads_keeps: "keeps ((=) w) m \<Longrightarrow> reads w m"
  unfolding reads_def using keepsD [of "(=) w" m w] by simp

lemma readsD: "reads w m \<Longrightarrow> m w = (r, w') \<Longrightarrow> w' = w"
  by (simp add: reads_def)

definition quiet :: "exn \<Rightarrow> 'a sched \<Rightarrow> bool" where
  "quiet e m \<longleftrightarrow> (\<forall>w. fst (m w) \<noteq> Inl e)"

named_theorems quiet_intro \<open>computations that do not raise an exception\<close>

lemma quiet_ret [quiet_intro]: "quiet e (ret x)" by (simp add: quiet_def ret_def)
lemma quiet_gets [quiet_intro]: "quiet e (gets f)" by (simp add: quiet_def gets_def)
lemma quiet_modify [quiet_intro]: "quiet e (modify f)" by (simp add: quiet_def modify_def)
lemma quiet_throw: "e \<noteq> d \<Longrightarrow> quiet e (throw d)" by (simp add: quiet_def throw_def)
lemma quiet_some_or: "e \<noteq> d \<Longrightarrow> quiet e (some_or d x)" by (cases x) (simp_all add: quiet_def throw_def ret_def)
lemma quiet_bnd [quiet_intro]: "quiet e m \<Longrightarrow> (\<And>x. quiet e (f x)) \<Longrightarrow> quiet e (bnd m f)"
  by (auto simp: quiet_def bnd_def split: prod.split sum.split) (metis fst_conv)
lemma quiet_andthen [quiet_intro]: "quiet e m \<Longrightarrow> quiet e n \<Longrightarrow> quiet e (andthen m n)"
  by (simp add: andthen_def quiet_bnd)
lemma quiet_if [quiet_intro]: "quiet e m \<Longrightarrow> quiet e n \<Longrightarrow> quiet e (if b then m else n)" by simp
lemma quiet_when [quiet_intro]: "quiet e m \<Longrightarrow> quiet e (when_do b m)" by (simp add: when_do_def quiet_ret)
lemma quiet_option [quiet_intro]: "quiet e m \<Longrightarrow> (\<And>y. quiet e (f y)) \<Longrightarrow> quiet e (case x of None \<Rightarrow> m | Some y \<Rightarrow> f y)"
  by (cases x) simp_all
lemma quiet_list [quiet_intro]: "quiet e m \<Longrightarrow> (\<And>y ys. quiet e (f y ys)) \<Longrightarrow> quiet e (case x of [] \<Rightarrow> m | y # ys \<Rightarrow> f y ys)"
  by (cases x) simp_all
lemma quiet_for_each [quiet_intro]: "(\<And>x. quiet e (f x)) \<Longrightarrow> quiet e (for_each xs f)"
  by (induction xs) (simp_all add: quiet_ret quiet_andthen)

lemmas quiet_throws = quiet_throw quiet_some_or

lemma quiet_current_user: "quiet ValidationError current_user"
  unfolding current_user_def user_save_def django_user_def acl_by_name_def acl_add_user_def fresh_id_def Let_def
  by (intro quiet_intro quiet_throws) simp_all

lemma quiet_host_save: "quiet ValidationError (host_save h)"
  unfolding host_save_def check_for_acl_violation_hosts_def user_by_login_def now_def Let_def
  by (intro quiet_intro quiet_throws quiet_current_user) simp_all

lemma quiet_save_new: "quiet ValidationError (hqe_save_new q)"
  unfolding hqe_save_new_def hqe_save_def fresh_id_def Let_def by (intro quiet_intro)

lemma quiet_queue: "quiet ValidationError (model_job_queue j ts ps a b)"
  unfolding model_job_queue_def target_enqueue_job_def host_enqueue_job_def label_enqueue_job_def
    atomic_group_enqueue_job_def django_host_def active_queue_entry_def assert_that_def fresh_id_def Let_def case_prod_unfold
  by (auto intro!: quiet_intro quiet_throws quiet_host_save quiet_save_new split: queue_target.split)

text \<open>A request runs for a user whose row is in the database.\<close>

definition request_by :: "user_row \<Rightarrow> world \<Rightarrow> bool" where
  "request_by u w \<longleftrightarrow> w_thread_user w = Some (u_id u) \<and> find_row u_id (u_id u) (db_users w) = Some u"

lemma current_user_request: "request_by u w \<Longrightarrow> current_user w = (Inr u, w)"
  by (simp add: request_by_def current_user_def django_user_def ret_def)

lemma keeps_current_user: "request_by u w \<Longrightarrow> keeps ((=) w) current_user"
  by (auto simp: keeps_def current_user_request)

lemma keeps_check_hosts: "request_by u w \<Longrightarrow> keeps ((=) w) (check_for_acl_violation_hosts hs None)"
  unfolding check_for_acl_violation_hosts_def option.case by (intro keeps_intro keeps_current_user)

lemma keeps_drone_set: "request_by u w \<Longrightarrow> keeps ((=) w) (drone_set_resolve_name n)"
  unfolding drone_set_resolve_name_def drone_set_name_def drone_set_get_default_def drone_set_by_name_def
  by (intro keeps_intro keeps_current_user)

lemma keeps_check_new_job: "keeps ((=) w) (check_new_job opts hosts metahosts g)"
  unfolding check_new_job_def check_atomic_group_create_job_def check_hosts_without_group_def check_for_duplicate_hosts_def
    check_job_dependencies_rpc_def check_label_group_def atomic_group_name_def Let_def
  by (intro keeps_intro)

text \<open>\<open>Job.create\<close> up to the first write.\<close>

definition job_fields_checked :: "string \<Rightarrow> job_options \<Rightarrow> host_row list \<Rightarrow> job_row sched" where
  "job_fields_checked owner opts hosts =
     andthen (check_for_acl_violation_hosts hosts None) (
     andthen (check_parameterized_job opts) (
     bnd current_user (\<lambda>user.
     bnd (drone_set_resolve_name (jo_drone_set opts)) (\<lambda>name.
     bnd (case name of None \<Rightarrow> ret None | Some n \<Rightarrow> bnd (drone_set_by_name n) (\<lambda>d. ret (Some d))) (\<lambda>drone_set.
     bnd now (\<lambda>t.
     bnd (gets w_cfg) (\<lambda>cfg.
     lift_sum (job_fields_of owner opts user drone_set t cfg))))))))"

definition job_written :: "job_options \<Rightarrow> label_row list \<Rightarrow> job_row \<Rightarrow> nat sched" where
  "job_written opts dependencies j =
     bnd (job_save_new j) (\<lambda>i.
     andthen (modify (\<lambda>w. w\<lparr>db_jobs_dependency_labels := db_jobs_dependency_labels w @
         map (\<lambda>l. (i, l_id l)) (remdups dependencies),
       db_job_keyvals := db_job_keyvals w @ map (\<lambda>kv. (i, kv)) (jo_keyvals opts)\<rparr>)) (ret i))"

lemma job_create_split: "job_create owner opts deps hosts = bnd (job_fields_checked owner opts hosts) (job_written opts deps)"
  by (simp add: job_create_def job_fields_checked_def job_written_def [abs_def] andthen_def bnd_assoc)

lemma keeps_job_fields: "request_by u w \<Longrightarrow> keeps ((=) w) (job_fields_checked owner opts hosts)"
  unfolding job_fields_checked_def check_parameterized_job_def drone_set_by_name_def now_def Let_def
  by (intro keeps_intro keeps_current_user keeps_check_hosts keeps_drone_set)

lemma job_written_run: "\<exists>w'. job_written opts deps j w = (Inr (db_auto_id w), w')"
  by (simp add: job_written_def job_save_new_def fresh_id_def modify_def bnd_def andthen_def gets_def ret_def)

lemma refused_new_job:
  assumes "request_by u w" "create_new_job owner opts hosts ps ms mps g w = (Inl ValidationError, w')"
  shows "w' = w"
proof -
  obtain r w1 where c: "check_new_job opts hosts ms g w = (r, w1)" by (cases "check_new_job opts hosts ms g w")
  then have w1: "w1 = w" using readsD [OF reads_keeps [OF keeps_check_new_job]] by blast
  show ?thesis
  proof (cases r)
    case (Inl e)
    then show ?thesis using assms(2) c w1 by (simp add: create_new_job_def bnd_run_err)
  next
    case (Inr deps)
    obtain q w2 where q: "job_fields_checked owner opts hosts w = (q, w2)" by (cases "job_fields_checked owner opts hosts w")
    then have w2: "w2 = w" using readsD [OF reads_keeps [OF keeps_job_fields [OF assms(1)]]] by blast
    show ?thesis
    proof (cases q)
      case (Inl e)
      then show ?thesis using assms(2) c w1 Inr q w2
        by (simp add: create_new_job_def bnd_run job_create_split bnd_assoc bnd_run_err)
    next
      case (Inr j)
      obtain i w3 where written: "job_written opts deps j w = (Inr i, w3)" using job_written_run by blast
      have "fst (andthen (model_job_queue i (targets hosts ms) (ps @ mps) (map_option ag_id g) (jo_is_template opts)) (ret i) w3)
          \<noteq> Inl ValidationError"
        using quiet_andthen [OF quiet_queue quiet_ret [of _ i]] by (simp add: quiet_def)
      moreover have "create_new_job owner opts hosts ps ms mps g w =
          andthen (model_job_queue i (targets hosts ms) (ps @ mps) (map_option ag_id g) (jo_is_template opts)) (ret i) w3"
        using c w1 \<open>r = Inr deps\<close> q w2 Inr written by (simp add: create_new_job_def bnd_run job_create_split)
      ultimately show ?thesis using assms(2) by (metis fst_conv)
    qed
  qed
qed

lemma keeps_smart_get: "keeps ((=) w) (host_smart_get_bulk names)"
  unfolding host_smart_get_bulk_def by (intro keeps_intro)

lemma keeps_chosen_group: "keeps ((=) w) (chosen_atomic_group a name)"
  unfolding chosen_atomic_group_def atomic_group_smart_get_def by (intro keeps_intro)

lemma keeps_group_name:
  "keeps ((=) w) (if given n then ret n else (case label_atomic_group ls ms of
     None \<Rightarrow> ret n | Some g \<Rightarrow> bnd (atomic_group_name g) (\<lambda>n. ret (Some n))))"
  unfolding atomic_group_name_def by (intro keeps_intro)

text \<open>A step that keeps the state and is followed by more steps.\<close>

lemma after_reading:
  assumes "keeps ((=) (w :: world)) m" "bnd m f w = (r, w')"
  obtains e where "r = Inl e" "w' = w" | x where "f x w = (r, w')"
proof -
  obtain q v where q: "m w = (q, v)" by (cases "m w")
  then have "v = w" using readsD [OF reads_keeps [OF assms(1)]] by blast
  with q assms(2) show ?thesis by (cases q) (auto simp: bnd_def intro: that)
qed

text \<open>
  C9 (frontend/afe/rpc\_interface.py, \<open>create_job\<close>). A request for a job without one-time hosts that is
  refused with a ValidationError leaves the database as it was: no check comes after the first write.
\<close>

theorem refused_job_leaves_no_trace:
  assumes "request_by u w" "ca_one_time_hosts a = []" "create_job a w = (Inl ValidationError, w')"
  shows "w' = w"
proof -
  note keeps = keeps_lift_sum keeps_gets keeps_group_name keeps_smart_get keeps_chosen_group
  from assms(3) current_user_request [OF assms(1)] have "bnd (lift_sum (check_create_args a)) (\<lambda>_.
     bnd (gets lower_labels) (\<lambda>labels.
     bnd (gets lower_atomic_groups) (\<lambda>groups.
     bnd (if given (ca_atomic_group_name a) then ret (ca_atomic_group_name a)
          else (case label_atomic_group labels (map str_lower (ca_meta_hosts a)) of
            None \<Rightarrow> ret (ca_atomic_group_name a) | Some g \<Rightarrow> bnd (atomic_group_name g) (\<lambda>n. ret (Some n)))) (\<lambda>name.
     bnd (host_smart_get_bulk (ca_hosts a)) (\<lambda>hosts.
     bnd (lift_sum (resolve_metahosts labels groups (map str_lower (ca_meta_hosts a)) name)) (\<lambda>(metahosts, name').
     bnd (chosen_atomic_group a name') (\<lambda>grp.
     create_new_job (u_login u) (ca_options a) (hosts @ []) (ca_profiles a) metahosts (ca_meta_host_profiles a) grp))))))) w =
     (Inl ValidationError, w')"
    by (simp add: create_job_def bnd_run Let_def assms(2))
  then show ?thesis
    by (elim after_reading [OF keeps_lift_sum] after_reading [OF keeps_gets] after_reading [OF keeps_group_name]
        after_reading [OF keeps_smart_get] after_reading [OF keeps_chosen_group]; (simp split: prod.splits)?;
      (elim after_reading [OF keeps_chosen_group])?; (auto dest: refused_new_job [OF assms(1)])?)
qed

end
