(* ===== verification/Job_Entries.thy ===== *)
theory Job_Entries
  imports Job_Creation
begin

text \<open>
  What a successful \<open>create_job\<close> has checked and written: the entries of the new job, the access of its owner,
  and what aborting entries keeps together.
\<close>

section \<open>A request\<close>

definition bob :: user_row where
  "bob = \<lparr>u_id = 2, u_login = ''bob'', u_access_level = 0, u_drone_set_id = None, u_reboot_before = RB_Never, u_reboot_after = RA_Never\<rparr>"

definition plain_options :: job_options where
  "plain_options = \<lparr>jo_name = ''sleep'', jo_priority = Some (Choice_name ''High''), jo_control_file = Some ''job.run_test()'',
     jo_control_type = Some (Choice_name ''Client''), jo_is_template = False, jo_timeout = None, jo_max_runtime_hrs = None,
     jo_synch_count = None, jo_run_verify = None, jo_email_list = None, jo_dependencies = [''x86''], jo_reboot_before = None,
     jo_reboot_after = None, jo_parse_failed_repair = None, jo_keyvals = [], jo_drone_set = None,
     jo_parameterized_job = False, jo_reserve_hosts = None\<rparr>"

text \<open>Bob may use two hosts with the label x86; the second one is in atomic group 2.\<close>

definition request_world :: world where
  "request_world = empty_world\<lparr>db_users := [bob], w_thread_user := Some 2, db_acl_groups := [(1, ''Everyone'')],
     db_acl_users := [(1, 2)], db_hosts := [sample_host 1 ''one'', sample_host 2 ''two''], db_acl_hosts := [(1, 1), (1, 2)],
     db_labels := [\<lparr>l_id = 1, l_name = ''x86'', l_platform = True, l_invalid = False, l_only_if_needed = False, l_atomic_group_id = None\<rparr>,
       \<lparr>l_id = 2, l_name = ''rack'', l_platform = False, l_invalid = False, l_only_if_needed = False, l_atomic_group_id = Some 2\<rparr>],
     db_atomic_groups := [\<lparr>ag_id = 2, ag_name = ''racks'', ag_max_number_of_machines = 4, ag_invalid = False\<rparr>],
     db_hosts_labels := [(1, 1), (2, 1), (2, 2)]\<rparr>"

definition job_args :: "string list \<Rightarrow> string list \<Rightarrow> int option \<Rightarrow> create_args" where
  "job_args hosts profiles synch_count = \<lparr>ca_options = plain_options\<lparr>jo_synch_count := synch_count\<rparr>, ca_hosts = hosts, ca_profiles = profiles,
     ca_meta_hosts = [], ca_meta_host_profiles = [], ca_one_time_hosts = [], ca_atomic_group_name = None, ca_hostless = False\<rparr>"

lemma bob_requests: "request_by bob request_world"
  by (simp add: request_by_def request_world_def bob_def)

lemma refused_job_leaves_no_trace_witness:
  "create_job (job_args [''one''] [] (Some 3)) request_world = (Inl ValidationError, request_world)"
proof -
  have "fst (create_job (job_args [''one''] [] (Some 3)) request_world) = Inl ValidationError" by code_simp
  then have run: "create_job (job_args [''one''] [] (Some 3)) request_world =
      (Inl ValidationError, snd (create_job (job_args [''one''] [] (Some 3)) request_world))"
    by (simp add: prod_eq_iff)
  moreover have "ca_one_time_hosts (job_args [''one''] [] (Some 3)) = []" by (simp add: job_args_def)
  ultimately show ?thesis using refused_job_leaves_no_trace [OF bob_requests _ run] by metis
qed

section \<open>The entries of a new job\<close>

text \<open>Every id in use was given out before.\<close>

definition fresh_ids :: "world \<Rightarrow> bool" where
  "fresh_ids w \<longleftrightarrow> list_all (\<lambda>q. q_id q < db_auto_id w) (db_hqes w) \<and> list_all (\<lambda>j. j_id j < db_auto_id w) (db_jobs w)"

lemma put_row_append: "list_all (\<lambda>x. key x < key r) rows \<Longrightarrow> put_row key r rows = rows @ [r]"
  by (induction rows) auto

text \<open>The tables of entries and jobs stay, and ids only go up.\<close>

definition same_work :: "hqe_row list \<Rightarrow> job_row list \<Rightarrow> nat \<Rightarrow> world \<Rightarrow> bool" where
  "same_work qs js n w \<longleftrightarrow> db_hqes w = qs \<and> db_jobs w = js \<and> n \<le> db_auto_id w"

named_theorems same_work_ops

lemma same_fresh_id [same_work_ops]: "keeps (same_work qs js n) fresh_id"
  by (rule keepsI) (simp add: fresh_id_def bnd_def andthen_def gets_def modify_def ret_def same_work_def)

lemma same_acl_add_user [same_work_ops]: "keeps (same_work qs js n) (acl_add_user g u)"
  unfolding acl_add_user_def by (intro keeps_intro) (simp add: same_work_def)

lemma same_user_save [same_work_ops]: "keeps (same_work qs js n) (user_save b u)"
  unfolding user_save_def django_user_def acl_by_name_def by (intro keeps_intro same_work_ops) (simp add: same_work_def)

lemma same_current_user [same_work_ops]: "keeps (same_work qs js n) current_user"
  unfolding current_user_def django_user_def by (intro keeps_intro same_work_ops)

lemma same_check_hosts [same_work_ops]: "keeps (same_work qs js n) (check_for_acl_violation_hosts hs u)"
  unfolding check_for_acl_violation_hosts_def user_by_login_def by (intro keeps_intro same_work_ops)

lemma same_host_save [same_work_ops]: "keeps (same_work qs js n) (host_save h)"
  unfolding host_save_def now_def Let_def by (intro keeps_intro same_work_ops) (simp add: same_work_def)

lemma same_active_entry [same_work_ops]: "keeps (same_work qs js n) (active_queue_entry h)"
  unfolding active_queue_entry_def by (intro keeps_intro)

lemma same_django_host [same_work_ops]: "keeps (same_work qs js n) (django_host h)"
  unfolding django_host_def by (intro keeps_intro)

lemma same_drone_set [same_work_ops]: "keeps (same_work qs js n) (drone_set_resolve_name d)"
  unfolding drone_set_resolve_name_def drone_set_name_def drone_set_get_default_def drone_set_by_name_def
  by (intro keeps_intro same_work_ops)

lemma same_job_fields [same_work_ops]: "keeps (same_work qs js n) (job_fields_checked owner opts hosts)"
  unfolding job_fields_checked_def check_parameterized_job_def drone_set_by_name_def now_def Let_def
  by (intro keeps_intro same_work_ops)

text \<open>Saving an entry the first time puts it behind the others.\<close>

lemma hqe_save_new_run:
  assumes "fresh_ids w"
  shows "\<exists>w'. hqe_save_new q w = (Inr ((set_active_and_complete q)\<lparr>q_id := db_auto_id w\<rparr>), w') \<and>
    same_work (db_hqes w @ [(set_active_and_complete q)\<lparr>q_id := db_auto_id w\<rparr>]) (db_jobs w) (Suc (db_auto_id w)) w'"
proof -
  have eq: "set_active_and_complete (q\<lparr>q_id := i\<rparr>) = (set_active_and_complete q)\<lparr>q_id := i\<rparr>" for i
    by (simp add: set_active_and_complete_def)
  moreover have "put_row q_id (r\<lparr>q_id := db_auto_id w\<rparr>) (db_hqes w) = db_hqes w @ [r\<lparr>q_id := db_auto_id w\<rparr>]" for r
    using assms by (intro put_row_append) (simp add: fresh_ids_def)
  ultimately show ?thesis
    by (simp add: hqe_save_new_def fresh_id_def hqe_save_def Let_def bnd_def andthen_def gets_def modify_def ret_def same_work_def)
qed

lemma fresh_ids_more:
  assumes "fresh_ids w" "same_work (db_hqes w @ [q\<lparr>q_id := db_auto_id w\<rparr>]) (db_jobs w) (Suc (db_auto_id w)) w'"
  shows "fresh_ids w'"
  using assms by (auto simp: fresh_ids_def same_work_def list_all_iff intro: less_le_trans less_SucI)

text \<open>The entry a target gets, as it is saved.\<close>

definition new_entry :: "nat \<Rightarrow> nat option \<Rightarrow> bool \<Rightarrow> queue_target \<times> string \<Rightarrow> hqe_row" where
  "new_entry j a t p = (case p of (On_host h, profile) \<Rightarrow> hqe_create j (Some h) profile None a t
     | (On_label l, profile) \<Rightarrow> hqe_create j None profile (Some l) a t)"

abbreviation entry_for :: "nat \<Rightarrow> nat option \<Rightarrow> bool \<Rightarrow> queue_target \<times> string \<Rightarrow> hqe_row" where
  "entry_for j a t p \<equiv> set_active_and_complete (new_entry j a t p)"

lemma fresh_ids_same:
  "fresh_ids w \<Longrightarrow> same_work (db_hqes w) (db_jobs w) (db_auto_id w) w' \<Longrightarrow> fresh_ids w'"
  by (auto simp: fresh_ids_def same_work_def list_all_iff)

lemma same_work_run: "keeps (same_work qs js n) m \<Longrightarrow> same_work qs js n w \<Longrightarrow> m w = (r, w') \<Longrightarrow> same_work qs js n w'"
  using keepsD by (metis snd_conv)

lemma save_entry_step:
  assumes "hqe_save_new (new_entry j a t p) w = (Inr r, w')" "fresh_ids w"
  shows "\<exists>i. db_hqes w' = db_hqes w @ [(entry_for j a t p)\<lparr>q_id := i\<rparr>] \<and> db_jobs w' = db_jobs w \<and> fresh_ids w'"
  using hqe_save_new_run [OF assms(2), of "new_entry j a t p"] assms(1) fresh_ids_more [OF assms(2), of "entry_for j a t p" w']
  by (auto simp: same_work_def)

lemma enqueue_step:
  assumes "target_enqueue_job j a t p w = (Inr (), w')" "fresh_ids w"
  shows "\<exists>i. db_hqes w' = db_hqes w @ [(entry_for j a t p)\<lparr>q_id := i\<rparr>] \<and> db_jobs w' = db_jobs w \<and> fresh_ids w'"
proof (cases p)
  case (Pair tg profile)
  show ?thesis
  proof (cases tg)
    case (On_label l)
    then obtain r where "hqe_save_new (new_entry j a t p) w = (Inr r, w')"
      using assms(1) Pair by (auto simp: target_enqueue_job_def label_enqueue_job_def new_entry_def exm_Inr)
    then show ?thesis using assms(2) by (rule save_entry_step)
  next
    case (On_host h)
    let ?pre = "\<lambda>host active. when_do (active = None \<and> is_dead host) (host_save (host\<lparr>h_status := Some HReady\<rparr>))"
    from assms(1) On_host Pair obtain host s1 active s2 s3 r s4 i s5 where run:
      "django_host h w = (Inr host, s1)" "active_queue_entry h s1 = (Inr active, s2)"
      "?pre host active s2 = (Inr (), s3)" "hqe_save_new (new_entry j a t p) s3 = (Inr r, s4)"
      "fresh_id s4 = (Inr i, s5)" "w' = s5\<lparr>db_blocks := db_blocks s5 @ [\<lparr>b_id = i, b_job_id = j, b_host_id = h\<rparr>]\<rparr>"
      by (auto simp: target_enqueue_job_def host_enqueue_job_def new_entry_def exm_Inr Let_def)
    let ?same = "same_work (db_hqes w) (db_jobs w) (db_auto_id w)"
    have "?same w" by (simp add: same_work_def)
    then have "?same s1" by (rule same_work_run [OF same_django_host _ run(1)])
    then have "?same s2" by (rule same_work_run [OF same_active_entry _ run(2)])
    moreover have "keeps ?same (?pre host active)" by (intro keeps_intro same_work_ops)
    ultimately have s3: "?same s3" using same_work_run run(3) by blast
    from save_entry_step [OF run(4) fresh_ids_same [OF assms(2) s3]] obtain k where
      s4: "db_hqes s4 = db_hqes w @ [(entry_for j a t p)\<lparr>q_id := k\<rparr>]" "db_jobs s4 = db_jobs w" "fresh_ids s4"
      using s3 by (auto simp: same_work_def)
    have "same_work (db_hqes s4) (db_jobs s4) (db_auto_id s4) s5"
      by (rule same_work_run [OF same_fresh_id _ run(5)]) (simp add: same_work_def)
    moreover from this have "fresh_ids s5" using fresh_ids_same s4(3) by blast
    ultimately show ?thesis using s4 run(6) by (auto simp: same_work_def fresh_ids_def)
  qed
qed

lemma enqueue_all:
  "for_each ps (target_enqueue_job j a t) w = (Inr (), w') \<Longrightarrow> fresh_ids w \<Longrightarrow>
   \<exists>new. db_hqes w' = db_hqes w @ new \<and> map (q_id_update (\<lambda>_. 0)) new = map (\<lambda>p. (entry_for j a t p)\<lparr>q_id := 0\<rparr>) ps \<and>
     db_jobs w' = db_jobs w \<and> fresh_ids w'"
proof (induction ps arbitrary: w)
  case (Cons p ps)
  then obtain s where s: "target_enqueue_job j a t p w = (Inr (), s)" "for_each ps (target_enqueue_job j a t) s = (Inr (), w')"
    by (auto simp: exm_Inr)
  from enqueue_step [OF s(1) Cons.prems(2)] obtain i where
    i: "db_hqes s = db_hqes w @ [(entry_for j a t p)\<lparr>q_id := i\<rparr>]" "db_jobs s = db_jobs w" "fresh_ids s" by blast
  from Cons.IH [OF s(2) i(3)] i obtain new where "db_hqes w' = db_hqes w @ (entry_for j a t p)\<lparr>q_id := i\<rparr> # new"
    "map (q_id_update (\<lambda>_. 0)) new = map (\<lambda>p. (entry_for j a t p)\<lparr>q_id := 0\<rparr>) ps" "db_jobs w' = db_jobs w" "fresh_ids w'"
    by auto
  then show ?case by (intro exI [of _ "(entry_for j a t p)\<lparr>q_id := i\<rparr> # new"]) simp
qed (simp add: ret_def)

text \<open>The entries of a job, up to their ids: one for each pair of a target and a profile.\<close>

definition expected_entries ::
  "nat \<Rightarrow> queue_target list \<Rightarrow> string list \<Rightarrow> nat option \<Rightarrow> bool \<Rightarrow> hqe_row list" where
  "expected_entries j ts profiles a t =
     (if ts = [] then [set_active_and_complete (hqe_create j None (if a = None then ''N/A'' else []) None a t)]
      else map (entry_for j a t) (zip ts (if profiles = [] then replicate (length ts) [] else profiles)))"

lemma queue_entries:
  assumes "model_job_queue j ts ps a t w = (Inr (), w')" "fresh_ids w"
  shows "\<exists>new. db_hqes w' = db_hqes w @ new \<and>
    map (q_id_update (\<lambda>_. 0)) new = map (q_id_update (\<lambda>_. 0)) (expected_entries j ts ps a t) \<and> db_jobs w' = db_jobs w"
proof (cases "ts = []")
  case False
  with assms(1) have "for_each (zip ts (if ps = [] then replicate (length ts) [] else ps)) (target_enqueue_job j a t) w = (Inr (), w')"
    by (simp add: model_job_queue_def)
  from enqueue_all [OF this assms(2)] False show ?thesis by (auto simp: expected_entries_def comp_def)
next
  case True
  let ?q = "hqe_create j None (if a = None then ''N/A'' else []) None a t"
  obtain r where "hqe_save_new ?q w = (Inr r, w')"
    using assms(1) True by (cases a) (auto simp: model_job_queue_def atomic_group_enqueue_job_def exm_Inr)
  with hqe_save_new_run [OF assms(2), of ?q] show ?thesis
    using True by (auto simp: expected_entries_def same_work_def)
qed

lemma job_save_new_run:
  assumes "fresh_ids w" "job_written opts deps j w = (Inr i, w')"
  shows "i = db_auto_id w \<and> db_hqes w' = db_hqes w \<and> db_jobs w' = db_jobs w @ [j\<lparr>j_id := i\<rparr>] \<and> fresh_ids w'"
proof -
  have "put_row j_id (j\<lparr>j_id := db_auto_id w\<rparr>) (db_jobs w) = db_jobs w @ [j\<lparr>j_id := db_auto_id w\<rparr>]"
    using assms(1) by (intro put_row_append) (simp add: fresh_ids_def)
  with assms show ?thesis
    by (auto simp: job_written_def job_save_new_def fresh_id_def modify_def bnd_def andthen_def gets_def ret_def fresh_ids_def
        list_all_iff less_Suc_eq)
qed

lemma job_fields_values:
  "job_fields_of owner opts u d t cfg = Inr j \<Longrightarrow> j_owner j = owner \<and> j_name j = jo_name opts"
  by (auto simp: job_fields_of_def sbind_Inr Let_def split: if_splits)

lemma job_fields_checked_values:
  "job_fields_checked owner opts hosts w = (Inr j, w') \<Longrightarrow> j_owner j = owner \<and> j_name j = jo_name opts"
  unfolding job_fields_checked_def exm_Inr using job_fields_values by auto

text \<open>
  C7 (frontend/afe/rpc\_utils.py, \<open>create_new_job\<close>; frontend/afe/models.py, \<open>Job.create\<close>, \<open>Job.queue\<close>).
  Creating a job adds one row with a new id, the owner and the name given, and, behind the entries there are,
  exactly its own: one for each pair of a host or metahost and a profile (no profiles stand for empty ones), or
  a single one when there is nothing to run on. No other entry or job changes. A list of profiles that is too
  short therefore leaves hosts without an entry.
\<close>

theorem new_job_entries:
  assumes "create_new_job owner opts hosts ps ms mps g w = (Inr i, w')" "fresh_ids w"
  shows "\<exists>j new. db_jobs w' = db_jobs w @ [j] \<and> j_id j = i \<and> j_owner j = owner \<and> j_name j = jo_name opts \<and>
    i \<notin> j_id ` set (db_jobs w) \<and> db_hqes w' = db_hqes w @ new \<and>
    map (q_id_update (\<lambda>_. 0)) new = map (q_id_update (\<lambda>_. 0))
      (expected_entries i (targets hosts ms) (ps @ mps) (map_option ag_id g) (jo_is_template opts))"
proof -
  from assms(1) obtain deps s1 j s2 s3 where run: "check_new_job opts hosts ms g w = (Inr deps, s1)"
    "job_fields_checked owner opts hosts s1 = (Inr j, s2)" "job_written opts deps j s2 = (Inr i, s3)"
    "model_job_queue i (targets hosts ms) (ps @ mps) (map_option ag_id g) (jo_is_template opts) s3 = (Inr (), w')"
    by (auto simp: create_new_job_def job_create_split exm_Inr)
  have "s1 = w" using readsD [OF reads_keeps [OF keeps_check_new_job] run(1)] .
  then have "same_work (db_hqes w) (db_jobs w) (db_auto_id w) s1" by (simp add: same_work_def)
  then have s2: "same_work (db_hqes w) (db_jobs w) (db_auto_id w) s2"
    by (rule same_work_run [OF same_job_fields _ run(2)])
  then have "fresh_ids s2" by (rule fresh_ids_same [OF assms(2)])
  from job_save_new_run [OF this run(3)] s2 have s3: "db_hqes s3 = db_hqes w" "db_jobs s3 = db_jobs w @ [j\<lparr>j_id := i\<rparr>]"
    "fresh_ids s3" "db_auto_id w \<le> i" by (auto simp: same_work_def)
  have "i \<notin> j_id ` set (db_jobs w)" using assms(2) s3(4) by (auto simp: fresh_ids_def list_all_iff)
  with queue_entries [OF run(4) s3(3)] job_fields_checked_values [OF run(2)] s3(1,2) show ?thesis
    by (intro exI [of _ "j\<lparr>j_id := i\<rparr>"]) auto
qed

lemma new_job_entries_witness:
  "\<exists>j new. db_jobs (snd (create_new_job ''bob'' plain_options [sample_host 1 ''one'', sample_host 2 ''two''] [''p''] [] [] None request_world)) =
      db_jobs request_world @ [j] \<and> j_owner j = ''bob'' \<and>
    db_hqes (snd (create_new_job ''bob'' plain_options [sample_host 1 ''one'', sample_host 2 ''two''] [''p''] [] [] None request_world)) = new \<and>
    length new = 1"
proof -
  let ?run = "create_new_job ''bob'' plain_options [sample_host 1 ''one'', sample_host 2 ''two''] [''p''] [] [] None request_world"
  have "fst ?run = Inr 1000" by code_simp
  then have run: "?run = (Inr 1000, snd ?run)" by (simp add: prod_eq_iff)
  have "fresh_ids request_world" by (simp add: fresh_ids_def request_world_def empty_world_def)
  from new_job_entries [OF run this] obtain j new where *: "db_jobs (snd ?run) = db_jobs request_world @ [j]" "j_owner j = ''bob''"
    "db_hqes (snd ?run) = db_hqes request_world @ new"
    "map (q_id_update (\<lambda>_. 0)) new = map (q_id_update (\<lambda>_. 0))
      (expected_entries 1000 (targets [sample_host 1 ''one'', sample_host 2 ''two''] []) ([''p''] @ []) (map_option ag_id (None :: atomic_group_row option)) (jo_is_template plain_options))"
    by blast
  have "length new = 1" using arg_cong [OF *(4), of length] by (simp add: expected_entries_def targets_def)
  moreover have "db_hqes request_world = []" by (simp add: request_world_def empty_world_def)
  ultimately show ?thesis using * by (intro exI [of _ j] exI [of _ new]) simp
qed

section \<open>What was checked\<close>

lemma seen_twice:
  "snd (foldl (\<lambda>(seen, dup) h. (set_add (h_id h) seen, if h_id h \<in> set seen then set_add (h_hostname h) dup else dup))
     (seen, dup) hosts) = [] \<longleftrightarrow> dup = [] \<and> distinct (map h_id hosts) \<and> set (map h_id hosts) \<inter> set seen = {}"
proof (induction hosts arbitrary: seen dup)
  case (Cons h hosts)
  have "set_add x xs \<noteq> []" for x :: string and xs by (auto simp: set_add_def)
  then show ?case using Cons [of "set_add (h_id h) seen" "if h_id h \<in> set seen then set_add (h_hostname h) dup else dup"]
    by auto
qed simp

lemma duplicate_check: "check_for_duplicate_hosts hosts w = (if distinct (map h_id hosts) then (Inr (), w) else (Inl ValidationError, w))"
  using seen_twice [of "[]" "[]" hosts]
  by (auto simp: check_for_duplicate_hosts_def Let_def ret_def throw_def)

lemma access_check:
  assumes "check_for_acl_violation_hosts hosts None w = (Inr (), w')" "request_by u w"
  shows "is_superuser u \<or> set (map h_id (filter (\<lambda>h. \<not> h_invalid h) hosts)) \<subseteq> set (accessible_host_ids w (u_id u))"
  using assms(1) by (auto simp: check_for_acl_violation_hosts_def bnd_run current_user_request [OF assms(2)] split: if_splits)

lemma dependency_check:
  assumes "check_job_dependencies_rpc hosts deps w = (Inr (), w')" "h \<in> set hosts"
    and "h \<in> set (db_hosts w)" "distinct (map h_hostname (db_hosts w))"
  shows "list_all (\<lambda>d. has_label_named w d (h_id h)) deps"
proof -
  have "filter (\<lambda>h. h_hostname h \<notin> set (map h_hostname (filter (\<lambda>h. h_id h \<in> set (map h_id hosts) \<and>
      list_all (\<lambda>d. has_label_named w d (h_id h)) deps) (db_hosts w)))) hosts = []"
    using assms(1) by (auto simp: check_job_dependencies_rpc_def split: if_splits)
  then obtain k where "k \<in> set (db_hosts w)" "list_all (\<lambda>d. has_label_named w d (h_id k)) deps" "h_hostname k = h_hostname h"
    using assms(2) by (fastforce simp: filter_empty_conv)
  then show ?thesis using assms(3,4) by (metis distinct_map inj_onD)
qed

text \<open>
  C8 (frontend/afe/rpc\_utils.py, \<open>create_new_job\<close>). A job is only created on hosts that differ from each
  other, that its user may access (unless a superuser, and one-time hosts apart), and that carry every label
  the job depends on.
\<close>

theorem new_job_allowed:
  assumes "create_new_job owner opts hosts ps ms mps g w = (Inr i, w')" "request_by u w"
    and "set hosts \<subseteq> set (db_hosts w)" "distinct (map h_hostname (db_hosts w))"
  shows "distinct (map h_id hosts) \<and>
    (is_superuser u \<or> set (map h_id (filter (\<lambda>h. \<not> h_invalid h) hosts)) \<subseteq> set (accessible_host_ids w (u_id u))) \<and>
    list_all (\<lambda>h. list_all (\<lambda>d. has_label_named w d (h_id h)) (jo_dependencies opts)) hosts"
proof -
  from assms(1) obtain deps s1 j s2 where checked: "check_new_job opts hosts ms g w = (Inr deps, s1)"
    and fields: "job_fields_checked owner opts hosts s1 = (Inr j, s2)"
    by (auto simp: create_new_job_def job_create_split exm_Inr)
  have s1: "s1 = w" using readsD [OF reads_keeps [OF keeps_check_new_job] checked] .
  let ?first = "\<lambda>labels. case g of
         Some g \<Rightarrow> check_atomic_group_create_job (jo_synch_count opts) hosts ms (jo_dependencies opts) (ag_id g) labels
       | None \<Rightarrow> check_hosts_without_group (jo_synch_count opts) hosts ms"
  from checked obtain v x where first: "?first (labels_by_name w) w = (Inr (), v)"
    and dup: "check_for_duplicate_hosts hosts v = (Inr (), x)"
    and dep: "check_job_dependencies_rpc hosts (jo_dependencies opts) x = (Inr (), x)"
    by (auto simp: check_new_job_def exm_Inr check_job_dependencies_rpc_def split: if_splits)
  have "reads w (?first (labels_by_name w))"
    unfolding check_atomic_group_create_job_def check_hosts_without_group_def Let_def
    by (rule reads_keeps, intro keeps_intro)
  then have "v = w" using first by (rule readsD)
  then have d: "distinct (map h_id hosts)" and "x = w" using dup by (auto simp: duplicate_check split: if_splits)
  moreover have "list_all (\<lambda>h. list_all (\<lambda>d. has_label_named w d (h_id h)) (jo_dependencies opts)) hosts"
    using dependency_check [OF dep [unfolded \<open>x = w\<close>] _ _ assms(4)] assms(3) by (auto simp: list_all_iff)
  moreover from fields obtain s where "check_for_acl_violation_hosts hosts None w = (Inr (), s)"
    by (auto simp: job_fields_checked_def exm_Inr s1)
  ultimately show ?thesis using access_check assms(2) by blast
qed

lemma new_job_allowed_witness:
  "distinct (map h_id [sample_host 1 ''one'', sample_host 2 ''two'']) \<and>
    (is_superuser bob \<or> set (map h_id (filter (\<lambda>h. \<not> h_invalid h) [sample_host 1 ''one'', sample_host 2 ''two''])) \<subseteq>
      set (accessible_host_ids request_world (u_id bob))) \<and>
    list_all (\<lambda>h. list_all (\<lambda>d. has_label_named request_world d (h_id h)) (jo_dependencies plain_options))
      [sample_host 1 ''one'', sample_host 2 ''two'']"
proof (rule new_job_allowed [OF _ bob_requests])
  let ?run = "create_new_job ''bob'' plain_options [sample_host 1 ''one'', sample_host 2 ''two''] [] [] [] None request_world"
  have "fst ?run = Inr 1000" by code_simp
  then show "?run = (Inr 1000, snd ?run)" by (simp add: prod_eq_iff)
  show "set [sample_host 1 ''one'', sample_host 2 ''two''] \<subseteq> set (db_hosts request_world)"
    "distinct (map h_hostname (db_hosts request_world))"
    by (simp_all add: request_world_def sample_host_def)
qed

text \<open>
  The check for hosts of an atomic group only finds those of the group with id 1: host two is in group 2 and
  is accepted without a group, while it is refused when the same group has id 1.
\<close>

lemma atomic_hosts_of_other_groups:
  "fst (create_job (job_args [''two''] [] None) request_world) = Inr 1000"
  "fst (create_job (job_args [''two''] [] None) (request_world\<lparr>db_labels := map (\<lambda>l. l\<lparr>l_atomic_group_id :=
      (if l_atomic_group_id l = Some 2 then Some 1 else None)\<rparr>) (db_labels request_world),
    db_atomic_groups := map (\<lambda>g. g\<lparr>ag_id := 1\<rparr>) (db_atomic_groups request_world)\<rparr>)) = Inl ValidationError"
  by code_simp+

section \<open>Aborting whole executions\<close>

definition same_execution :: "hqe_row \<Rightarrow> hqe_row list \<Rightarrow> hqe_row list" where
  "same_execution q entries = filter (\<lambda>p. execution_key p = execution_key q) entries"

lemma count_executions_step:
  "map_of (foldl (\<lambda>d q. alist_put (execution_key q) (Suc (case map_of d (execution_key q) of None \<Rightarrow> 0 | Some n \<Rightarrow> n)) d) d entries) k =
    (let n = (case map_of d k of None \<Rightarrow> 0 | Some n \<Rightarrow> n) + length (filter (\<lambda>p. execution_key p = k) entries)
     in if map_of d k = None \<and> filter (\<lambda>p. execution_key p = k) entries = [] then None else Some n)"
proof (induction entries arbitrary: d)
  case Nil
  then show ?case by (cases "map_of d k") (simp_all add: Let_def)
next
  case (Cons q entries)
  show ?case unfolding foldl_Cons Cons.IH
    by (cases "map_of d k") (auto simp: Let_def split: option.splits)
qed

lemma count_executions:
  "q \<in> set entries \<Longrightarrow> map_of (count_executions entries) (execution_key q) = Some (length (same_execution q entries))"
  using count_executions_step [of "[]" entries "execution_key q"]
  by (auto simp: count_executions_def same_execution_def Let_def filter_empty_conv)

text \<open>The entries of an execution that includes fewer entries than its job runs together.\<close>

definition partly_aborted :: "world \<Rightarrow> hqe_row list \<Rightarrow> hqe_row list" where
  "partly_aborted w entries = filter (\<lambda>q. q_execution_subdir q \<noteq> [] \<and>
     (case find_row j_id (q_job_id q) (db_jobs w) of None \<Rightarrow> False
      | Some j \<Rightarrow> int (length (same_execution q entries)) < j_synch_count j)) entries"

lemma check_synchronous:
  assumes "filter (\<lambda>q. find_row j_id (q_job_id q) (db_jobs w) = None) entries = []" "set es \<subseteq> set entries"
  shows "for_each es (check_abort_synchronous_entry (count_executions entries)) w =
    (if filter (\<lambda>q. q \<in> set (partly_aborted w entries)) es = [] then (Inr (), w) else (Inl ValidationError, w))"
  using assms(2)
proof (induction es)
  case (Cons q es)
  then have q: "q \<in> set entries" by simp
  then obtain j where j: "find_row j_id (q_job_id q) (db_jobs w) = Some j" using assms(1) by (fastforce simp: filter_empty_conv)
  have "check_abort_synchronous_entry (count_executions entries) q w =
      (if q \<in> set (partly_aborted w entries) then (Inl ValidationError, w) else (Inr (), w))"
    unfolding check_abort_synchronous_entry_def partly_aborted_def django_job_def
    using q j count_executions [OF q] by (simp add: bnd_run) (simp add: ret_def throw_def)
  then show ?case using Cons by (simp add: andthen_run andthen_run_err)
qed (simp add: ret_def)

text \<open>
  C10 (frontend/afe/rpc\_utils.py, \<open>check_abort_synchronous_jobs\<close>). Entries whose jobs exist may be aborted
  together exactly when, of every execution one of them takes part in, as many are among them as the job runs
  together; else the request is refused, and either way the check changes nothing.
\<close>

theorem abort_check_exact:
  assumes "filter (\<lambda>q. find_row j_id (q_job_id q) (db_jobs w) = None) entries = []"
  shows "check_abort_synchronous_jobs entries w =
    (if partly_aborted w entries = [] then (Inr (), w) else (Inl ValidationError, w))"
proof -
  have "filter (\<lambda>q. q \<in> set (partly_aborted w entries)) entries = partly_aborted w entries"
    by (auto simp: partly_aborted_def intro: filter_cong)
  then show ?thesis using check_synchronous [OF assms subset_refl] by (simp add: check_abort_synchronous_jobs_def)
qed

definition abort_world :: world where
  "abort_world = empty_world\<lparr>db_jobs := [sample_job 7 2]\<rparr>"

lemma abort_check_exact_witness:
  "check_abort_synchronous_jobs [(sample_entry 1 7 (Some 1) Running)\<lparr>q_execution_subdir := ''group0''\<rparr>] abort_world =
    (Inl ValidationError, abort_world)"
proof -
  let ?es = "[(sample_entry 1 7 (Some 1) Running)\<lparr>q_execution_subdir := ''group0''\<rparr>]"
  have "filter (\<lambda>q. find_row j_id (q_job_id q) (db_jobs abort_world) = None) ?es = []"
    by (simp add: abort_world_def sample_entry_def sample_job_def)
  moreover have "partly_aborted abort_world ?es \<noteq> []"
    by (simp add: partly_aborted_def abort_world_def sample_entry_def sample_job_def same_execution_def)
  ultimately show ?thesis using abort_check_exact [of abort_world ?es] by simp
qed

end
