(* ===== verification/Barrier.thy ===== *)
theory Barrier
  imports Texts
begin

text \<open>
  The barrier of several machines, client/shared/base\_barrier.py: the object of the class \<open>barrier\<close>, the
  messages master and slave exchange, and the system of one master with its slaves as a state machine. An
  event is the completion of one blocking call of one participant: a call that connects or accepts, a
  message sent or received, a timeout, an error of the socket. The connections are pairs of queues of
  messages; a call of \<open>recv\<close> gets one message, as all messages after the greeting have four characters.
\<close>

section \<open>The object\<close>

datatype barrier_error = BarrierError string | BarrierAbortError | SocketError | SocketTimeout | EmptyHosts

record barrier =
  b_hostid :: string
  b_tag :: string
  b_port :: int
  b_members :: "string list"
  b_timeout_secs :: "int option"
  b_start_time :: "int option"
  b_masterid :: string
  b_seen :: nat
  b_waiting :: "(string \<times> nat) list"
  b_abort :: bool

definition DEFAULT_PORT :: int where "DEFAULT_PORT = 11922"

definition get_host_from_id :: "string \<Rightarrow> barrier_error + string" where
  "get_host_from_id hostid =
     (if starts_with hostid ''#'' then Inl (BarrierError ''Invalid Host id: Host Address should be specified'')
      else Inr (hd (split_on (CHR ''#'') hostid)))"

text \<open>An external listening server is its port.\<close>

definition barrier_init ::
  "string \<Rightarrow> string \<Rightarrow> int option \<Rightarrow> int option \<Rightarrow> int option \<Rightarrow> barrier_error + barrier" where
  "barrier_init hostid tag timeout port listen_server =
     (let given = (case port of None \<Rightarrow> False | Some p \<Rightarrow> p \<noteq> 0) in
     if listen_server \<noteq> None \<and> given then Inl (BarrierError ''port and listen_server are mutually exclusive.'')
     else Inr \<lparr>b_hostid = hostid, b_tag = tag,
       b_port = (case listen_server of Some p \<Rightarrow> p | None \<Rightarrow> if given then the port else DEFAULT_PORT),
       b_members = [], b_timeout_secs = timeout, b_start_time = None, b_masterid = [], b_seen = 0,
       b_waiting = [], b_abort = False\<rparr>)"

definition update_timeout :: "int \<Rightarrow> int option \<Rightarrow> barrier \<Rightarrow> barrier" where
  "update_timeout now timeout b = (case (timeout, b_start_time b) of
       (Some t, Some s) \<Rightarrow> b\<lparr>b_timeout_secs := Some ((now - s) + t)\<rparr>
     | _ \<Rightarrow> b\<lparr>b_timeout_secs := timeout\<rparr>)"

definition remaining :: "int \<Rightarrow> barrier \<Rightarrow> barrier_error + int option" where
  "remaining now b = (case (b_timeout_secs b, b_start_time b) of
       (Some t, Some s) \<Rightarrow>
         (let left = t - (now - s)
          in if left \<le> 0 then Inl (BarrierError (''timeout waiting for barrier: '' @ b_tag b)) else Inr (Some left))
     | (t, _) \<Rightarrow> Inr t)"

section \<open>Messages\<close>

text \<open>\<open>s.strip("\r\n")\<close> and \<open>s.split(c, n)\<close>\<close>

definition crlf :: "char \<Rightarrow> bool" where
  "crlf c \<longleftrightarrow> c = CHR 0x0D \<or> c = CHR 0x0A"

definition strip_crlf :: "string \<Rightarrow> string" where
  "strip_crlf s = rev (dropWhile crlf (rev (dropWhile crlf s)))"

primrec split_max :: "nat \<Rightarrow> char \<Rightarrow> string \<Rightarrow> string list" where
  "split_max 0 c s = [s]"
| "split_max (Suc n) c s = (case dropWhile (\<lambda>d. d \<noteq> c) s of
     [] \<Rightarrow> [s]
   | _ # rest \<Rightarrow> takeWhile (\<lambda>d. d \<noteq> c) s # split_max n c rest)"

definition greeting :: "barrier \<Rightarrow> string" where
  "greeting b = b_tag b @ '' '' @ b_hostid b"

text \<open>What the master makes of the greeting of a client.\<close>

datatype greeted = Ignored | Rejected string | Welcomed string

definition master_answer :: "barrier \<Rightarrow> string \<Rightarrow> greeted" where
  "master_answer b intro = (case split_max 2 (CHR '' '') (strip_crlf intro) of
       [tag, name] \<Rightarrow>
         if b_tag b \<noteq> tag then Rejected ''!tag''
         else if name \<in> fst ` set (b_waiting b) then Rejected ''!dup''
         else Welcomed name
     | _ \<Rightarrow> Ignored)"

text \<open>How the last message of the master ends the wait of a slave.\<close>

definition slave_result :: "string \<Rightarrow> barrier_error + unit" where
  "slave_result mode =
     (if mode = ''rlse'' then Inr ()
      else if mode = ''wait'' then Inl (BarrierError ''master abort -- barrier timeout'')
      else if mode = ''ping'' then Inl (BarrierError ''master abort -- client lost'')
      else if mode = ''!tag'' then Inl (BarrierError ''master abort -- incorrect tag'')
      else if mode = ''!dup'' then Inl (BarrierError ''master abort -- duplicate client'')
      else if mode = ''abrt'' then Inl BarrierAbortError
      else Inl (BarrierError (''master handshake failure: '' @ mode)))"

section \<open>The start of a rendezvous\<close>

text \<open>
  \<open>rendezvous(*hosts, abort)\<close> takes the first host as the master; \<open>rendezvous_servers(masterid, *hosts, abort)\<close>
  is told which one it is.
\<close>

definition sort_hosts_by_name :: "string list \<Rightarrow> string list" where
  "sort_hosts_by_name hosts = sort_by (\<lambda>a b. str_cmp a b \<le> 0) hosts"

definition started :: "int \<Rightarrow> string \<Rightarrow> string list \<Rightarrow> bool \<Rightarrow> barrier \<Rightarrow> barrier" where
  "started now masterid members abort b =
     (let b' = b\<lparr>b_start_time := Some now, b_members := members, b_masterid := masterid, b_abort := abort\<rparr>
      in if members = [] then b' else b'\<lparr>b_seen := 0, b_waiting := []\<rparr>)"

definition rendezvous :: "int \<Rightarrow> string list \<Rightarrow> bool \<Rightarrow> barrier \<Rightarrow> barrier_error + barrier" where
  "rendezvous now hosts abort b = (case sort_hosts_by_name hosts of
       [] \<Rightarrow> Inl EmptyHosts
     | masterid # members \<Rightarrow> Inr (started now masterid members abort b))"

definition rendezvous_servers :: "int \<Rightarrow> string \<Rightarrow> string list \<Rightarrow> bool \<Rightarrow> barrier \<Rightarrow> barrier_error + barrier" where
  "rendezvous_servers now masterid hosts abort b = Inr (started now masterid (sort_hosts_by_name hosts) abort b)"

text \<open>Who is the master in this barrier; without other members nobody asks.\<close>

abbreviation selected_as_master :: "barrier \<Rightarrow> bool" where
  "selected_as_master b \<equiv> b_hostid b = b_masterid b"

section \<open>The system\<close>

text \<open>
  A connection has a slave at one end, once it is accepted there, and the master at the other: the messages
  on their way up to the master and down to the slave, and which ends are closed.
\<close>

record connection =
  cn_slave :: "nat option"
  cn_accepted :: bool
  cn_up :: "string list"
  cn_down :: "string list"
  cn_slave_closed :: bool
  cn_master_closed :: bool

datatype master_pc =
    M_idle
  | M_loop
  | M_welcome nat
  | M_ping "string list" bool bool     \<comment> \<open>clients to check, all present, abort\<close>
  | M_pong "string list" bool bool     \<comment> \<open>the first of them has been sent a ping\<close>
  | M_release "string list" bool       \<comment> \<open>clients to tell, abort\<close>
  | M_done "barrier_error + unit"

datatype slave_pc =
    S_idle
  | S_loop
  | S_hello nat
  | S_reply nat
  | S_wait nat string                  \<comment> \<open>connection, last message\<close>
  | S_answer nat
  | S_done "barrier_error + unit"

text \<open>A participant with the arguments of its call, and the messages it has sent.\<close>

record participant =
  pa_obj :: barrier
  pa_hosts :: "string list"
  pa_abort :: bool
  pa_sent :: "string list"

record system =
  sy_now :: int
  sy_servers :: "string option"        \<comment> \<open>the master, when \<open>rendezvous_servers\<close> is called\<close>
  sy_master :: participant
  sy_mpc :: master_pc
  sy_slaves :: "(participant \<times> slave_pc) list"
  sy_conns :: "connection list"

datatype barrier_event =
    Clock nat
  | Start_master | Start_slave nat
  | Connect_master | Connect_slave nat                 \<comment> \<open>the call to the other side succeeds\<close>
  | Accept_master nat | Accept_slave nat nat
  | Retry_master | Retry_slave nat                     \<comment> \<open>a timeout or a refused call at the head of the loop\<close>
  | Got_master | Got_slave nat                         \<comment> \<open>\<open>recv\<close> returns\<close>
  | Put_master | Put_slave nat                         \<comment> \<open>\<open>send\<close> returns\<close>
  | Timeout_master | Timeout_slave nat
  | Break_master | Break_slave nat                     \<comment> \<open>an error of the socket\<close>

definition new_connection :: connection where
  "new_connection = \<lparr>cn_slave = None, cn_accepted = False, cn_up = [], cn_down = [],
     cn_slave_closed = False, cn_master_closed = False\<rparr>"

definition upd_conn :: "nat \<Rightarrow> (connection \<Rightarrow> connection) \<Rightarrow> system \<Rightarrow> system" where
  "upd_conn c f st = st\<lparr>sy_conns := (sy_conns st)[c := f (sy_conns st ! c)]\<rparr>"

definition send_down :: "string \<Rightarrow> connection \<Rightarrow> connection" where
  "send_down m k = k\<lparr>cn_down := cn_down k @ [m]\<rparr>"

definition send_up :: "string \<Rightarrow> connection \<Rightarrow> connection" where
  "send_up m k = k\<lparr>cn_up := cn_up k @ [m]\<rparr>"

text \<open>What \<open>recv\<close> returns: a message, or nothing when the other side has closed; otherwise it waits.\<close>

definition next_up :: "connection \<Rightarrow> (string \<times> connection) option" where
  "next_up k = (case cn_up k of
       m # ms \<Rightarrow> Some (m, k\<lparr>cn_up := ms\<rparr>)
     | [] \<Rightarrow> if cn_slave_closed k then Some ([], k) else None)"

definition next_down :: "connection \<Rightarrow> (string \<times> connection) option" where
  "next_down k = (case cn_down k of
       m # ms \<Rightarrow> Some (m, k\<lparr>cn_down := ms\<rparr>)
     | [] \<Rightarrow> if cn_master_closed k then Some ([], k) else None)"

definition is_server :: "bool \<Rightarrow> system \<Rightarrow> bool" where
  "is_server master st \<longleftrightarrow> (master \<longleftrightarrow> sy_servers st = None)"

definition set_mpc :: "master_pc \<Rightarrow> system \<Rightarrow> system" where
  "set_mpc p st = st\<lparr>sy_mpc := p\<rparr>"

definition master_obj :: "system \<Rightarrow> barrier" where
  "master_obj st = pa_obj (sy_master st)"

definition set_master_obj :: "barrier \<Rightarrow> system \<Rightarrow> system" where
  "set_master_obj b st = st\<lparr>sy_master := (sy_master st)\<lparr>pa_obj := b\<rparr>\<rparr>"

section \<open>The master\<close>

definition master_sends :: "nat \<Rightarrow> string \<Rightarrow> system \<Rightarrow> system" where
  "master_sends c m st = (upd_conn c (send_down m) st)\<lparr>sy_master := (sy_master st)\<lparr>pa_sent := pa_sent (sy_master st) @ [m]\<rparr>\<rparr>"

text \<open>\<open>_waiting_close\<close>\<close>

definition close_conns :: "nat list \<Rightarrow> connection list \<Rightarrow> connection list" where
  "close_conns cs ks = map (\<lambda>(i, k). if i \<in> set cs then k\<lparr>cn_master_closed := True\<rparr> else k) (List.enumerate 0 ks)"

definition master_waiting_close :: "system \<Rightarrow> system" where
  "master_waiting_close st = st\<lparr>sy_conns := close_conns (map snd (b_waiting (master_obj st))) (sy_conns st)\<rparr>"

text \<open>
  The end of \<open>_run_server\<close>, which always closes the clients, and of \<open>_run_client\<close>, which does unless it raises.
\<close>

definition master_end :: "barrier_error + unit \<Rightarrow> system \<Rightarrow> system" where
  "master_end r st = set_mpc (M_done r)
     (if is_server True st \<or> r = Inr () then master_waiting_close st else st)"

text \<open>\<open>_master_release\<close>: what follows a reply or a timeout of a client, and what follows a release.\<close>

definition checked :: "string list \<Rightarrow> bool \<Rightarrow> bool \<Rightarrow> system \<Rightarrow> system" where
  "checked names present abort st =
     (if names \<noteq> [] then set_mpc (M_ping names present abort) st
      else if \<not> present then master_end (Inl (BarrierError ''master lost client'')) st
      else if b_waiting (master_obj st) = [] then master_end (if abort then Inl BarrierAbortError else Inr ()) st
      else set_mpc (M_release (map fst (b_waiting (master_obj st))) abort) st)"

definition told :: "string list \<Rightarrow> bool \<Rightarrow> system \<Rightarrow> system" where
  "told names abort st =
     (if names \<noteq> [] then set_mpc (M_release names abort) st
      else master_end (if abort then Inl BarrierAbortError else Inr ()) st)"

text \<open>The end of a turn of the loop: is everyone here?\<close>

definition master_turn :: "system \<Rightarrow> system" where
  "master_turn st =
     (let b = master_obj st in
     if b_seen b = length (b_members b) then checked (map fst (b_waiting b)) True (b_abort b) st
     else set_mpc M_loop st)"

text \<open>The head of the loop: \<open>_remaining\<close> may raise.\<close>

definition master_head :: "system option \<Rightarrow> system \<Rightarrow> system option" where
  "master_head next st = (case remaining (sy_now st) (master_obj st) of
       Inl e \<Rightarrow> Some (master_end (Inl e) st)
     | Inr _ \<Rightarrow> next)"

text \<open>\<open>_master_welcome\<close> with what \<open>recv\<close> returned.\<close>

definition master_welcome :: "nat \<Rightarrow> string \<Rightarrow> system \<Rightarrow> system" where
  "master_welcome c intro st = (case master_answer (master_obj st) intro of
       Ignored \<Rightarrow> upd_conn c (\<lambda>k. k\<lparr>cn_master_closed := True\<rparr>) st
     | Rejected m \<Rightarrow> upd_conn c (\<lambda>k. k\<lparr>cn_master_closed := True\<rparr>) (master_sends c m st)
     | Welcomed name \<Rightarrow>
         (let b = master_obj st
          in set_master_obj (b\<lparr>b_waiting := alist_put name c (b_waiting b), b_seen := Suc (b_seen b)\<rparr>)
               (master_sends c ''wait'' st)))"

definition waiting_conn :: "system \<Rightarrow> string \<Rightarrow> nat" where
  "waiting_conn st name = the (map_of (b_waiting (master_obj st)) name)"

text \<open>The call of \<open>rendezvous\<close> or \<open>rendezvous_servers\<close> by a participant of the given role.\<close>

definition begin_rendezvous :: "int \<Rightarrow> string option \<Rightarrow> participant \<Rightarrow> barrier_error + barrier" where
  "begin_rendezvous now masterid p = (case masterid of
       None \<Rightarrow> rendezvous now (pa_hosts p) (pa_abort p) (pa_obj p)
     | Some m \<Rightarrow> rendezvous_servers now m (pa_hosts p) (pa_abort p) (pa_obj p))"

definition start_master :: "system \<Rightarrow> system option" where
  "start_master st = (case begin_rendezvous (sy_now st) (sy_servers st) (sy_master st) of
       Inl e \<Rightarrow> Some (set_mpc (M_done (Inl e)) st)
     | Inr b \<Rightarrow>
         if b_members b = [] then Some (set_mpc (M_done (Inr ())) (set_master_obj b st))
         else if selected_as_master b then Some (set_mpc M_loop (set_master_obj b st)) else None)"

text \<open>The call of the next slave, \<open>self._members[self._seen]\<close>; whichever slave accepts it is at its other end.\<close>

definition master_call :: "system \<Rightarrow> system option" where
  "master_call st =
     (let b = master_obj st in
     case get_host_from_id (b_members b ! b_seen b) of
       Inl e \<Rightarrow> Some (master_end (Inl e) st)
     | Inr host \<Rightarrow> Some (set_mpc (M_welcome (length (sy_conns st)))
         (st\<lparr>sy_conns := sy_conns st @ [new_connection\<lparr>cn_accepted := True\<rparr>]\<rparr>)))"

fun master_step :: "barrier_event \<Rightarrow> system \<Rightarrow> system option" where
  "master_step e st = (case sy_mpc st of
     M_idle \<Rightarrow> if e = Start_master then start_master st else None
   | M_loop \<Rightarrow> (case e of
       Accept_master c \<Rightarrow> master_head
         (if is_server True st \<and> c < length (sy_conns st) \<and> \<not> cn_accepted (sy_conns st ! c)
          then Some (set_mpc (M_welcome c) (upd_conn c (\<lambda>k. k\<lparr>cn_accepted := True\<rparr>) st)) else None) st
     | Connect_master \<Rightarrow> master_head (if is_server True st then None else master_call st) st
     | Retry_master \<Rightarrow> master_head (Some (master_turn st)) st
     | Break_master \<Rightarrow> master_head (Some (master_end (Inl SocketError) st)) st
     | _ \<Rightarrow> None)
   | M_welcome c \<Rightarrow> (case e of
       Got_master \<Rightarrow> (case next_up (sy_conns st ! c) of
           None \<Rightarrow> None
         | Some (intro, k) \<Rightarrow> Some (master_turn (master_welcome c intro (upd_conn c (\<lambda>_. k) st))))
     | Timeout_master \<Rightarrow> Some (master_turn (upd_conn c (\<lambda>k. k\<lparr>cn_master_closed := True\<rparr>) st))
     | Break_master \<Rightarrow> Some (master_end (Inl SocketError) st)
     | _ \<Rightarrow> None)
   | M_ping names present abort \<Rightarrow> (case e of
       Put_master \<Rightarrow> Some (set_mpc (M_pong names present abort)
         (master_sends (waiting_conn st (hd names)) ''ping'' st))
     | Timeout_master \<Rightarrow> Some (checked (tl names) False abort st)
     | Break_master \<Rightarrow> Some (master_end (Inl SocketError) st)
     | _ \<Rightarrow> None)
   | M_pong names present abort \<Rightarrow> (case e of
       Got_master \<Rightarrow> (case next_up (sy_conns st ! waiting_conn st (hd names)) of
           None \<Rightarrow> None
         | Some (reply, k) \<Rightarrow> Some (checked (tl names) (present \<and> (reply = ''abrt'' \<or> reply = ''pong''))
             (abort \<or> reply = ''abrt'') (upd_conn (waiting_conn st (hd names)) (\<lambda>_. k) st)))
     | Timeout_master \<Rightarrow> Some (checked (tl names) False abort st)
     | Break_master \<Rightarrow> Some (master_end (Inl SocketError) st)
     | _ \<Rightarrow> None)
   | M_release names abort \<Rightarrow> (case e of
       Put_master \<Rightarrow> Some (told (tl names) abort
         (master_sends (waiting_conn st (hd names)) (if abort then ''abrt'' else ''rlse'') st))
     | Timeout_master \<Rightarrow> Some (told (tl names) abort st)
     | Break_master \<Rightarrow> Some (master_end (Inl SocketError) st)
     | _ \<Rightarrow> None)
   | M_done r \<Rightarrow> None)"

section \<open>The slaves\<close>

definition slave_at :: "nat \<Rightarrow> system \<Rightarrow> participant" where
  "slave_at i st = fst (sy_slaves st ! i)"

definition spc :: "nat \<Rightarrow> system \<Rightarrow> slave_pc" where
  "spc i st = snd (sy_slaves st ! i)"

definition set_spc :: "nat \<Rightarrow> slave_pc \<Rightarrow> system \<Rightarrow> system" where
  "set_spc i p st = st\<lparr>sy_slaves := (sy_slaves st)[i := (slave_at i st, p)]\<rparr>"

definition upd_slave :: "nat \<Rightarrow> (barrier \<Rightarrow> barrier) \<Rightarrow> system \<Rightarrow> system" where
  "upd_slave i f st = st\<lparr>sy_slaves := (sy_slaves st)[i :=
     ((slave_at i st)\<lparr>pa_obj := f (pa_obj (slave_at i st))\<rparr>, spc i st)]\<rparr>"

definition slave_sends :: "nat \<Rightarrow> nat \<Rightarrow> string \<Rightarrow> system \<Rightarrow> system" where
  "slave_sends i c m st = (upd_conn c (send_up m) st)\<lparr>sy_slaves := (sy_slaves st)[i :=
     ((slave_at i st)\<lparr>pa_sent := pa_sent (slave_at i st) @ [m]\<rparr>, spc i st)]\<rparr>"

text \<open>The mirror image of \<open>master_end\<close>: \<open>_run_server\<close> always closes the connection.\<close>

definition slave_end :: "nat \<Rightarrow> barrier_error + unit \<Rightarrow> system \<Rightarrow> system" where
  "slave_end i r st = set_spc i (S_done r)
     (if is_server False st \<or> r = Inr ()
      then (case b_waiting (pa_obj (slave_at i st)) of
          (_, c) # _ \<Rightarrow> upd_conn c (\<lambda>k. k\<lparr>cn_slave_closed := True\<rparr>) st
        | [] \<Rightarrow> st)
      else st)"

definition slave_head :: "nat \<Rightarrow> system option \<Rightarrow> system \<Rightarrow> system option" where
  "slave_head i next st = (case remaining (sy_now st) (pa_obj (slave_at i st)) of
       Inl e \<Rightarrow> Some (slave_end i (Inl e) st)
     | Inr _ \<Rightarrow> next)"

definition start_slave :: "nat \<Rightarrow> system \<Rightarrow> system option" where
  "start_slave i st = (case begin_rendezvous (sy_now st) (sy_servers st) (slave_at i st) of
       Inl e \<Rightarrow> Some (set_spc i (S_done (Inl e)) st)
     | Inr b \<Rightarrow>
         if b_members b = [] then Some (set_spc i (S_done (Inr ())) (upd_slave i (\<lambda>_. b) st))
         else if \<not> selected_as_master b then Some (set_spc i S_loop (upd_slave i (\<lambda>_. b) st)) else None)"

definition slave_call :: "nat \<Rightarrow> system \<Rightarrow> system option" where
  "slave_call i st = (case get_host_from_id (b_masterid (pa_obj (slave_at i st))) of
       Inl e \<Rightarrow> Some (slave_end i (Inl e) st)
     | Inr host \<Rightarrow> Some (set_spc i (S_hello (length (sy_conns st)))
         (st\<lparr>sy_conns := sy_conns st @ [new_connection\<lparr>cn_slave := Some i\<rparr>]\<rparr>)))"

definition slave_drops :: "nat \<Rightarrow> nat \<Rightarrow> system \<Rightarrow> system" where
  "slave_drops i c st = set_spc i S_loop (upd_conn c (\<lambda>k. k\<lparr>cn_slave_closed := True\<rparr>) st)"

text \<open>\<open>_slave_hello\<close> with the reply of the master, and \<open>_slave_wait\<close> with its next message.\<close>

definition slave_welcomed :: "nat \<Rightarrow> nat \<Rightarrow> string \<Rightarrow> system \<Rightarrow> system" where
  "slave_welcomed i c reply st =
     (if strip_crlf reply \<noteq> ''wait'' then slave_drops i c st
      else set_spc i (S_wait c ''wait'')
        (upd_slave i (\<lambda>b. b\<lparr>b_waiting := [(b_hostid b, c)], b_seen := 1\<rparr>) st))"

definition slave_told :: "nat \<Rightarrow> nat \<Rightarrow> string \<Rightarrow> string \<Rightarrow> system \<Rightarrow> system" where
  "slave_told i c mode reply st =
     (if reply = [] then slave_end i (slave_result mode) st
      else
        let m = strip_crlf reply;
            longer = update_timeout (sy_now st) (Some (10 + 10 * int (length (b_members (pa_obj (slave_at i st))))))
        in if m = ''ping'' then set_spc i (S_answer c) (upd_slave i longer st)
           else if m = ''rlse'' \<or> m = ''abrt'' then set_spc i (S_wait c m) (upd_slave i longer st)
           else set_spc i (S_wait c m) st)"

fun slave_step :: "nat \<Rightarrow> barrier_event \<Rightarrow> system \<Rightarrow> system option" where
  "slave_step i e st = (case spc i st of
     S_idle \<Rightarrow> if e = Start_slave i then start_slave i st else None
   | S_loop \<Rightarrow> (case e of
       Accept_slave _ c \<Rightarrow> slave_head i
         (if is_server False st \<and> c < length (sy_conns st) \<and> cn_slave (sy_conns st ! c) = None
          then Some (set_spc i (S_hello c) (upd_conn c (\<lambda>k. k\<lparr>cn_slave := Some i\<rparr>) st)) else None) st
     | Connect_slave _ \<Rightarrow> slave_head i (if is_server False st then None else slave_call i st) st
     | Retry_slave _ \<Rightarrow> slave_head i (Some st) st
     | Break_slave _ \<Rightarrow> slave_head i (Some (slave_end i (Inl SocketError) st)) st
     | _ \<Rightarrow> None)
   | S_hello c \<Rightarrow> (case e of
       Put_slave _ \<Rightarrow> Some (set_spc i (S_reply c) (slave_sends i c (greeting (pa_obj (slave_at i st))) st))
     | Timeout_slave _ \<Rightarrow> Some (slave_drops i c st)
     | Break_slave _ \<Rightarrow> Some (slave_end i (Inl SocketError) st)
     | _ \<Rightarrow> None)
   | S_reply c \<Rightarrow> (case e of
       Got_slave _ \<Rightarrow> (case next_down (sy_conns st ! c) of
           None \<Rightarrow> None
         | Some (reply, k) \<Rightarrow> Some (slave_welcomed i c reply (upd_conn c (\<lambda>_. k) st)))
     | Timeout_slave _ \<Rightarrow> Some (slave_drops i c st)
     | Break_slave _ \<Rightarrow> Some (slave_end i (Inl SocketError) st)
     | _ \<Rightarrow> None)
   | S_wait c mode \<Rightarrow> (case e of
       Got_slave _ \<Rightarrow> slave_head i (case next_down (sy_conns st ! c) of
           None \<Rightarrow> None
         | Some (reply, k) \<Rightarrow> Some (slave_told i c mode reply (upd_conn c (\<lambda>_. k) st))) st
     | Timeout_slave _ \<Rightarrow> slave_head i (Some (slave_end i (Inl SocketTimeout) st)) st
     | Break_slave _ \<Rightarrow> slave_head i (Some (slave_end i (Inl SocketError) st)) st
     | _ \<Rightarrow> None)
   | S_answer c \<Rightarrow> (case e of
       Put_slave _ \<Rightarrow> slave_head i (Some (set_spc i (S_wait c ''ping'')
         (slave_sends i c (if b_abort (pa_obj (slave_at i st)) then ''abrt'' else ''pong'') st))) st
     | Timeout_slave _ \<Rightarrow> slave_head i (Some (slave_end i (Inl SocketTimeout) st)) st
     | Break_slave _ \<Rightarrow> slave_head i (Some (slave_end i (Inl SocketError) st)) st
     | _ \<Rightarrow> None)
   | S_done r \<Rightarrow> None)"

declare master_step.simps [simp del] slave_step.simps [simp del]

fun event_slave :: "barrier_event \<Rightarrow> nat option" where
  "event_slave (Start_slave i) = Some i"
| "event_slave (Connect_slave i) = Some i"
| "event_slave (Accept_slave i c) = Some i"
| "event_slave (Retry_slave i) = Some i"
| "event_slave (Got_slave i) = Some i"
| "event_slave (Put_slave i) = Some i"
| "event_slave (Timeout_slave i) = Some i"
| "event_slave (Break_slave i) = Some i"
| "event_slave _ = None"

definition barrier_step :: "barrier_event \<Rightarrow> system \<Rightarrow> system option" where
  "barrier_step e st = (case e of
       Clock n \<Rightarrow> Some (st\<lparr>sy_now := sy_now st + int n\<rparr>)
     | _ \<Rightarrow> (case event_slave e of
         None \<Rightarrow> master_step e st
       | Some i \<Rightarrow> if i < length (sy_slaves st) then slave_step i e st else None))"

fun run_events :: "barrier_event list \<Rightarrow> system \<Rightarrow> system option" where
  "run_events [] st = Some st"
| "run_events (e # es) st = (case barrier_step e st of None \<Rightarrow> None | Some st' \<Rightarrow> run_events es st')"

end
