(* ===== verification/Barrier_Safety.thy ===== *)
theory Barrier_Safety
  imports Barrier
begin

section \<open>Reading the state\<close>

abbreviation nslaves :: "system \<Rightarrow> nat" where "nslaves st \<equiv> length (sy_slaves st)"
abbreviation nconns :: "system \<Rightarrow> nat" where "nconns st \<equiv> length (sy_conns st)"
abbreviation conn :: "nat \<Rightarrow> system \<Rightarrow> connection" where "conn c st \<equiv> sy_conns st ! c"
abbreviation sobj :: "nat \<Rightarrow> system \<Rightarrow> barrier" where "sobj i st \<equiv> pa_obj (slave_at i st)"
abbreviation sent :: "nat \<Rightarrow> system \<Rightarrow> string list" where "sent i st \<equiv> pa_sent (slave_at i st)"
abbreviation waiting :: "system \<Rightarrow> (string \<times> nat) list" where "waiting st \<equiv> b_waiting (master_obj st)"

lemma nth_update: "xs[i := y] ! j = (if i = j \<and> i < length xs then y else xs ! j)"
  by (cases "i = j") (simp_all add: list_update_beyond)

named_theorems system_simps \<open>reading the state after an update\<close>

lemma read_upd_conn [system_simps]:
  "nconns (upd_conn c f st) = nconns st" "conn d (upd_conn c f st) = (if c = d \<and> c < nconns st then f (conn c st) else conn d st)"
  "sy_slaves (upd_conn c f st) = sy_slaves st" "sy_master (upd_conn c f st) = sy_master st" "sy_mpc (upd_conn c f st) = sy_mpc st"
  "sy_servers (upd_conn c f st) = sy_servers st" "sy_now (upd_conn c f st) = sy_now st"
  "master_obj (upd_conn c f st) = master_obj st" "slave_at i (upd_conn c f st) = slave_at i st" "spc i (upd_conn c f st) = spc i st"
  by (auto simp: upd_conn_def master_obj_def slave_at_def spc_def nth_update)

lemma read_mpc [system_simps]:
  "sy_conns (set_mpc p st) = sy_conns st" "sy_slaves (set_mpc p st) = sy_slaves st" "sy_master (set_mpc p st) = sy_master st"
  "sy_mpc (set_mpc p st) = p" "sy_servers (set_mpc p st) = sy_servers st" "sy_now (set_mpc p st) = sy_now st"
  "master_obj (set_mpc p st) = master_obj st" "slave_at i (set_mpc p st) = slave_at i st" "spc i (set_mpc p st) = spc i st"
  by (auto simp: set_mpc_def master_obj_def slave_at_def spc_def)

lemma read_master_obj [system_simps]:
  "sy_conns (set_master_obj b st) = sy_conns st" "sy_slaves (set_master_obj b st) = sy_slaves st"
  "sy_mpc (set_master_obj b st) = sy_mpc st" "sy_servers (set_master_obj b st) = sy_servers st"
  "master_obj (set_master_obj b st) = b" "slave_at i (set_master_obj b st) = slave_at i st" "spc i (set_master_obj b st) = spc i st"
  "pa_hosts (sy_master (set_master_obj b st)) = pa_hosts (sy_master st)"
  "pa_abort (sy_master (set_master_obj b st)) = pa_abort (sy_master st)"
  "pa_sent (sy_master (set_master_obj b st)) = pa_sent (sy_master st)"
  by (auto simp: set_master_obj_def master_obj_def slave_at_def spc_def)

lemma read_spc [system_simps]:
  "sy_conns (set_spc i p st) = sy_conns st" "nslaves (set_spc i p st) = nslaves st" "sy_master (set_spc i p st) = sy_master st"
  "sy_mpc (set_spc i p st) = sy_mpc st" "sy_servers (set_spc i p st) = sy_servers st"
  "master_obj (set_spc i p st) = master_obj st" "slave_at j (set_spc i p st) = slave_at j st"
  "spc j (set_spc i p st) = (if i = j \<and> i < nslaves st then p else spc j st)"
  by (auto simp: set_spc_def master_obj_def slave_at_def spc_def nth_update)

lemma read_upd_slave [system_simps]:
  "sy_conns (upd_slave i f st) = sy_conns st" "nslaves (upd_slave i f st) = nslaves st" "sy_master (upd_slave i f st) = sy_master st"
  "sy_mpc (upd_slave i f st) = sy_mpc st" "sy_servers (upd_slave i f st) = sy_servers st"
  "master_obj (upd_slave i f st) = master_obj st" "spc j (upd_slave i f st) = spc j st"
  "sobj j (upd_slave i f st) = (if i = j \<and> i < nslaves st then f (sobj i st) else sobj j st)"
  "sent j (upd_slave i f st) = sent j st"
  "pa_hosts (slave_at j (upd_slave i f st)) = pa_hosts (slave_at j st)"
  "pa_abort (slave_at j (upd_slave i f st)) = pa_abort (slave_at j st)"
  by (auto simp: upd_slave_def master_obj_def slave_at_def spc_def nth_update)

lemma read_slave_sends [system_simps]:
  "nconns (slave_sends i c m st) = nconns st" "nslaves (slave_sends i c m st) = nslaves st"
  "conn d (slave_sends i c m st) = (if c = d \<and> c < nconns st then send_up m (conn c st) else conn d st)"
  "sy_master (slave_sends i c m st) = sy_master st" "sy_mpc (slave_sends i c m st) = sy_mpc st"
  "sy_servers (slave_sends i c m st) = sy_servers st" "master_obj (slave_sends i c m st) = master_obj st"
  "spc j (slave_sends i c m st) = spc j st" "sobj j (slave_sends i c m st) = sobj j st"
  "sent j (slave_sends i c m st) = (if i = j \<and> i < nslaves st then sent i st @ [m] else sent j st)"
  "pa_hosts (slave_at j (slave_sends i c m st)) = pa_hosts (slave_at j st)"
  "pa_abort (slave_at j (slave_sends i c m st)) = pa_abort (slave_at j st)"
  by (auto simp: slave_sends_def upd_conn_def master_obj_def slave_at_def spc_def nth_update)

lemma read_master_sends [system_simps]:
  "nconns (master_sends c m st) = nconns st" "sy_slaves (master_sends c m st) = sy_slaves st"
  "conn d (master_sends c m st) = (if c = d \<and> c < nconns st then send_down m (conn c st) else conn d st)"
  "sy_mpc (master_sends c m st) = sy_mpc st" "sy_servers (master_sends c m st) = sy_servers st"
  "master_obj (master_sends c m st) = master_obj st" "slave_at i (master_sends c m st) = slave_at i st"
  "spc i (master_sends c m st) = spc i st"
  "pa_sent (sy_master (master_sends c m st)) = pa_sent (sy_master st) @ [m]"
  "pa_hosts (sy_master (master_sends c m st)) = pa_hosts (sy_master st)"
  "pa_abort (sy_master (master_sends c m st)) = pa_abort (sy_master st)"
  by (auto simp: master_sends_def upd_conn_def master_obj_def slave_at_def spc_def nth_update)

lemma read_close [system_simps]:
  "nconns (master_waiting_close st) = nconns st" "sy_slaves (master_waiting_close st) = sy_slaves st"
  "sy_master (master_waiting_close st) = sy_master st" "sy_mpc (master_waiting_close st) = sy_mpc st"
  "sy_servers (master_waiting_close st) = sy_servers st" "master_obj (master_waiting_close st) = master_obj st"
  "slave_at i (master_waiting_close st) = slave_at i st" "spc i (master_waiting_close st) = spc i st"
  "c < nconns st \<Longrightarrow> conn c (master_waiting_close st) =
     (if c \<in> snd ` set (waiting st) then (conn c st)\<lparr>cn_master_closed := True\<rparr> else conn c st)"
  by (auto simp: master_waiting_close_def close_conns_def master_obj_def slave_at_def spc_def nth_enumerate_eq)

lemma read_new_conn [system_simps]:
  "slave_at i (st\<lparr>sy_conns := ks\<rparr>) = slave_at i st" "spc i (st\<lparr>sy_conns := ks\<rparr>) = spc i st"
  "master_obj (st\<lparr>sy_conns := ks\<rparr>) = master_obj st"
  "slave_at i (st\<lparr>sy_now := t\<rparr>) = slave_at i st" "spc i (st\<lparr>sy_now := t\<rparr>) = spc i st"
  "master_obj (st\<lparr>sy_now := t\<rparr>) = master_obj st"
  by (auto simp: slave_at_def spc_def master_obj_def)

lemma read_send [system_simps]:
  "cn_slave (send_down m k) = cn_slave k" "cn_accepted (send_down m k) = cn_accepted k" "cn_up (send_down m k) = cn_up k"
  "cn_down (send_down m k) = cn_down k @ [m]"
  "cn_slave (send_up m k) = cn_slave k" "cn_accepted (send_up m k) = cn_accepted k" "cn_up (send_up m k) = cn_up k @ [m]"
  "cn_down (send_up m k) = cn_down k"
  by (simp_all add: send_down_def send_up_def)

lemma next_up_Some: "next_up k = Some (m, k') \<Longrightarrow>
    cn_slave k' = cn_slave k \<and> cn_accepted k' = cn_accepted k \<and> cn_down k' = cn_down k \<and> set (cn_up k') \<subseteq> set (cn_up k) \<and>
    (m = [] \<or> m \<in> set (cn_up k))"
  by (auto simp: next_up_def split: list.splits if_splits)

lemma next_down_Some: "next_down k = Some (m, k') \<Longrightarrow>
    cn_slave k' = cn_slave k \<and> cn_accepted k' = cn_accepted k \<and> cn_up k' = cn_up k \<and> set (cn_down k') \<subseteq> set (cn_down k) \<and>
    (m = [] \<or> m \<in> set (cn_down k))"
  by (auto simp: next_down_def split: list.splits if_splits)

section \<open>Greetings\<close>

definition plain_id :: "string \<Rightarrow> bool" where
  "plain_id s \<longleftrightarrow> list_all (\<lambda>c. \<not> crlf c) s"

lemma strip_plain: "plain_id s \<Longrightarrow> strip_crlf s = s"
proof -
  assume "plain_id s"
  then have "dropWhile crlf s = s" "dropWhile crlf (rev s) = rev s"
    using last_in_set [of s] by (auto simp: plain_id_def list_all_iff dropWhile_eq_self_iff hd_rev)
  then show ?thesis by (simp add: strip_crlf_def)
qed

lemma split_two:
  "split_max 2 c s = [a, b] \<longleftrightarrow> s = a @ c # b \<and> c \<notin> set a \<and> c \<notin> set b"
  (is "?l = ?r")
proof
  assume l: ?l
  have "split_max 2 c s = (case dropWhile (\<lambda>d. d \<noteq> c) s of [] \<Rightarrow> [s] | _ # rest \<Rightarrow> takeWhile (\<lambda>d. d \<noteq> c) s # split_max (Suc 0) c rest)"
    by (simp add: numeral_2_eq_2)
  with l obtain d where dw: "dropWhile (\<lambda>d. d \<noteq> c) s = d # b" "dropWhile (\<lambda>d. d \<noteq> c) b = []" "a = takeWhile (\<lambda>d. d \<noteq> c) s"
    by (auto split: list.splits)
  from dw(1) have "d = c" using hd_dropWhile [of "\<lambda>d. d \<noteq> c" s] by auto
  moreover have "c \<notin> set a" using dw(3) by (metis (full_types) set_takeWhileD)
  moreover have "c \<notin> set b" using dw(2) by (auto simp: dropWhile_eq_Nil_conv)
  moreover have "s = a @ d # b" using dw(1,3) by (metis takeWhile_dropWhile_id)
  ultimately show ?r by simp
next
  assume ?r
  then have "dropWhile (\<lambda>d. d \<noteq> c) s = c # b" "takeWhile (\<lambda>d. d \<noteq> c) s = a" "dropWhile (\<lambda>d. d \<noteq> c) b = []"
    by (auto simp: dropWhile_append takeWhile_append intro!: dropWhile_eq_Nil_conv [THEN iffD2])
  then show ?l by (simp only: numeral_2_eq_2 split_max.simps list.case)
qed

lemma greeting_not_word: "CHR '' '' \<notin> set m \<Longrightarrow> greeting b \<noteq> m"
  by (auto simp: greeting_def)

lemma welcomed_is_member:
  assumes "master_answer b (greeting s) = Welcomed name" "plain_id (b_tag s)" "plain_id (b_hostid s)"
  shows "b_tag s = b_tag b" "name = b_hostid s" "name \<notin> fst ` set (b_waiting b)"
proof -
  have plain: "strip_crlf (greeting s) = greeting s"
    using assms(2,3) by (intro strip_plain) (auto simp: plain_id_def greeting_def crlf_def)
  from assms(1) obtain tag n where parts: "split_max 2 (CHR '' '') (greeting s) = [tag, n]"
      "b_tag b = tag" "n \<notin> fst ` set (b_waiting b)" "name = n"
    unfolding master_answer_def plain by (auto split: list.splits if_splits)
  from parts(1) [unfolded split_two] have eq: "b_tag s @ CHR '' '' # b_hostid s = tag @ CHR '' '' # n"
      "CHR '' '' \<notin> set tag" "CHR '' '' \<notin> set n"
    by (simp_all add: greeting_def)
  have "b_tag s = tag \<and> b_hostid s = n"
    using eq by (auto simp: append_eq_append_conv2 Cons_eq_append_conv append_eq_Cons_conv)
  then show "b_tag s = b_tag b" "name = b_hostid s" "name \<notin> fst ` set (b_waiting b)" using parts by auto
qed

lemma not_welcomed: "master_answer b [] = Ignored"
  by (simp add: master_answer_def strip_crlf_def numeral_2_eq_2)


section \<open>Who is at the other end\<close>

text \<open>What the slave at the other end of a connection may have greeted with.\<close>

definition greetings :: "nat \<Rightarrow> system \<Rightarrow> string set" where
  "greetings c st = {m. \<exists>i. cn_slave (conn c st) = Some i \<and> m = greeting (sobj i st)}"

abbreviation waits :: "system \<Rightarrow> nat set" where
  "waits st \<equiv> snd ` set (waiting st)"

definition member_at :: "nat \<Rightarrow> string \<Rightarrow> system \<Rightarrow> bool" where
  "member_at c n st \<longleftrightarrow> (\<exists>i. cn_slave (conn c st) = Some i \<and> i < nslaves st \<and>
     b_hostid (sobj i st) = n \<and> b_tag (sobj i st) = b_tag (master_obj st))"

definition conn_ok :: "nat \<Rightarrow> system \<Rightarrow> bool" where
  "conn_ok c st \<longleftrightarrow> (\<forall>i. cn_slave (conn c st) = Some i \<longrightarrow> i < nslaves st) \<and>
     (c \<notin> waits st \<longrightarrow> set (cn_up (conn c st)) \<subseteq> greetings c st \<and> set (cn_down (conn c st)) \<subseteq> {''!tag'', ''!dup''})"

definition entry_ok :: "string \<Rightarrow> nat \<Rightarrow> system \<Rightarrow> bool" where
  "entry_ok n c st \<longleftrightarrow> c < nconns st \<and> cn_accepted (conn c st) \<and> member_at c n st"

definition slave_conn :: "slave_pc \<Rightarrow> nat option" where
  "slave_conn p = (case p of S_hello c \<Rightarrow> Some c | S_reply c \<Rightarrow> Some c | S_wait c m \<Rightarrow> Some c | S_answer c \<Rightarrow> Some c | _ \<Rightarrow> None)"

definition welcomed :: "slave_pc \<Rightarrow> bool" where
  "welcomed p \<longleftrightarrow> (case p of S_wait c m \<Rightarrow> True | S_answer c \<Rightarrow> True | _ \<Rightarrow> False)"

definition slave_ok :: "nat \<Rightarrow> system \<Rightarrow> bool" where
  "slave_ok i st \<longleftrightarrow> plain_id (b_tag (sobj i st)) \<and> plain_id (b_hostid (sobj i st)) \<and>
     (\<forall>c. slave_conn (spc i st) = Some c \<longrightarrow>
       c < nconns st \<and> cn_slave (conn c st) = Some i \<and> (welcomed (spc i st) \<longrightarrow> c \<in> waits st))"

definition linked :: "system \<Rightarrow> bool" where
  "linked st \<longleftrightarrow> (\<forall>c < nconns st. conn_ok c st) \<and> distinct (map fst (waiting st)) \<and>
     b_seen (master_obj st) = length (waiting st) \<and> (\<forall>(n, c) \<in> set (waiting st). entry_ok n c st) \<and>
     (\<forall>i < nslaves st. slave_ok i st)"

lemma linkedI:
  assumes "\<And>c. c < nconns st \<Longrightarrow> conn_ok c st" "distinct (map fst (waiting st))"
    "b_seen (master_obj st) = length (waiting st)" "\<And>n c. (n, c) \<in> set (waiting st) \<Longrightarrow> entry_ok n c st"
    "\<And>i. i < nslaves st \<Longrightarrow> slave_ok i st"
  shows "linked st"
  using assms by (auto simp: linked_def)

lemma linkedD:
  assumes "linked st"
  shows "c < nconns st \<Longrightarrow> conn_ok c st" "distinct (map fst (waiting st))" "b_seen (master_obj st) = length (waiting st)"
    "(n, c) \<in> set (waiting st) \<Longrightarrow> entry_ok n c st" "i < nslaves st \<Longrightarrow> slave_ok i st"
  using assms by (auto simp: linked_def)

lemmas ok_defs = conn_ok_def entry_ok_def slave_ok_def member_at_def greetings_def

named_theorems linked_ops \<open>updates that keep the links\<close>

lemma linked_same [linked_ops]:
  "linked (set_mpc p st) = linked st" "linked (st\<lparr>sy_now := t\<rparr>) = linked st"
  by (simp_all add: linked_def ok_defs system_simps)

lemma linked_cong:
  assumes "linked st" "sy_conns st' = sy_conns st" "nslaves st' = nslaves st" "waiting st' = waiting st"
    and "b_seen (master_obj st') = b_seen (master_obj st)" "b_tag (master_obj st') = b_tag (master_obj st)"
    and tag: "\<And>j. b_tag (sobj j st') = b_tag (sobj j st)" and id: "\<And>j. b_hostid (sobj j st') = b_hostid (sobj j st)"
    and pcs: "\<And>j c. j < nslaves st \<Longrightarrow> slave_conn (spc j st') = Some c \<Longrightarrow>
      c < nconns st \<and> cn_slave (conn c st) = Some j \<and> (welcomed (spc j st') \<longrightarrow> c \<in> waits st)"
  shows "linked st'"
proof -
  have "greetings c st' = greetings c st" for c by (simp add: greetings_def greeting_def assms(2) tag id)
  then have "conn_ok c st' = conn_ok c st" "entry_ok n c st' = entry_ok n c st" for n c
    by (simp_all add: conn_ok_def entry_ok_def member_at_def assms(2-4,6) tag id)
  moreover have "slave_ok j st'" if "j < nslaves st" for j
    using linkedD(5) [OF assms(1) that] pcs [OF that] by (auto simp: slave_ok_def assms(2-4) tag id)
  ultimately show ?thesis using assms(1) by (simp add: linked_def assms(2-5))
qed

lemma linked_pcs:
  "linked st \<Longrightarrow> j < nslaves st \<Longrightarrow> slave_conn (spc j st) = Some c \<Longrightarrow>
    c < nconns st \<and> cn_slave (conn c st) = Some j \<and> (welcomed (spc j st) \<longrightarrow> c \<in> waits st)"
  using linkedD(5) [of st j] by (auto simp: slave_ok_def)

lemma linked_upd_conn:
  assumes "linked st"
    and f: "c < nconns st \<Longrightarrow> cn_slave (f (conn c st)) = cn_slave (conn c st) \<and>
      (cn_accepted (conn c st) \<longrightarrow> cn_accepted (f (conn c st))) \<and>
      (c \<notin> waits st \<longrightarrow> set (cn_up (f (conn c st))) \<subseteq> greetings c st \<and> set (cn_down (f (conn c st))) \<subseteq> {''!tag'', ''!dup''})"
  shows "linked (upd_conn c f st)"
proof -
  note D = linkedD [OF assms(1)]
  have slave: "d < nconns st \<Longrightarrow> cn_slave (conn d (upd_conn c f st)) = cn_slave (conn d st)" for d
    using f by (auto simp: system_simps)
  have g: "d < nconns st \<Longrightarrow> greetings d (upd_conn c f st) = greetings d st" for d
    using slave by (simp add: greetings_def system_simps)
  show ?thesis
  proof (rule linkedI)
    fix d assume "d < nconns (upd_conn c f st)"
    then have d: "d < nconns st" by (simp add: system_simps)
    show "conn_ok d (upd_conn c f st)"
      using D(1) [OF d] f d unfolding conn_ok_def g [OF d] slave [OF d] by (cases "c = d") (simp_all add: system_simps)
  next
    fix n d assume "(n, d) \<in> set (waiting (upd_conn c f st))"
    then have "entry_ok n d st" using D(4) by (simp add: system_simps)
    then show "entry_ok n d (upd_conn c f st)"
      using f slave [of d] by (auto simp: entry_ok_def member_at_def system_simps)
  next
    fix i assume "i < nslaves (upd_conn c f st)"
    then have "slave_ok i st" using D(5) by (simp add: system_simps)
    then show "slave_ok i (upd_conn c f st)" using slave by (auto simp: slave_ok_def system_simps)
  qed (use D(2,3) in \<open>simp_all add: system_simps\<close>)
qed

lemma linked_shrink:
  assumes "linked st" "c < nconns st \<Longrightarrow> cn_slave (f (conn c st)) = cn_slave (conn c st) \<and>
      (cn_accepted (conn c st) \<longrightarrow> cn_accepted (f (conn c st))) \<and>
      set (cn_up (f (conn c st))) \<subseteq> set (cn_up (conn c st)) \<and> set (cn_down (f (conn c st))) \<subseteq> set (cn_down (conn c st))"
  shows "linked (upd_conn c f st)"
proof (rule linked_upd_conn [OF assms(1)])
  assume c: "c < nconns st"
  have "c \<notin> waits st \<longrightarrow> set (cn_up (conn c st)) \<subseteq> greetings c st \<and> set (cn_down (conn c st)) \<subseteq> {''!tag'', ''!dup''}"
    using linkedD(1) [OF assms(1) c] by (simp add: conn_ok_def)
  with assms(2) [OF c] show "cn_slave (f (conn c st)) = cn_slave (conn c st) \<and>
      (cn_accepted (conn c st) \<longrightarrow> cn_accepted (f (conn c st))) \<and>
      (c \<notin> waits st \<longrightarrow> set (cn_up (f (conn c st))) \<subseteq> greetings c st \<and> set (cn_down (f (conn c st))) \<subseteq> {''!tag'', ''!dup''})"
    by blast
qed

lemma linked_recv_up [linked_ops]: "linked st \<Longrightarrow> next_up (conn c st) = Some (m, k) \<Longrightarrow> linked (upd_conn c (\<lambda>_. k) st)"
  by (rule linked_shrink) (auto dest: next_up_Some)

lemma linked_recv_down [linked_ops]: "linked st \<Longrightarrow> next_down (conn c st) = Some (m, k) \<Longrightarrow> linked (upd_conn c (\<lambda>_. k) st)"
  by (rule linked_shrink) (auto dest: next_down_Some)

lemma linked_flags [linked_ops]:
  "linked st \<Longrightarrow> linked (upd_conn c (cn_master_closed_update (\<lambda>_. b)) st)"
  "linked st \<Longrightarrow> linked (upd_conn c (cn_slave_closed_update (\<lambda>_. b)) st)"
  "linked st \<Longrightarrow> linked (upd_conn c (cn_accepted_update (\<lambda>_. True)) st)"
  by (rule linked_shrink; simp)+

lemma linked_master_sends:
  assumes "linked st" "c \<in> waits st \<or> m \<in> {''!tag'', ''!dup''}"
  shows "linked (master_sends c m st)"
proof -
  have up: "linked (upd_conn c (send_down m) st)"
  proof (rule linked_upd_conn [OF assms(1)])
    assume "c < nconns st"
    then show "cn_slave (send_down m (conn c st)) = cn_slave (conn c st) \<and>
      (cn_accepted (conn c st) \<longrightarrow> cn_accepted (send_down m (conn c st))) \<and>
      (c \<notin> waits st \<longrightarrow> set (cn_up (send_down m (conn c st))) \<subseteq> greetings c st \<and>
        set (cn_down (send_down m (conn c st))) \<subseteq> {''!tag'', ''!dup''})"
      using linkedD(1) [OF assms(1), of c] assms(2) by (auto simp: conn_ok_def system_simps)
  qed
  then show ?thesis
    by (rule linked_cong) (use linked_pcs [OF up] in \<open>simp_all add: master_sends_def master_obj_def slave_at_def spc_def upd_conn_def\<close>)
qed

lemma linked_close [linked_ops]:
  assumes "linked st"
  shows "linked (master_waiting_close st)"
proof -
  note D = linkedD [OF assms]
  have same: "d < nconns st \<Longrightarrow> cn_slave (conn d (master_waiting_close st)) = cn_slave (conn d st) \<and>
     cn_accepted (conn d (master_waiting_close st)) = cn_accepted (conn d st) \<and>
     cn_up (conn d (master_waiting_close st)) = cn_up (conn d st) \<and> cn_down (conn d (master_waiting_close st)) = cn_down (conn d st)" for d
    by (simp add: system_simps)
  show ?thesis
  proof (rule linkedI)
    fix d assume "d < nconns (master_waiting_close st)"
    then have d: "d < nconns st" by (simp add: system_simps)
    then show "conn_ok d (master_waiting_close st)"
      using D(1) [OF d] same [OF d] by (simp add: conn_ok_def greetings_def system_simps del: read_close(9))
  next
    fix n d assume "(n, d) \<in> set (waiting (master_waiting_close st))"
    then have "entry_ok n d st" using D(4) by (simp add: system_simps)
    then show "entry_ok n d (master_waiting_close st)"
      using same [of d] by (auto simp: entry_ok_def member_at_def system_simps simp del: read_close(9))
  next
    fix i assume "i < nslaves (master_waiting_close st)"
    then have "slave_ok i st" using D(5) by (simp add: system_simps)
    then show "slave_ok i (master_waiting_close st)"
      using same by (auto simp: slave_ok_def system_simps simp del: read_close(9))
  qed (use D(2,3) in \<open>simp_all add: system_simps\<close>)
qed

lemma linked_master_end [linked_ops]: "linked st \<Longrightarrow> linked (master_end r st)"
  by (simp add: master_end_def linked_ops)

lemma linked_checked [linked_ops]: "linked st \<Longrightarrow> linked (checked ns p a st)"
  by (simp add: checked_def linked_ops)

lemma linked_told [linked_ops]: "linked st \<Longrightarrow> linked (told ns a st)"
  by (simp add: told_def linked_ops)

lemma linked_master_turn [linked_ops]: "linked st \<Longrightarrow> linked (master_turn st)"
  by (simp add: master_turn_def Let_def linked_ops)

lemma linked_set_spc:
  assumes "linked st" "\<And>c. slave_conn p = Some c \<Longrightarrow>
    c < nconns st \<and> cn_slave (conn c st) = Some i \<and> (welcomed p \<longrightarrow> c \<in> waits st)"
  shows "linked (set_spc i p st)"
  by (rule linked_cong [OF assms(1)]) (use assms(2) linked_pcs [OF assms(1)] in \<open>auto simp: system_simps split: if_splits\<close>)

lemma linked_upd_slave:
  assumes "linked st" "b_tag (f (sobj i st)) = b_tag (sobj i st)" "b_hostid (f (sobj i st)) = b_hostid (sobj i st)"
  shows "linked (upd_slave i f st)"
  by (rule linked_cong [OF assms(1)]) (use assms(2,3) linked_pcs [OF assms(1)] in \<open>auto simp: system_simps split: if_splits\<close>)

lemma linked_set_master_obj:
  assumes "linked st" "b_tag b = b_tag (master_obj st)" "b_waiting b = waiting st" "b_seen b = b_seen (master_obj st)"
  shows "linked (set_master_obj b st)"
  by (rule linked_cong [OF assms(1)]) (use assms(2-) linked_pcs [OF assms(1)] in \<open>auto simp: system_simps\<close>)

lemma linked_slave_sends:
  assumes "linked st" "m = greeting (sobj i st) \<or> c \<in> waits st" "cn_slave (conn c st) = Some i"
  shows "linked (slave_sends i c m st)"
proof (rule linkedI)
  fix d assume "d < nconns (slave_sends i c m st)"
  then have "conn_ok d st" using linkedD(1) [OF assms(1)] by (simp add: system_simps)
  then show "conn_ok d (slave_sends i c m st)" using assms(2,3) by (auto simp: conn_ok_def greetings_def system_simps)
next
  fix n d assume "(n, d) \<in> set (waiting (slave_sends i c m st))"
  then have "entry_ok n d st" using linkedD(4) [OF assms(1)] by (simp add: system_simps)
  then show "entry_ok n d (slave_sends i c m st)" by (auto simp: entry_ok_def member_at_def system_simps)
next
  fix j assume "j < nslaves (slave_sends i c m st)"
  then have "slave_ok j st" using linkedD(5) [OF assms(1)] by (simp add: system_simps)
  then show "slave_ok j (slave_sends i c m st)" by (auto simp: slave_ok_def system_simps)
qed (use linkedD(2,3) [OF assms(1)] in \<open>simp_all add: system_simps\<close>)

lemma linked_new_conn:
  assumes "linked st" "cn_slave k = None \<or> cn_slave k = Some i \<and> i < nslaves st" "cn_up k = []" "cn_down k = []"
  shows "linked (st\<lparr>sy_conns := sy_conns st @ [k]\<rparr>)"
proof -
  note D = linkedD [OF assms(1)]
  show ?thesis
  proof (rule linkedI)
    fix c assume "c < nconns (st\<lparr>sy_conns := sy_conns st @ [k]\<rparr>)"
    then show "conn_ok c (st\<lparr>sy_conns := sy_conns st @ [k]\<rparr>)"
      using D(1) [of c] assms(2-) by (cases "c = nconns st") (auto simp: conn_ok_def greetings_def system_simps nth_append)
  next
    fix n c assume "(n, c) \<in> set (waiting (st\<lparr>sy_conns := sy_conns st @ [k]\<rparr>))"
    then show "entry_ok n c (st\<lparr>sy_conns := sy_conns st @ [k]\<rparr>)"
      using D(4) [of n c] by (auto simp: entry_ok_def member_at_def system_simps nth_append)
  next
    fix i assume "i < nslaves (st\<lparr>sy_conns := sy_conns st @ [k]\<rparr>)"
    then show "slave_ok i (st\<lparr>sy_conns := sy_conns st @ [k]\<rparr>)"
      using D(5) [of i] by (auto simp: slave_ok_def system_simps nth_append)
  qed (use D(2,3) in \<open>simp_all add: system_simps\<close>)
qed

lemma alist_put_new: "k \<notin> fst ` set d \<Longrightarrow> alist_put k v d = d @ [(k, v)]"
  by (induction d) auto

text \<open>A client that is welcomed is the member its greeting names.\<close>

lemma linked_welcomed:
  assumes "linked st" "c < nconns st" "cn_accepted (conn c st)" "intro \<in> greetings c st"
    and "master_answer (master_obj st) intro = Welcomed name"
  shows "linked (master_welcome c intro st)"
proof -
  note D = linkedD [OF assms(1)]
  from assms(4) obtain i where i: "cn_slave (conn c st) = Some i" "intro = greeting (sobj i st)" by (auto simp: greetings_def)
  then have "i < nslaves st" using D(1) [OF assms(2)] by (simp add: conn_ok_def)
  then have "plain_id (b_tag (sobj i st))" "plain_id (b_hostid (sobj i st))" using D(5) by (simp_all add: slave_ok_def)
  from welcomed_is_member [OF assms(5) [unfolded i(2)] this]
  have name: "b_tag (sobj i st) = b_tag (master_obj st)" "name = b_hostid (sobj i st)" "name \<notin> fst ` set (waiting st)" by auto
  let ?b = "(master_obj st)\<lparr>b_waiting := waiting st @ [(name, c)], b_seen := Suc (b_seen (master_obj st))\<rparr>"
  let ?st = "set_master_obj ?b (master_sends c ''wait'' st)"
  have same: "d < nconns st \<Longrightarrow> cn_slave (conn d ?st) = cn_slave (conn d st) \<and> cn_accepted (conn d ?st) = cn_accepted (conn d st) \<and>
      cn_up (conn d ?st) = cn_up (conn d st)" "greetings d ?st = greetings d st" for d
    by (auto simp: greetings_def system_simps)
  have "linked ?st"
  proof (rule linkedI)
    fix d assume "d < nconns ?st"
    then have "conn_ok d st" using D(1) by (simp add: system_simps)
    then show "conn_ok d ?st" by (cases "c = d") (auto simp: conn_ok_def same system_simps)
  next
    fix n d assume "(n, d) \<in> set (waiting ?st)"
    then have "entry_ok n d st \<or> n = name \<and> d = c" using D(4) by (auto simp: system_simps)
    then show "entry_ok n d ?st"
    proof
      assume "entry_ok n d st"
      then show ?thesis by (auto simp: entry_ok_def member_at_def system_simps)
    next
      assume "n = name \<and> d = c"
      then show ?thesis using assms(2,3) i \<open>i < nslaves st\<close> name by (auto simp: entry_ok_def member_at_def system_simps)
    qed
  next
    fix j assume "j < nslaves ?st"
    then have "slave_ok j st" using D(5) by (simp add: system_simps)
    then show "slave_ok j ?st" by (auto simp: slave_ok_def system_simps)
  qed (use D(2,3) name(3) in \<open>simp_all add: system_simps\<close>)
  then show ?thesis using assms(5) name(3) by (simp add: master_welcome_def Let_def alist_put_new)
qed

lemma linked_master_welcome:
  assumes "linked st" "c < nconns st" "cn_accepted (conn c st)" "intro = [] \<or> intro \<in> greetings c st"
  shows "linked (master_welcome c intro st)"
proof (cases "master_answer (master_obj st) intro")
  case Ignored
  then show ?thesis using assms(1) by (simp add: master_welcome_def linked_ops)
next
  case (Rejected m)
  then have m: "m \<in> {''!tag'', ''!dup''}" by (auto simp: master_answer_def split: list.splits if_splits)
  then have "linked (upd_conn c (\<lambda>k. k\<lparr>cn_master_closed := True\<rparr>) (master_sends c m st))"
    using assms(1) by (intro linked_ops linked_master_sends) simp_all
  then show ?thesis using Rejected by (simp add: master_welcome_def)
next
  case (Welcomed name)
  then have "intro \<noteq> []" using not_welcomed by auto
  then show ?thesis using linked_welcomed [OF assms(1-3) _ Welcomed] assms(4) by simp
qed

section \<open>Where the master stands\<close>

definition master_ok :: "system \<Rightarrow> bool" where
  "master_ok st \<longleftrightarrow> (case sy_mpc st of
       M_welcome c \<Rightarrow> c < nconns st \<and> cn_accepted (conn c st) \<and> c \<notin> waits st
     | M_ping ns p a \<Rightarrow> ns \<noteq> [] \<and> set ns \<subseteq> fst ` set (waiting st)
     | M_pong ns p a \<Rightarrow> ns \<noteq> [] \<and> set ns \<subseteq> fst ` set (waiting st)
     | M_release ns a \<Rightarrow> ns \<noteq> [] \<and> set ns \<subseteq> fst ` set (waiting st)
     | _ \<Rightarrow> True)"

named_theorems master_ops \<open>steps after which the master stands well\<close>

lemma master_ok_done [master_ops]: "master_ok (master_end r st)" "master_ok (set_mpc (M_done r) st)" "master_ok (set_mpc M_loop st)"
  by (simp_all add: master_ok_def master_end_def system_simps)

lemma master_ok_checked [master_ops]: "set ns \<subseteq> fst ` set (waiting st) \<Longrightarrow> master_ok (checked ns p a st)"
  by (auto simp: checked_def master_ops master_ok_def [where st = "set_mpc q st" for q] system_simps)

lemma master_ok_told [master_ops]: "set ns \<subseteq> fst ` set (waiting st) \<Longrightarrow> master_ok (told ns a st)"
  by (auto simp: told_def master_ops master_ok_def [where st = "set_mpc q st" for q] system_simps)

lemma master_ok_turn [master_ops]: "master_ok (master_turn st)"
  by (simp add: master_turn_def Let_def master_ops)

lemma master_ok_mono:
  assumes "master_ok st" "sy_mpc st' = sy_mpc st" "waiting st' = waiting st" "nconns st \<le> nconns st'"
    and "\<And>c. c < nconns st \<Longrightarrow> cn_accepted (conn c st) \<Longrightarrow> cn_accepted (conn c st')"
  shows "master_ok st'"
  using assms by (auto simp: master_ok_def split: master_pc.splits)

lemma waiting_conn:
  assumes "linked st" "n \<in> fst ` set (waiting st)"
  shows "(n, waiting_conn st n) \<in> set (waiting st)" "waiting_conn st n \<in> waits st" "waiting_conn st n < nconns st"
    "member_at (waiting_conn st n) n st"
proof -
  from assms(2) obtain c where c: "(n, c) \<in> set (waiting st)" by auto
  then have "map_of (waiting st) n = Some c" using linkedD(2) [OF assms(1)] by simp
  then have w: "waiting_conn st n = c" by (simp add: waiting_conn_def)
  from c show "(n, waiting_conn st n) \<in> set (waiting st)" by (simp add: w)
  then show "waiting_conn st n \<in> waits st" by force
  show "waiting_conn st n < nconns st" "member_at (waiting_conn st n) n st"
    using linkedD(4) [OF assms(1) c] by (simp_all add: w entry_ok_def)
qed

lemma greeted_up:
  assumes "linked st" "c < nconns st" "c \<notin> waits st" "next_up (conn c st) = Some (m, k)"
  shows "m = [] \<or> m \<in> greetings c (upd_conn c (\<lambda>_. k) st)"
proof -
  have "set (cn_up (conn c st)) \<subseteq> greetings c st" using linkedD(1) [OF assms(1,2)] assms(3) by (simp add: conn_ok_def)
  moreover have "greetings c (upd_conn c (\<lambda>_. k) st) = greetings c st"
    using next_up_Some [OF assms(4)] assms(2) by (simp add: greetings_def system_simps)
  ultimately show ?thesis using next_up_Some [OF assms(4)] by blast
qed

lemma start_master_cases:
  assumes "start_master st = Some st'"
  obtains e where "st' = set_mpc (M_done (Inl e)) st"
  | b where "begin_rendezvous (sy_now st) (sy_servers st) (sy_master st) = Inr b" "b_members b = []"
      "st' = set_mpc (M_done (Inr ())) (set_master_obj b st)"
  | b where "begin_rendezvous (sy_now st) (sy_servers st) (sy_master st) = Inr b" "b_members b \<noteq> []"
      "b_hostid b = b_masterid b" "st' = set_mpc M_loop (set_master_obj b st)"
  using assms by (auto simp: start_master_def split: sum.splits if_splits)

lemma start_slave_cases:
  assumes "start_slave i st = Some st'"
  obtains e where "st' = set_spc i (S_done (Inl e)) st"
  | b where "begin_rendezvous (sy_now st) (sy_servers st) (slave_at i st) = Inr b" "b_members b = []"
      "st' = set_spc i (S_done (Inr ())) (upd_slave i (\<lambda>_. b) st)"
  | b where "begin_rendezvous (sy_now st) (sy_servers st) (slave_at i st) = Inr b" "b_members b \<noteq> []"
      "b_hostid b \<noteq> b_masterid b" "st' = set_spc i S_loop (upd_slave i (\<lambda>_. b) st)"
  using assms by (auto simp: start_slave_def split: sum.splits if_splits)

text \<open>The members a call expects: the hosts in order, without the master when it is the first.\<close>

definition members_of :: "string option \<Rightarrow> string list \<Rightarrow> string list" where
  "members_of servers hosts = (if servers = None then tl (sort_hosts_by_name hosts) else sort_hosts_by_name hosts)"

lemma begin_rendezvous_fields:
  assumes "begin_rendezvous now servers p = Inr b"
  shows "b_tag b = b_tag (pa_obj p)" "b_hostid b = b_hostid (pa_obj p)" "b_abort b = pa_abort p"
    "b_members b = members_of servers (pa_hosts p)" "b_start_time b = Some now"
    "b_waiting b = [] \<or> b_waiting b = b_waiting (pa_obj p)" "b_members b \<noteq> [] \<Longrightarrow> b_waiting b = [] \<and> b_seen b = 0"
    "b_members b = [] \<Longrightarrow> b_waiting b = b_waiting (pa_obj p) \<and> b_seen b = b_seen (pa_obj p)"
  using assms by (auto simp: begin_rendezvous_def rendezvous_def rendezvous_servers_def started_def members_of_def Let_def
      split: option.splits list.splits if_splits)

text \<open>Before the call of the master no connection has been welcomed.\<close>

definition fresh_master :: "system \<Rightarrow> bool" where
  "fresh_master st \<longleftrightarrow> (sy_mpc st = M_idle \<longrightarrow> waiting st = [] \<and> b_seen (master_obj st) = 0)"

lemma linked_start_master:
  assumes "linked st" "fresh_master st" "sy_mpc st = M_idle" "start_master st = Some st'"
  shows "linked st' \<and> master_ok st'"
proof -
  have fresh: "waiting st = []" "b_seen (master_obj st) = 0" using assms(2,3) by (simp_all add: fresh_master_def)
  have obj: "linked (set_master_obj b st)" if "begin_rendezvous (sy_now st) (sy_servers st) (sy_master st) = Inr b" for b
    using begin_rendezvous_fields [OF that] fresh by (intro linked_set_master_obj [OF assms(1)])
      (cases "b_members b = []"; simp add: master_obj_def)+
  from assms(4) show ?thesis
    by (cases rule: start_master_cases) (simp_all add: linked_ops master_ops assms(1) obj)
qed

lemma linked_master_step:
  assumes "linked st" "master_ok st" "fresh_master st" "master_step e st = Some st'"
  shows "linked st' \<and> master_ok st'"
proof (cases "sy_mpc st")
  case M_idle
  then show ?thesis using assms linked_start_master by (auto simp: master_step.simps split: if_splits)
next
  case M_loop
  have new: "linked (st\<lparr>sy_conns := sy_conns st @ [new_connection\<lparr>cn_accepted := True\<rparr>]\<rparr>)"
    using assms(1) by (rule linked_new_conn) (simp_all add: new_connection_def)
  have "nconns st \<notin> waits st" using linkedD(4) [OF assms(1)] by (force simp: entry_ok_def)
  moreover have "c \<notin> waits st" if "\<not> cn_accepted (conn c st)" for c
    using linkedD(4) [OF assms(1)] that by (force simp: entry_ok_def)
  ultimately show ?thesis using assms(1,4) M_loop new
    by (auto simp: master_step.simps master_head_def master_call_def Let_def linked_ops master_ops
        split: barrier_event.splits sum.splits if_splits)
      (auto simp: master_ok_def system_simps new_connection_def)
next
  case (M_welcome c)
  then have c: "c < nconns st" "cn_accepted (conn c st)" "c \<notin> waits st" using assms(2) by (simp_all add: master_ok_def)
  have "linked (master_turn (master_welcome c m (upd_conn c (\<lambda>_. k) st)))"
    if "next_up (conn c st) = Some (m, k)" for m k
    using c next_up_Some [OF that] greeted_up [OF assms(1) c(1,3) that] linked_recv_up [OF assms(1) that]
    by (intro linked_master_turn linked_master_welcome) (simp_all add: system_simps)
  then show ?thesis using assms(1,4) M_welcome
    by (auto simp: master_step.simps linked_ops master_ops split: barrier_event.splits option.splits)
next
  case (M_ping names present abort)
  then have names: "names \<noteq> []" "set names \<subseteq> fst ` set (waiting st)" using assms(2) by (simp_all add: master_ok_def)
  then have "waiting_conn st (hd names) \<in> waits st" "set (tl names) \<subseteq> fst ` set (waiting st)"
    using waiting_conn [OF assms(1)] by (cases names; auto)+
  moreover have "linked (master_sends (waiting_conn st (hd names)) m st)" for m
    using calculation(1) by (simp add: linked_master_sends assms(1))
  ultimately show ?thesis using assms(1,4) M_ping names
    by (auto simp: master_step.simps linked_ops master_ops split: barrier_event.splits simp del: image_iff del: imageE)
      (auto simp: master_ok_def system_simps)
next
  case (M_pong names present abort)
  then have "set (tl names) \<subseteq> fst ` set (waiting st)" using assms(2) by (cases names) (auto simp: master_ok_def)
  then show ?thesis using assms(1,4) M_pong
    by (auto simp: master_step.simps linked_ops master_ops system_simps split: barrier_event.splits option.splits)
next
  case (M_release names abort)
  then have names: "names \<noteq> []" "set names \<subseteq> fst ` set (waiting st)" using assms(2) by (simp_all add: master_ok_def)
  then have "waiting_conn st (hd names) \<in> waits st" "set (tl names) \<subseteq> fst ` set (waiting st)"
    using waiting_conn [OF assms(1)] by (cases names; auto)+
  moreover have "linked (master_sends (waiting_conn st (hd names)) m st)" for m
    using calculation(1) by (simp add: linked_master_sends assms(1))
  ultimately show ?thesis using assms(1,4) M_release
    by (auto simp: master_step.simps linked_ops master_ops system_simps split: barrier_event.splits simp del: image_iff del: imageE)
next
  case (M_done r)
  then show ?thesis using assms(4) by (simp add: master_step.simps)
qed

lemma linked_slave_end [linked_ops]: "linked st \<Longrightarrow> linked (slave_end i r st)"
  unfolding slave_end_def
  by (rule linked_set_spc) (auto simp: linked_ops slave_conn_def split: list.splits)

lemma linked_slave_drops [linked_ops]: "linked st \<Longrightarrow> linked (slave_drops i c st)"
  unfolding slave_drops_def by (rule linked_set_spc) (auto simp: linked_ops slave_conn_def)

lemma update_timeout_same [simp]:
  "b_tag (update_timeout now t b) = b_tag b" "b_hostid (update_timeout now t b) = b_hostid b"
  "b_members (update_timeout now t b) = b_members b" "b_abort (update_timeout now t b) = b_abort b"
  "b_waiting (update_timeout now t b) = b_waiting b" "b_start_time (update_timeout now t b) = b_start_time b"
  by (auto simp: update_timeout_def split: option.splits)

lemma linked_slave_told:
  assumes "linked st" "c < nconns st" "cn_slave (conn c st) = Some i" "c \<in> waits st"
  shows "linked (slave_told i c mode m st)"
proof -
  have "linked (set_spc i p st') " if "linked st'" "sy_conns st' = sy_conns st" "waiting st' = waiting st" "slave_conn p = Some c" for p st'
    using assms that by (intro linked_set_spc) (auto simp: system_simps)
  then show ?thesis using assms
    by (simp add: slave_told_def Let_def linked_ops linked_upd_slave system_simps slave_conn_def)
qed

lemma linked_slave_welcomed:
  assumes "linked st" "c < nconns st" "cn_slave (conn c st) = Some i" "m \<noteq> [] \<Longrightarrow> c \<notin> waits st \<Longrightarrow> m \<in> {''!tag'', ''!dup''}"
  shows "linked (slave_welcomed i c m st)"
proof (cases "strip_crlf m = ''wait''")
  case True
  then have "m \<noteq> []" "m \<notin> {''!tag'', ''!dup''}" by (auto simp: strip_crlf_def crlf_def)
  then have "c \<in> waits st" using assms(4) by blast
  moreover have "linked (upd_slave i (\<lambda>b. b\<lparr>b_waiting := [(b_hostid b, c)], b_seen := 1\<rparr>) st)"
    by (rule linked_upd_slave [OF assms(1)]) simp_all
  ultimately have "linked (set_spc i (S_wait c ''wait'') (upd_slave i (\<lambda>b. b\<lparr>b_waiting := [(b_hostid b, c)], b_seen := 1\<rparr>) st))"
    using assms(2,3) by (intro linked_set_spc) (simp_all add: slave_conn_def system_simps)
  then show ?thesis using True by (simp add: slave_welcomed_def)
qed (simp add: slave_welcomed_def linked_ops assms(1))

lemma linked_slave_step:
  assumes "linked st" "i < nslaves st" "slave_step i e st = Some st'"
  shows "linked st'"
proof (cases "spc i st")
  case S_idle
  with assms(3) have "start_slave i st = Some st'" by (auto simp: slave_step.simps split: if_splits)
  moreover have "linked (upd_slave i (\<lambda>_. b) st)"
    if "begin_rendezvous (sy_now st) (sy_servers st) (slave_at i st) = Inr b" for b
    using begin_rendezvous_fields [OF that] by (intro linked_upd_slave [OF assms(1)]) simp_all
  ultimately show ?thesis using assms(1)
    by (cases rule: start_slave_cases) (auto intro!: linked_set_spc simp: slave_conn_def)
next
  case S_loop
  have new: "linked (st\<lparr>sy_conns := sy_conns st @ [new_connection\<lparr>cn_slave := Some i\<rparr>]\<rparr>)"
    using assms(1) by (rule linked_new_conn) (use assms(2) in \<open>simp_all add: new_connection_def\<close>)
  have acc: "linked (upd_conn c (\<lambda>k. k\<lparr>cn_slave := Some i\<rparr>) st)"
    if c: "c < nconns st" "cn_slave (conn c st) = None" for c
  proof -
    note D = linkedD [OF assms(1)]
    let ?st = "upd_conn c (\<lambda>k. k\<lparr>cn_slave := Some i\<rparr>) st"
    have "c \<notin> waits st" using D(4) c(2) by (force simp: entry_ok_def member_at_def)
    show ?thesis
    proof (rule linkedI)
      fix d assume "d < nconns ?st"
      then have "conn_ok d st" using D(1) by (simp add: system_simps)
      then show "conn_ok d ?st" using c assms(2) by (cases "c = d") (auto simp: conn_ok_def greetings_def system_simps)
    next
      fix n d assume "(n, d) \<in> set (waiting ?st)"
      then have "(n, d) \<in> set (waiting st)" by (simp add: system_simps)
      then have "entry_ok n d st" "d \<noteq> c" using D(4) \<open>c \<notin> waits st\<close> by force+
      then show "entry_ok n d ?st" by (auto simp: entry_ok_def member_at_def system_simps)
    next
      fix j assume "j < nslaves ?st"
      then have "slave_ok j st" using D(5) by (simp add: system_simps)
      then show "slave_ok j ?st" using c(2) by (auto simp: slave_ok_def system_simps)
    qed (use D(2,3) in \<open>simp_all add: system_simps\<close>)
  qed
  show ?thesis using assms S_loop new acc
    by (auto simp: slave_step.simps slave_head_def slave_call_def linked_ops slave_conn_def welcomed_def system_simps
        new_connection_def split: barrier_event.splits sum.splits if_splits intro!: linked_set_spc)
next
  case (S_hello c)
  then have c: "c < nconns st" "cn_slave (conn c st) = Some i" using linked_pcs [OF assms(1,2)] by (simp_all add: slave_conn_def)
  have "linked (slave_sends i c (greeting (sobj i st)) st)" using assms(1) c by (simp add: linked_slave_sends)
  then show ?thesis using assms(1,3) S_hello c
    by (auto simp: slave_step.simps linked_ops slave_conn_def welcomed_def system_simps split: barrier_event.splits intro!: linked_set_spc)
next
  case (S_reply c)
  then have c: "c < nconns st" "cn_slave (conn c st) = Some i" using linked_pcs [OF assms(1,2)] by (simp_all add: slave_conn_def)
  have "linked (slave_welcomed i c m (upd_conn c (\<lambda>_. k) st))" if "next_down (conn c st) = Some (m, k)" for m k
  proof (rule linked_slave_welcomed)
    show "m \<in> {''!tag'', ''!dup''}" if "m \<noteq> []" "c \<notin> waits (upd_conn c (\<lambda>_. k) st)"
      using linkedD(1) [OF assms(1) c(1)] next_down_Some [OF \<open>next_down (conn c st) = Some (m, k)\<close>] that
      by (auto simp: conn_ok_def system_simps)
  qed (use c next_down_Some [OF that] linked_recv_down [OF assms(1) that] in \<open>simp_all add: system_simps\<close>)
  then show ?thesis using assms(1,3) S_reply
    by (auto simp: slave_step.simps linked_ops split: barrier_event.splits option.splits)
next
  case (S_wait c mode)
  then have c: "c < nconns st" "cn_slave (conn c st) = Some i" "c \<in> waits st"
    using linked_pcs [OF assms(1,2)] by (simp_all add: slave_conn_def welcomed_def)
  have "linked (slave_told i c mode m (upd_conn c (\<lambda>_. k) st))" if "next_down (conn c st) = Some (m, k)" for m k
    by (rule linked_slave_told) (use c next_down_Some [OF that] linked_recv_down [OF assms(1) that] in \<open>simp_all add: system_simps\<close>)
  then show ?thesis using assms(1,3) S_wait
    by (auto simp: slave_step.simps slave_head_def linked_ops split: barrier_event.splits option.splits sum.splits)
next
  case (S_answer c)
  then have c: "c < nconns st" "cn_slave (conn c st) = Some i" "c \<in> waits st"
    using linked_pcs [OF assms(1,2)] by (simp_all add: slave_conn_def welcomed_def)
  then have "linked (slave_sends i c m st)" for m using assms(1) by (simp add: linked_slave_sends)
  then show ?thesis using assms(1,3) S_answer c
    by (auto simp: slave_step.simps slave_head_def linked_ops slave_conn_def welcomed_def system_simps
        split: barrier_event.splits sum.splits if_splits intro!: linked_set_spc del: imageE)
next
  case (S_done r)
  then show ?thesis using assms(3) by (simp add: slave_step.simps)
qed

end
