(* ===== verification/Barrier_Release.thy ===== *)
theory Barrier_Release
  imports Barrier_Safety
begin

text \<open>
  What the participants of a barrier say and when the master releases them: everything a participant receives
  was sent, a slave answers \<open>pong\<close> only when it does not abort, the master sends \<open>rlse\<close> only when everyone it
  expects has answered. The invariant \<open>sound\<close> of all runs joins the layers; the properties of the barrier follow.
\<close>

section \<open>What has been said\<close>

abbreviation msent :: "system \<Rightarrow> string list" where "msent st \<equiv> pa_sent (sy_master st)"

definition master_words :: "string set" where
  "master_words = {''wait'', ''!tag'', ''!dup'', ''ping'', ''rlse'', ''abrt''}"

definition busy :: "slave_pc \<Rightarrow> bool" where
  "busy p \<longleftrightarrow> (case p of S_idle \<Rightarrow> False | S_done r \<Rightarrow> False | _ \<Rightarrow> True)"

lemma busy_simps [simp]:
  "busy S_loop" "busy (S_hello c)" "busy (S_reply c)" "busy (S_wait c m)" "busy (S_answer c)" "\<not> busy S_idle" "\<not> busy (S_done r)"
  by (simp_all add: busy_def)

text \<open>A slave knows what the master has sent; it answers \<open>pong\<close> only when it does not abort.\<close>

definition slave_knows :: "nat \<Rightarrow> system \<Rightarrow> bool" where
  "slave_knows i st \<longleftrightarrow> (\<forall>c m. spc i st = S_wait c m \<longrightarrow> m \<in> set (msent st)) \<and>
     (\<forall>c. spc i st = S_answer c \<longrightarrow> ''ping'' \<in> set (msent st)) \<and>
     (spc i st = S_done (Inr ()) \<longrightarrow> b_members (sobj i st) = [] \<or> ''rlse'' \<in> set (msent st)) \<and>
     (spc i st = S_done (Inl BarrierAbortError) \<longrightarrow> ''abrt'' \<in> set (msent st)) \<and>
     (busy (spc i st) \<longrightarrow> b_abort (sobj i st) = pa_abort (slave_at i st) \<and> b_members (sobj i st) \<noteq> []) \<and>
     (''pong'' \<in> set (sent i st) \<longrightarrow> \<not> pa_abort (slave_at i st))"

definition carried :: "nat \<Rightarrow> system \<Rightarrow> bool" where
  "carried c st \<longleftrightarrow> set (cn_down (conn c st)) \<subseteq> set (msent st) \<and>
     (\<forall>m \<in> set (cn_up (conn c st)). \<exists>i. cn_slave (conn c st) = Some i \<and> m \<in> set (sent i st))"

definition heard :: "system \<Rightarrow> bool" where
  "heard st \<longleftrightarrow> set (msent st) \<subseteq> master_words \<and> (\<forall>c < nconns st. carried c st) \<and> (\<forall>i < nslaves st. slave_knows i st)"

lemma heardI:
  assumes "set (msent st) \<subseteq> master_words" "\<And>c. c < nconns st \<Longrightarrow> carried c st" "\<And>i. i < nslaves st \<Longrightarrow> slave_knows i st"
  shows "heard st"
  using assms by (simp add: heard_def)

lemma heardD:
  assumes "heard st"
  shows "set (msent st) \<subseteq> master_words" "c < nconns st \<Longrightarrow> carried c st" "i < nslaves st \<Longrightarrow> slave_knows i st"
  using assms by (auto simp: heard_def)

named_theorems heard_ops \<open>updates that keep what is known\<close>

text \<open>The general rule: the master and the slaves only say more, nothing else reaches a queue or a slave.\<close>

lemma heard_update:
  assumes "heard st" and master: "set (msent st) \<subseteq> set (msent st')" "set (msent st') \<subseteq> master_words"
    and slaves: "nslaves st' = nslaves st" "\<And>i. set (sent i st) \<subseteq> set (sent i st')"
    and conns: "\<And>c. c < nconns st' \<Longrightarrow> c < nconns st \<and> cn_slave (conn c st') = cn_slave (conn c st) \<and>
        set (cn_down (conn c st')) \<subseteq> set (cn_down (conn c st)) \<union> set (msent st') \<and>
        (\<forall>m \<in> set (cn_up (conn c st')). m \<in> set (cn_up (conn c st)) \<or> (\<exists>i. cn_slave (conn c st) = Some i \<and> m \<in> set (sent i st'))) \<or>
        carried c st'"
    and knows: "\<And>i. i < nslaves st \<Longrightarrow> slave_knows i st \<Longrightarrow> slave_knows i st'"
  shows "heard st'"
proof (rule heardI)
  fix c assume c: "c < nconns st'"
  show "carried c st'"
  proof (rule ccontr)
    assume not: "\<not> carried c st'"
    with conns [OF c] have *: "c < nconns st" "cn_slave (conn c st') = cn_slave (conn c st)"
        "set (cn_down (conn c st')) \<subseteq> set (cn_down (conn c st)) \<union> set (msent st')"
        "\<forall>m \<in> set (cn_up (conn c st')). m \<in> set (cn_up (conn c st)) \<or> (\<exists>i. cn_slave (conn c st) = Some i \<and> m \<in> set (sent i st'))"
      by auto
    have "set (cn_down (conn c st)) \<subseteq> set (msent st)" "\<forall>m \<in> set (cn_up (conn c st)). \<exists>i. cn_slave (conn c st) = Some i \<and> m \<in> set (sent i st)"
      using heardD(2) [OF assms(1) *(1)] by (simp_all add: carried_def)
    moreover have "set (cn_down (conn c st')) \<subseteq> set (msent st')" using calculation(1) *(3) master(1) by blast
    moreover have "\<exists>i. cn_slave (conn c st') = Some i \<and> m \<in> set (sent i st')" if "m \<in> set (cn_up (conn c st'))" for m
      using calculation(2) *(4) slaves(2) that unfolding *(2) by blast
    ultimately have "carried c st'" by (simp add: carried_def)
    then show False using not by simp
  qed
qed (use assms heardD(3) [OF assms(1)] in auto)

lemma knows_cong:
  assumes "slave_knows i st" "spc i st' = spc i st" "set (msent st) \<subseteq> set (msent st')" "sent i st' = sent i st"
    "b_members (sobj i st') = b_members (sobj i st)" "b_abort (sobj i st') = b_abort (sobj i st)"
    "pa_abort (slave_at i st') = pa_abort (slave_at i st)"
  shows "slave_knows i st'"
  using assms by (auto simp: slave_knows_def)

lemma heard_same [heard_ops]:
  "heard (set_mpc p st) = heard st" "heard (st\<lparr>sy_now := t\<rparr>) = heard st" "heard (set_master_obj b st) = heard st"
  by (simp_all add: heard_def carried_def slave_knows_def system_simps)

lemma heard_upd_conn:
  assumes "heard st" "c < nconns st \<Longrightarrow> cn_slave (f (conn c st)) = cn_slave (conn c st) \<and>
      set (cn_up (f (conn c st))) \<subseteq> set (cn_up (conn c st)) \<and> set (cn_down (f (conn c st))) \<subseteq> set (cn_down (conn c st))"
  shows "heard (upd_conn c f st)"
proof (rule heard_update [OF assms(1)])
  fix d assume "d < nconns (upd_conn c f st)"
  then show "d < nconns st \<and> cn_slave (conn d (upd_conn c f st)) = cn_slave (conn d st) \<and>
        set (cn_down (conn d (upd_conn c f st))) \<subseteq> set (cn_down (conn d st)) \<union> set (msent (upd_conn c f st)) \<and>
        (\<forall>m \<in> set (cn_up (conn d (upd_conn c f st))). m \<in> set (cn_up (conn d st)) \<or>
          (\<exists>i. cn_slave (conn d st) = Some i \<and> m \<in> set (sent i (upd_conn c f st)))) \<or> carried d (upd_conn c f st)"
    using assms(2) by (auto simp: system_simps)
qed (use heardD(1) [OF assms(1)] in \<open>auto simp: system_simps intro: knows_cong\<close>)

lemma heard_recv_up [heard_ops]: "heard st \<Longrightarrow> next_up (conn c st) = Some (m, k) \<Longrightarrow> heard (upd_conn c (\<lambda>_. k) st)"
  by (rule heard_upd_conn) (auto dest: next_up_Some)

lemma heard_recv_down [heard_ops]: "heard st \<Longrightarrow> next_down (conn c st) = Some (m, k) \<Longrightarrow> heard (upd_conn c (\<lambda>_. k) st)"
  by (rule heard_upd_conn) (auto dest: next_down_Some)

lemma heard_flags [heard_ops]:
  "heard st \<Longrightarrow> heard (upd_conn c (cn_master_closed_update (\<lambda>_. b)) st)"
  "heard st \<Longrightarrow> heard (upd_conn c (cn_slave_closed_update (\<lambda>_. b)) st)"
  "heard st \<Longrightarrow> heard (upd_conn c (cn_accepted_update (\<lambda>_. True)) st)"
  by (rule heard_upd_conn; simp)+

lemma heard_close [heard_ops]:
  assumes "heard st"
  shows "heard (master_waiting_close st)"
  by (rule heard_update [OF assms])
    (use heardD(1) [OF assms] in \<open>auto simp: system_simps split: if_splits intro: knows_cong\<close>)

lemma heard_master_end [heard_ops]: "heard st \<Longrightarrow> heard (master_end r st)"
  by (simp add: master_end_def heard_ops)

lemma heard_checked [heard_ops]: "heard st \<Longrightarrow> heard (checked ns p a st)"
  by (simp add: checked_def heard_ops)

lemma heard_told [heard_ops]: "heard st \<Longrightarrow> heard (told ns a st)"
  by (simp add: told_def heard_ops)

lemma heard_master_turn [heard_ops]: "heard st \<Longrightarrow> heard (master_turn st)"
  by (simp add: master_turn_def Let_def heard_ops)

lemma heard_master_sends [heard_ops]:
  assumes "heard st" "m \<in> master_words"
  shows "heard (master_sends c m st)"
  by (rule heard_update [OF assms(1)])
    (use heardD(1) [OF assms(1)] assms(2) in \<open>auto simp: system_simps intro: knows_cong\<close>)

lemma heard_master_welcome [heard_ops]:
  assumes "heard st"
  shows "heard (master_welcome c intro st)"
proof -
  have "m \<in> master_words" if "master_answer b intro = Rejected m" for b m
    using that by (auto simp: master_answer_def master_words_def split: list.splits if_splits)
  moreover have "''wait'' \<in> master_words" by (simp add: master_words_def)
  ultimately show ?thesis using assms by (auto simp: master_welcome_def Let_def heard_ops split: greeted.splits)
qed

lemma heard_new_conn:
  assumes "heard st" "cn_up k = []" "cn_down k = []"
  shows "heard (st\<lparr>sy_conns := sy_conns st @ [k]\<rparr>)"
  by (rule heard_update [OF assms(1)])
    (use heardD(1) [OF assms(1)] assms(2-) in \<open>auto simp: system_simps nth_append carried_def split: option.splits intro: knows_cong\<close>)

lemma heard_set_spc:
  assumes "heard st" "i < nslaves st \<Longrightarrow> slave_knows i (set_spc i p st)"
  shows "heard (set_spc i p st)"
proof (rule heard_update [OF assms(1)])
  fix j assume "j < nslaves st" "slave_knows j st"
  then show "slave_knows j (set_spc i p st)" using assms(2)
    by (cases "i = j") (auto simp: system_simps intro: knows_cong)
qed (use heardD(1) [OF assms(1)] in \<open>auto simp: system_simps\<close>)

lemma heard_upd_slave:
  assumes "heard st" "i < nslaves st \<Longrightarrow> slave_knows i (upd_slave i f st)"
  shows "heard (upd_slave i f st)"
proof (rule heard_update [OF assms(1)])
  fix j assume "j < nslaves st" "slave_knows j st"
  then show "slave_knows j (upd_slave i f st)" using assms(2)
    by (cases "i = j") (auto simp: system_simps intro: knows_cong)
qed (use heardD(1) [OF assms(1)] in \<open>auto simp: system_simps\<close>)

lemma heard_slave_sends:
  assumes "heard st" "cn_slave (conn c st) = Some i" "i < nslaves st" "m = ''pong'' \<Longrightarrow> \<not> pa_abort (slave_at i st)"
  shows "heard (slave_sends i c m st)"
proof (rule heard_update [OF assms(1)])
  fix j assume "j < nslaves st" "slave_knows j st"
  then show "slave_knows j (slave_sends i c m st)" using assms(4) by (auto simp: slave_knows_def system_simps)
qed (use heardD(1) [OF assms(1)] assms(2,3) in \<open>auto simp: system_simps\<close>)

lemma heard_start_master:
  assumes "heard st" "start_master st = Some st'"
  shows "heard st'"
  using assms(2) by (cases rule: start_master_cases) (simp_all add: heard_ops assms(1))

lemma heard_master_step:
  assumes "heard st" "master_step e st = Some st'"
  shows "heard st'"
proof -
  have "heard (st\<lparr>sy_conns := sy_conns st @ [new_connection\<lparr>cn_accepted := True\<rparr>]\<rparr>)"
    using assms(1) by (rule heard_new_conn) (simp_all add: new_connection_def)
  moreover have "''ping'' \<in> master_words" "''abrt'' \<in> master_words" "''rlse'' \<in> master_words" by (simp_all add: master_words_def)
  ultimately show ?thesis using assms heard_start_master [OF assms(1)]
    by (cases "sy_mpc st") (auto simp: master_step.simps master_head_def master_call_def Let_def heard_ops
        split: barrier_event.splits sum.splits if_splits option.splits)
qed

lemma strip_words: "m \<in> master_words \<Longrightarrow> strip_crlf m = m"
  by (auto simp: master_words_def intro!: strip_plain) (simp_all add: plain_id_def crlf_def)

lemma result_words:
  "slave_result m = Inr () \<longleftrightarrow> m = ''rlse''" "slave_result m = Inl BarrierAbortError \<longleftrightarrow> m = ''abrt''"
  by (simp_all add: slave_result_def)

lemma heard_slave_end:
  assumes "heard st" "i < nslaves st \<Longrightarrow> r = Inr () \<Longrightarrow> b_members (sobj i st) = [] \<or> ''rlse'' \<in> set (msent st)"
    "i < nslaves st \<Longrightarrow> r = Inl BarrierAbortError \<Longrightarrow> ''abrt'' \<in> set (msent st)"
  shows "heard (slave_end i r st)"
proof -
  have "heard (set_spc i (S_done r) st')" if "heard st'" "sy_slaves st' = sy_slaves st" "sy_master st' = sy_master st" for st'
  proof (rule heard_set_spc [OF that(1)])
    have same: "slave_at i st' = slave_at i st" by (simp add: slave_at_def that(2))
    assume "i < nslaves st'"
    then show "slave_knows i (set_spc i (S_done r) st')"
      using heardD(3) [OF that(1), of i] assms(2,3) by (simp add: slave_knows_def system_simps that same)
  qed
  then show ?thesis using assms(1) by (auto simp: slave_end_def heard_ops system_simps split: list.splits)
qed

lemma heard_slave_pc:
  assumes "heard st" "busy p" "busy (spc i st)" "\<And>c m. p = S_wait c m \<Longrightarrow> m \<in> set (msent st)"
    "\<And>c. p = S_answer c \<Longrightarrow> ''ping'' \<in> set (msent st)"
  shows "heard (set_spc i p st)"
proof (rule heard_set_spc [OF assms(1)])
  assume "i < nslaves st"
  then have "slave_knows i st" using heardD(3) [OF assms(1)] by simp
  then show "slave_knows i (set_spc i p st)" using assms(2-)
    by (cases p) (auto simp: slave_knows_def system_simps)
qed

lemma heard_slave_obj:
  assumes "heard st" "b_members (f (sobj i st)) = b_members (sobj i st)" "b_abort (f (sobj i st)) = b_abort (sobj i st)"
  shows "heard (upd_slave i f st)"
proof (rule heard_upd_slave [OF assms(1)])
  assume i: "i < nslaves st"
  show "slave_knows i (upd_slave i f st)"
    by (rule knows_cong [OF heardD(3) [OF assms(1) i]]) (simp_all add: system_simps assms(2,3))
qed

lemma heard_slave_told:
  assumes "heard st" "i < nslaves st" "spc i st = S_wait c mode" "m = [] \<or> m \<in> set (msent st)"
  shows "heard (slave_told i c mode m st)"
proof -
  have words: "mode \<in> set (msent st)" "m \<noteq> [] \<Longrightarrow> strip_crlf m = m"
    using heardD(1,3) [OF assms(1)] assms(2-4) strip_words by (auto simp: slave_knows_def)
  have "heard (slave_end i (slave_result mode) st)"
    by (rule heard_slave_end) (use assms(1) words(1) in \<open>simp_all add: result_words\<close>)
  moreover have pc: "heard (set_spc i p st')" if "heard st'" "busy p" "spc i st' = spc i st" "msent st' = msent st"
      "p = S_answer c \<and> m = ''ping'' \<or> p = S_wait c m" "m \<noteq> []" for p st'
    using that assms(3,4) by (intro heard_slave_pc) auto
  moreover have "heard (upd_slave i (update_timeout t x) st)" for t x
    using assms(1) by (rule heard_slave_obj) simp_all
  ultimately show ?thesis using assms(1,4) words(2)
    by (cases "m = []") (simp_all add: slave_told_def Let_def system_simps)
qed

lemma heard_start_slave:
  assumes "heard st" "i < nslaves st" "spc i st = S_idle" "start_slave i st = Some st'"
  shows "heard st'"
proof -
  have knows: "slave_knows i st" using heardD(3) [OF assms(1,2)] .
  have upd: "heard (set_spc i p (upd_slave i (\<lambda>_. b) st))"
    if "begin_rendezvous (sy_now st) (sy_servers st) (slave_at i st) = Inr b"
      "p = S_loop \<and> b_members b \<noteq> [] \<or> p = S_done (Inr ()) \<and> b_members b = []" for p b
  proof (rule heard_set_spc)
    show "heard (upd_slave i (\<lambda>_. b) st)"
      by (rule heard_upd_slave [OF assms(1)]) (use knows assms(3) in \<open>simp add: slave_knows_def system_simps\<close>)
    show "slave_knows i (set_spc i p (upd_slave i (\<lambda>_. b) st))"
      using knows that(2) assms(2) begin_rendezvous_fields(3) [OF that(1)] by (auto simp: slave_knows_def system_simps)
  qed
  have fail: "heard (set_spc i (S_done (Inl e)) st)" if "e \<noteq> BarrierAbortError" for e
    by (rule heard_set_spc [OF assms(1)]) (use knows that in \<open>simp add: slave_knows_def system_simps\<close>)
  have "e \<noteq> BarrierAbortError" if "begin_rendezvous now servers p = Inl e" for e now servers p
    using that by (auto simp: begin_rendezvous_def rendezvous_def rendezvous_servers_def split: option.splits list.splits)
  then show ?thesis using assms(4) upd fail
    by (auto simp: start_slave_def split: sum.splits if_splits)
qed

lemma remaining_no_abort: "remaining now b = Inl e \<Longrightarrow> e \<noteq> BarrierAbortError"
  by (auto simp: remaining_def Let_def split: option.splits if_splits)

lemma host_no_abort: "get_host_from_id h = Inl e \<Longrightarrow> e \<noteq> BarrierAbortError"
  by (auto simp: get_host_from_id_def split: if_splits)

lemma heard_slave_fails: "heard st \<Longrightarrow> e \<noteq> BarrierAbortError \<Longrightarrow> heard (slave_end i (Inl e) st)"
  by (rule heard_slave_end) auto

lemma heard_slave_drops:
  assumes "heard st" "busy (spc i st)"
  shows "heard (slave_drops i c st)"
  unfolding slave_drops_def
  by (rule heard_slave_pc) (use assms in \<open>simp_all add: heard_ops system_simps\<close>)

lemma heard_slave_step:
  assumes "linked st" "heard st" "i < nslaves st" "slave_step i e st = Some st'"
  shows "heard st'"
proof -
  note pcs = linked_pcs [OF assms(1,3)]
  have ends: "heard (slave_end i (Inl e) st)" if "e \<noteq> BarrierAbortError" for e
    using assms(2) that by (rule heard_slave_fails)
  have head: "heard (slave_end i (Inl e) st)" if "remaining (sy_now st) (sobj i st) = Inl e" for e
    using ends remaining_no_abort [OF that] .
  show ?thesis
  proof (cases "spc i st")
    case S_idle
    then show ?thesis using assms(4) heard_start_slave [OF assms(2,3)] by (auto simp: slave_step.simps split: if_splits)
  next
    case S_loop
    have "heard (st\<lparr>sy_conns := sy_conns st @ [new_connection\<lparr>cn_slave := Some i\<rparr>]\<rparr>)"
      using assms(2) by (rule heard_new_conn) (simp_all add: new_connection_def)
    then have new: "heard (set_spc i (S_hello d) (st\<lparr>sy_conns := sy_conns st @ [new_connection\<lparr>cn_slave := Some i\<rparr>]\<rparr>))" for d
      by (rule heard_slave_pc) (use S_loop in \<open>simp_all add: system_simps\<close>)
    have acc: "heard (set_spc i (S_hello c) (upd_conn c (\<lambda>k. k\<lparr>cn_slave := Some i\<rparr>) st))" if "cn_slave (conn c st) = None" for c
    proof (rule heard_slave_pc)
      show "heard (upd_conn c (\<lambda>k. k\<lparr>cn_slave := Some i\<rparr>) st)"
      proof (rule heard_update [OF assms(2)])
        fix d assume "d < nconns (upd_conn c (\<lambda>k. k\<lparr>cn_slave := Some i\<rparr>) st)"
        then have "carried d st" using heardD(2) [OF assms(2)] by (simp add: system_simps)
        then have "carried d (upd_conn c (\<lambda>k. k\<lparr>cn_slave := Some i\<rparr>) st)" using that by (auto simp: carried_def system_simps)
        then show "d < nconns st \<and> cn_slave (conn d (upd_conn c (\<lambda>k. k\<lparr>cn_slave := Some i\<rparr>) st)) = cn_slave (conn d st) \<and>
            set (cn_down (conn d (upd_conn c (\<lambda>k. k\<lparr>cn_slave := Some i\<rparr>) st))) \<subseteq> set (cn_down (conn d st)) \<union>
              set (msent (upd_conn c (\<lambda>k. k\<lparr>cn_slave := Some i\<rparr>) st)) \<and>
            (\<forall>m \<in> set (cn_up (conn d (upd_conn c (\<lambda>k. k\<lparr>cn_slave := Some i\<rparr>) st))). m \<in> set (cn_up (conn d st)) \<or>
              (\<exists>j. cn_slave (conn d st) = Some j \<and> m \<in> set (sent j (upd_conn c (\<lambda>k. k\<lparr>cn_slave := Some i\<rparr>) st)))) \<or>
            carried d (upd_conn c (\<lambda>k. k\<lparr>cn_slave := Some i\<rparr>) st)" by blast
      qed (use heardD(1) [OF assms(2)] in \<open>auto simp: system_simps intro: knows_cong\<close>)
    qed (use S_loop in \<open>simp_all add: system_simps\<close>)
    show ?thesis using assms(2,4) S_loop new acc ends head
      by (auto simp: slave_step.simps slave_head_def slave_call_def dest: host_no_abort
          split: barrier_event.splits sum.splits if_splits)
  next
    case (S_hello c)
    then have c: "cn_slave (conn c st) = Some i" using pcs by (simp add: slave_conn_def)
    have "greeting (sobj i st) \<noteq> ''pong''" by (rule greeting_not_word) simp
    then have "heard (slave_sends i c (greeting (sobj i st)) st)" using assms(2,3) c by (auto intro: heard_slave_sends)
    then have "heard (set_spc i (S_reply c) (slave_sends i c (greeting (sobj i st)) st))"
      by (rule heard_slave_pc) (use S_hello in \<open>simp_all add: system_simps\<close>)
    then show ?thesis using assms(2,4) S_hello ends heard_slave_drops [OF assms(2), of i c]
      by (auto simp: slave_step.simps split: barrier_event.splits)
  next
    case (S_reply c)
    have "heard (slave_welcomed i c m (upd_conn c (\<lambda>_. k) st))" if n: "next_down (conn c st) = Some (m, k)" for m k
    proof -
      have c: "c < nconns st" using pcs S_reply by (simp add: slave_conn_def)
      have st: "heard (upd_conn c (\<lambda>_. k) st)" using heard_recv_down [OF assms(2) n] .
      show ?thesis
      proof (cases "strip_crlf m = ''wait''")
        case True
        then have "m \<in> set (cn_down (conn c st))" using next_down_Some [OF n] by (auto simp: strip_crlf_def)
        then have "m \<in> set (msent st)" using heardD(2) [OF assms(2) c] by (auto simp: carried_def)
        then have "''wait'' \<in> set (msent st)" using True strip_words heardD(1) [OF assms(2)] by auto
        then have "heard (set_spc i (S_wait c ''wait'')
            (upd_slave i (\<lambda>b. b\<lparr>b_waiting := [(b_hostid b, c)], b_seen := 1\<rparr>) (upd_conn c (\<lambda>_. k) st)))"
          using st S_reply by (intro heard_slave_pc heard_slave_obj) (simp_all add: system_simps)
        then show ?thesis using True by (simp add: slave_welcomed_def)
      next
        case False
        have "heard (slave_drops i c (upd_conn c (\<lambda>_. k) st))"
          by (rule heard_slave_drops) (use st S_reply in \<open>simp_all add: system_simps\<close>)
        then show ?thesis using False by (simp add: slave_welcomed_def)
      qed
    qed
    then show ?thesis using assms(2,4) S_reply ends heard_slave_drops [OF assms(2), of i c]
      by (auto simp: slave_step.simps split: barrier_event.splits option.splits)
  next
    case (S_wait c mode)
    have "heard (slave_told i c mode m (upd_conn c (\<lambda>_. k) st))" if n: "next_down (conn c st) = Some (m, k)" for m k
    proof (rule heard_slave_told)
      have "c < nconns st" using pcs S_wait by (simp add: slave_conn_def)
      then show "m = [] \<or> m \<in> set (msent (upd_conn c (\<lambda>_. k) st))"
        using next_down_Some [OF n] heardD(2) [OF assms(2)] by (auto simp: carried_def system_simps)
    qed (use assms(2,3) S_wait heard_recv_down [OF assms(2) n] in \<open>simp_all add: system_simps\<close>)
    then show ?thesis using assms(4) S_wait ends head
      by (auto simp: slave_step.simps slave_head_def split: barrier_event.splits option.splits sum.splits)
  next
    case (S_answer c)
    then have c: "cn_slave (conn c st) = Some i" "c \<in> waits st" using pcs by (simp_all add: slave_conn_def welcomed_def)
    have knows: "b_abort (sobj i st) = pa_abort (slave_at i st)"
      using heardD(3) [OF assms(2,3)] S_answer by (simp add: slave_knows_def)
    have "heard (set_spc i (S_wait c ''ping'') (slave_sends i c (if b_abort (sobj i st) then ''abrt'' else ''pong'') st))"
      using assms(2,3) c(1) knows S_answer heardD(3) [OF assms(2,3)] by (intro heard_slave_pc heard_slave_sends) (auto simp: system_simps slave_knows_def)
    then show ?thesis using assms(2,4) S_answer ends head
      by (auto simp: slave_step.simps slave_head_def split: barrier_event.splits sum.splits)
  next
    case (S_done r)
    then show ?thesis using assms(4) by (simp add: slave_step.simps)
  qed
qed

section \<open>When the master releases\<close>

definition expected :: "system \<Rightarrow> string list" where
  "expected st = members_of (sy_servers st) (pa_hosts (sy_master st))"

definition present :: "string \<Rightarrow> system \<Rightarrow> bool" where
  "present m st \<longleftrightarrow> (\<exists>i < nslaves st. b_hostid (sobj i st) = m \<and> b_tag (sobj i st) = b_tag (master_obj st) \<and>
     ''pong'' \<in> set (sent i st))"

definition all_here :: "system \<Rightarrow> bool" where
  "all_here st \<longleftrightarrow> \<not> pa_abort (sy_master st) \<and> list_all (\<lambda>m. present m st) (expected st)"

text \<open>Only members of the barrier call with its tag.\<close>

definition invited :: "system \<Rightarrow> bool" where
  "invited st \<longleftrightarrow> (\<forall>i < nslaves st. b_tag (sobj i st) = b_tag (master_obj st) \<longrightarrow> b_hostid (sobj i st) \<in> set (expected st))"

definition undecided :: "system \<Rightarrow> bool" where
  "undecided st \<longleftrightarrow> ''rlse'' \<notin> set (msent st) \<and> ''abrt'' \<notin> set (msent st)"

definition polled :: "string list \<Rightarrow> bool \<Rightarrow> bool \<Rightarrow> system \<Rightarrow> bool" where
  "polled ns p a st \<longleftrightarrow> length (waiting st) = length (expected st) \<and>
     (\<exists>ds. map fst (waiting st) = ds @ ns \<and> (p \<and> \<not> a \<longrightarrow> \<not> pa_abort (sy_master st) \<and> list_all (\<lambda>m. present m st) ds))"

definition phase_ok :: "system \<Rightarrow> bool" where
  "phase_ok st \<longleftrightarrow> (case sy_mpc st of
       M_ping ns p a \<Rightarrow> undecided st \<and> polled ns p a st
     | M_pong ns p a \<Rightarrow> undecided st \<and> polled ns p a st
     | M_release ns a \<Rightarrow> (if a then ''rlse'' \<notin> set (msent st) else ''abrt'' \<notin> set (msent st) \<and> all_here st)
     | M_done r \<Rightarrow> (''rlse'' \<notin> set (msent st) \<or> ''abrt'' \<notin> set (msent st)) \<and> (r = Inr () \<longrightarrow> ''abrt'' \<notin> set (msent st) \<and> (expected st = [] \<or> all_here st)) \<and>
         (r = Inl BarrierAbortError \<longrightarrow> ''rlse'' \<notin> set (msent st))
     | _ \<Rightarrow> undecided st)"

definition serving :: "master_pc \<Rightarrow> bool" where
  "serving p \<longleftrightarrow> (case p of M_idle \<Rightarrow> False | M_done r \<Rightarrow> False | _ \<Rightarrow> True)"

definition verdict :: "system \<Rightarrow> bool" where
  "verdict st \<longleftrightarrow> phase_ok st \<and> (''rlse'' \<in> set (msent st) \<longrightarrow> all_here st) \<and>
     (serving (sy_mpc st) \<longrightarrow> b_abort (master_obj st) = pa_abort (sy_master st) \<and>
       b_members (master_obj st) = expected st \<and> expected st \<noteq> [])"

text \<open>A step of a slave: the master stays as it is and the slaves say more.\<close>

definition said_more :: "system \<Rightarrow> system \<Rightarrow> bool" where
  "said_more st st' \<longleftrightarrow> sy_servers st' = sy_servers st \<and> nslaves st' = nslaves st \<and>
     pa_hosts (sy_master st') = pa_hosts (sy_master st) \<and> pa_abort (sy_master st') = pa_abort (sy_master st) \<and>
     b_tag (master_obj st') = b_tag (master_obj st) \<and>
     (\<forall>j. b_hostid (sobj j st') = b_hostid (sobj j st) \<and> b_tag (sobj j st') = b_tag (sobj j st) \<and>
       pa_abort (slave_at j st') = pa_abort (slave_at j st) \<and> set (sent j st) \<subseteq> set (sent j st'))"

lemma said_more_static:
  assumes "said_more st st'"
  shows "expected st' = expected st" "invited st' = invited st" "present m st \<Longrightarrow> present m st'" "all_here st \<Longrightarrow> all_here st'"
proof -
  show e: "expected st' = expected st" using assms by (simp add: said_more_def expected_def)
  show "invited st' = invited st" using assms by (simp add: invited_def e said_more_def)
  show p: "present m st \<Longrightarrow> present m st'" for m using assms by (fastforce simp: said_more_def present_def)
  show "all_here st \<Longrightarrow> all_here st'" using assms p by (auto simp: all_here_def e said_more_def list_all_iff)
qed

lemma said_more_refl: "said_more st st"
  by (simp add: said_more_def)

lemma said_more_trans: "said_more st st' \<Longrightarrow> said_more st' st'' \<Longrightarrow> said_more st st''"
  by (auto simp: said_more_def)

lemma polled_more: "said_more st st' \<Longrightarrow> waiting st' = waiting st \<Longrightarrow> polled ns p a st \<Longrightarrow> polled ns p a st'"
  unfolding polled_def using said_more_static [of st st'] by (auto simp: said_more_def list_all_iff)

lemma verdict_slave:
  assumes "verdict st" "said_more st st'" "sy_master st' = sy_master st" "sy_mpc st' = sy_mpc st"
  shows "verdict st'"
proof -
  have w: "master_obj st' = master_obj st" using assms(3) by (simp add: master_obj_def)
  note more = said_more_static [OF assms(2)] polled_more [OF assms(2)]
  have "phase_ok st'" using assms(1) more
    by (auto simp: verdict_def phase_ok_def undecided_def assms(3,4) w split: master_pc.splits if_splits)
  then show ?thesis using assms(1) more(1,4) by (auto simp: verdict_def assms(3,4) w)
qed

lemma said_more_slave_step:
  assumes "slave_step i e st = Some st'"
  shows "said_more st st' \<and> sy_master st' = sy_master st \<and> sy_mpc st' = sy_mpc st"
proof -
  have ends: "said_more st (slave_end i r s) \<and> sy_master (slave_end i r s) = sy_master st \<and> sy_mpc (slave_end i r s) = sy_mpc st"
    if "said_more st s \<and> sy_master s = sy_master st \<and> sy_mpc s = sy_mpc st" for r s
    using that by (auto simp: slave_end_def said_more_def system_simps split: list.splits)
  have told: "said_more st (slave_told i c m r s) \<and> sy_master (slave_told i c m r s) = sy_master st \<and> sy_mpc (slave_told i c m r s) = sy_mpc st"
    if "said_more st s \<and> sy_master s = sy_master st \<and> sy_mpc s = sy_mpc st" for c m r s
    using that ends [OF that] by (auto simp: slave_told_def Let_def said_more_def system_simps)
  have start: "said_more st (set_spc i p (upd_slave i (\<lambda>_. b) st))"
    if "begin_rendezvous (sy_now st) (sy_servers st) (slave_at i st) = Inr b" for p b
    using begin_rendezvous_fields [OF that] by (auto simp: said_more_def system_simps)
  show ?thesis
  proof (cases "spc i st")
    case S_idle
    with assms have "start_slave i st = Some st'" by (auto simp: slave_step.simps split: if_splits)
    then show ?thesis
      by (cases rule: start_slave_cases) (simp_all add: start system_simps, simp add: said_more_def system_simps)
  next
    case S_loop
    then show ?thesis using assms ends [of st] said_more_refl [of st]
      by (auto simp: slave_step.simps slave_head_def slave_call_def split: barrier_event.splits sum.splits if_splits)
        (auto simp: said_more_def system_simps)
  next
    case (S_hello c)
    then show ?thesis using assms ends [of st] said_more_refl [of st]
      by (auto simp: slave_step.simps slave_drops_def split: barrier_event.splits) (auto simp: said_more_def system_simps)
  next
    case (S_reply c)
    then show ?thesis using assms ends [of st] said_more_refl [of st]
      by (auto simp: slave_step.simps slave_drops_def slave_welcomed_def split: barrier_event.splits option.splits if_splits)
        (auto simp: said_more_def system_simps)
  next
    case (S_wait c mode)
    have "said_more st (upd_conn c (\<lambda>_. k) st)" for k by (simp add: said_more_def system_simps)
    then show ?thesis using S_wait assms ends [of st] told said_more_refl [of st]
      by (auto simp: slave_step.simps slave_head_def system_simps split: barrier_event.splits option.splits sum.splits)
  next
    case (S_answer c)
    then show ?thesis using assms ends [of st] said_more_refl [of st]
      by (auto simp: slave_step.simps slave_head_def split: barrier_event.splits sum.splits)
        (auto simp: said_more_def system_simps)
  next
    case (S_done r)
    then show ?thesis using assms by (simp add: slave_step.simps)
  qed
qed

text \<open>What is said does not depend on the connections or on where the master stands.\<close>

lemma talk_cong:
  assumes "sy_servers st' = sy_servers st" "sy_master st' = sy_master st" "sy_slaves st' = sy_slaves st"
  shows "expected st' = expected st" "present m st' = present m st" "all_here st' = all_here st" "undecided st' = undecided st"
    "polled ns p a st' = polled ns p a st" "invited st' = invited st" "master_obj st' = master_obj st"
  using assms
  by (simp_all add: expected_def present_def all_here_def undecided_def polled_def invited_def master_obj_def slave_at_def)

lemma talk_updates [system_simps]:
  "expected (set_mpc q st) = expected st" "all_here (set_mpc q st) = all_here st" "undecided (set_mpc q st) = undecided st"
  "polled ns p a (set_mpc q st) = polled ns p a st" "invited (set_mpc q st) = invited st"
  "expected (upd_conn c f st) = expected st" "all_here (upd_conn c f st) = all_here st" "undecided (upd_conn c f st) = undecided st"
  "polled ns p a (upd_conn c f st) = polled ns p a st" "invited (upd_conn c f st) = invited st"
  "expected (master_waiting_close st) = expected st" "all_here (master_waiting_close st) = all_here st"
  "expected (st\<lparr>sy_conns := ks\<rparr>) = expected st" "all_here (st\<lparr>sy_conns := ks\<rparr>) = all_here st" "undecided (st\<lparr>sy_conns := ks\<rparr>) = undecided st"
  by (rule talk_cong; simp add: system_simps)+

lemma talk_master_sends [system_simps]:
  "expected (master_sends c m st) = expected st" "all_here (master_sends c m st) = all_here st"
  "polled ns p a (master_sends c m st) = polled ns p a st" "invited (master_sends c m st) = invited st"
  by (simp_all add: expected_def present_def all_here_def polled_def invited_def system_simps)

lemma expected_master_obj [system_simps]: "expected (set_master_obj b st) = expected st"
  by (simp add: expected_def system_simps)

text \<open>What the master object has to agree with while the master serves.\<close>

definition set_up :: "system \<Rightarrow> bool" where
  "set_up st \<longleftrightarrow> b_abort (master_obj st) = pa_abort (sy_master st) \<and> b_members (master_obj st) = expected st \<and> expected st \<noteq> []"

lemma verdict_iff:
  "verdict st \<longleftrightarrow> phase_ok st \<and> (''rlse'' \<in> set (msent st) \<longrightarrow> all_here st) \<and> (serving (sy_mpc st) \<longrightarrow> set_up st)"
  by (simp add: verdict_def set_up_def)

lemma verdict_end:
  assumes "''rlse'' \<notin> set (msent st) \<or> ''abrt'' \<notin> set (msent st)" "''rlse'' \<in> set (msent st) \<longrightarrow> all_here st"
    and "r = Inr () \<longrightarrow> ''abrt'' \<notin> set (msent st) \<and> (expected st = [] \<or> all_here st)" "r = Inl BarrierAbortError \<longrightarrow> ''rlse'' \<notin> set (msent st)"
  shows "verdict (master_end r st)"
  using assms by (simp add: verdict_def phase_ok_def master_end_def serving_def system_simps)

lemma undecided_end:
  assumes "undecided st" "r = Inr () \<longrightarrow> expected st = [] \<or> all_here st"
  shows "verdict (master_end r st)"
  using assms by (intro verdict_end) (simp_all add: undecided_def)

lemma set_up_read [system_simps]:
  "set_up (set_mpc q st) = set_up st" "set_up (upd_conn c f st) = set_up st" "set_up (master_sends c m st) = set_up st"
  "set_up (st\<lparr>sy_conns := ks\<rparr>) = set_up st"
  by (simp_all add: set_up_def system_simps)

text \<open>When everyone who waits has been checked, everyone expected is there.\<close>

lemma everyone_waits:
  assumes "linked st" "invited st" "length (waiting st) = length (expected st)"
  shows "set (map fst (waiting st)) = set (expected st)"
proof (rule card_subset_eq)
  have "n \<in> set (expected st)" if "(n, c) \<in> set (waiting st)" for n c
  proof -
    have "member_at c n st" using linkedD(4) [OF assms(1) that] by (simp add: entry_ok_def)
    then show ?thesis using assms(2) by (auto simp: member_at_def invited_def)
  qed
  then show sub: "set (map fst (waiting st)) \<subseteq> set (expected st)" by auto
  have "card (set (map fst (waiting st))) = length (map fst (waiting st))"
    using linkedD(2) [OF assms(1)] by (rule distinct_card)
  then have "card (set (map fst (waiting st))) = length (expected st)" by (simp add: assms(3))
  moreover have "card (set (expected st)) \<le> length (expected st)" by (rule card_length)
  moreover have "card (set (map fst (waiting st))) \<le> card (set (expected st))" using sub by (intro card_mono) auto
  ultimately show "card (set (map fst (waiting st))) = card (set (expected st))" by simp
qed simp

lemma verdict_checked:
  assumes "linked st" "invited st" "undecided st" "set_up st" "polled ns p a st"
  shows "verdict (checked ns p a st)"
proof (cases "ns = [] \<and> p \<and> waiting st \<noteq> []")
  case True
  have "all_here st" if "\<not> a"
  proof -
    have all: "length (waiting st) = length (expected st)" "\<not> pa_abort (sy_master st)" "list_all (\<lambda>m. present m st) (map fst (waiting st))"
      using assms(5) True that by (auto simp: polled_def)
    have "\<forall>m \<in> set (map fst (waiting st)). present m st" using all(3) by (simp only: list_all_iff)
    then have "\<forall>m \<in> set (expected st). present m st" by (simp only: everyone_waits [OF assms(1,2) all(1)])
    then show ?thesis using all(2) by (simp add: all_here_def list_all_iff)
  qed
  then show ?thesis using True assms(3,4)
    by (auto simp: checked_def verdict_iff phase_ok_def undecided_def system_simps)
next
  case False
  have some: "waiting st \<noteq> []" using assms(4,5) by (auto simp: polled_def set_up_def)
  have lost: "verdict (master_end (Inl e) st)" for e using assms(3) by (simp add: undecided_end)
  show ?thesis
  proof (cases "ns = []")
    case True
    with False some have "\<not> p" by simp
    with True show ?thesis by (simp add: checked_def lost)
  next
    case False
    then show ?thesis using assms(3-5) by (simp add: checked_def verdict_iff phase_ok_def undecided_def system_simps)
  qed
qed

lemma verdict_turn:
  assumes "linked st" "invited st" "undecided st" "set_up st"
  shows "verdict (master_turn st)"
proof (cases "b_seen (master_obj st) = length (b_members (master_obj st))")
  case True
  have "polled (map fst (waiting st)) True (b_abort (master_obj st)) st"
    using True assms(4) linkedD(3) [OF assms(1)] by (simp add: polled_def set_up_def)
  with True verdict_checked [OF assms] show ?thesis by (simp add: master_turn_def Let_def)
next
  case False
  with assms(3,4) show ?thesis by (simp add: master_turn_def Let_def verdict_iff phase_ok_def undecided_def system_simps)
qed

lemma verdict_told:
  assumes "if a then ''rlse'' \<notin> set (msent st) else ''abrt'' \<notin> set (msent st) \<and> all_here st" "set_up st"
  shows "verdict (told ns a st)"
proof (cases "ns = []")
  case True
  have "verdict (master_end (if a then Inl BarrierAbortError else Inr ()) st)"
    using assms(1) by (intro verdict_end) (auto split: if_splits)
  then show ?thesis using True by (simp add: told_def)
next
  case False
  then show ?thesis using assms by (auto simp: told_def verdict_iff phase_ok_def system_simps split: if_splits)
qed

lemma polled_next:
  assumes "polled (n # ns) p a st" "p' \<and> \<not> a' \<Longrightarrow> p \<and> \<not> a \<and> present n st"
  shows "polled ns p' a' st"
proof -
  from assms(1) obtain ds where ds: "map fst (waiting st) = ds @ n # ns"
      "p \<and> \<not> a \<longrightarrow> \<not> pa_abort (sy_master st) \<and> list_all (\<lambda>m. present m st) ds" "length (waiting st) = length (expected st)"
    unfolding polled_def by blast
  have "map fst (waiting st) = (ds @ [n]) @ ns" using ds(1) by simp
  moreover have "p' \<and> \<not> a' \<longrightarrow> \<not> pa_abort (sy_master st) \<and> list_all (\<lambda>m. present m st) (ds @ [n])"
    using ds(2) assms(2) by simp
  ultimately show ?thesis using ds(3) unfolding polled_def by blast
qed

lemma pong_is_present:
  assumes "linked st" "heard st" "n \<in> fst ` set (waiting st)" "''pong'' \<in> set (cn_up (conn (waiting_conn st n) st))"
  shows "present n st"
proof -
  from waiting_conn [OF assms(1,3)] obtain i where i: "cn_slave (conn (waiting_conn st n) st) = Some i" "i < nslaves st"
      "b_hostid (sobj i st) = n" "b_tag (sobj i st) = b_tag (master_obj st)" "waiting_conn st n < nconns st"
    by (auto simp: member_at_def)
  then have "''pong'' \<in> set (sent i st)" using heardD(2) [OF assms(2) i(5)] assms(4) by (auto simp: carried_def)
  then show ?thesis using i by (auto simp: present_def)
qed

lemma said_more_master:
  assumes "master_step e st = Some st'"
  shows "said_more st st'"
proof -
  have sends: "said_more st (master_sends c m s)" "said_more st (upd_conn c f s)" "said_more st (set_mpc q s)"
      "said_more st (master_waiting_close s)" "said_more st (s\<lparr>sy_conns := ks\<rparr>)"
    if "said_more st s" for c m s f q ks
    using that by (simp_all add: said_more_def system_simps)
  have obj: "said_more st (set_master_obj b s)" if "said_more st s" "b_tag b = b_tag (master_obj s)" for b s
    using that by (simp add: said_more_def system_simps)
  have ops: "said_more st (master_end r s)" "said_more st (checked ns p a s)" "said_more st (told ns a s)"
      "said_more st (master_turn s)" "said_more st (master_welcome c intro s)"
    if "said_more st s" for r s ns p a c intro
    using that sends obj
    by (simp_all add: master_end_def checked_def told_def master_turn_def master_welcome_def Let_def system_simps split: greeted.split)
  have start: "said_more st st'" if "start_master st = Some st'"
    using that begin_rendezvous_fields
    by (cases rule: start_master_cases) (auto intro!: sends obj said_more_refl simp: master_obj_def)
  show ?thesis using assms start
    by (cases "sy_mpc st") (auto simp: master_step.simps master_head_def master_call_def Let_def
        split: barrier_event.splits sum.splits if_splits option.splits intro!: sends ops said_more_refl)
qed

lemma talk_master_welcome:
  "expected (master_welcome c m st) = expected st" "invited (master_welcome c m st) = invited st"
  "set_up (master_welcome c m st) = set_up st" "undecided st \<Longrightarrow> undecided (master_welcome c m st)"
proof -
  have word: "r = ''!tag'' \<or> r = ''!dup''" if "master_answer b m = Rejected r" for b r
    using that by (auto simp: master_answer_def split: list.splits if_splits)
  show e: "expected (master_welcome c m st) = expected st"
    by (simp add: expected_def master_welcome_def Let_def system_simps split: greeted.split)
  show "invited (master_welcome c m st) = invited st"
    by (simp add: invited_def expected_def master_welcome_def Let_def system_simps split: greeted.split)
  show "set_up (master_welcome c m st) = set_up st"
    by (simp add: set_up_def expected_def master_welcome_def Let_def system_simps split: greeted.split)
  show "undecided st \<Longrightarrow> undecided (master_welcome c m st)"
    using word by (auto simp: undecided_def master_welcome_def Let_def system_simps split: greeted.split)
qed

lemma verdict_start_master:
  assumes "undecided st" "start_master st = Some st'"
  shows "verdict st'"
  using assms(2)
proof (cases rule: start_master_cases)
  case (1 e)
  then show ?thesis using assms(1) by (simp add: verdict_iff phase_ok_def undecided_def serving_def system_simps)
next
  case (2 b)
  have "expected st = []" using begin_rendezvous_fields(4) [OF 2(1)] 2(2) by (simp add: expected_def)
  then show ?thesis using 2(3) assms(1) by (simp add: verdict_iff phase_ok_def undecided_def serving_def system_simps)
next
  case (3 b)
  have "set_up (set_master_obj b st)" using begin_rendezvous_fields(3,4) [OF 3(1)] 3(2) by (simp add: set_up_def expected_def system_simps)
  then show ?thesis using 3(4) assms(1) by (simp add: verdict_iff phase_ok_def undecided_def serving_def system_simps)
qed

lemma verdict_master_step:
  assumes "linked st" "heard st" "master_ok st" "invited st" "verdict st" "master_step e st = Some st'"
  shows "verdict st'"
proof (cases "sy_mpc st")
  case M_idle
  then have "undecided st" "start_master st = Some st'"
    using assms(5,6) by (simp_all add: master_step.simps verdict_iff phase_ok_def split: if_splits)
  then show ?thesis by (rule verdict_start_master)
next
  case M_loop
  then have st: "undecided st" "set_up st" using assms(5) by (simp_all add: verdict_iff phase_ok_def serving_def)
  have stop: "verdict (master_end (Inl err) st)" for err using st(1) by (simp add: undecided_end)
  have go: "verdict (set_mpc (M_welcome c) st2)" if "undecided st2" "set_up st2" for c st2
    using that by (simp add: verdict_iff phase_ok_def undecided_def system_simps)
  show ?thesis using assms(6) M_loop verdict_turn [OF assms(1,4) st] stop go st
    by (auto simp: master_step.simps master_head_def master_call_def Let_def system_simps
        split: barrier_event.splits sum.splits if_splits)
next
  case (M_welcome c)
  then have st: "undecided st" "set_up st" using assms(5) by (simp_all add: verdict_iff phase_ok_def serving_def)
  have c: "c < nconns st" "cn_accepted (conn c st)" "c \<notin> waits st" using M_welcome assms(3) by (simp_all add: master_ok_def)
  have "verdict (master_turn (master_welcome c m (upd_conn c (\<lambda>_. k) st)))" if n: "next_up (conn c st) = Some (m, k)" for m k
  proof (rule verdict_turn)
    show "linked (master_welcome c m (upd_conn c (\<lambda>_. k) st))"
      using c next_up_Some [OF n] greeted_up [OF assms(1) c(1,3) n] linked_recv_up [OF assms(1) n]
      by (intro linked_master_welcome) (simp_all add: system_simps)
  qed (use assms(4) st in \<open>simp_all add: talk_master_welcome system_simps\<close>)
  moreover have "verdict (master_turn (upd_conn c (\<lambda>k. k\<lparr>cn_master_closed := True\<rparr>) st))"
    by (rule verdict_turn) (use assms(1,4) st in \<open>simp_all add: linked_ops system_simps\<close>)
  moreover have "verdict (master_end (Inl err) st)" for err using st(1) by (simp add: undecided_end)
  ultimately show ?thesis using assms(6) M_welcome
    by (auto simp: master_step.simps split: barrier_event.splits option.splits)
next
  case (M_ping names p a)
  then have st: "undecided st" "set_up st" "polled names p a st" and names: "names \<noteq> []"
    using assms(3,5) by (simp_all add: verdict_iff phase_ok_def serving_def master_ok_def)
  have "polled (tl names) False a st" using st(3) names by (cases names) (auto intro: polled_next)
  with verdict_checked [OF assms(1,4) st(1,2)] have "verdict (checked (tl names) False a st)" by simp
  moreover have "verdict (set_mpc (M_pong names p a) (master_sends (waiting_conn st (hd names)) ''ping'' st))"
    using st by (simp add: verdict_iff phase_ok_def undecided_def system_simps)
  moreover have "verdict (master_end (Inl err) st)" for err using st(1) by (simp add: undecided_end)
  ultimately show ?thesis using assms(6) M_ping by (auto simp: master_step.simps split: barrier_event.splits)
next
  case (M_pong names p a)
  then have st: "undecided st" "set_up st" "polled names p a st" and names: "names \<noteq> []" "hd names \<in> fst ` set (waiting st)"
    using assms(3,5) by (auto simp: verdict_iff phase_ok_def serving_def master_ok_def)
  then obtain n ns where ns: "names = n # ns" by (cases names) auto
  have "polled ns False a st" using st(3) ns by (auto intro: polled_next)
  with verdict_checked [OF assms(1,4) st(1,2)] have "verdict (checked ns False a st)" by simp
  moreover have "verdict (checked ns (p \<and> (m = ''abrt'' \<or> m = ''pong'')) (a \<or> m = ''abrt'') (upd_conn (waiting_conn st n) (\<lambda>_. k) st))"
    if nx: "next_up (conn (waiting_conn st n) st) = Some (m, k)" for m k
  proof (rule verdict_checked)
    have "present n st" if "m = ''pong''"
      using pong_is_present [OF assms(1,2), of n] next_up_Some [OF nx] names(2) ns that by auto
    then have "polled ns (p \<and> (m = ''abrt'' \<or> m = ''pong'')) (a \<or> m = ''abrt'') st"
      using st(3) ns by (auto intro: polled_next)
    then show "polled ns (p \<and> (m = ''abrt'' \<or> m = ''pong'')) (a \<or> m = ''abrt'') (upd_conn (waiting_conn st n) (\<lambda>_. k) st)"
      by (simp add: system_simps)
  qed (use assms(4) st linked_recv_up [OF assms(1) nx] in \<open>simp_all add: system_simps\<close>)
  moreover have "verdict (master_end (Inl err) st)" for err using st(1) by (simp add: undecided_end)
  ultimately show ?thesis using assms(6) M_pong ns
    by (auto simp: master_step.simps split: barrier_event.splits option.splits)
next
  case (M_release names a)
  then have st: "if a then ''rlse'' \<notin> set (msent st) else ''abrt'' \<notin> set (msent st) \<and> all_here st" "set_up st"
      "''rlse'' \<in> set (msent st) \<longrightarrow> all_here st"
    using assms(5) by (simp_all add: verdict_iff phase_ok_def serving_def)
  have "verdict (told (tl names) a (master_sends c (if a then ''abrt'' else ''rlse'') st))" for c
    by (rule verdict_told) (use st in \<open>auto simp: system_simps split: if_splits\<close>)
  moreover have "verdict (told (tl names) a st)" by (rule verdict_told) (use st in simp_all)
  moreover have "verdict (master_end (Inl SocketError) st)"
    by (rule verdict_end) (use st in \<open>auto split: if_splits\<close>)
  ultimately show ?thesis using assms(6) M_release by (auto simp: master_step.simps split: barrier_event.splits)
next
  case (M_done r)
  then show ?thesis using assms(6) by (simp add: master_step.simps)
qed

section \<open>Every run\<close>

definition initial :: "system \<Rightarrow> bool" where
  "initial st \<longleftrightarrow> sy_mpc st = M_idle \<and> sy_conns st = [] \<and> msent st = [] \<and>
     waiting st = [] \<and> b_seen (master_obj st) = 0 \<and>
     list_all (\<lambda>(p, q). q = S_idle \<and> pa_sent p = [] \<and> plain_id (b_tag (pa_obj p)) \<and> plain_id (b_hostid (pa_obj p))) (sy_slaves st)"

definition sound :: "system \<Rightarrow> bool" where
  "sound st \<longleftrightarrow> linked st \<and> heard st \<and> master_ok st \<and> fresh_master st \<and> invited st \<and> verdict st"

lemma initial_sound:
  assumes "initial st" "invited st"
  shows "sound st"
proof -
  have pcs: "sy_mpc st = M_idle" "nconns st = 0" "msent st = []" "waiting st = []" "b_seen (master_obj st) = 0"
    using assms(1) by (simp_all add: initial_def)
  have slaves: "spc i st = S_idle \<and> sent i st = [] \<and> plain_id (b_tag (sobj i st)) \<and> plain_id (b_hostid (sobj i st))"
    if "i < nslaves st" for i
    using assms(1) nth_mem [OF that] by (fastforce simp: initial_def list_all_iff slave_at_def spc_def)
  have "linked st" by (rule linkedI) (use pcs slaves in \<open>auto simp: slave_ok_def slave_conn_def\<close>)
  moreover have "heard st" by (rule heardI) (use pcs slaves in \<open>auto simp: slave_knows_def\<close>)
  moreover have "verdict st" using pcs by (simp add: verdict_def phase_ok_def undecided_def serving_def)
  ultimately show ?thesis using pcs assms(2) by (simp add: sound_def master_ok_def fresh_master_def)
qed

text \<open>A slave never takes back what the master has accepted.\<close>

definition accepts_more :: "system \<Rightarrow> system \<Rightarrow> bool" where
  "accepts_more st st' \<longleftrightarrow> nconns st \<le> nconns st' \<and>
     (\<forall>c < nconns st. cn_accepted (conn c st) \<longrightarrow> cn_accepted (conn c st'))"

named_theorems accepts_ops \<open>updates that keep what is accepted\<close>

lemma accepts_refl [accepts_ops]: "accepts_more st st"
  by (simp add: accepts_more_def)

lemma accepts_conn [accepts_ops]:
  "accepts_more st s \<Longrightarrow> (\<And>k. cn_accepted k \<Longrightarrow> cn_accepted (f k)) \<Longrightarrow> accepts_more st (upd_conn c f s)"
  by (simp add: accepts_more_def system_simps)

lemma accepts_recv [accepts_ops]:
  "next_down (conn c st) = Some (m, k) \<Longrightarrow> accepts_more st (upd_conn c (\<lambda>_. k) st)"
  using next_down_Some [of "conn c st" m k] by (auto simp: accepts_more_def system_simps)

lemma accepts_slave [accepts_ops]:
  "accepts_more st s \<Longrightarrow> accepts_more st (set_spc i p s)" "accepts_more st s \<Longrightarrow> accepts_more st (upd_slave i f s)"
  "accepts_more st s \<Longrightarrow> accepts_more st (slave_sends i c m s)"
  "accepts_more st s \<Longrightarrow> accepts_more st (s\<lparr>sy_conns := sy_conns s @ [k]\<rparr>)"
  by (auto simp: accepts_more_def system_simps nth_append)

lemma accepts_ends [accepts_ops]:
  "accepts_more st s \<Longrightarrow> accepts_more st (slave_end i r s)" "accepts_more st s \<Longrightarrow> accepts_more st (slave_drops i c s)"
  by (auto simp: slave_end_def slave_drops_def intro!: accepts_ops split: list.splits)

lemma accepts_replies [accepts_ops]:
  "accepts_more st s \<Longrightarrow> accepts_more st (slave_welcomed i c m s)" "accepts_more st s \<Longrightarrow> accepts_more st (slave_told i c mode m s)"
  by (auto simp: slave_welcomed_def slave_told_def Let_def intro!: accepts_ops)

lemma accepts_slave_step:
  assumes "slave_step i e st = Some st'"
  shows "accepts_more st st'"
proof -
  have "accepts_more st st'" if "start_slave i st = Some st'" for st'
    using that by (cases rule: start_slave_cases) (auto intro!: accepts_ops)
  then show ?thesis using assms
    by (cases "spc i st") (auto simp: slave_step.simps slave_head_def slave_call_def intro!: accepts_ops
        split: barrier_event.splits sum.splits if_splits option.splits)
qed

lemma busy_master_end: "sy_mpc (master_end r st) = M_done r"
  by (simp add: master_end_def system_simps)

lemma master_leaves_idle:
  assumes "master_step e st = Some st'"
  shows "sy_mpc st' \<noteq> M_idle"
proof -
  have ops: "sy_mpc (checked ns p a s) \<noteq> M_idle" "sy_mpc (told ns a s) \<noteq> M_idle" "sy_mpc (master_turn s) \<noteq> M_idle" for ns p a s
    by (simp_all add: checked_def told_def master_turn_def Let_def busy_master_end system_simps)
  have start: "sy_mpc st' \<noteq> M_idle" if "start_master st = Some st'"
    using that by (cases rule: start_master_cases) (simp_all add: system_simps)
  show ?thesis using assms ops start
    by (cases "sy_mpc st") (auto simp: master_step.simps master_head_def master_call_def Let_def busy_master_end system_simps
        split: barrier_event.splits sum.splits if_splits option.splits)
qed

lemma sound_master_step:
  assumes "sound st" "master_step e st = Some st'"
  shows "sound st'"
proof -
  have "linked st' \<and> master_ok st'" using assms by (intro linked_master_step) (auto simp: sound_def)
  moreover have "heard st'" "verdict st'"
    using assms heard_master_step verdict_master_step unfolding sound_def by blast+
  moreover have "invited st'" using assms said_more_static(2) [OF said_more_master [OF assms(2)]] by (simp add: sound_def)
  ultimately show ?thesis using master_leaves_idle [OF assms(2)] by (simp add: sound_def fresh_master_def)
qed

lemma sound_slave_step:
  assumes "sound st" "i < nslaves st" "slave_step i e st = Some st'"
  shows "sound st'"
proof -
  have same: "said_more st st'" "sy_master st' = sy_master st" "sy_mpc st' = sy_mpc st"
    using said_more_slave_step [OF assms(3)] by simp_all
  then have w: "master_obj st' = master_obj st" by (simp add: master_obj_def)
  have "linked st'" "heard st'"
    using assms linked_slave_step heard_slave_step unfolding sound_def by blast+
  moreover have "master_ok st'"
  proof (rule master_ok_mono)
    show "nconns st \<le> nconns st'" "\<And>c. c < nconns st \<Longrightarrow> cn_accepted (conn c st) \<Longrightarrow> cn_accepted (conn c st')"
      using accepts_slave_step [OF assms(3)] by (simp_all add: accepts_more_def)
  qed (use assms(1) same w in \<open>simp_all add: sound_def\<close>)
  moreover have "verdict st'" using verdict_slave [OF _ same] assms(1) by (simp add: sound_def)
  moreover have "invited st'" using said_more_static(2) [OF same(1)] assms(1) by (simp add: sound_def)
  ultimately show ?thesis using assms(1) same w by (simp add: sound_def fresh_master_def)
qed

lemma sound_step:
  assumes "sound st" "barrier_step e st = Some st'"
  shows "sound st'"
proof (cases "event_slave e")
  case None
  have clock: "sound (st\<lparr>sy_now := t\<rparr>)" for t
  proof -
    have "linked (st\<lparr>sy_now := t\<rparr>)" "heard (st\<lparr>sy_now := t\<rparr>)" using assms(1) by (simp_all add: sound_def linked_ops heard_ops)
    moreover have "verdict (st\<lparr>sy_now := t\<rparr>)"
      by (rule verdict_slave [of st]) (use assms(1) in \<open>simp_all add: sound_def said_more_def system_simps\<close>)
    moreover have "invited (st\<lparr>sy_now := t\<rparr>)" using assms(1) by (simp add: sound_def invited_def expected_def system_simps)
    moreover have "master_ok (st\<lparr>sy_now := t\<rparr>)"
      by (rule master_ok_mono [of st]) (use assms(1) in \<open>simp_all add: sound_def system_simps\<close>)
    ultimately show ?thesis using assms(1)
      by (simp add: sound_def fresh_master_def system_simps)
  qed
  show ?thesis using assms None clock sound_master_step [of st e st']
    by (cases e) (auto simp: barrier_step_def)
next
  case (Some i)
  then have "i < nslaves st \<and> slave_step i e st = Some st'"
    using assms(2) by (cases e) (simp_all add: barrier_step_def split: if_splits)
  then show ?thesis using sound_slave_step [OF assms(1)] by blast
qed

lemma sound_run: "run_events es st = Some st' \<Longrightarrow> sound st \<Longrightarrow> sound st'"
proof (induction es arbitrary: st)
  case (Cons e es)
  then show ?case by (auto split: option.splits dest: sound_step)
qed simp

text \<open>A participant has returned from a rendezvous with others.\<close>

definition released :: "system \<Rightarrow> bool" where
  "released st \<longleftrightarrow> sy_mpc st = M_done (Inr ()) \<and> expected st \<noteq> [] \<or>
     list_ex (\<lambda>(p, q). q = S_done (Inr ()) \<and> b_members (pa_obj p) \<noteq> []) (sy_slaves st)"

definition aborted :: "system \<Rightarrow> bool" where
  "aborted st \<longleftrightarrow> sy_mpc st = M_done (Inl BarrierAbortError) \<or>
     list_ex (\<lambda>(p, q). q = S_done (Inl BarrierAbortError)) (sy_slaves st)"

lemma slave_list_ex: "list_ex P (sy_slaves st) \<longleftrightarrow> (\<exists>i < nslaves st. P (slave_at i st, spc i st))"
  by (simp add: list_ex_length slave_at_def spc_def)

lemma released_all_here:
  assumes "sound st" "released st"
  shows "all_here st"
proof -
  have v: "phase_ok st" "''rlse'' \<in> set (msent st) \<longrightarrow> all_here st" and h: "heard st"
    using assms(1) by (simp_all add: sound_def verdict_iff)
  have "all_here st" if "i < nslaves st" "spc i st = S_done (Inr ())" "b_members (sobj i st) \<noteq> []" for i
    using heardD(3) [OF h that(1)] that(2,3) v(2) by (simp add: slave_knows_def)
  moreover have "all_here st" if "sy_mpc st = M_done (Inr ())" "expected st \<noteq> []"
    using v(1) that by (simp add: phase_ok_def)
  ultimately show ?thesis using assms(2) by (auto simp: released_def slave_list_ex)
qed

lemma present_willing: "heard st \<Longrightarrow> present m st \<Longrightarrow>
    \<exists>i < nslaves st. b_hostid (sobj i st) = m \<and> ''pong'' \<in> set (sent i st) \<and> \<not> pa_abort (slave_at i st)"
  using heardD(3) by (auto simp: present_def slave_knows_def)

lemma not_both:
  assumes "sound st" "released st"
  shows "\<not> aborted st"
proof
  assume a: "aborted st"
  have v: "phase_ok st" and h: "heard st" using assms(1) by (simp_all add: sound_def verdict_iff)
  have rlse: "''rlse'' \<in> set (msent st)" if "i < nslaves st" "spc i st = S_done (Inr ())" "b_members (sobj i st) \<noteq> []" for i
    using heardD(3) [OF h that(1)] that(2,3) by (simp add: slave_knows_def)
  have abrt: "''abrt'' \<in> set (msent st)" if "i < nslaves st" "spc i st = S_done (Inl BarrierAbortError)" for i
    using heardD(3) [OF h that(1)] that(2) by (simp add: slave_knows_def)
  have one: "''rlse'' \<notin> set (msent st) \<or> ''abrt'' \<notin> set (msent st)"
    using v by (auto simp: phase_ok_def undecided_def split: master_pc.splits if_splits)
  consider "sy_mpc st = M_done (Inr ())" | "''rlse'' \<in> set (msent st)"
    using assms(2) rlse by (auto simp: released_def slave_list_ex)
  then show False
  proof cases
    case 1
    then have "''abrt'' \<notin> set (msent st)" using v by (simp add: phase_ok_def)
    with 1 a abrt show False by (auto simp: aborted_def slave_list_ex)
  next
    case 2
    then have "sy_mpc st \<noteq> M_done (Inl BarrierAbortError)" using v by (auto simp: phase_ok_def)
    with 2 one a abrt show False by (auto simp: aborted_def slave_list_ex)
  qed
qed

section \<open>Properties\<close>

definition the_barrier :: "string \<Rightarrow> string \<Rightarrow> barrier" where
  "the_barrier name tag = (case barrier_init name tag (Some 120) None None of Inr b \<Rightarrow> b)"

definition caller :: "string \<Rightarrow> string \<Rightarrow> string list \<Rightarrow> bool \<Rightarrow> participant" where
  "caller name tag hosts abort = \<lparr>pa_obj = the_barrier name tag, pa_hosts = hosts, pa_abort = abort, pa_sent = []\<rparr>"

definition two_slaves :: "string \<Rightarrow> bool \<Rightarrow> system" where
  "two_slaves other abort = (let hs = [''b'', ''a'', ''c''] in
     \<lparr>sy_now = 0, sy_servers = None, sy_master = caller ''a'' ''T'' hs False, sy_mpc = M_idle,
       sy_slaves = [(caller ''b'' ''T'' hs False, S_idle), (caller other ''T'' hs abort, S_idle)], sy_conns = []\<rparr>)"

definition meeting :: "barrier_event list" where
  "meeting = [Start_slave 0, Retry_slave 0, Start_master, Connect_slave 0, Put_slave 0, Accept_master 0, Got_master,
     Got_slave 0, Start_slave 1, Connect_slave 1, Put_slave 1, Accept_master 1, Got_master, Got_slave 1,
     Put_master, Got_slave 0, Put_slave 0, Got_master, Put_master, Got_slave 1, Put_slave 1, Got_master,
     Put_master, Put_master, Got_slave 0, Got_slave 0, Got_slave 1, Got_slave 1]"

lemma meeting_runs:
  "run_events meeting (two_slaves ''c'' False) = Some (the (run_events meeting (two_slaves ''c'' False)))"
  "released (the (run_events meeting (two_slaves ''c'' False)))" "\<not> aborted (the (run_events meeting (two_slaves ''c'' False)))"
  "expected (the (run_events meeting (two_slaves ''c'' False))) = [''b'', ''c'']"
  by code_simp+

lemma meeting_aborts:
  "run_events meeting (two_slaves ''c'' True) = Some (the (run_events meeting (two_slaves ''c'' True)))"
  "aborted (the (run_events meeting (two_slaves ''c'' True)))" "\<not> released (the (run_events meeting (two_slaves ''c'' True)))"
  by code_simp+

lemma meeting_starts: "initial (two_slaves c a)" if "plain_id c"
  using that by (simp add: initial_def two_slaves_def caller_def the_barrier_def barrier_init_def Let_def plain_id_def crlf_def system_simps master_obj_def)

lemma meeting_invited: "invited (two_slaves ''c'' False)" "invited (two_slaves ''c'' True)"
  by code_simp+

text \<open>
  A slave that is no member of the barrier is counted as one: the master checks the tag and that the name is
  new, not that it is among the members. Here x takes the place of c, and b returns without c.
\<close>

lemma stranger_counts:
  "\<exists>st. run_events meeting (two_slaves ''x'' False) = Some st \<and> released st \<and> expected st = [''b'', ''c''] \<and> \<not> present ''c'' st"
proof -
  have "case run_events meeting (two_slaves ''x'' False) of None \<Rightarrow> False
      | Some st \<Rightarrow> released st \<and> expected st = [''b'', ''c''] \<and> \<not> present ''c'' st" by code_simp
  then show ?thesis by (auto split: option.splits)
qed

text \<open>
  C5 (safety): a rendezvous that only its members join holds every participant until all are there. Nobody but
  the members calls with the tag of the barrier (\<open>invited\<close>): a stranger that has the tag is counted as one of them
  and breaks the property, see \<open>stranger_counts\<close>. Then in every run of the master and the
  slaves, whatever the order of their calls, messages, timeouts and errors: once a slave or the master has returned normally from a rendezvous with others,
  the master did not ask to abort, and every member it expects has answered its ping, by \<open>pong\<close>, and did not
  ask to abort either.
\<close>

theorem barrier_waits_for_all:
  assumes "initial st0" "invited st0" "run_events es st0 = Some st" "released st" "m \<in> set (expected st)"
  shows "\<not> pa_abort (sy_master st) \<and>
    (\<exists>i < length (sy_slaves st). b_hostid (pa_obj (slave_at i st)) = m \<and> ''pong'' \<in> set (pa_sent (slave_at i st)) \<and>
       \<not> pa_abort (slave_at i st))"
proof -
  have st: "sound st" using sound_run [OF assms(3) initial_sound [OF assms(1,2)]] .
  then have "all_here st" using assms(4) by (rule released_all_here)
  then show ?thesis using present_willing [of st m] assms(5) st by (simp add: all_here_def list_all_iff sound_def)
qed

theorem barrier_waits_for_all_witness:
  "let st = the (run_events meeting (two_slaves ''c'' False)) in
     \<exists>i < length (sy_slaves st). b_hostid (pa_obj (slave_at i st)) = ''c'' \<and> ''pong'' \<in> set (pa_sent (slave_at i st))"
  using barrier_waits_for_all [OF meeting_starts meeting_invited(1) meeting_runs(1,2), of "''c''"] meeting_runs(4)
  by (auto simp: Let_def plain_id_def crlf_def)

text \<open>
  C6 (safety): the participants agree, when nobody but the members calls with the tag. In no run does one participant return normally from a rendezvous with
  others while another, or the master, ends with
  \<open>BarrierAbortError\<close>.
\<close>

theorem barrier_agrees:
  assumes "initial st0" "invited st0" "run_events es st0 = Some st" "released st"
  shows "\<not> aborted st"
  by (rule not_both [OF sound_run [OF assms(3) initial_sound [OF assms(1,2)]] assms(4)])

theorem barrier_agrees_witness:
  "let st = the (run_events meeting (two_slaves ''c'' False)) in released st \<and> \<not> aborted st"
  using barrier_agrees [OF meeting_starts meeting_invited(1) meeting_runs(1,2)] meeting_runs(2)
  by (simp add: Let_def plain_id_def crlf_def)

text \<open>The call of \<open>rendezvous\<close> by one participant.\<close>

record barrier_call =
  bc_now :: int
  bc_hosts :: "string list"
  bc_abort :: bool
  bc_obj :: barrier

lemma sorted_hosts:
  assumes "hosts \<noteq> []"
  obtains m ms where "sort_hosts_by_name hosts = m # ms" "mset hosts = add_mset m (mset ms)" "list_all (\<lambda>h. str_cmp m h \<le> 0) hosts"
proof -
  obtain m ms where ms: "sort_hosts_by_name hosts = m # ms"
    using assms set_sort_by [of "\<lambda>a b. str_cmp a b \<le> 0" hosts] by (cases "sort_hosts_by_name hosts") (auto simp: sort_hosts_by_name_def simp del: set_sort_by)
  have "mset hosts = mset (m # ms)" using ms mset_sort_by [of "\<lambda>a b. str_cmp a b \<le> 0" hosts] by (simp add: sort_hosts_by_name_def)
  moreover from this have "set hosts = set (m # ms)" by (metis set_mset_mset)
  moreover have "list_all (\<lambda>h. str_cmp m h \<le> 0) (m # ms)"
    using sort_strings_sorted [of hosts] ms by (simp add: sort_hosts_by_name_def list_all_iff)
  ultimately show ?thesis using that ms by (simp add: list_all_iff)
qed

lemma rendezvous_same_hosts:
  assumes "mset hosts' = mset hosts" "sort_hosts_by_name hosts = m # ms"
  shows "rendezvous now hosts' abort b = Inr (started now m ms abort b)"
proof -
  have "sort_hosts_by_name hosts' = m # ms"
    using sort_strings_unique [OF assms(1)] assms(2) by (simp add: sort_hosts_by_name_def)
  then show ?thesis by (simp add: rendezvous_def)
qed

lemma started_ids [simp]: "b_hostid (started now m ms abort b) = b_hostid b" "b_masterid (started now m ms abort b) = m"
  by (simp_all add: started_def Let_def)

lemma length_filter_count: "length (filter (\<lambda>x. f x = y) xs) = count (mset (map f xs)) y"
  by (induction xs) auto

text \<open>
  C35 (functional): the participants of a rendezvous select exactly one master. When all of them call
  \<open>rendezvous\<close> with the host ids of the participants, each in an order of its own, and the ids are different, they
  find the same master, the first id in the order of strings, and the same other members; and exactly one of
  them is selected as the master, by its own id.
\<close>

theorem rendezvous_one_master:
  assumes "calls \<noteq> []" "distinct (map (b_hostid \<circ> bc_obj) calls)"
    and "list_all (\<lambda>c. mset (bc_hosts c) = mset (map (b_hostid \<circ> bc_obj) calls)) calls"
  shows "\<exists>m ms. mset (map (b_hostid \<circ> bc_obj) calls) = add_mset m (mset ms) \<and>
    list_all (\<lambda>c. str_cmp m (b_hostid (bc_obj c)) \<le> 0 \<and>
      rendezvous (bc_now c) (bc_hosts c) (bc_abort c) (bc_obj c) = Inr (started (bc_now c) m ms (bc_abort c) (bc_obj c))) calls \<and>
    length (filter (\<lambda>c. selected_as_master (started (bc_now c) m ms (bc_abort c) (bc_obj c))) calls) = 1"
proof -
  let ?ids = "map (b_hostid \<circ> bc_obj) calls"
  have "?ids \<noteq> []" using assms(1) by simp
  then obtain m ms where m: "sort_hosts_by_name ?ids = m # ms" "mset ?ids = add_mset m (mset ms)" "list_all (\<lambda>h. str_cmp m h \<le> 0) ?ids"
    by (rule sorted_hosts)
  have "m \<in> set ?ids" using m(2) by (metis set_mset_mset union_single_eq_member)
  then have "count (mset ?ids) m = 1" using assms(2) distinct_count_atmost_1 [of ?ids] by metis
  then have "length (filter (\<lambda>c. (b_hostid \<circ> bc_obj) c = m) calls) = 1" by (simp only: length_filter_count)
  moreover have "list_all (\<lambda>c. str_cmp m (b_hostid (bc_obj c)) \<le> 0 \<and>
      rendezvous (bc_now c) (bc_hosts c) (bc_abort c) (bc_obj c) = Inr (started (bc_now c) m ms (bc_abort c) (bc_obj c))) calls"
    using assms(3) m(3) rendezvous_same_hosts [OF _ m(1)] by (simp add: list_all_iff)
  ultimately show ?thesis using m(2) by (intro exI [of _ m] exI [of _ ms]) simp
qed

theorem rendezvous_one_master_witness:
  "let calls = [\<lparr>bc_now = 0, bc_hosts = [''b'', ''a''], bc_abort = False, bc_obj = the_barrier ''a'' ''T''\<rparr>,
       \<lparr>bc_now = 3, bc_hosts = [''a'', ''b''], bc_abort = True, bc_obj = the_barrier ''b'' ''T''\<rparr>]
   in \<exists>m ms. length (filter (\<lambda>c. selected_as_master (started (bc_now c) m ms (bc_abort c) (bc_obj c))) calls) = 1"
proof -
  let ?calls = "[\<lparr>bc_now = 0, bc_hosts = [''b'', ''a''], bc_abort = False, bc_obj = the_barrier ''a'' ''T''\<rparr>,
       \<lparr>bc_now = 3, bc_hosts = [''a'', ''b''], bc_abort = True, bc_obj = the_barrier ''b'' ''T''\<rparr>]"
  have ids: "b_hostid (the_barrier ''a'' ''T'') = ''a''" "b_hostid (the_barrier ''b'' ''T'') = ''b''" by code_simp+
  have some: "?calls \<noteq> []" by simp
  have ids_differ: "distinct (map (b_hostid \<circ> bc_obj) ?calls)" by (simp add: ids)
  have same: "list_all (\<lambda>c. mset (bc_hosts c) = mset (map (b_hostid \<circ> bc_obj) ?calls)) ?calls"
    by (simp add: ids add_mset_commute)
  from rendezvous_one_master [OF some ids_differ same] show ?thesis
    unfolding Let_def by (elim exE conjE) (intro exI)
qed

text \<open>The time left after \<open>_update_timeout\<close> is the time asked for, whenever the wait began.\<close>

lemma remaining_after_update:
  assumes "b_start_time b = Some s" "t > 0"
  shows "remaining now (update_timeout now (Some t) b) = Inr (Some t)"
    "remaining (now + t) (update_timeout now (Some t) b) = Inl (BarrierError (''timeout waiting for barrier: '' @ b_tag b))"
  using assms by (simp_all add: remaining_def update_timeout_def Let_def)

end
