(* ===== verification/Net_Address.thy ===== *)
theory Net_Address
  imports Texts
begin

text \<open>
  Addresses of the machines, client/shared/utils.py: conversion between dotted text, 32-bit numbers and
  subnets. \<open>socket.inet_aton\<close> reads the C notations: up to four numbers, decimal, octal after 0 or
  hexadecimal after 0x, of which the last fills the remaining bytes; white space ends the text.
\<close>

section \<open>Reading and writing addresses\<close>

datatype address_error = Socket_error | Struct_error | Value_error

definition digit_value :: "char \<Rightarrow> nat" where
  "digit_value c = (let n = (of_char (char_lower c) :: nat) in if 97 \<le> n then n - 87 else n - 48)"

definition is_hex :: "char \<Rightarrow> bool" where
  "is_hex c \<longleftrightarrow> is_digit c \<or> (let n = (of_char (char_lower c) :: nat) in 97 \<le> n \<and> n \<le> 102)"

definition is_octal :: "char \<Rightarrow> bool" where
  "is_octal c \<longleftrightarrow> is_digit c \<and> digit_value c < 8"

definition number_in :: "nat \<Rightarrow> string \<Rightarrow> nat" where
  "number_in base ds = foldl (\<lambda>n c. base * n + digit_value c) 0 ds"

text \<open>\<open>strtoul\<close> with base 0 on a text that starts with a digit, and the rest of the text.\<close>

definition c_number :: "string \<Rightarrow> (nat \<times> string) option" where
  "c_number s = (case s of
       [] \<Rightarrow> None
     | c # cs \<Rightarrow>
         if \<not> is_digit c then None
         else if c = CHR ''0'' \<and> cs \<noteq> [] \<and> char_lower (hd cs) = CHR ''x'' \<and> tl cs \<noteq> [] \<and> is_hex (hd (tl cs)) then
           Some (number_in 16 (takeWhile is_hex (tl cs)), dropWhile is_hex (tl cs))
         else if c = CHR ''0'' then Some (number_in 8 (takeWhile is_octal s), dropWhile is_octal s)
         else Some (nat_of_digits (takeWhile is_digit s), dropWhile is_digit s))"

fun address_parts :: "nat \<Rightarrow> string \<Rightarrow> nat list option" where
  "address_parts n s = (case c_number s of
       None \<Rightarrow> None
     | Some (v, rest) \<Rightarrow>
         if rest \<noteq> [] \<and> hd rest = CHR ''.'' then
           (case n of 0 \<Rightarrow> None | Suc m \<Rightarrow> if v > 255 then None else map_option ((#) v) (address_parts m (tl rest)))
         else if rest \<noteq> [] \<and> \<not> is_space (hd rest) then None
         else Some [v])"

declare address_parts.simps [simp del]

definition inet_aton :: "string \<Rightarrow> 32 word option" where
  "inet_aton ip = (case address_parts 3 ip of
       None \<Rightarrow> None
     | Some parts \<Rightarrow>
         if int (last parts) < 256 ^ (5 - length parts) then
           Some (word_of_int (foldl (\<lambda>n v. 256 * n + int v) 0 (butlast parts) * 256 ^ (5 - length parts) + int (last parts)))
         else None)"

definition address_byte :: "32 word \<Rightarrow> nat \<Rightarrow> nat" where
  "address_byte w i = unat (take_bit 8 (drop_bit (8 * i) w))"

definition inet_ntoa :: "32 word \<Rightarrow> string" where
  "inet_ntoa w = str_join ''.'' (map (\<lambda>i. str_of_nat (address_byte w i)) [3, 2, 1, 0])"

definition ip_to_long :: "string \<Rightarrow> address_error + int" where
  "ip_to_long ip = (case inet_aton ip of None \<Rightarrow> Inl Socket_error | Some w \<Rightarrow> Inr (uint w))"

definition long_to_ip :: "int \<Rightarrow> address_error + string" where
  "long_to_ip number = (if 0 \<le> number \<and> number < 2 ^ 32 then Inr (inet_ntoa (word_of_int number)) else Inl Struct_error)"

section \<open>Subnets\<close>

text \<open>A negative shift is refused; a negative number of bits gives a negative mask.\<close>

definition create_subnet_mask :: "int \<Rightarrow> address_error + int" where
  "create_subnet_mask bits = (if bits > 32 then Inl Value_error else Inr (2 ^ 32 - 2 ^ nat (32 - bits)))"

definition masked_address :: "string \<Rightarrow> int \<Rightarrow> address_error + int" where
  "masked_address ip mask_bits = (case ip_to_long ip of
       Inl e \<Rightarrow> Inl e
     | Inr n \<Rightarrow> (case create_subnet_mask mask_bits of Inl e \<Rightarrow> Inl e | Inr m \<Rightarrow> Inr (and n m)))"

definition format_ip_with_mask :: "string \<Rightarrow> int \<Rightarrow> address_error + string" where
  "format_ip_with_mask ip mask_bits = (case masked_address ip mask_bits of
       Inl e \<Rightarrow> Inl e
     | Inr n \<Rightarrow> (case long_to_ip n of Inl e \<Rightarrow> Inl e | Inr s \<Rightarrow> Inr (s @ ''/'' @ str_of_int mask_bits)))"

section \<open>IPv6\<close>

definition hex_char :: "nat \<Rightarrow> char" where
  "hex_char d = (if d < 10 then digit_char d else char_of (87 + d))"

fun hex_of_nat :: "nat \<Rightarrow> string" where
  "hex_of_nat n = (if n < 16 then [hex_char n] else hex_of_nat (n div 16) @ [hex_char (n mod 16)])"

declare hex_of_nat.simps [simp del]

definition two_digits :: "string \<Rightarrow> string" where
  "two_digits t = (if length t = 1 then ''0'' @ t else t)"

text \<open>The parts of the text are read by \<open>int\<close>, as decimals; none is negative after \<open>inet_aton\<close>.\<close>

fun ipv6_parts :: "nat \<Rightarrow> string list \<Rightarrow> address_error + string" where
  "ipv6_parts index [] = Inr []"
| "ipv6_parts index (p # ps) = (case py_int p of
       Inl e \<Rightarrow> Inl Value_error
     | Inr v \<Rightarrow> (case ipv6_parts (Suc index) ps of
           Inl e \<Rightarrow> Inl e
         | Inr t \<Rightarrow> Inr (two_digits (hex_of_nat (nat v)) @ (if index = 1 then '':'' else []) @ t)))"

definition convert_ipv4_to_ipv6 :: "string \<Rightarrow> address_error + string" where
  "convert_ipv4_to_ipv6 ipv4 =
     (let parts = split_on (CHR ''.'') ipv4 in
     if inet_aton ipv4 = None then Inl Value_error
     else if length parts \<noteq> 4 then Inl Value_error
     else (case ipv6_parts 0 parts of Inl e \<Rightarrow> Inl e | Inr t \<Rightarrow> Inr (''::ffff:'' @ t)))"

section \<open>Round trips and subnets\<close>

lemma hd_str_of_nat: "0 < n \<Longrightarrow> hd (str_of_nat n) \<noteq> CHR ''0''"
proof (induction n rule: str_of_nat.induct)
  case (1 n)
  show ?case
  proof (cases "n < 10")
    case True
    then have "(of_char (digit_char n) :: nat) \<noteq> of_char (CHR ''0'')" using 1(2) by (simp add: digit_char_def)
    then show ?thesis using True by (subst str_of_nat.simps) auto
  next
    case False
    then show ?thesis using 1(1) by (subst str_of_nat.simps) (simp add: div_greater_zero_iff)
  qed
qed

lemma c_number_str:
  assumes "rest = [] \<or> hd rest = CHR ''.''"
  shows "c_number (str_of_nat n @ rest) = Some (n, rest)"
proof -
  have stop: "takeWhile P rest = []" "dropWhile P rest = rest" if "\<not> P (CHR ''.'')" for P
    using assms that by (cases rest; auto)+
  have dot: "\<not> is_digit (CHR ''.'')" "\<not> is_octal (CHR ''.'')" by (simp_all add: is_digit_def is_octal_def)
  show ?thesis
  proof (cases "n = 0")
    case True
    have zero: "str_of_nat 0 = ''0''" by code_simp
    have "is_digit (CHR ''0'')" "is_octal (CHR ''0'')" "number_in 8 ''0'' = 0"
      by (simp_all add: is_digit_def is_octal_def digit_value_def char_lower_def number_in_def)
    moreover have "\<not> (rest \<noteq> [] \<and> char_lower (hd rest) = CHR ''x'')" using assms by (auto simp: char_lower_def)
    ultimately show ?thesis using True zero stop dot by (auto simp: c_number_def)
  next
    case False
    have digits: "\<forall>c \<in> set (str_of_nat n). is_digit c" by (rule str_of_nat_digits)
    obtain c ds where s: "str_of_nat n = c # ds" by (cases "str_of_nat n") auto
    then have c: "c \<noteq> CHR ''0''" "is_digit c" using hd_str_of_nat [of n] False digits by auto
    have "takeWhile is_digit (str_of_nat n @ rest) = str_of_nat n" "dropWhile is_digit (str_of_nat n @ rest) = rest"
      using digits stop(1) [of is_digit] stop(2) [of is_digit] dot(1) by (simp_all add: takeWhile_append2 dropWhile_append2)
    then show ?thesis using c nat_of_digits_str_of_nat [of n] by (simp add: c_number_def s)
  qed
qed

lemma parts_of_dotted:
  assumes "v \<noteq> []" "list_all (\<lambda>n. n < 256) v" "length v \<le> Suc n"
  shows "address_parts n (str_join ''.'' (map str_of_nat v)) = Some v"
  using assms
proof (induction v arbitrary: n)
  case (Cons a v)
  show ?case
  proof (cases "v = []")
    case True
    then show ?thesis using c_number_str [of "[]" a] by (subst address_parts.simps) simp
  next
    case False
    then obtain m where n: "n = Suc m" using Cons.prems(3) by (cases n) auto
    have "str_join ''.'' (map str_of_nat (a # v)) = str_of_nat a @ CHR ''.'' # str_join ''.'' (map str_of_nat v)"
      using False by (cases v) simp_all
    moreover have "c_number \<dots> = Some (a, CHR ''.'' # str_join ''.'' (map str_of_nat v))" by (rule c_number_str) simp
    ultimately show ?thesis using Cons n False by (subst address_parts.simps) simp
  qed
qed simp

lemma address_byte_int: "int (address_byte w i) = (uint w div 2 ^ (8 * i)) mod 256"
proof -
  have "uint (drop_bit (8 * i) w) = drop_bit (8 * i) (uint w)"
    using unsigned_drop_bit_eq [where ?'a = int, of "8 * i" w] uint_bounded [of w] by (simp add: take_bit_int_eq_self)
  moreover have "uint (take_bit 8 (drop_bit (8 * i) w)) = take_bit 8 (uint (drop_bit (8 * i) w))"
    by (rule unsigned_take_bit_eq)
  ultimately have "int (address_byte w i) = take_bit 8 (drop_bit (8 * i) (uint w))"
    by (simp only: address_byte_def uint_nat [symmetric])
  then show ?thesis by (simp add: take_bit_eq_mod drop_bit_eq_div)
qed

lemma address_byte_less: "address_byte w i < 256"
  using address_byte_int [of w i] by linarith

lemma bytes_of_number:
  assumes "0 \<le> n" "n < (2 ^ 32 :: int)"
  shows "256 * (256 * (256 * (n div 16777216 mod 256) + n div 65536 mod 256) + n div 256 mod 256) + n mod 256 = n"
proof -
  have step: "256 * (m div 256) + m mod 256 = m" for m :: int by simp
  have "n div (256 * 256) = n div 256 div 256" "n div (256 * 256 * 256) = n div (256 * 256) div 256"
    by (simp_all only: zdiv_zmult2_eq)
  then have q: "n div 65536 = n div 256 div 256" "n div 16777216 = n div 256 div 256 div 256" by simp_all
  have "n div 16777216 mod 256 = n div 16777216" using assms by (intro mod_pos_pos_trivial) auto
  then show ?thesis by (simp only: q step)
qed

lemma inet_aton_ntoa: "inet_aton (inet_ntoa w) = Some w"
proof -
  let ?b = "\<lambda>i. int (address_byte w i)"
  have parts: "address_parts 3 (inet_ntoa w) = Some (map (address_byte w) [3, 2, 1, 0])"
    using parts_of_dotted [of "map (address_byte w) [3, 2, 1, 0]" 3] by (simp add: inet_ntoa_def address_byte_less o_def)
  have b: "?b 3 = uint w div 16777216 mod 256" "?b 2 = uint w div 65536 mod 256" "?b 1 = uint w div 256 mod 256" "?b 0 = uint w mod 256"
    using address_byte_int [of w 3] address_byte_int [of w 2] address_byte_int [of w 1] address_byte_int [of w 0] by simp_all
  have "0 \<le> uint w" "uint w < 2 ^ 32" using uint_bounded [of w] by simp_all
  then have "256 * (256 * (256 * ?b 3 + ?b 2) + ?b 1) + ?b 0 = uint w" unfolding b by (rule bytes_of_number)
  then have "(256 * (256 * ?b 3 + ?b 2) + ?b 1) * 256 + ?b 0 = uint w" by (simp only: mult.commute [of _ 256])
  then have "word_of_int ((256 * (256 * ?b 3 + ?b 2) + ?b 1) * 256 + ?b 0) = w" by (simp only: word_of_int_uint)
  moreover have "?b 0 < 256" using address_byte_less [of w 0] by simp
  moreover have "foldl (\<lambda>n v. 256 * n + int v) 0 (butlast (map (address_byte w) [3, 2, 1, 0])) = 256 * (256 * ?b 3 + ?b 2) + ?b 1"
      "last (map (address_byte w) [3, 2, 1, 0]) = address_byte w 0"
      "(256 :: int) ^ (5 - length (map (address_byte w) [3, 2, 1, 0])) = 256" by simp_all
  ultimately show ?thesis by (simp only: inet_aton_def parts option.case if_True)
qed

lemma subnet_mask_and:
  assumes "0 \<le> n" "n < (2 ^ 32 :: int)" "m \<le> 32"
  shows "and n (2 ^ 32 - 2 ^ m) = n - n mod 2 ^ m"
proof -
  have "(2 ^ 32 - 2 ^ m :: int) = push_bit m (mask (32 - m))"
    using assms(3) by (simp add: push_bit_eq_mult mask_eq_exp_minus_1 left_diff_distrib flip: power_add)
  then have "and n (2 ^ 32 - 2 ^ m) = push_bit m (and (drop_bit m n) (mask (32 - m)))"
    by (simp add: bit_eq_iff bit_and_iff bit_push_bit_iff bit_drop_bit_eq) (metis le_add_diff_inverse)
  also have "\<dots> = push_bit m (take_bit (32 - m) (drop_bit m n))" by (simp add: take_bit_eq_mask)
  also have "take_bit (32 - m) (drop_bit m n) = drop_bit m (take_bit 32 n)"
    using assms(3) by (simp add: take_bit_drop_bit)
  also have "take_bit 32 n = n" using assms(1,2) by (simp add: take_bit_int_eq_self)
  also have "push_bit m (drop_bit m n) = n - n mod 2 ^ m"
    by (simp add: push_bit_eq_mult drop_bit_eq_div minus_mod_eq_div_mult)
  finally show ?thesis .
qed

lemma ip_to_long_range:
  assumes "ip_to_long ip = Inr n"
  shows "0 \<le> n \<and> n < 2 ^ 32"
proof -
  from assms obtain w :: "32 word" where "n = uint w" by (auto simp: ip_to_long_def split: option.splits)
  then show ?thesis using uint_bounded [of w] by simp
qed

text \<open>
  (roundtrip; client/shared/utils.py, \<open>long_to_ip\<close> and \<open>ip_to_long\<close>). Every number of 32 bits has a dotted
  text, and reading the text back gives the number; other numbers are refused.
\<close>

theorem ip_number_roundtrip:
  "case long_to_ip n of Inl e \<Rightarrow> e = Struct_error \<and> (n < 0 \<or> 2 ^ 32 \<le> n) | Inr s \<Rightarrow> ip_to_long s = Inr n"
  by (auto simp: long_to_ip_def ip_to_long_def inet_aton_ntoa uint_word_of_int take_bit_eq_mod)

lemma masked_address_mod:
  assumes "ip_to_long ip = Inr n" "0 \<le> bits" "bits \<le> 32"
  shows "masked_address ip bits = Inr (n - n mod 2 ^ nat (32 - bits))"
  using assms ip_to_long_range [OF assms(1)] subnet_mask_and [of n "nat (32 - bits)"]
  by (simp add: masked_address_def create_subnet_mask_def)

lemma format_masked:
  assumes "ip_to_long ip = Inr n" "0 \<le> bits" "bits \<le> 32"
  shows "\<exists>s. long_to_ip (n - n mod 2 ^ nat (32 - bits)) = Inr s \<and> ip_to_long s = Inr (n - n mod 2 ^ nat (32 - bits)) \<and>
    format_ip_with_mask ip bits = Inr (s @ ''/'' @ str_of_int bits)"
proof -
  let ?m = "n - n mod 2 ^ nat (32 - bits)"
  have "n mod 2 ^ nat (32 - bits) \<le> n" using ip_to_long_range [OF assms(1)] by (simp add: zmod_le_nonneg_dividend)
  moreover have "0 \<le> n mod 2 ^ nat (32 - bits)" by simp
  ultimately have "0 \<le> ?m" "?m < 2 ^ 32" using ip_to_long_range [OF assms(1)] by linarith+
  then obtain s where s: "long_to_ip ?m = Inr s" by (auto simp: long_to_ip_def)
  moreover have "ip_to_long s = Inr ?m" using ip_number_roundtrip [of ?m] s by simp
  ultimately show ?thesis using masked_address_mod [OF assms] by (simp add: format_ip_with_mask_def)
qed

text \<open>
  (Equivalence; client/shared/utils.py, \<open>format_ip_with_mask\<close>). For 0 to 32 mask bits the call succeeds on
  every address, and two addresses have the same text exactly when their numbers agree in the mask bits, that
  is when they are in the same subnet.
\<close>

theorem same_subnet_text:
  assumes "ip_to_long a = Inr m" "ip_to_long b = Inr n" "0 \<le> bits" "bits \<le> 32"
  shows "(\<exists>s. format_ip_with_mask a bits = Inr s) \<and>
    (format_ip_with_mask a bits = format_ip_with_mask b bits \<longleftrightarrow> m div 2 ^ nat (32 - bits) = n div 2 ^ nat (32 - bits))"
proof -
  let ?k = "2 ^ nat (32 - bits) :: int"
  obtain s where s: "ip_to_long s = Inr (m - m mod ?k)" "long_to_ip (m - m mod ?k) = Inr s"
      "format_ip_with_mask a bits = Inr (s @ ''/'' @ str_of_int bits)"
    using format_masked [OF assms(1,3,4)] by blast
  obtain t where t: "ip_to_long t = Inr (n - n mod ?k)" "long_to_ip (n - n mod ?k) = Inr t"
      "format_ip_with_mask b bits = Inr (t @ ''/'' @ str_of_int bits)"
    using format_masked [OF assms(2,3,4)] by blast
  have "s = t \<longleftrightarrow> m - m mod ?k = n - n mod ?k" using s(1,2) t(1,2) by (metis sum.inject(2))
  also have "\<dots> \<longleftrightarrow> m div ?k = n div ?k" by (simp add: minus_mod_eq_div_mult)
  finally show ?thesis using s(3) t(3) by simp
qed

lemma same_subnet_text_witness:
  "format_ip_with_mask ''192.168.17.9'' 20 = format_ip_with_mask ''192.168.30.1'' 20"
proof -
  have "ip_to_long ''192.168.17.9'' = Inr 3232239881" "ip_to_long ''192.168.30.1'' = Inr 3232243201" by code_simp+
  from same_subnet_text [OF this, of 20] show ?thesis by simp
qed

text \<open>
  The conversion to IPv6 reads the parts as decimals, the check before reads a leading 0 as octal: the text
  of one address becomes the IPv6 address of another.
\<close>

lemma octal_part_as_decimal:
  "inet_aton ''010.1.1.1'' = inet_aton ''8.1.1.1'' \<and>
   convert_ipv4_to_ipv6 ''010.1.1.1'' = Inr ''::ffff:0a01:0101'' \<and> convert_ipv4_to_ipv6 ''8.1.1.1'' = Inr ''::ffff:0801:0101''"
  by code_simp

end
