(* ===== verification/Shell_Text.thy ===== *)
theory Shell_Text
  imports Keyval
begin

text \<open>
  Texts of commands, versions and machines: the quoting of shell commands (\<open>sh_escape\<close> of
  client/shared/utils.py, \<open>scp_remote_escape\<close> of server/base\_utils.py) with the reading of quoted words by
  the shell as its specification, \<open>compare_versions\<close>, \<open>args_to_dict\<close>, the conversion of texts to lists of bits, \<open>Statistic\<close>, and \<open>parse_machine\<close> and \<open>form_ntuples_from_machines\<close> of server/base\_utils.py.
\<close>

section \<open>Quoting\<close>

text \<open>\<open>s.replace(c, r)\<close> for a character\<close>

definition replace_char :: "char \<Rightarrow> string \<Rightarrow> string \<Rightarrow> string" where
  "replace_char c r s = concat (map (\<lambda>d. if d = c then r else [d]) s)"

abbreviation backslash :: char where "backslash \<equiv> CHR 0x5C"
abbreviation quote :: char where "quote \<equiv> CHR 0x22"
abbreviation backtick :: char where "backtick \<equiv> CHR 0x60"

definition sh_escape :: "string \<Rightarrow> string" where
  "sh_escape command =
     (let c1 = replace_char backslash [backslash, backslash] command;
          c2 = replace_char (CHR ''$'') [backslash, CHR ''$''] c1;
          c3 = replace_char quote [backslash, quote] c2
      in replace_char backtick [backslash, backtick] c3)"

definition escape_chars :: string where
  "escape_chars = '' !'' @ [quote] @ ''$&'' @ [CHR 0x27] @ ''()*,:;<=>?['' @ [backslash] @ '']^'' @ [backtick] @ ''{|}''"

definition scp_remote_escape :: "string \<Rightarrow> string" where
  "scp_remote_escape filename =
     sh_escape (concat (map (\<lambda>c. if c \<in> set escape_chars then [backslash, c] else [c]) filename))"

text \<open>
  What the shell reads between double quotes: a backslash quotes the characters that are active there and
  removes a newline. None when an active character is not quoted, or the closing quote is.
\<close>

definition active_in_quotes :: "char \<Rightarrow> bool" where
  "active_in_quotes c \<longleftrightarrow> c = CHR ''$'' \<or> c = backtick \<or> c = quote \<or> c = backslash"

fun quoted_word :: "string \<Rightarrow> string option" where
  "quoted_word [] = Some []"
| "quoted_word [c] = (if active_in_quotes c then None else Some [c])"
| "quoted_word (c # d # cs) =
     (if c = backslash then
        (if active_in_quotes d then map_option ((#) d) (quoted_word cs)
         else if d = newline then quoted_word cs
         else map_option ((#) c) (quoted_word (d # cs)))
      else if active_in_quotes c then None
      else map_option ((#) c) (quoted_word (d # cs)))"

text \<open>What the shell reads outside quotes: a backslash quotes any character but a newline.\<close>

definition active_outside :: "char \<Rightarrow> bool" where
  "active_outside c \<longleftrightarrow> c \<in> set escape_chars \<or> is_space c"

fun plain_word :: "string \<Rightarrow> string option" where
  "plain_word [] = Some []"
| "plain_word [c] = (if active_outside c then None else Some [c])"
| "plain_word (c # d # cs) =
     (if c = backslash then (if d = newline then None else map_option ((#) d) (plain_word cs))
      else if active_outside c then None
      else map_option ((#) c) (plain_word (d # cs)))"

lemma replace_char_concat: "replace_char c r (concat xs) = concat (map (replace_char c r) xs)"
  by (induction xs) (simp_all add: replace_char_def)

definition escaped :: "char \<Rightarrow> string" where
  "escaped c = (if active_in_quotes c then [backslash, c] else [c])"

lemma sh_escape_escaped: "sh_escape s = concat (map escaped s)"
  by (induction s) (simp_all add: sh_escape_def replace_char_def escaped_def active_in_quotes_def)

lemma quoted_word_passive: "\<not> active_in_quotes c \<Longrightarrow> quoted_word (c # s) = map_option ((#) c) (quoted_word s)"
  by (cases s) (auto simp: active_in_quotes_def)

lemma quoted_word_escaped: "quoted_word (concat (map escaped s)) = Some s"
proof (induction s)
  case (Cons c s)
  then show ?case by (cases "active_in_quotes c") (simp_all add: escaped_def quoted_word_passive)
qed simp

text \<open>
  C36 (roundtrip; client/shared/utils.py, \<open>sh_escape\<close>). Between double quotes the shell reads an escaped text
  as the text itself: every active character is quoted and nothing else changes.
\<close>

theorem sh_escape_roundtrip: "quoted_word (sh_escape s) = Some s"
  by (simp add: sh_escape_escaped quoted_word_escaped)

text \<open>A file name passed through both shells of scp; tilde and hash are not quoted where they start the name.\<close>

lemma plain_word_escaped:
  assumes "\<forall>c \<in> set s. \<not> (is_space c \<and> c \<noteq> CHR '' '')"
  shows "plain_word (concat (map (\<lambda>c. if c \<in> set escape_chars then [backslash, c] else [c]) s)) = Some s"
  using assms
proof (induction s)
  case (Cons c s)
  have "CHR '' '' \<in> set escape_chars" "newline \<notin> set escape_chars" "backslash \<in> set escape_chars" by (simp_all add: escape_chars_def)
  moreover from this have "\<not> active_outside c" "c \<noteq> backslash" if "c \<notin> set escape_chars"
    using that Cons.prems by (auto simp: active_outside_def)
  ultimately show ?case using Cons
    by (cases "concat (map (\<lambda>c. if c \<in> set escape_chars then [backslash, c] else [c]) s)") auto
qed simp

lemma scp_remote_escape_roundtrip:
  assumes "\<forall>c \<in> set s. \<not> (is_space c \<and> c \<noteq> CHR '' '')"
  shows "\<exists>t. quoted_word (scp_remote_escape s) = Some t \<and> plain_word t = Some s"
  using plain_word_escaped [OF assms] sh_escape_roundtrip by (auto simp: scp_remote_escape_def)

section \<open>Versions\<close>

text \<open>\<open>re.split('[.-]', s)\<close>\<close>

fun version_parts :: "string \<Rightarrow> string list" where
  "version_parts [] = [[]]"
| "version_parts (c # cs) =
     (if c = CHR ''.'' \<or> c = CHR ''-'' then [] # version_parts cs
      else case version_parts cs of p # ps \<Rightarrow> (c # p) # ps | [] \<Rightarrow> [[c]])"

definition zfill :: "string \<Rightarrow> nat \<Rightarrow> string" where
  "zfill s width =
     (let zeros = replicate (width - length s) (CHR ''0'')
      in if zeros \<noteq> [] \<and> s \<noteq> [] \<and> (hd s = CHR ''+'' \<or> hd s = CHR ''-'') then hd s # zeros @ tl s else zeros @ s)"

definition cmp_int :: "nat \<Rightarrow> nat \<Rightarrow> int" where
  "cmp_int m n = (if m < n then -1 else if n < m then 1 else 0)"

fun compare_parts :: "string list \<Rightarrow> string list \<Rightarrow> int" where
  "compare_parts (x # xs) (y # ys) =
     (let maxlen = max (length x) (length y); c = str_cmp (zfill x maxlen) (zfill y maxlen)
      in if c \<noteq> 0 then c else compare_parts xs ys)"
| "compare_parts xs ys = cmp_int (length xs) (length ys)"

definition compare_versions :: "string \<Rightarrow> string \<Rightarrow> int" where
  "compare_versions ver1 ver2 = compare_parts (version_parts ver1) (version_parts ver2)"

text \<open>The order of versions: by their numbers from the left, of two that agree the longer is later.\<close>

fun version_order :: "nat list \<Rightarrow> nat list \<Rightarrow> int" where
  "version_order (m # ms) (n # ns) = (if m = n then version_order ms ns else cmp_int m n)"
| "version_order ms ns = cmp_int (length ms) (length ns)"

lemma foldl_digits: "foldl (\<lambda>n c. 10 * n + digit_val c) a s = a * 10 ^ length s + nat_of_digits s"
proof (induction s arbitrary: a)
  case (Cons c s)
  have "nat_of_digits (c # s) = digit_val c * 10 ^ length s + nat_of_digits s"
    using Cons [of "digit_val c"] by (simp add: nat_of_digits_def)
  then show ?case using Cons [of "10 * a + digit_val c"] by (simp add: algebra_simps)
qed (simp add: nat_of_digits_def)

lemma nat_of_digits_Cons: "nat_of_digits (c # s) = digit_val c * 10 ^ length s + nat_of_digits s"
  using foldl_digits [of "digit_val c" s] by (simp add: nat_of_digits_def)

lemma digit_val_less: "is_digit c \<Longrightarrow> digit_val c < 10"
  by (auto simp: is_digit_def digit_val_def)

lemma nat_of_digits_less: "list_all is_digit s \<Longrightarrow> nat_of_digits s < 10 ^ length s"
proof (induction s)
  case (Cons c s)
  then have "digit_val c \<le> 9" using digit_val_less [of c] by simp
  then have "digit_val c * 10 ^ length s \<le> 9 * 10 ^ length s" by (rule mult_right_mono) simp
  moreover have "nat_of_digits s < 10 ^ length s" using Cons by simp
  ultimately have "digit_val c * 10 ^ length s + nat_of_digits s < 9 * 10 ^ length s + 10 ^ length s" by (rule add_le_less_mono)
  then show ?case by (simp add: nat_of_digits_Cons)
qed (simp add: nat_of_digits_def)

lemma str_cmp_digits:
  assumes "length s = length t" "list_all is_digit s" "list_all is_digit t"
  shows "str_cmp s t = cmp_int (nat_of_digits s) (nat_of_digits t)"
  using assms
proof (induction s t rule: str_cmp.induct)
  case (4 a as b bs)
  have less: "cmp_int (nat_of_digits (a # as)) (nat_of_digits (b # bs)) = -1" if "digit_val a < digit_val b"
  proof -
    have "(digit_val a + 1) * 10 ^ length as \<le> digit_val b * 10 ^ length as" using that by (intro mult_right_mono) auto
    then show ?thesis using nat_of_digits_less [of as] 4(2-4) by (simp add: nat_of_digits_Cons cmp_int_def)
  qed
  have greater: "cmp_int (nat_of_digits (a # as)) (nat_of_digits (b # bs)) = 1" if "digit_val b < digit_val a"
  proof -
    have "(digit_val b + 1) * 10 ^ length as \<le> digit_val a * 10 ^ length as" using that by (intro mult_right_mono) auto
    then show ?thesis using nat_of_digits_less [of bs] 4(2-4) by (simp add: nat_of_digits_Cons cmp_int_def)
  qed
  have vals: "(of_char a :: nat) = 48 + digit_val a" "(of_char b :: nat) = 48 + digit_val b"
    using 4(3,4) by (simp_all add: is_digit_def digit_val_def)
  consider "digit_val a < digit_val b" | "digit_val b < digit_val a" | "digit_val a = digit_val b" by linarith
  then show ?case
  proof cases
    case 3
    then have "str_cmp (a # as) (b # bs) = str_cmp as bs" using vals by simp
    also have "\<dots> = cmp_int (nat_of_digits as) (nat_of_digits bs)" using 4 3 vals by simp
    also have "\<dots> = cmp_int (nat_of_digits (a # as)) (nat_of_digits (b # bs))"
      using 3 4(2) by (simp add: nat_of_digits_Cons cmp_int_def)
    finally show ?thesis .
  qed (use vals less greater in \<open>simp_all del: of_char_eq_iff\<close>)
qed (simp_all add: cmp_int_def)

lemma zfill_digits:
  assumes "list_all is_digit s"
  shows "list_all is_digit (zfill s n)" "nat_of_digits (zfill s n) = nat_of_digits s" "length s \<le> n \<Longrightarrow> length (zfill s n) = n"
proof -
  have "zfill s n = replicate (n - length s) (CHR ''0'') @ s"
    using assms by (cases s) (auto simp: zfill_def is_digit_def Let_def)
  moreover have "nat_of_digits (replicate k (CHR ''0'') @ s) = nat_of_digits s" for k
    by (induction k) (simp_all add: nat_of_digits_Cons digit_val_def)
  moreover have "is_digit (CHR ''0'')" by (simp add: is_digit_def)
  ultimately show "list_all is_digit (zfill s n)" "nat_of_digits (zfill s n) = nat_of_digits s" "length s \<le> n \<Longrightarrow> length (zfill s n) = n"
    using assms by (auto simp: list_all_iff)
qed

text \<open>
  \<open>compare_versions\<close> (client/shared/utils.py). On versions of numbers the comparison is the
  order of versions: the first parts that differ as numbers decide, whatever zeros they are written with, and of
  two versions that agree as far as they go the one with more parts is later.
\<close>

theorem compare_versions_by_number:
  assumes "list_all (list_all is_digit) (version_parts v)" "list_all (list_all is_digit) (version_parts w)"
  shows "compare_versions v w = version_order (map nat_of_digits (version_parts v)) (map nat_of_digits (version_parts w))"
proof -
  have "compare_parts xs ys = version_order (map nat_of_digits xs) (map nat_of_digits ys)"
    if "list_all (list_all is_digit) xs" "list_all (list_all is_digit) ys" for xs ys
    using that
  proof (induction xs ys rule: compare_parts.induct)
    case (1 x xs y ys)
    let ?n = "max (length x) (length y)"
    have "str_cmp (zfill x ?n) (zfill y ?n) = cmp_int (nat_of_digits x) (nat_of_digits y)"
      using 1(2,3) zfill_digits [of x ?n] zfill_digits [of y ?n] by (simp add: str_cmp_digits)
    then show ?case using 1 by (auto simp: Let_def cmp_int_def)
  qed (simp_all add: cmp_int_def)
  then show ?thesis using assms by (simp add: compare_versions_def)
qed

lemma compare_versions_by_number_witness:
  "compare_versions ''2.6.18'' ''2.06.9'' = 1 \<and> compare_versions ''1.3-5'' ''1.3.5.1'' = -1"
  by (subst (1 2) compare_versions_by_number; code_simp)

section \<open>Arguments of autoserv\<close>

text \<open>\<open>(\\w+)[:=](.*)$\<close> at the start of the argument; the value ends before a final newline and has no other.\<close>

definition match_arg :: "string \<Rightarrow> (string \<times> string) option" where
  "match_arg arg =
     (let k = takeWhile is_word arg; r = dropWhile is_word arg
      in if k = [] \<or> r = [] \<or> \<not> (hd r = CHR '':'' \<or> hd r = CHR ''='') then None
         else let v = without_final_newline (tl r) in if newline \<in> set v then None else Some (k, v))"

definition args_to_dict :: "string list \<Rightarrow> (string \<times> string) list" where
  "args_to_dict args = foldl (\<lambda>d arg. case match_arg arg of
       None \<Rightarrow> d | Some (k, v) \<Rightarrow> alist_put (str_lower k) v d) [] args"

section \<open>Bits\<close>

text \<open>A bit is an integer, as in the lists; \<open>chr\<close> refuses what is not a byte.\<close>

fun bits_loop :: "int list \<Rightarrow> nat \<Rightarrow> int \<Rightarrow> int list" where
  "bits_loop [] pos c = []"
| "bits_loop (b # bs) pos c =
     (let c' = c + push_bit (7 - pos mod 8) b
      in if pos mod 8 = 7 then c' # bits_loop bs (pos + 1) 0 else bits_loop bs (pos + 1) c')"

fun chars_of :: "int list \<Rightarrow> exn + string" where
  "chars_of [] = Inr []"
| "chars_of (c # cs) = (if 0 \<le> c \<and> c < 256 then sbind (chars_of cs) (\<lambda>s. Inr (char_of c # s)) else Inl ValueError)"

definition bitlist_to_string :: "int list \<Rightarrow> exn + string" where
  "bitlist_to_string data = chars_of (bits_loop data 0 0)"

definition char_bits :: "char \<Rightarrow> int list" where
  "char_bits ch = map (\<lambda>i. if and (of_char ch :: int) (2 ^ i) \<noteq> 0 then 1 else 0) [7, 6, 5, 4, 3, 2, 1, 0]"

definition string_to_bitlist :: "string \<Rightarrow> int list" where
  "string_to_bitlist data = concat (map char_bits data)"

section \<open>Statistics\<close>

record statistic =
  sc_sum :: int
  sc_count :: int
  sc_max :: "int option"
  sc_min :: "int option"

definition statistic_init :: statistic where
  "statistic_init = \<lparr>sc_sum = 0, sc_count = 0, sc_max = None, sc_min = None\<rparr>"

definition get_average :: "statistic \<Rightarrow> int option" where
  "get_average s = (if sc_count s \<noteq> 0 then Some (sc_sum s div sc_count s) else None)"

text \<open>\<open>not self._max\<close> holds for None and for 0.\<close>

definition replaced_by :: "int option \<Rightarrow> (int \<Rightarrow> bool) \<Rightarrow> bool" where
  "replaced_by m better = (case m of None \<Rightarrow> True | Some v \<Rightarrow> v = 0 \<or> better v)"

definition record_value :: "int \<Rightarrow> statistic \<Rightarrow> statistic" where
  "record_value value s = s\<lparr>sc_count := sc_count s + 1, sc_sum := sc_sum s + value,
     sc_max := (if replaced_by (sc_max s) (\<lambda>m. m < value) then Some value else sc_max s),
     sc_min := (if replaced_by (sc_min s) (\<lambda>m. m > value) then Some value else sc_min s)\<rparr>"

text \<open>Positive values have their maximum and minimum recorded; a 0 is forgotten by the next value.\<close>

lemma record_positive:
  assumes "sc_max s = Some m" "sc_min s = Some n" "0 < m" "0 < n"
  shows "sc_max (record_value v s) = Some (max m v) \<and> sc_min (record_value v s) = Some (min n v)"
  using assms by (simp add: record_value_def replaced_by_def max_def min_def)

lemma statistic_positive:
  assumes "vs \<noteq> []" "\<forall>v \<in> set vs. 0 < v"
  shows "sc_max (fold record_value vs statistic_init) = Some (Max (set vs)) \<and>
    sc_min (fold record_value vs statistic_init) = Some (Min (set vs))"
  using assms
proof (induction vs rule: rev_induct)
  case (snoc v vs)
  show ?case
  proof (cases "vs = []")
    case True
    then show ?thesis by (simp add: record_value_def statistic_init_def replaced_by_def)
  next
    case False
    then have "Max (set vs) \<in> set vs" "Min (set vs) \<in> set vs" by simp_all
    then have "0 < Max (set vs)" "0 < Min (set vs)" using snoc.prems by auto
    moreover have "sc_max (fold record_value vs statistic_init) = Some (Max (set vs))"
        "sc_min (fold record_value vs statistic_init) = Some (Min (set vs))"
      using snoc False by simp_all
    ultimately show ?thesis using record_positive False by (simp add: max.commute min.commute)
  qed
qed simp

lemma statistic_forgets_zero:
  "sc_min (fold record_value [0, 5] statistic_init) = Some 5 \<and> sc_max (fold record_value [0, -5] statistic_init) = Some (-5)"
  by code_simp

section \<open>Machines\<close>

record machine_access =
  ma_host :: string
  ma_user :: string
  ma_password :: string
  ma_port :: int
  ma_profile :: string

text \<open>\<open>s.split(c, 1)\<close> for a text that contains the character\<close>

definition split_first :: "char \<Rightarrow> string \<Rightarrow> string \<times> string" where
  "split_first c s = (takeWhile (\<lambda>d. d \<noteq> c) s, tl (dropWhile (\<lambda>d. d \<noteq> c) s))"

definition split_login :: "string \<Rightarrow> string \<Rightarrow> string \<Rightarrow> string \<times> string \<times> string" where
  "split_login machine user password =
     (let (user1, machine1) = (if CHR ''@'' \<in> set machine then split_first (CHR ''@'') machine else (user, machine));
          (user2, password1) = (if CHR '':'' \<in> set user1 then split_first (CHR '':'') user1 else (user1, password))
      in (machine1, user2, password1))"

text \<open>The number behind the colon, or a number, a hash and the profile.\<close>

definition split_port :: "string \<Rightarrow> string \<Rightarrow> exn + int \<times> string" where
  "split_port p profile = (case py_int p of
       Inr n \<Rightarrow> Inr (n, profile)
     | Inl e \<Rightarrow>
         if CHR ''#'' \<in> set p then
           (case split_first (CHR ''#'') p of (n, profile') \<Rightarrow> sbind (py_int n) (\<lambda>k. Inr (k, profile')))
         else Inl ValueError)"

definition parse_machine :: "string \<Rightarrow> string \<Rightarrow> string \<Rightarrow> int \<Rightarrow> string \<Rightarrow> exn + machine_access" where
  "parse_machine machine user password port profile =
     (let (machine1, user1, password1) = split_login machine user password;
          (machine2, port_text) = (if CHR '':'' \<in> set machine1 then (case split_first (CHR '':'') machine1 of (m, p) \<Rightarrow> (m, Some p))
                                   else (machine1, None))
      in sbind (case port_text of None \<Rightarrow> Inr (port, profile) | Some p \<Rightarrow> split_port p profile) (\<lambda>(port1, profile1).
         let (machine3, profile2) = (if CHR ''#'' \<in> set machine2 then split_first (CHR ''#'') machine2 else (machine2, profile1))
         in if machine3 = [] \<or> user1 = [] then Inl ValueError
            else Inr \<lparr>ma_host = machine3, ma_user = user1, ma_password = password1, ma_port = port1, ma_profile = profile2\<rparr>))"

definition no_separator :: "string \<Rightarrow> bool" where
  "no_separator s \<longleftrightarrow> set s \<inter> {CHR ''@'', CHR '':'', CHR ''#''} = {}"

lemma split_first_at: "c \<notin> set a \<Longrightarrow> split_first c (a @ c # b) = (a, b)"
  unfolding split_first_def by (induction a) auto

lemma py_int_hash:
  assumes "CHR ''#'' \<in> set s"
  shows "\<exists>e. py_int s = Inl e"
proof -
  have keep: "c \<in> set (dropWhile is_space t)" if "c \<in> set t" "\<not> is_space c" for c t
    using that by (induction t) auto
  have hash: "\<not> is_space (CHR ''#'')" "\<not> is_digit (CHR ''#'')" by (simp_all add: is_space_def is_digit_def)
  have "CHR ''#'' \<in> set (dropWhile is_space s)" using keep [OF assms hash(1)] .
  then have "CHR ''#'' \<in> set (py_strip s)" using keep [OF _ hash(1), of "rev (dropWhile is_space s)"] by (simp add: py_strip_def)
  then show ?thesis using hash(2) by (cases "py_strip s") (auto simp: py_int_def Let_def list_all_iff)
qed

lemma str_of_int_chars: "CHR ''#'' \<notin> set (str_of_int i)" "CHR '':'' \<notin> set (str_of_int i)"
proof -
  have "c \<notin> set (str_of_nat n)" if "\<not> is_digit c" for c n using str_of_nat_digits [of n] that by auto
  moreover have "\<not> is_digit (CHR ''#'')" "\<not> is_digit (CHR '':'')" by (simp_all add: is_digit_def)
  ultimately show "CHR ''#'' \<notin> set (str_of_int i)" "CHR '':'' \<notin> set (str_of_int i)" by (simp_all add: str_of_int_def)
qed

text \<open>The text of a machine, with the profile behind the port or before it.\<close>

definition machine_text :: "machine_access \<Rightarrow> bool \<Rightarrow> string" where
  "machine_text m profile_last = ma_user m @ '':'' @ ma_password m @ ''@'' @ ma_host m @
     (if profile_last then '':'' @ str_of_int (ma_port m) @ ''#'' @ ma_profile m
      else ''#'' @ ma_profile m @ '':'' @ str_of_int (ma_port m))"

text \<open>
  (roundtrip; server/base\_utils.py, \<open>parse_machine\<close>). The text of a machine in either of the orders of
  port and profile is taken apart into the user, password, host, port and profile it was put together from.
\<close>

theorem parse_machine_roundtrip:
  assumes "list_all no_separator [ma_user m, ma_password m, ma_host m, ma_profile m]" "ma_user m \<noteq> []" "ma_host m \<noteq> []"
  shows "parse_machine (machine_text m profile_last) user password port profile = Inr m"
proof -
  let ?p = "str_of_int (ma_port m)"
  have plain: "CHR ''@'' \<notin> set x" "CHR '':'' \<notin> set x" "CHR ''#'' \<notin> set x"
    if "x \<in> {ma_user m, ma_password m, ma_host m, ma_profile m}" for x
    using assms(1) that by (auto simp: no_separator_def)
  let ?rest = "ma_host m @ (if profile_last then '':'' @ ?p @ ''#'' @ ma_profile m else ''#'' @ ma_profile m @ '':'' @ ?p)"
  have whole: "machine_text m profile_last = (ma_user m @ CHR '':'' # ma_password m) @ CHR ''@'' # ?rest"
    by (simp add: machine_text_def)
  have login: "split_login (machine_text m profile_last) user password = (?rest, ma_user m, ma_password m)"
    using plain split_first_at [of "CHR ''@''" "ma_user m @ CHR '':'' # ma_password m" ?rest]
      split_first_at [of "CHR '':''" "ma_user m" "ma_password m"]
    by (simp add: split_login_def whole)
  show ?thesis
  proof (cases profile_last)
    case True
    have "split_port (?p @ CHR ''#'' # ma_profile m) profile = Inr (ma_port m, ma_profile m)"
      using py_int_hash [of "?p @ CHR ''#'' # ma_profile m"] split_first_at [OF str_of_int_chars(1), of "ma_port m" "ma_profile m"]
      by (auto simp: split_port_def py_int_str_of_int)
    then show ?thesis using True login plain assms(2,3) split_first_at [of "CHR '':''" "ma_host m" "?p @ CHR ''#'' # ma_profile m"]
      by (simp add: parse_machine_def)
  next
    case False
    have "split_port ?p profile = Inr (ma_port m, profile)" by (simp add: split_port_def py_int_str_of_int)
    then show ?thesis using False login plain assms(2,3)
        split_first_at [of "CHR '':''" "ma_host m @ CHR ''#'' # ma_profile m" ?p] split_first_at [of "CHR ''#''" "ma_host m" "ma_profile m"]
      by (simp add: parse_machine_def)
  qed
qed

definition a_machine :: machine_access where
  "a_machine = \<lparr>ma_host = ''h1'', ma_user = ''u'', ma_password = [], ma_port = 22, ma_profile = ''p''\<rparr>"

lemma parse_machine_roundtrip_witness:
  "machine_text a_machine True = ''u:@h1:22#p'' \<and> parse_machine ''u:@h1:22#p'' ''root'' [] 22 [] = Inr a_machine"
proof
  show whole: "machine_text a_machine True = ''u:@h1:22#p''" by code_simp
  have "parse_machine (machine_text a_machine True) ''root'' [] 22 [] = Inr a_machine"
    by (rule parse_machine_roundtrip) (simp_all add: a_machine_def no_separator_def)
  then show "parse_machine ''u:@h1:22#p'' ''root'' [] 22 [] = Inr a_machine" by (simp only: whole)
qed

definition default_mappings :: "string list \<Rightarrow> exn + (string \<times> string list) list \<times> (string \<times> string) list" where
  "default_mappings machines = (if machines = [] then Inl IndexError else Inr ([(''ident'', machines)], []))"

text \<open>The loop that takes n machines does not end for n = 0.\<close>

partial_function (option) take_tuples :: "nat \<Rightarrow> string list \<Rightarrow> (string list list \<times> string list) option" where
  "take_tuples n ms =
     (if length ms \<ge> n then
        Option.bind (take_tuples n (drop n ms)) (\<lambda>(ts, rest). Some (take n ms # ts, rest))
      else Some ([], ms))"

fun tuples_loop :: "nat \<Rightarrow> (string \<times> string list) list \<Rightarrow> string list list \<Rightarrow> (string \<times> string) list \<Rightarrow>
    (string list list \<times> (string \<times> string) list) option" where
  "tuples_loop n [] ntuples failures = Some (ntuples, failures)"
| "tuples_loop n ((k, ms) # mappings) ntuples failures = (case take_tuples n ms of
       None \<Rightarrow> None
     | Some (ts, rest) \<Rightarrow> tuples_loop n mappings (ntuples @ ts)
         (failures @ map (\<lambda>m. (m, ''machine can not be tupled'')) rest))"

definition form_ntuples_from_machines ::
  "(string list \<Rightarrow> exn + (string \<times> string list) list \<times> (string \<times> string) list) \<Rightarrow> string list \<Rightarrow> nat \<Rightarrow>
   (exn + string list list \<times> (string \<times> string) list) option" where
  "form_ntuples_from_machines mapping_func machines n = (case mapping_func machines of
       Inl e \<Rightarrow> Some (Inl e)
     | Inr (mappings, failures) \<Rightarrow> map_option Inr (tuples_loop n mappings [] failures))"

lemma take_tuples_spec:
  assumes "0 < n"
  shows "\<exists>ts rest. take_tuples n ms = Some (ts, rest) \<and> concat ts @ rest = ms \<and> list_all (\<lambda>t. length t = n) ts \<and> length rest < n"
proof (induction ms rule: length_induct)
  case (1 ms)
  show ?case
  proof (cases "n \<le> length ms")
    case True
    then have "length (drop n ms) < length ms" using assms by simp
    then obtain ts rest where "take_tuples n (drop n ms) = Some (ts, rest)" "concat ts @ rest = drop n ms"
        "list_all (\<lambda>t. length t = n) ts" "length rest < n"
      using 1 by blast
    then show ?thesis using True by (subst take_tuples.simps) (simp add: append_take_drop_id)
  qed (subst take_tuples.simps, simp)
qed

lemma take_tuples_zero: "take_tuples 0 ms = None"
proof -
  have "take_tuples 0 ms = Some r \<Longrightarrow> n = 0 \<Longrightarrow> False" for r n
    by (rule take_tuples.raw_induct [of "\<lambda>n ms r. n = 0 \<longrightarrow> False" 0 ms r, THEN mp]) (auto simp: bind_eq_Some_conv split: if_splits)
  then show ?thesis by (cases "take_tuples 0 ms") auto
qed

text \<open>
  (Termination; server/base\_utils.py, \<open>form_ntuples_from_machines\<close> with \<open>default_mappings\<close>). On at least one
  machine the call returns exactly when n is not 0. Then the tuples have n machines each, fewer than n machines fail, and tuples
  and failures together are the machines in their order.
\<close>

theorem ntuples_of_machines:
  assumes "machines \<noteq> []"
  shows "(n = 0 \<longrightarrow> form_ntuples_from_machines default_mappings machines n = None) \<and>
    (0 < n \<longrightarrow> (\<exists>ts fs. form_ntuples_from_machines default_mappings machines n = Some (Inr (ts, fs)) \<and>
       list_all (\<lambda>t. length t = n) ts \<and> length fs < n \<and> concat ts @ map fst fs = machines))"
proof (cases "n = 0")
  case True
  then show ?thesis using assms by (simp add: form_ntuples_from_machines_def default_mappings_def take_tuples_zero)
next
  case False
  then obtain ts rest where "take_tuples n machines = Some (ts, rest)" "concat ts @ rest = machines"
      "list_all (\<lambda>t. length t = n) ts" "length rest < n"
    using take_tuples_spec [of n machines] by auto
  then show ?thesis using False assms by (simp add: form_ntuples_from_machines_def default_mappings_def o_def)
qed

lemma ntuples_of_machines_witness:
  "\<exists>ts fs. form_ntuples_from_machines default_mappings [''a'', ''b'', ''c''] 2 = Some (Inr (ts, fs)) \<and> length fs < 2 \<and>
    concat ts @ map fst fs = [''a'', ''b'', ''c'']"
  using ntuples_of_machines [of "[''a'', ''b'', ''c'']" 2] by auto

text \<open>The bits of a text give the text back.\<close>

lemma bits_loop_mod: "bits_loop bs pos c = bits_loop bs (pos mod 8) c"
proof (induction bs arbitrary: pos c)
  case (Cons b bs)
  have "bits_loop bs (pos + 1) x = bits_loop bs (pos mod 8 + 1) x" for x
    using Cons [of "pos + 1" x] Cons [of "pos mod 8 + 1" x] by (simp add: mod_Suc_eq)
  then show ?case by (simp add: Let_def)
qed simp

lemma char_bits_Char: "char_bits (Char b0 b1 b2 b3 b4 b5 b6 b7) = map of_bool [b7, b6, b5, b4, b3, b2, b1, b0]"
proof -
  have "(of_char (Char b0 b1 b2 b3 b4 b5 b6 b7) :: int) = horner_sum of_bool 2 [b0, b1, b2, b3, b4, b5, b6, b7]"
    by (simp add: of_char_def)
  then have "and (of_char (Char b0 b1 b2 b3 b4 b5 b6 b7) :: int) (2 ^ i) \<noteq> 0 \<longleftrightarrow> i < 8 \<and> [b0, b1, b2, b3, b4, b5, b6, b7] ! i" for i
    by (simp only: and_exp_eq_0_iff_not_bit bit_horner_sum_bit_iff) (simp add: eval_nat_numeral)
  then show ?thesis by (simp add: char_bits_def)
qed

lemma bits_of_char: "bits_loop (char_bits c @ bs) 0 0 = of_char c # bits_loop bs 0 0"
proof -
  have "bits_loop bs (Suc (Suc (Suc (Suc (Suc (Suc (Suc (Suc 0)))))))) 0 = bits_loop bs 0 0"
    using bits_loop_mod [of bs 8 0] by (simp add: eval_nat_numeral)
  then show ?thesis
    by (cases c) (simp add: char_bits_Char Let_def of_char_def push_bit_eq_mult)
qed

lemma bitlist_roundtrip: "bitlist_to_string (string_to_bitlist s) = Inr s"
  unfolding bitlist_to_string_def string_to_bitlist_def
proof (induction s)
  case (Cons c s)
  have "0 \<le> (of_char c :: int) \<and> (of_char c :: int) < 256" by (cases c) (simp add: of_char_def)
  then show ?case using Cons by (simp add: bits_of_char)
qed simp

end
