(* ===== verification/Paths.thy ===== *)
theory Paths
  imports Keyval
begin

text \<open>
  Paths and ranges: \<open>get_relative_path\<close> of client/shared/utils.py with \<open>os.path.normpath\<close>, and the ranges of
  numbers in the files of cpusets, \<open>rangelist_to_set\<close> and \<open>abbrev_list\<close> of client/cpuset.py.
\<close>

section \<open>Relative paths\<close>

fun common_prefix :: "string list \<Rightarrow> string list \<Rightarrow> nat" where
  "common_prefix (x # xs) (y # ys) = (if x = y then Suc (common_prefix xs ys) else 0)"
| "common_prefix xs ys = 0"

text \<open>\<open>os.path.join(*path_list)\<close> needs an argument.\<close>

definition join_all :: "string list \<Rightarrow> exn + string" where
  "join_all cs = (case cs of [] \<Rightarrow> Inl TypeError | c # ds \<Rightarrow> Inr (foldl path_join c ds))"

definition path_list :: "string \<Rightarrow> string list" where
  "path_list path = tl (split_on (CHR ''/'') (normpath path))"

definition get_relative_path :: "string \<Rightarrow> string \<Rightarrow> exn + string" where
  "get_relative_path path reference =
     (if \<not> starts_with path ''/'' \<or> \<not> starts_with reference ''/'' then Inl AssertionError
      else let ps = path_list path; rs = path_list reference; i = common_prefix ps rs
           in join_all (replicate (length rs - i) ''..'' @ drop i ps))"

text \<open>The components of an absolute path; \<open>//\<close> at the start of a path, but not \<open>///\<close>, is a root of its own.\<close>

abbreviation slash_char :: char where "slash_char \<equiv> CHR ''/''"

definition one_root :: "string \<Rightarrow> bool" where
  "one_root p \<longleftrightarrow> starts_with p ''/'' \<and> \<not> (starts_with p ''//'' \<and> \<not> starts_with p ''///'')"

definition comps :: "string \<Rightarrow> string list" where
  "comps p = norm_comps True [] (split_on slash_char p)"

definition proper :: "string \<Rightarrow> bool" where
  "proper c \<longleftrightarrow> c \<noteq> [] \<and> c \<noteq> ''.'' \<and> c \<noteq> ''..'' \<and> slash_char \<notin> set c"

lemma norm_comps_append: "norm_comps a acc (xs @ ys) = norm_comps a (rev (norm_comps a acc xs)) ys"
  by (induction a acc xs rule: norm_comps.induct) simp_all

lemma proper_top: "list_all proper acc \<Longrightarrow> \<not> (acc \<noteq> [] \<and> hd acc = ''..'')" "list_all proper acc \<Longrightarrow> list_all proper (tl acc)"
  by (cases acc; simp add: proper_def)+

lemma norm_comps_proper:
  "list_all proper acc \<Longrightarrow> \<forall>c \<in> set cs. slash_char \<notin> set c \<Longrightarrow> list_all proper (norm_comps True acc cs)"
proof (induction cs arbitrary: acc)
  case (Cons c cs)
  have "\<not> (acc \<noteq> [] \<and> hd acc = ''..'')" "list_all proper (tl acc)" using proper_top Cons.prems(1) by blast+
  moreover have "proper c" if "c \<noteq> []" "c \<noteq> ''.''" "c \<noteq> ''..''" using that Cons.prems(2) by (simp add: proper_def)
  ultimately show ?case using Cons by (cases "c = [] \<or> c = ''.''"; cases "c = ''..''") auto
qed (simp add: list_all_iff)

lemma norm_comps_all_proper: "list_all proper cs \<Longrightarrow> norm_comps True acc cs = rev acc @ cs"
proof (induction cs arbitrary: acc)
  case (Cons c cs)
  then have "c \<noteq> []" "c \<noteq> ''.''" "c \<noteq> ''..''" by (simp_all add: proper_def)
  then show ?case using Cons by simp
qed simp

lemma norm_comps_up: "list_all proper acc \<Longrightarrow> norm_comps True acc (replicate k ''..'' @ cs) = norm_comps True (drop k acc) cs"
proof (induction k arbitrary: acc)
  case (Suc k)
  have "\<not> (acc \<noteq> [] \<and> hd acc = ''..'')" "list_all proper (tl acc)" using proper_top Suc.prems by blast+
  then show ?case using Suc.IH by (auto simp: drop_Suc)
qed simp

lemma comps_proper: "list_all proper (comps p)"
proof -
  have "\<forall>c \<in> set (split_on slash_char p). slash_char \<notin> set c" using split_on_fields by blast
  then show ?thesis unfolding comps_def by (rule norm_comps_proper [rotated]) simp
qed

lemma normpath_comps: "one_root p \<Longrightarrow> normpath p = slash_char # str_join ''/'' (comps p)"
  by (cases p) (auto simp: one_root_def normpath_def comps_def Let_def)

lemma split_comps: "list_all proper cs \<Longrightarrow> cs \<noteq> [] \<Longrightarrow> split_on slash_char (str_join ''/'' cs) = cs"
  by (rule split_join) (auto simp: proper_def list_all_iff)

lemma path_list_comps:
  assumes "one_root p"
  shows "path_list p = (if comps p = [] then [[]] else comps p)"
  using split_comps [OF comps_proper, of p] by (simp add: path_list_def normpath_comps [OF assms])

lemma normpath_eq_iff: "one_root p \<Longrightarrow> one_root r \<Longrightarrow> normpath p = normpath r \<longleftrightarrow> comps p = comps r"
proof
  assume "one_root p" "one_root r" "normpath p = normpath r"
  then have "path_list p = path_list r" by (simp add: path_list_def)
  moreover have "comps p \<noteq> [[]]" "comps r \<noteq> [[]]" using comps_proper [of p] comps_proper [of r] by (auto simp: proper_def)
  ultimately show "comps p = comps r"
    using path_list_comps [OF \<open>one_root p\<close>] path_list_comps [OF \<open>one_root r\<close>] by (auto split: if_splits)
qed (simp add: normpath_comps)

lemma split_on_at: "split_on c (a @ c # b) = split_on c a @ split_on c b"
  by (induction a) (auto split: list.splits)

lemma comps_join:
  assumes "starts_with r ''/''" "rel \<noteq> []" "hd rel \<noteq> slash_char"
  shows "comps (path_join r rel) = norm_comps True (rev (comps r)) (split_on slash_char rel)"
proof -
  have ne: "r \<noteq> []" using assms(1) by (cases r) auto
  show ?thesis
  proof (cases "last r = slash_char")
    case True
    then obtain q where r: "r = q @ [slash_char]" using ne by (metis append_butlast_last_id)
    have "comps r = norm_comps True [] (split_on slash_char q)"
      by (simp add: comps_def r split_on_at norm_comps_append)
    moreover have "comps (path_join r rel) = norm_comps True [] (split_on slash_char q @ split_on slash_char rel)"
      using assms(3) by (simp add: comps_def path_join_def r split_on_at)
    ultimately show ?thesis by (simp add: norm_comps_append)
  next
    case False
    then have "comps (path_join r rel) = norm_comps True [] (split_on slash_char r @ split_on slash_char rel)"
      using ne assms(3) by (simp add: comps_def path_join_def split_on_at)
    then show ?thesis by (simp add: norm_comps_append comps_def)
  qed
qed

lemma one_root_join:
  assumes "one_root r" "hd rel \<noteq> slash_char" "rel \<noteq> []"
  shows "one_root (path_join r rel)"
proof -
  obtain r1 where r: "r = slash_char # r1" using assms(1) by (cases r) (auto simp: one_root_def)
  then show ?thesis using assms by (cases r1; cases "tl r1"; cases rel) (auto simp: one_root_def path_join_def)
qed

text \<open>Joining components gives a text that splits into them; the last may be empty.\<close>

lemma ends_differ: "b \<noteq> [] \<Longrightarrow> c \<notin> set b \<Longrightarrow> hd b \<noteq> c \<and> last b \<noteq> c"
  using hd_in_set [of b] last_in_set [of b] by metis

lemma join_fold:
  "a \<noteq> [] \<Longrightarrow> last a \<noteq> slash_char \<Longrightarrow> \<forall>c \<in> set cs. slash_char \<notin> set c \<Longrightarrow> \<forall>c \<in> set (butlast cs). c \<noteq> [] \<Longrightarrow>
    foldl path_join a cs = str_join ''/'' (a # cs)"
proof (induction cs arbitrary: a)
  case (Cons b cs)
  have hd_b: "b \<noteq> [] \<Longrightarrow> hd b \<noteq> slash_char \<and> last b \<noteq> slash_char" using Cons.prems(3) ends_differ [of b] by simp
  then have join: "path_join a b = a @ ''/'' @ b" using Cons.prems(1,2) by (auto simp: path_join_def)
  show ?case
  proof (cases "cs = []")
    case True
    then show ?thesis by (simp add: join)
  next
    case False
    then have "b \<noteq> []" using Cons.prems(4) by auto
    then have "foldl path_join (a @ ''/'' @ b) cs = str_join ''/'' ((a @ ''/'' @ b) # cs)"
      using Cons.prems False hd_b by (intro Cons.IH) auto
    then show ?thesis using False by (cases cs) (simp_all add: join)
  qed
qed simp

definition relative :: "string list \<Rightarrow> bool" where
  "relative cs \<longleftrightarrow> cs \<noteq> [] \<and> hd cs \<noteq> [] \<and> (\<forall>c \<in> set cs. slash_char \<notin> set c) \<and> (\<forall>c \<in> set (butlast cs). c \<noteq> [])"

lemma join_relative:
  assumes "relative cs"
  shows "\<exists>rel. join_all cs = Inr rel \<and> rel \<noteq> [] \<and> hd rel \<noteq> slash_char \<and> split_on slash_char rel = cs"
proof -
  from assms obtain c ds where cs: "cs = c # ds" "c \<noteq> []" by (cases cs) (auto simp: relative_def)
  have "hd c \<noteq> slash_char" "last c \<noteq> slash_char" using assms cs ends_differ [of c] by (auto simp: relative_def)
  moreover from this have join: "foldl path_join c ds = str_join ''/'' cs"
    using assms cs join_fold [of c ds] by (auto simp: relative_def split: if_splits)
  moreover have "split_on slash_char (str_join ''/'' cs) = cs" using assms by (intro split_join) (auto simp: relative_def)
  moreover have "hd (str_join ''/'' cs) = hd c \<and> str_join ''/'' cs \<noteq> []" using cs by (cases ds) auto
  ultimately show ?thesis using cs by (simp add: join_all_def)
qed

lemma common_prefix_split:
  "\<exists>cm ps rs. xs = cm @ ps \<and> ys = cm @ rs \<and> length cm = common_prefix xs ys"
proof (induction xs ys rule: common_prefix.induct)
  case (1 x xs y ys)
  show ?case
  proof (cases "x = y")
    case True
    then obtain cm ps rs where "xs = cm @ ps" "ys = cm @ rs" "length cm = common_prefix xs ys" using 1 by blast
    then have "x # xs = (x # cm) @ ps \<and> y # ys = (x # cm) @ rs \<and> length (x # cm) = common_prefix (x # xs) (y # ys)"
      using True by simp
    then show ?thesis by blast
  qed auto
qed auto

lemma common_prefix_le: "common_prefix xs ys \<le> length ys"
  by (induction xs ys rule: common_prefix.induct) auto

lemma common_prefix_all: "common_prefix xs ys = length xs \<Longrightarrow> common_prefix xs ys = length ys \<Longrightarrow> xs = ys"
  by (induction xs ys rule: common_prefix.induct) (auto split: if_splits)

text \<open>The way from the reference to the path: up and down again.\<close>

definition way :: "string list \<Rightarrow> string list \<Rightarrow> string list" where
  "way ps rs = replicate (length rs - common_prefix ps rs) ''..'' @ drop (common_prefix ps rs) ps"

lemma way_comps:
  assumes "list_all proper ps" "list_all proper rs"
  shows "norm_comps True (rev rs) (way ps rs) = ps"
proof -
  obtain cm xs ys where eq: "ps = cm @ xs" "rs = cm @ ys" "length cm = common_prefix ps rs"
    using common_prefix_split [of ps rs] by blast
  then have "way ps rs = replicate (length ys) ''..'' @ xs" by (simp add: way_def)
  moreover have "norm_comps True (rev rs) (replicate (length ys) ''..'' @ xs) = norm_comps True (rev cm) xs"
  proof -
    have "list_all proper (rev rs)" using assms(2) by (simp add: list_all_iff)
    from norm_comps_up [OF this, of "length ys" xs] show ?thesis by (simp add: eq(2))
  qed
  ultimately show ?thesis using assms(1) norm_comps_all_proper [of xs "rev cm"] by (simp add: eq(1))
qed

lemma way_relative:
  assumes "list_all proper ps" "list_all proper rs" "ps \<noteq> rs"
  shows "relative (way (if ps = [] then [[]] else ps) (if rs = [] then [[]] else rs)) \<and>
    norm_comps True (rev rs) (way (if ps = [] then [[]] else ps) (if rs = [] then [[]] else rs)) = ps"
proof -
  have no: "slash_char \<notin> set ''..''" by simp
  have proper: "c \<noteq> []" "slash_char \<notin> set c" if "c \<in> set ps \<union> set rs" for c
    using that assms(1,2) by (auto simp: proper_def list_all_iff)
  have up: "norm_comps True (rev rs) (replicate (length rs) ''..'' @ cs) = norm_comps True [] cs" for cs
    using norm_comps_up [of "rev rs" "length rs" cs] assms(2) by (simp add: list_all_iff)
  consider "ps = []" "rs \<noteq> []" | "ps \<noteq> []" "rs = []" | "ps \<noteq> []" "rs \<noteq> []" using assms(3) by blast
  then show ?thesis
  proof cases
    case 1
    then have "way [[]] rs = replicate (length rs) ''..'' @ [[]]" using proper by (cases rs) (auto simp: way_def)
    moreover have "relative (replicate (length rs) ''..'' @ [[]])"
      using 1(2) no by (cases rs) (auto simp: relative_def butlast_append)
    ultimately show ?thesis using 1 up [of "[[]]"] by simp
  next
    case 2
    then have "way ps [[]] = ''..'' # ps" using proper by (cases ps) (auto simp: way_def)
    moreover have "relative (''..'' # ps)" using proper no by (auto simp: relative_def dest: in_set_butlastD)
    moreover have "norm_comps True [] (replicate 1 ''..'' @ ps) = ps"
      using norm_comps_up [of "[]" 1 ps] norm_comps_all_proper [OF assms(1), of "[]"] by (simp del: replicate_Suc)
    ultimately show ?thesis using 2 by simp
  next
    case 3
    have le: "common_prefix xs ys \<le> length xs" for xs ys by (induction xs ys rule: common_prefix.induct) auto
    have "way ps rs \<noteq> []"
    proof
      assume "way ps rs = []"
      then have "length rs \<le> common_prefix ps rs" "length ps \<le> common_prefix ps rs" by (simp_all add: way_def)
      then have "common_prefix ps rs = length ps" "common_prefix ps rs = length rs"
        using le [of ps rs] common_prefix_le [of ps rs] by linarith+
      then show False using common_prefix_all assms(3) by blast
    qed
    moreover have "c \<noteq> [] \<and> slash_char \<notin> set c" if "c \<in> set (way ps rs)" for c
    proof -
      have "c = ''..'' \<or> c \<in> set ps" using that by (auto simp: way_def dest: in_set_dropD)
      then show ?thesis using proper no by blast
    qed
    ultimately have "relative (way ps rs)" by (simp add: relative_def in_set_butlastD)
    then show ?thesis using 3 way_comps [OF assms(1,2)] by simp
  qed
qed

text \<open>
  \<open>get_relative_path\<close> (client/shared/utils.py). The relative path of two absolute paths, joined to
  the reference again, names the path: both normalize to the same. When the two paths are the same the call
  raises TypeError instead, as there is nothing left to join.
\<close>

theorem relative_path_leads_back:
  assumes "one_root path" "one_root reference"
  shows "(if normpath path = normpath reference then get_relative_path path reference = Inl TypeError
     else \<exists>rel. get_relative_path path reference = Inr rel \<and> normpath (path_join reference rel) = normpath path)"
proof -
  have start: "starts_with path ''/''" "starts_with reference ''/''" using assms by (simp_all add: one_root_def)
  have lists: "path_list path = (if comps path = [] then [[]] else comps path)"
      "path_list reference = (if comps reference = [] then [[]] else comps reference)"
    using assms by (simp_all add: path_list_comps)
  have eq: "get_relative_path path reference = join_all (way (path_list path) (path_list reference))"
    using start by (simp add: get_relative_path_def way_def Let_def)
  show ?thesis
  proof (cases "comps path = comps reference")
    case True
    have "way xs xs = []" for xs by (induction xs) (simp_all add: way_def)
    then show ?thesis using True normpath_eq_iff [OF assms] eq lists by (simp add: join_all_def)
  next
    case False
    note way = way_relative [OF comps_proper comps_proper False]
    then obtain rel where rel: "join_all (way (path_list path) (path_list reference)) = Inr rel" "rel \<noteq> []" "hd rel \<noteq> slash_char"
        "split_on slash_char rel = way (path_list path) (path_list reference)"
      using join_relative lists by fastforce
    have "comps (path_join reference rel) = comps path"
      using comps_join [OF start(2) rel(2,3)] way rel(4) lists by simp
    then have "normpath (path_join reference rel) = normpath path"
      using normpath_eq_iff [OF one_root_join [OF assms(2) rel(3,2)] assms(1)] by simp
    then show ?thesis using False normpath_eq_iff [OF assms] eq rel(1) by simp
  qed
qed

lemma relative_path_leads_back_witness:
  "normpath (path_join ''/usr/lib/'' (case get_relative_path ''/usr//share/./doc'' ''/usr/lib/'' of Inr rel \<Rightarrow> rel)) = ''/usr/share/doc''"
proof -
  have "one_root ''/usr//share/./doc''" "one_root ''/usr/lib/''" by (simp_all add: one_root_def)
  moreover have "normpath ''/usr//share/./doc'' = ''/usr/share/doc''" "normpath ''/usr/lib/'' = ''/usr/lib''" by code_simp+
  ultimately show ?thesis using relative_path_leads_back [of "''/usr//share/./doc''" "''/usr/lib/''"] by auto
qed

section \<open>Ranges\<close>

text \<open>\<open>^(\\d+)$\<close> and \<open>^(\\d+)-(\\d+)$\<close>, whose \<open>$\<close> also matches before a final newline.\<close>

definition range_of :: "string \<Rightarrow> nat list option" where
  "range_of x =
     (let t = without_final_newline x; s = takeWhile is_digit t; r = dropWhile is_digit t
      in if all_digits t then Some [nat_of_digits t]
         else if s \<noteq> [] \<and> r \<noteq> [] \<and> hd r = CHR ''-'' \<and> all_digits (tl r) then
           Some [nat_of_digits s..<nat_of_digits (tl r) + 1]
         else None)"

text \<open>A set is a list without duplicates.\<close>

fun rangelist_loop :: "string list \<Rightarrow> nat list \<Rightarrow> exn + nat list" where
  "rangelist_loop [] result = Inr result"
| "rangelist_loop (x # xs) result = (case range_of x of
       None \<Rightarrow> Inl ValueError
     | Some ns \<Rightarrow> rangelist_loop xs (foldl (\<lambda>d n. set_add n d) result ns))"

definition rangelist_to_set :: "string \<Rightarrow> exn + nat list" where
  "rangelist_to_set rangelist = (if rangelist = [] then Inr [] else rangelist_loop (split_on (CHR '','') rangelist) [])"

fun abbrev_loop :: "int list \<Rightarrow> int \<Rightarrow> int \<Rightarrow> string list \<Rightarrow> string list" where
  "abbrev_loop [] lower upper ranges = ranges"
| "abbrev_loop (val # vs) lower upper ranges =
     (if val \<noteq> upper + 1 then
        abbrev_loop vs val val
          (if lower = upper then ranges @ [str_of_int lower]
           else if lower \<le> upper then ranges @ [str_of_int lower @ ''-'' @ str_of_int upper]
           else ranges)
      else abbrev_loop vs lower val ranges)"

definition abbrev_list :: "int list \<Rightarrow> string" where
  "abbrev_list vals = str_join '','' (abbrev_loop (sort vals @ [-1]) 0 (-2) [])"

text \<open>The ranges as pairs, and the text of a pair.\<close>

fun range_pairs :: "int list \<Rightarrow> int \<Rightarrow> int \<Rightarrow> (int \<times> int) list" where
  "range_pairs [] l u = []"
| "range_pairs (v # vs) l u =
     (if v \<noteq> u + 1 then (if l \<le> u then [(l, u)] else []) @ range_pairs vs v v else range_pairs vs l v)"

definition range_text :: "int \<times> int \<Rightarrow> string" where
  "range_text p = (case p of (l, u) \<Rightarrow> if l = u then str_of_int l else str_of_int l @ ''-'' @ str_of_int u)"

lemma abbrev_loop_pairs: "abbrev_loop vs l u ranges = ranges @ map range_text (range_pairs vs l u)"
  by (induction vs l u ranges rule: abbrev_loop.induct) (auto simp: range_text_def)

lemma range_pairs_union:
  assumes "sorted vs" "0 \<le> l" "l \<le> u" "\<forall>v \<in> set vs. u \<le> v"
  shows "(\<Union>(a, b) \<in> set (range_pairs (vs @ [-1]) l u). {a..b}) = {l..u} \<union> set vs \<and>
    (\<forall>(a, b) \<in> set (range_pairs (vs @ [-1]) l u). 0 \<le> a \<and> a \<le> b)"
  using assms
proof (induction vs arbitrary: l u)
  case (Cons v vs)
  show ?case
  proof (cases "v = u + 1")
    case True
    have "{l..v} = insert v {l..u}" using True Cons.prems(3) by auto
    moreover have "(\<Union>(a, b) \<in> set (range_pairs (vs @ [-1]) l v). {a..b}) = {l..v} \<union> set vs \<and>
        (\<forall>(a, b) \<in> set (range_pairs (vs @ [-1]) l v). 0 \<le> a \<and> a \<le> b)"
      using Cons.prems True by (intro Cons.IH) auto
    ultimately show ?thesis using True by simp
  next
    case False
    have "(\<Union>(a, b) \<in> set (range_pairs (vs @ [-1]) v v). {a..b}) = {v..v} \<union> set vs \<and>
        (\<forall>(a, b) \<in> set (range_pairs (vs @ [-1]) v v). 0 \<le> a \<and> a \<le> b)"
      using Cons.prems by (intro Cons.IH) auto
    then show ?thesis using False Cons.prems(2,3) by simp
  qed
qed auto

lemma range_of_text:
  assumes "0 \<le> l" "l \<le> u"
  shows "range_of (range_text (l, u)) = Some [nat l..<nat u + 1]"
proof -
  have digits: "list_all is_digit (str_of_nat n)" for n using str_of_nat_digits by (simp add: list_all_iff)
  then have all: "all_digits (str_of_nat n)" for n by (simp add: all_digits_def)
  have minus: "\<not> is_digit (CHR ''-'')" by (simp add: is_digit_def)
  have last: "is_digit (last (str_of_nat n))" for n using str_of_nat_digits [of n] last_in_set [of "str_of_nat n"] by auto
  have newline: "\<not> is_digit newline" by (simp add: is_digit_def)
  show ?thesis
  proof (cases "l = u")
    case True
    have "without_final_newline (str_of_nat n) = str_of_nat n" for n
      using last [of n] newline by (auto simp: without_final_newline_def)
    then show ?thesis using True assms all by (simp add: range_of_def range_text_def str_of_int_def)
  next
    case False
    let ?t = "str_of_nat (nat l) @ CHR ''-'' # str_of_nat (nat u)"
    have t: "range_text (l, u) = ?t" using assms False by (simp add: range_text_def str_of_int_def)
    have "last ?t = last (str_of_nat (nat u))" by simp
    then have "without_final_newline ?t = ?t" using last [of "nat u"] newline by (auto simp: without_final_newline_def)
    moreover have "takeWhile is_digit ?t = str_of_nat (nat l)" "dropWhile is_digit ?t = CHR ''-'' # str_of_nat (nat u)"
      using str_of_nat_digits minus by (simp_all add: takeWhile_append2 dropWhile_append2)
    moreover have "\<not> all_digits ?t" using minus by (simp add: all_digits_def)
    ultimately show ?thesis using all by (simp add: t range_of_def Let_def)
  qed
qed

lemma set_add_all: "set (foldl (\<lambda>d n. set_add n d) result ns) = set result \<union> set ns"
  by (induction ns arbitrary: result) (auto simp: set_add_def)

lemma rangelist_loop_pairs:
  "\<forall>(a, b) \<in> set ps. 0 \<le> a \<and> a \<le> b \<Longrightarrow> \<exists>r. rangelist_loop (map range_text ps) result = Inr r \<and>
    set r = set result \<union> (\<Union>(a, b) \<in> set ps. {nat a..nat b})"
proof (induction ps arbitrary: result)
  case (Cons p ps)
  obtain a b where p: "p = (a, b)" by (cases p)
  with Cons.prems have "range_of (range_text p) = Some [nat a..<nat b + 1]" by (simp add: range_of_text)
  moreover obtain r where "rangelist_loop (map range_text ps) (foldl (\<lambda>d n. set_add n d) result [nat a..<nat b + 1]) = Inr r"
      "set r = set (foldl (\<lambda>d n. set_add n d) result [nat a..<nat b + 1]) \<union> (\<Union>(a, b) \<in> set ps. {nat a..nat b})"
    using Cons by fastforce
  ultimately show ?case using p by (auto simp: set_add_all)
qed simp

lemma nat_interval: "0 \<le> a \<Longrightarrow> a \<le> b \<Longrightarrow> {nat a..nat b} = nat ` {a..b}"
proof (intro equalityI subsetI)
  fix x assume "0 \<le> a" "a \<le> b" "x \<in> {nat a..nat b}"
  then have "int x \<in> {a..b}" "x = nat (int x)" by auto
  then show "x \<in> nat ` {a..b}" by (rule rev_image_eqI)
qed auto

text \<open>
  \<open>abbrev_list\<close> and \<open>rangelist_to_set\<close> (client/cpuset.py). The text of a list of unsigned numbers, in
  any order and with repetitions, is read back as the set of the numbers.
\<close>

theorem ranges_roundtrip:
  assumes "\<forall>v \<in> set vals. 0 \<le> v"
  shows "\<exists>r. rangelist_to_set (abbrev_list vals) = Inr r \<and> set r = nat ` set vals"
proof (cases "vals = []")
  case True
  then show ?thesis by (simp add: abbrev_list_def rangelist_to_set_def)
next
  case False
  let ?ps = "range_pairs (sort vals @ [-1]) 0 (-2)"
  obtain v vs where vs: "sort vals = v # vs" using False by (cases "sort vals") (auto dest: arg_cong [of _ _ length])
  have v: "sorted vs" "\<forall>x \<in> set vs. v \<le> x" "set vals = insert v (set vs)"
  proof -
    have "sorted (v # vs)" using sorted_sort [of vals] by (simp only: vs)
    moreover have "set (v # vs) = set vals" using set_sort [of "\<lambda>x. x" vals] by (simp only: vs)
    ultimately have *: "sorted (v # vs) \<and> set (v # vs) = set vals" by blast
    then show "sorted vs" "\<forall>x \<in> set vs. v \<le> x" "set vals = insert v (set vs)" by auto
  qed
  then have "0 \<le> v" using assms by simp
  then have ps: "?ps = range_pairs (vs @ [-1]) v v" by (simp add: vs)
  note union = range_pairs_union [OF v(1) \<open>0 \<le> v\<close> order_refl v(2), folded ps]
  then have "?ps \<noteq> []" by auto
  have comma: "\<forall>t \<in> set (map range_text ?ps). CHR '','' \<notin> set t"
  proof -
    have "CHR '','' \<notin> set (str_of_nat n)" for n using str_of_nat_digits [of n] by (auto simp: is_digit_def)
    then show ?thesis by (auto simp: range_text_def str_of_int_def)
  qed
  have "abbrev_list vals = str_join '','' (map range_text ?ps)" by (simp add: abbrev_list_def abbrev_loop_pairs)
  moreover have "split_on (CHR '','') (str_join '','' (map range_text ?ps)) = map range_text ?ps"
    using comma \<open>?ps \<noteq> []\<close> by (intro split_join) auto
  moreover have "str_join '','' (map range_text ?ps) \<noteq> []"
    using \<open>?ps \<noteq> []\<close> by (cases ?ps; cases "tl ?ps") (auto simp: range_text_def str_of_int_def split: if_splits)
  ultimately obtain r where r: "rangelist_to_set (abbrev_list vals) = Inr r" "set r = (\<Union>(a, b) \<in> set ?ps. {nat a..nat b})"
    using rangelist_loop_pairs [of ?ps "[]"] union by (auto simp: rangelist_to_set_def)
  have "(\<Union>(a, b) \<in> set ?ps. {nat a..nat b}) = nat ` (\<Union>(a, b) \<in> set ?ps. {a..b})"
    using union by (fastforce simp: nat_interval image_UN)
  also have "\<dots> = nat ` set vals" using union v(3) by simp
  finally show ?thesis using r by simp
qed

lemma ranges_roundtrip_witness:
  "\<exists>r. rangelist_to_set ''0,4-7,10'' = Inr r \<and> set r = {0, 4, 5, 6, 7, 10}"
proof -
  have "abbrev_list [10, 4, 5, 0, 6, 7, 4] = ''0,4,4-7,10''" by code_simp
  have "abbrev_list [10, 4, 5, 0, 6, 7] = ''0,4-7,10''" by code_simp
  with ranges_roundtrip [of "[10, 4, 5, 0, 6, 7]"] show ?thesis by auto
qed

end
