(* ===== verification/Client_Job.thy ===== *)
theory Client_Job
  imports Parser_Calls
begin

text \<open>
  The job on a client, client/job.py: the groups and tests it logs, tasks in parallel, the step engine that
  goes on after a reboot, and \<open>runjob\<close>. Functions of a control file (tests, groups, steps) are computations on the
  job; what Python does around them is the record \<open>job_env\<close>. The harness, the loggers of the process and the
  profilers are not modelled.
\<close>

section \<open>State\<close>

text \<open>
  Positional and named arguments, and a step: its ancestry, the name of its function and the arguments. The
  steps, the options, \<open>unexpected_reboot\<close> and the indent of the logger live in the state file, the rest in
  memory; \<open>cj_world\<close> is everything else a control file can change.
\<close>

type_synonym 'a call_args = "'a list \<times> (string \<times> 'a) list"

type_synonym 'a step = "string list \<times> string \<times> 'a call_args"

record ('w, 'a) client_job =
  cj_logger :: status_logger
  cj_unexpected_reboot :: "(string option \<times> string option) option"
  cj_persistent_options :: "(string \<times> string) list"
  cj_steps :: "'a step list option"
  cj_is_continuation :: bool
  cj_current_step_ancestry :: "string list"
  cj_next_step_index :: nat
  cj_max_disk_usage_rate :: nat
  cj_world :: 'w

type_synonym ('w, 'a, 'r) on_job = "(('w, 'a) client_job, 'r) exm"

text \<open>What a step may be given as: a name, a function, anything else, or a list of one of these and arguments.\<close>

datatype fn_ref = Named string | Function string | No_function

datatype 'a step_fn = Plain fn_ref | Listed "(fn_ref \<times> 'a list) option"

type_synonym 'v name_space = "(string \<times> 'v) list"

record ('w, 'a, 'v) job_env =
  je_localtime :: "int \<Rightarrow> string"
  je_now :: "'w \<Rightarrow> int"
  je_str :: "exn \<Rightarrow> 'w \<Rightarrow> string"                      \<comment> \<open>\<open>str(e)\<close>\<close>
  je_traceback :: "exn \<Rightarrow> 'w \<Rightarrow> string"
  je_command :: "exn \<Rightarrow> 'w \<Rightarrow> string option"           \<comment> \<open>\<open>e.args[1]\<close>\<close>
  je_disk_warning :: "nat \<Rightarrow> 'w \<Rightarrow> string option"      \<comment> \<open>the message of the disk monitor for a limit\<close>
  je_makedirs :: "string \<Rightarrow> 'w \<Rightarrow> string list option"
  je_has_control :: bool                             \<comment> \<open>the control file exists\<close>
  je_control :: "('w, 'a, unit) on_job"               \<comment> \<open>\<open>execfile\<close> of the control file\<close>
  je_globals :: "'w \<Rightarrow> 'v name_space"
  je_call :: "'v \<Rightarrow> 'a call_args \<Rightarrow> ('w, 'a, 'v) on_job"
  je_locals :: "'v \<Rightarrow> 'v name_space option"             \<comment> \<open>the value is a dictionary\<close>
  je_fn_ref :: "'v \<Rightarrow> fn_ref"
  je_setup :: "'w \<Rightarrow> exn option"                     \<comment> \<open>what \<open>_post_record_init\<close> raises before the START line\<close>
  je_run_start :: "'w \<Rightarrow> exn option"                 \<comment> \<open>what it raises behind it\<close>

text \<open>\<open>try: m except: h else: f\<close>\<close>

definition try_else :: "('s, 'a) exm \<Rightarrow> (exn \<Rightarrow> ('s, 'b) exm) \<Rightarrow> ('a \<Rightarrow> ('s, 'b) exm) \<Rightarrow> ('s, 'b) exm" where
  "try_else m h f = (\<lambda>s. case m s of (Inl e, t) \<Rightarrow> h e t | (Inr x, t) \<Rightarrow> f x t)"

section \<open>Exceptions\<close>

text \<open>The classes of client/shared/error.py: a SystemExit, and the subclasses of \<open>JobError\<close>.\<close>

definition is_exit :: "exn \<Rightarrow> bool" where
  "is_exit e \<longleftrightarrow> e = JobContinue \<or> e = JobComplete"

definition is_job_error :: "exn \<Rightarrow> bool" where
  "is_job_error e \<longleftrightarrow> e = JobError \<or> e = BarrierError \<or> e = BarrierAbortError"

definition exit_status_of :: "exn \<Rightarrow> string option" where
  "exit_status_of e = (case e of TestException s \<Rightarrow> Some s | _ \<Rightarrow> None)"

definition UnhandledTestError :: exn where
  "UnhandledTestError = TestException ''ERROR''"

section \<open>Tests and groups\<close>

definition job_record ::
  "('w, 'a, 'v) job_env \<Rightarrow> string \<Rightarrow> string option \<Rightarrow> string option \<Rightarrow> string \<Rightarrow> (string \<times> string) list \<Rightarrow> ('w, 'a, unit) on_job" where
  "job_record env status_code subdir operation status optional_fields =
     bnd (gets (\<lambda>j. new_log_entry (je_localtime env) (je_now env (cj_world j)) status_code subdir operation status
       optional_fields None)) (\<lambda>r.
     bnd (lift_sum r) (\<lambda>e. zoom cj_logger (\<lambda>l j. j\<lparr>cj_logger := l\<rparr>) (logger_record_entry e True)))"

text \<open>
  A forked child (\<open>fork_start\<close>, \<open>fork_waitfor\<close>) has a copy of the job's memory: the steps, the options, the
  indent and \<open>unexpected_reboot\<close> are in the state file, which the processes share, as are logs, harness and
  world. An \<open>AutotestError\<close> of the child comes back as it is, any other end of it as a test error. That a child
  that exits also leaves the frames of its parent it has copied, whose \<open>finally\<close> clauses run in it, is not
  modelled.
\<close>

definition child_error :: "exn \<Rightarrow> exn" where
  "child_error e = (if exit_status_of e \<noteq> None \<or> is_job_error e \<or> e = StepError then e else UnhandledTestError)"

definition own_memory :: "('w, 'a) client_job \<Rightarrow> ('w, 'a) client_job \<Rightarrow> ('w, 'a) client_job" where
  "own_memory j j' = j'\<lparr>
     cj_logger := (cj_logger j')\<lparr>sl_global_filename := sl_global_filename (cj_logger j), sl_tap := sl_tap (cj_logger j)\<rparr>,
     cj_current_step_ancestry := cj_current_step_ancestry j, cj_next_step_index := cj_next_step_index j\<rparr>"

definition forked :: "('w, 'a, 'r) on_job \<Rightarrow> ('w, 'a, exn option) on_job" where
  "forked m = (\<lambda>j. case m j of (r, j') \<Rightarrow>
     (Inr (case r of Inl e \<Rightarrow> Some (child_error e) | Inr _ \<Rightarrow> None), own_memory j j'))"

text \<open>
  \<open>body\<close> is what the child does; where a timeout kills it, what it did until then, with a test error as its end.
\<close>

definition runtest :: "('w, 'a, unit) on_job \<Rightarrow> ('w, 'a, unit) on_job" where
  "runtest body = bnd (forked body) (\<lambda>r. case r of
       None \<Rightarrow> ret ()
     | Some e \<Rightarrow> if exit_status_of e \<noteq> None \<or> is_job_error e then throw e else throw UnhandledTestError)"

definition disk_usage_stop :: "('w, 'a, 'v) job_env \<Rightarrow> nat \<Rightarrow> (string \<Rightarrow> ('w, 'a, unit) on_job) \<Rightarrow> ('w, 'a, unit) on_job" where
  "disk_usage_stop env limit func =
     (if limit = 0 then ret ()
      else bnd (gets (\<lambda>j. je_disk_warning env limit (cj_world j))) (\<lambda>msg.
        case msg of None \<Rightarrow> ret () | Some m \<Rightarrow> func m))"

definition group_func :: "('w, 'a, 'v) job_env \<Rightarrow> nat \<Rightarrow> string option \<Rightarrow> string \<Rightarrow> ('w, 'a, unit) on_job \<Rightarrow> ('w, 'a, unit) on_job" where
  "group_func env limit subdir testname body =
     finally_do
       (try_else (runtest body)
         (\<lambda>e. case exit_status_of e of
             Some st \<Rightarrow> bnd (gets (\<lambda>j. je_str env e (cj_world j))) (\<lambda>msg.
               andthen (job_record env st subdir (Some testname) msg []) (throw e))
           | None \<Rightarrow> throw e)
         (\<lambda>_. job_record env ''GOOD'' subdir (Some testname) ''completed successfully'' []))
       (disk_usage_stop env limit (\<lambda>reason. job_record env ''WARN'' subdir (Some testname) reason []))"

definition end_group :: "('w, 'a, 'v) job_env \<Rightarrow> string option \<Rightarrow> string option \<Rightarrow> exn \<Rightarrow> ('w, 'a, 'r) on_job" where
  "end_group env subdir testname e = (case exit_status_of e of
       Some st \<Rightarrow> andthen (job_record env (''END '' @ st) subdir testname [] []) (throw e)
     | None \<Rightarrow>
         if is_job_error e then andthen (job_record env ''END ABORT'' subdir testname [] []) (throw e)
         else if is_exit e then throw e
         else bnd (gets (\<lambda>j. je_str env e (cj_world j) @ newline # je_traceback env e (cj_world j))) (\<lambda>err_msg.
           andthen (job_record env ''END ERROR'' subdir testname err_msg []) (throw e)))"

definition rungroup ::
  "('w, 'a, 'v) job_env \<Rightarrow> string option \<Rightarrow> string option \<Rightarrow> ('w, 'a, 'r) on_job \<Rightarrow> nat option \<Rightarrow> ('w, 'a, 'r) on_job" where
  "rungroup env subdir testname function timeout =
     finally_do
       (andthen (job_record env ''START'' subdir testname []
           (case timeout of None \<Rightarrow> [] | Some t \<Rightarrow> if t = 0 then [] else [(''timeout'', str_of_nat t)])) (
        andthen (modify (\<lambda>j. j\<lparr>cj_unexpected_reboot := Some (subdir, testname)\<rparr>)) (
        catch (bnd function (\<lambda>result. andthen (job_record env ''END GOOD'' subdir testname [] []) (ret result)))
          (end_group env subdir testname))))
       (modify (\<lambda>j. j\<lparr>cj_unexpected_reboot := None\<rparr>))"

text \<open>
  The directory of a test must be new. \<open>je_makedirs\<close> gives the directories \<open>os.makedirs\<close> creates, the path
  among them, or None where it fails.
\<close>

definition make_test_outputdir :: "('w, 'a, 'v) job_env \<Rightarrow> string \<Rightarrow> ('w, 'a, unit) on_job" where
  "make_test_outputdir env subdir =
     bnd (gets (\<lambda>j. path_join (sl_resultdir (cj_logger j)) subdir)) (\<lambda>path.
     bnd (gets (\<lambda>j. path \<in> set (sl_dirs (cj_logger j)) \<or> map_of (sl_files (cj_logger j)) path \<noteq> None)) (\<lambda>found.
     if found then throw (TestException ''ERROR'')
     else bnd (gets (\<lambda>j. je_makedirs env path (cj_world j))) (\<lambda>made. case made of
         None \<Rightarrow> throw (TestException ''ERROR'')
       | Some ds \<Rightarrow> modify (\<lambda>j. j\<lparr>cj_logger := (cj_logger j)\<lparr>sl_dirs := sl_dirs (cj_logger j) @ ds\<rparr>\<rparr>))))"

text \<open>\<open>run_test\<close> and \<open>run_test_detail\<close> with the name and directory of the test, see \<open>build_tagged_test_name\<close>.\<close>

definition run_test_group :: "('w, 'a, 'v) job_env \<Rightarrow> string \<Rightarrow> string \<Rightarrow> nat option \<Rightarrow> ('w, 'a, unit) on_job \<Rightarrow> ('w, 'a, unit) on_job" where
  "run_test_group env subdir testname timeout body =
     bnd (gets cj_max_disk_usage_rate) (\<lambda>limit.
     rungroup env (Some subdir) (Some testname) (group_func env limit (Some subdir) testname body) timeout)"

definition run_test :: "('w, 'a, 'v) job_env \<Rightarrow> string \<Rightarrow> string \<Rightarrow> nat option \<Rightarrow> ('w, 'a, unit) on_job \<Rightarrow> ('w, 'a, bool) on_job" where
  "run_test env subdir testname timeout body =
     andthen (make_test_outputdir env subdir) (
     catch (andthen (run_test_group env subdir testname timeout body) (ret True))
       (\<lambda>e. if exit_status_of e \<noteq> None then ret False else throw e))"

definition run_test_detail :: "('w, 'a, 'v) job_env \<Rightarrow> string \<Rightarrow> string \<Rightarrow> nat option \<Rightarrow> ('w, 'a, unit) on_job \<Rightarrow> ('w, 'a, string) on_job" where
  "run_test_detail env subdir testname timeout body =
     andthen (make_test_outputdir env subdir) (
     catch (andthen (run_test_group env subdir testname timeout body) (ret ''GOOD''))
       (\<lambda>e. case exit_status_of e of Some st \<Rightarrow> ret st | None \<Rightarrow> throw e))"

definition run_group :: "('w, 'a, 'v) job_env \<Rightarrow> string \<Rightarrow> ('w, 'a, 'r) on_job \<Rightarrow> ('w, 'a, 'r) on_job" where
  "run_group env name function =
     catch (rungroup env None (Some name) function None)
       (\<lambda>e. if is_exit e \<or> exit_status_of e \<noteq> None then throw e else throw UnhandledTestError)"

section \<open>Tasks in parallel\<close>

text \<open>
  A task is a child with an indent of its own, which starts at the indent of the job. The children do not read
  each other's files, so they run one after another here.
\<close>

definition fork_task :: "('w, 'a, 'r) on_job \<Rightarrow> ('w, 'a, exn option) on_job" where
  "fork_task m = bnd (gets (\<lambda>j. sl_indent (cj_logger j))) (\<lambda>i.
     bnd (forked m) (\<lambda>r.
     andthen (modify (\<lambda>j. j\<lparr>cj_logger := (cj_logger j)\<lparr>sl_indent := i\<rparr>\<rparr>)) (ret r)))"

definition set_global_filename :: "string \<Rightarrow> ('w, 'a, unit) on_job" where
  "set_global_filename f = modify (\<lambda>j. j\<lparr>cj_logger := (cj_logger j)\<lparr>sl_global_filename := f\<rparr>\<rparr>)"

definition task_log :: "string \<Rightarrow> nat \<Rightarrow> string" where
  "task_log f i = f @ ''.'' @ str_of_nat i"

fun start_tasks :: "string \<Rightarrow> nat \<Rightarrow> ('w, 'a, unit) on_job list \<Rightarrow> ('w, 'a, exn list) on_job" where
  "start_tasks f i [] = ret []"
| "start_tasks f i (m # ms) =
     andthen (set_global_filename (task_log f i)) (
     bnd (fork_task m) (\<lambda>r.
     bnd (start_tasks f (Suc i) ms) (\<lambda>rs. ret (case r of None \<Rightarrow> rs | Some e \<Rightarrow> e # rs))))"

text \<open>The log of a task, when it has written one, is appended to the log of the job and removed.\<close>

definition merge_log :: "string \<Rightarrow> string \<Rightarrow> status_logger \<Rightarrow> status_logger" where
  "merge_log old_path new_path l = (case map_of (sl_files l) new_path of
       None \<Rightarrow> l
     | Some t \<Rightarrow> l\<lparr>sl_files := filter (\<lambda>(p, _). p \<noteq> new_path) (alist_put old_path
         ((case map_of (sl_files l) old_path of None \<Rightarrow> [] | Some s \<Rightarrow> s) @ t) (sl_files l))\<rparr>)"

definition job_parallel :: "('w, 'a, unit) on_job list \<Rightarrow> ('w, 'a, unit) on_job" where
  "job_parallel tasklist =
     bnd (gets (\<lambda>j. sl_global_filename (cj_logger j))) (\<lambda>old.
     bnd (start_tasks old 0 tasklist) (\<lambda>exceptions.
     bnd (gets (\<lambda>j. path_join (sl_resultdir (cj_logger j)) old)) (\<lambda>old_path.
     bnd (gets (\<lambda>j. dirname old_path \<in> set (sl_dirs (cj_logger j)))) (\<lambda>writable.
     if \<not> writable then throw IOError
     else andthen (for_each [0..<length tasklist] (\<lambda>i.
         modify (\<lambda>j. j\<lparr>cj_logger := merge_log old_path (task_log old_path i) (cj_logger j)\<rparr>))) (
       andthen (set_global_filename old) (
       if exceptions \<noteq> [] then throw JobError else ret ()))))))"

section \<open>Reboots\<close>

definition start_reboot :: "('w, 'a, 'v) job_env \<Rightarrow> ('w, 'a, unit) on_job" where
  "start_reboot env = andthen (job_record env ''START'' None (Some ''reboot'') [] [])
     (job_record env ''GOOD'' None (Some ''reboot.start'') [] [])"

text \<open>\<open>s.split("::")[0]\<close>\<close>

fun before_colons :: "string \<Rightarrow> string" where
  "before_colons [] = []"
| "before_colons (c # cs) = (if starts_with (c # cs) ''::'' then [] else c # before_colons cs)"

definition record_reboot_failure ::
  "('w, 'a, 'v) job_env \<Rightarrow> string option \<Rightarrow> string \<Rightarrow> string \<Rightarrow> string \<Rightarrow> ('w, 'a, unit) on_job" where
  "record_reboot_failure env subdir operation status running_id =
     andthen (job_record env ''ABORT'' subdir (Some operation) status [])
       (job_record env ''END ABORT'' subdir (Some ''reboot'') [] [(''kernel'', before_colons running_id)])"

text \<open>
  The checks after the boot; \<open>changes\<close> are the descriptions of what differs from the saved state, the mounted
  partitions first.
\<close>

fun check_post_reboot ::
  "('w, 'a, 'v) job_env \<Rightarrow> string option \<Rightarrow> string \<Rightarrow> bool \<Rightarrow> string list \<Rightarrow> ('w, 'a, unit) on_job" where
  "check_post_reboot env subdir running_id abort_on_mismatch [] = ret ()"
| "check_post_reboot env subdir running_id abort_on_mismatch (d # ds) =
     (if abort_on_mismatch then
        andthen (record_reboot_failure env subdir ''reboot.verify_config'' d running_id) (throw JobError)
      else check_post_reboot env subdir running_id abort_on_mismatch ds)"

definition kernel_info :: "string \<Rightarrow> string list \<Rightarrow> (string \<times> string) list" where
  "kernel_info k ps = (''kernel'', before_colons k) #
     map (\<lambda>(i, p). (''patch'' @ str_of_nat i, p)) (List.enumerate 0 ps)"

definition end_reboot ::
  "('w, 'a, 'v) job_env \<Rightarrow> string option \<Rightarrow> string \<Rightarrow> string list \<Rightarrow> string \<Rightarrow> bool \<Rightarrow> string list \<Rightarrow> ('w, 'a, unit) on_job" where
  "end_reboot env subdir k ps running_id abort_on_mismatch changes =
     andthen (check_post_reboot env subdir running_id abort_on_mismatch changes)
       (job_record env ''END GOOD'' subdir (Some ''reboot'') [] (kernel_info k ps))"

datatype kernel_type = Src | Rpm | Other_type

definition wrong_ident :: "kernel_type \<Rightarrow> string \<Rightarrow> string \<Rightarrow> bool" where
  "wrong_ident type expected_id running_id \<longleftrightarrow>
     (type = Src \<and> expected_id \<noteq> running_id) \<or> (type = Rpm \<and> \<not> starts_with running_id (expected_id @ ''::''))"

text \<open>\<open>cmdline_when\<close> is the number behind the last \<open>IDENT=\<close> of the kernel command line, -1 without one.\<close>

definition end_reboot_and_verify ::
  "('w, 'a, 'v) job_env \<Rightarrow> int \<Rightarrow> string \<Rightarrow> string option \<Rightarrow> kernel_type \<Rightarrow> string list \<Rightarrow> int \<Rightarrow> string \<Rightarrow> string \<Rightarrow>
   bool \<Rightarrow> string list \<Rightarrow> ('w, 'a, unit) on_job" where
  "end_reboot_and_verify env expected_when expected_id subdir type patches cmdline_when running_id full_version
       abort_on_mismatch changes =
     (if wrong_ident type expected_id running_id \<or> expected_when \<noteq> cmdline_when then
        andthen (record_reboot_failure env subdir ''reboot.verify'' ''boot failure'' running_id) (throw JobError)
      else andthen (job_record env ''GOOD'' subdir (Some ''reboot.verify'') full_version [])
        (end_reboot env subdir expected_id patches running_id abort_on_mismatch changes))"

section \<open>The step engine\<close>

definition load_state :: "('w, 'a, unit) on_job" where
  "load_state = bnd (gets (\<lambda>j. (cj_is_continuation j, cj_steps j))) (\<lambda>(continuation, steps).
     if \<not> continuation \<and> steps \<noteq> None then throw RuntimeError
     else when_do (steps = None) (modify (\<lambda>j. j\<lparr>cj_steps := Some []\<rparr>)))"

text \<open>An empty option on the command line counts as none.\<close>

definition handle_persistent_option :: "string option \<Rightarrow> string \<Rightarrow> ('w, 'a, string option) on_job" where
  "handle_persistent_option cmd_line option_name =
     (if has_reason cmd_line then
        andthen (modify (\<lambda>j. j\<lparr>cj_persistent_options := alist_put option_name (the cmd_line) (cj_persistent_options j)\<rparr>))
          (ret cmd_line)
      else bnd (gets (\<lambda>j. map_of (cj_persistent_options j) option_name)) (\<lambda>stored.
        ret (if has_reason stored then stored else None)))"

definition create_step_tuple :: "'a step_fn \<Rightarrow> 'a call_args \<Rightarrow> ('w, 'a, 'a step) on_job" where
  "create_step_tuple fn args =
     bnd (case fn of
         Plain f \<Rightarrow> ret (f, args)
       | Listed l \<Rightarrow> andthen (assert_that (fst args = [] \<and> snd args = []))
           (bnd (some_or IndexError l) (\<lambda>(f, xs). ret (f, (xs, [])))))
       (\<lambda>(f, as). bnd (gets cj_current_step_ancestry) (\<lambda>ancestry. case f of
           Named n \<Rightarrow> ret (ancestry, n, as)
         | Function n \<Rightarrow> ret (ancestry, n, as)
         | No_function \<Rightarrow> throw StepError))"

text \<open>\<open>self._state.get('client', 'steps')\<close>, a KeyError before the state is loaded.\<close>

definition get_steps :: "('w, 'a, 'a step list) on_job" where
  "get_steps = bnd (gets cj_steps) (some_or KeyError)"

definition set_steps :: "'a step list \<Rightarrow> ('w, 'a, unit) on_job" where
  "set_steps ss = modify (\<lambda>j. j\<lparr>cj_steps := Some ss\<rparr>)"

text \<open>\<open>steps.insert(i, x)\<close>\<close>

definition list_insert :: "nat \<Rightarrow> 'x \<Rightarrow> 'x list \<Rightarrow> 'x list" where
  "list_insert i x xs = take i xs @ x # drop i xs"

definition next_step_append :: "'a step_fn \<Rightarrow> 'a call_args \<Rightarrow> ('w, 'a, unit) on_job" where
  "next_step_append fn args = bnd get_steps (\<lambda>steps.
     bnd (create_step_tuple fn args) (\<lambda>x. set_steps (steps @ [x])))"

definition next_step :: "'a step_fn \<Rightarrow> 'a call_args \<Rightarrow> ('w, 'a, unit) on_job" where
  "next_step fn args = bnd get_steps (\<lambda>steps.
     bnd (gets cj_next_step_index) (\<lambda>i.
     bnd (create_step_tuple fn args) (\<lambda>x.
     andthen (modify (\<lambda>j. j\<lparr>cj_next_step_index := i + 1\<rparr>)) (set_steps (list_insert i x steps)))))"

definition next_step_prepend :: "'a step_fn \<Rightarrow> 'a call_args \<Rightarrow> ('w, 'a, unit) on_job" where
  "next_step_prepend fn args = bnd get_steps (\<lambda>steps.
     bnd (create_step_tuple fn args) (\<lambda>x.
     andthen (modify (\<lambda>j. j\<lparr>cj_next_step_index := cj_next_step_index j + 1\<rparr>)) (set_steps (list_insert 0 x steps))))"

text \<open>
  Running a step function in a frame, None for a frame that is no dictionary. None as a result is Python's
  \<open>None\<close> after a \<open>TestNAError\<close>. The names of the builtins and the three names \<open>exec\<close> sets are not steps.
\<close>

definition call_in_frame :: "('w, 'a, 'v) job_env \<Rightarrow> 'v name_space \<Rightarrow> string \<Rightarrow> 'a call_args \<Rightarrow> ('w, 'a, 'v) on_job" where
  "call_in_frame env frame fn args = (case map_of frame fn of None \<Rightarrow> throw NameError | Some v \<Rightarrow> je_call env v args)"

definition step_failed :: "('w, 'a, 'v) job_env \<Rightarrow> string option \<Rightarrow> string \<Rightarrow> exn \<Rightarrow> ('w, 'a, unit) on_job" where
  "step_failed env subdir fn e =
     (if is_exit e then throw e
      else if e = TestException ''TEST_NA'' then
        bnd (gets (\<lambda>j. je_str env e (cj_world j))) (\<lambda>msg. job_record env ''TEST_NA'' subdir (Some fn) msg [])
      else throw JobError)"

definition run_step_fn ::
  "('w, 'a, 'v) job_env \<Rightarrow> 'v name_space option \<Rightarrow> string \<Rightarrow> 'a call_args \<Rightarrow> ('w, 'a, 'v option) on_job" where
  "run_step_fn env local_vars fn args =
     bnd (some_or TypeError local_vars) (\<lambda>frame.
     try_else (call_in_frame env frame fn args)
       (\<lambda>e. andthen (step_failed env None fn e) (ret None)) (\<lambda>v. ret (Some v)))"

definition frame_of :: "('w, 'a, 'v) job_env \<Rightarrow> 'v option \<Rightarrow> 'v name_space option" where
  "frame_of env v = Option.bind v (je_locals env)"

text \<open>The frames, the innermost first, and the ancestry, its last name first.\<close>

fun build_frames ::
  "('w, 'a, 'v) job_env \<Rightarrow> string list \<Rightarrow> 'v name_space option list \<Rightarrow> ('w, 'a, 'v name_space option list) on_job" where
  "build_frames env [] frames = ret frames"
| "build_frames env (fn # fns) frames =
     bnd (run_step_fn env (hd frames) fn ([], [])) (\<lambda>v. build_frames env fns (frame_of env v # frames))"

fun pop_frames :: "string \<Rightarrow> 'v name_space option list \<Rightarrow> string list \<Rightarrow> exn + 'v name_space option \<times> string list" where
  "pop_frames fn (f # g # h # frames) ancestry = (case g of
       None \<Rightarrow> Inl TypeError
     | Some outer \<Rightarrow>
         (case map_of outer fn of
            None \<Rightarrow> Inr (f, rev ancestry)
          | Some v \<Rightarrow>
              (case f of
                 None \<Rightarrow> Inl TypeError
               | Some inner \<Rightarrow>
                   (case map_of inner fn of
                      None \<Rightarrow> Inl KeyError
                    | Some u \<Rightarrow> if v \<noteq> u then Inr (f, rev ancestry) else pop_frames fn (g # h # frames) (tl ancestry)))))"
| "pop_frames fn frames ancestry = Inr (hd frames, rev ancestry)"

definition create_frame ::
  "('w, 'a, 'v) job_env \<Rightarrow> string list \<Rightarrow> string \<Rightarrow> ('w, 'a, 'v name_space option \<times> string list) on_job" where
  "create_frame env ancestry fn =
     bnd (gets (\<lambda>j. je_globals env (cj_world j))) (\<lambda>globals.
     bnd (build_frames env ancestry [Some globals]) (\<lambda>frames.
     lift_sum (pop_frames fn frames (rev ancestry))))"

definition is_callable :: "('w, 'a, 'v) job_env \<Rightarrow> 'v \<Rightarrow> bool" where
  "is_callable env v \<longleftrightarrow> (case je_fn_ref env v of Function _ \<Rightarrow> True | _ \<Rightarrow> False)"

definition add_step_init :: "('w, 'a, 'v) job_env \<Rightarrow> 'v option \<Rightarrow> string \<Rightarrow> ('w, 'a, unit) on_job" where
  "add_step_init env v current_function = (case frame_of env v of
       None \<Rightarrow> ret ()
     | Some local_vars \<Rightarrow>
         (case map_of local_vars ''step_init'' of
            None \<Rightarrow> ret ()
          | Some u \<Rightarrow> when_do (is_callable env u)
              (andthen (modify (\<lambda>j. j\<lparr>cj_current_step_ancestry := cj_current_step_ancestry j @ [current_function]\<rparr>))
                (next_step_prepend (Plain (Named ''step_init'')) ([], [])))))"

definition run_step :: "('w, 'a, 'v) job_env \<Rightarrow> 'a step \<Rightarrow> 'a step list \<Rightarrow> ('w, 'a, unit) on_job" where
  "run_step env x steps = (case x of (ancestry, fn, args) \<Rightarrow>
     andthen (set_steps steps) (
     andthen (modify (\<lambda>j. j\<lparr>cj_next_step_index := 0\<rparr>)) (
     bnd (create_frame env ancestry fn) (\<lambda>(frame, ancestry').
     andthen (modify (\<lambda>j. j\<lparr>cj_current_step_ancestry := ancestry'\<rparr>)) (
     bnd (run_step_fn env frame fn args) (\<lambda>v. add_step_init env v fn))))))"

text \<open>The loop with a bound on its turns: False when the bound is reached, as steps may add steps forever.\<close>

fun run_steps :: "('w, 'a, 'v) job_env \<Rightarrow> nat \<Rightarrow> ('w, 'a, bool) on_job" where
  "run_steps env 0 = ret False"
| "run_steps env (Suc n) = bnd get_steps (\<lambda>steps. case steps of
       [] \<Rightarrow> ret True
     | x # xs \<Rightarrow> andthen (run_step env x xs) (run_steps env n))"

definition first_step :: "('w, 'a, 'v) job_env \<Rightarrow> ('w, 'a, unit) on_job" where
  "first_step env = bnd (gets (\<lambda>j. map_of (je_globals env (cj_world j)) ''step_init'')) (\<lambda>v. case v of
       None \<Rightarrow> ret ()
     | Some u \<Rightarrow> next_step (Plain (je_fn_ref env u)) ([], []))"

text \<open>A continuation closes the group the machine went down in.\<close>

definition record_unexpected_reboot :: "('w, 'a, 'v) job_env \<Rightarrow> ('w, 'a, unit) on_job" where
  "record_unexpected_reboot env = bnd (gets cj_unexpected_reboot) (\<lambda>r. case r of
       None \<Rightarrow> ret ()
     | Some (subdir, testname) \<Rightarrow>
         andthen (job_record env ''FAIL'' subdir testname ''unexpected reboot'' [])
           (job_record env ''END FAIL'' subdir testname [] []))"

definition step_engine :: "('w, 'a, 'v) job_env \<Rightarrow> string \<Rightarrow> nat \<Rightarrow> ('w, 'a, bool) on_job" where
  "step_engine env control n =
     andthen (catch (je_control env) (step_failed env None control)) (
     bnd (gets cj_is_continuation) (\<lambda>continuation.
     andthen (if continuation then record_unexpected_reboot env else first_step env)
       (run_steps env n)))"

section \<open>The whole job\<close>

datatype job_end = Paused | Left | Ended nat | Out_of_turns

text \<open>
  What removing or moving away the state file does; the file exists when it holds the steps. A new job has an
  empty directory for its results.
\<close>

definition remove_state :: "('w, 'a, unit) on_job" where
  "remove_state = modify (\<lambda>j. j\<lparr>cj_steps := None, cj_unexpected_reboot := None, cj_persistent_options := [],
     cj_max_disk_usage_rate := 0, cj_logger := (cj_logger j)\<lparr>sl_indent := 0\<rparr>\<rparr>)"

definition in_dir :: "string \<Rightarrow> string \<Rightarrow> bool" where
  "in_dir d p = starts_with p (path_join d [])"

definition cleanup_results_dir :: "('w, 'a, unit) on_job" where
  "cleanup_results_dir = bnd (gets (\<lambda>j. sl_resultdir (cj_logger j))) (\<lambda>r.
     bnd (gets (\<lambda>j. r \<in> set (sl_dirs (cj_logger j)))) (\<lambda>found.
     andthen (assert_that found)
       (modify (\<lambda>j. j\<lparr>cj_logger := (cj_logger j)\<lparr>sl_files := filter (\<lambda>(p, _). \<not> in_dir r p) (sl_files (cj_logger j)),
          sl_dirs := filter (\<lambda>p. \<not> in_dir r p \<and> p \<noteq> r) (sl_dirs (cj_logger j)) @ [r]\<rparr>\<rparr>))))"

text \<open>\<open>job.__init__\<close> as far as it concerns the log and the steps, with a fresh logger in memory.\<close>

definition pre_record_init :: "bool \<Rightarrow> ('w, 'a, unit) on_job" where
  "pre_record_init cont =
     andthen (when_do (\<not> cont) cleanup_results_dir) (
     andthen (modify (\<lambda>j. j\<lparr>cj_is_continuation := cont, cj_current_step_ancestry := [], cj_next_step_index := 0\<rparr>)) (
     andthen load_state
       (modify (\<lambda>j. j\<lparr>cj_logger := (cj_logger j)\<lparr>sl_global_filename := ''status'', sl_subdir_filename := ''status'',
          sl_record_hook := True, sl_tap := (sl_tap (cj_logger j))\<lparr>tr_reports := []\<rparr>\<rparr>\<rparr>))))"

text \<open>
  \<open>_post_record_init\<close> prepares packages, loggers, the boot loader and more around the START line; of all that
  the model has the exceptions it ends with.
\<close>

definition raises :: "('w \<Rightarrow> exn option) \<Rightarrow> ('w, 'a, unit) on_job" where
  "raises f = bnd (gets (\<lambda>j. f (cj_world j))) (\<lambda>e. case e of None \<Rightarrow> ret () | Some e \<Rightarrow> throw e)"

definition post_record_init :: "('w, 'a, 'v) job_env \<Rightarrow> bool \<Rightarrow> ('w, 'a, unit) on_job" where
  "post_record_init env cont =
     andthen (raises (je_setup env)) (
     andthen (when_do (\<not> cont) (job_record env ''START'' None None [] []))
       (raises (je_run_start env)))"

definition job_init :: "('w, 'a, 'v) job_env \<Rightarrow> bool \<Rightarrow> ('w, 'a, unit) on_job" where
  "job_init env cont = andthen (pre_record_init cont) (
     catch (post_record_init env cont) (\<lambda>e.
       if is_exit e then throw e
       else bnd (gets (\<lambda>j. je_str env e (cj_world j))) (\<lambda>err.
         andthen (job_record env ''ABORT'' None None (''client.job.__init__ failed: '' @ err) []) (throw e))))"

text \<open>The last line of the log, which must end the outermost block, then \<open>complete\<close>.\<close>

definition end_job :: "('w, 'a, 'v) job_env \<Rightarrow> string \<Rightarrow> string \<Rightarrow> nat \<Rightarrow> ('w, 'a, job_end) on_job" where
  "end_job env code msg status =
     andthen (job_record env code None None msg []) (
     bnd (gets (\<lambda>j. sl_indent (cj_logger j))) (\<lambda>i.
     andthen (assert_that (i = 0)) (andthen remove_state (ret (Ended status)))))"

definition job_failed :: "('w, 'a, 'v) job_env \<Rightarrow> exn \<Rightarrow> ('w, 'a, job_end) on_job" where
  "job_failed env e =
     (if e = JobContinue then ret Paused
      else if e = JobComplete then ret Left
      else bnd (gets cj_world) (\<lambda>w.
        if is_job_error e then
          andthen (case je_command env e w of
              None \<Rightarrow> ret ()
            | Some command \<Rightarrow> job_record env ''ABORT'' None (Some command) (je_str env e w) [])
            (end_job env ''END ABORT'' (je_str env e w) 1)
        else end_job env ''END ABORT'' (je_str env e w @ newline # je_traceback env e w) 1))"

definition runjob :: "('w, 'a, 'v) job_env \<Rightarrow> string \<Rightarrow> bool \<Rightarrow> nat \<Rightarrow> ('w, 'a, job_end) on_job" where
  "runjob env control cont n =
     andthen (when_do (\<not> cont) remove_state) (
     bnd (gets cj_steps) (\<lambda>steps.
     if \<not> je_has_control env \<or> cont \<and> steps = None then ret Left
     else try_else (job_init env cont) (\<lambda>e. ret (if e = JobContinue then Paused else Left)) (\<lambda>_.
       try_else (step_engine env control n) (job_failed env)
         (\<lambda>finished. if finished then end_job env ''END GOOD'' [] 0 else ret Out_of_turns))))"

end
