(* ===== verification/Client_Log.thy ===== *)
theory Client_Log
  imports Client_Job
begin

text \<open>
  The log of a client job is well nested, whatever tests, groups and parallel tasks its control file runs and
  however its reboots and continuations go: the lines a job writes are read by the parser of status logs as
  properly nested blocks, at the depth the job keeps.
\<close>

section \<open>Files of the log\<close>

definition log_path :: "status_logger \<Rightarrow> string" where
  "log_path l = path_join (sl_resultdir l) (sl_global_filename l)"

definition log_text :: "status_logger \<Rightarrow> string" where
  "log_text l = (case map_of (sl_files l) (log_path l) of None \<Rightarrow> [] | Some t \<Rightarrow> t)"

definition log_at :: "status_logger \<Rightarrow> string \<Rightarrow> string option" where
  "log_at l g = map_of (sl_files l) (path_join (sl_resultdir l) g)"

definition file_name :: "string \<Rightarrow> bool" where
  "file_name g \<longleftrightarrow> CHR ''/'' \<notin> set g"

definition complete_lines :: "string \<Rightarrow> bool" where
  "complete_lines t \<longleftrightarrow> t = [] \<or> last t = newline"

text \<open>\<open>path_join r []\<close> is the directory with the slash the file names follow.\<close>

lemma path_join_file: "file_name g \<Longrightarrow> path_join r g = path_join r [] @ g"
  by (cases g) (auto simp: path_join_def file_name_def)

lemma dir_slash: "path_join r [] = [] \<or> last (path_join r []) = CHR ''/''"
  by (simp add: path_join_def)

lemma dirname_file:
  assumes "file_name g" "file_name h"
  shows "dirname (path_join r g) = dirname (path_join r h)"
proof -
  have "dropWhile (\<lambda>c. c \<noteq> CHR ''/'') (rev (path_join r g)) = rev (path_join r [])" if "file_name g" for g
  proof -
    have "\<forall>c \<in> set (rev g). c \<noteq> CHR ''/''" using that by (auto simp: file_name_def)
    then have "dropWhile (\<lambda>c. c \<noteq> CHR ''/'') (rev g @ rev (path_join r [])) =
        dropWhile (\<lambda>c. c \<noteq> CHR ''/'') (rev (path_join r []))"
      by (intro dropWhile_append2) simp
    moreover have "dropWhile (\<lambda>c. c \<noteq> CHR ''/'') (rev (path_join r [])) = rev (path_join r [])"
      using dir_slash [of r] by (cases "path_join r []" rule: rev_cases) auto
    ultimately show ?thesis by (simp add: path_join_file [OF that])
  qed
  with assms show ?thesis by (simp add: dirname_def)
qed

text \<open>The directory of a test is named relative to the directory of the results.\<close>

definition plain_subdir :: "string \<Rightarrow> bool" where
  "plain_subdir s \<longleftrightarrow> s \<noteq> [] \<and> hd s \<noteq> CHR ''/'' \<and> last s \<noteq> CHR ''/''"

definition subdir_log :: "status_logger \<Rightarrow> string \<Rightarrow> string" where
  "subdir_log l s = path_join (path_join (sl_resultdir l) s) (sl_subdir_filename l)"

lemma subdir_log_other:
  assumes "plain_subdir s" "file_name f" "file_name g"
  shows "path_join (path_join r s) f \<noteq> path_join r g"
proof
  assume eq: "path_join (path_join r s) f = path_join r g"
  have s: "path_join r s = path_join r [] @ s" using assms(1) by (auto simp: plain_subdir_def path_join_def)
  then have "path_join (path_join r s) [] = path_join r [] @ path_join s []"
    using assms(1) by (auto simp: plain_subdir_def path_join_def)
  then have "path_join (path_join r s) f = path_join r [] @ path_join s [] @ f"
    using path_join_file [OF assms(2)] by simp
  with eq have "path_join s [] @ f = g" by (simp add: path_join_file [OF assms(3)])
  moreover have "CHR ''/'' \<in> set (path_join s [])"
    using assms(1) by (simp add: plain_subdir_def path_join_def)
  ultimately show False using assms(3) by (auto simp: file_name_def)
qed

section \<open>The lines of an entry\<close>

text \<open>The place of a status in a nested log.\<close>

definition code_type :: "string \<Rightarrow> line_type" where
  "code_type c = (if c = ''INFO'' then LInfo else if c = ''START'' then LStart
     else if starts_with c ''END '' then LEnd else LStatus)"

lemma parse_code_line:
  assumes "is_status_code a" "plain_part b" "plain_part c"
  shows "\<exists>x. parse_line (replicate n tab @ a @ tab # b @ tab # c @ tab # r) = Inr (Some x) \<and>
    ln_type x = code_type a \<and> ln_indent x = n"
proof -
  have new: "\<exists>x. new_status_line n a b c m d = Inr x \<and> ln_type x = code_type a \<and> ln_indent x = n" for m d
  proof -
    let ?e = "\<lparr>le_status_code = a, le_subdir = Some b, le_operation = Some c, le_message = m,
      le_extra_message_lines = [], le_fields = d\<rparr>"
    have "rendered_name (Some b) = b" "rendered_name (Some c) = c"
      using assms(2,3) by (auto simp: rendered_name_def plain_part_def)
    then have "new_status_line n a b c m d = Inr (tko_line n ?e)"
      using status_code_line [of ?e n] assms(1) by simp
    then show ?thesis by (simp add: tko_line_def code_type_def is_start_def is_end_def)
  qed
  obtain d ps where loop: "optional_fields_loop (split_on tab (rstrip_char newline r)) [] = (d, ps)"
    by (cases "optional_fields_loop (split_on tab (rstrip_char newline r)) []")
  obtain x where x: "new_status_line n a b c (str_join [tab] ps) d = Inr x" "ln_type x = code_type a" "ln_indent x = n"
    using new by blast
  have "parse_line (replicate n tab @ a @ tab # b @ tab # c @ tab # r) = Inr (Some x)"
    unfolding parse_line_eq [OF status_code_part [OF assms(1)] assms(2,3)] loop Let_def prod.case x(1) by simp
  then show ?thesis using x by simp
qed

definition named :: "string option \<Rightarrow> bool" where
  "named n \<longleftrightarrow> \<not> starts_with (rendered_name n) '' ''"

lemma named_plain: "named n \<Longrightarrow> \<not> bad_name n \<Longrightarrow> plain_name n"
  by (simp add: named_def plain_name_def)

definition no_cr :: "string \<Rightarrow> bool" where
  "no_cr s \<longleftrightarrow> CHR 0x0D \<notin> set s \<and> newline \<notin> set s"

lemma no_bad_no_cr: "\<not> list_ex bad_char s \<Longrightarrow> no_cr s"
  by (auto simp: no_cr_def list_ex_iff bad_char_def)

lemma no_cr_join: "\<forall>p \<in> set ps. no_cr p \<Longrightarrow> no_cr (str_join [tab] ps)"
  by (induction "[tab]" ps rule: str_join.induct) (auto simp: no_cr_def)

lemma status_code_no_cr: "is_status_code s \<Longrightarrow> no_cr s"
  by (auto simp: no_cr_def is_status_code_def job_statuses_def)

lemma rendered_name_no_cr: "\<not> bad_name n \<Longrightarrow> no_cr (rendered_name n)"
  by (auto simp: no_cr_def rendered_name_def bad_name_def bad_char_def list_ex_iff split: option.splits)

text \<open>What \<open>new_log_entry\<close> makes of a status code: its text is one line, then the extra lines with two spaces.\<close>

definition plain_entry :: "log_entry \<Rightarrow> bool" where
  "plain_entry e \<longleftrightarrow> is_status_code (le_status_code e) \<and> plain_part (rendered_name (le_subdir e)) \<and>
     plain_part (rendered_name (le_operation e)) \<and> no_cr (first_line e) \<and>
     (\<forall>x \<in> set (le_extra_message_lines e). newline \<notin> set x)"

lemma new_entry_plain:
  assumes e: "new_log_entry lt now code sd op msg kvs ts = Inr e"
    and code: "is_status_code code" and names: "named sd" "named op" and lt: "\<And>t. \<not> list_ex bad_char (lt t)"
  shows "plain_entry e \<and> le_status_code e = code \<and> le_subdir e = sd"
proof -
  from e obtain t where bad: "\<not> bad_name sd" "\<not> bad_name op"
    and msg: "\<not> list_ex bad_char (expand_tabs (hd (split_on newline msg)))"
    and kvs: "\<forall>(k, v) \<in> set kvs. \<not> list_ex bad_char k \<and> \<not> list_ex bad_char v"
    and e_eq: "e = \<lparr>le_status_code = code, le_subdir = sd, le_operation = op,
          le_message = expand_tabs (hd (split_on newline msg)), le_extra_message_lines = tl (split_on newline msg),
          le_fields = stamped lt t kvs\<rparr>"
    unfolding stamped_def by (rule new_log_entry_cases)
  have "\<forall>(k, v) \<in> set (stamped lt t kvs). \<not> list_ex bad_char k \<and> \<not> list_ex bad_char v"
    using kvs lt by (intro stamped_clean) simp_all
  then have "\<forall>p \<in> set (map rendered_field (stamped lt t kvs)). no_cr p"
    using no_bad_no_cr by (fastforce simp: rendered_field_def no_cr_def)
  then have "no_cr (first_line e)"
    unfolding first_line_def e_eq using status_code_no_cr [OF code] rendered_name_no_cr bad no_bad_no_cr [OF msg]
    by (intro no_cr_join) auto
  moreover have "plain_part (rendered_name sd)" "plain_part (rendered_name op)"
    using rendered_name_chars [OF named_plain] names bad by blast+
  moreover have "\<forall>x \<in> set (tl (split_on newline msg)). newline \<notin> set x"
    using split_on_fields [of _ newline msg] list.set_sel(2) [OF split_on_nonempty] by blast
  ultimately show ?thesis using code by (simp add: plain_entry_def e_eq)
qed


lemma nested_append: "nested (xs @ ys) n = Option.bind (nested xs n) (nested ys)"
  by (induction xs n rule: nested.induct) (auto split: sum.splits option.splits line_type.splits)

lemma first_line_parts:
  "\<exists>r. first_line e = le_status_code e @ tab # rendered_name (le_subdir e) @ tab # rendered_name (le_operation e) @ tab # r"
proof -
  obtain q qs where "map rendered_field (le_fields e) @ [le_message e] = q # qs"
    by (cases "map rendered_field (le_fields e) @ [le_message e]") auto
  then show ?thesis by (simp add: first_line_def)
qed

text \<open>The lines of an entry in the file, and how they continue a nested log.\<close>

definition entry_lines :: "int \<Rightarrow> log_entry \<Rightarrow> string list" where
  "entry_lines i e = (replicate (nat (if is_end e then i - 1 else i)) tab @ first_line e @ [newline]) #
     map (\<lambda>x. ''  '' @ x @ [newline]) (le_extra_message_lines e)"

lemma file_lines_concat:
  "\<forall>x \<in> set xs. newline \<notin> set x \<Longrightarrow> file_lines (concat (map line xs)) = map line xs"
  by (induction xs) (simp_all add: file_lines_lines)

lemma plain_entry_render: "plain_entry e \<Longrightarrow> rstrip_char newline (render e) = render e"
proof (cases "le_extra_message_lines e" rule: rev_cases)
  case Nil
  assume "plain_entry e"
  then have "newline \<notin> set (render e)" using Nil by (simp add: render_def plain_entry_def no_cr_def)
  then show ?thesis by (rule rstrip_char_absent)
next
  case (snoc ls x)
  assume "plain_entry e"
  then have "newline \<notin> set x" using snoc by (simp add: plain_entry_def)
  moreover have "render e = str_join [newline] (first_line e # map ((@) ''  '') ls) @ newline # ''  '' @ x"
    using snoc by (simp add: render_def join_lines)
  ultimately show ?thesis by (intro rstrip_char_id) (cases x rule: rev_cases; auto)
qed

lemma entry_text:
  assumes "plain_entry e"
  shows "file_lines (line (render_entry i e)) = entry_lines i e"
proof -
  let ?n = "nat (if is_end e then i - 1 else i)" and ?x = "map ((@) ''  '') (le_extra_message_lines e)"
  have join: "line (str_join [newline] (x # xs)) = concat (map line (x # xs))" for x and xs :: "string list"
    by (induction xs arbitrary: x) (simp_all add: line_def)
  have "render_entry i e = str_join [newline] ((replicate ?n tab @ first_line e) # ?x)"
    unfolding render_entry_def plain_entry_render [OF assms] by (simp add: render_def join_lines)
  then have "line (render_entry i e) = concat (map line ((replicate ?n tab @ first_line e) # ?x))"
    by (simp only: join)
  moreover have "\<forall>x \<in> set ((replicate ?n tab @ first_line e) # ?x). newline \<notin> set x"
    using assms by (auto simp: plain_entry_def no_cr_def)
  ultimately have "file_lines (line (render_entry i e)) = map line ((replicate ?n tab @ first_line e) # ?x)"
    using file_lines_concat by presburger
  then show ?thesis by (simp add: entry_lines_def line_def)
qed

lemma nested_ignored: "\<forall>l \<in> set ls. parse_line (cleaned l) = Inr None \<Longrightarrow> nested ls n = Some n"
  by (induction ls) simp_all

lemma cleaned_spaces: "cleaned (''  '' @ s) = ''  '' @ cleaned s"
  by (simp add: cleaned_Cons del: clean_raw_line.simps(2))

lemma parse_spaces: "parse_line (''  '' @ s) = Inr None"
  by (simp add: parse_line_def is_status_line_def numeral_3_eq_3 is_space_def)

lemma code_type_entry:
  "code_type (le_status_code e) = LEnd \<longleftrightarrow> is_end e" "code_type (le_status_code e) = LStart \<longleftrightarrow> is_start e"
  by (auto simp: code_type_def is_end_def is_start_def)

lemma entry_nested:
  assumes e: "plain_entry e" and i: "0 \<le> i" "is_end e \<Longrightarrow> 1 \<le> i"
  shows "nested (entry_lines i e) (nat i) = Some (nat (adjust_indent e i))"
proof -
  let ?n = "nat (if is_end e then i - 1 else i)" and ?l = "first_line e @ [newline]"
  obtain r where r: "?l = le_status_code e @ tab # rendered_name (le_subdir e) @ tab # rendered_name (le_operation e) @ tab # r"
    using first_line_parts [of e] by auto
  have "CHR 0x0D \<notin> set (replicate ?n tab @ ?l)" using e by (auto simp: plain_entry_def no_cr_def)
  then have "cleaned (replicate ?n tab @ ?l) = replicate ?n tab @ ?l" by (rule cleaned_no_cr)
  then obtain x where x: "parse_line (cleaned (replicate ?n tab @ ?l)) = Inr (Some x)"
      "ln_type x = code_type (le_status_code e)" "ln_indent x = ?n"
    using parse_code_line [of "le_status_code e" "rendered_name (le_subdir e)" "rendered_name (le_operation e)" ?n r] e r
    by (auto simp: plain_entry_def)
  let ?xs = "map (\<lambda>x. ''  '' @ x @ [newline]) (le_extra_message_lines e)"
  have "nested ?xs n = Some n" for n
    using parse_spaces cleaned_spaces by (intro nested_ignored) auto
  moreover have "nested (entry_lines i e) (nat i) = (case code_type (le_status_code e) of
      LStart \<Rightarrow> if ?n = nat i then nested ?xs (Suc (nat i)) else None
    | LEnd \<Rightarrow> if Suc ?n = nat i then nested ?xs (nat i - 1) else None
    | _ \<Rightarrow> if ?n = nat i then nested ?xs (nat i) else None)"
    unfolding entry_lines_def nested.simps(2) x(1) by (simp only: sum.case option.case x(2,3))
  ultimately have run: "nested (entry_lines i e) (nat i) = (case code_type (le_status_code e) of
      LStart \<Rightarrow> if ?n = nat i then Some (Suc (nat i)) else None
    | LEnd \<Rightarrow> if Suc ?n = nat i then Some (nat i - 1) else None
    | _ \<Rightarrow> if ?n = nat i then Some (nat i) else None)" by (simp only:)
  consider (end_) "is_end e" "code_type (le_status_code e) = LEnd" "\<not> is_start e"
    | (start) "is_start e" "code_type (le_status_code e) = LStart" "\<not> is_end e"
    | (other) "code_type (le_status_code e) \<in> {LStatus, LInfo}" "\<not> is_end e" "\<not> is_start e"
    using code_type_entry [of e] by (cases "code_type (le_status_code e)") simp_all
  then show ?thesis
  proof cases
    case end_
    then have "Suc (nat (i - 1)) = nat i" using i by linarith
    then show ?thesis using run end_ by (simp add: adjust_indent_def)
  next
    case start
    then show ?thesis using run i by (simp add: adjust_indent_def nat_add_distrib)
  next
    case other
    then show ?thesis using run i by (auto simp: adjust_indent_def)
  qed
qed

section \<open>The log of a logger\<close>

definition log_place :: "status_logger \<Rightarrow> string \<times> string \<times> string \<times> bool" where
  "log_place l = (sl_resultdir l, sl_global_filename l, sl_subdir_filename l, tr_do (sl_tap l))"

text \<open>The log of a job or task can be written, ends with a whole line, and no task has left a log of its own.\<close>

definition log_ready :: "status_logger \<Rightarrow> bool" where
  "log_ready l \<longleftrightarrow> 0 \<le> sl_indent l \<and> \<not> tr_do (sl_tap l) \<and> file_name (sl_global_filename l) \<and>
     file_name (sl_subdir_filename l) \<and> dirname (log_path l) \<in> set (sl_dirs l) \<and> complete_lines (log_text l) \<and>
     (\<forall>g. file_name g \<longrightarrow> starts_with g (sl_global_filename l @ ''.'') \<longrightarrow> log_at l g = None)"

text \<open>
  \<open>l'\<close> continues \<open>l\<close>: the log has grown by lines that lead, properly nested, from the depth of the one to that
  of the other, and the logs of others are as they were.
\<close>

definition other_log :: "status_logger \<Rightarrow> string \<Rightarrow> bool" where
  "other_log l g \<longleftrightarrow> file_name g \<and> g \<noteq> sl_global_filename l \<and> \<not> starts_with g (sl_global_filename l @ ''.'')"

definition continues :: "status_logger \<Rightarrow> status_logger \<Rightarrow> bool" where
  "continues l l' \<longleftrightarrow> log_ready l' \<and> log_place l' = log_place l \<and> set (sl_dirs l) \<subseteq> set (sl_dirs l') \<and>
     (\<exists>ls. file_lines (log_text l') = file_lines (log_text l) @ ls \<and> nested ls (nat (sl_indent l)) = Some (nat (sl_indent l'))) \<and>
     (\<forall>g. other_log l g \<longrightarrow> log_at l' g = log_at l g)"

lemma continues_refl: "log_ready l \<Longrightarrow> continues l l"
  by (simp add: continues_def)

lemma continues_trans: "continues l l' \<Longrightarrow> continues l' l'' \<Longrightarrow> continues l l''"
proof -
  assume a: "continues l l'" "continues l' l''"
  then have p: "sl_global_filename l' = sl_global_filename l" by (simp add: continues_def log_place_def)
  from a obtain ls ls' where "file_lines (log_text l') = file_lines (log_text l) @ ls"
      "nested ls (nat (sl_indent l)) = Some (nat (sl_indent l'))"
      "file_lines (log_text l'') = file_lines (log_text l') @ ls'"
      "nested ls' (nat (sl_indent l')) = Some (nat (sl_indent l''))"
    unfolding continues_def by blast
  then have "file_lines (log_text l'') = file_lines (log_text l) @ ls @ ls' \<and>
      nested (ls @ ls') (nat (sl_indent l)) = Some (nat (sl_indent l''))"
    by (simp add: nested_append)
  with a p show ?thesis unfolding continues_def other_log_def by fastforce
qed

text \<open>The harness's list of entries and the TAP lines do not matter.\<close>

definition same_log :: "status_logger \<Rightarrow> status_logger \<Rightarrow> bool" where
  "same_log l l' \<longleftrightarrow> log_place l' = log_place l \<and> sl_indent l' = sl_indent l \<and> sl_files l' = sl_files l \<and> sl_dirs l' = sl_dirs l"

lemma same_log_parts:
  assumes "same_log l l'"
  shows "log_path l' = log_path l" "log_text l' = log_text l" "log_at l' g = log_at l g"
    "log_place l' = log_place l" "sl_indent l' = sl_indent l" "sl_dirs l' = sl_dirs l" "log_ready l' = log_ready l"
  using assms by (simp_all add: same_log_def log_place_def log_path_def log_text_def log_at_def log_ready_def)

lemma continues_same: "continues l l' \<Longrightarrow> same_log l' l'' \<Longrightarrow> continues l l''"
  unfolding continues_def by (simp add: same_log_parts)

text \<open>The directories of tests that exist.\<close>

definition has_subdirs :: "string set \<Rightarrow> status_logger \<Rightarrow> bool" where
  "has_subdirs D l \<longleftrightarrow> (\<forall>s \<in> D. plain_subdir s \<and> dirname (subdir_log l s) \<in> set (sl_dirs l))"

lemma has_subdirs_continues: "has_subdirs D l \<Longrightarrow> continues l l' \<Longrightarrow> has_subdirs D l'"
  by (auto simp: has_subdirs_def continues_def log_place_def subdir_log_def)


section \<open>Recording an entry\<close>

definition subdirs_of :: "string option \<Rightarrow> string set" where
  "subdirs_of sd = (case sd of None \<Rightarrow> {} | Some s \<Rightarrow> if s = [] then {} else {s})"

lemma log_path_at: "log_at l (sl_global_filename l) = map_of (sl_files l) (log_path l)"
  by (simp add: log_at_def log_path_def)

lemma path_join_file_eq: "file_name g \<Longrightarrow> file_name h \<Longrightarrow> path_join r g = path_join r h \<longleftrightarrow> g = h"
  by (simp add: path_join_file)

text \<open>Writing one line to the log, and one to the log in the directory of a test.\<close>

lemma append_log_run:
  assumes "dirname (log_path l) \<in> set (sl_dirs l)"
  shows "append_line t (log_path l) l =
    (Inr (), l\<lparr>sl_files := alist_put (log_path l) (log_text l @ line t) (sl_files l)\<rparr>)"
  using assms by (simp add: append_line_def modify_def log_text_def split: option.splits)

lemma append_subdir_run:
  assumes "has_subdirs {s} l" "file_name (sl_subdir_filename l)"
  shows "\<exists>u. append_line t (subdir_log l s) l = (Inr (), l\<lparr>sl_files := alist_put (subdir_log l s) u (sl_files l)\<rparr>)"
  using assms by (auto simp: append_line_def modify_def has_subdirs_def)

lemma subdir_logs_run:
  assumes dirs: "has_subdirs (subdirs_of (le_subdir e)) a" and names: "file_name (sl_subdir_filename a)"
  shows "\<exists>b. for_each (tl (log_files True e a)) (append_line t) a = (Inr (), a\<lparr>sl_files := b\<rparr>) \<and>
    (\<forall>g. file_name g \<longrightarrow> map_of b (path_join (sl_resultdir a) g) = log_at a g)"
proof (cases "subdirs_of (le_subdir e) = {}")
  case True
  then have "tl (log_files True e a) = []" by (auto simp: log_files_def subdirs_of_def split: option.splits if_splits)
  then show ?thesis by (intro exI [of _ "sl_files a"]) (simp add: ret_def log_at_def)
next
  case False
  then obtain s where s: "le_subdir e = Some s" "s \<noteq> []" by (auto simp: subdirs_of_def split: option.splits if_splits)
  then have sub: "tl (log_files True e a) = [subdir_log a s]" "has_subdirs {s} a"
    using dirs by (simp_all add: log_files_def subdir_log_def subdirs_of_def)
  from append_subdir_run [OF sub(2) names] obtain u where
    "append_line t (subdir_log a s) a = (Inr (), a\<lparr>sl_files := alist_put (subdir_log a s) u (sl_files a)\<rparr>)" by blast
  then have "for_each (tl (log_files True e a)) (append_line t) a =
      (Inr (), a\<lparr>sl_files := alist_put (subdir_log a s) u (sl_files a)\<rparr>)"
    by (simp add: sub(1) andthen_run ret_def)
  moreover have "subdir_log a s \<noteq> path_join (sl_resultdir a) g" if "file_name g" for g
    using subdir_log_other [of s "sl_subdir_filename a" g "sl_resultdir a"] sub(2) that names
    by (simp add: has_subdirs_def subdir_log_def)
  then have "\<forall>g. file_name g \<longrightarrow>
      map_of (alist_put (subdir_log a s) u (sl_files a)) (path_join (sl_resultdir a) g) = log_at a g"
    unfolding log_at_def map_of_alist_put fun_upd_apply by metis
  ultimately show ?thesis by blast
qed

lemma record_entry_run:
  assumes ready: "log_ready l" and dirs: "has_subdirs (subdirs_of (le_subdir e)) l"
  shows "\<exists>l'. logger_record_entry e True l = (Inr (), l') \<and> sl_indent l' = adjust_indent e (sl_indent l) \<and>
    log_place l' = log_place l \<and> sl_dirs l' = sl_dirs l \<and>
    log_text l' = log_text l @ line (render_entry (sl_indent l) e) \<and>
    (\<forall>g. file_name g \<longrightarrow> g \<noteq> sl_global_filename l \<longrightarrow> log_at l' g = log_at l g)"
proof -
  let ?t = "render_entry (sl_indent l) e"
  obtain h where h_def: "h = (if sl_record_hook l then l\<lparr>sl_hooked := sl_hooked l @ [e]\<rparr> else l)" by blast
  have h: "log_path h = log_path l" "log_text h = log_text l" "sl_indent h = sl_indent l" "sl_files h = sl_files l"
      "sl_dirs h = sl_dirs l" "log_place h = log_place l" "log_files True e h = log_files True e l"
      "sl_tap h = sl_tap l"
    by (simp_all add: h_def log_path_def log_text_def log_files_def log_place_def split: option.splits)
  obtain a where a_def: "a = h\<lparr>sl_files := alist_put (log_path l) (log_text l @ line ?t) (sl_files l)\<rparr>" by blast
  have names: "file_name (sl_global_filename l)" "file_name (sl_subdir_filename l)" "\<not> tr_do (sl_tap l)"
      "dirname (log_path l) \<in> set (sl_dirs l)"
    using ready by (simp_all add: log_ready_def)
  have place: "sl_resultdir h = sl_resultdir l" "sl_global_filename h = sl_global_filename l" "sl_subdir_filename h = sl_subdir_filename l"
    using h(6) by (simp_all add: log_place_def)
  have first: "append_line ?t (log_path l) h = (Inr (), a)"
    using append_log_run [of h ?t] names(4) h by (simp add: a_def)
  have "log_files True e a = log_files True e l" "has_subdirs (subdirs_of (le_subdir e)) a" "file_name (sl_subdir_filename a)"
    using dirs names(2) place h by (simp_all add: a_def log_files_def has_subdirs_def subdir_log_def split: option.splits)
  with subdir_logs_run [of e a ?t] obtain b where b: "for_each (tl (log_files True e l)) (append_line ?t) a = (Inr (), a\<lparr>sl_files := b\<rparr>)"
    and other: "\<And>g. file_name g \<Longrightarrow> map_of b (path_join (sl_resultdir a) g) = log_at a g" by auto
  let ?l' = "a\<lparr>sl_files := b, sl_indent := adjust_indent e (sl_indent l)\<rparr>"
  have "log_files True e l = log_path l # tl (log_files True e l)" by (simp add: log_files_def log_path_def)
  then have "for_each (log_files True e l) (append_line ?t) h = (Inr (), a\<lparr>sl_files := b\<rparr>)"
    by (metis andthen_run b first for_each.simps(2))
  then have "logger_record_entry e True l = (Inr (), ?l')"
    unfolding logger_record_entry_def modify_andthen gets_bnd h_def [symmetric] h(3,7)
    using names(3) h(3,8) by (simp add: andthen_def bnd_def gets_def modify_def ret_def a_def)
  moreover have "log_text ?l' = log_text l @ line ?t"
    using other [OF names(1)] place by (simp add: log_text_def log_path_def log_at_def a_def)
  moreover have "log_at ?l' g = log_at l g" if "file_name g" "g \<noteq> sl_global_filename l" for g
    using other [OF that(1)] that names(1) place by (simp add: log_at_def log_path_def path_join_file_eq a_def)
  ultimately show ?thesis using h place by (intro exI [of _ ?l']) (simp add: log_place_def a_def)
qed

text \<open>How a status moves the depth.\<close>

definition next_indent :: "string \<Rightarrow> int \<Rightarrow> int" where
  "next_indent code i = (case code_type code of LStart \<Rightarrow> i + 1 | LEnd \<Rightarrow> i - 1 | _ \<Rightarrow> i)"

lemma adjust_next: "adjust_indent e i = next_indent (le_status_code e) i"
  using code_type_entry [of e]
  by (cases "code_type (le_status_code e)") (auto simp: adjust_indent_def next_indent_def)

lemma record_entry_continues:
  assumes "log_ready l" "has_subdirs (subdirs_of (le_subdir e)) l" "plain_entry e" "is_end e \<Longrightarrow> 1 \<le> sl_indent l"
  shows "\<exists>l'. logger_record_entry e True l = (Inr (), l') \<and> continues l l' \<and>
    sl_indent l' = next_indent (le_status_code e) (sl_indent l) \<and> sl_dirs l' = sl_dirs l"
proof -
  from record_entry_run [OF assms(1,2)] obtain l' where run: "logger_record_entry e True l = (Inr (), l')"
    and l': "sl_indent l' = adjust_indent e (sl_indent l)" "log_place l' = log_place l" "sl_dirs l' = sl_dirs l"
      "log_text l' = log_text l @ line (render_entry (sl_indent l) e)"
    and other: "\<And>g. file_name g \<Longrightarrow> g \<noteq> sl_global_filename l \<Longrightarrow> log_at l' g = log_at l g" by blast
  have i: "0 \<le> sl_indent l" using assms(1) by (simp add: log_ready_def)
  then have "0 \<le> sl_indent l'" using l'(1) assms(4) by (auto simp: adjust_indent_def)
  moreover have "complete_lines (log_text l')" by (simp add: l'(4) complete_lines_def line_def)
  moreover have p: "sl_resultdir l' = sl_resultdir l" "sl_global_filename l' = sl_global_filename l"
      "sl_subdir_filename l' = sl_subdir_filename l" "tr_do (sl_tap l') = tr_do (sl_tap l)"
    using l'(2) by (simp_all add: log_place_def)
  moreover have "log_at l' g = None" if "file_name g" "starts_with g (sl_global_filename l @ ''.'')" for g
    using other [OF that(1)] that assms(1) by (fastforce simp: log_ready_def starts_with_iff)
  ultimately have "log_ready l'" using assms(1) l'(3) by (simp add: log_ready_def log_path_def)
  moreover have "file_lines (log_text l') = file_lines (log_text l) @ entry_lines (sl_indent l) e"
    unfolding l'(4) entry_text [OF assms(3), symmetric] using assms(1)
    by (intro file_lines_append) (simp add: log_ready_def complete_lines_def)
  moreover have "nested (entry_lines (sl_indent l) e) (nat (sl_indent l)) = Some (nat (sl_indent l'))"
    unfolding l'(1) using entry_nested [OF assms(3) i assms(4)] .
  ultimately have "continues l l'"
    using l'(2,3) other by (simp add: continues_def other_log_def)
  with run l' show ?thesis by (simp add: adjust_next)
qed


section \<open>Recording on a job\<close>

definition clean_message :: "string \<Rightarrow> bool" where
  "clean_message m \<longleftrightarrow> \<not> list_ex bad_char (expand_tabs (hd (split_on newline m)))"

text \<open>
  What the log relies on: local times and the first lines of messages of exceptions have no vertical tab, form
  feed or carriage return, and a directory that was created exists.
\<close>

definition plain_env :: "('w, 'a, 'v) job_env \<Rightarrow> bool" where
  "plain_env env \<longleftrightarrow> (\<forall>t. \<not> list_ex bad_char (je_localtime env t)) \<and> (\<forall>e w. clean_message (je_str env e w)) \<and>
     (\<forall>p w ds. je_makedirs env p w = Some ds \<longrightarrow> p \<in> set ds)"

lemma new_log_entry_error: "new_log_entry lt now code sd op msg kvs ts = Inl e \<Longrightarrow> e = ValueError"
  by (auto simp: new_log_entry_def Let_def split: if_splits)

lemma new_log_entry_ok:
  assumes "is_status_code code" "\<not> bad_name sd" "\<not> bad_name op" "clean_message msg"
    "\<not> list_ex (\<lambda>(k, v). list_ex bad_char (k @ v)) kvs"
  shows "\<exists>e. new_log_entry lt now code sd op msg kvs ts = Inr e"
  using assms by (simp add: new_log_entry_def valid_status_cases clean_message_def Let_def)

lemma job_record_cases:
  assumes env: "plain_env env" and code: "is_status_code code" and names: "named sd" "named op"
    and ready: "log_ready (cj_logger j)" "has_subdirs (subdirs_of sd) (cj_logger j)"
    and at_end: "code_type code = LEnd \<Longrightarrow> 1 \<le> sl_indent (cj_logger j)"
    and run: "job_record env code sd op msg kvs j = (r, j')"
  shows "(r = Inl ValueError \<and> j' = j) \<or> (\<exists>l'. r = Inr () \<and> j' = j\<lparr>cj_logger := l'\<rparr> \<and> continues (cj_logger j) l' \<and>
    sl_indent l' = next_indent code (sl_indent (cj_logger j)) \<and> sl_dirs l' = sl_dirs (cj_logger j))"
proof (cases "new_log_entry (je_localtime env) (je_now env (cj_world j)) code sd op msg kvs None")
  case (Inl e)
  with run new_log_entry_error [OF Inl] show ?thesis by (auto simp: job_record_def lift_sum_def bnd_def gets_def)
next
  case (Inr e)
  have lt: "\<And>t. \<not> list_ex bad_char (je_localtime env t)" using env by (simp add: plain_env_def)
  from new_entry_plain [OF Inr code names lt] have e: "plain_entry e" "le_status_code e = code" "le_subdir e = sd" by blast+
  have "is_end e \<Longrightarrow> 1 \<le> sl_indent (cj_logger j)" using code_type_entry(1) [of e] at_end e by simp
  from record_entry_continues [OF ready(1) _ e(1) this] obtain l' where
    l': "logger_record_entry e True (cj_logger j) = (Inr (), l')" "continues (cj_logger j) l'"
      "sl_indent l' = next_indent code (sl_indent (cj_logger j))" "sl_dirs l' = sl_dirs (cj_logger j)"
    using ready(2) e by auto
  then have "r = Inr ()" "j' = j\<lparr>cj_logger := l'\<rparr>"
    using run Inr by (auto simp: job_record_def lift_sum_def bnd_def gets_def zoom_def)
  with l' show ?thesis by blast
qed

lemma job_record_ok:
  assumes "is_status_code code" "\<not> bad_name sd" "\<not> bad_name op" "clean_message msg"
    "\<not> list_ex (\<lambda>(k, v). list_ex bad_char (k @ v)) kvs"
    and ready: "log_ready (cj_logger j)" "has_subdirs (subdirs_of sd) (cj_logger j)"
    and run: "job_record env code sd op msg kvs j = (r, j')"
  shows "r = Inr ()"
proof -
  obtain e where e: "new_log_entry (je_localtime env) (je_now env (cj_world j)) code sd op msg kvs None = Inr e"
    using new_log_entry_ok [OF assms(1-5)] by blast
  then have "le_subdir e = sd" by (rule new_log_entry_cases) simp
  then obtain l' where "logger_record_entry e True (cj_logger j) = (Inr (), l')"
    using record_entry_run [OF ready(1), of e] ready(2) by auto
  then show ?thesis using run e by (auto simp: job_record_def lift_sum_def bnd_def gets_def zoom_def)
qed

section \<open>Orderly computations\<close>

text \<open>
  A computation is orderly when it continues the log and leaves the depth it found, or a greater one when it
  exits; it raises no test error but those of the statuses. \<open>D\<close> are directories of tests it may rely on, \<open>x\<close> says that it may
  exit.
\<close>

definition proper :: "exn \<Rightarrow> bool" where
  "proper e \<longleftrightarrow> (case exit_status_of e of None \<Rightarrow> True | Some st \<Rightarrow> st \<in> set job_statuses)"

definition ended :: "bool \<Rightarrow> status_logger \<Rightarrow> status_logger \<Rightarrow> exn + 'r \<Rightarrow> bool" where
  "ended x l l' r \<longleftrightarrow> continues l l' \<and> (case r of
       Inr _ \<Rightarrow> sl_indent l' = sl_indent l
     | Inl e \<Rightarrow> proper e \<and> (if is_exit e then x \<and> sl_indent l \<le> sl_indent l' else sl_indent l' = sl_indent l))"

definition orderly :: "string set \<Rightarrow> bool \<Rightarrow> ('w, 'a, 'r) on_job \<Rightarrow> bool" where
  "orderly D x m \<longleftrightarrow> (\<forall>j r j'. log_ready (cj_logger j) \<longrightarrow> has_subdirs D (cj_logger j) \<longrightarrow> m j = (r, j') \<longrightarrow>
     ended x (cj_logger j) (cj_logger j') r)"

named_theorems orderly_intro \<open>rules that decompose an \<open>orderly\<close> goal\<close>

lemma orderlyI:
  "(\<And>j r j'. log_ready (cj_logger j) \<Longrightarrow> has_subdirs D (cj_logger j) \<Longrightarrow> m j = (r, j') \<Longrightarrow>
     ended x (cj_logger j) (cj_logger j') r) \<Longrightarrow> orderly D x m"
  by (simp add: orderly_def)

lemma orderlyD:
  "orderly D x m \<Longrightarrow> log_ready (cj_logger j) \<Longrightarrow> has_subdirs D (cj_logger j) \<Longrightarrow> m j = (r, j') \<Longrightarrow>
    ended x (cj_logger j) (cj_logger j') r"
  by (simp add: orderly_def)

lemma orderly_mono: "orderly D x m \<Longrightarrow> D \<subseteq> E \<Longrightarrow> (x \<Longrightarrow> y) \<Longrightarrow> orderly E y m"
  by (fastforce simp: orderly_def ended_def has_subdirs_def split: sum.splits if_splits)

lemma orderly_ret [orderly_intro, simp]: "orderly D x (ret a)"
  by (auto simp: orderly_def ended_def ret_def continues_refl)

lemma orderly_throw [orderly_intro]: "proper e \<Longrightarrow> (is_exit e \<Longrightarrow> x) \<Longrightarrow> orderly D x (throw e)"
  by (auto simp: orderly_def ended_def throw_def continues_refl)

lemma orderly_gets [orderly_intro, simp]: "orderly D x (gets f)"
  by (auto simp: orderly_def ended_def gets_def continues_refl)

lemma orderly_modify [orderly_intro]: "(\<And>j. cj_logger (f j) = cj_logger j) \<Longrightarrow> orderly D x (modify f)"
  by (auto simp: orderly_def ended_def modify_def continues_refl)

lemma orderly_bnd_at:
  assumes m: "orderly D x m" and f: "\<And>a j j'. log_ready (cj_logger j) \<Longrightarrow> has_subdirs D (cj_logger j) \<Longrightarrow> m j = (Inr a, j') \<Longrightarrow> orderly D x (f a)"
  shows "orderly D x (bnd m f)"
proof (rule orderlyI)
  fix j r j'
  assume ready: "log_ready (cj_logger j)" "has_subdirs D (cj_logger j)" and run: "bnd m f j = (r, j')"
  obtain q j1 where q: "m j = (q, j1)" by (cases "m j")
  note one = orderlyD [OF m ready q]
  show "ended x (cj_logger j) (cj_logger j') r"
  proof (cases q)
    case (Inl e)
    then show ?thesis using one run q by (auto simp: bnd_def ended_def)
  next
    case (Inr a)
    then have "f a j1 = (r, j')" using run q by (simp add: bnd_def)
    moreover have l1: "continues (cj_logger j) (cj_logger j1)" "sl_indent (cj_logger j1) = sl_indent (cj_logger j)"
      using one Inr by (simp_all add: ended_def)
    ultimately have "ended x (cj_logger j1) (cj_logger j') r"
      using orderlyD [OF f [OF ready]] q Inr has_subdirs_continues [OF ready(2)] by (metis continues_def)
    with l1 show ?thesis by (auto simp: ended_def intro: continues_trans split: sum.splits)
  qed
qed

lemma orderly_bnd [orderly_intro]: "orderly D x m \<Longrightarrow> (\<And>a. orderly D x (f a)) \<Longrightarrow> orderly D x (bnd m f)"
  by (rule orderly_bnd_at)

lemma orderly_andthen [orderly_intro]: "orderly D x m \<Longrightarrow> orderly D x n \<Longrightarrow> orderly D x (andthen m n)"
  by (simp add: andthen_def orderly_bnd)

lemma orderly_if [orderly_intro]:
  "(b \<Longrightarrow> orderly D x m) \<Longrightarrow> (\<not> b \<Longrightarrow> orderly D x n) \<Longrightarrow> orderly D x (if b then m else n)"
  by simp

lemma orderly_option [orderly_intro]:
  "(a = None \<Longrightarrow> orderly D x m) \<Longrightarrow> (\<And>b. a = Some b \<Longrightarrow> orderly D x (f b)) \<Longrightarrow>
   orderly D x (case a of None \<Rightarrow> m | Some b \<Rightarrow> f b)"
  by (cases a) simp_all

lemma orderly_when [orderly_intro]: "(b \<Longrightarrow> orderly D x m) \<Longrightarrow> orderly D x (when_do b m)"
  by (simp add: when_do_def)

lemma orderly_some_or [orderly_intro]: "exit_status_of e = None \<Longrightarrow> \<not> is_exit e \<Longrightarrow> orderly D x (some_or e a)"
  by (cases a) (auto simp: proper_def intro: orderly_throw)

lemma orderly_lift_sum [orderly_intro]:
  "(\<And>e. r = Inl e \<Longrightarrow> exit_status_of e = None \<and> \<not> is_exit e) \<Longrightarrow> orderly D x (lift_sum r)"
  by (cases r) (auto simp: orderly_def ended_def lift_sum_def continues_refl proper_def)

lemma orderly_try [orderly_intro]:
  assumes m: "orderly D y m" and h: "\<And>e. \<not> is_exit e \<Longrightarrow> proper e \<Longrightarrow> orderly D x (h e)"
    and ex: "\<And>e. is_exit e \<Longrightarrow> y \<Longrightarrow> x \<and> h e = throw e" and f: "\<And>a. orderly D x (f a)"
  shows "orderly D x (try_else m h f)"
proof (rule orderlyI)
  fix j r j'
  assume ready: "log_ready (cj_logger j)" "has_subdirs D (cj_logger j)" and run: "try_else m h f j = (r, j')"
  obtain q j1 where q: "m j = (q, j1)" by (cases "m j")
  note one = orderlyD [OF m ready q]
  show "ended x (cj_logger j) (cj_logger j') r"
  proof (cases "\<exists>e. q = Inl e \<and> is_exit e")
    case True
    then obtain e where e: "q = Inl e" "is_exit e" by blast
    then have "y" using one by (simp add: ended_def)
    with ex [OF e(2)] have "r = Inl e" "j' = j1" "x" using run q e(1) by (simp_all add: try_else_def throw_def)
    then show ?thesis using one e by (simp add: ended_def)
  next
    case False
    then have l1: "continues (cj_logger j) (cj_logger j1)" "sl_indent (cj_logger j1) = sl_indent (cj_logger j)"
      using one by (auto simp: ended_def split: sum.splits)
    then have at: "log_ready (cj_logger j1)" "has_subdirs D (cj_logger j1)"
      using has_subdirs_continues [OF ready(2)] by (auto simp: continues_def)
    have "ended x (cj_logger j1) (cj_logger j') r"
    proof (cases q)
      case (Inl e)
      then have "\<not> is_exit e" "proper e" using False one by (auto simp: ended_def)
      then show ?thesis using orderlyD [OF h at] run q Inl by (simp add: try_else_def)
    next
      case (Inr a)
      then show ?thesis using orderlyD [OF f at] run q by (simp add: try_else_def)
    qed
    with l1 show ?thesis by (auto simp: ended_def intro: continues_trans split: sum.splits)
  qed
qed

lemma catch_try: "catch m h = try_else m h ret"
  by (auto simp: catch_def try_else_def ret_def fun_eq_iff split: prod.splits sum.splits)

lemma orderly_catch [orderly_intro]:
  "orderly D y m \<Longrightarrow> (\<And>e. \<not> is_exit e \<Longrightarrow> proper e \<Longrightarrow> orderly D x (h e)) \<Longrightarrow>
   (\<And>e. is_exit e \<Longrightarrow> y \<Longrightarrow> x \<and> h e = throw e) \<Longrightarrow> orderly D x (catch m h)"
  unfolding catch_try by (rule orderly_try [where y = y]) simp_all

lemma finally_try: "finally_do m h = try_else m (\<lambda>e. andthen h (throw e)) (\<lambda>a. andthen h (ret a))"
  by (auto simp: finally_do_def try_else_def andthen_def bnd_def throw_def ret_def fun_eq_iff split: prod.splits sum.splits)

lemma orderly_finally [orderly_intro]: "orderly D False m \<Longrightarrow> orderly D x h \<Longrightarrow> orderly D x (finally_do m h)"
  unfolding finally_try by (rule orderly_try, assumption) (auto intro!: orderly_andthen orderly_throw)


section \<open>Tests and groups\<close>

lemma status_codes: "st \<in> set job_statuses \<Longrightarrow> is_status_code st" "st \<in> set job_statuses \<Longrightarrow> is_status_code (''END '' @ st)"
  by (auto simp: is_status_code_def)

lemma code_types: "st \<in> set job_statuses \<Longrightarrow> code_type st = LStatus" "code_type (''END '' @ st) = LEnd" "code_type ''START'' = LStart"
  by (auto simp: code_type_def job_statuses_def)

lemma next_indent_end: "next_indent (CHR ''E'' # CHR ''N'' # CHR ''D'' # CHR '' '' # st) i = i - 1"
  using code_types(2) [of st] by (simp add: next_indent_def)

lemma named_None [simp]: "named None"
  by (simp add: named_def rendered_name_def)

lemma hd_split: "hd (split_on c s) = takeWhile (\<lambda>d. d \<noteq> c) s"
  by (induction c s rule: split_on.induct) (auto split: list.splits)

lemma clean_message_append: "clean_message m \<Longrightarrow> clean_message (m @ newline # t)"
  by (simp add: clean_message_def hd_split takeWhile_tail)

lemma clean_message_Nil [simp]: "clean_message []"
  by (simp add: clean_message_def expand_tabs_def)

lemma orderly_record [orderly_intro]:
  assumes "plain_env env" "is_status_code code" "code_type code = LStatus" "named sd" "named op" "subdirs_of sd \<subseteq> D"
  shows "orderly D x (job_record env code sd op msg kvs)"
proof (rule orderlyI)
  fix j r j'
  assume ready: "log_ready (cj_logger j)" "has_subdirs D (cj_logger j)" and run: "job_record env code sd op msg kvs j = (r, j')"
  have "has_subdirs (subdirs_of sd) (cj_logger j)" using ready(2) assms(6) by (auto simp: has_subdirs_def)
  from job_record_cases [OF assms(1,2,4,5) ready(1) this _ run] assms(3)
  show "ended x (cj_logger j) (cj_logger j') r"
    by (auto simp: ended_def proper_def exit_status_of_def is_exit_def next_indent_def continues_refl [OF ready(1)])
qed

text \<open>The line that ends a block is always written, whatever the names and messages.\<close>

lemma end_record:
  assumes "plain_env env" "st \<in> set job_statuses" "named sd" "named op" "\<not> bad_name sd" "\<not> bad_name op" "clean_message msg"
    and ready: "log_ready (cj_logger j)" "has_subdirs (subdirs_of sd) (cj_logger j)" and i: "1 \<le> sl_indent (cj_logger j)"
    and run: "job_record env (''END '' @ st) sd op msg [] j = (r, j')"
  shows "r = Inr () \<and> continues (cj_logger j) (cj_logger j') \<and> sl_indent (cj_logger j') = sl_indent (cj_logger j) - 1"
proof -
  have "r = Inr ()"
    using job_record_ok [OF status_codes(2) [OF assms(2)] assms(5-7) _ ready run] by simp
  then show ?thesis
    using job_record_cases [OF assms(1) status_codes(2) [OF assms(2)] assms(3,4) ready _ run] i
    by (auto simp: next_indent_end)
qed

lemma job_record_names: "job_record env code sd op msg kvs j = (Inr (), j') \<Longrightarrow> \<not> bad_name sd \<and> \<not> bad_name op"
  by (auto simp: job_record_def exm_Inr elim: new_log_entry_cases)

text \<open>The end of a group, in the state the function left.\<close>

lemma end_group_run:
  assumes env: "plain_env env" and names: "named sd" "named tn" "\<not> bad_name sd" "\<not> bad_name tn"
    and e: "proper e" "\<not> is_exit e"
    and ready: "log_ready (cj_logger j)" "has_subdirs (subdirs_of sd) (cj_logger j)" and i: "1 \<le> sl_indent (cj_logger j)"
    and run: "end_group env sd tn e j = (r, j')"
  shows "r = Inl e \<and> continues (cj_logger j) (cj_logger j') \<and> sl_indent (cj_logger j') = sl_indent (cj_logger j) - 1"
proof -
  have "\<exists>st msg. st \<in> set job_statuses \<and> clean_message msg \<and>
      end_group env sd tn e j = andthen (job_record env (''END '' @ st) sd tn msg []) (throw e) j"
  proof (cases "exit_status_of e")
    case (Some st)
    then have "end_group env sd tn e j = andthen (job_record env (''END '' @ st) sd tn [] []) (throw e) j"
      by (simp add: end_group_def)
    moreover have "st \<in> set job_statuses" using e(1) Some by (simp add: proper_def)
    ultimately show ?thesis by (intro exI [of _ st] exI [of _ "[]"]) simp
  next
    case None
    show ?thesis
    proof (cases "is_job_error e")
      case True
      then have "end_group env sd tn e j = andthen (job_record env (''END '' @ ''ABORT'') sd tn [] []) (throw e) j"
        using None by (simp add: end_group_def)
      then show ?thesis by (intro exI [of _ "''ABORT''"] exI [of _ "[]"]) (simp add: job_statuses_def)
    next
      case False
      let ?m = "je_str env e (cj_world j) @ newline # je_traceback env e (cj_world j)"
      have "end_group env sd tn e j = andthen (job_record env (''END '' @ ''ERROR'') sd tn ?m []) (throw e) j"
        using None False e(2) by (simp add: end_group_def)
      moreover have "clean_message ?m" using env by (intro clean_message_append) (simp add: plain_env_def)
      ultimately show ?thesis by (intro exI [of _ "''ERROR''"] exI [of _ ?m]) (simp add: job_statuses_def)
    qed
  qed
  then obtain st msg where st: "st \<in> set job_statuses" "clean_message msg"
    and eq: "andthen (job_record env (''END '' @ st) sd tn msg []) (throw e) j = (r, j')"
    using run by metis
  obtain q j1 where q: "job_record env (''END '' @ st) sd tn msg [] j = (q, j1)"
    by (cases "job_record env (''END '' @ st) sd tn msg [] j")
  from end_record [OF env st(1) names st(2) ready i q] eq q show ?thesis by (auto simp: andthen_def bnd_def throw_def)
qed

lemma orderly_rungroup [orderly_intro]:
  assumes env: "plain_env env" and names: "named sd" "named tn" and D: "subdirs_of sd \<subseteq> D" and f: "orderly D x function"
  shows "orderly D x (rungroup env sd tn function timeout)"
proof (rule orderlyI)
  fix j r j'
  let ?kvs = "case timeout of None \<Rightarrow> [] | Some t \<Rightarrow> if t = 0 then [] else [(''timeout'', str_of_nat t)]"
  let ?set = "modify (\<lambda>j. j\<lparr>cj_unexpected_reboot := Some (sd, tn)\<rparr>)"
  let ?run = "catch (bnd function (\<lambda>result. andthen (job_record env ''END GOOD'' sd tn [] []) (ret result))) (end_group env sd tn)"
  assume ready: "log_ready (cj_logger j)" "has_subdirs D (cj_logger j)" and run: "rungroup env sd tn function timeout j = (r, j')"
  have sub: "has_subdirs (subdirs_of sd) l" if "has_subdirs D l" for l using that D by (auto simp: has_subdirs_def)
  obtain q j1 where q: "job_record env ''START'' sd tn [] ?kvs j = (q, j1)" by (cases "job_record env ''START'' sd tn [] ?kvs j")
  have start: "is_status_code ''START''" by (simp add: is_status_code_def)
  from job_record_cases [OF env start names ready(1) sub [OF ready(2)] _ q]
  consider "q = Inl ValueError" "j1 = j"
    | "q = Inr ()" "continues (cj_logger j) (cj_logger j1)" "sl_indent (cj_logger j1) = sl_indent (cj_logger j) + 1"
    by (auto simp: next_indent_def code_types)
  then show "ended x (cj_logger j) (cj_logger j') r"
  proof cases
    case 1
    then have "r = Inl ValueError" "cj_logger j' = cj_logger j"
      using run q by (auto simp: rungroup_def finally_do_def andthen_def bnd_def modify_def)
    then show ?thesis using ready by (simp add: ended_def proper_def exit_status_of_def is_exit_def continues_refl)
  next
    case 2
    let ?j2 = "j1\<lparr>cj_unexpected_reboot := Some (sd, tn)\<rparr>"
    have good: "\<not> bad_name sd" "\<not> bad_name tn" using job_record_names [of env "''START''" sd tn "[]" ?kvs j j1] q 2(1) by auto
    have at: "log_ready (cj_logger ?j2)" "has_subdirs D (cj_logger ?j2)"
      using 2(2) has_subdirs_continues [OF ready(2) 2(2)] by (simp_all add: continues_def)
    obtain p j3 where p: "function ?j2 = (p, j3)" by (cases "function ?j2")
    note body = orderlyD [OF f at p]
    obtain p' j4 where p': "?run ?j2 = (p', j4)" by (cases "?run ?j2")
    have r: "r = p'" "cj_logger j' = cj_logger j4"
      using run q 2(1) p' by (auto simp: rungroup_def finally_do_def andthen_run modify_def)
    have c3: "continues (cj_logger j1) (cj_logger j3)" using body by (simp add: ended_def)
    then have c: "continues (cj_logger j) (cj_logger j3)" using continues_trans [OF 2(2)] by simp
    have at3: "log_ready (cj_logger j3)" "has_subdirs (subdirs_of sd) (cj_logger j3)"
      using c sub [OF has_subdirs_continues [OF ready(2) c]] by (simp_all add: continues_def)
    have i0: "0 \<le> sl_indent (cj_logger j)" using ready(1) by (simp add: log_ready_def)
    show ?thesis
    proof (cases "\<exists>e. p = Inl e \<and> is_exit e")
      case True
      then obtain e where e: "p = Inl e" "is_exit e" by blast
      then have "exit_status_of e = None" "\<not> is_job_error e" by (auto simp: is_exit_def exit_status_of_def is_job_error_def)
      then have "p' = Inl e" "j4 = j3" using p' p e by (auto simp: catch_def bnd_def end_group_def throw_def)
      then show ?thesis using body c e r 2(3) by (auto simp: ended_def)
    next
      case False
      then have i3: "sl_indent (cj_logger j3) = sl_indent (cj_logger j) + 1"
        using body 2(3) by (auto simp: ended_def split: sum.splits)
      have "continues (cj_logger j3) (cj_logger j4) \<and> sl_indent (cj_logger j4) = sl_indent (cj_logger j) \<and>
          (\<forall>e. p' = Inl e \<longrightarrow> proper e \<and> \<not> is_exit e)"
      proof (cases p)
        case (Inl e)
        then have e: "proper e" "\<not> is_exit e" using body False by (auto simp: ended_def)
        have "end_group env sd tn e j3 = (p', j4)" using p' p Inl by (simp add: catch_def bnd_def)
        from end_group_run [OF env names good e at3 _ this] i0 i3 e show ?thesis by auto
      next
        case (Inr a)
        obtain u j5 where u: "job_record env (''END '' @ ''GOOD'') sd tn [] [] j3 = (u, j5)"
          by (cases "job_record env (''END '' @ ''GOOD'') sd tn [] [] j3")
        have "''GOOD'' \<in> set job_statuses" by (simp add: job_statuses_def)
        from end_record [OF env this names good _ at3 _ u] i0 i3
        have "u = Inr ()" "continues (cj_logger j3) (cj_logger j5)" "sl_indent (cj_logger j5) = sl_indent (cj_logger j)" by auto
        moreover from this have "p' = Inr a" "j4 = j5" using p' p Inr u by (auto simp: catch_def bnd_def andthen_def ret_def)
        ultimately show ?thesis by simp
      qed
      then show ?thesis using r continues_trans [OF c] by (auto simp: ended_def split: sum.splits)
    qed
  qed
qed


text \<open>A child that does not exit.\<close>

lemma child_error_cases: "proper e \<Longrightarrow> proper (child_error e) \<and> \<not> is_exit (child_error e)"
  by (auto simp: child_error_def proper_def exit_status_of_def is_exit_def is_job_error_def UnhandledTestError_def
      job_statuses_def split: exn.splits if_splits)

lemma forked_run:
  assumes m: "orderly D False m" and ready: "log_ready (cj_logger j)" "has_subdirs D (cj_logger j)" and run: "forked m j = (r, j')"
  shows "continues (cj_logger j) (cj_logger j') \<and> sl_indent (cj_logger j') = sl_indent (cj_logger j) \<and>
    (\<exists>c. r = Inr c \<and> (\<forall>e. c = Some e \<longrightarrow> proper e \<and> \<not> is_exit e))"
proof -
  obtain q j1 where q: "m j = (q, j1)" by (cases "m j")
  note one = orderlyD [OF m ready q]
  then have c: "continues (cj_logger j) (cj_logger j1)" "sl_indent (cj_logger j1) = sl_indent (cj_logger j)"
    by (auto simp: ended_def split: sum.splits if_splits)
  have j': "j' = own_memory j j1" and r: "r = Inr (case q of Inl e \<Rightarrow> Some (child_error e) | Inr _ \<Rightarrow> None)"
    using run q by (simp_all add: forked_def)
  have "sl_global_filename (cj_logger j1) = sl_global_filename (cj_logger j)"
      "tr_do (sl_tap (cj_logger j1)) = tr_do (sl_tap (cj_logger j))"
    using c(1) by (simp_all add: continues_def log_place_def)
  then have "same_log (cj_logger j1) (cj_logger j')"
    by (simp add: j' own_memory_def same_log_def log_place_def)
  then have "continues (cj_logger j) (cj_logger j')" "sl_indent (cj_logger j') = sl_indent (cj_logger j)"
    using continues_same [OF c(1)] c(2) by (simp_all add: same_log_parts)
  moreover have "\<forall>e. (case q of Inl e \<Rightarrow> Some (child_error e) | Inr _ \<Rightarrow> None) = Some e \<longrightarrow> proper e \<and> \<not> is_exit e"
    using one child_error_cases by (auto simp: ended_def split: sum.splits)
  ultimately show ?thesis using r by blast
qed

lemma orderly_runtest [orderly_intro]:
  assumes "orderly D False body"
  shows "orderly D x (runtest body)"
  unfolding runtest_def
proof (rule orderly_bnd_at)
  show "orderly D x (forked body)"
    by (rule orderlyI) (auto simp: ended_def dest: forked_run [OF assms])
  fix a j j'
  assume "log_ready (cj_logger j)" "has_subdirs D (cj_logger j)" "forked body j = (Inr a, j')"
  from forked_run [OF assms this] have "\<forall>e. a = Some e \<longrightarrow> proper e \<and> \<not> is_exit e" by auto
  moreover have "proper UnhandledTestError" "\<not> is_exit UnhandledTestError"
    by (simp_all add: UnhandledTestError_def proper_def exit_status_of_def job_statuses_def is_exit_def)
  ultimately show "orderly D x (case a of None \<Rightarrow> ret () | Some e \<Rightarrow>
      if exit_status_of e \<noteq> None \<or> is_job_error e then throw e else throw UnhandledTestError)"
    by (intro orderly_intro) auto
qed

lemma orderly_disk [orderly_intro]: "(\<And>m. orderly D x (f m)) \<Longrightarrow> orderly D x (disk_usage_stop env n f)"
  unfolding disk_usage_stop_def by (intro orderly_intro)

lemma plain_statuses: "''GOOD'' \<in> set job_statuses" "''WARN'' \<in> set job_statuses" "''TEST_NA'' \<in> set job_statuses"
    "''ERROR'' \<in> set job_statuses" "''FAIL'' \<in> set job_statuses" "''ABORT'' \<in> set job_statuses"
  by (simp_all add: job_statuses_def)

lemma orderly_status [orderly_intro]:
  "plain_env env \<Longrightarrow> st \<in> set job_statuses \<Longrightarrow> named sd \<Longrightarrow> named op \<Longrightarrow> subdirs_of sd \<subseteq> D \<Longrightarrow>
   orderly D x (job_record env st sd op msg kvs)"
  by (rule orderly_record) (simp_all add: status_codes code_types)

lemma orderly_group_func [orderly_intro]:
  assumes env: "plain_env env" and names: "named sd" "named (Some tn)" and D: "subdirs_of sd \<subseteq> D" and body: "orderly D False body"
  shows "orderly D x (group_func env n sd tn body)"
  unfolding group_func_def
proof (rule orderly_finally)
  note rec = orderly_status [OF env _ names D]
  show "orderly D False (try_else (runtest body)
      (\<lambda>e. case exit_status_of e of
          Some st \<Rightarrow> bnd (gets (\<lambda>j. je_str env e (cj_world j))) (\<lambda>msg. andthen (job_record env st sd (Some tn) msg []) (throw e))
        | None \<Rightarrow> throw e)
      (\<lambda>_. job_record env ''GOOD'' sd (Some tn) ''completed successfully'' []))"
  proof (rule orderly_try [where y = False])
    show "orderly D False (runtest body)" by (rule orderly_runtest [OF body])
    fix e assume "\<not> is_exit e" "proper e"
    then show "orderly D False (case exit_status_of e of
          Some st \<Rightarrow> bnd (gets (\<lambda>j. je_str env e (cj_world j))) (\<lambda>msg. andthen (job_record env st sd (Some tn) msg []) (throw e))
        | None \<Rightarrow> throw e)"
      by (intro orderly_intro rec) (simp_all add: proper_def)
  qed (simp_all add: rec plain_statuses)
  show "orderly D x (disk_usage_stop env n (\<lambda>reason. job_record env ''WARN'' sd (Some tn) reason []))"
    by (intro orderly_disk rec plain_statuses)
qed

lemma orderly_test_group:
  assumes "plain_env env" "named (Some s)" "named (Some tn)" "orderly (insert s D) False body"
  shows "orderly (insert s D) x (run_test_group env s tn timeout body)"
  unfolding run_test_group_def using assms
  by (intro orderly_bnd orderly_gets orderly_rungroup orderly_group_func) (auto simp: subdirs_of_def)

text \<open>After its directory was made a test can rely on it.\<close>

lemma dirname_in_dir:
  assumes p: "p \<noteq> []" "last p \<noteq> CHR ''/''" and f: "file_name f"
  shows "dirname (path_join p f) = p"
proof -
  have join: "path_join p [] = p @ ''/''" using p by (simp add: path_join_def)
  have "dropWhile (\<lambda>c. c \<noteq> CHR ''/'') (rev (path_join p f)) = rev (p @ ''/'')"
  proof -
    have "\<forall>c \<in> set (rev f). c \<noteq> CHR ''/''" using f by (auto simp: file_name_def)
    then have "dropWhile (\<lambda>c. c \<noteq> CHR ''/'') (rev f @ CHR ''/'' # rev p) = CHR ''/'' # rev p"
      by (subst dropWhile_append2) simp_all
    then show ?thesis using path_join_file [OF f, of p] join by simp
  qed
  moreover have "\<not> list_all (\<lambda>c. c = CHR ''/'') (p @ ''/'')"
  proof -
    have "last p \<in> set (p @ ''/'')" using p(1) by simp
    with p(2) show ?thesis unfolding list_all_iff by blast
  qed
  moreover have "rstrip_char (CHR ''/'') (p @ ''/'') = p"
    unfolding rstrip_char_end using p by (intro rstrip_char_id) simp
  ultimately show ?thesis by (simp add: dirname_def Let_def)
qed

lemma dirname_subdir:
  assumes "plain_subdir s" "file_name f"
  shows "dirname (path_join (path_join r s) f) = path_join r s"
  using assms by (intro dirname_in_dir) (auto simp: plain_subdir_def path_join_def)

lemma make_dir_cases:
  assumes "plain_env env" "make_test_outputdir env s j = (q, j1)"
  shows "(q = Inl (TestException ''ERROR'') \<and> j1 = j) \<or>
    (\<exists>ds. q = Inr () \<and> path_join (sl_resultdir (cj_logger j)) s \<in> set ds \<and>
      j1 = j\<lparr>cj_logger := (cj_logger j)\<lparr>sl_dirs := sl_dirs (cj_logger j) @ ds\<rparr>\<rparr>)"
proof (cases "path_join (sl_resultdir (cj_logger j)) s \<in> set (sl_dirs (cj_logger j)) \<or>
    map_of (sl_files (cj_logger j)) (path_join (sl_resultdir (cj_logger j)) s) \<noteq> None")
  case True
  then show ?thesis using assms(2) by (simp only: make_test_outputdir_def gets_bnd if_True throw_def) simp
next
  case False
  then have eq: "make_test_outputdir env s j = (case je_makedirs env (path_join (sl_resultdir (cj_logger j)) s) (cj_world j) of
      None \<Rightarrow> throw (TestException ''ERROR'')
    | Some ds \<Rightarrow> modify (\<lambda>j. j\<lparr>cj_logger := (cj_logger j)\<lparr>sl_dirs := sl_dirs (cj_logger j) @ ds\<rparr>\<rparr>)) j"
    by (simp only: make_test_outputdir_def gets_bnd if_False)
  show ?thesis
  proof (cases "je_makedirs env (path_join (sl_resultdir (cj_logger j)) s) (cj_world j)")
    case None
    then show ?thesis using assms(2) eq by (simp add: throw_def)
  next
    case (Some ds)
    moreover have "path_join (sl_resultdir (cj_logger j)) s \<in> set ds" using assms(1) Some unfolding plain_env_def by blast
    ultimately show ?thesis using assms(2) eq by (intro disjI2 exI [of _ ds]) (simp add: modify_def)
  qed
qed

lemma orderly_in_new_dir:
  assumes env: "plain_env env" and s: "plain_subdir s" and m: "orderly (insert s D) x m"
  shows "orderly D x (andthen (make_test_outputdir env s) m)"
proof (rule orderlyI)
  fix j r j'
  assume ready: "log_ready (cj_logger j)" "has_subdirs D (cj_logger j)" and run: "andthen (make_test_outputdir env s) m j = (r, j')"
  let ?p = "path_join (sl_resultdir (cj_logger j)) s"
  obtain q j1 where q: "make_test_outputdir env s j = (q, j1)" by (cases "make_test_outputdir env s j")
  from make_dir_cases [OF env q] consider "q = Inl (TestException ''ERROR'')" "j1 = j"
    | ds where "q = Inr ()" "?p \<in> set ds" "j1 = j\<lparr>cj_logger := (cj_logger j)\<lparr>sl_dirs := sl_dirs (cj_logger j) @ ds\<rparr>\<rparr>"
    by blast
  then show "ended x (cj_logger j) (cj_logger j') r"
  proof cases
    case 1
    then have "r = Inl (TestException ''ERROR'')" "j' = j" using run q by (simp_all add: andthen_def bnd_def)
    then show ?thesis using ready
      by (simp add: ended_def proper_def exit_status_of_def is_exit_def plain_statuses continues_refl)
  next
    case (2 ds)
    then have c: "continues (cj_logger j) (cj_logger j1)" "sl_indent (cj_logger j1) = sl_indent (cj_logger j)"
      using ready(1) by (auto simp: continues_def log_ready_def log_place_def log_text_def log_path_def log_at_def)
    have "file_name (sl_subdir_filename (cj_logger j))" using ready(1) by (simp add: log_ready_def)
    then have "has_subdirs {s} (cj_logger j1)"
      using 2 s dirname_subdir [OF s] by (simp add: has_subdirs_def subdir_log_def)
    then have "has_subdirs (insert s D) (cj_logger j1)" using has_subdirs_continues [OF ready(2) c(1)] by (simp add: has_subdirs_def)
    moreover have "m j1 = (r, j')" "log_ready (cj_logger j1)" using run q 2(1) c(1) by (simp_all add: andthen_run continues_def)
    ultimately have "ended x (cj_logger j1) (cj_logger j') r" using orderlyD [OF m] by blast
    with c show ?thesis by (auto simp: ended_def intro: continues_trans split: sum.splits)
  qed
qed

definition test_names :: "string \<Rightarrow> string \<Rightarrow> bool" where
  "test_names s tn \<longleftrightarrow> plain_subdir s \<and> named (Some s) \<and> named (Some tn)"

lemma orderly_run_test [orderly_intro]:
  assumes "plain_env env" "test_names s tn" "orderly (insert s D) False body"
  shows "orderly D x (run_test env s tn timeout body)"
  unfolding run_test_def using assms
  by (intro orderly_in_new_dir orderly_catch [where y = False] orderly_andthen orderly_ret orderly_if orderly_throw orderly_test_group)
    (auto simp: test_names_def)

lemma orderly_run_test_detail [orderly_intro]:
  assumes "plain_env env" "test_names s tn" "orderly (insert s D) False body"
  shows "orderly D x (run_test_detail env s tn timeout body)"
  unfolding run_test_detail_def using assms
  by (intro orderly_in_new_dir orderly_catch [where y = False] orderly_andthen orderly_ret orderly_option orderly_throw orderly_test_group)
    (auto simp: test_names_def)

lemma orderly_run_group [orderly_intro]:
  assumes "plain_env env" "named (Some name)" "orderly D x f"
  shows "orderly D x (run_group env name f)"
  unfolding run_group_def
proof (rule orderly_catch)
  show "orderly D x (rungroup env None (Some name) f None)"
    using assms by (intro orderly_rungroup) (simp_all add: subdirs_of_def)
  show "orderly D x (if is_exit e \<or> exit_status_of e \<noteq> None then throw e else throw UnhandledTestError)"
    if "\<not> is_exit e" "proper e" for e
    using that by (auto intro!: orderly_throw simp: UnhandledTestError_def proper_def exit_status_of_def plain_statuses is_exit_def)
  show "x \<and> (if is_exit e \<or> exit_status_of e \<noteq> None then throw e else throw UnhandledTestError) = throw e"
    if "is_exit e" "x" for e using that by simp
qed


section \<open>Parallel tasks\<close>

text \<open>The text of a log file of the results directory, empty where there is none.\<close>

definition text_at :: "status_logger \<Rightarrow> string \<Rightarrow> string" where
  "text_at l g = (case log_at l g of None \<Rightarrow> [] | Some t \<Rightarrow> t)"

lemma log_text_at: "log_text l = text_at l (sl_global_filename l)"
  by (simp add: log_text_def text_at_def log_at_def log_path_def)

lemma task_log_prefix [simp]: "starts_with (task_log f k) (f @ ''.'')"
  by (simp add: task_log_def starts_with_iff)

lemma task_log_file [simp]: "file_name f \<Longrightarrow> file_name (task_log f k)"
  using str_of_nat_digits [of k] by (auto simp: file_name_def task_log_def is_digit_def)

lemma task_log_eq [simp]: "task_log f k = task_log f i \<longleftrightarrow> k = i"
  by (simp add: task_log_def) (metis nat_of_digits_str_of_nat)

lemma task_log_apart: "\<not> starts_with (task_log f k) (task_log f i @ ''.'')"
proof
  assume "starts_with (task_log f k) (task_log f i @ ''.'')"
  then obtain u where "str_of_nat k = str_of_nat i @ ''.'' @ u" by (auto simp: task_log_def starts_with_iff)
  then have "CHR ''.'' \<in> set (str_of_nat k)" by simp
  with str_of_nat_digits [of k] show False by (auto simp: is_digit_def)
qed

lemma not_own_prefix: "\<not> starts_with f (f @ ''.'')"
  by (auto simp: starts_with_iff)

text \<open>The log when the tasks \<open>0..<i\<close> have run, their logs from \<open>k\<close> on not yet merged.\<close>

definition tasks_at :: "status_logger \<Rightarrow> nat \<Rightarrow> nat \<Rightarrow> status_logger \<Rightarrow> bool" where
  "tasks_at l0 k i l \<longleftrightarrow> (let f = sl_global_filename l0; n = nat (sl_indent l0) in
     sl_resultdir l = sl_resultdir l0 \<and> sl_subdir_filename l = sl_subdir_filename l0 \<and>
     tr_do (sl_tap l) = tr_do (sl_tap l0) \<and> sl_indent l = sl_indent l0 \<and> set (sl_dirs l0) \<subseteq> set (sl_dirs l) \<and>
     complete_lines (text_at l f) \<and>
     (\<exists>ls. file_lines (text_at l f) = file_lines (text_at l0 f) @ ls \<and> nested ls n = Some n) \<and>
     (\<forall>g. other_log l0 g \<longrightarrow> log_at l g = log_at l0 g) \<and>
     (\<forall>g. file_name g \<longrightarrow> starts_with g (f @ ''.'') \<longrightarrow> (\<forall>q \<in> {k..<i}. g \<noteq> task_log f q) \<longrightarrow> log_at l g = None) \<and>
     (\<forall>q \<in> {k..<i}. complete_lines (text_at l (task_log f q)) \<and>
        nested (file_lines (text_at l (task_log f q))) n = Some n))"

lemma tasks_at_init: "log_ready l0 \<Longrightarrow> tasks_at l0 0 0 l0"
  by (simp add: tasks_at_def Let_def log_ready_def log_text_at)

lemma tasks_at_rename: "tasks_at l0 k i (l\<lparr>sl_global_filename := g\<rparr>) = tasks_at l0 k i l"
  by (simp add: tasks_at_def text_at_def log_at_def)

lemma tasks_at_subdirs: "tasks_at l0 k i l \<Longrightarrow> has_subdirs D l0 \<Longrightarrow> has_subdirs D l"
  by (auto simp: tasks_at_def Let_def has_subdirs_def subdir_log_def)

text \<open>A task starts with a log of its own.\<close>

lemma task_ready:
  assumes l0: "log_ready l0" and at: "tasks_at l0 0 i l" and f: "f = sl_global_filename l0"
  shows "log_ready (l\<lparr>sl_global_filename := task_log f i\<rparr>)"
proof -
  let ?l = "l\<lparr>sl_global_filename := task_log f i\<rparr>"
  have names: "file_name f" "file_name (sl_subdir_filename l0)" using l0 f by (simp_all add: log_ready_def)
  have none: "log_at l g = None" if "file_name g" "starts_with g (f @ ''.'')" "\<forall>q < i. g \<noteq> task_log f q" for g
    using at that f by (simp add: tasks_at_def Let_def)
  have "log_at l (task_log f i) = None" using none [of "task_log f i"] names by simp
  then have "text_at ?l (task_log f i) = []" by (simp add: text_at_def log_at_def)
  moreover have "log_at ?l g = None" if "file_name g" "starts_with g (task_log f i @ ''.'')" for g
  proof -
    have "starts_with g (f @ ''.'')" using that(2) by (auto simp: task_log_def starts_with_iff)
    moreover have "\<forall>q. g \<noteq> task_log f q" using that(2) task_log_apart by blast
    ultimately show ?thesis using none [OF that(1)] by (simp add: log_at_def)
  qed
  moreover have "dirname (log_path ?l) \<in> set (sl_dirs l)"
  proof -
    have "dirname (log_path ?l) = dirname (log_path l0)"
      using at f dirname_file [OF task_log_file [OF names(1)] names(1)] by (simp add: tasks_at_def Let_def log_path_def)
    then show ?thesis using l0 at by (auto simp: log_ready_def tasks_at_def Let_def)
  qed
  ultimately show ?thesis
    using l0 at names unfolding log_ready_def by (simp add: tasks_at_def Let_def log_text_at complete_lines_def)
qed

lemma task_done:
  assumes l0: "log_ready l0" and at: "tasks_at l0 0 i l" and f: "f = sl_global_filename l0"
    and c: "continues (l\<lparr>sl_global_filename := task_log f i\<rparr>) l'" and ind: "sl_indent l' = sl_indent l0"
  shows "tasks_at l0 0 (Suc i) l'"
proof -
  let ?l = "l\<lparr>sl_global_filename := task_log f i\<rparr>"
  have f_name: "file_name f" using l0 f by (simp add: log_ready_def)
  have l': "log_ready l'" "sl_resultdir l' = sl_resultdir l" "sl_global_filename l' = task_log f i"
      "sl_subdir_filename l' = sl_subdir_filename l" "tr_do (sl_tap l') = tr_do (sl_tap l)" "set (sl_dirs l) \<subseteq> set (sl_dirs l')"
    using c by (simp_all add: continues_def log_place_def)
  have same: "log_at l' g = log_at l g" if "file_name g" "g \<noteq> task_log f i" "\<not> starts_with g (task_log f i @ ''.'')" for g
    using c that by (simp add: continues_def other_log_def log_at_def)
  have own: "log_at l' g = None" if "file_name g" "starts_with g (task_log f i @ ''.'')" for g
    using l'(1,3) that by (simp add: log_ready_def)
  have outside: "\<not> starts_with g (task_log f i @ ''.'')" "g \<noteq> task_log f i" if "\<not> starts_with g (f @ ''.'')" for g
    using that by (auto simp: task_log_def starts_with_iff)
  have main: "text_at l' f = text_at l f" using same [OF f_name] outside [OF not_own_prefix] by (simp add: text_at_def)
  have others: "log_at l' g = log_at l0 g" if "other_log l0 g" for g
    using same [of g] outside [of g] at that f by (simp add: other_log_def tasks_at_def Let_def)
  have none: "log_at l' g = None"
    if "file_name g" "starts_with g (f @ ''.'')" "\<forall>q \<in> {0..<Suc i}. g \<noteq> task_log f q" for g
  proof (cases "starts_with g (task_log f i @ ''.'')")
    case False
    then show ?thesis using same [OF that(1)] that at f by (simp add: tasks_at_def Let_def)
  qed (rule own [OF that(1)])
  have logs: "complete_lines (text_at l' (task_log f q)) \<and> nested (file_lines (text_at l' (task_log f q))) (nat (sl_indent l0)) = Some (nat (sl_indent l0))"
    if "q \<in> {0..<Suc i}" for q
  proof (cases "q = i")
    case True
    have "log_at l (task_log f i) = None" using at f f_name by (simp add: tasks_at_def Let_def)
    then have "log_at ?l (task_log f i) = None" by (simp add: log_at_def)
    then have "log_text ?l = []" by (simp add: log_text_at text_at_def)
    with c have "nested (file_lines (log_text l')) (nat (sl_indent ?l)) = Some (nat (sl_indent l'))" by (auto simp: continues_def)
    then show ?thesis using True l'(1,3) at ind by (simp add: log_text_at log_ready_def tasks_at_def Let_def)
  next
    case False
    then have "text_at l' (task_log f q) = text_at l (task_log f q)"
      using same [of "task_log f q"] task_log_apart f_name by (simp add: text_at_def)
    then show ?thesis using at that False f by (auto simp: tasks_at_def Let_def)
  qed
  show ?thesis
    using at f l' main others none logs ind unfolding tasks_at_def Let_def by (auto simp del: task_log_prefix)
qed

lemma fork_task_run:
  assumes m: "orderly D False m" and ready: "log_ready (cj_logger j)" "has_subdirs D (cj_logger j)" and run: "fork_task m j = (r, j')"
  shows "continues (cj_logger j) (cj_logger j') \<and> sl_indent (cj_logger j') = sl_indent (cj_logger j) \<and> (\<exists>c. r = Inr c)"
proof -
  obtain q j1 where q: "forked m j = (q, j1)" by (cases "forked m j")
  note one = forked_run [OF m ready q]
  then obtain c where "q = Inr c" by blast
  then have "r = Inr c" "j' = j1\<lparr>cj_logger := (cj_logger j1)\<lparr>sl_indent := sl_indent (cj_logger j)\<rparr>\<rparr>"
    using run q by (auto simp: fork_task_def bnd_run ret_def)
  moreover from this have "same_log (cj_logger j1) (cj_logger j')" using one by (simp add: same_log_def log_place_def)
  ultimately show ?thesis using one continues_same same_log_parts(5) by fastforce
qed

lemma start_tasks_run:
  assumes "log_ready l0" "has_subdirs D l0" "list_all (orderly D False) ms" "f = sl_global_filename l0"
    and "tasks_at l0 0 i (cj_logger j)" "start_tasks f i ms j = (r, j')"
  shows "\<exists>es. r = Inr es \<and> tasks_at l0 0 (i + length ms) (cj_logger j')"
  using assms
proof (induction ms arbitrary: i j r j')
  case Nil
  then show ?case by (auto simp: ret_def)
next
  case (Cons m ms)
  let ?j = "j\<lparr>cj_logger := (cj_logger j)\<lparr>sl_global_filename := task_log f i\<rparr>\<rparr>"
  obtain q j1 where q: "fork_task m ?j = (q, j1)" by (cases "fork_task m ?j")
  have "log_ready (cj_logger ?j)" using task_ready [OF Cons.prems(1,5,4)] by simp
  moreover have "has_subdirs D (cj_logger ?j)"
    using tasks_at_subdirs [of l0 0 i "cj_logger ?j" D] Cons.prems(2,5) by (simp add: tasks_at_rename)
  moreover have "orderly D False m" using Cons.prems(3) by simp
  ultimately have one: "continues (cj_logger ?j) (cj_logger j1)" "sl_indent (cj_logger j1) = sl_indent (cj_logger ?j)" "\<exists>c. q = Inr c"
    using fork_task_run q by blast+
  have "sl_indent (cj_logger j) = sl_indent l0" using Cons.prems(5) by (simp add: tasks_at_def Let_def)
  then have fin: "tasks_at l0 0 (Suc i) (cj_logger j1)"
    using task_done [OF Cons.prems(1,5,4), of "cj_logger j1"] one by simp
  obtain p j2 where p: "start_tasks f (Suc i) ms j1 = (p, j2)" by (cases "start_tasks f (Suc i) ms j1")
  have "list_all (orderly D False) ms" using Cons.prems(3) by simp
  from Cons.IH [OF Cons.prems(1,2) this Cons.prems(4) fin p]
  obtain es where es: "p = Inr es" "tasks_at l0 0 (Suc i + length ms) (cj_logger j2)" by blast
  obtain c where "q = Inr c" using one(3) by blast
  then have "(r, j') = (Inr (case c of None \<Rightarrow> es | Some e \<Rightarrow> e # es), j2)"
    using Cons.prems(6) q p es(1)
    by (simp add: set_global_filename_def bnd_def ret_def split: option.splits)
  with es show ?case by simp
qed


text \<open>Appending the log of one task and removing it.\<close>

lemma map_of_filter_key: "map_of (filter (\<lambda>(p, _). p \<noteq> q) xs) k = (if k = q then None else map_of xs k)"
  by (induction xs) auto

lemma task_log_path: "file_name f \<Longrightarrow> task_log (path_join r f) k = path_join r (task_log f k)"
  by (simp add: path_join_file) (simp add: task_log_def)

lemma merge_log_at:
  fixes k :: nat and l :: status_logger
  assumes f: "file_name f"
  defines "l' \<equiv> merge_log (path_join (sl_resultdir l) f) (task_log (path_join (sl_resultdir l) f) k) l"
  shows "text_at l' f = text_at l f @ text_at l (task_log f k)"
    and "file_name g \<Longrightarrow> g \<noteq> f \<Longrightarrow> log_at l' g = (if g = task_log f k then None else log_at l g)"
    and "log_place l' = log_place l" "sl_indent l' = sl_indent l" "sl_dirs l' = sl_dirs l"
proof -
  have ne: "f \<noteq> task_log f k" by (simp add: task_log_def)
  let ?p = "path_join (sl_resultdir l)"
  note path = task_log_path [OF f, of "sl_resultdir l" k]
  have files: "sl_files l' = (case log_at l (task_log f k) of
      None \<Rightarrow> sl_files l
    | Some t \<Rightarrow> filter (\<lambda>(q, _). q \<noteq> ?p (task_log f k)) (alist_put (?p f) (text_at l f @ t) (sl_files l)))"
    unfolding l'_def merge_log_def path log_at_def text_at_def by (simp split: option.splits)
  show "log_place l' = log_place l" "sl_indent l' = sl_indent l" "sl_dirs l' = sl_dirs l"
    by (simp_all add: l'_def merge_log_def log_place_def split: option.splits)
  have r: "sl_resultdir l' = sl_resultdir l" by (simp add: l'_def merge_log_def split: option.splits)
  have at: "log_at l' h = (if log_at l (task_log f k) = None then log_at l h
      else if h = task_log f k then None else if h = f then Some (text_at l f @ text_at l (task_log f k)) else log_at l h)"
    if "file_name h" for h
    using f that path_join_file_eq [OF that f] path_join_file_eq [OF that task_log_file [OF f]]
    unfolding log_at_def [of l' h] r files
    by (cases "log_at l (task_log f k)") (simp_all add: map_of_filter_key log_at_def text_at_def)
  show "text_at l' f = text_at l f @ text_at l (task_log f k)"
    using at [OF f] ne by (simp add: text_at_def [of l' f]) (simp add: text_at_def split: option.splits)
  show "log_at l' g = (if g = task_log f k then None else log_at l g)" if "file_name g" "g \<noteq> f"
    using at [OF that(1)] that by auto
qed

lemma complete_lines_append: "complete_lines s \<Longrightarrow> complete_lines t \<Longrightarrow> complete_lines (s @ t)"
  by (cases t rule: rev_cases) (auto simp: complete_lines_def)

lemma merge_one:
  assumes l0: "log_ready l0" and f: "f = sl_global_filename l0" and at: "tasks_at l0 k i l" and k: "k < i"
  shows "tasks_at l0 (Suc k) i (merge_log (path_join (sl_resultdir l) f) (task_log (path_join (sl_resultdir l) f) k) l)"
proof -
  let ?l' = "merge_log (path_join (sl_resultdir l) f) (task_log (path_join (sl_resultdir l) f) k) l"
  have f_name: "file_name f" using l0 f by (simp add: log_ready_def)
  note merge = merge_log_at [OF f_name, where l = l and k = k]
  let ?t = "text_at l (task_log f k)" and ?n = "nat (sl_indent l0)"
  have t: "complete_lines ?t" "nested (file_lines ?t) ?n = Some ?n" using at k f by (simp_all add: tasks_at_def Let_def)
  obtain ls where old: "complete_lines (text_at l f)" "file_lines (text_at l f) = file_lines (text_at l0 f) @ ls" "nested ls ?n = Some ?n"
    using at f by (auto simp: tasks_at_def Let_def)
  have whole: "complete_lines (text_at ?l' f)" using t(1) old(1) by (simp add: merge(1) complete_lines_append)
  have "file_lines (text_at ?l' f) = file_lines (text_at l0 f) @ ls @ file_lines ?t"
    using file_lines_append [of "text_at l f" ?t] old by (simp add: merge(1) complete_lines_def)
  moreover have "nested (ls @ file_lines ?t) ?n = Some ?n" using old(3) t(2) by (simp add: nested_append)
  ultimately have grown: "\<exists>ls. file_lines (text_at ?l' f) = file_lines (text_at l0 f) @ ls \<and> nested ls ?n = Some ?n" by blast
  have place: "sl_resultdir ?l' = sl_resultdir l" "sl_subdir_filename ?l' = sl_subdir_filename l" "tr_do (sl_tap ?l') = tr_do (sl_tap l)"
    using merge(3) by (simp_all add: log_place_def)
  have others: "log_at ?l' g = log_at l0 g" if "other_log l0 g" for g
  proof -
    have "g \<noteq> task_log f k" using that f by (auto simp: other_log_def)
    then show ?thesis using merge(2) [of g] that at f by (simp add: other_log_def tasks_at_def Let_def)
  qed
  have none: "log_at ?l' g = None"
    if g: "file_name g" "starts_with g (f @ ''.'')" "\<forall>q \<in> {Suc k..<i}. g \<noteq> task_log f q" for g
  proof (cases "g = task_log f k")
    case True
    moreover from this have "g \<noteq> f" by (simp add: task_log_def)
    ultimately show ?thesis using merge(2) [OF g(1)] by simp
  next
    case False
    then have "\<forall>q \<in> {k..<i}. g \<noteq> task_log f q" using g(3) by (metis Suc_leI atLeastLessThan_iff le_neq_implies_less)
    then have "log_at l g = None" using at g f by (simp add: tasks_at_def Let_def)
    moreover have "g \<noteq> f" using g(2) not_own_prefix by blast
    ultimately show ?thesis using merge(2) [OF g(1)] False by simp
  qed
  have logs: "text_at ?l' (task_log f q) = text_at l (task_log f q)" if "q \<in> {Suc k..<i}" for q
  proof -
    have "q \<noteq> k" "task_log f q \<noteq> f" using that by (auto simp: task_log_def)
    then show ?thesis using merge(2) [of "task_log f q"] f_name by (simp add: text_at_def)
  qed
  have kept: "complete_lines (text_at ?l' (task_log f q)) \<and> nested (file_lines (text_at ?l' (task_log f q))) ?n = Some ?n"
    if "q \<in> {Suc k..<i}" for q
    unfolding logs [OF that] using at that f by (auto simp: tasks_at_def Let_def)
  have "sl_resultdir l = sl_resultdir l0 \<and> sl_subdir_filename l = sl_subdir_filename l0 \<and>
      tr_do (sl_tap l) = tr_do (sl_tap l0) \<and> sl_indent l = sl_indent l0 \<and> set (sl_dirs l0) \<subseteq> set (sl_dirs l)"
    using at by (simp add: tasks_at_def Let_def)
  with place merge(4,5) whole grown others none kept show ?thesis
    unfolding tasks_at_def Let_def f [symmetric] by (intro conjI) (simp_all del: task_log_prefix)
qed

lemma merge_all:
  assumes l0: "log_ready l0" and f: "f = sl_global_filename l0" and p: "p = path_join (sl_resultdir l0) f"
  shows "tasks_at l0 k (k + n) (cj_logger j) \<Longrightarrow>
    \<exists>j'. for_each [k..<k + n] (\<lambda>i. modify (\<lambda>j. j\<lparr>cj_logger := merge_log p (task_log p i) (cj_logger j)\<rparr>)) j = (Inr (), j') \<and>
      tasks_at l0 (k + n) (k + n) (cj_logger j')"
proof (induction n arbitrary: k j)
  case 0
  then show ?case by (simp add: ret_def)
next
  case (Suc n)
  let ?j = "j\<lparr>cj_logger := merge_log p (task_log p k) (cj_logger j)\<rparr>"
  have "sl_resultdir (cj_logger j) = sl_resultdir l0" using Suc.prems by (simp add: tasks_at_def Let_def)
  then have "tasks_at l0 (Suc k) (Suc k + n) (cj_logger ?j)"
    using merge_one [OF l0 f Suc.prems] p by simp
  note rest = Suc.IH [OF this]
  have "[k..<k + Suc n] = k # [Suc k..<Suc k + n]" by (subst upt_conv_Cons) simp_all
  with rest show ?case by (simp only: for_each.simps modify_andthen add_Suc_shift)
qed

lemma orderly_parallel [orderly_intro]:
  assumes ms: "list_all (orderly D False) ms"
  shows "orderly D x (job_parallel ms)"
proof (rule orderlyI)
  fix j r j'
  assume ready: "log_ready (cj_logger j)" "has_subdirs D (cj_logger j)" and run: "job_parallel ms j = (r, j')"
  let ?l0 = "cj_logger j"
  let ?f = "sl_global_filename ?l0" and ?p = "path_join (sl_resultdir ?l0) (sl_global_filename ?l0)"
  obtain q j1 where q: "start_tasks ?f 0 ms j = (q, j1)" by (cases "start_tasks ?f 0 ms j")
  from start_tasks_run [OF ready ms refl tasks_at_init [OF ready(1)] q]
  obtain es where es: "q = Inr es" and at: "tasks_at ?l0 0 (0 + length ms) (cj_logger j1)" by auto
  have r1: "sl_resultdir (cj_logger j1) = sl_resultdir ?l0" and d1: "set (sl_dirs ?l0) \<subseteq> set (sl_dirs (cj_logger j1))"
    using at by (simp_all add: tasks_at_def Let_def)
  have w: "dirname ?p \<in> set (sl_dirs (cj_logger j1))" using ready(1) d1 by (auto simp: log_ready_def log_path_def)
  from merge_all [OF ready(1) refl refl at] obtain j2 where
    j2: "for_each [0..<length ms] (\<lambda>i. modify (\<lambda>j. j\<lparr>cj_logger := merge_log ?p (task_log ?p i) (cj_logger j)\<rparr>)) j1 = (Inr (), j2)"
      "tasks_at ?l0 (length ms) (length ms) (cj_logger j2)"
    by auto
  have end_: "cj_logger j' = (cj_logger j2)\<lparr>sl_global_filename := ?f\<rparr>" "r = Inr () \<or> r = Inl JobError"
    using run q es r1 w j2(1)
    by (auto simp: job_parallel_def bnd_run andthen_run set_global_filename_def ret_def throw_def split: if_splits)
  have t: "tasks_at ?l0 (length ms) (length ms) (cj_logger j')" using j2(2) end_(1) by (simp add: tasks_at_rename)
  then have l': "sl_resultdir (cj_logger j') = sl_resultdir ?l0" "sl_subdir_filename (cj_logger j') = sl_subdir_filename ?l0"
      "tr_do (sl_tap (cj_logger j')) = tr_do (sl_tap ?l0)" "sl_indent (cj_logger j') = sl_indent ?l0"
      "set (sl_dirs ?l0) \<subseteq> set (sl_dirs (cj_logger j'))" "complete_lines (text_at (cj_logger j') ?f)"
      "\<exists>ls. file_lines (text_at (cj_logger j') ?f) = file_lines (text_at ?l0 ?f) @ ls \<and>
         nested ls (nat (sl_indent ?l0)) = Some (nat (sl_indent ?l0))"
      "\<forall>g. other_log ?l0 g \<longrightarrow> log_at (cj_logger j') g = log_at ?l0 g"
      "\<forall>g. file_name g \<longrightarrow> starts_with g (?f @ ''.'') \<longrightarrow> log_at (cj_logger j') g = None"
    by (simp_all add: tasks_at_def Let_def)
  moreover have f': "sl_global_filename (cj_logger j') = ?f" by (simp add: end_(1))
  ultimately have "log_ready (cj_logger j')"
    using ready(1) unfolding log_ready_def log_text_at by (auto simp: log_path_def)
  then have "continues ?l0 (cj_logger j')"
    using l' f' by (simp add: continues_def log_text_at log_place_def)
  then show "ended x ?l0 (cj_logger j') r"
    using end_(2) l'(4) by (auto simp: ended_def proper_def exit_status_of_def is_exit_def)
qed

end
