(* ===== verification/Client_Runs.thy ===== *)
theory Client_Runs
  imports Client_Log
begin

text \<open>
  The step engine and a whole run of a client job: the log it leaves, with the parser that reads it, and the
  order in which its steps run.
\<close>

section \<open>The step engine continues the log\<close>

text \<open>What the control file defines and does.\<close>

definition name_space_ok :: "'v name_space \<Rightarrow> bool" where
  "name_space_ok ns \<longleftrightarrow> (\<forall>k \<in> fst ` set ns. named (Some k))"

definition frame_ok :: "'v name_space option \<Rightarrow> bool" where
  "frame_ok f \<longleftrightarrow> (case f of None \<Rightarrow> True | Some ns \<Rightarrow> name_space_ok ns)"

text \<open>The variables of the engine itself, which a control file leaves alone; a group clears \<open>unexpected_reboot\<close>.\<close>

definition leaves_engine :: "('w, 'a, 'r) on_job \<Rightarrow> bool" where
  "leaves_engine m \<longleftrightarrow> (\<forall>j. cj_unexpected_reboot (snd (m j)) \<in> {None, cj_unexpected_reboot j} \<and>
     cj_is_continuation (snd (m j)) = cj_is_continuation j)"

text \<open>
  What this theory supposes of the code of a control file: it is orderly, so whatever it does leaves the log
  nested and at the depth it found. Client\_Code gives the code for which this is proved (\<open>control_env_orderly\<close>).
\<close>

definition orderly_env :: "('w, 'a, 'v) job_env \<Rightarrow> bool" where
  "orderly_env env \<longleftrightarrow> plain_env env \<and> orderly {} True (je_control env) \<and> leaves_engine (je_control env) \<and>
     (\<forall>v args. orderly {} True (je_call env v args)) \<and> (\<forall>w. name_space_ok (je_globals env w)) \<and>
     (\<forall>v ns. je_locals env v = Some ns \<longrightarrow> name_space_ok ns) \<and>
     (\<forall>e w c. je_command env e w = Some c \<longrightarrow> named (Some c))"

lemma orderly_get_steps [orderly_intro]: "orderly D x get_steps"
  unfolding get_steps_def by (intro orderly_intro) (simp_all add: exit_status_of_def is_exit_def)

lemma orderly_set_steps [orderly_intro]: "orderly D x (set_steps ss)"
  unfolding set_steps_def by (intro orderly_modify) simp

lemma orderly_step_tuple [orderly_intro]: "orderly D x (create_step_tuple fn args)"
  unfolding create_step_tuple_def assert_that_def
  by (intro orderly_bnd orderly_gets)
    (auto intro!: orderly_intro simp: proper_def exit_status_of_def is_exit_def split: step_fn.split fn_ref.split)

lemma orderly_next_steps [orderly_intro]:
  "orderly D x (next_step fn args)" "orderly D x (next_step_append fn args)" "orderly D x (next_step_prepend fn args)"
  unfolding next_step_def next_step_append_def next_step_prepend_def
  by (intro orderly_intro; simp)+

lemma orderly_step_failed:
  assumes "plain_env env" "e = TestException ''TEST_NA'' \<Longrightarrow> named (Some fn)" "\<not> is_exit e"
  shows "orderly D x (step_failed env None fn e)"
  using assms unfolding step_failed_def
  by (auto intro!: orderly_intro simp: plain_statuses subdirs_of_def proper_def exit_status_of_def is_exit_def)

lemma step_failed_exit: "is_exit e \<Longrightarrow> step_failed env sd fn e = throw e"
  by (simp add: step_failed_def)

lemma orderly_run_step_fn:
  assumes env: "orderly_env env" and f: "frame_ok f"
  shows "orderly D True (run_step_fn env f fn args)"
proof (cases f)
  case None
  then show ?thesis by (auto intro!: orderly_throw simp: run_step_fn_def proper_def exit_status_of_def is_exit_def)
next
  case (Some frame)
  have plain: "plain_env env" using env by (simp add: orderly_env_def)
  have call: "orderly D True (je_call env v args)" for v
  proof (rule orderly_mono)
    show "orderly {} True (je_call env v args)" using env by (simp add: orderly_env_def del: split_paired_All)
  qed simp_all
  show ?thesis
  proof (cases "map_of frame fn")
    case None
    then have "run_step_fn env f fn args = andthen (step_failed env None fn NameError) (ret None)"
      using Some by (simp add: run_step_fn_def call_in_frame_def try_else_def throw_def)
    moreover have "orderly D True (step_failed env None fn NameError)"
      by (rule orderly_step_failed [OF plain]) (simp_all add: is_exit_def)
    ultimately show ?thesis by (simp add: orderly_andthen)
  next
    case (Some v)
    have "fn \<in> fst ` set frame" using map_of_SomeD [OF Some] by force
    then have "named (Some fn)" using f \<open>f = Some frame\<close> by (auto simp: frame_ok_def name_space_ok_def)
    then have "orderly D True (try_else (je_call env v args)
        (\<lambda>e. andthen (step_failed env None fn e) (ret None)) (\<lambda>v. ret (Some v)))"
      using call by (intro orderly_try [where y = True] orderly_andthen orderly_step_failed plain orderly_ret)
        (simp_all add: step_failed_exit)
    then show ?thesis using Some \<open>f = Some frame\<close> by (simp add: run_step_fn_def call_in_frame_def)
  qed
qed

lemma frame_of_ok: "orderly_env env \<Longrightarrow> frame_ok (frame_of env v)"
  by (cases v) (auto simp: frame_of_def frame_ok_def orderly_env_def split: option.split)

lemma build_frames_ok:
  "orderly_env env \<Longrightarrow> list_all frame_ok fs \<Longrightarrow> fs \<noteq> [] \<Longrightarrow>
   orderly D True (build_frames env fns fs) \<and>
   (\<forall>j gs j'. build_frames env fns fs j = (Inr gs, j') \<longrightarrow> list_all frame_ok gs \<and> gs \<noteq> [])"
proof (induction fns arbitrary: fs)
  case (Cons fn fns)
  have "frame_ok (hd fs)" using Cons.prems by (cases fs) auto
  then have one: "orderly D True (run_step_fn env (hd fs) fn ([], []))" by (rule orderly_run_step_fn [OF Cons.prems(1)])
  have IH: "orderly D True (build_frames env fns (frame_of env v # fs)) \<and>
      (\<forall>j gs j'. build_frames env fns (frame_of env v # fs) j = (Inr gs, j') \<longrightarrow> list_all frame_ok gs \<and> gs \<noteq> [])" for v
    using Cons.prems frame_of_ok by (intro Cons.IH) simp_all
  show ?case using one IH by (auto intro!: orderly_bnd simp: bnd_Inr)
qed simp

lemma pop_frames_mem:
  "pop_frames fn fs a = Inr (f, a') \<Longrightarrow> fs \<noteq> [] \<Longrightarrow> f \<in> set fs"
  "pop_frames fn fs a = Inl e \<Longrightarrow> e = TypeError \<or> e = KeyError"
  by (induction fn fs a rule: pop_frames.induct) (auto split: option.splits if_splits)

lemma create_frame_ok:
  fixes env :: "('w, 'a, 'v) job_env"
  assumes env: "orderly_env env"
  shows "orderly D True (create_frame env anc fn)"
    and "create_frame env anc fn j = (Inr (f, a), j') \<Longrightarrow> frame_ok f"
proof -
  have globals: "list_all frame_ok [Some (je_globals env w)]" for w using env by (simp add: orderly_env_def frame_ok_def)
  note built = build_frames_ok [OF env globals, of _ D anc]
  show "orderly D True (create_frame env anc fn)"
    unfolding create_frame_def
  proof (rule orderly_bnd_at [OF orderly_gets], rule orderly_bnd)
    fix g j j'
    assume "gets (\<lambda>j. je_globals env (cj_world j)) j = (Inr g, j')"
    then show "orderly D True (build_frames env anc [Some g])" using built by auto
    show "orderly D True (lift_sum (pop_frames fn fs (rev anc)))" for fs :: "'v name_space option list"
      by (intro orderly_lift_sum) (auto dest!: pop_frames_mem(2) simp: exit_status_of_def is_exit_def)
  qed
  assume "create_frame env anc fn j = (Inr (f, a), j')"
  then obtain fs where fs: "build_frames env anc [Some (je_globals env (cj_world j))] j = (Inr fs, j')"
      "pop_frames fn fs (rev anc) = Inr (f, a)"
    by (auto simp: create_frame_def exm_Inr)
  then have "list_all frame_ok fs" "fs \<noteq> []" using built by blast+
  then show "frame_ok f" using pop_frames_mem(1) [OF fs(2)] by (auto simp: list_all_iff)
qed

lemma orderly_add_step_init [orderly_intro]: "orderly D x (add_step_init env v fn)"
  unfolding add_step_init_def by (intro orderly_intro) simp_all

lemma orderly_run_step:
  assumes env: "orderly_env env"
  shows "orderly D True (run_step env s ss)"
proof -
  obtain anc fn args where s: "s = (anc, fn, args)" by (cases s) auto
  have "orderly D True (bnd (create_frame env anc fn) (\<lambda>(frame, a).
      andthen (modify (\<lambda>j. j\<lparr>cj_current_step_ancestry := a\<rparr>)) (bnd (run_step_fn env frame fn args) (\<lambda>v. add_step_init env v fn))))"
  proof (rule orderly_bnd_at [OF create_frame_ok(1) [OF env]])
    fix p j j'
    assume "create_frame env anc fn j = (Inr p, j')"
    moreover obtain f a where p: "p = (f, a)" by (cases p)
    ultimately have "frame_ok f" using create_frame_ok(2) [OF env] by blast
    then show "orderly D True (case p of (frame, a) \<Rightarrow>
        andthen (modify (\<lambda>j. j\<lparr>cj_current_step_ancestry := a\<rparr>)) (bnd (run_step_fn env frame fn args) (\<lambda>v. add_step_init env v fn)))"
      unfolding p prod.case by (intro orderly_andthen orderly_modify orderly_bnd orderly_run_step_fn [OF env] orderly_add_step_init) simp_all
  qed
  then show ?thesis unfolding run_step_def s prod.case
    by (intro orderly_andthen orderly_set_steps orderly_modify) simp_all
qed

lemma orderly_run_steps: "orderly_env env \<Longrightarrow> orderly D True (run_steps env n)"
proof (induction n)
  case (Suc n)
  then show ?case unfolding run_steps.simps
    by (intro orderly_bnd orderly_get_steps) (auto intro!: orderly_andthen orderly_run_step split: list.split)
qed simp

lemma orderly_first_step: "orderly D x (first_step env)"
  unfolding first_step_def by (intro orderly_intro)

section \<open>A whole run\<close>

lemma ret_app: "ret x j = (Inr x, j)"
  by (simp add: ret_def)

lemma modify_app: "modify f j = (Inr (), f j)"
  by (simp add: modify_def)

lemma throw_app: "throw e j = (Inl e, j)"
  by (simp add: throw_def)

text \<open>The log as a whole: nested from its first line to the depth the job keeps.\<close>

definition good_log :: "status_logger \<Rightarrow> bool" where
  "good_log l \<longleftrightarrow> log_ready l \<and> nested (file_lines (log_text l)) 0 = Some (nat (sl_indent l))"

lemma good_log_continues: "good_log l \<Longrightarrow> continues l l' \<Longrightarrow> good_log l'"
  by (auto simp: good_log_def continues_def nested_append)

lemma good_log_same: "good_log l \<Longrightarrow> same_log l l' \<Longrightarrow> good_log l'"
  by (simp add: good_log_def same_log_parts)

text \<open>The group the machine went down in lies below the outermost block, and its directory is there.\<close>

definition reboot_ok :: "('w, 'a) client_job \<Rightarrow> bool" where
  "reboot_ok j \<longleftrightarrow> (case cj_unexpected_reboot j of None \<Rightarrow> True
     | Some (sd, tn) \<Rightarrow> 2 \<le> sl_indent (cj_logger j) \<and> named sd \<and> named tn \<and> has_subdirs (subdirs_of sd) (cj_logger j))"

lemma job_record_reboot: "cj_unexpected_reboot (snd (job_record env code sd op msg kvs j)) = cj_unexpected_reboot j"
  by (auto simp: job_record_def bnd_def gets_def lift_sum_def zoom_def split: prod.split sum.split)

lemma record_reboot_run:
  assumes env: "plain_env env" and ready: "log_ready (cj_logger j)" "1 \<le> sl_indent (cj_logger j)" and ok: "reboot_ok j"
    and run: "record_unexpected_reboot env j = (q, j1)"
  shows "continues (cj_logger j) (cj_logger j1) \<and> 1 \<le> sl_indent (cj_logger j1) \<and> (\<forall>e. q = Inl e \<longrightarrow> proper e \<and> \<not> is_exit e)"
proof (cases "cj_unexpected_reboot j")
  case None
  then show ?thesis using run ready by (auto simp: record_unexpected_reboot_def ret_def continues_refl)
next
  case (Some p)
  obtain sd tn where p: "p = (sd, tn)" by (cases p)
  have ok': "2 \<le> sl_indent (cj_logger j)" "named sd" "named tn" "has_subdirs (subdirs_of sd) (cj_logger j)"
    using ok Some p by (simp_all add: reboot_ok_def)
  obtain u j2 where u: "job_record env ''FAIL'' sd tn ''unexpected reboot'' [] j = (u, j2)"
    by (cases "job_record env ''FAIL'' sd tn ''unexpected reboot'' [] j")
  obtain v j3 where v: "job_record env (''END '' @ ''FAIL'') sd tn [] [] j2 = (v, j3)"
    by (cases "job_record env (''END '' @ ''FAIL'') sd tn [] [] j2")
  have fail: "''FAIL'' \<in> set job_statuses" by (simp add: job_statuses_def)
  have eq: "(q, j1) = (case u of Inl e \<Rightarrow> (Inl e, j2) | Inr _ \<Rightarrow> (v, j3))"
  proof -
    have "record_unexpected_reboot env j =
        andthen (job_record env ''FAIL'' sd tn ''unexpected reboot'' []) (job_record env (''END '' @ ''FAIL'') sd tn [] []) j"
      using Some p by (simp add: record_unexpected_reboot_def)
    then show ?thesis using run u v by (auto simp: andthen_def bnd_def split: sum.splits)
  qed
  from job_record_cases [OF env status_codes(1) [OF fail] ok'(2,3) ready(1) ok'(4) _ u]
  consider "u = Inl ValueError" "j2 = j"
    | "u = Inr ()" "continues (cj_logger j) (cj_logger j2)" "sl_indent (cj_logger j2) = sl_indent (cj_logger j)"
    using code_types(1) [OF fail] by (auto simp: next_indent_def)
  then show ?thesis
  proof cases
    case 1
    then show ?thesis using eq ready by (auto simp: continues_refl proper_def exit_status_of_def is_exit_def)
  next
    case 2
    have good: "\<not> bad_name sd" "\<not> bad_name tn"
      using job_record_names [of env "''FAIL''" sd tn "''unexpected reboot''" "[]" j j2] u 2(1) by auto
    have at: "log_ready (cj_logger j2)" "has_subdirs (subdirs_of sd) (cj_logger j2)" "1 \<le> sl_indent (cj_logger j2)"
      using 2 has_subdirs_continues [OF ok'(4)] ok'(1) by (auto simp: continues_def)
    from end_record [OF env fail ok'(2,3) good _ at v]
    show ?thesis using eq 2 ok'(1) continues_trans [OF 2(2)] by (auto simp: proper_def)
  qed
qed

text \<open>The control file itself, executed as a whole.\<close>

lemma control_run:
  assumes env: "orderly_env env" "named (Some control)" and ready: "log_ready (cj_logger j)"
    and run: "catch (je_control env) (step_failed env None control) j = (u, j2)"
  shows "ended True (cj_logger j) (cj_logger j2) u \<and> cj_is_continuation j2 = cj_is_continuation j \<and>
    cj_unexpected_reboot j2 \<in> {None, cj_unexpected_reboot j}"
proof -
  have plain: "plain_env env" and leaves: "leaves_engine (je_control env)" using env(1) by (simp_all add: orderly_env_def)
  have oc: "orderly {} True (catch (je_control env) (step_failed env None control))"
    using env by (intro orderly_catch [where y = True] orderly_step_failed plain) (auto simp: orderly_env_def step_failed_exit)
  have nodirs: "has_subdirs {} l" for l by (simp add: has_subdirs_def)
  have failed: "cj_is_continuation (snd (step_failed env None control e t)) = cj_is_continuation t \<and>
      cj_unexpected_reboot (snd (step_failed env None control e t)) = cj_unexpected_reboot t" for e t
    using job_record_reboot [of env "''TEST_NA''" None "Some control" "je_str env e (cj_world t)" "[]" t]
    by (auto simp: step_failed_def throw_def job_record_def bnd_def gets_def lift_sum_def zoom_def split: prod.split sum.split)
  obtain w t where w: "je_control env j = (w, t)" by (cases "je_control env j")
  then have "cj_is_continuation j2 = cj_is_continuation t" "cj_unexpected_reboot j2 = cj_unexpected_reboot t"
    using run failed by (auto simp: catch_def split: sum.splits) (metis snd_conv)+
  then show ?thesis using orderlyD [OF oc ready nodirs run] leaves w by (metis leaves_engine_def snd_conv)
qed

lemma step_engine_split:
  "step_engine env control n j = (case catch (je_control env) (step_failed env None control) j of
     (Inl e, j2) \<Rightarrow> (Inl e, j2)
   | (Inr _, j2) \<Rightarrow> andthen (if cj_is_continuation j2 then record_unexpected_reboot env else first_step env) (run_steps env n) j2)"
  by (simp add: step_engine_def andthen_def bnd_def gets_def split: prod.split sum.split)

lemma step_engine_run:
  assumes env: "orderly_env env" "named (Some control)"
    and ready: "log_ready (cj_logger j)" "1 \<le> sl_indent (cj_logger j)"
    and cont: "cj_is_continuation j \<Longrightarrow> reboot_ok j"
    and run: "step_engine env control n j = (q, j1)"
  shows "continues (cj_logger j) (cj_logger j1) \<and> 1 \<le> sl_indent (cj_logger j1) \<and> (\<forall>e. q = Inl e \<longrightarrow> proper e)"
proof -
  have plain: "plain_env env" using env(1) by (simp add: orderly_env_def)
  obtain u j2 where u: "catch (je_control env) (step_failed env None control) j = (u, j2)"
    by (cases "catch (je_control env) (step_failed env None control) j")
  have nodirs: "has_subdirs {} l" for l by (simp add: has_subdirs_def)
  from control_run [OF env ready(1) u] have one: "ended True (cj_logger j) (cj_logger j2) u"
    and ct: "cj_is_continuation j2 = cj_is_continuation j" and un: "cj_unexpected_reboot j2 \<in> {None, cj_unexpected_reboot j}" by auto
  have c2: "continues (cj_logger j) (cj_logger j2)" using one by (simp add: ended_def)
  show ?thesis
  proof (cases u)
    case (Inl e)
    then have "q = Inl e" "j1 = j2" using run u by (simp_all add: step_engine_split)
    then show ?thesis using one ready(2) Inl by (auto simp: ended_def split: if_splits)
  next
    case (Inr x)
    then have i2: "sl_indent (cj_logger j2) = sl_indent (cj_logger j)" using one by (simp add: ended_def)
    have at: "log_ready (cj_logger j2)" "1 \<le> sl_indent (cj_logger j2)" using c2 i2 ready(2) by (simp_all add: continues_def)
    let ?m = "if cj_is_continuation j then record_unexpected_reboot env else first_step env"
    obtain v j3 where v: "?m j2 = (v, j3)" by (cases "?m j2")
    have three: "continues (cj_logger j2) (cj_logger j3) \<and> 1 \<le> sl_indent (cj_logger j3) \<and> (\<forall>e. v = Inl e \<longrightarrow> proper e)"
    proof (cases "cj_is_continuation j")
      case True
      have "reboot_ok j2"
        using cont [OF True] un i2 has_subdirs_continues [OF _ c2] by (auto simp: reboot_ok_def split: option.splits)
      then show ?thesis using record_reboot_run [OF plain at] v True by auto
    next
      case False
      then have "first_step env j2 = (v, j3)" using v by simp
      from orderlyD [OF orderly_first_step [where x = False] at(1) nodirs this] show ?thesis using at(2)
        by (auto simp: ended_def split: sum.splits if_splits)
    qed
    have eq: "(q, j1) = (case v of Inl e \<Rightarrow> (Inl e, j3) | Inr _ \<Rightarrow> run_steps env n j3)"
      using run u Inr v ct by (auto simp: step_engine_split andthen_def bnd_def split: sum.splits)
    have c3: "continues (cj_logger j) (cj_logger j3)" using continues_trans [OF c2] three by blast
    then have ready3: "log_ready (cj_logger j3)" by (simp add: continues_def)
    show ?thesis
    proof (cases v)
      case (Inl e)
      then show ?thesis using eq three c3 by auto
    next
      case (Inr y)
      then have "run_steps env n j3 = (q, j1)" using eq by simp
      from orderlyD [OF orderly_run_steps [OF env(1)] ready3 nodirs this]
      show ?thesis using three continues_trans [OF c3] by (auto simp: ended_def split: sum.splits if_splits)
    qed
  qed
qed

text \<open>When no group is open the engine leaves the depth it found, unless the job leaves it.\<close>

lemma step_engine_level:
  assumes env: "orderly_env env" "named (Some control)" and ready: "log_ready (cj_logger j)"
    and cont: "cj_is_continuation j \<Longrightarrow> cj_unexpected_reboot j = None"
    and run: "step_engine env control n j = (q, j1)"
  shows "ended True (cj_logger j) (cj_logger j1) q"
proof -
  obtain u j2 where u: "catch (je_control env) (step_failed env None control) j = (u, j2)"
    by (cases "catch (je_control env) (step_failed env None control) j")
  from control_run [OF env ready u] have one: "ended True (cj_logger j) (cj_logger j2) u"
    and ct: "cj_is_continuation j2 = cj_is_continuation j" and un: "cj_unexpected_reboot j2 \<in> {None, cj_unexpected_reboot j}" by auto
  show ?thesis
  proof (cases u)
    case (Inl e)
    then show ?thesis using run u one by (auto simp: step_engine_split ended_def)
  next
    case (Inr x)
    then have c2: "continues (cj_logger j) (cj_logger j2)" "sl_indent (cj_logger j2) = sl_indent (cj_logger j)"
      using one by (simp_all add: ended_def)
    let ?m = "if cj_is_continuation j2 then ret () else first_step env"
    have "record_unexpected_reboot env j2 = ret () j2" if "cj_is_continuation j2"
      using that ct un cont by (simp add: record_unexpected_reboot_def bnd_def gets_def)
    then have "andthen ?m (run_steps env n) j2 = (q, j1)"
      using run u Inr by (auto simp: step_engine_split andthen_def bnd_def split: if_splits)
    moreover have "orderly {} True (andthen ?m (run_steps env n))"
      by (intro orderly_intro orderly_run_steps orderly_first_step env(1))
    moreover have "log_ready (cj_logger j2)" "has_subdirs {} (cj_logger j2)" using c2(1) by (simp_all add: continues_def has_subdirs_def)
    ultimately have "ended True (cj_logger j2) (cj_logger j1) q" using orderlyD by blast
    with c2 show ?thesis by (auto simp: ended_def intro: continues_trans split: sum.splits)
  qed
qed

lemma end_job_run:
  assumes env: "plain_env env" and code: "st \<in> set job_statuses" and ready: "log_ready (cj_logger j)" "1 \<le> sl_indent (cj_logger j)"
    and run: "end_job env (''END '' @ st) msg s j = (r, j')"
  shows "continues (cj_logger j) (cj_logger j') \<and> (\<forall>c. r = Inr (Ended c) \<longrightarrow> sl_indent (cj_logger j') = 0)"
proof -
  obtain u j1 where u: "job_record env (''END '' @ st) None None msg [] j = (u, j1)"
    by (cases "job_record env (''END '' @ st) None None msg [] j")
  have "has_subdirs (subdirs_of None) (cj_logger j)" by (simp add: has_subdirs_def subdirs_of_def)
  from job_record_cases [OF env status_codes(2) [OF code] named_None named_None ready(1) this ready(2) u]
  consider "u = Inl ValueError" "j1 = j" | "u = Inr ()" "continues (cj_logger j) (cj_logger j1)" by auto
  then show ?thesis
  proof cases
    case 1
    then show ?thesis using run u ready by (auto simp: end_job_def andthen_def bnd_def continues_refl)
  next
    case 2
    then have end_: "end_job env (''END '' @ st) msg s j = andthen (assert_that (sl_indent (cj_logger j1) = 0))
        (andthen remove_state (ret (Ended s))) j1"
      using u by (simp add: end_job_def andthen_run)
    have "if sl_indent (cj_logger j1) = 0 then r = Inr (Ended s) \<and> cj_logger j' = (cj_logger j1)\<lparr>sl_indent := 0\<rparr>
        else r = Inl AssertionError \<and> j' = j1"
    proof (cases "sl_indent (cj_logger j1) = 0")
      case True
      then show ?thesis using run end_ by (auto simp: remove_state_def ret_app)
    next
      case False
      then show ?thesis using run end_ by (auto simp: throw_app)
    qed
    moreover have "same_log (cj_logger j1) ((cj_logger j1)\<lparr>sl_indent := 0\<rparr>)" if "sl_indent (cj_logger j1) = 0"
      using that by (simp add: same_log_def log_place_def)
    ultimately show ?thesis using 2(2) continues_same by (fastforce split: if_splits)
  qed
qed

lemma job_failed_run:
  assumes env: "orderly_env env" and ready: "log_ready (cj_logger j)" "1 \<le> sl_indent (cj_logger j)"
    and run: "job_failed env e j = (r, j')"
  shows "continues (cj_logger j) (cj_logger j') \<and> (\<forall>c. r = Inr (Ended c) \<longrightarrow> sl_indent (cj_logger j') = 0)"
proof -
  have plain: "plain_env env" using env by (simp add: orderly_env_def)
  have abort: "''ABORT'' \<in> set job_statuses" by (simp add: job_statuses_def)
  let ?w = "cj_world j"
  consider "is_exit e" | "\<not> is_exit e" "is_job_error e" | "\<not> is_exit e" "\<not> is_job_error e" by blast
  then show ?thesis
  proof cases
    case 1
    then show ?thesis using run ready by (auto simp: job_failed_def is_exit_def ret_app continues_refl split: if_splits)
  next
    case 3
    then have "end_job env (''END '' @ ''ABORT'') (je_str env e ?w @ newline # je_traceback env e ?w) 1 j = (r, j')"
      using run by (simp add: job_failed_def is_exit_def)
    then show ?thesis by (rule end_job_run [OF plain abort ready])
  next
    case 2
    let ?m = "case je_command env e ?w of None \<Rightarrow> ret ()
      | Some c \<Rightarrow> job_record env ''ABORT'' None (Some c) (je_str env e ?w) []"
    have eq: "job_failed env e j = andthen ?m (end_job env (''END '' @ ''ABORT'') (je_str env e ?w) 1) j"
      using 2 by (simp add: job_failed_def is_exit_def)
    have "orderly {} False ?m"
    proof (rule orderly_option [OF orderly_ret])
      fix c assume "je_command env e ?w = Some c"
      then have "named (Some c)" using env by (simp add: orderly_env_def)
      then show "orderly {} False (job_record env ''ABORT'' None (Some c) (je_str env e ?w) [])"
        by (intro orderly_status plain abort named_None) (simp_all add: subdirs_of_def)
    qed
    moreover obtain u j1 where u: "?m j = (u, j1)" by (cases "?m j")
    ultimately have one: "ended False (cj_logger j) (cj_logger j1) u"
      using orderlyD ready(1) by (fastforce simp: has_subdirs_def)
    show ?thesis
    proof (cases u)
      case (Inl x)
      then show ?thesis using eq run u one by (auto simp: andthen_def bnd_def ended_def)
    next
      case (Inr x)
      then have c: "continues (cj_logger j) (cj_logger j1)" "1 \<le> sl_indent (cj_logger j1)"
        using one ready(2) by (simp_all add: ended_def)
      then have ready1: "log_ready (cj_logger j1)" by (simp add: continues_def)
      have "end_job env (''END '' @ ''ABORT'') (je_str env e ?w) 1 j1 = (r, j')" using eq run u Inr by (simp add: andthen_run)
      from end_job_run [OF plain abort ready1 c(2) this] show ?thesis using continues_trans [OF c(1)] by blast
    qed
  qed
qed

text \<open>From the constructor to the end.\<close>

lemma engine_run:
  assumes env: "orderly_env env" "named (Some control)" and good: "good_log (cj_logger j)" "1 \<le> sl_indent (cj_logger j)"
    and cont: "cj_is_continuation j \<Longrightarrow> reboot_ok j"
    and run: "try_else (step_engine env control n) (job_failed env)
      (\<lambda>finished. if finished then end_job env ''END GOOD'' [] 0 else ret Out_of_turns) j = (r, j')"
  shows "good_log (cj_logger j') \<and> (\<forall>c. r = Inr (Ended c) \<longrightarrow> sl_indent (cj_logger j') = 0)"
proof -
  have ready: "log_ready (cj_logger j)" using good(1) by (simp add: good_log_def)
  obtain q j1 where q: "step_engine env control n j = (q, j1)" by (cases "step_engine env control n j")
  from step_engine_run [OF env ready good(2) cont q]
  have one: "continues (cj_logger j) (cj_logger j1)" "1 \<le> sl_indent (cj_logger j1)" by auto
  then have ready1: "log_ready (cj_logger j1)" by (simp add: continues_def)
  have "continues (cj_logger j1) (cj_logger j') \<and> (\<forall>c. r = Inr (Ended c) \<longrightarrow> sl_indent (cj_logger j') = 0)"
  proof (cases q)
    case (Inl e)
    then have "job_failed env e j1 = (r, j')" using run q by (simp add: try_else_def)
    then show ?thesis by (rule job_failed_run [OF env(1) ready1 one(2)])
  next
    case (Inr fin)
    show ?thesis
    proof (cases fin)
      case True
      then have "end_job env (''END '' @ ''GOOD'') [] 0 j1 = (r, j')" using run q Inr by (simp add: try_else_def)
      then show ?thesis using env(1) by (intro end_job_run ready1 one(2)) (simp_all add: orderly_env_def job_statuses_def)
    next
      case False
      then show ?thesis using run q Inr ready1 by (auto simp: try_else_def ret_app continues_refl)
    qed
  qed
  then show ?thesis using good_log_continues [OF good(1)] continues_trans [OF one(1)] by blast
qed

text \<open>A job can start in a directory for results, and go on from a state file with a nested log.\<close>

definition can_start :: "bool \<Rightarrow> ('w, 'a) client_job \<Rightarrow> bool" where
  "can_start cont j \<longleftrightarrow> (let l = cj_logger j in
     if cont then cj_steps j \<noteq> None \<and> good_log l \<and> 1 \<le> sl_indent l \<and> reboot_ok j \<and>
       sl_global_filename l = ''status'' \<and> sl_subdir_filename l = ''status''
     else sl_resultdir l \<noteq> [] \<and> last (sl_resultdir l) \<noteq> CHR ''/'' \<and> sl_resultdir l \<in> set (sl_dirs l) \<and> \<not> tr_do (sl_tap l))"

text \<open>
  The constructor ends with what \<open>_post_record_init\<close> raises, after an ABORT line; the prepared job is \<open>jp\<close>.
\<close>

lemma raises_cases:
  "raises f j = (Inr (), j) \<and> f (cj_world j) = None \<or> (\<exists>e. raises f j = (Inl e, j) \<and> f (cj_world j) = Some e)"
  by (cases "f (cj_world j)") (simp_all add: raises_def bnd_def gets_def ret_def throw_def)

lemma init_aborts:
  assumes env: "plain_env env" and ready: "log_ready (cj_logger jp)"
    and pre: "pre_record_init cont j = (Inr (), jp)" and post: "post_record_init env cont jp = (Inl e, jq)" "continues (cj_logger jp) (cj_logger jq)"
    and run: "job_init env cont j = (q, j1)"
  shows "(\<exists>e. q = Inl e) \<and> continues (cj_logger jp) (cj_logger j1)"
proof -
  let ?msg = "''client.job.__init__ failed: '' @ je_str env e (cj_world jq)"
  have eq: "job_init env cont j = (if is_exit e then (Inl e, jq)
      else andthen (job_record env ''ABORT'' None None ?msg []) (throw e) jq)"
    using pre post(1) by (simp add: job_init_def andthen_run catch_def throw_def bnd_def gets_def)
  show ?thesis
  proof (cases "is_exit e")
    case True
    then show ?thesis using eq run post(2) by simp
  next
    case False
    obtain v jr where v: "job_record env ''ABORT'' None None ?msg [] jq = (v, jr)" by (cases "job_record env ''ABORT'' None None ?msg [] jq")
    have at: "log_ready (cj_logger jq)" "has_subdirs (subdirs_of None) (cj_logger jq)"
      using post(2) by (simp_all add: continues_def has_subdirs_def subdirs_of_def)
    have "''ABORT'' \<in> set job_statuses" by (simp add: job_statuses_def)
    from job_record_cases [OF env status_codes(1) [OF this] named_None named_None at _ v] code_types(1) [OF this]
    have "continues (cj_logger jq) (cj_logger jr)" using continues_refl [OF at(1)] by auto
    moreover have "j1 = jr" "\<exists>e. q = Inl e" using eq run v False by (auto simp: andthen_def bnd_def throw_def split: sum.splits)
    ultimately show ?thesis using continues_trans [OF post(2)] by simp
  qed
qed

lemma continue_init:
  assumes env: "plain_env env" and start: "can_start True j" and run: "job_init env True j = (q, j1)"
  shows "q = Inr () \<and> same_log (cj_logger j) (cj_logger j1) \<and> cj_unexpected_reboot j1 = cj_unexpected_reboot j \<and>
      cj_steps j1 = cj_steps j \<and> cj_is_continuation j1 \<or>
    (\<exists>e. q = Inl e) \<and> continues (cj_logger j) (cj_logger j1)"
proof -
  let ?jp = "j\<lparr>cj_is_continuation := True, cj_current_step_ancestry := [], cj_next_step_index := 0,
      cj_logger := (cj_logger j)\<lparr>sl_global_filename := ''status'', sl_subdir_filename := ''status'',
          sl_record_hook := True, sl_tap := (sl_tap (cj_logger j))\<lparr>tr_reports := []\<rparr>\<rparr>\<rparr>"
  have pre: "pre_record_init True j = (Inr (), ?jp)"
    using start by (auto simp: can_start_def Let_def pre_record_init_def load_state_def andthen_def bnd_def gets_def modify_def when_do_def ret_def)
  have same: "same_log (cj_logger j) (cj_logger ?jp)"
    using start by (simp add: can_start_def Let_def same_log_def log_place_def)
  have ready: "log_ready (cj_logger j)" using start by (simp add: can_start_def Let_def good_log_def)
  then have readyp: "log_ready (cj_logger ?jp)" using same_log_parts same by blast
  have post: "post_record_init env True ?jp = (case je_setup env (cj_world j) of Some e \<Rightarrow> (Inl e, ?jp) | None \<Rightarrow>
      (case je_run_start env (cj_world j) of Some e \<Rightarrow> (Inl e, ?jp) | None \<Rightarrow> (Inr (), ?jp)))"
    by (simp add: post_record_init_def raises_def andthen_def bnd_def gets_def when_do_def ret_def throw_def split: option.split)
  show ?thesis
  proof (cases "\<exists>e. post_record_init env True ?jp = (Inl e, ?jp)")
    case True
    then obtain e where "post_record_init env True ?jp = (Inl e, ?jp)" by blast
    from init_aborts [OF env readyp pre this continues_refl [OF readyp] run]
    show ?thesis using continues_trans [OF continues_same [OF continues_refl [OF ready] same]] by blast
  next
    case False
    then have "post_record_init env True ?jp = (Inr (), ?jp)" unfolding post by (auto split: option.splits)
    then have "q = Inr ()" "j1 = ?jp" using run pre by (simp_all add: job_init_def andthen_run catch_def)
    then show ?thesis using same by simp
  qed
qed

lemma fresh_init:
  assumes env: "plain_env env" and start: "can_start False j" "cj_steps j = None" "sl_indent (cj_logger j) = 0"
    and run: "job_init env False j = (q, j1)"
  shows "good_log (cj_logger j1) \<and> (q = Inr () \<longrightarrow> sl_indent (cj_logger j1) = 1 \<and> \<not> cj_is_continuation j1)"
proof -
  let ?r = "sl_resultdir (cj_logger j)"
  let ?l = "(cj_logger j)\<lparr>sl_files := filter (\<lambda>(p, _). \<not> in_dir ?r p) (sl_files (cj_logger j)),
      sl_dirs := filter (\<lambda>p. \<not> in_dir ?r p \<and> p \<noteq> ?r) (sl_dirs (cj_logger j)) @ [?r],
      sl_global_filename := ''status'', sl_subdir_filename := ''status'', sl_record_hook := True,
      sl_tap := (sl_tap (cj_logger j))\<lparr>tr_reports := []\<rparr>\<rparr>"
  let ?j = "j\<lparr>cj_logger := ?l, cj_is_continuation := False, cj_current_step_ancestry := [], cj_next_step_index := 0, cj_steps := Some []\<rparr>"
  have dir: "?r \<noteq> []" "last ?r \<noteq> CHR ''/''" "?r \<in> set (sl_dirs (cj_logger j))" "\<not> tr_do (sl_tap (cj_logger j))"
    using start(1) by (simp_all add: can_start_def Let_def)
  have pre: "pre_record_init False j = (Inr (), ?j)"
    using dir(3) start(2) by (simp add: pre_record_init_def cleanup_results_dir_def load_state_def andthen_def bnd_def
        gets_def modify_def when_do_def ret_def)
  have status: "file_name ''status''" by (simp add: file_name_def)
  have gone: "log_at ?l g = None" if "file_name g" for g
  proof -
    have "in_dir ?r (path_join ?r g)" by (simp add: in_dir_def path_join_file [OF that])
    moreover have "map_of (filter (\<lambda>(p, _). \<not> in_dir ?r p) xs) p = None" if "in_dir ?r p" for xs :: "(string \<times> string) list" and p
      using that by (induction xs) auto
    ultimately show ?thesis by (simp add: log_at_def)
  qed
  have "log_text ?l = []" using gone [OF status] by (simp add: log_text_at text_at_def)
  moreover have "dirname (log_path ?l) \<in> set (sl_dirs ?l)" using dirname_in_dir [OF dir(1,2) status] by (simp add: log_path_def)
  ultimately have "good_log ?l" using gone dir(4) start(3) status
    by (simp add: good_log_def log_ready_def complete_lines_def)
  then have good: "log_ready (cj_logger ?j)" "has_subdirs (subdirs_of None) (cj_logger ?j)" "good_log ?l"
    by (simp_all add: good_log_def has_subdirs_def subdirs_of_def)
  have code: "is_status_code ''START''" by (simp add: is_status_code_def)
  obtain v js where v: "job_record env ''START'' None None [] [] ?j = (v, js)" by (cases "job_record env ''START'' None None [] [] ?j")
  have vok: "v = Inr ()" by (rule job_record_ok [OF code _ _ _ _ good(1,2) v]) (simp_all add: bad_name_def)
  from job_record_cases [OF env code named_None named_None good(1,2) _ v]
  obtain l' where l': "js = ?j\<lparr>cj_logger := l'\<rparr>" "continues ?l l'" "sl_indent l' = 1"
    using vok start(3) by (auto simp: next_indent_def code_types)
  have post: "post_record_init env False ?j = (case je_setup env (cj_world j) of Some e \<Rightarrow> (Inl e, ?j) | None \<Rightarrow>
      (case je_run_start env (cj_world j) of Some e \<Rightarrow> (Inl e, js) | None \<Rightarrow> (Inr (), js)))"
    using v vok l'(1)
    by (simp add: post_record_init_def raises_def andthen_def bnd_def gets_def when_do_def ret_def throw_def split: option.split)
  show ?thesis
  proof (cases "fst (post_record_init env False ?j)")
    case (Inl e)
    then have "\<exists>jq. post_record_init env False ?j = (Inl e, jq) \<and> continues ?l (cj_logger jq)"
      unfolding post using l' continues_refl [OF good(1)] by (auto split: option.splits)
    then obtain jq where "post_record_init env False ?j = (Inl e, jq)" "continues (cj_logger ?j) (cj_logger jq)" by auto
    from init_aborts [OF env good(1) pre this run] show ?thesis using good_log_continues [OF good(3)] by auto
  next
    case (Inr u)
    then have "post_record_init env False ?j = (Inr (), js)" unfolding post by (auto split: option.splits)
    then have "q = Inr ()" "j1 = js" using run pre by (simp_all add: job_init_def andthen_run catch_def)
    then show ?thesis using l' good_log_continues [OF good(3)] by simp
  qed
qed

text \<open>A run is the constructor and the engine, whose job is ready unless the constructor failed.\<close>

abbreviation engine_and_end :: "('w, 'a, 'v) job_env \<Rightarrow> string \<Rightarrow> nat \<Rightarrow> ('w, 'a, job_end) on_job" where
  "engine_and_end env control n \<equiv> try_else (step_engine env control n) (job_failed env)
     (\<lambda>finished. if finished then end_job env ''END GOOD'' [] 0 else ret Out_of_turns)"

lemma runjob_cases:
  assumes env: "plain_env env" "je_has_control env" and start: "can_start cont j"
    and run: "runjob env control cont n j = (r, j')"
  obtains (failed) "r = Inr Paused \<or> r = Inr Left" "good_log (cj_logger j')"
    | (engine) j1 where "engine_and_end env control n j1 = (r, j')" "good_log (cj_logger j1)"
        "if cont then cj_is_continuation j1 \<and> cj_unexpected_reboot j1 = cj_unexpected_reboot j \<and> cj_steps j1 = cj_steps j \<and>
           same_log (cj_logger j) (cj_logger j1) \<and> reboot_ok j1
         else \<not> cj_is_continuation j1 \<and> sl_indent (cj_logger j1) = 1"
proof -
  let ?j = "if cont then j else snd (remove_state j)"
  have "cont \<Longrightarrow> cj_steps j \<noteq> None" using start by (simp add: can_start_def Let_def)
  then have eq: "runjob env control cont n j = try_else (job_init env cont) (\<lambda>e. ret (if e = JobContinue then Paused else Left))
      (\<lambda>_. engine_and_end env control n) ?j"
    using env(2) by (cases cont) (auto simp: runjob_def remove_state_def modify_app)
  obtain q j1 where q: "job_init env cont ?j = (q, j1)" by (cases "job_init env cont ?j")
  have made: "good_log (cj_logger j1) \<and> (q = Inr () \<longrightarrow> (if cont then cj_is_continuation j1 \<and>
        cj_unexpected_reboot j1 = cj_unexpected_reboot j \<and> cj_steps j1 = cj_steps j \<and> same_log (cj_logger j) (cj_logger j1) \<and> reboot_ok j1
      else \<not> cj_is_continuation j1 \<and> sl_indent (cj_logger j1) = 1))"
  proof (cases cont)
    case True
    have good: "good_log (cj_logger j)" "reboot_ok j" using start True by (simp_all add: can_start_def Let_def)
    from continue_init [of env j q j1] env(1) start q True
    consider "q = Inr ()" "same_log (cj_logger j) (cj_logger j1)" "cj_unexpected_reboot j1 = cj_unexpected_reboot j"
        "cj_steps j1 = cj_steps j" "cj_is_continuation j1"
      | e where "q = Inl e" "continues (cj_logger j) (cj_logger j1)" by auto
    then show ?thesis
    proof cases
      case 1
      then have "reboot_ok j1" using good(2)
        by (auto simp: reboot_ok_def same_log_def log_place_def has_subdirs_def subdir_log_def split: option.splits)
      then show ?thesis using 1 True good_log_same [OF good(1)] by simp
    next
      case 2
      then show ?thesis using good_log_continues [OF good(1)] by simp
    qed
  next
    case False
    have "can_start False ?j" using start False by (simp add: can_start_def Let_def remove_state_def modify_def)
    moreover have "cj_steps ?j = None" "sl_indent (cj_logger ?j) = 0" using False by (simp_all add: remove_state_def modify_def)
    ultimately show ?thesis using fresh_init [of env ?j q j1] env(1) q False by simp
  qed
  show ?thesis
  proof (cases q)
    case (Inl e)
    then have "r = Inr Paused \<or> r = Inr Left" "j' = j1" using eq run q by (auto simp: try_else_def ret_app split: if_splits)
    then show ?thesis using failed made by simp
  next
    case (Inr u)
    then have "engine_and_end env control n j1 = (r, j')" using eq run q by (simp add: try_else_def)
    then show ?thesis using engine made Inr by simp
  qed
qed

lemma run_log:
  assumes env: "orderly_env env" "named (Some control)" "je_has_control env" and start: "can_start cont j"
    and run: "runjob env control cont n j = (r, j')"
  shows "good_log (cj_logger j') \<and> (\<forall>c. r = Inr (Ended c) \<longrightarrow> sl_indent (cj_logger j') = 0)"
proof -
  have plain: "plain_env env" using env(1) by (simp add: orderly_env_def)
  show ?thesis
  proof (cases rule: runjob_cases [OF plain env(3) start run, case_names failed engine])
    case (engine j1)
    moreover have "1 \<le> sl_indent (cj_logger j1)"
      using engine(3) start same_log_parts(5) by (fastforce simp: can_start_def Let_def split: if_splits)
    moreover have "cj_is_continuation j1 \<Longrightarrow> reboot_ok j1" using engine(3) by (simp split: if_splits)
    ultimately show ?thesis using engine_run [OF env(1,2)] by blast
  qed auto
qed

section \<open>A sample job\<close>

text \<open>A control file with a single step that does nothing.\<close>

definition sample_base :: "(unit, unit, nat) job_env" where
  "sample_base = \<lparr>je_localtime = (\<lambda>_. ''now''), je_now = (\<lambda>_. 5), je_str = (\<lambda>_ _. ''failed''), je_traceback = (\<lambda>_ _. ''trace''),
     je_command = (\<lambda>_ _. None), je_disk_warning = (\<lambda>_ _. None), je_makedirs = (\<lambda>p _. Some [p]), je_has_control = True,
     je_control = ret (), je_globals = (\<lambda>_. [(''step_init'', 0)]), je_call = (\<lambda>_ _. ret 1), je_locals = (\<lambda>_. None),
     je_fn_ref = (\<lambda>_. Function ''step_init''), je_setup = (\<lambda>_. None), je_run_start = (\<lambda>_. None)\<rparr>"

definition sample_client_job :: "(unit, unit) client_job" where
  "sample_client_job = \<lparr>cj_logger = \<lparr>sl_resultdir = ''/r'', sl_global_filename = ''status'', sl_subdir_filename = ''status'',
       sl_indent = 0, sl_record_hook = False, sl_hooked = [], sl_files = [], sl_dirs = [''/r''],
       sl_tap = \<lparr>tr_do = False, tr_resultdir = ''/r'', tr_reports = []\<rparr>\<rparr>,
     cj_unexpected_reboot = None, cj_persistent_options = [], cj_steps = None, cj_is_continuation = False,
     cj_current_step_ancestry = [], cj_next_step_index = 0, cj_max_disk_usage_rate = 0, cj_world = ()\<rparr>"

lemma sample_plain: "plain_env sample_base"
proof -
  have "\<not> list_ex bad_char ''now''" "clean_message ''failed''" by code_simp+
  then show ?thesis by (simp add: plain_env_def sample_base_def)
qed

section \<open>A second continuation after a crash\<close>

lemma job_record_indent:
  assumes "is_status_code code" "named sd" "named op" "\<not> bad_name sd" "\<not> bad_name op" "clean_message msg"
    and ready: "log_ready (cj_logger j)" "has_subdirs (subdirs_of sd) (cj_logger j)"
  shows "\<exists>l'. job_record env code sd op msg [] j = (Inr (), j\<lparr>cj_logger := l'\<rparr>) \<and>
    sl_indent l' = next_indent code (sl_indent (cj_logger j))"
proof -
  obtain e where e: "new_log_entry (je_localtime env) (je_now env (cj_world j)) code sd op msg [] None = Inr e"
    using new_log_entry_ok [OF assms(1,4-6), of "[]" "je_localtime env" "je_now env (cj_world j)" None] by auto
  then have "le_subdir e = sd" "le_status_code e = code" by (rule new_log_entry_cases, simp)+
  moreover from this obtain l' where "logger_record_entry e True (cj_logger j) = (Inr (), l')"
      "sl_indent l' = adjust_indent e (sl_indent (cj_logger j))"
    using record_entry_run [OF ready(1), of e] ready(2) by auto
  ultimately show ?thesis
    using e by (intro exI [of _ l']) (simp add: job_record_def lift_sum_def bnd_def gets_def zoom_def adjust_next)
qed

text \<open>The record of the reboot, which stays in the state file.\<close>

lemma record_reboot_twice:
  assumes env: "plain_env env" and at: "log_ready (cj_logger j)" "1 \<le> sl_indent (cj_logger j)"
    and group_: "cj_unexpected_reboot j = Some (sd, tn)" "named sd" "named tn" "\<not> bad_name sd" "\<not> bad_name tn"
      "has_subdirs (subdirs_of sd) (cj_logger j)"
  shows "\<exists>l'. record_unexpected_reboot env j = (Inr (), j\<lparr>cj_logger := l'\<rparr>) \<and> continues (cj_logger j) l' \<and>
    sl_indent l' = sl_indent (cj_logger j) - 1"
proof -
  have fail: "''FAIL'' \<in> set job_statuses" by (simp add: job_statuses_def)
  have clean: "clean_message ''unexpected reboot''" by code_simp
  obtain u j2 where u: "job_record env ''FAIL'' sd tn ''unexpected reboot'' [] j = (u, j2)"
    by (cases "job_record env ''FAIL'' sd tn ''unexpected reboot'' [] j")
  have u': "u = Inr ()" using job_record_ok [OF status_codes(1) [OF fail] group_(4,5) clean _ at(1) group_(6) u] by simp
  from job_record_cases [OF env status_codes(1) [OF fail] group_(2,3) at(1) group_(6) _ u]
  obtain l2 where l2: "j2 = j\<lparr>cj_logger := l2\<rparr>" "continues (cj_logger j) l2" "sl_indent l2 = sl_indent (cj_logger j)"
    using code_types(1) [OF fail] u' by (auto simp: next_indent_def)
  have at2: "log_ready (cj_logger j2)" "has_subdirs (subdirs_of sd) (cj_logger j2)" "1 \<le> sl_indent (cj_logger j2)"
    using l2 has_subdirs_continues [OF group_(6)] at(2) by (simp_all add: continues_def)
  obtain v j3 where v: "job_record env (''END '' @ ''FAIL'') sd tn [] [] j2 = (v, j3)"
    by (cases "job_record env (''END '' @ ''FAIL'') sd tn [] [] j2")
  from end_record [OF env fail group_(2-5) _ at2 v]
  have v': "v = Inr ()" "continues (cj_logger j2) (cj_logger j3)" "sl_indent (cj_logger j3) = sl_indent (cj_logger j2) - 1" by auto
  moreover have "\<exists>l'. j3 = j2\<lparr>cj_logger := l'\<rparr>"
    using job_record_cases [OF env status_codes(2) [OF fail] group_(2,3) at2(1,2) at2(3) v] v'(1) by blast
  moreover have "record_unexpected_reboot env j =
      andthen (job_record env ''FAIL'' sd tn ''unexpected reboot'' []) (job_record env (''END '' @ ''FAIL'') sd tn [] []) j"
    using group_(1) by (simp add: record_unexpected_reboot_def)
  ultimately show ?thesis using u u' v l2 continues_trans [OF l2(2)] by (auto simp: andthen_run)
qed

lemma get_steps_run: "cj_steps j = Some ss \<Longrightarrow> get_steps j = (Inr ss, j)"
  by (simp add: get_steps_def bnd_def gets_def ret_def)

text \<open>
  The bound on the turns of the engine: a larger one changes nothing once the engine has ended, and when the
  steps add none, one turn more than there are steps is enough.
\<close>

lemma run_steps_more: "run_steps env n j = (r, j') \<Longrightarrow> r \<noteq> Inr False \<Longrightarrow> run_steps env (n + k) j = (r, j')"
proof (induction n arbitrary: j)
  case (Suc n)
  show ?case
  proof (cases "cj_steps j")
    case None
    then show ?thesis using Suc.prems(1) by (simp add: get_steps_def bnd_def gets_def throw_def)
  next
    case (Some ss)
    note steps = get_steps_run [OF Some]
    show ?thesis
    proof (cases ss)
      case Nil
      then show ?thesis using Suc.prems(1) steps by (simp add: bnd_run)
    next
      case (Cons x xs)
      obtain q j1 where q: "run_step env x xs j = (q, j1)" by (cases "run_step env x xs j")
      show ?thesis using Suc steps Cons q by (cases q) (simp_all add: bnd_run andthen_run andthen_run_err)
    qed
  qed
qed (simp add: ret_app)

lemma run_steps_end:
  assumes one: "\<And>x xs j. \<exists>j'. run_step env x xs j = (Inr (), j') \<and> cj_steps j' = Some xs"
  shows "cj_steps j = Some ss \<Longrightarrow> length ss < n \<Longrightarrow> \<exists>j'. run_steps env n j = (Inr True, j')"
proof (induction n arbitrary: j ss)
  case (Suc n)
  note steps = get_steps_run [OF Suc.prems(1)]
  show ?case
  proof (cases ss)
    case Nil
    then show ?thesis using steps by (simp add: bnd_run ret_app)
  next
    case (Cons x xs)
    obtain j1 where "run_step env x xs j = (Inr (), j1)" "cj_steps j1 = Some xs" using one by blast
    moreover from this obtain j2 where "run_steps env n j1 = (Inr True, j2)" using Suc.IH [of j1 xs] Suc.prems(2) Cons by auto
    ultimately show ?thesis using steps Cons by (simp add: bnd_run andthen_run)
  qed
qed simp

lemma continued_engine:
  assumes env: "plain_env env" "je_control env = ret ()" and cont: "cj_is_continuation j"
    and at: "log_ready (cj_logger j)" "1 \<le> sl_indent (cj_logger j)"
    and group_: "cj_unexpected_reboot j = Some (sd, tn)" "named sd" "named tn" "\<not> bad_name sd" "\<not> bad_name tn"
      "has_subdirs (subdirs_of sd) (cj_logger j)"
  shows "\<exists>l'. step_engine env control n j = run_steps env n (j\<lparr>cj_logger := l'\<rparr>) \<and> continues (cj_logger j) l' \<and>
    sl_indent l' = sl_indent (cj_logger j) - 1"
proof -
  from record_reboot_twice [OF env(1) at group_] obtain l' where
    rec: "record_unexpected_reboot env j = (Inr (), j\<lparr>cj_logger := l'\<rparr>)" "continues (cj_logger j) l'"
      "sl_indent l' = sl_indent (cj_logger j) - 1" by blast
  have "catch (je_control env) h j = (Inr (), j)" for h by (simp add: env(2) catch_def ret_def)
  then have "step_engine env control n j = run_steps env n (j\<lparr>cj_logger := l'\<rparr>)"
    using rec(1) cont by (simp add: step_engine_def andthen_run)
  with rec(2,3) show ?thesis by blast
qed

lemma continued_run:
  assumes env: "plain_env env" "je_has_control env" "je_control env = ret ()" and start: "cj_steps j = Some ss"
    and prepared: "je_setup env (cj_world j) = None" "je_run_start env (cj_world j) = None"
    and at: "log_ready (cj_logger j)" "1 \<le> sl_indent (cj_logger j)"
      "sl_global_filename (cj_logger j) = ''status''" "sl_subdir_filename (cj_logger j) = ''status''"
    and group_: "cj_unexpected_reboot j = Some (sd, tn)" "named sd" "named tn" "\<not> bad_name sd" "\<not> bad_name tn"
      "has_subdirs (subdirs_of sd) (cj_logger j)"
  shows "\<exists>j1. cj_steps j1 = Some ss \<and> cj_unexpected_reboot j1 = Some (sd, tn) \<and> continues (cj_logger j) (cj_logger j1) \<and>
    sl_indent (cj_logger j1) = sl_indent (cj_logger j) - 1 \<and> cj_world j1 = cj_world j \<and>
    runjob env control True n j = try_else (run_steps env n) (job_failed env)
      (\<lambda>finished. if finished then end_job env ''END GOOD'' [] 0 else ret Out_of_turns) j1"
proof -
  let ?i = "j\<lparr>cj_is_continuation := True, cj_current_step_ancestry := [], cj_next_step_index := 0,
      cj_logger := (cj_logger j)\<lparr>sl_global_filename := ''status'', sl_subdir_filename := ''status'',
          sl_record_hook := True, sl_tap := (sl_tap (cj_logger j))\<lparr>tr_reports := []\<rparr>\<rparr>\<rparr>"
  have init: "job_init env True j = (Inr (), ?i)"
    using start prepared by (simp add: job_init_def pre_record_init_def load_state_def post_record_init_def raises_def
        catch_def andthen_def bnd_def gets_def modify_def when_do_def ret_def)
  have same: "same_log (cj_logger j) (cj_logger ?i)" using at(3,4) by (simp add: same_log_def log_place_def)
  then have i: "log_ready (cj_logger ?i)" "1 \<le> sl_indent (cj_logger ?i)" "has_subdirs (subdirs_of sd) (cj_logger ?i)"
    using at group_(6) by (simp_all add: same_log_parts) (simp add: has_subdirs_def subdir_log_def)
  have unexpected: "cj_unexpected_reboot ?i = Some (sd, tn)" and cont: "cj_is_continuation ?i" using group_(1) by simp_all
  from continued_engine [OF env(1,3) cont i(1,2) unexpected group_(2-5) i(3)] obtain l' where
    rec: "step_engine env control n ?i = run_steps env n (?i\<lparr>cj_logger := l'\<rparr>)" "continues (cj_logger ?i) l'"
      "sl_indent l' = sl_indent (cj_logger ?i) - 1" by blast
  then have "runjob env control True n j = try_else (run_steps env n) (job_failed env)
      (\<lambda>finished. if finished then end_job env ''END GOOD'' [] 0 else ret Out_of_turns) (?i\<lparr>cj_logger := l'\<rparr>)"
    using start env(2) init by (simp add: runjob_def try_else_def)
  moreover have "continues (cj_logger j) l'"
    using continues_trans [OF continues_same [OF continues_refl [OF at(1)] same] rec(2)] .
  ultimately show ?thesis using rec(3) start group_(1) by (intro exI [of _ "?i\<lparr>cj_logger := l'\<rparr>"]) simp
qed

section \<open>Properties\<close>

text \<open>
  C2 (client/job.py, \<open>runjob\<close>; tko/parsers/version_1.py, \<open>state_iterator\<close>). The client and the result parser
  agree: a parser that stands outside every block and reads the log of a completed job stands outside every
  block again. The control file is orderly (\<open>orderly_env\<close>): what it executes leaves the log nested and at the
  depth it found, as everything built from groups, tests, tasks and reboots does.
\<close>

theorem completed_log_leaves_no_block:
  assumes "orderly_env env" "named (Some control)" "je_has_control env" "can_start cont j"
    and "runjob env control cont n j = (Inr (Ended c), j')"
    and "parser_reachable penv s" "ps_phase s = Waiting" "stack_size (ps_stack s) = 0"
    and "process_lines penv (file_lines (log_text (cj_logger j'))) s = (Inr is, s')"
  shows "stack_size (ps_stack s') = 0"
proof -
  have "nested (file_lines (log_text (cj_logger j'))) 0 = Some 0"
    using run_log [OF assms(1-5)] by (simp add: good_log_def)
  moreover obtain m where at: "parser_at False [] m s" using parser_reachable_ready [OF assms(6)] assms(7) by (auto simp: ready_def)
  moreover from at have "m = 0" using assms(8) by (auto simp: shaped_defs stack_size_def)
  ultimately show ?thesis using parser_depth_waiting [OF _ assms(7) _ assms(9)] by simp
qed

abbreviation sample_empty_env :: "(unit, unit, nat) job_env" where
  "sample_empty_env \<equiv> sample_base\<lparr>je_globals := (\<lambda>_. [])\<rparr>"

lemma sample_empty_orderly: "orderly_env sample_empty_env"
proof -
  have "plain_env sample_empty_env" using sample_plain by (simp add: plain_env_def)
  then show ?thesis
    by (simp add: orderly_env_def sample_base_def leaves_engine_def ret_def name_space_ok_def) (simp add: ret_def [symmetric])
qed

abbreviation sample_run :: "(unit, unit) client_job" where
  "sample_run \<equiv> snd (runjob sample_empty_env ''/control'' False 1 sample_client_job)"

lemma completed_log_leaves_no_block_witness:
  "stack_size (ps_stack (snd (process_lines sample_env (file_lines (log_text (cj_logger sample_run))) sample_waiting))) = 0"
proof (rule completed_log_leaves_no_block [OF sample_empty_orderly])
  show "named (Some ''/control'')" "je_has_control sample_empty_env" "can_start False sample_client_job"
    by (simp_all add: named_def rendered_name_def sample_base_def can_start_def sample_client_job_def)
  show "runjob sample_empty_env ''/control'' False 1 sample_client_job = (Inr (Ended 0), sample_run)"
    by (rule Inr_pair) code_simp
  show "parser_reachable sample_env sample_waiting" by (rule sample_waiting_reachable)
  show "ps_phase sample_waiting = Waiting" "stack_size (ps_stack sample_waiting) = 0" by code_simp+
  show "process_lines sample_env (file_lines (log_text (cj_logger sample_run))) sample_waiting =
      (Inr [1, 1], snd (process_lines sample_env (file_lines (log_text (cj_logger sample_run))) sample_waiting))"
    by (rule Inr_pair) code_simp
qed


text \<open>A machine that crashed in the test \<open>a\<close>, with a next step that reboots.\<close>

definition sample_crashed :: "(unit, unit) client_job" where
  "sample_crashed = sample_client_job\<lparr>cj_logger := (cj_logger sample_client_job)\<lparr>sl_indent := 2,
       sl_files := [(''/r/status'', line (''START'' @ [tab] @ ''----'' @ [tab] @ ''----'' @ [tab]) @
         line ([tab] @ ''START'' @ [tab] @ ''a'' @ [tab] @ ''a'' @ [tab]))], sl_dirs := [''/r'', ''/r/a'']\<rparr>,
     cj_unexpected_reboot := Some (Some ''a'', Some ''a''), cj_steps := Some [([], ''step_init'', [], [])]\<rparr>"

lemma sample_crashed_can_start: "can_start True sample_crashed"
proof -
  let ?l = "cj_logger sample_crashed"
  have whole: "nested (file_lines (log_text ?l)) 0 = Some (nat (sl_indent ?l))" by code_simp
  have shape: "dirname (log_path ?l) \<in> set (sl_dirs ?l)" "complete_lines (log_text ?l)"
      "dirname (subdir_log ?l ''a'') \<in> set (sl_dirs ?l)" by code_simp+
  have status: "file_name ''status''" by (simp add: file_name_def)
  have "log_at ?l g = None" if "file_name g" "starts_with g ''status.''" for g
  proof -
    have "g \<noteq> ''status''" using that(2) by auto
    then have "path_join ''/r'' g \<noteq> path_join ''/r'' ''status''" using path_join_file_eq [OF that(1) status] by simp
    then have "path_join ''/r'' g \<noteq> ''/r/status''" by (simp add: path_join_def)
    then show ?thesis by (simp add: log_at_def sample_crashed_def sample_client_job_def)
  qed
  then have "log_ready ?l" using shape status by (simp add: log_ready_def) (simp add: sample_crashed_def sample_client_job_def)
  moreover have "reboot_ok sample_crashed"
  proof -
    have "has_subdirs (subdirs_of (Some ''a'')) ?l" using shape(3) by (simp add: has_subdirs_def subdirs_of_def plain_subdir_def)
    moreover have "cj_unexpected_reboot sample_crashed = Some (Some ''a'', Some ''a'')" "sl_indent ?l = 2"
      by (simp_all add: sample_crashed_def)
    ultimately show ?thesis by (simp add: reboot_ok_def named_def rendered_name_def)
  qed
  ultimately show ?thesis using whole
    by (simp add: can_start_def good_log_def) (simp add: sample_crashed_def sample_client_job_def)
qed


text \<open>
  The steps a step adds, in any order of the three calls, against the lists in front of and behind the steps
  that were there.
\<close>

datatype 'a step_call = Call_next string "'a call_args" | Call_append string "'a call_args" | Call_prepend string "'a call_args"

definition make_call :: "'a step_call \<Rightarrow> ('w, 'a, unit) on_job" where
  "make_call c = (case c of
       Call_next fn args \<Rightarrow> next_step (Plain (Named fn)) args
     | Call_append fn args \<Rightarrow> next_step_append (Plain (Named fn)) args
     | Call_prepend fn args \<Rightarrow> next_step_prepend (Plain (Named fn)) args)"

fun placed :: "string list \<Rightarrow> 'a step_call list \<Rightarrow> 'a step list \<times> 'a step list \<Rightarrow> 'a step list \<times> 'a step list" where
  "placed anc [] fb = fb"
| "placed anc (Call_next fn args # cs) (f, b) = placed anc cs (f @ [(anc, fn, args)], b)"
| "placed anc (Call_append fn args # cs) (f, b) = placed anc cs (f, b @ [(anc, fn, args)])"
| "placed anc (Call_prepend fn args # cs) (f, b) = placed anc cs ((anc, fn, args) # f, b)"

lemma make_call_run:
  assumes "cj_steps j = Some (f @ old @ b)" "cj_next_step_index j = length f" "cj_current_step_ancestry j = anc"
  shows "\<exists>j'. make_call c j = (Inr (), j') \<and> cj_current_step_ancestry j' = anc \<and>
    (case placed anc [c] (f, b) of (f', b') \<Rightarrow> cj_steps j' = Some (f' @ old @ b') \<and> cj_next_step_index j' = length f')"
proof -
  have tuple: "create_step_tuple (Plain (Named fn)) args t = (Inr (anc, fn, args), t)"
    if "cj_current_step_ancestry t = anc" for fn args and t :: "('b, 'a) client_job"
    using that by (cases args) (simp add: create_step_tuple_def bnd_def gets_def ret_def)
  show ?thesis
    using assms by (cases c)
      (simp_all add: make_call_def next_step_def next_step_append_def next_step_prepend_def get_steps_run bnd_run tuple
        set_steps_def modify_app list_insert_def)
qed

text \<open>
  C38 (client/job.py, \<open>next_step\<close>, \<open>next_step_append\<close>, \<open>next_step_prepend\<close>). While a step runs, every mix
  of the three calls leaves the steps that were there in their order: behind the prepended steps, last first,
  and the next steps, as each call found them, and before the appended ones.
\<close>

theorem step_calls_place_steps:
  assumes "cj_steps j = Some old" "cj_next_step_index j = 0"
  shows "\<exists>j'. for_each cs make_call j = (Inr (), j') \<and>
    (case placed (cj_current_step_ancestry j) cs ([], []) of (f, b) \<Rightarrow> cj_steps j' = Some (f @ old @ b))"
proof -
  have "\<exists>j'. for_each cs make_call j = (Inr (), j') \<and> (case placed anc cs (f, b) of (f', b') \<Rightarrow> cj_steps j' = Some (f' @ old @ b'))"
    if "cj_steps j = Some (f @ old @ b)" "cj_next_step_index j = length f" "cj_current_step_ancestry j = anc" for f b anc j
    using that
  proof (induction cs arbitrary: f b j)
    case (Cons c cs)
    obtain f' b' where p: "placed anc [c] (f, b) = (f', b')" by (cases "placed anc [c] (f, b)")
    have step: "placed anc (c # cs) (f, b) = placed anc cs (f', b')" using p by (cases c) auto
    from make_call_run [OF Cons.prems, of c] p obtain j1 where "make_call c j = (Inr (), j1)" "cj_steps j1 = Some (f' @ old @ b')"
        "cj_next_step_index j1 = length f'" "cj_current_step_ancestry j1 = anc" by auto
    with Cons.IH [of j1 f' b'] show ?case by (simp only: step) (simp add: andthen_run)
  qed (simp add: ret_app)
  from this [of j "[]" "[]" "cj_current_step_ancestry j"] assms show ?thesis by simp
qed

lemma step_calls_place_steps_witness:
  "\<exists>j'. for_each [Call_append ''z'' ([], []), Call_next ''b'' ([], []), Call_next ''c'' ([], []), Call_prepend ''a'' ([], [])] make_call
      (sample_client_job\<lparr>cj_steps := Some [([], ''old'', [], [])]\<rparr>) = (Inr (), j') \<and>
    cj_steps j' = Some [([], ''a'', [], []), ([], ''b'', [], []), ([], ''c'', [], []), ([], ''old'', [], []), ([], ''z'', [], [])]"
  using step_calls_place_steps [of "sample_client_job\<lparr>cj_steps := Some [([], ''old'', [], [])]\<rparr>" "[([], ''old'', [], [])]"
      "[Call_append ''z'' ([], []), Call_next ''b'' ([], []), Call_next ''c'' ([], []), Call_prepend ''a'' ([], [])]"]
  by (simp add: sample_client_job_def)

end
