(* ===== verification/Client_Code.thy ===== *)
theory Client_Code
  imports Client_Runs
begin

text \<open>
  What a control file may do with a job: the calls of client/job.py in any order and nesting. Such code leaves
  every block it opens unless the job is left in it, so a run of a job built from it never fails the
  assertion on the depth of its log.
\<close>

section \<open>Control code\<close>

text \<open>
  Code of a control file, its test bodies, groups, tasks and steps, a rule per construct: it returns, raises,
  reads and changes its world, goes on after other code, catches exceptions, records statuses, runs tests,
  groups and tasks in parallel, adds steps, and reboots. \<open>x\<close> says that the code may leave the job (by
  \<open>JobContinue\<close> or \<open>JobComplete\<close>); the body of a test and a task are processes of their own, which may not.
  Nothing catches a \<open>SystemExit\<close>.
\<close>

inductive control_code :: "('w, 'a, 'v) job_env \<Rightarrow> bool \<Rightarrow> ('w, 'a, 'v) on_job \<Rightarrow> bool" for env where
  code_return: "control_code env x (ret v)"
| code_raise: "proper e \<Longrightarrow> (is_exit e \<Longrightarrow> x) \<Longrightarrow> control_code env x (throw e)"
| code_change: "control_code env x k \<Longrightarrow> control_code env x (andthen (modify (\<lambda>j. j\<lparr>cj_world := f (cj_world j)\<rparr>)) k)"
| code_look: "(\<And>w. control_code env x (k w)) \<Longrightarrow> control_code env x (bnd (gets cj_world) k)"
| code_then: "control_code env x m \<Longrightarrow> (\<And>v. control_code env x (k v)) \<Longrightarrow> control_code env x (bnd m k)"
| code_try: "control_code env x m \<Longrightarrow> (\<And>e. control_code env x (h e)) \<Longrightarrow> (\<And>v. control_code env x (k v)) \<Longrightarrow>
    control_code env x (try_else m (\<lambda>e. if is_exit e then throw e else h e) k)"
| code_record: "st \<in> set job_statuses \<Longrightarrow> named op \<Longrightarrow> control_code env x k \<Longrightarrow>
    control_code env x (andthen (job_record env st None op msg kvs) k)"
| code_test: "test_names s tn \<Longrightarrow> control_code env False body \<Longrightarrow> (\<And>passed. control_code env x (k passed)) \<Longrightarrow>
    control_code env x (bnd (run_test env s tn timeout (andthen body (ret ()))) k)"
| code_test_detail: "test_names s tn \<Longrightarrow> control_code env False body \<Longrightarrow> (\<And>st. control_code env x (k st)) \<Longrightarrow>
    control_code env x (bnd (run_test_detail env s tn timeout (andthen body (ret ()))) k)"
| code_group: "named (Some name) \<Longrightarrow> control_code env x body \<Longrightarrow> (\<And>v. control_code env x (k v)) \<Longrightarrow>
    control_code env x (bnd (run_group env name body) k)"
| code_parallel: "(\<And>m. m \<in> set ms \<Longrightarrow> control_code env False m) \<Longrightarrow> control_code env x k \<Longrightarrow>
    control_code env x (andthen (job_parallel (map (\<lambda>m. andthen m (ret ())) ms)) k)"
| code_next: "control_code env x k \<Longrightarrow> control_code env x (andthen (next_step fn args) k)"
| code_append: "control_code env x k \<Longrightarrow> control_code env x (andthen (next_step_append fn args) k)"
| code_prepend: "control_code env x k \<Longrightarrow> control_code env x (andthen (next_step_prepend fn args) k)"
| code_reboot: "x \<Longrightarrow> control_code env x (andthen (start_reboot env) (throw JobContinue))"

lemma orderly_reboot:
  assumes env: "plain_env env"
  shows "orderly D True (andthen (start_reboot env) (throw JobContinue))"
proof (rule orderlyI)
  fix j :: "('a, 'b) client_job" and r :: "exn + 'd" and j'
  assume ready: "log_ready (cj_logger j)" and run: "andthen (start_reboot env) (throw JobContinue) j = (r, j')"
  have nodirs: "has_subdirs (subdirs_of None) l" for l by (simp add: has_subdirs_def subdirs_of_def)
  have names: "named (Some ''reboot'')" "named (Some ''reboot.start'')" by (simp_all add: named_def rendered_name_def)
  have codes: "is_status_code ''START''" "is_status_code ''GOOD''" by (simp_all add: is_status_code_def job_statuses_def)
  obtain u j1 where u: "job_record env ''START'' None (Some ''reboot'') [] [] j = (u, j1)"
    by (cases "job_record env ''START'' None (Some ''reboot'') [] [] j")
  from job_record_cases [OF env codes(1) named_None names(1) ready nodirs _ u]
  consider "u = Inl ValueError" "j1 = j"
    | "u = Inr ()" "continues (cj_logger j) (cj_logger j1)" "sl_indent (cj_logger j1) = sl_indent (cj_logger j) + 1"
    by (auto simp: next_indent_def code_types)
  then show "ended True (cj_logger j) (cj_logger j') r"
  proof cases
    case 1
    then show ?thesis using run u ready
      by (auto simp: start_reboot_def andthen_def bnd_def ended_def continues_refl proper_def exit_status_of_def is_exit_def)
  next
    case 2
    obtain v j2 where v: "job_record env ''GOOD'' None (Some ''reboot.start'') [] [] j1 = (v, j2)"
      by (cases "job_record env ''GOOD'' None (Some ''reboot.start'') [] [] j1")
    have ready1: "log_ready (cj_logger j1)" using 2(2) by (simp add: continues_def)
    have good: "''GOOD'' \<in> set job_statuses" by (simp add: job_statuses_def)
    have "v = Inr ()" by (rule job_record_ok [OF codes(2) _ _ _ _ ready1 nodirs v]) (simp_all add: bad_name_def bad_char_def)
    moreover from this job_record_cases [OF env codes(2) named_None names(2) ready1 nodirs _ v]
    have "continues (cj_logger j1) (cj_logger j2)" "sl_indent (cj_logger j2) = sl_indent (cj_logger j1)"
      using code_types(1) [OF good] by (auto simp: next_indent_def)
    moreover from calculation have "r = Inl JobContinue" "j' = j2"
      using run u 2(1) v by (auto simp: start_reboot_def andthen_def bnd_def throw_def)
    ultimately show ?thesis using 2 continues_trans [OF 2(2)]
      by (simp add: ended_def proper_def exit_status_of_def is_exit_def)
  qed
qed

lemma control_code_orderly:
  assumes "control_code env x m" "plain_env env"
  shows "orderly D x m"
  using assms
proof (induction arbitrary: D rule: control_code.induct)
  case (code_try x m h k)
  then show ?case by (intro orderly_try [where y = x]) simp_all
next
  case (code_parallel ms x k)
  then show ?case by (intro orderly_andthen orderly_parallel) (auto simp: list_all_iff intro!: orderly_andthen)
next
  case (code_reboot x)
  then show ?case using orderly_reboot by simp
qed (auto intro!: orderly_intro simp: subdirs_of_def)

section \<open>The engine's own variables\<close>

named_theorems leaves_intro \<open>rules that decompose a \<open>leaves_engine\<close> goal\<close>

lemma leavesI:
  "(\<And>j r j'. m j = (r, j') \<Longrightarrow> cj_unexpected_reboot j' \<in> {None, cj_unexpected_reboot j} \<and>
     cj_is_continuation j' = cj_is_continuation j) \<Longrightarrow> leaves_engine m"
  by (simp add: leaves_engine_def) (metis prod.collapse)

lemma leavesD:
  "leaves_engine m \<Longrightarrow> m j = (r, j') \<Longrightarrow>
   cj_unexpected_reboot j' \<in> {None, cj_unexpected_reboot j} \<and> cj_is_continuation j' = cj_is_continuation j"
  by (metis leaves_engine_def snd_conv)

lemma leaves_base [leaves_intro]: "leaves_engine (ret v)" "leaves_engine (throw e)" "leaves_engine (gets f)"
  by (simp_all add: leaves_engine_def ret_def throw_def gets_def)

lemma leaves_modify [leaves_intro]:
  "(\<And>j. cj_unexpected_reboot (f j) = cj_unexpected_reboot j \<and> cj_is_continuation (f j) = cj_is_continuation j) \<Longrightarrow>
   leaves_engine (modify f)"
  by (simp add: leaves_engine_def modify_def)

lemma leaves_try [leaves_intro]:
  assumes "leaves_engine m" "\<And>e. leaves_engine (h e)" "\<And>a. leaves_engine (f a)"
  shows "leaves_engine (try_else m h f)"
proof (rule leavesI)
  fix j r j' assume run: "try_else m h f j = (r, j')"
  obtain q j1 where q: "m j = (q, j1)" by (cases "m j")
  from leavesD [OF assms(1) q] show "cj_unexpected_reboot j' \<in> {None, cj_unexpected_reboot j} \<and>
      cj_is_continuation j' = cj_is_continuation j"
    using run q leavesD [OF assms(2)] leavesD [OF assms(3)] by (cases q) (fastforce simp: try_else_def)+
qed

lemma bnd_try: "bnd m f = try_else m throw f"
  by (auto simp: bnd_def try_else_def throw_def fun_eq_iff split: prod.split sum.split)

lemma leaves_bnd [leaves_intro]: "leaves_engine m \<Longrightarrow> (\<And>a. leaves_engine (f a)) \<Longrightarrow> leaves_engine (bnd m f)"
  unfolding bnd_try by (intro leaves_intro)

lemma leaves_andthen [leaves_intro]: "leaves_engine m \<Longrightarrow> leaves_engine n \<Longrightarrow> leaves_engine (andthen m n)"
  unfolding andthen_def by (intro leaves_intro)

lemma leaves_catch [leaves_intro]: "leaves_engine m \<Longrightarrow> (\<And>e. leaves_engine (h e)) \<Longrightarrow> leaves_engine (catch m h)"
  unfolding catch_try by (intro leaves_intro)

lemma leaves_finally [leaves_intro]: "leaves_engine m \<Longrightarrow> leaves_engine h \<Longrightarrow> leaves_engine (finally_do m h)"
  unfolding finally_try by (intro leaves_intro)

lemma leaves_cases [leaves_intro]:
  "(b \<Longrightarrow> leaves_engine m) \<Longrightarrow> (\<not> b \<Longrightarrow> leaves_engine n) \<Longrightarrow> leaves_engine (if b then m else n)"
  "leaves_engine n \<Longrightarrow> (\<And>v. leaves_engine (k v)) \<Longrightarrow> leaves_engine (case a of None \<Rightarrow> n | Some v \<Rightarrow> k v)"
  by (simp_all split: option.split)

lemma leaves_helpers [leaves_intro]:
  "leaves_engine (some_or e a)" "leaves_engine (lift_sum s)" "leaves_engine (assert_that b)"
  by (cases a; cases s; auto simp: leaves_engine_def some_or_def lift_sum_def assert_that_def ret_def throw_def)+

lemma leaves_for_each [leaves_intro]: "(\<And>x. leaves_engine (f x)) \<Longrightarrow> leaves_engine (for_each xs f)"
  by (induction xs) (auto intro!: leaves_intro)

lemma leaves_record [leaves_intro]: "leaves_engine (job_record env code sd op msg kvs)"
  by (auto simp: leaves_engine_def job_record_def bnd_def gets_def lift_sum_def zoom_def split: prod.split sum.split)

lemma leaves_forked [leaves_intro]: "leaves_engine m \<Longrightarrow> leaves_engine (forked m)"
  by (rule leavesI) (auto simp: forked_def own_memory_def dest: leavesD split: prod.splits)

lemma leaves_runtest [leaves_intro]: "leaves_engine m \<Longrightarrow> leaves_engine (runtest m)"
  unfolding runtest_def by (intro leaves_intro)

lemma leaves_end_group [leaves_intro]: "leaves_engine (end_group env sd tn e)"
  unfolding end_group_def by (intro leaves_intro)

text \<open>A group forgets a reboot when it ends.\<close>

lemma leaves_rungroup [leaves_intro]:
  assumes "leaves_engine function"
  shows "leaves_engine (rungroup env sd tn function timeout)"
proof (rule leavesI)
  fix j r j' assume run: "rungroup env sd tn function timeout j = (r, j')"
  let ?start = "job_record env ''START'' sd tn [] (case timeout of None \<Rightarrow> [] | Some t \<Rightarrow> if t = 0 then [] else [(''timeout'', str_of_nat t)])"
  let ?mark = "modify (\<lambda>j. j\<lparr>cj_unexpected_reboot := Some (sd, tn)\<rparr>)"
  let ?body = "catch (bnd function (\<lambda>result. andthen (job_record env ''END GOOD'' sd tn [] []) (ret result))) (end_group env sd tn)"
  obtain q j1 where q: "?start j = (q, j1)" by (cases "?start j")
  let ?j2 = "j1\<lparr>cj_unexpected_reboot := Some (sd, tn)\<rparr>"
  obtain p j3 where p: "?body ?j2 = (p, j3)" by (cases "?body ?j2")
  have "leaves_engine ?body" by (intro leaves_intro assms)
  from leavesD [OF this p] leavesD [OF leaves_record q]
  have "cj_is_continuation j3 = cj_is_continuation j" "cj_is_continuation j1 = cj_is_continuation j" by auto
  then show "cj_unexpected_reboot j' \<in> {None, cj_unexpected_reboot j} \<and> cj_is_continuation j' = cj_is_continuation j"
    using run q p by (cases q) (auto simp: rungroup_def finally_do_def andthen_def bnd_def modify_def)
qed

lemma leaves_calls [leaves_intro]:
  "leaves_engine body \<Longrightarrow> leaves_engine (run_test env s tn timeout body)"
  "leaves_engine body \<Longrightarrow> leaves_engine (run_test_detail env s tn timeout body)"
  "leaves_engine f \<Longrightarrow> leaves_engine (run_group env name f)"
  unfolding run_test_def run_test_detail_def run_group_def make_test_outputdir_def run_test_group_def group_func_def
    disk_usage_stop_def by (intro leaves_intro; simp)+

lemma leaves_start_tasks: "\<forall>m \<in> set ms. leaves_engine m \<Longrightarrow> leaves_engine (start_tasks f i ms)"
  by (induction ms arbitrary: i) (auto intro!: leaves_intro simp: set_global_filename_def fork_task_def)

lemma leaves_parallel: "\<forall>m \<in> set ms. leaves_engine m \<Longrightarrow> leaves_engine (job_parallel ms)"
  unfolding job_parallel_def set_global_filename_def by (intro leaves_intro leaves_start_tasks) simp_all

lemma leaves_step_cases [leaves_intro]:
  "(\<And>f. leaves_engine (p f)) \<Longrightarrow> (\<And>l. leaves_engine (q l)) \<Longrightarrow> leaves_engine (case fn of Plain f \<Rightarrow> p f | Listed l \<Rightarrow> q l)"
  "(\<And>n. leaves_engine (a n)) \<Longrightarrow> (\<And>n. leaves_engine (b n)) \<Longrightarrow> leaves_engine c \<Longrightarrow>
   leaves_engine (case f of Named n \<Rightarrow> a n | Function n \<Rightarrow> b n | No_function \<Rightarrow> c)"
  "(\<And>y z. leaves_engine (d y z)) \<Longrightarrow> leaves_engine (case yz of (y, z) \<Rightarrow> d y z)"
  by (cases fn; simp) ((cases f; simp), (cases yz; simp))

lemma leaves_steps [leaves_intro]:
  "leaves_engine (next_step fn args)" "leaves_engine (next_step_append fn args)" "leaves_engine (next_step_prepend fn args)"
  unfolding next_step_def next_step_append_def next_step_prepend_def create_step_tuple_def get_steps_def set_steps_def
  by (intro leaves_intro; simp)+

lemma control_code_leaves: "control_code env x m \<Longrightarrow> leaves_engine m"
proof (induction rule: control_code.induct)
  case (code_change x k f)
  show ?case by (intro leaves_intro code_change.IH) simp_all
next
  case (code_look x k)
  show ?case by (intro leaves_intro code_look.IH)
next
  case (code_parallel ms x k)
  show ?case by (intro leaves_andthen leaves_parallel) (auto intro!: leaves_intro code_parallel.IH)
next
  case (code_reboot x)
  then show ?case unfolding start_reboot_def by (intro leaves_intro)
qed (auto intro!: leaves_intro)

section \<open>A job of control code\<close>

text \<open>
  The functions of the control file are control code, steps have Python names, the command of a failed task
  has no tab, line break or other forbidden character, and the surroundings are plain (\<open>plain_env\<close>).
\<close>

definition control_env :: "('w, 'a, 'v) job_env \<Rightarrow> bool" where
  "control_env env \<longleftrightarrow> plain_env env \<and> (\<exists>m. control_code env True m \<and> je_control env = andthen m (ret ())) \<and>
     (\<forall>v args. control_code env True (je_call env v args)) \<and> (\<forall>w. name_space_ok (je_globals env w)) \<and>
     (\<forall>v ns. je_locals env v = Some ns \<longrightarrow> name_space_ok ns) \<and>
     (\<forall>e w c. je_command env e w = Some c \<longrightarrow> named (Some c) \<and> \<not> bad_name (Some c))"

lemma control_env_orderly:
  assumes "control_env env"
  shows "orderly_env env"
proof -
  have plain: "plain_env env" using assms by (simp add: control_env_def)
  obtain m where m: "control_code env True m" "je_control env = andthen m (ret ())" using assms by (auto simp: control_env_def)
  have "orderly {} True (je_control env)" unfolding m(2) by (intro orderly_andthen orderly_ret control_code_orderly [OF m(1) plain])
  moreover have "leaves_engine (je_control env)" unfolding m(2) by (intro leaves_intro control_code_leaves [OF m(1)])
  moreover have "orderly {} True (je_call env v args)" for v args
    using assms control_code_orderly [OF _ plain] by (simp add: control_env_def del: split_paired_All)
  ultimately show ?thesis using assms unfolding orderly_env_def by (simp add: control_env_def del: split_paired_All)
qed

text \<open>A continuation stands outside of every group, or in the group its machine went down in.\<close>

definition resumes :: "('w, 'a, 'v) job_env \<Rightarrow> ('w, 'a) client_job \<Rightarrow> bool" where
  "resumes env j \<longleftrightarrow> (case cj_unexpected_reboot j of
       None \<Rightarrow> sl_indent (cj_logger j) = 1
     | Some (sd, tn) \<Rightarrow> sl_indent (cj_logger j) = 2 \<and> \<not> bad_name sd \<and> \<not> bad_name tn \<and> je_control env = ret ())"

lemma end_job_done:
  assumes env: "plain_env env" and code: "st \<in> set job_statuses" and ready: "log_ready (cj_logger j)" "sl_indent (cj_logger j) = 1"
    and msg: "clean_message msg" and run: "end_job env (''END '' @ st) msg s j = (r, j')"
  shows "r = Inr (Ended s) \<and> sl_indent (cj_logger j') = 0"
proof -
  obtain u j1 where u: "job_record env (''END '' @ st) None None msg [] j = (u, j1)"
    by (cases "job_record env (''END '' @ st) None None msg [] j")
  have "has_subdirs (subdirs_of None) (cj_logger j)" by (simp add: has_subdirs_def subdirs_of_def)
  from end_record [OF env code named_None named_None _ _ msg ready(1) this _ u] ready(2)
  have "u = Inr ()" "sl_indent (cj_logger j1) = 0" by (simp_all add: bad_name_def)
  then show ?thesis using run u by (auto simp: end_job_def andthen_run remove_state_def ret_app)
qed

lemma job_failed_done:
  assumes env: "control_env env" and ready: "log_ready (cj_logger j)" "sl_indent (cj_logger j) = 1"
    and run: "job_failed env e j = (r, j')"
  shows "if is_exit e then r = Inr Paused \<or> r = Inr Left else r = Inr (Ended 1) \<and> sl_indent (cj_logger j') = 0"
proof -
  have plain: "plain_env env" using env by (simp add: control_env_def)
  have abort: "''ABORT'' \<in> set job_statuses" by (simp add: job_statuses_def)
  let ?w = "cj_world j"
  have clean: "clean_message (je_str env e ?w)" using plain by (simp add: plain_env_def)
  have nodirs: "has_subdirs (subdirs_of None) l" for l by (simp add: has_subdirs_def subdirs_of_def)
  consider "is_exit e" | "\<not> is_exit e" "\<not> is_job_error e" | "\<not> is_exit e" "is_job_error e" by blast
  then show ?thesis
  proof cases
    case 1
    then show ?thesis using run by (auto simp: job_failed_def is_exit_def ret_app split: if_splits)
  next
    case 2
    then have "end_job env (''END '' @ ''ABORT'') (je_str env e ?w @ newline # je_traceback env e ?w) 1 j = (r, j')"
      using run by (simp add: job_failed_def is_exit_def)
    from end_job_done [OF plain abort ready clean_message_append [OF clean] this] 2 show ?thesis by simp
  next
    case 3
    show ?thesis
    proof (cases "je_command env e ?w")
      case None
      then have "end_job env (''END '' @ ''ABORT'') (je_str env e ?w) 1 j = (r, j')"
        using run 3 by (simp add: job_failed_def is_exit_def andthen_run ret_app)
      from end_job_done [OF plain abort ready clean this] 3 show ?thesis by simp
    next
      case (Some c)
      then have c: "named (Some c)" "\<not> bad_name (Some c)" using env by (auto simp: control_env_def)
      obtain u j1 where u: "job_record env ''ABORT'' None (Some c) (je_str env e ?w) [] j = (u, j1)"
        by (cases "job_record env ''ABORT'' None (Some c) (je_str env e ?w) [] j")
      have "u = Inr ()" by (rule job_record_ok [OF status_codes(1) [OF abort] _ c(2) clean _ ready(1) nodirs u]) (simp_all add: bad_name_def)
      moreover from this job_record_cases [OF plain status_codes(1) [OF abort] named_None c(1) ready(1) nodirs _ u]
      have "log_ready (cj_logger j1)" "sl_indent (cj_logger j1) = 1"
        using code_types(1) [OF abort] ready(2) by (auto simp: next_indent_def continues_def)
      moreover have "end_job env (''END '' @ ''ABORT'') (je_str env e ?w) 1 j1 = (r, j')"
        using run 3 Some u calculation(1) by (simp add: job_failed_def is_exit_def andthen_run)
      ultimately show ?thesis using end_job_done [OF plain abort _ _ clean] 3 by auto
    qed
  qed
qed

text \<open>The end of a run, from what the engine did at depth 1.\<close>

definition balanced_end :: "job_end \<Rightarrow> int \<Rightarrow> bool" where
  "balanced_end x i \<longleftrightarrow> (case x of Ended _ \<Rightarrow> i = 0 | Out_of_turns \<Rightarrow> i = 1 | Paused \<Rightarrow> True | Left \<Rightarrow> True)"

lemma engine_done:
  assumes env: "control_env env" and m: "ended True l (cj_logger j1) q" "sl_indent l = 1" "m j = (q, j1)"
    and run: "try_else m (job_failed env) (\<lambda>finished. if finished then end_job env ''END GOOD'' [] 0 else ret Out_of_turns) j = (r, j')"
  shows "\<exists>x. r = Inr x \<and> balanced_end x (sl_indent (cj_logger j'))"
proof (cases q)
  case (Inl e)
  then have f: "job_failed env e j1 = (r, j')" using run m(3) by (simp add: try_else_def)
  show ?thesis
  proof (cases "is_exit e")
    case True
    then show ?thesis using f by (auto simp: job_failed_def is_exit_def ret_app balanced_end_def split: if_splits)
  next
    case False
    then have "log_ready (cj_logger j1)" "sl_indent (cj_logger j1) = 1" using m(1,2) Inl by (simp_all add: ended_def continues_def)
    from job_failed_done [OF env this f] False show ?thesis by (simp add: balanced_end_def)
  qed
next
  case (Inr finished)
  then have at: "log_ready (cj_logger j1)" "sl_indent (cj_logger j1) = 1" using m(1,2) by (simp_all add: ended_def continues_def)
  show ?thesis
  proof (cases finished)
    case True
    then have "end_job env (''END '' @ ''GOOD'') [] 0 j1 = (r, j')" using run m(3) Inr by (simp add: try_else_def)
    from end_job_done [OF _ _ at clean_message_Nil this] env show ?thesis
      by (simp add: control_env_def job_statuses_def balanced_end_def)
  next
    case False
    then show ?thesis using run m(3) Inr at(2) by (auto simp: try_else_def ret_app balanced_end_def)
  qed
qed

lemma run_ends:
  assumes env: "control_env env" "named (Some control)" "je_has_control env" and start: "can_start cont j"
    and cont: "cont \<Longrightarrow> resumes env j" and run: "runjob env control cont n j = (r, j')"
  shows "\<exists>x. r = Inr x \<and> balanced_end x (sl_indent (cj_logger j'))"
proof -
  have plain: "plain_env env" using env(1) by (simp add: control_env_def)
  note orderly = control_env_orderly [OF env(1)]
  show ?thesis
  proof (cases rule: runjob_cases [OF plain env(3) start run, case_names failed engine])
    case failed
    then show ?thesis by (auto simp: balanced_end_def)
  next
    case (engine j1)
    have ready: "log_ready (cj_logger j1)" using engine(2) by (simp add: good_log_def)
    show ?thesis
    proof (cases "cont \<and> cj_unexpected_reboot j \<noteq> None")
      case False
      have i: "sl_indent (cj_logger j1) = 1"
      proof (cases cont)
        case True
        then have "cj_unexpected_reboot j = None" using False by blast
        moreover have "same_log (cj_logger j) (cj_logger j1)" "resumes env j" using engine(3) cont True by simp_all
        ultimately have "same_log (cj_logger j) (cj_logger j1)" "sl_indent (cj_logger j) = 1" by (simp_all add: resumes_def)
        then show ?thesis by (simp add: same_log_parts)
      qed (use engine(3) in simp)
      have none: "cj_unexpected_reboot j1 = None" if "cj_is_continuation j1"
      proof -
        have cont using engine(3) that by (simp split: if_splits)
        moreover from this have "cj_unexpected_reboot j = None" using False by blast
        ultimately show ?thesis using engine(3) by simp
      qed
      obtain q j2 where q: "step_engine env control n j1 = (q, j2)" by (cases "step_engine env control n j1")
      from step_engine_level [OF orderly env(2) ready none q] show ?thesis using engine_done [OF env(1) _ i q engine(1)] by blast
    next
      case True
      then obtain sd tn where un: "cj_unexpected_reboot j = Some (sd, tn)" by auto
      have c: "cj_is_continuation j1" "cj_unexpected_reboot j1 = Some (sd, tn)" "same_log (cj_logger j) (cj_logger j1)" "reboot_ok j1"
        using engine(3) True un by simp_all
      have res: "sl_indent (cj_logger j) = 2" "\<not> bad_name sd" "\<not> bad_name tn" "je_control env = ret ()"
        using cont True un by (simp_all add: resumes_def)
      have i: "sl_indent (cj_logger j1) = 2" using res(1) c(3) by (simp add: same_log_parts)
      have group_: "named sd" "named tn" "has_subdirs (subdirs_of sd) (cj_logger j1)" using c(2,4) by (simp_all add: reboot_ok_def)
      have "1 \<le> sl_indent (cj_logger j1)" using i by simp
      from continued_engine [OF plain res(4) c(1) ready this c(2) group_(1,2) res(2,3) group_(3), of control n] obtain l' where
        l': "step_engine env control n j1 = run_steps env n (j1\<lparr>cj_logger := l'\<rparr>)" "continues (cj_logger j1) l'" "sl_indent l' = 1"
        using i by auto
      obtain q j2 where q: "step_engine env control n j1 = (q, j2)" by (cases "step_engine env control n j1")
      then have "run_steps env n (j1\<lparr>cj_logger := l'\<rparr>) = (q, j2)" using l'(1) by simp
      moreover have "log_ready (cj_logger (j1\<lparr>cj_logger := l'\<rparr>))" "has_subdirs {} (cj_logger (j1\<lparr>cj_logger := l'\<rparr>))"
        using l'(2) by (simp_all add: continues_def has_subdirs_def)
      ultimately have "ended True l' (cj_logger j2) q" using orderlyD [OF orderly_run_steps [OF orderly]] by fastforce
      from engine_done [OF env(1) this l'(3) q engine(1)] show ?thesis .
    qed
  qed
qed

section \<open>Properties\<close>


text \<open>
  A step that runs a group in which a test passes and a task in parallel fails after a failed test: the
  \<open>JobError\<close> ends the group and the job.
\<close>

definition sample_task :: "(unit, unit, nat) on_job" where
  "sample_task = bnd (run_test sample_base ''failtest'' ''failtest'' None
     (andthen (throw (TestException ''FAIL'') :: (unit, unit, nat) on_job) (ret ()))) (\<lambda>_. throw JobError)"

definition sample_group :: "(unit, unit, nat) on_job" where
  "sample_group = bnd (run_group sample_base ''both'' (
     bnd (run_test sample_base ''sleeptest'' ''sleeptest'' None (andthen (ret (0 :: nat)) (ret ()))) (\<lambda>_.
     andthen (job_parallel (map (\<lambda>m. andthen m (ret ())) [sample_task])) (ret 0)))) ret"

definition sample_code_env :: "(unit, unit, nat) job_env" where
  "sample_code_env = sample_base\<lparr>je_control := andthen (ret (0 :: nat)) (ret ()), je_call := (\<lambda>_ _. sample_group)\<rparr>"

lemma sample_calls:
  "run_test sample_code_env = run_test sample_base" "run_group sample_code_env = run_group sample_base"
proof -
  have same: "je_localtime sample_code_env = je_localtime sample_base" "je_now sample_code_env = je_now sample_base"
      "je_str sample_code_env = je_str sample_base" "je_traceback sample_code_env = je_traceback sample_base"
      "je_disk_warning sample_code_env = je_disk_warning sample_base" "je_makedirs sample_code_env = je_makedirs sample_base"
    by (simp_all add: sample_code_env_def)
  have rec: "job_record sample_code_env = job_record sample_base"
    by (intro ext) (simp only: job_record_def same)
  have rungroup: "rungroup sample_code_env = rungroup sample_base"
    by (intro ext) (simp only: rungroup_def end_group_def [abs_def] same rec)
  show "run_test sample_code_env = run_test sample_base"
    unfolding run_test_def [abs_def] make_test_outputdir_def run_test_group_def group_func_def disk_usage_stop_def same rec rungroup
    by (rule refl)
  show "run_group sample_code_env = run_group sample_base"
    by (intro ext) (simp only: run_group_def rungroup)
qed

lemma sample_control: "control_env sample_code_env"
proof -
  have plain: "plain_env sample_code_env" using sample_plain by (simp add: plain_env_def sample_code_env_def)
  have names: "test_names ''sleeptest'' ''sleeptest''" "test_names ''failtest'' ''failtest''" "named (Some ''both'')"
    by (simp_all add: test_names_def plain_subdir_def named_def rendered_name_def)
  have proper: "proper JobError" "proper (TestException ''FAIL'')" by (simp_all add: proper_def exit_status_of_def job_statuses_def)
  have "control_code sample_code_env True sample_group"
    unfolding sample_group_def sample_calls [symmetric]
  proof (intro code_group names code_test code_parallel code_return)
    fix m assume "m \<in> set [sample_task]"
    then have "m = sample_task" by simp
    then show "control_code sample_code_env False m"
      unfolding sample_task_def sample_calls [symmetric]
      by (simp only:) (intro code_test names code_raise proper; simp add: is_exit_def)
  qed
  moreover have "\<exists>m. control_code sample_code_env True m \<and> je_control sample_code_env = andthen m (ret ())"
    by (intro exI [of _ "ret 0"]) (simp add: code_return sample_code_env_def)
  moreover have "je_call sample_code_env = (\<lambda>_ _. sample_group)" by (simp add: sample_code_env_def)
  ultimately show ?thesis using plain
    by (simp add: control_env_def) (simp add: sample_code_env_def sample_base_def name_space_ok_def named_def rendered_name_def)
qed


end
