(* ===== verification/Subcommand.thy ===== *)
theory Subcommand
  imports Keyval
begin

text \<open>
  Functions in processes of their own, server/subcommand.py: a subcommand forks a child that runs a function and
  writes the pickled result or exception into a pipe; \<open>parallel\<close> starts several and collects what they wrote.
\<close>

section \<open>Computations that may not return\<close>

text \<open>The value is \<open>None\<close> when the computation runs forever.\<close>

type_synonym ('s, 'a) looping = "'s \<Rightarrow> ((exn + 'a) \<times> 's) option"

definition ends :: "('s, 'a) exm \<Rightarrow> ('s, 'a) looping" where
  "ends m s = Some (m s)"

definition lbnd :: "('s, 'a) looping \<Rightarrow> ('a \<Rightarrow> ('s, 'b) looping) \<Rightarrow> ('s, 'b) looping" where
  "lbnd m f s = (case m s of
       None \<Rightarrow> None
     | Some (Inl e, t) \<Rightarrow> Some (Inl e, t)
     | Some (Inr x, t) \<Rightarrow> f x t)"

definition lcatch :: "('s, 'a) looping \<Rightarrow> (exn \<Rightarrow> ('s, 'a) looping) \<Rightarrow> ('s, 'a) looping" where
  "lcatch m h s = (case m s of
       None \<Rightarrow> None
     | Some (Inl e, t) \<Rightarrow> h e t
     | Some (Inr x, t) \<Rightarrow> Some (Inr x, t))"

fun lfor_each :: "'x list \<Rightarrow> ('x \<Rightarrow> ('s, unit) looping) \<Rightarrow> ('s, unit) looping" where
  "lfor_each [] f = ends (ret ())"
| "lfor_each (x # xs) f = lbnd (f x) (\<lambda>_. lfor_each xs f)"

lemma ends_app [simp]: "ends m s = Some (m s)"
  by (simp add: ends_def)

lemma lbnd_run:
  "m s = Some (Inl e, t) \<Longrightarrow> lbnd m f s = Some (Inl e, t)"
  "m s = Some (Inr x, t) \<Longrightarrow> lbnd m f s = f x t"
  "m s = None \<Longrightarrow> lbnd m f s = None"
  by (simp_all add: lbnd_def)

section \<open>Children and time\<close>

text \<open>
  A child with the time its function ends at, its return code (negative for a signal) and what it writes then. A
  pickle that does not fit into the pipe blocks the child in \<open>os.write\<close> until somebody reads: it does not end by
  itself. Time passes in \<open>sleep\<close> and in a blocking wait only.
\<close>

record 'r child =
  ch_end :: nat
  ch_status :: int
  ch_pickle :: "(exn + 'r) option"
  ch_blocked :: bool

text \<open>A subcommand: what its function does (its end is the time it takes), and the attributes of the object.\<close>

record 'r subcommand =
  sc_child :: "'r child"
  sc_pid :: "nat option"
  sc_returncode :: "int option"
  sc_pipe :: "(exn + 'r) option"

text \<open>The processes, the objects by their place, and the paths of the working directory that log directories need.\<close>

record 'r procs =
  pr_now :: nat
  pr_next_pid :: nat
  pr_children :: "(nat \<times> 'r child) list"        \<comment> \<open>the children that were not waited for\<close>
  pr_tasks :: "'r subcommand list"
  pr_cwd :: string
  pr_dirs :: "string list"
  pr_files :: "string list"

text \<open>
  The child part of \<open>fork_start\<close>: the result or the exception of the function goes into the pipe. \<open>fits\<close> says that
  its pickle fits.
\<close>

definition child_of :: "bool \<Rightarrow> nat \<Rightarrow> exn + 'r \<Rightarrow> 'r child" where
  "child_of fits duration result = \<lparr>ch_end = duration, ch_status = (case result of Inl _ \<Rightarrow> 1 | Inr _ \<Rightarrow> 0),
     ch_pickle = Some result, ch_blocked = (\<not> fits)\<rparr>"

definition child_ended :: "nat \<Rightarrow> 'r child \<Rightarrow> bool" where
  "child_ended now c \<longleftrightarrow> ch_end c \<le> now \<and> \<not> ch_blocked c"

definition new_subcommand :: "'r child \<Rightarrow> 'r subcommand" where
  "new_subcommand c = \<lparr>sc_child = c, sc_pid = None, sc_returncode = None, sc_pipe = None\<rparr>"

definition task :: "nat \<Rightarrow> ('r procs, 'r subcommand) exm" where
  "task i = bnd (gets pr_tasks) (\<lambda>ts. if i < length ts then ret (ts ! i) else throw IndexError)"

definition set_task :: "nat \<Rightarrow> ('r subcommand \<Rightarrow> 'r subcommand) \<Rightarrow> ('r procs, unit) exm" where
  "set_task i f = modify (\<lambda>w. w\<lparr>pr_tasks := (pr_tasks w)[i := f (pr_tasks w ! i)]\<rparr>)"

definition sleep :: "nat \<Rightarrow> ('r procs, unit) exm" where
  "sleep n = modify (\<lambda>w. w\<lparr>pr_now := pr_now w + n\<rparr>)"

section \<open>One subcommand\<close>

definition fork_start :: "nat \<Rightarrow> ('r procs, unit) exm" where
  "fork_start i = bnd (task i) (\<lambda>t.
     bnd (gets (\<lambda>w. (pr_next_pid w, pr_now w))) (\<lambda>(p, now).
     andthen (modify (\<lambda>w. w\<lparr>pr_next_pid := p + 1,
         pr_children := (p, (sc_child t)\<lparr>ch_end := now + ch_end (sc_child t)\<rparr>) # pr_children w\<rparr>))
       (set_task i (\<lambda>t. t\<lparr>sc_pid := Some p, sc_returncode := None, sc_pipe := None\<rparr>))))"

definition handle_exitstatus :: "nat \<Rightarrow> int \<Rightarrow> ('r procs, unit) exm" where
  "handle_exitstatus i status =
     andthen (set_task i (\<lambda>t. t\<lparr>sc_returncode := Some status\<rparr>))
       (if status \<noteq> 0 then throw SubcommandError else ret ())"

text \<open>The child is gone after a successful \<open>waitpid\<close>; the pipe keeps what it wrote.\<close>

definition reap :: "nat \<Rightarrow> nat \<Rightarrow> 'r child \<Rightarrow> ('r procs, unit) exm" where
  "reap i p c = andthen (modify (\<lambda>w. w\<lparr>pr_children := filter (\<lambda>(q, _). q \<noteq> p) (pr_children w)\<rparr>))
     (andthen (set_task i (\<lambda>t. t\<lparr>sc_pipe := ch_pickle c\<rparr>)) (handle_exitstatus i (ch_status c)))"

definition child_of_task :: "'r subcommand \<Rightarrow> 'r procs \<Rightarrow> (nat \<times> 'r child) option" where
  "child_of_task t w = Option.bind (sc_pid t) (\<lambda>p. map_option (Pair p) (map_of (pr_children w) p))"

text \<open>A process that is no child makes \<open>waitpid\<close> raise an \<open>OSError\<close>, which \<open>poll\<close> ignores.\<close>

definition poll_sc :: "nat \<Rightarrow> ('r procs, int option) exm" where
  "poll_sc i = bnd (task i) (\<lambda>t.
     andthen (when_do (sc_returncode t = None)
       (bnd (gets (\<lambda>w. (child_of_task t w, pr_now w))) (\<lambda>(found, now). case found of
          None \<Rightarrow> ret ()
        | Some (p, c) \<Rightarrow> when_do (child_ended now c) (reap i p c))))
     (bnd (task i) (\<lambda>t. ret (sc_returncode t))))"

text \<open>\<open>wait\<close> never returns when the child waits for a reader of its pipe.\<close>

definition wait_sc :: "nat \<Rightarrow> ('r procs, int option) looping" where
  "wait_sc i = lbnd (ends (task i)) (\<lambda>t.
     lbnd (if sc_returncode t \<noteq> None then ends (ret ())
       else lbnd (ends (gets (child_of_task t))) (\<lambda>found. case found of
          None \<Rightarrow> ends (throw OSError)
        | Some (p, c) \<Rightarrow> if ch_blocked c then (\<lambda>_. None)
            else ends (andthen (modify (\<lambda>w. w\<lparr>pr_now := max (pr_now w) (ch_end c)\<rparr>)) (reap i p c))))
     (\<lambda>_. ends (bnd (task i) (\<lambda>t. ret (sc_returncode t)))))"

text \<open>
  The child restored the default action of SIGTERM, so the first signal ends it. A killed child has written
  nothing, or the part of a pickle; it stays a child until it is waited for.
\<close>

definition nuke_pid :: "nat \<Rightarrow> ('r procs, unit) exm" where
  "nuke_pid i = bnd (task i) (\<lambda>t.
     modify (\<lambda>w. case child_of_task t w of
         None \<Rightarrow> w
       | Some (p, c) \<Rightarrow> if child_ended (pr_now w) c then w
           else w\<lparr>pr_children := alist_put p \<lparr>ch_end = pr_now w, ch_status = - 15, ch_pickle = None, ch_blocked = False\<rparr>
             (pr_children w)\<rparr>))"

text \<open>The loop of \<open>fork_waitfor\<close>, \<open>n\<close> seconds before its end.\<close>

fun waitfor_loop :: "nat \<Rightarrow> nat \<Rightarrow> ('r procs, int option) exm" where
  "waitfor_loop i 0 = bnd (poll_sc i) (\<lambda>r. if r \<noteq> None then ret r
     else andthen (sleep 1) (andthen (nuke_pid i) (ret None)))"
| "waitfor_loop i (Suc n) = bnd (poll_sc i) (\<lambda>r. if r \<noteq> None then ret r
     else andthen (sleep 1) (waitfor_loop i n))"

definition fork_waitfor :: "nat \<Rightarrow> nat option \<Rightarrow> ('r procs, int option) looping" where
  "fork_waitfor i timeout = (case timeout of
       None \<Rightarrow> wait_sc i
     | Some n \<Rightarrow> if n = 0 then wait_sc i else ends (waitfor_loop i n))"

section \<open>Several subcommands\<close>

text \<open>
  \<open>cPickle.load(task.result_pickle)\<close>, after which the pipe is closed. The pipe of a killed child ends without a
  whole pickle, an EOFError; reading the pipe of a running child waits for what it writes and makes room for it.
\<close>

definition load_result :: "nat \<Rightarrow> ('r procs, exn + 'r) exm" where
  "load_result i = bnd (task i) (\<lambda>t.
     bnd (gets (child_of_task t)) (\<lambda>found. case found of
       None \<Rightarrow> some_or EOFError (sc_pipe t)
     | Some (_, c) \<Rightarrow> andthen (modify (\<lambda>w. w\<lparr>pr_now := max (pr_now w) (ch_end c)\<rparr>)) (some_or EOFError (ch_pickle c))))"

definition wait_failed :: "nat \<Rightarrow> nat option \<Rightarrow> ('r procs, bool) looping" where
  "wait_failed i timeout = lcatch (lbnd (fork_waitfor i timeout) (\<lambda>status. ends (ret (status \<noteq> Some 0))))
     (\<lambda>e. ends (if e = SubcommandError then ret True else throw e))"

fun collect :: "nat option \<Rightarrow> nat list \<Rightarrow> bool \<Rightarrow> ('r procs, (exn + 'r) list \<times> bool) looping" where
  "collect endtime [] run_error = ends (ret ([], run_error))"
| "collect endtime (i # is) run_error =
     lbnd (ends (gets (\<lambda>w. map_option (\<lambda>t. max (t - pr_now w) 1) endtime))) (\<lambda>remaining_timeout.
     lbnd (wait_failed i remaining_timeout) (\<lambda>failed.
     lbnd (ends (load_result i)) (\<lambda>result.
     lbnd (collect endtime is (run_error \<or> failed)) (\<lambda>(results, run_error'). ends (ret (result # results, run_error'))))))"

text \<open>\<open>None\<close> for the results when they are not asked for. A timeout of 0 is none.\<close>

definition parallel :: "nat list \<Rightarrow> nat option \<Rightarrow> bool \<Rightarrow> ('r procs, (exn + 'r) list option) looping" where
  "parallel tasklist timeout return_results =
     lbnd (ends (for_each tasklist fork_start)) (\<lambda>_.
     lbnd (ends (gets (\<lambda>w. case timeout of None \<Rightarrow> None | Some n \<Rightarrow> if n = 0 then None else Some (pr_now w + n)))) (\<lambda>endtime.
     lbnd (collect endtime tasklist False) (\<lambda>(results, run_error).
     ends (if return_results then ret (Some results)
       else if run_error then throw AutoservError
       else ret None))))"

text \<open>\<open>if not os.path.exists(path): os.mkdir(path)\<close>, where the parent must be a directory.\<close>

definition make_dir :: "string \<Rightarrow> ('r procs, unit) exm" where
  "make_dir path = bnd (gets (\<lambda>w. (pr_dirs w, pr_files w))) (\<lambda>(dirs, files).
     when_do (path \<notin> set dirs \<and> path \<notin> set files)
       (if dirname path \<in> set dirs then modify (\<lambda>w. w\<lparr>pr_dirs := pr_dirs w @ [path]\<rparr>) else throw OSError))"

text \<open>
  The log directory of a subcommand and its subdirectory \<open>debug\<close>, made by \<open>__init__\<close>, with the directory the
  child changes into. An empty name is none, and the child stays in the directory of its parent.
\<close>

definition has_subdir :: "string option \<Rightarrow> bool" where
  "has_subdir subdir \<longleftrightarrow> subdir \<noteq> None \<and> subdir \<noteq> Some []"

definition work_dir :: "string \<Rightarrow> string option \<Rightarrow> string" where
  "work_dir cwd subdir = (if has_subdir subdir then normpath (path_join cwd (the subdir)) else cwd)"

definition make_log_dirs :: "string option \<Rightarrow> ('r procs, unit) exm" where
  "make_log_dirs subdir = when_do (has_subdir subdir)
     (bnd (gets (\<lambda>w. work_dir (pr_cwd w) subdir)) (\<lambda>dir.
      andthen (make_dir dir) (make_dir (path_join dir ''debug''))))"

text \<open>
  \<open>function\<close> is what the function does with an argument in a working directory: the time it takes and its result
  or \<open>Exception\<close>; \<open>fits\<close> says for which of these the pickle fits into a pipe. \<open>to_str\<close> is \<open>str\<close>.
\<close>

definition subcommand_init ::
  "(exn + 'r \<Rightarrow> bool) \<Rightarrow> (string \<Rightarrow> 'x \<Rightarrow> nat \<times> (exn + 'r)) \<Rightarrow> 'x \<Rightarrow> string option \<Rightarrow> ('r procs, unit) exm" where
  "subcommand_init fits function arg subdir = andthen (make_log_dirs subdir)
     (modify (\<lambda>w. w\<lparr>pr_tasks := pr_tasks w @ [new_subcommand
        (case function (work_dir (pr_cwd w) subdir) arg of (d, r) \<Rightarrow> child_of (fits r) d r)]\<rparr>))"

definition subdir_of :: "('x \<Rightarrow> string) \<Rightarrow> bool \<Rightarrow> 'x \<Rightarrow> string option" where
  "subdir_of to_str logged arg = (if logged then Some (to_str arg) else None)"

definition create_subcommands ::
  "(exn + 'r \<Rightarrow> bool) \<Rightarrow> ('x \<Rightarrow> string) \<Rightarrow> (string \<Rightarrow> 'x \<Rightarrow> nat \<times> (exn + 'r)) \<Rightarrow> 'x list \<Rightarrow> bool \<Rightarrow> ('r procs, nat list) exm" where
  "create_subcommands fits to_str function arglist logged = bnd (gets (\<lambda>w. length (pr_tasks w))) (\<lambda>n.
     andthen (for_each arglist (\<lambda>arg. subcommand_init fits function arg (subdir_of to_str logged arg)))
       (ret [n..<n + length arglist]))"

text \<open>With one argument the function runs in the process itself, in its own working directory.\<close>

definition parallel_simple ::
  "(exn + 'r \<Rightarrow> bool) \<Rightarrow> ('x \<Rightarrow> string) \<Rightarrow> (string \<Rightarrow> 'x \<Rightarrow> nat \<times> (exn + 'r)) \<Rightarrow> 'x list \<Rightarrow> bool \<Rightarrow> nat option \<Rightarrow> bool \<Rightarrow>
   ('r procs, (exn + 'r) list option) looping" where
  "parallel_simple fits to_str function arglist logged timeout return_results = (case arglist of
       [arg] \<Rightarrow> ends (bnd (gets (\<lambda>w. function (pr_cwd w) arg)) (\<lambda>(duration, result).
         andthen (sleep duration)
           (if return_results then ret (Some [result]) else bnd (lift_sum result) (\<lambda>_. ret None))))
     | _ \<Rightarrow> lbnd (ends (create_subcommands fits to_str function arglist logged)) (\<lambda>subcommands.
         parallel subcommands timeout return_results))"

section \<open>Laws\<close>

lemma ret_run: "ret x w = (Inr x, w)"
  by (simp add: ret_def)

lemma modify_run: "modify f w = (Inr (), f w)"
  by (simp add: modify_def)

lemma sc_task_run: "i < length (pr_tasks w) \<Longrightarrow> task i w = (Inr (pr_tasks w ! i), w)"
  by (simp add: task_def ret_def)

text \<open>The children of the tasks \<open>n, n + 1, ...\<close> were started at time \<open>t0\<close> with pids from \<open>p0\<close> on.\<close>

definition sc_forked :: "nat \<Rightarrow> nat \<Rightarrow> nat \<Rightarrow> 'r child list \<Rightarrow> nat \<Rightarrow> 'r procs \<Rightarrow> bool" where
  "sc_forked n p0 t0 cs k w \<longleftrightarrow> length (pr_tasks w) = n + length cs \<and>
     (\<forall>j. k \<le> j \<longrightarrow> j < length cs \<longrightarrow>
        pr_tasks w ! (n + j) = \<lparr>sc_child = cs ! j, sc_pid = Some (p0 + j), sc_returncode = None, sc_pipe = None\<rparr> \<and>
        map_of (pr_children w) (p0 + j) = Some ((cs ! j)\<lparr>ch_end := t0 + ch_end (cs ! j)\<rparr>))"

lemma fork_start_run:
  assumes "i < length (pr_tasks w)"
  shows "fork_start i w = (Inr (), w\<lparr>pr_next_pid := pr_next_pid w + 1,
      pr_children := (pr_next_pid w, (sc_child (pr_tasks w ! i))\<lparr>ch_end := pr_now w + ch_end (sc_child (pr_tasks w ! i))\<rparr>) # pr_children w,
      pr_tasks := (pr_tasks w)[i := (pr_tasks w ! i)\<lparr>sc_pid := Some (pr_next_pid w), sc_returncode := None, sc_pipe := None\<rparr>]\<rparr>)"
  using assms by (simp add: fork_start_def bnd_run [OF sc_task_run] set_task_def modify_run)

text \<open>Starting all of them.\<close>

lemma start_all:
  assumes "length (pr_tasks w) = n + length cs" "k \<le> length cs"
    and "\<forall>j. k \<le> j \<longrightarrow> j < length cs \<longrightarrow> pr_tasks w ! (n + j) = new_subcommand (cs ! j)"
    and "\<forall>j < k. pr_tasks w ! (n + j) = \<lparr>sc_child = cs ! j, sc_pid = Some (p0 + j), sc_returncode = None, sc_pipe = None\<rparr> \<and>
        map_of (pr_children w) (p0 + j) = Some ((cs ! j)\<lparr>ch_end := pr_now w + ch_end (cs ! j)\<rparr>)"
    and "pr_next_pid w = p0 + k"
  shows "\<exists>w'. for_each [n + k..<n + length cs] fork_start w = (Inr (), w') \<and> sc_forked n p0 (pr_now w) cs 0 w' \<and> pr_now w' = pr_now w"
  using assms
proof (induction "length cs - k" arbitrary: k w)
  case 0
  then have "k = length cs" by simp
  then show ?case using 0 by (intro exI [of _ w]) (simp add: ret_def sc_forked_def)
next
  case (Suc m)
  then have k: "k < length cs" by simp
  let ?i = "n + k" and ?c = "cs ! k"
  have i: "?i < length (pr_tasks w)" using Suc.prems(1) k by simp
  have t: "pr_tasks w ! ?i = new_subcommand ?c" using Suc.prems(3) k by simp
  let ?w = "w\<lparr>pr_next_pid := pr_next_pid w + 1,
      pr_children := (pr_next_pid w, ?c\<lparr>ch_end := pr_now w + ch_end ?c\<rparr>) # pr_children w,
      pr_tasks := (pr_tasks w)[?i := \<lparr>sc_child = ?c, sc_pid = Some (pr_next_pid w), sc_returncode = None, sc_pipe = None\<rparr>]\<rparr>"
  have run: "fork_start ?i w = (Inr (), ?w)" using fork_start_run [OF i] by (simp add: t new_subcommand_def)
  have "\<exists>w'. for_each [n + Suc k..<n + length cs] fork_start ?w = (Inr (), w') \<and> sc_forked n p0 (pr_now ?w) cs 0 w' \<and> pr_now w' = pr_now ?w"
  proof (rule Suc.hyps(1))
    show "m = length cs - Suc k" "Suc k \<le> length cs" "length (pr_tasks ?w) = n + length cs" "pr_next_pid ?w = p0 + Suc k"
      using Suc.hyps(2) Suc.prems(1,5) k by simp_all
    show "\<forall>j. Suc k \<le> j \<longrightarrow> j < length cs \<longrightarrow> pr_tasks ?w ! (n + j) = new_subcommand (cs ! j)"
      using Suc.prems(3) by simp
    show "\<forall>j < Suc k. pr_tasks ?w ! (n + j) = \<lparr>sc_child = cs ! j, sc_pid = Some (p0 + j), sc_returncode = None, sc_pipe = None\<rparr> \<and>
        map_of (pr_children ?w) (p0 + j) = Some ((cs ! j)\<lparr>ch_end := pr_now ?w + ch_end (cs ! j)\<rparr>)"
      using Suc.prems(4,5) i by (auto simp: less_Suc_eq)
  qed
  moreover have "[n + k..<n + length cs] = (n + k) # [n + Suc k..<n + length cs]" using k by (simp add: upt_conv_Cons)
  ultimately show ?case using run by (simp add: andthen_run)
qed

text \<open>Waiting for one of them and reading its pipe.\<close>

lemma forked_child:
  assumes "sc_forked n p0 t0 cs k w" "k < length cs"
  shows "n + k < length (pr_tasks w)"
    and "pr_tasks w ! (n + k) = \<lparr>sc_child = cs ! k, sc_pid = Some (p0 + k), sc_returncode = None, sc_pipe = None\<rparr>"
    and "map_of (pr_children w) (p0 + k) = Some ((cs ! k)\<lparr>ch_end := t0 + ch_end (cs ! k)\<rparr>)"
  using assms by (simp_all add: sc_forked_def)

lemma wait_blocked:
  assumes "sc_forked n p0 t0 cs k w" "k < length cs" "ch_blocked (cs ! k)"
  shows "wait_failed (n + k) None w = None"
proof -
  have "ends (task (n + k)) w = Some (Inr (pr_tasks w ! (n + k)), w)"
    using sc_task_run [OF forked_child(1) [OF assms(1,2)]] by simp
  then have "wait_sc (n + k) w = None"
    using forked_child [OF assms(1,2)] assms(3) by (simp add: wait_sc_def lbnd_def gets_def child_of_task_def)
  then show ?thesis by (simp add: wait_failed_def fork_waitfor_def lcatch_def lbnd_def)
qed

lemma wait_forked:
  assumes at: "sc_forked n p0 t0 cs k w" and k: "k < length cs" and pickle: "ch_pickle (cs ! k) = Some r" "\<not> ch_blocked (cs ! k)"
  shows "\<exists>w'. wait_failed (n + k) None w = Some (Inr (ch_status (cs ! k) \<noteq> 0), w') \<and> sc_forked n p0 t0 cs (Suc k) w' \<and>
    load_result (n + k) w' = (Inr r, w')"
proof -
  let ?i = "n + k" and ?c = "(cs ! k)\<lparr>ch_end := t0 + ch_end (cs ! k)\<rparr>"
  let ?t = "\<lparr>sc_child = cs ! k, sc_pid = Some (p0 + k), sc_returncode = None, sc_pipe = None\<rparr>"
  have i: "?i < length (pr_tasks w)" and t: "pr_tasks w ! ?i = ?t" and c: "map_of (pr_children w) (p0 + k) = Some ?c"
    using forked_child [OF at k] by simp_all
  let ?w = "w\<lparr>pr_now := max (pr_now w) (ch_end ?c), pr_children := filter (\<lambda>(q, _). q \<noteq> p0 + k) (pr_children w),
      pr_tasks := (pr_tasks w)[?i := ?t\<lparr>sc_pipe := Some r, sc_returncode := Some (ch_status (cs ! k))\<rparr>]\<rparr>"
  have reaped: "reap ?i (p0 + k) ?c (w\<lparr>pr_now := max (pr_now w) (ch_end ?c)\<rparr>) =
      (if ch_status (cs ! k) \<noteq> 0 then Inl SubcommandError else Inr (), ?w)"
    using i t pickle(1) by (simp add: reap_def handle_exitstatus_def set_task_def) (simp add: throw_def ret_def)
  have first: "task ?i w = (Inr ?t, w)" using sc_task_run [OF i] t by simp
  have after: "task ?i ?w = (Inr (pr_tasks ?w ! ?i), ?w)" using i by (intro sc_task_run) simp
  have "wait_sc ?i w = Some (if ch_status (cs ! k) \<noteq> 0 then (Inl SubcommandError, ?w) else (Inr (Some (ch_status (cs ! k))), ?w))"
  proof (cases "ch_status (cs ! k) = 0")
    case True
    with reaped have "reap ?i (p0 + k) ?c (w\<lparr>pr_now := max (pr_now w) (ch_end ?c)\<rparr>) = (Inr (), ?w)" by simp
    then show ?thesis using True i c pickle(2) first after
      by (simp add: wait_sc_def lbnd_def gets_def child_of_task_def andthen_run bnd_run ret_def)
  next
    case False
    with reaped have "reap ?i (p0 + k) ?c (w\<lparr>pr_now := max (pr_now w) (ch_end ?c)\<rparr>) = (Inl SubcommandError, ?w)" by simp
    then show ?thesis using False c pickle(2) first
      by (simp add: wait_sc_def lbnd_def gets_def child_of_task_def andthen_run andthen_run_err)
  qed
  then have "wait_failed ?i None w = Some (Inr (ch_status (cs ! k) \<noteq> 0), ?w)"
    by (auto simp: wait_failed_def fork_waitfor_def lcatch_def lbnd_def ret_def)
  moreover have "sc_forked n p0 t0 cs (Suc k) ?w"
  proof -
    have other: "map_of (filter (\<lambda>(q, _). q \<noteq> p) xs) q = map_of xs q" if "q \<noteq> p" for xs :: "(nat \<times> 'a child) list" and p q
      using that by (induction xs) auto
    show ?thesis using at other by (auto simp: sc_forked_def)
  qed
  moreover have "load_result ?i ?w = (Inr r, ?w)"
  proof -
    have gone: "map_of (filter (\<lambda>(q, _). q \<noteq> p) xs) p = None" for xs :: "(nat \<times> 'a child) list" and p
      by (induction xs) auto
    show ?thesis using i gone after by (simp add: load_result_def bnd_run child_of_task_def ret_def)
  qed
  ultimately show ?thesis by blast
qed

text \<open>The first blocked child stops the collection for good.\<close>

lemma collect_forked:
  assumes "list_all (\<lambda>c. ch_pickle c \<noteq> None) cs"
  shows "sc_forked n p0 t0 cs k w \<Longrightarrow> k \<le> length cs \<Longrightarrow>
    map_option fst (collect None [n + k..<n + length cs] e w) = (if list_ex ch_blocked (drop k cs) then None
      else Some (Inr (map (the \<circ> ch_pickle) (drop k cs), e \<or> list_ex (\<lambda>c. ch_status c \<noteq> 0) (drop k cs))))"
proof (induction "length cs - k" arbitrary: k w e)
  case 0
  then show ?case by (simp add: ret_def)
next
  case (Suc m)
  then have k: "k < length cs" by simp
  have cons: "[n + k..<n + length cs] = (n + k) # [n + Suc k..<n + length cs]" using k by (simp add: upt_conv_Cons)
  have drop: "drop k cs = cs ! k # drop (Suc k) cs" using k by (rule Cons_nth_drop_Suc [symmetric])
  obtain r where r: "ch_pickle (cs ! k) = Some r" using assms k by (force simp: list_all_length)
  show ?case
  proof (cases "ch_blocked (cs ! k)")
    case True
    then show ?thesis unfolding cons drop using wait_blocked [OF Suc.prems(1) k] by (simp add: lbnd_def gets_def)
  next
    case False
    from wait_forked [OF Suc.prems(1) k r False] obtain w1 where
      w1: "wait_failed (n + k) None w = Some (Inr (ch_status (cs ! k) \<noteq> 0), w1)" "sc_forked n p0 t0 cs (Suc k) w1"
        "load_result (n + k) w1 = (Inr r, w1)" by blast
    have "m = length cs - Suc k" "Suc k \<le> length cs" using Suc.hyps(2) k by simp_all
    note IH = Suc.hyps(1) [OF this(1) w1(2) this(2), of "e \<or> ch_status (cs ! k) \<noteq> 0"]
    have "map_option fst (collect None [n + k..<n + length cs] e w) =
        map_option (\<lambda>x. case fst x of Inl e \<Rightarrow> Inl e | Inr (results, run_error) \<Rightarrow> Inr (r # results, run_error))
          (collect None [n + Suc k..<n + length cs] (e \<or> ch_status (cs ! k) \<noteq> 0) w1)"
      unfolding cons using w1(1,3)
      by (simp add: lbnd_def gets_def) (simp add: ret_def split: option.split sum.split prod.split)
    also have "\<dots> = map_option (\<lambda>q. case q of Inl e \<Rightarrow> Inl e | Inr (results, run_error) \<Rightarrow> Inr (r # results, run_error))
        (map_option fst (collect None [n + Suc k..<n + length cs] (e \<or> ch_status (cs ! k) \<noteq> 0) w1))"
      by (simp add: option.map_comp comp_def)
    finally show ?thesis unfolding IH drop using False r by (simp add: disj_assoc)
  qed
qed

lemma parallel_forked:
  assumes "list_all (\<lambda>c. ch_pickle c \<noteq> None) cs"
    and "length (pr_tasks w) = n + length cs" "\<forall>j < length cs. pr_tasks w ! (n + j) = new_subcommand (cs ! j)"
  shows "map_option fst (parallel [n..<n + length cs] None return_results w) =
    (if list_ex ch_blocked cs then None
     else Some (if return_results then Inr (Some (map (the \<circ> ch_pickle) cs))
       else if list_ex (\<lambda>c. ch_status c \<noteq> 0) cs then Inl AutoservError else Inr None))"
proof -
  from start_all [of w n cs 0 "pr_next_pid w"] assms obtain w1 where
    w1: "for_each [n..<n + length cs] fork_start w = (Inr (), w1)" "sc_forked n (pr_next_pid w) (pr_now w) cs 0 w1" by auto
  from collect_forked [OF assms(1) w1(2), of False]
  have c: "map_option fst (collect None [n..<n + length cs] False w1) = (if list_ex ch_blocked cs then None
      else Some (Inr (map (the \<circ> ch_pickle) cs, list_ex (\<lambda>c. ch_status c \<noteq> 0) cs)))" by simp
  show ?thesis
  proof (cases "list_ex ch_blocked cs")
    case True
    then have "collect None [n..<n + length cs] False w1 = None" using c by simp
    then show ?thesis using w1(1) True by (simp add: parallel_def lbnd_def gets_def)
  next
    case False
    then obtain w2 where "collect None [n..<n + length cs] False w1 =
        Some (Inr (map (the \<circ> ch_pickle) cs, list_ex (\<lambda>c. ch_status c \<noteq> 0) cs), w2)" using c by auto
    then show ?thesis using w1(1) False by (simp add: parallel_def lbnd_def gets_def ret_def throw_def)
  qed
qed

text \<open>Creating the subcommands: the log directories do not depend on the tasks.\<close>

lemma make_dir_frame:
  "make_dir p (w\<lparr>pr_tasks := ts\<rparr>) = (case make_dir p w of (r, w') \<Rightarrow> (r, w'\<lparr>pr_tasks := ts\<rparr>))"
  "make_dir p w = (r, w') \<Longrightarrow> pr_tasks w' = pr_tasks w \<and> pr_cwd w' = pr_cwd w"
  by (auto simp: make_dir_def bnd_def gets_def when_do_def modify_def ret_def throw_def split: if_splits)

lemma make_log_dirs_frame:
  "make_log_dirs sd (w\<lparr>pr_tasks := ts\<rparr>) = (case make_log_dirs sd w of (r, w') \<Rightarrow> (r, w'\<lparr>pr_tasks := ts\<rparr>))"
  "make_log_dirs sd w = (r, w') \<Longrightarrow> pr_tasks w' = pr_tasks w \<and> pr_cwd w' = pr_cwd w"
  by (auto simp: make_log_dirs_def when_do_def andthen_def bnd_def gets_def ret_def make_dir_frame(1)
      dest!: make_dir_frame(2) split: prod.splits sum.splits if_splits)

lemma make_all_frame:
  "for_each args (\<lambda>a. make_log_dirs (sd a)) (w\<lparr>pr_tasks := ts\<rparr>) =
    (case for_each args (\<lambda>a. make_log_dirs (sd a)) w of (r, w') \<Rightarrow> (r, w'\<lparr>pr_tasks := ts\<rparr>))"
  by (induction args arbitrary: w)
    (auto simp: ret_def andthen_def bnd_def make_log_dirs_frame(1) split: prod.splits sum.splits)

text \<open>What a call is, in the directory it works in.\<close>

definition call_in :: "string \<Rightarrow> ('x \<Rightarrow> string) \<Rightarrow> bool \<Rightarrow> (string \<Rightarrow> 'x \<Rightarrow> nat \<times> (exn + 'r)) \<Rightarrow> 'x \<Rightarrow> exn + 'r" where
  "call_in cwd to_str logged function arg = snd (function (work_dir cwd (subdir_of to_str logged arg)) arg)"

abbreviation child_in :: "(exn + 'r \<Rightarrow> bool) \<Rightarrow> string \<Rightarrow> ('x \<Rightarrow> string) \<Rightarrow> bool \<Rightarrow> (string \<Rightarrow> 'x \<Rightarrow> nat \<times> (exn + 'r)) \<Rightarrow> 'x \<Rightarrow> 'r child" where
  "child_in fits cwd to_str logged function arg \<equiv>
     (case function (work_dir cwd (subdir_of to_str logged arg)) arg of (d, r) \<Rightarrow> child_of (fits r) d r)"

lemma create_all:
  "case for_each args (\<lambda>a. make_log_dirs (subdir_of to_str logged a)) w of
     (Inl e, w') \<Rightarrow> \<exists>ts. for_each args (\<lambda>a. subcommand_init fits f a (subdir_of to_str logged a)) w = (Inl e, w'\<lparr>pr_tasks := ts\<rparr>)
   | (Inr _, w') \<Rightarrow> for_each args (\<lambda>a. subcommand_init fits f a (subdir_of to_str logged a)) w =
       (Inr (), w'\<lparr>pr_tasks := pr_tasks w @ map (new_subcommand \<circ> child_in fits (pr_cwd w) to_str logged f) args\<rparr>)"
proof (induction args arbitrary: w)
  case Nil
  then show ?case by (simp add: ret_def)
next
  case (Cons a as)
  obtain q w1 where q: "make_log_dirs (subdir_of to_str logged a) w = (q, w1)" by (cases "make_log_dirs (subdir_of to_str logged a) w")
  note kept = make_log_dirs_frame(2) [OF q]
  show ?case
  proof (cases q)
    case (Inl e)
    then show ?thesis using q kept by (auto simp: subcommand_init_def andthen_run_err intro!: exI [of _ "pr_tasks w1"])
  next
    case (Inr u)
    let ?w1 = "w1\<lparr>pr_tasks := pr_tasks w1 @ [new_subcommand (child_in fits (pr_cwd w) to_str logged f a)]\<rparr>"
    have one: "subcommand_init fits f a (subdir_of to_str logged a) w = (Inr (), ?w1)"
      using q Inr kept by (simp add: subcommand_init_def andthen_run modify_run)
    obtain q2 w2 where q2: "for_each as (\<lambda>a. make_log_dirs (subdir_of to_str logged a)) w1 = (q2, w2)"
      by (cases "for_each as (\<lambda>a. make_log_dirs (subdir_of to_str logged a)) w1")
    have "for_each as (\<lambda>a. make_log_dirs (subdir_of to_str logged a)) ?w1 = (q2, w2\<lparr>pr_tasks := pr_tasks ?w1\<rparr>)"
      by (simp add: make_all_frame q2)
    with Cons.IH [of ?w1] show ?thesis using q Inr one kept q2 by (cases q2) (auto simp: andthen_run)
  qed
qed

text \<open>
  C23 (server/subcommand.py, \<open>parallel\<close> and \<open>parallel_simple\<close>). Without a timeout, and for more or fewer than one
  argument: when a log directory cannot be made no call is run and \<open>mkdir\<close>'s error comes out. Otherwise every
  call runs in its own directory. When the pickles of all results and exceptions fit into their pipes, they are
  returned in the order of the arguments, whichever ends first; or, when they are not asked for, an
  \<open>AutoservError\<close> is raised exactly when a call has raised. When one does not fit, \<open>parallel_simple\<close> never
  returns: it waits for a child that waits for a reader. With one argument the call runs in the process itself, in its
  own directory, and what it raises comes out.
\<close>

theorem parallel_simple_results:
  "map_option fst (parallel_simple fits to_str f args logged None return_results w) =
    (if length args = 1 then
       (case snd (f (pr_cwd w) (hd args)) of
          Inl e \<Rightarrow> Some (if return_results then Inr (Some [Inl e]) else Inl e)
        | Inr x \<Rightarrow> Some (Inr (if return_results then Some [Inr x] else None)))
     else (case fst (for_each args (\<lambda>a. make_log_dirs (subdir_of to_str logged a)) w) of
          Inl e \<Rightarrow> Some (Inl e)
        | Inr _ \<Rightarrow>
            let results = map (call_in (pr_cwd w) to_str logged f) args in
            if list_ex (\<lambda>r. \<not> fits r) results then None
            else if return_results then Some (Inr (Some results))
            else if list_ex (\<lambda>r. \<exists>e. r = Inl e) results then Some (Inl AutoservError)
            else Some (Inr None)))"
proof (cases "length args = 1")
  case True
  then obtain a where args: "args = [a]" by (cases args) auto
  obtain d r where "f (pr_cwd w) a = (d, r)" by (cases "f (pr_cwd w) a")
  then show ?thesis using args
    by (cases r) (simp_all add: parallel_simple_def sleep_def bnd_def gets_def lift_sum_def ret_def)
next
  case False
  let ?mk = "for_each args (\<lambda>a. make_log_dirs (subdir_of to_str logged a))"
  let ?cs = "map (child_in fits (pr_cwd w) to_str logged f) args" and ?n = "length (pr_tasks w)"
  have split: "parallel_simple fits to_str f args logged None return_results w =
      lbnd (ends (create_subcommands fits to_str f args logged)) (\<lambda>subcommands. parallel subcommands None return_results) w"
    using False by (auto simp: parallel_simple_def split: list.split)
  obtain q w1 where q: "?mk w = (q, w1)" by (cases "?mk w")
  note all = create_all [where args = args and to_str = to_str and logged = logged and w = w and fits = fits and f = f]
  show ?thesis
  proof (cases q)
    case (Inl e)
    then obtain ts where "create_subcommands fits to_str f args logged w = (Inl e, w1\<lparr>pr_tasks := ts\<rparr>)"
      using all q by (auto simp: create_subcommands_def andthen_run_err)
    then show ?thesis using False q Inl by (simp add: split lbnd_def)
  next
    case (Inr u)
    let ?w = "w1\<lparr>pr_tasks := pr_tasks w @ map new_subcommand ?cs\<rparr>"
    have "create_subcommands fits to_str f args logged w = (Inr [?n..<?n + length ?cs], ?w)"
      using all q Inr by (simp add: create_subcommands_def andthen_run ret_run)
    then have eq: "parallel_simple fits to_str f args logged None return_results w = parallel [?n..<?n + length ?cs] None return_results ?w"
      by (simp add: split lbnd_def)
    have one: "ch_pickle (child_in fits (pr_cwd w) to_str logged f a) = Some (call_in (pr_cwd w) to_str logged f a)"
      "ch_status (child_in fits (pr_cwd w) to_str logged f a) \<noteq> 0 \<longleftrightarrow> (\<exists>e. call_in (pr_cwd w) to_str logged f a = Inl e)"
      "ch_blocked (child_in fits (pr_cwd w) to_str logged f a) \<longleftrightarrow> \<not> fits (call_in (pr_cwd w) to_str logged f a)" for a
      by (auto simp: child_of_def call_in_def split: prod.split sum.split)
    have pickles: "list_all (\<lambda>c. ch_pickle c \<noteq> None) ?cs" by (simp add: list_all_iff one)
    have news: "\<forall>j < length ?cs. pr_tasks ?w ! (?n + j) = new_subcommand (?cs ! j)" by (simp add: nth_append)
    have "length (pr_tasks ?w) = ?n + length ?cs" by simp
    from parallel_forked [OF pickles this news] have
      "map_option fst (parallel [?n..<?n + length ?cs] None return_results ?w) = (if list_ex ch_blocked ?cs then None
        else Some (if return_results then Inr (Some (map (the \<circ> ch_pickle) ?cs))
          else if list_ex (\<lambda>c. ch_status c \<noteq> 0) ?cs then Inl AutoservError else Inr None))" .
    moreover have "map (the \<circ> ch_pickle) ?cs = map (call_in (pr_cwd w) to_str logged f) args" by (simp add: one)
    moreover have "list_ex ch_blocked ?cs = list_ex (\<lambda>r. \<not> fits r) (map (call_in (pr_cwd w) to_str logged f) args)"
      "list_ex (\<lambda>c. ch_status c \<noteq> 0) ?cs = list_ex (\<lambda>r. \<exists>e. r = Inl e) (map (call_in (pr_cwd w) to_str logged f) args)"
      by (simp_all add: list_ex_iff one)
    ultimately show ?thesis using False q Inr unfolding eq Let_def by simp
  qed
qed

text \<open>The first task of a \<open>parallel\<close> with a timeout that is too short.\<close>

lemma poll_running:
  assumes "i < length (pr_tasks w)" "pr_tasks w ! i = t" "sc_returncode t = None" "child_of_task t w = Some (p, c)"
    "\<not> child_ended (pr_now w) c"
  shows "poll_sc i w = (Inr None, w)"
  using assms by (simp add: poll_sc_def andthen_def bnd_def gets_def ret_def task_def)

lemma waitfor_times_out:
  assumes "i < length (pr_tasks w)" "pr_tasks w ! i = t" "sc_returncode t = None" "child_of_task t w = Some (p, c)"
    "ch_blocked c \<or> pr_now w + n + 1 < ch_end c"
  shows "\<exists>w'. waitfor_loop i n w = (Inr None, w') \<and> load_result i w' = (Inl EOFError, w')"
  using assms
proof (induction n arbitrary: w)
  case 0
  let ?w = "w\<lparr>pr_now := pr_now w + 1, pr_children := alist_put p \<lparr>ch_end = pr_now w + 1, ch_status = - 15, ch_pickle = None, ch_blocked = False\<rparr> (pr_children w)\<rparr>"
  have pid: "sc_pid t = Some p" "map_of (pr_children w) p = Some c"
    using 0(4) by (auto simp: child_of_task_def split: Option.bind_splits)
  have "poll_sc i w = (Inr None, w)" using 0(5) by (intro poll_running [OF 0(1-4)]) (auto simp: child_ended_def)
  moreover have "\<not> child_ended (pr_now w + 1) c" using 0(5) by (auto simp: child_ended_def)
  ultimately have "waitfor_loop i 0 w = (Inr None, ?w)"
    using 0 pid by (simp add: bnd_run sleep_def nuke_pid_def andthen_def bnd_def task_def gets_def modify_def ret_def child_of_task_def)
  moreover have "load_result i ?w = (Inl EOFError, ?w)"
    using 0(1,2) pid by (simp add: load_result_def bnd_def task_def gets_def ret_def child_of_task_def throw_def)
  ultimately show ?case by blast
next
  case (Suc n)
  let ?w = "w\<lparr>pr_now := pr_now w + 1\<rparr>"
  have "poll_sc i w = (Inr None, w)" using Suc.prems(5) by (intro poll_running [OF Suc.prems(1-4)]) (auto simp: child_ended_def)
  then have "waitfor_loop i (Suc n) w = waitfor_loop i n ?w" by (simp add: bnd_run sleep_def)
  moreover have "\<exists>w'. waitfor_loop i n ?w = (Inr None, w') \<and> load_result i w' = (Inl EOFError, w')"
    using Suc.prems by (intro Suc.IH) (simp_all add: child_of_task_def)
  ultimately show ?case by simp
qed



text \<open>Two machines of which the second has a directory for its log already, and one that cannot have any.\<close>

lemma parallel_simple_sample:
  "let f = (\<lambda>dir a. (if a = ''b'' then 9 else 2, if a = ''b'' then Inl AutoservError else Inr (dir @ ''!'')));
       w = \<lparr>pr_now = 0, pr_next_pid = 7, pr_children = [], pr_tasks = [], pr_cwd = ''/r'', pr_dirs = [''/r'', ''/r/b''],
         pr_files = []\<rparr>
   in map_option fst (parallel_simple (\<lambda>_. True) id f [''a'', ''b''] True None True w) =
        Some (Inr (Some [Inr ''/r/a!'', Inl AutoservError])) \<and>
      map_option fst (parallel_simple (\<lambda>r. r \<noteq> Inr ''/r/a!'') id f [''a'', ''b''] True None True w) = None \<and>
      map_option fst (parallel_simple (\<lambda>_. True) id f [''a'', ''x/y''] True None True w) = Some (Inl OSError)"
  by code_simp

end
