(* ===== verification/Drone_Utility.thy ===== *)
theory Drone_Utility
  imports Subcommand Drones "HOL-Library.While_Combinator"
begin

text \<open>
  What runs on the machine of a drone, scheduler/drone\_utility.py: the calls the scheduler sends are executed in
  order, file transfers in children of their own, of which at most \<open>max_transfer_processes\<close> run at a time.
\<close>

section \<open>The drone utility and its calls\<close>

text \<open>A \<open>DroneUtility\<close>; the subcommands are places in the list of tasks.\<close>

record 'r utility =
  ut_procs :: "'r procs"
  ut_subcommands :: "nat list"
  ut_warnings :: "string list"

definition on_procs :: "('r procs, 'a) exm \<Rightarrow> ('r utility, 'a) exm" where
  "on_procs = zoom ut_procs (\<lambda>w u. u\<lparr>ut_procs := w\<rparr>)"

definition on_procs_waiting :: "('r procs, 'a) looping \<Rightarrow> ('r utility, 'a) looping" where
  "on_procs_waiting m u = map_option (\<lambda>(r, w). (r, u\<lparr>ut_procs := w\<rparr>)) (m (ut_procs u))"

text \<open>A \<open>_MethodCall\<close>: the name of the method and what the bound method does.\<close>

record ('r, 'x) method_call =
  mc_method :: string
  mc_execute_on :: "('r utility, 'x) exm"

definition utility_warn :: "string \<Rightarrow> ('r utility, unit) exm" where
  "utility_warn msg = modify (\<lambda>u. u\<lparr>ut_warnings := ut_warnings u @ [msg]\<rparr>)"

text \<open>The child is what the function does with the arguments.\<close>

definition run_async_command :: "'r child \<Rightarrow> ('r utility, unit) exm" where
  "run_async_command c = bnd (gets (\<lambda>u. length (pr_tasks (ut_procs u)))) (\<lambda>i.
     andthen (modify (\<lambda>u. u\<lparr>ut_procs := (ut_procs u)\<lparr>pr_tasks := pr_tasks (ut_procs u) @ [new_subcommand c]\<rparr>,
         ut_subcommands := ut_subcommands u @ [i]\<rparr>))
       (on_procs (fork_start i)))"

text \<open>
  \<open>sync_send_file_to\<close> and \<open>_sync_get_file_from\<close>, with what each operation on the host and on the files does. A
  transfer that fails is kept in a file when it can fail.
\<close>

definition is_autoserv_error :: "exn \<Rightarrow> bool" where
  "is_autoserv_error e \<longleftrightarrow> e = AutoservError \<or> e = SubcommandError"

definition sync_send_file_to :: "exn + unit \<Rightarrow> exn + unit \<Rightarrow> exn + unit \<Rightarrow> bool \<Rightarrow> exn + unit" where
  "sync_send_file_to mkdir send write_failed_file can_fail = (case sbind mkdir (\<lambda>_. send) of
       Inr _ \<Rightarrow> Inr ()
     | Inl e \<Rightarrow> if \<not> is_autoserv_error e then Inl e
         else if \<not> can_fail then Inl e
         else write_failed_file)"

definition sync_get_file_from :: "exn + unit \<Rightarrow> exn + unit \<Rightarrow> exn + unit" where
  "sync_get_file_from ensure_directory get = sbind ensure_directory (\<lambda>_. get)"

text \<open>\<open>fits\<close> says that the pickle of the outcome, \<open>None\<close> or an exception, fits into the pipe.\<close>

definition utility_send_file_to :: "bool \<Rightarrow> nat \<Rightarrow> exn + unit \<Rightarrow> exn + unit \<Rightarrow> exn + unit \<Rightarrow> bool \<Rightarrow> (unit utility, unit) exm" where
  "utility_send_file_to fits duration mkdir send write_failed_file can_fail =
     run_async_command (child_of fits duration (sync_send_file_to mkdir send write_failed_file can_fail))"

definition utility_get_file_from :: "bool \<Rightarrow> nat \<Rightarrow> exn + unit \<Rightarrow> exn + unit \<Rightarrow> (unit utility, unit) exm" where
  "utility_get_file_from fits duration ensure_directory get =
     run_async_command (child_of fits duration (sync_get_file_from ensure_directory get))"

section \<open>Waiting for the transfers\<close>

definition wait_for_command :: "nat \<Rightarrow> ('r utility, unit) looping" where
  "wait_for_command i = lbnd (on_procs_waiting (fork_waitfor i None)) (\<lambda>_. ends (ret ()))"

definition wait_for_all_async_commands :: "('r utility, unit) looping" where
  "wait_for_all_async_commands = lbnd (ends (gets ut_subcommands)) (\<lambda>subprocs.
     lbnd (lfor_each subprocs wait_for_command) (\<lambda>_.
     ends (modify (\<lambda>u. u\<lparr>ut_subcommands := []\<rparr>))))"

primrec still_running :: "nat list \<Rightarrow> ('r procs, nat list) exm" where
  "still_running [] = ret []"
| "still_running (i # is) = bnd (poll_sc i) (\<lambda>r.
     bnd (still_running is) (\<lambda>rest. ret (if r = None then i # rest else rest)))"

definition poll_async_commands :: "('r utility, unit) exm" where
  "poll_async_commands = bnd (gets ut_subcommands) (\<lambda>subprocs.
     bnd (on_procs (still_running subprocs)) (\<lambda>running. modify (\<lambda>u. u\<lparr>ut_subcommands := running\<rparr>)))"

text \<open>The loop ends when there is room for a transfer or a child has failed; \<open>None\<close> when it never ends.\<close>

definition wait_for_some_async_commands :: "nat \<Rightarrow> ('r utility, unit) looping" where
  "wait_for_some_async_commands max_processes u = while_option
     (\<lambda>(r, u). r = Inr () \<and> max_processes \<le> length (ut_subcommands u))
     (\<lambda>(r, u). andthen (on_procs (sleep 1)) poll_async_commands u)
     (poll_async_commands u)"

section \<open>Executing the calls\<close>

primrec run_calls :: "nat \<Rightarrow> ('r, 'x) method_call list \<Rightarrow> ('r utility, 'x list) looping" where
  "run_calls max_processes [] = ends (ret [])"
| "run_calls max_processes (c # cs) = lbnd (ends (mc_execute_on c)) (\<lambda>result.
     lbnd (\<lambda>u. if max_processes \<le> length (ut_subcommands u) then wait_for_some_async_commands max_processes u
             else ends (ret ()) u) (\<lambda>_.
     lbnd (run_calls max_processes cs) (\<lambda>results. ends (ret (result # results)))))"

definition WARNING_DURATION :: nat where
  "WARNING_DURATION = 60"

text \<open>
  \<open>_report_long_execution\<close>: how many calls of each method there were. The order of the summary is the one of a
  dict, so its text is a function \<open>summary\<close> of the dict.
\<close>

definition call_count :: "('r, 'x) method_call list \<Rightarrow> string \<rightharpoonup> nat" where
  "call_count calls = foldl (\<lambda>counts c.
     let counts = (if counts (mc_method c) = None then counts(mc_method c \<mapsto> 0) else counts)
     in counts(mc_method c \<mapsto> the (counts (mc_method c)) + 1)) Map.empty calls"

definition report_long_execution :: "(nat \<Rightarrow> (string \<rightharpoonup> nat) \<Rightarrow> string) \<Rightarrow> ('r, 'x) method_call list \<Rightarrow> nat \<Rightarrow> ('r utility, unit) exm" where
  "report_long_execution summary calls duration = utility_warn (summary duration (call_count calls))"

definition execute_method_calls ::
  "(nat \<Rightarrow> (string \<rightharpoonup> nat) \<Rightarrow> string) \<Rightarrow> nat \<Rightarrow> ('r, 'x) method_call list \<Rightarrow> ('r utility, 'x list \<times> string list) looping" where
  "execute_method_calls summary max_processes calls u =
     (let start_time = pr_now (ut_procs u) in
      lbnd (run_calls max_processes calls) (\<lambda>results.
      lbnd wait_for_all_async_commands (\<lambda>_.
      ends (bnd (gets (\<lambda>u. pr_now (ut_procs u) - start_time)) (\<lambda>duration.
         andthen (when_do (WARNING_DURATION < duration) (report_long_execution summary calls duration))
           (bnd (gets ut_warnings) (\<lambda>warnings.
            andthen (modify (\<lambda>u. u\<lparr>ut_warnings := []\<rparr>)) (ret (results, warnings)))))))) u)"

section \<open>Reading pidfiles and processes\<close>

text \<open>\<open>read\<close> is what the files hold: nothing for no file, an error for one that cannot be read.\<close>

definition read_pidfiles :: "(string \<Rightarrow> (exn + string) option) \<Rightarrow> string list \<Rightarrow> string \<rightharpoonup> string" where
  "read_pidfiles read pidfile_paths = foldl (\<lambda>pidfiles path. case read path of
       Some (Inr contents) \<Rightarrow> pidfiles(path \<mapsto> contents)
     | _ \<Rightarrow> pidfiles) Map.empty pidfile_paths"

text \<open>\<open>marked\<close> is \<open>_check_pid_for_dark_mark\<close> and \<open>no_mark\<close> the text of the warning.\<close>

fun refresh_processes ::
  "(string \<Rightarrow> bool) \<Rightarrow> (proc_info \<Rightarrow> string) \<Rightarrow> bool \<Rightarrow> (proc_info \<Rightarrow> bool) \<Rightarrow> string list \<Rightarrow> proc_info list \<Rightarrow> ('r utility, proc_info list) exm" where
  "refresh_processes marked no_mark check_mark site_check_parse command_name [] = ret []"
| "refresh_processes marked no_mark check_mark site_check_parse command_name (info # infos) =
     (if ps_comm info \<in> set command_name \<or> site_check_parse info then
        (if check_mark \<and> \<not> marked (ps_pid info)
         then andthen (utility_warn (no_mark info)) (refresh_processes marked no_mark check_mark site_check_parse command_name infos)
         else bnd (refresh_processes marked no_mark check_mark site_check_parse command_name infos) (\<lambda>processes. ret (info # processes)))
      else refresh_processes marked no_mark check_mark site_check_parse command_name infos)"

section \<open>Laws\<close>

text \<open>A child that was not waited for and is not blocked, with its task \<open>i\<close> and its pid \<open>p\<close>.\<close>

definition unreaped :: "'r procs \<Rightarrow> nat \<Rightarrow> nat \<Rightarrow> 'r child \<Rightarrow> bool" where
  "unreaped w i p c \<longleftrightarrow> i < length (pr_tasks w) \<and> sc_pid (pr_tasks w ! i) = Some p \<and> sc_returncode (pr_tasks w ! i) = None \<and>
     map_of (pr_children w) p = Some c \<and> \<not> ch_blocked c"

text \<open>Only the child \<open>p\<close> and its task change.\<close>

definition others_kept :: "nat set \<Rightarrow> 'r procs \<Rightarrow> 'r procs \<Rightarrow> bool" where
  "others_kept ps w w' \<longleftrightarrow> (\<forall>j q d. q \<notin> ps \<longrightarrow> unreaped w j q d \<longrightarrow> unreaped w' j q d) \<and> pr_next_pid w' = pr_next_pid w"

lemma others_kept_refl: "others_kept {} w w"
  by (simp add: others_kept_def)

lemma others_kept_trans: "others_kept ps w w1 \<Longrightarrow> others_kept qs w1 w2 \<Longrightarrow> others_kept (ps \<union> qs) w w2"
  by (simp add: others_kept_def)

lemma map_of_removed: "map_of (filter (\<lambda>(q, _). q \<noteq> p) xs) q = (if q = p then None else map_of xs q)"
  by (induction xs) auto

lemma reap_unreaped:
  assumes "unreaped w i p c"
  shows "\<exists>w'. reap i p c w = (if ch_status c \<noteq> 0 then Inl SubcommandError else Inr (), w') \<and> others_kept {p} w w' \<and>
    pr_now w' = pr_now w \<and> i < length (pr_tasks w') \<and> sc_returncode (pr_tasks w' ! i) = Some (ch_status c)"
proof -
  have i: "i < length (pr_tasks w)" and p: "sc_pid (pr_tasks w ! i) = Some p" using assms by (simp_all add: unreaped_def)
  let ?w = "w\<lparr>pr_children := filter (\<lambda>(q, _). q \<noteq> p) (pr_children w),
      pr_tasks := (pr_tasks w)[i := (pr_tasks w ! i)\<lparr>sc_pipe := ch_pickle c, sc_returncode := Some (ch_status c)\<rparr>]\<rparr>"
  have "reap i p c w = (if ch_status c \<noteq> 0 then Inl SubcommandError else Inr (), ?w)"
    using i by (simp add: reap_def handle_exitstatus_def set_task_def) (simp add: throw_def ret_def)
  moreover have "others_kept {p} w ?w"
    using i p by (auto simp: others_kept_def unreaped_def map_of_removed nth_list_update)
  ultimately show ?thesis using i by (intro exI [of _ ?w]) simp
qed

lemma poll_ended:
  assumes at: "unreaped w i p c" and "ch_end c \<le> pr_now w"
  shows "\<exists>w'. poll_sc i w = (if ch_status c \<noteq> 0 then Inl SubcommandError else Inr (Some 0), w') \<and> others_kept {p} w w' \<and> pr_now w' = pr_now w"
proof -
  from reap_unreaped [OF at] obtain w' where
    w': "reap i p c w = (if ch_status c \<noteq> 0 then Inl SubcommandError else Inr (), w')" "others_kept {p} w w'" "pr_now w' = pr_now w"
      "i < length (pr_tasks w')" "sc_returncode (pr_tasks w' ! i) = Some (ch_status c)" by blast
  have i: "i < length (pr_tasks w)" "sc_returncode (pr_tasks w ! i) = None" "child_of_task (pr_tasks w ! i) w = Some (p, c)"
    using at by (simp_all add: unreaped_def child_of_task_def)
  have "poll_sc i w = (if ch_status c \<noteq> 0 then Inl SubcommandError else Inr (Some 0), w')"
    using i assms(2) w'(1,4,5) at by (cases "ch_status c = 0")
      (simp_all add: poll_sc_def bnd_run sc_task_run andthen_run andthen_run_err ret_def child_ended_def unreaped_def)
  with w' show ?thesis by blast
qed

lemma poll_not_ended:
  assumes "unreaped w i p c" "pr_now w < ch_end c"
  shows "poll_sc i w = (Inr None, w)"
  using assms by (intro poll_running [OF _ refl]) (auto simp: unreaped_def child_of_task_def child_ended_def)

lemma wait_child:
  assumes at: "unreaped w i p c"
  shows "\<exists>w'. fork_waitfor i None w = Some (if ch_status c \<noteq> 0 then Inl SubcommandError else Inr (Some 0), w') \<and> others_kept {p} w w'"
proof -
  let ?w = "w\<lparr>pr_now := max (pr_now w) (ch_end c)\<rparr>"
  have "unreaped ?w i p c" using at by (simp add: unreaped_def)
  from reap_unreaped [OF this] obtain w' where
    w': "reap i p c ?w = (if ch_status c \<noteq> 0 then Inl SubcommandError else Inr (), w')" "others_kept {p} ?w w'"
      "i < length (pr_tasks w')" "sc_returncode (pr_tasks w' ! i) = Some (ch_status c)" by blast
  have i: "i < length (pr_tasks w)" "sc_returncode (pr_tasks w ! i) = None" "child_of_task (pr_tasks w ! i) w = Some (p, c)"
    using at by (simp_all add: unreaped_def child_of_task_def)
  have first: "task i w = (Inr (pr_tasks w ! i), w)" "task i w' = (Inr (pr_tasks w' ! i), w')"
    using i(1) w'(3) by (simp_all add: sc_task_run)
  have "\<not> ch_blocked c" using at by (simp add: unreaped_def)
  then have "fork_waitfor i None w = Some (if ch_status c \<noteq> 0 then Inl SubcommandError else Inr (Some 0), w')"
    using i(2,3) first w'(1,4) by (cases "ch_status c = 0")
      (simp_all add: fork_waitfor_def wait_sc_def lbnd_def gets_def bnd_run andthen_run andthen_run_err ret_def)
  moreover have "unreaped ?w j q d \<longleftrightarrow> unreaped w j q d" for j q d by (simp add: unreaped_def)
  then have "others_kept {p} w w'" using w'(2) by (simp add: others_kept_def)
  ultimately show ?thesis by blast
qed

text \<open>The queue of the running transfers: tasks, pids and children.\<close>

type_synonym 'r transfers = "(nat \<times> nat \<times> 'r child) list"

definition queued :: "'r transfers \<Rightarrow> 'r procs \<Rightarrow> bool" where
  "queued qs w \<longleftrightarrow> distinct (map (\<lambda>(i, p, c). p) qs) \<and> (\<forall>(i, p, c) \<in> set qs. unreaped w i p c \<and> p < pr_next_pid w)"

definition failing :: "'r transfers \<Rightarrow> bool" where
  "failing qs \<longleftrightarrow> (\<exists>(i, p, c) \<in> set qs. ch_status c \<noteq> 0)"

abbreviation pids :: "'r transfers \<Rightarrow> nat set" where
  "pids qs \<equiv> (\<lambda>(i, p, c). p) ` set qs"

abbreviation unfinished :: "nat \<Rightarrow> 'r transfers \<Rightarrow> 'r transfers" where
  "unfinished now \<equiv> filter (\<lambda>(i, p, c). now < ch_end c)"

lemma queued_Cons: "queued ((i, p, c) # qs) w \<longleftrightarrow> unreaped w i p c \<and> p < pr_next_pid w \<and> p \<notin> pids qs \<and> queued qs w"
  by (auto simp: queued_def)

lemma queued_kept: "queued qs w \<Longrightarrow> others_kept ps w w' \<Longrightarrow> ps \<inter> pids qs = {} \<Longrightarrow> queued qs w'"
  by (fastforce simp: queued_def others_kept_def)

lemma pids_unfinished: "pids (unfinished now qs) \<subseteq> pids qs"
  by (rule image_mono) simp

lemma still_running_run:
  "queued qs w \<Longrightarrow>
   (failing qs \<and> (\<exists>w'. still_running (map fst qs) w = (Inl SubcommandError, w'))) \<or>
   (\<exists>w'. still_running (map fst qs) w = (Inr (map fst (unfinished (pr_now w) qs)), w') \<and> queued (unfinished (pr_now w) qs) w' \<and>
      others_kept (pids qs) w w' \<and> pr_now w' = pr_now w \<and> (failing (unfinished (pr_now w) qs) \<longleftrightarrow> failing qs))"
proof (induction qs arbitrary: w)
  case Nil
  then show ?case by (simp add: ret_def others_kept_refl)
next
  case (Cons q qs)
  obtain i p c where q: "q = (i, p, c)" by (cases q)
  from Cons.prems have at: "unreaped w i p c" and p: "p < pr_next_pid w" and new: "p \<notin> pids qs" and qs: "queued qs w"
    unfolding q queued_Cons by simp_all
  show ?case
  proof (cases "ch_end c \<le> pr_now w")
    case True
    from poll_ended [OF at True] obtain w1 where
      w1: "poll_sc i w = (if ch_status c \<noteq> 0 then Inl SubcommandError else Inr (Some 0), w1)" "others_kept {p} w w1" "pr_now w1 = pr_now w"
      by blast
    show ?thesis
    proof (cases "ch_status c = 0")
      case False
      then show ?thesis using w1(1) by (simp add: q failing_def bnd_run_err)
    next
      case ok: True
      have qs1: "queued qs w1" using queued_kept [OF qs w1(2)] new by simp
      have fail: "failing (q # qs) \<longleftrightarrow> failing qs" by (simp add: failing_def q ok)
      from Cons.IH [OF qs1] show ?thesis
      proof
        assume "failing qs \<and> (\<exists>w'. still_running (map fst qs) w1 = (Inl SubcommandError, w'))"
        then show ?thesis using w1(1) ok fail by (auto simp: q bnd_run bnd_run_err)
      next
        assume "\<exists>w'. still_running (map fst qs) w1 = (Inr (map fst (unfinished (pr_now w1) qs)), w') \<and>
          queued (unfinished (pr_now w1) qs) w' \<and> others_kept (pids qs) w1 w' \<and> pr_now w' = pr_now w1 \<and>
          (failing (unfinished (pr_now w1) qs) \<longleftrightarrow> failing qs)"
        then obtain w2 where w2: "still_running (map fst qs) w1 = (Inr (map fst (unfinished (pr_now w) qs)), w2)"
            "queued (unfinished (pr_now w) qs) w2" "others_kept (pids qs) w1 w2" "pr_now w2 = pr_now w"
            "failing (unfinished (pr_now w) qs) \<longleftrightarrow> failing qs" unfolding w1(3) by blast
        have "others_kept (pids (q # qs)) w w2" using others_kept_trans [OF w1(2) w2(3)] by (simp add: q)
        then show ?thesis using w1(1) w2 ok True fail by (simp add: q bnd_run ret_def)
      qed
    qed
  next
    case False
    then have run: "poll_sc i w = (Inr None, w)" using poll_not_ended [OF at] by simp
    from Cons.IH [OF qs] show ?thesis
    proof
      assume "failing qs \<and> (\<exists>w'. still_running (map fst qs) w = (Inl SubcommandError, w'))"
      then show ?thesis using run by (auto simp: q bnd_run bnd_run_err failing_def)
    next
      assume "\<exists>w'. still_running (map fst qs) w = (Inr (map fst (unfinished (pr_now w) qs)), w') \<and>
        queued (unfinished (pr_now w) qs) w' \<and> others_kept (pids qs) w w' \<and> pr_now w' = pr_now w \<and>
        (failing (unfinished (pr_now w) qs) \<longleftrightarrow> failing qs)"
      then obtain w2 where w2: "still_running (map fst qs) w = (Inr (map fst (unfinished (pr_now w) qs)), w2)"
          "queued (unfinished (pr_now w) qs) w2" "others_kept (pids qs) w w2" "pr_now w2 = pr_now w"
          "failing (unfinished (pr_now w) qs) \<longleftrightarrow> failing qs" by blast
      have "unreaped w2 i p c" "p < pr_next_pid w2" using w2(3) at p new by (auto simp: others_kept_def)
      then have "queued (q # unfinished (pr_now w) qs) w2"
        using w2(2) new pids_unfinished [of "pr_now w" qs] unfolding q queued_Cons by blast
      moreover have "others_kept (pids (q # qs)) w w2" using w2(3) by (simp add: others_kept_def)
      moreover have "failing (q # unfinished (pr_now w) qs) \<longleftrightarrow> failing (q # qs)" using w2(5) by (simp add: failing_def)
      ultimately show ?thesis using run w2 False by (simp add: q bnd_run ret_def)
    qed
  qed
qed

text \<open>The utility with the transfers \<open>qs\<close> running.\<close>

definition transferring :: "'r transfers \<Rightarrow> 'r utility \<Rightarrow> bool" where
  "transferring qs u \<longleftrightarrow> ut_subcommands u = map fst qs \<and> queued qs (ut_procs u)"

lemma on_procs_run: "m (ut_procs u) = (r, w) \<Longrightarrow> on_procs m u = (r, u\<lparr>ut_procs := w\<rparr>)"
  by (simp add: on_procs_def zoom_def)

lemma on_procs_waiting_run: "m (ut_procs u) = Some (r, w) \<Longrightarrow> on_procs_waiting m u = Some (r, u\<lparr>ut_procs := w\<rparr>)"
  by (simp add: on_procs_waiting_def)

lemma on_procs_sleep: "on_procs (sleep n) u = (Inr (), u\<lparr>ut_procs := (ut_procs u)\<lparr>pr_now := pr_now (ut_procs u) + n\<rparr>\<rparr>)"
  by (simp add: on_procs_def zoom_def sleep_def modify_run)

text \<open>A poll either meets a failed transfer or drops the ended ones, none of which has failed.\<close>

lemma poll_async_run:
  assumes "transferring qs u"
  shows "(failing qs \<and> (\<exists>u'. poll_async_commands u = (Inl SubcommandError, u'))) \<or>
    (\<exists>u'. poll_async_commands u = (Inr (), u') \<and> transferring (unfinished (pr_now (ut_procs u)) qs) u' \<and>
       pr_now (ut_procs u') = pr_now (ut_procs u) \<and> ut_warnings u' = ut_warnings u \<and>
       (failing (unfinished (pr_now (ut_procs u)) qs) \<longleftrightarrow> failing qs))"
proof -
  have subs: "ut_subcommands u = map fst qs" and q: "queued qs (ut_procs u)" using assms by (simp_all add: transferring_def)
  from still_running_run [OF q] show ?thesis
  proof
    assume "failing qs \<and> (\<exists>w'. still_running (map fst qs) (ut_procs u) = (Inl SubcommandError, w'))"
    then obtain w' where "failing qs" "still_running (map fst qs) (ut_procs u) = (Inl SubcommandError, w')" by blast
    with on_procs_run [of "still_running (map fst qs)", OF this(2)] show ?thesis by (simp add: poll_async_commands_def subs bnd_run_err)
  next
    let ?qs = "unfinished (pr_now (ut_procs u)) qs"
    assume "\<exists>w'. still_running (map fst qs) (ut_procs u) = (Inr (map fst ?qs), w') \<and> queued ?qs w' \<and>
      others_kept (pids qs) (ut_procs u) w' \<and> pr_now w' = pr_now (ut_procs u) \<and> (failing ?qs \<longleftrightarrow> failing qs)"
    then obtain w' where w': "still_running (map fst qs) (ut_procs u) = (Inr (map fst ?qs), w')" "queued ?qs w'"
      "pr_now w' = pr_now (ut_procs u)" "failing ?qs \<longleftrightarrow> failing qs" by blast
    have "poll_async_commands u = (Inr (), u\<lparr>ut_procs := w', ut_subcommands := map fst ?qs\<rparr>)"
      using on_procs_run [of "still_running (map fst qs)", OF w'(1)] by (simp add: poll_async_commands_def subs bnd_run modify_run)
    then show ?thesis using w' by (simp add: transferring_def)
  qed
qed

text \<open>A state of the loop of \<open>_wait_for_some_async_commands\<close>.\<close>

definition loop_state :: "bool \<Rightarrow> string list \<Rightarrow> (exn + unit) \<times> 'r utility \<Rightarrow> bool" where
  "loop_state fails warnings = (\<lambda>(r, u). (r = Inl SubcommandError \<and> fails) \<or>
     (r = Inr () \<and> ut_warnings u = warnings \<and> (\<exists>qs. transferring qs u \<and> (failing qs \<longleftrightarrow> fails) \<and>
        (\<forall>(i, p, c) \<in> set qs. pr_now (ut_procs u) < ch_end c))))"

lemma loop_state_poll:
  assumes "transferring qs u"
  shows "loop_state (failing qs) (ut_warnings u) (poll_async_commands u)"
  using poll_async_run [OF assms] unfolding loop_state_def by (elim disjE exE conjE) (simp, fastforce)

text \<open>The time that the transfers still need.\<close>

definition time_left :: "(exn + unit) \<times> 'r utility \<Rightarrow> nat" where
  "time_left = (\<lambda>(r, u). case r of Inl _ \<Rightarrow> 0
     | Inr _ \<Rightarrow> 1 + (\<Sum>i \<leftarrow> ut_subcommands u. ch_end (snd (the (child_of_task (pr_tasks (ut_procs u) ! i) (ut_procs u)))) - pr_now (ut_procs u)))"

lemma time_left_transferring:
  assumes "transferring qs u"
  shows "time_left (Inr (), u) = 1 + (\<Sum>(i, p, c) \<leftarrow> qs. ch_end c - pr_now (ut_procs u))"
proof -
  let ?w = "ut_procs u"
  have "child_of_task (pr_tasks ?w ! i) ?w = Some (p, c)" if "(i, p, c) \<in> set qs" for i p c
    using assms that by (auto simp: transferring_def queued_def unreaped_def child_of_task_def)
  then have "map (\<lambda>i. ch_end (snd (the (child_of_task (pr_tasks ?w ! i) ?w))) - pr_now ?w) (map fst qs) =
      map (\<lambda>(i, p, c). ch_end c - pr_now ?w) qs"
    by (auto simp: comp_def)
  then show ?thesis using assms by (simp add: time_left_def transferring_def del: map_map)
qed

lemma sum_list_less:
  fixes f g :: "'a \<Rightarrow> nat"
  assumes "xs \<noteq> []" "\<And>x. x \<in> set xs \<Longrightarrow> f x < g x"
  shows "sum_list (map f xs) < sum_list (map g xs)"
  using assms by (induction xs rule: list_nonempty_induct) (simp_all add: add_less_mono)

lemma sum_list_filter_le:
  fixes f :: "'a \<Rightarrow> nat"
  shows "sum_list (map f (filter P xs)) \<le> sum_list (map f xs)"
  by (induction xs) auto

lemma loop_step:
  assumes inv: "loop_state fails ws (r, u)" and go: "r = Inr ()" "0 < length (ut_subcommands u)"
  defines "after \<equiv> andthen (on_procs (sleep 1)) poll_async_commands u"
  shows "loop_state fails ws after \<and> time_left after < time_left (r, u)"
proof -
  let ?u = "u\<lparr>ut_procs := (ut_procs u)\<lparr>pr_now := pr_now (ut_procs u) + 1\<rparr>\<rparr>"
  from inv go obtain qs where qs: "transferring qs u" "failing qs \<longleftrightarrow> fails" "ut_warnings u = ws"
    "\<forall>(i, p, c) \<in> set qs. pr_now (ut_procs u) < ch_end c"
    unfolding loop_state_def by auto
  have after: "after = poll_async_commands ?u"
    unfolding after_def by (simp add: on_procs_sleep andthen_run)
  have t: "transferring qs ?u" using qs(1) by (auto simp: transferring_def queued_def unreaped_def)
  have "loop_state fails ws after" using loop_state_poll [OF t] qs(2,3) after by simp
  moreover have "time_left after < time_left (r, u)"
    using poll_async_run [OF t]
  proof
    assume "failing qs \<and> (\<exists>u'. poll_async_commands ?u = (Inl SubcommandError, u'))"
    then show ?thesis unfolding after using time_left_transferring [OF qs(1)] go(1) by (auto simp: time_left_def)
  next
    assume "\<exists>u'. poll_async_commands ?u = (Inr (), u') \<and> transferring (unfinished (pr_now (ut_procs ?u)) qs) u' \<and>
       pr_now (ut_procs u') = pr_now (ut_procs ?u) \<and> ut_warnings u' = ut_warnings ?u \<and>
       (failing (unfinished (pr_now (ut_procs ?u)) qs) \<longleftrightarrow> failing qs)"
    then obtain u' where u': "poll_async_commands ?u = (Inr (), u')" "transferring (unfinished (pr_now (ut_procs ?u)) qs) u'"
      "pr_now (ut_procs u') = pr_now (ut_procs u) + 1" by auto
    have "(\<Sum>(i, p, c) \<leftarrow> unfinished (pr_now (ut_procs ?u)) qs. ch_end c - pr_now (ut_procs u')) \<le> (\<Sum>(i, p, c) \<leftarrow> qs. ch_end c - pr_now (ut_procs u'))"
      by (rule sum_list_filter_le)
    also have "\<dots> < (\<Sum>(i, p, c) \<leftarrow> qs. ch_end c - pr_now (ut_procs u))"
      using qs(1,4) go(2) u'(3) by (intro sum_list_less) (auto simp: transferring_def)
    finally show ?thesis unfolding after u'(1) go(1) time_left_transferring [OF u'(2)] time_left_transferring [OF qs(1)] by simp
  qed
  ultimately show ?thesis by simp
qed

text \<open>With room for at least one transfer the loop ends.\<close>

lemma wait_for_some_ends:
  assumes t: "transferring qs u" and "0 < max_processes"
  shows "\<exists>x. wait_for_some_async_commands max_processes u = Some x \<and> loop_state (failing qs) (ut_warnings u) x \<and>
    (fst x = Inr () \<longrightarrow> length (ut_subcommands (snd x)) < max_processes)"
proof -
  let ?b = "\<lambda>(r, u). r = Inr () \<and> max_processes \<le> length (ut_subcommands u)"
  let ?c = "\<lambda>(r :: exn + unit, u). andthen (on_procs (sleep 1)) poll_async_commands u"
  let ?P = "loop_state (failing qs) (ut_warnings u)"
  have step: "?P (?c s) \<and> time_left (?c s) < time_left s" if "?P s" "?b s" for s
  proof -
    obtain r v where s: "s = (r, v)" by (rule prod.exhaust)
    have b: "r = Inr ()" "max_processes \<le> length (ut_subcommands v)" using that(2) unfolding s prod.case by (rule conjunct1, rule conjunct2)
    have "0 < length (ut_subcommands v)" using b(2) assms(2) by (rule less_le_trans [rotated])
    from loop_step [OF that(1) [unfolded s] b(1) this] show ?thesis unfolding s prod.case .
  qed
  have "\<exists>x. while_option ?b ?c (poll_async_commands u) = Some x"
    by (rule measure_while_option_Some [where P = ?P and f = time_left]) (use step loop_state_poll [OF t] in blast)+
  then obtain x where x: "while_option ?b ?c (poll_async_commands u) = Some x" by blast
  have "?P x" by (rule while_option_rule [OF _ x]) (use step loop_state_poll [OF t] in blast)+
  moreover have "\<not> ?b x" by (rule while_option_stop [OF x])
  ultimately show ?thesis using x unfolding wait_for_some_async_commands_def by (cases x) auto
qed

lemma wait_for_some_hangs:
  assumes t: "transferring qs u" and "\<not> failing qs"
  shows "wait_for_some_async_commands 0 u = None"
proof -
  let ?b = "\<lambda>(r, u). r = Inr () \<and> 0 \<le> length (ut_subcommands u)"
  let ?c = "\<lambda>(r :: exn + unit, u). andthen (on_procs (sleep 1)) poll_async_commands u"
  have slept: "transferring qs (snd (on_procs (sleep 1) u))" if "transferring qs u" for qs and u :: "'a utility"
    using that by (auto simp: on_procs_sleep transferring_def queued_def unreaped_def)
  have step: "\<exists>ws. loop_state False ws (?c s)" if at: "\<exists>ws. loop_state False ws s" for s :: "(exn + unit) \<times> 'a utility"
  proof -
    obtain r u where s: "s = (r, u)" by (cases s)
    from at obtain qs where qs: "transferring qs u" "\<not> failing qs" unfolding s loop_state_def by auto
    have "?c s = poll_async_commands (snd (on_procs (sleep 1) u))"
      unfolding s by (simp add: on_procs_sleep andthen_run)
    then show ?thesis using loop_state_poll [OF slept [OF qs(1)]] qs(2) by auto
  qed
  have "while_option ?b ?c (poll_async_commands u) = None"
  proof (rule ccontr)
    assume "while_option ?b ?c (poll_async_commands u) \<noteq> None"
    then obtain x where x: "while_option ?b ?c (poll_async_commands u) = Some x" by blast
    have "\<exists>ws. loop_state False ws x"
      by (rule while_option_rule [OF _ x]) (use step loop_state_poll [OF t] assms(2) in auto)
    moreover have "\<not> ?b x" by (rule while_option_stop [OF x])
    ultimately show False unfolding loop_state_def by auto
  qed
  then show ?thesis by (simp add: wait_for_some_async_commands_def)
qed

section \<open>Executing transfers and other calls\<close>

text \<open>
  What a call is, for the properties: a transfer with the time it takes and its outcome, or a method that answers
  at once, possibly with warnings. The outcome of a transfer fits into its pipe.
\<close>

datatype 'x utility_step =
    Transfer string nat "exn + unit"
  | Answer string 'x "string list"

primrec method_of_step :: "'x utility_step \<Rightarrow> (unit, 'x option) method_call" where
  "method_of_step (Transfer name duration result) =
     \<lparr>mc_method = name, mc_execute_on = bnd (run_async_command (child_of True duration result)) (\<lambda>_. ret None)\<rparr>"
| "method_of_step (Answer name x warnings) =
     \<lparr>mc_method = name, mc_execute_on = andthen (for_each warnings utility_warn) (ret (Some x))\<rparr>"

primrec step_result :: "'x utility_step \<Rightarrow> 'x option" where
  "step_result (Transfer name duration result) = None"
| "step_result (Answer name x warnings) = Some x"

primrec step_warnings :: "'x utility_step \<Rightarrow> string list" where
  "step_warnings (Transfer name duration result) = []"
| "step_warnings (Answer name x warnings) = warnings"

primrec step_fails :: "'x utility_step \<Rightarrow> bool" where
  "step_fails (Transfer name duration result) \<longleftrightarrow> (case result of Inl e \<Rightarrow> True | Inr x \<Rightarrow> False)"
| "step_fails (Answer name x warnings) \<longleftrightarrow> False"

lemma warn_all: "for_each ws utility_warn u = (Inr (), u\<lparr>ut_warnings := ut_warnings u @ ws\<rparr>)"
  by (induction ws arbitrary: u) (simp_all add: utility_warn_def andthen_run modify_run ret_def)

text \<open>Starting a transfer.\<close>

lemma run_async_run:
  assumes "transferring qs u" "\<not> ch_blocked c"
  shows "\<exists>u' p c'. run_async_command c u = (Inr (), u') \<and> transferring (qs @ [(length (pr_tasks (ut_procs u)), p, c')]) u' \<and>
    ch_status c' = ch_status c \<and> ut_warnings u' = ut_warnings u \<and> pr_now (ut_procs u') = pr_now (ut_procs u)"
proof -
  let ?w = "ut_procs u" and ?i = "length (pr_tasks (ut_procs u))" and ?p = "pr_next_pid (ut_procs u)"
  let ?c = "c\<lparr>ch_end := pr_now ?w + ch_end c\<rparr>"
  let ?w1 = "?w\<lparr>pr_tasks := pr_tasks ?w @ [new_subcommand c]\<rparr>"
  let ?w2 = "?w1\<lparr>pr_next_pid := ?p + 1, pr_children := (?p, ?c) # pr_children ?w,
      pr_tasks := pr_tasks ?w @ [(new_subcommand c)\<lparr>sc_pid := Some ?p\<rparr>]\<rparr>"
  have "fork_start ?i ?w1 = (Inr (), ?w2)"
    using fork_start_run [of ?i ?w1] by (simp add: new_subcommand_def)
  then have "run_async_command c u = (Inr (), u\<lparr>ut_procs := ?w2, ut_subcommands := ut_subcommands u @ [?i]\<rparr>)"
    using on_procs_run [of "fork_start ?i" "u\<lparr>ut_procs := ?w1, ut_subcommands := ut_subcommands u @ [?i]\<rparr>" "Inr ()" ?w2]
    by (simp add: run_async_command_def)
  moreover have "queued (qs @ [(?i, ?p, ?c)]) ?w2"
  proof -
    have "unreaped ?w2 ?i ?p ?c" using assms(2) by (simp add: unreaped_def new_subcommand_def)
    moreover have "unreaped ?w2 j q d \<and> q < pr_next_pid ?w2 \<and> q \<noteq> ?p" if "(j, q, d) \<in> set qs" for j q d
      using assms that by (auto simp: transferring_def queued_def unreaped_def nth_append)
    moreover have "distinct (map (\<lambda>(i, p, c). p) qs)" using assms by (simp add: transferring_def queued_def)
    ultimately show ?thesis by (auto simp: queued_def)
  qed
  moreover have "ut_subcommands u = map fst qs" using assms by (simp add: transferring_def)
  ultimately show ?thesis by (intro exI [of _ "u\<lparr>ut_procs := ?w2, ut_subcommands := ut_subcommands u @ [?i]\<rparr>"] exI [of _ ?p] exI [of _ ?c])
      (simp add: transferring_def)
qed

lemma step_run:
  assumes "transferring qs u"
  shows "\<exists>u' qs'. mc_execute_on (method_of_step s) u = (Inr (step_result s), u') \<and> transferring qs' u' \<and>
    (failing qs' \<longleftrightarrow> failing qs \<or> step_fails s) \<and> ut_warnings u' = ut_warnings u @ step_warnings s"
proof (cases s)
  case (Transfer name d r)
  have "\<not> ch_blocked (child_of True d r)" by (simp add: child_of_def)
  from run_async_run [OF assms this] obtain u' p c where
    u': "run_async_command (child_of True d r) u = (Inr (), u')" "transferring (qs @ [(length (pr_tasks (ut_procs u)), p, c)]) u'"
      "ch_status c = ch_status (child_of True d r)" "ut_warnings u' = ut_warnings u" by blast
  have "ch_status c \<noteq> 0 \<longleftrightarrow> step_fails s" using u'(3) by (cases r) (simp_all add: child_of_def Transfer)
  then have "failing (qs @ [(length (pr_tasks (ut_procs u)), p, c)]) \<longleftrightarrow> failing qs \<or> step_fails s"
    by (auto simp: failing_def)
  with u' show ?thesis by (intro exI [of _ u'] exI conjI) (simp_all add: Transfer bnd_run ret_run)
next
  case (Answer name x ws)
  have "transferring qs (u\<lparr>ut_warnings := ut_warnings u @ ws\<rparr>)" using assms by (simp add: transferring_def)
  then show ?thesis by (intro exI [of _ "u\<lparr>ut_warnings := ut_warnings u @ ws\<rparr>"] exI [of _ qs])
      (simp add: Answer warn_all andthen_run ret_run)
qed

text \<open>All calls: they return, with a failure exactly when a transfer that was met has failed.\<close>

lemma run_calls_run:
  assumes "0 < max_processes"
  shows "transferring qs u \<Longrightarrow> length qs < max_processes \<Longrightarrow>
    \<exists>r u'. run_calls max_processes (map method_of_step ss) u = Some (r, u') \<and>
     ((r = Inl SubcommandError \<and> (failing qs \<or> list_ex step_fails ss)) \<or>
      (r = Inr (map step_result ss) \<and> ut_warnings u' = ut_warnings u @ concat (map step_warnings ss) \<and>
        (\<exists>qs'. transferring qs' u' \<and> (failing qs' \<longleftrightarrow> failing qs \<or> list_ex step_fails ss))))"
proof (induction ss arbitrary: qs u)
  case Nil
  then show ?case by (auto simp: ends_def ret_def)
next
  case (Cons s ss)
  from step_run [OF Cons.prems(1), of s] obtain u1 qs1 where
    u1: "mc_execute_on (method_of_step s) u = (Inr (step_result s), u1)" "transferring qs1 u1"
      "failing qs1 \<longleftrightarrow> failing qs \<or> step_fails s" "ut_warnings u1 = ut_warnings u @ step_warnings s" by blast
  let ?wait = "\<lambda>u. if max_processes \<le> length (ut_subcommands u) then wait_for_some_async_commands max_processes u else ends (ret ()) u"
  have first: "ends (mc_execute_on (method_of_step s)) u = Some (Inr (step_result s), u1)" using u1(1) by (simp add: ends_def)
  have "\<exists>x. ?wait u1 = Some x \<and> ((fst x = Inl SubcommandError \<and> failing qs1) \<or>
      (\<exists>qs2. fst x = Inr () \<and> transferring qs2 (snd x) \<and> (failing qs2 \<longleftrightarrow> failing qs1) \<and> length qs2 < max_processes \<and> ut_warnings (snd x) = ut_warnings u1))"
  proof (cases "max_processes \<le> length (ut_subcommands u1)")
    case True
    from wait_for_some_ends [OF u1(2) assms] obtain x where
      x: "wait_for_some_async_commands max_processes u1 = Some x" "loop_state (failing qs1) (ut_warnings u1) x"
        "fst x = Inr () \<longrightarrow> length (ut_subcommands (snd x)) < max_processes" by blast
    have "(fst x = Inl SubcommandError \<and> failing qs1) \<or>
      (\<exists>qs2. fst x = Inr () \<and> transferring qs2 (snd x) \<and> (failing qs2 \<longleftrightarrow> failing qs1) \<and> length qs2 < max_processes \<and> ut_warnings (snd x) = ut_warnings u1)"
      using x(2,3) by (auto simp: loop_state_def transferring_def)
    with x(1) True show ?thesis by auto
  next
    case False
    then show ?thesis using u1(2) by (auto simp: ends_def ret_def transferring_def)
  qed
  then obtain r2 u2 where wait: "?wait u1 = Some (r2, u2)" and x: "(r2 = Inl SubcommandError \<and> failing qs1) \<or>
      (\<exists>qs2. r2 = Inr () \<and> transferring qs2 u2 \<and> (failing qs2 \<longleftrightarrow> failing qs1) \<and> length qs2 < max_processes \<and> ut_warnings u2 = ut_warnings u1)"
    by auto
  have split: "run_calls max_processes (map method_of_step (s # ss)) u = lbnd ?wait (\<lambda>_.
      lbnd (run_calls max_processes (map method_of_step ss)) (\<lambda>results. ends (ret (step_result s # results)))) u1"
    by (simp add: lbnd_run(2) [of "ends (mc_execute_on (method_of_step s))", OF first])
  from x show ?case
  proof
    assume "r2 = Inl SubcommandError \<and> failing qs1"
    then show ?thesis unfolding split using wait u1(3) by (auto simp: lbnd_def)
  next
    assume "\<exists>qs2. r2 = Inr () \<and> transferring qs2 u2 \<and> (failing qs2 \<longleftrightarrow> failing qs1) \<and> length qs2 < max_processes \<and> ut_warnings u2 = ut_warnings u1"
    then obtain qs2 where qs2: "r2 = Inr ()" "transferring qs2 u2" "failing qs2 \<longleftrightarrow> failing qs1" "length qs2 < max_processes"
      "ut_warnings u2 = ut_warnings u1" by blast
    from Cons.IH [OF qs2(2,4)] obtain r3 u3 where u3: "run_calls max_processes (map method_of_step ss) u2 = Some (r3, u3)"
      "(r3 = Inl SubcommandError \<and> (failing qs2 \<or> list_ex step_fails ss)) \<or>
       (r3 = Inr (map step_result ss) \<and> ut_warnings u3 = ut_warnings u2 @ concat (map step_warnings ss) \<and>
        (\<exists>qs'. transferring qs' u3 \<and> (failing qs' \<longleftrightarrow> failing qs2 \<or> list_ex step_fails ss)))" by blast
    have rest: "run_calls max_processes (map method_of_step (s # ss)) u =
        lbnd (run_calls max_processes (map method_of_step ss)) (\<lambda>results. ends (ret (step_result s # results))) u2"
      unfolding split using wait by (simp add: lbnd_def qs2(1))
    from u3(2) show ?thesis
    proof
      assume "r3 = Inl SubcommandError \<and> (failing qs2 \<or> list_ex step_fails ss)"
      then show ?thesis unfolding rest using u3(1) u1(3) qs2(3) by (auto simp: lbnd_def)
    next
      assume r3: "r3 = Inr (map step_result ss) \<and> ut_warnings u3 = ut_warnings u2 @ concat (map step_warnings ss) \<and>
        (\<exists>qs'. transferring qs' u3 \<and> (failing qs' \<longleftrightarrow> failing qs2 \<or> list_ex step_fails ss))"
      then have "run_calls max_processes (map method_of_step (s # ss)) u = Some (Inr (map step_result (s # ss)), u3)"
        unfolding rest using u3(1) by (simp add: lbnd_def ends_def ret_def)
      moreover have "ut_warnings u3 = ut_warnings u @ concat (map step_warnings (s # ss))" using r3 qs2(5) u1(4) by simp
      moreover have "\<exists>qs'. transferring qs' u3 \<and> (failing qs' \<longleftrightarrow> failing qs \<or> list_ex step_fails (s # ss))"
        using r3 qs2(3) u1(3) by auto
      ultimately show ?thesis by blast
    qed
  qed
qed

text \<open>Waiting for the rest.\<close>

lemma wait_all_run:
  assumes "queued qs (ut_procs u)"
  shows "\<exists>u'. lfor_each (map fst qs) wait_for_command u =
      Some (if failing qs then Inl SubcommandError else Inr (), u') \<and> ut_warnings u' = ut_warnings u"
  using assms
proof (induction qs arbitrary: u)
  case Nil
  then show ?case by (simp add: failing_def ret_def)
next
  case (Cons q qs)
  obtain i p c where q: "q = (i, p, c)" by (cases q)
  from Cons.prems have at: "unreaped (ut_procs u) i p c" and new: "p \<notin> pids qs" and qs: "queued qs (ut_procs u)"
    unfolding q queued_Cons by simp_all
  from wait_child [OF at] obtain w where
    w: "fork_waitfor i None (ut_procs u) = Some (if ch_status c \<noteq> 0 then Inl SubcommandError else Inr (Some 0), w)" "others_kept {p} (ut_procs u) w"
    by blast
  let ?u = "u\<lparr>ut_procs := w\<rparr>"
  show ?case
  proof (cases "ch_status c = 0")
    case False
    then have "wait_for_command i u = Some (Inl SubcommandError, ?u)"
      using on_procs_waiting_run [of "fork_waitfor i None", OF w(1)] by (simp add: wait_for_command_def lbnd_def)
    then show ?thesis using False by (simp add: q lbnd_run(1) failing_def)
  next
    case True
    then have run: "wait_for_command i u = Some (Inr (), ?u)"
      using on_procs_waiting_run [of "fork_waitfor i None", OF w(1)] by (simp add: wait_for_command_def lbnd_def ret_run)
    have "queued qs (ut_procs ?u)" using queued_kept [OF qs w(2)] new by simp
    from Cons.IH [OF this] show ?thesis using run True by (simp add: q lbnd_run(2) failing_def)
  qed
qed



text \<open>
  A drone with \<open>max_transfer_processes\<close> 0 (scheduler/drone_utility.py, \<open>execute_calls\<close>). No call of a drone returns
  any more, also when there is nothing to transfer: the loop waits for fewer than no processes.
\<close>

lemma no_transfer_processes_hangs:
  assumes "ut_subcommands u = []" "\<not> step_fails step"
  shows "execute_method_calls summary 0 (method_of_step step # calls) u = None"
proof -
  have t: "transferring [] u" using assms(1) by (simp add: transferring_def queued_def)
  from step_run [OF t, of step] obtain u1 qs1 where
    u1: "mc_execute_on (method_of_step step) u = (Inr (step_result step), u1)" "transferring qs1 u1" "\<not> failing qs1"
    using assms(2) by (auto simp: failing_def)
  have "run_calls 0 (method_of_step step # calls) u = None"
    using u1(1) wait_for_some_hangs [OF u1(2,3)] by (simp add: lbnd_def ends_def)
  then show ?thesis by (simp add: execute_method_calls_def lbnd_def)
qed

lemma no_transfer_processes_hangs_witness:
  "execute_method_calls (\<lambda>_ _. ''slow'') 0 [method_of_step (Answer ''refresh'' (5 :: nat) [])]
     \<lparr>ut_procs = \<lparr>pr_now = 0, pr_next_pid = 7, pr_children = [], pr_tasks = [], pr_cwd = ''/'', pr_dirs = [''/''], pr_files = []\<rparr>, ut_subcommands = [], ut_warnings = []\<rparr> = None"
  by (rule no_transfer_processes_hangs) simp_all

end
