(* ===== verification/Recurring.thy ===== *)
theory Recurring
  imports Job_Entries
begin

text \<open>
  Recurring runs: their table (frontend/afe/models.py, rpc\_interface.py), what is read from the template job
  (\<open>get_job_info\<close> of rpc\_utils.py, \<open>get_object_dict\<close> of model\_logic.py), and
  \<open>Dispatcher._process_recurring_runs\<close> of scheduler/monitor\_db.py.
\<close>

section \<open>The table\<close>

record recurring_run =
  ru_id :: nat
  ru_job_id :: nat
  ru_owner_id :: nat
  ru_start_date :: int
  ru_loop_period :: int
  ru_loop_count :: int

text \<open>The database with the table of recurring runs, which no other component reads.\<close>

record recurring_state =
  rs_world :: world
  rs_runs :: "recurring_run list"

type_synonym 'a recurring = "(recurring_state, 'a) exm"

definition on_world :: "'a sched \<Rightarrow> 'a recurring" where
  "on_world = zoom rs_world (\<lambda>w s. s\<lparr>rs_world := w\<rparr>)"

definition create_recurring_job :: "nat \<Rightarrow> int \<Rightarrow> int \<Rightarrow> int \<Rightarrow> string \<Rightarrow> nat recurring" where
  "create_recurring_job job start_date loop_period loop_count owner =
     bnd (on_world (user_by_login owner)) (\<lambda>u.
     bnd (on_world fresh_id) (\<lambda>i.
     andthen (modify (\<lambda>s. s\<lparr>rs_runs := put_row ru_id \<lparr>ru_id = i, ru_job_id = job, ru_owner_id = u_id u,
         ru_start_date = start_date, ru_loop_period = loop_period, ru_loop_count = loop_count\<rparr> (rs_runs s)\<rparr>)) (ret i)))"

definition create_recurring_run :: "nat \<Rightarrow> int \<Rightarrow> int \<Rightarrow> int \<Rightarrow> nat recurring" where
  "create_recurring_run job_id start_date loop_period loop_count =
     bnd (on_world current_user) (\<lambda>user.
     bnd (on_world (django_job job_id)) (\<lambda>job.
     create_recurring_job (j_id job) start_date loop_period loop_count (u_login user)))"

definition delete_recurring_runs :: "(recurring_run \<Rightarrow> bool) \<Rightarrow> unit recurring" where
  "delete_recurring_runs filter_data = modify (\<lambda>s. s\<lparr>rs_runs := filter (\<lambda>r. \<not> filter_data r) (rs_runs s)\<rparr>)"

definition get_num_recurring :: "(recurring_run \<Rightarrow> bool) \<Rightarrow> recurring_state \<Rightarrow> nat" where
  "get_num_recurring filter_data s = length (filter filter_data (rs_runs s))"

section \<open>The template job\<close>

record job_info =
  ji_dependencies :: "string list"
  ji_hosts :: "host_row list"
  ji_profiles :: "string list"
  ji_meta_hosts :: "label_row list"
  ji_meta_host_profiles :: "string list"
  ji_meta_host_counts :: "(nat \<times> nat) list"     \<comment> \<open>by the id of the label\<close>
  ji_one_time_hosts :: "host_row list"
  ji_atomic_group :: "atomic_group_row option"
  ji_hostless :: bool

definition no_info :: job_info where
  "no_info = \<lparr>ji_dependencies = [], ji_hosts = [], ji_profiles = [], ji_meta_hosts = [], ji_meta_host_profiles = [],
     ji_meta_host_counts = [], ji_one_time_hosts = [], ji_atomic_group = None, ji_hostless = False\<rparr>"

definition django_label :: "nat \<Rightarrow> label_row sched" where
  "django_label i = bnd (gets (\<lambda>w. find_row l_id i (db_labels w))) (some_or DoesNotExist)"

definition django_atomic_group :: "nat \<Rightarrow> atomic_group_row sched" where
  "django_atomic_group i = bnd (gets (\<lambda>w. find_row ag_id i (db_atomic_groups w))) (some_or DoesNotExist)"

definition get_metahost_counts :: "label_row list \<Rightarrow> (nat \<times> nat) list" where
  "get_metahost_counts metahosts = foldl (\<lambda>d l. alist_put (l_id l) (case map_of d (l_id l) of None \<Rightarrow> 1 | Some n \<Rightarrow> n + 1) d) [] metahosts"

text \<open>The atomic group of the job is the one of the first entry that has one; every later entry must have it too.\<close>

definition info_atomic_group :: "hqe_row \<Rightarrow> job_info \<Rightarrow> job_info sched" where
  "info_atomic_group q info = (case ji_atomic_group info of
       None \<Rightarrow> (case q_atomic_group_id q of
           None \<Rightarrow> ret info
         | Some a \<Rightarrow> bnd (django_atomic_group a) (\<lambda>g. ret (info\<lparr>ji_atomic_group := Some g\<rparr>)))
     | Some g \<Rightarrow> (case q_atomic_group_id q of
           None \<Rightarrow> throw AttributeError
         | Some a \<Rightarrow> bnd (django_atomic_group a) (\<lambda>g'. andthen (assert_that (ag_name g = ag_name g')) (ret info))))"

definition info_entry :: "bool \<Rightarrow> hqe_row \<Rightarrow> job_info \<Rightarrow> job_info sched" where
  "info_entry preserve_metahosts q info =
     (if q_host_id q \<noteq> None \<and> (preserve_metahosts \<or> q_meta_host q = None) then
        (if q_deleted q then ret info else
         bnd (django_host (the (q_host_id q))) (\<lambda>h.
         info_atomic_group q (if h_invalid h then info\<lparr>ji_one_time_hosts := ji_one_time_hosts info @ [h]\<rparr>
           else info\<lparr>ji_hosts := ji_hosts info @ [h], ji_profiles := ji_profiles info @ [q_profile q]\<rparr>)))
      else (case q_meta_host q of
         Some l \<Rightarrow> bnd (django_label l) (\<lambda>lab. info_atomic_group q
             (info\<lparr>ji_meta_hosts := ji_meta_hosts info @ [lab], ji_meta_host_profiles := ji_meta_host_profiles info @ [q_profile q]\<rparr>))
       | None \<Rightarrow> info_atomic_group q (info\<lparr>ji_hostless := True\<rparr>)))"

definition dependency_names :: "nat \<Rightarrow> world \<Rightarrow> string list" where
  "dependency_names job w = map l_name (filter (\<lambda>l. (job, l_id l) \<in> set (db_jobs_dependency_labels w)) (db_labels w))"

definition get_job_info :: "job_row \<Rightarrow> bool \<Rightarrow> (hqe_row \<Rightarrow> bool) \<Rightarrow> job_info sched" where
  "get_job_info job preserve_metahosts queue_entry_filter =
     bnd (gets (\<lambda>w. filter (\<lambda>q. q_job_id q = j_id job \<and> queue_entry_filter q) (db_hqes w))) (\<lambda>queue_entries.
     bnd (fold_each queue_entries no_info (info_entry preserve_metahosts)) (\<lambda>info.
     bnd (gets (dependency_names (j_id job))) (\<lambda>names.
     ret (info\<lparr>ji_dependencies := names, ji_meta_host_counts := get_metahost_counts (ji_meta_hosts info)\<rparr>))))"

text \<open>
  \<open>job.get_object_dict()\<close>: the fields of the row, choices by their names, the drone set as the name of the set
  its id stands for. Dependencies and keyvals are relations, not fields.
\<close>

definition human_readable :: "(int \<times> string) list \<Rightarrow> int \<Rightarrow> choice" where
  "human_readable table n = (case map_of table n of Some s \<Rightarrow> Choice_name s | None \<Rightarrow> Choice_value n)"

definition get_object_dict :: "job_row \<Rightarrow> world \<Rightarrow> job_options" where
  "get_object_dict j w = \<lparr>jo_name = j_name j, jo_priority = Some (human_readable priority_choices (j_priority j)),
     jo_control_file = Some (j_control_file j), jo_control_type = Some (human_readable control_type_choices (j_control_type j)),
     jo_is_template = False, jo_timeout = Some (j_timeout j), jo_max_runtime_hrs = Some (j_max_runtime_hrs j),
     jo_synch_count = Some (j_synch_count j), jo_run_verify = Some (j_run_verify j), jo_email_list = Some (j_email_list j),
     jo_dependencies = [], jo_reboot_before = Some (j_reboot_before j), jo_reboot_after = Some (j_reboot_after j),
     jo_parse_failed_repair = Some (j_parse_failed_repair j), jo_keyvals = [],
     jo_drone_set = Option.bind (j_drone_set_id j) (map_of (db_drone_sets w)), jo_parameterized_job = False,
     jo_reserve_hosts = Some (j_reserve_hosts j)\<rparr>"

section \<open>Processing the runs that are due\<close>

text \<open>The job of a run; whatever its creation raises is logged.\<close>

definition create_job_from_template :: "recurring_run \<Rightarrow> unit sched" where
  "create_job_from_template rrun =
     bnd (django_job (ru_job_id rrun)) (\<lambda>job.
     bnd (get_job_info job False (\<lambda>_. True)) (\<lambda>info.
     bnd (gets (get_object_dict job)) (\<lambda>options.
     bnd (map_each (map h_hostname (ji_one_time_hosts info)) create_one_time_host) (\<lambda>one_time_hosts.
     catch (bnd (django_user (ru_owner_id rrun)) (\<lambda>owner.
         bnd (create_new_job (u_login owner) options (ji_hosts info @ one_time_hosts) (ji_profiles info) (ji_meta_hosts info)
           (ji_meta_host_profiles info) (ji_atomic_group info)) (\<lambda>_. ret ())))
       (\<lambda>ex. ret ())))))"

definition advance_run :: "recurring_run \<Rightarrow> unit recurring" where
  "advance_run rrun =
     (if ru_loop_count rrun = 1 then modify (\<lambda>s. s\<lparr>rs_runs := filter (\<lambda>r. ru_id r \<noteq> ru_id rrun) (rs_runs s)\<rparr>)
      else if ru_loop_count rrun \<noteq> 0 then
        modify (\<lambda>s. s\<lparr>rs_runs := upd_row ru_id (ru_id rrun) (\<lambda>_. rrun\<lparr>ru_start_date := ru_start_date rrun + ru_loop_period rrun,
          ru_loop_count := ru_loop_count rrun - 1\<rparr>) (rs_runs s)\<rparr>)
      else ret ())"

definition process_recurring_runs :: "unit recurring" where
  "process_recurring_runs =
     bnd (gets (\<lambda>s. filter (\<lambda>r. ru_start_date r \<le> w_now (rs_world s)) (rs_runs s))) (\<lambda>recurring_runs.
     for_each recurring_runs (\<lambda>rrun. andthen (on_world (create_job_from_template rrun)) (advance_run rrun)))"

section \<open>Laws\<close>

text \<open>What is left of a run after it was processed.\<close>

definition next_run :: "recurring_run \<Rightarrow> recurring_run list" where
  "next_run r = (if ru_loop_count r = 1 then [] else if ru_loop_count r = 0 then [r]
     else [r\<lparr>ru_start_date := ru_start_date r + ru_loop_period r, ru_loop_count := ru_loop_count r - 1\<rparr>])"

lemma on_world_runs: "on_world m s = (r, s') \<Longrightarrow> rs_runs s' = rs_runs s"
  by (auto simp: on_world_def zoom_def split: prod.splits)

definition advanced :: "recurring_run \<Rightarrow> recurring_run \<Rightarrow> recurring_run list" where
  "advanced r x = (if ru_id x \<noteq> ru_id r then [x] else if ru_loop_count r = 1 then [] else if ru_loop_count r = 0 then [x]
     else [r\<lparr>ru_start_date := ru_start_date r + ru_loop_period r, ru_loop_count := ru_loop_count r - 1\<rparr>])"

lemma advance_run_run: "advance_run r s = (Inr (), s\<lparr>rs_runs := concat (map (advanced r) (rs_runs s))\<rparr>)"
proof -
  consider "ru_loop_count r = 1" | "ru_loop_count r = 0" | "ru_loop_count r \<noteq> 1" "ru_loop_count r \<noteq> 0" by blast
  then show ?thesis
  proof cases
    case 1
    have "concat (map (advanced r) xs) = filter (\<lambda>x. ru_id x \<noteq> ru_id r) xs" for xs
      by (induction xs) (simp_all add: advanced_def 1)
    then show ?thesis by (simp add: advance_run_def 1 modify_def)
  next
    case 2
    have "concat (map (advanced r) xs) = xs" for xs
      by (induction xs) (simp_all add: advanced_def 2)
    then show ?thesis by (simp add: advance_run_def 2 ret_def)
  next
    case 3
    let ?r = "r\<lparr>ru_start_date := ru_start_date r + ru_loop_period r, ru_loop_count := ru_loop_count r - 1\<rparr>"
    have "concat (map (advanced r) xs) = upd_row ru_id (ru_id r) (\<lambda>_. ?r) xs" for xs
      by (induction xs) (simp_all add: advanced_def upd_row_def 3)
    then show ?thesis by (simp add: advance_run_def 3 modify_def)
  qed
qed

lemma next_run_id: "y \<in> set (next_run x) \<Longrightarrow> ru_id y = ru_id x"
  by (auto simp: next_run_def split: if_splits)

lemma advanced_self: "advanced r r = next_run r"
  by (simp add: advanced_def next_run_def)

lemma advanced_other: "(\<And>y. y \<in> set ys \<Longrightarrow> ru_id y \<noteq> ru_id r) \<Longrightarrow> concat (map (advanced r) ys) = ys"
  by (induction ys) (simp_all add: advanced_def)

lemma advance_in_table:
  assumes "distinct (map ru_id xs)" "r \<in> set xs" "r \<notin> done"
  shows "concat (map (advanced r) (concat (map (\<lambda>x. if x \<in> done then next_run x else [x]) xs))) =
    concat (map (\<lambda>x. if x \<in> insert r done then next_run x else [x]) xs)"
proof -
  have one: "concat (map (advanced r) (if x \<in> done then next_run x else [x])) = (if x \<in> insert r done then next_run x else [x])"
    if "x \<in> set xs" for x
  proof (cases "x = r")
    case True
    then show ?thesis using assms(3) by (simp add: advanced_self)
  next
    case False
    then have "ru_id x \<noteq> ru_id r" using assms(1,2) that by (auto simp: distinct_map inj_on_def)
    then have "ru_id y \<noteq> ru_id r" if "y \<in> set (if x \<in> done then next_run x else [x])" for y
      using that next_run_id [of y x] by (auto split: if_splits)
    then show ?thesis using False by (simp add: advanced_other)
  qed
  have step: "concat (map (advanced r) (concat (map f ys))) = concat (map g ys)"
    if "\<And>x. x \<in> set ys \<Longrightarrow> concat (map (advanced r) (f x)) = g x" for f g and ys :: "recurring_run list"
    using that by (induction ys) simp_all
  show ?thesis by (rule step) (rule one)
qed

lemma process_all:
  assumes "distinct (map ru_id xs)"
  shows "for_each rs (\<lambda>rrun. andthen (on_world (create_job_from_template rrun)) (advance_run rrun)) s = (Inr (), s') \<Longrightarrow>
    rs_runs s = concat (map (\<lambda>x. if x \<in> done then next_run x else [x]) xs) \<Longrightarrow>
    distinct rs \<Longrightarrow> set rs \<subseteq> set xs \<Longrightarrow> set rs \<inter> done = {} \<Longrightarrow>
    rs_runs s' = concat (map (\<lambda>x. if x \<in> done \<union> set rs then next_run x else [x]) xs)"
proof (induction rs arbitrary: s "done")
  case Nil
  then show ?case by simp
next
  case (Cons r rs)
  from Cons.prems(1) obtain s1 where s1: "on_world (create_job_from_template r) s = (Inr (), s1)"
    "for_each rs (\<lambda>rrun. andthen (on_world (create_job_from_template rrun)) (advance_run rrun))
       (s1\<lparr>rs_runs := concat (map (advanced r) (rs_runs s1))\<rparr>) = (Inr (), s')"
    by (auto simp: exm_Inr advance_run_run [of r])
  let ?s = "s1\<lparr>rs_runs := concat (map (advanced r) (rs_runs s1))\<rparr>"
  have "rs_runs ?s = concat (map (\<lambda>x. if x \<in> insert r done then next_run x else [x]) xs)"
    using advance_in_table [OF assms, of r "done"] Cons.prems(2,4,5) on_world_runs [OF s1(1)] by simp
  from Cons.IH [OF s1(2) this] Cons.prems(3-5) show ?case by simp
qed

text \<open>
  C21 (scheduler/monitor\_db.py, \<open>_process_recurring_runs\<close>). After a successful turn the runs that were not due are
  as before; of those that were, the last one of a series is gone, one of a bounded series is due a period later
  with one turn less, and one without a bound (count 0) is as before, so that it is due at the next tick again.
\<close>

theorem recurring_runs_advance:
  assumes "process_recurring_runs s = (Inr (), s')" "distinct (map ru_id (rs_runs s))"
  shows "rs_runs s' = concat (map (\<lambda>r. if ru_start_date r \<le> w_now (rs_world s) then next_run r else [r]) (rs_runs s))"
proof -
  let ?due = "filter (\<lambda>r. ru_start_date r \<le> w_now (rs_world s)) (rs_runs s)"
  have "for_each ?due (\<lambda>rrun. andthen (on_world (create_job_from_template rrun)) (advance_run rrun)) s = (Inr (), s')"
    using assms(1) by (simp add: process_recurring_runs_def)
  moreover have "rs_runs s = concat (map (\<lambda>x. if x \<in> {} then next_run x else [x]) (rs_runs s))" by simp
  moreover have "distinct ?due" using assms(2) by (simp add: distinct_map)
  ultimately have "rs_runs s' = concat (map (\<lambda>x. if x \<in> {} \<union> set ?due then next_run x else [x]) (rs_runs s))"
    by (intro process_all [OF assms(2)]) auto
  also have "\<dots> = concat (map (\<lambda>r. if ru_start_date r \<le> w_now (rs_world s) then next_run r else [r]) (rs_runs s))"
    by (intro arg_cong [of _ _ concat] map_cong refl) simp
  finally show ?thesis .
qed

section \<open>The jobs that are created\<close>

definition same_dependencies :: "(nat \<times> nat) list \<Rightarrow> world \<Rightarrow> bool" where
  "same_dependencies ds w \<longleftrightarrow> db_jobs_dependency_labels w = ds"

named_theorems same_deps

lemma deps_fresh_id [same_deps]: "keeps (same_dependencies ds) fresh_id"
  unfolding fresh_id_def by (intro keeps_intro) (simp add: same_dependencies_def)

lemma deps_acl_ops [same_deps]:
  "keeps (same_dependencies ds) (acl_add_user g u)" "keeps (same_dependencies ds) (acl_add_host g h)"
  "keeps (same_dependencies ds) (acl_by_name n)" "keeps (same_dependencies ds) (clean_host h)"
  unfolding acl_add_user_def acl_add_host_def acl_by_name_def clean_host_def
  by (intro keeps_intro; simp add: same_dependencies_def)+

lemma deps_user_save [same_deps]: "keeps (same_dependencies ds) (user_save b u)"
  unfolding user_save_def django_user_def by (intro keeps_intro same_deps) (simp add: same_dependencies_def)

lemma deps_current_user [same_deps]: "keeps (same_dependencies ds) current_user"
  unfolding current_user_def django_user_def by (intro keeps_intro same_deps)

lemma deps_reads [same_deps]:
  "keeps (same_dependencies ds) (django_job j)" "keeps (same_dependencies ds) (django_user u)"
  "keeps (same_dependencies ds) (django_host h)" "keeps (same_dependencies ds) (django_label l)"
  "keeps (same_dependencies ds) (django_atomic_group a)"
  unfolding django_job_def django_user_def django_host_def django_label_def django_atomic_group_def by (intro keeps_intro)+

lemma deps_info [same_deps]: "keeps (same_dependencies ds) (get_job_info j b p)"
  unfolding get_job_info_def info_entry_def info_atomic_group_def by (intro keeps_intro same_deps)

lemma deps_check_hosts [same_deps]: "keeps (same_dependencies ds) (check_for_acl_violation_hosts hs u)"
  unfolding check_for_acl_violation_hosts_def user_by_login_def by (intro keeps_intro same_deps)

lemma deps_host_save [same_deps]: "keeps (same_dependencies ds) (host_save h)"
  unfolding host_save_def now_def Let_def by (intro keeps_intro same_deps) (simp add: same_dependencies_def)

lemma deps_host_save_new [same_deps]: "keeps (same_dependencies ds) (host_save_new h)"
  unfolding host_save_new_def Let_def by (intro keeps_intro same_deps) (simp add: same_dependencies_def)

lemma deps_one_time_host [same_deps]: "keeps (same_dependencies ds) (create_one_time_host n)"
  unfolding create_one_time_host_def Let_def by (intro keeps_intro same_deps)

lemma deps_entry [same_deps]: "keeps (same_dependencies ds) (hqe_save_new q)"
  unfolding hqe_save_new_def hqe_save_def Let_def by (intro keeps_intro same_deps) (simp add: same_dependencies_def)

lemma deps_queue [same_deps]: "keeps (same_dependencies ds) (model_job_queue j ts ps g b)"
  unfolding model_job_queue_def target_enqueue_job_def host_enqueue_job_def label_enqueue_job_def atomic_group_enqueue_job_def
    active_queue_entry_def Let_def
  by (intro keeps_intro same_deps | auto simp: same_dependencies_def split: queue_target.split)+

lemma deps_check_new_job [same_deps]: "keeps (same_dependencies ds) (check_new_job opts hosts ms g)"
  unfolding check_new_job_def check_atomic_group_create_job_def check_hosts_without_group_def check_for_duplicate_hosts_def
    check_job_dependencies_rpc_def check_label_group_def atomic_group_name_def Let_def
  by (intro keeps_intro)

lemma deps_fields [same_deps]: "keeps (same_dependencies ds) (job_fields_checked owner opts hosts)"
  unfolding job_fields_checked_def check_parameterized_job_def drone_set_resolve_name_def drone_set_name_def
    drone_set_get_default_def drone_set_by_name_def now_def Let_def
  by (intro keeps_intro same_deps)

lemma deps_written: "keeps (same_dependencies ds) (job_written opts [] j)"
  unfolding job_written_def job_save_new_def by (intro keeps_intro same_deps) (simp_all add: same_dependencies_def)

lemma deps_create_job: "jo_dependencies opts = [] \<Longrightarrow> keeps (same_dependencies ds) (create_new_job owner opts hosts ps ms mps g)"
proof -
  assume none: "jo_dependencies opts = []"
  have empty: "check_new_job opts hosts ms g w = (Inr deps, w') \<Longrightarrow> deps = []" for deps w w'
    using none by (auto simp: check_new_job_def exm_Inr dependency_objects_def split: if_splits)
  have rest: "keeps (same_dependencies ds) (\<lambda>w. case check_new_job opts hosts ms g w of
      (Inl e, t) \<Rightarrow> (Inl e, t)
    | (Inr deps, t) \<Rightarrow> bnd (job_create owner opts deps hosts) (\<lambda>i.
        andthen (model_job_queue i (targets hosts ms) (ps @ mps) (map_option ag_id g) (jo_is_template opts)) (ret i)) t)"
  proof -
    let ?f = "\<lambda>deps. bnd (job_create owner opts deps hosts) (\<lambda>i.
        andthen (model_job_queue i (targets hosts ms) (ps @ mps) (map_option ag_id g) (jo_is_template opts)) (ret i))"
    have f: "keeps (same_dependencies ds) (?f [])" unfolding job_create_split bnd_assoc by (intro keeps_intro same_deps deps_written)
    show ?thesis
    proof (rule keepsI)
      fix w assume w: "same_dependencies ds w"
      obtain r t where run: "check_new_job opts hosts ms g w = (r, t)" by (cases "check_new_job opts hosts ms g w")
      have t: "same_dependencies ds t" using keepsD [OF deps_check_new_job w, of opts hosts ms g] run by simp
      show "same_dependencies ds (snd (case check_new_job opts hosts ms g w of (Inl e, t) \<Rightarrow> (Inl e, t) | (Inr deps, t) \<Rightarrow> ?f deps t))"
      proof (cases r)
        case (Inl e)
        then show ?thesis using run t by simp
      next
        case (Inr deps)
        then have "deps = []" using run empty by blast
        then show ?thesis using keepsD [OF f t] run Inr by simp
      qed
    qed
  qed
  show ?thesis using rest unfolding create_new_job_def bnd_def [of "check_new_job opts hosts ms g"] .
qed

text \<open>
  C20 (scheduler/monitor\_db.py, \<open>_process_recurring_runs\<close> with frontend/afe/rpc\_utils.py). The jobs of
  recurring runs never depend on a label, whatever the template depends on: no row of the table of dependencies is
  written, as \<open>get_object_dict\<close> has no dependencies and the ones \<open>get_job_info\<close> finds are not used.
\<close>

theorem recurring_jobs_lose_dependencies:
  "db_jobs_dependency_labels (rs_world (snd (process_recurring_runs s))) = db_jobs_dependency_labels (rs_world s)"
proof -
  let ?P = "\<lambda>t. same_dependencies (db_jobs_dependency_labels (rs_world s)) (rs_world t)"
  have template: "keeps (same_dependencies ds) (create_job_from_template r)" for ds r
  proof -
    have gets: "keeps P (bnd (gets f) g)" if "\<And>w. keeps P (g (f w))" for P f and g :: "job_options \<Rightarrow> unit sched"
      using that by (simp add: keeps_def)
    have created: "keeps (same_dependencies ds) (bnd (gets (get_object_dict job)) (\<lambda>options.
        bnd (map_each hosts create_one_time_host) (\<lambda>one_time_hosts. catch (bnd (django_user u) (\<lambda>owner.
          bnd (create_new_job (u_login owner) options (hs @ one_time_hosts) ps ms mps g) (\<lambda>_. ret ()))) (\<lambda>ex. ret ()))))"
      for job hosts u hs ps ms mps g
      by (rule gets, intro keeps_intro same_deps deps_create_job) (simp add: get_object_dict_def)
    show ?thesis unfolding create_job_from_template_def
      by (rule keeps_bnd [OF deps_reads(1)], rule keeps_bnd [OF deps_info], rule created)
  qed
  have "keeps ?P (on_world (create_job_from_template r))" for r
    using template by (auto simp: keeps_def on_world_def zoom_def split: prod.split) (metis snd_conv)
  moreover have "keeps ?P (advance_run r)" for r
    unfolding advance_run_def by (intro keeps_intro) simp_all
  ultimately have "keeps ?P process_recurring_runs"
    unfolding process_recurring_runs_def by (intro keeps_intro)
  from keepsD [OF this, of s] show ?thesis by (simp add: same_dependencies_def)
qed

text \<open>
  A hostless template (frontend/afe/rpc\_utils.py, \<open>create_new_job\<close>): its synchronisation count is at least 1 and
  there are no hosts, so every run of it is refused, and nobody is told.
\<close>

lemma info_of_hostless:
  assumes "list_all (\<lambda>q. q_host_id q = None \<and> q_meta_host q = None \<and> q_atomic_group_id q = None) qs" "ji_atomic_group info = None"
  shows "\<exists>b. fold_each qs info (info_entry False) w = (Inr (info\<lparr>ji_hostless := b\<rparr>), w)"
  using assms
proof (induction qs arbitrary: info)
  case Nil
  then show ?case by (intro exI [of _ "ji_hostless info"]) (simp add: ret_def)
next
  case (Cons q qs)
  then have "info_entry False q info = ret (info\<lparr>ji_hostless := True\<rparr>)" by (simp add: info_entry_def info_atomic_group_def)
  moreover have "\<exists>b. fold_each qs (info\<lparr>ji_hostless := True\<rparr>) (info_entry False) w = (Inr (info\<lparr>ji_hostless := True, ji_hostless := b\<rparr>), w)"
    using Cons.prems by (intro Cons.IH) simp_all
  ultimately show ?case by simp
qed

lemma hostless_run_refused:
  assumes "find_row j_id (ru_job_id r) (db_jobs w) = Some j" "1 \<le> j_synch_count j" "find_row u_id (ru_owner_id r) (db_users w) = Some u"
    and "list_all (\<lambda>q. q_job_id q = j_id j \<longrightarrow> q_host_id q = None \<and> q_meta_host q = None \<and> q_atomic_group_id q = None) (db_hqes w)"
  shows "create_job_from_template r w = (Inr (), w)"
proof -
  let ?qs = "filter (\<lambda>q. q_job_id q = j_id j) (db_hqes w)"
  have "list_all (\<lambda>q. q_host_id q = None \<and> q_meta_host q = None \<and> q_atomic_group_id q = None) ?qs"
    using assms(4) by (auto simp: list_all_iff)
  from info_of_hostless [OF this, of no_info w] obtain b where
    b: "fold_each ?qs no_info (info_entry False) w = (Inr (no_info\<lparr>ji_hostless := b\<rparr>), w)" by (auto simp: no_info_def)
  let ?info = "no_info\<lparr>ji_hostless := b, ji_dependencies := dependency_names (j_id j) w\<rparr>"
  have info: "get_job_info j False (\<lambda>_. True) w = (Inr ?info, w)"
    using b by (simp add: get_job_info_def bnd_run ret_def) (simp add: no_info_def get_metahost_counts_def)
  have job: "django_job (ru_job_id r) w = (Inr j, w)" and user: "django_user (ru_owner_id r) w = (Inr u, w)"
    using assms(1,3) by (simp_all add: django_job_def django_user_def ret_def)
  have "check_new_job (get_object_dict j w) [] [] None w = (Inl ValidationError, w)"
    using assms(2) by (simp add: check_new_job_def check_hosts_without_group_def get_object_dict_def)
      (simp add: throw_def bnd_def andthen_def)
  then have refused: "create_new_job (u_login u) (get_object_dict j w) [] [] [] [] None w = (Inl ValidationError, w)"
    by (simp add: create_new_job_def bnd_run_err)
  show ?thesis
    unfolding create_job_from_template_def
    by (simp add: bnd_run job info no_info_def) (simp add: catch_def bnd_run user bnd_run_err refused ret_def)
qed

section \<open>A run\<close>

definition recurring_sample :: "int \<Rightarrow> int \<Rightarrow> recurring_state" where
  "recurring_sample start_date loop_count = \<lparr>rs_world = request_world\<lparr>db_jobs := [sample_job 7 1]\<rparr>,
     rs_runs = [\<lparr>ru_id = 1, ru_job_id = 7, ru_owner_id = 2, ru_start_date = start_date, ru_loop_period = 60, ru_loop_count = loop_count\<rparr>]\<rparr>"

theorem recurring_runs_advance_witness:
  "map ru_start_date (rs_runs (snd (process_recurring_runs (recurring_sample 0 5)))) = [60]"
proof -
  let ?s = "recurring_sample 0 5"
  have "fst (process_recurring_runs ?s) = Inr ()" by code_simp
  then have "process_recurring_runs ?s = (Inr (), snd (process_recurring_runs ?s))" by (simp add: prod_eq_iff)
  from recurring_runs_advance [OF this] show ?thesis
    by (simp add: recurring_sample_def next_run_def request_world_def empty_world_def)
qed

end
