(* ===== verification/Spec2Isabelle.thy ===== *)
theory Spec2Isabelle
  imports Throttle Parser_Types Parser_V0 Job_State Job_Entries Barrier_Release Net_Address Shell_Text Paths Client_Code Drone_Utility Recurring
begin

text \<open>
  A model of Autotest, the system that runs tests on a grid of machines, and the theorems that make its core
  correct. The library follows the source: one theory per component, in the source's names; every definition is
  executable, errors are values (\<open>exn\<close>), and methods with side effects are computations of the exception-state
  monad of Prelude, in which the state survives an exception as database writes survive a Python \<open>raise\<close>.

  \<^bold>\<open>The program and its parts.\<close> Users create jobs through the frontend (frontend/afe): a job has entries, one
  for each host or metahost it runs on. The scheduler (scheduler/monitor\_db.py) works in ticks: it matches
  entries to hosts, makes agents with tasks for them (verify, repair, clean up, run, gather logs, parse,
  archive), starts the processes of the tasks on drones through the drone manager and watches the pidfiles the
  processes write. A job writes a status log and keyval files; the parsers of tko read them into the result
  database. Machines of one test meet at a barrier (client/shared/base\_barrier.py).

  \<^bold>\<open>Scheduler.\<close>
  \<^item> Enums: \<open>Enum\<close>, statuses of entries, protection levels, reboot settings. Heapq: Python's heap with the
    locale \<open>item_queue\<close>, interpreted on it.
  \<^item> Drones, Drone\_Manager (scheduler/drones.py, drone\_manager.py): drones, processes, pidfiles, the choice of a
    drone; the state is \<open>dmgr\<close>. Pidfile: the writer client/shared/pidfile.py with the parser of the drone manager.
    Drone\_Utility (drone\_utility.py): the calls a drone executes, with transfers in children; the state is
    \<open>utility\<close>.
  \<^item> World: the one state of frontend and scheduler, \<open>world\<close>: rows of the tables (\<open>db_...\<close>), objects of
    scheduler\_models in memory (\<open>mem_...\<close>), the dispatcher's tables, tasks, counters and the clock.
  \<^item> Afe\_Models, Reservations (frontend/afe/models.py, reservations.py): access lists, hosts, jobs, entries.
    Job\_Creation, Job\_Entries (frontend/afe/rpc\_interface.py, rpc\_utils.py): \<open>create_job\<close> with all its checks
    and the rows it writes, and the abort of entries. Recurring (also monitor\_db.py): runs that create the job of
    a template again and again; the state is \<open>recurring_state\<close>, the world with the table of runs.
  \<^item> Hostnames, Sched\_Models, Job\_Flow (scheduler/scheduler\_models.py): the object layer, hosts and entries with
    their status changes, and the way of a job's entries from Verifying to Starting.
  \<^item> Host\_Scheduler (host\_scheduler.py, metahost\_scheduler.py): eligibility, metahosts and atomic groups, with
    the locale \<open>scheduling_utility\<close>, the interface the metahost scheduler gets from the host scheduler.
  \<^item> Monitors, Agent\_Tasks, Task\_Lifecycle, Cleanup, Dispatcher (monitor\_db.py, monitor\_db\_cleanup.py): what a
    task knows of its process, the task classes, their life from \<open>poll\<close> to \<open>epilog\<close>, the periodic cleanup and
    the tick.
  \<^item> Frame, Throttle: the locales \<open>frame\<close>, \<open>lowered\<close> and \<open>dispatching\<close> say what a predicate on the state
    needs to be kept by a whole tick; Throttle interprets them on the limits of processes.

  \<^bold>\<open>Results.\<close>
  \<^item> Texts, Status\_Log (client/shared/log.py, base\_job.py): entries of a status log and their text.
    Status\_Lib (tko/status\_lib.py): the order of statuses, the status stack, the lines read back.
  \<^item> Keyval, Tko\_Models (client/shared/utils.py, tko/utils.py, tko/models.py): keyval files, jobs, kernels, tests.
  \<^item> Tko\_Parser, Parser\_Loop, Parser\_Calls, Parser\_Types (tko/parsers/version\_1.py, base.py): the generator as a
    state machine; its loop ends; what the calls return. Parser\_V0: the parser of old logs (version\_0.py).
  \<^item> Job\_State (client/shared/base\_job.py): the state of a job with its backing file, and the names of tests.

  \<^bold>\<open>Client.\<close>
  \<^item> Client\_Job (client/job.py, client/parallel.py): tests, groups and parallel tasks with what they log, reboots,
    the step engine and \<open>runjob\<close>; the state is \<open>client_job\<close>, what a control file does is the record \<open>job_env\<close>.
    Client\_Log: the log a computation continues, the calculus \<open>orderly\<close> and its rules for every operation.
    Client\_Runs: the engine and a whole run; the log of a client read by the parser of tko; the queue of steps.
    Client\_Code: what a control file may do with a job as one inductive predicate, \<open>control_code\<close>, a rule per call,
    and the balance of the log of every run of such code.

  \<^bold>\<open>Shared code.\<close>
  \<^item> Barrier, Barrier\_Safety, Barrier\_Release (client/shared/base\_barrier.py): a master and its slaves as a
    system of steps (\<open>barrier_step\<close>); invariants of reachable states; safety of the release.
  \<^item> Subcommand (server/subcommand.py): functions in children, with their log directories, pipes, timeouts and
    kills; a child whose pickle does not fit into its pipe waits for a reader.
  \<^item> Net\_Address, Shell\_Text, Paths (client/shared/utils.py, server/base\_utils.py, client/cpuset.py).

  \<^bold>\<open>What the lemmas show.\<close> The \<open>keeps\<close> calculus of Prelude proves a predicate kept by a method from the
  methods it calls; its users are the framing of ticks (Frame), the shape and the typing of parser states
  (Parser\_Loop, Parser\_Types) and the refused requests (Job\_Creation). The rules of \<open>orderly\<close> (Client\_Log) do the
  same for the log of a client job: a computation built from orderly ones continues the log as nested blocks, and
  with the parser's depth (\<open>parser_depth_waiting\<close>) client and result parser are shown to agree. Control code is
  orderly by induction over its rules (\<open>control_code_orderly\<close>), from which a run closes what it opened
  (\<open>run_ends\<close>). Refinement lemmas relate the status stack
  to the lists of reports (\<open>status_stack_refines\<close>) and the job states sharing a file to one dictionary
  (\<open>shared_state_refines\<close>). Equivalences compare the eligibility chain, the metahost loop, the comparison of
  versions and the abort check with their specifications. Round trips relate each writer to its reader.

  \<^bold>\<open>Bounds and fuel.\<close> \<open>run_loop\<close> of the parser has a bound on its turns; \<open>turns\<close> is enough for every buffer and
  stack (\<open>run_loop_ends\<close>). \<open>build_dirs\<close> looks at one name more than there are files and directories
  (\<open>build_dirs_end\<close>), \<open>patch_names\<close> at one more than there are fields. Loops that may not end
  (\<open>find_toplevel_job_dir\<close>, \<open>take_tuples\<close>) are \<open>partial_function (option)\<close> with theorems that say when they do.
  \<open>run_steps\<close> has a bound on the steps it runs, as steps can add steps forever: a greater bound changes nothing once
  the engine has ended (\<open>run_steps_more\<close>), and one more than there are steps is enough when they add none
  (\<open>run_steps_end\<close>). The wait for room among the transfers of a drone is \<open>while_option\<close>: it
  ends when there may be at least one (\<open>wait_for_some_ends\<close>) and hangs when there may be none
  (\<open>no_transfer_processes_hangs\<close>). Waiting for a child that waits for a reader of its pipe never returns: the
  computations of Subcommand that may do so are options (\<open>looping\<close>), None when they run forever, and the
  properties say when they return. All other recursion is structural or has a measure.

  \<^bold>\<open>Parameters.\<close> What is not in the repository or the standard library is an argument of the definitions that
  use it: the answers of drones, the install server, formatted times, MD5, the texts of floating point numbers,
  the file system a parser reads, what the constructor of a client job raises outside the modelled part, which
  pickles fit into a pipe. Sockets are queues of messages with timeouts and errors as events.

  \<^bold>\<open>Abstractions.\<close> Rows of the database and the objects in memory that copy them are two layers, as in the code;
  all tables share one counter of new ids. Logging and the texts of mails are left out. Times are integers,
  sets lists without duplicates, dictionaries association lists in the order of iteration. The garbage collection
  of cached objects and the cache of one-time reads of related objects are not modelled, nor \<open>parameterized_job_id\<close>,
  \<open>synch_id\<close>, the relations of tests to labels, the cleanup of web sessions and the statistics of the garbage
  collector. \<open>AtomicGroup\<close> and \<open>Label\<close> have one layer. \<open>list.sort\<close> with a comparison that may raise is the binary
  insertion Python uses for short lists. Filters of queries are predicates and texts compare case by case. The
  parsers read a snapshot of the files; values that are floating point numbers stay texts. Methods of processes
  that share a state file run one after another, under the file lock the code takes. A call of \<open>recv\<close> in a barrier
  returns one message as it was sent, and whichever slave accepts a call of the master is at its other end.
  How a shell reads a quoted word is a specification. The children of a client's \<open>parallel\<close> do not read each
  other's files and run one after another; a child that exits does not run the rest of its parent's frames.
  A subcommand takes a fixed time and ends at the first signal; time passes while its parent sleeps or waits.
  Its function raises no \<open>SystemExit\<close>, and a log directory can be made when its parent is a directory.

  \<^bold>\<open>Not modelled.\<close> Processes, files and sockets behind the parameters above: the body of a test and its
  harness on the client, what a drone does to its files, jobs of the server through ssh, SQL and the other entry points of the frontend, command line clients, mail, profilers
  and tools; site-specific schedulers are not in the repository. They are input and output around the modelled
  logic, or presentation.
\<close>

end
